(* ===== verification/Prelude.thy ===== *)
theory Prelude
  imports Main "HOL-Library.Word" "HOL-Library.Monad_Syntax" "HOL-Library.Signed_Division"
begin

text \<open>
  Shared ground of the development: the integer types of \<^verbatim>\<open>base/base.h\<close> as words, the
  little-endian byte encoding the x86-64 target stores them in, bounded loops in the style of
  \<^verbatim>\<open>foreach_index\<close>, and the list and option lemmas several components use.

  A computation that has no defined continuation in C (an access outside every object, an
  undefined operation, a call of \<^verbatim>\<open>abort\<close>) is the value \<^term>\<open>None\<close> of the option monad.
\<close>

unbundle bit_operations_syntax

named_theorems codec "round trips of the byte encodings"
named_theorems reader "unfolding rules of the bounds-checked cache reader"

section \<open>Machine integers\<close>

type_synonym u8 = "8 word"
type_synonym u16 = "16 word"
type_synonym u32 = "32 word"
type_synonym u64 = "64 word"
type_synonym i64 = "64 word"

type_synonym bytes = "u8 list"

text \<open>Characters of C source text are bytes; \<open>byte_of\<close> and \<open>char_of_byte\<close> are the casts.\<close>

definition byte_of :: "char \<Rightarrow> u8" where
  "byte_of c = of_char c"

definition char_of_byte :: "u8 \<Rightarrow> char" where
  "char_of_byte b = char_of (unat b)"

lemma unat_of_char_byte: "unat (of_char c :: u8) = of_char c"
proof -
  have "(of_char c :: u8) = of_nat (of_char c)"
    by (simp add: of_nat_of_char)
  moreover have "(of_char c :: nat) < 256"
    by (rule nat_of_char_less_256)
  ultimately show ?thesis
    by (simp add: unsigned_of_nat take_bit_nat_eq_self)
qed

lemma char_of_byte_byte_of [simp, codec]: "char_of_byte (byte_of c) = c"
  by (simp add: char_of_byte_def byte_of_def unat_of_char_byte)

lemma byte_of_char_of_byte [simp, codec]: "byte_of (char_of_byte b) = b"
proof -
  have "unat b < 256" using unsigned_less [of b] by simp
  then show ?thesis
    by (simp add: char_of_byte_def byte_of_def unat_of_char_byte of_char_of of_nat_of_char
        word_unat_eq_iff)
qed

section \<open>Little-endian bytes\<close>

text \<open>The bytes a \<^verbatim>\<open>memcpy\<close> of an integer object writes, least significant byte first.\<close>

definition le_bytes :: "nat \<Rightarrow> 'a::len word \<Rightarrow> bytes" where
  "le_bytes n w = map (\<lambda>i. ucast (drop_bit (8 * i) w)) [0..<n]"

fun le_word :: "bytes \<Rightarrow> 'a::len word" where
  "le_word [] = 0"
| "le_word (b # bs) = ucast b OR push_bit 8 (le_word bs)"

lemma length_le_bytes [simp]: "length (le_bytes n w) = n"
  by (simp add: le_bytes_def)

lemma le_bytes_Suc: "le_bytes (Suc n) w = ucast w # le_bytes n (drop_bit 8 w)"
proof -
  have "[0..<Suc n] = 0 # map Suc [0..<n]"
    by (simp add: map_Suc_upt upt_conv_Cons del: upt_Suc)
  then show ?thesis
    by (simp add: le_bytes_def o_def drop_bit_drop_bit add.commute del: upt_Suc)
qed

lemma ucast_byte_take_bit: "(ucast (ucast (w :: 'a::len word) :: u8) :: 'a word) = take_bit 8 w"
  by (rule bit_word_eqI) (auto simp: bit_simps)

lemma le_word_le_bytes_take: "(le_word (le_bytes n w) :: 'a::len word) = take_bit (8 * n) w"
proof (induction n arbitrary: w)
  case 0
  then show ?case by (simp add: le_bytes_def)
next
  case (Suc n)
  have "(le_word (le_bytes (Suc n) w) :: 'a word)
      = take_bit 8 w OR push_bit 8 (take_bit (8 * n) (drop_bit 8 w))"
    by (simp add: le_bytes_Suc ucast_byte_take_bit Suc.IH)
  also have "\<dots> = take_bit (8 * Suc n) w"
    by (rule bit_word_eqI) (auto simp: bit_simps)
  finally show ?case .
qed

lemma le_word_le_bytes [simp, codec]:
  assumes "LENGTH('a) \<le> 8 * n"
  shows "(le_word (le_bytes n (w :: 'a::len word)) :: 'a word) = w"
proof -
  have "take_bit (8 * n) w = w"
    by (rule bit_word_eqI) (use assms in \<open>auto simp: bit_simps dest: bit_imp_le_length\<close>)
  then show ?thesis by (simp add: le_word_le_bytes_take)
qed

lemma le_word_u32 [simp, codec]: "le_word (le_bytes 4 (w :: u32)) = w"
  by (rule le_word_le_bytes) simp

lemma le_word_u64 [simp, codec]: "le_word (le_bytes 8 (w :: u64)) = w"
  by (rule le_word_le_bytes) simp

section \<open>Lists\<close>

lemma take_drop_mid [simp]:
  "length xs = p \<Longrightarrow> length ys = n \<Longrightarrow> take n (drop p (xs @ ys @ zs)) = ys"
  by simp

lemma list_all_nthD: "list_all P xs \<Longrightarrow> i < length xs \<Longrightarrow> P (xs ! i)"
  by (simp add: list_all_length)

section \<open>Decimal text\<close>

text \<open>The digits \<^verbatim>\<open>%llu\<close> prints.\<close>

definition digit_char :: "nat \<Rightarrow> char" where
  "digit_char d = char_of (48 + d)"

fun dec :: "nat \<Rightarrow> string" where
  "dec n = (if n < 10 then [digit_char n] else dec (n div 10) @ [digit_char (n mod 10)])"

declare dec.simps [simp del]

text \<open>What \<^verbatim>\<open>%lld\<close> prints.\<close>

definition dec_int :: "int \<Rightarrow> string" where
  "dec_int i = (if i < 0 then CHR ''-'' # dec (nat (- i)) else dec (nat i))"

definition is_digit_char :: "char \<Rightarrow> bool" where
  "is_digit_char c \<longleftrightarrow> 48 \<le> (of_char c :: nat) \<and> (of_char c :: nat) \<le> 57"

definition digit_val :: "char \<Rightarrow> nat" where
  "digit_val c = of_char c - 48"

definition dec_value :: "string \<Rightarrow> nat" where
  "dec_value = foldl (\<lambda>v c. v * 10 + digit_val c) 0"

lemma of_char_digit_char: "d < 10 \<Longrightarrow> (of_char (digit_char d) :: nat) = 48 + d"
  by (simp add: digit_char_def of_char_of)

lemma is_digit_digit_char [simp]: "d < 10 \<Longrightarrow> is_digit_char (digit_char d)"
  by (simp add: is_digit_char_def of_char_digit_char)

lemma digit_val_digit_char [simp]: "d < 10 \<Longrightarrow> digit_val (digit_char d) = d"
  by (simp add: digit_val_def of_char_digit_char)

lemma dec_nonempty [simp]: "dec n \<noteq> []"
  by (subst dec.simps) simp

lemma dec_digits: "list_all is_digit_char (dec n)"
proof (induction n rule: dec.induct)
  case (1 n)
  then show ?case by (subst dec.simps) simp
qed

lemma dec_value_dec [simp]: "dec_value (dec n) = n"
proof (induction n rule: dec.induct)
  case (1 n)
  show ?case
  proof (cases "n < 10")
    case True
    then show ?thesis by (subst dec.simps) (simp add: dec_value_def)
  next
    case False
    then show ?thesis using 1 by (subst dec.simps) (simp add: dec_value_def)
  qed
qed

lemma dec_inject [simp]: "dec m = dec n \<longleftrightarrow> m = n"
  by (metis dec_value_dec)

lemma unat_of_nat_u32: "n < 2 ^ 32 \<Longrightarrow> unat (of_nat n :: u32) = n"
  by (simp add: unsigned_of_nat take_bit_nat_eq_self)

lemma unat_of_nat_u64: "n < 2 ^ 64 \<Longrightarrow> unat (of_nat n :: u64) = n"
  by (simp add: unsigned_of_nat take_bit_nat_eq_self)

end
