(* ===== verification/Base_String.thy ===== *)
theory Base_String
  imports Prelude
begin

text \<open>
  The string layer of \<^verbatim>\<open>base/base.c\<close> (lines 39--48 and 1176--1828): character classes,
  \<^verbatim>\<open>str8_match\<close> and its flags, needle search in both directions, slicing, trimming and the
  integer readers that follow C's literal rules.  A \<^verbatim>\<open>String8\<close> is the list of the bytes it
  views; sizes and positions are naturals because a view never spans more than the address space,
  except in \<open>str8_find_needle_reverse\<close>, whose loop bound is computed in \<^verbatim>\<open>u64\<close> and can wrap.
\<close>

section \<open>Characters\<close>

abbreviation code :: "char \<Rightarrow> nat" where "code c \<equiv> of_char c"

definition char_is_space :: "char \<Rightarrow> bool" where
  "char_is_space c \<longleftrightarrow> code c = 32 \<or> code c = 10 \<or> code c = 9 \<or> code c = 13 \<or> code c = 12 \<or> code c = 11"

definition char_is_upper :: "char \<Rightarrow> bool" where
  "char_is_upper c \<longleftrightarrow> 65 \<le> code c \<and> code c \<le> 90"

definition char_is_lower :: "char \<Rightarrow> bool" where
  "char_is_lower c \<longleftrightarrow> 97 \<le> code c \<and> code c \<le> 122"

definition char_is_alpha :: "char \<Rightarrow> bool" where
  "char_is_alpha c \<longleftrightarrow> char_is_upper c \<or> char_is_lower c"

definition char_is_slash :: "char \<Rightarrow> bool" where
  "char_is_slash c \<longleftrightarrow> code c = 47 \<or> code c = 92"

definition integer_symbol_reverse :: "nat list" where
  "integer_symbol_reverse = [
    255, 255, 255, 255, 255, 255, 255, 255, 255, 255, 255, 255, 255, 255, 255, 255,
    255, 255, 255, 255, 255, 255, 255, 255, 255, 255, 255, 255, 255, 255, 255, 255,
    255, 255, 255, 255, 255, 255, 255, 255, 255, 255, 255, 255, 255, 255, 255, 255,
    0, 1, 2, 3, 4, 5, 6, 7, 8, 9, 255, 255, 255, 255, 255, 255,
    255, 10, 11, 12, 13, 14, 15, 255, 255, 255, 255, 255, 255, 255, 255, 255,
    255, 255, 255, 255, 255, 255, 255, 255, 255, 255, 255, 255, 255, 255, 255, 255,
    255, 10, 11, 12, 13, 14, 15, 255, 255, 255, 255, 255, 255, 255, 255, 255,
    255, 255, 255, 255, 255, 255, 255, 255, 255, 255, 255, 255, 255, 255, 255, 255]"

definition char_is_digit :: "char \<Rightarrow> nat \<Rightarrow> bool" where
  "char_is_digit c base \<longleftrightarrow>
     0 < base \<and> base \<le> 16 \<and> code c < 128 \<and> integer_symbol_reverse ! code c < base"

definition char_to_lower :: "char \<Rightarrow> char" where
  "char_to_lower c = (if char_is_upper c then char_of (code c + 32) else c)"

definition char_to_upper :: "char \<Rightarrow> char" where
  "char_to_upper c = (if char_is_lower c then char_of (code c - 32) else c)"

definition char_to_correct_slash :: "char \<Rightarrow> char" where
  "char_to_correct_slash c = (if char_is_slash c then CHR ''/'' else c)"

section \<open>Comparison\<close>

definition StringMatchFlag_CaseInsensitive :: u32 where "StringMatchFlag_CaseInsensitive = 1"
definition StringMatchFlag_RightSideSloppy :: u32 where "StringMatchFlag_RightSideSloppy = 2"
definition StringMatchFlag_SlashInsensitive :: u32 where "StringMatchFlag_SlashInsensitive = 4"

lemmas match_flag_defs =
  StringMatchFlag_CaseInsensitive_def StringMatchFlag_RightSideSloppy_def
  StringMatchFlag_SlashInsensitive_def

definition str8_adjust :: "u32 \<Rightarrow> char \<Rightarrow> char" where
  "str8_adjust flags c =
     (let c1 = if flags AND StringMatchFlag_CaseInsensitive \<noteq> 0 then char_to_upper c else c
      in if flags AND StringMatchFlag_SlashInsensitive \<noteq> 0 then char_to_correct_slash c1 else c1)"

text \<open>The loop over the shorter size; \<^verbatim>\<open>result\<close> stays 1 until two adjusted bytes differ.\<close>

fun str8_match_loop :: "u32 \<Rightarrow> string \<Rightarrow> string \<Rightarrow> bool" where
  "str8_match_loop flags (a # as) (b # bs) =
     (if str8_adjust flags a \<noteq> str8_adjust flags b then False else str8_match_loop flags as bs)"
| "str8_match_loop flags _ _ = True"

definition str8_match :: "string \<Rightarrow> string \<Rightarrow> u32 \<Rightarrow> bool" where
  "str8_match a b flags =
     (if length a = length b \<and> flags = 0 then a = b
      else if length a = length b \<or> flags AND StringMatchFlag_RightSideSloppy \<noteq> 0
      then str8_match_loop flags a b
      else False)"

section \<open>Slices\<close>

definition str8_substr :: "string \<Rightarrow> nat \<Rightarrow> nat \<Rightarrow> string" where
  "str8_substr s lo hi =
     (let lo' = min lo (length s); hi' = min hi (length s) in take (hi' - lo') (drop lo' s))"

definition str8_prefix :: "string \<Rightarrow> nat \<Rightarrow> string" where
  "str8_prefix s n = take (min n (length s)) s"

definition str8_skip :: "string \<Rightarrow> nat \<Rightarrow> string" where
  "str8_skip s n = drop (min n (length s)) s"

definition str8_postfix :: "string \<Rightarrow> nat \<Rightarrow> string" where
  "str8_postfix s n = drop (length s - min n (length s)) s"

definition str8_chop :: "string \<Rightarrow> nat \<Rightarrow> string" where
  "str8_chop s n = take (length s - min n (length s)) s"

definition str8_starts_with :: "string \<Rightarrow> string \<Rightarrow> u32 \<Rightarrow> bool" where
  "str8_starts_with s start flags = str8_match start (str8_prefix s (length start)) flags"

definition str8_ends_with :: "string \<Rightarrow> string \<Rightarrow> u32 \<Rightarrow> bool" where
  "str8_ends_with s end' flags = str8_match end' (str8_postfix s (length end')) flags"

definition str8_skip_chop :: "(char \<Rightarrow> bool) \<Rightarrow> string \<Rightarrow> string" where
  "str8_skip_chop p s = rev (dropWhile p (rev (dropWhile p s)))"

definition str8_skip_chop_whitespace :: "string \<Rightarrow> string" where
  "str8_skip_chop_whitespace = str8_skip_chop char_is_space"

definition str8_skip_chop_slashes :: "string \<Rightarrow> string" where
  "str8_skip_chop_slashes = str8_skip_chop char_is_slash"

section \<open>Searching\<close>

text \<open>The test the forward loop makes at position \<open>p\<close>: the first byte compared with only case
  adjusted, the tail through \<open>str8_match\<close> with the sloppy flag added.\<close>

definition str8_needle_at :: "string \<Rightarrow> string \<Rightarrow> u32 \<Rightarrow> nat \<Rightarrow> bool" where
  "str8_needle_at s needle flags p =
     (let adj = flags OR StringMatchFlag_RightSideSloppy;
          up = (\<lambda>c. if adj AND StringMatchFlag_CaseInsensitive \<noteq> 0 then char_to_upper c else c)
      in up (s ! p) = up (hd needle) \<and> str8_match (drop (p + 1) s) (str8_skip needle 1) adj)"

definition str8_find_needle :: "string \<Rightarrow> nat \<Rightarrow> string \<Rightarrow> u32 \<Rightarrow> nat" where
  "str8_find_needle s start needle flags =
     (let stop = max (length s + 1) (length needle) - length needle
      in if needle = [] then (if start < stop then start else length s)
         else case find (str8_needle_at s needle flags) [start..<stop]
              of Some p \<Rightarrow> p | None \<Rightarrow> length s)"

text \<open>\<^verbatim>\<open>foreach_index_reverse\<close>: the index runs down from \<^verbatim>\<open>count - 1\<close> until it wraps to
  \<^verbatim>\<open>(u64)-1\<close>.\<close>

function str8_find_reverse_loop :: "string \<Rightarrow> string \<Rightarrow> u32 \<Rightarrow> u64 \<Rightarrow> nat" where
  "str8_find_reverse_loop s needle flags i =
     (if i = -1 then 0
      else if str8_match (str8_substr s (unat i) (unat (i + of_nat (length needle)))) needle flags
      then unat (i + of_nat (length needle))
      else str8_find_reverse_loop s needle flags (i - 1))"
  by pat_completeness auto
termination
proof (relation "measure (\<lambda>(s, needle, flags, i). unat (i + 1))", simp, clarsimp)
  fix i :: u64
  assume "i \<noteq> -1"
  then have "i + 1 \<noteq> 0" by (simp add: eq_neg_iff_add_eq_0)
  then show "unat i < unat (i + 1)"
    by (metis add.commute add_diff_cancel_right' measure_unat)
qed

definition str8_find_needle_reverse :: "string \<Rightarrow> nat \<Rightarrow> string \<Rightarrow> u32 \<Rightarrow> nat" where
  "str8_find_needle_reverse s start needle flags =
     str8_find_reverse_loop s needle flags
       (of_nat (length s) - of_nat start - of_nat (length needle) - 1)"

section \<open>Integers\<close>

text \<open>\<open>sign_from_str8\<close> returns the sign and the tail after the run of signs.\<close>

definition sign_from_str8 :: "string \<Rightarrow> i64 \<times> string" where
  "sign_from_str8 s =
     (let signs = takeWhile (\<lambda>c. c = CHR ''-'' \<or> c = CHR ''+'') s;
          neg = length (filter (\<lambda>c. c = CHR ''-'') signs)
      in (if odd neg then - 1 else 1, str8_skip s (length signs)))"

definition str8_is_integer :: "string \<Rightarrow> nat \<Rightarrow> bool" where
  "str8_is_integer s radix \<longleftrightarrow>
     s \<noteq> [] \<and> 1 < radix \<and> radix \<le> 16 \<and>
     list_all (\<lambda>c. code c < 128 \<and> integer_symbol_reverse ! code c < radix) s"

definition u64_from_str8 :: "string \<Rightarrow> nat \<Rightarrow> u64" where
  "u64_from_str8 s radix =
     (if 1 < radix \<and> radix \<le> 16
      then foldl (\<lambda>x c. x * of_nat radix + of_nat (integer_symbol_reverse ! (code c mod 128))) 0 s
      else 0)"

definition i64_from_str8 :: "string \<Rightarrow> nat \<Rightarrow> i64" where
  "i64_from_str8 s radix = (let (sign, tl) = sign_from_str8 s in u64_from_str8 tl radix * sign)"

definition try_u64_from_str8_c_rules :: "string \<Rightarrow> u64 option" where
  "try_u64_from_str8_c_rules s =
     (let (radix, prefix) =
        (if str8_match (str8_prefix s 2) ''0x'' StringMatchFlag_CaseInsensitive then (16, 2)
         else if str8_match (str8_prefix s 2) ''0b'' StringMatchFlag_CaseInsensitive then (2, 2)
         else if str8_match (str8_prefix s 1) ''0'' StringMatchFlag_CaseInsensitive \<and> length s > 1
         then (8, 1) else (10, 0 :: nat));
          body = str8_skip s prefix
      in if str8_is_integer body radix then Some (u64_from_str8 body radix) else None)"

text \<open>The out-parameter is assigned whether or not the text is an integer (from 0 when it is not).\<close>

definition try_i64_from_str8_c_rules :: "string \<Rightarrow> bool \<times> i64" where
  "try_i64_from_str8_c_rules s =
     (let (sign, tl) = sign_from_str8 s
      in case try_u64_from_str8_c_rules tl of None \<Rightarrow> (False, 0) | Some x \<Rightarrow> (True, x * sign))"

section \<open>What the string layer promises\<close>

lemma str8_match_exact [simp]: "str8_match a b 0 \<longleftrightarrow> a = b"
  by (auto simp: str8_match_def)

lemma str8_match_loop_iff:
  "str8_match_loop flags a b \<longleftrightarrow>
     (\<forall>i < min (length a) (length b). str8_adjust flags (a ! i) = str8_adjust flags (b ! i))"
proof (induction flags a b rule: str8_match_loop.induct)
  case (1 flags a as b bs)
  then show ?case by (auto simp: less_Suc_eq_0_disj nth_Cons split: nat.splits)
qed auto

lemma str8_match_sloppy [simp]:
  "str8_match a b 2 \<longleftrightarrow> take (length b) a = take (length a) b"
proof -
  have adj: "str8_adjust 2 c = c" for c
    by (simp add: str8_adjust_def match_flag_defs)
  show ?thesis
    by (auto simp: str8_match_def match_flag_defs str8_match_loop_iff adj list_eq_iff_nth_eq)
qed

lemma str8_starts_with_iff: "str8_starts_with s start 0 \<longleftrightarrow> (\<exists>rest. s = start @ rest)"
proof -
  have "start = take (min (length start) (length s)) s \<Longrightarrow> \<exists>rest. s = start @ rest"
    by (metis append_take_drop_id)
  then show ?thesis by (auto simp: str8_starts_with_def str8_prefix_def)
qed

lemma str8_ends_with_iff: "str8_ends_with s e 0 \<longleftrightarrow> (\<exists>rest. s = rest @ e)"
proof -
  have "e = drop (length s - min (length e) (length s)) s \<Longrightarrow> \<exists>rest. s = rest @ e"
    by (metis append_take_drop_id)
  then show ?thesis by (auto simp: str8_ends_with_def str8_postfix_def)
qed

lemma str8_match_nocase:
  "str8_match a b 1 \<longleftrightarrow> map char_to_upper a = map char_to_upper b"
proof -
  have adj: "str8_adjust 1 c = char_to_upper c" for c
    by (simp add: str8_adjust_def match_flag_defs)
  show ?thesis
    by (auto simp: str8_match_def match_flag_defs str8_match_loop_iff adj list_eq_iff_nth_eq)
qed

text \<open>An occurrence of a needle at a position, as list operations.\<close>

definition occurs_at :: "string \<Rightarrow> string \<Rightarrow> nat \<Rightarrow> bool" where
  "occurs_at s needle p \<longleftrightarrow> take (length needle) (drop p s) = needle"

lemma str8_needle_at_exact:
  assumes "needle \<noteq> []" "p + length needle \<le> length s"
  shows "str8_needle_at s needle 0 p \<longleftrightarrow> occurs_at s needle p"
proof -
  obtain n ns where n: "needle = n # ns" using assms by (cases needle) auto
  have d: "drop p s = s ! p # drop (Suc p) s"
    using assms n by (intro Cons_nth_drop_Suc [symmetric]) auto
  have "length ns \<le> length (drop (Suc p) s)" using assms n by simp
  then show ?thesis
    by (auto simp: str8_needle_at_def occurs_at_def n d match_flag_defs str8_skip_def)
qed

lemma find_upt_Some:
  assumes "find P [a..<b] = Some p"
  shows "P p \<and> a \<le> p \<and> p < b \<and> (\<forall>q. a \<le> q \<and> q < p \<longrightarrow> \<not> P q)"
proof -
  obtain i where i: "i < length [a..<b]" "P ([a..<b] ! i)" "p = [a..<b] ! i"
    and least: "\<forall>j < i. \<not> P ([a..<b] ! j)"
    using assms by (auto simp: find_Some_iff)
  have "\<not> P q" if "a \<le> q" "q < p" for q
  proof -
    have "q - a < i" "[a..<b] ! (q - a) = q" using that i by auto
    then show ?thesis using least by force
  qed
  then show ?thesis using i by auto
qed

declare str8_find_reverse_loop.simps [simp del]

text \<open>The positions the reverse loop has left when its index stands at \<^term>\<open>n - 1\<close>.\<close>

definition occ_below :: "string \<Rightarrow> string \<Rightarrow> nat \<Rightarrow> nat set" where
  "occ_below s needle n = {p. p < n \<and> occurs_at s needle p}"

lemma finite_occ_below [simp]: "finite (occ_below s needle n)"
  by (simp add: occ_below_def)

lemma occ_below_eval: "occ_below s needle n = set (filter (occurs_at s needle) [0..<n])"
  by (auto simp: occ_below_def)

lemma str8_find_reverse_loop_max:
  assumes "n + length needle \<le> length s" "length s < 2 ^ 63"
  shows "str8_find_reverse_loop s needle 0 (of_nat n - 1) =
           (if occ_below s needle n = {} then 0 else Max (occ_below s needle n) + length needle)"
  using assms
proof (induction n)
  case 0
  then show ?case by (simp add: str8_find_reverse_loop.simps occ_below_def)
next
  case (Suc n)
  have u: "unat (of_nat n :: u64) = n" and ul: "unat (of_nat n + of_nat (length needle) :: u64) = n + length needle"
    using Suc.prems by (simp_all add: unsigned_of_nat take_bit_nat_eq_self flip: of_nat_add)
  have ne: "(of_nat n :: u64) \<noteq> - 1"
  proof
    assume "(of_nat n :: u64) = - 1"
    then have "unat (of_nat n :: u64) = 2 ^ 64 - 1"
      by (simp add: unsigned_minus_1_eq_mask mask_eq_exp_minus_1)
    then show False using u Suc.prems by simp
  qed
  have match: "str8_match (str8_substr s n (n + length needle)) needle 0 = occurs_at s needle n"
    using Suc.prems by (simp add: str8_substr_def occurs_at_def)
  have set: "occ_below s needle (Suc n) =
      (if occurs_at s needle n then insert n (occ_below s needle n) else occ_below s needle n)"
    by (auto simp: occ_below_def less_Suc_eq)
  have Max_n: "Max (insert n (occ_below s needle n)) = n"
    by (rule Max_eqI) (auto simp: occ_below_def)
  have "str8_find_reverse_loop s needle 0 (of_nat n) =
      (if occurs_at s needle n then n + length needle
       else str8_find_reverse_loop s needle 0 (of_nat n - 1))"
    using ne u ul match by (subst str8_find_reverse_loop.simps) simp
  then show ?case using Suc Max_n by (simp add: set)
qed

section \<open>Properties\<close>

text \<open>
  C1: With no flags, \<^verbatim>\<open>str8_find_needle\<close> returns the first position at or after
  \<open>start\<close> where the needle occurs, and the size of the haystack when there is none.
\<close>

theorem str8_find_needle_first:
  assumes "needle \<noteq> []"
  shows "if \<exists>p\<ge>start. p + length needle \<le> length s \<and> occurs_at s needle p
         then start \<le> str8_find_needle s start needle 0
              \<and> occurs_at s needle (str8_find_needle s start needle 0)
              \<and> (\<forall>q. start \<le> q \<and> q < str8_find_needle s start needle 0 \<longrightarrow> \<not> occurs_at s needle q)
         else str8_find_needle s start needle 0 = length s"
proof -
  let ?stop = "max (length s + 1) (length needle) - length needle"
  have in_range: "p < ?stop \<longleftrightarrow> p + length needle \<le> length s" for p
    by auto
  have at: "str8_needle_at s needle 0 p = occurs_at s needle p" if "p < ?stop" for p
    using that in_range assms by (intro str8_needle_at_exact) auto
  show ?thesis
  proof (cases "find (str8_needle_at s needle 0) [start..<?stop]")
    case None
    then have "\<not> occurs_at s needle p" if "start \<le> p" "p < ?stop" for p
      using that at by (auto simp: find_None_iff)
    then show ?thesis using None assms in_range by (auto simp: str8_find_needle_def)
  next
    case (Some p)
    note f = find_upt_Some [OF Some]
    then show ?thesis using Some assms at in_range
      by (auto simp: str8_find_needle_def)
  qed
qed

lemma str8_find_needle_first_witness:
  "str8_find_needle ''a/b/c'' 2 ''/'' 0 = 3"
proof -
  have occ: "occurs_at ''a/b/c'' ''/'' 3" "\<not> occurs_at ''a/b/c'' ''/'' 2"
    by (simp_all add: occurs_at_def numeral_eq_Suc)
  let ?r = "str8_find_needle ''a/b/c'' 2 ''/'' 0"
  have ex: "\<exists>p\<ge>2. p + length ''/'' \<le> length ''a/b/c'' \<and> occurs_at ''a/b/c'' ''/'' p"
    by (rule exI [of _ 3]) (simp add: occ)
  have r: "2 \<le> ?r" "occurs_at ''a/b/c'' ''/'' ?r" "\<forall>q. 2 \<le> q \<and> q < ?r \<longrightarrow> \<not> occurs_at ''a/b/c'' ''/'' q"
    using str8_find_needle_first [of "''/''" 2 "''a/b/c''", unfolded if_P [OF ex]] by auto
  have "?r \<noteq> 2" using r(2) occ(2) by metis
  moreover have "\<not> 3 < ?r" using r(3) occ(1) by auto
  ultimately show ?thesis using r(1) by linarith
qed

text \<open>
  With no flags and a needle no longer than the haystack, \<^verbatim>\<open>str8_find_needle_reverse\<close> returns
  the end of the last occurrence that starts strictly before the final possible position: an
  occurrence that ends the haystack is never seen, and 0 is returned when it is the only one.
\<close>

theorem str8_find_needle_reverse_skips_final:
  assumes "length needle \<le> length s" "length s < 2 ^ 63"
  shows "str8_find_needle_reverse s 0 needle 0 =
           (if occ_below s needle (length s - length needle) = {} then 0
            else Max (occ_below s needle (length s - length needle)) + length needle)"
proof -
  have "(of_nat (length s) - of_nat (length needle) :: u64) = of_nat (length s - length needle)"
    using assms by (simp add: of_nat_diff)
  then show ?thesis
    using str8_find_reverse_loop_max [of "length s - length needle" needle s] assms
    by (simp add: str8_find_needle_reverse_def)
qed

lemma str8_find_needle_reverse_skips_final_witness:
  "str8_find_needle_reverse ''dir/'' 0 ''/'' 0 = 0 \<and> occurs_at ''dir/'' ''/'' 3"
proof -
  have none: "occ_below ''dir/'' ''/'' (length ''dir/'' - length ''/'') = {}"
    by (simp add: occ_below_eval occurs_at_def upt_conv_Cons)
  have "str8_find_needle_reverse ''dir/'' 0 ''/'' 0 = 0"
    using str8_find_needle_reverse_skips_final [of "''/''" "''dir/''", unfolded if_P [OF none]]
    by simp
  moreover have "occurs_at ''dir/'' ''/'' 3"
    by (simp add: occurs_at_def numeral_eq_Suc)
  ultimately show ?thesis ..
qed

end
