(* ===== verification/Types.thy ===== *)
theory Types
  imports Base_String
begin

text \<open>
  The type representation of \<^verbatim>\<open>3b.h\<close> (\<^verbatim>\<open>TypeKind\<close>, \<^verbatim>\<open>TypeRef\<close>) and the operations on it in
  \<^verbatim>\<open>3b.c\<close> and \<^verbatim>\<open>checker.c\<close>: reading a type from an atom, displaying it, the equality and
  assignability relations the checker is built on, and the predicates of its operators.

  A boxed member is an \<^verbatim>\<open>option\<close>; \<^verbatim>\<open>fn_params\<close> with \<^verbatim>\<open>fn_param_count\<close> is a list.  The relations
  return \<^term>\<open>None\<close> where the C code would dereference a null box, which \<open>type_ref_wf\<close> excludes.
\<close>

section \<open>Data\<close>

datatype type_kind =
    TypeKind_Unresolved
  | TypeKind_I8 | TypeKind_I16 | TypeKind_I32 | TypeKind_I64
  | TypeKind_U8 | TypeKind_U16 | TypeKind_U32 | TypeKind_U64
  | TypeKind_F32 | TypeKind_F64
  | TypeKind_Bool | TypeKind_Char | TypeKind_String | TypeKind_Void
  | TypeKind_Any | TypeKind_Arena | TypeKind_ArenaMark | TypeKind_Stream
  | TypeKind_Pointer | TypeKind_Handle | TypeKind_Array | TypeKind_Vector
  | TypeKind_Map | TypeKind_Set | TypeKind_Named | TypeKind_Fn

text \<open>The numbering of the enum, for the places that store a kind as a \<^verbatim>\<open>u32\<close>.\<close>

definition type_kind_table :: "type_kind list" where
  "type_kind_table =
    [TypeKind_Unresolved, TypeKind_I8, TypeKind_I16, TypeKind_I32, TypeKind_I64,
     TypeKind_U8, TypeKind_U16, TypeKind_U32, TypeKind_U64, TypeKind_F32, TypeKind_F64,
     TypeKind_Bool, TypeKind_Char, TypeKind_String, TypeKind_Void, TypeKind_Any,
     TypeKind_Arena, TypeKind_ArenaMark, TypeKind_Stream, TypeKind_Pointer, TypeKind_Handle,
     TypeKind_Array, TypeKind_Vector, TypeKind_Map, TypeKind_Set, TypeKind_Named, TypeKind_Fn]"

definition type_kind_of :: "u32 \<Rightarrow> type_kind option" where
  "type_kind_of k = (if unat k < length type_kind_table then Some (type_kind_table ! unat k) else None)"

definition type_kind_code :: "type_kind \<Rightarrow> u32" where
  "type_kind_code k =
     (case k of
        TypeKind_Unresolved \<Rightarrow> 0 | TypeKind_I8 \<Rightarrow> 1 | TypeKind_I16 \<Rightarrow> 2 | TypeKind_I32 \<Rightarrow> 3
      | TypeKind_I64 \<Rightarrow> 4 | TypeKind_U8 \<Rightarrow> 5 | TypeKind_U16 \<Rightarrow> 6 | TypeKind_U32 \<Rightarrow> 7
      | TypeKind_U64 \<Rightarrow> 8 | TypeKind_F32 \<Rightarrow> 9 | TypeKind_F64 \<Rightarrow> 10 | TypeKind_Bool \<Rightarrow> 11
      | TypeKind_Char \<Rightarrow> 12 | TypeKind_String \<Rightarrow> 13 | TypeKind_Void \<Rightarrow> 14 | TypeKind_Any \<Rightarrow> 15
      | TypeKind_Arena \<Rightarrow> 16 | TypeKind_ArenaMark \<Rightarrow> 17 | TypeKind_Stream \<Rightarrow> 18
      | TypeKind_Pointer \<Rightarrow> 19 | TypeKind_Handle \<Rightarrow> 20 | TypeKind_Array \<Rightarrow> 21
      | TypeKind_Vector \<Rightarrow> 22 | TypeKind_Map \<Rightarrow> 23 | TypeKind_Set \<Rightarrow> 24 | TypeKind_Named \<Rightarrow> 25
      | TypeKind_Fn \<Rightarrow> 26)"

lemma type_kind_of_code [simp, codec]: "type_kind_of (type_kind_code k) = Some k"
  by (cases k) (simp_all add: type_kind_of_def type_kind_code_def type_kind_table_def)

datatype type_ref = TypeRef
  (tr_kind: type_kind) (tr_name: string) (tr_pointee: "type_ref option")
  (tr_map_key: "type_ref option") (tr_count: u64) (tr_alias_name: string) (tr_is_const: bool)
  (tr_fn_params: "type_ref list") (tr_fn_return: "type_ref option")

abbreviation type_ref_of_kind :: "type_kind \<Rightarrow> type_ref" where
  "type_ref_of_kind k \<equiv> TypeRef k [] None None 0 [] False [] None"

definition type_ref_unresolved :: type_ref where
  "type_ref_unresolved = type_ref_of_kind TypeKind_Unresolved"

section \<open>Reading a type from an atom\<close>

definition primitive_type_kind_from_name :: "string \<Rightarrow> type_kind" where
  "primitive_type_kind_from_name name =
     (if str8_match ''i8'' name 0 then TypeKind_I8
      else if str8_match ''i16'' name 0 then TypeKind_I16
      else if str8_match ''i32'' name 0 then TypeKind_I32
      else if str8_match ''i64'' name 0 then TypeKind_I64
      else if str8_match ''u8'' name 0 then TypeKind_U8
      else if str8_match ''u16'' name 0 then TypeKind_U16
      else if str8_match ''u32'' name 0 then TypeKind_U32
      else if str8_match ''u64'' name 0 then TypeKind_U64
      else if str8_match ''f32'' name 0 then TypeKind_F32
      else if str8_match ''f64'' name 0 then TypeKind_F64
      else if str8_match ''bool'' name 0 then TypeKind_Bool
      else if str8_match ''char'' name 0 then TypeKind_Char
      else if str8_match ''string'' name 0 then TypeKind_String
      else if str8_match ''void'' name 0 then TypeKind_Void
      else if str8_match ''any'' name 0 then TypeKind_Any
      else if str8_match ''arena'' name 0 then TypeKind_Arena
      else if str8_match ''ArenaMark'' name 0 then TypeKind_ArenaMark
      else if str8_match ''stream'' name 0 then TypeKind_Stream
      else TypeKind_Named)"

definition is_primitive_type_name :: "string \<Rightarrow> bool" where
  "is_primitive_type_name name \<longleftrightarrow> primitive_type_kind_from_name name \<noteq> TypeKind_Named"

lemma length_str8_chop [simp]: "length (str8_chop s n) = length s - min n (length s)"
  by (simp add: str8_chop_def)

fun type_ref_from_atom :: "string \<Rightarrow> type_ref" where
  "type_ref_from_atom name =
     (if name \<noteq> [] \<and> last name = CHR ''^''
      then TypeRef TypeKind_Handle (str8_chop name 1) None None 0 [] False [] None
      else if name \<noteq> [] \<and> last name = CHR ''*''
      then TypeRef TypeKind_Pointer [] (Some (type_ref_from_atom (str8_chop name 1)))
             None 0 [] False [] None
      else let k = primitive_type_kind_from_name name
           in if k = TypeKind_Named then TypeRef TypeKind_Named name None None 0 [] False [] None
              else type_ref_of_kind k)"

declare type_ref_from_atom.simps [simp del]

section \<open>Displaying a type\<close>

text \<open>The kinds whose spelling does not depend on the rest of the type.\<close>

definition type_kind_display :: "type_kind \<Rightarrow> string" where
  "type_kind_display k =
     (case k of
        TypeKind_Unresolved \<Rightarrow> ''<inferred>''
      | TypeKind_I8 \<Rightarrow> ''i8'' | TypeKind_I16 \<Rightarrow> ''i16'' | TypeKind_I32 \<Rightarrow> ''i32''
      | TypeKind_I64 \<Rightarrow> ''i64'' | TypeKind_U8 \<Rightarrow> ''u8'' | TypeKind_U16 \<Rightarrow> ''u16''
      | TypeKind_U32 \<Rightarrow> ''u32'' | TypeKind_U64 \<Rightarrow> ''u64'' | TypeKind_F32 \<Rightarrow> ''f32''
      | TypeKind_F64 \<Rightarrow> ''f64'' | TypeKind_Bool \<Rightarrow> ''bool'' | TypeKind_Char \<Rightarrow> ''char''
      | TypeKind_String \<Rightarrow> ''string'' | TypeKind_Void \<Rightarrow> ''void'' | TypeKind_Any \<Rightarrow> ''any''
      | TypeKind_Arena \<Rightarrow> ''arena'' | TypeKind_ArenaMark \<Rightarrow> ''ArenaMark''
      | TypeKind_Stream \<Rightarrow> ''stream'' | _ \<Rightarrow> ''?'')"

text \<open>The parameter loop: elements separated by one space.\<close>

fun join_params :: "string list \<Rightarrow> string" where
  "join_params [] = []"
| "join_params [p] = p"
| "join_params (p # ps) = p @ CHR '' '' # join_params ps"

text \<open>\<open>None\<close> where a null box is dereferenced (a pointer's null box is \<^verbatim>\<open>nil\<close> and has a spelling).\<close>

fun type_ref_display_body :: "type_ref \<Rightarrow> string option"
and type_ref_display :: "type_ref \<Rightarrow> string option"
and type_ref_display_opt :: "type_ref option \<Rightarrow> string option"
and type_ref_display_list :: "type_ref list \<Rightarrow> string list option" where
  "type_ref_display_body (TypeRef k name pointee map_key count al cn params ret) =
     (case k of
        TypeKind_Pointer \<Rightarrow>
          (case pointee of None \<Rightarrow> Some ''nil''
           | Some p \<Rightarrow> map_option (\<lambda>inner. inner @ ''*'') (type_ref_display p))
      | TypeKind_Handle \<Rightarrow> Some (name @ ''^'')
      | TypeKind_Array \<Rightarrow>
          map_option (\<lambda>inner. ''['' @ inner @ '' '' @ dec (unat count) @ '']'') (type_ref_display_opt pointee)
      | TypeKind_Vector \<Rightarrow>
          map_option (\<lambda>inner. ''(Vector '' @ inner @ '')'') (type_ref_display_opt pointee)
      | TypeKind_Map \<Rightarrow>
          do { key \<leftarrow> type_ref_display_opt map_key; v \<leftarrow> type_ref_display_opt pointee;
               Some (''(Map '' @ key @ '' '' @ v @ '')'') }
      | TypeKind_Set \<Rightarrow>
          map_option (\<lambda>inner. ''(Set '' @ inner @ '')'') (type_ref_display_opt pointee)
      | TypeKind_Named \<Rightarrow> Some name
      | TypeKind_Fn \<Rightarrow>
          do { r \<leftarrow> type_ref_display_opt ret; ps \<leftarrow> type_ref_display_list params;
               Some (''(fn ['' @ join_params ps @ ''] '' @ r @ '')'') }
      | _ \<Rightarrow> Some (type_kind_display k))"
| "type_ref_display (TypeRef k name pointee map_key count al cn params ret) =
     (if cn
      then map_option (\<lambda>s. ''const '' @ s)
             (type_ref_display_body (TypeRef k name pointee map_key count al False params ret))
      else type_ref_display_body (TypeRef k name pointee map_key count al cn params ret))"
| "type_ref_display_opt None = None"
| "type_ref_display_opt (Some t) = type_ref_display t"
| "type_ref_display_list [] = Some []"
| "type_ref_display_list (t # ts) =
     do { s \<leftarrow> type_ref_display t; ss \<leftarrow> type_ref_display_list ts; Some (s # ss) }"

definition mangle_char :: "char \<Rightarrow> char" where
  "mangle_char c =
     (if char_is_lower c \<or> char_is_upper c \<or> (48 \<le> code c \<and> code c \<le> 57) then c else CHR ''_'')"

definition hashtable_mangled_name :: "type_ref \<Rightarrow> type_ref option \<Rightarrow> string option" where
  "hashtable_mangled_name key value =
     (case value of
        Some v \<Rightarrow> do { k \<leftarrow> type_ref_display key; d \<leftarrow> type_ref_display v;
                       Some (map mangle_char (''Map_'' @ k @ ''_'' @ d)) }
      | None \<Rightarrow> do { k \<leftarrow> type_ref_display key; Some (map mangle_char (''Set_'' @ k)) })"

section \<open>Equality and assignability\<close>

text \<open>Short-circuit conjunction of checks that may dereference a null box.\<close>

definition check_and :: "bool option \<Rightarrow> bool option \<Rightarrow> bool option" where
  "check_and a b = (case a of None \<Rightarrow> None | Some False \<Rightarrow> Some False | Some True \<Rightarrow> b)"

lemma check_and_simps [simp]:
  "check_and None b = None" "check_and (Some p) b = (if p then b else Some False)"
  by (simp_all add: check_and_def)

fun type_ref_equal :: "type_ref \<Rightarrow> type_ref \<Rightarrow> bool option"
and type_ref_equal_box :: "type_ref option \<Rightarrow> type_ref option \<Rightarrow> bool option"
and type_ref_equal_list :: "type_ref list \<Rightarrow> type_ref list \<Rightarrow> bool option" where
  "type_ref_equal (TypeRef k name pointee map_key count al cn params ret)
                  (TypeRef k' name' pointee' map_key' count' al' cn' params' ret') =
     (if k \<noteq> k' then Some False
      else if k = TypeKind_Named then Some (str8_match name name' 0)
      else if k = TypeKind_Handle then Some (str8_match name name' 0)
      else if k = TypeKind_Pointer
      then (if pointee = None \<or> pointee' = None then Some True
            else type_ref_equal_box pointee pointee')
      else if k = TypeKind_Array
      then check_and (Some (count = count')) (type_ref_equal_box pointee pointee')
      else if k = TypeKind_Vector \<or> k = TypeKind_Set then type_ref_equal_box pointee pointee'
      else if k = TypeKind_Map
      then check_and (type_ref_equal_box map_key map_key') (type_ref_equal_box pointee pointee')
      else if k = TypeKind_Fn
      then (if length params \<noteq> length params' then Some False
            else check_and (type_ref_equal_box ret ret') (type_ref_equal_list params params'))
      else Some True)"
| "type_ref_equal_box (Some a) (Some b) = type_ref_equal a b"
| "type_ref_equal_box _ _ = None"
| "type_ref_equal_list (a # as) (b # bs) = check_and (type_ref_equal a b) (type_ref_equal_list as bs)"
| "type_ref_equal_list _ _ = Some True"

fun type_ref_pointee_const_compatible :: "type_ref \<Rightarrow> type_ref \<Rightarrow> bool option"
and type_ref_pointee_const_compatible_box :: "type_ref option \<Rightarrow> type_ref option \<Rightarrow> bool option" where
  "type_ref_pointee_const_compatible (TypeRef k name pointee map_key count al cn params ret) to' =
     (if cn \<and> \<not> tr_is_const to' then Some False
      else if k = TypeKind_Pointer
      then (if pointee = None \<or> tr_pointee to' = None then Some True
            else type_ref_pointee_const_compatible_box pointee (tr_pointee to'))
      else if k = TypeKind_Array
      then type_ref_pointee_const_compatible_box pointee (tr_pointee to')
      else Some True)"
| "type_ref_pointee_const_compatible_box (Some a) (Some b) = type_ref_pointee_const_compatible a b"
| "type_ref_pointee_const_compatible_box _ _ = None"

definition type_ref_const_compatible :: "type_ref \<Rightarrow> type_ref \<Rightarrow> bool option" where
  "type_ref_const_compatible from' to' =
     (if tr_kind from' = TypeKind_Pointer
      then (if tr_pointee from' = None \<or> tr_pointee to' = None then Some True
            else type_ref_pointee_const_compatible_box (tr_pointee from') (tr_pointee to'))
      else if tr_kind from' = TypeKind_Array
      then type_ref_pointee_const_compatible_box (tr_pointee from') (tr_pointee to')
      else Some True)"

text \<open>The decay loop: \<open>from\<close> descends through its element types while it is an array.\<close>

fun type_ref_decays :: "type_ref \<Rightarrow> type_ref \<Rightarrow> bool option"
and type_ref_decays_box :: "type_ref option \<Rightarrow> type_ref \<Rightarrow> bool option" where
  "type_ref_decays (TypeRef k name pointee map_key count al cn params ret) to_elem =
     (if k = TypeKind_Array then type_ref_decays_box pointee to_elem else Some False)"
| "type_ref_decays_box None to_elem = None"
| "type_ref_decays_box (Some elem) to_elem =
     (case type_ref_equal elem to_elem of
        None \<Rightarrow> None
      | Some True \<Rightarrow> type_ref_const_compatible elem to_elem
      | Some False \<Rightarrow> type_ref_decays elem to_elem)"

definition type_ref_assignable :: "type_ref \<Rightarrow> type_ref \<Rightarrow> bool option" where
  "type_ref_assignable from' to' =
     (case type_ref_equal from' to' of
        None \<Rightarrow> None
      | Some True \<Rightarrow> type_ref_const_compatible from' to'
      | Some False \<Rightarrow>
          (if tr_kind to' \<noteq> TypeKind_Pointer then Some False
           else case tr_pointee to' of
             None \<Rightarrow> Some False
           | Some elem \<Rightarrow> type_ref_decays from' elem))"

section \<open>Predicates of the operators\<close>

fun type_kind_is_integer :: "type_kind \<Rightarrow> bool" where
  "type_kind_is_integer k \<longleftrightarrow>
     k \<in> {TypeKind_I8, TypeKind_I16, TypeKind_I32, TypeKind_I64,
          TypeKind_U8, TypeKind_U16, TypeKind_U32, TypeKind_U64}"

fun type_kind_is_numeric :: "type_kind \<Rightarrow> bool" where
  "type_kind_is_numeric k \<longleftrightarrow>
     k \<in> {TypeKind_I8, TypeKind_I16, TypeKind_I32, TypeKind_I64,
          TypeKind_U8, TypeKind_U16, TypeKind_U32, TypeKind_U64, TypeKind_F32, TypeKind_F64}"

definition type_kind_is_printable :: "type_kind \<Rightarrow> bool" where
  "type_kind_is_printable k \<longleftrightarrow>
     type_kind_is_numeric k \<or> k = TypeKind_Bool \<or> k = TypeKind_Char \<or> k = TypeKind_String"

definition type_ref_is_printable :: "type_ref \<Rightarrow> bool" where
  "type_ref_is_printable t \<longleftrightarrow>
     type_kind_is_printable (tr_kind t)
     \<or> tr_kind t = TypeKind_Pointer
       \<and> (case tr_pointee t of None \<Rightarrow> False | Some p \<Rightarrow> tr_kind p = TypeKind_Char)"

text \<open>The number of \<^verbatim>\<open>{}\<close> placeholders; \<open>None\<close> is the -1 of a malformed template.\<close>

fun count_template_placeholders :: "string \<Rightarrow> nat option" where
  "count_template_placeholders [] = Some 0"
| "count_template_placeholders (c # cs) =
     (if c = CHR ''{''
      then (case cs of
              d # ds \<Rightarrow>
                if d = CHR ''{'' then count_template_placeholders ds
                else if d = CHR ''}'' then map_option Suc (count_template_placeholders ds)
                else None
            | [] \<Rightarrow> None)
      else if c = CHR ''}''
      then (case cs of
              d # ds \<Rightarrow> if d = CHR ''}'' then count_template_placeholders ds else None
            | [] \<Rightarrow> None)
      else count_template_placeholders cs)"

text \<open>\<open>enums\<close> are the names in the checker's enum table.\<close>

definition type_ref_is_bitwise_ok :: "string list \<Rightarrow> type_ref \<Rightarrow> bool" where
  "type_ref_is_bitwise_ok enums t \<longleftrightarrow>
     type_kind_is_numeric (tr_kind t) \<or> tr_kind t = TypeKind_Named \<and> tr_name t \<in> set enums"

definition type_is_castable_scalar :: "string list \<Rightarrow> type_ref \<Rightarrow> bool" where
  "type_is_castable_scalar enums t \<longleftrightarrow>
     (if type_kind_is_numeric (tr_kind t) then True
      else if tr_kind t = TypeKind_Bool \<or> tr_kind t = TypeKind_Char \<or> tr_kind t = TypeKind_Pointer
              \<or> tr_kind t = TypeKind_Any then True
      else if tr_kind t \<noteq> TypeKind_Named then False
      else tr_name t \<in> set enums)"

definition type_reinterpret_byte_size :: "string list \<Rightarrow> type_ref \<Rightarrow> nat" where
  "type_reinterpret_byte_size enums t =
     (case tr_kind t of
        TypeKind_I8 \<Rightarrow> 1 | TypeKind_U8 \<Rightarrow> 1 | TypeKind_Char \<Rightarrow> 1
      | TypeKind_I16 \<Rightarrow> 2 | TypeKind_U16 \<Rightarrow> 2
      | TypeKind_I32 \<Rightarrow> 4 | TypeKind_U32 \<Rightarrow> 4 | TypeKind_F32 \<Rightarrow> 4
      | TypeKind_I64 \<Rightarrow> 8 | TypeKind_U64 \<Rightarrow> 8 | TypeKind_F64 \<Rightarrow> 8
      | TypeKind_Pointer \<Rightarrow> 8 | TypeKind_Any \<Rightarrow> 8
      | TypeKind_Named \<Rightarrow> (if tr_name t \<in> set enums then 4 else 0)
      | _ \<Rightarrow> 0)"

section \<open>Deep comparability\<close>

text \<open>A struct declaration as the comparator walk sees it: its fields' types and anonymity.\<close>

record struct_field =
  sf_type :: type_ref
  sf_is_anon :: bool

record struct_entry =
  se_name :: string
  se_is_union :: bool
  se_fields :: "struct_field list"

definition struct_find :: "struct_entry list \<Rightarrow> string \<Rightarrow> struct_entry option" where
  "struct_find structs name = find (\<lambda>e. str8_match (se_name e) name 0) structs"

fun array_base :: "type_ref \<Rightarrow> type_ref option"
and array_base_box :: "type_ref option \<Rightarrow> type_ref option" where
  "array_base (TypeRef k name pointee map_key count al cn params ret) =
     (if k = TypeKind_Array then array_base_box pointee
      else Some (TypeRef k name pointee map_key count al cn params ret))"
| "array_base_box None = None"
| "array_base_box (Some t) = array_base t"

text \<open>The recursion budget \<open>fuel\<close> is \<^verbatim>\<open>struct_count + 1 - depth\<close>: the code stops with false once
  \<^verbatim>\<open>depth > struct_count\<close>.  The array cases in front of the kind tests are the descent of
  \<open>array_base\<close>.\<close>

fun type_ref_is_deep_comparable_rec :: "struct_entry list \<Rightarrow> nat \<Rightarrow> type_ref \<Rightarrow> bool option"
and deep_comparable_fields :: "struct_entry list \<Rightarrow> nat \<Rightarrow> struct_field list \<Rightarrow> bool option" where
  "type_ref_is_deep_comparable_rec structs fuel t0 =
     (case array_base t0 of None \<Rightarrow> None | Some t \<Rightarrow>
      (if type_kind_is_numeric (tr_kind t) then Some True
       else if tr_kind t = TypeKind_Bool \<or> tr_kind t = TypeKind_Char \<or> tr_kind t = TypeKind_Pointer
       then Some True
       else if tr_kind t = TypeKind_String then Some True
       else if tr_kind t \<noteq> TypeKind_Named then Some False
       else case struct_find structs (tr_name t) of
              None \<Rightarrow> Some True
            | Some decl \<Rightarrow>
                (case fuel of
                   0 \<Rightarrow> Some False
                 | Suc fuel' \<Rightarrow>
                     if se_is_union decl then Some False
                     else deep_comparable_fields structs fuel' (se_fields decl))))"
| "deep_comparable_fields structs fuel [] = Some True"
| "deep_comparable_fields structs fuel (f # fs) =
     (if sf_is_anon f then Some False
      else check_and (type_ref_is_deep_comparable_rec structs fuel (sf_type f))
             (deep_comparable_fields structs fuel fs))"

definition type_ref_is_deep_comparable :: "struct_entry list \<Rightarrow> type_ref \<Rightarrow> bool option" where
  "type_ref_is_deep_comparable structs t =
     type_ref_is_deep_comparable_rec structs (length structs + 1) t"

section \<open>Well-formed types\<close>

text \<open>Boxes the C code dereferences are present; a pointer's box may be null (\<^verbatim>\<open>nil\<close>).\<close>

definition box_required :: "type_kind \<Rightarrow> bool" where
  "box_required k \<longleftrightarrow> k \<in> {TypeKind_Array, TypeKind_Vector, TypeKind_Set, TypeKind_Map}"

fun type_ref_wf :: "type_ref \<Rightarrow> bool"
and type_ref_wf_box :: "type_ref option \<Rightarrow> bool"
and type_ref_wf_list :: "type_ref list \<Rightarrow> bool" where
  "type_ref_wf (TypeRef k name pointee map_key count al cn params ret) \<longleftrightarrow>
     (box_required k \<longrightarrow> pointee \<noteq> None) \<and> (k = TypeKind_Map \<longrightarrow> map_key \<noteq> None)
     \<and> (k = TypeKind_Fn \<longrightarrow> ret \<noteq> None)
     \<and> type_ref_wf_box pointee \<and> type_ref_wf_box map_key
     \<and> type_ref_wf_box ret \<and> type_ref_wf_list params"
| "type_ref_wf_box None = True"
| "type_ref_wf_box (Some t) = type_ref_wf t"
| "type_ref_wf_list [] = True"
| "type_ref_wf_list (t # ts) \<longleftrightarrow> type_ref_wf t \<and> type_ref_wf_list ts"

text \<open>No \<^verbatim>\<open>nil\<close> pointer anywhere in the type.\<close>

fun type_ref_nil_free :: "type_ref \<Rightarrow> bool"
and type_ref_nil_free_box :: "type_ref option \<Rightarrow> bool"
and type_ref_nil_free_list :: "type_ref list \<Rightarrow> bool" where
  "type_ref_nil_free (TypeRef k name pointee map_key count al cn params ret) \<longleftrightarrow>
     (k = TypeKind_Pointer \<longrightarrow> pointee \<noteq> None)
     \<and> type_ref_nil_free_box pointee \<and> type_ref_nil_free_box map_key
     \<and> type_ref_nil_free_box ret \<and> type_ref_nil_free_list params"
| "type_ref_nil_free_box None = True"
| "type_ref_nil_free_box (Some t) = type_ref_nil_free t"
| "type_ref_nil_free_list [] = True"
| "type_ref_nil_free_list (t # ts) \<longleftrightarrow> type_ref_nil_free t \<and> type_ref_nil_free_list ts"

text \<open>The structure two equal types share: names, counts and components, with spelling aliases and
  constness forgotten.\<close>

datatype shape =
    ShLeaf type_kind
  | ShName type_kind string
  | ShBox type_kind u64 shape
  | ShMap shape shape
  | ShFn "shape list" shape

fun type_shape :: "type_ref \<Rightarrow> shape"
and type_shape_box :: "type_ref option \<Rightarrow> shape"
and type_shape_list :: "type_ref list \<Rightarrow> shape list" where
  "type_shape (TypeRef k name pointee map_key count al cn params ret) =
     (if k = TypeKind_Named \<or> k = TypeKind_Handle then ShName k name
      else if k = TypeKind_Pointer \<or> k = TypeKind_Vector \<or> k = TypeKind_Set
      then ShBox k 0 (type_shape_box pointee)
      else if k = TypeKind_Array then ShBox k count (type_shape_box pointee)
      else if k = TypeKind_Map then ShMap (type_shape_box map_key) (type_shape_box pointee)
      else if k = TypeKind_Fn then ShFn (type_shape_list params) (type_shape_box ret)
      else ShLeaf k)"
| "type_shape_box None = ShLeaf TypeKind_Unresolved"
| "type_shape_box (Some t) = type_shape t"
| "type_shape_list [] = []"
| "type_shape_list (t # ts) = type_shape t # type_shape_list ts"

lemma length_type_shape_list [simp]: "length (type_shape_list ts) = length ts"
  by (induction ts) auto

lemma type_shape_list_length_neq: "length xs \<noteq> length ys \<Longrightarrow> type_shape_list xs \<noteq> type_shape_list ys"
  by (metis length_type_shape_list)

fun shape_kind :: "shape \<Rightarrow> type_kind" where
  "shape_kind (ShLeaf k) = k"
| "shape_kind (ShName k n) = k"
| "shape_kind (ShBox k n s) = k"
| "shape_kind (ShMap s t) = TypeKind_Map"
| "shape_kind (ShFn ss s) = TypeKind_Fn"

lemma shape_kind_type_shape [simp]: "shape_kind (type_shape t) = tr_kind t"
  by (cases t) auto

abbreviation type_ref_plain :: "type_ref \<Rightarrow> bool" where
  "type_ref_plain t \<equiv> type_ref_wf t \<and> type_ref_nil_free t"

lemma wf_boxD: "type_ref_wf_box x \<Longrightarrow> x = Some t \<Longrightarrow> type_ref_wf t"
  by simp

lemma wf_listD: "type_ref_wf_list ts \<Longrightarrow> t \<in> set ts \<Longrightarrow> type_ref_wf t"
  by (induction ts) auto

lemma nil_free_listD: "type_ref_nil_free_list ts \<Longrightarrow> t \<in> set ts \<Longrightarrow> type_ref_nil_free t"
  by (induction ts) auto

definition agrees :: "type_ref \<Rightarrow> bool" where
  "agrees a \<longleftrightarrow> (\<forall>b. type_ref_plain a \<longrightarrow> type_ref_plain b \<longrightarrow>
     type_ref_equal a b = Some (type_shape a = type_shape b))"

lemma agrees_box:
  assumes "\<forall>t\<in>set_option x. agrees t" "x \<noteq> None" "y \<noteq> None"
    "type_ref_wf_box x" "type_ref_wf_box y" "type_ref_nil_free_box x" "type_ref_nil_free_box y"
  shows "type_ref_equal_box x y = Some (type_shape_box x = type_shape_box y)"
  using assms by (cases x; cases y) (auto simp: agrees_def)

lemma agrees_list:
  assumes "\<forall>t\<in>set xs. agrees t" "length xs = length ys"
    "type_ref_wf_list xs" "type_ref_wf_list ys" "type_ref_nil_free_list xs" "type_ref_nil_free_list ys"
  shows "type_ref_equal_list xs ys = Some (type_shape_list xs = type_shape_list ys)"
  using assms(2,1,3-) by (induction xs ys rule: list_induct2) (auto simp: agrees_def)

lemma agrees_type_ref: "agrees a"
proof (induction a)
  case (TypeRef k name pointee map_key count al cn params ret)
  have ih: "\<forall>t\<in>set_option pointee. agrees t" "\<forall>t\<in>set_option map_key. agrees t"
    "\<forall>t\<in>set params. agrees t" "\<forall>t\<in>set_option ret. agrees t"
    using TypeRef by blast+
  note bp = agrees_box [OF ih(1)] and bm = agrees_box [OF ih(2)]
    and bl = agrees_list [OF ih(3)] and br = agrees_box [OF ih(4)]
  show ?case unfolding agrees_def
  proof (intro allI impI)
    fix b
    let ?a = "TypeRef k name pointee map_key count al cn params ret"
    assume a: "type_ref_plain ?a" and b: "type_ref_plain b"
    obtain k' name' pointee' map_key' count' al' cn' params' ret' where b_eq:
      "b = TypeRef k' name' pointee' map_key' count' al' cn' params' ret'" by (cases b)
    show "type_ref_equal ?a b = Some (type_shape ?a = type_shape b)"
    proof (cases "k = k'")
      case False
      then have "type_shape ?a \<noteq> type_shape b"
        by (metis shape_kind_type_shape type_ref.sel(1) b_eq)
      with False show ?thesis by (simp add: b_eq)
    next
      case True
      consider "k' = TypeKind_Named" | "k' = TypeKind_Handle" | "k' = TypeKind_Pointer"
        | "k' = TypeKind_Array" | "k' = TypeKind_Vector" | "k' = TypeKind_Set" | "k' = TypeKind_Map"
        | "k' = TypeKind_Fn"
        | "k' \<notin> {TypeKind_Named, TypeKind_Handle, TypeKind_Pointer, TypeKind_Array,
                  TypeKind_Vector, TypeKind_Set, TypeKind_Map, TypeKind_Fn}"
        by blast
      then show ?thesis using a b True
        by cases (simp_all add: b_eq box_required_def bp bm bl br type_shape_list_length_neq, auto)
    qed
  qed
qed

section \<open>Properties\<close>

text \<open>
  C2: On well-formed types without \<^verbatim>\<open>nil\<close>, \<^verbatim>\<open>type_ref_equal\<close> always answers, and it answers
  true exactly when the two types have the same shape; spelling aliases and \<^verbatim>\<open>const\<close> never
  matter.  It is therefore an equivalence relation there.
\<close>

theorem type_ref_equal_is_shape_equality:
  assumes "type_ref_plain a" "type_ref_plain b"
  shows "type_ref_equal a b = Some (type_shape a = type_shape b)"
  using agrees_type_ref [of a] assms by (simp add: agrees_def)

lemma type_ref_equal_is_shape_equality_witness:
  "type_ref_equal
     (TypeRef TypeKind_Pointer [] (Some (TypeRef TypeKind_Named ''S'' None None 0 ''A'' True [] None))
        None 0 [] False [] None)
     (TypeRef TypeKind_Pointer [] (Some (TypeRef TypeKind_Named ''S'' None None 0 [] False [] None))
        None 0 [] False [] None) = Some True"
  by (subst type_ref_equal_is_shape_equality) (simp_all add: box_required_def)

lemma type_ref_equal_none [simp]:
  "type_ref_equal_box x None = None" "type_ref_equal_list xs [] = Some True"
  by (cases x; simp) (cases xs; simp)

lemma type_ref_equal_sym_mutual:
  "type_ref_equal a b = type_ref_equal b a"
  "type_ref_equal_box x y = type_ref_equal_box y x"
  "type_ref_equal_list xs ys = type_ref_equal_list ys xs"
proof (induction a b and x y and xs ys
    rule: type_ref_equal_type_ref_equal_box_type_ref_equal_list.induct)
  case (1 k name pointee map_key count al cn params ret k' name' pointee' map_key' count' al' cn' params' ret')
  show ?case
  proof (cases "k = k'")
    case True
    then show ?thesis using 1 by (simp add: eq_commute disj_commute)
  qed simp
qed auto

text \<open>A pointer to a type, as \<open>type_ref_from_atom\<close> and the lowerer build it.\<close>

definition ptr_to :: "type_ref \<Rightarrow> type_ref" where
  "ptr_to t = TypeRef TypeKind_Pointer [] (Some t) None 0 [] False [] None"

definition array_of :: "type_ref \<Rightarrow> u64 \<Rightarrow> type_ref" where
  "array_of t n = TypeRef TypeKind_Array [] (Some t) None n [] False [] None"

text \<open>
  Constness cannot be dropped through a pointer: a pointer to a \<^verbatim>\<open>const\<close> type is never
  assignable to a pointer to a type that is not \<^verbatim>\<open>const\<close>.
\<close>

theorem pointer_to_const_not_assignable:
  assumes "type_ref_plain t" "type_ref_plain u" "tr_is_const t" "\<not> tr_is_const u"
  shows "type_ref_assignable (ptr_to t) (ptr_to u) = Some False"
proof -
  have "type_ref_pointee_const_compatible t u = Some False"
    using assms by (cases t) simp
  moreover have "type_ref_equal t u = Some (type_shape t = type_shape u)"
    using agrees_type_ref [of t] assms by (simp add: agrees_def)
  ultimately show ?thesis
    by (cases "type_shape t = type_shape u")
      (simp_all add: type_ref_assignable_def ptr_to_def type_ref_const_compatible_def)
qed

lemma pointer_to_const_not_assignable_witness:
  "type_ref_assignable
     (ptr_to (TypeRef TypeKind_Char [] None None 0 [] True [] None))
     (ptr_to (TypeRef TypeKind_Char [] None None 0 [] False [] None)) = Some False"
  by (rule pointer_to_const_not_assignable) (simp_all add: box_required_def)

text \<open>
  Decay loses what C2 protects: an array whose scalar elements are \<^verbatim>\<open>const\<close> is assignable
  to a pointer to the mutable element type, because the decay branch checks only what lies below
  the element.
\<close>

theorem array_decay_drops_const:
  assumes "k \<notin> {TypeKind_Pointer, TypeKind_Array, TypeKind_Vector, TypeKind_Set, TypeKind_Map, TypeKind_Fn}"
  shows "type_ref_assignable
           (array_of (TypeRef k name None None 0 [] True [] None) n)
           (ptr_to (TypeRef k name None None 0 [] False [] None)) = Some True"
  using assms
  by (simp add: type_ref_assignable_def array_of_def ptr_to_def type_ref_const_compatible_def)

lemma array_decay_drops_const_witness:
  "type_ref_assignable
     (array_of (TypeRef TypeKind_I32 [] None None 0 [] True [] None) 4)
     (ptr_to (TypeRef TypeKind_I32 [] None None 0 [] False [] None)) = Some True"
  by (rule array_decay_drops_const) simp

text \<open>The types one atom can spell: a primitive or struct name, or a handle, under any number of
  pointers.\<close>

definition primitive_kinds :: "type_kind set" where
  "primitive_kinds =
     {TypeKind_I8, TypeKind_I16, TypeKind_I32, TypeKind_I64, TypeKind_U8, TypeKind_U16,
      TypeKind_U32, TypeKind_U64, TypeKind_F32, TypeKind_F64, TypeKind_Bool, TypeKind_Char,
      TypeKind_String, TypeKind_Void, TypeKind_Any, TypeKind_Arena, TypeKind_ArenaMark,
      TypeKind_Stream}"

fun atom_type :: "type_ref \<Rightarrow> bool"
and atom_type_box :: "type_ref option \<Rightarrow> bool" where
  "atom_type (TypeRef k name pointee map_key count al cn params ret) \<longleftrightarrow>
     map_key = None \<and> count = 0 \<and> al = [] \<and> \<not> cn \<and> params = [] \<and> ret = None
     \<and> (if k = TypeKind_Pointer then name = [] \<and> atom_type_box pointee
        else if k = TypeKind_Handle then pointee = None
        else if k = TypeKind_Named
        then pointee = None \<and> \<not> is_primitive_type_name name
             \<and> (name = [] \<or> last name \<noteq> CHR ''*'' \<and> last name \<noteq> CHR ''^'')
        else name = [] \<and> pointee = None \<and> k \<in> primitive_kinds)"
| "atom_type_box None = False"
| "atom_type_box (Some t) = atom_type t"

lemma str8_chop_last [simp]: "str8_chop (s @ [c]) (Suc 0) = s"
  by (simp add: str8_chop_def)

lemma from_atom_pointer:
  "type_ref_from_atom (s @ ''*'') = ptr_to (type_ref_from_atom s)"
  by (subst type_ref_from_atom.simps) (simp add: ptr_to_def)

lemma from_atom_handle:
  "type_ref_from_atom (s @ ''^'') = TypeRef TypeKind_Handle s None None 0 [] False [] None"
  by (subst type_ref_from_atom.simps) simp

lemma from_atom_primitive:
  assumes "k \<in> primitive_kinds"
  shows "type_ref_from_atom (type_kind_display k) = type_ref_of_kind k"
  using assms unfolding primitive_kinds_def
  by (elim insertE emptyE; simp add: type_kind_display_def; subst type_ref_from_atom.simps;
      simp add: primitive_type_kind_from_name_def)

text \<open>
  C3: Displaying a type that one atom can spell and reading the text back gives the same type.
\<close>

theorem type_ref_from_atom_display:
  assumes "atom_type t"
  shows "\<exists>s. type_ref_display t = Some s \<and> type_ref_from_atom s = t"
  using assms
proof (induction t)
  case (TypeRef k name pointee map_key count al cn params ret)
  consider "k = TypeKind_Pointer" | "k = TypeKind_Handle" | "k = TypeKind_Named"
    | "k \<notin> {TypeKind_Pointer, TypeKind_Handle, TypeKind_Named}"
    by blast
  then show ?case
  proof cases
    case 1
    then obtain p where p: "pointee = Some p" "atom_type p"
      using TypeRef.prems by (cases pointee) auto
    then obtain s where "type_ref_display p = Some s" "type_ref_from_atom s = p"
      using TypeRef.IH(1) by auto
    then show ?thesis
      using 1 p TypeRef.prems by (simp add: from_atom_pointer ptr_to_def)
  next
    case 2
    then show ?thesis using TypeRef.prems by (simp add: from_atom_handle)
  next
    case 3
    then show ?thesis using TypeRef.prems
      by (subst type_ref_from_atom.simps) (auto simp: is_primitive_type_name_def)
  next
    case 4
    then have k: "k \<in> primitive_kinds" and d: "type_ref_display (TypeRef k name pointee map_key count al cn params ret)
        = Some (type_kind_display k)"
      using TypeRef.prems by (auto simp: primitive_kinds_def type_kind_display_def)
    then show ?thesis using 4 TypeRef.prems from_atom_primitive [OF k] by simp
  qed
qed

lemma type_ref_from_atom_display_witness:
  "\<exists>s. type_ref_display (ptr_to (ptr_to (type_ref_of_kind TypeKind_I32))) = Some s
       \<and> type_ref_from_atom s = ptr_to (ptr_to (type_ref_of_kind TypeKind_I32))"
  by (rule type_ref_from_atom_display) (simp add: ptr_to_def primitive_kinds_def)

text \<open>What a template means: literal text, whose braces are doubled, and placeholders.\<close>

datatype template_piece = Literal string | Placeholder

definition escape_braces :: "string \<Rightarrow> string" where
  "escape_braces s =
     concat (map (\<lambda>c. if c = CHR ''{'' then ''{{'' else if c = CHR ''}'' then ''}}'' else [c]) s)"

fun render_template :: "template_piece list \<Rightarrow> string" where
  "render_template [] = []"
| "render_template (Literal s # ps) = escape_braces s @ render_template ps"
| "render_template (Placeholder # ps) = ''{}'' @ render_template ps"

lemma count_template_escape:
  "count_template_placeholders (escape_braces s @ rest) = count_template_placeholders rest"
  by (induction s) (auto simp: escape_braces_def)

text \<open>
  On every template made of literal text with doubled braces and \<^verbatim>\<open>{}\<close> placeholders,
  \<^verbatim>\<open>count_template_placeholders\<close> accepts and returns the number of placeholders.
\<close>

theorem count_template_placeholders_render:
  "count_template_placeholders (render_template ps)
     = Some (length (filter (\<lambda>p. p = Placeholder) ps))"
  by (induction ps rule: render_template.induct) (simp_all add: count_template_escape)

text \<open>
  \<^verbatim>\<open>reinterpret\<close> accepts exactly the castable scalar types other than \<^verbatim>\<open>bool\<close>.
\<close>

theorem reinterpret_is_castable_minus_bool:
  "type_reinterpret_byte_size enums t \<noteq> 0 \<longleftrightarrow>
     type_is_castable_scalar enums t \<and> tr_kind t \<noteq> TypeKind_Bool"
  by (cases "tr_kind t")
    (simp_all add: type_reinterpret_byte_size_def type_is_castable_scalar_def)

end
