(* ===== verification/Bytecode.thy ===== *)
theory Bytecode
  imports Types
begin

text \<open>
  The instruction set and program representation of \<^verbatim>\<open>bytecode.h\<close>, with the slot descriptor of
  \<^verbatim>\<open>bcmap.h\<close> its fixups hold by value.

  The opcodes of the enum \<^verbatim>\<open>BcOp\<close> are grouped by what they work on; the list
  \<open>bc_op_table\<close> gives each its number.  An instruction keeps its raw \<^verbatim>\<open>u32\<close> kind, because one
  read from a cache file need not name an opcode; \<open>bc_op_of\<close> decodes it.
\<close>

section \<open>Opcodes\<close>

datatype bc_data_op =
    BcOp_LoadConst | BcOp_Move | BcOp_BitNot | BcOp_Narrow | BcOp_FieldAddr |
  BcOp_LoadGlobal | BcOp_StoreGlobal

datatype bc_int_op =
    BcOp_Add | BcOp_Sub | BcOp_Mul | BcOp_Div | BcOp_Mod | BcOp_DivU | BcOp_ModU |
  BcOp_BitAnd | BcOp_BitOr | BcOp_BitXor | BcOp_Shl | BcOp_Shr | BcOp_ShrU

datatype bc_cmp_op =
    BcOp_Eq | BcOp_Neq | BcOp_Lt | BcOp_Le | BcOp_Gt | BcOp_Ge | BcOp_LtU | BcOp_LeU |
  BcOp_GtU | BcOp_GeU

datatype bc_f64_arith_op =
    BcOp_FAdd | BcOp_FSub | BcOp_FMul | BcOp_FDiv

datatype bc_f64_cmp_op =
    BcOp_FEq | BcOp_FNeq | BcOp_FLt | BcOp_FLe | BcOp_FGt | BcOp_FGe

datatype bc_f32_arith_op =
    BcOp_F32Add | BcOp_F32Sub | BcOp_F32Mul | BcOp_F32Div

datatype bc_f32_cmp_op =
    BcOp_F32Eq | BcOp_F32Neq | BcOp_F32Lt | BcOp_F32Le | BcOp_F32Gt | BcOp_F32Ge

datatype bc_ctl_op =
    BcOp_Jump | BcOp_JumpIfFalse | BcOp_Call | BcOp_CallHost | BcOp_CallModule | BcOp_Return
  | BcOp_ReturnVoid

datatype bc_load_op =
    BcOp_LoadFieldI32 | BcOp_LoadFieldU32 | BcOp_LoadFieldI64 | BcOp_LoadFieldF32 |
  BcOp_LoadFieldBool | BcOp_LoadFieldI8 | BcOp_LoadFieldU8 | BcOp_LoadFieldI16 |
  BcOp_LoadFieldU16

datatype bc_store_op =
    BcOp_StoreFieldI32 | BcOp_StoreFieldI64 | BcOp_StoreFieldF32 | BcOp_StoreFieldBool |
  BcOp_StoreFieldI8 | BcOp_StoreFieldI16

datatype bc_text_op =
    BcOp_StrCmp | BcOp_StringMatch | BcOp_ParseNumberValue | BcOp_ParseNumberOk

datatype bc_map_op =
    BcOp_MapSet | BcOp_MapGet | BcOp_MapRemove

datatype bc_conv_op =
    BcOp_IntToF64 | BcOp_IntToF32 | BcOp_F64ToInt | BcOp_F32ToInt | BcOp_F32ToF64 |
  BcOp_F64ToF32

datatype bc_arena_op =
    BcOp_Alloc | BcOp_ArenaCreate | BcOp_ArenaDestroy | BcOp_ArenaReset | BcOp_ArenaRelease
  | BcOp_ArenaMark | BcOp_ArenaPop | BcOp_ArenaPush | BcOp_ArenaPushZero |
  BcOp_LoadScratchArena | BcOp_Malloc | BcOp_Free

datatype bc_raw_op =
    BcOp_MemSet | BcOp_MemCopy | BcOp_MemZero | BcOp_MemCompare

datatype bc_math_op =
    BcOp_Sqrt | BcOp_Asin | BcOp_Acos | BcOp_Pow | BcOp_Sin | BcOp_Cos | BcOp_Atan2 |
  BcOp_F64IsFinite

datatype bc_handle_op =
    BcOp_HandlePoolSetStride | BcOp_HandlePoolInit | BcOp_HandleAlloc | BcOp_HandleGet |
  BcOp_HandleFree

datatype bc_dyn_op =
    BcOp_DynCount | BcOp_DynCapacity | BcOp_DynGrow | BcOp_DynSetCount | BcOp_DynCommit

datatype bc_print_op =
    BcOp_PrintI64 | BcOp_PrintU64 | BcOp_PrintF64 | BcOp_PrintBool | BcOp_PrintChar |
  BcOp_PrintString | BcOp_PrintCString

datatype bc_op =
    OpData bc_data_op | OpInt bc_int_op | OpCmp bc_cmp_op | OpF64Arith bc_f64_arith_op |
  OpF64Cmp bc_f64_cmp_op | OpF32Arith bc_f32_arith_op | OpF32Cmp bc_f32_cmp_op | OpCtl
  bc_ctl_op | OpLoad bc_load_op | OpStore bc_store_op | OpText bc_text_op | OpMap bc_map_op
  | OpConv bc_conv_op | OpArena bc_arena_op | OpRaw bc_raw_op | OpMath bc_math_op | OpHandle
  bc_handle_op | OpDyn bc_dyn_op | OpPrint bc_print_op

definition bc_op_table :: "bc_op list" where
  "bc_op_table = [
    OpData BcOp_LoadConst, OpData BcOp_Move, OpInt BcOp_Add, OpInt BcOp_Sub, OpInt BcOp_Mul,
     OpInt BcOp_Div, OpInt BcOp_Mod, OpCmp BcOp_Eq, OpCmp BcOp_Neq, OpCmp BcOp_Lt, OpCmp
     BcOp_Le, OpCmp BcOp_Gt, OpCmp BcOp_Ge, OpInt BcOp_DivU, OpInt BcOp_ModU, OpCmp
     BcOp_LtU, OpCmp BcOp_LeU, OpCmp BcOp_GtU, OpCmp BcOp_GeU, OpF64Arith BcOp_FAdd,
     OpF64Arith BcOp_FSub, OpF64Arith BcOp_FMul, OpF64Arith BcOp_FDiv, OpF64Cmp BcOp_FEq,
     OpF64Cmp BcOp_FNeq, OpF64Cmp BcOp_FLt, OpF64Cmp BcOp_FLe, OpF64Cmp BcOp_FGt, OpF64Cmp
     BcOp_FGe, OpF32Arith BcOp_F32Add, OpF32Arith BcOp_F32Sub, OpF32Arith BcOp_F32Mul,
     OpF32Arith BcOp_F32Div, OpF32Cmp BcOp_F32Eq, OpF32Cmp BcOp_F32Neq, OpF32Cmp BcOp_F32Lt,
     OpF32Cmp BcOp_F32Le, OpF32Cmp BcOp_F32Gt, OpF32Cmp BcOp_F32Ge, OpCtl BcOp_Jump, OpCtl
     BcOp_JumpIfFalse, OpCtl BcOp_Call, OpCtl BcOp_CallHost, OpCtl BcOp_CallModule, OpCtl
     BcOp_Return, OpCtl BcOp_ReturnVoid, OpArena BcOp_Alloc, OpData BcOp_FieldAddr, OpLoad
     BcOp_LoadFieldI32, OpLoad BcOp_LoadFieldU32, OpLoad BcOp_LoadFieldI64, OpLoad
     BcOp_LoadFieldF32, OpLoad BcOp_LoadFieldBool, OpLoad BcOp_LoadFieldI8, OpLoad
     BcOp_LoadFieldU8, OpLoad BcOp_LoadFieldI16, OpLoad BcOp_LoadFieldU16, OpStore
     BcOp_StoreFieldI32, OpStore BcOp_StoreFieldI64, OpStore BcOp_StoreFieldF32, OpStore
     BcOp_StoreFieldBool, OpStore BcOp_StoreFieldI8, OpStore BcOp_StoreFieldI16, OpText
     BcOp_StrCmp, OpText BcOp_StringMatch, OpMap BcOp_MapSet, OpMap BcOp_MapGet, OpMap
     BcOp_MapRemove, OpData BcOp_LoadGlobal, OpData BcOp_StoreGlobal, OpInt BcOp_BitAnd,
     OpInt BcOp_BitOr, OpInt BcOp_BitXor, OpInt BcOp_Shl, OpInt BcOp_Shr, OpInt BcOp_ShrU,
     OpData BcOp_BitNot, OpData BcOp_Narrow, OpConv BcOp_IntToF64, OpConv BcOp_IntToF32,
     OpConv BcOp_F64ToInt, OpConv BcOp_F32ToInt, OpConv BcOp_F32ToF64, OpConv BcOp_F64ToF32,
     OpArena BcOp_ArenaCreate, OpArena BcOp_ArenaDestroy, OpArena BcOp_ArenaReset, OpArena
     BcOp_ArenaRelease, OpArena BcOp_ArenaMark, OpArena BcOp_ArenaPop, OpArena
     BcOp_ArenaPush, OpArena BcOp_ArenaPushZero, OpArena BcOp_LoadScratchArena, OpArena
     BcOp_Malloc, OpArena BcOp_Free, OpRaw BcOp_MemSet, OpRaw BcOp_MemCopy, OpRaw
     BcOp_MemZero, OpRaw BcOp_MemCompare, OpMath BcOp_Sqrt, OpMath BcOp_Asin, OpMath
     BcOp_Acos, OpMath BcOp_Pow, OpMath BcOp_Sin, OpMath BcOp_Cos, OpMath BcOp_Atan2, OpMath
     BcOp_F64IsFinite, OpHandle BcOp_HandlePoolSetStride, OpHandle BcOp_HandlePoolInit,
     OpHandle BcOp_HandleAlloc, OpHandle BcOp_HandleGet, OpHandle BcOp_HandleFree, OpDyn
     BcOp_DynCount, OpText BcOp_ParseNumberValue, OpText BcOp_ParseNumberOk, OpDyn
     BcOp_DynCapacity, OpDyn BcOp_DynGrow, OpDyn BcOp_DynSetCount, OpDyn BcOp_DynCommit,
     OpPrint BcOp_PrintI64, OpPrint BcOp_PrintU64, OpPrint BcOp_PrintF64, OpPrint
     BcOp_PrintBool, OpPrint BcOp_PrintChar, OpPrint BcOp_PrintString, OpPrint
     BcOp_PrintCString]"

definition BcOp_Count :: nat where
  "BcOp_Count = length bc_op_table"

definition bc_op_of :: "u32 \<Rightarrow> bc_op option" where
  "bc_op_of k = (if unat k < BcOp_Count then Some (bc_op_table ! unat k) else None)"

definition BC_NARROW_WIDTH_MASK :: u32 where "BC_NARROW_WIDTH_MASK = 0xFF"
definition BC_NARROW_SIGNED :: u32 where "BC_NARROW_SIGNED = 0x100"

lemma BcOp_Count_eq: "BcOp_Count = 126"
  by (simp add: BcOp_Count_def bc_op_table_def)

lemma bc_op_of_None: "bc_op_of k = None \<longleftrightarrow> 126 \<le> unat k"
  by (auto simp: bc_op_of_def BcOp_Count_eq)

section \<open>Hash slot descriptors\<close>

datatype bc_map_key_kind =
    BcMapKeyKind_I8 | BcMapKeyKind_U8 | BcMapKeyKind_I16 | BcMapKeyKind_U16 | BcMapKeyKind_I32
  | BcMapKeyKind_U32 | BcMapKeyKind_I64 | BcMapKeyKind_U64 | BcMapKeyKind_Bool
  | BcMapKeyKind_Char | BcMapKeyKind_String

definition bc_map_key_kind_table :: "bc_map_key_kind list" where
  "bc_map_key_kind_table =
    [BcMapKeyKind_I8, BcMapKeyKind_U8, BcMapKeyKind_I16, BcMapKeyKind_U16, BcMapKeyKind_I32,
     BcMapKeyKind_U32, BcMapKeyKind_I64, BcMapKeyKind_U64, BcMapKeyKind_Bool,
     BcMapKeyKind_Char, BcMapKeyKind_String]"

text \<open>\<open>key_kind\<close> is kept as the raw number: a cache file supplies it unchecked.\<close>

record bc_hash_slot_layout =
  hl_key_kind :: u32
  hl_key_size :: u64
  hl_value_size :: u64
  hl_slot_size :: u64
  hl_slot_align :: u64
  hl_key_offset :: u64
  hl_value_offset :: u64
  hl_state_offset :: u64
  hl_is_set :: u32

section \<open>Programs\<close>

record bc_instr =
  in_kind :: u32
  in_a :: u32
  in_b :: u32
  in_c :: u32

record bc_string_fixup =
  sf_const_slot :: u32
  sf_is_header :: u32
  sf_bytes :: string

record bc_layout_fixup =
  lf_const_slot :: u32
  lf_layout :: bc_hash_slot_layout

record bc_chunk =
  ch_code :: "bc_instr list"
  ch_consts :: "i64 list"
  ch_num_registers :: u32
  ch_param_count :: u32
  ch_name :: string
  ch_string_fixups :: "bc_string_fixup list"
  ch_layout_fixups :: "bc_layout_fixup list"

text \<open>A module import names another program by its position among the live programs of the
  process.\<close>

record bc_module_import =
  mi_name :: string
  mi_prog :: nat
  mi_fn_index :: u32

text \<open>\<^verbatim>\<open>globals\<close> is run-time state and belongs to the machine; the program keeps the count.\<close>

record bc_program =
  pr_chunks :: "bc_chunk list"
  pr_global_count :: nat
  pr_module_table :: "bc_module_import list option"

datatype bc_host_import_kind = BcHostImportKind_Trampoline | BcHostImportKind_Direct

record bc_host_import =
  hi_name :: string
  hi_kind :: u32
  hi_arg_count :: u32
  hi_param_types :: "type_ref list option"
  hi_return_type :: type_ref

definition bc_decode :: "bc_instr \<Rightarrow> bc_op option" where
  "bc_decode ins = bc_op_of (in_kind ins)"

text \<open>\<^verbatim>\<open>bc_module_table_add\<close> and the two host import registrations append an entry.\<close>

definition bc_module_table_add :: "bc_module_import list \<Rightarrow> string \<Rightarrow> nat \<Rightarrow> u32 \<Rightarrow> bc_module_import list" where
  "bc_module_table_add table name prog fn =
     table @ [\<lparr>mi_name = name, mi_prog = prog, mi_fn_index = fn\<rparr>]"

definition bc_host_import_table_add ::
  "bc_host_import list \<Rightarrow> string \<Rightarrow> type_ref list option \<Rightarrow> u32 \<Rightarrow> type_ref \<Rightarrow> bc_host_import list" where
  "bc_host_import_table_add table name params n ret =
     table @ [\<lparr>hi_name = name, hi_kind = 0, hi_arg_count = n, hi_param_types = params,
               hi_return_type = ret\<rparr>]"

definition bc_host_import_table_add_direct ::
  "bc_host_import list \<Rightarrow> string \<Rightarrow> type_ref list option \<Rightarrow> u32 \<Rightarrow> type_ref \<Rightarrow> bc_host_import list" where
  "bc_host_import_table_add_direct table name params n ret =
     table @ [\<lparr>hi_name = name, hi_kind = 1, hi_arg_count = n, hi_param_types = params,
               hi_return_type = ret\<rparr>]"

end
