(* ===== verification/Machine.thy ===== *)
theory Machine
  imports Bytecode
begin

text \<open>
  The state a running program acts on: byte memory, the VM-backed arenas of \<^verbatim>\<open>base/base.h\<close>, the
  globals of every live program and the text written to each stream.

  Memory is a content function with an access predicate, so that \<^verbatim>\<open>mprotect\<close> can take a page
  away and give it back with its bytes.  An arena backend is kept apart from byte memory, keyed by
  its address.  What the C library, the kernel and the floating-point unit decide (addresses of
  fresh blocks, IEEE-754 results, \<^verbatim>\<open>%g\<close> text, \<^verbatim>\<open>strtod\<close>) comes from the record \<open>platform\<close>.
  Every function is in the option monad: \<^term>\<open>None\<close> where the C code aborts or has no defined
  behaviour.
\<close>

section \<open>Byte memory\<close>

record memory =
  me_byte :: "u64 \<Rightarrow> u8"
  me_access :: "u64 \<Rightarrow> bool"

definition in_range :: "u64 \<Rightarrow> u64 \<Rightarrow> u64 \<Rightarrow> bool" where
  "in_range a n x \<longleftrightarrow> x - a < n"

definition set_access :: "memory \<Rightarrow> u64 \<Rightarrow> u64 \<Rightarrow> bool \<Rightarrow> memory" where
  "set_access m a n p = m\<lparr>me_access := (\<lambda>x. if in_range a n x then p else me_access m x)\<rparr>"

fun load_bytes :: "memory \<Rightarrow> u64 \<Rightarrow> nat \<Rightarrow> bytes option" where
  "load_bytes m a 0 = Some []"
| "load_bytes m a (Suc n) =
     (if me_access m a then do { bs \<leftarrow> load_bytes m (a + 1) n; Some (me_byte m a # bs) } else None)"

fun store_bytes :: "memory \<Rightarrow> u64 \<Rightarrow> bytes \<Rightarrow> memory option" where
  "store_bytes m a [] = Some m"
| "store_bytes m a (b # bs) =
     (if me_access m a then store_bytes (m\<lparr>me_byte := (me_byte m)(a := b)\<rparr>) (a + 1) bs else None)"

definition load_u8 :: "memory \<Rightarrow> u64 \<Rightarrow> u8 option" where
  "load_u8 m a = map_option le_word (load_bytes m a 1)"
definition load_u16 :: "memory \<Rightarrow> u64 \<Rightarrow> u16 option" where
  "load_u16 m a = map_option le_word (load_bytes m a 2)"
definition load_u32 :: "memory \<Rightarrow> u64 \<Rightarrow> u32 option" where
  "load_u32 m a = map_option le_word (load_bytes m a 4)"
definition load_u64 :: "memory \<Rightarrow> u64 \<Rightarrow> u64 option" where
  "load_u64 m a = map_option le_word (load_bytes m a 8)"

definition store_u8 :: "memory \<Rightarrow> u64 \<Rightarrow> u8 \<Rightarrow> memory option" where
  "store_u8 m a v = store_bytes m a (le_bytes 1 v)"
definition store_u16 :: "memory \<Rightarrow> u64 \<Rightarrow> u16 \<Rightarrow> memory option" where
  "store_u16 m a v = store_bytes m a (le_bytes 2 v)"
definition store_u32 :: "memory \<Rightarrow> u64 \<Rightarrow> u32 \<Rightarrow> memory option" where
  "store_u32 m a v = store_bytes m a (le_bytes 4 v)"
definition store_u64 :: "memory \<Rightarrow> u64 \<Rightarrow> u64 \<Rightarrow> memory option" where
  "store_u64 m a v = store_bytes m a (le_bytes 8 v)"

text \<open>A boxed \<^verbatim>\<open>String8\<close>: the pointer and size of its header, and the bytes it views.\<close>

definition load_str8 :: "memory \<Rightarrow> u64 \<Rightarrow> bytes option" where
  "load_str8 m hdr =
     do { str \<leftarrow> load_u64 m hdr; sz \<leftarrow> load_u64 m (hdr + 8); load_bytes m str (unat sz) }"

text \<open>\<^verbatim>\<open>memmove\<close>, \<^verbatim>\<open>memset\<close> and \<^verbatim>\<open>memcmp\<close>.\<close>

definition mem_move :: "memory \<Rightarrow> u64 \<Rightarrow> u64 \<Rightarrow> u64 \<Rightarrow> memory option" where
  "mem_move m dst src n = do { bs \<leftarrow> load_bytes m src (unat n); store_bytes m dst bs }"

definition mem_set :: "memory \<Rightarrow> u64 \<Rightarrow> u8 \<Rightarrow> u64 \<Rightarrow> memory option" where
  "mem_set m a b n = store_bytes m a (replicate (unat n) b)"

fun bytes_compare :: "bytes \<Rightarrow> bytes \<Rightarrow> int" where
  "bytes_compare (a # as) (b # bs) = (if a = b then bytes_compare as bs else uint a - uint b)"
| "bytes_compare _ _ = 0"

section \<open>Arenas\<close>

record arena_vm_backend =
  ab_base :: u64
  ab_commit :: u64
  ab_at :: u64
  ab_reserve_size :: u64
  ab_page_size :: u64

definition AlignPow2 :: "u64 \<Rightarrow> u64 \<Rightarrow> u64" where
  "AlignPow2 x b = (x + b - 1) AND NOT (b - 1)"

definition IsPow2 :: "u64 \<Rightarrow> bool" where
  "IsPow2 x \<longleftrightarrow> x \<noteq> 0 \<and> x AND (x - 1) = 0"

definition ARENA_POISON_BYTE :: u8 where "ARENA_POISON_BYTE = 0xDD"

definition arena_vm_push_op ::
  "arena_vm_backend \<Rightarrow> memory \<Rightarrow> u64 \<Rightarrow> u64 \<Rightarrow> (u64 \<times> arena_vm_backend \<times> memory) option" where
  "arena_vm_push_op be m sz align =
     (if \<not> IsPow2 align then None
      else let result = AlignPow2 (ab_at be) align; nxt = result + sz
      in if nxt > ab_base be + ab_reserve_size be then None
      else if nxt > ab_commit be
      then let offset = AlignPow2 (nxt - ab_base be) (ab_page_size be);
               new_commit = ab_base be + offset
           in if \<not> new_commit \<le> ab_base be + ab_reserve_size be then None
              else Some (result, be\<lparr>ab_commit := new_commit, ab_at := nxt\<rparr>,
                         set_access m (ab_commit be) (new_commit - ab_commit be) True)
      else Some (result, be\<lparr>ab_at := nxt\<rparr>, m))"

definition arena_vm_release_op :: "arena_vm_backend \<Rightarrow> memory \<Rightarrow> arena_vm_backend \<times> memory" where
  "arena_vm_release_op be m =
     (be\<lparr>ab_commit := ab_base be, ab_at := ab_base be\<rparr>,
      if ab_commit be > ab_base be
      then set_access m (ab_base be) (ab_commit be - ab_base be) False else m)"

definition ArenaPoison :: "memory \<Rightarrow> u64 \<Rightarrow> u64 \<Rightarrow> memory option" where
  "ArenaPoison m a n = (if n > 0 then mem_set m a ARENA_POISON_BYTE n else Some m)"

definition arena_vm_reset_op :: "arena_vm_backend \<Rightarrow> memory \<Rightarrow> (arena_vm_backend \<times> memory) option" where
  "arena_vm_reset_op be m =
     do { m' \<leftarrow> ArenaPoison m (ab_base be) (ab_at be - ab_base be);
          Some (be\<lparr>ab_at := ab_base be\<rparr>, m') }"

definition arena_vm_get_at_op :: "arena_vm_backend \<Rightarrow> u64" where
  "arena_vm_get_at_op be = ab_at be"

definition arena_vm_set_at_op ::
  "arena_vm_backend \<Rightarrow> memory \<Rightarrow> u64 \<Rightarrow> (arena_vm_backend \<times> memory) option" where
  "arena_vm_set_at_op be m at =
     (if \<not> (at \<ge> ab_base be \<and> at \<le> ab_commit be) then None
      else do { m' \<leftarrow> (if at < ab_at be then ArenaPoison m at (ab_at be - at) else Some m);
                Some (be\<lparr>ab_at := at\<rparr>, m') })"

section \<open>The machine\<close>

text \<open>\<open>mc_out\<close> is the text written, in order, with the stream it went to (0 is \<^verbatim>\<open>stdout\<close>, 1
  \<^verbatim>\<open>stderr\<close>, anything else the \<^verbatim>\<open>FILE*\<close>); \<open>mc_blocks\<close> are the live \<^verbatim>\<open>malloc\<close> blocks.\<close>

record machine =
  mc_mem :: memory
  mc_arenas :: "u64 \<Rightarrow> arena_vm_backend option"
  mc_blocks :: "u64 \<Rightarrow> u64 option"
  mc_globals :: "nat \<Rightarrow> i64 list"
  mc_out :: "(u64 \<times> string) list"

record platform =
  pf_page_size :: u64
  pf_arena_vm_ops :: u64
  pf_ctx_scratch :: u64
  pf_calloc :: "machine \<Rightarrow> u64"
  pf_mmap :: "machine \<Rightarrow> u64 \<Rightarrow> u64 option"
  pf_malloc :: "machine \<Rightarrow> u64 \<Rightarrow> u64 \<times> (u64 \<Rightarrow> u8)"
  pf_f64_arith :: "bc_f64_arith_op \<Rightarrow> u64 \<Rightarrow> u64 \<Rightarrow> u64"
  pf_f32_arith :: "bc_f32_arith_op \<Rightarrow> u32 \<Rightarrow> u32 \<Rightarrow> u32"
  pf_i64_to_f64 :: "i64 \<Rightarrow> u64"
  pf_i64_to_f32 :: "i64 \<Rightarrow> u32"
  pf_f64_to_i64 :: "u64 \<Rightarrow> i64 option"
  pf_f32_to_i64 :: "u32 \<Rightarrow> i64 option"
  pf_f32_to_f64 :: "u32 \<Rightarrow> u64"
  pf_f64_to_f32 :: "u64 \<Rightarrow> u32"
  pf_libm :: "bc_math_op \<Rightarrow> u64 \<Rightarrow> u64 \<Rightarrow> u64"
  pf_strtod :: "string \<Rightarrow> nat \<times> u64"
  pf_strtof :: "string \<Rightarrow> nat \<times> u32"
  pf_format_g :: "u64 \<Rightarrow> string"
  pf_memcmp :: "bytes \<Rightarrow> bytes \<Rightarrow> int"

text \<open>Running a backend operation through the address of an \<^verbatim>\<open>Arena\<close> value: its \<^verbatim>\<open>ops\<close> must be
  the VM table, the only one a bytecode program can create.\<close>

definition arena_backend :: "platform \<Rightarrow> machine \<Rightarrow> u64 \<Rightarrow> (u64 \<times> arena_vm_backend) option" where
  "arena_backend pf mc arena =
     do { backend \<leftarrow> load_u64 (mc_mem mc) arena; ops \<leftarrow> load_u64 (mc_mem mc) (arena + 8);
          be \<leftarrow> mc_arenas mc backend;
          if ops = pf_arena_vm_ops pf then Some (backend, be) else None }"

definition put_backend :: "machine \<Rightarrow> u64 \<Rightarrow> arena_vm_backend \<Rightarrow> memory \<Rightarrow> machine" where
  "put_backend mc backend be m = mc\<lparr>mc_mem := m, mc_arenas := (mc_arenas mc)(backend \<mapsto> be)\<rparr>"

definition arena_push :: "platform \<Rightarrow> machine \<Rightarrow> u64 \<Rightarrow> u64 \<Rightarrow> u64 \<Rightarrow> (u64 \<times> machine) option" where
  "arena_push pf mc arena sz align =
     do { (backend, be) \<leftarrow> arena_backend pf mc arena;
          (p, be', m) \<leftarrow> arena_vm_push_op be (mc_mem mc) sz align;
          Some (p, put_backend mc backend be' m) }"

definition arena_push_zero :: "platform \<Rightarrow> machine \<Rightarrow> u64 \<Rightarrow> u64 \<Rightarrow> u64 \<Rightarrow> (u64 \<times> machine) option" where
  "arena_push_zero pf mc arena sz align =
     do { (p, mc') \<leftarrow> arena_push pf mc arena sz align;
          m \<leftarrow> mem_set (mc_mem mc') p 0 sz;
          Some (p, mc'\<lparr>mc_mem := m\<rparr>) }"

definition arena_reset :: "platform \<Rightarrow> machine \<Rightarrow> u64 \<Rightarrow> machine option" where
  "arena_reset pf mc arena =
     do { (backend, be) \<leftarrow> arena_backend pf mc arena;
          (be', m) \<leftarrow> arena_vm_reset_op be (mc_mem mc);
          Some (put_backend mc backend be' m) }"

definition arena_release :: "platform \<Rightarrow> machine \<Rightarrow> u64 \<Rightarrow> machine option" where
  "arena_release pf mc arena =
     do { (backend, be) \<leftarrow> arena_backend pf mc arena;
          let (be', m) = arena_vm_release_op be (mc_mem mc);
          Some (put_backend mc backend be' m) }"

definition arena_mark :: "platform \<Rightarrow> machine \<Rightarrow> u64 \<Rightarrow> u64 option" where
  "arena_mark pf mc arena =
     do { (backend, be) \<leftarrow> arena_backend pf mc arena; Some (arena_vm_get_at_op be) }"

definition arena_pop :: "platform \<Rightarrow> machine \<Rightarrow> u64 \<Rightarrow> u64 \<Rightarrow> machine option" where
  "arena_pop pf mc arena at =
     do { (backend, be) \<leftarrow> arena_backend pf mc arena;
          (be', m) \<leftarrow> arena_vm_set_at_op be (mc_mem mc) at;
          Some (put_backend mc backend be' m) }"

text \<open>\<^verbatim>\<open>arena_destroy\<close> unmaps the reservation, frees the backend and zeroes the \<^verbatim>\<open>Arena\<close>.\<close>

definition arena_destroy :: "platform \<Rightarrow> machine \<Rightarrow> u64 \<Rightarrow> machine option" where
  "arena_destroy pf mc arena =
     (if arena = 0 then Some mc
      else do { backend \<leftarrow> load_u64 (mc_mem mc) arena;
        if backend = 0 then Some mc
        else do { ops \<leftarrow> load_u64 (mc_mem mc) (arena + 8);
          be \<leftarrow> mc_arenas mc backend;
          if ops \<noteq> pf_arena_vm_ops pf then None
          else do {
            m \<leftarrow> store_bytes (set_access (mc_mem mc) (ab_base be) (ab_reserve_size be) False) arena
                   (replicate 16 0);
            Some (mc\<lparr>mc_mem := m, mc_arenas := (mc_arenas mc)(backend := None)\<rparr>) }}})"

text \<open>The two words of the new \<^verbatim>\<open>Arena\<close>, after the backend is set up.  \<^verbatim>\<open>mmap\<close> maps zero pages
  without access; its failure trips the assertion.\<close>

definition arena_create_vm :: "platform \<Rightarrow> machine \<Rightarrow> u64 \<Rightarrow> ((u64 \<times> u64) \<times> machine) option" where
  "arena_create_vm pf mc reserve_size =
     (if \<not> reserve_size > 0 \<or> \<not> IsPow2 (pf_page_size pf) then None
      else do {
        let backend = pf_calloc pf mc;
        let sz = AlignPow2 reserve_size (pf_page_size pf) + pf_page_size pf;
        base \<leftarrow> pf_mmap pf mc sz;
        let m = (mc_mem mc)\<lparr>me_byte := (\<lambda>x. if in_range base sz x then 0 else me_byte (mc_mem mc) x),
                            me_access := (\<lambda>x. \<not> in_range base sz x \<and> me_access (mc_mem mc) x)\<rparr>;
        Some ((backend, pf_arena_vm_ops pf),
          put_backend mc backend
            \<lparr>ab_base = base, ab_commit = base, ab_at = base, ab_reserve_size = sz,
             ab_page_size = pf_page_size pf\<rparr> m) })"

section \<open>The C allocator\<close>

definition c_malloc :: "platform \<Rightarrow> machine \<Rightarrow> u64 \<Rightarrow> u64 \<times> machine" where
  "c_malloc pf mc n =
     (let (p, junk) = pf_malloc pf mc n
      in if p = 0 then (0, mc)
         else (p, mc\<lparr>mc_mem := (mc_mem mc)
                      \<lparr>me_byte := (\<lambda>x. if in_range p n x then junk x else me_byte (mc_mem mc) x),
                       me_access := (\<lambda>x. in_range p n x \<or> me_access (mc_mem mc) x)\<rparr>,
                    mc_blocks := (mc_blocks mc)(p \<mapsto> n)\<rparr>))"

definition c_free :: "machine \<Rightarrow> u64 \<Rightarrow> machine option" where
  "c_free mc p =
     (if p = 0 then Some mc
      else case mc_blocks mc p of
             None \<Rightarrow> None
           | Some n \<Rightarrow> Some (mc\<lparr>mc_mem := set_access (mc_mem mc) p n False,
                               mc_blocks := (mc_blocks mc)(p := None)\<rparr>))"

definition write_out :: "machine \<Rightarrow> u64 \<Rightarrow> string \<Rightarrow> machine" where
  "write_out mc stream s = mc\<lparr>mc_out := mc_out mc @ [(stream, s)]\<rparr>"

section \<open>Memory laws\<close>

lemma store_bytes_result:
  assumes "store_bytes m a bs = Some m'" "length bs \<le> 2 ^ 64"
  shows "me_byte m' x = (if unat (x - a) < length bs then bs ! unat (x - a) else me_byte m x)"
    and "me_access m' = me_access m"
proof -
  have "me_byte m' x = (if unat (x - a) < length bs then bs ! unat (x - a) else me_byte m x)
        \<and> me_access m' = me_access m"
    using assms
  proof (induction bs arbitrary: m a)
    case (Cons b bs)
    have st: "store_bytes (m\<lparr>me_byte := (me_byte m)(a := b)\<rparr>) (a + 1) bs = Some m'"
      using Cons.prems by (simp split: if_splits)
    have ih: "me_byte m' x = (if unat (x - (a + 1)) < length bs then bs ! unat (x - (a + 1))
        else ((me_byte m)(a := b)) x) \<and> me_access m' = me_access m"
      using Cons.IH [OF st] Cons.prems by simp
    show ?case
    proof (cases "x = a")
      case True
      have "unat (- 1 :: u64) = 2 ^ 64 - 1"
        by (simp add: unsigned_minus_1_eq_mask mask_eq_exp_minus_1)
      then show ?thesis using ih True Cons.prems by simp
    next
      case False
      then have "unat (x - a) = Suc (unat (x - (a + 1)))"
        by unat_arith
      then show ?thesis using ih False by simp
    qed
  qed simp
  then show "me_byte m' x = (if unat (x - a) < length bs then bs ! unat (x - a) else me_byte m x)"
    "me_access m' = me_access m" by blast+
qed

lemma load_bytes_eq:
  "load_bytes m a n =
     (if \<forall>i<n. me_access m (a + of_nat i) then Some (map (\<lambda>i. me_byte m (a + of_nat i)) [0..<n])
      else None)"
proof (induction n arbitrary: a)
  case (Suc n)
  have u: "[0..<Suc n] = 0 # map Suc [0..<n]"
    by (simp add: map_Suc_upt upt_conv_Cons del: upt_Suc)
  have all: "(\<forall>i<Suc n. me_access m (a + of_nat i)) \<longleftrightarrow>
      me_access m a \<and> (\<forall>i<n. me_access m (a + 1 + of_nat i))"
    by (auto simp: less_Suc_eq_0_disj add.assoc)
  show ?case unfolding u all using Suc [of "a + 1"]
    by (simp add: o_def add.assoc)
qed simp

lemma length_load_bytes: "load_bytes m a n = Some bs \<Longrightarrow> length bs = n"
  by (auto simp: load_bytes_eq split: if_splits)

lemma store_bytes_access:
  "store_bytes m a bs = Some m' \<Longrightarrow> i < length bs \<Longrightarrow> me_access m (a + of_nat i)"
proof (induction bs arbitrary: m a i)
  case (Cons b bs)
  then show ?case
    by (cases i) (force simp: add.assoc split: if_splits)+
qed simp

lemma load_store_bytes:
  assumes "store_bytes m a bs = Some m'" "length bs < 2 ^ 64"
  shows "load_bytes m' a (length bs) = Some bs"
proof -
  have i: "unat (a + of_nat i - a) = i" if "i < length bs" for i
    using that assms(2) by (simp add: unsigned_of_nat take_bit_nat_eq_self)
  have "me_byte m' (a + of_nat i) = bs ! i" if "i < length bs" for i
    using store_bytes_result(1) [OF assms(1), of "a + of_nat i"] assms(2) i [OF that] that by simp
  moreover have "me_access m' (a + of_nat i)" if "i < length bs" for i
    using store_bytes_access [OF assms(1) that] store_bytes_result(2) [OF assms(1)] assms(2) by simp
  ultimately show ?thesis
    by (auto simp: load_bytes_eq intro: nth_equalityI)
qed

lemma load_store_u64 [simp]: "store_u64 m a v = Some m' \<Longrightarrow> load_u64 m' a = Some v"
  using load_store_bytes [of m a "le_bytes 8 v" m'] by (simp add: store_u64_def load_u64_def)

lemma load_store_u32 [simp]: "store_u32 m a v = Some m' \<Longrightarrow> load_u32 m' a = Some v"
  using load_store_bytes [of m a "le_bytes 4 v" m'] by (simp add: store_u32_def load_u32_def)

section \<open>Alignment\<close>

lemma pow2_nat: "n \<noteq> 0 \<Longrightarrow> n AND (n - 1) = (0::nat) \<Longrightarrow> \<exists>k. n = 2 ^ k"
proof (induction n rule: less_induct)
  case (less n)
  have r: "n AND (n - 1) = of_bool (odd n \<and> odd (n - 1)) + 2 * ((n div 2) AND ((n - 1) div 2))"
    by (rule and_rec)
  show ?case
  proof (cases "even n")
    case True
    then obtain m where m: "n = 2 * m" by blast
    then have m0: "m \<noteq> 0" "m < n" "(n - 1) div 2 = m - 1" using less.prems by auto
    then have "m AND (m - 1) = 0" using less.prems r m by simp
    then obtain k where "m = 2 ^ k" using less.IH m0 by blast
    then have "n = 2 ^ Suc k" using m by simp
    then show ?thesis by blast
  next
    case False
    then obtain m where m: "n = 2 * m + 1" by (blast elim: oddE)
    then have "m = 0" using less.prems r by simp
    then have "n = 2 ^ 0" using m by simp
    then show ?thesis by blast
  qed
qed

lemma unat_u64: "unat (w :: u64) < 2 ^ 64"
proof -
  have "unat w < 2 ^ LENGTH(64)" by (rule unsigned_less)
  then show ?thesis by simp
qed

lemma IsPow2_unat:
  assumes "IsPow2 b"
  obtains k where "k < 64" "unat b = 2 ^ k"
proof -
  have b0: "b \<noteq> 0" and bb: "b AND (b - 1) = 0" using assms by (auto simp: IsPow2_def)
  have "unat (b - 1) = unat b - 1" using b0 by (simp add: unat_minus_one)
  then have "unat b AND (unat b - 1) = 0" using bb by (metis unsigned_and_eq unsigned_0)
  moreover have "unat b \<noteq> 0" using b0 by (simp add: unat_eq_0)
  ultimately obtain k where k: "unat b = 2 ^ k" using pow2_nat by blast
  have "k < 64"
  proof (rule ccontr)
    assume "\<not> k < 64"
    then have "(2::nat) ^ 64 \<le> unat b" using k by (simp add: power_increasing del: power_numeral)
    moreover have "unat b < 2 ^ 64" by (rule unat_u64)
    ultimately show False by simp
  qed
  with k show ?thesis using that by blast
qed

lemma AlignPow2_unat:
  assumes "unat b = 2 ^ k" "k < 64" "unat x + unat b \<le> 2 ^ 64"
  shows "unat (AlignPow2 x b) = (unat x + (2 ^ k - 1)) div 2 ^ k * 2 ^ k"
proof -
  have b: "b = 2 ^ k"
  proof -
    have "(2::nat) ^ k < 2 ^ 64" 
      by (rule power_strict_increasing) (use assms(2) in auto)
    then have "take_bit 64 ((2::nat) ^ k) = 2 ^ k" by (rule take_bit_nat_eq_self)
    then have "unat (of_nat (2 ^ k) :: u64) = 2 ^ k" by (simp add: unsigned_of_nat del: of_nat_power)
    then show ?thesis using assms(1) by (simp add: word_unat_eq_iff)
  qed
  have m: "b - 1 = mask k" by (simp add: b mask_eq_exp_minus_1)
  have u1: "unat (b - 1) = 2 ^ k - 1"
    using assms(1) by (subst unat_minus_one) (auto simp: word_unat_eq_iff)
  have lt: "unat x + (2 ^ k - 1) < 2 ^ 64"
  proof -
    have "1 \<le> (2::nat) ^ k" by simp
    then show ?thesis using assms(1,3) by linarith
  qed
  have sum: "unat (x + (b - 1)) = unat x + (2 ^ k - 1)"
    using lt by (subst unat_plus_if') (simp add: u1)
  have e: "AlignPow2 x b = push_bit k (drop_bit k (x + (b - 1)))"
    unfolding AlignPow2_def m add_diff_eq [symmetric]
    by (rule bit_word_eqI) (auto simp: bit_simps)
  have t: "take_bit 64 (unat x + (2 ^ k - 1)) = unat x + (2 ^ k - 1)"
    by (rule take_bit_nat_eq_self) (rule lt)
  have "unat (AlignPow2 x b) = take_bit LENGTH(64) (((unat x + (2 ^ k - 1)) div 2 ^ k) * 2 ^ k)"
    unfolding e unsigned_push_bit_eq unsigned_drop_bit_eq sum
    by (simp only: push_bit_eq_mult drop_bit_eq_div t len_num0 len_num1 len_bit0 len_bit1)
      (use t in simp)
  also have "\<dots> = (unat x + (2 ^ k - 1)) div 2 ^ k * 2 ^ k"
    using take_bit_nat_eq_self [OF le_less_trans [OF div_times_less_eq_dividend lt], of "2 ^ k"]
    by simp
  finally show ?thesis .
qed

lemma AlignPow2_props:
  assumes "IsPow2 b" "unat x + unat b \<le> 2 ^ 64"
  shows "unat b dvd unat (AlignPow2 x b)" "x \<le> AlignPow2 x b"
    "unat (AlignPow2 x b) < unat x + unat b"
proof -
  obtain k where k: "k < 64" "unat b = 2 ^ k" using IsPow2_unat [OF assms(1)] .
  let ?n = "unat x" and ?p = "2 ^ k :: nat"
  have e: "unat (AlignPow2 x b) = (?n + (?p - 1)) div ?p * ?p"
    using AlignPow2_unat k assms(2) by blast
  show "unat b dvd unat (AlignPow2 x b)" by (simp add: e k)
  have p: "0 < ?p" by simp
  have d: "(?n + (?p - 1)) div ?p * ?p + (?n + (?p - 1)) mod ?p = ?n + (?p - 1)" by (rule div_mult_mod_eq)
  moreover have "(?n + (?p - 1)) mod ?p \<le> ?p - 1"
    using p mod_less_divisor [of ?p "?n + (?p - 1)"] by linarith
  ultimately have "?n \<le> (?n + (?p - 1)) div ?p * ?p" by linarith
  then show "x \<le> AlignPow2 x b" by (simp add: word_le_nat_alt e)
  show "unat (AlignPow2 x b) < unat x + unat b" using d p unfolding e k(2) by linarith
qed

section \<open>The arena invariant\<close>

text \<open>The cursor lies between the base and the committed end, inside a reservation that does not
  wrap around the address space.\<close>

definition arena_vm_inv :: "arena_vm_backend \<Rightarrow> bool" where
  "arena_vm_inv be \<longleftrightarrow>
     ab_base be \<le> ab_at be \<and> ab_at be \<le> ab_commit be
     \<and> unat (ab_commit be) \<le> unat (ab_base be) + unat (ab_reserve_size be)
     \<and> unat (ab_base be) + unat (ab_reserve_size be) < 2 ^ 63
     \<and> IsPow2 (ab_page_size be) \<and> unat (ab_page_size be) \<le> 2 ^ 32"

text \<open>Every committed byte is accessible.\<close>

definition arena_vm_committed :: "arena_vm_backend \<Rightarrow> memory \<Rightarrow> bool" where
  "arena_vm_committed be m \<longleftrightarrow> (\<forall>x. ab_base be \<le> x \<and> x < ab_commit be \<longrightarrow> me_access m x)"

lemma in_range_between:
  "a \<le> x \<Longrightarrow> a \<le> b \<Longrightarrow> in_range a (b - a) x \<longleftrightarrow> x < b"
  by (simp add: in_range_def) unat_arith

text \<open>The arithmetic of a push, once the wrap-around is excluded.\<close>

lemma arena_vm_push_op_cases:
  assumes inv: "arena_vm_inv be" and sz: "unat sz < 2 ^ 62" "unat align \<le> 2 ^ 32"
    and push: "arena_vm_push_op be m sz align = Some (p, be', m')"
  obtains nc where
    "ab_at be \<le> p" "unat align dvd unat p" "unat (p + sz) = unat p + unat sz"
    "be' = be\<lparr>ab_commit := nc, ab_at := p + sz\<rparr>" "p + sz \<le> nc" "ab_commit be \<le> nc"
    "unat nc \<le> unat (ab_base be) + unat (ab_reserve_size be)"
    "m' = set_access m (ab_commit be) (nc - ab_commit be) True"
proof -
  let ?r = "AlignPow2 (ab_at be) align"
  let ?top = "unat (ab_base be) + unat (ab_reserve_size be)"
  have al: "IsPow2 align" using push by (auto simp: arena_vm_push_op_def split: if_splits)
  have bounds: "ab_base be \<le> ab_at be" "ab_at be \<le> ab_commit be" "unat (ab_commit be) \<le> ?top"
    "?top < 2 ^ 63" and pg: "IsPow2 (ab_page_size be)" "unat (ab_page_size be) \<le> 2 ^ 32"
    using inv by (auto simp: arena_vm_inv_def)
  have at: "unat (ab_at be) \<le> ?top" using bounds by (simp add: word_le_nat_alt)
  have "unat (ab_at be) + unat align \<le> 2 ^ 64" using at bounds(4) sz(2) by simp
  note r = AlignPow2_props [OF al this]
  have nxt: "unat (?r + sz) = unat ?r + unat sz"
    using r(3) sz at bounds(4) by (subst unat_plus_if') simp
  have endw: "unat (ab_base be + ab_reserve_size be) = ?top"
    using bounds(4) by (subst unat_plus_if') simp
  show thesis
  proof (cases "?r + sz > ab_commit be")
    case False
    then have "p = ?r" "be' = be\<lparr>ab_at := ?r + sz\<rparr>" "m' = m"
      using push by (auto simp: arena_vm_push_op_def Let_def split: if_splits)
    moreover have "set_access m (ab_commit be) 0 True = m"
      by (simp add: set_access_def in_range_def)
    ultimately show thesis
      using that [of "ab_commit be"] r nxt False bounds by auto
  next
    case True
    let ?off = "AlignPow2 (?r + sz - ab_base be) (ab_page_size be)"
    let ?nc = "ab_base be + ?off"
    have eqs: "p = ?r" "be' = be\<lparr>ab_commit := ?nc, ab_at := ?r + sz\<rparr>"
      "m' = set_access m (ab_commit be) (?nc - ab_commit be) True"
      "?r + sz \<le> ab_base be + ab_reserve_size be" "?nc \<le> ab_base be + ab_reserve_size be"
      using push True by (auto simp: arena_vm_push_op_def Let_def split: if_splits)
    have le: "ab_base be \<le> ?r + sz" using bounds(1,2) True by (metis order.trans less_imp_le)
    have d: "unat (?r + sz - ab_base be) = unat (?r + sz) - unat (ab_base be)"
      using le by (simp add: unat_sub_if' word_le_nat_alt)
    have end2: "unat (?r + sz) \<le> ?top" using eqs(4) endw by (simp add: word_le_nat_alt)
    have "unat (?r + sz - ab_base be) + unat (ab_page_size be) \<le> 2 ^ 64"
      using d end2 bounds(4) pg(2) by simp
    note o = AlignPow2_props [OF pg(1) this]
    have nc: "unat ?nc = unat (ab_base be) + unat ?off"
      using o(3) d end2 bounds(4) pg(2) by (subst unat_plus_if') simp
    have "?r + sz \<le> ?nc"
      using o(2) le d nc by (simp add: word_le_nat_alt)
    moreover from this have "ab_commit be \<le> ?nc" using True by (metis less_imp_le order.trans)
    moreover have "unat ?nc \<le> ?top" using eqs(5) endw by (simp add: word_le_nat_alt)
    ultimately show thesis using that [of ?nc] eqs(1-3) r nxt by simp
  qed
qed

lemma arena_vm_push_op_inv:
  assumes inv: "arena_vm_inv be" and com: "arena_vm_committed be m"
    and sz: "unat sz < 2 ^ 62" "unat align \<le> 2 ^ 32"
    and push: "arena_vm_push_op be m sz align = Some (p, be', m')"
  shows "arena_vm_inv be' \<and> arena_vm_committed be' m' \<and> me_byte m' = me_byte m"
proof -
  obtain nc where nc: "ab_at be \<le> p" "unat (p + sz) = unat p + unat sz"
    "be' = be\<lparr>ab_commit := nc, ab_at := p + sz\<rparr>" "p + sz \<le> nc" "ab_commit be \<le> nc"
    "unat nc \<le> unat (ab_base be) + unat (ab_reserve_size be)"
    "m' = set_access m (ab_commit be) (nc - ab_commit be) True"
    using arena_vm_push_op_cases [OF inv sz push] by metis
  have "ab_base be \<le> p + sz"
    using inv nc(1,2) by (simp add: arena_vm_inv_def word_le_nat_alt)
  then have "arena_vm_inv be'"
    using inv nc by (simp add: arena_vm_inv_def)
  moreover have "arena_vm_committed be' m'"
    unfolding arena_vm_committed_def
  proof (intro allI impI)
    fix x assume x: "ab_base be' \<le> x \<and> x < ab_commit be'"
    show "me_access m' x"
    proof (cases "x < ab_commit be")
      case True
      then show ?thesis using com x nc by (simp add: arena_vm_committed_def set_access_def)
    next
      case False
      then show ?thesis using x nc in_range_between [of "ab_commit be" x nc]
        by (simp add: set_access_def)
    qed
  qed
  ultimately show ?thesis using nc(7) by (simp add: set_access_def)
qed

section \<open>Properties\<close>

text \<open>
  C4: A push of less than \<^verbatim>\<open>2^62\<close> bytes that returns keeps the arena invariant, hands out an
  aligned block that starts at or above the old cursor (so it overlaps nothing handed out before),
  ends at the new cursor, lies in committed memory, and changes no byte.
\<close>

theorem arena_vm_push_op_sound:
  assumes "arena_vm_inv be" "arena_vm_committed be m" "unat sz < 2 ^ 62" "unat align \<le> 2 ^ 32"
    "arena_vm_push_op be m sz align = Some (p, be', m')"
  shows "arena_vm_inv be' \<and> arena_vm_committed be' m' \<and> me_byte m' = me_byte m
     \<and> ab_at be \<le> p \<and> unat align dvd unat p \<and> unat (ab_at be') = unat p + unat sz
     \<and> ab_at be' \<le> ab_commit be'"
proof -
  have i: "arena_vm_inv be' \<and> arena_vm_committed be' m' \<and> me_byte m' = me_byte m"
    by (rule arena_vm_push_op_inv [OF assms])
  obtain nc where "ab_at be \<le> p" "unat align dvd unat p" "unat (p + sz) = unat p + unat sz"
    "be' = be\<lparr>ab_commit := nc, ab_at := p + sz\<rparr>"
    using arena_vm_push_op_cases [OF assms(1,3-)] by metis
  then show ?thesis using i by (simp add: arena_vm_inv_def)
qed

definition demo_backend :: arena_vm_backend where
  "demo_backend = \<lparr>ab_base = 0x10000, ab_commit = 0x11000, ab_at = 0x10101,
                   ab_reserve_size = 0x4000, ab_page_size = 0x1000\<rparr>"

definition demo_memory :: memory where
  "demo_memory = \<lparr>me_byte = (\<lambda>_. 0), me_access = in_range 0x10000 0x1000\<rparr>"

lemma demo_push: "arena_vm_push_op demo_backend demo_memory 0x1000 16
    = Some (0x10110, demo_backend\<lparr>ab_commit := 0x12000, ab_at := 0x11110\<rparr>,
            set_access demo_memory 0x11000 0x1000 True)"
  by (simp add: arena_vm_push_op_def AlignPow2_def IsPow2_def demo_backend_def)

lemma arena_vm_push_op_sound_witness:
  "arena_vm_inv (demo_backend\<lparr>ab_commit := 0x12000, ab_at := 0x11110\<rparr>)"
proof -
  have "arena_vm_inv demo_backend" "arena_vm_committed demo_backend demo_memory"
    by (auto simp: arena_vm_inv_def demo_backend_def IsPow2_def arena_vm_committed_def
        demo_memory_def in_range_def) unat_arith
  from arena_vm_push_op_sound [OF this _ _ demo_push] show ?thesis by simp
qed

text \<open>
  The bound on the size is needed: a push whose end wraps around the address space into the
  committed part succeeds and moves the cursor backwards over live blocks, instead of reporting
  exhaustion.
\<close>

theorem arena_vm_push_op_wraps:
  assumes "IsPow2 align" "p = AlignPow2 (ab_at be) align" "2 ^ 64 \<le> unat p + unat sz"
    "p + sz \<le> ab_commit be" "ab_commit be \<le> ab_base be + ab_reserve_size be"
  shows "arena_vm_push_op be m sz align = Some (p, be\<lparr>ab_at := p + sz\<rparr>, m) \<and> p + sz < p"
proof -
  have "unat (p + sz) = unat p + unat sz - 2 ^ 64"
    using assms(3) by (simp add: unat_plus_if')
  then have "p + sz < p"
    using unsigned_less [of sz, where 'a = nat] unsigned_less [of p, where 'a = nat] assms(3)
    by (simp add: word_less_nat_alt)
  then show ?thesis using assms by (auto simp: arena_vm_push_op_def Let_def)
qed

lemma arena_vm_push_op_wraps_witness:
  "arena_vm_push_op demo_backend demo_memory (- 0x100) 16
     = Some (0x10110, demo_backend\<lparr>ab_at := 0x10010\<rparr>, demo_memory)"
  by (subst conjunct1 [OF arena_vm_push_op_wraps [where p = "0x10110"]])
    (simp_all add: AlignPow2_def IsPow2_def demo_backend_def)

text \<open>
  Popping back to a mark at or below the cursor leaves the cursor on the mark, overwrites
  exactly the bytes between the mark and the old cursor with the poison byte and changes no other.
\<close>

theorem arena_vm_set_at_op_poisons:
  assumes "arena_vm_set_at_op be m at = Some (be', m')" "at \<le> ab_at be"
  shows "ab_at be' = at
     \<and> me_byte m' x = (if at \<le> x \<and> x < ab_at be then ARENA_POISON_BYTE else me_byte m x)"
proof
  show "ab_at be' = at"
    using assms by (auto simp: arena_vm_set_at_op_def split: if_splits bind_splits)
  show "me_byte m' x = (if at \<le> x \<and> x < ab_at be then ARENA_POISON_BYTE else me_byte m x)"
  proof (cases "at = ab_at be")
    case True
    then show ?thesis using assms by (auto simp: arena_vm_set_at_op_def split: if_splits)
  next
    case False
    then have lt: "at < ab_at be" using assms(2) by simp
    then have n0: "ab_at be - at > 0" by unat_arith
    have st: "store_bytes m at (replicate (unat (ab_at be - at)) ARENA_POISON_BYTE) = Some m'"
      using assms lt n0
      by (auto simp: arena_vm_set_at_op_def ArenaPoison_def mem_set_def split: if_splits bind_splits)
    have rng: "x - at < ab_at be - at \<longleftrightarrow> at \<le> x \<and> x < ab_at be"
      using lt by unat_arith
    have "unat (ab_at be - at) \<le> 2 ^ 64" using unat_u64 [of "ab_at be - at"] by simp
    then show ?thesis
      using store_bytes_result(1) [OF st, of x] rng by (auto simp: word_less_nat_alt)
  qed
qed

lemma arena_vm_set_at_op_poisons_witness:
  "\<exists>be' m'. arena_vm_set_at_op demo_backend demo_memory 0x10100 = Some (be', m')
     \<and> ab_at be' = 0x10100 \<and> me_byte m' 0x10100 = 0xDD"
proof -
  have "\<exists>be' m'. arena_vm_set_at_op demo_backend demo_memory 0x10100 = Some (be', m')"
    by (simp add: arena_vm_set_at_op_def demo_backend_def demo_memory_def ArenaPoison_def mem_set_def
        in_range_def)
  then obtain be' m' where e: "arena_vm_set_at_op demo_backend demo_memory 0x10100 = Some (be', m')"
    by blast
  show ?thesis
    using arena_vm_set_at_op_poisons [OF e] e
    by (auto simp: demo_backend_def ARENA_POISON_BYTE_def)
qed

end
