(* ===== verification/Parse_Number.thy ===== *)
theory Parse_Number
  imports Machine
begin

text \<open>
  The \<^verbatim>\<open>string-to-*\<close> builtins on both backends: \<^verbatim>\<open>bc_parse_number\<close> and its helpers in
  \<^verbatim>\<open>bcvm.c\<close> (lines 143--275), and the \<^verbatim>\<open>bbb_string_to_*\<close> family of
  \<^verbatim>\<open>runtime/bbb_string.c\<close> (lines 297--405) they replicate.  \<^verbatim>\<open>strtod\<close> and \<^verbatim>\<open>strtof\<close> are the
  platform's: from the text of the buffer to the number of bytes consumed and the value's bits.
\<close>

section \<open>Integers in the virtual machine\<close>

text \<open>The digit loop: \<open>mag\<close> is bounded before every multiplication and at most 20 digits are read.\<close>

fun bc_parse_i64_loop :: "u64 \<Rightarrow> nat \<Rightarrow> string \<Rightarrow> (u64 \<times> nat) option" where
  "bc_parse_i64_loop mag digit_count [] = Some (mag, digit_count)"
| "bc_parse_i64_loop mag digit_count (c # cs) =
     (if \<not> is_digit_char c then None
      else let digit = of_nat (digit_val c)
           in if mag > (9223372036854775808 - digit) div 10 then None
              else if digit_count + 1 > 20 then None
              else bc_parse_i64_loop (mag * 10 + digit) (digit_count + 1) cs)"

definition split_sign :: "string \<Rightarrow> bool \<times> string" where
  "split_sign s =
     (case s of c # cs \<Rightarrow> if c = CHR ''-'' then (True, cs) else if c = CHR ''+'' then (False, cs)
                        else (False, s)
      | [] \<Rightarrow> (False, []))"

definition bc_parse_i64 :: "string \<Rightarrow> i64 option" where
  "bc_parse_i64 s =
     (let (neg, ds) = split_sign s
      in if ds = [] then None
         else case bc_parse_i64_loop 0 0 ds of
                None \<Rightarrow> None
              | Some (mag, n) \<Rightarrow>
                  (if n = 0 then None
                   else if \<not> neg \<and> mag > 9223372036854775807 then None
                   else Some (if neg then 0 - mag else mag)))"

fun bc_parse_u64_loop :: "u64 \<Rightarrow> nat \<Rightarrow> string \<Rightarrow> (u64 \<times> nat) option" where
  "bc_parse_u64_loop mag digit_count [] = Some (mag, digit_count)"
| "bc_parse_u64_loop mag digit_count (c # cs) =
     (if \<not> is_digit_char c then None
      else let nxt = mag * 10 + of_nat (digit_val c)
           in if nxt < mag then None else bc_parse_u64_loop nxt (digit_count + 1) cs)"

definition skip_plus :: "string \<Rightarrow> string" where
  "skip_plus s = (case s of c # cs \<Rightarrow> if c = CHR ''+'' then cs else s | [] \<Rightarrow> [])"

definition bc_parse_u64 :: "string \<Rightarrow> u64 option" where
  "bc_parse_u64 s =
     (let ds = skip_plus s
      in if ds = [] then None
         else case bc_parse_u64_loop 0 0 ds of
                None \<Rightarrow> None
              | Some (mag, n) \<Rightarrow> if n = 0 then None else Some mag)"

definition bc_parse_f64 :: "platform \<Rightarrow> string \<Rightarrow> u64 option" where
  "bc_parse_f64 pf s =
     (if length s = 0 \<or> length s \<ge> 64 then None
      else let (consumed, v) = pf_strtod pf s in if consumed \<noteq> length s then None else Some v)"

definition bc_parse_f32 :: "platform \<Rightarrow> string \<Rightarrow> u32 option" where
  "bc_parse_f32 pf s =
     (if length s = 0 \<or> length s \<ge> 64 then None
      else let (consumed, v) = pf_strtof pf s in if consumed \<noteq> length s then None else Some v)"

text \<open>The ok flag and the register value, zero on failure.\<close>

definition bc_parse_number :: "platform \<Rightarrow> string \<Rightarrow> u32 \<Rightarrow> bool \<times> i64" where
  "bc_parse_number pf s kind =
     (case type_kind_of kind of
        Some TypeKind_I32 \<Rightarrow>
          (case bc_parse_i64 s of
             Some v \<Rightarrow> if v <s -2147483648 \<or> 2147483647 <s v then (False, 0) else (True, v)
           | None \<Rightarrow> (False, 0))
      | Some TypeKind_I64 \<Rightarrow> (case bc_parse_i64 s of Some v \<Rightarrow> (True, v) | None \<Rightarrow> (False, 0))
      | Some TypeKind_U32 \<Rightarrow>
          (case bc_parse_u64 s of
             Some v \<Rightarrow> if v > 4294967295 then (False, 0) else (True, v)
           | None \<Rightarrow> (False, 0))
      | Some TypeKind_U64 \<Rightarrow> (case bc_parse_u64 s of Some v \<Rightarrow> (True, v) | None \<Rightarrow> (False, 0))
      | Some TypeKind_F32 \<Rightarrow>
          (case bc_parse_f32 pf s of Some v \<Rightarrow> (True, ucast v) | None \<Rightarrow> (False, 0))
      | _ \<Rightarrow> (case bc_parse_f64 pf s of Some v \<Rightarrow> (True, v) | None \<Rightarrow> (False, 0)))"

section \<open>Integers in generated programs\<close>

text \<open>The result structs are the pair of \<^verbatim>\<open>ok\<close> and \<^verbatim>\<open>value\<close>.  \<^verbatim>\<open>bbb_string_to_i64\<close> negates the
  magnitude as a signed number, which is undefined (\<^term>\<open>None\<close>) for \<^verbatim>\<open>2^63\<close>.\<close>

definition bbb_string_to_i64 :: "string \<Rightarrow> (bool \<times> i64) option" where
  "bbb_string_to_i64 s =
     (let (neg, ds) = split_sign s
      in if ds = [] then Some (False, 0)
         else case bc_parse_i64_loop 0 0 ds of
                None \<Rightarrow> Some (False, 0)
              | Some (mag, n) \<Rightarrow>
                  (if n = 0 then Some (False, 0)
                   else if \<not> neg \<and> mag > 9223372036854775807 then Some (False, 0)
                   else if neg then (if mag = 9223372036854775808 then None else Some (True, - mag))
                   else Some (True, mag)))"

definition bbb_string_to_i32 :: "string \<Rightarrow> (bool \<times> u32) option" where
  "bbb_string_to_i32 s =
     do { (ok, v) \<leftarrow> bbb_string_to_i64 s;
          Some (if \<not> ok \<or> v <s -2147483648 \<or> 2147483647 <s v then (False, 0) else (True, ucast v)) }"

definition bbb_string_to_u64 :: "string \<Rightarrow> bool \<times> u64" where
  "bbb_string_to_u64 s =
     (let ds = skip_plus s
      in if ds = [] then (False, 0)
         else case bc_parse_u64_loop 0 0 ds of
                None \<Rightarrow> (False, 0)
              | Some (mag, n) \<Rightarrow> if n = 0 then (False, 0) else (True, mag))"

definition bbb_string_to_u32 :: "string \<Rightarrow> bool \<times> u32" where
  "bbb_string_to_u32 s =
     (let (ok, v) = bbb_string_to_u64 s
      in if \<not> ok \<or> v > 4294967295 then (False, 0) else (True, ucast v))"

definition bbb_string_to_f64 :: "platform \<Rightarrow> string \<Rightarrow> bool \<times> u64" where
  "bbb_string_to_f64 pf s =
     (if length s = 0 \<or> length s \<ge> 64 then (False, 0)
      else let (consumed, v) = pf_strtod pf s in if consumed \<noteq> length s then (False, 0) else (True, v))"

definition bbb_string_to_f32 :: "platform \<Rightarrow> string \<Rightarrow> bool \<times> u32" where
  "bbb_string_to_f32 pf s =
     (if length s = 0 \<or> length s \<ge> 64 then (False, 0)
      else let (consumed, v) = pf_strtof pf s in if consumed \<noteq> length s then (False, 0) else (True, v))"

section \<open>The digit loops\<close>

text \<open>What a digit string denotes, continuing from an accumulated value.\<close>

definition dec_from :: "nat \<Rightarrow> string \<Rightarrow> nat" where
  "dec_from v ds = foldl (\<lambda>v c. v * 10 + digit_val c) v ds"

lemma dec_from_simps [simp]:
  "dec_from v [] = v" "dec_from v (c # cs) = dec_from (v * 10 + digit_val c) cs"
  by (simp_all add: dec_from_def)

lemma dec_from_ge: "v \<le> dec_from v ds"
proof (induction ds arbitrary: v)
  case (Cons c cs)
  have "v \<le> v * 10 + digit_val c" by simp
  also have "\<dots> \<le> dec_from v (c # cs)" using Cons by simp
  finally show ?case .
qed simp

lemma dec_value_from: "dec_value ds = dec_from 0 ds"
  by (simp add: dec_value_def dec_from_def)

lemma digit_val_le: "is_digit_char c \<Longrightarrow> digit_val c \<le> 9"
  by (auto simp: is_digit_char_def digit_val_def)

lemma bc_parse_i64_loop_correct:
  assumes "unat mag \<le> 2 ^ 63" "n \<le> 20"
  shows "bc_parse_i64_loop mag n ds =
     (if list_all is_digit_char ds \<and> n + length ds \<le> 20 \<and> dec_from (unat mag) ds \<le> 2 ^ 63
      then Some (of_nat (dec_from (unat mag) ds), n + length ds) else None)"
  using assms
proof (induction ds arbitrary: mag n)
  case Nil
  then show ?case by simp
next
  case (Cons c cs)
  show ?case
  proof (cases "is_digit_char c")
    case False
    then show ?thesis by simp
  next
    case True
    let ?d = "digit_val c"
    have d: "?d \<le> 9" using digit_val_le [OF True] .
    have ud: "unat (of_nat ?d :: u64) = ?d" using d by (simp add: unsigned_of_nat take_bit_nat_eq_self)
    have "unat ((9223372036854775808 :: u64) - of_nat ?d) = 9223372036854775808 - ?d"
      using d ud by (simp add: unat_sub_if' word_le_nat_alt)
    then have lim: "unat (((9223372036854775808 :: u64) - of_nat ?d) div 10)
        = (9223372036854775808 - ?d) div 10"
      by (simp add: unat_div)
    have guard: "mag > (9223372036854775808 - of_nat ?d) div 10 \<longleftrightarrow> unat mag * 10 + ?d > 2 ^ 63"
      unfolding word_less_nat_alt lim using d by auto
    show ?thesis
    proof (cases "unat mag * 10 + ?d > 2 ^ 63")
      case True
      have "dec_from (unat mag) (c # cs) > 2 ^ 63"
        using True dec_from_ge [of "unat mag * 10 + ?d" cs] by simp
      then show ?thesis using guard True \<open>is_digit_char c\<close> by (simp add: Let_def)
    next
      case False
      have um: "unat (mag * 10 + of_nat ?d) = unat mag * 10 + ?d"
        using False ud by (simp add: unat_word_ariths)
      show ?thesis
        using Cons.IH [of "mag * 10 + of_nat ?d" "n + 1"] Cons.prems False guard um
          \<open>is_digit_char c\<close>
        by (auto simp: Let_def)
    qed
  qed
qed

lemma bc_parse_u64_loop_correct:
  assumes "list_all is_digit_char ds" "dec_from (unat mag) ds < 2 ^ 64"
  shows "bc_parse_u64_loop mag n ds = Some (of_nat (dec_from (unat mag) ds), n + length ds)"
  using assms
proof (induction ds arbitrary: mag n)
  case (Cons c cs)
  let ?d = "digit_val c"
  have d: "?d \<le> 9" using digit_val_le Cons.prems by simp
  have ud: "unat (of_nat ?d :: u64) = ?d" using d by (simp add: unsigned_of_nat take_bit_nat_eq_self)
  have "unat mag * 10 + ?d \<le> dec_from (unat mag) (c # cs)"
    using dec_from_ge by simp
  then have um: "unat (mag * 10 + of_nat ?d) = unat mag * 10 + ?d"
    using Cons.prems(2) ud by (simp add: unat_word_ariths)
  then have "\<not> mag * 10 + of_nat ?d < mag" by (simp add: word_less_nat_alt)
  then show ?case using Cons um by (simp add: Let_def)
qed simp

lemma length_dec_le: "n < 10 ^ k \<Longrightarrow> 0 < k \<Longrightarrow> length (dec n) \<le> k"
proof (induction n arbitrary: k rule: dec.induct)
  case (1 n)
  show ?case
  proof (cases "n < 10")
    case True
    then show ?thesis using 1 by (subst dec.simps) simp
  next
    case False
    then obtain j where j: "k = Suc j" "0 < j" using 1 by (cases k; cases "k = 1") auto
    then have "n div 10 < 10 ^ j" using 1(2) by (simp add: less_mult_imp_div_less mult.commute)
    then show ?thesis using 1(1) False j by (subst dec.simps) simp
  qed
qed

lemma sint_of_int_range: "- (2 ^ 63) \<le> k \<Longrightarrow> k < 2 ^ 63 \<Longrightarrow> sint (word_of_int k :: i64) = k"
  by (simp add: signed_of_int signed_take_bit_int_eq_self)

lemma dec_first_digit: "\<exists>c cs. dec n = c # cs \<and> is_digit_char c"
  using dec_digits [of n] by (cases "dec n") auto

section \<open>Properties\<close>

lemma bc_parse_i64_eq_Some:
  "bc_parse_i64 s = Some v \<longleftrightarrow>
     (let (neg, ds) = split_sign s
      in ds \<noteq> [] \<and> list_all is_digit_char ds \<and> length ds \<le> 20
         \<and> dec_value ds \<le> (if neg then 2 ^ 63 else 2 ^ 63 - 1)
         \<and> sint v = (if neg then - int (dec_value ds) else int (dec_value ds)))"
proof -
  obtain neg ds where sp: "split_sign s = (neg, ds)" by (cases "split_sign s")
  let ?m = "dec_from 0 ds"
  have um: "unat (of_nat ?m :: u64) = ?m" if "?m \<le> 2 ^ 63"
    using that by (simp add: unsigned_of_nat take_bit_nat_eq_self)
  have res: "bc_parse_i64 s = Some v \<longleftrightarrow>
      ds \<noteq> [] \<and> list_all is_digit_char ds \<and> length ds \<le> 20 \<and> ?m \<le> (if neg then 2 ^ 63 else 2 ^ 63 - 1)
      \<and> v = word_of_int (if neg then - int ?m else int ?m)"
    using um bc_parse_i64_loop_correct [of 0 0 ds]
    by (auto simp: bc_parse_i64_def sp word_less_nat_alt split: if_splits)
  have "sint (word_of_int (if neg then - int ?m else int ?m) :: i64) = (if neg then - int ?m else int ?m)"
    if "?m \<le> (if neg then 2 ^ 63 else 2 ^ 63 - 1)"
    using that by (intro sint_of_int_range) (auto split: if_splits)
  then have "(v = word_of_int (if neg then - int ?m else int ?m)) \<longleftrightarrow>
      sint v = (if neg then - int ?m else int ?m)" if "?m \<le> (if neg then 2 ^ 63 else 2 ^ 63 - 1)"
    using that by (metis signed_word_eqI)
  then show ?thesis unfolding res sp by (auto simp: dec_value_from)
qed

text \<open>
  C5: \<^verbatim>\<open>bc_parse_i64\<close> accepts exactly an optional sign followed by one to twenty digits that
  denote a value of the \<^verbatim>\<open>i64\<close> range, and returns that value.
\<close>

theorem bc_parse_i64_iff:
  "bc_parse_i64 s = Some v \<longleftrightarrow>
     (let (neg, ds) = split_sign s
      in ds \<noteq> [] \<and> list_all is_digit_char ds \<and> length ds \<le> 20
         \<and> dec_value ds \<le> (if neg then 2 ^ 63 else 2 ^ 63 - 1)
         \<and> sint v = (if neg then - int (dec_value ds) else int (dec_value ds)))"
  by (rule bc_parse_i64_eq_Some)

text \<open>
  What \<^verbatim>\<open>print\<close> writes for a signed or an unsigned 64-bit register, the parser reads back:
  \<^verbatim>\<open>string-to-i64\<close> inverts \<^verbatim>\<open>%lld\<close> and \<^verbatim>\<open>string-to-u64\<close> inverts \<^verbatim>\<open>%llu\<close>.
\<close>

theorem bc_parse_print_roundtrip:
  "bc_parse_i64 (dec_int (sint v)) = Some v \<and> bc_parse_u64 (dec (unat w)) = Some w"
proof
  have r: "- (2 ^ 63) \<le> sint v" "sint v < 2 ^ 63"
    using sint_ge [of v] sint_lt [of v] by simp_all
  have len: "length (dec (nat \<bar>sint v\<bar>)) \<le> 20"
    using r by (intro length_dec_le) auto
  have sign: "split_sign (dec n) = (False, dec n)" for n
    using dec_first_digit [of n] by (auto simp: split_sign_def is_digit_char_def)
  show "bc_parse_i64 (dec_int (sint v)) = Some v"
  proof (cases "sint v < 0")
    case True
    then show ?thesis using r len dec_digits
      by (subst bc_parse_i64_eq_Some) (auto simp: dec_int_def split_sign_def)
  next
    case False
    then show ?thesis using r len dec_digits
      by (subst bc_parse_i64_eq_Some) (auto simp: dec_int_def sign)
  qed
next
  have "skip_plus (dec (unat w)) = dec (unat w)"
    using dec_first_digit [of "unat w"] by (auto simp: skip_plus_def is_digit_char_def)
  moreover have "dec_from 0 (dec (unat w)) = unat w"
    by (metis dec_value_dec dec_value_from)
  ultimately show "bc_parse_u64 (dec (unat w)) = Some w"
    using bc_parse_u64_loop_correct [OF dec_digits, of 0 "unat w" 0] unat_u64 [of w]
    by (simp add: bc_parse_u64_def)
qed

text \<open>
  The unsigned reader is not exact: \<^verbatim>\<open>next < mag\<close> misses wraps of the multiplication, so a
  text naming a value above \<^verbatim>\<open>U64_MAX\<close> is accepted with another value, on both backends.
\<close>

theorem parse_u64_accepts_overflow:
  "bc_parse_u64 ''30000000000000000000'' = Some 11553255926290448384
   \<and> bbb_string_to_u64 ''30000000000000000000'' = (True, 11553255926290448384)
   \<and> dec_value ''30000000000000000000'' = 30000000000000000000"
  by (simp add: bc_parse_u64_def bbb_string_to_u64_def skip_plus_def is_digit_char_def
      digit_val_def dec_value_def)


end
