(* ===== verification/Map_Memory.thy ===== *)
theory Map_Memory
  imports Machine
begin

text \<open>
  The run-time hash table of \<^verbatim>\<open>bcmap.c\<close>, as it works on byte memory: an instance is four words
  (slots, capacity, count, tombstones) and a slot is key, value and state at the offsets of a
  \<^verbatim>\<open>BcHashSlotLayout\<close>.  \<^term>\<open>None\<close> is an access outside the accessible memory, a division by a
  zero capacity or an exhausted arena.  Setting can grow the table, which sets every entry again;
  the depth of that recursion is bounded by \<open>map_set_fuel\<close>, since every level doubles the capacity
  of a 64-bit count.
\<close>

section \<open>Hashing\<close>

definition fnv1a_step :: "u64 \<Rightarrow> u8 \<Rightarrow> u64" where
  "fnv1a_step h b = (h XOR ucast b) * 0x100000001b3"

definition fnv1a :: "bytes \<Rightarrow> u64" where
  "fnv1a = foldl fnv1a_step 0xcbf29ce484222325"

definition bc_hash_mix_u64 :: "u64 \<Rightarrow> u64" where
  "bc_hash_mix_u64 x =
     (let x = x XOR drop_bit 33 x; x = x * 0xff51afd7ed558ccd;
          x = x XOR drop_bit 33 x; x = x * 0xc4ceb9fe1a85ec53
      in x XOR drop_bit 33 x)"

definition key_is_string :: "bc_hash_slot_layout \<Rightarrow> bool" where
  "key_is_string lay \<longleftrightarrow> hl_key_kind lay = 10"

definition bc_map_key_hash :: "bc_hash_slot_layout \<Rightarrow> memory \<Rightarrow> u64 \<Rightarrow> u64 option" where
  "bc_map_key_hash lay m key =
     (if key_is_string lay
      then map_option (\<lambda>bs. bc_hash_mix_u64 (fnv1a bs)) (load_str8 m key)
      else if hl_key_size lay > 8 then None
      else map_option (\<lambda>bs. bc_hash_mix_u64 (le_word bs)) (load_bytes m key (unat (hl_key_size lay))))"

definition bc_map_key_eq :: "bc_hash_slot_layout \<Rightarrow> memory \<Rightarrow> u64 \<Rightarrow> u64 \<Rightarrow> bool option" where
  "bc_map_key_eq lay m a b =
     (if key_is_string lay
      then do { size_a \<leftarrow> load_u64 m (a + 8); size_b \<leftarrow> load_u64 m (b + 8);
                if size_a \<noteq> size_b then Some False
                else if size_a = 0 then Some True
                else do { x \<leftarrow> load_str8 m a; y \<leftarrow> load_str8 m b; Some (x = y) } }
      else do { x \<leftarrow> load_bytes m a (unat (hl_key_size lay));
                y \<leftarrow> load_bytes m b (unat (hl_key_size lay)); Some (x = y) })"

section \<open>Slots\<close>

record bc_hash_instance =
  hm_slots :: u64
  hm_capacity :: u64
  hm_count :: u64
  hm_tombstones :: u64

definition load_instance :: "memory \<Rightarrow> u64 \<Rightarrow> bc_hash_instance option" where
  "load_instance m a =
     do { s \<leftarrow> load_u64 m a; c \<leftarrow> load_u64 m (a + 8); n \<leftarrow> load_u64 m (a + 16);
          t \<leftarrow> load_u64 m (a + 24);
          Some \<lparr>hm_slots = s, hm_capacity = c, hm_count = n, hm_tombstones = t\<rparr> }"

definition store_instance :: "memory \<Rightarrow> u64 \<Rightarrow> bc_hash_instance \<Rightarrow> memory option" where
  "store_instance m a h =
     do { m \<leftarrow> store_u64 m a (hm_slots h); m \<leftarrow> store_u64 m (a + 8) (hm_capacity h);
          m \<leftarrow> store_u64 m (a + 16) (hm_count h); store_u64 m (a + 24) (hm_tombstones h) }"

datatype bc_hash_slot_state = BcHashSlotState_Empty | BcHashSlotState_Occupied | BcHashSlotState_Tombstone

text \<open>The comparisons the code makes: 0 is empty, 1 occupied, 2 a tombstone; the set loop treats any
  other number as occupied, the get and remove loops skip it.\<close>

definition slot_state_code :: "bc_hash_slot_state \<Rightarrow> u32" where
  "slot_state_code s = (case s of BcHashSlotState_Empty \<Rightarrow> 0 | BcHashSlotState_Occupied \<Rightarrow> 1
                        | BcHashSlotState_Tombstone \<Rightarrow> 2)"

definition bc_hash_slot_at :: "u64 \<Rightarrow> bc_hash_slot_layout \<Rightarrow> u64 \<Rightarrow> u64" where
  "bc_hash_slot_at slots lay index = slots + index * hl_slot_size lay"

definition bc_hash_slot_state :: "memory \<Rightarrow> u64 \<Rightarrow> bc_hash_slot_layout \<Rightarrow> u32 option" where
  "bc_hash_slot_state m slot lay = load_u32 m (slot + hl_state_offset lay)"

definition bc_hash_slot_set_state ::
  "memory \<Rightarrow> u64 \<Rightarrow> bc_hash_slot_layout \<Rightarrow> bc_hash_slot_state \<Rightarrow> memory option" where
  "bc_hash_slot_set_state m slot lay st = store_u32 m (slot + hl_state_offset lay) (slot_state_code st)"

section \<open>Operations\<close>

definition bc_map_ensure_init ::
  "platform \<Rightarrow> machine \<Rightarrow> u64 \<Rightarrow> u64 \<Rightarrow> bc_hash_slot_layout \<Rightarrow> machine option" where
  "bc_map_ensure_init pf mc arena m lay =
     do { h \<leftarrow> load_instance (mc_mem mc) m;
          if hm_slots h \<noteq> 0 then Some mc
          else do {
            (p, mc') \<leftarrow> arena_push_zero pf mc arena (hl_slot_size lay * 8) (hl_slot_align lay);
            mem \<leftarrow> store_instance (mc_mem mc') m
                     \<lparr>hm_slots = p, hm_capacity = 8, hm_count = 0, hm_tombstones = 0\<rparr>;
            Some (mc'\<lparr>mc_mem := mem\<rparr>) } }"

text \<open>The insertion at an empty slot, into the first tombstone seen when there was one.\<close>

definition bc_map_insert_at ::
  "machine \<Rightarrow> u64 \<Rightarrow> bc_hash_slot_layout \<Rightarrow> bc_hash_instance \<Rightarrow> u64 \<Rightarrow> u64 \<Rightarrow> u64 \<Rightarrow> machine option" where
  "bc_map_insert_at mc m lay h slot key val =
     do { mem \<leftarrow> mem_move (mc_mem mc) (slot + hl_key_offset lay) key (hl_key_size lay);
          mem \<leftarrow> (if hl_is_set lay = 0
                  then mem_move mem (slot + hl_value_offset lay) val (hl_value_size lay)
                  else Some mem);
          mem \<leftarrow> bc_hash_slot_set_state mem slot lay BcHashSlotState_Occupied;
          mem \<leftarrow> store_u64 mem (m + 16) (hm_count h + 1);
          Some (mc\<lparr>mc_mem := mem\<rparr>) }"

text \<open>The probe loop of a set; \<open>n\<close> counts the iterations left, \<open>i\<close> is the loop index.\<close>

fun bc_map_set_probe ::
  "machine \<Rightarrow> u64 \<Rightarrow> bc_hash_slot_layout \<Rightarrow> bc_hash_instance \<Rightarrow> u64 \<Rightarrow> u64 \<Rightarrow> u64 \<Rightarrow> u64 option
     \<Rightarrow> u64 \<Rightarrow> nat \<Rightarrow> (bool \<times> machine) option" where
  "bc_map_set_probe mc m lay h key val idx tomb i 0 = Some (False, mc)"
| "bc_map_set_probe mc m lay h key val idx tomb i (Suc n) =
     (let slot_idx = (idx + i) mod hm_capacity h;
          slot = bc_hash_slot_at (hm_slots h) lay slot_idx
      in do {
        state \<leftarrow> bc_hash_slot_state (mc_mem mc) slot lay;
        if state = 0
        then do { mc' \<leftarrow> bc_map_insert_at mc m lay h
                           (case tomb of Some t \<Rightarrow> bc_hash_slot_at (hm_slots h) lay t | None \<Rightarrow> slot)
                           key val;
                  Some (True, mc') }
        else if state = 2
        then bc_map_set_probe mc m lay h key val idx
               (case tomb of Some t \<Rightarrow> Some t | None \<Rightarrow> Some slot_idx) (i + 1) n
        else do {
          same \<leftarrow> bc_map_key_eq lay (mc_mem mc) (slot + hl_key_offset lay) key;
          if same
          then (if hl_is_set lay \<noteq> 0 then Some (False, mc)
                else do { mem \<leftarrow> mem_move (mc_mem mc) (slot + hl_value_offset lay) val (hl_value_size lay);
                          Some (True, mc\<lparr>mc_mem := mem\<rparr>) })
          else bc_map_set_probe mc m lay h key val idx tomb (i + 1) n } })"

text \<open>The loop of a resize over the old slots; \<open>put\<close> is the recursive \<^verbatim>\<open>bc_map_set\<close>.\<close>

fun bc_map_reinsert ::
  "(machine \<Rightarrow> u64 \<Rightarrow> u64 \<Rightarrow> (bool \<times> machine) option) \<Rightarrow> machine \<Rightarrow> bc_hash_slot_layout
     \<Rightarrow> u64 \<Rightarrow> u64 \<Rightarrow> nat \<Rightarrow> machine option" where
  "bc_map_reinsert put mc lay old i 0 = Some mc"
| "bc_map_reinsert put mc lay old i (Suc n) =
     (let slot = old + i * hl_slot_size lay
      in do {
        state \<leftarrow> bc_hash_slot_state (mc_mem mc) slot lay;
        mc' \<leftarrow> (if state = 1
                then map_option snd
                  (put mc (slot + hl_key_offset lay)
                     (if hl_is_set lay \<noteq> 0 then 0 else slot + hl_value_offset lay))
                else Some mc);
        bc_map_reinsert put mc' lay old (i + 1) n })"

definition bc_map_resize ::
  "(machine \<Rightarrow> u64 \<Rightarrow> u64 \<Rightarrow> (bool \<times> machine) option) \<Rightarrow> platform \<Rightarrow> machine \<Rightarrow> u64 \<Rightarrow> u64
     \<Rightarrow> bc_hash_slot_layout \<Rightarrow> u64 \<Rightarrow> machine option" where
  "bc_map_resize put pf mc arena m lay new_cap =
     do { h \<leftarrow> load_instance (mc_mem mc) m;
          (p, mc') \<leftarrow> arena_push_zero pf mc arena (hl_slot_size lay * new_cap) (hl_slot_align lay);
          mem \<leftarrow> store_instance (mc_mem mc') m
                   \<lparr>hm_slots = p, hm_capacity = new_cap, hm_count = 0, hm_tombstones = 0\<rparr>;
          bc_map_reinsert put (mc'\<lparr>mc_mem := mem\<rparr>) lay (hm_slots h) 0 (unat (hm_capacity h)) }"

definition bc_map_set_body ::
  "(machine \<Rightarrow> u64 \<Rightarrow> u64 \<Rightarrow> (bool \<times> machine) option) \<Rightarrow> platform \<Rightarrow> machine \<Rightarrow> u64 \<Rightarrow> u64
     \<Rightarrow> bc_hash_slot_layout \<Rightarrow> u64 \<Rightarrow> u64 \<Rightarrow> (bool \<times> machine) option" where
  "bc_map_set_body put pf mc arena m lay key val =
     do { mc \<leftarrow> bc_map_ensure_init pf mc arena m lay;
          h \<leftarrow> load_instance (mc_mem mc) m;
          mc \<leftarrow> (if (hm_count h + hm_tombstones h) * 2 \<ge> hm_capacity h
                 then bc_map_resize put pf mc arena m lay (hm_capacity h * 2)
                 else Some mc);
          h \<leftarrow> load_instance (mc_mem mc) m;
          hash \<leftarrow> bc_map_key_hash lay (mc_mem mc) key;
          if hm_capacity h = 0 then None
          else bc_map_set_probe mc m lay h key val (hash mod hm_capacity h) None 0
                 (unat (hm_capacity h)) }"

fun bc_map_set_fuel ::
  "nat \<Rightarrow> platform \<Rightarrow> u64 \<Rightarrow> u64 \<Rightarrow> bc_hash_slot_layout \<Rightarrow> machine \<Rightarrow> u64 \<Rightarrow> u64
     \<Rightarrow> (bool \<times> machine) option" where
  "bc_map_set_fuel 0 pf arena m lay mc key val =
     bc_map_set_body (\<lambda>_ _ _. None) pf mc arena m lay key val"
| "bc_map_set_fuel (Suc fuel) pf arena m lay mc key val =
     bc_map_set_body (bc_map_set_fuel fuel pf arena m lay) pf mc arena m lay key val"

definition map_set_fuel :: nat where "map_set_fuel = 64"

definition bc_map_set ::
  "platform \<Rightarrow> machine \<Rightarrow> u64 \<Rightarrow> u64 \<Rightarrow> bc_hash_slot_layout \<Rightarrow> u64 \<Rightarrow> u64 \<Rightarrow> (bool \<times> machine) option" where
  "bc_map_set pf mc arena m lay key val = bc_map_set_fuel map_set_fuel pf arena m lay mc key val"

text \<open>The probe loop of get and remove: the slot that holds the key, if any.\<close>

fun bc_map_find_slot ::
  "memory \<Rightarrow> bc_hash_slot_layout \<Rightarrow> bc_hash_instance \<Rightarrow> u64 \<Rightarrow> u64 \<Rightarrow> u64 \<Rightarrow> nat
     \<Rightarrow> u64 option option" where
  "bc_map_find_slot m lay h key idx i 0 = Some None"
| "bc_map_find_slot m lay h key idx i (Suc n) =
     (let slot = bc_hash_slot_at (hm_slots h) lay ((idx + i) mod hm_capacity h)
      in do {
        state \<leftarrow> bc_hash_slot_state m slot lay;
        if state = 0 then Some None
        else if state = 1
        then do { same \<leftarrow> bc_map_key_eq lay m (slot + hl_key_offset lay) key;
                  if same then Some (Some slot)
                  else bc_map_find_slot m lay h key idx (i + 1) n }
        else bc_map_find_slot m lay h key idx (i + 1) n })"

definition bc_map_find :: "memory \<Rightarrow> u64 \<Rightarrow> bc_hash_slot_layout \<Rightarrow> u64 \<Rightarrow> u64 option option" where
  "bc_map_find mem m lay key =
     do { h \<leftarrow> load_instance mem m;
          if hm_slots h = 0 then Some None
          else do { hash \<leftarrow> bc_map_key_hash lay mem key;
                    if hm_capacity h = 0 then None
                    else bc_map_find_slot mem lay h key (hash mod hm_capacity h) 0
                           (unat (hm_capacity h)) } }"

definition bc_map_get :: "memory \<Rightarrow> u64 \<Rightarrow> bc_hash_slot_layout \<Rightarrow> u64 \<Rightarrow> u64 option" where
  "bc_map_get mem m lay key =
     map_option (\<lambda>s. case s of None \<Rightarrow> 0 | Some slot \<Rightarrow> slot + hl_value_offset lay)
       (bc_map_find mem m lay key)"

definition bc_map_remove ::
  "machine \<Rightarrow> u64 \<Rightarrow> bc_hash_slot_layout \<Rightarrow> u64 \<Rightarrow> (bool \<times> machine) option" where
  "bc_map_remove mc m lay key =
     do { s \<leftarrow> bc_map_find (mc_mem mc) m lay key;
          case s of
            None \<Rightarrow> Some (False, mc)
          | Some slot \<Rightarrow> do {
              mem \<leftarrow> bc_hash_slot_set_state (mc_mem mc) slot lay BcHashSlotState_Tombstone;
              count \<leftarrow> load_u64 mem (m + 16);
              tombs \<leftarrow> load_u64 mem (m + 24);
              mem \<leftarrow> store_u64 mem (m + 16) (count - 1);
              mem \<leftarrow> store_u64 mem (m + 24) (tombs + 1);
              Some (True, mc\<lparr>mc_mem := mem\<rparr>) } }"

end
