(* ===== verification/VM.thy ===== *)
theory VM
  imports Parse_Number Map_Memory
begin

text \<open>
  The interpreter \<^verbatim>\<open>bc_run_in_program\<close> of \<^verbatim>\<open>bcvm.c\<close>.  The state \<open>bc_vm\<close> holds the locals of
  that function: the flat register file, the frame stack (innermost frame first), the executing
  frame's chunk, register base and program counter, and the machine the program acts on.

  An instruction that only falls through to the next one is executed by \<open>bc_exec\<close>, one function
  per group of opcodes; \<open>bc_step\<close> adds the seven control instructions and the dispatch itself.
  The outcome of a step is the next state or the end of the run: the value returned, a trap, an
  assertion that fails, or \<open>Undefined\<close> where the C program has no defined continuation (an access
  outside the register file, the code, the pool, memory).
\<close>

section \<open>State\<close>

definition BC_MAX_CALL_DEPTH :: nat where "BC_MAX_CALL_DEPTH = 1024"
definition BC_MAX_TOTAL_REGISTERS :: nat where "BC_MAX_TOTAL_REGISTERS = 65536"

record bc_frame =
  fr_chunk :: bc_chunk
  fr_reg_base :: u32
  fr_pc :: u32
  fr_dst_reg :: u32

record bc_vm =
  vm_regs :: "nat \<Rightarrow> i64"
  vm_frames :: "bc_frame list"
  vm_next_free_reg :: u32
  vm_chunk :: bc_chunk
  vm_reg_base :: u32
  vm_pc :: u32
  vm_mc :: machine

text \<open>What one run is given: the platform, the live programs, which of them runs, the address of
  the \<open>heap\<close> arena, the host import table (by argument count) and the host functions.  A host
  function sees its arguments and the machine.\<close>

record bc_env =
  ev_pf :: platform
  ev_progs :: "bc_program list"
  ev_heap :: u64
  ev_host_imports :: "bc_host_import list"
  ev_host :: "nat \<Rightarrow> i64 list \<Rightarrow> machine \<Rightarrow> (i64 \<times> machine) option"

datatype bc_result =
    Returned bool i64 machine
  | Trapped string string machine

text \<open>How a run ends: with a result, on a failed assertion, without a defined continuation, or (in
  the model only) because the fuel given was not enough.\<close>

datatype bc_end =
    Finished bc_result
  | Asserted string
  | Undefined
  | OutOfFuel

datatype bc_outcome =
    Running bc_vm
  | Ended bc_end

section \<open>Registers\<close>

text \<open>\<^verbatim>\<open>r[i]\<close> is \<^verbatim>\<open>regs[reg_base + i]\<close>, computed as a pointer and so without 32-bit wrap.\<close>

definition reg_index :: "bc_vm \<Rightarrow> u32 \<Rightarrow> nat" where
  "reg_index vm i = unat (vm_reg_base vm) + unat i"

definition rd :: "bc_vm \<Rightarrow> u32 \<Rightarrow> i64 option" where
  "rd vm i = (if reg_index vm i < BC_MAX_TOTAL_REGISTERS then Some (vm_regs vm (reg_index vm i)) else None)"

definition wr :: "bc_vm \<Rightarrow> u32 \<Rightarrow> i64 \<Rightarrow> bc_vm option" where
  "wr vm i v =
     (if reg_index vm i < BC_MAX_TOTAL_REGISTERS
      then Some (vm\<lparr>vm_regs := (vm_regs vm)(reg_index vm i := v)\<rparr>) else None)"

text \<open>A block of registers starting at operand \<open>i\<close>; the offset is added in \<^verbatim>\<open>u32\<close> where the code
  writes \<^verbatim>\<open>r[ins.b + k]\<close>.\<close>

definition rd_block :: "bc_vm \<Rightarrow> u32 \<Rightarrow> nat \<Rightarrow> i64 option" where
  "rd_block vm i k = rd vm (i + of_nat k)"

text \<open>\<^verbatim>\<open>&r[ins.c]\<close> with a count: consecutive registers from there on.\<close>

definition rd_args :: "bc_vm \<Rightarrow> u32 \<Rightarrow> nat \<Rightarrow> i64 list option" where
  "rd_args vm i n =
     (if reg_index vm i + n \<le> BC_MAX_TOTAL_REGISTERS
      then Some (map (\<lambda>k. vm_regs vm (reg_index vm i + k)) [0..<n]) else None)"

definition bool_reg :: "bool \<Rightarrow> i64" where
  "bool_reg p = (if p then 1 else 0)"

section \<open>Data and integer instructions\<close>

text \<open>\<open>Inl\<close> carries a trap message.\<close>

definition bc_exec_int :: "bc_int_op \<Rightarrow> i64 \<Rightarrow> i64 \<Rightarrow> string + i64" where
  "bc_exec_int op x y =
     (case op of
        BcOp_Add \<Rightarrow> Inr (x + y)
      | BcOp_Sub \<Rightarrow> Inr (x - y)
      | BcOp_Mul \<Rightarrow> Inr (x * y)
      | BcOp_Div \<Rightarrow>
          (if y = 0 then Inl ''division by zero''
           else if x = - (2 ^ 63) \<and> y = - 1 then Inl ''division overflow (I64_MIN / -1)''
           else Inr (word_of_int (sint x sdiv sint y)))
      | BcOp_Mod \<Rightarrow>
          (if y = 0 then Inl ''remainder by zero''
           else if x = - (2 ^ 63) \<and> y = - 1 then Inr 0
           else Inr (word_of_int (sint x smod sint y)))
      | BcOp_DivU \<Rightarrow> (if y = 0 then Inl ''division by zero'' else Inr (x div y))
      | BcOp_ModU \<Rightarrow> (if y = 0 then Inl ''remainder by zero'' else Inr (x mod y))
      | BcOp_BitAnd \<Rightarrow> Inr (x AND y)
      | BcOp_BitOr \<Rightarrow> Inr (x OR y)
      | BcOp_BitXor \<Rightarrow> Inr (x XOR y)
      | BcOp_Shl \<Rightarrow> Inr (push_bit (unat (y AND 63)) x)
      | BcOp_Shr \<Rightarrow> Inr (signed_drop_bit (unat (y AND 63)) x)
      | BcOp_ShrU \<Rightarrow> Inr (drop_bit (unat (y AND 63)) x))"

definition bc_exec_cmp :: "bc_cmp_op \<Rightarrow> i64 \<Rightarrow> i64 \<Rightarrow> i64" where
  "bc_exec_cmp op x y =
     bool_reg (case op of
        BcOp_Eq \<Rightarrow> x = y | BcOp_Neq \<Rightarrow> x \<noteq> y
      | BcOp_Lt \<Rightarrow> x <s y | BcOp_Le \<Rightarrow> x \<le>s y | BcOp_Gt \<Rightarrow> y <s x | BcOp_Ge \<Rightarrow> y \<le>s x
      | BcOp_LtU \<Rightarrow> x < y | BcOp_LeU \<Rightarrow> x \<le> y | BcOp_GtU \<Rightarrow> x > y | BcOp_GeU \<Rightarrow> x \<ge> y)"

text \<open>\<^verbatim>\<open>BcOp_Narrow\<close>: a shift by 64 or more, and by \<^verbatim>\<open>width - 1\<close> when the width is 0, is undefined.\<close>

definition bc_narrow :: "u32 \<Rightarrow> i64 \<Rightarrow> i64 option" where
  "bc_narrow c x =
     (let width = unat (c AND BC_NARROW_WIDTH_MASK);
          m = push_bit width 1 - 1;
          v = x AND m
      in if width \<ge> 64 then None
         else if c AND BC_NARROW_SIGNED \<noteq> 0
         then (if width = 0 then None
               else Some (if v AND push_bit (width - 1) 1 \<noteq> 0 then v OR NOT m else v))
         else Some v)"

definition bc_exec_data :: "bc_env \<Rightarrow> nat \<Rightarrow> bc_data_op \<Rightarrow> bc_instr \<Rightarrow> bc_vm \<Rightarrow> bc_vm option" where
  "bc_exec_data ev pid op ins vm =
     (case op of
        BcOp_LoadConst \<Rightarrow>
          (if unat (in_b ins) < length (ch_consts (vm_chunk vm))
           then wr vm (in_a ins) (ch_consts (vm_chunk vm) ! unat (in_b ins)) else None)
      | BcOp_Move \<Rightarrow> do { v \<leftarrow> rd vm (in_b ins); wr vm (in_a ins) v }
      | BcOp_BitNot \<Rightarrow> do { v \<leftarrow> rd vm (in_b ins); wr vm (in_a ins) (NOT v) }
      | BcOp_Narrow \<Rightarrow>
          do { v \<leftarrow> rd vm (in_b ins); n \<leftarrow> bc_narrow (in_c ins) v; wr vm (in_a ins) n }
      | BcOp_FieldAddr \<Rightarrow> do { base \<leftarrow> rd vm (in_b ins); wr vm (in_a ins) (base + ucast (in_c ins)) }
      | BcOp_LoadGlobal \<Rightarrow>
          (let gs = mc_globals (vm_mc vm) pid
           in if unat (in_b ins) < length gs then wr vm (in_a ins) (gs ! unat (in_b ins)) else None)
      | BcOp_StoreGlobal \<Rightarrow>
          (let mc = vm_mc vm; gs = mc_globals mc pid
           in if unat (in_a ins) < length gs
              then do { v \<leftarrow> rd vm (in_b ins);
                        Some (vm\<lparr>vm_mc := mc\<lparr>mc_globals :=
                                (mc_globals mc)(pid := gs[unat (in_a ins) := v])\<rparr>\<rparr>) }
              else None))"

section \<open>Floating point\<close>

text \<open>IEEE-754 comparison on the bit patterns: a NaN compares unequal and unordered, and the two
  zeros are equal.\<close>

definition f64_is_nan :: "u64 \<Rightarrow> bool" where
  "f64_is_nan w \<longleftrightarrow> w AND 0x7FFFFFFFFFFFFFFF > 0x7FF0000000000000"

definition f64_key :: "u64 \<Rightarrow> int" where
  "f64_key w = (let mag = uint (w AND 0x7FFFFFFFFFFFFFFF) in if bit w 63 then - mag else mag)"

definition f64_is_finite :: "u64 \<Rightarrow> bool" where
  "f64_is_finite w \<longleftrightarrow> w AND 0x7FF0000000000000 \<noteq> 0x7FF0000000000000"

definition f32_is_nan :: "u32 \<Rightarrow> bool" where
  "f32_is_nan w \<longleftrightarrow> w AND 0x7FFFFFFF > 0x7F800000"

definition f32_key :: "u32 \<Rightarrow> int" where
  "f32_key w = (let mag = uint (w AND 0x7FFFFFFF) in if bit w 31 then - mag else mag)"

definition bc_exec_f64_compare :: "bc_f64_cmp_op \<Rightarrow> u64 \<Rightarrow> u64 \<Rightarrow> i64" where
  "bc_exec_f64_compare op a b =
     (let ord = \<not> f64_is_nan a \<and> \<not> f64_is_nan b
      in bool_reg (case op of
           BcOp_FEq \<Rightarrow> ord \<and> f64_key a = f64_key b | BcOp_FNeq \<Rightarrow> \<not> (ord \<and> f64_key a = f64_key b)
         | BcOp_FLt \<Rightarrow> ord \<and> f64_key a < f64_key b | BcOp_FLe \<Rightarrow> ord \<and> f64_key a \<le> f64_key b
         | BcOp_FGt \<Rightarrow> ord \<and> f64_key a > f64_key b | BcOp_FGe \<Rightarrow> ord \<and> f64_key a \<ge> f64_key b))"

definition bc_exec_f32_compare :: "bc_f32_cmp_op \<Rightarrow> u32 \<Rightarrow> u32 \<Rightarrow> i64" where
  "bc_exec_f32_compare op a b =
     (let ord = \<not> f32_is_nan a \<and> \<not> f32_is_nan b
      in bool_reg (case op of
           BcOp_F32Eq \<Rightarrow> ord \<and> f32_key a = f32_key b | BcOp_F32Neq \<Rightarrow> \<not> (ord \<and> f32_key a = f32_key b)
         | BcOp_F32Lt \<Rightarrow> ord \<and> f32_key a < f32_key b | BcOp_F32Le \<Rightarrow> ord \<and> f32_key a \<le> f32_key b
         | BcOp_F32Gt \<Rightarrow> ord \<and> f32_key a > f32_key b | BcOp_F32Ge \<Rightarrow> ord \<and> f32_key a \<ge> f32_key b))"

definition bc_exec_conv :: "platform \<Rightarrow> bc_conv_op \<Rightarrow> i64 \<Rightarrow> i64 option" where
  "bc_exec_conv pf op v =
     (case op of
        BcOp_IntToF64 \<Rightarrow> Some (pf_i64_to_f64 pf v)
      | BcOp_IntToF32 \<Rightarrow> Some (ucast (pf_i64_to_f32 pf v))
      | BcOp_F64ToInt \<Rightarrow> pf_f64_to_i64 pf v
      | BcOp_F32ToInt \<Rightarrow> pf_f32_to_i64 pf (ucast v)
      | BcOp_F32ToF64 \<Rightarrow> Some (pf_f32_to_f64 pf (ucast v))
      | BcOp_F64ToF32 \<Rightarrow> Some (ucast (pf_f64_to_f32 pf v)))"

text \<open>The libm calls; only \<^verbatim>\<open>pow\<close> and \<^verbatim>\<open>atan2\<close> read the second operand.\<close>

definition bc_exec_math :: "platform \<Rightarrow> bc_math_op \<Rightarrow> bc_instr \<Rightarrow> bc_vm \<Rightarrow> bc_vm option" where
  "bc_exec_math pf op ins vm =
     do { x \<leftarrow> rd vm (in_b ins);
          case op of
            BcOp_F64IsFinite \<Rightarrow> wr vm (in_a ins) (bool_reg (f64_is_finite x))
          | BcOp_Pow \<Rightarrow> do { y \<leftarrow> rd vm (in_c ins); wr vm (in_a ins) (pf_libm pf op x y) }
          | BcOp_Atan2 \<Rightarrow> do { y \<leftarrow> rd vm (in_c ins); wr vm (in_a ins) (pf_libm pf op x y) }
          | _ \<Rightarrow> wr vm (in_a ins) (pf_libm pf op x 0) }"

section \<open>Memory instructions\<close>

definition bc_exec_load :: "bc_load_op \<Rightarrow> memory \<Rightarrow> u64 \<Rightarrow> i64 option" where
  "bc_exec_load op m addr =
     (case op of
        BcOp_LoadFieldI32 \<Rightarrow> map_option scast (load_u32 m addr)
      | BcOp_LoadFieldU32 \<Rightarrow> map_option ucast (load_u32 m addr)
      | BcOp_LoadFieldI64 \<Rightarrow> load_u64 m addr
      | BcOp_LoadFieldF32 \<Rightarrow> map_option ucast (load_u32 m addr)
      | BcOp_LoadFieldBool \<Rightarrow> map_option (\<lambda>v. bool_reg (v \<noteq> 0)) (load_u8 m addr)
      | BcOp_LoadFieldI8 \<Rightarrow> map_option scast (load_u8 m addr)
      | BcOp_LoadFieldU8 \<Rightarrow> map_option ucast (load_u8 m addr)
      | BcOp_LoadFieldI16 \<Rightarrow> map_option scast (load_u16 m addr)
      | BcOp_LoadFieldU16 \<Rightarrow> map_option ucast (load_u16 m addr))"

definition bc_exec_store :: "bc_store_op \<Rightarrow> memory \<Rightarrow> u64 \<Rightarrow> i64 \<Rightarrow> memory option" where
  "bc_exec_store op m addr v =
     (case op of
        BcOp_StoreFieldI32 \<Rightarrow> store_u32 m addr (ucast v)
      | BcOp_StoreFieldI64 \<Rightarrow> store_u64 m addr v
      | BcOp_StoreFieldF32 \<Rightarrow> store_u32 m addr (ucast v)
      | BcOp_StoreFieldBool \<Rightarrow> store_u8 m addr (if v \<noteq> 0 then 1 else 0)
      | BcOp_StoreFieldI8 \<Rightarrow> store_u8 m addr (ucast v)
      | BcOp_StoreFieldI16 \<Rightarrow> store_u16 m addr (ucast v))"

definition set_mem :: "bc_vm \<Rightarrow> memory \<Rightarrow> bc_vm" where
  "set_mem vm m = vm\<lparr>vm_mc := (vm_mc vm)\<lparr>mc_mem := m\<rparr>\<rparr>"

definition set_mc :: "bc_vm \<Rightarrow> machine \<Rightarrow> bc_vm" where
  "set_mc vm mc = vm\<lparr>vm_mc := mc\<rparr>"

definition bc_exec_raw :: "platform \<Rightarrow> bc_raw_op \<Rightarrow> bc_instr \<Rightarrow> bc_vm \<Rightarrow> bc_vm option" where
  "bc_exec_raw pf op ins vm =
     (let m = mc_mem (vm_mc vm)
      in case op of
        BcOp_MemSet \<Rightarrow>
          do { p \<leftarrow> rd vm (in_a ins); v \<leftarrow> rd vm (in_b ins); n \<leftarrow> rd vm (in_c ins);
               m \<leftarrow> mem_set m p (ucast v) n; Some (set_mem vm m) }
      | BcOp_MemCopy \<Rightarrow>
          do { d \<leftarrow> rd vm (in_a ins); s \<leftarrow> rd vm (in_b ins); n \<leftarrow> rd vm (in_c ins);
               m \<leftarrow> mem_move m d s n; Some (set_mem vm m) }
      | BcOp_MemZero \<Rightarrow>
          do { p \<leftarrow> rd vm (in_a ins); n \<leftarrow> rd vm (in_b ins);
               m \<leftarrow> mem_set m p 0 n; Some (set_mem vm m) }
      | BcOp_MemCompare \<Rightarrow>
          do { p \<leftarrow> rd_block vm (in_c ins) 0; q \<leftarrow> rd_block vm (in_c ins) 1; n \<leftarrow> rd_block vm (in_c ins) 2;
               x \<leftarrow> load_bytes m p (unat n); y \<leftarrow> load_bytes m q (unat n);
               wr vm (in_a ins) (word_of_int (pf_memcmp pf x y)) })"

text \<open>The inline comparison of two boxed strings: byte difference, then the shorter first.  The model
  loads both views whole, so it is undefined where a view reaches into inaccessible memory even if
  the code would stop earlier.\<close>

definition str8_compare :: "bytes \<Rightarrow> bytes \<Rightarrow> int" where
  "str8_compare a b =
     (let d = bytes_compare a b
      in if d = 0 \<and> length a \<noteq> length b then (if length a < length b then -1 else 1) else d)"

definition text_of :: "bytes \<Rightarrow> string" where
  "text_of = map char_of_byte"

definition bc_exec_text :: "platform \<Rightarrow> bc_text_op \<Rightarrow> bc_instr \<Rightarrow> bc_vm \<Rightarrow> bc_vm option" where
  "bc_exec_text pf op ins vm =
     (let m = mc_mem (vm_mc vm)
      in case op of
        BcOp_StrCmp \<Rightarrow>
          do { ha \<leftarrow> rd vm (in_b ins); hb \<leftarrow> rd vm (in_c ins);
               a \<leftarrow> load_str8 m ha; b \<leftarrow> load_str8 m hb;
               wr vm (in_a ins) (word_of_int (str8_compare a b)) }
      | BcOp_StringMatch \<Rightarrow>
          do { ha \<leftarrow> rd_block vm (in_b ins) 0; hb \<leftarrow> rd_block vm (in_b ins) 1;
               fl \<leftarrow> rd_block vm (in_b ins) 2; a \<leftarrow> load_str8 m ha; b \<leftarrow> load_str8 m hb;
               wr vm (in_a ins) (bool_reg (str8_match (text_of a) (text_of b) (ucast fl))) }
      | BcOp_ParseNumberValue \<Rightarrow>
          do { h \<leftarrow> rd vm (in_b ins); s \<leftarrow> load_str8 m h;
               wr vm (in_a ins) (snd (bc_parse_number pf (text_of s) (in_c ins))) }
      | BcOp_ParseNumberOk \<Rightarrow>
          do { h \<leftarrow> rd vm (in_b ins); s \<leftarrow> load_str8 m h;
               wr vm (in_a ins) (bool_reg (fst (bc_parse_number pf (text_of s) (in_c ins)))) })"

section \<open>Allocation instructions\<close>

text \<open>\<^verbatim>\<open>sizeof(Arena)\<close> and \<^verbatim>\<open>AlignOf(Arena)\<close> are 16 and 8.\<close>

definition bc_exec_arena :: "bc_env \<Rightarrow> bc_arena_op \<Rightarrow> bc_instr \<Rightarrow> bc_vm \<Rightarrow> bc_vm option" where
  "bc_exec_arena ev op ins vm =
     (let pf = ev_pf ev; mc = vm_mc vm
      in case op of
        BcOp_Alloc \<Rightarrow>
          do { (p, mc) \<leftarrow> arena_push_zero pf mc (ev_heap ev) (ucast (in_b ins)) (ucast (in_c ins));
               wr (set_mc vm mc) (in_a ins) p }
      | BcOp_ArenaCreate \<Rightarrow>
          do { n \<leftarrow> rd vm (in_b ins);
               ((backend, ops), mc) \<leftarrow> arena_create_vm pf mc n;
               (box, mc) \<leftarrow> arena_push pf mc (ev_heap ev) 16 8;
               m \<leftarrow> store_u64 (mc_mem mc) box backend;
               m \<leftarrow> store_u64 m (box + 8) ops;
               wr (set_mc vm (mc\<lparr>mc_mem := m\<rparr>)) (in_a ins) box }
      | BcOp_ArenaDestroy \<Rightarrow>
          do { a \<leftarrow> rd vm (in_a ins); mc \<leftarrow> arena_destroy pf mc a; Some (set_mc vm mc) }
      | BcOp_ArenaReset \<Rightarrow>
          do { a \<leftarrow> rd vm (in_a ins); mc \<leftarrow> arena_reset pf mc a; Some (set_mc vm mc) }
      | BcOp_ArenaRelease \<Rightarrow>
          do { a \<leftarrow> rd vm (in_a ins); mc \<leftarrow> arena_release pf mc a; Some (set_mc vm mc) }
      | BcOp_ArenaMark \<Rightarrow>
          do { a \<leftarrow> rd vm (in_b ins); at \<leftarrow> arena_mark pf mc a; wr vm (in_a ins) at }
      | BcOp_ArenaPop \<Rightarrow>
          do { at \<leftarrow> rd vm (in_b ins); a \<leftarrow> rd vm (in_a ins); mc \<leftarrow> arena_pop pf mc a at;
               Some (set_mc vm mc) }
      | BcOp_ArenaPush \<Rightarrow>
          do { a \<leftarrow> rd vm (in_b ins); n \<leftarrow> rd vm (in_c ins); (p, mc) \<leftarrow> arena_push pf mc a n 16;
               wr (set_mc vm mc) (in_a ins) p }
      | BcOp_ArenaPushZero \<Rightarrow>
          do { a \<leftarrow> rd vm (in_b ins); n \<leftarrow> rd vm (in_c ins); (p, mc) \<leftarrow> arena_push_zero pf mc a n 16;
               wr (set_mc vm mc) (in_a ins) p }
      | BcOp_LoadScratchArena \<Rightarrow>
          do { (box, mc) \<leftarrow> arena_push pf mc (ev_heap ev) 16 8;
               m \<leftarrow> mem_move (mc_mem mc) box (pf_ctx_scratch pf) 16;
               wr (set_mc vm (mc\<lparr>mc_mem := m\<rparr>)) (in_a ins) box }
      | BcOp_Malloc \<Rightarrow>
          do { n \<leftarrow> rd vm (in_b ins); let (p, mc) = c_malloc pf mc n; wr (set_mc vm mc) (in_a ins) p }
      | BcOp_Free \<Rightarrow>
          do { p \<leftarrow> rd vm (in_a ins); mc \<leftarrow> c_free mc p; Some (set_mc vm mc) })"

section \<open>Handle pools\<close>

text \<open>The fields of a \<^verbatim>\<open>HandlePool\<close>: data at 0, generation at 8, free list at 16, then the \<^verbatim>\<open>u32\<close>s
  free count at 24, count at 28, capacity at 32, stride at 36.  A \<^verbatim>\<open>Handle\<close> in a register has the
  index in its low half and the generation in its high half.\<close>

definition handle_of :: "u32 \<Rightarrow> u32 \<Rightarrow> u64" where
  "handle_of index gen = ucast index OR push_bit 32 (ucast gen)"

definition handle_index :: "u64 \<Rightarrow> u32" where "handle_index h = ucast h"
definition handle_generation :: "u64 \<Rightarrow> u32" where "handle_generation h = ucast (drop_bit 32 h)"

text \<open>The two loops of the initialisation, over the \<open>n\<close> indices from \<open>i\<close> on.\<close>

fun fill_free_list :: "memory \<Rightarrow> u64 \<Rightarrow> u32 \<Rightarrow> u32 \<Rightarrow> nat \<Rightarrow> memory option" where
  "fill_free_list m fl cap i 0 = Some m"
| "fill_free_list m fl cap i (Suc n) =
     do { m \<leftarrow> store_u32 m (fl + 4 * ucast i) (cap - 1 - i); fill_free_list m fl cap (i + 1) n }"

fun fill_generation :: "memory \<Rightarrow> u64 \<Rightarrow> u32 \<Rightarrow> nat \<Rightarrow> memory option" where
  "fill_generation m gp i 0 = Some m"
| "fill_generation m gp i (Suc n) =
     do { m \<leftarrow> store_u32 m (gp + 4 * ucast i) 1; fill_generation m gp (i + 1) n }"

definition handle_pool_init ::
  "platform \<Rightarrow> machine \<Rightarrow> u64 \<Rightarrow> u64 \<Rightarrow> u32 \<Rightarrow> machine option" where
  "handle_pool_init pf mc pool arena cap =
     do { stride \<leftarrow> load_u32 (mc_mem mc) (pool + 36);
          (dat, mc) \<leftarrow> arena_push_zero pf mc arena (ucast stride * ucast cap) 16;
          m \<leftarrow> store_u64 (mc_mem mc) pool dat;
          (gen, mc) \<leftarrow> arena_push_zero pf (mc\<lparr>mc_mem := m\<rparr>) arena (4 * ucast cap) 4;
          m \<leftarrow> store_u64 (mc_mem mc) (pool + 8) gen;
          (fl, mc) \<leftarrow> arena_push pf (mc\<lparr>mc_mem := m\<rparr>) arena (4 * ucast cap) 4;
          m \<leftarrow> store_u64 (mc_mem mc) (pool + 16) fl;
          m \<leftarrow> store_u32 m (pool + 32) cap;
          m \<leftarrow> store_u32 m (pool + 28) 0;
          m \<leftarrow> store_u32 m (pool + 24) (cap - 1);
          m \<leftarrow> fill_free_list m fl cap 0 (unat (cap - 1));
          m \<leftarrow> fill_generation m gen 1 (unat cap - 1);
          Some (mc\<lparr>mc_mem := m\<rparr>) }"

definition handle_live :: "memory \<Rightarrow> u64 \<Rightarrow> u64 \<Rightarrow> bool option" where
  "handle_live m pool h =
     (if handle_index h = 0 then Some False
      else do { cap \<leftarrow> load_u32 m (pool + 32);
                if \<not> handle_index h < cap then Some False
                else do { gen \<leftarrow> load_u64 m (pool + 8);
                          g \<leftarrow> load_u32 m (gen + 4 * ucast (handle_index h));
                          Some (g = handle_generation h) } })"

definition handle_slot :: "memory \<Rightarrow> u64 \<Rightarrow> u64 \<Rightarrow> u64 option" where
  "handle_slot m pool h =
     do { dat \<leftarrow> load_u64 m pool; stride \<leftarrow> load_u32 m (pool + 36);
          Some (dat + ucast (handle_index h) * ucast stride) }"

text \<open>An exhausted pool writes a line to \<^verbatim>\<open>stderr\<close> and yields the zero handle.\<close>

definition handle_alloc :: "machine \<Rightarrow> u64 \<Rightarrow> (u64 \<times> machine) option" where
  "handle_alloc mc pool =
     (let m = mc_mem mc
      in do {
        free \<leftarrow> load_u32 m (pool + 24);
        if free = 0
        then Some (0, write_out mc 1 (''handle-alloc: pool full'' @ [char_of (10 :: nat)]))
        else do {
          fl \<leftarrow> load_u64 m (pool + 16);
          idx \<leftarrow> load_u32 m (fl + 4 * ucast (free - 1));
          count \<leftarrow> load_u32 m (pool + 28);
          m \<leftarrow> store_u32 m (pool + 24) (free - 1);
          m \<leftarrow> store_u32 m (pool + 28) (count + 1);
          gen \<leftarrow> load_u64 m (pool + 8);
          g \<leftarrow> load_u32 m (gen + 4 * ucast idx);
          Some (handle_of idx g, mc\<lparr>mc_mem := m\<rparr>) } })"

definition handle_get :: "memory \<Rightarrow> u64 \<Rightarrow> u64 \<Rightarrow> u64 option" where
  "handle_get m pool h =
     do { live \<leftarrow> handle_live m pool h; if live then handle_slot m pool h else Some 0 }"

definition handle_free :: "memory \<Rightarrow> u64 \<Rightarrow> u64 \<Rightarrow> (bool \<times> memory) option" where
  "handle_free m pool h =
     do { live \<leftarrow> handle_live m pool h;
          if \<not> live then Some (False, m)
          else do {
            slot \<leftarrow> handle_slot m pool h;
            stride \<leftarrow> load_u32 m (pool + 36);
            m \<leftarrow> mem_set m slot 0 (ucast stride);
            gen \<leftarrow> load_u64 m (pool + 8);
            g \<leftarrow> load_u32 m (gen + 4 * ucast (handle_index h));
            m \<leftarrow> store_u32 m (gen + 4 * ucast (handle_index h)) (g + 1);
            fl \<leftarrow> load_u64 m (pool + 16);
            free \<leftarrow> load_u32 m (pool + 24);
            m \<leftarrow> store_u32 m (fl + 4 * ucast free) (handle_index h);
            m \<leftarrow> store_u32 m (pool + 24) (free + 1);
            count \<leftarrow> load_u32 m (pool + 28);
            m \<leftarrow> store_u32 m (pool + 28) (count - 1);
            Some (True, m) } }"

definition bc_exec_handle :: "platform \<Rightarrow> bc_handle_op \<Rightarrow> bc_instr \<Rightarrow> bc_vm \<Rightarrow> bc_vm option" where
  "bc_exec_handle pf op ins vm =
     (let mc = vm_mc vm; m = mc_mem mc
      in case op of
        BcOp_HandlePoolSetStride \<Rightarrow>
          do { pool \<leftarrow> rd vm (in_a ins); v \<leftarrow> rd vm (in_b ins);
               m \<leftarrow> store_u32 m (pool + 36) (ucast v); Some (set_mem vm m) }
      | BcOp_HandlePoolInit \<Rightarrow>
          do { pool \<leftarrow> rd vm (in_a ins); arena \<leftarrow> rd vm (in_b ins); cap \<leftarrow> rd vm (in_c ins);
               mc \<leftarrow> handle_pool_init pf mc pool arena (ucast cap); Some (set_mc vm mc) }
      | BcOp_HandleAlloc \<Rightarrow>
          do { pool \<leftarrow> rd vm (in_b ins); (h, mc) \<leftarrow> handle_alloc mc pool;
               wr (set_mc vm mc) (in_a ins) h }
      | BcOp_HandleGet \<Rightarrow>
          do { pool \<leftarrow> rd vm (in_b ins); h \<leftarrow> rd vm (in_c ins); p \<leftarrow> handle_get m pool h;
               wr vm (in_a ins) p }
      | BcOp_HandleFree \<Rightarrow>
          do { pool \<leftarrow> rd vm (in_b ins); h \<leftarrow> rd vm (in_c ins); (ok, m) \<leftarrow> handle_free m pool h;
               wr (set_mem vm m) (in_a ins) (bool_reg ok) })"

section \<open>Dynamic arrays\<close>

text \<open>\<^verbatim>\<open>DynHdr\<close> is the count and the capacity in the 16 bytes in front of the elements.\<close>

definition dyn_count :: "memory \<Rightarrow> u64 \<Rightarrow> u64 option" where
  "dyn_count m p = (if p \<noteq> 0 then load_u64 m (p - 16) else Some 0)"

definition dyn_capacity :: "memory \<Rightarrow> u64 \<Rightarrow> u64 option" where
  "dyn_capacity m p = (if p \<noteq> 0 then load_u64 m (p - 8) else Some 0)"

definition dyn_grow :: "platform \<Rightarrow> machine \<Rightarrow> u64 \<Rightarrow> u64 \<Rightarrow> u64 \<Rightarrow> (u64 \<times> machine) option" where
  "dyn_grow pf mc arena old_ptr elem_size =
     do { old_cap \<leftarrow> dyn_capacity (mc_mem mc) old_ptr;
          let new_cap = (if old_cap \<noteq> 0 then old_cap * 2 else 8);
          let old_bytes = 16 + old_cap * elem_size;
          let new_bytes = 16 + new_cap * elem_size;
          (new_mem, mc) \<leftarrow> arena_push pf mc arena new_bytes 16;
          m \<leftarrow> (if old_ptr \<noteq> 0 then mem_move (mc_mem mc) new_mem (old_ptr - 16) (min old_bytes new_bytes)
                else store_u64 (mc_mem mc) new_mem 0);
          m \<leftarrow> store_u64 m (new_mem + 8) new_cap;
          Some (new_mem + 16, mc\<lparr>mc_mem := m\<rparr>) }"

definition dyn_commit :: "platform \<Rightarrow> machine \<Rightarrow> u64 \<Rightarrow> u64 \<Rightarrow> u64 \<Rightarrow> (u64 \<times> machine) option" where
  "dyn_commit pf mc dst_arena src elem_size =
     do { cnt \<leftarrow> dyn_count (mc_mem mc) src;
          if cnt = 0 then Some (0, mc)
          else do {
            (new_mem, mc) \<leftarrow> arena_push pf mc dst_arena (16 + cnt * elem_size) 16;
            m \<leftarrow> store_u64 (mc_mem mc) (new_mem + 8) cnt;
            m \<leftarrow> store_u64 m new_mem cnt;
            m \<leftarrow> mem_move m (new_mem + 16) src (cnt * elem_size);
            Some (new_mem + 16, mc\<lparr>mc_mem := m\<rparr>) } }"

definition bc_exec_dyn :: "platform \<Rightarrow> bc_dyn_op \<Rightarrow> bc_instr \<Rightarrow> bc_vm \<Rightarrow> bc_vm option" where
  "bc_exec_dyn pf op ins vm =
     (let mc = vm_mc vm; m = mc_mem mc
      in case op of
        BcOp_DynCount \<Rightarrow> do { p \<leftarrow> rd vm (in_b ins); n \<leftarrow> dyn_count m p; wr vm (in_a ins) n }
      | BcOp_DynCapacity \<Rightarrow> do { p \<leftarrow> rd vm (in_b ins); n \<leftarrow> dyn_capacity m p; wr vm (in_a ins) n }
      | BcOp_DynGrow \<Rightarrow>
          do { arena \<leftarrow> rd vm (in_b ins); old \<leftarrow> rd vm (in_a ins);
               (p, mc) \<leftarrow> dyn_grow pf mc arena old (ucast (in_c ins)); wr (set_mc vm mc) (in_a ins) p }
      | BcOp_DynSetCount \<Rightarrow>
          do { p \<leftarrow> rd vm (in_a ins); n \<leftarrow> rd vm (in_c ins); m \<leftarrow> store_u64 m (p - 16) n;
               Some (set_mem vm m) }
      | BcOp_DynCommit \<Rightarrow>
          do { arena \<leftarrow> rd vm (in_b ins); src \<leftarrow> rd vm (in_a ins);
               (p, mc) \<leftarrow> dyn_commit pf mc arena src (ucast (in_c ins));
               wr (set_mc vm mc) (in_a ins) p })"

section \<open>Maps and sets\<close>

text \<open>The descriptor behind the last register of the block: \<^verbatim>\<open>BcHashSlotLayout\<close> as the x86-64 ABI
  lays it out, the 4-byte kind, padding, seven 8-byte fields and the 4-byte flag.\<close>

definition load_slot_layout :: "memory \<Rightarrow> u64 \<Rightarrow> bc_hash_slot_layout option" where
  "load_slot_layout m a =
     do { k \<leftarrow> load_u32 m a; ks \<leftarrow> load_u64 m (a + 8); vs \<leftarrow> load_u64 m (a + 16);
          ss \<leftarrow> load_u64 m (a + 24); sa \<leftarrow> load_u64 m (a + 32); ko \<leftarrow> load_u64 m (a + 40);
          vo \<leftarrow> load_u64 m (a + 48); so \<leftarrow> load_u64 m (a + 56); st \<leftarrow> load_u32 m (a + 64);
          Some \<lparr>hl_key_kind = k, hl_key_size = ks, hl_value_size = vs, hl_slot_size = ss,
                hl_slot_align = sa, hl_key_offset = ko, hl_value_offset = vo,
                hl_state_offset = so, hl_is_set = st\<rparr> }"

definition bc_exec_map :: "platform \<Rightarrow> bc_map_op \<Rightarrow> bc_instr \<Rightarrow> bc_vm \<Rightarrow> bc_vm option" where
  "bc_exec_map pf op ins vm =
     (let mc = vm_mc vm; m = mc_mem mc
      in case op of
        BcOp_MapSet \<Rightarrow>
          do { h \<leftarrow> rd_block vm (in_b ins) 0; arena \<leftarrow> rd_block vm (in_b ins) 1;
               key \<leftarrow> rd_block vm (in_b ins) 2; val \<leftarrow> rd_block vm (in_b ins) 3;
               la \<leftarrow> rd_block vm (in_b ins) 4; lay \<leftarrow> load_slot_layout m la;
               (ok, mc) \<leftarrow> bc_map_set pf mc arena h lay key val;
               wr (set_mc vm mc) (in_a ins) (bool_reg ok) }
      | BcOp_MapGet \<Rightarrow>
          do { h \<leftarrow> rd_block vm (in_b ins) 0; key \<leftarrow> rd_block vm (in_b ins) 1;
               la \<leftarrow> rd_block vm (in_b ins) 2; lay \<leftarrow> load_slot_layout m la;
               p \<leftarrow> bc_map_get m h lay key; wr vm (in_a ins) p }
      | BcOp_MapRemove \<Rightarrow>
          do { h \<leftarrow> rd_block vm (in_b ins) 0; key \<leftarrow> rd_block vm (in_b ins) 1;
               la \<leftarrow> rd_block vm (in_b ins) 2; lay \<leftarrow> load_slot_layout m la;
               (ok, mc) \<leftarrow> bc_map_remove mc h lay key;
               wr (set_mc vm mc) (in_a ins) (bool_reg ok) })"

section \<open>Printing\<close>

text \<open>\<^verbatim>\<open>BC_PRINT_OUT\<close>: a null or absent stream is \<^verbatim>\<open>stdout\<close>.\<close>

definition print_out :: "bc_instr \<Rightarrow> bc_vm \<Rightarrow> u64 option" where
  "print_out ins vm = (if in_c ins \<noteq> 0 then rd vm (in_b ins) else Some 0)"

text \<open>The bytes of a C string, scanning at most \<open>n\<close> of them for the terminator.\<close>

fun load_cstring :: "memory \<Rightarrow> u64 \<Rightarrow> nat \<Rightarrow> bytes option" where
  "load_cstring m a 0 = None"
| "load_cstring m a (Suc n) =
     (if \<not> me_access m a then None
      else if me_byte m a = 0 then Some []
      else map_option (\<lambda>bs. me_byte m a # bs) (load_cstring m (a + 1) n))"

definition print_text :: "platform \<Rightarrow> bc_print_op \<Rightarrow> memory \<Rightarrow> i64 \<Rightarrow> string option" where
  "print_text pf op m v =
     (case op of
        BcOp_PrintI64 \<Rightarrow> Some (dec_int (sint v))
      | BcOp_PrintU64 \<Rightarrow> Some (dec (unat v))
      | BcOp_PrintF64 \<Rightarrow> Some (pf_format_g pf v)
      | BcOp_PrintBool \<Rightarrow> Some (if v \<noteq> 0 then ''true'' else ''false'')
      | BcOp_PrintChar \<Rightarrow> Some [char_of_byte (ucast v)]
      | BcOp_PrintString \<Rightarrow> map_option text_of (load_str8 m v)
      | BcOp_PrintCString \<Rightarrow> map_option text_of (load_cstring m v (2 ^ 47)))"

definition bc_exec_print :: "platform \<Rightarrow> bc_print_op \<Rightarrow> bc_instr \<Rightarrow> bc_vm \<Rightarrow> bc_vm option" where
  "bc_exec_print pf op ins vm =
     do { v \<leftarrow> rd vm (in_a ins); out \<leftarrow> print_out ins vm;
          s \<leftarrow> print_text pf op (mc_mem (vm_mc vm)) v;
          Some (set_mc vm (write_out (vm_mc vm) out s)) }"

section \<open>One instruction\<close>

text \<open>What an instruction that falls through does, or the trap it raises.\<close>

definition bc_exec :: "bc_env \<Rightarrow> nat \<Rightarrow> bc_op \<Rightarrow> bc_instr \<Rightarrow> bc_vm \<Rightarrow> (string + bc_vm) option" where
  "bc_exec ev pid op ins vm =
     (let pf = ev_pf ev; ok = map_option Inr
      in case op of
        OpData d \<Rightarrow> ok (bc_exec_data ev pid d ins vm)
      | OpInt i \<Rightarrow>
          do { x \<leftarrow> rd vm (in_b ins); y \<leftarrow> rd vm (in_c ins);
               case bc_exec_int i x y of Inl msg \<Rightarrow> Some (Inl msg) | Inr v \<Rightarrow> ok (wr vm (in_a ins) v) }
      | OpCmp i \<Rightarrow>
          ok (do { x \<leftarrow> rd vm (in_b ins); y \<leftarrow> rd vm (in_c ins); wr vm (in_a ins) (bc_exec_cmp i x y) })
      | OpF64Arith f \<Rightarrow>
          ok (do { x \<leftarrow> rd vm (in_b ins); y \<leftarrow> rd vm (in_c ins); wr vm (in_a ins) (pf_f64_arith pf f x y) })
      | OpF64Cmp f \<Rightarrow>
          ok (do { x \<leftarrow> rd vm (in_b ins); y \<leftarrow> rd vm (in_c ins); wr vm (in_a ins) (bc_exec_f64_compare f x y) })
      | OpF32Arith f \<Rightarrow>
          ok (do { x \<leftarrow> rd vm (in_b ins); y \<leftarrow> rd vm (in_c ins);
                   wr vm (in_a ins) (ucast (pf_f32_arith pf f (ucast x) (ucast y))) })
      | OpF32Cmp f \<Rightarrow>
          ok (do { x \<leftarrow> rd vm (in_b ins); y \<leftarrow> rd vm (in_c ins);
                   wr vm (in_a ins) (bc_exec_f32_compare f (ucast x) (ucast y)) })
      | OpConv c \<Rightarrow>
          ok (do { x \<leftarrow> rd vm (in_b ins); v \<leftarrow> bc_exec_conv pf c x; wr vm (in_a ins) v })
      | OpMath f \<Rightarrow> ok (bc_exec_math pf f ins vm)
      | OpLoad l \<Rightarrow>
          ok (do { base \<leftarrow> rd vm (in_b ins);
                   v \<leftarrow> bc_exec_load l (mc_mem (vm_mc vm)) (base + ucast (in_c ins));
                   wr vm (in_a ins) v })
      | OpStore t \<Rightarrow>
          ok (do { base \<leftarrow> rd vm (in_a ins); v \<leftarrow> rd vm (in_c ins);
                   m \<leftarrow> bc_exec_store t (mc_mem (vm_mc vm)) (base + ucast (in_b ins)) v;
                   Some (set_mem vm m) })
      | OpRaw r \<Rightarrow> ok (bc_exec_raw pf r ins vm)
      | OpText t \<Rightarrow> ok (bc_exec_text pf t ins vm)
      | OpArena a \<Rightarrow> ok (bc_exec_arena ev a ins vm)
      | OpHandle h \<Rightarrow> ok (bc_exec_handle pf h ins vm)
      | OpDyn d \<Rightarrow> ok (bc_exec_dyn pf d ins vm)
      | OpMap m \<Rightarrow> ok (bc_exec_map pf m ins vm)
      | OpPrint p \<Rightarrow> ok (bc_exec_print pf p ins vm)
      | OpCtl c \<Rightarrow> None)"

section \<open>Control\<close>

text \<open>A result of an outermost run, or of the run of an imported module's function.\<close>

type_synonym module_runner = "nat \<Rightarrow> u32 \<Rightarrow> i64 list \<Rightarrow> machine \<Rightarrow> bc_end"

definition zero_window :: "(nat \<Rightarrow> i64) \<Rightarrow> nat \<Rightarrow> nat \<Rightarrow> nat \<Rightarrow> i64" where
  "zero_window regs base n = (\<lambda>i. if base \<le> i \<and> i < base + n then 0 else regs i)"

definition put_args :: "(nat \<Rightarrow> i64) \<Rightarrow> nat \<Rightarrow> i64 list \<Rightarrow> nat \<Rightarrow> i64" where
  "put_args regs base args =
     (\<lambda>i. if base \<le> i \<and> i < base + length args then args ! (i - base) else regs i)"

text \<open>\<^verbatim>\<open>BcOp_Call\<close>: the arguments are copied one by one after the window is zeroed, so an argument
  block that reaches into the callee's own window reads what is already there.\<close>

fun copy_args :: "(nat \<Rightarrow> i64) \<Rightarrow> nat \<Rightarrow> nat \<Rightarrow> nat \<Rightarrow> nat \<Rightarrow> (nat \<Rightarrow> i64) option" where
  "copy_args regs src dst i 0 = Some regs"
| "copy_args regs src dst i (Suc n) =
     (if src + i < BC_MAX_TOTAL_REGISTERS \<and> dst + i < BC_MAX_TOTAL_REGISTERS
      then copy_args (regs(dst + i := regs (src + i))) src dst (i + 1) n else None)"

definition bc_call :: "bc_program \<Rightarrow> bc_instr \<Rightarrow> bc_vm \<Rightarrow> bc_outcome" where
  "bc_call prog ins vm =
     (if \<not> unat (in_b ins) < length (pr_chunks prog) then Ended Undefined
      else let callee = pr_chunks prog ! unat (in_b ins) in
      if \<not> length (vm_frames vm) < BC_MAX_CALL_DEPTH then Ended (Asserted ''frame_top + 1 < BC_MAX_CALL_DEPTH'')
      else if \<not> unat (vm_next_free_reg vm) + unat (ch_num_registers callee) \<le> BC_MAX_TOTAL_REGISTERS
      then Ended (Asserted ''next_free_reg + callee->num_registers <= BC_MAX_TOTAL_REGISTERS'')
      else let base = vm_next_free_reg vm;
               regs = zero_window (vm_regs vm) (unat base) (unat (ch_num_registers callee));
               caller = (hd (vm_frames vm))\<lparr>fr_pc := vm_pc vm\<rparr>;
               frame = \<lparr>fr_chunk = callee, fr_reg_base = base, fr_pc = 0,
                        fr_dst_reg = vm_reg_base vm + in_a ins\<rparr>
           in case copy_args regs (reg_index vm (in_c ins)) (unat base) 0 (unat (ch_param_count callee)) of
                None \<Rightarrow> Ended Undefined
              | Some regs' \<Rightarrow> Running (vm\<lparr>vm_regs := regs',
                  vm_frames := frame # caller # tl (vm_frames vm),
                  vm_next_free_reg := base + ch_num_registers callee,
                  vm_chunk := callee, vm_reg_base := base, vm_pc := 0\<rparr>))"

definition bc_return :: "bool \<Rightarrow> bc_instr \<Rightarrow> bc_vm \<Rightarrow> bc_outcome" where
  "bc_return has_value ins vm =
     (case (if has_value then rd vm (in_a ins) else Some 0) of
        None \<Rightarrow> Ended Undefined
      | Some result \<Rightarrow>
          (case vm_frames vm of
             [] \<Rightarrow> Ended Undefined
           | [f] \<Rightarrow> Ended (Finished (Returned has_value result (vm_mc vm)))
           | f # caller # fs \<Rightarrow>
               (if \<not> unat (fr_dst_reg f) < BC_MAX_TOTAL_REGISTERS then Ended Undefined
                else Running (vm\<lparr>vm_regs := (vm_regs vm)(unat (fr_dst_reg f) := result),
                  vm_frames := caller # fs,
                  vm_next_free_reg := vm_reg_base vm,
                  vm_chunk := fr_chunk caller, vm_reg_base := fr_reg_base caller,
                  vm_pc := fr_pc caller + 1\<rparr>))))"

definition bc_call_host :: "bc_env \<Rightarrow> bc_instr \<Rightarrow> bc_vm \<Rightarrow> bc_outcome" where
  "bc_call_host ev ins vm =
     (let k = unat (in_b ins)
      in if \<not> k < length (ev_host_imports ev) then Ended Undefined
         else if hi_kind (ev_host_imports ev ! k) = 1 \<and> 12 < unat (hi_arg_count (ev_host_imports ev ! k))
         then Ended (Asserted ''arg_count <= BC_NATIVE_DIRECT_MAX_ARGS'')
         else case do { args \<leftarrow> rd_args vm (in_c ins) (unat (hi_arg_count (ev_host_imports ev ! k)));
                        (v, mc) \<leftarrow> ev_host ev k args (vm_mc vm);
                        vm' \<leftarrow> wr (set_mc vm mc) (in_a ins) v;
                        Some (vm'\<lparr>vm_pc := vm_pc vm + 1\<rparr>) } of
                None \<Rightarrow> Ended Undefined | Some vm' \<Rightarrow> Running vm')"

text \<open>\<^verbatim>\<open>BcOp_CallModule\<close>: \<open>run\<close> is the nested \<^verbatim>\<open>bc_run_in_program\<close>; a trap in it is passed on.\<close>

definition bc_call_module ::
  "module_runner \<Rightarrow> bc_env \<Rightarrow> bc_program \<Rightarrow> bc_instr \<Rightarrow> bc_vm \<Rightarrow> bc_outcome" where
  "bc_call_module run ev prog ins vm =
     (case do { table \<leftarrow> pr_module_table prog;
                imp \<leftarrow> (if unat (in_b ins) < length table then Some (table ! unat (in_b ins)) else None);
                target \<leftarrow> (if mi_prog imp < length (ev_progs ev) then Some (ev_progs ev ! mi_prog imp) else None);
                chunk \<leftarrow> (if unat (mi_fn_index imp) < length (pr_chunks target)
                         then Some (pr_chunks target ! unat (mi_fn_index imp)) else None);
                args \<leftarrow> rd_args vm (in_c ins) (unat (ch_param_count chunk));
                Some (imp, args) } of
        None \<Rightarrow> Ended Undefined
      | Some (imp, args) \<Rightarrow>
          (case run (mi_prog imp) (mi_fn_index imp) args (vm_mc vm) of
             Finished (Returned has v mc) \<Rightarrow>
               (case wr (set_mc vm mc) (in_a ins) v of
                  None \<Rightarrow> Ended Undefined | Some vm' \<Rightarrow> Running (vm'\<lparr>vm_pc := vm_pc vm + 1\<rparr>))
           | other \<Rightarrow> Ended other))"

definition bc_exec_ctl ::
  "module_runner \<Rightarrow> bc_env \<Rightarrow> bc_program \<Rightarrow> bc_ctl_op \<Rightarrow> bc_instr \<Rightarrow> bc_vm \<Rightarrow> bc_outcome" where
  "bc_exec_ctl run ev prog op ins vm =
     (case op of
        BcOp_Jump \<Rightarrow> Running (vm\<lparr>vm_pc := in_a ins\<rparr>)
      | BcOp_JumpIfFalse \<Rightarrow>
          (case rd vm (in_a ins) of
             None \<Rightarrow> Ended Undefined
           | Some v \<Rightarrow> Running (vm\<lparr>vm_pc := (if v = 0 then in_b ins else vm_pc vm + 1)\<rparr>))
      | BcOp_Call \<Rightarrow> bc_call prog ins vm
      | BcOp_CallHost \<Rightarrow> bc_call_host ev ins vm
      | BcOp_CallModule \<Rightarrow> bc_call_module run ev prog ins vm
      | BcOp_Return \<Rightarrow> bc_return True ins vm
      | BcOp_ReturnVoid \<Rightarrow> bc_return False ins vm)"

text \<open>\<^verbatim>\<open>BC_DISPATCH\<close> and the instruction it selects.\<close>

definition bc_step :: "module_runner \<Rightarrow> bc_env \<Rightarrow> nat \<Rightarrow> bc_program \<Rightarrow> bc_vm \<Rightarrow> bc_outcome" where
  "bc_step run ev pid prog vm =
     (if \<not> unat (vm_pc vm) < length (ch_code (vm_chunk vm)) then Ended Undefined
      else let ins = ch_code (vm_chunk vm) ! unat (vm_pc vm)
      in case bc_decode ins of
           None \<Rightarrow> Ended (Finished (Trapped ''invalid opcode (corrupt bytecode)''
                            (ch_name (vm_chunk vm)) (vm_mc vm)))
         | Some (OpCtl c) \<Rightarrow> bc_exec_ctl run ev prog c ins vm
         | Some op \<Rightarrow>
             (case bc_exec ev pid op ins vm of
                None \<Rightarrow> Ended Undefined
              | Some (Inl msg) \<Rightarrow> Ended (Finished (Trapped msg (ch_name (vm_chunk vm)) (vm_mc vm)))
              | Some (Inr vm') \<Rightarrow> Running (vm'\<lparr>vm_pc := vm_pc vm + 1\<rparr>)))"

section \<open>Running\<close>

definition bc_entry :: "bc_program \<Rightarrow> u32 \<Rightarrow> i64 list \<Rightarrow> (nat \<Rightarrow> i64) \<Rightarrow> machine \<Rightarrow> bc_outcome" where
  "bc_entry prog fn_index args regs mc =
     (if \<not> unat fn_index < length (pr_chunks prog) then Ended Undefined
      else let entry = pr_chunks prog ! unat fn_index in
      if length args \<noteq> unat (ch_param_count entry) then Ended (Asserted ''arg_count == entry_chunk->param_count'')
      else if \<not> unat (ch_num_registers entry) \<le> BC_MAX_TOTAL_REGISTERS
      then Ended (Asserted ''entry_chunk->num_registers <= BC_MAX_TOTAL_REGISTERS'')
      else if \<not> length args \<le> BC_MAX_TOTAL_REGISTERS then Ended Undefined
      else Running \<lparr>vm_regs = put_args (zero_window regs 0 (unat (ch_num_registers entry))) 0 args,
                     vm_frames = [\<lparr>fr_chunk = entry, fr_reg_base = 0, fr_pc = 0, fr_dst_reg = 0\<rparr>],
                     vm_next_free_reg = ch_num_registers entry,
                     vm_chunk = entry, vm_reg_base = 0, vm_pc = 0, vm_mc = mc\<rparr>)"

text \<open>The dispatch loop may not end; with \<open>fuel\<close> steps left over the whole run, nested module calls
  included, running out is \<open>OutOfFuel\<close>.  The uninitialised register file of a run is \<open>junk\<close>.\<close>

fun bc_start :: "(bc_vm \<Rightarrow> bc_end) \<Rightarrow> bc_outcome \<Rightarrow> bc_end" where
  "bc_start k (Running vm) = k vm"
| "bc_start k (Ended e) = e"

fun bc_loop :: "nat \<Rightarrow> (nat \<Rightarrow> i64) \<Rightarrow> bc_env \<Rightarrow> nat \<Rightarrow> bc_program \<Rightarrow> bc_vm \<Rightarrow> bc_end" where
  "bc_loop 0 junk ev pid prog vm = OutOfFuel"
| "bc_loop (Suc fuel) junk ev pid prog vm =
     bc_start (bc_loop fuel junk ev pid prog)
       (bc_step
          (\<lambda>p fn args mc.
             bc_start (bc_loop fuel junk ev p (ev_progs ev ! p))
               (bc_entry (ev_progs ev ! p) fn args junk mc))
          ev pid prog vm)"

definition bc_run_in_program ::
  "nat \<Rightarrow> (nat \<Rightarrow> i64) \<Rightarrow> bc_env \<Rightarrow> nat \<Rightarrow> u32 \<Rightarrow> i64 list \<Rightarrow> machine \<Rightarrow> bc_end" where
  "bc_run_in_program fuel junk ev pid fn_index args mc =
     (if \<not> pid < length (ev_progs ev) then Undefined
      else bc_start (bc_loop fuel junk ev pid (ev_progs ev ! pid))
             (bc_entry (ev_progs ev ! pid) fn_index args junk mc))"

end
