(* ===== verification/Verifier.thy ===== *)
theory Verifier
  imports VM
begin

text \<open>
  \<^verbatim>\<open>bcio_verify_loaded_code\<close> of \<^verbatim>\<open>bcio.c\<close>: the structural check a program read from a cache file
  passes before it runs, and what that check guarantees about every state the interpreter can
  reach: the program counter stays inside the code, every fetched opcode is real, and jump, call
  and constant operands are in range.  The register windows of the frame stack are contiguous and
  inside the register file whether or not a program was verified.
\<close>

section \<open>The check\<close>

definition bcio_verify_instr :: "nat \<Rightarrow> bc_chunk \<Rightarrow> bc_instr \<Rightarrow> bool" where
  "bcio_verify_instr chunk_count chunk ins =
     (case bc_decode ins of
        None \<Rightarrow> False
      | Some (OpCtl BcOp_Jump) \<Rightarrow> unat (in_a ins) < length (ch_code chunk)
      | Some (OpCtl BcOp_JumpIfFalse) \<Rightarrow> unat (in_b ins) < length (ch_code chunk)
      | Some (OpCtl BcOp_Call) \<Rightarrow> unat (in_b ins) < chunk_count
      | Some (OpData BcOp_LoadConst) \<Rightarrow> unat (in_b ins) < length (ch_consts chunk)
      | _ \<Rightarrow> True)"

definition ends_chunk :: "bc_instr \<Rightarrow> bool" where
  "ends_chunk ins \<longleftrightarrow>
     bc_decode ins \<in> {Some (OpCtl BcOp_Return), Some (OpCtl BcOp_ReturnVoid), Some (OpCtl BcOp_Jump)}"

definition bcio_verify_chunk :: "nat \<Rightarrow> bc_chunk \<Rightarrow> bool" where
  "bcio_verify_chunk chunk_count chunk \<longleftrightarrow>
     (if ch_code chunk = [] then False
      else if unat (ch_num_registers chunk) > BC_MAX_TOTAL_REGISTERS then False
      else if ch_param_count chunk > ch_num_registers chunk then False
      else list_all (bcio_verify_instr chunk_count chunk) (ch_code chunk)
           \<and> ends_chunk (last (ch_code chunk)))"

definition bcio_verify_loaded_code :: "bc_chunk list \<Rightarrow> bool" where
  "bcio_verify_loaded_code chunks \<longleftrightarrow>
     list_all (bcio_verify_chunk (length chunks)) chunks
     \<and> (case find (\<lambda>c. str8_match (ch_name c) ''#init_globals'' 0) chunks of
          Some c \<Rightarrow> ch_param_count c = 0
        | None \<Rightarrow> False)"

section \<open>What falling through leaves alone\<close>

definition same_frame :: "bc_vm \<Rightarrow> bc_vm \<Rightarrow> bool" where
  "same_frame vm vm' \<longleftrightarrow>
     vm_frames vm' = vm_frames vm \<and> vm_next_free_reg vm' = vm_next_free_reg vm
     \<and> vm_chunk vm' = vm_chunk vm \<and> vm_reg_base vm' = vm_reg_base vm \<and> vm_pc vm' = vm_pc vm"

lemma same_frame_wr: "wr vm i v = Some vm' \<Longrightarrow> same_frame vm vm'"
  by (auto simp: wr_def same_frame_def split: if_splits)

lemma same_frame_set [simp]: "same_frame vm (set_mem vm m)" "same_frame vm (set_mc vm mc)"
  by (simp_all add: same_frame_def set_mem_def set_mc_def)

lemma same_frame_wr_set_mc: "wr (set_mc vm mc) i v = Some vm' \<Longrightarrow> same_frame vm vm'"
  and same_frame_wr_set_mem: "wr (set_mem vm m) i v = Some vm' \<Longrightarrow> same_frame vm vm'"
  by (auto dest!: same_frame_wr simp: same_frame_def set_mc_def set_mem_def)

lemmas same_frame_rules = same_frame_wr same_frame_wr_set_mc same_frame_wr_set_mem

lemma same_frame_data: "bc_exec_data ev pid op ins vm = Some vm' \<Longrightarrow> same_frame vm vm'"
  by (cases op)
    (auto simp: bc_exec_data_def Let_def same_frame_def dest!: same_frame_rules
      split: if_splits bind_splits)

lemma same_frame_math: "bc_exec_math pf op ins vm = Some vm' \<Longrightarrow> same_frame vm vm'"
  by (cases op) (auto simp: bc_exec_math_def dest!: same_frame_rules split: bind_splits)

lemma same_frame_raw: "bc_exec_raw pf op ins vm = Some vm' \<Longrightarrow> same_frame vm vm'"
  by (cases op) (auto simp: bc_exec_raw_def Let_def dest!: same_frame_rules split: bind_splits)

lemma same_frame_text: "bc_exec_text pf op ins vm = Some vm' \<Longrightarrow> same_frame vm vm'"
  by (cases op) (auto simp: bc_exec_text_def Let_def dest!: same_frame_rules split: bind_splits)

lemma same_frame_arena: "bc_exec_arena ev op ins vm = Some vm' \<Longrightarrow> same_frame vm vm'"
  by (cases op)
    (auto simp: bc_exec_arena_def Let_def dest!: same_frame_rules split: bind_splits prod.splits)

lemma same_frame_handle: "bc_exec_handle pf op ins vm = Some vm' \<Longrightarrow> same_frame vm vm'"
  by (cases op) (auto simp: bc_exec_handle_def Let_def dest!: same_frame_rules split: bind_splits)

lemma same_frame_dyn: "bc_exec_dyn pf op ins vm = Some vm' \<Longrightarrow> same_frame vm vm'"
  by (cases op) (auto simp: bc_exec_dyn_def Let_def dest!: same_frame_rules split: bind_splits)

lemma same_frame_map: "bc_exec_map pf op ins vm = Some vm' \<Longrightarrow> same_frame vm vm'"
  by (cases op) (auto simp: bc_exec_map_def Let_def dest!: same_frame_rules split: bind_splits)

lemma same_frame_print: "bc_exec_print pf op ins vm = Some vm' \<Longrightarrow> same_frame vm vm'"
  by (auto simp: bc_exec_print_def split: bind_splits)

lemmas same_frame_groups = same_frame_data same_frame_math same_frame_raw same_frame_text
  same_frame_arena same_frame_handle same_frame_dyn same_frame_map same_frame_print

lemma same_frame_exec: "bc_exec ev pid op ins vm = Some (Inr vm') \<Longrightarrow> same_frame vm vm'"
  by (cases op)
    (auto simp: bc_exec_def Let_def dest!: same_frame_rules same_frame_groups
      split: bind_splits sum.splits)

section \<open>The frame stack\<close>

text \<open>Each window starts where the caller's ends, the outermost at register 0.\<close>

fun windows_ok :: "bc_frame list \<Rightarrow> bool" where
  "windows_ok [] = True"
| "windows_ok [f] \<longleftrightarrow> fr_reg_base f = 0"
| "windows_ok (f # g # fs) \<longleftrightarrow>
     unat (fr_reg_base f) = unat (fr_reg_base g) + unat (ch_num_registers (fr_chunk g))
     \<and> windows_ok (g # fs)"

definition vm_inv :: "bc_vm \<Rightarrow> bool" where
  "vm_inv vm \<longleftrightarrow>
     vm_frames vm \<noteq> [] \<and> length (vm_frames vm) \<le> BC_MAX_CALL_DEPTH
     \<and> vm_chunk vm = fr_chunk (hd (vm_frames vm)) \<and> vm_reg_base vm = fr_reg_base (hd (vm_frames vm))
     \<and> windows_ok (vm_frames vm)
     \<and> unat (vm_next_free_reg vm) = unat (vm_reg_base vm) + unat (ch_num_registers (vm_chunk vm))
     \<and> unat (vm_next_free_reg vm) \<le> BC_MAX_TOTAL_REGISTERS"

lemma vm_inv_same_frame: "same_frame vm vm' \<Longrightarrow> vm_inv (vm'\<lparr>vm_pc := p\<rparr>) \<longleftrightarrow> vm_inv vm"
  by (simp add: same_frame_def vm_inv_def)

lemma windows_ok_pc: "windows_ok (f\<lparr>fr_pc := p\<rparr> # fs) \<longleftrightarrow> windows_ok (f # fs)"
  by (cases fs) simp_all

lemma vm_inv_entry:
  assumes "bc_entry prog fn args junk mc = Running vm"
  shows "vm_inv vm"
  using assms
  by (auto simp: bc_entry_def vm_inv_def BC_MAX_CALL_DEPTH_def Let_def split: if_splits)

lemma vm_inv_call:
  assumes inv: "vm_inv vm" and call: "bc_call prog ins vm = Running vm'"
  shows "vm_inv vm'"
proof -
  let ?callee = "pr_chunks prog ! unat (in_b ins)"
  obtain f fs where fs: "vm_frames vm = f # fs" using inv by (cases "vm_frames vm") (auto simp: vm_inv_def)
  have room: "unat (vm_next_free_reg vm) + unat (ch_num_registers ?callee) \<le> 65536"
    and depth: "length (vm_frames vm) < 1024"
    using call by (auto simp: bc_call_def Let_def BC_MAX_TOTAL_REGISTERS_def BC_MAX_CALL_DEPTH_def
        split: if_splits)
  then have sum: "unat (vm_next_free_reg vm + ch_num_registers ?callee)
      = unat (vm_next_free_reg vm) + unat (ch_num_registers ?callee)"
    by (subst unat_plus_if') simp
  show ?thesis
    using call inv room depth sum fs
    by (auto simp: bc_call_def Let_def vm_inv_def windows_ok_pc BC_MAX_TOTAL_REGISTERS_def
        BC_MAX_CALL_DEPTH_def split: if_splits option.splits)
qed

lemma vm_inv_return:
  assumes inv: "vm_inv vm" and ret: "bc_return hv ins vm = Running vm'"
  shows "vm_inv vm'"
proof -
  obtain f g fs where fs: "vm_frames vm = f # g # fs"
    using ret inv by (auto simp: bc_return_def split: option.splits list.splits)
  show ?thesis
    using ret inv fs
    by (auto simp: bc_return_def vm_inv_def BC_MAX_TOTAL_REGISTERS_def split: option.splits if_splits)
qed

lemma vm_inv_ctl:
  assumes inv: "vm_inv vm" and step: "bc_exec_ctl run ev prog op ins vm = Running vm'"
  shows "vm_inv vm'"
proof (cases op)
  case BcOp_CallHost
  then show ?thesis using step inv
    by (auto simp: bc_exec_ctl_def bc_call_host_def Let_def vm_inv_same_frame
        dest!: same_frame_rules split: if_splits option.splits bind_splits)
next
  case BcOp_CallModule
  then show ?thesis using step inv
    by (auto simp: bc_exec_ctl_def bc_call_module_def vm_inv_same_frame
        dest!: same_frame_rules split: option.splits bc_end.splits bc_result.splits)
next
  case BcOp_Call
  then show ?thesis using step vm_inv_call [OF inv] by (simp add: bc_exec_ctl_def)
next
  case BcOp_Return
  then show ?thesis using step vm_inv_return [OF inv] by (simp add: bc_exec_ctl_def)
next
  case BcOp_ReturnVoid
  then show ?thesis using step vm_inv_return [OF inv] by (simp add: bc_exec_ctl_def)
qed (use step inv in \<open>auto simp: bc_exec_ctl_def vm_inv_def split: option.splits\<close>)

lemma bc_step_cases:
  assumes "bc_step run ev pid prog vm = Running vm'"
  obtains
    (Ctl) c where "unat (vm_pc vm) < length (ch_code (vm_chunk vm))"
      "bc_decode (ch_code (vm_chunk vm) ! unat (vm_pc vm)) = Some (OpCtl c)"
      "bc_exec_ctl run ev prog c (ch_code (vm_chunk vm) ! unat (vm_pc vm)) vm = Running vm'"
  | (Fall) op vm1 where "unat (vm_pc vm) < length (ch_code (vm_chunk vm))"
      "bc_decode (ch_code (vm_chunk vm) ! unat (vm_pc vm)) = Some op" "\<forall>c. op \<noteq> OpCtl c"
      "same_frame vm vm1" "vm' = vm1\<lparr>vm_pc := vm_pc vm + 1\<rparr>"
proof -
  let ?ins = "ch_code (vm_chunk vm) ! unat (vm_pc vm)"
  have pc: "unat (vm_pc vm) < length (ch_code (vm_chunk vm))"
    using assms by (auto simp: bc_step_def split: if_splits)
  obtain op where op: "bc_decode ?ins = Some op"
    using assms pc by (auto simp: bc_step_def Let_def split: option.splits)
  show thesis
  proof (cases "\<exists>c. op = OpCtl c")
    case True
    then obtain c where "op = OpCtl c" by blast
    then show thesis using Ctl [of c] assms pc op by (simp add: bc_step_def Let_def)
  next
    case False
    then have "bc_step run ev pid prog vm =
        (case bc_exec ev pid op ?ins vm of
           None \<Rightarrow> Ended Undefined
         | Some (Inl msg) \<Rightarrow> Ended (Finished (Trapped msg (ch_name (vm_chunk vm)) (vm_mc vm)))
         | Some (Inr vm') \<Rightarrow> Running (vm'\<lparr>vm_pc := vm_pc vm + 1\<rparr>))"
      using pc op by (cases op) (simp_all add: bc_step_def Let_def)
    then obtain vm1 where "bc_exec ev pid op ?ins vm = Some (Inr vm1)"
      "vm' = vm1\<lparr>vm_pc := vm_pc vm + 1\<rparr>"
      using assms by (auto split: option.splits sum.splits)
    then show thesis using Fall [of op vm1] pc op False same_frame_exec by auto
  qed
qed

lemma vm_inv_step:
  assumes "vm_inv vm" "bc_step run ev pid prog vm = Running vm'"
  shows "vm_inv vm'"
  using assms(2)
proof (cases rule: bc_step_cases)
  case (Ctl c)
  then show ?thesis using vm_inv_ctl assms(1) by blast
next
  case (Fall op vm1)
  then show ?thesis using assms(1) by (simp add: vm_inv_same_frame)
qed

section \<open>Reachable states\<close>

inductive bc_reachable :: "module_runner \<Rightarrow> bc_env \<Rightarrow> nat \<Rightarrow> bc_program \<Rightarrow> bc_vm \<Rightarrow> bool"
  for run ev pid prog where
  entry: "bc_entry prog fn args junk mc = Running vm \<Longrightarrow> bc_reachable run ev pid prog vm"
| step: "bc_reachable run ev pid prog vm \<Longrightarrow> bc_step run ev pid prog vm = Running vm' \<Longrightarrow>
    bc_reachable run ev pid prog vm'"

inductive_cases bc_reachable_cases: "bc_reachable run ev pid prog vm"

lemma bc_reachable_invariant:
  assumes "bc_reachable run ev pid prog vm"
    and "\<And>fn args junk mc vm. bc_entry prog fn args junk mc = Running vm \<Longrightarrow> I vm"
    and "\<And>vm vm'. I vm \<Longrightarrow> vm_inv vm \<Longrightarrow> bc_step run ev pid prog vm = Running vm' \<Longrightarrow> I vm'"
  shows "I vm \<and> vm_inv vm"
  using assms(1) by induction (use assms(2,3) vm_inv_entry vm_inv_step in blast)+

text \<open>What the check buys: every frame executes a chunk of the program, the program counter is inside
  the running chunk, and a suspended caller has an instruction after its call.\<close>

definition code_inv :: "bc_program \<Rightarrow> bc_vm \<Rightarrow> bool" where
  "code_inv prog vm \<longleftrightarrow>
     list_all (\<lambda>f. fr_chunk f \<in> set (pr_chunks prog)) (vm_frames vm)
     \<and> vm_chunk vm \<in> set (pr_chunks prog)
     \<and> unat (vm_pc vm) < length (ch_code (vm_chunk vm))
     \<and> list_all (\<lambda>f. unat (fr_pc f) + 1 < length (ch_code (fr_chunk f))) (tl (vm_frames vm))"

lemma verified_chunk:
  "bcio_verify_loaded_code chunks \<Longrightarrow> c \<in> set chunks \<Longrightarrow> bcio_verify_chunk (length chunks) c"
  by (auto simp: bcio_verify_loaded_code_def list_all_iff)

lemma verify_chunkD:
  assumes "bcio_verify_chunk n c"
  shows "ch_code c \<noteq> []" and "ch_param_count c \<le> ch_num_registers c"
    and "\<And>i. i < length (ch_code c) \<Longrightarrow> bcio_verify_instr n c (ch_code c ! i)"
    and "ends_chunk (last (ch_code c))"
  using assms by (auto simp: bcio_verify_chunk_def list_all_length not_less split: if_splits)

lemma not_last_instr:
  assumes "bcio_verify_chunk n c" "i < length (ch_code c)" "\<not> ends_chunk (ch_code c ! i)"
  shows "i + 1 < length (ch_code c)"
proof (rule ccontr)
  assume "\<not> ?thesis"
  then have "i = length (ch_code c) - 1" using assms(2) by linarith
  moreover have "ch_code c \<noteq> []" using assms(2) by auto
  ultimately have "ch_code c ! i = last (ch_code c)" by (simp add: last_conv_nth)
  then show False using verify_chunkD(4) [OF assms(1)] assms(3) by simp
qed

lemma unat_Suc_le: "unat (w + 1 :: u32) \<le> unat w + 1"
  by (simp add: unat_word_ariths)

lemma unat_Suc_less: "Suc (unat w) < n \<Longrightarrow> unat (w + 1 :: u32) < n"
  using unat_Suc_le [of w] by simp

lemma code_inv_entry:
  assumes ok: "bcio_verify_loaded_code (pr_chunks prog)"
    and run: "bc_entry prog fn args junk mc = Running vm"
  shows "code_inv prog vm"
proof -
  let ?c = "pr_chunks prog ! unat fn"
  have "?c \<in> set (pr_chunks prog)" using run by (auto simp: bc_entry_def split: if_splits)
  then show ?thesis using run verify_chunkD(1) [OF verified_chunk [OF ok]]
    by (auto simp: bc_entry_def code_inv_def Let_def split: if_splits)
qed

text \<open>Every instruction but a return or a jump leaves the counter on the next instruction, enters a
  callee at 0 or takes a checked branch.\<close>

lemma code_inv_ctl:
  assumes ok: "bcio_verify_loaded_code (pr_chunks prog)" and inv: "code_inv prog vm" "vm_inv vm"
    and ins: "ins = ch_code (vm_chunk vm) ! unat (vm_pc vm)" and op: "bc_decode ins = Some (OpCtl c)"
    and step: "bc_exec_ctl run ev prog c ins vm = Running vm'"
  shows "code_inv prog vm'"
proof -
  obtain f fs where fs: "vm_frames vm = f # fs" "vm_chunk vm = fr_chunk f"
    using inv by (cases "vm_frames vm") (auto simp: vm_inv_def)
  have pc: "unat (vm_pc vm) < length (ch_code (vm_chunk vm))"
    and mem: "vm_chunk vm \<in> set (pr_chunks prog)" using inv by (auto simp: code_inv_def)
  note ver = verified_chunk [OF ok mem]
  have this_ok: "bcio_verify_instr (length (pr_chunks prog)) (vm_chunk vm) ins"
    using verify_chunkD(3) [OF ver pc] ins by simp
  have nxt: "unat (vm_pc vm) + 1 < length (ch_code (vm_chunk vm))" if "\<not> ends_chunk ins"
    using not_last_instr [OF ver pc] that ins by simp
  then have nxt': "unat (vm_pc vm + 1) < length (ch_code (vm_chunk vm))" if "\<not> ends_chunk ins"
    using that unat_Suc_le [of "vm_pc vm"] by fastforce
  have callee: "ch_code (pr_chunks prog ! i) \<noteq> []" if "i < length (pr_chunks prog)" for i
    using verify_chunkD(1) [OF verified_chunk [OF ok]] that by simp
  show ?thesis
  proof (cases c)
    case BcOp_Jump
    then show ?thesis using step inv this_ok op
      by (auto simp: bc_exec_ctl_def code_inv_def bcio_verify_instr_def)
  next
    case BcOp_JumpIfFalse
    then have "\<not> ends_chunk ins" using op by (simp add: ends_chunk_def)
    then show ?thesis using step inv this_ok op nxt' BcOp_JumpIfFalse
      by (auto simp: bc_exec_ctl_def code_inv_def bcio_verify_instr_def split: option.splits)
  next
    case BcOp_Call
    then have "\<not> ends_chunk ins" using op by (simp add: ends_chunk_def)
    then show ?thesis using step inv this_ok op nxt fs callee BcOp_Call
      by (auto simp: bc_exec_ctl_def bc_call_def code_inv_def bcio_verify_instr_def Let_def
          split: option.splits if_splits)
  next
    case BcOp_CallHost
    then have "\<not> ends_chunk ins" using op by (simp add: ends_chunk_def)
    then show ?thesis using step inv nxt' BcOp_CallHost
      by (auto simp: bc_exec_ctl_def bc_call_host_def code_inv_def same_frame_def Let_def
          dest!: same_frame_rules split: option.splits if_splits bind_splits)
  next
    case BcOp_CallModule
    then have "\<not> ends_chunk ins" using op by (simp add: ends_chunk_def)
    then show ?thesis using step inv nxt' BcOp_CallModule
      by (auto simp: bc_exec_ctl_def bc_call_module_def code_inv_def same_frame_def
          dest!: same_frame_rules split: option.splits bc_end.splits bc_result.splits)
  next
    case BcOp_Return
    then show ?thesis using step inv fs
      by (auto simp: bc_exec_ctl_def bc_return_def code_inv_def
          intro: unat_Suc_less split: option.splits list.splits if_splits)
  next
    case BcOp_ReturnVoid
    then show ?thesis using step inv fs
      by (auto simp: bc_exec_ctl_def bc_return_def code_inv_def
          intro: unat_Suc_less split: option.splits list.splits if_splits)
  qed
qed

lemma code_inv_step:
  assumes ok: "bcio_verify_loaded_code (pr_chunks prog)" and inv: "code_inv prog vm" "vm_inv vm"
    and step: "bc_step run ev pid prog vm = Running vm'"
  shows "code_inv prog vm'"
  using step
proof (cases rule: bc_step_cases)
  case (Ctl c)
  then show ?thesis using code_inv_ctl [OF ok inv refl] by blast
next
  case (Fall op vm1)
  have "\<not> ends_chunk (ch_code (vm_chunk vm) ! unat (vm_pc vm))"
    using Fall by (auto simp: ends_chunk_def)
  then have "unat (vm_pc vm) + 1 < length (ch_code (vm_chunk vm))"
    using not_last_instr [OF verified_chunk [OF ok] Fall(1)] inv by (auto simp: code_inv_def)
  then show ?thesis using Fall(4,5) inv unat_Suc_le [of "vm_pc vm"]
    by (auto simp: code_inv_def same_frame_def)
qed

lemma code_inv_reachable:
  assumes "bcio_verify_loaded_code (pr_chunks prog)" "bc_reachable run ev pid prog vm"
  shows "code_inv prog vm \<and> vm_inv vm"
  by (rule bc_reachable_invariant [OF assms(2)]) (use code_inv_entry code_inv_step assms(1) in blast)+

text \<open>
  C7: In a program that passed \<^verbatim>\<open>bcio_verify_loaded_code\<close>, every state the dispatch loop reaches,
  through any sequence of calls, returns, branches, host and module calls and from any machine and
  arguments, fetches inside the running chunk, finds a real opcode there, and finds its jump target,
  callee or constant index in range.
\<close>

theorem verified_program_stays_in_code:
  assumes "bcio_verify_loaded_code (pr_chunks prog)"
    and "bc_reachable run ev pid prog vm"
    and "ins = ch_code (vm_chunk vm) ! unat (vm_pc vm)"
  shows "unat (vm_pc vm) < length (ch_code (vm_chunk vm))
    \<and> bc_decode ins \<noteq> None
    \<and> (bc_decode ins = Some (OpCtl BcOp_Jump) \<longrightarrow> unat (in_a ins) < length (ch_code (vm_chunk vm)))
    \<and> (bc_decode ins = Some (OpCtl BcOp_JumpIfFalse) \<longrightarrow> unat (in_b ins) < length (ch_code (vm_chunk vm)))
    \<and> (bc_decode ins = Some (OpCtl BcOp_Call) \<longrightarrow> unat (in_b ins) < length (pr_chunks prog))
    \<and> (bc_decode ins = Some (OpData BcOp_LoadConst) \<longrightarrow> unat (in_b ins) < length (ch_consts (vm_chunk vm)))"
proof -
  have pc: "unat (vm_pc vm) < length (ch_code (vm_chunk vm))"
    and "vm_chunk vm \<in> set (pr_chunks prog)"
    using code_inv_reachable [OF assms(1,2)] by (auto simp: code_inv_def)
  then have "bcio_verify_instr (length (pr_chunks prog)) (vm_chunk vm) ins"
    using verify_chunkD(3) [OF verified_chunk [OF assms(1)] pc] assms(3) by simp
  then show ?thesis using pc
    by (auto simp: bcio_verify_instr_def split: option.splits)
qed

text \<open>
  C8: At every reachable state the register windows of the live frames are contiguous, start at
  register 0 and end at \<^verbatim>\<open>next_free_reg\<close>, which never passes the register file; the frame stack
  is never empty and never deeper than \<^verbatim>\<open>BC_MAX_CALL_DEPTH\<close>.
\<close>

theorem frame_stack_invariant:
  assumes "bc_reachable run ev pid prog vm"
  shows "vm_frames vm \<noteq> [] \<and> length (vm_frames vm) \<le> BC_MAX_CALL_DEPTH
    \<and> windows_ok (vm_frames vm)
    \<and> unat (vm_next_free_reg vm) = unat (vm_reg_base vm) + unat (ch_num_registers (vm_chunk vm))
    \<and> unat (vm_next_free_reg vm) \<le> BC_MAX_TOTAL_REGISTERS"
proof -
  have "vm_inv vm"
    by (rule conjunct2 [OF bc_reachable_invariant [OF assms, where I = "\<lambda>_. True"]]) simp_all
  then show ?thesis unfolding vm_inv_def by blast
qed

end
