(* ===== verification/VM_Props.thy ===== *)
theory VM_Props
  imports Verifier
begin

text \<open>
  What the interpreter computes: integer arithmetic and narrowing against their mathematical meaning,
  that more fuel never changes a finished run, which instructions of a verified program can be
  undefined, and a small recursive program run to its result.
\<close>

section \<open>More fuel\<close>

text \<open>A runner that has an answer wherever another has one, and the same.\<close>

definition run_le :: "module_runner \<Rightarrow> module_runner \<Rightarrow> bool" where
  "run_le run run' \<longleftrightarrow> (\<forall>p fn args mc. run p fn args mc = OutOfFuel \<or> run' p fn args mc = run p fn args mc)"

lemma bc_step_mono:
  assumes "run_le run run'"
  shows "bc_step run ev pid prog vm = Ended OutOfFuel
     \<or> bc_step run' ev pid prog vm = bc_step run ev pid prog vm"
proof -
  have "bc_call_module run ev prog ins vm = Ended OutOfFuel
     \<or> bc_call_module run' ev prog ins vm = bc_call_module run ev prog ins vm" for ins
    using assms by (auto simp: bc_call_module_def run_le_def split: option.splits bind_splits)
      (metis bc_end.simps(18))
  then show ?thesis
    by (auto simp: bc_step_def Let_def bc_exec_ctl_def split: option.splits bc_op.splits bc_ctl_op.splits)
qed

lemma bc_loop_mono:
  "bc_loop n junk ev pid prog vm = OutOfFuel
   \<or> bc_loop (Suc n) junk ev pid prog vm = bc_loop n junk ev pid prog vm"
proof (induction n arbitrary: pid prog vm)
  case (Suc n)
  let ?run = "\<lambda>n p fn args mc.
      bc_start (bc_loop n junk ev p (ev_progs ev ! p)) (bc_entry (ev_progs ev ! p) fn args junk mc)"
  have start: "bc_start (bc_loop n junk ev p q) out = OutOfFuel
      \<or> bc_start (bc_loop (Suc n) junk ev p q) out = bc_start (bc_loop n junk ev p q) out" for p q out
    using Suc.IH by (cases out) (auto simp del: bc_loop.simps)
  then have "run_le (?run n) (?run (Suc n))" unfolding run_le_def by blast
  from bc_step_mono [OF this, of ev pid prog vm] show ?case
  proof
    assume "bc_step (?run n) ev pid prog vm = Ended OutOfFuel"
    then show ?thesis by simp
  next
    assume same: "bc_step (?run (Suc n)) ev pid prog vm = bc_step (?run n) ev pid prog vm"
    have "bc_loop (Suc (Suc n)) junk ev pid prog vm =
        bc_start (bc_loop (Suc n) junk ev pid prog) (bc_step (?run n) ev pid prog vm)"
      unfolding same [symmetric] by (rule bc_loop.simps(2))
    moreover have "bc_loop (Suc n) junk ev pid prog vm =
        bc_start (bc_loop n junk ev pid prog) (bc_step (?run n) ev pid prog vm)"
      by (rule bc_loop.simps(2))
    ultimately show ?thesis using start by presburger
  qed
qed simp

lemma bc_loop_mono_le:
  assumes "m \<le> n" "bc_loop m junk ev pid prog vm \<noteq> OutOfFuel"
  shows "bc_loop n junk ev pid prog vm = bc_loop m junk ev pid prog vm"
  using assms
proof (induction n rule: dec_induct)
  case (step n)
  then show ?case using bc_loop_mono [of n junk ev pid prog vm] by metis
qed simp

text \<open>
  A run that ends with some amount of fuel ends the same way with any larger amount, nested
  module calls included: the fuel bounds the model only, it is not part of the result.
\<close>

theorem bc_run_fuel_irrelevant:
  assumes "m \<le> n" "bc_run_in_program m junk ev pid fn args mc = r" "r \<noteq> OutOfFuel"
  shows "bc_run_in_program n junk ev pid fn args mc = r"
proof (cases "pid < length (ev_progs ev)")
  case True
  then show ?thesis using assms bc_loop_mono_le [OF assms(1)]
    by (cases "bc_entry (ev_progs ev ! pid) fn args junk mc")
      (auto simp: bc_run_in_program_def)
qed (use assms in \<open>simp add: bc_run_in_program_def\<close>)

section \<open>Integer instructions\<close>

lemma i64_range: "- (2 ^ 63) \<le> sint x" "sint x < 2 ^ 63" for x :: i64
  using sint_greater_eq [of x] sint_less [of x] by simp_all

lemma sint_of_i64: "- (2 ^ 63) \<le> k \<Longrightarrow> k < 2 ^ 63 \<Longrightarrow> sint (word_of_int k :: i64) = k"
  by (simp add: signed_of_int signed_take_bit_int_eq_self)

lemma i64_eq_iff: "x = y \<longleftrightarrow> sint x = sint y" for x y :: i64
  by (metis signed_word_eqI)

lemma div_overflow_iff: "x = - (2 ^ 63) \<and> y = - 1 \<longleftrightarrow> sint x = - (2 ^ 63) \<and> sint y = - 1" for x y :: i64
  by (simp add: i64_eq_iff [of x] i64_eq_iff [of y])

lemma sdiv_i64_range:
  fixes x y :: i64
  assumes "y \<noteq> 0" "\<not> (sint x = - (2 ^ 63) \<and> sint y = - 1)"
  shows "- (2 ^ 63) \<le> sint x sdiv sint y \<and> sint x sdiv sint y < 2 ^ 63"
proof -
  have "sint x sdiv sint y \<in> {- \<bar>sint x\<bar>..\<bar>sint x\<bar>}" by (rule sdiv_int_range)
  then have le: "- \<bar>sint x\<bar> \<le> sint x sdiv sint y" "sint x sdiv sint y \<le> \<bar>sint x\<bar>" by auto
  have "sint x sdiv sint y \<noteq> 2 ^ 63"
  proof
    assume e: "sint x sdiv sint y = 2 ^ 63"
    then have x: "sint x = - (2 ^ 63)" using le i64_range [of x] by linarith
    then have "sint y = - 1" using e int_sdiv_negated_is_minus1 [of "sint x" "sint y"] by simp
    with x assms(2) show False by blast
  qed
  then show ?thesis using le i64_range [of x] by linarith
qed

lemma smod_i64_range:
  fixes x y :: i64
  assumes "y \<noteq> 0"
  shows "\<bar>sint x smod sint y\<bar> < \<bar>sint y\<bar>"
  using smod_int_range [of "sint y" "sint x"] assms by (auto simp: i64_eq_iff [of y])

text \<open>
  Signed division and remainder.  \<^verbatim>\<open>Div\<close> traps exactly on a zero divisor and on
  \<^verbatim>\<open>I64_MIN / -1\<close>, \<^verbatim>\<open>Mod\<close> exactly on a zero divisor; whenever neither traps the quotient
  and the remainder are the mathematical ones truncated towards zero (the remainder is smaller than
  the divisor and never has the sign opposite to the dividend), with no wrap-around anywhere.
\<close>

theorem bc_signed_division:
  "(if y = 0 then (\<exists>m. bc_exec_int BcOp_Div x y = Inl m) \<and> (\<exists>m. bc_exec_int BcOp_Mod x y = Inl m)
    else if sint x = - (2 ^ 63) \<and> sint y = - 1
      then (\<exists>m. bc_exec_int BcOp_Div x y = Inl m) \<and> bc_exec_int BcOp_Mod x y = Inr 0
    else (\<exists>q r. bc_exec_int BcOp_Div x y = Inr q \<and> bc_exec_int BcOp_Mod x y = Inr r
        \<and> sint x = sint q * sint y + sint r \<and> \<bar>sint r\<bar> < \<bar>sint y\<bar> \<and> 0 \<le> sint r * sint x))"
proof (cases "y = 0 \<or> sint x = - (2 ^ 63) \<and> sint y = - 1")
  case True
  then show ?thesis using div_overflow_iff [of x y] by (auto simp: bc_exec_int_def)
next
  case False
  let ?q = "sint x sdiv sint y" and ?r = "sint x smod sint y"
  have q: "sint (word_of_int ?q :: i64) = ?q"
    using sdiv_i64_range [of y x] False by (intro sint_of_i64) auto
  have ab: "\<bar>?r\<bar> < \<bar>sint y\<bar>" using smod_i64_range [of y x] False by simp
  then have r: "sint (word_of_int ?r :: i64) = ?r"
    using i64_range [of y] by (intro sint_of_i64) linarith+
  have "sint x = ?q * sint y + ?r" by (simp add: mult_sdiv_smod_eq sdiv_mult_smod_eq)
  moreover have "0 \<le> ?r * sint x"
    using False by (simp add: smod_int_alt_def sgn_if zero_le_mult_iff i64_eq_iff [of y])
  ultimately show ?thesis using False div_overflow_iff [of x y] q r ab
    by (auto simp: bc_exec_int_def)
qed

text \<open>
  Shifts count modulo 64: \<^verbatim>\<open>Shl\<close> multiplies by the power of two and wraps, \<^verbatim>\<open>Shr\<close> divides
  the signed value rounding down, \<^verbatim>\<open>ShrU\<close> divides the unsigned one.
\<close>

theorem bc_shift_semantics:
  "\<exists>l s u. bc_exec_int BcOp_Shl x y = Inr l \<and> bc_exec_int BcOp_Shr x y = Inr s
     \<and> bc_exec_int BcOp_ShrU x y = Inr u
     \<and> uint l = (uint x * 2 ^ (unat y mod 64)) mod 2 ^ 64
     \<and> sint s = sint x div 2 ^ (unat y mod 64)
     \<and> uint u = uint x div 2 ^ (unat y mod 64)"
proof -
  have "y AND 63 = take_bit 6 y" by (simp add: take_bit_eq_mask mask_eq_exp_minus_1)
  then have k: "unat (y AND 63) = unat y mod 64"
    by (simp only: unsigned_take_bit_eq) (simp add: take_bit_eq_mod)
  have "uint (push_bit n x) = (uint x * 2 ^ n) mod 2 ^ 64" for n
    by (simp only: unsigned_push_bit_eq) (simp add: push_bit_eq_mult take_bit_eq_mod)
  moreover have "sint (signed_drop_bit n x) = sint x div 2 ^ n" for n
    by (simp add: sint_signed_drop_bit_eq drop_bit_eq_div)
  moreover have "uint (drop_bit n x) = uint x div 2 ^ n" for n
    using unsigned_less [of x, where 'a = int]
    by (simp only: unsigned_drop_bit_eq) (simp add: drop_bit_eq_div take_bit_int_eq_self)
  ultimately show ?thesis using k by (simp add: bc_exec_int_def)
qed

definition narrow_operand :: "bool \<Rightarrow> nat \<Rightarrow> u32" where
  "narrow_operand sg w = of_nat w OR (if sg then BC_NARROW_SIGNED else 0)"

lemma narrow_operand_fields:
  assumes "w < 64"
  shows "unat (narrow_operand sg w AND BC_NARROW_WIDTH_MASK) = w"
    and "narrow_operand sg w AND BC_NARROW_SIGNED \<noteq> 0 \<longleftrightarrow> sg"
proof -
  have hi: "\<not> bit (of_nat w :: u32) i" if "8 \<le> i" for i
  proof
    assume "bit (of_nat w :: u32) i"
    then have "bit w i" by (simp add: bit_simps)
    moreover have "take_bit 8 w = w" using assms by (simp add: take_bit_nat_eq_self)
    ultimately show False using that bit_take_bit_iff [of 8 w i] by simp
  qed
  have m: "BC_NARROW_WIDTH_MASK = mask 8" "BC_NARROW_SIGNED = push_bit 8 1"
    by (simp_all add: BC_NARROW_WIDTH_MASK_def BC_NARROW_SIGNED_def mask_eq_exp_minus_1)
  have "narrow_operand sg w AND mask 8 = of_nat w"
    using hi
    by (intro bit_eqI) (auto simp: narrow_operand_def m bit_simps leI simp del: push_bit_of_1,
        (meson not_le)+)
  moreover have "unat (of_nat w :: u32) = w"
    using assms by (simp add: unsigned_of_nat take_bit_nat_eq_self)
  ultimately show "unat (narrow_operand sg w AND BC_NARROW_WIDTH_MASK) = w" by (simp add: m)
  have "narrow_operand sg w AND BC_NARROW_SIGNED = (if sg then BC_NARROW_SIGNED else 0)"
    using hi [of 8] by (intro bit_eqI) (auto simp: narrow_operand_def m bit_simps simp del: push_bit_of_1)
  then show "narrow_operand sg w AND BC_NARROW_SIGNED \<noteq> 0 \<longleftrightarrow> sg"
    by (simp add: BC_NARROW_SIGNED_def)
qed

lemma narrow_mask: "push_bit w 1 - 1 = (mask w :: i64)"
  by (simp add: mask_eq_exp_minus_1 push_bit_eq_mult)

lemma sign_fill:
  assumes "0 < w" "w < 64"
  shows "(let v = x AND mask w in if v AND push_bit (w - 1) 1 \<noteq> 0 then v OR NOT (mask w) else v)
    = signed_take_bit (w - 1) (x :: i64)"
proof -
  have "(x AND mask w) AND push_bit (w - 1) 1 \<noteq> 0 \<longleftrightarrow> bit x (w - 1)"
  proof -
    have "(x AND mask w) AND push_bit (w - 1) 1 = (if bit x (w - 1) then push_bit (w - 1) 1 else 0)"
      using assms by (intro bit_eqI) (auto simp: bit_simps)
    moreover have "push_bit (w - 1) (1 :: i64) \<noteq> 0" using assms by simp
    ultimately show ?thesis by auto
  qed
  moreover have "bit (signed_take_bit (w - 1) x) i \<longleftrightarrow> bit (if bit x (w - 1) then (x AND mask w) OR NOT (mask w)
      else x AND mask w) i" if "i < 64" for i
    using assms that by (cases "i < w - 1"; cases "i = w - 1") (auto simp: bit_simps min_def)
  ultimately show ?thesis by (auto simp: Let_def intro!: bit_word_eqI)
qed

text \<open>
  \<^verbatim>\<open>Narrow\<close> to 1..63 bits puts a register into canonical form: the unsigned form holds the
  value modulo \<^verbatim>\<open>2^w\<close>, the signed form the representative of the same residue between
  \<^verbatim>\<open>-2^(w-1)\<close> and \<^verbatim>\<open>2^(w-1) - 1\<close>, and narrowing again changes nothing.
\<close>

theorem bc_narrow_canonical:
  assumes "0 < w" "w < 64"
  shows "\<exists>n. bc_narrow (narrow_operand sg w) x = Some n
     \<and> bc_narrow (narrow_operand sg w) n = Some n
     \<and> (if sg then sint n = (sint x + 2 ^ (w - 1)) mod 2 ^ w - 2 ^ (w - 1)
        else uint n = uint x mod 2 ^ w)"
proof -
  have n: "bc_narrow (narrow_operand sg w) x =
      Some (if sg then signed_take_bit (w - 1) x else take_bit w x)" for x
    using sign_fill [OF assms, of x] assms(2)
    by (simp add: bc_narrow_def narrow_operand_fields [OF assms(2), of sg] narrow_mask take_bit_eq_mask
        Let_def del: push_bit_of_1) (use assms in simp)
  have s: "sint (signed_take_bit (w - 1) x) = signed_take_bit (w - 1) (sint x)"
    using assms by (intro bit_eqI) (auto simp: bit_simps min_def)
  have "Suc (w - 1) = w" using assms by simp
  then have "signed_take_bit (w - 1) (sint x) = (sint x + 2 ^ (w - 1)) mod 2 ^ w - 2 ^ (w - 1)"
    using signed_take_bit_eq_take_bit_shift [of "w - 1" "sint x"] by (simp add: take_bit_eq_mod)
  then show ?thesis
    using n s by (simp add: signed_take_bit_signed_take_bit unsigned_take_bit_eq take_bit_eq_mod [of w "uint x"])
qed

lemma bc_narrow_canonical_witness:
  "\<exists>n. bc_narrow (narrow_operand True 8) 200 = Some n \<and> sint n = -56"
  using bc_narrow_canonical [of 8 True 200] by (auto simp: sint_of_i64)
section \<open>Operands inside the window\<close>

text \<open>What the verifier does not check but the compiler guarantees: register operands lie inside the
  running chunk's window, and an argument block does too.  Stated for the instructions whose only
  accesses are to registers, constants and code.\<close>

definition operands_in_window :: "bc_chunk list \<Rightarrow> bc_chunk \<Rightarrow> bc_instr \<Rightarrow> bool" where
  "operands_in_window chunks chunk ins =
     (let reg = (\<lambda>i. i < ch_num_registers chunk)
      in case bc_decode ins of
        Some (OpInt i) \<Rightarrow> reg (in_a ins) \<and> reg (in_b ins) \<and> reg (in_c ins)
      | Some (OpCmp i) \<Rightarrow> reg (in_a ins) \<and> reg (in_b ins) \<and> reg (in_c ins)
      | Some (OpData BcOp_LoadConst) \<Rightarrow> reg (in_a ins)
      | Some (OpData BcOp_Move) \<Rightarrow> reg (in_a ins) \<and> reg (in_b ins)
      | Some (OpCtl BcOp_JumpIfFalse) \<Rightarrow> reg (in_a ins)
      | Some (OpCtl BcOp_Return) \<Rightarrow> reg (in_a ins)
      | Some (OpCtl BcOp_Call) \<Rightarrow> reg (in_a ins) \<and>
          unat (in_c ins) + unat (ch_param_count (chunks ! unat (in_b ins))) \<le> unat (ch_num_registers chunk)
      | _ \<Rightarrow> True)"

definition register_only :: "bc_op \<Rightarrow> bool" where
  "register_only op =
     (case op of
        OpInt i \<Rightarrow> True | OpCmp i \<Rightarrow> True
      | OpData d \<Rightarrow> d \<in> {BcOp_LoadConst, BcOp_Move}
      | OpCtl c \<Rightarrow> c \<notin> {BcOp_CallHost, BcOp_CallModule}
      | _ \<Rightarrow> False)"

definition dst_inv :: "bc_vm \<Rightarrow> bool" where
  "dst_inv vm \<longleftrightarrow> list_all (\<lambda>f. unat (fr_dst_reg f) < BC_MAX_TOTAL_REGISTERS) (vm_frames vm)"

lemma in_window:
  assumes "vm_inv vm" "i < ch_num_registers (vm_chunk vm)"
  shows "reg_index vm i < BC_MAX_TOTAL_REGISTERS"
  using assms unfolding vm_inv_def reg_index_def word_less_nat_alt by linarith

lemma rd_window: "vm_inv vm \<Longrightarrow> i < ch_num_registers (vm_chunk vm) \<Longrightarrow>
    rd vm i = Some (vm_regs vm (reg_index vm i))"
  and wr_window: "vm_inv vm \<Longrightarrow> i < ch_num_registers (vm_chunk vm) \<Longrightarrow>
    wr vm i v = Some (vm\<lparr>vm_regs := (vm_regs vm)(reg_index vm i := v)\<rparr>)"
  using in_window by (simp_all add: rd_def wr_def)

lemma copy_args_total:
  "src + i + n \<le> BC_MAX_TOTAL_REGISTERS \<Longrightarrow> dst + i + n \<le> BC_MAX_TOTAL_REGISTERS \<Longrightarrow>
   \<exists>r. copy_args regs src dst i n = Some r"
  by (induction n arbitrary: i regs) simp_all

lemma reachable_dst:
  assumes win: "\<forall>c \<in> set (pr_chunks prog). \<forall>ins \<in> set (ch_code c). operands_in_window (pr_chunks prog) c ins"
    and ok: "bcio_verify_loaded_code (pr_chunks prog)"
    and "bc_reachable run ev pid prog vm"
  shows "dst_inv vm"
  using assms(3)
proof induction
  case (entry fn args junk mc vm)
  then show ?case by (auto simp: bc_entry_def dst_inv_def Let_def BC_MAX_TOTAL_REGISTERS_def split: if_splits)
next
  case (step vm vm')
  have inv: "code_inv prog vm" "vm_inv vm" using code_inv_reachable [OF ok step.hyps(1)] by auto
  from step.hyps(2) show ?case
  proof (cases rule: bc_step_cases)
    case (Fall op vm1)
    then show ?thesis using step.IH by (simp add: dst_inv_def same_frame_def)
  next
    case (Ctl c)
    let ?ins = "ch_code (vm_chunk vm) ! unat (vm_pc vm)"
    have "operands_in_window (pr_chunks prog) (vm_chunk vm) ?ins"
      using win inv(1) by (auto simp: code_inv_def)
    then have a: "c = BcOp_Call \<Longrightarrow> in_a ?ins < ch_num_registers (vm_chunk vm)"
      using Ctl(2) by (simp add: operands_in_window_def)
    have dst: "unat (vm_reg_base vm + in_a ?ins) < BC_MAX_TOTAL_REGISTERS" if "c = BcOp_Call"
      using in_window [OF inv(2) a [OF that]]
      by (simp add: reg_index_def BC_MAX_TOTAL_REGISTERS_def unat_word_ariths)
    obtain f fs where fs: "vm_frames vm = f # fs" using inv by (cases "vm_frames vm") (auto simp: vm_inv_def)
    show ?thesis
    proof (cases c)
      case BcOp_Call
      then show ?thesis using Ctl(3) step.IH dst fs
        by (auto simp: bc_exec_ctl_def bc_call_def dst_inv_def Let_def split: if_splits option.splits)
    qed (use Ctl(3) step.IH fs in
      \<open>auto simp: bc_exec_ctl_def bc_call_host_def bc_call_module_def bc_return_def dst_inv_def same_frame_def
        Let_def dest!: same_frame_rules
        split: if_splits option.splits bind_splits list.splits bc_end.splits bc_result.splits\<close>)
  qed
qed

lemma call_defined:
  assumes ok: "bcio_verify_loaded_code (pr_chunks prog)" and vinv: "vm_inv vm"
    and b: "unat (in_b ins) < length (pr_chunks prog)"
    and cw: "unat (in_c ins) + unat (ch_param_count (pr_chunks prog ! unat (in_b ins)))
      \<le> unat (ch_num_registers (vm_chunk vm))"
  shows "bc_call prog ins vm \<noteq> Ended Undefined"
proof -
  let ?callee = "pr_chunks prog ! unat (in_b ins)"
  have pn: "unat (ch_param_count ?callee) \<le> unat (ch_num_registers ?callee)"
    using verify_chunkD(2) [OF verified_chunk [OF ok nth_mem [OF b]]] by (simp add: word_le_nat_alt)
  have src: "reg_index vm (in_c ins) + 0 + unat (ch_param_count ?callee) \<le> BC_MAX_TOTAL_REGISTERS"
    using cw vinv unfolding vm_inv_def reg_index_def by linarith
  have "copy_args rs (reg_index vm (in_c ins)) (unat (vm_next_free_reg vm)) 0
      (unat (ch_param_count ?callee)) = None \<Longrightarrow>
      unat (vm_next_free_reg vm) + unat (ch_num_registers ?callee) \<le> BC_MAX_TOTAL_REGISTERS \<Longrightarrow> False" for rs
    using copy_args_total [OF src, of "unat (vm_next_free_reg vm)" rs] pn by fastforce
  then show ?thesis using b by (auto simp: bc_call_def Let_def split: option.splits)
qed

lemma return_defined:
  assumes "vm_inv vm" "dst_inv vm" "has_value \<Longrightarrow> in_a ins < ch_num_registers (vm_chunk vm)"
  shows "bc_return has_value ins vm \<noteq> Ended Undefined"
  using assms rd_window [OF assms(1)]
  by (cases "vm_frames vm") (auto simp: bc_return_def dst_inv_def vm_inv_def split: option.splits list.splits)

text \<open>An integer or comparison instruction reads two registers of the window and writes a third.\<close>

lemma operator_defined:
  assumes "vm_inv vm" "operands_in_window chunks (vm_chunk vm) ins" "bc_decode ins = Some op"
    and "(\<exists>i. op = OpInt i) \<or> (\<exists>i. op = OpCmp i)"
  shows "bc_exec ev pid op ins vm \<noteq> None"
proof -
  have "in_a ins < ch_num_registers (vm_chunk vm)" "in_b ins < ch_num_registers (vm_chunk vm)"
    "in_c ins < ch_num_registers (vm_chunk vm)" using assms by (auto simp: operands_in_window_def)
  then show ?thesis using assms(4) rd_window [OF assms(1)] wr_window [OF assms(1)]
    by (auto simp: bc_exec_def Let_def split: sum.splits)
qed

lemma windowed_step_defined:
  assumes ok: "bcio_verify_loaded_code (pr_chunks prog)"
    and win: "\<forall>c \<in> set (pr_chunks prog). \<forall>ins \<in> set (ch_code c). operands_in_window (pr_chunks prog) c ins"
    and inv: "code_inv prog vm" and vinv: "vm_inv vm" and dst: "dst_inv vm"
    and op: "bc_decode (ch_code (vm_chunk vm) ! unat (vm_pc vm)) = Some op" "register_only op"
  shows "bc_step run ev pid prog vm \<noteq> Ended Undefined"
proof -
  let ?ins = "ch_code (vm_chunk vm) ! unat (vm_pc vm)"
  have pc: "unat (vm_pc vm) < length (ch_code (vm_chunk vm))" and mem: "vm_chunk vm \<in> set (pr_chunks prog)"
    using inv by (auto simp: code_inv_def)
  have w: "operands_in_window (pr_chunks prog) (vm_chunk vm) ?ins" using win pc mem by simp
  have v: "bcio_verify_instr (length (pr_chunks prog)) (vm_chunk vm) ?ins"
    using verify_chunkD(3) [OF verified_chunk [OF ok mem] pc] .
  note rw = rd_window [OF vinv] wr_window [OF vinv]
  show ?thesis
  proof (cases op)
    case (OpInt i)
    then show ?thesis using operator_defined [OF vinv w op(1), of ev pid] pc op
      by (auto simp: bc_step_def Let_def split: sum.splits option.splits)
  next
    case (OpCmp i)
    then show ?thesis using operator_defined [OF vinv w op(1), of ev pid] pc op
      by (auto simp: bc_step_def Let_def split: sum.splits option.splits)
  next
    case (OpData d)
    then show ?thesis using pc op w v
      by (auto simp: bc_step_def Let_def bc_exec_def bc_exec_data_def register_only_def
          operands_in_window_def bcio_verify_instr_def rw split: sum.splits)
  next
    case (OpCtl c)
    have "c = BcOp_Call \<Longrightarrow> bc_call prog ?ins vm \<noteq> Ended Undefined"
      using call_defined [OF ok vinv] v w op OpCtl by (simp add: bcio_verify_instr_def operands_in_window_def)
    moreover have "bc_return h ?ins vm \<noteq> Ended Undefined" if "h \<longrightarrow> c = BcOp_Return" for h
      using return_defined [OF vinv dst] that op OpCtl w by (auto simp: operands_in_window_def)
    moreover have "c = BcOp_JumpIfFalse \<Longrightarrow> rd vm (in_a ?ins) \<noteq> None"
      using op OpCtl w by (auto simp: operands_in_window_def rw)
    ultimately show ?thesis using pc op OpCtl
      by (cases c) (auto simp: bc_step_def Let_def bc_exec_ctl_def register_only_def split: option.splits)
  qed (use op in \<open>simp_all add: register_only_def\<close>)
qed

text \<open>
  In a verified program whose register operands lie inside their chunk's window, no integer,
  comparison, constant, move, jump, call or return instruction reached by a run is undefined: each
  steps on, returns, traps, or fails one of the two checked capacity assertions.
\<close>

lemma windowed_reachable_defined:
  assumes ok: "bcio_verify_loaded_code (pr_chunks prog)"
    and win: "\<forall>c \<in> set (pr_chunks prog). \<forall>ins \<in> set (ch_code c). operands_in_window (pr_chunks prog) c ins"
    and re: "bc_reachable run ev pid prog vm"
    and op: "bc_decode (ch_code (vm_chunk vm) ! unat (vm_pc vm)) = Some op" "register_only op"
  shows "bc_step run ev pid prog vm \<noteq> Ended Undefined"
  using windowed_step_defined [OF ok win _ _ reachable_dst [OF win ok re] op] code_inv_reachable [OF ok re] by blast

section \<open>A program run to its result\<close>

text \<open>\<open>(fn sum [n] (if n (+ n (sum (- n 1))) n))\<close> assembled by hand, with its empty
  \<^verbatim>\<open>#init_globals\<close>, on a platform whose floating point is never used.\<close>

definition demo_platform :: platform where
  "demo_platform = \<lparr>pf_page_size = 4096, pf_arena_vm_ops = 0x5000, pf_ctx_scratch = 0,
     pf_calloc = (\<lambda>_. 0x6000), pf_mmap = (\<lambda>_ _. None), pf_malloc = (\<lambda>_ _. (0, \<lambda>_. 0)),
     pf_f64_arith = (\<lambda>_ x _. x), pf_f32_arith = (\<lambda>_ x _. x), pf_i64_to_f64 = id,
     pf_i64_to_f32 = ucast, pf_f64_to_i64 = Some, pf_f32_to_i64 = (\<lambda>x. Some (ucast x)),
     pf_f32_to_f64 = ucast, pf_f64_to_f32 = ucast, pf_libm = (\<lambda>_ x _. x),
     pf_strtod = (\<lambda>_. (0, 0)), pf_strtof = (\<lambda>_. (0, 0)), pf_format_g = (\<lambda>_. []),
     pf_memcmp = bytes_compare\<rparr>"

definition chunk_init_globals :: bc_chunk where
  "chunk_init_globals = \<lparr>ch_code = [\<lparr>in_kind = 45, in_a = 0, in_b = 0, in_c = 0\<rparr>], ch_consts = [],
     ch_num_registers = 0, ch_param_count = 0, ch_name = ''#init_globals'',
     ch_string_fixups = [], ch_layout_fixups = []\<rparr>"

definition chunk_sum :: bc_chunk where
  "chunk_sum = \<lparr>ch_code =
       [\<lparr>in_kind = 40, in_a = 0, in_b = 6, in_c = 0\<rparr>,
        \<lparr>in_kind = 0, in_a = 1, in_b = 0, in_c = 0\<rparr>,
        \<lparr>in_kind = 3, in_a = 2, in_b = 0, in_c = 1\<rparr>,
        \<lparr>in_kind = 41, in_a = 3, in_b = 1, in_c = 2\<rparr>,
        \<lparr>in_kind = 2, in_a = 4, in_b = 0, in_c = 3\<rparr>,
        \<lparr>in_kind = 44, in_a = 4, in_b = 0, in_c = 0\<rparr>,
        \<lparr>in_kind = 44, in_a = 0, in_b = 0, in_c = 0\<rparr>],
     ch_consts = [1], ch_num_registers = 5, ch_param_count = 1, ch_name = ''sum'',
     ch_string_fixups = [], ch_layout_fixups = []\<rparr>"

definition sum_program :: bc_program where
  "sum_program = \<lparr>pr_chunks = [chunk_init_globals, chunk_sum], pr_global_count = 0, pr_module_table = None\<rparr>"

definition demo_env :: bc_env where
  "demo_env = \<lparr>ev_pf = demo_platform, ev_progs = [sum_program], ev_heap = 0, ev_host_imports = [],
     ev_host = (\<lambda>_ _ _. None)\<rparr>"

definition demo_machine :: machine where
  "demo_machine = \<lparr>mc_mem = demo_memory, mc_arenas = (\<lambda>_. None), mc_blocks = (\<lambda>_. None), mc_globals = (\<lambda>_. []),
     mc_out = []\<rparr>"

lemmas demo_defs = demo_platform_def chunk_init_globals_def chunk_sum_def sum_program_def demo_env_def
  demo_machine_def

lemma demo_opcodes:
  "bc_op_of 0 = Some (OpData BcOp_LoadConst)" "bc_op_of 2 = Some (OpInt BcOp_Add)"
  "bc_op_of 3 = Some (OpInt BcOp_Sub)" "bc_op_of 40 = Some (OpCtl BcOp_JumpIfFalse)"
  "bc_op_of 41 = Some (OpCtl BcOp_Call)" "bc_op_of 44 = Some (OpCtl BcOp_Return)"
  "bc_op_of 45 = Some (OpCtl BcOp_ReturnVoid)"
  by (simp_all add: bc_op_of_def BcOp_Count_eq bc_op_table_def)

lemma sum_verified: "bcio_verify_loaded_code (pr_chunks sum_program)"
  by (simp add: sum_program_def chunk_init_globals_def chunk_sum_def bcio_verify_loaded_code_def
      bcio_verify_chunk_def bcio_verify_instr_def ends_chunk_def bc_decode_def demo_opcodes
      BC_MAX_TOTAL_REGISTERS_def str8_match_def)

lemma bc_loop_numeral:
  "bc_loop (numeral k) junk ev pid prog vm =
     bc_start (bc_loop (pred_numeral k) junk ev pid prog)
       (bc_step
          (\<lambda>p fn args mc. bc_start (bc_loop (pred_numeral k) junk ev p (ev_progs ev ! p))
             (bc_entry (ev_progs ev ! p) fn args junk mc))
          ev pid prog vm)"
  by (subst numeral_eq_Suc) (rule bc_loop.simps(2))

lemma copy_args_numeral:
  "copy_args regs src dst i (Suc 0) =
     (if src + i < BC_MAX_TOTAL_REGISTERS \<and> dst + i < BC_MAX_TOTAL_REGISTERS
      then Some (regs(dst + i := regs (src + i))) else None)"
  by simp

lemmas demo_run = bc_loop_numeral bc_step_def bc_exec_ctl_def bc_exec_def bc_exec_data_def bc_exec_int_def
  bc_call_def bc_return_def bc_decode_def demo_opcodes rd_def wr_def reg_index_def
  BC_MAX_TOTAL_REGISTERS_def BC_MAX_CALL_DEPTH_def zero_window_def put_args_def bc_entry_def
  bc_run_in_program_def Let_def

lemma sum_of_3: "bc_run_in_program 23 junk demo_env 0 1 [3] mc = Finished (Returned True 6 mc)"
  by (simp add: demo_run demo_env_def sum_program_def chunk_sum_def)

definition wild_program :: bc_program where
  "wild_program = \<lparr>pr_chunks =
       [\<lparr>ch_code = [\<lparr>in_kind = 0, in_a = 70000, in_b = 0, in_c = 0\<rparr>,
                    \<lparr>in_kind = 45, in_a = 0, in_b = 0, in_c = 0\<rparr>],
         ch_consts = [1], ch_num_registers = 0, ch_param_count = 0, ch_name = ''#init_globals'',
         ch_string_fixups = [], ch_layout_fixups = []\<rparr>],
     pr_global_count = 0, pr_module_table = None\<rparr>"

text \<open>
  The window condition is needed: the check does not look at register operands, so a
  cache file whose \<^verbatim>\<open>#init_globals\<close> loads a constant into register 70000 passes it, and running
  that chunk writes outside the register file.
\<close>

theorem verified_program_can_be_undefined:
  "bcio_verify_loaded_code (pr_chunks wild_program)
   \<and> bc_run_in_program 1 junk (demo_env\<lparr>ev_progs := [wild_program]\<rparr>) 0 0 [] mc = Undefined"
  by (simp add: demo_run demo_env_def wild_program_def bcio_verify_loaded_code_def
      bcio_verify_chunk_def bcio_verify_instr_def ends_chunk_def str8_match_def)

lemma bc_run_fuel_irrelevant_witness:
  "bc_run_in_program 1000 (\<lambda>_. 0) demo_env 0 1 [3] demo_machine = Finished (Returned True 6 demo_machine)"
  by (rule bc_run_fuel_irrelevant [OF _ sum_of_3]) simp_all

text \<open>A state inside the recursion: the first call of \<^verbatim>\<open>sum 3\<close> is about to run.\<close>

definition sum_entry :: bc_vm where
  "sum_entry = \<lparr>vm_regs = (\<lambda>_. 0)(0 := 3),
     vm_frames = [\<lparr>fr_chunk = chunk_sum, fr_reg_base = 0, fr_pc = 0, fr_dst_reg = 0\<rparr>],
     vm_next_free_reg = 5, vm_chunk = chunk_sum, vm_reg_base = 0, vm_pc = 0, vm_mc = demo_machine\<rparr>"

definition no_modules :: module_runner where
  "no_modules p fn args mc = Undefined"

lemma sum_entry_reachable: "bc_reachable no_modules demo_env 0 sum_program sum_entry"
proof (rule bc_reachable.entry [of _ 1 "[3]" "\<lambda>_. 0" demo_machine])
  show "bc_entry sum_program 1 [3] (\<lambda>_. 0) demo_machine = Running sum_entry"
    by (auto simp: bc_entry_def sum_program_def sum_entry_def chunk_sum_def put_args_def zero_window_def
        BC_MAX_TOTAL_REGISTERS_def Let_def fun_eq_iff)
qed

lemma verified_program_stays_in_code_witness:
  "bc_decode (hd (ch_code chunk_sum)) = Some (OpCtl BcOp_JumpIfFalse) \<and> 6 < length (ch_code chunk_sum)"
  using verified_program_stays_in_code [OF sum_verified sum_entry_reachable refl]
  by (simp add: sum_entry_def chunk_sum_def bc_decode_def demo_opcodes)

lemma frame_stack_invariant_witness:
  "windows_ok (vm_frames sum_entry) \<and> unat (vm_next_free_reg sum_entry) = 5"
  using frame_stack_invariant [OF sum_entry_reachable] by (simp add: sum_entry_def chunk_sum_def)

end
