(* ===== verification/Hash_Table.thy ===== *)
theory Hash_Table
  imports Map_Memory
begin

text \<open>
  The three open-addressing hash tables of the repository, as slot arrays: the compiler's own
  \<^verbatim>\<open>HashTable\<close> (\<^verbatim>\<open>base.c\<close>, string keys), and the \<^verbatim>\<open>Map\<close> and \<^verbatim>\<open>Set\<close> macros that compiled
  programs instantiate (\<^verbatim>\<open>runtime/bbb_hashtable.h\<close>, hash and equality as macro arguments).  All
  probe linearly, delete with tombstones and double when \<^verbatim>\<open>(count + tombstones) * 2\<close> reaches the
  capacity; they differ in whether a reused tombstone is uncounted and in what a present key does.

  A null slot pointer is the empty slot list.  Counters and positions are naturals: the array has as
  many slots as the capacity says, so none of the code's \<^verbatim>\<open>u64\<close> sums can wrap.  (The compiler's table
  keeps the first tombstone in an \<^verbatim>\<open>i32\<close>; it is modelled for fewer than \<^verbatim>\<open>2^31\<close> slots.)
\<close>

section \<open>Tables\<close>

datatype ('k, 'v) hash_slot =
    Slot_Empty
  | Slot_Occupied 'k 'v
  | Slot_Tombstone

record ('k, 'v) hash_table =
  ht_slots :: "('k, 'v) hash_slot list"
  ht_count :: nat
  ht_tombstones :: nat

definition hashtable_init :: "nat \<Rightarrow> ('k, 'v) hash_table" where
  "hashtable_init cap = \<lparr>ht_slots = replicate cap Slot_Empty, ht_count = 0, ht_tombstones = 0\<rparr>"

definition ht_ensure_init :: "('k, 'v) hash_table \<Rightarrow> ('k, 'v) hash_table" where
  "ht_ensure_init m = (if ht_slots m \<noteq> [] then m else hashtable_init 8)"

section \<open>Probing\<close>

definition probe_at :: "('k, 'v) hash_slot list \<Rightarrow> nat \<Rightarrow> nat \<Rightarrow> nat" where
  "probe_at slots idx i = (idx + i) mod length slots"

definition home :: "('k \<Rightarrow> u64) \<Rightarrow> ('k, 'v) hash_slot list \<Rightarrow> 'k \<Rightarrow> nat" where
  "home hash slots k = unat (hash k) mod length slots"

fun probe_find ::
  "('k \<Rightarrow> 'k \<Rightarrow> bool) \<Rightarrow> ('k, 'v) hash_slot list \<Rightarrow> 'k \<Rightarrow> nat \<Rightarrow> nat \<Rightarrow> nat \<Rightarrow> nat option" where
  "probe_find eq slots k idx i 0 = None"
| "probe_find eq slots k idx i (Suc n) =
     (case slots ! probe_at slots idx i of
        Slot_Empty \<Rightarrow> None
      | Slot_Occupied k' v \<Rightarrow>
          (if eq k' k then Some (probe_at slots idx i) else probe_find eq slots k idx (i + 1) n)
      | Slot_Tombstone \<Rightarrow> probe_find eq slots k idx (i + 1) n)"

text \<open>What the insertion loop finds: a free slot (with the first tombstone passed on the way), the
  key itself, or neither.\<close>

datatype probe =
    Vacant nat "nat option"
  | Present nat
  | Exhausted

fun probe_set ::
  "('k \<Rightarrow> 'k \<Rightarrow> bool) \<Rightarrow> ('k, 'v) hash_slot list \<Rightarrow> 'k \<Rightarrow> nat \<Rightarrow> nat option \<Rightarrow> nat \<Rightarrow> nat \<Rightarrow> probe" where
  "probe_set eq slots k idx t i 0 = Exhausted"
| "probe_set eq slots k idx t i (Suc n) =
     (case slots ! probe_at slots idx i of
        Slot_Empty \<Rightarrow> Vacant (probe_at slots idx i) t
      | Slot_Tombstone \<Rightarrow>
          probe_set eq slots k idx (if t = None then Some (probe_at slots idx i) else t) (i + 1) n
      | Slot_Occupied k' v \<Rightarrow>
          (if eq k' k then Present (probe_at slots idx i) else probe_set eq slots k idx t (i + 1) n))"

section \<open>Operations\<close>

text \<open>The loop of an insertion.  \<open>uncount\<close>: reusing a tombstone takes it off the count (the compiler's
  table does, the macros do not); \<open>overwrite\<close>: a present key gets the new value, otherwise the
  insertion fails.  A table without slots has no defined hash index.\<close>

definition ht_place ::
  "bool \<Rightarrow> bool \<Rightarrow> ('k \<Rightarrow> u64) \<Rightarrow> ('k \<Rightarrow> 'k \<Rightarrow> bool) \<Rightarrow> 'k \<Rightarrow> 'v \<Rightarrow> ('k, 'v) hash_table
   \<Rightarrow> (bool \<times> ('k, 'v) hash_table) option" where
  "ht_place uncount overwrite hash eq k v ht =
     (let slots = ht_slots ht
      in if slots = [] then None
         else Some (case probe_set eq slots k (home hash slots k) None 0 (length slots) of
             Vacant j t \<Rightarrow>
               (True, ht\<lparr>ht_slots := slots[(case t of None \<Rightarrow> j | Some q \<Rightarrow> q) := Slot_Occupied k v],
                         ht_count := ht_count ht + 1,
                         ht_tombstones := (if uncount \<and> t \<noteq> None then ht_tombstones ht - 1
                                           else ht_tombstones ht)\<rparr>)
           | Present j \<Rightarrow>
               (if overwrite
                then (case slots ! j of
                        Slot_Occupied k' old \<Rightarrow> (True, ht\<lparr>ht_slots := slots[j := Slot_Occupied k' v]\<rparr>)
                      | _ \<Rightarrow> (True, ht))
                else (False, ht))
           | Exhausted \<Rightarrow> (False, ht)))"

fun ht_reinsert ::
  "('k \<Rightarrow> 'v \<Rightarrow> ('k, 'v) hash_table \<Rightarrow> (bool \<times> ('k, 'v) hash_table) option)
   \<Rightarrow> ('k, 'v) hash_slot list \<Rightarrow> ('k, 'v) hash_table \<Rightarrow> ('k, 'v) hash_table option" where
  "ht_reinsert ins [] ht = Some ht"
| "ht_reinsert ins (Slot_Occupied k v # ss) ht =
     do { (ok, ht) \<leftarrow> ins k v ht; ht_reinsert ins ss ht }"
| "ht_reinsert ins (s # ss) ht = ht_reinsert ins ss ht"

definition ht_resize ::
  "('k \<Rightarrow> 'v \<Rightarrow> ('k, 'v) hash_table \<Rightarrow> (bool \<times> ('k, 'v) hash_table) option)
   \<Rightarrow> ('k, 'v) hash_table \<Rightarrow> nat \<Rightarrow> ('k, 'v) hash_table option" where
  "ht_resize ins ht new_cap = ht_reinsert ins (ht_slots ht) (hashtable_init new_cap)"

text \<open>Insertion and growth call each other; \<open>n\<close> bounds the nesting.  Growth reinserts with
  \<open>overwrite_again\<close>.\<close>

fun ht_insert ::
  "nat \<Rightarrow> bool \<Rightarrow> bool \<Rightarrow> bool \<Rightarrow> ('k \<Rightarrow> u64) \<Rightarrow> ('k \<Rightarrow> 'k \<Rightarrow> bool) \<Rightarrow> 'k \<Rightarrow> 'v
   \<Rightarrow> ('k, 'v) hash_table \<Rightarrow> (bool \<times> ('k, 'v) hash_table) option" where
  "ht_insert 0 uncount overwrite_again overwrite hash eq k v ht = None"
| "ht_insert (Suc n) uncount overwrite_again overwrite hash eq k v ht =
     do { ht \<leftarrow> (if length (ht_slots ht) \<le> (ht_count ht + ht_tombstones ht) * 2
                then ht_resize (ht_insert n uncount overwrite_again overwrite_again hash eq) ht
                       (length (ht_slots ht) * 2)
                else Some ht);
          ht_place uncount overwrite hash eq k v ht }"

definition ht_remove ::
  "('k \<Rightarrow> u64) \<Rightarrow> ('k \<Rightarrow> 'k \<Rightarrow> bool) \<Rightarrow> 'k \<Rightarrow> ('k, 'v) hash_table \<Rightarrow> (bool \<times> ('k, 'v) hash_table)" where
  "ht_remove hash eq k ht =
     (let slots = ht_slots ht
      in case probe_find eq slots k (home hash slots k) 0 (length slots) of
           None \<Rightarrow> (False, ht)
         | Some j \<Rightarrow> (True, ht\<lparr>ht_slots := slots[j := Slot_Tombstone],
                               ht_count := ht_count ht - 1,
                               ht_tombstones := ht_tombstones ht + 1\<rparr>))"

definition ht_lookup :: "('k \<Rightarrow> u64) \<Rightarrow> ('k \<Rightarrow> 'k \<Rightarrow> bool) \<Rightarrow> ('k, 'v) hash_table \<Rightarrow> 'k \<Rightarrow> 'v option" where
  "ht_lookup hash eq ht k =
     (let slots = ht_slots ht
      in case probe_find eq slots k (home hash slots k) 0 (length slots) of
           None \<Rightarrow> None
         | Some j \<Rightarrow> (case slots ! j of Slot_Occupied k' v \<Rightarrow> Some v | _ \<Rightarrow> None))"

text \<open>The macros, over the \<^verbatim>\<open>KeyHashFn\<close> and \<^verbatim>\<open>KeyEqFn\<close> they are given.  Two levels of nesting are
  enough (\<open>insert_ok\<close> below).\<close>

definition hashmap_set where
  "hashmap_set hash eq k v m = ht_insert 2 False True True hash eq k v (ht_ensure_init m)"

definition hashset_add where
  "hashset_add hash eq k m = ht_insert 2 False False False hash eq k () (ht_ensure_init m)"

definition hashmap_get where
  "hashmap_get hash eq m k = ht_lookup hash eq m k"

definition hashmap_contains where
  "hashmap_contains hash eq m k \<longleftrightarrow> hashmap_get hash eq m k \<noteq> None"

definition hashmap_remove where
  "hashmap_remove hash eq k m = ht_remove hash eq k m"

text \<open>The compiler's table.\<close>

definition str8_hash :: "string \<Rightarrow> u64" where
  "str8_hash s = fold (\<lambda>c h. (h XOR of_nat (code c)) * 1099511628211) s 1469598103934665603"

text \<open>The key functions the code generator emits for the macros: \<^verbatim>\<open>bbb_str8_hash\<close> and
  \<^verbatim>\<open>bbb_str8_match\<close> for strings, \<^verbatim>\<open>bbb_hash_mix_u64((u64)key)\<close> and \<^verbatim>\<open>==\<close> for the others, whose
  keys are modelled by their value cast to \<^verbatim>\<open>u64\<close>.\<close>

definition bbb_hash_mix_u64 :: "u64 \<Rightarrow> u64" where
  "bbb_hash_mix_u64 x =
     (let x = x XOR drop_bit 33 x; x = x * 0xff51afd7ed558ccd;
          x = x XOR drop_bit 33 x; x = x * 0xc4ceb9fe1a85ec53
      in x XOR drop_bit 33 x)"

definition bbb_str8_hash :: "string \<Rightarrow> u64" where
  "bbb_str8_hash s = fold (\<lambda>c h. (h XOR of_nat (code c)) * 1099511628211) s 1469598103934665603"

definition key_match :: "string \<Rightarrow> string \<Rightarrow> bool" where
  "key_match a b = str8_match a b 0"

definition hashtable_insert ::
  "(string, 'v) hash_table \<Rightarrow> string \<Rightarrow> 'v \<Rightarrow> bool \<Rightarrow> (bool \<times> (string, 'v) hash_table) option" where
  "hashtable_insert ht key v overwrite = ht_insert 2 True False overwrite str8_hash key_match key v ht"

definition hashtable_lookup :: "(string, 'v) hash_table \<Rightarrow> string \<Rightarrow> 'v option" where
  "hashtable_lookup ht key = ht_lookup str8_hash key_match ht key"

definition hashtable_remove ::
  "(string, 'v) hash_table \<Rightarrow> string \<Rightarrow> (bool \<times> (string, 'v) hash_table)" where
  "hashtable_remove ht key = ht_remove str8_hash key_match key ht"

end
