(* ===== verification/Hash_Table_Props.thy ===== *)
theory Hash_Table_Props
  imports Hash_Table
begin

text \<open>
  Correctness of the open-addressing tables.  The locale \<open>hash_key\<close> is what the code needs of a key's
  hash and equality; under it the probe loops find a key exactly when it is stored, insertion always
  finds room in at most two levels of nesting, and removal leaves every other key reachable.  The
  locale \<open>dictionary\<close> is what a client needs of a table; the tables of the code are interpretations.
\<close>

section \<open>Counting and probing\<close>

lemma filter_update:
  "i < length xs \<Longrightarrow>
   length (filter P (xs[i := y])) + of_bool (P (xs ! i)) = length (filter P xs) + of_bool (P y)"
proof (induction xs arbitrary: i)
  case (Cons x xs)
  then show ?case by (cases i) auto
qed simp

definition occupied :: "('k, 'v) hash_slot \<Rightarrow> bool" where
  "occupied s \<longleftrightarrow> (\<exists>k v. s = Slot_Occupied k v)"

definition n_occupied :: "('k, 'v) hash_slot list \<Rightarrow> nat" where
  "n_occupied slots = length (filter occupied slots)"

definition n_tombs :: "('k, 'v) hash_slot list \<Rightarrow> nat" where
  "n_tombs slots = length (filter (\<lambda>s. s = Slot_Tombstone) slots)"

lemma occupied_simps [simp]:
  "occupied (Slot_Occupied k v)" "\<not> occupied Slot_Empty" "\<not> occupied Slot_Tombstone"
  by (auto simp: occupied_def)

lemma n_occupied_Cons [simp]: "n_occupied (s # ss) = of_bool (occupied s) + n_occupied ss"
  by (simp add: n_occupied_def)

lemma n_occupied_Nil [simp]: "n_occupied [] = 0"
  by (simp add: n_occupied_def)

lemma slot_partition:
  "n_occupied slots + n_tombs slots + length (filter (\<lambda>s. s = Slot_Empty) slots) = length slots"
proof (induction slots)
  case (Cons s slots)
  then show ?case by (cases s) (auto simp: n_occupied_def n_tombs_def)
qed (simp add: n_occupied_def n_tombs_def)

lemma empty_slot_exists:
  assumes "n_occupied slots + n_tombs slots < length slots"
  obtains p where "p < length slots" "slots ! p = Slot_Empty"
proof -
  have "filter (\<lambda>s. s = Slot_Empty) slots \<noteq> []"
    using slot_partition [of slots] assms by (metis add.right_neutral length_greater_0_conv nat_less_le list.size(3))
  then have "Slot_Empty \<in> set slots" by (auto simp: filter_empty_conv)
  then show thesis using that by (metis in_set_conv_nth)
qed

text \<open>The probe sequence visits every slot once.\<close>

lemma probe_at_less [simp]: "slots \<noteq> [] \<Longrightarrow> probe_at slots h i < length slots"
  by (simp add: probe_at_def)

lemma probe_at_update [simp]: "probe_at (slots[p := s]) = probe_at slots"
  by (simp add: probe_at_def fun_eq_iff)

lemma home_update [simp]: "home hash (slots[p := s]) = home hash slots"
  by (simp add: home_def fun_eq_iff)

lemma mod_shift_inj:
  fixes i j n h :: nat
  assumes "i \<le> j" "j < n" "(h + i) mod n = (h + j) mod n"
  shows "i = j"
proof -
  have "n dvd (h + j) - (h + i)"
    using mod_eq_dvd_iff_nat [of "h + i" "h + j" n] assms by simp
  then show ?thesis using assms dvd_imp_le [of n "j - i"] by fastforce
qed

lemma probe_at_inj:
  assumes "i < length slots" "j < length slots" "probe_at slots h i = probe_at slots h j"
  shows "i = j"
  using assms mod_shift_inj [of i j "length slots" h] mod_shift_inj [of j i "length slots" h]
  unfolding probe_at_def by (cases "i \<le> j") simp_all

lemma probe_at_surj:
  assumes "p < length slots"
  obtains d where "d < length slots" "probe_at slots h d = p"
proof -
  let ?n = "length slots" and ?d = "(p + (length slots - h mod length slots)) mod length slots"
  have "h mod ?n < ?n" using assms by (intro mod_less_divisor) linarith
  have "probe_at slots h ?d = (h mod ?n + (p + (?n - h mod ?n))) mod ?n"
    by (simp add: probe_at_def mod_simps)
  also have "h mod ?n + (p + (?n - h mod ?n)) = p + ?n" using \<open>h mod ?n < ?n\<close> by simp
  finally have "probe_at slots h ?d = p" using assms by simp
  then show thesis using that [of ?d] assms by (metis gr_zeroI less_nat_zero_code mod_less_divisor)
qed

text \<open>Both loops run to the first slot that is empty or holds the key.\<close>

definition stops :: "('k \<Rightarrow> 'k \<Rightarrow> bool) \<Rightarrow> ('k, 'v) hash_slot list \<Rightarrow> 'k \<Rightarrow> nat \<Rightarrow> nat \<Rightarrow> bool" where
  "stops eq slots k idx i \<longleftrightarrow>
     (case slots ! probe_at slots idx i of
        Slot_Empty \<Rightarrow> True | Slot_Occupied k' v \<Rightarrow> eq k' k | Slot_Tombstone \<Rightarrow> False)"

definition first_stop ::
  "('k \<Rightarrow> 'k \<Rightarrow> bool) \<Rightarrow> ('k, 'v) hash_slot list \<Rightarrow> 'k \<Rightarrow> nat \<Rightarrow> nat \<Rightarrow> nat \<Rightarrow> bool" where
  "first_stop eq slots k idx i d \<longleftrightarrow>
     i \<le> d \<and> stops eq slots k idx d \<and> (\<forall>e. i \<le> e \<and> e < d \<longrightarrow> \<not> stops eq slots k idx e)"

lemma first_stop_Suc:
  assumes "first_stop eq slots k idx i d"
  shows "if stops eq slots k idx i then d = i else first_stop eq slots k idx (i + 1) d \<and> i < d"
  using assms unfolding first_stop_def by (cases "i = d") (auto simp: Suc_le_eq)

lemma first_stop_exists:
  assumes "stops eq slots k idx d" "i \<le> d"
  obtains d' where "first_stop eq slots k idx i d'" "d' \<le> d"
proof -
  let ?d = "LEAST d. i \<le> d \<and> stops eq slots k idx d"
  have "i \<le> ?d \<and> stops eq slots k idx ?d" using assms by (intro LeastI) auto
  moreover have "\<not> stops eq slots k idx e" if "i \<le> e" "e < ?d" for e
    using that not_less_Least by blast
  moreover have "?d \<le> d" using assms by (intro Least_le) auto
  ultimately show thesis using that [of ?d] by (simp add: first_stop_def)
qed

lemma probe_find_stops:
  "first_stop eq slots k idx i d \<Longrightarrow> d < i + n \<Longrightarrow>
   probe_find eq slots k idx i n =
     (if slots ! probe_at slots idx d = Slot_Empty then None else Some (probe_at slots idx d))"
proof (induction n arbitrary: i)
  case (Suc n)
  note f = first_stop_Suc [OF Suc.prems(1)]
  show ?case
  proof (cases "stops eq slots k idx i")
    case True
    then show ?thesis using f by (auto simp: stops_def split: hash_slot.splits)
  next
    case False
    then have "probe_find eq slots k idx i (Suc n) = probe_find eq slots k idx (i + 1) n"
      by (auto simp: stops_def split: hash_slot.splits)
    then show ?thesis using f False Suc.IH [of "i + 1"] Suc.prems(2) by simp
  qed
qed (simp add: first_stop_def)

lemma probe_find_no_stop:
  "(\<And>e. i \<le> e \<Longrightarrow> e < i + n \<Longrightarrow> \<not> stops eq slots k idx e) \<Longrightarrow> probe_find eq slots k idx i n = None"
proof (induction n arbitrary: i)
  case (Suc n)
  have "\<not> stops eq slots k idx i" using Suc.prems by simp
  then have "probe_find eq slots k idx i (Suc n) = probe_find eq slots k idx (i + 1) n"
    by (auto simp: stops_def split: hash_slot.splits)
  then show ?case using Suc by simp
qed simp

definition passed_tomb :: "('k, 'v) hash_slot list \<Rightarrow> nat \<Rightarrow> nat \<Rightarrow> nat \<Rightarrow> nat \<Rightarrow> bool" where
  "passed_tomb slots idx i d q \<longleftrightarrow>
     (\<exists>e. i \<le> e \<and> e < d \<and> q = probe_at slots idx e \<and> slots ! q = Slot_Tombstone)"

lemma passed_tomb_Suc: "passed_tomb slots idx (Suc i) d q \<Longrightarrow> passed_tomb slots idx i d q"
  unfolding passed_tomb_def using Suc_leD by blast

lemma probe_set_stops:
  "first_stop eq slots k idx i d \<Longrightarrow> d < i + n \<Longrightarrow>
   (if slots ! probe_at slots idx d = Slot_Empty
    then \<exists>t'. probe_set eq slots k idx t i n = Vacant (probe_at slots idx d) t'
      \<and> (t' = t \<or> (\<exists>q. t' = Some q \<and> passed_tomb slots idx i d q))
    else probe_set eq slots k idx t i n = Present (probe_at slots idx d))"
proof (induction n arbitrary: i t)
  case (Suc n)
  note f = first_stop_Suc [OF Suc.prems(1)]
  show ?case
  proof (cases "stops eq slots k idx i")
    case True
    then show ?thesis using f by (auto simp: stops_def split: hash_slot.splits)
  next
    case False
    let ?t = "if slots ! probe_at slots idx i = Slot_Tombstone \<and> t = None then Some (probe_at slots idx i) else t"
    have step: "probe_set eq slots k idx t i (Suc n) = probe_set eq slots k idx ?t (i + 1) n"
      using False by (auto simp: stops_def split: hash_slot.splits)
    have "?t = t \<or> ?t = Some (probe_at slots idx i) \<and> passed_tomb slots idx i d (probe_at slots idx i)"
      using f False by (auto simp: passed_tomb_def)
    then show ?thesis
      unfolding step using f False Suc.IH [of "i + 1" ?t] Suc.prems(2)
      by (auto dest!: passed_tomb_Suc split: if_splits)
  qed
qed (simp add: first_stop_def)

lemma first_stop_before:
  "first_stop eq slots k idx i d \<Longrightarrow> e < d \<Longrightarrow> i \<le> e \<Longrightarrow> slots ! probe_at slots idx e \<noteq> Slot_Empty"
  by (auto simp: first_stop_def stops_def split: hash_slot.splits)

section \<open>The invariant\<close>

text \<open>Every key sits on its probe path with no gap in front of it, no key sits twice, and the counters
  bound what they count.\<close>

definition on_path :: "('k \<Rightarrow> u64) \<Rightarrow> ('k, 'v) hash_slot list \<Rightarrow> 'k \<Rightarrow> nat \<Rightarrow> bool" where
  "on_path hash slots k p \<longleftrightarrow>
     (\<exists>d < length slots. probe_at slots (home hash slots k) d = p
        \<and> (\<forall>e < d. slots ! probe_at slots (home hash slots k) e \<noteq> Slot_Empty))"

definition ht_inv :: "('k \<Rightarrow> u64) \<Rightarrow> ('k \<Rightarrow> 'k \<Rightarrow> bool) \<Rightarrow> ('k, 'v) hash_table \<Rightarrow> bool" where
  "ht_inv hash eq ht \<longleftrightarrow>
     ht_slots ht \<noteq> [] \<and> ht_count ht = n_occupied (ht_slots ht) \<and> n_tombs (ht_slots ht) \<le> ht_tombstones ht
     \<and> (\<forall>p k v. p < length (ht_slots ht) \<longrightarrow> ht_slots ht ! p = Slot_Occupied k v \<longrightarrow>
          on_path hash (ht_slots ht) k p)
     \<and> (\<forall>p q k k' v v'. p < length (ht_slots ht) \<longrightarrow> q < length (ht_slots ht) \<longrightarrow>
          ht_slots ht ! p = Slot_Occupied k v \<longrightarrow> ht_slots ht ! q = Slot_Occupied k' v' \<longrightarrow>
          eq k k' \<longrightarrow> p = q)"

definition holds :: "('k \<Rightarrow> 'k \<Rightarrow> bool) \<Rightarrow> ('k, 'v) hash_slot list \<Rightarrow> 'k \<Rightarrow> nat \<Rightarrow> bool" where
  "holds eq slots k p \<longleftrightarrow> p < length slots \<and> (\<exists>k' v. slots ! p = Slot_Occupied k' v \<and> eq k' k)"

lemma on_path_fill:
  assumes "on_path hash slots k p" "s \<noteq> Slot_Empty"
  shows "on_path hash (slots[q := s]) k p"
proof -
  have "slots ! i \<noteq> Slot_Empty \<Longrightarrow> slots[q := s] ! i \<noteq> Slot_Empty" for i
    using assms(2) by (cases "q < length slots"; cases "i = q") (simp_all add: list_update_beyond)
  then show ?thesis using assms(1) unfolding on_path_def by auto
qed

lemma inv_counts:
  assumes "ht_inv hash eq ht"
  shows "0 < length (ht_slots ht)" "ht_count ht = n_occupied (ht_slots ht)"
    "n_tombs (ht_slots ht) \<le> ht_tombstones ht"
    "n_occupied (ht_slots ht) + n_tombs (ht_slots ht) \<le> length (ht_slots ht)"
  using assms slot_partition [of "ht_slots ht"] by (simp_all add: ht_inv_def)

locale hash_key =
  fixes hash :: "'k \<Rightarrow> u64" and eq :: "'k \<Rightarrow> 'k \<Rightarrow> bool"
  assumes eq_refl: "eq k k"
    and eq_sym: "eq k k' \<Longrightarrow> eq k' k"
    and eq_trans: "eq k k' \<Longrightarrow> eq k' k'' \<Longrightarrow> eq k k''"
    and hash_cong: "eq k k' \<Longrightarrow> hash k = hash k'"
begin

lemma home_cong: "eq k k' \<Longrightarrow> home hash slots k = home hash slots k'"
  using hash_cong by (simp add: home_def)

lemma holds_cong: "eq k' k \<Longrightarrow> holds eq slots k' q \<Longrightarrow> holds eq slots k q"
  using eq_trans by (fastforce simp: holds_def)

lemma present_stop:
  assumes inv: "ht_inv hash eq ht" and p: "holds eq (ht_slots ht) k p"
  obtains d where "d < length (ht_slots ht)" "probe_at (ht_slots ht) (home hash (ht_slots ht) k) d = p"
    "first_stop eq (ht_slots ht) k (home hash (ht_slots ht) k) 0 d"
proof -
  let ?s = "ht_slots ht" and ?h = "home hash (ht_slots ht) k"
  obtain k' v where k': "?s ! p = Slot_Occupied k' v" "eq k' k" "p < length ?s"
    using p by (auto simp: holds_def)
  then have "on_path hash ?s k' p" using inv by (auto simp: ht_inv_def)
  then obtain d where d: "d < length ?s" "probe_at ?s ?h d = p" "\<forall>e < d. ?s ! probe_at ?s ?h e \<noteq> Slot_Empty"
    unfolding on_path_def home_cong [OF k'(2)] by blast
  have "\<not> stops eq ?s k ?h e" if e: "e < d" for e
  proof
    assume "stops eq ?s k ?h e"
    then obtain k2 v2 where k2: "?s ! probe_at ?s ?h e = Slot_Occupied k2 v2" "eq k2 k"
      using d(3) e by (auto simp: stops_def split: hash_slot.splits)
    then have "probe_at ?s ?h e = p"
      using inv k' eq_trans [OF k2(2) eq_sym [OF k'(2)]] by (auto simp: ht_inv_def)
    then show False using probe_at_inj [of e ?s d ?h] d(1,2) e by simp
  qed
  then have "first_stop eq ?s k ?h 0 d" using d k' by (simp add: first_stop_def stops_def)
  then show thesis using that d by blast
qed

lemma absent_stop:
  assumes "\<forall>p. \<not> holds eq slots k p" "slots \<noteq> []" "stops eq slots k idx e"
  shows "slots ! probe_at slots idx e = Slot_Empty"
proof -
  have "\<not> holds eq slots k (probe_at slots idx e)" using assms(1) by blast
  then show ?thesis using assms(2,3) by (auto simp: stops_def holds_def split: hash_slot.splits)
qed

lemma find_present:
  assumes "ht_inv hash eq ht" "holds eq (ht_slots ht) k p"
  shows "probe_find eq (ht_slots ht) k (home hash (ht_slots ht) k) 0 (length (ht_slots ht)) = Some p"
proof -
  obtain d where "d < length (ht_slots ht)" "probe_at (ht_slots ht) (home hash (ht_slots ht) k) d = p"
    "first_stop eq (ht_slots ht) k (home hash (ht_slots ht) k) 0 d"
    using present_stop [OF assms] by blast
  then show ?thesis using assms(2) probe_find_stops [of eq "ht_slots ht" k _ 0 d "length (ht_slots ht)"]
    by (auto simp: holds_def)
qed

lemma find_absent:
  assumes "\<forall>p. \<not> holds eq slots k p"
  shows "probe_find eq slots k (home hash slots k) 0 (length slots) = None"
proof (cases "\<exists>e < length slots. stops eq slots k (home hash slots k) e")
  case True
  then obtain e where e: "e < length slots" "stops eq slots k (home hash slots k) e" by blast
  from first_stop_exists [OF e(2), of 0] obtain d
    where d: "first_stop eq slots k (home hash slots k) 0 d" "d \<le> e" by auto
  then have "slots ! probe_at slots (home hash slots k) d = Slot_Empty"
    using e by (intro absent_stop [OF assms]) (auto simp: first_stop_def)
  then show ?thesis using probe_find_stops [OF d(1), of "length slots"] d(2) e(1) by simp
next
  case False
  then show ?thesis by (intro probe_find_no_stop) simp
qed

lemma unique_holder:
  assumes "ht_inv hash eq ht" "holds eq (ht_slots ht) k p" "holds eq (ht_slots ht) k q"
  shows "p = q"
proof -
  obtain k1 v1 k2 v2 where "p < length (ht_slots ht)" "q < length (ht_slots ht)"
    "ht_slots ht ! p = Slot_Occupied k1 v1" "ht_slots ht ! q = Slot_Occupied k2 v2" "eq k1 k" "eq k2 k"
    using assms(2,3) by (auto simp: holds_def)
  moreover from this have "eq k1 k2" using eq_trans eq_sym by metis
  ultimately show ?thesis using assms(1) unfolding ht_inv_def by blast
qed

lemma lookup_present:
  assumes "ht_inv hash eq ht" "p < length (ht_slots ht)" "ht_slots ht ! p = Slot_Occupied k' v" "eq k' k"
  shows "ht_lookup hash eq ht k = Some v"
proof -
  have "holds eq (ht_slots ht) k p" using assms by (simp add: holds_def)
  from find_present [OF assms(1) this] show ?thesis using assms(3) by (simp add: ht_lookup_def Let_def)
qed

lemma lookup_absent:
  "\<forall>p. \<not> holds eq (ht_slots ht) k p \<Longrightarrow> ht_lookup hash eq ht k = None"
  using find_absent [of "ht_slots ht" k] by (simp add: ht_lookup_def Let_def)

lemma lookup_iff:
  assumes "ht_inv hash eq ht"
  shows "ht_lookup hash eq ht k = Some v \<longleftrightarrow>
    (\<exists>p k'. p < length (ht_slots ht) \<and> ht_slots ht ! p = Slot_Occupied k' v \<and> eq k' k)"
proof
  assume l: "ht_lookup hash eq ht k = Some v"
  then obtain p where "holds eq (ht_slots ht) k p" using lookup_absent by fastforce
  then obtain k' w where k': "p < length (ht_slots ht)" "ht_slots ht ! p = Slot_Occupied k' w" "eq k' k"
    by (auto simp: holds_def)
  then show "\<exists>p k'. p < length (ht_slots ht) \<and> ht_slots ht ! p = Slot_Occupied k' v \<and> eq k' k"
    using lookup_present [OF assms k'] l by auto
qed (use lookup_present [OF assms] in blast)

lemma lookup_cong:
  assumes inv: "ht_inv hash eq ht" and e: "eq k k2"
  shows "ht_lookup hash eq ht k = ht_lookup hash eq ht k2"
proof -
  have "eq k' k \<longleftrightarrow> eq k' k2" for k' using e eq_trans eq_sym by blast
  then have "ht_lookup hash eq ht k = Some v \<longleftrightarrow> ht_lookup hash eq ht k2 = Some v" for v
    unfolding lookup_iff [OF inv] by simp
  then show ?thesis by (metis not_Some_eq)
qed

lemma inv_put:
  assumes inv: "ht_inv hash eq ht" and p: "p < length (ht_slots ht)" "on_path hash (ht_slots ht) k p"
    and only: "\<forall>q. q \<noteq> p \<longrightarrow> \<not> holds eq (ht_slots ht) k q"
    and ht': "ht_slots ht' = (ht_slots ht)[p := Slot_Occupied k v]"
      "ht_count ht' = n_occupied (ht_slots ht')" "n_tombs (ht_slots ht') \<le> ht_tombstones ht'"
  shows "ht_inv hash eq ht'"
  unfolding ht_inv_def
proof (intro conjI allI impI)
  show "ht_slots ht' \<noteq> []" using p ht'(1) by auto
next
  fix q k1 v1 assume "q < length (ht_slots ht')" "ht_slots ht' ! q = Slot_Occupied k1 v1"
  then have "on_path hash (ht_slots ht) k1 q"
    using inv p ht'(1) by (cases "q = p") (auto simp: ht_inv_def)
  then show "on_path hash (ht_slots ht') k1 q" using ht'(1) by (simp add: on_path_fill)
next
  fix q r k1 k2 v1 v2
  assume qr: "q < length (ht_slots ht')" "r < length (ht_slots ht')"
    "ht_slots ht' ! q = Slot_Occupied k1 v1" "ht_slots ht' ! r = Slot_Occupied k2 v2" and e: "eq k1 k2"
  have other: "i = p" if "i < length (ht_slots ht')" "ht_slots ht' ! i = Slot_Occupied k3 v3" "eq k3 k" for i k3 v3
  proof (rule ccontr)
    assume "i \<noteq> p"
    then have "holds eq (ht_slots ht) k i" using that ht'(1) by (auto simp: holds_def)
    then show False using only \<open>i \<noteq> p\<close> by blast
  qed
  show "q = r"
  proof (cases "q = p \<or> r = p")
    case True
    then show ?thesis using other [OF qr(1,3)] other [OF qr(2,4)] qr ht'(1) p(1) e eq_sym by auto
  next
    case False
    then show ?thesis using inv qr ht'(1) e unfolding ht_inv_def by auto
  qed
qed (use ht' in simp_all)

lemma lookup_put:
  assumes "ht_inv hash eq ht" "ht_inv hash eq ht'" and p: "p < length (ht_slots ht)"
    and s: "ht_slots ht' = (ht_slots ht)[p := Slot_Occupied k v]"
    and old: "\<forall>k0 v0. ht_slots ht ! p = Slot_Occupied k0 v0 \<longrightarrow> eq k0 k"
  shows "ht_lookup hash eq ht' k2 = (if eq k k2 then Some v else ht_lookup hash eq ht k2)"
proof (cases "eq k k2")
  case True
  then show ?thesis using lookup_present [OF assms(2), of p k v k2] p s by simp
next
  case False
  have "ht_lookup hash eq ht' k2 = Some w \<longleftrightarrow> ht_lookup hash eq ht k2 = Some w" for w
  proof -
    have "(q < length (ht_slots ht') \<and> ht_slots ht' ! q = Slot_Occupied k' w \<and> eq k' k2) \<longleftrightarrow>
        (q < length (ht_slots ht) \<and> ht_slots ht ! q = Slot_Occupied k' w \<and> eq k' k2)" for q k'
    proof (cases "q = p")
      case True
      have "\<not> eq k' k2" if "ht_slots ht ! p = Slot_Occupied k' w"
        using that old False eq_trans eq_sym by metis
      then show ?thesis using True False s p by auto
    qed (use s in simp)
    then show ?thesis unfolding lookup_iff [OF assms(1)] lookup_iff [OF assms(2)] by simp
  qed
  then show ?thesis using False by (metis not_Some_eq)
qed

text \<open>What an insertion that found room owes.\<close>

definition place_ok where
  "place_ok uncount ow k v ht r \<longleftrightarrow>
     (\<exists>ht'. r = Some (ow \<or> ht_lookup hash eq ht k = None, ht') \<and> ht_inv hash eq ht'
        \<and> length (ht_slots ht') = length (ht_slots ht) \<and> ht_tombstones ht' \<le> ht_tombstones ht
        \<and> (uncount \<or> ht_tombstones ht' = ht_tombstones ht)
        \<and> ht_count ht' = ht_count ht + of_bool (ht_lookup hash eq ht k = None)
        \<and> (\<forall>k2. ht_lookup hash eq ht' k2 = (if (ow \<or> ht_lookup hash eq ht k = None) \<and> eq k k2
             then Some v else ht_lookup hash eq ht k2)))"

lemma place_present:
  assumes inv: "ht_inv hash eq ht" and p: "holds eq (ht_slots ht) k p"
  shows "place_ok uncount ow k v ht (ht_place uncount ow hash eq k v ht)"
proof -
  let ?s = "ht_slots ht" and ?h = "home hash (ht_slots ht) k"
  obtain k' w where k': "?s ! p = Slot_Occupied k' w" "eq k' k" "p < length ?s" using p by (auto simp: holds_def)
  obtain d where d: "d < length ?s" "probe_at ?s ?h d = p" "first_stop eq ?s k ?h 0 d"
    using present_stop [OF inv p] by blast
  have find: "probe_set eq ?s k ?h None 0 (length ?s) = Present p"
    using probe_set_stops [OF d(3), of "length ?s" None] d(1,2) k' by simp
  have l: "ht_lookup hash eq ht k = Some w" using lookup_present [OF inv k'(3,1,2)] .
  have ne: "?s \<noteq> []" using k'(3) by auto
  show ?thesis
  proof (cases ow)
    case True
    let ?ht = "ht\<lparr>ht_slots := ?s[p := Slot_Occupied k' v]\<rparr>"
    have r: "ht_place uncount ow hash eq k v ht = Some (True, ?ht)"
      using True find k' ne by (simp add: ht_place_def Let_def)
    have cnt: "n_occupied (?s[p := Slot_Occupied k' v]) = n_occupied ?s"
      "n_tombs (?s[p := Slot_Occupied k' v]) = n_tombs ?s"
      using filter_update [OF k'(3), of occupied "Slot_Occupied k' v"] k'(1)
        filter_update [OF k'(3), of "\<lambda>s. s = Slot_Tombstone" "Slot_Occupied k' v"]
      by (simp_all add: n_occupied_def n_tombs_def)
    have inv': "ht_inv hash eq ?ht"
    proof (rule inv_put [OF inv k'(3)])
      show "on_path hash ?s k' p" using inv k' by (simp add: ht_inv_def)
      show "\<forall>q. q \<noteq> p \<longrightarrow> \<not> holds eq ?s k' q"
        using unique_holder [OF inv holds_cong [OF k'(2)] p] by blast
    qed (use inv cnt in \<open>simp_all add: ht_inv_def\<close>)
    have ek: "eq k' k2 \<longleftrightarrow> eq k k2" for k2 using k'(2) eq_trans eq_sym by blast
    have "ht_lookup hash eq ?ht k2 = (if eq k k2 then Some v else ht_lookup hash eq ht k2)" for k2
      using lookup_put [OF inv inv' k'(3), of k' v k2] k'(1) eq_refl ek by simp
    then show ?thesis using r inv' l True by (simp add: place_ok_def)
  next
    case False
    then show ?thesis using find k' ne inv l by (simp add: ht_place_def place_ok_def Let_def)
  qed
qed

lemma place_absent:
  assumes inv: "ht_inv hash eq ht" and none: "\<forall>p. \<not> holds eq (ht_slots ht) k p"
    and room: "n_occupied (ht_slots ht) + n_tombs (ht_slots ht) < length (ht_slots ht)"
  shows "place_ok uncount ow k v ht (ht_place uncount ow hash eq k v ht)"
proof -
  let ?s = "ht_slots ht" and ?h = "home hash (ht_slots ht) k"
  have ne: "?s \<noteq> []" using inv by (simp add: ht_inv_def)
  obtain p0 where p0: "p0 < length ?s" "?s ! p0 = Slot_Empty" using empty_slot_exists [OF room] .
  obtain d0 where d0: "d0 < length ?s" "probe_at ?s ?h d0 = p0" using probe_at_surj [OF p0(1)] .
  then have "stops eq ?s k ?h d0" using p0 by (simp add: stops_def)
  from first_stop_exists [OF this, of 0] obtain d where d: "first_stop eq ?s k ?h 0 d" "d \<le> d0" by auto
  have e: "?s ! probe_at ?s ?h d = Slot_Empty"
    using d by (intro absent_stop [OF none ne]) (simp add: first_stop_def)
  obtain t where t: "probe_set eq ?s k ?h None 0 (length ?s) = Vacant (probe_at ?s ?h d) t"
    "t = None \<or> (\<exists>q. t = Some q \<and> passed_tomb ?s ?h 0 d q)"
    using probe_set_stops [OF d(1), of "length ?s" None] d d0 e by auto
  define p where "p = (case t of None \<Rightarrow> probe_at ?s ?h d | Some q \<Rightarrow> q)"
  obtain c where c: "c \<le> d" "p = probe_at ?s ?h c" "t = None \<longleftrightarrow> ?s ! p = Slot_Empty"
    "?s ! p = Slot_Empty \<or> ?s ! p = Slot_Tombstone"
  proof (cases t)
    case None
    then show thesis using that [of d] e by (simp add: p_def)
  next
    case (Some q)
    then obtain e where "e < d" "q = probe_at ?s ?h e" "?s ! q = Slot_Tombstone"
      using t(2) by (auto simp: passed_tomb_def)
    then show thesis using that [of e] Some by (simp add: p_def)
  qed
  have p: "p < length ?s" using c(2) ne by simp
  have path: "on_path hash ?s k p"
    unfolding on_path_def using c d d0 first_stop_before [OF d(1)] by (intro exI [of _ c]) auto
  let ?ht = "ht\<lparr>ht_slots := ?s[p := Slot_Occupied k v], ht_count := ht_count ht + 1,
       ht_tombstones := (if uncount \<and> t \<noteq> None then ht_tombstones ht - 1 else ht_tombstones ht)\<rparr>"
  have r: "ht_place uncount ow hash eq k v ht = Some (True, ?ht)"
    using t ne by (simp add: ht_place_def Let_def p_def)
  have cnt: "n_occupied (?s[p := Slot_Occupied k v]) = n_occupied ?s + 1"
    "n_tombs (?s[p := Slot_Occupied k v]) + of_bool (t \<noteq> None) = n_tombs ?s"
    using filter_update [OF p, of occupied "Slot_Occupied k v"] c(3,4)
      filter_update [OF p, of "\<lambda>s. s = Slot_Tombstone" "Slot_Occupied k v"]
    by (auto simp: n_occupied_def n_tombs_def)
  have inv': "ht_inv hash eq ?ht"
    by (rule inv_put [OF inv p path]) (use inv cnt none in \<open>auto simp: ht_inv_def\<close>)
  have "ht_lookup hash eq ?ht k2 = (if eq k k2 then Some v else ht_lookup hash eq ht k2)" for k2
    using lookup_put [OF inv inv' p, of k v k2] c(4) by auto
  then show ?thesis using r inv' lookup_absent [OF none] by (simp add: place_ok_def)
qed

lemma place:
  assumes "ht_inv hash eq ht" "n_occupied (ht_slots ht) + n_tombs (ht_slots ht) < length (ht_slots ht)"
  shows "place_ok uncount ow k v ht (ht_place uncount ow hash eq k v ht)"
  using place_present [OF assms(1)] place_absent [OF assms(1) _ assms(2)] by blast

lemma init: "0 < cap \<Longrightarrow> ht_inv hash eq (hashtable_init cap)"
  and lookup_init: "ht_lookup hash eq (hashtable_init cap) k = None"
  by (simp_all add: ht_inv_def hashtable_init_def n_occupied_def n_tombs_def lookup_absent holds_def)

text \<open>Rehashing never grows again: the new table has room for everything that is reinserted.\<close>

fun keys_distinct where
  "keys_distinct [] = True"
| "keys_distinct (Slot_Occupied k v # ss) \<longleftrightarrow>
     (\<forall>k' v'. Slot_Occupied k' v' \<in> set ss \<longrightarrow> \<not> eq k k') \<and> keys_distinct ss"
| "keys_distinct (s # ss) = keys_distinct ss"

definition reinserted where
  "reinserted cap acc ss acc' \<longleftrightarrow>
     ht_inv hash eq acc' \<and> ht_tombstones acc' = 0 \<and> length (ht_slots acc') = 2 * cap
     \<and> ht_count acc' = ht_count acc + n_occupied ss
     \<and> (\<forall>k v. ht_lookup hash eq acc' k = Some v \<longleftrightarrow>
          ht_lookup hash eq acc k = Some v \<or> (\<exists>k'. Slot_Occupied k' v \<in> set ss \<and> eq k' k))"

lemma reinsert:
  assumes "ht_inv hash eq acc" "ht_tombstones acc = 0" "length (ht_slots acc) = 2 * cap"
    and "ht_count acc + n_occupied ss \<le> cap" "keys_distinct ss"
    and "\<forall>k v. Slot_Occupied k v \<in> set ss \<longrightarrow> ht_lookup hash eq acc k = None"
  shows "\<exists>acc'. ht_reinsert (ht_insert (Suc n) uncount ow ow hash eq) ss acc = Some acc'
    \<and> reinserted cap acc ss acc'"
  using assms
proof (induction ss arbitrary: acc)
  case Nil
  then show ?case by (simp add: reinserted_def)
next
  case (Cons s ss)
  show ?case
  proof (cases s)
    case (Slot_Occupied k v)
    have none: "ht_lookup hash eq acc k = None" using Cons.prems(6) Slot_Occupied by auto
    have room: "ht_count acc < cap" using Cons.prems(4) Slot_Occupied by simp
    have "n_occupied (ht_slots acc) + n_tombs (ht_slots acc) < length (ht_slots acc)"
      using inv_counts [OF Cons.prems(1)] Cons.prems(2,3) room by simp
    from place [OF Cons.prems(1) this, of uncount ow k v] none obtain acc1 where acc1:
      "ht_place uncount ow hash eq k v acc = Some (True, acc1)" "ht_inv hash eq acc1"
      "length (ht_slots acc1) = 2 * cap" "ht_tombstones acc1 = 0" "ht_count acc1 = ht_count acc + 1"
      "\<And>k2. ht_lookup hash eq acc1 k2 = (if eq k k2 then Some v else ht_lookup hash eq acc k2)"
      using Cons.prems(2,3) by (auto simp: place_ok_def)
    have ins: "ht_insert (Suc n) uncount ow ow hash eq k v acc = Some (True, acc1)"
      using acc1(1) room Cons.prems(2,3) by simp
    have lk: "\<forall>k' v'. Slot_Occupied k' v' \<in> set ss \<longrightarrow> ht_lookup hash eq acc1 k' = None"
      using Cons.prems(5,6) Slot_Occupied acc1(6) by auto
    have "ht_count acc1 + n_occupied ss \<le> cap" "keys_distinct ss"
      using Cons.prems(4,5) acc1(5) Slot_Occupied by simp_all
    from Cons.IH [OF acc1(2,4,3) this lk] obtain acc' where
      acc': "ht_reinsert (ht_insert (Suc n) uncount ow ow hash eq) ss acc1 = Some acc'"
        "reinserted cap acc1 ss acc'" by blast
    have absent: "eq k k2 \<Longrightarrow> ht_lookup hash eq acc k2 = None" for k2
      using none lookup_cong [OF Cons.prems(1)] by metis
    have "reinserted cap acc (s # ss) acc'"
      unfolding reinserted_def
    proof (intro conjI allI)
      fix k2 w
      have "ht_lookup hash eq acc' k2 = Some w \<longleftrightarrow>
          ht_lookup hash eq acc1 k2 = Some w \<or> (\<exists>k'. Slot_Occupied k' w \<in> set ss \<and> eq k' k2)"
        using acc'(2) by (simp add: reinserted_def)
      then show "ht_lookup hash eq acc' k2 = Some w \<longleftrightarrow>
          ht_lookup hash eq acc k2 = Some w \<or> (\<exists>k'. Slot_Occupied k' w \<in> set (s # ss) \<and> eq k' k2)"
        using acc1(6) [of k2] absent [of k2] Slot_Occupied by (cases "eq k k2") auto
    qed (use acc'(2) acc1(5) Slot_Occupied in \<open>simp_all add: reinserted_def\<close>)
    moreover have "ht_reinsert (ht_insert (Suc n) uncount ow ow hash eq) (s # ss) acc = Some acc'"
      using ins acc'(1) Slot_Occupied by (simp del: ht_insert.simps)
    ultimately show ?thesis by blast
  next
    case Slot_Empty
    then show ?thesis using Cons.IH [OF Cons.prems(1-3)] Cons.prems(4-6)
      by (simp add: reinserted_def del: ht_insert.simps)
  next
    case Slot_Tombstone
    then show ?thesis using Cons.IH [OF Cons.prems(1-3)] Cons.prems(4-6)
      by (simp add: reinserted_def del: ht_insert.simps)
  qed
qed

lemma inv_keys_distinct:
  assumes "ht_inv hash eq ht"
  shows "keys_distinct (ht_slots ht)"
proof -
  have "keys_distinct (drop i (ht_slots ht))" if "i \<le> length (ht_slots ht)" for i
    using that
  proof (induction rule: inc_induct)
    case (step i)
    have d: "drop i (ht_slots ht) = ht_slots ht ! i # drop (Suc i) (ht_slots ht)"
      using step by (simp add: Cons_nth_drop_Suc)
    have "\<not> eq k k'" if at: "ht_slots ht ! i = Slot_Occupied k v" "Slot_Occupied k' v' \<in> set (drop (Suc i) (ht_slots ht))"
      for k v k' v'
    proof
      assume "eq k k'"
      obtain j where "j < length (drop (Suc i) (ht_slots ht))" "drop (Suc i) (ht_slots ht) ! j = Slot_Occupied k' v'"
        using at(2) by (metis in_set_conv_nth)
      then have "Suc i + j < length (ht_slots ht)" "ht_slots ht ! (Suc i + j) = Slot_Occupied k' v'" by auto
      then have "i = Suc i + j"
        using assms at(1) \<open>eq k k'\<close> step.hyps unfolding ht_inv_def by blast
      then show False by simp
    qed
    then show ?case unfolding d using step.IH by (cases "ht_slots ht ! i") auto
  qed simp
  from this [of 0] show ?thesis by simp
qed

lemma resize:
  fixes ht :: "('k, 'v) hash_table"
  assumes inv: "ht_inv hash eq ht"
  shows "\<exists>ht'. ht_resize (ht_insert (Suc n) uncount ow ow hash eq) ht (length (ht_slots ht) * 2) = Some ht'
    \<and> ht_inv hash eq ht' \<and> ht_tombstones ht' = 0 \<and> length (ht_slots ht') = 2 * length (ht_slots ht)
    \<and> ht_count ht' = ht_count ht \<and> (\<forall>k. ht_lookup hash eq ht' k = ht_lookup hash eq ht k)"
proof -
  let ?cap = "length (ht_slots ht)"
  let ?new = "hashtable_init (?cap * 2) :: ('k, 'v) hash_table"
  have new: "ht_inv hash eq ?new" "ht_tombstones ?new = 0" "length (ht_slots ?new) = 2 * ?cap" "ht_count ?new = 0"
    using inv_counts(1) [OF inv] init [of "?cap * 2"] by (simp_all add: hashtable_init_def)
  have none: "ht_lookup hash eq ?new k = None" for k by (rule lookup_init)
  have "ht_count ?new + n_occupied (ht_slots ht) \<le> ?cap" using inv_counts(4) [OF inv] new(4) by simp
  from reinsert [OF new(1-3) this inv_keys_distinct [OF inv], of n uncount ow] obtain ht'
    where r: "ht_resize (ht_insert (Suc n) uncount ow ow hash eq) ht (?cap * 2) = Some ht'"
      "reinserted ?cap ?new (ht_slots ht) ht'"
    using none by (auto simp: ht_resize_def)
  have "ht_lookup hash eq ht' k = Some v \<longleftrightarrow> ht_lookup hash eq ht k = Some v" for k v
    unfolding lookup_iff [OF inv] using r(2) none
    by (auto simp: reinserted_def in_set_conv_nth)
  then have "ht_lookup hash eq ht' k = ht_lookup hash eq ht k" for k by (metis not_Some_eq)
  then show ?thesis using r new(4) inv_counts(2) [OF inv] by (simp add: reinserted_def)
qed

text \<open>The contract of insertion: it always succeeds in two levels of nesting or more.\<close>

lemma insert_ok:
  assumes inv: "ht_inv hash eq ht"
  shows "\<exists>ht'. ht_insert (Suc (Suc n)) uncount again ow hash eq k v ht
      = Some (ow \<or> ht_lookup hash eq ht k = None, ht') \<and> ht_inv hash eq ht'
    \<and> ht_count ht' = ht_count ht + of_bool (ht_lookup hash eq ht k = None)
    \<and> (\<forall>k2. ht_lookup hash eq ht' k2 =
         (if (ow \<or> ht_lookup hash eq ht k = None) \<and> eq k k2 then Some v else ht_lookup hash eq ht k2))"
proof (cases "length (ht_slots ht) \<le> (ht_count ht + ht_tombstones ht) * 2")
  case True
  obtain h1 where h1: "ht_resize (ht_insert (Suc n) uncount again again hash eq) ht (length (ht_slots ht) * 2) = Some h1"
    "ht_inv hash eq h1" "ht_tombstones h1 = 0" "length (ht_slots h1) = 2 * length (ht_slots ht)"
    "ht_count h1 = ht_count ht" "\<forall>k. ht_lookup hash eq h1 k = ht_lookup hash eq ht k"
    using resize [OF inv, of n uncount again] by blast
  have room: "n_occupied (ht_slots h1) + n_tombs (ht_slots h1) < length (ht_slots h1)"
    using h1(3-5) inv_counts [OF h1(2)] inv_counts [OF inv] by linarith
  have same: "ht_lookup hash eq h1 = ht_lookup hash eq ht" using h1(6) by blast
  show ?thesis
    using place [OF h1(2) room, of uncount ow k v, unfolded place_ok_def same] h1(1,5) True
    by (auto simp: ht_insert.simps(2) [of "Suc n"] simp del: ht_insert.simps)
next
  case False
  then have "n_occupied (ht_slots ht) + n_tombs (ht_slots ht) < length (ht_slots ht)"
    using inv_counts [OF inv] by simp
  from place [OF inv this, of uncount ow k v] show ?thesis using False
    by (auto simp: place_ok_def ht_insert.simps(2) [of "Suc n"] simp del: ht_insert.simps)
qed

lemma insert_shape:
  assumes inv: "ht_inv hash eq ht"
    and r: "ht_insert (Suc (Suc n)) False again ow hash eq k v ht = Some (ok, ht')"
  shows "if length (ht_slots ht) \<le> (ht_count ht + ht_tombstones ht) * 2
    then length (ht_slots ht') = 2 * length (ht_slots ht) \<and> ht_tombstones ht' = 0
    else length (ht_slots ht') = length (ht_slots ht) \<and> ht_tombstones ht' = ht_tombstones ht"
proof (cases "length (ht_slots ht) \<le> (ht_count ht + ht_tombstones ht) * 2")
  case True
  obtain h1 where h1: "ht_resize (ht_insert (Suc n) False again again hash eq) ht (length (ht_slots ht) * 2) = Some h1"
    "ht_inv hash eq h1" "ht_tombstones h1 = 0" "length (ht_slots h1) = 2 * length (ht_slots ht)"
    "ht_count h1 = ht_count ht"
    using resize [OF inv, of n False again] by blast
  have "n_occupied (ht_slots h1) + n_tombs (ht_slots h1) < length (ht_slots h1)"
    using h1(3-5) inv_counts [OF h1(2)] inv_counts [OF inv] by linarith
  from place [OF h1(2) this, of False ow k v] show ?thesis
    using r h1 True by (auto simp: place_ok_def ht_insert.simps(2) [of "Suc n"] simp del: ht_insert.simps)
next
  case False
  then have "n_occupied (ht_slots ht) + n_tombs (ht_slots ht) < length (ht_slots ht)"
    using inv_counts [OF inv] by simp
  from place [OF inv this, of False ow k v] show ?thesis
    using r False by (auto simp: place_ok_def ht_insert.simps(2) [of "Suc n"] simp del: ht_insert.simps)
qed

lemma remove_shape:
  assumes "ht_inv hash eq ht" "ht_remove hash eq k ht = (ok, ht')"
  shows "length (ht_slots ht') = length (ht_slots ht) \<and> ht_tombstones ht' = ht_tombstones ht + of_bool ok"
  using assms(2) by (auto simp: ht_remove_def Let_def split: option.splits)

lemma inv_clear:
  assumes inv: "ht_inv hash eq ht" and p: "p < length (ht_slots ht)" "ht_slots ht ! p = Slot_Occupied k' v"
    and ht': "ht' = ht\<lparr>ht_slots := (ht_slots ht)[p := Slot_Tombstone], ht_count := ht_count ht - 1,
      ht_tombstones := ht_tombstones ht + 1\<rparr>"
  shows "ht_inv hash eq ht' \<and> ht_count ht = ht_count ht' + 1"
proof -
  let ?s = "(ht_slots ht)[p := Slot_Tombstone]"
  have cnt: "n_occupied ?s + 1 = n_occupied (ht_slots ht)" "n_tombs ?s = n_tombs (ht_slots ht) + 1"
    using filter_update [OF p(1), of occupied Slot_Tombstone] p(2)
      filter_update [OF p(1), of "\<lambda>s. s = Slot_Tombstone" Slot_Tombstone]
    by (simp_all add: n_occupied_def n_tombs_def)
  have occ: "q \<noteq> p \<and> ht_slots ht ! q = Slot_Occupied k1 v1"
    if "q < length (ht_slots ht)" "?s ! q = Slot_Occupied k1 v1" for q k1 v1
    using that by (cases "q = p") simp_all
  have "ht_inv hash eq ht'"
    unfolding ht_inv_def
  proof (intro conjI allI impI)
    fix q k1 v1 assume "q < length (ht_slots ht')" "ht_slots ht' ! q = Slot_Occupied k1 v1"
    then have "on_path hash (ht_slots ht) k1 q" using occ [of q k1 v1] inv ht' by (auto simp: ht_inv_def)
    then show "on_path hash (ht_slots ht') k1 q" using ht' by (simp add: on_path_fill)
  next
    fix q r k1 k2 v1 v2
    assume "q < length (ht_slots ht')" "r < length (ht_slots ht')"
      "ht_slots ht' ! q = Slot_Occupied k1 v1" "ht_slots ht' ! r = Slot_Occupied k2 v2" "eq k1 k2"
    then show "q = r" using occ [of q k1 v1] occ [of r k2 v2] inv ht' unfolding ht_inv_def by auto
  qed (use inv_counts [OF inv] ht' cnt in simp_all)
  then show ?thesis using inv_counts(2) [OF inv] cnt(1) ht' by simp
qed

lemma remove_ok:
  assumes inv: "ht_inv hash eq ht" and r: "ht_remove hash eq k ht = (ok, ht')"
  shows "ok = (ht_lookup hash eq ht k \<noteq> None) \<and> ht_inv hash eq ht'
    \<and> ht_count ht = ht_count ht' + of_bool ok
    \<and> (\<forall>k2. ht_lookup hash eq ht' k2 = (if eq k k2 then None else ht_lookup hash eq ht k2))"
proof (cases "\<exists>p. holds eq (ht_slots ht) k p")
  case False
  then have "ht_lookup hash eq ht k = None" "ok = False" "ht' = ht"
    using r lookup_absent [of ht k] find_absent [of "ht_slots ht" k] by (auto simp: ht_remove_def Let_def)
  moreover have "ht_lookup hash eq ht k2 = None" if "eq k k2" for k2
    using lookup_cong [OF inv that] \<open>ht_lookup hash eq ht k = None\<close> by simp
  ultimately show ?thesis using inv by simp
next
  case True
  then obtain p where hp: "holds eq (ht_slots ht) k p" by blast
  then obtain k' v where p: "p < length (ht_slots ht)" "ht_slots ht ! p = Slot_Occupied k' v" "eq k' k"
    by (auto simp: holds_def)
  have ht': "ok = True" "ht' = ht\<lparr>ht_slots := (ht_slots ht)[p := Slot_Tombstone],
      ht_count := ht_count ht - 1, ht_tombstones := ht_tombstones ht + 1\<rparr>"
    using r find_present [OF inv hp] by (simp_all add: ht_remove_def Let_def)
  note inv' = inv_clear [OF inv p(1,2) ht'(2)]
  have "ht_lookup hash eq ht' k2 = Some w \<longleftrightarrow> \<not> eq k k2 \<and> ht_lookup hash eq ht k2 = Some w" for k2 w
  proof -
    have "(q < length (ht_slots ht') \<and> ht_slots ht' ! q = Slot_Occupied k1 w \<and> eq k1 k2) \<longleftrightarrow>
        (\<not> eq k k2 \<and> q < length (ht_slots ht) \<and> ht_slots ht ! q = Slot_Occupied k1 w \<and> eq k1 k2)" for q k1
    proof (cases "q = p")
      case True
      have "eq k' k2 \<Longrightarrow> eq k k2" using eq_trans [OF eq_sym [OF p(3)]] .
      then show ?thesis using True p(1,2) ht'(2) by auto
    next
      case False
      have "\<not> eq k k2" if "q < length (ht_slots ht)" "ht_slots ht ! q = Slot_Occupied k1 w" "eq k1 k2"
      proof
        assume "eq k k2"
        then have "eq k1 k" using that(3) eq_sym eq_trans by blast
        then have "holds eq (ht_slots ht) k q" using that by (auto simp: holds_def)
        then show False using unique_holder [OF inv hp] False by blast
      qed
      then show ?thesis using False ht'(2) by auto
    qed
    then show ?thesis unfolding lookup_iff [OF inv] lookup_iff [OF conjunct1 [OF inv']] by auto
  qed
  then have "ht_lookup hash eq ht' k2 = (if eq k k2 then None else ht_lookup hash eq ht k2)" for k2
    by (metis not_Some_eq)
  then show ?thesis using inv' ht'(1) lookup_present [OF inv p] by simp
qed

end

section \<open>Dictionaries\<close>

text \<open>The contract a client relies on, without slots and hashes, and what follows from it: any run of
  operations answers as the same run on a mathematical map does.\<close>

datatype ('k, 'v) dict_op =
    Dict_Insert 'k 'v
  | Dict_Remove 'k
  | Dict_Lookup 'k

datatype 'v dict_answer =
    Done bool
  | Value "'v option"

fun dict_run ::
  "('k \<Rightarrow> 'v \<Rightarrow> 't \<Rightarrow> (bool \<times> 't) option) \<Rightarrow> ('k \<Rightarrow> 't \<Rightarrow> bool \<times> 't) \<Rightarrow> ('t \<Rightarrow> 'k \<Rightarrow> 'v option)
   \<Rightarrow> ('k, 'v) dict_op list \<Rightarrow> 't \<Rightarrow> ('v dict_answer list \<times> 't) option" where
  "dict_run ins rem look [] t = Some ([], t)"
| "dict_run ins rem look (Dict_Insert k v # ops) t =
     do { (ok, t) \<leftarrow> ins k v t; (out, t) \<leftarrow> dict_run ins rem look ops t; Some (Done ok # out, t) }"
| "dict_run ins rem look (Dict_Remove k # ops) t =
     (let (ok, t) = rem k t in do { (out, t) \<leftarrow> dict_run ins rem look ops t; Some (Done ok # out, t) })"
| "dict_run ins rem look (Dict_Lookup k # ops) t =
     do { (out, t') \<leftarrow> dict_run ins rem look ops t; Some (Value (look t k) # out, t') }"

fun map_run :: "('k, 'v) dict_op list \<Rightarrow> ('k \<rightharpoonup> 'v) \<Rightarrow> 'v dict_answer list" where
  "map_run [] m = []"
| "map_run (Dict_Insert k v # ops) m = Done True # map_run ops (m(k \<mapsto> v))"
| "map_run (Dict_Remove k # ops) m = Done (m k \<noteq> None) # map_run ops (m(k := None))"
| "map_run (Dict_Lookup k # ops) m = Value (m k) # map_run ops m"

locale dictionary =
  fixes valid :: "'t \<Rightarrow> bool" and ins :: "'k \<Rightarrow> 'v \<Rightarrow> 't \<Rightarrow> (bool \<times> 't) option"
    and rem :: "'k \<Rightarrow> 't \<Rightarrow> bool \<times> 't" and look :: "'t \<Rightarrow> 'k \<Rightarrow> 'v option"
  assumes ins_ok: "valid t \<Longrightarrow> \<exists>t'. ins k v t = Some (True, t') \<and> valid t' \<and> look t' = (look t)(k \<mapsto> v)"
    and rem_ok: "valid t \<Longrightarrow> rem k t = (ok, t') \<Longrightarrow>
      ok = (look t k \<noteq> None) \<and> valid t' \<and> look t' = (look t)(k := None)"
begin

lemma run_ok:
  "valid t \<Longrightarrow> \<exists>t'. dict_run ins rem look ops t = Some (map_run ops (look t), t') \<and> valid t'"
proof (induction ops arbitrary: t)
  case (Cons op ops)
  show ?case
  proof (cases op)
    case (Dict_Insert k v)
    obtain t1 where t1: "ins k v t = Some (True, t1)" "valid t1" "look t1 = (look t)(k \<mapsto> v)"
      using ins_ok [OF Cons.prems] by blast
    from Cons.IH [OF t1(2)] obtain t'
      where "dict_run ins rem look ops t1 = Some (map_run ops ((look t)(k \<mapsto> v)), t')" "valid t'"
      unfolding t1(3) by blast
    then show ?thesis using Dict_Insert t1(1) by simp
  next
    case (Dict_Remove k)
    obtain ok t1 where r: "rem k t = (ok, t1)" by (cases "rem k t")
    have t1: "ok = (look t k \<noteq> None)" "valid t1" "look t1 = (look t)(k := None)"
      using rem_ok [OF Cons.prems r] by auto
    from Cons.IH [OF t1(2)] obtain t'
      where "dict_run ins rem look ops t1 = Some (map_run ops ((look t)(k := None)), t')" "valid t'"
      unfolding t1(3) by blast
    then show ?thesis using Dict_Remove r t1(1) by simp
  next
    case (Dict_Lookup k)
    then show ?thesis using Cons.IH [OF Cons.prems] by auto
  qed
qed simp

end

section \<open>The tables of the code\<close>

text \<open>A zeroed table is a valid empty one: the first insertion allocates.\<close>

definition hashmap_ok :: "('k \<Rightarrow> u64) \<Rightarrow> ('k \<Rightarrow> 'k \<Rightarrow> bool) \<Rightarrow> ('k, 'v) hash_table \<Rightarrow> bool" where
  "hashmap_ok hash eq m \<longleftrightarrow> ht_slots m = [] \<or> ht_inv hash eq m"

definition hashmap_zero :: "('k, 'v) hash_table" where
  "hashmap_zero = \<lparr>ht_slots = [], ht_count = 0, ht_tombstones = 0\<rparr>"

lemma lookup_no_slots: "ht_slots m = [] \<Longrightarrow> ht_lookup hash eq m k = None"
  by (simp add: ht_lookup_def)

lemma hashmap_ok_zero [simp]: "hashmap_ok hash eq hashmap_zero"
  and hashmap_get_zero [simp]: "hashmap_get hash eq hashmap_zero = Map.empty"
  by (auto simp: hashmap_ok_def hashmap_zero_def hashmap_get_def lookup_no_slots)

locale exact_key =
  fixes hash :: "'k \<Rightarrow> u64" and eq :: "'k \<Rightarrow> 'k \<Rightarrow> bool"
  assumes eq_iff: "eq k k' \<longleftrightarrow> k = k'"

sublocale exact_key \<subseteq> hash_key hash eq
  by unfold_locales (simp_all add: eq_iff)

context exact_key begin

lemma ensure_init_ok:
  fixes m :: "('k, 'v) hash_table"
  shows "hashmap_ok hash eq m \<Longrightarrow> ht_inv hash eq (ht_ensure_init m)
     \<and> ht_lookup hash eq (ht_ensure_init m) = ht_lookup hash eq m"
  using init [of 8] lookup_no_slots [of m]
  by (auto simp: hashmap_ok_def ht_ensure_init_def fun_eq_iff lookup_init)

lemma set_ok:
  assumes "hashmap_ok hash eq m"
  shows "\<exists>m'. hashmap_set hash eq k v m = Some (True, m') \<and> hashmap_ok hash eq m'
    \<and> hashmap_get hash eq m' = (hashmap_get hash eq m)(k \<mapsto> v)"
proof -
  have "ht_inv hash eq (ht_ensure_init m)" "ht_lookup hash eq (ht_ensure_init m) = ht_lookup hash eq m"
    using ensure_init_ok [OF assms] by auto
  then show ?thesis using insert_ok [of "ht_ensure_init m" 0 False True True k v]
    by (auto simp: hashmap_set_def hashmap_get_def hashmap_ok_def fun_eq_iff numeral_2_eq_2 eq_iff
        simp del: ht_insert.simps)
qed

lemma add_ok:
  assumes "hashmap_ok hash eq m"
  shows "\<exists>m'. hashset_add hash eq k m = Some (\<not> hashmap_contains hash eq m k, m') \<and> hashmap_ok hash eq m'
    \<and> hashmap_get hash eq m' = (hashmap_get hash eq m)(k \<mapsto> ())"
proof -
  have "ht_inv hash eq (ht_ensure_init m)" "ht_lookup hash eq (ht_ensure_init m) = ht_lookup hash eq m"
    using ensure_init_ok [OF assms] by auto
  then show ?thesis using insert_ok [of "ht_ensure_init m" 0 False False False k "()"]
    by (auto simp: hashset_add_def hashmap_get_def hashmap_contains_def hashmap_ok_def fun_eq_iff
        numeral_2_eq_2 eq_iff simp del: ht_insert.simps)
qed

lemma map_remove_ok:
  assumes "hashmap_ok hash eq m" "hashmap_remove hash eq k m = (ok, m')"
  shows "ok = (hashmap_get hash eq m k \<noteq> None) \<and> hashmap_ok hash eq m'
    \<and> hashmap_get hash eq m' = (hashmap_get hash eq m)(k := None)"
proof (cases "ht_slots m = []")
  case True
  then show ?thesis using assms
    by (auto simp: hashmap_remove_def hashmap_get_def hashmap_ok_def ht_remove_def lookup_no_slots fun_eq_iff)
next
  case False
  then show ?thesis using assms remove_ok [of m k ok m']
    by (auto simp: hashmap_remove_def hashmap_get_def hashmap_ok_def eq_iff fun_eq_iff)
qed

end

sublocale exact_key \<subseteq> compiled: dictionary "hashmap_ok hash eq" "hashmap_set hash eq"
  "hashmap_remove hash eq" "hashmap_get hash eq"
  using set_ok map_remove_ok by unfold_locales

lemma key_match_iff [simp]: "key_match a b \<longleftrightarrow> a = b"
  by (simp add: key_match_def)

interpretation str8_key: exact_key str8_hash key_match
  by unfold_locales simp

interpretation bbb_str_key: exact_key bbb_str8_hash key_match
  by unfold_locales simp

interpretation bbb_num_key: exact_key bbb_hash_mix_u64 "(=)"
  by unfold_locales simp

interpretation compiler_table: dictionary "ht_inv str8_hash key_match"
  "\<lambda>k v t. hashtable_insert t k v True" "\<lambda>k t. hashtable_remove t k" "hashtable_lookup"
proof
  fix t :: "(string, 'v) hash_table" and k v assume inv: "ht_inv str8_hash key_match t"
  show "\<exists>t'. hashtable_insert t k v True = Some (True, t') \<and> ht_inv str8_hash key_match t'
      \<and> hashtable_lookup t' = (hashtable_lookup t)(k \<mapsto> v)"
    using str8_key.insert_ok [OF inv, of 0 True False True k v]
    by (auto simp: hashtable_insert_def hashtable_lookup_def fun_eq_iff numeral_2_eq_2
        simp del: ht_insert.simps)
next
  fix t :: "(string, 'v) hash_table" and k ok t'
  assume "ht_inv str8_hash key_match t" "hashtable_remove t k = (ok, t')"
  then show "ok = (hashtable_lookup t k \<noteq> None) \<and> ht_inv str8_hash key_match t'
      \<and> hashtable_lookup t' = (hashtable_lookup t)(k := None)"
    using str8_key.remove_ok [of t k ok t']
    by (auto simp: hashtable_remove_def hashtable_lookup_def fun_eq_iff)
qed

section \<open>Properties\<close>



text \<open>
  C19: The map a compiled program gets from \<^verbatim>\<open>bbb_DEFINE_HASHMAP\<close>, starting zeroed and with either
  of the key function pairs the code generator emits, answers as a mathematical map does.
\<close>

theorem hashmap_simulates_map:
  "(\<exists>m'. dict_run (hashmap_set bbb_str8_hash key_match) (hashmap_remove bbb_str8_hash key_match)
      (hashmap_get bbb_str8_hash key_match) ops hashmap_zero = Some (map_run ops Map.empty, m'))
   \<and> (\<exists>m'. dict_run (hashmap_set bbb_hash_mix_u64 (=)) (hashmap_remove bbb_hash_mix_u64 (=))
      (hashmap_get bbb_hash_mix_u64 (=)) ops' hashmap_zero = Some (map_run ops' Map.empty, m'))"
  using bbb_str_key.compiled.run_ok [OF hashmap_ok_zero, of ops]
    bbb_num_key.compiled.run_ok [OF hashmap_ok_zero, of ops'] by auto

text \<open>
  Adding to a compiled set reports whether the element is new and makes it a member, whatever
  the set held; inserting without overwriting into the compiler's table keeps the old value.
\<close>

theorem hashset_add_reports_new:
  assumes "hashmap_ok bbb_hash_mix_u64 (=) m"
  shows "\<exists>m'. hashset_add bbb_hash_mix_u64 (=) k m = Some (\<not> hashmap_contains bbb_hash_mix_u64 (=) m k, m')
    \<and> hashmap_ok bbb_hash_mix_u64 (=) m'
    \<and> (\<forall>k'. hashmap_contains bbb_hash_mix_u64 (=) m' k' \<longleftrightarrow> k' = k \<or> hashmap_contains bbb_hash_mix_u64 (=) m k')"
  using bbb_num_key.add_ok [OF assms, of k] by (auto simp: hashmap_contains_def)

lemma hashset_add_reports_new_witness:
  "\<exists>m'. hashset_add bbb_hash_mix_u64 (=) 7 hashmap_zero = Some (True, m')
    \<and> hashmap_contains bbb_hash_mix_u64 (=) m' 7"
  using hashset_add_reports_new [OF hashmap_ok_zero, of 7] by (auto simp: hashmap_contains_def)

text \<open>One key set and removed, \<open>n\<close> times.\<close>

fun churn :: "('k \<Rightarrow> u64) \<Rightarrow> ('k \<Rightarrow> 'k \<Rightarrow> bool) \<Rightarrow> 'k \<Rightarrow> 'v \<Rightarrow> nat \<Rightarrow> ('k, 'v) hash_table
    \<Rightarrow> ('k, 'v) hash_table option" where
  "churn hash eq k v 0 m = Some m"
| "churn hash eq k v (Suc n) m =
     do { m \<leftarrow> churn hash eq k v n m; (ok, m) \<leftarrow> hashmap_set hash eq k v m;
          Some (snd (hashmap_remove hash eq k m)) }"

context exact_key begin

lemma churn_step:
  assumes inv: "ht_inv hash eq m" and c: "ht_count m = 0"
    and s: "hashmap_set hash eq k v m = Some (ok, m1)" and r: "hashmap_remove hash eq k m1 = (ok2, m2)"
  shows "ht_inv hash eq m2 \<and> ht_count m2 = 0
    \<and> (if length (ht_slots m) \<le> ht_tombstones m * 2
       then length (ht_slots m2) = 2 * length (ht_slots m) \<and> ht_tombstones m2 = 1
       else length (ht_slots m2) = length (ht_slots m) \<and> ht_tombstones m2 = ht_tombstones m + 1)"
proof -
  have ne: "ht_slots m \<noteq> []" using inv by (simp add: ht_inv_def)
  have i: "ht_insert (Suc (Suc 0)) False True True hash eq k v m = Some (ok, m1)"
    using s ne by (simp add: hashmap_set_def ht_ensure_init_def numeral_2_eq_2 del: ht_insert.simps)
  have none: "ht_lookup hash eq m k = None"
  proof (rule lookup_absent, rule allI, rule notI)
    fix p assume "holds eq (ht_slots m) k p"
    then have "filter occupied (ht_slots m) \<noteq> []"
      by (auto simp: holds_def filter_empty_conv occupied_def dest!: nth_mem)
    then show False using inv c by (simp add: ht_inv_def n_occupied_def)
  qed
  have m1: "ht_inv hash eq m1" "ht_count m1 = 1" "ht_lookup hash eq m1 k = Some v"
    using insert_ok [OF inv, of 0 False True True k v] none c eq_refl unfolding i by auto
  have r': "ht_remove hash eq k m1 = (ok2, m2)" using r by (simp add: hashmap_remove_def)
  have "ok2 = (ht_lookup hash eq m1 k \<noteq> None)" "ht_inv hash eq m2" "ht_count m1 = ht_count m2 + of_bool ok2"
    using remove_ok [OF m1(1) r'] by blast+
  then have "ok2" "ht_inv hash eq m2" "ht_count m2 = 0" using m1(2,3) by simp_all
  then show ?thesis using insert_shape [OF inv i] remove_shape [OF m1(1) r'] c by simp
qed

lemma churn_grows:
  "\<exists>m. churn hash eq k v (Suc n) (hashmap_zero :: ('k, 'v) hash_table) = Some m
    \<and> ht_inv hash eq m \<and> ht_count m = 0 \<and> 2 * ht_tombstones m \<le> length (ht_slots m)
    \<and> length (ht_slots m) + 2 * ht_tombstones m = 2 * Suc n + 8"
proof (induction n)
  case 0
  let ?m = "hashtable_init 8 :: ('k, 'v) hash_table"
  have "ht_inv hash eq ?m" by (rule init) simp
  moreover have "hashmap_set hash eq k v hashmap_zero = hashmap_set hash eq k v ?m"
    by (simp add: hashmap_set_def ht_ensure_init_def hashmap_zero_def hashtable_init_def)
  moreover obtain m1 where "hashmap_set hash eq k v ?m = Some (True, m1)"
    using set_ok [of ?m k v] \<open>ht_inv hash eq ?m\<close> by (auto simp: hashmap_ok_def)
  moreover obtain ok2 m2 where "hashmap_remove hash eq k m1 = (ok2, m2)" by (cases "hashmap_remove hash eq k m1")
  ultimately show ?case using churn_step [of ?m k v True m1 ok2 m2] by (auto simp: hashtable_init_def)
next
  case (Suc n)
  then obtain m where m: "churn hash eq k v (Suc n) (hashmap_zero :: ('k, 'v) hash_table) = Some m"
    "ht_inv hash eq m" "ht_count m = 0" "2 * ht_tombstones m \<le> length (ht_slots m)"
    "length (ht_slots m) + 2 * ht_tombstones m = 2 * Suc n + 8" by blast
  obtain m1 where s: "hashmap_set hash eq k v m = Some (True, m1)"
    using set_ok [of m k v] m(2) by (auto simp: hashmap_ok_def)
  obtain ok2 m2 where r: "hashmap_remove hash eq k m1 = (ok2, m2)" by (cases "hashmap_remove hash eq k m1")
  have "churn hash eq k v (Suc (Suc n)) hashmap_zero = Some m2"
    by (subst churn.simps(2), subst m(1)) (simp add: s r)
  moreover have "\<not> length (ht_slots m) \<le> ht_tombstones m * 2 \<Longrightarrow>
      Suc (Suc (2 * ht_tombstones m)) \<le> length (ht_slots m)" using m(5) by presburger
  ultimately show ?case using churn_step [OF m(2,3) s r] m(4,5) by (simp split: if_splits)
qed

end

text \<open>
  A reused tombstone of a compiled map stays counted (the compiler's own table uncounts it), so
  a map that only ever holds one key, set and removed \<open>n\<close> times, ends empty with at least
  \<open>n + 4\<close> slots: its memory grows linearly with the number of operations.
\<close>

theorem hashmap_churn_grows:
  assumes "0 < n"
  shows "\<exists>m. churn bbb_str8_hash key_match k v n hashmap_zero = Some m
    \<and> (\<forall>k. hashmap_get bbb_str8_hash key_match m k = None) \<and> n + 4 \<le> length (ht_slots m)"
proof -
  obtain j where j: "n = Suc j" using assms by (cases n) auto
  obtain m where m: "churn bbb_str8_hash key_match k v n hashmap_zero = Some m"
    "ht_inv bbb_str8_hash key_match m" "ht_count m = 0" "2 * ht_tombstones m \<le> length (ht_slots m)"
    "length (ht_slots m) + 2 * ht_tombstones m = 2 * n + 8"
    using bbb_str_key.churn_grows [of k v j] j by blast
  have "hashmap_get bbb_str8_hash key_match m k' = None" for k'
  proof (rule ccontr)
    assume "hashmap_get bbb_str8_hash key_match m k' \<noteq> None"
    then obtain p k1 w where "p < length (ht_slots m)" "ht_slots m ! p = Slot_Occupied k1 w"
      using bbb_str_key.lookup_iff [OF m(2), of k'] by (auto simp: hashmap_get_def)
    then have "filter occupied (ht_slots m) \<noteq> []"
      by (auto simp: filter_empty_conv occupied_def dest!: nth_mem)
    then show False using m(2,3) by (simp add: ht_inv_def n_occupied_def)
  qed
  then show ?thesis using m by auto
qed

lemma hashmap_churn_grows_witness:
  "\<exists>m. churn bbb_str8_hash key_match ''k'' (1 :: nat) 1000 hashmap_zero = Some m \<and> 1004 \<le> length (ht_slots m)"
  using hashmap_churn_grows [of 1000 "''k''" "1 :: nat"] by auto

end
