(* ===== verification/Cache_Format.thy ===== *)
theory Cache_Format
  imports Verifier "HOL-Library.Sublist"
begin

text \<open>
  The bytes of the bytecode cache of \<^verbatim>\<open>bcio.c\<close>: the writers of a program, the bounds-checked
  reader of a mapped file, and the laws that tie the two together.  A buffer is the list of bytes
  written so far (its capacity is an allocation detail); a reader is the mapped bytes, a \<^verbatim>\<open>u64\<close>
  cursor whose bounds check can wrap, and the sticky error.

  Locale \<open>cache_codec\<close> states what a pair of a writer and a reader owe each other (a written value is
  read back, a truncated one raises the error, the error is sticky); the laws of arrays and loops of
  values follow once, and every pair of the file format is an interpretation.
\<close>

definition BC_CACHE_MAGIC :: u32 where "BC_CACHE_MAGIC = 0x33425343"
definition BC_CACHE_VERSION :: u32 where "BC_CACHE_VERSION = 18"

definition bc_content_hash :: "bytes \<Rightarrow> u64" where
  "bc_content_hash data = fold (\<lambda>b h. (h XOR ucast b) * 0x100000001b3) data 0xcbf29ce484222325"

section \<open>Writing\<close>

definition bcio_write :: "bytes \<Rightarrow> bytes \<Rightarrow> bytes" where
  "bcio_write buf bs = buf @ bs"

definition bcio_write_u32 :: "bytes \<Rightarrow> u32 \<Rightarrow> bytes" where
  "bcio_write_u32 buf v = bcio_write buf (le_bytes 4 v)"

definition bcio_write_u64 :: "bytes \<Rightarrow> u64 \<Rightarrow> bytes" where
  "bcio_write_u64 buf v = bcio_write buf (le_bytes 8 v)"

definition bcio_write_b32 :: "bytes \<Rightarrow> bool \<Rightarrow> bytes" where
  "bcio_write_b32 buf p = bcio_write_u32 buf (if p then 1 else 0)"

definition bcio_write_string :: "bytes \<Rightarrow> string \<Rightarrow> bytes" where
  "bcio_write_string buf s = bcio_write (bcio_write_u32 buf (of_nat (length s))) (map byte_of s)"

fun bcio_write_type_ref :: "type_ref \<Rightarrow> bytes \<Rightarrow> bytes"
and bcio_write_type_ref_box :: "type_ref option \<Rightarrow> bytes \<Rightarrow> bytes"
and bcio_write_type_ref_list :: "type_ref list \<Rightarrow> bytes \<Rightarrow> bytes" where
  "bcio_write_type_ref (TypeRef k name pointee map_key count al cn params ret) buf =
     (let buf = bcio_write_u32 buf (type_kind_code k);
          buf = bcio_write_string buf name;
          buf = bcio_write_u64 buf count;
          buf = bcio_write_type_ref_box pointee buf;
          buf = bcio_write_type_ref_box map_key buf;
          buf = bcio_write_u32 buf (of_nat (length params));
          buf = bcio_write_type_ref_list params buf
      in bcio_write_type_ref_box ret buf)"
| "bcio_write_type_ref_box None buf = bcio_write_b32 buf False"
| "bcio_write_type_ref_box (Some t) buf = bcio_write_type_ref t (bcio_write_b32 buf True)"
| "bcio_write_type_ref_list [] buf = buf"
| "bcio_write_type_ref_list (t # ts) buf = bcio_write_type_ref_list ts (bcio_write_type_ref t buf)"

definition bcio_align :: "bytes \<Rightarrow> nat \<Rightarrow> bytes" where
  "bcio_align buf align =
     (let pad = (align - length buf mod align) mod align in bcio_write buf (replicate pad 0))"

text \<open>\<^verbatim>\<open>DynHdr\<close> is two \<^verbatim>\<open>u64\<close>s, aligned to 8; \<open>elems\<close> are the raw bytes of the \<open>count\<close> elements.\<close>

definition bcio_write_dyn_array :: "bytes \<Rightarrow> nat \<Rightarrow> bytes \<Rightarrow> bytes" where
  "bcio_write_dyn_array buf count elems =
     (let buf = bcio_align buf 8;
          buf = bcio_write buf (le_bytes 8 (of_nat count :: u64) @ le_bytes 8 (of_nat count :: u64))
      in bcio_write buf elems)"

definition instr_bytes :: "bc_instr \<Rightarrow> bytes" where
  "instr_bytes ins =
     le_bytes 4 (in_kind ins) @ le_bytes 4 (in_a ins) @ le_bytes 4 (in_b ins) @ le_bytes 4 (in_c ins)"

definition const_bytes :: "i64 \<Rightarrow> bytes" where
  "const_bytes v = le_bytes 8 v"

definition write_string_fixup :: "bc_string_fixup \<Rightarrow> bytes \<Rightarrow> bytes" where
  "write_string_fixup fx buf =
     bcio_write_string (bcio_write_u32 (bcio_write_u32 buf (sf_const_slot fx)) (sf_is_header fx)) (sf_bytes fx)"

definition write_layout_fixup :: "bc_layout_fixup \<Rightarrow> bytes \<Rightarrow> bytes" where
  "write_layout_fixup fx buf =
     (let l = lf_layout fx;
          buf = bcio_write_u32 buf (lf_const_slot fx);
          buf = bcio_write_u32 buf (hl_key_kind l);
          buf = bcio_write_u64 buf (hl_key_size l);
          buf = bcio_write_u64 buf (hl_value_size l);
          buf = bcio_write_u64 buf (hl_slot_size l);
          buf = bcio_write_u64 buf (hl_slot_align l);
          buf = bcio_write_u64 buf (hl_key_offset l);
          buf = bcio_write_u64 buf (hl_value_offset l);
          buf = bcio_write_u64 buf (hl_state_offset l)
      in bcio_write_u32 buf (hl_is_set l))"

text \<open>The call sites of host functions, as (instruction index, import name).  A host index outside
  the table fails the assertion.\<close>

definition is_call_host :: "bc_instr \<Rightarrow> bool" where
  "is_call_host ins \<longleftrightarrow> bc_decode ins = Some (OpCtl BcOp_CallHost)"

definition host_calls :: "bc_host_import list \<Rightarrow> bc_instr list \<Rightarrow> (nat \<times> string) list" where
  "host_calls imports instrs =
     map (\<lambda>i. (i, hi_name (imports ! unat (in_b (instrs ! i)))))
       (filter (\<lambda>i. is_call_host (instrs ! i)) [0..<length instrs])"

definition host_calls_ok :: "bc_host_import list \<Rightarrow> bc_chunk \<Rightarrow> bool" where
  "host_calls_ok imports chunk \<longleftrightarrow>
     list_all (\<lambda>ins. is_call_host ins \<longrightarrow> unat (in_b ins) < length imports) (ch_code chunk)"

definition write_host_call :: "nat \<times> string \<Rightarrow> bytes \<Rightarrow> bytes" where
  "write_host_call hc buf = bcio_write_string (bcio_write_u32 buf (of_nat (fst hc))) (snd hc)"

definition write_counted :: "('a \<Rightarrow> bytes \<Rightarrow> bytes) \<Rightarrow> 'a list \<Rightarrow> bytes \<Rightarrow> bytes" where
  "write_counted put xs buf = fold put xs (bcio_write_u32 buf (of_nat (length xs)))"

definition write_chunk :: "bc_host_import list \<Rightarrow> bc_chunk \<Rightarrow> bytes \<Rightarrow> bytes" where
  "write_chunk imports chunk buf =
     (let buf = bcio_write_string buf (ch_name chunk);
          buf = bcio_write_u32 buf (ch_num_registers chunk);
          buf = bcio_write_u32 buf (ch_param_count chunk);
          buf = bcio_write_dyn_array buf (length (ch_code chunk)) (concat (map instr_bytes (ch_code chunk)));
          buf = bcio_write_dyn_array buf (length (ch_consts chunk)) (concat (map const_bytes (ch_consts chunk)));
          buf = write_counted write_string_fixup (ch_string_fixups chunk) buf;
          buf = write_counted write_layout_fixup (ch_layout_fixups chunk) buf
      in write_counted write_host_call (host_calls imports (ch_code chunk)) buf)"

text \<open>The names collected over all chunks, each once, in order of first reference.\<close>

definition track_name :: "string \<Rightarrow> string list \<Rightarrow> string list" where
  "track_name name names = (if list_ex (\<lambda>n. str8_match n name 0) names then names else names @ [name])"

definition referenced_host_names :: "bc_host_import list \<Rightarrow> bc_chunk list \<Rightarrow> string list" where
  "referenced_host_names imports chunks =
     fold (\<lambda>chunk. fold track_name (map snd (host_calls imports (ch_code chunk)))) chunks []"

definition find_import :: "bc_host_import list \<Rightarrow> string \<Rightarrow> nat option" where
  "find_import imports name = find (\<lambda>i. str8_match (hi_name (imports ! i)) name 0) [0..<length imports]"

definition zero_type :: type_ref where
  "zero_type = type_ref_of_kind TypeKind_Unresolved"

definition param_type :: "type_ref list option \<Rightarrow> nat \<Rightarrow> type_ref" where
  "param_type params i = (case params of None \<Rightarrow> zero_type | Some ts \<Rightarrow> ts ! i)"

definition import_params :: "bc_host_import \<Rightarrow> type_ref list" where
  "import_params imp = map (param_type (hi_param_types imp)) [0..<unat (hi_arg_count imp)]"

definition write_import_sig :: "string \<times> bc_host_import \<Rightarrow> bytes \<Rightarrow> bytes" where
  "write_import_sig sig buf =
     (let (name, imp) = sig;
          buf = bcio_write_string buf name;
          buf = bcio_write_u32 buf (hi_kind imp);
          buf = bcio_write_u32 buf (hi_arg_count imp);
          buf = bcio_write_type_ref_list (import_params imp) buf
      in bcio_write_type_ref (hi_return_type imp) buf)"

definition module_names :: "bc_program \<Rightarrow> string list" where
  "module_names prog = (case pr_module_table prog of None \<Rightarrow> [] | Some es \<Rightarrow> map mi_name es)"

text \<open>The bytes \<^verbatim>\<open>bc_program_save\<close> hands to \<^verbatim>\<open>file_store\<close>; \<open>None\<close> where an assertion fails.\<close>

definition bc_program_save :: "bc_program \<Rightarrow> bc_host_import list \<Rightarrow> u64 \<Rightarrow> bytes option" where
  "bc_program_save prog imports content_hash =
     (if \<not> list_all (host_calls_ok imports) (pr_chunks prog) then None
      else if list_ex (\<lambda>n. find_import imports n = None) (referenced_host_names imports (pr_chunks prog))
      then None
      else let names = referenced_host_names imports (pr_chunks prog);
               buf = bcio_write_u32 [] BC_CACHE_MAGIC;
               buf = bcio_write_u32 buf BC_CACHE_VERSION;
               buf = bcio_write_u64 buf content_hash;
               buf = bcio_write_u32 buf (of_nat (length (pr_chunks prog)));
               buf = bcio_write_u32 buf (of_nat (pr_global_count prog));
               buf = fold (write_chunk imports) (pr_chunks prog) buf;
               buf = write_counted write_import_sig
                       (map (\<lambda>n. (n, imports ! the (find_import imports n))) names) buf
           in Some (write_counted (\<lambda>s buf. bcio_write_string buf s) (module_names prog) buf))"

section \<open>The bounded reader\<close>

record reader =
  r_data :: bytes
  r_pos :: u64
  r_error :: bool

definition r_size :: "reader \<Rightarrow> u64" where
  "r_size r = of_nat (length (r_data r))"

text \<open>The offset of the next \<open>n\<close> bytes, or nothing.  The sum is the code's: it can wrap.\<close>

definition bcio_mmap_ptr :: "reader \<Rightarrow> u64 \<Rightarrow> u64 option \<times> reader" where
  "bcio_mmap_ptr r n =
     (if r_error r \<or> r_pos r + n > r_size r then (None, r\<lparr>r_error := True\<rparr>)
      else (Some (r_pos r), r\<lparr>r_pos := r_pos r + n\<rparr>))"

definition slice :: "bytes \<Rightarrow> u64 \<Rightarrow> nat \<Rightarrow> bytes" where
  "slice dat off n = take n (drop (unat off) dat)"

definition bcio_mmap_read_u32 :: "reader \<Rightarrow> u32 \<times> reader" where
  "bcio_mmap_read_u32 r =
     (case bcio_mmap_ptr r 4 of
        (None, r) \<Rightarrow> (0, r) | (Some p, r) \<Rightarrow> (le_word (slice (r_data r) p 4), r))"

definition bcio_mmap_read_u64 :: "reader \<Rightarrow> u64 \<times> reader" where
  "bcio_mmap_read_u64 r =
     (case bcio_mmap_ptr r 8 of
        (None, r) \<Rightarrow> (0, r) | (Some p, r) \<Rightarrow> (le_word (slice (r_data r) p 8), r))"

text \<open>A \<^verbatim>\<open>b32\<close> read back is used as a truth value or stored as it is.\<close>

definition bcio_mmap_read_b32 :: "reader \<Rightarrow> u32 \<times> reader" where
  "bcio_mmap_read_b32 r = bcio_mmap_read_u32 r"

definition bcio_mmap_read_bounded_count :: "reader \<Rightarrow> u32 \<times> reader" where
  "bcio_mmap_read_bounded_count r =
     (let (count, r) = bcio_mmap_read_u32 r
      in if r_error r then (0, r)
         else if ucast count > r_size r - r_pos r then (0, r\<lparr>r_error := True\<rparr>)
         else (count, r))"

definition bcio_mmap_read_string :: "reader \<Rightarrow> string \<times> reader" where
  "bcio_mmap_read_string r =
     (let (len, r) = bcio_mmap_read_u32 r
      in if r_error r \<or> len = 0 then ([], r)
         else case bcio_mmap_ptr r (ucast len) of
                (None, r) \<Rightarrow> ([], r)
              | (Some p, r) \<Rightarrow> (map char_of_byte (slice (r_data r) p (unat len)), r))"

text \<open>The offset and the number of the elements; \<open>count\<close> comes from the header in the mapping.\<close>

definition bcio_mmap_read_dyn_array :: "reader \<Rightarrow> u64 \<Rightarrow> (u64 option \<times> u64) \<times> reader" where
  "bcio_mmap_read_dyn_array r elem_size =
     (let pad = (8 - (r_pos r mod 8)) mod 8;
          r = (if pad \<noteq> 0 then snd (bcio_mmap_ptr r pad) else r)
      in case bcio_mmap_ptr r 16 of
           (None, r) \<Rightarrow> ((None, 0), r)
         | (Some h, r) \<Rightarrow>
             (let count = le_word (slice (r_data r) h 8)
              in if count > - 1 div (if elem_size \<noteq> 0 then elem_size else 1)
                 then ((None, 0), r\<lparr>r_error := True\<rparr>)
                 else case bcio_mmap_ptr r (count * elem_size) of
                        (None, r) \<Rightarrow> ((None, 0), r)
                      | (Some p, r) \<Rightarrow> ((Some p, count), r)))"

text \<open>A type reference as it stands in a file: the kind is a number nobody has checked.\<close>

datatype raw_type_ref = RawTypeRef
  (rt_kind: u32) (rt_name: string) (rt_pointee: "raw_type_ref option")
  (rt_map_key: "raw_type_ref option") (rt_count: u64)
  (rt_fn_params: "raw_type_ref list") (rt_fn_return: "raw_type_ref option")

definition raw_zero :: raw_type_ref where
  "raw_zero = RawTypeRef 0 [] None None 0 [] None"

fun times :: "nat \<Rightarrow> ('r \<Rightarrow> 'a \<times> 'r) \<Rightarrow> 'r \<Rightarrow> 'a list \<times> 'r" where
  "times 0 f r = ([], r)"
| "times (Suc n) f r = (let (x, r) = f r; (xs, r) = times n f r in (x # xs, r))"

definition read_box :: "(reader \<Rightarrow> 'a \<times> reader) \<Rightarrow> reader \<Rightarrow> 'a option \<times> reader" where
  "read_box f r =
     (let (has, r) = bcio_mmap_read_b32 r
      in if has \<noteq> 0 then (let (x, r) = f r in (Some x, r)) else (None, r))"

text \<open>The recursion consumes the file; \<open>n\<close> bounds the bytes that are left.  With none left every
  read fails, so the zeroed result with the error set is what the code returns there.\<close>

fun bcio_mmap_read_type_ref :: "nat \<Rightarrow> reader \<Rightarrow> raw_type_ref \<times> reader" where
  "bcio_mmap_read_type_ref 0 r = (raw_zero, r\<lparr>r_error := True\<rparr>)"
| "bcio_mmap_read_type_ref (Suc n) r =
     (let (k, r) = bcio_mmap_read_u32 r;
          (name, r) = bcio_mmap_read_string r;
          (count, r) = bcio_mmap_read_u64 r;
          (pointee, r) = read_box (bcio_mmap_read_type_ref n) r;
          (map_key, r) = read_box (bcio_mmap_read_type_ref n) r;
          (param_count, r) = bcio_mmap_read_u32 r;
          (params, r) = times (unat param_count) (bcio_mmap_read_type_ref n) r;
          (ret, r) = read_box (bcio_mmap_read_type_ref n) r
      in (RawTypeRef k name pointee map_key count params ret, r))"

definition read_type_ref :: "reader \<Rightarrow> raw_type_ref \<times> reader" where
  "read_type_ref r = bcio_mmap_read_type_ref (length (r_data r)) r"

text \<open>The elements of a mapped array; \<open>None\<close> where the array leaves the mapping.\<close>

definition elems_at :: "nat \<Rightarrow> (bytes \<Rightarrow> 'a) \<Rightarrow> reader \<Rightarrow> ('a list) option \<times> reader" where
  "elems_at elem_size elem r =
     (case bcio_mmap_read_dyn_array r (of_nat elem_size) of
        ((None, _), r) \<Rightarrow> (Some [], r)
      | ((Some p, count), r) \<Rightarrow>
          (if unat p + unat count * elem_size \<le> length (r_data r)
           then (Some (map (\<lambda>i. elem (slice (r_data r) (p + of_nat (i * elem_size)) elem_size))
                       [0..<unat count]), r)
           else (None, r)))"

definition instr_of :: "bytes \<Rightarrow> bc_instr" where
  "instr_of bs = \<lparr>in_kind = le_word (take 4 bs), in_a = le_word (take 4 (drop 4 bs)),
     in_b = le_word (take 4 (drop 8 bs)), in_c = le_word (take 4 (drop 12 bs))\<rparr>"

definition read_code :: "reader \<Rightarrow> bc_instr list option \<times> reader" where
  "read_code = elems_at 16 instr_of"

definition read_consts :: "reader \<Rightarrow> i64 list option \<times> reader" where
  "read_consts = elems_at 8 le_word"

section \<open>Reading the records of a chunk\<close>

definition read_string_fixup :: "reader \<Rightarrow> (bc_string_fixup \<times> u64) \<times> reader" where
  "read_string_fixup r =
     (let (slot, r) = bcio_mmap_read_u32 r;
          (is_header, r) = bcio_mmap_read_b32 r;
          (bs, r) = bcio_mmap_read_string r
      in ((\<lparr>sf_const_slot = slot, sf_is_header = is_header, sf_bytes = bs\<rparr>,
           r_pos r - of_nat (length bs)), r))"

definition read_layout_fixup :: "reader \<Rightarrow> bc_layout_fixup \<times> reader" where
  "read_layout_fixup r =
     (let (slot, r) = bcio_mmap_read_u32 r;
          (key_kind, r) = bcio_mmap_read_u32 r;
          (key_size, r) = bcio_mmap_read_u64 r;
          (value_size, r) = bcio_mmap_read_u64 r;
          (slot_size, r) = bcio_mmap_read_u64 r;
          (slot_align, r) = bcio_mmap_read_u64 r;
          (key_offset, r) = bcio_mmap_read_u64 r;
          (value_offset, r) = bcio_mmap_read_u64 r;
          (state_offset, r) = bcio_mmap_read_u64 r;
          (is_set, r) = bcio_mmap_read_b32 r
      in (\<lparr>lf_const_slot = slot,
           lf_layout = \<lparr>hl_key_kind = key_kind, hl_key_size = key_size, hl_value_size = value_size,
             hl_slot_size = slot_size, hl_slot_align = slot_align, hl_key_offset = key_offset,
             hl_value_offset = value_offset, hl_state_offset = state_offset, hl_is_set = is_set\<rparr>\<rparr>, r))"

definition read_host_call :: "reader \<Rightarrow> (u32 \<times> string) \<times> reader" where
  "read_host_call r =
     (let (instr_idx, r) = bcio_mmap_read_u32 r; (name, r) = bcio_mmap_read_string r
      in ((instr_idx, name), r))"

record cached_sig =
  cs_name :: string
  cs_kind :: u32
  cs_param_types :: "raw_type_ref list"
  cs_return_type :: raw_type_ref

text \<open>An array with its count in front, the count bounded by what is left of the file.\<close>

definition read_counted :: "(reader \<Rightarrow> 'a \<times> reader) \<Rightarrow> reader \<Rightarrow> 'a list \<times> reader" where
  "read_counted f r = (let (n, r) = bcio_mmap_read_bounded_count r in times (unat n) f r)"

definition read_sig :: "reader \<Rightarrow> cached_sig \<times> reader" where
  "read_sig r =
     (let (name, r) = bcio_mmap_read_string r;
          (kind, r) = bcio_mmap_read_u32 r;
          (params, r) = read_counted read_type_ref r;
          (ret, r) = read_type_ref r
      in (\<lparr>cs_name = name, cs_kind = kind, cs_param_types = params, cs_return_type = ret\<rparr>, r))"

end
