(* ===== verification/Cache_Codec.thy ===== *)
theory Cache_Codec
  imports Cache_Format
begin

text \<open>
  The laws of the cache file's codecs: reading back what was written, running into the end of a
  truncated file, and the sticky error.  One locale holds the contract, every field type of the
  format is an interpretation of it.
\<close>

section \<open>The cursor\<close>

lemma unat_of_nat_small: "n < 2 ^ LENGTH('a::len) \<Longrightarrow> unat (of_nat n :: 'a word) = n"
  by (simp add: unsigned_of_nat take_bit_nat_eq_self)

definition at :: "bytes \<Rightarrow> nat \<Rightarrow> reader" where
  "at dat p = \<lparr>r_data = dat, r_pos = of_nat p, r_error = False\<rparr>"

text \<open>No file has \<open>2^62\<close> bytes.\<close>

definition small :: "bytes \<Rightarrow> bool" where
  "small dat \<longleftrightarrow> length dat < 2 ^ 62"

lemma at_simps [simp]: "r_data (at dat p) = dat" "r_error (at dat p) = False"
  "r_pos (at dat p) = of_nat p"
  by (simp_all add: at_def)

lemma small_pos: "small dat \<Longrightarrow> p \<le> length dat \<Longrightarrow> unat (of_nat p :: u64) = p"
  by (simp add: unat_of_nat_small small_def)

lemma at_pos_simps:
  assumes "small dat" "p \<le> length dat" "n < 2 ^ 62"
  shows "(of_nat p + of_nat n > (of_nat (length dat) :: u64)) \<longleftrightarrow> length dat < p + n"
proof -
  have "of_nat p + of_nat n = (of_nat (p + n) :: u64)" by simp
  moreover have "unat (of_nat (p + n) :: u64) = p + n" using assms by (simp add: unat_of_nat_small small_def del: of_nat_add)
  moreover have "unat (of_nat (length dat) :: u64) = length dat" using assms by (simp add: unat_of_nat_small small_def)
  ultimately show ?thesis by (simp add: word_less_nat_alt del: of_nat_add)
qed

lemma mmap_ptr_at [reader]:
  assumes "small dat" "n < 2 ^ 62" "p + n \<le> length dat"
  shows "bcio_mmap_ptr (at dat p) (of_nat n) = (Some (of_nat p), at dat (p + n))"
  using at_pos_simps [of dat p n] assms by (simp add: bcio_mmap_ptr_def r_size_def at_def)

lemma mmap_ptr_short [reader]:
  assumes "small dat" "n < 2 ^ 62" "p \<le> length dat" "length dat < p + n"
  shows "bcio_mmap_ptr (at dat p) (of_nat n) = (None, (at dat p)\<lparr>r_error := True\<rparr>)"
  using at_pos_simps [of dat p n] assms by (simp add: bcio_mmap_ptr_def r_size_def at_def)

lemma error_id [simp]: "r_error r \<Longrightarrow> r\<lparr>r_error := True\<rparr> = r"
  by simp

lemma mmap_ptr_error [simp, reader]: "r_error r \<Longrightarrow> bcio_mmap_ptr r n = (None, r)"
  by (simp add: bcio_mmap_ptr_def)

text \<open>What lies at the cursor when the file continues a written buffer.\<close>

lemma slice_mid:
  assumes "small dat" "prefix (buf @ bs) dat"
  shows "slice dat (of_nat (length buf)) (length bs) = bs"
proof -
  obtain zs where "dat = buf @ bs @ zs" using assms(2) by (auto simp: prefix_def)
  then show ?thesis using assms(1) by (simp add: slice_def unat_of_nat_small small_def)
qed

text \<open>A well-placed cursor, how much it has left, and what every reading operation does to it.\<close>

definition cursor_ok :: "reader \<Rightarrow> bool" where
  "cursor_ok r \<longleftrightarrow> small (r_data r) \<and> unat (r_pos r) \<le> length (r_data r)"

definition left_over :: "reader \<Rightarrow> nat" where
  "left_over r = (if r_error r then 0 else length (r_data r) - unat (r_pos r))"

definition advances :: "reader \<Rightarrow> reader \<Rightarrow> bool" where
  "advances r r' \<longleftrightarrow> r_data r' = r_data r \<and> (r_error r \<longrightarrow> r_error r')
     \<and> (cursor_ok r \<longrightarrow> cursor_ok r' \<and> left_over r' \<le> left_over r)"

lemma advances_refl [intro, simp]: "advances r r"
  by (simp add: advances_def)

lemma advances_trans [trans]: "advances r r' \<Longrightarrow> advances r' r'' \<Longrightarrow> advances r r''"
  by (auto simp: advances_def)

lemma advances_error [simp]: "advances r (r\<lparr>r_error := True\<rparr>)"
  by (simp add: advances_def cursor_ok_def left_over_def)

lemma left_over_error [simp]: "r_error r \<Longrightarrow> left_over r = 0"
  by (simp add: left_over_def)

text \<open>A request below \<open>2^63\<close> cannot wrap: it is granted exactly when the bytes are there.\<close>

lemma mmap_ptr_spec:
  assumes "cursor_ok r" "unat n < 2 ^ 63"
  shows "bcio_mmap_ptr r n =
    (if r_error r \<or> left_over r < unat n then (None, r\<lparr>r_error := True\<rparr>)
     else (Some (r_pos r), r\<lparr>r_pos := r_pos r + n\<rparr>))"
    and "\<not> (r_error r \<or> left_over r < unat n) \<Longrightarrow> unat (r_pos r + n) = unat (r_pos r) + unat n"
proof -
  have "unat (r_pos r) + unat n < 2 ^ 64"
    using assms by (simp add: cursor_ok_def small_def)
  then have plus: "unat (r_pos r + n) = unat (r_pos r) + unat n"
    by (simp add: unat_word_ariths)
  have size: "unat (r_size r) = length (r_data r)"
    using assms by (simp add: cursor_ok_def r_size_def unat_of_nat_small small_def)
  show "bcio_mmap_ptr r n =
    (if r_error r \<or> left_over r < unat n then (None, r\<lparr>r_error := True\<rparr>)
     else (Some (r_pos r), r\<lparr>r_pos := r_pos r + n\<rparr>))"
    using assms plus size
    by (auto simp: bcio_mmap_ptr_def left_over_def word_less_nat_alt cursor_ok_def)
  show "unat (r_pos r + n) = unat (r_pos r) + unat n" by (rule plus)
qed

lemma advances_mmap_ptr:
  assumes "unat n < 2 ^ 63"
  shows "advances r (snd (bcio_mmap_ptr r n))"
    and "cursor_ok r \<Longrightarrow> left_over (snd (bcio_mmap_ptr r n)) \<le> left_over r - unat n"
proof -
  have *: "advances r (snd (bcio_mmap_ptr r n)) \<and> left_over (snd (bcio_mmap_ptr r n)) \<le> left_over r - unat n"
    if c: "cursor_ok r"
    using c mmap_ptr_spec [OF c assms]
    by (auto simp: advances_def cursor_ok_def left_over_def)
  then show "cursor_ok r \<Longrightarrow> left_over (snd (bcio_mmap_ptr r n)) \<le> left_over r - unat n" by blast
  show "advances r (snd (bcio_mmap_ptr r n))"
  proof (cases "cursor_ok r")
    case True
    then show ?thesis using * by blast
  next
    case False
    then show ?thesis by (auto simp: advances_def bcio_mmap_ptr_def)
  qed
qed

lemma error_reads [simp, reader]:
  assumes "r_error r"
  shows "bcio_mmap_read_u32 r = (0, r)" "bcio_mmap_read_u64 r = (0, r)" "bcio_mmap_read_b32 r = (0, r)"
    "bcio_mmap_read_string r = ([], r)" "bcio_mmap_read_bounded_count r = (0, r)"
    "bcio_mmap_read_dyn_array r n = ((None, 0), r)"
  using assms
  by (simp_all add: bcio_mmap_read_u32_def bcio_mmap_read_u64_def bcio_mmap_read_b32_def
      bcio_mmap_read_string_def bcio_mmap_read_bounded_count_def bcio_mmap_read_dyn_array_def Let_def)

lemma unat_lt2p: "unat (n :: 'a::len word) < 2 ^ LENGTH('a)"
  by (rule unsigned_less)

lemma advances_u32: "advances r (snd (bcio_mmap_read_u32 r))"
  and left_over_u32: "cursor_ok r \<Longrightarrow> left_over (snd (bcio_mmap_read_u32 r)) \<le> left_over r - 4"
  using advances_mmap_ptr [of 4 r]
  by (auto simp: bcio_mmap_read_u32_def split: prod.split option.split)

lemma advances_u64: "advances r (snd (bcio_mmap_read_u64 r))"
  using advances_mmap_ptr [of 8 r]
  by (auto simp: bcio_mmap_read_u64_def split: prod.split option.split)

lemma advances_b32: "advances r (snd (bcio_mmap_read_b32 r))"
  by (simp add: bcio_mmap_read_b32_def advances_u32)

lemma unat_ucast_u32: "unat (ucast (n :: u32) :: u64) < 2 ^ 63" "unat (ucast n :: u64) = unat n"
proof -
  show eq: "unat (ucast n :: u64) = unat n"
    by (simp add: unsigned_ucast_eq take_bit_nat_eq_self order_less_trans [OF unsigned_less])
  show "unat (ucast n :: u64) < 2 ^ 63"
    using unat_lt2p [of n] unfolding eq by simp
qed

lemma advances_string: "advances r (snd (bcio_mmap_read_string r))"
proof -
  obtain len r1 where u: "bcio_mmap_read_u32 r = (len, r1)" by fastforce
  have 1: "advances r r1" using advances_u32 [of r] u by simp
  have "advances r1 (snd (bcio_mmap_ptr r1 (ucast len)))"
    by (rule advances_mmap_ptr) (rule unat_ucast_u32)
  then show ?thesis
    using 1 u by (auto simp: bcio_mmap_read_string_def split: prod.split option.split
        intro: advances_trans)
qed

lemma advances_bounded_count: "advances r (snd (bcio_mmap_read_bounded_count r))"
proof -
  obtain n r1 where u: "bcio_mmap_read_u32 r = (n, r1)" by fastforce
  have "advances r r1" using advances_u32 [of r] u by simp
  then show ?thesis
    using u by (auto simp: bcio_mmap_read_bounded_count_def intro: advances_trans)
qed

section \<open>Reading a type reference terminates\<close>

lemma advances_box:
  assumes "\<And>r. advances r (snd (f r))"
  shows "advances r (snd (read_box f r))"
  using advances_trans [OF advances_b32 assms, of r] advances_b32 [of r]
  by (simp add: read_box_def split_beta Let_def)

lemma advances_times:
  assumes "\<And>r. advances r (snd (f r))"
  shows "advances r (snd (times n f r))"
proof (induction n arbitrary: r)
  case 0
  then show ?case by simp
next
  case (Suc n)
  have "advances r (snd (times n f (snd (f r))))"
    using assms [of r] Suc.IH by (rule advances_trans)
  then show ?case by (simp add: split_beta Let_def)
qed

lemma advances_type_ref: "advances r (snd (bcio_mmap_read_type_ref n r))"
proof (induction n arbitrary: r)
  case 0
  then show ?case by simp
next
  case (Suc n)
  note rules = advances_trans [OF _ advances_box [OF Suc.IH]]
    advances_trans [OF _ advances_times [OF Suc.IH]] advances_trans [OF _ advances_u32]
    advances_trans [OF _ advances_u64] advances_trans [OF _ advances_string]
  show ?case
    by (simp add: split_beta Let_def) (intro rules advances_refl)
qed

lemma type_ref_nothing_left:
  assumes "cursor_ok r" "left_over r = 0"
  shows "bcio_mmap_read_type_ref n r = (raw_zero, r\<lparr>r_error := True\<rparr>)"
proof (cases n)
  case (Suc m)
  have "bcio_mmap_read_u32 r = (0, r\<lparr>r_error := True\<rparr>)"
    using mmap_ptr_spec [of r 4] assms by (simp add: bcio_mmap_read_u32_def)
  then show ?thesis
    by (simp add: Suc read_box_def raw_zero_def)
qed simp

lemma box_cong:
  assumes "\<And>r. cursor_ok r \<Longrightarrow> left_over r \<le> N \<Longrightarrow> f r = g r"
    and "cursor_ok r" "left_over r \<le> N"
  shows "read_box f r = read_box g r"
proof -
  have "cursor_ok (snd (bcio_mmap_read_b32 r))" "left_over (snd (bcio_mmap_read_b32 r)) \<le> N"
    using advances_b32 [of r] assms by (auto simp: advances_def)
  then show ?thesis
    using assms(1) by (simp add: read_box_def split_beta Let_def)
qed

lemma times_cong:
  assumes "\<And>r. cursor_ok r \<Longrightarrow> left_over r \<le> N \<Longrightarrow> f r = g r"
    and adv: "\<And>r. advances r (snd (f r))"
    and "cursor_ok r" "left_over r \<le> N"
  shows "times n f r = times n g r"
  using assms(3,4)
proof (induction n arbitrary: r)
  case 0
  then show ?case by simp
next
  case (Suc n)
  have "cursor_ok (snd (f r))" "left_over (snd (f r)) \<le> N"
    using adv [of r] Suc.prems by (auto simp: advances_def)
  then show ?case
    using assms(1) [OF Suc.prems] Suc.IH by (simp add: split_beta Let_def)
qed

text \<open>Any two bounds that cover what is left of the file give the same result.\<close>

lemma type_ref_fuel:
  assumes "cursor_ok r" "left_over r \<le> n" "left_over r \<le> m"
  shows "bcio_mmap_read_type_ref n r = bcio_mmap_read_type_ref m r"
  using assms
proof (induction n arbitrary: r m)
  case 0
  then show ?case by (simp add: type_ref_nothing_left del: bcio_mmap_read_type_ref.simps)
next
  case (Suc n)
  show ?case
  proof (cases m)
    case 0
    then show ?thesis
      using Suc.prems by (simp add: type_ref_nothing_left del: bcio_mmap_read_type_ref.simps)
  next
    case (Suc m')
    define r1 where "r1 = snd (bcio_mmap_read_u32 r)"
    define N where "N = left_over r1"
    have r1: "cursor_ok r1" "N \<le> n" "N \<le> m'"
      using advances_u32 [of r] left_over_u32 [of r] Suc.prems Suc
      by (auto simp: r1_def N_def advances_def)
    have same: "bcio_mmap_read_type_ref n q = bcio_mmap_read_type_ref m' q"
      if "cursor_ok q" "left_over q \<le> N" for q
      by (rule Suc.IH [OF that(1)]) (use that r1 in simp_all)
    note adv = advances_box [OF advances_type_ref] advances_times [OF advances_type_ref]
      advances_u32 advances_u64 advances_string
    have keep: "cursor_ok q' \<and> left_over q' \<le> N" if "advances q q'" "cursor_ok q \<and> left_over q \<le> N" for q q'
      using that by (auto simp: advances_def)
    define r2 where "r2 = snd (bcio_mmap_read_string r1)"
    define r3 where "r3 = snd (bcio_mmap_read_u64 r2)"
    define r4 where "r4 = snd (read_box (bcio_mmap_read_type_ref n) r3)"
    define r5 where "r5 = snd (read_box (bcio_mmap_read_type_ref n) r4)"
    define r6 where "r6 = snd (bcio_mmap_read_u32 r5)"
    define r7 where "r7 = snd (times (unat (fst (bcio_mmap_read_u32 r5))) (bcio_mmap_read_type_ref n) r6)"
    have k1: "cursor_ok r1 \<and> left_over r1 \<le> N" using r1 by (simp add: N_def)
    have k2: "cursor_ok r2 \<and> left_over r2 \<le> N" unfolding r2_def by (rule keep [OF advances_string k1])
    have k3: "cursor_ok r3 \<and> left_over r3 \<le> N" unfolding r3_def by (rule keep [OF advances_u64 k2])
    have k4: "cursor_ok r4 \<and> left_over r4 \<le> N" unfolding r4_def by (rule keep [OF adv(1) k3])
    have k5: "cursor_ok r5 \<and> left_over r5 \<le> N" unfolding r5_def by (rule keep [OF adv(1) k4])
    have k6: "cursor_ok r6 \<and> left_over r6 \<le> N" unfolding r6_def by (rule keep [OF advances_u32 k5])
    have k7: "cursor_ok r7 \<and> left_over r7 \<le> N" unfolding r7_def by (rule keep [OF adv(2) k6])
    have b: "read_box (bcio_mmap_read_type_ref n) q = read_box (bcio_mmap_read_type_ref m') q"
      if "cursor_ok q \<and> left_over q \<le> N" for q
      by (rule box_cong [of N]) (use same that in auto)
    have t: "times c (bcio_mmap_read_type_ref n) r6 = times c (bcio_mmap_read_type_ref m') r6" for c
      by (rule times_cong [of N]) (use same advances_type_ref k6 in auto)
    show ?thesis
      using b [OF k3] b [OF k4] b [OF k7] t
      unfolding Suc r7_def r6_def r5_def r4_def r3_def r2_def r1_def
      by (simp add: split_beta Let_def)
  qed
qed

section \<open>The contract\<close>

locale cache_codec =
  fixes put :: "'a \<Rightarrow> bytes \<Rightarrow> bytes"
    and ok :: "'a \<Rightarrow> bool"
    and get :: "reader \<Rightarrow> 'b \<times> reader"
    and view :: "bytes \<Rightarrow> 'a \<Rightarrow> 'b"
  assumes extends: "\<exists>bs. put x buf = buf @ bs \<and> bs \<noteq> []"
    and reads: "ok x \<Longrightarrow> small dat \<Longrightarrow> prefix (put x buf) dat \<Longrightarrow>
      get (at dat (length buf)) = (view buf x, at dat (length (put x buf)))"
    and short: "ok x \<Longrightarrow> small dat \<Longrightarrow> strict_prefix dat (put x buf) \<Longrightarrow> length buf \<le> length dat \<Longrightarrow>
      r_error (snd (get (at dat (length buf))))"
    and sticky: "r_error r \<Longrightarrow> r_error (snd (get r))"
begin

lemma longer: "length buf < length (put x buf)"
  using extends [of x buf] by auto

lemma put_prefix: "prefix buf (put x buf)"
  using extends [of x buf] by (auto simp: prefix_def)

text \<open>A prefix of a longer file either holds the value or stops inside it.\<close>

lemma cut:
  assumes "prefix dat (put x buf @ rest)" "length buf \<le> length dat"
  shows "prefix (put x buf) dat \<or> strict_prefix dat (put x buf)"
proof (cases "length (put x buf) \<le> length dat")
  case True
  then have "prefix (put x buf) dat"
    using assms(1) prefix_length_prefix [of "put x buf" "put x buf @ rest" dat] by simp
  then show ?thesis ..
next
  case False
  have "prefix dat (put x buf)"
    using False assms(1) prefix_length_prefix [of dat "put x buf @ rest" "put x buf"] by simp
  then show ?thesis using False by (auto simp: strict_prefix_def)
qed

end

lemma codec_seq:
  assumes c1: "cache_codec p1 ok1 g1 v1" and c2: "cache_codec p2 ok2 g2 v2"
  shows "cache_codec (\<lambda>x buf. p2 (snd x) (p1 (fst x) buf)) (\<lambda>x. ok1 (fst x) \<and> ok2 (snd x))
    (\<lambda>r. let (a, r) = g1 r; (b, r) = g2 r in ((a, b), r))
    (\<lambda>buf x. (v1 buf (fst x), v2 (p1 (fst x) buf) (snd x)))"
proof (unfold_locales, goal_cases)
  case (1 x buf)
  then show ?case
    using cache_codec.extends [OF c1, of "fst x" buf] cache_codec.extends [OF c2, of "snd x" "p1 (fst x) buf"]
    by auto
next
  case (2 x dat buf)
  then have "prefix (p1 (fst x) buf) dat"
    using cache_codec.put_prefix [OF c2] prefix_order.trans by blast
  then show ?case
    using 2 cache_codec.reads [OF c1, of "fst x" dat buf]
      cache_codec.reads [OF c2, of "snd x" dat "p1 (fst x) buf"] by simp
next
  case (3 x dat buf)
  obtain bs where bs: "p2 (snd x) (p1 (fst x) buf) = p1 (fst x) buf @ bs"
    using cache_codec.extends [OF c2] by blast
  have "prefix (p1 (fst x) buf) dat \<or> strict_prefix dat (p1 (fst x) buf)"
    by (rule cache_codec.cut [OF c1, of _ _ _ bs]) (use 3 bs in \<open>auto simp: strict_prefix_def\<close>)
  then show ?case
  proof
    assume p: "prefix (p1 (fst x) buf) dat"
    then have "length (p1 (fst x) buf) \<le> length dat" by (rule prefix_length_le)
    then show ?thesis
      using 3 p cache_codec.short [OF c2, of "snd x" dat "p1 (fst x) buf"]
        cache_codec.reads [OF c1, of "fst x" dat buf]
      by (simp split: prod.split) (metis snd_conv)
  next
    assume "strict_prefix dat (p1 (fst x) buf)"
    then have "r_error (snd (g1 (at dat (length buf))))"
      using 3 by (intro cache_codec.short [OF c1, of "fst x"]) auto
    then show ?thesis
      using cache_codec.sticky [OF c2] by (simp add: split_beta Let_def)
  qed
next
  case (4 r)
  then show ?case
    using cache_codec.sticky [OF c1] cache_codec.sticky [OF c2] by (simp add: split_beta Let_def)
qed

lemma codec_map:
  assumes c: "cache_codec p ok g v"
    and "\<And>x buf. p' x buf = p (f x) buf"
    and "\<And>x. ok' x \<Longrightarrow> ok (f x)"
    and "\<And>r. g' r = apfst h (g r)"
    and "\<And>buf x. ok' x \<Longrightarrow> v' buf x = h (v buf (f x))"
  shows "cache_codec p' ok' g' v'"
proof (unfold_locales, goal_cases)
  case (2 x dat buf)
  then show ?case
    using cache_codec.reads [OF c, of "f x" dat buf] assms(2-5) by simp
next
  case (3 x dat buf)
  then show ?case
    using cache_codec.short [OF c, of "f x" dat buf] assms(2-5) by simp
qed (use cache_codec.extends [OF c] cache_codec.sticky [OF c] assms in auto)

section \<open>The fields of the format\<close>

lemma write_bytes: "bcio_write_u32 buf v = buf @ le_bytes 4 v" "bcio_write_u64 buf w = buf @ le_bytes 8 w"
  by (simp_all add: bcio_write_u32_def bcio_write_u64_def bcio_write_def)

lemma le_bytes_nonempty [simp]: "0 < n \<Longrightarrow> le_bytes n w \<noteq> []"
  by (simp add: le_bytes_def)

lemma prefix_room: "prefix (buf @ bs) dat \<Longrightarrow> length buf + length bs \<le> length dat"
  using prefix_length_le by fastforce

lemma strict_prefix_room: "strict_prefix dat xs \<Longrightarrow> length dat < length xs"
  by (rule prefix_length_less)

lemma u32_codec: "cache_codec (\<lambda>v buf. bcio_write_u32 buf v) (\<lambda>_. True) bcio_mmap_read_u32 (\<lambda>_ v. v)"
proof (unfold_locales, goal_cases)
  case (2 v dat buf)
  then show ?case
    using mmap_ptr_at [of dat 4 "length buf"] slice_mid [of dat buf "le_bytes 4 v"] prefix_room [of buf "le_bytes 4 v" dat]
    by (simp add: write_bytes bcio_mmap_read_u32_def)
next
  case (3 v dat buf)
  then show ?case
    using mmap_ptr_short [of dat 4 "length buf"] strict_prefix_room [of dat "buf @ le_bytes 4 v"]
    by (simp add: write_bytes bcio_mmap_read_u32_def)
qed (simp_all add: write_bytes)

lemma u64_codec: "cache_codec (\<lambda>v buf. bcio_write_u64 buf v) (\<lambda>_. True) bcio_mmap_read_u64 (\<lambda>_ v. v)"
proof (unfold_locales, goal_cases)
  case (2 v dat buf)
  then show ?case
    using mmap_ptr_at [of dat 8 "length buf"] slice_mid [of dat buf "le_bytes 8 v"] prefix_room [of buf "le_bytes 8 v" dat]
    by (simp add: write_bytes bcio_mmap_read_u64_def)
next
  case (3 v dat buf)
  then show ?case
    using mmap_ptr_short [of dat 8 "length buf"] strict_prefix_room [of dat "buf @ le_bytes 8 v"]
    by (simp add: write_bytes bcio_mmap_read_u64_def)
qed (simp_all add: write_bytes)

lemma b32_codec:
  "cache_codec (\<lambda>b buf. bcio_write_b32 buf b) (\<lambda>_. True) bcio_mmap_read_b32 (\<lambda>_ b. if b then 1 else 0)"
  by (rule codec_map [OF u32_codec, where f = "\<lambda>b. if b then 1 else 0" and h = id])
    (simp_all add: bcio_write_b32_def bcio_mmap_read_b32_def prod.map_id0 flip: id_def)

definition str_ok :: "string \<Rightarrow> bool" where
  "str_ok s \<longleftrightarrow> length s < 2 ^ 32"

lemma word_eqI_unat: "unat a = unat b \<Longrightarrow> a = b"
  by (simp add: word_unat_eq_iff)

lemma string_head:
  assumes "str_ok s"
  shows "unat (of_nat (length s) :: u32) = length s"
    and "(of_nat (length s) :: u32) = 0 \<longleftrightarrow> s = []"
    and "(ucast (of_nat (length s) :: u32) :: u64) = of_nat (length s)"
    and "length s < 2 ^ 62"
proof -
  show n: "unat (of_nat (length s) :: u32) = length s"
    using assms by (simp add: str_ok_def unat_of_nat_small)
  show "(of_nat (length s) :: u32) = 0 \<longleftrightarrow> s = []"
    using unat_eq_0 [of "of_nat (length s) :: u32"] by (simp only: n length_0_conv)
  show "(ucast (of_nat (length s) :: u32) :: u64) = of_nat (length s)"
  proof (rule word_eqI_unat)
    show "unat (ucast (of_nat (length s) :: u32) :: u64) = unat (of_nat (length s) :: u64)"
      using assms by (simp only: unat_ucast_u32 n) (simp add: str_ok_def unat_of_nat_small)
  qed
  show "length s < 2 ^ 62" using assms by (simp add: str_ok_def)
qed

lemma string_codec: "cache_codec (\<lambda>s buf. bcio_write_string buf s) str_ok bcio_mmap_read_string (\<lambda>_ s. s)"
proof (unfold_locales, goal_cases)
  case (1 s buf)
  then show ?case by (simp add: bcio_write_string_def bcio_write_def write_bytes)
next
  case (2 s dat buf)
  note h = string_head [OF 2(1)]
  let ?n = "of_nat (length s) :: u32"
  let ?b = "bcio_write_u32 buf ?n"
  have p: "prefix (?b @ map byte_of s) dat" using 2(3) by (simp add: bcio_write_string_def bcio_write_def)
  have r: "bcio_mmap_read_u32 (at dat (length buf)) = (?n, at dat (length ?b))"
    by (rule cache_codec.reads [OF u32_codec TrueI 2(2)]) (use p in \<open>auto simp: prefix_def\<close>)
  have m: "bcio_mmap_ptr (at dat (length ?b)) (of_nat (length s))
      = (Some (of_nat (length ?b)), at dat (length ?b + length s))"
    using prefix_room [OF p] by (intro mmap_ptr_at 2(2) h(4)) simp
  show ?case
    using slice_mid [OF 2(2) p] h(1,2,3)
    by (auto simp: bcio_mmap_read_string_def r m bcio_write_string_def bcio_write_def comp_def)
next
  case (3 s dat buf)
  note h = string_head [OF 3(1)]
  let ?n = "of_nat (length s) :: u32"
  let ?b = "bcio_write_u32 buf ?n"
  have sp: "strict_prefix dat (?b @ map byte_of s)"
    using 3(3) by (simp add: bcio_write_string_def bcio_write_def)
  then have "prefix ?b dat \<or> strict_prefix dat ?b"
    by (intro cache_codec.cut [OF u32_codec _ 3(4)]) (auto simp: strict_prefix_def)
  then show ?case
  proof
    assume p: "prefix ?b dat"
    have r: "bcio_mmap_read_u32 (at dat (length buf)) = (?n, at dat (length ?b))"
      by (rule cache_codec.reads [OF u32_codec TrueI 3(2) p])
    have l: "length ?b \<le> length dat" "length dat < length ?b + length s"
      using p sp prefix_length_le strict_prefix_room by fastforce+
    then have "?n \<noteq> 0" using h(2) by auto
    then show ?thesis
      using mmap_ptr_short [OF 3(2) h(4) l] h(3) by (simp add: bcio_mmap_read_string_def r)
  next
    assume "strict_prefix dat ?b"
    then have "r_error (snd (bcio_mmap_read_u32 (at dat (length buf))))"
      by (intro cache_codec.short [OF u32_codec TrueI 3(2) _ 3(4)])
    then show ?thesis by (auto simp: bcio_mmap_read_string_def split: prod.split)
  qed
qed simp

section \<open>Lists of records\<close>

context cache_codec
begin

lemma fold_longer: "length buf + length xs \<le> length (fold put xs buf)"
proof (induction xs arbitrary: buf)
  case (Cons x xs)
  have "length (put x buf) + length xs \<le> length (fold put xs (put x buf))"
    by (rule Cons.IH)
  then show ?case using longer [of buf x] by simp
qed simp

lemma fold_prefix: "prefix buf (fold put xs buf)"
proof (induction xs arbitrary: buf)
  case (Cons x xs)
  then show ?case using put_prefix [of buf x] Cons.IH [of "put x buf"] by (simp add: prefix_order.trans)
qed simp

fun views :: "'a list \<Rightarrow> bytes \<Rightarrow> 'b list" where
  "views [] buf = []"
| "views (x # xs) buf = view buf x # views xs (put x buf)"

lemma views_const: "(\<And>buf x. x \<in> set xs \<Longrightarrow> view buf x = f x) \<Longrightarrow> views xs buf = map f xs"
  by (induction xs arbitrary: buf) auto

lemma reads_times:
  "list_all ok xs \<Longrightarrow> small dat \<Longrightarrow> prefix (fold put xs buf) dat \<Longrightarrow>
   times (length xs) get (at dat (length buf)) = (views xs buf, at dat (length (fold put xs buf)))"
proof (induction xs arbitrary: buf)
  case (Cons x xs)
  then have "prefix (put x buf) dat"
    using fold_prefix [of "put x buf" xs] by (auto intro: prefix_order.trans)
  then show ?case
    using Cons reads [of x dat buf] by simp
qed simp

lemma sticky_times: "r_error r \<Longrightarrow> r_error (snd (times n get r))"
proof (induction n arbitrary: r)
  case (Suc n)
  then show ?case using sticky [OF Suc.prems] by (auto simp: split_beta Let_def)
qed simp

lemma short_times:
  "list_all ok xs \<Longrightarrow> small dat \<Longrightarrow> strict_prefix dat (fold put xs buf) \<Longrightarrow> length buf \<le> length dat \<Longrightarrow>
   r_error (snd (times (length xs) get (at dat (length buf))))"
proof (induction xs arbitrary: buf)
  case Nil
  then show ?case using strict_prefix_room [of dat buf] by simp
next
  case (Cons x xs)
  obtain rest where rest: "fold put xs (put x buf) = put x buf @ rest"
    using fold_prefix [of "put x buf" xs] by (auto simp: prefix_def)
  have "prefix (put x buf) dat \<or> strict_prefix dat (put x buf)"
    by (rule cut [of _ _ _ rest]) (use Cons.prems rest in \<open>auto simp: strict_prefix_def\<close>)
  then show ?case
  proof
    assume p: "prefix (put x buf) dat"
    then have "length (put x buf) \<le> length dat" by (rule prefix_length_le)
    then show ?thesis
      using Cons.prems Cons.IH [of "put x buf"] reads [of x dat buf] p by (simp add: split_beta Let_def)
  next
    assume "strict_prefix dat (put x buf)"
    then have "r_error (snd (get (at dat (length buf))))"
      using Cons.prems by (intro short [of x]) simp_all
    then show ?thesis using sticky_times by (simp add: split_beta Let_def)
  qed
qed

end

section \<open>Counts\<close>

lemma u32_head:
  assumes "small dat"
  shows "prefix (bcio_write_u32 buf v) dat \<Longrightarrow>
      bcio_mmap_read_u32 (at dat (length buf)) = (v, at dat (length buf + 4))"
    and "strict_prefix dat (bcio_write_u32 buf v) \<Longrightarrow> length buf \<le> length dat \<Longrightarrow>
      r_error (snd (bcio_mmap_read_u32 (at dat (length buf))))"
  using cache_codec.reads [OF u32_codec TrueI assms, where x = v and buf = buf]
    cache_codec.short [OF u32_codec TrueI assms, where x = v and buf = buf] by (simp_all add: write_bytes)

lemma unat_ucast_of_nat:
  assumes "n < 2 ^ 32"
  shows "unat (ucast (of_nat n :: u32) :: u64) = n"
  by (simp only: unat_ucast_u32) (rule unat_of_nat_small, use assms in simp)

lemma bounded_count_at:
  assumes "small dat" "prefix (bcio_write_u32 buf (of_nat n)) dat" "n < 2 ^ 32"
  shows "bcio_mmap_read_bounded_count (at dat (length buf)) =
    (if length dat < length buf + 4 + n then (0, (at dat (length buf + 4))\<lparr>r_error := True\<rparr>)
     else (of_nat n, at dat (length buf + 4)))"
proof -
  let ?r = "at dat (length buf + 4)"
  have l: "length buf + 4 \<le> length dat"
    using prefix_length_le [OF assms(2)] by (simp add: write_bytes)
  have "unat (r_size ?r) = length dat" "unat (r_pos ?r) = length buf + 4"
    using assms(1) l by (simp_all add: r_size_def small_def unat_of_nat_small del: of_nat_add)
  then have "unat (r_size ?r - r_pos ?r) = length dat - (length buf + 4)"
    using l by (subst unat_sub) (simp_all add: word_le_nat_alt)
  then have "ucast (of_nat n :: u32) > r_size ?r - r_pos ?r \<longleftrightarrow> length dat - (length buf + 4) < n"
    by (simp only: word_less_nat_alt unat_ucast_of_nat [OF assms(3)])
  then show ?thesis
    using l by (auto simp: bcio_mmap_read_bounded_count_def u32_head(1) [OF assms(1,2)])
qed

context cache_codec
begin

lemma counted_codec:
  "cache_codec (write_counted put) (\<lambda>xs. list_all ok xs \<and> length xs < 2 ^ 32) (read_counted get)
    (\<lambda>buf xs. views xs (bcio_write_u32 buf (of_nat (length xs))))"
proof (unfold_locales, goal_cases)
  case (1 xs buf)
  obtain bs where "fold put xs (bcio_write_u32 buf (of_nat (length xs)))
      = bcio_write_u32 buf (of_nat (length xs)) @ bs"
    using fold_prefix by (auto simp: prefix_def)
  then show ?case by (simp add: write_counted_def write_bytes)
next
  case (2 xs dat buf)
  let ?b = "bcio_write_u32 buf (of_nat (length xs))"
  have p: "prefix ?b dat"
    using 2(3) fold_prefix [of ?b xs] by (auto simp: write_counted_def intro: prefix_order.trans)
  have l: "length buf + 4 + length xs \<le> length dat"
    using fold_longer [of ?b xs] prefix_length_le [OF 2(3)] by (simp add: write_counted_def write_bytes)
  have "unat (of_nat (length xs) :: u32) = length xs" using 2(1) by (simp add: unat_of_nat_small)
  then show ?case
    using 2 l reads_times [of xs dat ?b] bounded_count_at [OF 2(2) p]
    by (simp add: read_counted_def write_counted_def) (simp add: write_bytes)
next
  case (3 xs dat buf)
  let ?b = "bcio_write_u32 buf (of_nat (length xs))"
  obtain rest where rest: "fold put xs ?b = ?b @ rest"
    using fold_prefix [of ?b xs] by (auto simp: prefix_def)
  have sp: "strict_prefix dat (fold put xs ?b)" using 3(3) by (simp add: write_counted_def)
  have "prefix ?b dat \<or> strict_prefix dat ?b"
    by (rule cache_codec.cut [OF u32_codec, of _ _ _ rest]) (use 3 sp rest in \<open>auto simp: strict_prefix_def\<close>)
  then show ?case
  proof
    assume p: "prefix ?b dat"
    have "r_error (snd (times (length xs) get (at dat (length ?b))))"
      using prefix_length_le [OF p] by (intro short_times) (use 3 sp in simp_all)
    then show ?thesis
      using 3 bounded_count_at [OF 3(2) p]
      by (simp add: read_counted_def write_bytes unat_of_nat_small)
  next
    assume "strict_prefix dat ?b"
    then have "r_error (snd (bcio_mmap_read_u32 (at dat (length buf))))"
      using 3 by (intro u32_head)
    then show ?thesis
      by (auto simp: read_counted_def bcio_mmap_read_bounded_count_def split_beta Let_def sticky_times)
  qed
next
  case (4 r)
  then show ?case by (simp add: read_counted_def)
qed

text \<open>The parameter types of a function type: the count is not bounded.\<close>

lemma plain_codec:
  "cache_codec (write_counted put) (\<lambda>xs. list_all ok xs \<and> length xs < 2 ^ 32)
    (\<lambda>r. let (n, r) = bcio_mmap_read_u32 r in times (unat n) get r)
    (\<lambda>buf xs. views xs (bcio_write_u32 buf (of_nat (length xs))))"
proof (unfold_locales, goal_cases)
  case (1 xs buf)
  show ?case by (rule cache_codec.extends [OF counted_codec])
next
  case (2 xs dat buf)
  let ?b = "bcio_write_u32 buf (of_nat (length xs))"
  have p: "prefix ?b dat"
    using 2(3) fold_prefix [of ?b xs] by (auto simp: write_counted_def intro: prefix_order.trans)
  then show ?case
    using 2 reads_times [of xs dat ?b] u32_head(1) [OF 2(2)]
    by (simp add: write_counted_def unat_of_nat_small) (simp add: write_bytes)
next
  case (3 xs dat buf)
  let ?b = "bcio_write_u32 buf (of_nat (length xs))"
  obtain rest where rest: "fold put xs ?b = ?b @ rest"
    using fold_prefix [of ?b xs] by (auto simp: prefix_def)
  have sp: "strict_prefix dat (fold put xs ?b)" using 3(3) by (simp add: write_counted_def)
  have "prefix ?b dat \<or> strict_prefix dat ?b"
    by (rule cache_codec.cut [OF u32_codec, of _ _ _ rest]) (use 3 sp rest in \<open>auto simp: strict_prefix_def\<close>)
  then show ?case
  proof
    assume p: "prefix ?b dat"
    have "r_error (snd (times (length xs) get (at dat (length ?b))))"
      using prefix_length_le [OF p] by (intro short_times) (use 3 sp in simp_all)
    then show ?thesis
      using 3 u32_head(1) [OF 3(2) p] by (simp add: write_bytes unat_of_nat_small)
  next
    assume "strict_prefix dat ?b"
    then have "r_error (snd (bcio_mmap_read_u32 (at dat (length buf))))"
      using 3 by (intro u32_head)
    then show ?thesis
      by (simp add: split_beta Let_def sticky_times)
  qed
next
  case (4 r)
  then show ?case by (simp add: sticky_times)
qed

text \<open>A boxed value: a flag and, when it is set, the value.\<close>

lemma box_codec:
  "cache_codec (\<lambda>b buf. case b of None \<Rightarrow> bcio_write_b32 buf False | Some x \<Rightarrow> put x (bcio_write_b32 buf True))
    (\<lambda>b. case b of None \<Rightarrow> True | Some x \<Rightarrow> ok x) (read_box get)
    (\<lambda>buf b. case b of None \<Rightarrow> None | Some x \<Rightarrow> Some (view (bcio_write_b32 buf True) x))"
proof -
  note seq = codec_seq [OF b32_codec cache_codec_axioms]
  show ?thesis
  proof (unfold_locales, goal_cases)
    case (1 b buf)
    then show ?case
      using cache_codec.extends [OF b32_codec, where x = False and buf = buf] cache_codec.extends [OF seq, where x = "(True, the b)" and buf = buf]
      by (cases b) auto
  next
    case (2 b dat buf)
    show ?case
    proof (cases b)
      case None
      then show ?thesis
        using 2 cache_codec.reads [OF b32_codec TrueI 2(2), where x = False and buf = buf] by (simp add: read_box_def)
    next
      case (Some x)
      then show ?thesis
        using 2 cache_codec.reads [OF seq _ 2(2), where x = "(True, x)" and buf = buf]
        by (auto simp: read_box_def split_beta Let_def prod_eq_iff)
    qed
  next
    case (3 b dat buf)
    show ?case
    proof (cases b)
      case None
      then show ?thesis
        using 3 cache_codec.short [OF b32_codec TrueI 3(2), where x = False and buf = buf] sticky
        by (simp add: read_box_def split_beta Let_def)
    next
      case (Some x)
      have p: "prefix (bcio_write_b32 buf True) dat \<or> strict_prefix dat (bcio_write_b32 buf True)"
        using extends [of x "bcio_write_b32 buf True"] 3 Some
        by (elim exE, intro cache_codec.cut [OF b32_codec]) (auto simp: strict_prefix_def)
      then show ?thesis
        using 3 Some cache_codec.short [OF seq _ 3(2), where x = "(True, x)" and buf = buf]
          cache_codec.reads [OF b32_codec TrueI 3(2), where x = True and buf = buf]
          cache_codec.short [OF b32_codec TrueI 3(2), where x = True and buf = buf] sticky
        by (auto simp: read_box_def split_beta Let_def)
    qed
  next
    case (4 r)
    then show ?case by (simp add: read_box_def)
  qed
qed

end

section \<open>Mapped arrays\<close>

definition pad_of :: "nat \<Rightarrow> nat" where
  "pad_of p = (8 - p mod 8) mod 8"

lemma pad_word:
  assumes "p < 2 ^ 64"
  shows "(8 - ((of_nat p :: u64) mod 8)) mod 8 = of_nat (pad_of p)"
proof (rule word_eqI_unat)
  have m: "unat ((of_nat p :: u64) mod 8) = p mod 8"
    using assms by (simp add: unat_mod unat_of_nat_small)
  then have "unat ((8 :: u64) - (of_nat p :: u64) mod 8) = 8 - p mod 8"
    by (subst unat_sub) (simp_all add: word_le_nat_alt)
  then have "unat ((8 - ((of_nat p :: u64) mod 8)) mod 8) = (8 - p mod 8) mod 8"
    by (simp add: unat_mod)
  also have "\<dots> = unat (of_nat (pad_of p) :: u64)"
    by (simp add: pad_of_def unat_of_nat_small order_less_trans [of "(8 - p mod 8) mod 8" 8])
  finally show "unat ((8 - ((of_nat p :: u64) mod 8)) mod 8) = unat (of_nat (pad_of p) :: u64)" .
qed

lemma pad_of_less: "pad_of p < 8"
  by (simp add: pad_of_def)

lemma pad_word_0: "(of_nat (pad_of p) :: u64) = 0 \<longleftrightarrow> pad_of p = 0"
  using pad_of_less [of p] unat_of_nat_small [where 'a = 64, of "pad_of p"] unat_eq_0 [of "of_nat (pad_of p) :: u64"]
  by (simp add: less_imp_le)

lemma align_pad: "bcio_align buf 8 = buf @ replicate (pad_of (length buf)) 0"
  by (simp add: bcio_align_def bcio_write_def pad_of_def)

lemma skip_pad:
  assumes "small dat" "p \<le> length dat"
  shows "(let pad = (8 - (r_pos (at dat p) mod 8)) mod 8
          in if pad \<noteq> 0 then snd (bcio_mmap_ptr (at dat p) pad) else at dat p)
    = (if p + pad_of p \<le> length dat then at dat (p + pad_of p) else (at dat p)\<lparr>r_error := True\<rparr>)"
proof -
  have "pad_of p < 2 ^ 62" "p < 2 ^ 64" using pad_of_less [of p] assms by (simp_all add: small_def)
  then show ?thesis
    using mmap_ptr_at [OF assms(1), of "pad_of p" p] mmap_ptr_short [OF assms(1), of "pad_of p" p] assms(2)
    by (auto simp: pad_word pad_word_0 Let_def)
qed

lemma concat_slot:
  assumes "\<And>x. length (enc x) = sz" "i < length xs"
  shows "take sz (drop (i * sz) (concat (map enc xs))) = enc (xs ! i)"
  using assms(2)
proof (induction xs arbitrary: i)
  case (Cons x xs)
  then show ?case by (cases i) (simp_all add: assms(1))
qed simp

lemma length_concat_slots: "(\<And>x. length (enc x) = sz) \<Longrightarrow> length (concat (map enc xs)) = length xs * sz"
  by (induction xs) simp_all

text \<open>The header of an array of \<open>n\<close> elements of \<open>sz\<close> bytes, found where it was written.\<close>

lemma dyn_array_at:
  assumes dat: "small dat" and sz: "0 < sz" "n * sz < 2 ^ 61" "sz < 2 ^ 61"
    and p: "prefix (bcio_align buf 8 @ le_bytes 8 (of_nat n :: u64) @ le_bytes 8 (of_nat n :: u64)) dat"
  shows "bcio_mmap_read_dyn_array (at dat (length buf)) (of_nat sz) =
    (let q = length buf + pad_of (length buf) + 16
     in if q + n * sz \<le> length dat then ((Some (of_nat q), of_nat n), at dat (q + n * sz))
        else ((None, 0), (at dat q)\<lparr>r_error := True\<rparr>))"
proof -
  let ?a = "bcio_align buf 8" and ?q = "length buf + pad_of (length buf)"
  have la: "length ?a = ?q" by (simp add: align_pad)
  have room: "?q + 16 \<le> length dat" using prefix_length_le [OF p] by (simp add: la)
  have "prefix (?a @ le_bytes 8 (of_nat n :: u64)) dat"
    using p by (auto simp: prefix_def)
  then have count: "slice dat (of_nat ?q) 8 = le_bytes 8 (of_nat n :: u64)"
    using slice_mid [OF dat, of ?a "le_bytes 8 (of_nat n :: u64)"] la by simp
  have hdr: "bcio_mmap_ptr (at dat ?q) 16 = (Some (of_nat ?q), at dat (?q + 16))"
    using mmap_ptr_at [OF dat, of 16 ?q] room by simp
  have n: "n < 2 ^ 61"
    using sz(1,2) by (metis One_nat_def Suc_leI le_less_trans mult.right_neutral mult_le_mono2)
  have "unat (- 1 div (of_nat sz :: u64)) = (2 ^ 64 - 1) div sz"
    using sz by (simp add: unat_div unat_of_nat_small unsigned_minus_1_eq_mask mask_eq_exp_minus_1)
  moreover have "n \<le> (2 ^ 64 - 1) div sz"
    using sz by (simp add: less_eq_div_iff_mult_less_eq)
  ultimately have fits: "\<not> of_nat n > - 1 div (of_nat sz :: u64)"
    using n by (simp add: word_less_nat_alt unat_of_nat_small del: word_of_nat_less_eq_iff)
  have nz: "(of_nat sz :: u64) \<noteq> 0"
    using sz unat_of_nat_small [where 'a = 64, of sz] by auto
  have elems: "bcio_mmap_ptr (at dat (?q + 16)) (of_nat n * of_nat sz) =
    (if ?q + 16 + n * sz \<le> length dat then (Some (of_nat (?q + 16)), at dat (?q + 16 + n * sz))
     else (None, (at dat (?q + 16))\<lparr>r_error := True\<rparr>))"
    using mmap_ptr_at [OF dat, of "n * sz" "?q + 16"] mmap_ptr_short [OF dat, of "n * sz" "?q + 16"]
      room sz by (simp flip: of_nat_mult)
  have skip: "(if (8 - (r_pos (at dat (length buf)) mod 8)) mod 8 \<noteq> 0
      then snd (bcio_mmap_ptr (at dat (length buf)) ((8 - (r_pos (at dat (length buf)) mod 8)) mod 8))
      else at dat (length buf)) = at dat ?q"
    using skip_pad [OF dat, of "length buf"] room by (auto simp: Let_def split: if_splits)
  show ?thesis
    unfolding bcio_mmap_read_dyn_array_def Let_def skip hdr
    using fits nz elems count by (auto simp: Let_def)
qed

definition put_array :: "nat \<Rightarrow> ('a \<Rightarrow> bytes) \<Rightarrow> 'a list \<Rightarrow> bytes \<Rightarrow> bytes" where
  "put_array sz enc xs buf = bcio_write_dyn_array buf (length xs) (concat (map enc xs))"

lemma put_array_eq:
  "put_array sz enc xs buf = (bcio_align buf 8 @ le_bytes 8 (of_nat (length xs) :: u64)
     @ le_bytes 8 (of_nat (length xs) :: u64)) @ concat (map enc xs)"
  by (simp add: put_array_def bcio_write_dyn_array_def bcio_write_def)

lemma dyn_array_short:
  assumes "small dat" "length buf \<le> length dat" "length dat < length buf + pad_of (length buf) + 16"
  shows "r_error (snd (bcio_mmap_read_dyn_array (at dat (length buf)) n))"
proof (cases "length buf + pad_of (length buf) \<le> length dat")
  case True
  then have "bcio_mmap_ptr (at dat (length buf + pad_of (length buf))) 16
      = (None, (at dat (length buf + pad_of (length buf)))\<lparr>r_error := True\<rparr>)"
    using mmap_ptr_short [OF assms(1), of 16 "length buf + pad_of (length buf)"] assms by simp
  moreover have "(if (8 - (r_pos (at dat (length buf)) mod 8)) mod 8 \<noteq> 0
      then snd (bcio_mmap_ptr (at dat (length buf)) ((8 - (r_pos (at dat (length buf)) mod 8)) mod 8))
      else at dat (length buf)) = at dat (length buf + pad_of (length buf))"
    using skip_pad [OF assms(1,2)] True by (auto simp: Let_def split: if_splits)
  ultimately show ?thesis
    unfolding bcio_mmap_read_dyn_array_def Let_def by simp
next
  case False
  then have "(if (8 - (r_pos (at dat (length buf)) mod 8)) mod 8 \<noteq> 0
      then snd (bcio_mmap_ptr (at dat (length buf)) ((8 - (r_pos (at dat (length buf)) mod 8)) mod 8))
      else at dat (length buf)) = (at dat (length buf))\<lparr>r_error := True\<rparr>"
    using skip_pad [OF assms(1,2)] by (auto simp: Let_def split: if_splits)
  then show ?thesis
    unfolding bcio_mmap_read_dyn_array_def Let_def by simp
qed

lemma array_codec:
  assumes sz: "0 < sz" "sz < 2 ^ 61" and enc: "\<And>x. length (enc x) = sz" "\<And>x. elem (enc x) = x"
  shows "cache_codec (put_array sz enc) (\<lambda>xs. length xs * sz < 2 ^ 61) (elems_at sz elem) (\<lambda>_ xs. Some xs)"
proof (unfold_locales, goal_cases)
  case (1 xs buf)
  then show ?case by (simp add: put_array_eq align_pad)
next
  case (2 xs dat buf)
  let ?n = "length xs" and ?q = "length buf + pad_of (length buf) + 16"
  let ?hdr = "bcio_align buf 8 @ le_bytes 8 (of_nat ?n :: u64) @ le_bytes 8 (of_nat ?n :: u64)"
  have hdr: "prefix ?hdr dat" using 2(3) by (auto simp: put_array_eq prefix_def)
  have lh: "length ?hdr = ?q" by (simp add: align_pad)
  have lc: "length (concat (map enc xs)) = ?n * sz" by (rule length_concat_slots) (rule enc)
  have room: "?q + ?n * sz \<le> length dat"
    using prefix_length_le [OF 2(3)] lh lc by (simp add: put_array_eq)
  have q: "unat (of_nat ?q :: u64) = ?q"
    using room 2(2) by (intro unat_of_nat_small) (simp add: small_def)
  have "?n \<le> ?n * sz" using sz by simp
  then have "?n < 2 ^ 61" using 2(1) by (rule le_less_trans)
  then have n: "unat (of_nat ?n :: u64) = ?n"
    by (intro unat_of_nat_small) simp
  have "elem (slice dat (of_nat ?q + of_nat (i * sz)) sz) = xs ! i" if i: "i < ?n" for i
  proof -
    have "i * sz \<le> ?n * sz" using i by simp
    then have "?q + i * sz \<le> length dat" using room by linarith
    moreover have "length dat < 2 ^ 64" using 2(2) by (simp add: small_def)
    ultimately have "?q + i * sz < 2 ^ 64" by (rule le_less_trans)
    then have "unat (of_nat (?q + i * sz) :: u64) = ?q + i * sz"
      by (intro unat_of_nat_small) simp
    then have "slice dat (of_nat (?q + i * sz)) sz = take sz (drop (i * sz) (drop ?q dat))"
      by (simp add: slice_def add.commute)
    also have "\<dots> = take sz (drop (i * sz) (concat (map enc xs)))"
    proof -
      obtain zs where "dat = ?hdr @ concat (map enc xs) @ zs" using 2(3) by (auto simp: put_array_eq prefix_def)
      then have "drop ?q dat = concat (map enc xs) @ zs" using lh by (metis append_eq_conv_conj)
      moreover have "i * sz + sz \<le> ?n * sz" using i by (metis Suc_leI add.commute mult_Suc mult_le_mono1)
      ultimately show ?thesis using lc by simp
    qed
    finally show ?thesis using enc i by (simp add: concat_slot)
  qed
  then have "map (\<lambda>i. elem (slice dat (of_nat ?q + of_nat (i * sz)) sz)) [0..<?n] = xs"
    by (intro nth_equalityI) simp_all
  moreover have "length (put_array sz enc xs buf) = ?q + ?n * sz"
    using lh lc by (simp add: put_array_eq)
  ultimately show ?case
    using dyn_array_at [OF 2(2) sz(1) _ sz(2) hdr] 2(1) room q n
    by (simp add: elems_at_def Let_def)
next
  case (3 xs dat buf)
  let ?n = "length xs" and ?q = "length buf + pad_of (length buf) + 16"
  let ?hdr = "bcio_align buf 8 @ le_bytes 8 (of_nat ?n :: u64) @ le_bytes 8 (of_nat ?n :: u64)"
  have lh: "length ?hdr = ?q" by (simp add: align_pad)
  have lc: "length (concat (map enc xs)) = ?n * sz" by (rule length_concat_slots) (rule enc)
  show ?case
  proof (cases "?q \<le> length dat")
    case True
    have "prefix dat (?hdr @ concat (map enc xs))"
      using 3(3) by (simp add: put_array_eq strict_prefix_def)
    then have hdr: "prefix ?hdr dat"
      using True lh prefix_length_prefix [of ?hdr "?hdr @ concat (map enc xs)" dat] by simp
    have "length dat < ?q + ?n * sz"
      using strict_prefix_room [OF 3(3)] lh lc by (simp add: put_array_eq)
    then show ?thesis
      using dyn_array_at [OF 3(2) sz(1) _ sz(2) hdr] 3(1) by (simp add: elems_at_def Let_def)
  next
    case False
    then have "r_error (snd (bcio_mmap_read_dyn_array (at dat (length buf)) (of_nat sz)))"
      using dyn_array_short [OF 3(2,4)] by simp
    then show ?thesis by (auto simp: elems_at_def split: prod.split option.split)
  qed
next
  case (4 r)
  then show ?case by (simp add: elems_at_def)
qed

section \<open>Type references\<close>

fun raw_of :: "type_ref \<Rightarrow> raw_type_ref" where
  "raw_of (TypeRef k name pointee map_key count al cn params ret) =
     RawTypeRef (type_kind_code k) name (map_option raw_of pointee) (map_option raw_of map_key) count
       (map raw_of params) (map_option raw_of ret)"

fun type_ref_ok :: "type_ref \<Rightarrow> bool" where
  "type_ref_ok (TypeRef k name pointee map_key count al cn params ret) \<longleftrightarrow>
     str_ok name \<and> pred_option type_ref_ok pointee \<and> pred_option type_ref_ok map_key
     \<and> length params < 2 ^ 32 \<and> list_all type_ref_ok params \<and> pred_option type_ref_ok ret"

lemma write_box_eq:
  "bcio_write_type_ref_box b buf =
     (case b of None \<Rightarrow> bcio_write_b32 buf False | Some t \<Rightarrow> bcio_write_type_ref t (bcio_write_b32 buf True))"
  by (cases b) simp_all

lemma write_list_eq: "bcio_write_type_ref_list ts buf = fold bcio_write_type_ref ts buf"
  by (induction ts arbitrary: buf) simp_all

lemma prefix_write_box:
  assumes "\<And>t buf. t \<in> set_option b \<Longrightarrow> prefix buf (bcio_write_type_ref t buf)"
  shows "prefix buf (bcio_write_type_ref_box b buf)"
  using assms [of _ "bcio_write_b32 buf True"]
  by (cases b) (auto simp: bcio_write_b32_def write_bytes dest: append_prefixD)

lemma prefix_write_list:
  assumes "\<And>t buf. t \<in> set ts \<Longrightarrow> prefix buf (bcio_write_type_ref t buf)"
  shows "prefix buf (bcio_write_type_ref_list ts buf)"
  using assms
proof (induction ts arbitrary: buf)
  case (Cons t ts)
  have "prefix buf (bcio_write_type_ref t buf)" by (rule Cons.prems) simp
  also have "prefix \<dots> (bcio_write_type_ref_list ts (bcio_write_type_ref t buf))"
    by (rule Cons.IH) (simp add: Cons.prems)
  finally show ?case by simp
qed simp

lemma prefix_write_type_ref:
  "prefix (bcio_write_u32 buf (type_kind_code (tr_kind t))) (bcio_write_type_ref t buf)"
proof (induction t arbitrary: buf)
  case (TypeRef k name pointee map_key count al cn params ret)
  have head: "prefix b x" if "prefix (bcio_write_u32 b v) x" for b v x
    using that by (auto simp: write_bytes dest: append_prefixD)
  have box: "prefix b (bcio_write_type_ref_box pointee b)" "prefix b (bcio_write_type_ref_box map_key b)"
    "prefix b (bcio_write_type_ref_box ret b)" for b
    by (rule prefix_write_box, rule head, rule TypeRef, assumption)+
  have list: "prefix b (bcio_write_type_ref_list params b)" for b
    by (rule prefix_write_list, rule head, rule TypeRef)
  have field: "prefix b (bcio_write_u32 b v)" "prefix b (bcio_write_u64 b w)"
    "prefix b (bcio_write_string b s)" for b v w s
    by (simp_all add: write_bytes bcio_write_string_def bcio_write_def)
  note steps = field [THEN prefix_order.trans [rotated]] box [THEN prefix_order.trans [rotated]]
    list [THEN prefix_order.trans [rotated]]
  show ?case
    by (simp add: Let_def) (intro steps prefix_order.refl)
qed

lemma write_type_ref_extends: "\<exists>bs. bcio_write_type_ref t buf = buf @ bs \<and> bs \<noteq> []"
  using prefix_write_type_ref [of buf t] by (auto simp: prefix_def write_bytes)

abbreviation type_ref_fits :: "nat \<Rightarrow> type_ref \<Rightarrow> bool" where
  "type_ref_fits n t \<equiv> type_ref_ok t \<and> size t \<le> n"

lemma type_ref_codec_fuel:
  "cache_codec bcio_write_type_ref (type_ref_fits n) (bcio_mmap_read_type_ref n) (\<lambda>_. raw_of)"
proof (induction n)
  case 0
  have z: "type_ref_fits 0 t \<longleftrightarrow> False" for t by (cases t) simp
  show ?case
    unfolding z by unfold_locales (simp_all add: write_type_ref_extends)
next
  case (Suc n)
  have box: "cache_codec bcio_write_type_ref_box (pred_option (type_ref_fits n))
      (read_box (bcio_mmap_read_type_ref n)) (\<lambda>_. map_option raw_of)"
    by (rule codec_map [OF cache_codec.box_codec [OF Suc.IH], where f = id and h = id])
      (auto simp: write_box_eq apfst_def map_prod.id split: option.split)
  have params: "cache_codec (write_counted bcio_write_type_ref)
      (\<lambda>ts. list_all (type_ref_fits n) ts \<and> length ts < 2 ^ 32)
      (\<lambda>r. let (k, r) = bcio_mmap_read_u32 r in times (unat k) (bcio_mmap_read_type_ref n) r)
      (\<lambda>_. map raw_of)"
    by (rule codec_map [OF cache_codec.plain_codec [OF Suc.IH], where f = id and h = id])
      (auto simp: apfst_def map_prod.id cache_codec.views_const [OF Suc.IH])
  note rest = codec_seq [OF u64_codec codec_seq [OF box codec_seq [OF box codec_seq [OF params box]]]]
  note all = codec_seq [OF u32_codec codec_seq [OF string_codec rest]]
  show ?case
  proof (rule codec_map [OF all,
        where f = "\<lambda>t. (type_kind_code (tr_kind t), tr_name t, tr_count t, tr_pointee t, tr_map_key t,
          tr_fn_params t, tr_fn_return t)" and
        h = "\<lambda>(k, name, count, pointee, map_key, params, ret). RawTypeRef k name pointee map_key count params ret"],
      goal_cases)
    case (1 t buf)
    then show ?case
      by (cases t) (simp add: write_list_eq write_counted_def Let_def)
  next
    case (2 t)
    show ?case
    proof (cases t)
      case (TypeRef k name pointee map_key count al cn params ret)
      have "size p \<le> n" if "p \<in> set params" for p
        using 2 TypeRef size_list_estimation' [OF that, of "size p" size] by simp
      then show ?thesis
        using 2 TypeRef by (auto simp: list_all_iff option.pred_set)
    qed
  next
    case (3 r)
    then show ?case by (simp add: split_beta Let_def)
  next
    case (4 buf t)
    show ?case by (cases t) simp
  qed
qed

text \<open>With the whole file as the bound, the bound is out of the way.\<close>

lemma type_ref_codec: "cache_codec bcio_write_type_ref type_ref_ok read_type_ref (\<lambda>_. raw_of)"
proof -
  have same: "read_type_ref (at dat (length buf)) =
      bcio_mmap_read_type_ref (size t + length dat) (at dat (length buf))"
    if "small dat" "length buf \<le> length dat" for dat buf and t :: type_ref
  proof -
    have "cursor_ok (at dat (length buf))" "left_over (at dat (length buf)) \<le> length dat"
      using that by (simp_all add: cursor_ok_def left_over_def small_pos)
    then show ?thesis
      unfolding read_type_ref_def by (intro type_ref_fuel) simp_all
  qed
  show ?thesis
  proof (unfold_locales, goal_cases)
    case (1 t buf)
    show ?case by (rule write_type_ref_extends)
  next
    case (2 t dat buf)
    have "length buf \<le> length dat"
      using write_type_ref_extends [of t buf] prefix_length_le [OF 2(3)] by auto
    then show ?case
      using 2 cache_codec.reads [OF type_ref_codec_fuel [of "size t + length dat"], of t dat buf]
      by (simp add: same [of _ _ t])
  next
    case (3 t dat buf)
    then show ?case
      using cache_codec.short [OF type_ref_codec_fuel [of "size t + length dat"], of t dat buf]
      by (simp add: same [of _ _ t])
  next
    case (4 r)
    then show ?case
      by (simp add: read_type_ref_def cache_codec.sticky [OF type_ref_codec_fuel])
  qed
qed

section \<open>The records of a chunk and the signatures\<close>

definition string_fixup_ok :: "bc_string_fixup \<Rightarrow> bool" where
  "string_fixup_ok fx \<longleftrightarrow> str_ok (sf_bytes fx)"

lemma string_fixup_codec:
  "cache_codec write_string_fixup string_fixup_ok read_string_fixup
     (\<lambda>buf fx. (fx, of_nat (length buf + 12)))"
proof -
  note c = codec_seq [OF u32_codec codec_seq [OF u32_codec string_codec]]
  have parts: "read_string_fixup r = (let ((slot, hdr, bs), r) =
      (\<lambda>r. let (a, r) = bcio_mmap_read_u32 r; (b, r) = (\<lambda>r. let (a, r) = bcio_mmap_read_u32 r;
         (b, r) = bcio_mmap_read_string r in ((a, b), r)) r in ((a, b), r)) r
      in ((\<lparr>sf_const_slot = slot, sf_is_header = hdr, sf_bytes = bs\<rparr>, r_pos r - of_nat (length bs)), r))" for r
    by (simp add: read_string_fixup_def bcio_mmap_read_b32_def split_beta Let_def)
  have w: "write_string_fixup fx buf =
      (\<lambda>x buf. bcio_write_string (bcio_write_u32 (bcio_write_u32 buf (fst x)) (fst (snd x))) (snd (snd x)))
        (sf_const_slot fx, sf_is_header fx, sf_bytes fx) buf" for fx buf
    by (simp add: write_string_fixup_def)
  show ?thesis
  proof (unfold_locales, goal_cases)
    case (1 fx buf)
    show ?case unfolding w by (rule cache_codec.extends [OF c])
  next
    case (2 fx dat buf)
    have "length (write_string_fixup fx buf) = length buf + 12 + length (sf_bytes fx)"
      by (simp add: write_string_fixup_def write_bytes bcio_write_string_def bcio_write_def)
    then show ?case
      using cache_codec.reads [OF c _ 2(2), where x = "(sf_const_slot fx, sf_is_header fx, sf_bytes fx)" and buf = buf]
        2(1,3)
      unfolding parts w by (simp add: string_fixup_ok_def)
  next
    case (3 fx dat buf)
    then show ?case
      using cache_codec.short [OF c _ 3(2), where x = "(sf_const_slot fx, sf_is_header fx, sf_bytes fx)" and buf = buf]
      unfolding parts w by (simp add: string_fixup_ok_def split_beta Let_def)
  next
    case (4 r)
    then show ?case by (simp add: parts)
  qed
qed

lemma layout_fixup_codec:
  "cache_codec write_layout_fixup (\<lambda>_. True) read_layout_fixup (\<lambda>_ fx. fx)"
proof -
  note f = u32_codec u64_codec
  note c = codec_seq [OF f(1) codec_seq [OF f(1) codec_seq [OF f(2) codec_seq [OF f(2) codec_seq [OF f(2)
    codec_seq [OF f(2) codec_seq [OF f(2) codec_seq [OF f(2) codec_seq [OF f(2) f(1)]]]]]]]]]
  show ?thesis
    by (rule codec_map [OF c,
          where f = "\<lambda>fx. (lf_const_slot fx, hl_key_kind (lf_layout fx), hl_key_size (lf_layout fx),
            hl_value_size (lf_layout fx), hl_slot_size (lf_layout fx), hl_slot_align (lf_layout fx),
            hl_key_offset (lf_layout fx), hl_value_offset (lf_layout fx), hl_state_offset (lf_layout fx),
            hl_is_set (lf_layout fx))" and
          h = "\<lambda>(slot, kk, ks, vs, ss, sa, ko, vo, so, is). \<lparr>lf_const_slot = slot,
            lf_layout = \<lparr>hl_key_kind = kk, hl_key_size = ks, hl_value_size = vs, hl_slot_size = ss,
              hl_slot_align = sa, hl_key_offset = ko, hl_value_offset = vo, hl_state_offset = so,
              hl_is_set = is\<rparr>\<rparr>"])
      (simp_all add: write_layout_fixup_def read_layout_fixup_def Let_def split_beta bcio_mmap_read_b32_def)
qed

lemma host_call_codec:
  "cache_codec write_host_call (\<lambda>hc. str_ok (snd hc)) read_host_call (\<lambda>_ hc. (of_nat (fst hc), snd hc))"
  by (rule codec_map [OF codec_seq [OF u32_codec string_codec],
        where f = "\<lambda>hc. (of_nat (fst hc), snd hc)" and h = id])
    (simp_all add: write_host_call_def read_host_call_def Let_def split_beta)

definition sig_ok :: "string \<times> bc_host_import \<Rightarrow> bool" where
  "sig_ok sig \<longleftrightarrow> str_ok (fst sig) \<and> list_all type_ref_ok (import_params (snd sig))
     \<and> type_ref_ok (hi_return_type (snd sig))"

definition sig_of :: "string \<times> bc_host_import \<Rightarrow> cached_sig" where
  "sig_of sig = \<lparr>cs_name = fst sig, cs_kind = hi_kind (snd sig),
     cs_param_types = map raw_of (import_params (snd sig)),
     cs_return_type = raw_of (hi_return_type (snd sig))\<rparr>"

lemma length_import_params [simp]: "length (import_params imp) = unat (hi_arg_count imp)"
  by (simp add: import_params_def)

lemma sig_codec: "cache_codec write_import_sig sig_ok read_sig (\<lambda>_. sig_of)"
proof -
  note params = cache_codec.counted_codec [OF type_ref_codec]
  note c = codec_seq [OF string_codec codec_seq [OF u32_codec codec_seq [OF params type_ref_codec]]]
  have n: "unat (hi_arg_count imp) < 4294967296" for imp
    using unat_lt2p [of "hi_arg_count imp"] by simp
  show ?thesis
    by (rule codec_map [OF c,
          where f = "\<lambda>s. (fst s, hi_kind (snd s), import_params (snd s), hi_return_type (snd s))" and
          h = "\<lambda>(name, kind, params, ret). \<lparr>cs_name = name, cs_kind = kind, cs_param_types = params,
            cs_return_type = ret\<rparr>"])
      (simp_all add: write_import_sig_def write_list_eq write_counted_def read_sig_def sig_ok_def sig_of_def
        Let_def split_beta cache_codec.views_const [OF type_ref_codec] n)
qed

end
