(* ===== verification/Cache_Load.thy ===== *)
theory Cache_Load
  imports Cache_Codec
begin

text \<open>
  \<^verbatim>\<open>bc_program_load\<close> of \<^verbatim>\<open>bcio.c\<close>: rebuilding a program from the bytes of a mapped cache file.
  A load ends with the program, the hash stored beside it and the objects it allocated, or with the
  way it stopped: an unusable file (the caller recompiles), a failed assertion, or a step the C
  program has no defined continuation for.  The latter is entered when the wrapping bounds check
  grants an array that leaves the mapping, and when a signature read from the file makes
  \<^verbatim>\<open>type_ref_equal\<close> follow a missing pointer.

  What only the loading process knows is in the \<open>load_env\<close>: where it maps the file, where it
  allocates the boxes, its host imports and its module resolver.
\<close>

datatype load_stop = Unusable | Assertion_Failed | No_Continuation

datatype boxed = Text_Header u64 u64 | Slot_Layout bc_hash_slot_layout

type_synonym boxes = "(u64 \<times> boxed) list"

record load_env =
  le_map_base :: u64
  le_text_box :: "nat \<Rightarrow> nat \<Rightarrow> u64"
  le_layout_box :: "nat \<Rightarrow> nat \<Rightarrow> u64"
  le_imports :: "bc_host_import list"
  le_resolver :: "(string \<Rightarrow> (nat \<times> u32) option) option"

section \<open>Comparing a stored signature with a registered one\<close>

text \<open>\<^verbatim>\<open>type_ref_equal\<close> on a type whose kind numbers come from the file.\<close>

fun type_ref_equal_raw :: "raw_type_ref \<Rightarrow> type_ref \<Rightarrow> bool option"
and type_ref_equal_raw_box :: "raw_type_ref option \<Rightarrow> type_ref option \<Rightarrow> bool option"
and type_ref_equal_raw_list :: "raw_type_ref list \<Rightarrow> type_ref list \<Rightarrow> bool option" where
  "type_ref_equal_raw (RawTypeRef k name pointee map_key count params ret)
                      (TypeRef k' name' pointee' map_key' count' al' cn' params' ret') =
     (if k \<noteq> type_kind_code k' then Some False
      else if k' = TypeKind_Named then Some (str8_match name name' 0)
      else if k' = TypeKind_Handle then Some (str8_match name name' 0)
      else if k' = TypeKind_Pointer
      then (if pointee = None \<or> pointee' = None then Some True
            else type_ref_equal_raw_box pointee pointee')
      else if k' = TypeKind_Array
      then check_and (Some (count = count')) (type_ref_equal_raw_box pointee pointee')
      else if k' = TypeKind_Vector \<or> k' = TypeKind_Set then type_ref_equal_raw_box pointee pointee'
      else if k' = TypeKind_Map
      then check_and (type_ref_equal_raw_box map_key map_key') (type_ref_equal_raw_box pointee pointee')
      else if k' = TypeKind_Fn
      then (if length params \<noteq> length params' then Some False
            else check_and (type_ref_equal_raw_box ret ret') (type_ref_equal_raw_list params params'))
      else Some True)"
| "type_ref_equal_raw_box (Some a) (Some b) = type_ref_equal_raw a b"
| "type_ref_equal_raw_box _ _ = None"
| "type_ref_equal_raw_list (a # as) (b # bs) =
     check_and (type_ref_equal_raw a b) (type_ref_equal_raw_list as bs)"
| "type_ref_equal_raw_list _ _ = Some True"

definition BC_NATIVE_DIRECT_MAX_ARGS :: u32 where "BC_NATIVE_DIRECT_MAX_ARGS = 12"

text \<open>The reasons a signature is rejected for, with the texts left out.\<close>

datatype mismatch =
    Arg_Count u32 u32 | Direct_Too_Many u32 | Param_Type nat | Direct_Float_Param nat
  | Return_Type | Direct_Float_Return

definition is_direct :: "bc_host_import \<Rightarrow> bool" where
  "is_direct imp \<longleftrightarrow> hi_kind imp = 1"

definition is_float_kind :: "type_kind \<Rightarrow> bool" where
  "is_float_kind k \<longleftrightarrow> k = TypeKind_F32 \<or> k = TypeKind_F64"

fun verify_params :: "bc_host_import \<Rightarrow> nat \<Rightarrow> raw_type_ref list \<Rightarrow> mismatch list option" where
  "verify_params imp pi [] = Some []"
| "verify_params imp pi (expected # others) =
     do { eq \<leftarrow> type_ref_equal_raw expected (param_type (hi_param_types imp) pi);
          rest \<leftarrow> verify_params imp (Suc pi) others;
          Some ((if eq then [] else [Param_Type pi])
                @ (if is_direct imp \<and> is_float_kind (tr_kind (param_type (hi_param_types imp) pi))
                   then [Direct_Float_Param pi] else []) @ rest) }"

definition bc_verify_host_import_signature :: "cached_sig \<Rightarrow> bc_host_import \<Rightarrow> (bool \<times> mismatch list) option" where
  "bc_verify_host_import_signature sig imp =
     (if of_nat (length (cs_param_types sig)) \<noteq> hi_arg_count imp
      then Some (False, [Arg_Count (of_nat (length (cs_param_types sig))) (hi_arg_count imp)])
      else do { ps \<leftarrow> verify_params imp 0 (cs_param_types sig);
                eq \<leftarrow> type_ref_equal_raw (cs_return_type sig) (hi_return_type imp);
                let ms = (if is_direct imp \<and> hi_arg_count imp > BC_NATIVE_DIRECT_MAX_ARGS
                          then [Direct_Too_Many (hi_arg_count imp)] else [])
                         @ ps @ (if eq then [] else [Return_Type])
                         @ (if is_direct imp \<and> is_float_kind (tr_kind (hi_return_type imp))
                            then [Direct_Float_Return] else []);
                Some (ms = [], ms) })"

fun bc_verify_cached_host_imports :: "cached_sig list \<Rightarrow> bc_host_import list \<Rightarrow> bool option" where
  "bc_verify_cached_host_imports [] imports = Some True"
| "bc_verify_cached_host_imports (sig # sigs) imports =
     (case find_import imports (cs_name sig) of
        None \<Rightarrow> bc_verify_cached_host_imports sigs imports
      | Some hi \<Rightarrow>
          do { (ok, ms) \<leftarrow> bc_verify_host_import_signature sig (imports ! hi);
               rest \<leftarrow> bc_verify_cached_host_imports sigs imports;
               Some (ok \<and> rest) })"

section \<open>Loading a chunk\<close>

definition text_address :: "load_env \<Rightarrow> u64 \<Rightarrow> string \<Rightarrow> u64" where
  "text_address env off bs = (if bs = [] then 0 else le_map_base env + off)"

definition apply_string_fixup ::
  "load_env \<Rightarrow> nat \<Rightarrow> nat \<Rightarrow> bc_string_fixup \<times> u64 \<Rightarrow> i64 list \<times> boxes \<Rightarrow> i64 list \<times> boxes" where
  "apply_string_fixup env ci i fx st =
     (let slot = unat (sf_const_slot (fst fx)); bs = sf_bytes (fst fx);
          addr = text_address env (snd fx) bs
      in if slot \<ge> length (fst st) then st
         else if sf_is_header (fst fx) \<noteq> 0
         then ((fst st)[slot := le_text_box env ci i],
               snd st @ [(le_text_box env ci i, Text_Header addr (of_nat (length bs)))])
         else ((fst st)[slot := addr], snd st))"

definition apply_layout_fixup ::
  "load_env \<Rightarrow> nat \<Rightarrow> nat \<Rightarrow> bc_layout_fixup \<Rightarrow> i64 list \<times> boxes \<Rightarrow> i64 list \<times> boxes" where
  "apply_layout_fixup env ci i fx st =
     (let slot = unat (lf_const_slot fx)
      in if slot \<ge> length (fst st) then st
         else ((fst st)[slot := le_layout_box env ci i],
               snd st @ [(le_layout_box env ci i, Slot_Layout (lf_layout fx))]))"

text \<open>A host call whose name is not registered makes the file unusable: \<open>None\<close>.\<close>

definition apply_host_call ::
  "load_env \<Rightarrow> nat \<Rightarrow> u32 \<times> string \<Rightarrow> bc_instr list option \<Rightarrow> bc_instr list option" where
  "apply_host_call env i hc st =
     (case st of None \<Rightarrow> None
      | Some instrs \<Rightarrow>
          if unat (fst hc) \<ge> length instrs then Some instrs
          else case find_import (le_imports env) (snd hc) of
                 None \<Rightarrow> None
               | Some hi \<Rightarrow> Some (instrs[unat (fst hc) := (instrs ! unat (fst hc))\<lparr>in_b := of_nat hi\<rparr>]))"

text \<open>One round of a fixup loop: read the record, then use it unless the reader has failed.\<close>

definition fixup_round :: "(reader \<Rightarrow> 'x \<times> reader) \<Rightarrow> (nat \<Rightarrow> 'x \<Rightarrow> 's \<Rightarrow> 's) \<Rightarrow> nat \<Rightarrow> 's \<times> reader \<Rightarrow> 's \<times> reader" where
  "fixup_round get f i sr =
     (let (x, r) = get (snd sr) in (if r_error r then fst sr else f i x (fst sr), r))"

definition fixup_loop :: "(reader \<Rightarrow> 'x \<times> reader) \<Rightarrow> (nat \<Rightarrow> 'x \<Rightarrow> 's \<Rightarrow> 's) \<Rightarrow> 's \<Rightarrow> reader \<Rightarrow> 's \<times> reader" where
  "fixup_loop get f s r =
     (let (n, r) = bcio_mmap_read_bounded_count r
      in fold (fixup_round get f) [0..<unat n] (s, r))"

text \<open>The fields before the fixups; an array that leaves the mapping is \<open>None\<close>.\<close>

definition read_chunk_head ::
  "reader \<Rightarrow> (string \<times> u32 \<times> u32 \<times> bc_instr list option \<times> i64 list option) \<times> reader" where
  "read_chunk_head r =
     (let (name, r) = bcio_mmap_read_string r;
          (num_registers, r) = bcio_mmap_read_u32 r;
          (param_count, r) = bcio_mmap_read_u32 r;
          (instrs, r) = read_code r;
          (consts, r) = read_consts r
      in ((name, num_registers, param_count, instrs, consts), r))"

definition load_chunk :: "load_env \<Rightarrow> nat \<Rightarrow> reader \<Rightarrow> load_stop + bc_chunk \<times> boxes \<times> reader" where
  "load_chunk env ci r =
     (let ((name, num_registers, param_count, instrs, consts), r) = read_chunk_head r
      in case instrs of None \<Rightarrow> Inl No_Continuation | Some instrs \<Rightarrow>
         case consts of None \<Rightarrow> Inl No_Continuation | Some consts \<Rightarrow>
         let (st, r) = fixup_loop read_string_fixup (apply_string_fixup env ci) (consts, []) r;
             (st, r) = fixup_loop read_layout_fixup (apply_layout_fixup env ci) st r;
             (instrs, r) = fixup_loop read_host_call (apply_host_call env) (Some instrs) r
         in case instrs of None \<Rightarrow> Inl Unusable
            | Some instrs \<Rightarrow>
                Inr (\<lparr>ch_code = instrs, ch_consts = fst st, ch_num_registers = num_registers,
                      ch_param_count = param_count, ch_name = name, ch_string_fixups = [],
                      ch_layout_fixups = []\<rparr>, snd st, r))"

fun load_chunks :: "load_env \<Rightarrow> nat \<Rightarrow> nat \<Rightarrow> reader \<Rightarrow> load_stop + bc_chunk list \<times> boxes \<times> reader" where
  "load_chunks env ci 0 r = Inr ([], [], r)"
| "load_chunks env ci (Suc n) r =
     (case load_chunk env ci r of
        Inl e \<Rightarrow> Inl e
      | Inr (chunk, bx, r) \<Rightarrow>
          (case load_chunks env (Suc ci) n r of
             Inl e \<Rightarrow> Inl e
           | Inr (chunks, bxs, r) \<Rightarrow> Inr (chunk # chunks, bx @ bxs, r)))"

section \<open>Loading a program\<close>

text \<open>A name that does not resolve, or one past the end of the file, makes the file unusable.\<close>

fun load_modules ::
  "load_env \<Rightarrow> nat \<Rightarrow> bc_module_import list \<Rightarrow> reader \<Rightarrow> load_stop + bc_module_import list \<times> reader" where
  "load_modules env 0 table r = Inr (table, r)"
| "load_modules env (Suc n) table r =
     (let (name, r) = bcio_mmap_read_string r
      in if r_error r then Inl Unusable
         else case le_resolver env of
           None \<Rightarrow> Inl Unusable
         | Some resolve \<Rightarrow>
             (case resolve name of
                None \<Rightarrow> Inl Unusable
              | Some (prog, fn) \<Rightarrow> load_modules env n (bc_module_table_add table name prog fn) r))"

definition check_sigs :: "load_env \<Rightarrow> cached_sig list \<Rightarrow> reader \<Rightarrow> load_stop + unit" where
  "check_sigs env sigs r =
     (if \<not> r_error r \<and> sigs \<noteq> []
      then case bc_verify_cached_host_imports sigs (le_imports env) of
             None \<Rightarrow> Inl No_Continuation
           | Some ok \<Rightarrow> if ok then Inr () else Inl Assertion_Failed
      else Inr ())"

definition load_module_table ::
  "load_env \<Rightarrow> reader \<Rightarrow> load_stop + bc_module_import list option \<times> reader" where
  "load_module_table env r =
     (let (n, r) = bcio_mmap_read_bounded_count r
      in if \<not> r_error r \<and> n > 0
         then case load_modules env (unat n) [] r of
                Inl e \<Rightarrow> Inl e | Inr (table, r) \<Rightarrow> Inr (Some table, r)
         else Inr (None, r))"

text \<open>Everything after the preamble and the two counts.\<close>

definition load_body :: "load_env \<Rightarrow> u64 \<Rightarrow> nat \<Rightarrow> nat \<Rightarrow> reader \<Rightarrow> load_stop + u64 \<times> bc_program \<times> boxes" where
  "load_body env content_hash chunk_count global_count r =
     (case load_chunks env 0 chunk_count r of
        Inl e \<Rightarrow> Inl e
      | Inr (chunks, bx, r) \<Rightarrow>
          let (sigs, r) = read_counted read_sig r
          in case check_sigs env sigs r of
               Inl e \<Rightarrow> Inl e
             | Inr _ \<Rightarrow>
                 (case load_module_table env r of
                    Inl e \<Rightarrow> Inl e
                  | Inr (table, r) \<Rightarrow>
                      if r_error r then Inl Unusable
                      else if \<not> bcio_verify_loaded_code chunks then Inl Unusable
                      else Inr (content_hash,
                             \<lparr>pr_chunks = chunks, pr_global_count = global_count,
                              pr_module_table = table\<rparr>, bx)))"

definition bc_program_load :: "load_env \<Rightarrow> bytes \<Rightarrow> load_stop + u64 \<times> bc_program \<times> boxes" where
  "bc_program_load env dat =
     (if dat = [] then Inl Unusable
      else
        let r = \<lparr>r_data = dat, r_pos = 0, r_error = False\<rparr>;
            (magic, r) = bcio_mmap_read_u32 r;
            (version, r) = bcio_mmap_read_u32 r
        in if r_error r \<or> magic \<noteq> BC_CACHE_MAGIC \<or> version \<noteq> BC_CACHE_VERSION then Inl Unusable
           else
             let (content_hash, r) = bcio_mmap_read_u64 r;
                 (chunk_count, r) = bcio_mmap_read_bounded_count r;
                 (global_count, r) = bcio_mmap_read_bounded_count r
             in load_body env content_hash (unat chunk_count) (unat global_count) r)"

text \<open>The last step of the loader: \<^verbatim>\<open>#init_globals\<close> runs once; what it returns, a trap included, is
  not looked at.\<close>

definition bc_program_find_fn :: "bc_program \<Rightarrow> string \<Rightarrow> u32 option" where
  "bc_program_find_fn prog name =
     map_option of_nat (find (\<lambda>i. str8_match (ch_name (pr_chunks prog ! i)) name 0) [0..<length (pr_chunks prog)])"

definition bc_run_init_globals ::
  "nat \<Rightarrow> (nat \<Rightarrow> i64) \<Rightarrow> bc_env \<Rightarrow> nat \<Rightarrow> machine \<Rightarrow> bc_end" where
  "bc_run_init_globals fuel junk ev pid mc =
     (case bc_program_find_fn (ev_progs ev ! pid) ''#init_globals'' of
        None \<Rightarrow> Undefined
      | Some init_idx \<Rightarrow> bc_run_in_program fuel junk ev pid init_idx [] mc)"

end
