(* ===== verification/Cache_Props.thy ===== *)
theory Cache_Props
  imports Cache_Load VM_Props
begin

text \<open>
  What the cache guarantees: a saved program is loaded back with its addresses and host indices
  relocated, a truncated or foreign file is not loaded, and a loaded program has passed the verifier.
\<close>

section \<open>Stored types compare like the types they were written from\<close>

lemma type_kind_code_inject [simp]: "type_kind_code a = type_kind_code b \<longleftrightarrow> a = b"
  by (metis option.inject type_kind_of_code)

lemma type_ref_equal_raw_of:
  "type_ref_equal_raw (raw_of a) b = type_ref_equal a b"
  "type_ref_equal_raw_box (map_option raw_of p) q = type_ref_equal_box p q"
  "type_ref_equal_raw_list (map raw_of as) bs = type_ref_equal_list as bs"
proof (induction a b and p q and as bs rule: type_ref_equal_type_ref_equal_box_type_ref_equal_list.induct)
  case (1 k name pointee map_key count al cn params ret k' name' pointee' map_key' count' al' cn' params' ret')
  then show ?case by simp
qed simp_all

text \<open>
  Reading a type reference from any file terminates: a bound of the file's length is enough (any
  larger one gives the same result), and the cursor stays inside the mapping and never moves back.
\<close>

theorem read_type_ref_terminates:
  assumes "cursor_ok r" "length (r_data r) \<le> n"
  shows "bcio_mmap_read_type_ref n r = read_type_ref r
    \<and> cursor_ok (snd (read_type_ref r)) \<and> r_data (snd (read_type_ref r)) = r_data r
    \<and> left_over (snd (read_type_ref r)) \<le> left_over r"
proof -
  have "left_over r \<le> length (r_data r)" by (simp add: left_over_def)
  then have "bcio_mmap_read_type_ref n r = bcio_mmap_read_type_ref (length (r_data r)) r"
    using assms by (intro type_ref_fuel) simp_all
  moreover have "advances r (snd (read_type_ref r))"
    unfolding read_type_ref_def by (rule advances_type_ref)
  ultimately show ?thesis
    using assms(1) by (simp add: read_type_ref_def advances_def)
qed

lemma read_type_ref_terminates_witness:
  "bcio_mmap_read_type_ref 100 (at [255, 255, 255, 255] 0) = read_type_ref (at [255, 255, 255, 255] 0)"
  using read_type_ref_terminates [of "at [255, 255, 255, 255] 0" 100]
  by (simp add: cursor_ok_def small_def)

lemma verify_params_nil:
  "verify_params imp k es = Some [] \<longleftrightarrow>
     (\<forall>i < length es. type_ref_equal_raw (es ! i) (param_type (hi_param_types imp) (k + i)) = Some True
        \<and> \<not> (is_direct imp \<and> is_float_kind (tr_kind (param_type (hi_param_types imp) (k + i)))))"
proof (induction es arbitrary: k)
  case (Cons e es)
  have split: "(\<forall>i < length (e # es). P i) \<longleftrightarrow> P 0 \<and> (\<forall>i < length es. P (Suc i))" for P
    by (auto simp: less_Suc_eq_0_disj)
  show ?case
    unfolding split using Cons.IH [of "Suc k"] by (auto split: bind_splits if_splits)
qed simp

text \<open>
  C23: A stored signature is accepted exactly when it has the registered one's parameter count, every
  parameter type and the return type equal the registered ones under \<^verbatim>\<open>type_ref_equal\<close>, and a direct
  import takes at most twelve arguments and no floating-point type; the stored kind plays no part.
\<close>

theorem cached_signature_accepted_iff:
  "(\<exists>ms. bc_verify_host_import_signature (sig_of (name, imp)) imp' = Some (True, ms)) \<longleftrightarrow>
     hi_arg_count imp = hi_arg_count imp'
   \<and> list_all2 (\<lambda>t t'. type_ref_equal t t' = Some True) (import_params imp) (import_params imp')
   \<and> type_ref_equal (hi_return_type imp) (hi_return_type imp') = Some True
   \<and> (is_direct imp' \<longrightarrow> hi_arg_count imp' \<le> BC_NATIVE_DIRECT_MAX_ARGS
        \<and> list_all (\<lambda>t. \<not> is_float_kind (tr_kind t)) (hi_return_type imp' # import_params imp'))"
proof (cases "hi_arg_count imp = hi_arg_count imp'")
  case False
  then show ?thesis by (simp add: bc_verify_host_import_signature_def sig_of_def)
next
  case True
  let ?es = "map raw_of (import_params imp)"
  have "(\<exists>ms. bc_verify_host_import_signature (sig_of (name, imp)) imp' = Some (True, ms)) \<longleftrightarrow>
      verify_params imp' 0 ?es = Some []
      \<and> type_ref_equal (hi_return_type imp) (hi_return_type imp') = Some True
      \<and> \<not> (is_direct imp' \<and> hi_arg_count imp' > BC_NATIVE_DIRECT_MAX_ARGS)
      \<and> \<not> (is_direct imp' \<and> is_float_kind (tr_kind (hi_return_type imp')))"
    using True
    by (auto simp: bc_verify_host_import_signature_def sig_of_def type_ref_equal_raw_of Let_def
        split: bind_splits if_splits)
  moreover have "verify_params imp' 0 ?es = Some [] \<longleftrightarrow>
      list_all2 (\<lambda>t t'. type_ref_equal t t' = Some True) (import_params imp) (import_params imp')
      \<and> (is_direct imp' \<longrightarrow> list_all (\<lambda>t. \<not> is_float_kind (tr_kind t)) (import_params imp'))"
    using True
    by (auto simp: verify_params_nil type_ref_equal_raw_of list_all2_conv_all_nth list_all_length
        import_params_def)
  ultimately show ?thesis using True by auto
qed

section \<open>Fixup loops over written records\<close>

lemma fixup_round_error: "r_error r \<Longrightarrow> (\<And>r. r_error r \<Longrightarrow> r_error (snd (get r))) \<Longrightarrow>
   \<exists>r'. r_error r' \<and> fold (fixup_round get f) js (s, r) = (s, r')"
proof (induction js arbitrary: r)
  case (Cons i js)
  then have "r_error (snd (get r))" by blast
  then show ?case
    using Cons.IH [of "snd (get r)"] Cons.prems(2) by (simp add: fixup_round_def split_beta Let_def)
qed auto

lemma upt_head: "[k..<k + length (x # xs)] = k # [Suc k..<Suc k + length xs]"
  by (subst upt_rec) (simp del: upt_Suc)

fun apply_all :: "(nat \<Rightarrow> 'b \<Rightarrow> 's \<Rightarrow> 's) \<Rightarrow> nat \<Rightarrow> 'b list \<Rightarrow> 's \<Rightarrow> 's" where
  "apply_all f i [] s = s"
| "apply_all f i (x # xs) s = apply_all f (Suc i) xs (f i x s)"

context cache_codec
begin

lemma rounds_at:
  "list_all ok xs \<Longrightarrow> small dat \<Longrightarrow> prefix (fold put xs buf) dat \<Longrightarrow>
   fold (fixup_round get f) [k..<k + length xs] (s, at dat (length buf))
     = (apply_all f k (views xs buf) s, at dat (length (fold put xs buf)))"
proof (induction xs arbitrary: buf k s)
  case (Cons x xs)
  have p: "prefix (put x buf) dat"
    using Cons.prems fold_prefix [of "put x buf" xs] by (auto intro: prefix_order.trans)
  have "[k..<k + length (x # xs)] = k # [Suc k..<Suc k + length xs]"
    by (rule upt_head)
  then show ?case
    using Cons.prems reads [of x dat buf] p Cons.IH [of "put x buf" "Suc k"]
    by (simp add: fixup_round_def del: upt_Suc)
qed simp

lemma rounds_short:
  "list_all ok xs \<Longrightarrow> small dat \<Longrightarrow> strict_prefix dat (fold put xs buf) \<Longrightarrow> length buf \<le> length dat \<Longrightarrow>
   r_error (snd (fold (fixup_round get f) [k..<k + length xs] (s, at dat (length buf))))"
proof (induction xs arbitrary: buf k s)
  case Nil
  then show ?case using strict_prefix_room [of dat buf] by simp
next
  case (Cons x xs)
  obtain rest where rest: "fold put xs (put x buf) = put x buf @ rest"
    using fold_prefix [of "put x buf" xs] by (auto simp: prefix_def)
  have upt: "[k..<k + length (x # xs)] = k # [Suc k..<Suc k + length xs]"
    by (rule upt_head)
  have "prefix (put x buf) dat \<or> strict_prefix dat (put x buf)"
    by (rule cut [of _ _ _ rest]) (use Cons.prems rest in \<open>auto simp: strict_prefix_def\<close>)
  then show ?case
  proof
    assume p: "prefix (put x buf) dat"
    then have "length (put x buf) \<le> length dat" by (rule prefix_length_le)
    then show ?thesis
      using Cons.prems reads [of x dat buf] p Cons.IH [of "put x buf" "Suc k"]
      unfolding upt by (simp add: fixup_round_def del: upt_Suc)
  next
    assume "strict_prefix dat (put x buf)"
    then have e: "r_error (snd (get (at dat (length buf))))"
      using Cons.prems by (intro short [of x]) simp_all
    have first: "fixup_round get f k (s, at dat (length buf)) = (s, snd (get (at dat (length buf))))"
      using e by (simp add: fixup_round_def split_beta Let_def)
    obtain r' where "r_error r'" "fold (fixup_round get f) [Suc k..<Suc k + length xs]
        (s, snd (get (at dat (length buf)))) = (s, r')"
      using fixup_round_error [OF e, of get f "[Suc k..<Suc k + length xs]" s] sticky by blast
    then show ?thesis
      unfolding upt by (simp add: first del: upt_Suc)
  qed
qed

lemma loop_at:
  assumes "list_all ok xs" "length xs < 2 ^ 32" "small dat" "prefix (write_counted put xs buf) dat"
  shows "fixup_loop get f s (at dat (length buf))
    = (apply_all f 0 (views xs (bcio_write_u32 buf (of_nat (length xs)))) s,
       at dat (length (write_counted put xs buf)))"
proof -
  let ?b = "bcio_write_u32 buf (of_nat (length xs))"
  have p: "prefix ?b dat"
    using assms(4) fold_prefix [of ?b xs] by (auto simp: write_counted_def intro: prefix_order.trans)
  have l: "length buf + 4 + length xs \<le> length dat"
    using fold_longer [of ?b xs] prefix_length_le [OF assms(4)] by (simp add: write_counted_def write_bytes)
  have n: "unat (of_nat (length xs) :: u32) = length xs" using assms(2) by (simp add: unat_of_nat_small)
  have c: "bcio_mmap_read_bounded_count (at dat (length buf)) = (of_nat (length xs), at dat (length ?b))"
    using bounded_count_at [OF assms(3) p assms(2)] l by (simp add: write_bytes)
  show ?thesis
    using rounds_at [of xs dat ?b f 0 s] assms(1,3,4)
    by (simp add: fixup_loop_def c n write_counted_def)
qed

lemma loop_short:
  assumes "list_all ok xs" "length xs < 2 ^ 32" "small dat" "strict_prefix dat (write_counted put xs buf)"
    "length buf \<le> length dat"
  shows "r_error (snd (fixup_loop get f s (at dat (length buf))))"
proof -
  let ?b = "bcio_write_u32 buf (of_nat (length xs))"
  obtain rest where rest: "fold put xs ?b = ?b @ rest"
    using fold_prefix [of ?b xs] by (auto simp: prefix_def)
  have sp: "strict_prefix dat (fold put xs ?b)" using assms(4) by (simp add: write_counted_def)
  have n: "unat (of_nat (length xs) :: u32) = length xs" using assms(2) by (simp add: unat_of_nat_small)
  have "prefix ?b dat \<or> strict_prefix dat ?b"
    by (rule cache_codec.cut [OF u32_codec, of _ _ _ rest]) (use assms sp rest in \<open>auto simp: strict_prefix_def\<close>)
  then show ?thesis
  proof
    assume p: "prefix ?b dat"
    have "r_error (snd (fold (fixup_round get f) [0..<0 + length xs] (s, at dat (length ?b))))"
      using prefix_length_le [OF p] by (intro rounds_short) (use assms sp in simp_all)
    then show ?thesis
      using bounded_count_at [OF assms(3) p assms(2)]
      by (simp add: fixup_loop_def n write_bytes)
  next
    assume "strict_prefix dat ?b"
    then have "r_error (snd (bcio_mmap_read_u32 (at dat (length buf))))"
      using assms by (intro u32_head)
    then have "bcio_mmap_read_bounded_count (at dat (length buf)) = (0, snd (bcio_mmap_read_u32 (at dat (length buf))))"
      by (simp add: bcio_mmap_read_bounded_count_def split_beta Let_def)
    then show ?thesis
      using \<open>r_error (snd (bcio_mmap_read_u32 (at dat (length buf))))\<close> by (simp add: fixup_loop_def)
  qed
qed

lemma views_all:
  assumes "\<And>x buf. x \<in> set xs \<Longrightarrow> prefix (put x buf) dat \<Longrightarrow> Q x (view buf x)"
    and "prefix (fold put xs buf) dat"
  shows "list_all2 Q xs (views xs buf)"
  using assms
proof (induction xs arbitrary: buf)
  case (Cons x xs)
  have "prefix (put x buf) dat"
    using Cons.prems(2) fold_prefix [of "put x buf" xs] by (auto intro: prefix_order.trans)
  then show ?case using Cons by simp
qed simp

end

lemma fixup_loop_error: "r_error r \<Longrightarrow> fixup_loop get f s r = (s, r)"
  by (simp add: fixup_loop_def)

section \<open>A chunk and its relocated copy\<close>

definition fixup_slots :: "bc_chunk \<Rightarrow> nat list" where
  "fixup_slots c = map (\<lambda>fx. unat (sf_const_slot fx)) (ch_string_fixups c)
     @ map (\<lambda>fx. unat (lf_const_slot fx)) (ch_layout_fixups c)"

definition chunk_ok :: "bc_host_import list \<Rightarrow> bc_chunk \<Rightarrow> bool" where
  "chunk_ok imports c \<longleftrightarrow>
     str_ok (ch_name c) \<and> length (ch_code c) < 2 ^ 32 \<and> length (ch_consts c) < 2 ^ 32
     \<and> length (ch_string_fixups c) < 2 ^ 32 \<and> list_all string_fixup_ok (ch_string_fixups c)
     \<and> length (ch_layout_fixups c) < 2 ^ 32
     \<and> list_all (\<lambda>hc. str_ok (snd hc)) (host_calls imports (ch_code c))
     \<and> distinct (fixup_slots c) \<and> list_all (\<lambda>s. s < length (ch_consts c)) (fixup_slots c)"

text \<open>Every host call of the copy goes to the entry of the loading table that has the name its entry
  had in the saving table.\<close>

definition relink_instr :: "bc_host_import list \<Rightarrow> bc_host_import list \<Rightarrow> bc_instr \<Rightarrow> bc_instr" where
  "relink_instr imports imports' ins =
     (if is_call_host ins
      then ins\<lparr>in_b := of_nat (the (find_import imports' (hi_name (imports ! unat (in_b ins)))))\<rparr>
      else ins)"

definition text_at :: "bytes \<Rightarrow> u64 \<Rightarrow> string \<Rightarrow> bool" where
  "text_at dat off s \<longleftrightarrow> slice dat off (length s) = map byte_of s"

definition string_slot_done :: "load_env \<Rightarrow> bc_string_fixup \<times> u64 \<Rightarrow> i64 \<Rightarrow> boxes \<Rightarrow> bool" where
  "string_slot_done env fx v bx \<longleftrightarrow>
     (let addr = text_address env (snd fx) (sf_bytes (fst fx))
      in if sf_is_header (fst fx) \<noteq> 0
         then (v, Text_Header addr (of_nat (length (sf_bytes (fst fx))))) \<in> set bx
         else v = addr)"

definition relocated :: "load_env \<Rightarrow> bytes \<Rightarrow> bc_host_import list \<Rightarrow> boxes \<Rightarrow> bc_chunk \<Rightarrow> bc_chunk \<Rightarrow> bool" where
  "relocated env dat imports bx c c' \<longleftrightarrow>
     ch_name c' = ch_name c \<and> ch_num_registers c' = ch_num_registers c \<and> ch_param_count c' = ch_param_count c
     \<and> ch_code c' = map (relink_instr imports (le_imports env)) (ch_code c)
     \<and> length (ch_consts c') = length (ch_consts c)
     \<and> (\<forall>s < length (ch_consts c). s \<notin> set (fixup_slots c) \<longrightarrow> ch_consts c' ! s = ch_consts c ! s)
     \<and> (\<forall>fx \<in> set (ch_string_fixups c). \<exists>off. text_at dat off (sf_bytes fx)
          \<and> string_slot_done env (fx, off) (ch_consts c' ! unat (sf_const_slot fx)) bx)
     \<and> (\<forall>fx \<in> set (ch_layout_fixups c).
          (ch_consts c' ! unat (lf_const_slot fx), Slot_Layout (lf_layout fx)) \<in> set bx)"

lemma relocated_mono: "relocated env dat imports bx c c' \<Longrightarrow> set bx \<subseteq> set bx' \<Longrightarrow> relocated env dat imports bx' c c'"
  unfolding relocated_def string_slot_done_def Let_def by (smt (verit) subsetD)

lemma host_rounds:
  assumes "list_all (\<lambda>i. i < length cs) js" "length cs < 2 ^ 32"
    and "\<And>i. i \<in> set js \<Longrightarrow> find_import (le_imports env) (nm i) \<noteq> None"
  shows "\<exists>cs'. apply_all (apply_host_call env) k (map (\<lambda>i. (of_nat i, nm i)) js) (Some cs) = Some cs'
    \<and> length cs' = length cs
    \<and> (\<forall>j < length cs. cs' ! j = (if j \<in> set js
         then (cs ! j)\<lparr>in_b := of_nat (the (find_import (le_imports env) (nm j)))\<rparr> else cs ! j))"
  using assms
proof (induction js arbitrary: cs k)
  case (Cons i js)
  have i: "unat (of_nat i :: u32) = i" using Cons.prems by (intro unat_of_nat_small) simp
  obtain hi where hi: "find_import (le_imports env) (nm i) = Some hi" using Cons.prems(3) [of i] by auto
  let ?cs = "cs[i := (cs ! i)\<lparr>in_b := of_nat hi\<rparr>]"
  have ih: "\<exists>cs'. apply_all (apply_host_call env) (Suc k) (map (\<lambda>i. (of_nat i, nm i)) js) (Some ?cs) = Some cs'
    \<and> length cs' = length ?cs
    \<and> (\<forall>j < length ?cs. cs' ! j = (if j \<in> set js
         then (?cs ! j)\<lparr>in_b := of_nat (the (find_import (le_imports env) (nm j)))\<rparr> else ?cs ! j))"
    by (rule Cons.IH) (use Cons.prems in auto)
  then obtain cs' where cs': "apply_all (apply_host_call env) (Suc k) (map (\<lambda>i. (of_nat i, nm i)) js) (Some ?cs) = Some cs'"
      "length cs' = length cs"
      "\<And>j. j < length cs \<Longrightarrow> cs' ! j = (if j \<in> set js
         then (?cs ! j)\<lparr>in_b := of_nat (the (find_import (le_imports env) (nm j)))\<rparr> else ?cs ! j)"
    by auto
  have "apply_host_call env k (of_nat i, nm i) (Some cs) = Some ?cs"
    using Cons.prems(1) by (simp add: apply_host_call_def i hi)
  moreover have "cs' ! j = (if j \<in> set (i # js)
      then (cs ! j)\<lparr>in_b := of_nat (the (find_import (le_imports env) (nm j)))\<rparr> else cs ! j)"
    if "j < length cs" for j
    using cs'(3) [OF that] that hi by (cases "j = i") simp_all
  ultimately show ?case
    using cs'(1,2) by simp
qed simp

lemma string_rounds:
  fixes vs :: "(bc_string_fixup \<times> u64) list"
  defines "slots \<equiv> map (\<lambda>v. unat (sf_const_slot (fst v))) vs"
  assumes "distinct slots" "list_all (\<lambda>s. s < length cs) slots"
    and "apply_all (apply_string_fixup env ci) k vs (cs, bx) = (cs', bx')"
  shows "length cs' = length cs \<and> set bx \<subseteq> set bx'
    \<and> (\<forall>s < length cs. s \<notin> set slots \<longrightarrow> cs' ! s = cs ! s)
    \<and> (\<forall>v \<in> set vs. string_slot_done env v (cs' ! unat (sf_const_slot (fst v))) bx')"
  using assms(2-4) unfolding slots_def
proof (induction vs arbitrary: k cs bx)
  case (Cons v vs)
  let ?slot = "unat (sf_const_slot (fst v))"
  obtain cs1 bx1 where st: "apply_string_fixup env ci k v (cs, bx) = (cs1, bx1)" by fastforce
  have one: "length cs1 = length cs" "set bx \<subseteq> set bx1" "\<And>s. s \<noteq> ?slot \<Longrightarrow> cs1 ! s = cs ! s"
    "string_slot_done env v (cs1 ! ?slot) bx1"
    using st Cons.prems(2)
    by (auto simp: apply_string_fixup_def string_slot_done_def Let_def split: if_splits)
  have ih: "length cs' = length cs1 \<and> set bx1 \<subseteq> set bx'
    \<and> (\<forall>s < length cs1. s \<notin> set (map (\<lambda>v. unat (sf_const_slot (fst v))) vs) \<longrightarrow> cs' ! s = cs1 ! s)
    \<and> (\<forall>v \<in> set vs. string_slot_done env v (cs' ! unat (sf_const_slot (fst v))) bx')"
    by (rule Cons.IH [of cs1 "Suc k" bx1]) (use Cons.prems st one(1) in simp_all)
  have "cs' ! ?slot = cs1 ! ?slot" using ih one(1) Cons.prems(1,2) by simp
  then have slot_done: "string_slot_done env v (cs' ! ?slot) bx'"
    using one(4) ih by (auto simp: string_slot_done_def Let_def split: if_splits)
  have keep: "cs' ! s = cs ! s" if "s < length cs" "s \<notin> set (map (\<lambda>v. unat (sf_const_slot (fst v))) (v # vs))" for s
    using ih one(1) one(3) [of s] that by simp
  have "set bx \<subseteq> set bx'" using ih one(2) by blast
  then show ?case using ih one(1) slot_done keep by simp
qed simp

lemma layout_rounds:
  fixes fxs :: "bc_layout_fixup list"
  defines "slots \<equiv> map (\<lambda>fx. unat (lf_const_slot fx)) fxs"
  assumes "distinct slots" "list_all (\<lambda>s. s < length cs) slots"
    and "apply_all (apply_layout_fixup env ci) k fxs (cs, bx) = (cs', bx')"
  shows "length cs' = length cs \<and> set bx \<subseteq> set bx'
    \<and> (\<forall>s < length cs. s \<notin> set slots \<longrightarrow> cs' ! s = cs ! s)
    \<and> (\<forall>fx \<in> set fxs. (cs' ! unat (lf_const_slot fx), Slot_Layout (lf_layout fx)) \<in> set bx')"
  using assms(2-4) unfolding slots_def
proof (induction fxs arbitrary: k cs bx)
  case (Cons fx fxs)
  let ?slot = "unat (lf_const_slot fx)"
  obtain cs1 bx1 where st: "apply_layout_fixup env ci k fx (cs, bx) = (cs1, bx1)" by fastforce
  have one: "length cs1 = length cs" "set bx \<subseteq> set bx1" "\<And>s. s \<noteq> ?slot \<Longrightarrow> cs1 ! s = cs ! s"
    "(cs1 ! ?slot, Slot_Layout (lf_layout fx)) \<in> set bx1"
    using st Cons.prems(2) by (auto simp: apply_layout_fixup_def Let_def split: if_splits)
  have ih: "length cs' = length cs1 \<and> set bx1 \<subseteq> set bx'
    \<and> (\<forall>s < length cs1. s \<notin> set (map (\<lambda>fx. unat (lf_const_slot fx)) fxs) \<longrightarrow> cs' ! s = cs1 ! s)
    \<and> (\<forall>fx \<in> set fxs. (cs' ! unat (lf_const_slot fx), Slot_Layout (lf_layout fx)) \<in> set bx')"
    by (rule Cons.IH [of cs1 "Suc k" bx1]) (use Cons.prems st one(1) in simp_all)
  have slot: "cs' ! ?slot = cs1 ! ?slot" using ih one(1) Cons.prems(1,2) by simp
  have keep: "cs' ! s = cs ! s" if "s < length cs" "s \<notin> set (map (\<lambda>fx. unat (lf_const_slot fx)) (fx # fxs))" for s
    using ih one(1) one(3) [of s] that by simp
  have "set bx \<subseteq> set bx'" "(cs' ! ?slot, Slot_Layout (lf_layout fx)) \<in> set bx'"
    using ih one(2,4) unfolding slot by blast+
  then show ?case using ih one(1) keep by simp
qed simp

section \<open>The codecs of the file\<close>

lemma code_codec: "cache_codec (put_array 16 instr_bytes) (\<lambda>xs. length xs * 16 < 2 ^ 61) read_code (\<lambda>_ xs. Some xs)"
  unfolding read_code_def
  by (rule array_codec) (simp_all add: instr_bytes_def instr_of_def)

lemma consts_codec: "cache_codec (put_array 8 const_bytes) (\<lambda>xs. length xs * 8 < 2 ^ 61) read_consts (\<lambda>_ xs. Some xs)"
  unfolding read_consts_def
  by (rule array_codec) (simp_all add: const_bytes_def)

interpretation u32c: cache_codec "\<lambda>v buf. bcio_write_u32 buf v" "\<lambda>_. True" bcio_mmap_read_u32 "\<lambda>_ v. v"
  by (rule u32_codec)

interpretation u64c: cache_codec "\<lambda>v buf. bcio_write_u64 buf v" "\<lambda>_. True" bcio_mmap_read_u64 "\<lambda>_ v. v"
  by (rule u64_codec)

interpretation strc: cache_codec "\<lambda>s buf. bcio_write_string buf s" str_ok bcio_mmap_read_string "\<lambda>_ s. s"
  by (rule string_codec)

interpretation sfix: cache_codec write_string_fixup string_fixup_ok read_string_fixup
    "\<lambda>buf fx. (fx, of_nat (length buf + 12))"
  by (rule string_fixup_codec)

interpretation lfix: cache_codec write_layout_fixup "\<lambda>_. True" read_layout_fixup "\<lambda>_ fx. fx"
  by (rule layout_fixup_codec)

interpretation hcall: cache_codec write_host_call "\<lambda>hc. str_ok (snd hc)" read_host_call
    "\<lambda>_ hc. (of_nat (fst hc), snd hc)"
  by (rule host_call_codec)

interpretation sigc: cache_codec write_import_sig sig_ok read_sig "\<lambda>_. sig_of"
  by (rule sig_codec)

text \<open>The part of a chunk before its fixups.\<close>

type_synonym chunk_head = "string \<times> u32 \<times> u32 \<times> bc_instr list \<times> i64 list"

definition head_of :: "bc_chunk \<Rightarrow> chunk_head" where
  "head_of c = (ch_name c, ch_num_registers c, ch_param_count c, ch_code c, ch_consts c)"

definition put_head :: "chunk_head \<Rightarrow> bytes \<Rightarrow> bytes" where
  "put_head = (\<lambda>(name, regs, params, instrs, consts) buf.
     put_array 8 const_bytes consts (put_array 16 instr_bytes instrs
       (bcio_write_u32 (bcio_write_u32 (bcio_write_string buf name) regs) params)))"

definition head_ok :: "chunk_head \<Rightarrow> bool" where
  "head_ok = (\<lambda>(name, regs, params, instrs, consts).
     str_ok name \<and> length instrs < 2 ^ 32 \<and> length consts < 2 ^ 32)"

interpretation headc: cache_codec put_head head_ok read_chunk_head
    "\<lambda>_ (name, regs, params, instrs, consts). (name, regs, params, Some instrs, Some consts)"
proof -
  note c = codec_seq [OF string_codec codec_seq [OF u32_codec codec_seq [OF u32_codec codec_seq [OF code_codec consts_codec]]]]
  show "cache_codec put_head head_ok read_chunk_head
    (\<lambda>_ (name, regs, params, instrs, consts). (name, regs, params, Some instrs, Some consts))"
    by (rule codec_map [OF c, where f = id and h = id])
      (auto simp: put_head_def read_chunk_head_def head_ok_def split_beta Let_def)
qed

lemma write_chunk_eq:
  "write_chunk imports c buf =
     write_counted write_host_call (host_calls imports (ch_code c))
       (write_counted write_layout_fixup (ch_layout_fixups c)
         (write_counted write_string_fixup (ch_string_fixups c) (put_head (head_of c) buf)))"
  by (simp add: write_chunk_def put_head_def head_of_def put_array_def Let_def)

definition names_resolve :: "load_env \<Rightarrow> bc_host_import list \<Rightarrow> bc_chunk \<Rightarrow> bool" where
  "names_resolve env imports c \<longleftrightarrow>
     list_all (\<lambda>hc. find_import (le_imports env) (snd hc) \<noteq> None) (host_calls imports (ch_code c))"

lemma host_call_indices:
  "host_calls imports cs = map (\<lambda>i. (i, hi_name (imports ! unat (in_b (cs ! i)))))
     (filter (\<lambda>i. is_call_host (cs ! i)) [0..<length cs])"
  by (simp add: host_calls_def)

lemma relink_host_calls:
  assumes "length cs < 2 ^ 32"
    and "list_all (\<lambda>hc. find_import (le_imports env) (snd hc) \<noteq> None) (host_calls imports cs)"
  shows "apply_all (apply_host_call env) 0 (map (\<lambda>hc. (of_nat (fst hc), snd hc)) (host_calls imports cs)) (Some cs)
    = Some (map (relink_instr imports (le_imports env)) cs)"
proof -
  let ?js = "filter (\<lambda>i. is_call_host (cs ! i)) [0..<length cs]"
  let ?nm = "\<lambda>i. hi_name (imports ! unat (in_b (cs ! i)))"
  have "\<exists>cs'. apply_all (apply_host_call env) 0 (map (\<lambda>i. (of_nat i, ?nm i)) ?js) (Some cs) = Some cs'
    \<and> length cs' = length cs
    \<and> (\<forall>j < length cs. cs' ! j = (if j \<in> set ?js
         then (cs ! j)\<lparr>in_b := of_nat (the (find_import (le_imports env) (?nm j)))\<rparr> else cs ! j))"
    by (rule host_rounds) (use assms in \<open>auto simp: list_all_iff host_call_indices\<close>)
  then obtain cs' where cs': "apply_all (apply_host_call env) 0 (map (\<lambda>i. (of_nat i, ?nm i)) ?js) (Some cs) = Some cs'"
      "length cs' = length cs" "\<And>j. j < length cs \<Longrightarrow> cs' ! j = (if j \<in> set ?js
         then (cs ! j)\<lparr>in_b := of_nat (the (find_import (le_imports env) (?nm j)))\<rparr> else cs ! j)"
    by auto
  have "cs' = map (relink_instr imports (le_imports env)) cs"
    using cs'(2,3) by (intro nth_equalityI) (auto simp: relink_instr_def)
  then show ?thesis using cs'(1) by (simp add: host_call_indices comp_def)
qed

section \<open>Loading a written chunk\<close>

lemma counted_prefix: "cache_codec put ok get view \<Longrightarrow> prefix buf (write_counted put xs buf)"
  by (rule cache_codec.put_prefix [OF cache_codec.counted_codec])

lemma write_chunk_prefix: "prefix buf (write_chunk imports c buf)"
  unfolding write_chunk_eq
  using headc.put_prefix counted_prefix [OF string_fixup_codec] counted_prefix [OF layout_fixup_codec]
    counted_prefix [OF host_call_codec]
  by (meson prefix_order.trans)

lemma write_chunk_longer: "length buf < length (write_chunk imports c buf)"
proof -
  have "length (put_head (head_of c) buf) \<le> length (write_chunk imports c buf)"
    unfolding write_chunk_eq
    using counted_prefix [OF string_fixup_codec] counted_prefix [OF layout_fixup_codec]
      counted_prefix [OF host_call_codec]
    by (meson prefix_order.trans prefix_length_le)
  then show ?thesis using headc.longer [of buf "head_of c"] by simp
qed

lemma text_of_fixup:
  assumes "small dat" "prefix (write_string_fixup fx buf) dat"
  shows "text_at dat (of_nat (length buf + 12)) (sf_bytes fx)"
proof -
  let ?b = "bcio_write_u32 (bcio_write_u32 (bcio_write_u32 buf (sf_const_slot fx)) (sf_is_header fx))
    (of_nat (length (sf_bytes fx)))"
  have "prefix (?b @ map byte_of (sf_bytes fx)) dat"
    using assms(2) by (simp add: write_string_fixup_def bcio_write_string_def bcio_write_def)
  from slice_mid [OF assms(1) this] show ?thesis
    by (simp add: text_at_def write_bytes add.commute)
qed

lemma relocated_chunk:
  assumes ok: "chunk_ok imports c"
    and vs: "list_all2 (\<lambda>fx v. fst v = fx \<and> text_at dat (snd v) (sf_bytes fx)) (ch_string_fixups c) vs"
    and s1: "apply_all (apply_string_fixup env ci) 0 vs (ch_consts c, []) = (cs1, bx1)"
    and s2: "apply_all (apply_layout_fixup env ci) 0 (ch_layout_fixups c) (cs1, bx1) = (cs2, bx2)"
    and c': "c' = \<lparr>ch_code = map (relink_instr imports (le_imports env)) (ch_code c), ch_consts = cs2,
      ch_num_registers = ch_num_registers c, ch_param_count = ch_param_count c, ch_name = ch_name c,
      ch_string_fixups = [], ch_layout_fixups = []\<rparr>"
  shows "relocated env dat imports bx2 c c'"
proof -
  have fst_vs: "map fst vs = ch_string_fixups c"
    using vs by (induction rule: list_all2_induct) simp_all
  let ?ss = "map (\<lambda>fx. unat (sf_const_slot fx)) (ch_string_fixups c)"
  let ?ls = "map (\<lambda>fx. unat (lf_const_slot fx)) (ch_layout_fixups c)"
  have slots: "map (\<lambda>v. unat (sf_const_slot (fst v))) vs = ?ss"
    unfolding fst_vs [symmetric] by (simp add: comp_def)
  have d: "distinct ?ss" "distinct ?ls" "set ?ss \<inter> set ?ls = {}"
    "list_all (\<lambda>s. s < length (ch_consts c)) ?ss" "list_all (\<lambda>s. s < length (ch_consts c)) ?ls"
    using ok by (simp_all add: chunk_ok_def fixup_slots_def)
  have r1: "length cs1 = length (ch_consts c) \<and> set [] \<subseteq> set bx1
    \<and> (\<forall>s < length (ch_consts c). s \<notin> set ?ss \<longrightarrow> cs1 ! s = ch_consts c ! s)
    \<and> (\<forall>v \<in> set vs. string_slot_done env v (cs1 ! unat (sf_const_slot (fst v))) bx1)"
    using string_rounds [OF _ _ s1] d(1,4) unfolding slots by blast
  have r2: "length cs2 = length cs1 \<and> set bx1 \<subseteq> set bx2
    \<and> (\<forall>s < length cs1. s \<notin> set ?ls \<longrightarrow> cs2 ! s = cs1 ! s)
    \<and> (\<forall>fx \<in> set (ch_layout_fixups c). (cs2 ! unat (lf_const_slot fx), Slot_Layout (lf_layout fx)) \<in> set bx2)"
    using layout_rounds [OF _ _ s2] d(2,5) r1 by simp
  have strings: "\<exists>off. text_at dat off (sf_bytes fx)
      \<and> string_slot_done env (fx, off) (cs2 ! unat (sf_const_slot fx)) bx2"
    if fx: "fx \<in> set (ch_string_fixups c)" for fx
  proof -
    have "\<exists>v \<in> set vs. fst v = fx \<and> text_at dat (snd v) (sf_bytes fx)"
      using vs fx by (induction rule: list_all2_induct) auto
    then obtain off where v: "(fx, off) \<in> set vs" "text_at dat off (sf_bytes fx)" by force
    have "unat (sf_const_slot fx) \<in> set ?ss" using fx by simp
    then have "unat (sf_const_slot fx) \<notin> set ?ls" "unat (sf_const_slot fx) < length cs1"
      using d r1 by (auto simp: list_all_iff)
    then have "cs2 ! unat (sf_const_slot fx) = cs1 ! unat (sf_const_slot fx)" using r2 by blast
    moreover have "string_slot_done env (fx, off) (cs1 ! unat (sf_const_slot fx)) bx1"
      using r1 v(1) by fastforce
    ultimately have "string_slot_done env (fx, off) (cs2 ! unat (sf_const_slot fx)) bx2"
      using r2 by (auto simp: string_slot_done_def Let_def split: if_splits)
    then show ?thesis using v(2) by blast
  qed
  have others: "cs2 ! s = ch_consts c ! s" if "s < length (ch_consts c)" "s \<notin> set (fixup_slots c)" for s
    using r1 r2 that by (simp add: fixup_slots_def)
  show ?thesis
    using r1 r2 strings others by (simp add: relocated_def c')
qed

lemma load_chunk_at:
  assumes ok: "chunk_ok imports c" "names_resolve env imports c" and dat: "small dat"
    and p: "prefix (write_chunk imports c buf) dat"
  shows "\<exists>c' bx. load_chunk env ci (at dat (length buf))
      = Inr (c', bx, at dat (length (write_chunk imports c buf))) \<and> relocated env dat imports bx c c'"
proof -
  let ?b1 = "put_head (head_of c) buf"
  let ?b2 = "write_counted write_string_fixup (ch_string_fixups c) ?b1"
  let ?b3 = "write_counted write_layout_fixup (ch_layout_fixups c) ?b2"
  have p4: "prefix (write_counted write_host_call (host_calls imports (ch_code c)) ?b3) dat"
    using p by (simp add: write_chunk_eq)
  have p3: "prefix ?b3 dat" using counted_prefix [OF host_call_codec] p4 by (rule prefix_order.trans)
  have p2: "prefix ?b2 dat" using counted_prefix [OF layout_fixup_codec] p3 by (rule prefix_order.trans)
  have p1: "prefix ?b1 dat" using counted_prefix [OF string_fixup_codec] p2 by (rule prefix_order.trans)
  have head: "read_chunk_head (at dat (length buf)) =
      ((ch_name c, ch_num_registers c, ch_param_count c, Some (ch_code c), Some (ch_consts c)), at dat (length ?b1))"
    using headc.reads [OF _ dat p1] ok(1) by (simp add: head_of_def head_ok_def chunk_ok_def)
  have hc: "length (host_calls imports (ch_code c)) < 2 ^ 32"
    using ok(1) length_filter_le [of "\<lambda>i. is_call_host (ch_code c ! i)" "[0..<length (ch_code c)]"]
    by (simp add: host_call_indices chunk_ok_def)
  let ?vs = "sfix.views (ch_string_fixups c) (bcio_write_u32 ?b1 (of_nat (length (ch_string_fixups c))))"
  obtain cs1 bx1 where s1: "apply_all (apply_string_fixup env ci) 0 ?vs (ch_consts c, []) = (cs1, bx1)"
    by fastforce
  obtain cs2 bx2 where s2: "apply_all (apply_layout_fixup env ci) 0 (ch_layout_fixups c) (cs1, bx1) = (cs2, bx2)"
    by fastforce
  have views: "list_all2 (\<lambda>fx v. fst v = fx \<and> text_at dat (snd v) (sf_bytes fx)) (ch_string_fixups c) ?vs"
    by (rule sfix.views_all [where dat = dat])
      (use p2 text_of_fixup [OF dat] in \<open>simp_all add: write_counted_def\<close>)
  let ?c' = "\<lparr>ch_code = map (relink_instr imports (le_imports env)) (ch_code c), ch_consts = cs2,
    ch_num_registers = ch_num_registers c, ch_param_count = ch_param_count c, ch_name = ch_name c,
    ch_string_fixups = [], ch_layout_fixups = []\<rparr>"
  have lv: "lfix.views xs b = xs" and hv: "hcall.views ys b = map (\<lambda>hc. (of_nat (fst hc), snd hc)) ys" for xs ys b
    using lfix.views_const [of xs id] hcall.views_const [of ys "\<lambda>hc. (of_nat (fst hc), snd hc)"] by simp_all
  have l1: "fixup_loop read_string_fixup (apply_string_fixup env ci) (ch_consts c, []) (at dat (length ?b1))
      = ((cs1, bx1), at dat (length ?b2))"
    using sfix.loop_at [OF _ _ dat p2, of "apply_string_fixup env ci" "(ch_consts c, [])"] ok(1) s1
    by (simp add: chunk_ok_def)
  have l2: "fixup_loop read_layout_fixup (apply_layout_fixup env ci) (cs1, bx1) (at dat (length ?b2))
      = ((cs2, bx2), at dat (length ?b3))"
    using lfix.loop_at [OF _ _ dat p3, of "apply_layout_fixup env ci" "(cs1, bx1)"] ok(1) s2
    by (simp add: chunk_ok_def lv list_all_iff)
  have l3: "fixup_loop read_host_call (apply_host_call env) (Some (ch_code c)) (at dat (length ?b3))
      = (Some (map (relink_instr imports (le_imports env)) (ch_code c)), at dat (length (write_chunk imports c buf)))"
    using hcall.loop_at [OF _ hc dat p4, of "apply_host_call env" "Some (ch_code c)"] ok
      relink_host_calls [of "ch_code c" env "imports"]
    by (simp add: chunk_ok_def hv names_resolve_def write_chunk_eq)
  have "load_chunk env ci (at dat (length buf)) = Inr (?c', bx2, at dat (length (write_chunk imports c buf)))"
    by (simp add: load_chunk_def head l1 l2 l3)
  moreover have "relocated env dat imports bx2 c ?c'"
    by (rule relocated_chunk [OF ok(1) _ s1 s2]) (use views in simp_all)
  ultimately show ?thesis by blast
qed

section \<open>Loading a truncated chunk\<close>

lemma elems_at_error: "r_error (snd (elems_at sz elem r)) \<Longrightarrow> fst (elems_at sz elem r) = Some []"
  by (auto simp: elems_at_def bcio_mmap_read_dyn_array_def bcio_mmap_ptr_def Let_def split: if_splits option.splits)

lemma read_code_error: "r_error (snd (read_code r)) \<Longrightarrow> fst (read_code r) = Some []"
  and read_consts_error: "r_error (snd (read_consts r)) \<Longrightarrow> fst (read_consts r) = Some []"
  by (simp_all add: read_code_def read_consts_def elems_at_error)

lemma error_arrays: "r_error r \<Longrightarrow> read_code r = (Some [], r)" "r_error r \<Longrightarrow> read_consts r = (Some [], r)"
  by (simp_all add: read_code_def read_consts_def elems_at_def)

lemma head_short:
  assumes ok: "head_ok h" and dat: "small dat" and sp: "strict_prefix dat (put_head h buf)"
    and len: "length buf \<le> length dat"
  shows "\<exists>n p q is cs r. read_chunk_head (at dat (length buf)) = ((n, p, q, Some is, Some cs), r) \<and> r_error r"
proof -
  obtain name regs params instrs pool where h: "h = (name, regs, params, instrs, pool)"
    by (cases h) auto
  note pre = codec_seq [OF string_codec codec_seq [OF u32_codec codec_seq [OF u32_codec code_codec]]]
  let ?b = "put_array 16 instr_bytes instrs (bcio_write_u32 (bcio_write_u32 (bcio_write_string buf name) regs) params)"
  let ?get = "\<lambda>r. let (a, r) = bcio_mmap_read_string r; (b, r) = (let (a, r) = bcio_mmap_read_u32 r;
      (b, r) = (let (a, r) = bcio_mmap_read_u32 r; (b, r) = read_code r in ((a, b), r)) in ((a, b), r)) in ((a, b), r)"
  have get: "read_chunk_head r = (let ((n, p, q, is), r) = ?get r; (cs, r) = read_consts r in ((n, p, q, is, cs), r))" for r
    by (simp add: read_chunk_head_def split_beta Let_def)
  obtain rest where rest: "put_head h buf = ?b @ rest"
    using cache_codec.extends [OF consts_codec, of pool ?b] by (auto simp: put_head_def h)
  have "prefix ?b dat \<or> strict_prefix dat ?b"
    using cache_codec.cut [OF pre, where x = "(name, regs, params, instrs)" and buf = buf and dat = dat and rest = rest]
      sp rest len by (simp add: strict_prefix_def)
  then show ?thesis
  proof
    assume p: "prefix ?b dat"
    have r: "?get (at dat (length buf)) = ((name, regs, params, Some instrs), at dat (length ?b))"
      using cache_codec.reads [OF pre _ dat, where x = "(name, regs, params, instrs)" and buf = buf] p ok
      by (simp add: h head_ok_def)
    have "r_error (snd (read_consts (at dat (length ?b))))"
      using cache_codec.short [OF consts_codec _ dat, of pool ?b] sp ok prefix_length_le [OF p]
      by (simp add: put_head_def h head_ok_def)
    then show ?thesis
      using read_consts_error [of "at dat (length ?b)"]
      unfolding get r by (cases "read_consts (at dat (length ?b))") auto
  next
    assume "strict_prefix dat ?b"
    then have e: "r_error (snd (?get (at dat (length buf))))"
      using cache_codec.short [OF pre _ dat, where x = "(name, regs, params, instrs)" and buf = buf] ok len
      by (simp add: h head_ok_def)
    let ?r3 = "snd (bcio_mmap_read_u32 (snd (bcio_mmap_read_u32 (snd (bcio_mmap_read_string (at dat (length buf)))))))"
    have e3: "r_error (snd (read_code ?r3))" using e by (simp add: split_beta Let_def)
    show ?thesis
      unfolding read_chunk_head_def
      by (simp add: split_beta Let_def read_code_error [OF e3] error_arrays(2) [OF e3] e3)
  qed
qed

lemma load_chunk_error:
  assumes "r_error r"
  shows "\<exists>c. load_chunk env ci r = Inr (c, [], r)"
  using assms
  by (simp add: load_chunk_def read_chunk_head_def error_arrays fixup_loop_error)

lemma loops_short:
  assumes ok: "chunk_ok imports c" and dat: "small dat"
    and hc: "length (host_calls imports (ch_code c)) < 2 ^ 32"
    and sp: "strict_prefix dat (write_counted write_host_call (host_calls imports (ch_code c))
       (write_counted write_layout_fixup (ch_layout_fixups c)
         (write_counted write_string_fixup (ch_string_fixups c) b1)))"
    and l1: "length b1 \<le> length dat"
    and head: "read_chunk_head r0 = ((n, p, q, Some instrs, Some pool), at dat (length b1))"
  shows "load_chunk env ci r0 = Inl Unusable \<or> (\<exists>c' bx r. load_chunk env ci r0 = Inr (c', bx, r) \<and> r_error r)"
proof -
  let ?b2 = "write_counted write_string_fixup (ch_string_fixups c) b1"
  let ?b3 = "write_counted write_layout_fixup (ch_layout_fixups c) ?b2"
  let ?b4 = "write_counted write_host_call (host_calls imports (ch_code c)) ?b3"
  obtain r3 where r3: "?b4 = ?b3 @ r3" using counted_prefix [OF host_call_codec] by (meson prefixE)
  obtain r2 where r2: "?b4 = ?b2 @ r2"
    using counted_prefix [OF layout_fixup_codec] counted_prefix [OF host_call_codec]
    by (meson prefix_order.trans prefixE)
  have pre: "prefix dat ?b4" using sp by (simp add: strict_prefix_def)
  note sok = ok [unfolded chunk_ok_def]
  define L1 where "L1 = fixup_loop read_string_fixup (apply_string_fixup env ci) (pool, []) (at dat (length b1))"
  define L2 where "L2 = fixup_loop read_layout_fixup (apply_layout_fixup env ci) (fst L1) (snd L1)"
  define L3 where "L3 = fixup_loop read_host_call (apply_host_call env) (Some instrs) (snd L2)"
  have load: "load_chunk env ci r0 = (case fst L3 of None \<Rightarrow> Inl Unusable
      | Some instrs \<Rightarrow> Inr (\<lparr>ch_code = instrs, ch_consts = fst (fst L2), ch_num_registers = p,
                      ch_param_count = q, ch_name = n, ch_string_fixups = [],
                      ch_layout_fixups = []\<rparr>, snd (fst L2), snd L3))"
    by (simp add: load_chunk_def head L1_def L2_def L3_def split_beta Let_def cong: option.case_cong)
  have "r_error (snd L3)"
  proof (cases "prefix ?b2 dat")
    case False
    then have "strict_prefix dat ?b2"
      using cache_codec.cut [OF sfix.counted_codec _ l1, of _ r2] pre r2 by metis
    then have "r_error (snd L1)" unfolding L1_def using sok by (intro sfix.loop_short dat l1) simp_all
    then show ?thesis by (simp add: L2_def L3_def fixup_loop_error)
  next
    case p2: True
    have l2: "length ?b2 \<le> length dat" using p2 by (rule prefix_length_le)
    have s1: "snd L1 = at dat (length ?b2)"
      unfolding L1_def by (subst sfix.loop_at [OF _ _ dat p2]) (use sok in simp_all)
    show ?thesis
    proof (cases "prefix ?b3 dat")
      case False
      then have "strict_prefix dat ?b3"
        using cache_codec.cut [OF lfix.counted_codec _ l2, of _ r3] pre r3 by metis
      then have "r_error (snd L2)"
        unfolding L2_def s1 using sok by (intro lfix.loop_short dat l2) (simp_all add: list_all_iff)
      then show ?thesis by (simp add: L3_def fixup_loop_error)
    next
      case p3: True
      have l3: "length ?b3 \<le> length dat" using p3 by (rule prefix_length_le)
      have "snd L2 = at dat (length ?b3)"
        unfolding L2_def s1 by (subst lfix.loop_at [OF _ _ dat p3]) (use sok in \<open>simp_all add: list_all_iff\<close>)
      then show ?thesis
        unfolding L3_def using sok hc sp by (auto intro!: hcall.loop_short dat l3)
    qed
  qed
  then show ?thesis by (auto simp: load split: option.split)
qed

text \<open>Nothing but \<open>Unusable\<close> can stop a chunk before the reader fails.\<close>

lemma load_chunk_short:
  assumes ok: "chunk_ok imports c" and dat: "small dat"
    and sp: "strict_prefix dat (write_chunk imports c buf)" and len: "length buf \<le> length dat"
  shows "load_chunk env ci (at dat (length buf)) = Inl Unusable
    \<or> (\<exists>c' bx r. load_chunk env ci (at dat (length buf)) = Inr (c', bx, r) \<and> r_error r)"
proof -
  let ?b1 = "put_head (head_of c) buf"
  let ?b2 = "write_counted write_string_fixup (ch_string_fixups c) ?b1"
  let ?b3 = "write_counted write_layout_fixup (ch_layout_fixups c) ?b2"
  let ?b4 = "write_counted write_host_call (host_calls imports (ch_code c)) ?b3"
  have hok: "head_ok (head_of c)" using ok by (simp add: head_of_def head_ok_def chunk_ok_def)
  have hc: "length (host_calls imports (ch_code c)) < 2 ^ 32"
    using ok length_filter_le [of "\<lambda>i. is_call_host (ch_code c ! i)" "[0..<length (ch_code c)]"]
    by (simp add: host_call_indices chunk_ok_def)
  have b4: "write_chunk imports c buf = ?b4" by (rule write_chunk_eq)
  obtain r1 where r1: "?b4 = ?b1 @ r1"
    using counted_prefix [OF string_fixup_codec] counted_prefix [OF layout_fixup_codec]
      counted_prefix [OF host_call_codec] by (meson prefix_order.trans prefixE)
  obtain r2 where r2: "?b4 = ?b2 @ r2"
    using counted_prefix [OF layout_fixup_codec] counted_prefix [OF host_call_codec]
    by (meson prefix_order.trans prefixE)
  obtain r3 where r3: "?b4 = ?b3 @ r3" using counted_prefix [OF host_call_codec] by (meson prefixE)
  have pre: "prefix dat ?b4" using sp by (simp add: b4 strict_prefix_def)
  show ?thesis
  proof (cases "prefix ?b1 dat")
    case False
    then have "strict_prefix dat ?b1" using headc.cut [OF _ len, of "head_of c" r1] pre r1 by auto
    from head_short [OF hok dat this len] show ?thesis
      by (auto simp: load_chunk_def fixup_loop_error)
  next
    case True
    have l1: "length ?b1 \<le> length dat" using True by (rule prefix_length_le)
    have head: "read_chunk_head (at dat (length buf)) =
        ((ch_name c, ch_num_registers c, ch_param_count c, Some (ch_code c), Some (ch_consts c)), at dat (length ?b1))"
      using headc.reads [OF hok dat True] by (simp add: head_of_def)
    show ?thesis
      by (rule loops_short [OF ok dat hc _ l1 head]) (use sp b4 in simp)
  qed
qed

section \<open>All chunks\<close>

lemma fold_chunks_prefix: "prefix buf (fold (write_chunk imports) cs buf)"
proof (induction cs arbitrary: buf)
  case (Cons c cs)
  then show ?case using write_chunk_prefix [of buf "imports" c] by (auto intro: prefix_order.trans)
qed simp

lemma load_chunks_error: "r_error r \<Longrightarrow> \<exists>cs. load_chunks env ci n r = Inr (cs, [], r)"
proof (induction n arbitrary: ci)
  case (Suc n)
  then obtain c cs where "load_chunk env ci r = Inr (c, [], r)" "load_chunks env (Suc ci) n r = Inr (cs, [], r)"
    using load_chunk_error by metis
  then show ?case by simp
qed simp

lemma load_chunks_at:
  assumes "list_all (chunk_ok imports) cs" "list_all (names_resolve env imports) cs" "small dat"
    and "prefix (fold (write_chunk imports) cs buf) dat"
  shows "\<exists>cs' bx. load_chunks env ci (length cs) (at dat (length buf))
      = Inr (cs', bx, at dat (length (fold (write_chunk imports) cs buf)))
    \<and> list_all2 (relocated env dat imports bx) cs cs'"
  using assms
proof (induction cs arbitrary: buf ci)
  case (Cons c cs)
  let ?b = "write_chunk imports c buf"
  have p: "prefix ?b dat"
    using Cons.prems(4) fold_chunks_prefix [of ?b "imports" cs] by (auto intro: prefix_order.trans)
  obtain c' bx where c': "load_chunk env ci (at dat (length buf)) = Inr (c', bx, at dat (length ?b))"
      "relocated env dat imports bx c c'"
    using load_chunk_at [OF _ _ Cons.prems(3) p, of env ci] Cons.prems(1,2) by auto
  obtain cs' bxs where cs': "load_chunks env (Suc ci) (length cs) (at dat (length ?b))
      = Inr (cs', bxs, at dat (length (fold (write_chunk imports) cs ?b)))"
      "list_all2 (relocated env dat imports bxs) cs cs'"
    using Cons.IH [of ?b "Suc ci"] Cons.prems by auto
  have "relocated env dat imports (bx @ bxs) c c'" using c'(2) by (rule relocated_mono) simp
  moreover have "list_all2 (relocated env dat imports (bx @ bxs)) cs cs'"
    using cs'(2) by (rule list_all2_mono) (erule relocated_mono, simp)
  ultimately show ?case using c'(1) cs'(1) by auto
qed simp

lemma load_chunks_short:
  assumes "list_all (chunk_ok imports) cs" "list_all (names_resolve env imports) cs" "small dat"
    and "strict_prefix dat (fold (write_chunk imports) cs buf)" "length buf \<le> length dat"
  shows "load_chunks env ci (length cs) (at dat (length buf)) = Inl Unusable
    \<or> (\<exists>cs' bx r. load_chunks env ci (length cs) (at dat (length buf)) = Inr (cs', bx, r) \<and> r_error r)"
  using assms
proof (induction cs arbitrary: buf ci)
  case Nil
  then show ?case using strict_prefix_room [of dat buf] by simp
next
  case (Cons c cs)
  let ?b = "write_chunk imports c buf"
  have ok: "chunk_ok imports c" "names_resolve env imports c" using Cons.prems(1,2) by simp_all
  show ?case
  proof (cases "prefix ?b dat")
    case True
    obtain c' bx where c': "load_chunk env ci (at dat (length buf)) = Inr (c', bx, at dat (length ?b))"
      using load_chunk_at [OF ok Cons.prems(3) True] by blast
    have "length ?b \<le> length dat" using True by (rule prefix_length_le)
    then have "load_chunks env (Suc ci) (length cs) (at dat (length ?b)) = Inl Unusable
      \<or> (\<exists>cs' bx r. load_chunks env (Suc ci) (length cs) (at dat (length ?b)) = Inr (cs', bx, r) \<and> r_error r)"
      by (intro Cons.IH) (use Cons.prems in simp_all)
    then show ?thesis using c' by auto
  next
    case False
    have "prefix dat (fold (write_chunk imports) cs ?b)" using Cons.prems(4) by (simp add: strict_prefix_def)
    then have "strict_prefix dat ?b"
      using False fold_chunks_prefix [of ?b "imports" cs]
      by (metis prefix_same_cases strict_prefix_def prefix_order.refl)
    then have "load_chunk env ci (at dat (length buf)) = Inl Unusable
      \<or> (\<exists>c' bx r. load_chunk env ci (at dat (length buf)) = Inr (c', bx, r) \<and> r_error r)"
      by (intro load_chunk_short [OF ok(1) Cons.prems(3) _ Cons.prems(5)])
    then show ?thesis
    proof
      assume "\<exists>c' bx r. load_chunk env ci (at dat (length buf)) = Inr (c', bx, r) \<and> r_error r"
      then obtain c' bx r where c': "load_chunk env ci (at dat (length buf)) = Inr (c', bx, r)" "r_error r" by blast
      obtain cs' where "load_chunks env (Suc ci) (length cs) r = Inr (cs', [], r)"
        using load_chunks_error [OF c'(2)] by blast
      then show ?thesis using c' by auto
    qed simp
  qed
qed

section \<open>The module table\<close>

definition resolved_import :: "load_env \<Rightarrow> string \<Rightarrow> bc_module_import" where
  "resolved_import env name =
     (let (prog, fn) = the (the (le_resolver env) name)
      in \<lparr>mi_name = name, mi_prog = prog, mi_fn_index = fn\<rparr>)"

definition modules_resolve :: "load_env \<Rightarrow> string list \<Rightarrow> bool" where
  "modules_resolve env names \<longleftrightarrow>
     (case le_resolver env of None \<Rightarrow> names = [] | Some resolve \<Rightarrow> list_all (\<lambda>n. resolve n \<noteq> None) names)"

abbreviation put_name :: "string \<Rightarrow> bytes \<Rightarrow> bytes" where
  "put_name \<equiv> \<lambda>s buf. bcio_write_string buf s"

lemma load_modules_at:
  assumes "list_all str_ok names" "modules_resolve env names" "small dat" "prefix (fold put_name names buf) dat"
  shows "load_modules env (length names) table (at dat (length buf))
    = Inr (table @ map (resolved_import env) names, at dat (length (fold put_name names buf)))"
  using assms
proof (induction names arbitrary: buf table)
  case (Cons n names)
  have p: "prefix (put_name n buf) dat"
    using Cons.prems(4) strc.fold_prefix [of "put_name n buf" names] by (auto intro: prefix_order.trans)
  show ?case
    using Cons.prems Cons.IH [of "put_name n buf"] strc.reads [OF _ Cons.prems(3) p]
    by (auto simp: modules_resolve_def resolved_import_def bc_module_table_add_def split: option.splits)
qed simp

lemma load_modules_short:
  assumes "list_all str_ok names" "modules_resolve env names" "small dat" "length buf \<le> length dat"
    and "strict_prefix dat (fold put_name names buf)"
  shows "load_modules env (length names) table (at dat (length buf)) = Inl Unusable"
  using assms
proof (induction names arbitrary: buf table)
  case Nil
  then show ?case using strict_prefix_room [of dat buf] by simp
next
  case (Cons n names)
  show ?case
  proof (cases "prefix (put_name n buf) dat")
    case True
    then have "length (put_name n buf) \<le> length dat" by (rule prefix_length_le)
    then show ?thesis
      using Cons.prems Cons.IH [of "put_name n buf"] strc.reads [OF _ Cons.prems(3) True]
      by (auto simp: modules_resolve_def split: option.splits)
  next
    case False
    have "prefix dat (fold put_name names (put_name n buf))" using Cons.prems(5) by (simp add: strict_prefix_def)
    then have "strict_prefix dat (put_name n buf)"
      using False strc.fold_prefix [of "put_name n buf" names]
      by (metis prefix_same_cases strict_prefix_def prefix_order.refl)
    then have "r_error (snd (bcio_mmap_read_string (at dat (length buf))))"
      using Cons.prems by (intro strc.short) simp_all
    then show ?thesis by (simp add: split_beta Let_def)
  qed
qed

end
