(* ===== verification/Cache_Round_Trip.thy ===== *)
theory Cache_Round_Trip
  imports Cache_Props
begin

text \<open>
  The whole file: what \<^verbatim>\<open>bc_program_save\<close> writes, \<^verbatim>\<open>bc_program_load\<close> reads back, and every proper
  prefix of it is refused.
\<close>

section \<open>The tail of the file\<close>

lemma load_module_table_at:
  assumes "list_all str_ok names" "length names < 2 ^ 32" "modules_resolve env names" "small dat"
    and p: "prefix (write_counted put_name names buf) dat"
  shows "load_module_table env (at dat (length buf))
    = Inr (if names = [] then None else Some (map (resolved_import env) names),
           at dat (length (write_counted put_name names buf)))"
proof -
  let ?b = "bcio_write_u32 buf (of_nat (length names))"
  have pb: "prefix ?b dat"
    using p strc.fold_prefix [of ?b names] by (auto simp: write_counted_def intro: prefix_order.trans)
  have "length buf + 4 + length names \<le> length dat"
    using strc.fold_longer [of ?b names] prefix_length_le [OF p] by (simp add: write_counted_def write_bytes)
  then have c: "bcio_mmap_read_bounded_count (at dat (length buf)) = (of_nat (length names), at dat (length ?b))"
    using bounded_count_at [OF assms(4) pb assms(2)] by (simp add: write_bytes)
  have n: "unat (of_nat (length names) :: u32) = length names" using assms(2) by (simp add: unat_of_nat_small)
  then have z: "(of_nat (length names) :: u32) > 0 \<longleftrightarrow> names \<noteq> []"
    by (simp add: word_less_nat_alt)
  show ?thesis
    using load_modules_at [OF assms(1,3,4), of ?b "[]"] p
    by (simp add: load_module_table_def c n z write_counted_def)
qed

lemma load_module_table_short:
  assumes "list_all str_ok names" "length names < 2 ^ 32" "modules_resolve env names" "small dat"
    and "length buf \<le> length dat" and sp: "strict_prefix dat (write_counted put_name names buf)"
  shows "load_module_table env (at dat (length buf)) = Inl Unusable
    \<or> (\<exists>r. load_module_table env (at dat (length buf)) = Inr (None, r) \<and> r_error r)"
proof -
  let ?b = "bcio_write_u32 buf (of_nat (length names))"
  obtain rest where rest: "fold put_name names ?b = ?b @ rest"
    using strc.fold_prefix [of ?b names] by (auto simp: prefix_def)
  have sp': "strict_prefix dat (fold put_name names ?b)" using sp by (simp add: write_counted_def)
  have n: "unat (of_nat (length names) :: u32) = length names" using assms(2) by (simp add: unat_of_nat_small)
  have "prefix ?b dat \<or> strict_prefix dat ?b"
    by (rule u32c.cut [of _ _ _ rest]) (use assms sp' rest in \<open>auto simp: strict_prefix_def\<close>)
  then show ?thesis
  proof
    assume p: "prefix ?b dat"
    have l: "length ?b \<le> length dat" using p by (rule prefix_length_le)
    have "names \<noteq> []" using sp' l strict_prefix_room [of dat ?b] by auto
    then have "(of_nat (length names) :: u32) > 0" using n by (simp add: word_less_nat_alt)
    then show ?thesis
      using bounded_count_at [OF assms(4) p assms(2)] load_modules_short [OF assms(1,3,4) l sp', of "[]"]
      by (auto simp: load_module_table_def n write_bytes)
  next
    assume "strict_prefix dat ?b"
    then have "r_error (snd (bcio_mmap_read_u32 (at dat (length buf))))"
      using assms by (intro u32_head)
    then show ?thesis
      by (simp add: load_module_table_def bcio_mmap_read_bounded_count_def split_beta Let_def)
  qed
qed

lemma load_module_table_error: "r_error r \<Longrightarrow> load_module_table env r = Inr (None, r)"
  by (simp add: load_module_table_def)

lemma read_counted_error: "r_error r \<Longrightarrow> read_counted f r = ([], r)"
  by (simp add: read_counted_def)

lemma check_sigs_error: "r_error r \<Longrightarrow> check_sigs env sigs r = Inr ()"
  by (simp add: check_sigs_def)

lemma load_body_error:
  assumes "load_chunks env 0 n r = Inr (cs, bx, r')" "r_error r'"
  shows "load_body env h n g r = Inl Unusable"
  using assms by (simp add: load_body_def read_counted_error check_sigs_error load_module_table_error)

section \<open>The parts of a saved file\<close>

definition saved_sigs :: "bc_program \<Rightarrow> bc_host_import list \<Rightarrow> (string \<times> bc_host_import) list" where
  "saved_sigs prog imports =
     map (\<lambda>n. (n, imports ! the (find_import imports n))) (referenced_host_names imports (pr_chunks prog))"

text \<open>What a program must keep to for its counts and lengths to fit the file's fields.\<close>

definition save_ok :: "bc_program \<Rightarrow> bc_host_import list \<Rightarrow> bool" where
  "save_ok prog imports \<longleftrightarrow>
     length (pr_chunks prog) < 2 ^ 32 \<and> list_all (chunk_ok imports) (pr_chunks prog)
     \<and> pr_global_count prog < 2 ^ 32
     \<and> pr_global_count prog \<le> sum_list (map (\<lambda>c. length (ch_code c)) (pr_chunks prog))
     \<and> length (saved_sigs prog imports) < 2 ^ 32 \<and> list_all sig_ok (saved_sigs prog imports)
     \<and> length (module_names prog) < 2 ^ 32 \<and> list_all str_ok (module_names prog)"

text \<open>What the loading process must provide: every referenced host function under its name with the
  signature it was compiled against, and every module the program imports.\<close>

definition load_env_ok :: "load_env \<Rightarrow> bc_program \<Rightarrow> bc_host_import list \<Rightarrow> bool" where
  "load_env_ok env prog imports \<longleftrightarrow>
     list_all (names_resolve env imports) (pr_chunks prog)
     \<and> bc_verify_cached_host_imports (map sig_of (saved_sigs prog imports)) (le_imports env) = Some True
     \<and> modules_resolve env (module_names prog)"

definition put_preamble :: "u64 \<Rightarrow> bytes" where
  "put_preamble h = bcio_write_u64 (bcio_write_u32 (bcio_write_u32 [] BC_CACHE_MAGIC) BC_CACHE_VERSION) h"

definition put_counts :: "bc_program \<Rightarrow> bytes \<Rightarrow> bytes" where
  "put_counts prog buf =
     bcio_write_u32 (bcio_write_u32 buf (of_nat (length (pr_chunks prog)))) (of_nat (pr_global_count prog))"

lemma save_parts:
  assumes "bc_program_save prog imports h = Some file"
  shows "file = write_counted put_name (module_names prog)
     (write_counted write_import_sig (saved_sigs prog imports)
       (fold (write_chunk imports) (pr_chunks prog) (put_counts prog (put_preamble h))))"
  using assms
  by (simp add: bc_program_save_def put_counts_def put_preamble_def saved_sigs_def Let_def split: if_splits)

section \<open>Relocation keeps the verifier satisfied\<close>

lemma relink_decode [simp]: "bc_decode (relink_instr imports imports' ins) = bc_decode ins"
  by (simp add: relink_instr_def bc_decode_def)

lemma relink_verify:
  assumes "length (ch_code c') = length (ch_code c)" "length (ch_consts c') = length (ch_consts c)"
  shows "bcio_verify_instr n c' (relink_instr imports imports' ins) = bcio_verify_instr n c ins"
proof (cases "is_call_host ins")
  case True
  then show ?thesis by (simp add: bcio_verify_instr_def is_call_host_def)
next
  case False
  then have "relink_instr imports imports' ins = ins" by (simp add: relink_instr_def)
  then show ?thesis by (simp only: bcio_verify_instr_def assms)
qed

lemma relocated_verify_chunk:
  assumes "relocated env dat imports bx c c'"
  shows "bcio_verify_chunk n c' = bcio_verify_chunk n c"
proof -
  have r: "ch_code c' = map (relink_instr imports (le_imports env)) (ch_code c)"
    "length (ch_consts c') = length (ch_consts c)" "ch_num_registers c' = ch_num_registers c"
    "ch_param_count c' = ch_param_count c"
    using assms by (simp_all add: relocated_def)
  have "list_all (bcio_verify_instr n c') (ch_code c') = list_all (bcio_verify_instr n c) (ch_code c)"
    using r by (simp add: list.pred_map comp_def relink_verify)
  moreover have "ch_code c \<noteq> [] \<Longrightarrow> ends_chunk (last (ch_code c')) = ends_chunk (last (ch_code c))"
    using r(1) by (simp add: last_map ends_chunk_def)
  ultimately show ?thesis
    using r by (auto simp: bcio_verify_chunk_def)
qed

lemma relocated_verified:
  assumes rel: "list_all2 (relocated env dat imports bx) cs cs'" and v: "bcio_verify_loaded_code cs"
  shows "bcio_verify_loaded_code cs'"
proof -
  have n: "length cs' = length cs" using rel by (simp add: list_all2_lengthD)
  have "list_all (bcio_verify_chunk k) cs' = list_all (bcio_verify_chunk k) cs" for k
    using rel by (induction rule: list_all2_induct) (simp_all add: relocated_verify_chunk)
  moreover have "map_option ch_param_count (find (\<lambda>c. str8_match (ch_name c) s 0) cs')
      = map_option ch_param_count (find (\<lambda>c. str8_match (ch_name c) s 0) cs)" for s
    using rel by (induction rule: list_all2_induct) (simp_all add: relocated_def)
  moreover have "(case x of Some c \<Rightarrow> ch_param_count c = 0 | None \<Rightarrow> False)
      \<longleftrightarrow> map_option ch_param_count x = Some 0" for x :: "bc_chunk option"
    by (cases x) auto
  ultimately show ?thesis using v n unfolding bcio_verify_loaded_code_def by (simp only:)
qed

lemma body_at:
  assumes ok: "save_ok prog imports" and env: "load_env_ok env prog imports" and dat: "small dat"
    and v: "bcio_verify_loaded_code (pr_chunks prog)"
    and p: "prefix (write_counted put_name (module_names prog)
     (write_counted write_import_sig (saved_sigs prog imports) (fold (write_chunk imports) (pr_chunks prog) buf))) dat"
  shows "\<exists>cs' bx. load_body env h (length (pr_chunks prog)) g (at dat (length buf))
      = Inr (h, \<lparr>pr_chunks = cs', pr_global_count = g,
                 pr_module_table = (if module_names prog = [] then None
                   else Some (map (resolved_import env) (module_names prog)))\<rparr>, bx)
    \<and> list_all2 (relocated env dat imports bx) (pr_chunks prog) cs'"
proof -
  let ?b1 = "fold (write_chunk imports) (pr_chunks prog) buf"
  let ?b2 = "write_counted write_import_sig (saved_sigs prog imports) ?b1"
  have p2: "prefix ?b2 dat" using counted_prefix [OF string_codec] p by (rule prefix_order.trans)
  have p1: "prefix ?b1 dat" using counted_prefix [OF sig_codec] p2 by (rule prefix_order.trans)
  obtain cs' bx where cs': "load_chunks env 0 (length (pr_chunks prog)) (at dat (length buf))
      = Inr (cs', bx, at dat (length ?b1))" "list_all2 (relocated env dat imports bx) (pr_chunks prog) cs'"
    using load_chunks_at [OF _ _ dat p1, of env 0] ok env by (auto simp: save_ok_def load_env_ok_def)
  have sv: "sigc.views xs b = map sig_of xs" for xs b
    using sigc.views_const by simp
  have sigs: "read_counted read_sig (at dat (length ?b1)) = (map sig_of (saved_sigs prog imports), at dat (length ?b2))"
    using cache_codec.reads [OF sigc.counted_codec _ dat p2] ok by (simp add: save_ok_def sv)
  have mods: "load_module_table env (at dat (length ?b2)) =
      Inr (if module_names prog = [] then None else Some (map (resolved_import env) (module_names prog)),
           at dat (length (write_counted put_name (module_names prog) ?b2)))"
    using load_module_table_at [OF _ _ _ dat p] ok env by (simp add: save_ok_def load_env_ok_def)
  have "bcio_verify_loaded_code cs'" by (rule relocated_verified [OF cs'(2) v])
  then show ?thesis
    using cs' sigs mods env by (auto simp: load_body_def check_sigs_def load_env_ok_def)
qed

lemma body_short:
  assumes ok: "save_ok prog imports" and env: "load_env_ok env prog imports" and dat: "small dat"
    and len: "length buf \<le> length dat"
    and sp: "strict_prefix dat (write_counted put_name (module_names prog)
     (write_counted write_import_sig (saved_sigs prog imports) (fold (write_chunk imports) (pr_chunks prog) buf)))"
  shows "load_body env h (length (pr_chunks prog)) g (at dat (length buf)) = Inl Unusable"
proof -
  let ?b1 = "fold (write_chunk imports) (pr_chunks prog) buf"
  let ?b2 = "write_counted write_import_sig (saved_sigs prog imports) ?b1"
  let ?b3 = "write_counted put_name (module_names prog) ?b2"
  note sok = ok [unfolded save_ok_def] and eok = env [unfolded load_env_ok_def]
  obtain r2 where r2: "?b3 = ?b2 @ r2" using counted_prefix [OF string_codec] by (meson prefixE)
  have pre: "prefix dat ?b3" using sp by (simp add: strict_prefix_def)
  show ?thesis
  proof (cases "prefix ?b1 dat")
    case False
    have "prefix ?b1 ?b3"
      using counted_prefix [OF sig_codec] counted_prefix [OF string_codec] by (rule prefix_order.trans)
    then have "strict_prefix dat ?b1"
      using False pre by (metis prefix_same_cases strict_prefix_def prefix_order.refl)
    then have "load_chunks env 0 (length (pr_chunks prog)) (at dat (length buf)) = Inl Unusable
      \<or> (\<exists>cs' bx r. load_chunks env 0 (length (pr_chunks prog)) (at dat (length buf)) = Inr (cs', bx, r) \<and> r_error r)"
      using sok eok by (intro load_chunks_short [OF _ _ dat _ len]) simp_all
    then show ?thesis
      using load_body_error by (auto simp: load_body_def)
  next
    case p1: True
    have l1: "length ?b1 \<le> length dat" using p1 by (rule prefix_length_le)
    obtain cs' bx where cs': "load_chunks env 0 (length (pr_chunks prog)) (at dat (length buf))
        = Inr (cs', bx, at dat (length ?b1))"
      using load_chunks_at [OF _ _ dat p1, of env 0] sok eok by auto
    show ?thesis
    proof (cases "prefix ?b2 dat")
      case False
      then have "strict_prefix dat ?b2"
        using cache_codec.cut [OF sigc.counted_codec _ l1, of _ r2] pre r2 by metis
      then have "r_error (snd (read_counted read_sig (at dat (length ?b1))))"
        using sok by (intro cache_codec.short [OF sigc.counted_codec _ dat _ l1]) simp_all
      then show ?thesis
        using cs' by (simp add: load_body_def split_beta Let_def check_sigs_error load_module_table_error)
    next
      case p2: True
      have l2: "length ?b2 \<le> length dat" using p2 by (rule prefix_length_le)
      have sigs: "read_counted read_sig (at dat (length ?b1)) =
          (map sig_of (saved_sigs prog imports), at dat (length ?b2))"
        using cache_codec.reads [OF sigc.counted_codec _ dat p2] sok sigc.views_const by simp
      have "load_module_table env (at dat (length ?b2)) = Inl Unusable
        \<or> (\<exists>r. load_module_table env (at dat (length ?b2)) = Inr (None, r) \<and> r_error r)"
        using sok eok by (intro load_module_table_short [OF _ _ _ dat l2 sp]) simp_all
      then show ?thesis
        using cs' sigs eok by (auto simp: load_body_def check_sigs_def)
    qed
  qed
qed

section \<open>The file as a whole\<close>

lemma put_array_longer: "length buf + length xs * sz \<le> length (put_array sz enc xs buf)"
  if "\<And>x. length (enc x) = sz"
  using length_concat_slots [of enc sz xs, OF that] by (simp add: put_array_eq align_pad)

lemma write_chunk_code_longer: "length buf + length (ch_code c) \<le> length (write_chunk imports c buf)"
proof -
  have "length buf + length (ch_code c) \<le> length (put_head (head_of c) buf)"
  proof -
    let ?b = "bcio_write_u32 (bcio_write_u32 (bcio_write_string buf (ch_name c)) (ch_num_registers c)) (ch_param_count c)"
    have "length ?b + length (ch_code c) * 16 \<le> length (put_array 16 instr_bytes (ch_code c) ?b)"
      by (rule put_array_longer) (simp add: instr_bytes_def)
    also have "\<dots> \<le> length (put_array 8 const_bytes (ch_consts c) (put_array 16 instr_bytes (ch_code c) ?b))"
      by (rule prefix_length_le) (rule cache_codec.put_prefix [OF consts_codec])
    finally show ?thesis
      by (simp add: put_head_def head_of_def write_bytes bcio_write_string_def bcio_write_def)
  qed
  also have "\<dots> \<le> length (write_chunk imports c buf)"
    unfolding write_chunk_eq
    using counted_prefix [OF string_fixup_codec] counted_prefix [OF layout_fixup_codec]
      counted_prefix [OF host_call_codec] by (meson prefix_order.trans prefix_length_le)
  finally show ?thesis .
qed

lemma fold_chunks_longer:
  "length buf + length cs + sum_list (map (\<lambda>c. length (ch_code c)) cs) \<le> length (fold (write_chunk imports) cs buf) + length cs
   \<and> length buf + length cs \<le> length (fold (write_chunk imports) cs buf)"
proof (induction cs arbitrary: buf)
  case (Cons c cs)
  have "length buf + length (ch_code c) \<le> length (write_chunk imports c buf)" by (rule write_chunk_code_longer)
  moreover have "length buf < length (write_chunk imports c buf)" by (rule write_chunk_longer)
  ultimately show ?case using Cons.IH [of "write_chunk imports c buf"] by simp
qed simp

lemma load_preamble:
  assumes dat: "small dat" and p: "prefix (put_preamble h) dat"
  shows "bc_program_load env dat =
    (let (n, r) = bcio_mmap_read_bounded_count (at dat (length (put_preamble h)));
         (g, r) = bcio_mmap_read_bounded_count r
     in load_body env h (unat n) (unat g) r)"
proof -
  let ?b1 = "bcio_write_u32 [] BC_CACHE_MAGIC" and ?b2 = "bcio_write_u32 (bcio_write_u32 [] BC_CACHE_MAGIC) BC_CACHE_VERSION"
  have p2: "prefix ?b2 dat" using p u64c.put_prefix by (auto simp: put_preamble_def intro: prefix_order.trans)
  have p1: "prefix ?b1 dat" using p2 u32c.put_prefix by (auto intro: prefix_order.trans)
  have z: "\<lparr>r_data = dat, r_pos = 0, r_error = False\<rparr> = at dat (length ([] :: bytes))" by (simp add: at_def)
  have "dat \<noteq> []" using p1 by (auto simp: write_bytes)
  then show ?thesis
    using u32c.reads [OF TrueI dat p1] u32c.reads [OF TrueI dat p2] u64c.reads [OF TrueI dat, where x = h and buf = ?b2] p
    unfolding bc_program_load_def z by (simp add: put_preamble_def)
qed

lemma load_preamble_short:
  assumes dat: "small dat" and sp: "strict_prefix dat (put_preamble h)"
  shows "bc_program_load env dat = Inl Unusable"
proof -
  let ?b1 = "bcio_write_u32 [] BC_CACHE_MAGIC" and ?b2 = "bcio_write_u32 (bcio_write_u32 [] BC_CACHE_MAGIC) BC_CACHE_VERSION"
  have z: "\<lparr>r_data = dat, r_pos = 0, r_error = False\<rparr> = at dat (length ([] :: bytes))" by (simp add: at_def)
  obtain rest where rest: "put_preamble h = ?b2 @ rest"
    using u64c.extends [where x = h and buf = ?b2] by (auto simp: put_preamble_def)
  note two = codec_seq [OF u32_codec u32_codec]
  have "prefix ?b2 dat \<or> strict_prefix dat ?b2"
    using cache_codec.cut [OF two, where x = "(BC_CACHE_MAGIC, BC_CACHE_VERSION)" and buf = "[]" and dat = dat and rest = rest]
      sp rest by (simp add: strict_prefix_def)
  then show ?thesis
  proof
    assume p2: "prefix ?b2 dat"
    have p1: "prefix ?b1 dat" using p2 u32c.put_prefix by (auto intro: prefix_order.trans)
    have e: "r_error (snd (bcio_mmap_read_u64 (at dat (length ?b2))))"
      using u64c.short [OF TrueI dat, where x = h and buf = ?b2] sp prefix_length_le [OF p2] by (simp add: put_preamble_def)
    have "load_body env h' 0 0 r = Inl Unusable" if "r_error r" for h' r
      using load_body_error [of env 0 r "[]" "[]" r] that by simp
    then show ?thesis
      using u32c.reads [OF TrueI dat p1] u32c.reads [OF TrueI dat p2] e
      unfolding bc_program_load_def z by (simp add: split_beta Let_def)
  next
    assume "strict_prefix dat ?b2"
    then have "r_error (snd (bcio_mmap_read_u32 (snd (bcio_mmap_read_u32 (at dat 0)))))"
      using cache_codec.short [OF two _ dat, where x = "(BC_CACHE_MAGIC, BC_CACHE_VERSION)" and buf = "[]"]
      by (simp add: split_beta Let_def)
    then show ?thesis
      unfolding bc_program_load_def z by (simp add: split_beta Let_def)
  qed
qed

lemma counts_at:
  assumes dat: "small dat" and n: "n < 2 ^ 32" "g < 2 ^ 32"
    and p: "prefix (bcio_write_u32 (bcio_write_u32 buf (of_nat n)) (of_nat g)) dat"
  shows "(let (n, r) = bcio_mmap_read_bounded_count (at dat (length buf));
              (g, r) = bcio_mmap_read_bounded_count r
          in load_body env h (unat n) (unat g) r) =
    (let q = length buf + 4
     in if length dat < q + n then load_body env h 0 0 ((at dat q)\<lparr>r_error := True\<rparr>)
        else if length dat < q + 4 + g then load_body env h n 0 ((at dat (q + 4))\<lparr>r_error := True\<rparr>)
        else load_body env h n g (at dat (q + 4)))"
proof -
  let ?b = "bcio_write_u32 buf (of_nat n)" and ?q = "length buf + 4"
  have pb: "prefix ?b dat" using p u32c.put_prefix by (auto intro: prefix_order.trans)
  have l: "length ?b = ?q" by (simp add: write_bytes)
  note c1 = bounded_count_at [OF dat pb n(1)] and c2 = bounded_count_at [OF dat p n(2), unfolded l]
  have un: "unat (of_nat n :: u32) = n" "unat (of_nat g :: u32) = g"
    using n by (simp_all add: unat_of_nat_small)
  consider "length dat < ?q + n" | "\<not> length dat < ?q + n" "length dat < ?q + 4 + g"
    | "\<not> length dat < ?q + n" "\<not> length dat < ?q + 4 + g" by blast
  then show ?thesis
  proof cases
    case 1
    then show ?thesis using c1 by (simp add: Let_def)
  next
    case 2
    then show ?thesis unfolding c1 Let_def by (simp only: if_False prod.case c2 if_True un unat_0)
  next
    case 3
    then show ?thesis unfolding c1 Let_def by (simp only: if_False prod.case c2 un)
  qed
qed

lemma load_saved:
  assumes save: "bc_program_save prog imports h = Some file"
    and "save_ok prog imports" "load_env_ok env prog imports" "small file"
    and "bcio_verify_loaded_code (pr_chunks prog)"
  shows "\<exists>cs' bx. bc_program_load env file
      = Inr (h, \<lparr>pr_chunks = cs', pr_global_count = pr_global_count prog,
                 pr_module_table = (if module_names prog = [] then None
                   else Some (map (resolved_import env) (module_names prog)))\<rparr>, bx)
    \<and> list_all2 (relocated env file imports bx) (pr_chunks prog) cs'"
proof -
  let ?p = "put_preamble h" and ?n = "length (pr_chunks prog)" and ?g = "pr_global_count prog"
  let ?c = "put_counts prog ?p"
  let ?b1 = "fold (write_chunk imports) (pr_chunks prog) ?c"
  let ?b2 = "write_counted write_import_sig (saved_sigs prog imports) ?b1"
  note parts = save_parts [OF save]
  note ok = \<open>save_ok prog imports\<close> [unfolded save_ok_def]
  have pc: "prefix ?c file" and b1: "prefix ?b1 file"
    unfolding parts using counted_prefix [OF string_codec, of ?b2] counted_prefix [OF sig_codec, of ?b1]
      fold_chunks_prefix [of ?c "imports" "pr_chunks prog"] by (meson prefix_order.trans)+
  have pp: "prefix ?p file"
    using pc u32c.put_prefix unfolding put_counts_def by (meson prefix_order.trans)
  have lc: "length ?c = length ?p + 8" by (simp add: put_counts_def write_bytes)
  have room: "length ?c + ?n \<le> length file" "length ?c + ?g \<le> length file"
    using fold_chunks_longer [of ?c "pr_chunks prog" "imports"] prefix_length_le [OF b1] ok by linarith+
  have "bc_program_load env file = load_body env h ?n ?g (at file (length ?c))"
    using counts_at [OF \<open>small file\<close> _ _ pc [unfolded put_counts_def], of env h] ok room lc
    by (simp add: load_preamble [OF \<open>small file\<close> pp] add.commute)
  then show ?thesis
    using body_at [OF \<open>save_ok prog imports\<close> \<open>load_env_ok env prog imports\<close> \<open>small file\<close>
        \<open>bcio_verify_loaded_code (pr_chunks prog)\<close>, of ?c h ?g] unfolding parts by simp
qed

text \<open>
  C20: A program that \<^verbatim>\<open>bc_program_save\<close> writes is the program \<^verbatim>\<open>bc_program_load\<close> builds in another
  process: the same chunks under the same names, with every host call pointing at the loading
  process's entry of that name, every text constant pointing at its bytes in the mapping (or at a
  box that holds that address and the length), every slot descriptor boxed with its fields, every
  other constant unchanged, the global count and the module imports in their order, and the hash.
\<close>

theorem cache_round_trip:
  assumes save: "bc_program_save prog imports h = Some file"
    and "save_ok prog imports" "load_env_ok env prog imports" "small file"
    and "bcio_verify_loaded_code (pr_chunks prog)"
  shows "\<exists>cs' bx. bc_program_load env file
      = Inr (h, \<lparr>pr_chunks = cs', pr_global_count = pr_global_count prog,
                 pr_module_table = (if module_names prog = [] then None
                   else Some (map (resolved_import env) (module_names prog)))\<rparr>, bx)
    \<and> list_all2 (relocated env file imports bx) (pr_chunks prog) cs'"
  by (rule load_saved [OF assms])

text \<open>A file cut short in one of the two counts after the preamble.\<close>

lemma cut_in_counts:
  assumes dat: "small dat" and ok: "save_ok prog imports" and p: "prefix (put_preamble h) dat"
    and c: "strict_prefix dat (put_counts prog (put_preamble h))"
  shows "bc_program_load env dat = Inl Unusable"
proof -
  let ?p = "put_preamble h" and ?b = "bcio_write_u32 (put_preamble h) (of_nat (length (pr_chunks prog)))"
  note ok = ok [unfolded save_ok_def]
  have dead: "load_body env h n g r = Inl Unusable" if "r_error r" for n g r
    using load_chunks_error [OF that] load_body_error that by blast
  have u32_dead: "bcio_mmap_read_bounded_count r = (0, snd (bcio_mmap_read_u32 r))"
    if "r_error (snd (bcio_mmap_read_u32 r))" for r
    using that by (simp add: bcio_mmap_read_bounded_count_def split_beta Let_def)
  consider "strict_prefix dat ?b" | "prefix ?b dat"
    using c u32c.put_prefix unfolding put_counts_def
    by (metis prefix_same_cases strict_prefix_def prefix_order.refl)
  then show ?thesis
  proof cases
    case 1
    have e: "r_error (snd (bcio_mmap_read_u32 (at dat (length ?p))))"
      using 1 p by (intro u32_head [OF dat] prefix_length_le)
    show ?thesis by (simp add: load_preamble [OF dat p] u32_dead [OF e] e dead)
  next
    case 2
    have e: "r_error (snd (bcio_mmap_read_u32 (at dat (length ?b))))"
      using 2 c unfolding put_counts_def by (intro u32_head [OF dat] prefix_length_le)
    then show ?thesis
      using bounded_count_at [OF dat 2] ok u32_dead [OF e]
      by (simp add: load_preamble [OF dat p] dead write_bytes)
  qed
qed

text \<open>A file cut short behind the counts.\<close>

lemma cut_in_body:
  assumes save: "bc_program_save prog imports h = Some file"
    and ok: "save_ok prog imports" and env: "load_env_ok env prog imports" and dat: "small dat"
    and cut: "strict_prefix dat file" and c: "prefix (put_counts prog (put_preamble h)) dat"
  shows "bc_program_load env dat = Inl Unusable"
proof -
  let ?p = "put_preamble h" and ?c = "put_counts prog (put_preamble h)"
  have dead: "load_body env h n g r = Inl Unusable" if "r_error r" for n g r
    using load_chunks_error [OF that] load_body_error that by blast
  have p: "prefix ?p dat"
    using c u32c.put_prefix unfolding put_counts_def by (meson prefix_order.trans)
  have lc: "length ?c = length ?p + 8" by (simp add: put_counts_def write_bytes)
  have "load_body env h (length (pr_chunks prog)) (pr_global_count prog) (at dat (length ?c)) = Inl Unusable"
    by (rule body_short [OF ok env dat prefix_length_le [OF c]]) (use cut save_parts [OF save] in simp)
  then show ?thesis
    using counts_at [OF dat _ _ c [unfolded put_counts_def], of env h] ok [unfolded save_ok_def] lc
    by (simp add: load_preamble [OF dat p] dead Let_def add.commute [of _ "length ?p"])
qed

text \<open>
  C21: Every proper prefix of a saved file, the empty one included, is unusable: a write that was cut
  short anywhere makes the loader refuse the file, and never fails an assertion or loads half of it.
\<close>

theorem truncated_cache_unusable:
  assumes save: "bc_program_save prog imports h = Some file"
    and "save_ok prog imports" "load_env_ok env prog imports" "small file"
    and cut: "strict_prefix dat file"
  shows "bc_program_load env dat = Inl Unusable"
proof -
  let ?p = "put_preamble h" and ?c = "put_counts prog (put_preamble h)"
  let ?b1 = "fold (write_chunk imports) (pr_chunks prog) ?c"
  let ?b2 = "write_counted write_import_sig (saved_sigs prog imports) ?b1"
  have dat: "small dat" using \<open>small file\<close> strict_prefix_room [OF cut] by (simp add: small_def)
  have pc: "prefix ?c file"
    unfolding save_parts [OF save] using counted_prefix [OF string_codec, of ?b2] counted_prefix [OF sig_codec, of ?b1]
      fold_chunks_prefix [of ?c "imports" "pr_chunks prog"] by (meson prefix_order.trans)
  have pp: "prefix ?p file"
    using pc u32c.put_prefix unfolding put_counts_def by (meson prefix_order.trans)
  have either: "prefix x dat \<or> strict_prefix dat x" if "prefix x file" for x
    using that cut by (metis prefix_same_cases strict_prefix_def prefix_order.refl)
  consider "strict_prefix dat ?p" | "prefix ?p dat" "strict_prefix dat ?c" | "prefix ?c dat"
    using either pp pc by blast
  then show ?thesis
    using load_preamble_short [OF dat] cut_in_counts [OF dat assms(2)] cut_in_body [OF save assms(2,3) dat cut]
    by cases blast+
qed

section \<open>Files that are not caches of this version\<close>

lemma read_u32_at:
  assumes "small dat" "p \<le> length dat"
  shows "bcio_mmap_read_u32 (at dat p) =
    (if p + 4 \<le> length dat then (le_word (slice dat (of_nat p) 4), at dat (p + 4))
     else (0, (at dat p)\<lparr>r_error := True\<rparr>))"
  using mmap_ptr_at [OF assms(1), of 4 p] mmap_ptr_short [OF assms(1), of 4 p] assms(2)
  by (simp add: bcio_mmap_read_u32_def)

text \<open>
  A file that does not begin with the magic number and the version is unusable, whatever follows
  and whatever the process provides: too short, another format, or written by another release.
\<close>

theorem foreign_cache_unusable:
  assumes "small dat"
    and "length dat < 8 \<or> le_word (take 4 dat) \<noteq> BC_CACHE_MAGIC
      \<or> le_word (take 4 (drop 4 dat)) \<noteq> BC_CACHE_VERSION"
  shows "bc_program_load env dat = Inl Unusable"
proof -
  have z: "\<lparr>r_data = dat, r_pos = 0, r_error = False\<rparr> = at dat 0" by (simp add: at_def)
  have r0: "bcio_mmap_read_u32 (at dat 0) =
      (if 4 \<le> length dat then (le_word (take 4 dat), at dat 4) else (0, (at dat 0)\<lparr>r_error := True\<rparr>))"
    using read_u32_at [OF assms(1), of 0] by (simp add: slice_def)
  have r4: "bcio_mmap_read_u32 (at dat 4) =
      (if 8 \<le> length dat then (le_word (take 4 (drop 4 dat)), at dat 8)
       else (0, (at dat 4)\<lparr>r_error := True\<rparr>))" if "4 \<le> length dat"
    using read_u32_at [OF assms(1) that] by (simp add: slice_def)
  show ?thesis
    using assms(2) unfolding bc_program_load_def z
    by (cases "4 \<le> length dat"; cases "8 \<le> length dat") (auto simp: r0 r4 Let_def)
qed

lemma foreign_cache_unusable_witness:
  "bc_program_load \<lparr>le_map_base = 0, le_text_box = (\<lambda>_ _. 0), le_layout_box = (\<lambda>_ _. 0), le_imports = [],
     le_resolver = None\<rparr> [0x7F, 0x45, 0x4C, 0x46, 2, 1, 1, 0, 0] = Inl Unusable"
  by (rule foreign_cache_unusable) (simp_all add: small_def BC_CACHE_MAGIC_def)

section \<open>Running what was loaded\<close>

lemma loaded_verified:
  assumes "bc_program_load env dat = Inr (h, prog, bx)"
  shows "bcio_verify_loaded_code (pr_chunks prog)"
  using assms
  by (auto simp: bc_program_load_def load_body_def Let_def split: prod.splits if_splits sum.splits)

text \<open>
  C22: Whatever bytes a cache file holds, if the loader accepts them then the loaded program has a
  parameterless \<^verbatim>\<open>#init_globals\<close>, and no run of any of its chunks leaves the chunk's code or
  reaches a number that is not an opcode.
\<close>

theorem loaded_program_runs_in_code:
  assumes "bc_program_load env dat = Inr (h, prog, bx)"
    and "bc_reachable run ev pid prog vm"
  shows "unat (vm_pc vm) < length (ch_code (vm_chunk vm))
    \<and> bc_decode (ch_code (vm_chunk vm) ! unat (vm_pc vm)) \<noteq> None
    \<and> vm_chunk vm \<in> set (pr_chunks prog)
    \<and> (\<exists>i. bc_program_find_fn prog ''#init_globals'' = Some i)"
proof -
  note v = loaded_verified [OF assms(1)]
  have pc: "unat (vm_pc vm) < length (ch_code (vm_chunk vm))" and c: "vm_chunk vm \<in> set (pr_chunks prog)"
    using code_inv_reachable [OF v assms(2)] by (auto simp: code_inv_def)
  have "bcio_verify_instr (length (pr_chunks prog)) (vm_chunk vm) (ch_code (vm_chunk vm) ! unat (vm_pc vm))"
    using verify_chunkD(3) [OF verified_chunk [OF v c] pc] .
  then have "bc_decode (ch_code (vm_chunk vm) ! unat (vm_pc vm)) \<noteq> None"
    by (auto simp: bcio_verify_instr_def split: option.splits)
  moreover obtain c0 where "find (\<lambda>c. str8_match (ch_name c) ''#init_globals'' 0) (pr_chunks prog) = Some c0"
    using v by (auto simp: bcio_verify_loaded_code_def split: option.splits)
  then have "\<exists>i. find (\<lambda>i. str8_match (ch_name (pr_chunks prog ! i)) ''#init_globals'' 0) [0..<length (pr_chunks prog)] = Some i"
    by (auto simp: find_Some_iff find_None_iff simp flip: not_None_eq)
  ultimately show ?thesis using pc c by (auto simp: bc_program_find_fn_def)
qed

end
