(* ===== verification/Cache_Examples.thy ===== *)
theory Cache_Examples
  imports Cache_Round_Trip
begin

text \<open>
  Concrete cache files: a program with a boxed text, a host call and a module import carried from
  one process to another with a different import table, and a file whose array count wraps the
  loader's bounds check.
\<close>

section \<open>A program that logs a text when it is loaded\<close>

definition log_import :: bc_host_import where
  "log_import = \<lparr>hi_name = ''log'', hi_kind = 0, hi_arg_count = 1,
     hi_param_types = Some [type_ref_of_kind TypeKind_String],
     hi_return_type = type_ref_of_kind TypeKind_Void\<rparr>"

definition tick_import :: bc_host_import where
  "tick_import = \<lparr>hi_name = ''tick'', hi_kind = 1, hi_arg_count = 0, hi_param_types = None,
     hi_return_type = type_ref_of_kind TypeKind_I64\<rparr>"

text \<open>A module initialiser that logs a string: one boxed text, one host call.\<close>

definition greet_chunk :: bc_chunk where
  "greet_chunk = \<lparr>ch_code =
       [\<lparr>in_kind = 0, in_a = 0, in_b = 0, in_c = 0\<rparr>, \<lparr>in_kind = 42, in_a = 1, in_b = 0, in_c = 0\<rparr>,
        \<lparr>in_kind = 45, in_a = 0, in_b = 0, in_c = 0\<rparr>],
     ch_consts = [0x5000], ch_num_registers = 2, ch_param_count = 0, ch_name = ''#init_globals'',
     ch_string_fixups = [\<lparr>sf_const_slot = 0, sf_is_header = 1, sf_bytes = ''hi''\<rparr>], ch_layout_fixups = []\<rparr>"

definition greet_program :: bc_program where
  "greet_program = \<lparr>pr_chunks = [greet_chunk], pr_global_count = 0,
     pr_module_table = Some [\<lparr>mi_name = ''m/f'', mi_prog = 3, mi_fn_index = 1\<rparr>]\<rparr>"

definition other_process :: load_env where
  "other_process = \<lparr>le_map_base = 0x700000, le_text_box = (\<lambda>ci i. 0x800000 + 16 * of_nat i),
     le_layout_box = (\<lambda>ci i. 0x900000), le_imports = [tick_import, log_import],
     le_resolver = Some (\<lambda>name. if name = ''m/f'' then Some (9, 4) else None)\<rparr>"

lemma greet_op: "bc_op_of 42 = Some (OpCtl BcOp_CallHost)" 
  by (simp add: bc_op_of_def BcOp_Count_eq bc_op_table_def)

lemma greet_host_calls: "host_calls [log_import] (ch_code greet_chunk) = [(1, ''log'')]"
  by (simp add: host_calls_def greet_chunk_def is_call_host_def bc_decode_def greet_op demo_opcodes upt_rec log_import_def)

lemma greet_names: "referenced_host_names [log_import] [greet_chunk] = [''log'']"
  by (simp add: referenced_host_names_def greet_host_calls track_name_def)

lemma greet_find: "find_import [log_import] ''log'' = Some 0" "find_import [tick_import, log_import] ''log'' = Some 1"
  by (simp_all add: find_import_def upt_rec log_import_def tick_import_def str8_match_def)

lemma greet_fields:
  "pr_chunks greet_program = [greet_chunk]" "pr_global_count greet_program = 0"
  "module_names greet_program = [''m/f'']" "length (ch_code greet_chunk) = 3"
  "ch_name greet_chunk = ''#init_globals''" "ch_num_registers greet_chunk = 2" "ch_param_count greet_chunk = 0"
  "ch_consts greet_chunk = [0x5000]" "ch_layout_fixups greet_chunk = []"
  "ch_string_fixups greet_chunk = [\<lparr>sf_const_slot = 0, sf_is_header = 1, sf_bytes = ''hi''\<rparr>]"
  by (simp_all add: greet_program_def greet_chunk_def module_names_def)

lemma greet_sigs: "saved_sigs greet_program [log_import] = [(''log'', log_import)]"
  by (simp add: saved_sigs_def greet_fields greet_names greet_find)

lemma log_fields: "import_params log_import = [type_ref_of_kind TypeKind_String]"
  "hi_return_type log_import = type_ref_of_kind TypeKind_Void" "hi_arg_count log_import = 1"
  "hi_param_types log_import = Some [type_ref_of_kind TypeKind_String]" "hi_kind log_import = 0"
  by (simp_all add: import_params_def param_type_def log_import_def)

lemma plain_types: "type_ref_ok (type_ref_of_kind k)"
  "k \<in> {TypeKind_String, TypeKind_Void} \<Longrightarrow> type_ref_equal (type_ref_of_kind k) (type_ref_of_kind k) = Some True"
  "tr_kind (type_ref_of_kind k) = k"
  by (auto simp: str_ok_def)

lemma greet_save_ok: "save_ok greet_program [log_import]"
  by (simp add: save_ok_def greet_fields greet_sigs chunk_ok_def greet_host_calls sig_ok_def log_fields
      plain_types str_ok_def string_fixup_ok_def fixup_slots_def)

lemma greet_load_env_ok: "load_env_ok other_process greet_program [log_import]"
proof -
  have "bc_verify_cached_host_imports [sig_of (''log'', log_import)] [tick_import, log_import] = Some True"
    by (simp add: sig_of_def log_fields greet_find bc_verify_host_import_signature_def
        type_ref_equal_raw_of plain_types param_type_def is_direct_def Let_def)
  then show ?thesis
    by (simp add: load_env_ok_def greet_fields greet_sigs names_resolve_def greet_host_calls greet_find
        other_process_def modules_resolve_def)
qed

lemma greet_verified: "bcio_verify_loaded_code (pr_chunks greet_program)"
  by (simp add: greet_program_def greet_chunk_def bcio_verify_loaded_code_def bcio_verify_chunk_def
      bcio_verify_instr_def ends_chunk_def bc_decode_def demo_opcodes greet_op BC_MAX_TOTAL_REGISTERS_def
      str8_match_def)

lemma greet_host_calls_ok: "host_calls_ok [log_import] greet_chunk"
  by (simp add: host_calls_ok_def is_call_host_def bc_decode_def greet_chunk_def greet_op demo_opcodes)

lemma greet_saved: "\<exists>file. bc_program_save greet_program [log_import] 7 = Some file"
  by (simp add: bc_program_save_def greet_fields greet_names greet_find greet_host_calls_ok Let_def)

lemma greet_small:
  assumes "bc_program_save greet_program [log_import] 7 = Some file"
  shows "small file"
proof -
  have c: "length (concat (map instr_bytes (ch_code greet_chunk))) = 48"
    "length (const_bytes v) = 8" for v
    using length_concat_slots [of instr_bytes 16 "ch_code greet_chunk"]
    by (simp_all add: instr_bytes_def const_bytes_def greet_fields)
  have "length file < 1000"
    unfolding save_parts [OF assms]
    by (simp add: greet_fields greet_sigs put_counts_def put_preamble_def write_counted_def write_bytes
        bcio_write_string_def bcio_write_def write_import_sig_def log_fields Let_def write_chunk_def
        bcio_write_dyn_array_def align_pad c greet_host_calls write_host_call_def write_string_fixup_def
        write_list_eq bcio_write_b32_def pad_of_def)
  then show ?thesis by (simp add: small_def)
qed

section \<open>A count that wraps\<close>

definition wrapping_head :: "u64 \<Rightarrow> bytes" where
  "wrapping_head h = bcio_write_u32 (bcio_write_u32 (bcio_write_string
     (bcio_write_u32 (bcio_write_u32 (put_preamble h) 1) 0) []) 0) 0"

text \<open>One chunk whose code claims \<open>2^60 - 1\<close> instructions: sixteen times that is \<open>2^64 - 16\<close>.\<close>

definition wrapping_file :: "u64 \<Rightarrow> bytes" where
  "wrapping_file h = bcio_align (wrapping_head h) 8 @ le_bytes 8 (0x0FFFFFFFFFFFFFFF :: u64) @ le_bytes 8 (0 :: u64)"

lemma wrapping_lengths: "length (put_preamble h) = 16" "length (wrapping_head h) = 36" "length (wrapping_file h) = 56"
  by (simp_all add: wrapping_file_def wrapping_head_def put_preamble_def write_bytes bcio_write_string_def
      bcio_write_def align_pad pad_of_def)

lemma wrapping_count: "\<not> (0x0FFFFFFFFFFFFFFF :: u64) > - 1 div 16"
  by simp

lemma wrapping_array:
  "bcio_mmap_read_dyn_array (at (wrapping_file h) 36) 16
     = ((Some 56, 0x0FFFFFFFFFFFFFFF), at (wrapping_file h) 40)"
proof -
  let ?f = "wrapping_file h"
  have dat: "small ?f" by (simp add: small_def wrapping_lengths)
  have pos: "(if (8 - (r_pos (at ?f 36) mod 8)) mod 8 \<noteq> 0
      then snd (bcio_mmap_ptr (at ?f 36) ((8 - (r_pos (at ?f 36) mod 8)) mod 8)) else at ?f 36) = at ?f 40"
    using skip_pad [OF dat, of 36] by (simp add: wrapping_lengths pad_of_def Let_def)
  have hdr: "bcio_mmap_ptr (at ?f 40) 16 = (Some 40, at ?f 56)"
    using mmap_ptr_at [OF dat, of 16 40] by (simp add: wrapping_lengths)
  have "prefix (bcio_align (wrapping_head h) 8 @ le_bytes 8 (0x0FFFFFFFFFFFFFFF :: u64)) ?f"
    by (simp add: wrapping_file_def)
  from slice_mid [OF dat this] have count: "slice ?f 40 8 = le_bytes 8 (0x0FFFFFFFFFFFFFFF :: u64)"
    by (simp add: align_pad wrapping_lengths pad_of_def)
  have elems: "bcio_mmap_ptr (at ?f 56) 18446744073709551600 = (Some 56, at ?f 40)"
    by (simp add: bcio_mmap_ptr_def r_size_def wrapping_lengths at_def)
  show ?thesis
    unfolding bcio_mmap_read_dyn_array_def Let_def pos hdr
    using wrapping_count by (simp add: hdr count elems)
qed

lemma wrapping_head_reads:
  "read_chunk_head (at (wrapping_file h) 24)
     = (let (is, r) = (None, at (wrapping_file h) 40); (cs, r) = read_consts r in (([], 0, 0, is, cs), r))"
proof -
  let ?f = "wrapping_file h" and ?b = "bcio_write_u32 (bcio_write_u32 (put_preamble h) 1) 0"
  have dat: "small ?f" by (simp add: small_def wrapping_lengths)
  have pre: "prefix (wrapping_head h) ?f" by (simp add: wrapping_file_def align_pad)
  have p2: "prefix (bcio_write_u32 (bcio_write_string ?b []) 0) ?f"
    using pre u32c.put_prefix unfolding wrapping_head_def by (meson prefix_order.trans)
  have p1: "prefix (bcio_write_string ?b []) ?f"
    using p2 u32c.put_prefix by (meson prefix_order.trans)
  have l: "length ?b = 24" "length (bcio_write_string ?b []) = 28"
    "length (bcio_write_u32 (bcio_write_string ?b []) 0) = 32"
    by (simp_all add: write_bytes bcio_write_string_def bcio_write_def put_preamble_def)
  have r1: "bcio_mmap_read_string (at ?f 24) = ([], at ?f 28)"
    using strc.reads [OF _ dat p1] l by (simp add: str_ok_def)
  have r2: "bcio_mmap_read_u32 (at ?f 28) = (0, at ?f 32)"
    using u32c.reads [OF TrueI dat p2] l by simp
  have r3: "bcio_mmap_read_u32 (at ?f 32) = (0, at ?f 36)"
    using u32c.reads [OF TrueI dat pre [unfolded wrapping_head_def]] l
    by (simp add: wrapping_lengths flip: wrapping_head_def)
  have "read_code (at ?f 36) = (None, at ?f 40)"
    using wrapping_array [of h] by (simp add: read_code_def elems_at_def wrapping_lengths)
  then show ?thesis
    by (simp add: read_chunk_head_def r1 r2 r3)
qed

text \<open>
  C24: The bounds check of \<^verbatim>\<open>bcio_mmap_ptr\<close> wraps: in a file of 56 bytes whose only chunk claims
  \<open>2^60 - 1\<close> instructions the array is granted although it reaches past the address space, the cursor
  goes back to the array's own header, and the load goes on with code outside the mapping.
\<close>

theorem wrapping_count_leaves_mapping:
  "bcio_mmap_read_dyn_array (at (wrapping_file h) 36) 16
     = ((Some 56, 2 ^ 60 - 1), at (wrapping_file h) 40)
   \<and> length (wrapping_file h) = 56
   \<and> bc_program_load env (wrapping_file h) = Inl No_Continuation"
proof -
  let ?f = "wrapping_file h"
  have dat: "small ?f" by (simp add: small_def wrapping_lengths)
  have pre: "prefix (wrapping_head h) ?f" by (simp add: wrapping_file_def align_pad)
  have p: "prefix (bcio_write_u32 (bcio_write_u32 (put_preamble h) (of_nat 1)) (of_nat 0)) ?f"
    using pre u32c.put_prefix strc.put_prefix unfolding wrapping_head_def by (simp) (meson prefix_order.trans)
  have p0: "prefix (put_preamble h) ?f"
    using p u32c.put_prefix by (meson prefix_order.trans)
  have "load_chunk env 0 (at ?f 24) = Inl No_Continuation"
    by (simp add: load_chunk_def wrapping_head_reads split_beta Let_def)
  then have "load_body env h 1 0 (at ?f 24) = Inl No_Continuation"
    by (simp add: load_body_def numeral_eq_Suc)
  then have "bc_program_load env ?f = Inl No_Continuation"
    using counts_at [OF dat _ _ p, of env h]
    by (simp add: load_preamble [OF dat p0] wrapping_lengths Let_def)
  then show ?thesis
    by (simp add: wrapping_array wrapping_lengths)
qed

section \<open>Witnesses\<close>

lemma cache_round_trip_witness:
  "\<exists>file cs' bx. bc_program_save greet_program [log_import] 7 = Some file
    \<and> bc_program_load other_process file = Inr (7, \<lparr>pr_chunks = cs', pr_global_count = 0,
         pr_module_table = Some [\<lparr>mi_name = ''m/f'', mi_prog = 9, mi_fn_index = 4\<rparr>]\<rparr>, bx)
    \<and> list_all2 (relocated other_process file [log_import] bx) [greet_chunk] cs'"
proof -
  obtain image where s: "bc_program_save greet_program [log_import] 7 = Some image"
    using greet_saved by blast
  from cache_round_trip [OF s greet_save_ok greet_load_env_ok greet_small [OF s] greet_verified] s
  show ?thesis
    by (simp add: greet_fields resolved_import_def other_process_def)
qed

lemma truncated_cache_unusable_witness:
  "\<exists>file. bc_program_save greet_program [log_import] 7 = Some file \<and> file \<noteq> []
    \<and> bc_program_load other_process (butlast file) = Inl Unusable"
proof -
  obtain image where s: "bc_program_save greet_program [log_import] 7 = Some image"
    using greet_saved by blast
  have "image \<noteq> []"
    unfolding save_parts [OF s] by (simp add: greet_fields write_counted_def bcio_write_string_def bcio_write_def write_bytes)
  then have "strict_prefix (butlast image) image"
    by (metis append_butlast_last_id strict_prefixI')
  from truncated_cache_unusable [OF s greet_save_ok greet_load_env_ok greet_small [OF s] this]
  show ?thesis using s \<open>image \<noteq> []\<close> by blast
qed

lemma cached_signature_accepted_iff_witness:
  "\<exists>ms. bc_verify_host_import_signature (sig_of (''log'', log_import)) log_import = Some (True, ms)"
  by (rule cached_signature_accepted_iff [THEN iffD2])
    (simp add: log_fields plain_types is_direct_def)

lemma loaded_program_runs_in_code_witness:
  "\<exists>image prog bx vm. bc_program_load other_process image = Inr (7, prog, bx)
     \<and> bc_entry prog 0 [] (\<lambda>_. 0) demo_machine = Running vm
     \<and> bc_decode (ch_code (vm_chunk vm) ! unat (vm_pc vm)) \<noteq> None"
proof -
  obtain image where s: "bc_program_save greet_program [log_import] 7 = Some image"
    using greet_saved by blast
  obtain cs' bx where l: "bc_program_load other_process image = Inr (7, \<lparr>pr_chunks = cs', pr_global_count = 0,
         pr_module_table = Some [\<lparr>mi_name = ''m/f'', mi_prog = 9, mi_fn_index = 4\<rparr>]\<rparr>, bx)"
      "list_all2 (relocated other_process image [log_import] bx) [greet_chunk] cs'"
    using load_saved [OF s greet_save_ok greet_load_env_ok greet_small [OF s] greet_verified]
    by (auto simp: greet_fields resolved_import_def other_process_def)
  then obtain c' where c': "cs' = [c']" "relocated other_process image [log_import] bx greet_chunk c'"
    by (auto simp: list_all2_Cons1)
  let ?prog = "\<lparr>pr_chunks = cs', pr_global_count = 0,
         pr_module_table = Some [\<lparr>mi_name = ''m/f'', mi_prog = 9, mi_fn_index = 4\<rparr>]\<rparr>"
  obtain vm where e: "bc_entry ?prog 0 [] (\<lambda>_. 0) demo_machine = Running vm"
    using c' by (simp add: bc_entry_def relocated_def greet_fields BC_MAX_TOTAL_REGISTERS_def Let_def)
  have "bc_reachable undefined undefined 0 ?prog vm"
    using e by (rule bc_reachable.entry)
  from loaded_program_runs_in_code [OF l(1) this] show ?thesis using l(1) e by blast
qed

end
