(* ===== verification/Lexer.thy ===== *)
theory Lexer
  imports Base_String
begin

text \<open>
  \<^verbatim>\<open>lexer.c\<close>: source text to tokens.  The lexer is the cursor of the C structure; its loops end
  because each round advances over a character that is not NUL.
\<close>

section \<open>Tokens\<close>

datatype token_kind =
    TokenKind_EOF | TokenKind_LParen | TokenKind_RParen | TokenKind_LBracket | TokenKind_RBracket
  | TokenKind_LBrace | TokenKind_RBrace | TokenKind_Atom | TokenKind_String | TokenKind_Error

record token =
  tok_kind :: token_kind
  tok_text :: string
  tok_line :: u32
  tok_col :: u32
  tok_file_id :: u32

record lexer =
  lx_src :: string
  lx_pos :: nat
  lx_line :: u32
  lx_col :: u32
  lx_file_id :: u32

definition lexer_init :: "string \<Rightarrow> u32 \<Rightarrow> lexer" where
  "lexer_init src file_id = \<lparr>lx_src = src, lx_pos = 0, lx_line = 1, lx_col = 1, lx_file_id = file_id\<rparr>"

abbreviation NUL :: char where "NUL \<equiv> CHR 0x00"
abbreviation newline :: char where "newline \<equiv> CHR 0x0A"
abbreviation backslash :: char where "backslash \<equiv> CHR 0x5C"
abbreviation quote :: char where "quote \<equiv> CHR 0x22"

definition lexer_peek :: "lexer \<Rightarrow> char" where
  "lexer_peek lx = (if lx_pos lx < length (lx_src lx) then lx_src lx ! lx_pos lx else NUL)"

definition lexer_advance :: "lexer \<Rightarrow> lexer" where
  "lexer_advance lx =
     (let c = lexer_peek lx
      in if c \<noteq> NUL
         then (if c = newline
               then lx\<lparr>lx_pos := lx_pos lx + 1, lx_line := lx_line lx + 1, lx_col := 1\<rparr>
               else lx\<lparr>lx_pos := lx_pos lx + 1, lx_col := lx_col lx + 1\<rparr>)
         else lx)"

definition char_is_delim :: "char \<Rightarrow> bool" where
  "char_is_delim c \<longleftrightarrow> c = NUL \<or> char_is_space c \<or> c \<in> set ''()[]{}'' \<or> c = quote \<or> c = CHR 0x3B"

text \<open>What is left of the text; every loop below advances over a character that is not NUL.\<close>

definition lexer_left :: "lexer \<Rightarrow> nat" where
  "lexer_left lx = length (lx_src lx) - lx_pos lx"

lemma lexer_left_advance: "lexer_peek lx \<noteq> NUL \<Longrightarrow> lexer_left (lexer_advance lx) < lexer_left lx"
  by (auto simp: lexer_left_def lexer_advance_def lexer_peek_def Let_def split: if_splits)

function lexer_skip_while :: "(char \<Rightarrow> bool) \<Rightarrow> lexer \<Rightarrow> lexer" where
  "lexer_skip_while keep lx =
     (if lexer_peek lx \<noteq> NUL \<and> keep (lexer_peek lx)
      then lexer_skip_while keep (lexer_advance lx) else lx)"
  by pat_completeness auto
termination by (relation "measure (lexer_left \<circ> snd)") (simp_all add: lexer_left_advance)

declare lexer_skip_while.simps [simp del]

definition lexer_skip_comment :: "lexer \<Rightarrow> lexer" where
  "lexer_skip_comment = lexer_skip_while (\<lambda>c. c \<noteq> newline)"

lemma lexer_left_skip_while: "lexer_left (lexer_skip_while keep lx) \<le> lexer_left lx"
proof (induction keep lx rule: lexer_skip_while.induct)
  case (1 keep lx)
  then show ?case
    using lexer_left_advance [of lx] by (subst lexer_skip_while.simps) auto
qed

lemma space_semi_not_nul: "char_is_space c \<Longrightarrow> c \<noteq> NUL" "c = CHR 0x3B \<Longrightarrow> c \<noteq> NUL"
  by (auto simp: char_is_space_def)

lemma lexer_left_comment:
  assumes "lexer_peek lx = CHR 0x3B"
  shows "lexer_left (lexer_skip_comment lx) < lexer_left lx"
proof -
  have "lexer_left (lexer_skip_comment lx) = lexer_left (lexer_skip_comment (lexer_advance lx))"
    using assms unfolding lexer_skip_comment_def by (subst lexer_skip_while.simps) simp
  also have "\<dots> \<le> lexer_left (lexer_advance lx)"
    unfolding lexer_skip_comment_def by (rule lexer_left_skip_while)
  also have "\<dots> < lexer_left lx" using assms by (intro lexer_left_advance) simp
  finally show ?thesis .
qed

function lexer_skip_ignorable :: "lexer \<Rightarrow> lexer" where
  "lexer_skip_ignorable lx =
     (let c = lexer_peek lx
      in if char_is_space c then lexer_skip_ignorable (lexer_advance lx)
         else if c = CHR 0x3B then lexer_skip_ignorable (lexer_skip_comment lx)
         else lx)"
  by pat_completeness auto
termination
  by (relation "measure lexer_left")
    (simp_all add: lexer_left_advance lexer_left_comment space_semi_not_nul)

declare lexer_skip_ignorable.simps [simp del]

section \<open>Scanning a token\<close>

definition token_at :: "lexer \<Rightarrow> token_kind \<Rightarrow> string \<Rightarrow> u32 \<Rightarrow> u32 \<Rightarrow> token" where
  "token_at lx kind text line col =
     \<lparr>tok_kind = kind, tok_text = text, tok_line = line, tok_col = col, tok_file_id = lx_file_id lx\<rparr>"

definition decode_escape :: "char \<Rightarrow> char" where
  "decode_escape esc =
     (if esc = CHR ''n'' then newline else if esc = CHR ''t'' then CHR 0x09
      else if esc = CHR ''r'' then CHR 0x0D else if esc = CHR ''0'' then NUL
      else if esc = backslash then backslash else if esc = quote then quote else esc)"

lemma lexer_left_advance_le: "lexer_left (lexer_advance lx) \<le> lexer_left lx"
  by (auto simp: lexer_left_def lexer_advance_def Let_def)

text \<open>The loop over the characters of a literal; \<open>None\<close> when the text ends first.\<close>

function lexer_string_loop :: "lexer \<Rightarrow> string \<Rightarrow> string option \<times> lexer" where
  "lexer_string_loop lx buf =
     (let c = lexer_peek lx
      in if c = NUL then (None, lx)
         else if c = quote then (Some buf, lexer_advance lx)
         else if c = backslash
         then (let lx = lexer_advance lx; esc = lexer_peek lx
               in lexer_string_loop (lexer_advance lx) (buf @ [decode_escape esc]))
         else lexer_string_loop (lexer_advance lx) (buf @ [c]))"
  by pat_completeness auto

termination
proof (relation "measure (lexer_left \<circ> fst)", goal_cases)
  case (2 lx buf c lx' esc)
  then show ?case
    using le_less_trans [OF lexer_left_advance_le lexer_left_advance, of "lx"] by simp
next
  case (3 lx buf c)
  then show ?case using lexer_left_advance [of lx] by simp
qed simp

declare lexer_string_loop.simps [simp del]

definition lexer_read_string :: "lexer \<Rightarrow> u32 \<Rightarrow> u32 \<Rightarrow> token \<times> lexer" where
  "lexer_read_string lx line col =
     (case lexer_string_loop (lexer_advance lx) [] of
        (None, lx') \<Rightarrow> (token_at lx TokenKind_Error ''unterminated string literal'' line col, lx')
      | (Some text, lx') \<Rightarrow> (token_at lx TokenKind_String text line col, lx'))"

definition bracket_kind :: "char \<Rightarrow> token_kind option" where
  "bracket_kind c =
     (if c = CHR ''('' then Some TokenKind_LParen else if c = CHR '')'' then Some TokenKind_RParen
      else if c = CHR ''['' then Some TokenKind_LBracket else if c = CHR '']'' then Some TokenKind_RBracket
      else if c = CHR ''{'' then Some TokenKind_LBrace else if c = CHR ''}'' then Some TokenKind_RBrace
      else None)"

definition lexer_next :: "lexer \<Rightarrow> token \<times> lexer" where
  "lexer_next lx0 =
     (let lx = lexer_skip_ignorable lx0; line = lx_line lx; col = lx_col lx; c = lexer_peek lx
      in if c = NUL then (token_at lx TokenKind_EOF [] line col, lx)
         else case bracket_kind c of
           Some kind \<Rightarrow> (token_at lx kind [c] line col, lexer_advance lx)
         | None \<Rightarrow>
             if c = quote then lexer_read_string lx line col
             else let lx' = lexer_skip_while (\<lambda>c. \<not> char_is_delim c) lx
                  in (token_at lx TokenKind_Atom (str8_substr (lx_src lx) (lx_pos lx) (lx_pos lx')) line col, lx'))"

end
