(* ===== verification/Parser.thy ===== *)
theory Parser
  imports Lexer
begin

text \<open>
  \<^verbatim>\<open>parser.c\<close>: tokens to the untyped tree.  The tree is the pair of growing arrays of \<^verbatim>\<open>Ast\<close>, nodes
  and the child indices of all sequences, with indices at their 32-bit width.  A diagnostic is kept
  as its kind with the tokens it quotes.  The recursion of \<^verbatim>\<open>parse_expr\<close> consumes tokens, which is not
  visible in its equations: it is bounded by a fuel, and \<open>None\<close> means the fuel was not enough.
\<close>

section \<open>The tree\<close>

datatype ast_node_kind =
    AstNodeKind_Nil | AstNodeKind_Atom | AstNodeKind_String | AstNodeKind_List | AstNodeKind_Vector
  | AstNodeKind_Map

type_synonym node_index = u32

definition NODE_NIL :: node_index where "NODE_NIL = 0"

record ast_node =
  an_kind :: ast_node_kind
  an_first_child :: u32
  an_child_count :: u16
  an_token :: token

record ast =
  ast_nodes :: "ast_node list"
  ast_extra :: "node_index list"

definition zero_token :: token where
  "zero_token = \<lparr>tok_kind = TokenKind_EOF, tok_text = [], tok_line = 0, tok_col = 0, tok_file_id = 0\<rparr>"

definition ast_init :: ast where
  "ast_init = \<lparr>ast_nodes = [\<lparr>an_kind = AstNodeKind_Nil, an_first_child = 0, an_child_count = 0,
     an_token = zero_token\<rparr>], ast_extra = []\<rparr>"

definition ast_push_node :: "ast \<Rightarrow> ast_node \<Rightarrow> node_index \<times> ast" where
  "ast_push_node ast node =
     (of_nat (length (ast_nodes ast)), ast\<lparr>ast_nodes := ast_nodes ast @ [node]\<rparr>)"

definition ast_push_atom :: "ast \<Rightarrow> token \<Rightarrow> node_index \<times> ast" where
  "ast_push_atom ast tok =
     ast_push_node ast \<lparr>an_kind = AstNodeKind_Atom, an_first_child = 0, an_child_count = 0, an_token = tok\<rparr>"

definition ast_push_string :: "ast \<Rightarrow> token \<Rightarrow> node_index \<times> ast" where
  "ast_push_string ast tok =
     ast_push_node ast \<lparr>an_kind = AstNodeKind_String, an_first_child = 0, an_child_count = 0, an_token = tok\<rparr>"

definition ast_push_seq :: "ast \<Rightarrow> ast_node_kind \<Rightarrow> token \<Rightarrow> node_index list \<Rightarrow> u16 \<Rightarrow> node_index \<times> ast" where
  "ast_push_seq ast kind open_tok children count =
     (let first_child = of_nat (length (ast_extra ast));
          ast = ast\<lparr>ast_extra := ast_extra ast @ take (unat count) children\<rparr>
      in ast_push_node ast \<lparr>an_kind = kind, an_first_child = first_child, an_child_count = count,
           an_token = open_tok\<rparr>)"

text \<open>\<^verbatim>\<open>ast_get\<close> and \<^verbatim>\<open>ast_seq_children\<close>; an index outside its array has no defined value.\<close>

definition ast_get :: "ast \<Rightarrow> node_index \<Rightarrow> ast_node option" where
  "ast_get ast idx =
     (if unat idx < length (ast_nodes ast) then Some (ast_nodes ast ! unat idx) else None)"

definition is_seq_kind :: "ast_node_kind \<Rightarrow> bool" where
  "is_seq_kind k \<longleftrightarrow> k = AstNodeKind_List \<or> k = AstNodeKind_Vector \<or> k = AstNodeKind_Map"

definition ast_seq_children :: "ast \<Rightarrow> node_index \<Rightarrow> node_index list option" where
  "ast_seq_children ast idx =
     do { node \<leftarrow> ast_get ast idx;
          if is_seq_kind (an_kind node)
             \<and> unat (an_first_child node) + unat (an_child_count node) \<le> length (ast_extra ast)
          then Some (take (unat (an_child_count node)) (drop (unat (an_first_child node)) (ast_extra ast)))
          else None }"

section \<open>The parser\<close>

datatype diag =
    Unterminated token ast_node_kind
  | Mismatched_Closer token ast_node_kind token
  | Too_Many_Children token ast_node_kind nat
  | Unexpected_Closer token
  | Lexical_Error token
  | Unexpected_Token token

record parser =
  ps_lex :: lexer
  ps_cur :: token
  ps_ast :: ast
  ps_had_error :: bool
  ps_diags :: "diag list"

definition parser_advance :: "parser \<Rightarrow> parser" where
  "parser_advance p =
     (let (tok, lx) = lexer_next (ps_lex p) in p\<lparr>ps_lex := lx, ps_cur := tok\<rparr>)"

definition parser_init :: "string \<Rightarrow> ast \<Rightarrow> u32 \<Rightarrow> parser" where
  "parser_init src ast file_id =
     parser_advance \<lparr>ps_lex = lexer_init src file_id, ps_cur = zero_token, ps_ast = ast,
       ps_had_error = False, ps_diags = []\<rparr>"

definition token_is_any_closer :: "token_kind \<Rightarrow> bool" where
  "token_is_any_closer k \<longleftrightarrow> k = TokenKind_RParen \<or> k = TokenKind_RBracket \<or> k = TokenKind_RBrace"

definition parse_error :: "diag \<Rightarrow> parser \<Rightarrow> parser" where
  "parse_error d p = p\<lparr>ps_had_error := True, ps_diags := ps_diags p @ [d]\<rparr>"

definition with_ast :: "node_index \<times> ast \<Rightarrow> parser \<Rightarrow> node_index \<times> parser" where
  "with_ast r p = (fst r, p\<lparr>ps_ast := snd r\<rparr>)"

definition MAX_U16 :: nat where "MAX_U16 = 65535"

text \<open>The part of \<^verbatim>\<open>parse_bracketed\<close> after its loop.\<close>

definition finish_bracketed ::
  "token_kind \<Rightarrow> ast_node_kind \<Rightarrow> token \<Rightarrow> node_index list \<Rightarrow> parser \<Rightarrow> node_index \<times> parser" where
  "finish_bracketed close_kind node_kind open_tok children p =
     (let p = (if tok_kind (ps_cur p) = close_kind then parser_advance p else p);
          raw_count = length children;
          p = (if raw_count > MAX_U16 then parse_error (Too_Many_Children open_tok node_kind raw_count) p else p)
      in with_ast (ast_push_seq (ps_ast p) node_kind open_tok children (of_nat (min raw_count MAX_U16))) p)"

definition parse_unexpected :: "diag \<Rightarrow> parser \<Rightarrow> node_index \<times> parser" where
  "parse_unexpected d p = (NODE_NIL, parser_advance (parse_error d p))"

fun parse_bracketed :: "nat \<Rightarrow> token_kind \<Rightarrow> ast_node_kind \<Rightarrow> parser \<Rightarrow> (node_index \<times> parser) option"
and parse_children :: "nat \<Rightarrow> token_kind \<Rightarrow> ast_node_kind \<Rightarrow> token \<Rightarrow> node_index list \<Rightarrow> parser
      \<Rightarrow> (node_index list \<times> parser) option"
and parse_expr :: "nat \<Rightarrow> parser \<Rightarrow> (node_index \<times> parser) option" where
  "parse_bracketed 0 close_kind node_kind p = None"
| "parse_bracketed (Suc n) close_kind node_kind p =
     (let open_tok = ps_cur p
      in case parse_children n close_kind node_kind open_tok [] (parser_advance p) of
           None \<Rightarrow> None
         | Some (children, p) \<Rightarrow> Some (finish_bracketed close_kind node_kind open_tok children p))"
| "parse_children 0 close_kind node_kind open_tok children p = None"
| "parse_children (Suc n) close_kind node_kind open_tok children p =
     (if tok_kind (ps_cur p) = close_kind then Some (children, p)
      else if tok_kind (ps_cur p) = TokenKind_EOF
      then Some (children, parse_error (Unterminated open_tok node_kind) p)
      else if token_is_any_closer (tok_kind (ps_cur p))
      then Some (children, parse_error (Mismatched_Closer (ps_cur p) node_kind open_tok) p)
      else case parse_expr n p of
             None \<Rightarrow> None
           | Some (child, p) \<Rightarrow> parse_children n close_kind node_kind open_tok (children @ [child]) p)"
| "parse_expr 0 p = None"
| "parse_expr (Suc n) p =
     (case tok_kind (ps_cur p) of
        TokenKind_LParen \<Rightarrow> parse_bracketed n TokenKind_RParen AstNodeKind_List p
      | TokenKind_LBracket \<Rightarrow> parse_bracketed n TokenKind_RBracket AstNodeKind_Vector p
      | TokenKind_LBrace \<Rightarrow> parse_bracketed n TokenKind_RBrace AstNodeKind_Map p
      | TokenKind_Atom \<Rightarrow>
          Some (let (i, p) = with_ast (ast_push_atom (ps_ast p) (ps_cur p)) p in (i, parser_advance p))
      | TokenKind_String \<Rightarrow>
          Some (let (i, p) = with_ast (ast_push_string (ps_ast p) (ps_cur p)) p in (i, parser_advance p))
      | TokenKind_RParen \<Rightarrow> Some (parse_unexpected (Unexpected_Closer (ps_cur p)) p)
      | TokenKind_RBracket \<Rightarrow> Some (parse_unexpected (Unexpected_Closer (ps_cur p)) p)
      | TokenKind_RBrace \<Rightarrow> Some (parse_unexpected (Unexpected_Closer (ps_cur p)) p)
      | TokenKind_Error \<Rightarrow> Some (parse_unexpected (Lexical_Error (ps_cur p)) p)
      | TokenKind_EOF \<Rightarrow> Some (parse_unexpected (Unexpected_Token (ps_cur p)) p))"

text \<open>\<^verbatim>\<open>parse_program\<close>: the loop over the top-level forms, then the root list; a count above 65535 is
  clamped without a diagnostic.\<close>

fun parse_forms :: "nat \<Rightarrow> node_index list \<Rightarrow> parser \<Rightarrow> (node_index list \<times> parser) option" where
  "parse_forms 0 children p = None"
| "parse_forms (Suc n) children p =
     (if tok_kind (ps_cur p) = TokenKind_EOF then Some (children, p)
      else case parse_expr n p of
             None \<Rightarrow> None
           | Some (child, p) \<Rightarrow> parse_forms n (children @ [child]) p)"

definition synth_open :: token where
  "synth_open = zero_token\<lparr>tok_line := 1, tok_col := 1\<rparr>"

definition parse_program :: "nat \<Rightarrow> parser \<Rightarrow> (node_index \<times> parser) option" where
  "parse_program n p =
     (case parse_forms n [] p of
        None \<Rightarrow> None
      | Some (children, p) \<Rightarrow>
          Some (with_ast (ast_push_seq (ps_ast p) AstNodeKind_List synth_open children
             (of_nat (min (length children) MAX_U16))) p))"

section \<open>The debug printer\<close>

definition ast_node_kind_name :: "ast_node_kind \<Rightarrow> string" where
  "ast_node_kind_name k =
     (case k of
        AstNodeKind_Nil \<Rightarrow> ''Nil'' | AstNodeKind_Atom \<Rightarrow> ''Atom'' | AstNodeKind_String \<Rightarrow> ''String''
      | AstNodeKind_List \<Rightarrow> ''List'' | AstNodeKind_Vector \<Rightarrow> ''Vector'' | AstNodeKind_Map \<Rightarrow> ''Map'')"

definition position_text :: "token \<Rightarrow> string" where
  "position_text tok = ''('' @ dec (unat (tok_line tok)) @ '':'' @ dec (unat (tok_col tok)) @ '')'' @ [newline]"

text \<open>\<^verbatim>\<open>%.*s\<close> stops at a NUL.\<close>

definition printf_text :: "string \<Rightarrow> string" where
  "printf_text s = takeWhile (\<lambda>c. c \<noteq> NUL) s"

text \<open>The text \<^verbatim>\<open>ast_print\<close> prints, to a given depth of the tree.\<close>

fun ast_print :: "nat \<Rightarrow> ast \<Rightarrow> node_index \<Rightarrow> nat \<Rightarrow> string option" where
  "ast_print 0 ast idx depth = None"
| "ast_print (Suc n) ast idx depth =
     do { node \<leftarrow> ast_get ast idx;
          let pad = concat (replicate depth ''  '');
          if an_kind node = AstNodeKind_Atom
          then Some (pad @ ''Atom `'' @ printf_text (tok_text (an_token node)) @ ''`  '' @ position_text (an_token node))
          else if an_kind node = AstNodeKind_String
          then Some (pad @ ''String '' @ [quote] @ printf_text (tok_text (an_token node)) @ [quote] @ ''  '' @ position_text (an_token node))
          else if is_seq_kind (an_kind node)
          then do { children \<leftarrow> ast_seq_children ast idx;
                    let texts = map (\<lambda>child. ast_print n ast child (depth + 1)) children;
                    if None \<in> set texts then None
                    else Some (pad @ ast_node_kind_name (an_kind node) @ '' ['' @ dec (unat (an_child_count node))
                           @ '' children]  '' @ position_text (an_token node) @ concat (map the texts)) }
          else Some (pad @ ast_node_kind_name (an_kind node) @ [newline]) }"

end
