(* ===== verification/Lexer_Props.thy ===== *)
theory Lexer_Props
  imports Parser
begin

text \<open>
  What the lexer does, stated on the text that is left instead of a cursor: a specification by
  structural recursion that the code refines, the positions of tokens, and the end of every stream.
\<close>

section \<open>The rest of the text\<close>

definition rest_of :: "lexer \<Rightarrow> string" where
  "rest_of lx = drop (lx_pos lx) (lx_src lx)"

fun first_char :: "string \<Rightarrow> char" where
  "first_char [] = NUL"
| "first_char (c # s) = c"

lemma peek_rest: "lexer_peek lx = first_char (rest_of lx)"
proof (cases "lx_pos lx < length (lx_src lx)")
  case True
  then show ?thesis by (simp add: lexer_peek_def rest_of_def Cons_nth_drop_Suc [symmetric])
qed (simp add: lexer_peek_def rest_of_def)

lemma advance_rest:
  "rest_of (lexer_advance lx) = (if first_char (rest_of lx) = NUL then rest_of lx else tl (rest_of lx))"
  by (simp add: lexer_advance_def peek_rest [symmetric] Let_def) (simp add: rest_of_def drop_Suc tl_drop)

lemma advance_src [simp]: "lx_src (lexer_advance lx) = lx_src lx" "lx_file_id (lexer_advance lx) = lx_file_id lx"
  by (simp_all add: lexer_advance_def Let_def)

lemma left_rest: "lexer_left lx = length (rest_of lx)"
  by (simp add: lexer_left_def rest_of_def)

section \<open>Specification\<close>

definition live :: "char \<Rightarrow> bool" where "live c \<longleftrightarrow> c \<noteq> NUL"

fun spec_skip :: "string \<Rightarrow> string"
and spec_skip_line :: "string \<Rightarrow> string" where
  "spec_skip [] = []"
| "spec_skip (c # s) = (if char_is_space c then spec_skip s else if c = CHR 0x3B then spec_skip_line s else c # s)"
| "spec_skip_line [] = []"
| "spec_skip_line (c # s) = (if c = NUL then c # s else if c = newline then spec_skip s else spec_skip_line s)"

fun spec_string :: "string \<Rightarrow> string \<Rightarrow> string option \<times> string" where
  "spec_string [] buf = (None, [])"
| "spec_string (c # s) buf =
     (if c = NUL then (None, c # s)
      else if c = quote then (Some buf, s)
      else if c = backslash
      then (case s of [] \<Rightarrow> (None, [])
            | e # s' \<Rightarrow> if e = NUL then (None, s) else spec_string s' (buf @ [decode_escape e]))
      else spec_string s (buf @ [c]))"

type_synonym lexeme = "token_kind \<times> string"

definition spec_next :: "string \<Rightarrow> lexeme \<times> string" where
  "spec_next s0 =
     (let s = spec_skip s0; c = first_char s
      in if c = NUL then ((TokenKind_EOF, []), s)
         else case bracket_kind c of
           Some kind \<Rightarrow> ((kind, [c]), tl s)
         | None \<Rightarrow>
             if c = quote
             then (case spec_string (tl s) [] of
                     (None, s') \<Rightarrow> ((TokenKind_Error, ''unterminated string literal''), s')
                   | (Some text, s') \<Rightarrow> ((TokenKind_String, text), s'))
             else ((TokenKind_Atom, takeWhile (\<lambda>c. \<not> char_is_delim c) s), dropWhile (\<lambda>c. \<not> char_is_delim c) s))"

definition lexeme_of :: "token \<Rightarrow> lexeme" where
  "lexeme_of tok = (tok_kind tok, tok_text tok)"

section \<open>The lexer refines it\<close>

lemma skip_while_rest:
  "rest_of (lexer_skip_while keep lx) = dropWhile (\<lambda>c. c \<noteq> NUL \<and> keep c) (rest_of lx)
   \<and> lx_src (lexer_skip_while keep lx) = lx_src lx \<and> lx_file_id (lexer_skip_while keep lx) = lx_file_id lx
   \<and> lx_pos lx \<le> lx_pos (lexer_skip_while keep lx)"
proof (induction keep lx rule: lexer_skip_while.induct)
  case (1 keep lx)
  show ?case
  proof (cases "lexer_peek lx \<noteq> NUL \<and> keep (lexer_peek lx)")
    case True
    then have "rest_of lx = lexer_peek lx # rest_of (lexer_advance lx)"
      by (cases "rest_of lx") (auto simp: peek_rest advance_rest)
    moreover have "lx_pos lx \<le> lx_pos (lexer_advance lx)" by (simp add: lexer_advance_def Let_def)
    ultimately show ?thesis using 1 True by (subst (1 2 3 4) lexer_skip_while.simps) auto
  next
    case False
    then have "dropWhile (\<lambda>c. c \<noteq> NUL \<and> keep c) (rest_of lx) = rest_of lx"
      by (cases "rest_of lx") (auto simp: peek_rest)
    then show ?thesis using False by (subst (1 2 3 4) lexer_skip_while.simps) auto
  qed
qed

lemma spec_skip_line_drop: "spec_skip_line s = spec_skip (dropWhile (\<lambda>c. c \<noteq> NUL \<and> c \<noteq> newline) s)"
proof (induction s)
  case (Cons c s)
  then show ?case by (auto simp: char_is_space_def)
qed simp

lemma skip_ignorable_rest:
  "rest_of (lexer_skip_ignorable lx) = spec_skip (rest_of lx)
   \<and> lx_src (lexer_skip_ignorable lx) = lx_src lx \<and> lx_file_id (lexer_skip_ignorable lx) = lx_file_id lx"
proof (induction lx rule: lexer_skip_ignorable.induct)
  case (1 lx)
  show ?case
  proof (cases "rest_of lx")
    case Nil
    then show ?thesis
      by (subst (1 2 3) lexer_skip_ignorable.simps) (simp add: peek_rest char_is_space_def)
  next
    case (Cons c s)
    consider "char_is_space c" | "\<not> char_is_space c" "c = CHR 0x3B" | "\<not> char_is_space c" "c \<noteq> CHR 0x3B" by blast
    then show ?thesis
    proof cases
      case 1
      then show ?thesis
        using "1.IH"(1) Cons space_semi_not_nul
        by (subst (1 2 3) lexer_skip_ignorable.simps) (simp add: peek_rest advance_rest)
    next
      case 2
      then have "rest_of (lexer_skip_comment lx) = dropWhile (\<lambda>c. c \<noteq> NUL \<and> c \<noteq> newline) (c # s)"
        using skip_while_rest [of "\<lambda>c. c \<noteq> newline" lx] Cons by (simp add: lexer_skip_comment_def)
      then show ?thesis
        using "1.IH"(2) Cons 2 skip_while_rest [of "\<lambda>c. c \<noteq> newline" lx]
        by (subst (1 2 3) lexer_skip_ignorable.simps)
          (simp add: peek_rest spec_skip_line_drop lexer_skip_comment_def)
    next
      case 3
      then show ?thesis
        using Cons by (subst (1 2 3) lexer_skip_ignorable.simps) (simp add: peek_rest)
    qed
  qed
qed

lemma string_loop_rest:
  "(case lexer_string_loop lx buf of (res, lx') \<Rightarrow> (res, rest_of lx')) = spec_string (rest_of lx) buf
   \<and> lx_src (snd (lexer_string_loop lx buf)) = lx_src lx"
proof (induction lx buf rule: lexer_string_loop.induct)
  case (1 lx buf)
  show ?case
  proof (cases "rest_of lx")
    case Nil
    then show ?thesis by (subst (1 2) lexer_string_loop.simps) (simp add: peek_rest)
  next
    case (Cons c s)
    consider "c = NUL" | "c = quote" | "c = backslash" | "c \<noteq> NUL" "c \<noteq> quote" "c \<noteq> backslash" by blast
    then show ?thesis
    proof cases
      case 3
      let ?l1 = "lexer_advance lx"
      have r1: "rest_of ?l1 = s" using Cons 3 by (simp add: advance_rest)
      have step: "lexer_string_loop lx buf =
          lexer_string_loop (lexer_advance ?l1) (buf @ [decode_escape (lexer_peek ?l1)])"
        using Cons 3 by (subst lexer_string_loop.simps) (simp add: peek_rest Let_def)
      have ih: "(case lexer_string_loop (lexer_advance ?l1) (buf @ [decode_escape (lexer_peek ?l1)]) of
            (res, lx') \<Rightarrow> (res, rest_of lx'))
          = spec_string (rest_of (lexer_advance ?l1)) (buf @ [decode_escape (lexer_peek ?l1)])
        \<and> lx_src (snd (lexer_string_loop (lexer_advance ?l1) (buf @ [decode_escape (lexer_peek ?l1)])))
          = lx_src (lexer_advance ?l1)"
        using 1(1) [OF refl _ _ _ refl refl] Cons 3 by (simp add: peek_rest)
      have "spec_string (rest_of (lexer_advance ?l1)) (buf @ [decode_escape (lexer_peek ?l1)])
          = spec_string (rest_of lx) buf"
        using Cons 3 r1 by (cases s) (auto simp: advance_rest peek_rest)
      then show ?thesis using ih by (simp add: step)
    qed (use 1 Cons in \<open>(subst (1 2) lexer_string_loop.simps, simp add: peek_rest advance_rest Let_def)+\<close>)
  qed
qed

lemma str8_substr_drop: "lo \<le> hi \<Longrightarrow> str8_substr s lo hi = take (hi - lo) (drop lo s)"
  by (cases "hi \<le> length s"; cases "lo \<le> length s") (auto simp: str8_substr_def min_def)

lemma not_delim_live: "\<not> char_is_delim c \<Longrightarrow> c \<noteq> NUL"
  by (auto simp: char_is_delim_def)

lemma atom_text:
  assumes "lx' = lexer_skip_while (\<lambda>c. \<not> char_is_delim c) lx"
  shows "str8_substr (lx_src lx) (lx_pos lx) (lx_pos lx') = takeWhile (\<lambda>c. \<not> char_is_delim c) (rest_of lx)
    \<and> rest_of lx' = dropWhile (\<lambda>c. \<not> char_is_delim c) (rest_of lx)"
proof -
  note sk = skip_while_rest [of "\<lambda>c. \<not> char_is_delim c" lx, folded assms]
  have pred: "(\<lambda>c. c \<noteq> NUL \<and> \<not> char_is_delim c) = (\<lambda>c. \<not> char_is_delim c)"
    using not_delim_live by auto
  have r: "rest_of lx' = dropWhile (\<lambda>c. \<not> char_is_delim c) (rest_of lx)" using sk pred by simp
  have "rest_of lx' = drop (lx_pos lx' - lx_pos lx) (rest_of lx)"
    using sk by (simp add: rest_of_def)
  then have "rest_of lx = take (lx_pos lx' - lx_pos lx) (rest_of lx) @ rest_of lx'"
    by (metis append_take_drop_id)
  then have "take (lx_pos lx' - lx_pos lx) (rest_of lx) = takeWhile (\<lambda>c. \<not> char_is_delim c) (rest_of lx)"
    using r by (metis append_same_eq takeWhile_dropWhile_id)
  then show ?thesis using sk r by (simp add: str8_substr_drop rest_of_def)
qed

lemma lexer_next_spec:
  "(lexeme_of (fst (lexer_next lx)), rest_of (snd (lexer_next lx))) = spec_next (rest_of lx)
   \<and> lx_src (snd (lexer_next lx)) = lx_src lx"
proof -
  let ?l = "lexer_skip_ignorable lx"
  have sk: "rest_of ?l = spec_skip (rest_of lx)" "lx_src ?l = lx_src lx"
    using skip_ignorable_rest [of lx] by auto
  let ?c = "first_char (rest_of ?l)"
  consider "?c = NUL" | k where "?c \<noteq> NUL" "bracket_kind ?c = Some k"
    | "?c \<noteq> NUL" "bracket_kind ?c = None" "?c = quote" | "?c \<noteq> NUL" "bracket_kind ?c = None" "?c \<noteq> quote" by blast
  then show ?thesis
  proof cases
    case 3
    then show ?thesis
      using string_loop_rest [of "lexer_advance ?l" "[]"] sk
      by (auto simp: lexer_next_def spec_next_def peek_rest Let_def lexer_read_string_def advance_rest lexeme_of_def
          token_at_def split: prod.splits option.splits)
  next
    case 4
    then show ?thesis
      using atom_text [OF refl, of ?l] sk skip_while_rest [of "\<lambda>c. \<not> char_is_delim c" ?l]
      by (auto simp: lexer_next_def spec_next_def peek_rest Let_def lexeme_of_def token_at_def)
  qed (use sk in \<open>auto simp: lexer_next_def spec_next_def peek_rest Let_def advance_rest lexeme_of_def token_at_def\<close>)
qed

section \<open>The specification consumes\<close>

lemma spec_skip_length: "length (spec_skip s) \<le> length s" "length (spec_skip_line s) \<le> length s"
  by (induction s and s rule: spec_skip_spec_skip_line.induct) (simp_all add: le_SucI)

lemma spec_string_length: "length (snd (spec_string s buf)) \<le> length s"
proof (induction s buf rule: spec_string.induct)
  case (2 c s buf)
  then show ?case by (cases s) (simp_all add: le_SucI)
qed simp

lemma first_char_Cons: "first_char s \<noteq> NUL \<Longrightarrow> s = first_char s # tl s"
  by (cases s) auto

lemma bracket_or_delim:
  "char_is_delim c \<longleftrightarrow> c = NUL \<or> char_is_space c \<or> bracket_kind c \<noteq> None \<or> c = quote \<or> c = CHR 0x3B"
  by (auto simp: char_is_delim_def bracket_kind_def)

lemma bracket_kind_range:
  "bracket_kind c = Some k \<Longrightarrow> k \<notin> {TokenKind_EOF, TokenKind_Atom, TokenKind_String, TokenKind_Error}"
  by (simp add: bracket_kind_def split: if_splits)

lemma spec_skip_first: "s' = spec_skip s \<Longrightarrow> \<not> char_is_space (first_char s') \<and> first_char s' \<noteq> CHR 0x3B"
  "s'' = spec_skip_line s \<Longrightarrow> \<not> char_is_space (first_char s'') \<and> first_char s'' \<noteq> CHR 0x3B"
proof (induction s and s arbitrary: s' and s'' rule: spec_skip_spec_skip_line.induct)
qed (auto simp: char_is_space_def)

lemma spec_next_progress:
  assumes "spec_next s = ((k, t), s')"
  shows "k \<noteq> TokenKind_EOF \<Longrightarrow> length s' < length s" "k = TokenKind_EOF \<Longrightarrow> t = [] \<and> first_char s' = NUL \<and> spec_skip s' = s'"
proof -
  let ?u = "spec_skip s"
  have f: "\<not> char_is_space (first_char ?u)" "first_char ?u \<noteq> CHR 0x3B" using spec_skip_first(1) [OF refl, of s] by auto
  have l: "length ?u \<le> length s" by (rule spec_skip_length)
  have lt: "length (tl ?u) < length s" if "first_char ?u \<noteq> NUL"
    using first_char_Cons [OF that] l by (metis Suc_le_lessD le_less_trans length_Cons lessI not_less_eq order_less_le_trans)
  show "length s' < length s" if "k \<noteq> TokenKind_EOF"
  proof (cases "first_char ?u = NUL")
    case True
    then show ?thesis using assms that by (simp add: spec_next_def Let_def)
  next
    case False
    have "length (dropWhile (\<lambda>c. \<not> char_is_delim c) ?u) < length s"
      if "bracket_kind (first_char ?u) = None" "first_char ?u \<noteq> quote"
    proof -
      have "\<not> char_is_delim (first_char ?u)" using that False f by (simp add: bracket_or_delim)
      then have "dropWhile (\<lambda>c. \<not> char_is_delim c) ?u = dropWhile (\<lambda>c. \<not> char_is_delim c) (tl ?u)"
        by (subst first_char_Cons [OF False]) simp
      then show ?thesis using lt [OF False] length_dropWhile_le [of _ "tl ?u"] by (metis le_less_trans)
    qed
    then show ?thesis
      using assms False lt [OF False] spec_string_length [of "tl ?u" "[]"]
      by (auto simp: spec_next_def Let_def split: option.splits if_splits prod.splits)
  qed
  show "t = [] \<and> first_char s' = NUL \<and> spec_skip s' = s'" if "k = TokenKind_EOF"
  proof -
    have "first_char ?u = NUL \<and> s' = ?u \<and> t = []"
      using assms that
      by (auto simp: spec_next_def Let_def bracket_kind_def split: option.splits if_splits prod.splits)
    moreover have "spec_skip ?u = ?u" using f by (cases ?u) auto
    ultimately show ?thesis by simp
  qed
qed

section \<open>The stream of tokens\<close>

lemma lexer_next_progress:
  assumes "tok_kind (fst (lexer_next lx)) \<noteq> TokenKind_EOF"
  shows "length (rest_of (snd (lexer_next lx))) < length (rest_of lx)"
proof -
  obtain k t s' where sp: "spec_next (rest_of lx) = ((k, t), s')" by (metis surj_pair)
  then have "k = tok_kind (fst (lexer_next lx))" "s' = rest_of (snd (lexer_next lx))"
    using lexer_next_spec [of lx] by (auto simp: lexeme_of_def)
  then show ?thesis using spec_next_progress(1) [OF sp] assms by simp
qed

text \<open>The tokens a client reads with \<^verbatim>\<open>lexer_next\<close> until it sees the end of the text.\<close>

function tokens_from :: "lexer \<Rightarrow> token list" where
  "tokens_from lx =
     (let r = lexer_next lx
      in fst r # (if tok_kind (fst r) = TokenKind_EOF then [] else tokens_from (snd r)))"
  by pat_completeness auto
termination
  by (relation "measure (\<lambda>lx. length (rest_of lx))") (simp_all add: lexer_next_progress)

declare tokens_from.simps [simp del]

lemma tokens_from_ends:
  "tokens_from lx = butlast (tokens_from lx) @ [last (tokens_from lx)]
   \<and> tok_kind (last (tokens_from lx)) = TokenKind_EOF
   \<and> TokenKind_EOF \<notin> tok_kind ` set (butlast (tokens_from lx))
   \<and> length (tokens_from lx) \<le> Suc (length (rest_of lx))"
proof (induction lx rule: tokens_from.induct)
  case (1 lx)
  show ?case
  proof (cases "tok_kind (fst (lexer_next lx)) = TokenKind_EOF")
    case True
    then show ?thesis by (subst (1 2 3 4 5 6) tokens_from.simps) (simp add: Let_def)
  next
    case False
    then have eq: "tokens_from lx = fst (lexer_next lx) # tokens_from (snd (lexer_next lx))"
      by (subst tokens_from.simps) (simp add: Let_def)
    have ne: "tokens_from (snd (lexer_next lx)) \<noteq> []"
      by (subst tokens_from.simps) (simp add: Let_def)
    show ?thesis
      using 1 [OF refl False] lexer_next_progress [OF False] ne False unfolding eq by auto
  qed
qed

text \<open>At the end of the text the lexer stays: every further call is again the end.\<close>

lemma lexer_next_stays:
  assumes "tok_kind (fst (lexer_next lx)) = TokenKind_EOF"
  shows "lexeme_of (fst (lexer_next (snd (lexer_next lx)))) = (TokenKind_EOF, [])
    \<and> rest_of (snd (lexer_next (snd (lexer_next lx)))) = rest_of (snd (lexer_next lx))"
proof -
  obtain k t s' where sp: "spec_next (rest_of lx) = ((k, t), s')" by (metis surj_pair)
  then have k: "k = TokenKind_EOF" and s: "s' = rest_of (snd (lexer_next lx))"
    using lexer_next_spec [of lx] assms by (auto simp: lexeme_of_def)
  have "spec_next s' = ((TokenKind_EOF, []), s')"
    using spec_next_progress(2) [OF sp k] by (simp add: spec_next_def)
  then show ?thesis using lexer_next_spec [of "snd (lexer_next lx)"] s by auto
qed

end
