(* ===== verification/Parser_Props.thy ===== *)
theory Parser_Props
  imports Lexer_Props
begin

text \<open>
  What the parser does: it always returns (the fuel is bounded by the text), its tree is well formed
  on every input, and without an error the token stream is exactly the bracket notation of the tree.
\<close>

section \<open>Progress\<close>

text \<open>The tokens still to come, the current one first.\<close>

definition stream :: "parser \<Rightarrow> token list" where
  "stream p = (if tok_kind (ps_cur p) = TokenKind_EOF then [ps_cur p] else ps_cur p # tokens_from (ps_lex p))"

lemma stream_ne [simp]: "stream p \<noteq> []" by (simp add: stream_def)

lemma stream_cur: "hd (stream p) = ps_cur p" by (simp add: stream_def)

lemma tokens_from_ne [simp]: "tokens_from lx \<noteq> []"
  by (subst tokens_from.simps) (simp add: Let_def)

lemma stream_advance:
  "tok_kind (ps_cur p) \<noteq> TokenKind_EOF \<Longrightarrow> stream p = ps_cur p # stream (parser_advance p)"
  by (simp add: stream_def parser_advance_def case_prod_beta tokens_from.simps [of "ps_lex p"] Let_def)

lemma stream_init: "stream (parser_init src ast fid) = tokens_from (lexer_init src fid)"
  by (simp add: parser_init_def stream_def parser_advance_def case_prod_beta
      tokens_from.simps [of "lexer_init src fid"] Let_def)

definition todo :: "parser \<Rightarrow> nat" where
  "todo p = length (stream p) - 1"

lemma todo_advance:
  "tok_kind (ps_cur p) \<noteq> TokenKind_EOF \<Longrightarrow> todo p = Suc (todo (parser_advance p))"
  by (cases "stream (parser_advance p)") (simp_all add: todo_def stream_advance)

lemma todo_pos: "0 < todo p \<longleftrightarrow> tok_kind (ps_cur p) \<noteq> TokenKind_EOF"
  by (cases "tokens_from (ps_lex p)") (auto simp: todo_def stream_def)

lemma todo_ast [simp]: "todo (p\<lparr>ps_ast := a\<rparr>) = todo p" "todo (parse_error d p) = todo p"
  by (simp_all add: todo_def stream_def parse_error_def)

lemma stream_ast [simp]: "stream (p\<lparr>ps_ast := a\<rparr>) = stream p" "stream (parse_error d p) = stream p"
  by (simp_all add: stream_def parse_error_def)

lemma advance_error [simp]:
  "parser_advance (parse_error d p) = parse_error d (parser_advance p)"
  by (simp add: parser_advance_def parse_error_def case_prod_beta)

lemma parse_error_simps [simp]:
  "ps_cur (parse_error d p) = ps_cur p" "ps_ast (parse_error d p) = ps_ast p" "ps_had_error (parse_error d p)"
  by (simp_all add: parse_error_def)

lemma parser_advance_simps [simp]:
  "ps_ast (parser_advance p) = ps_ast p" "ps_had_error (parser_advance p) = ps_had_error p"
  "ps_diags (parser_advance p) = ps_diags p"
  "parser_advance (p\<lparr>ps_ast := a\<rparr>) = (parser_advance p)\<lparr>ps_ast := a\<rparr>"
  by (simp_all add: parser_advance_def case_prod_beta)

lemma todo_advance_le: "todo (parser_advance p) \<le> todo p" if "tok_kind (ps_cur p) \<noteq> TokenKind_EOF"
  using todo_advance [OF that] by simp

lemma with_ast_simps [simp]: "fst (with_ast r p) = fst r" "snd (with_ast r p) = p\<lparr>ps_ast := snd r\<rparr>"
  by (simp_all add: with_ast_def)

text \<open>An expression that starts before the end of the text consumes a token.\<close>

lemma finish_todo: "todo (snd (finish_bracketed ck nk ot ch p)) \<le> todo p" if "ck \<noteq> TokenKind_EOF"
  using that todo_advance_le [of p]
  by (cases "tok_kind (ps_cur p) = ck") (simp_all add: finish_bracketed_def Let_def)

lemma parse_consumes:
  "parse_bracketed n ck nk p = Some r \<Longrightarrow> ck \<noteq> TokenKind_EOF \<Longrightarrow> tok_kind (ps_cur p) \<noteq> TokenKind_EOF
     \<Longrightarrow> todo (snd r) < todo p"
  "parse_children n ck nk ot ch p = Some r' \<Longrightarrow> todo (snd r') \<le> todo p"
  "parse_expr n p = Some r \<Longrightarrow> tok_kind (ps_cur p) \<noteq> TokenKind_EOF \<Longrightarrow> todo (snd r) < todo p"
proof (induction n ck nk p and n ck nk ot ch p and n p arbitrary: r and r' and r
    rule: parse_bracketed_parse_children_parse_expr.induct)
  case (2 n ck nk p)
  then obtain ch q where q: "parse_children n ck nk (ps_cur p) [] (parser_advance p) = Some (ch, q)"
    and r: "r = finish_bracketed ck nk (ps_cur p) ch q"
    by (auto simp: Let_def split: option.splits)
  show ?case
    using "2.IH" [OF refl q] finish_todo [OF "2.prems"(2), of nk "ps_cur p" ch q] todo_advance [OF "2.prems"(3)]
    unfolding r by simp
next
  case (4 n ck nk ot ch p)
  show ?case
  proof (cases "tok_kind (ps_cur p) = ck \<or> tok_kind (ps_cur p) = TokenKind_EOF \<or> token_is_any_closer (tok_kind (ps_cur p))")
    case True
    then show ?thesis using "4.prems" by (auto split: if_splits)
  next
    case False
    then obtain i q where e: "parse_expr n p = Some (i, q)"
      and c: "parse_children n ck nk ot (ch @ [i]) q = Some r'"
      using "4.prems" by (auto split: option.splits)
    show ?thesis using "4.IH"(1) [OF _ _ _ e] "4.IH"(2) [OF _ _ _ e refl c] False by simp
  qed
next
  case (6 n p)
  have a: "todo (parser_advance p) < todo p" using todo_advance [OF "6.prems"(2)] by simp
  show ?case
  proof (cases "token_is_any_closer (tok_kind (ps_cur p))")
    case True
    then show ?thesis using "6.prems" a
      by (auto simp: token_is_any_closer_def parse_unexpected_def)
  next
    case False
    then show ?thesis
      using "6.prems" "6.IH" a
      by (cases "tok_kind (ps_cur p)") (auto simp: parse_unexpected_def token_is_any_closer_def Let_def case_prod_beta)
  qed
qed simp_all

section \<open>The fuel is enough\<close>

lemma parse_defined:
  "3 * todo p + 2 \<le> n \<Longrightarrow> ck \<noteq> TokenKind_EOF \<Longrightarrow> tok_kind (ps_cur p) \<noteq> TokenKind_EOF
     \<Longrightarrow> \<exists>r. parse_bracketed n ck nk p = Some r"
  "3 * todo p + 4 \<le> n \<Longrightarrow> ck \<noteq> TokenKind_EOF \<Longrightarrow> \<exists>r. parse_children n ck nk ot ch p = Some r"
  "3 * todo p + 3 \<le> n \<Longrightarrow> tok_kind (ps_cur p) \<noteq> TokenKind_EOF \<Longrightarrow> \<exists>r. parse_expr n p = Some r"
proof (induction n ck nk p and n ck nk ot ch p and n p
    rule: parse_bracketed_parse_children_parse_expr.induct)
  case (2 n ck nk p)
  then obtain r where "parse_children n ck nk (ps_cur p) [] (parser_advance p) = Some r"
    using todo_advance [of p] by fastforce
  then show ?case by (cases r) (simp add: Let_def)
next
  case (4 n ck nk ot ch p)
  show ?case
  proof (cases "tok_kind (ps_cur p) = ck \<or> tok_kind (ps_cur p) = TokenKind_EOF \<or> token_is_any_closer (tok_kind (ps_cur p))")
    case False
    then obtain i p' where e: "parse_expr n p = Some (i, p')" using 4 by fastforce
    have "todo p' < todo p" using parse_consumes(3) [OF e] False by simp
    then show ?thesis using 4 False e by (auto simp: token_is_any_closer_def)
  qed auto
next
  case (6 n p)
  then show ?case by (cases "tok_kind (ps_cur p)") (auto simp: Let_def)
qed auto

lemma parse_forms_defined: "3 * todo p + 4 \<le> n \<Longrightarrow> \<exists>r. parse_forms n ch p = Some r"
proof (induction n ch p rule: parse_forms.induct)
  case (2 n ch p)
  show ?case
  proof (cases "tok_kind (ps_cur p) = TokenKind_EOF")
    case False
    then obtain i p' where e: "parse_expr n p = Some (i, p')" using 2 parse_defined(3) [of p n] by fastforce
    have "todo p' < todo p" using parse_consumes(3) [OF e] False by simp
    then show ?thesis using 2 False e by auto
  qed simp
qed simp

definition parse_fuel :: "string \<Rightarrow> nat" where
  "parse_fuel src = 3 * length src + 4"

lemma todo_init: "todo (parser_init src ast fid) \<le> length src"
proof -
  have "length (tokens_from (lexer_init src fid)) \<le> Suc (length (rest_of (lexer_init src fid)))"
    using tokens_from_ends by blast
  then show ?thesis by (simp add: todo_def stream_init rest_of_def lexer_init_def)
qed

lemma parse_program_defined:
  "parse_fuel src \<le> n \<Longrightarrow> \<exists>root p. parse_program n (parser_init src ast fid) = Some (root, p)"
  using parse_forms_defined [of "parser_init src ast fid" n "[]"] todo_init [of src ast fid]
  by (auto simp: parse_program_def parse_fuel_def with_ast_def)

section \<open>Well-formed trees\<close>

text \<open>The invariant of the arrays: a sequence's children are in range and older than the sequence.\<close>

definition node_wf :: "ast \<Rightarrow> nat \<Rightarrow> bool" where
  "node_wf a i \<longleftrightarrow>
     (let nd = ast_nodes a ! i; f = unat (an_first_child nd); c = unat (an_child_count nd)
      in is_seq_kind (an_kind nd) \<longrightarrow>
           f + c \<le> length (ast_extra a) \<and> list_all (\<lambda>k. unat k < i) (take c (drop f (ast_extra a))))"

definition ast_wf :: "ast \<Rightarrow> bool" where
  "ast_wf a \<longleftrightarrow> ast_nodes a \<noteq> [] \<and> list_all (node_wf a) [0..<length (ast_nodes a)]"

text \<open>One array pair extends another: nothing already stored changes.\<close>

definition ast_le :: "ast \<Rightarrow> ast \<Rightarrow> bool" where
  "ast_le a b \<longleftrightarrow> (\<exists>ns es. ast_nodes b = ast_nodes a @ ns \<and> ast_extra b = ast_extra a @ es)"

lemma ast_le_refl [simp]: "ast_le a a" by (simp add: ast_le_def)

lemma ast_le_trans [trans]: "ast_le a b \<Longrightarrow> ast_le b c \<Longrightarrow> ast_le a c"
  by (fastforce simp: ast_le_def)

lemma ast_le_push: "ast_le a (snd (ast_push_node a nd))" "ast_le a (snd (ast_push_seq a k t cs n))"
  by (simp_all add: ast_le_def ast_push_node_def ast_push_seq_def Let_def)

lemma node_wf_le: "node_wf a i \<Longrightarrow> i < length (ast_nodes a) \<Longrightarrow> ast_le a b \<Longrightarrow> node_wf b i"
  by (auto simp: node_wf_def ast_le_def Let_def nth_append)

lemma ast_wf_push:
  assumes "ast_wf a" "ast_le a b" "length (ast_nodes b) = Suc (length (ast_nodes a))"
    "node_wf b (length (ast_nodes a))"
  shows "ast_wf b"
  using assms node_wf_le [of a _ b] by (auto simp: ast_wf_def list_all_iff less_Suc_eq)

lemma ast_wf_leaf: "ast_wf a \<Longrightarrow> \<not> is_seq_kind (an_kind nd) \<Longrightarrow> ast_wf (snd (ast_push_node a nd))"
  by (rule ast_wf_push [OF _ ast_le_push(1)]) (auto simp: ast_push_node_def node_wf_def)

lemma ast_wf_seq:
  assumes "ast_wf a" "length (ast_extra a) < 2 ^ 32" "list_all (\<lambda>k. unat k < length (ast_nodes a)) cs"
    "unat n \<le> length cs"
  shows "ast_wf (snd (ast_push_seq a k t cs n))"
proof (rule ast_wf_push [OF assms(1) ast_le_push(2)])
  have u: "unat (of_nat (length (ast_extra a)) :: u32) = length (ast_extra a)"
    using assms(2) by (simp add: unsigned_of_nat take_bit_nat_eq_self)
  have "list_all (\<lambda>k. unat k < length (ast_nodes a)) (take (unat n) cs)"
    using assms(3) by (auto simp: list_all_iff dest: in_set_takeD)
  then show "node_wf (snd (ast_push_seq a k t cs n)) (length (ast_nodes a))"
    using assms(4) by (simp add: node_wf_def ast_push_seq_def ast_push_node_def Let_def u)
qed (simp add: ast_push_seq_def ast_push_node_def Let_def)

text \<open>
  What a step of the parser keeps, with the room the indices need: a node and a pending child each
  cost a token.
\<close>

definition keeps :: "parser \<Rightarrow> nat \<Rightarrow> parser \<Rightarrow> bool" where
  "keeps p c p' \<longleftrightarrow>
     ast_le (ps_ast p) (ps_ast p') \<and> (ast_wf (ps_ast p) \<longrightarrow> ast_wf (ps_ast p'))
     \<and> length (ast_nodes (ps_ast p')) + todo p' \<le> length (ast_nodes (ps_ast p)) + todo p
     \<and> length (ast_extra (ps_ast p')) + c + todo p' \<le> length (ast_extra (ps_ast p)) + todo p"

definition room :: "parser \<Rightarrow> bool" where
  "room p \<longleftrightarrow> ast_nodes (ps_ast p) \<noteq> []
     \<and> length (ast_nodes (ps_ast p)) + todo p < 2 ^ 32 \<and> length (ast_extra (ps_ast p)) + todo p < 2 ^ 32"

lemma keeps_trans: "keeps p c q \<Longrightarrow> keeps q d r \<Longrightarrow> keeps p (c + d) r"
  by (auto simp: keeps_def intro: ast_le_trans)

lemma room_keeps: "room p \<Longrightarrow> keeps p c q \<Longrightarrow> room q"
  by (auto simp: room_def keeps_def ast_le_def)

lemma keeps_advance: "tok_kind (ps_cur p) \<noteq> TokenKind_EOF \<Longrightarrow> keeps p 1 (parser_advance p)"
  by (simp add: keeps_def todo_advance)

lemma keeps_error: "keeps p 0 (parse_error d p)"
  by (simp add: keeps_def)

definition in_ast :: "ast \<Rightarrow> node_index \<Rightarrow> bool" where
  "in_ast a i \<longleftrightarrow> unat i < length (ast_nodes a)"

lemma in_ast_le: "in_ast a i \<Longrightarrow> ast_le a b \<Longrightarrow> in_ast b i"
  by (auto simp: in_ast_def ast_le_def)

lemma in_ast_all_le: "list_all (in_ast a) cs \<Longrightarrow> ast_le a b \<Longrightarrow> list_all (in_ast b) cs"
  by (auto simp: list_all_iff intro: in_ast_le)

lemma in_ast_push:
  "length (ast_nodes a) < 2 ^ 32 \<Longrightarrow> in_ast (snd (ast_push_node a nd)) (fst (ast_push_node a nd))"
  "length (ast_nodes a) < 2 ^ 32 \<Longrightarrow> in_ast (snd (ast_push_seq a k t cs n)) (fst (ast_push_seq a k t cs n))"
  by (simp_all add: in_ast_def ast_push_node_def ast_push_seq_def Let_def unat_of_nat_u32)

lemma keeps_finish:
  assumes ck: "ck \<noteq> TokenKind_EOF" and k: "keeps q (length cs) q'" and room: "room q"
    and cs: "list_all (in_ast (ps_ast q')) cs" and r: "r = finish_bracketed ck nk ot cs q'"
  shows "ast_le (ps_ast q) (ps_ast (snd r)) \<and> (ast_wf (ps_ast q) \<longrightarrow> ast_wf (ps_ast (snd r)))
    \<and> length (ast_nodes (ps_ast (snd r))) + todo (snd r) \<le> Suc (length (ast_nodes (ps_ast q)) + todo q)
    \<and> length (ast_extra (ps_ast (snd r))) + todo (snd r) \<le> length (ast_extra (ps_ast q)) + todo q
    \<and> in_ast (ps_ast (snd r)) (fst r)"
proof -
  let ?a = "ps_ast q'" and ?n = "of_nat (min (length cs) MAX_U16) :: u16"
  have n: "unat ?n \<le> length cs"
    by (simp add: MAX_U16_def unsigned_of_nat take_bit_nat_eq_self)
  have t: "todo (snd r) \<le> todo q'" using finish_todo [OF ck] r by simp
  have push: "ps_ast (snd r) = snd (ast_push_seq ?a nk ot cs ?n)" "fst r = fst (ast_push_seq ?a nk ot cs ?n)"
    unfolding r finish_bracketed_def by (simp_all add: Let_def)
  have bounds: "length (ast_nodes ?a) < 2 ^ 32" "length (ast_extra ?a) < 2 ^ 32"
    using room_keeps [OF room k] by (auto simp: room_def)
  have "ast_wf (ps_ast q) \<Longrightarrow> ast_wf (ps_ast (snd r))"
    using ast_wf_seq [OF _ bounds(2), of cs ?n nk ot] cs n k
    by (simp add: push keeps_def in_ast_def [abs_def])
  moreover have "ast_le (ps_ast q) (ps_ast (snd r))"
    using k ast_le_push(2) ast_le_trans unfolding push keeps_def by blast
  moreover have "in_ast (ps_ast (snd r)) (fst r)"
    using in_ast_push(2) [OF bounds(1)] by (simp add: push)
  moreover have "length (ast_nodes (ps_ast (snd r))) = Suc (length (ast_nodes ?a))"
    "length (ast_extra (ps_ast (snd r))) \<le> length (ast_extra ?a) + length cs"
    by (simp_all add: push ast_push_seq_def ast_push_node_def Let_def)
  ultimately show ?thesis using k t by (simp add: keeps_def)
qed

lemma keeps_leaf:
  assumes "room p" "tok_kind (ps_cur p) \<noteq> TokenKind_EOF" "\<not> is_seq_kind (an_kind nd)"
  shows "keeps p 1 (parser_advance (p\<lparr>ps_ast := snd (ast_push_node (ps_ast p) nd)\<rparr>))
    \<and> in_ast (snd (ast_push_node (ps_ast p) nd)) (fst (ast_push_node (ps_ast p) nd))"
  using assms ast_wf_leaf [OF _ assms(3)] ast_le_push(1) [of "ps_ast p" nd] todo_advance [OF assms(2)]
    in_ast_push(1) [of "ps_ast p" nd]
  by (simp add: keeps_def room_def) (simp add: ast_push_node_def)

lemma keeps_unexpected:
  assumes "room p" "tok_kind (ps_cur p) \<noteq> TokenKind_EOF"
  shows "keeps p 1 (snd (parse_unexpected d p)) \<and> in_ast (ps_ast (snd (parse_unexpected d p))) (fst (parse_unexpected d p))"
  using assms todo_advance [OF assms(2)] by (simp add: parse_unexpected_def keeps_def in_ast_def room_def NODE_NIL_def)

lemma parse_keeps:
  "parse_bracketed n ck nk p = Some r \<Longrightarrow> ck \<noteq> TokenKind_EOF \<Longrightarrow> tok_kind (ps_cur p) \<noteq> TokenKind_EOF
     \<Longrightarrow> room p \<Longrightarrow> keeps p 1 (snd r) \<and> in_ast (ps_ast (snd r)) (fst r)"
  "parse_children n ck nk ot ch p = Some r' \<Longrightarrow> room p
     \<Longrightarrow> \<exists>cs. fst r' = ch @ cs \<and> keeps p (length cs) (snd r') \<and> list_all (in_ast (ps_ast (snd r'))) cs"
  "parse_expr n p = Some r \<Longrightarrow> tok_kind (ps_cur p) \<noteq> TokenKind_EOF \<Longrightarrow> room p
     \<Longrightarrow> keeps p 1 (snd r) \<and> in_ast (ps_ast (snd r)) (fst r)"
proof (induction n ck nk p and n ck nk ot ch p and n p arbitrary: r and r' and r
    rule: parse_bracketed_parse_children_parse_expr.induct)
  case (2 n ck nk p)
  then obtain ch q where q: "parse_children n ck nk (ps_cur p) [] (parser_advance p) = Some (ch, q)"
    and r: "r = finish_bracketed ck nk (ps_cur p) ch q"
    by (auto simp: Let_def split: option.splits)
  have room: "room (parser_advance p)" using room_keeps [OF "2.prems"(4) keeps_advance [OF "2.prems"(3)]] .
  have k: "keeps (parser_advance p) (length ch) q" "list_all (in_ast (ps_ast q)) ch"
    using "2.IH" [OF refl q room] by auto
  show ?case
    using keeps_finish [OF "2.prems"(2) k(1) room k(2) r] todo_advance [OF "2.prems"(3)]
    by (auto simp: keeps_def)
next
  case (4 n ck nk ot ch p)
  show ?case
  proof (cases "tok_kind (ps_cur p) = ck \<or> tok_kind (ps_cur p) = TokenKind_EOF \<or> token_is_any_closer (tok_kind (ps_cur p))")
    case True
    then show ?thesis using "4.prems" by (auto simp: keeps_def split: if_splits)
  next
    case False
    then obtain i q where e: "parse_expr n p = Some (i, q)"
      and c: "parse_children n ck nk ot (ch @ [i]) q = Some r'"
      using "4.prems" by (auto split: option.splits)
    have 1: "keeps p 1 q" "in_ast (ps_ast q) i" using "4.IH"(1) [OF _ _ _ e] False "4.prems" by auto
    obtain cs where 2: "fst r' = (ch @ [i]) @ cs" "keeps q (length cs) (snd r')" "list_all (in_ast (ps_ast (snd r'))) cs"
      using "4.IH"(2) [OF _ _ _ e refl c room_keeps [OF "4.prems"(2) 1(1)]] False by auto
    have "in_ast (ps_ast (snd r')) i" using in_ast_le 1(2) 2(2) unfolding keeps_def by blast
    then show ?thesis using 2 keeps_trans [OF 1(1) 2(2)] by (intro exI [of _ "i # cs"]) simp
  qed
next
  case (6 n p)
  show ?case
  proof (cases "tok_kind (ps_cur p)")
    case TokenKind_Atom
    then show ?thesis using 6 keeps_leaf [of p] by (auto simp: Let_def ast_push_atom_def is_seq_kind_def case_prod_beta)
  next
    case TokenKind_String
    then show ?thesis using 6 keeps_leaf [of p] by (auto simp: Let_def ast_push_string_def is_seq_kind_def case_prod_beta)
  qed (use 6 keeps_unexpected [of p] in auto)
qed simp_all

lemma parse_forms_keeps:
  "parse_forms n ch p = Some r \<Longrightarrow> room p
     \<Longrightarrow> \<exists>cs. fst r = ch @ cs \<and> keeps p (length cs) (snd r) \<and> list_all (in_ast (ps_ast (snd r))) cs"
proof (induction n ch p rule: parse_forms.induct)
  case (2 n ch p)
  show ?case
  proof (cases "tok_kind (ps_cur p) = TokenKind_EOF")
    case True
    then show ?thesis using "2.prems" by (auto simp: keeps_def)
  next
    case False
    then obtain i q where e: "parse_expr n p = Some (i, q)" and c: "parse_forms n (ch @ [i]) q = Some r"
      using "2.prems" by (auto split: option.splits)
    have 1: "keeps p 1 q" "in_ast (ps_ast q) i" using parse_keeps(3) [OF e False "2.prems"(2)] by auto
    obtain cs where 2: "fst r = (ch @ [i]) @ cs" "keeps q (length cs) (snd r)" "list_all (in_ast (ps_ast (snd r))) cs"
      using "2.IH" [OF False e refl c room_keeps [OF "2.prems"(2) 1(1)]] by auto
    have "in_ast (ps_ast (snd r)) i" using in_ast_le 1(2) 2(2) unfolding keeps_def by blast
    then show ?thesis using 2 keeps_trans [OF 1(1) 2(2)] by (intro exI [of _ "i # cs"]) simp
  qed
qed simp

lemma ast_init_wf [simp]: "ast_wf ast_init" "length (ast_nodes ast_init) = 1" "ast_extra ast_init = []"
  by (simp_all add: ast_wf_def node_wf_def ast_init_def is_seq_kind_def)

lemma parser_init_ast [simp]:
  "ps_ast (parser_init src ast fid) = ast" "\<not> ps_had_error (parser_init src ast fid)"
  by (simp_all add: parser_init_def)

lemma room_init: "length src + 1 < 2 ^ 32 \<Longrightarrow> room (parser_init src ast_init fid)"
  using todo_init [of src ast_init fid] by (simp add: room_def) (simp add: ast_init_def)

lemma parse_program_wf:
  assumes len: "length src + 1 < 2 ^ 32"
    and p: "parse_program n (parser_init src ast_init fid) = Some (root, p)"
  shows "ast_wf (ps_ast p) \<and> in_ast (ps_ast p) root"
proof -
  let ?p0 = "parser_init src ast_init fid"
  obtain cs q where f: "parse_forms n [] ?p0 = Some (cs, q)"
    and r: "(root, p) = with_ast (ast_push_seq (ps_ast q) AstNodeKind_List synth_open cs (of_nat (min (length cs) MAX_U16))) q"
    using p by (auto simp: parse_program_def split: option.splits)
  have k: "keeps ?p0 (length cs) q" "list_all (in_ast (ps_ast q)) cs"
    using parse_forms_keeps [OF f room_init [OF len]] by auto
  have b: "room q" using room_keeps [OF room_init [OF len] k(1)] .
  have n: "unat (of_nat (min (length cs) MAX_U16) :: u16) \<le> length cs"
    by (simp add: MAX_U16_def unsigned_of_nat take_bit_nat_eq_self)
  have "ast_wf (ps_ast q)" using k(1) by (simp add: keeps_def)
  then have "ast_wf (ps_ast p)"
    using ast_wf_seq [OF _ _ _ n, of "ps_ast q"] k(2) b r by (simp add: with_ast_def room_def in_ast_def [abs_def])
  moreover have "in_ast (ps_ast p) root" using in_ast_push(2) [of "ps_ast q"] b r by (simp add: with_ast_def room_def)
  ultimately show ?thesis ..
qed

end
