(* ===== verification/Parser_Tree.thy ===== *)
theory Parser_Tree
  imports Parser_Props
begin

text \<open>
  Which trees the parser builds: the arrays of \<^verbatim>\<open>Ast\<close> as an inductive tree, the bracket notation of
  a tree as a relation on token lists, and the two directions between them.
\<close>

section \<open>Trees and their notation\<close>

datatype tree = TAtom token | TString token | TSeq ast_node_kind token "tree list"

text \<open>The tree an index stands for.\<close>

inductive represents :: "ast \<Rightarrow> node_index \<Rightarrow> tree \<Rightarrow> bool" for a where
  represents_atom: "ast_get a i = Some nd \<Longrightarrow> an_kind nd = AstNodeKind_Atom \<Longrightarrow> represents a i (TAtom (an_token nd))"
| represents_string: "ast_get a i = Some nd \<Longrightarrow> an_kind nd = AstNodeKind_String \<Longrightarrow> represents a i (TString (an_token nd))"
| represents_seq: "ast_get a i = Some nd \<Longrightarrow> is_seq_kind (an_kind nd) \<Longrightarrow> ast_seq_children a i = Some cs
    \<Longrightarrow> list_all2 (represents a) cs ts \<Longrightarrow> represents a i (TSeq (an_kind nd) (an_token nd) ts)"

fun brackets :: "ast_node_kind \<Rightarrow> (token_kind \<times> token_kind) option" where
  "brackets AstNodeKind_List = Some (TokenKind_LParen, TokenKind_RParen)"
| "brackets AstNodeKind_Vector = Some (TokenKind_LBracket, TokenKind_RBracket)"
| "brackets AstNodeKind_Map = Some (TokenKind_LBrace, TokenKind_RBrace)"
| "brackets k = None"

inductive spells :: "token list \<Rightarrow> tree \<Rightarrow> bool"
and spells_all :: "token list \<Rightarrow> tree list \<Rightarrow> bool" where
  spells_atom: "tok_kind x = TokenKind_Atom \<Longrightarrow> spells [x] (TAtom x)"
| spells_string: "tok_kind x = TokenKind_String \<Longrightarrow> spells [x] (TString x)"
| spells_seq: "brackets k = Some (tok_kind x, tok_kind y) \<Longrightarrow> spells_all xs ts
    \<Longrightarrow> spells (x # xs @ [y]) (TSeq k x ts)"
| spells_nil: "spells_all [] []"
| spells_cons: "spells xs t \<Longrightarrow> spells_all ys ts \<Longrightarrow> spells_all (xs @ ys) (t # ts)"

inductive_cases spells_all_nilE: "spells_all xs []"
inductive_cases spells_all_consE: "spells_all xs (t # ts)"

text \<open>Every sequence fits the 16-bit child count.\<close>

fun narrow :: "tree \<Rightarrow> bool" where
  "narrow (TAtom x) \<longleftrightarrow> True"
| "narrow (TString x) \<longleftrightarrow> True"
| "narrow (TSeq k x ts) \<longleftrightarrow> length ts \<le> MAX_U16 \<and> list_all narrow ts"

section \<open>Facts about the representation\<close>

lemma ast_get_le: "ast_get a i = Some nd \<Longrightarrow> ast_le a b \<Longrightarrow> ast_get b i = Some nd"
  by (auto simp: ast_get_def ast_le_def nth_append split: if_splits)

lemma children_le:
  assumes "ast_seq_children a i = Some cs" "ast_le a b"
  shows "ast_seq_children b i = Some cs"
proof -
  obtain nd where nd: "ast_get a i = Some nd" using assms(1) by (auto simp: ast_seq_children_def split: Option.bind_splits)
  show ?thesis
    using assms ast_get_le [OF nd assms(2)] nd
    by (auto simp: ast_seq_children_def ast_le_def split: if_splits)
qed

lemma represents_le: "represents a i t \<Longrightarrow> ast_le a b \<Longrightarrow> represents b i t"
proof (induction rule: represents.induct)
  case (represents_seq i nd cs ts)
  then have "list_all2 (represents b) cs ts" by (auto simp: list_all2_conv_all_nth)
  then show ?case using represents_seq by (blast intro: represents.represents_seq ast_get_le children_le)
qed (blast intro: represents.intros ast_get_le)+

lemma represents_all_le: "list_all2 (represents a) cs ts \<Longrightarrow> ast_le a b \<Longrightarrow> list_all2 (represents b) cs ts"
  by (auto simp: list_all2_conv_all_nth intro: represents_le)

lemma represents_push_leaf:
  assumes "length (ast_nodes a) < 2 ^ 32" "r = ast_push_node a nd"
  shows "an_kind nd = AstNodeKind_Atom \<Longrightarrow> represents (snd r) (fst r) (TAtom (an_token nd))"
    "an_kind nd = AstNodeKind_String \<Longrightarrow> represents (snd r) (fst r) (TString (an_token nd))"
proof -
  have "ast_get (snd r) (fst r) = Some nd"
    using assms by (simp add: ast_get_def ast_push_node_def unat_of_nat_u32)
  then show "an_kind nd = AstNodeKind_Atom \<Longrightarrow> represents (snd r) (fst r) (TAtom (an_token nd))"
    "an_kind nd = AstNodeKind_String \<Longrightarrow> represents (snd r) (fst r) (TString (an_token nd))"
    by (auto intro: represents.intros)
qed

lemma represents_push_seq:
  assumes "length (ast_nodes a) < 2 ^ 32" "length (ast_extra a) < 2 ^ 32" "is_seq_kind k"
    and "unat n \<le> length cs" "list_all2 (represents a) cs ts" and r: "r = ast_push_seq a k tok cs n"
  shows "represents (snd r) (fst r) (TSeq k tok (take (unat n) ts))"
proof -
  let ?nd = "\<lparr>an_kind = k, an_first_child = of_nat (length (ast_extra a)), an_child_count = n, an_token = tok\<rparr>"
  have g: "ast_get (snd r) (fst r) = Some ?nd"
    using assms(1) by (simp add: r ast_get_def ast_push_seq_def ast_push_node_def Let_def unat_of_nat_u32)
  have e: "ast_extra (snd r) = ast_extra a @ take (unat n) cs"
    by (simp add: r ast_push_seq_def ast_push_node_def Let_def)
  have c: "ast_seq_children (snd r) (fst r) = Some (take (unat n) cs)"
    using assms(2-4) by (simp add: ast_seq_children_def g e unat_of_nat_u32)
  have "list_all2 (represents (snd r)) (take (unat n) cs) (take (unat n) ts)"
    using represents_all_le [OF assms(5)] ast_le_push(2) unfolding r by (blast intro: list_all2_takeI)
  then show ?thesis using represents_seq [OF g _ c] assms(3) by simp
qed

lemma spells_head:
  assumes "spells xs t"
  obtains x ys where "xs = x # ys" "tok_kind x \<noteq> TokenKind_EOF" "\<not> token_is_any_closer (tok_kind x)"
proof -
  have "\<exists>x ys. xs = x # ys \<and> tok_kind x \<noteq> TokenKind_EOF \<and> \<not> token_is_any_closer (tok_kind x)"
    using assms
  proof cases
    case (spells_seq k x y xs ts)
    then show ?thesis by (cases k) (auto simp: token_is_any_closer_def)
  qed (auto simp: token_is_any_closer_def)
  then show thesis using that by blast
qed

lemma brackets_kinds:
  "brackets k = Some (o1, c) \<Longrightarrow> is_seq_kind k \<and> c \<noteq> TokenKind_EOF \<and> token_is_any_closer c \<and> o1 \<noteq> TokenKind_EOF
    \<and> o1 \<noteq> c"
  by (cases k) (auto simp: is_seq_kind_def token_is_any_closer_def)

lemma parse_expr_bracket:
  "brackets k = Some (tok_kind (ps_cur p), ck) \<Longrightarrow> parse_expr (Suc n) p = parse_bracketed n ck k p"
  by (cases k) auto

section \<open>A tree's notation is parsed to the tree\<close>

text \<open>A step that reads the notation of one tree, or of a sequence of trees.\<close>

definition built :: "parser \<Rightarrow> node_index list \<Rightarrow> tree list \<Rightarrow> parser \<Rightarrow> bool" where
  "built p cs ts p' \<longleftrightarrow>
     list_all2 (represents (ps_ast p')) cs ts \<and> keeps p (length cs) p' \<and> ps_had_error p' = ps_had_error p"

lemma built_nil [simp]: "built p [] [] p"
  by (simp add: built_def keeps_def)

lemma built_cons: "built p [i] [t] q \<Longrightarrow> built q cs ts r \<Longrightarrow> built p (i # cs) (t # ts) r"
  using keeps_trans [of p 1 q "length cs" r] represents_le [of "ps_ast q" i t "ps_ast r"]
  by (auto simp: built_def) (auto simp: keeps_def)

lemma built_room: "built p cs ts q \<Longrightarrow> room p \<Longrightarrow> room q"
  using room_keeps by (auto simp: built_def)

lemma complete_leaf:
  assumes "tok_kind x = TokenKind_Atom \<and> t = TAtom x \<or> tok_kind x = TokenKind_String \<and> t = TString x"
    and "stream p = x # rest" "room p" "0 < n"
  shows "\<exists>i q. parse_expr n p = Some (i, q) \<and> stream q = rest \<and> built p [i] [t] q"
proof -
  have x: "ps_cur p = x" using stream_cur [of p] assms(2) by simp
  have ne: "tok_kind (ps_cur p) \<noteq> TokenKind_EOF" using assms(1) x by auto
  let ?k = "if tok_kind x = TokenKind_Atom then AstNodeKind_Atom else AstNodeKind_String"
  let ?nd = "\<lparr>an_kind = ?k, an_first_child = 0, an_child_count = 0, an_token = x\<rparr>"
  let ?q = "parser_advance (p\<lparr>ps_ast := snd (ast_push_node (ps_ast p) ?nd)\<rparr>)"
  have "parse_expr n p = Some (fst (ast_push_node (ps_ast p) ?nd), ?q)"
    using assms(1,4) x by (cases n) (auto simp: ast_push_atom_def ast_push_string_def Let_def case_prod_beta)
  moreover have "stream ?q = rest"
    using assms(2) stream_advance [OF ne] by simp
  moreover have "represents (snd (ast_push_node (ps_ast p) ?nd)) (fst (ast_push_node (ps_ast p) ?nd)) t"
    using represents_push_leaf [OF _ refl, of "ps_ast p" ?nd] assms(1,3) by (auto simp: room_def)
  moreover have "keeps p 1 ?q" using keeps_leaf [OF assms(3) ne, of ?nd] by (simp add: is_seq_kind_def)
  ultimately show ?thesis by (simp add: built_def)
qed

lemma complete_seq:
  assumes br: "brackets k = Some (tok_kind x, ck)" and cur: "ps_cur p = x" and room: "room p"
    and ch: "parse_children n ck k x [] (parser_advance p) = Some (cs, q)"
    and b: "built (parser_advance p) cs ts q" and len: "length ts \<le> MAX_U16" and ck: "tok_kind (ps_cur q) = ck"
  shows "\<exists>i q'. parse_expr (Suc (Suc n)) p = Some (i, q') \<and> q' = snd (finish_bracketed ck k x cs q)
    \<and> stream q = ps_cur q # stream q' \<and> built p [i] [TSeq k x ts] q'"
proof -
  note bk = brackets_kinds [OF br]
  have ne: "tok_kind (ps_cur p) \<noteq> TokenKind_EOF" using bk cur by auto
  let ?r = "finish_bracketed ck k x cs q"
  have room': "room (parser_advance p)" using room_keeps [OF room keeps_advance [OF ne]] .
  have roomq: "room q" using built_room [OF b room'] .
  have len': "length cs = length ts" using b by (auto simp: built_def list_all2_lengthD)
  have cs: "list_all2 (represents (ps_ast q)) cs ts" and k: "keeps (parser_advance p) (length cs) q"
    using b by (simp_all add: built_def)
  have fin: "fst ?r = fst (ast_push_seq (ps_ast q) k x cs (of_nat (length cs)))"
    "snd ?r = (parser_advance q)\<lparr>ps_ast := snd (ast_push_seq (ps_ast q) k x cs (of_nat (length cs)))\<rparr>"
    using len len' ck by (simp_all add: finish_bracketed_def Let_def min_def MAX_U16_def)
  have n: "unat (of_nat (length cs) :: u16) = length cs"
    using len len' by (simp add: MAX_U16_def unsigned_of_nat take_bit_nat_eq_self)
  have rep: "represents (ps_ast (snd ?r)) (fst ?r) (TSeq k x ts)"
    using represents_push_seq [OF _ _ _ _ cs refl, of k "of_nat (length cs)" x] roomq bk n len'
    by (simp add: fin room_def)
  have "list_all (in_ast (ps_ast q)) cs"
    using parse_keeps(2) [OF ch room'] by auto
  from keeps_finish [OF _ k room' this refl, of ck k x] bk
  have "keeps p 1 (snd ?r)" using todo_advance [OF ne] by (simp add: keeps_def)
  moreover have "parse_expr (Suc (Suc n)) p = Some ?r"
    using parse_expr_bracket [of k p ck "Suc n"] br cur ch by (simp add: Let_def)
  moreover have "stream q = ps_cur q # stream (snd ?r)"
    using stream_advance [of q] ck bk by (simp add: fin)
  moreover have "ps_had_error (snd ?r) = ps_had_error p"
    using b by (simp add: fin built_def)
  ultimately show ?thesis using rep by (intro exI [of _ "fst ?r"]) (simp add: built_def)
qed

lemma todo_stream: "stream p = xs @ rest \<Longrightarrow> rest \<noteq> [] \<Longrightarrow> length xs \<le> todo p"
  by (cases rest) (simp_all add: todo_def)

lemma parse_complete:
  "spells xs t \<Longrightarrow> narrow t \<Longrightarrow> stream p = xs @ rest \<Longrightarrow> rest \<noteq> [] \<Longrightarrow> room p \<Longrightarrow> 3 * todo p + 3 \<le> n
     \<Longrightarrow> \<exists>i q. parse_expr n p = Some (i, q) \<and> stream q = rest \<and> built p [i] [t] q"
  "spells_all xs ts \<Longrightarrow> list_all narrow ts \<Longrightarrow> stream p = xs @ y # rest \<Longrightarrow> tok_kind y = ck
     \<Longrightarrow> token_is_any_closer ck \<Longrightarrow> room p \<Longrightarrow> 3 * todo p + 4 \<le> n
     \<Longrightarrow> \<exists>cs q. parse_children n ck nk ot ch p = Some (ch @ cs, q) \<and> stream q = y # rest \<and> built p cs ts q"
proof (induction xs t and xs ts arbitrary: p rest n and p y rest n ck nk ot ch rule: spells_spells_all.inducts)
  case (spells_seq k x y xs ts)
  note bk = brackets_kinds [OF spells_seq.hyps(1)]
  have cur: "ps_cur p = x" using stream_cur [of p] spells_seq.prems(2) by simp
  have ne: "tok_kind (ps_cur p) \<noteq> TokenKind_EOF" using bk cur by auto
  have st: "stream (parser_advance p) = xs @ y # rest"
    using stream_advance [OF ne] spells_seq.prems(2) by simp
  obtain m where n: "n = Suc (Suc m)" "3 * todo (parser_advance p) + 4 \<le> m"
    using spells_seq.prems(5) todo_advance [OF ne] by (cases n; cases "n - 1") auto
  obtain cs q where ch: "parse_children m (tok_kind y) k x [] (parser_advance p) = Some (cs, q)"
    and q: "stream q = y # rest" and b: "built (parser_advance p) cs ts q"
    using spells_seq.IH [of "parser_advance p" y rest "tok_kind y" m k x "[]"] spells_seq.prems st bk n
      room_keeps [OF spells_seq.prems(4) keeps_advance [OF ne]] by auto
  have "ps_cur q = y" using stream_cur [of q] q by simp
  then show ?case
    using complete_seq [OF spells_seq.hyps(1) cur spells_seq.prems(4) ch b] spells_seq.prems(1) q n by fastforce
next
  case spells_nil
  have "ps_cur p = y" using stream_cur [of p] spells_nil by simp
  moreover obtain m where "n = Suc m" using spells_nil by (cases n) auto
  ultimately show ?case using spells_nil by auto
next
  case (spells_cons xs t ys ts)
  obtain x zs where x: "xs = x # zs" "tok_kind x \<noteq> TokenKind_EOF" "\<not> token_is_any_closer (tok_kind x)"
    using spells_head [OF spells_cons.hyps(1)] .
  have cur: "ps_cur p = x" using stream_cur [of p] spells_cons.prems(2) x by simp
  obtain m where n: "n = Suc m" "3 * todo p + 3 \<le> m" using spells_cons.prems by (cases n) auto
  obtain i q where e: "parse_expr m p = Some (i, q)" "stream q = ys @ y # rest" "built p [i] [t] q"
    using spells_cons.IH(1) [of p "ys @ y # rest" m] spells_cons.prems n by auto
  have td: "todo q < todo p" using parse_consumes(3) [OF e(1)] cur x by simp
  obtain cs r where c: "parse_children m ck nk ot (ch @ [i]) q = Some ((ch @ [i]) @ cs, r)"
    "stream r = y # rest" "built q cs ts r"
    using spells_cons.IH(2) [of q y rest ck m nk ot "ch @ [i]"] spells_cons.prems e n td built_room [OF e(3)]
    by auto
  have "parse_children n ck nk ot ch p = Some (ch @ i # cs, r)"
    using e(1) c(1) cur x n spells_cons.prems(4) by auto
  then show ?case using c built_cons [OF e(3) c(3)] by blast
qed (use complete_leaf in auto)

section \<open>A parse without an error is the parse of a notation\<close>

definition sound1 :: "parser \<Rightarrow> parser \<Rightarrow> bool" where
  "sound1 p q \<longleftrightarrow> \<not> ps_had_error p \<and> (\<exists>xs t. stream p = xs @ stream q \<and> spells xs t \<and> narrow t)"

definition sound_all :: "nat \<Rightarrow> parser \<Rightarrow> parser \<Rightarrow> bool" where
  "sound_all n p q \<longleftrightarrow>
     \<not> ps_had_error p \<and> (\<exists>xs ts. stream p = xs @ stream q \<and> spells_all xs ts \<and> list_all narrow ts \<and> length ts = n)"

lemma sound_cons: "sound1 p q \<Longrightarrow> sound_all n q r \<Longrightarrow> sound_all (Suc n) p r"
proof -
  assume "sound1 p q" "sound_all n q r"
  then obtain xs t ys ts where "stream p = xs @ stream q" "spells xs t" "narrow t" "stream q = ys @ stream r"
    "spells_all ys ts" "list_all narrow ts" "length ts = n" "\<not> ps_had_error p"
    by (auto simp: sound1_def sound_all_def)
  then show ?thesis unfolding sound_all_def
    by (intro conjI exI [of _ "xs @ ys"] exI [of _ "t # ts"]) (auto intro: spells_cons)
qed

lemma sound_all_nil: "\<not> ps_had_error p \<Longrightarrow> sound_all 0 p p"
  by (auto simp: sound_all_def intro: spells_nil)

lemma sound_leaf:
  assumes "tok_kind (ps_cur p) = TokenKind_Atom \<or> tok_kind (ps_cur p) = TokenKind_String"
    "q = parser_advance (p\<lparr>ps_ast := a\<rparr>)" "\<not> ps_had_error q"
  shows "sound1 p q"
proof -
  have "stream p = [ps_cur p] @ stream q" using assms stream_advance [of p] by auto
  moreover have "\<exists>t. spells [ps_cur p] t \<and> narrow t"
    using assms(1) spells_atom [of "ps_cur p"] spells_string [of "ps_cur p"]
      narrow.simps(1) [of "ps_cur p"] narrow.simps(2) [of "ps_cur p"] by blast
  ultimately show ?thesis using assms(2,3) unfolding sound1_def by auto
qed

lemma sound_bracketed:
  assumes br: "brackets nk = Some (tok_kind (ps_cur p), ck)"
    and q: "sound_all (length ch) (parser_advance p) q" "tok_kind (ps_cur q) = ck"
    and r: "r = finish_bracketed ck nk (ps_cur p) ch q" "\<not> ps_had_error (snd r)"
  shows "sound1 p (snd r)"
proof -
  note bk = brackets_kinds [OF br]
  obtain xs ts where xs: "stream (parser_advance p) = xs @ stream q" "spells_all xs ts" "list_all narrow ts"
    "length ts = length ch" "\<not> ps_had_error p" using q(1) by (auto simp: sound_all_def)
  have few: "length ch \<le> MAX_U16" using r by (auto simp: finish_bracketed_def Let_def split: if_splits)
  then have "stream (snd r) = stream (parser_advance q)"
    using q(2) by (simp add: r finish_bracketed_def Let_def)
  moreover have "stream p = ps_cur p # xs @ ps_cur q # stream (parser_advance q)"
    using stream_advance [of p] stream_advance [of q] xs(1) bk q(2) by auto
  moreover have "spells (ps_cur p # xs @ [ps_cur q]) (TSeq nk (ps_cur p) ts)"
    using spells_seq [OF _ xs(2), of nk "ps_cur p" "ps_cur q"] br q(2) by simp
  ultimately show ?thesis unfolding sound1_def using xs few
    by (intro conjI exI [of _ "ps_cur p # xs @ [ps_cur q]"] exI [of _ "TSeq nk (ps_cur p) ts"]) auto
qed

lemma parse_sound:
  "parse_bracketed n ck nk p = Some r \<Longrightarrow> \<not> ps_had_error (snd r) \<Longrightarrow> brackets nk = Some (tok_kind (ps_cur p), ck)
     \<Longrightarrow> sound1 p (snd r)"
  "parse_children n ck nk ot ch p = Some r' \<Longrightarrow> \<not> ps_had_error (snd r')
     \<Longrightarrow> sound_all (length (fst r') - length ch) p (snd r') \<and> length ch \<le> length (fst r')
       \<and> tok_kind (ps_cur (snd r')) = ck"
  "parse_expr n p = Some r \<Longrightarrow> \<not> ps_had_error (snd r) \<Longrightarrow> sound1 p (snd r)"
proof (induction n ck nk p and n ck nk ot ch p and n p arbitrary: r and r' and r
    rule: parse_bracketed_parse_children_parse_expr.induct)
  case (2 n ck nk p)
  then obtain ch q where q: "parse_children n ck nk (ps_cur p) [] (parser_advance p) = Some (ch, q)"
    and r: "r = finish_bracketed ck nk (ps_cur p) ch q"
    by (auto simp: Let_def split: option.splits)
  have "\<not> ps_had_error q" using "2.prems"(2) by (auto simp: r finish_bracketed_def Let_def split: if_splits)
  then show ?case
    using "2.IH" [OF refl q] sound_bracketed [OF "2.prems"(3) _ _ r "2.prems"(2)] by simp
next
  case (4 n ck nk ot ch p)
  show ?case
  proof (cases "tok_kind (ps_cur p) = ck \<or> tok_kind (ps_cur p) = TokenKind_EOF \<or> token_is_any_closer (tok_kind (ps_cur p))")
    case True
    then show ?thesis using "4.prems" sound_all_nil [of p] by (auto split: if_splits)
  next
    case False
    then obtain i q where e: "parse_expr n p = Some (i, q)"
      and c: "parse_children n ck nk ot (ch @ [i]) q = Some r'"
      using "4.prems" by (auto split: option.splits)
    have 2: "sound_all (length (fst r') - Suc (length ch)) q (snd r')" "Suc (length ch) \<le> length (fst r')"
      "tok_kind (ps_cur (snd r')) = ck"
      using "4.IH"(2) [OF _ _ _ e refl c "4.prems"(2)] False by auto
    then have "sound1 p q" using "4.IH"(1) [OF _ _ _ e] False by (auto simp: sound_all_def)
    from sound_cons [OF this 2(1)] 2 show ?thesis by (simp add: Suc_diff_Suc Suc_le_lessD)
  qed
next
  case (6 n p)
  show ?case
  proof (cases "tok_kind (ps_cur p)")
    case TokenKind_Atom
    then show ?thesis using "6.prems" sound_leaf [OF _ refl, of p] by (auto simp: Let_def case_prod_beta)
  next
    case TokenKind_String
    then show ?thesis using "6.prems" sound_leaf [OF _ refl, of p] by (auto simp: Let_def case_prod_beta)
  qed (use 6 in \<open>auto simp: parse_unexpected_def\<close>)
qed simp_all

lemma forms_sound:
  "parse_forms n ch p = Some r \<Longrightarrow> \<not> ps_had_error (snd r)
     \<Longrightarrow> sound_all (length (fst r) - length ch) p (snd r) \<and> length ch \<le> length (fst r)
       \<and> tok_kind (ps_cur (snd r)) = TokenKind_EOF"
proof (induction n ch p rule: parse_forms.induct)
  case (2 n ch p)
  show ?case
  proof (cases "tok_kind (ps_cur p) = TokenKind_EOF")
    case True
    then show ?thesis using "2.prems" sound_all_nil [of p] by auto
  next
    case False
    then obtain i q where e: "parse_expr n p = Some (i, q)" and c: "parse_forms n (ch @ [i]) q = Some r"
      using "2.prems" by (auto split: option.splits)
    have 2: "sound_all (length (fst r) - Suc (length ch)) q (snd r)" "Suc (length ch) \<le> length (fst r)"
      "tok_kind (ps_cur (snd r)) = TokenKind_EOF"
      using "2.IH" [OF False e refl c "2.prems"(2)] by auto
    then have "sound1 p q" using parse_sound(3) [OF e] by (auto simp: sound_all_def)
    from sound_cons [OF this 2(1)] 2 show ?thesis by (simp add: Suc_diff_Suc Suc_le_lessD)
  qed
qed simp

lemma forms_complete:
  "spells_all xs ts \<Longrightarrow> list_all narrow ts \<Longrightarrow> stream p = xs @ [y] \<Longrightarrow> tok_kind y = TokenKind_EOF
     \<Longrightarrow> room p \<Longrightarrow> 3 * todo p + 4 \<le> n
     \<Longrightarrow> \<exists>cs q. parse_forms n ch p = Some (ch @ cs, q) \<and> built p cs ts q"
proof (induction ts arbitrary: xs p n ch)
  case Nil
  then have "ps_cur p = y" using stream_cur [of p] by (auto elim: spells_all_nilE)
  then show ?case using Nil by (cases n) auto
next
  case (Cons t ts)
  obtain zs ys where xs: "xs = zs @ ys" "spells zs t" "spells_all ys ts"
    using Cons.prems(1) by (auto elim: spells_all_consE)
  obtain x z where x: "zs = x # z" "tok_kind x \<noteq> TokenKind_EOF" using spells_head [OF xs(2)] by metis
  have cur: "ps_cur p = x" using stream_cur [of p] Cons.prems(3) xs x by simp
  obtain m where n: "n = Suc m" "3 * todo p + 3 \<le> m" using Cons.prems by (cases n) auto
  obtain i q where e: "parse_expr m p = Some (i, q)" "stream q = ys @ [y]" "built p [i] [t] q"
    using parse_complete(1) [OF xs(2), of p "ys @ [y]" m] Cons.prems n xs by auto
  have td: "todo q < todo p" using parse_consumes(3) [OF e(1)] cur x by simp
  obtain cs r where c: "parse_forms m (ch @ [i]) q = Some ((ch @ [i]) @ cs, r)" "built q cs ts r"
    using Cons.IH [OF xs(3), of q m "ch @ [i]"] Cons.prems e n td built_room [OF e(3)] by auto
  have "parse_forms n ch p = Some (ch @ i # cs, r)" using e(1) c(1) cur x n by simp
  then show ?case using built_cons [OF e(3) c(2)] by blast
qed

section \<open>Programs\<close>

text \<open>The tokens of a source text before its end, and the bracket notation of a list of trees.\<close>

definition source_tokens :: "string \<Rightarrow> u32 \<Rightarrow> token list" where
  "source_tokens src fid = butlast (tokens_from (lexer_init src fid))"

lemma source_tokens_stream:
  "\<exists>y. stream (parser_init src ast fid) = source_tokens src fid @ [y] \<and> tok_kind y = TokenKind_EOF"
  using tokens_from_ends [of "lexer_init src fid"] unfolding stream_init source_tokens_def by blast

lemma parse_program_complete:
  assumes sp: "spells_all (source_tokens src fid) ts" "list_all narrow ts"
    and len: "length src + 1 < 2 ^ 32" and n: "parse_fuel src \<le> n"
    and p: "parse_program n (parser_init src ast_init fid) = Some (root, p)"
  shows "\<not> ps_had_error p \<and> represents (ps_ast p) root (TSeq AstNodeKind_List synth_open (take MAX_U16 ts))"
proof -
  let ?p0 = "parser_init src ast_init fid"
  obtain y where y: "stream ?p0 = source_tokens src fid @ [y]" "tok_kind y = TokenKind_EOF"
    using source_tokens_stream by blast
  have "3 * todo ?p0 + 4 \<le> n" using todo_init [of src ast_init fid] n by (simp add: parse_fuel_def)
  then obtain cs q where f: "parse_forms n [] ?p0 = Some (cs, q)" and b: "built ?p0 cs ts q"
    using forms_complete [OF sp y room_init [OF len], of n "[]"] by auto
  let ?n = "of_nat (min (length cs) MAX_U16) :: u16"
  have r: "(root, p) = with_ast (ast_push_seq (ps_ast q) AstNodeKind_List synth_open cs ?n) q"
    using p f by (simp add: parse_program_def)
  have u: "unat ?n = min (length cs) MAX_U16"
    by (simp add: MAX_U16_def unsigned_of_nat take_bit_nat_eq_self)
  have cs: "list_all2 (represents (ps_ast q)) cs ts" "length cs = length ts"
    using b by (auto simp: built_def list_all2_lengthD)
  have "room q" using built_room [OF b room_init [OF len]] .
  then have "represents (ps_ast p) root (TSeq AstNodeKind_List synth_open (take (unat ?n) ts))"
    using represents_push_seq [OF _ _ _ _ cs(1) refl, of AstNodeKind_List ?n synth_open] r u
    by (simp add: room_def with_ast_def is_seq_kind_def)
  moreover have "take (unat ?n) ts = take MAX_U16 ts" using u cs(2) by (simp add: min_def)
  ultimately show ?thesis using b r by (simp add: built_def with_ast_def)
qed

lemma parse_program_sound:
  assumes p: "parse_program n (parser_init src ast_init fid) = Some (root, p)" and e: "\<not> ps_had_error p"
  shows "\<exists>ts. spells_all (source_tokens src fid) ts \<and> list_all narrow ts"
proof -
  let ?p0 = "parser_init src ast_init fid"
  obtain cs q where f: "parse_forms n [] ?p0 = Some (cs, q)" and q: "\<not> ps_had_error q"
    using p e by (auto simp: parse_program_def with_ast_def split: option.splits)
  obtain xs ts where s: "stream ?p0 = xs @ stream q" "spells_all xs ts" "list_all narrow ts"
    and c: "tok_kind (ps_cur q) = TokenKind_EOF"
    using forms_sound [OF f] q by (auto simp: sound_all_def)
  have "stream q = [ps_cur q]" using c by (simp add: stream_def)
  then have "xs = source_tokens src fid" using s(1) source_tokens_stream [of src ast_init fid] by auto
  then show ?thesis using s by blast
qed

end
