(* ===== verification/Atom.thy ===== *)
theory Atom
  imports Types
begin

text \<open>
  \<^verbatim>\<open>atom.c\<close>: which atoms are numbers, of which type, and their integer values.  \<^verbatim>\<open>strtoll\<close> and
  \<^verbatim>\<open>strtoull\<close> are modelled as the C standard describes them in the \<^verbatim>\<open>"C"\<close> locale.
\<close>

section \<open>Classification\<close>

definition is_sign :: "char \<Rightarrow> bool" where "is_sign c \<longleftrightarrow> c = CHR ''+'' \<or> c = CHR ''-''"

definition is_hex_digit :: "char \<Rightarrow> bool" where
  "is_hex_digit c \<longleftrightarrow> is_digit_char c \<or> code (CHR ''a'') \<le> code c \<and> code c \<le> code (CHR ''f'')
     \<or> code (CHR ''A'') \<le> code c \<and> code c \<le> code (CHR ''F'')"

text \<open>The text after an optional sign.\<close>

definition after_sign :: "string \<Rightarrow> string" where
  "after_sign s = (if s \<noteq> [] \<and> is_sign (hd s) then tl s else s)"

definition atom_is_hex_literal :: "string \<Rightarrow> bool" where
  "atom_is_hex_literal atom =
     (let s = after_sign atom
      in if length s < 2 then False
         else if s ! 0 \<noteq> CHR ''0'' \<or> (s ! 1 \<noteq> CHR ''x'' \<and> s ! 1 \<noteq> CHR ''X'') then False
         else if length s = 2 then False
         else list_all is_hex_digit (drop 2 s))"

definition numeric_suffixes :: "(string \<times> type_kind) list" where
  "numeric_suffixes =
     [(''i64'', TypeKind_I64), (''i32'', TypeKind_I32), (''i16'', TypeKind_I16), (''i8'', TypeKind_I8),
      (''u64'', TypeKind_U64), (''u32'', TypeKind_U32), (''u16'', TypeKind_U16), (''u8'', TypeKind_U8),
      (''f32'', TypeKind_F32), (''f64'', TypeKind_F64)]"

definition numeric_suffix_kind :: "string \<Rightarrow> type_kind \<times> nat" where
  "numeric_suffix_kind atom =
     (case find (\<lambda>(suf, k). length suf < length atom \<and> str8_ends_with atom suf 0) numeric_suffixes of
        Some (suf, k) \<Rightarrow> (k, length suf)
      | None \<Rightarrow> (TypeKind_Unresolved, 0))"

record numeric_atom_info =
  is_numeric :: bool
  is_float :: bool
  is_hex :: bool
  explicit_type :: type_kind
  info_body :: string

definition no_info :: numeric_atom_info where
  "no_info = \<lparr>is_numeric = False, is_float = False, is_hex = False, explicit_type = TypeKind_Unresolved, info_body = []\<rparr>"

text \<open>The scan of a decimal body after its sign: the flags for a digit, a dot and an exponent, or
  \<open>None\<close> where the code returns early.\<close>

fun scan_decimal :: "string \<Rightarrow> bool \<Rightarrow> bool \<Rightarrow> (bool \<times> bool \<times> bool) option" where
  "scan_decimal [] seen_digit seen_dot = Some (seen_digit, seen_dot, False)"
| "scan_decimal (c # s) seen_digit seen_dot =
     (if is_digit_char c then scan_decimal s True seen_dot
      else if c = CHR ''.'' then scan_decimal s seen_digit True
      else if (c = CHR ''e'' \<or> c = CHR ''E'') \<and> seen_digit
      then (let e = after_sign s
            in if e = [] \<or> \<not> list_all is_digit_char e then None else Some (seen_digit, seen_dot, True))
      else None)"

definition is_float_kind :: "type_kind \<Rightarrow> bool" where
  "is_float_kind k \<longleftrightarrow> k = TypeKind_F32 \<or> k = TypeKind_F64"

definition atom_classify_numeric :: "string \<Rightarrow> numeric_atom_info" where
  "atom_classify_numeric atom =
     (if atom = [] then no_info
      else
        let (suffix_kind, suffix_len) = numeric_suffix_kind atom;
            body = (if suffix_kind \<noteq> TypeKind_Unresolved then str8_chop atom suffix_len else atom);
            put_back = is_float_kind suffix_kind \<and> atom_is_hex_literal body;
            suffix_kind = (if put_back then TypeKind_Unresolved else suffix_kind);
            body = (if put_back then atom else body)
        in if atom_is_hex_literal body
           then \<lparr>is_numeric = True, is_float = False, is_hex = True, explicit_type = suffix_kind, info_body = body\<rparr>
           else case scan_decimal (after_sign body) False False of
             None \<Rightarrow> no_info
           | Some (seen_digit, seen_dot, seen_exp) \<Rightarrow>
               if \<not> seen_digit then no_info
               else if (seen_dot \<or> seen_exp) \<and> suffix_kind \<noteq> TypeKind_Unresolved \<and> \<not> is_float_kind suffix_kind
               then no_info
               else \<lparr>is_numeric = True, is_float = seen_dot \<or> seen_exp \<or> is_float_kind suffix_kind, is_hex = False,
                      explicit_type = suffix_kind, info_body = body\<rparr>)"

definition atom_looks_numeric :: "string \<Rightarrow> bool" where
  "atom_looks_numeric atom = is_numeric (atom_classify_numeric atom)"

definition atom_is_float_literal :: "string \<Rightarrow> bool" where
  "atom_is_float_literal atom = is_float (atom_classify_numeric atom)"

section \<open>Values\<close>

definition hex_digit_val :: "char \<Rightarrow> nat" where
  "hex_digit_val c =
     (if is_digit_char c then code c - 48
      else if code (CHR ''a'') \<le> code c then code c - code (CHR ''a'') + 10 else code c - code (CHR ''A'') + 10)"

definition digits_value :: "nat \<Rightarrow> string \<Rightarrow> nat" where
  "digits_value base = foldl (\<lambda>v c. v * base + hex_digit_val c) 0"

text \<open>
  The subject of \<^verbatim>\<open>strtoll\<close>: white space, a sign, for base 16 a \<^verbatim>\<open>0x\<close> that a digit follows, and the
  longest run of digits; the result is the sign, the magnitude and the text from \<^verbatim>\<open>endptr\<close> on, or
  \<open>None\<close> where there is no digit.
\<close>

definition strto :: "nat \<Rightarrow> string \<Rightarrow> (bool \<times> nat \<times> string) option" where
  "strto base s0 =
     (let s = dropWhile char_is_space s0;
          neg = (s \<noteq> [] \<and> hd s = CHR ''-'');
          s = after_sign s;
          ok = (if base = 16 then is_hex_digit else is_digit_char);
          s = (if base = 16 \<and> 2 < length s \<and> s ! 0 = CHR ''0'' \<and> (s ! 1 = CHR ''x'' \<or> s ! 1 = CHR ''X'') \<and> ok (s ! 2)
               then drop 2 s else s);
          digits = takeWhile ok s
      in if digits = [] then None else Some (neg, digits_value base digits, dropWhile ok s))"

text \<open>\<^verbatim>\<open>cstr_from_str8_temp\<close> ends the text with a NUL, so a NUL inside it ends it earlier.\<close>

definition cstr :: "string \<Rightarrow> string" where "cstr s = takeWhile (\<lambda>c. c \<noteq> CHR 0x00) s"

definition atom_parse_i64 :: "string \<Rightarrow> bool \<Rightarrow> i64 option" where
  "atom_parse_i64 body hex =
     (case strto (if hex then 16 else 10) (cstr body) of
        None \<Rightarrow> None
      | Some (neg, m, rest) \<Rightarrow>
          let v = (if neg then - int m else int m)
          in if v < - (2 ^ 63) \<or> 2 ^ 63 \<le> v \<or> rest \<noteq> [] then None else Some (word_of_int v))"

definition atom_parse_u64 :: "string \<Rightarrow> bool \<Rightarrow> u64 option" where
  "atom_parse_u64 body hex =
     (case strto (if hex then 16 else 10) (cstr body) of
        None \<Rightarrow> None
      | Some (neg, m, rest) \<Rightarrow>
          if 2 ^ 64 \<le> m \<or> rest \<noteq> [] then None
          else Some (if neg then - of_nat m else of_nat m))"

section \<open>Integer literals\<close>

definition literal_negative :: "string \<Rightarrow> bool" where
  "literal_negative body \<longleftrightarrow> body \<noteq> [] \<and> hd body = CHR ''-''"

definition literal_digits :: "string \<Rightarrow> bool \<Rightarrow> string" where
  "literal_digits body hex = (if hex then drop 2 (after_sign body) else after_sign body)"

definition literal_value :: "string \<Rightarrow> bool \<Rightarrow> int" where
  "literal_value body hex =
     (let m = int (digits_value (if hex then 16 else 10) (literal_digits body hex))
      in if literal_negative body then - m else m)"

lemma hex_digit_facts:
  "is_hex_digit c \<Longrightarrow> \<not> char_is_space c \<and> \<not> is_sign c \<and> c \<noteq> CHR 0x00 \<and> c \<noteq> CHR ''x'' \<and> c \<noteq> CHR ''X''"
  by (auto simp: is_hex_digit_def is_digit_char_def char_is_space_def is_sign_def)

lemma digit_is_hex: "is_digit_char c \<Longrightarrow> is_hex_digit c"
  by (simp add: is_hex_digit_def)

lemma takeWhile_all: "list_all P s \<Longrightarrow> takeWhile P s = s \<and> dropWhile P s = []"
  by (induction s) auto

text \<open>A body whose text after the sign starts with a digit is not changed by the conversion's
  skipping of white space, and holds no NUL when its characters are digits or \<^verbatim>\<open>x\<close>.\<close>

lemma strto_start:
  assumes "s = after_sign body" "s \<noteq> []" "is_hex_digit (hd s)"
    "list_all (\<lambda>c. is_hex_digit c \<or> c = CHR ''x'' \<or> c = CHR ''X'') s"
  shows "dropWhile char_is_space body = body \<and> cstr body = body"
proof -
  have sp: "\<not> char_is_space c" if "is_sign c" for c using that by (auto simp: is_sign_def char_is_space_def)
  have z: "c \<noteq> CHR 0x00" if "is_sign c \<or> is_hex_digit c \<or> c = CHR ''x'' \<or> c = CHR ''X''" for c
    using that hex_digit_facts by (auto simp: is_sign_def)
  have "\<forall>c\<in>set body. is_sign c \<or> c \<in> set s"
    using assms(1) by (cases body) (auto simp: after_sign_def split: if_splits)
  then have "list_all (\<lambda>c. c \<noteq> CHR 0x00) body"
    using assms(4) z unfolding list_all_iff by blast
  then have "cstr body = body" using takeWhile_all unfolding cstr_def by blast
  moreover have "body \<noteq> []" "\<not> char_is_space (hd body)"
    using assms(1-3) sp hex_digit_facts [of "hd s"] by (auto simp: after_sign_def split: if_splits)
  ultimately show ?thesis by (cases body) auto
qed

lemma strto_decimal:
  assumes "s = after_sign body" "s \<noteq> []" "list_all is_digit_char s"
  shows "strto 10 (cstr body) = Some (literal_negative body, digits_value 10 s, [])"
proof -
  have "list_all (\<lambda>c. is_hex_digit c \<or> c = CHR ''x'' \<or> c = CHR ''X'') s"
    using assms(3) digit_is_hex by (auto simp: list_all_iff)
  moreover have "is_hex_digit (hd s)" using assms(2,3) digit_is_hex by (cases s) auto
  ultimately have "dropWhile char_is_space body = body" "cstr body = body"
    using strto_start [OF assms(1,2)] by auto
  moreover have tw: "takeWhile is_digit_char s = s" "dropWhile is_digit_char s = []"
    using takeWhile_all [OF assms(3)] by blast+
  ultimately show ?thesis
    using assms(2) unfolding strto_def by (simp add: Let_def literal_negative_def assms(1) [symmetric] tw)
qed

lemma strto_hex:
  assumes "atom_is_hex_literal body"
  shows "strto 16 (cstr body) = Some (literal_negative body, digits_value 16 (drop 2 (after_sign body)), [])
    \<and> drop 2 (after_sign body) \<noteq> []"
proof -
  obtain x ds where s: "after_sign body = CHR ''0'' # x # ds" "x = CHR ''x'' \<or> x = CHR ''X''" "ds \<noteq> []"
    "list_all is_hex_digit ds"
    using assms by (cases "after_sign body"; cases "tl (after_sign body)")
      (auto simp: atom_is_hex_literal_def Let_def split: if_splits)
  have z: "is_hex_digit (CHR ''0'')" by (simp add: is_hex_digit_def is_digit_char_def)
  have d: "is_hex_digit (ds ! 0)" using s by (cases ds) auto
  have st: "dropWhile char_is_space body = body \<and> cstr body = body"
    by (rule strto_start [OF refl]) (use s z in \<open>auto simp: list_all_iff\<close>)
  have tw: "takeWhile is_hex_digit ds = ds" "dropWhile is_hex_digit ds = []"
    using takeWhile_all [OF s(4)] by blast+
  have pre: "16 = (16 :: nat) \<and> 2 < length (after_sign body) \<and> after_sign body ! 0 = CHR ''0''
      \<and> (after_sign body ! 1 = CHR ''x'' \<or> after_sign body ! 1 = CHR ''X'') \<and> is_hex_digit (after_sign body ! 2)"
    using s d by auto
  show ?thesis
    using s(1,3) unfolding strto_def Let_def st [THEN conjunct1] st [THEN conjunct2] if_P [OF refl] if_P [OF pre]
    by (simp add: tw literal_negative_def)
qed

lemma scan_decimal_integer:
  "scan_decimal s d t = Some (d', False, False) \<Longrightarrow> list_all is_digit_char s \<and> \<not> t \<and> (d' \<longleftrightarrow> d \<or> s \<noteq> [])"
proof (induction s d t rule: scan_decimal.induct)
  case (2 c s d t)
  then show ?case by (cases "is_digit_char c"; cases "c = CHR ''.''") (auto simp: Let_def split: if_splits)
qed simp

lemma classify_parts:
  assumes "is_numeric (atom_classify_numeric atom)"
  obtains (hex) k body where "atom_classify_numeric atom
      = \<lparr>is_numeric = True, is_float = False, is_hex = True, explicit_type = k, info_body = body\<rparr>"
      "atom_is_hex_literal body"
    | (decimal) k body dot exp where "atom_classify_numeric atom
      = \<lparr>is_numeric = True, is_float = dot \<or> exp \<or> is_float_kind k, is_hex = False, explicit_type = k, info_body = body\<rparr>"
      "scan_decimal (after_sign body) False False = Some (True, dot, exp)"
proof -
  have ne: "atom \<noteq> []" using assms by (auto simp: atom_classify_numeric_def no_info_def)
  obtain k n where kn: "numeric_suffix_kind atom = (k, n)" by fastforce
  define b where "b = (if k \<noteq> TypeKind_Unresolved then str8_chop atom n else atom)"
  define pb where "pb \<longleftrightarrow> is_float_kind k \<and> atom_is_hex_literal b"
  define k' body where "k' = (if pb then TypeKind_Unresolved else k)" and "body = (if pb then atom else b)"
  note eq = atom_classify_numeric_def [of atom, unfolded kn prod.case Let_def, folded b_def, folded pb_def,
      folded k'_def body_def]
  show thesis
  proof (cases "atom_is_hex_literal body")
    case True
    then show thesis using hex ne eq by simp
  next
    case False
    then show thesis
      using decimal ne eq assms
      by (cases "scan_decimal (after_sign body) False False") (auto simp: no_info_def split: if_splits)
  qed
qed

lemma classified_integer:
  assumes "i = atom_classify_numeric atom" "is_numeric i" "\<not> is_float i"
  shows "strto (if is_hex i then 16 else 10) (cstr (info_body i))
    = Some (literal_negative (info_body i), digits_value (if is_hex i then 16 else 10) (literal_digits (info_body i) (is_hex i)), [])"
proof -
  have "is_numeric (atom_classify_numeric atom)" using assms by simp
  then show ?thesis
  proof (cases rule: classify_parts)
    case (hex k body)
    then show ?thesis using strto_hex [of body] assms by (simp add: literal_digits_def)
  next
    case (decimal k body dot exp)
    then have "scan_decimal (after_sign body) False False = Some (True, False, False)" using assms by simp
    from scan_decimal_integer [OF this] strto_decimal [OF refl, of body] show ?thesis
      using decimal assms by (simp add: literal_digits_def)
  qed
qed

text \<open>C28: an atom classified as an integer is read completely: its value is that of its sign and
  digits, and reading it fails only when that value does not fit; an unsigned reading takes a minus
  sign modulo two to the 64.\<close>

theorem integer_atom_value:
  assumes "i = atom_classify_numeric atom" and "is_numeric i" and "\<not> is_float i"
    and "v = literal_value (info_body i) (is_hex i)"
  shows "atom_parse_i64 (info_body i) (is_hex i)
      = (if - (2 ^ 63) \<le> v \<and> v < 2 ^ 63 then Some (word_of_int v) else None)
    \<and> atom_parse_u64 (info_body i) (is_hex i) = (if \<bar>v\<bar> < 2 ^ 64 then Some (word_of_int v) else None)"
proof -
  note st = classified_integer [OF assms(1-3)]
  show ?thesis
    using assms(4) by (auto simp: atom_parse_i64_def atom_parse_u64_def st literal_value_def Let_def word_of_int_minus)
qed

lemma integer_atom_value_witness:
  "atom_parse_i64 ''-0x1f'' True = Some (- 31) \<and> atom_parse_u64 ''-0x1f'' True = Some (- 31)"
proof -
  have i: "atom_classify_numeric ''-0x1fi64'' =
      \<lparr>is_numeric = True, is_float = False, is_hex = True, explicit_type = TypeKind_I64, info_body = ''-0x1f''\<rparr>"
    by code_simp
  have v: "literal_value ''-0x1f'' True = - 31" by code_simp
  show ?thesis
    using integer_atom_value [OF i [symmetric] _ _ refl] v by simp
qed

end
