(* ===== verification/Format.thy ===== *)
theory Format
  imports Parser_Tree Atom
begin

text \<open>
  \<^verbatim>\<open>format.c\<close>: the source formatter.  The output file is the text written so far, the comment
  side-channel the list of comments from its cursor on.  \<open>None\<close> stands for a failed assertion, an
  index outside the tree, or a depth above the fuel.  The printers of the single forms take the main
  dispatcher as an argument, and the dispatcher is their recursion over a fuel.
\<close>

section \<open>State\<close>

record fmt_comment =
  cm_text :: string
  cm_line :: u32

record printer =
  pr_out :: string
  pr_pending :: "fmt_comment list"

record fmt_env =
  fe_ast :: ast
  fe_types :: "string list"
  fe_hang :: u32

definition FMT_WIDTH :: nat where "FMT_WIDTH = 100"
definition FMT_INDENT :: u32 where "FMT_INDENT = 2"
definition FMT_HANG_DEFAULT :: u32 where "FMT_HANG_DEFAULT = 2"

abbreviation semicolon :: char where "semicolon \<equiv> CHR 0x3B"
abbreviation space :: char where "space \<equiv> CHR 0x20"

text \<open>\<^verbatim>\<open>fprintf\<close> of a string literal, and of a \<^verbatim>\<open>%.*s\<close>.\<close>

definition pr_lit :: "string \<Rightarrow> printer \<Rightarrow> printer" where
  "pr_lit s pr = pr\<lparr>pr_out := pr_out pr @ s\<rparr>"

definition pr_str :: "string \<Rightarrow> printer \<Rightarrow> printer" where
  "pr_str s = pr_lit (printf_text s)"

definition fmt_write_indent :: "u32 \<Rightarrow> printer \<Rightarrow> printer" where
  "fmt_write_indent n = pr_lit (replicate (unat n) space)"

section \<open>Comments\<close>

function fmt_scan_from :: "string \<Rightarrow> u32 \<Rightarrow> bool \<Rightarrow> fmt_comment list" where
  "fmt_scan_from [] line in_str = []"
| "fmt_scan_from (c # s) line True =
     (if c = backslash \<and> s \<noteq> [] then fmt_scan_from (tl s) (if hd s = newline then line + 1 else line) True
      else fmt_scan_from s (if c = newline then line + 1 else line) (c \<noteq> quote))"
| "fmt_scan_from (c # s) line False =
     (if c = quote then fmt_scan_from s line True
      else if c = semicolon
      then \<lparr>cm_text = str8_skip_chop_whitespace (c # takeWhile (\<lambda>d. d \<noteq> newline) s), cm_line = line\<rparr>
             # fmt_scan_from (dropWhile (\<lambda>d. d \<noteq> newline) s) line False
      else fmt_scan_from s (if c = newline then line + 1 else line) False)"
  by pat_completeness auto
termination
  by (relation "measure (\<lambda>(s, line, in_str). length s)") (auto simp: length_dropWhile_le le_imp_less_Suc)

definition fmt_scan_comments :: "string \<Rightarrow> fmt_comment list" where
  "fmt_scan_comments src = fmt_scan_from src 1 False"

fun pending_in :: "fmt_comment list \<Rightarrow> u32 \<Rightarrow> u32 \<Rightarrow> bool" where
  "pending_in [] start_line end_line = False"
| "pending_in (c # cs) start_line end_line =
     (if cm_line c < end_line then (if start_line \<le> cm_line c then True else pending_in cs start_line end_line)
      else False)"

definition fmt_has_pending_comment_in :: "printer \<Rightarrow> u32 \<Rightarrow> u32 \<Rightarrow> bool" where
  "fmt_has_pending_comment_in pr = pending_in (pr_pending pr)"

definition fmt_has_comment_at_line :: "printer \<Rightarrow> u32 \<Rightarrow> bool" where
  "fmt_has_comment_at_line pr line =
     (case dropWhile (\<lambda>c. cm_line c < line) (pr_pending pr) of [] \<Rightarrow> False | c # cs \<Rightarrow> cm_line c = line)"

text \<open>The loop of \<^verbatim>\<open>fmt_flush_comments_before\<close>; the line of the comment before, if there was one.\<close>

fun flush_before :: "u32 \<Rightarrow> u32 \<Rightarrow> u32 option \<Rightarrow> fmt_comment list \<Rightarrow> string \<Rightarrow> printer" where
  "flush_before indent before_line prev [] out = \<lparr>pr_out = out, pr_pending = []\<rparr>"
| "flush_before indent before_line prev (c # cs) out =
     (if cm_line c < before_line
      then flush_before indent before_line (Some (cm_line c)) cs
             (out @ (case prev of None \<Rightarrow> [] | Some p \<Rightarrow> if p + 1 < cm_line c then [newline] else [])
                @ replicate (unat indent) space @ printf_text (cm_text c) @ [newline])
      else \<lparr>pr_out = out, pr_pending = c # cs\<rparr>)"

definition fmt_flush_comments_before :: "u32 \<Rightarrow> u32 \<Rightarrow> printer \<Rightarrow> printer" where
  "fmt_flush_comments_before indent before_line pr = flush_before indent before_line None (pr_pending pr) (pr_out pr)"

definition fmt_flush_trailing :: "u32 \<Rightarrow> printer \<Rightarrow> bool \<times> printer" where
  "fmt_flush_trailing line pr =
     (case pr_pending pr of
        [] \<Rightarrow> (False, pr)
      | c # cs \<Rightarrow> if cm_line c = line then (True, (pr_str (cm_text c) (pr_lit [space] pr))\<lparr>pr_pending := cs\<rparr>)
                 else (False, pr))"

section \<open>Reading the tree\<close>

definition tree_fuel :: "ast \<Rightarrow> nat" where "tree_fuel ast = length (ast_nodes ast)"

fun end_line_fuel :: "nat \<Rightarrow> ast \<Rightarrow> node_index \<Rightarrow> u32 option" where
  "end_line_fuel 0 ast idx = None"
| "end_line_fuel (Suc n) ast idx =
     do { node \<leftarrow> ast_get ast idx;
          if an_kind node = AstNodeKind_Atom \<or> an_kind node = AstNodeKind_String then Some (tok_line (an_token node))
          else do { children \<leftarrow> ast_seq_children ast idx;
                    if children = [] then Some (tok_line (an_token node))
                    else end_line_fuel n ast (last children) } }"

definition fmt_node_end_line :: "ast \<Rightarrow> node_index \<Rightarrow> u32 option" where
  "fmt_node_end_line ast = end_line_fuel (tree_fuel ast) ast"

definition node_line :: "ast \<Rightarrow> node_index \<Rightarrow> u32 option" where
  "node_line ast idx = map_option (\<lambda>node. tok_line (an_token node)) (ast_get ast idx)"

definition node_text :: "ast \<Rightarrow> node_index \<Rightarrow> string option" where
  "node_text ast idx = map_option (\<lambda>node. tok_text (an_token node)) (ast_get ast idx)"

definition is_type_decl :: "string \<Rightarrow> bool" where
  "is_type_decl op \<longleftrightarrow> op \<in> {''struct'', ''union'', ''enum'', ''flags'', ''alias''}"

fun collect_form :: "nat \<Rightarrow> ast \<Rightarrow> node_index \<Rightarrow> string list option" where
  "collect_form 0 ast idx = None"
| "collect_form (Suc n) ast idx =
     do { node \<leftarrow> ast_get ast idx;
          if an_kind node \<noteq> AstNodeKind_List then Some []
          else do { children \<leftarrow> ast_seq_children ast idx;
                    if children = [] then Some []
                    else do { head \<leftarrow> ast_get ast (hd children);
                              let op = tok_text (an_token head);
                              if an_kind head \<noteq> AstNodeKind_Atom then Some []
                              else if op = ''private'' \<or> op = ''extern''
                              then map_option concat (those (map (collect_form n ast) (tl children)))
                              else if is_type_decl op \<and> 2 \<le> length children
                              then do { name \<leftarrow> ast_get ast (children ! 1);
                                        Some (if an_kind name = AstNodeKind_Atom then [tok_text (an_token name)] else []) }
                              else Some [] } } }"

definition fmt_collect_type_names :: "ast \<Rightarrow> node_index \<Rightarrow> string list option" where
  "fmt_collect_type_names ast root =
     do { children \<leftarrow> ast_seq_children ast root;
          map_option concat (those (map (collect_form (tree_fuel ast) ast) children)) }"

definition fmt_is_known_type_atom :: "string list \<Rightarrow> string \<Rightarrow> bool" where
  "fmt_is_known_type_atom types name =
     (let base = rev (dropWhile (\<lambda>c. c = CHR ''*'') (rev name))
      in if base = [] then False else if is_primitive_type_name base then True else base \<in> set types)"

definition fmt_let_slot_looks_like_type :: "fmt_env \<Rightarrow> node_index \<Rightarrow> bool option" where
  "fmt_let_slot_looks_like_type env idx =
     do { node \<leftarrow> ast_get (fe_ast env) idx;
          if an_kind node = AstNodeKind_Atom
          then Some (fmt_is_known_type_atom (fe_types env) (tok_text (an_token node)))
          else if an_kind node = AstNodeKind_Vector then Some True
          else if an_kind node = AstNodeKind_List
          then do { children \<leftarrow> ast_seq_children (fe_ast env) idx;
                    if children = [] then Some False
                    else do { head \<leftarrow> ast_get (fe_ast env) (hd children);
                              Some (an_kind head = AstNodeKind_Atom \<and> tok_text (an_token head) = ''member-type'') } }
          else Some False }"

section \<open>Inline rendering\<close>

definition escape_char :: "char \<Rightarrow> char option" where
  "escape_char c =
     (if c = newline then Some (CHR ''n'') else if c = CHR 0x09 then Some (CHR ''t'')
      else if c = CHR 0x0D then Some (CHR ''r'') else if c = backslash then Some backslash
      else if c = quote then Some quote else if c = NUL then Some (CHR ''0'') else None)"

definition escape_body :: "string \<Rightarrow> string" where
  "escape_body s = concat (map (\<lambda>c. case escape_char c of Some e \<Rightarrow> [backslash, e] | None \<Rightarrow> [c]) s)"

definition fmt_escape_string :: "string \<Rightarrow> string" where
  "fmt_escape_string s = [quote] @ escape_body s @ [quote]"

text \<open>The parts of \<^verbatim>\<open>fmt_render_seq_inline\<close>, joined.\<close>

fun join_spaced :: "string list \<Rightarrow> string" where
  "join_spaced [] = []"
| "join_spaced [x] = x"
| "join_spaced (x # y # xs) = x @ [space] @ join_spaced (y # xs)"

definition seq_open :: "ast_node_kind \<Rightarrow> string" where
  "seq_open k = (if k = AstNodeKind_List then ''('' else if k = AstNodeKind_Vector then ''['' else ''{'')"

definition seq_close :: "ast_node_kind \<Rightarrow> string" where
  "seq_close k = (if k = AstNodeKind_List then '')'' else if k = AstNodeKind_Vector then '']'' else ''}'')"

fun render_fuel :: "nat \<Rightarrow> ast \<Rightarrow> node_index \<Rightarrow> string option" where
  "render_fuel 0 ast idx = None"
| "render_fuel (Suc n) ast idx =
     do { node \<leftarrow> ast_get ast idx;
          if an_kind node = AstNodeKind_Atom then Some (tok_text (an_token node))
          else if an_kind node = AstNodeKind_String then Some (fmt_escape_string (tok_text (an_token node)))
          else if is_seq_kind (an_kind node)
          then do { children \<leftarrow> ast_seq_children ast idx;
                    parts \<leftarrow> those (map (render_fuel n ast) children);
                    Some (seq_open (an_kind node) @ join_spaced parts @ seq_close (an_kind node)) }
          else Some [] }"

definition fmt_render_inline :: "ast \<Rightarrow> node_index \<Rightarrow> string option" where
  "fmt_render_inline ast = render_fuel (tree_fuel ast) ast"

text \<open>The rendered text, or \<open>Some None\<close> where it does not fit.\<close>

definition fmt_measure_inline :: "fmt_env \<Rightarrow> node_index \<Rightarrow> u32 \<Rightarrow> printer \<Rightarrow> string option option" where
  "fmt_measure_inline env idx indent pr =
     do { line \<leftarrow> node_line (fe_ast env) idx;
          stop \<leftarrow> fmt_node_end_line (fe_ast env) idx;
          if fmt_has_pending_comment_in pr line stop then Some None
          else do { s \<leftarrow> fmt_render_inline (fe_ast env) idx;
                    Some (if unat indent + length s > FMT_WIDTH then None else Some s) } }"

definition fmt_try_inline :: "fmt_env \<Rightarrow> node_index \<Rightarrow> u32 \<Rightarrow> printer \<Rightarrow> (bool \<times> printer) option" where
  "fmt_try_inline env idx indent pr =
     map_option (\<lambda>r. case r of None \<Rightarrow> (False, pr) | Some s \<Rightarrow> (True, pr_str s pr)) (fmt_measure_inline env idx indent pr)"

end
