(* ===== verification/Format_Forms.thy ===== *)
theory Format_Forms
  imports Format
begin

text \<open>
  The multi-line half of \<^verbatim>\<open>format.c\<close>: one printer per form, the dispatcher and the whole program.
  Each printer of a form takes the dispatcher as \<open>node\<close>.
\<close>

type_synonym node_printer = "node_index \<Rightarrow> u32 \<Rightarrow> printer \<Rightarrow> printer option"

section \<open>Steps the forms share\<close>

text \<open>A node and the comment at its end; the flag tells whether there was one.\<close>

definition node_trailing :: "node_printer \<Rightarrow> fmt_env \<Rightarrow> node_index \<Rightarrow> u32 \<Rightarrow> printer \<Rightarrow> (bool \<times> printer) option" where
  "node_trailing node env idx col pr =
     do { pr \<leftarrow> node idx col pr;
          line \<leftarrow> fmt_node_end_line (fe_ast env) idx;
          Some (fmt_flush_trailing line pr) }"

text \<open>The comments before a node on lines of their own, then its indentation.\<close>

definition fresh_line :: "fmt_env \<Rightarrow> node_index \<Rightarrow> u32 \<Rightarrow> printer \<Rightarrow> printer option" where
  "fresh_line env idx col pr =
     map_option (\<lambda>line. fmt_write_indent col (fmt_flush_comments_before col line pr)) (node_line (fe_ast env) idx)"

definition break_line :: "bool \<Rightarrow> u32 \<Rightarrow> printer \<Rightarrow> printer" where
  "break_line trailing indent pr = (if trailing then fmt_write_indent indent (pr_lit [newline] pr) else pr)"

text \<open>Children one per line: a line break before each, or between them.\<close>

fun lines_before :: "node_printer \<Rightarrow> fmt_env \<Rightarrow> u32 \<Rightarrow> node_index list \<Rightarrow> bool \<Rightarrow> printer \<Rightarrow> (bool \<times> printer) option" where
  "lines_before node env col [] trailing pr = Some (trailing, pr)"
| "lines_before node env col (c # cs) trailing pr =
     do { pr \<leftarrow> fresh_line env c col (pr_lit [newline] pr);
          (trailing, pr) \<leftarrow> node_trailing node env c col pr;
          lines_before node env col cs trailing pr }"

fun lines_between :: "node_printer \<Rightarrow> fmt_env \<Rightarrow> u32 \<Rightarrow> node_index list \<Rightarrow> bool \<Rightarrow> printer \<Rightarrow> (bool \<times> printer) option" where
  "lines_between node env col [] trailing pr = Some (trailing, pr)"
| "lines_between node env col (c # cs) trailing pr =
     do { pr \<leftarrow> fresh_line env c col pr;
          (trailing, pr) \<leftarrow> node_trailing node env c col pr;
          lines_between node env col cs trailing (if cs = [] then pr else pr_lit [newline] pr) }"

section \<open>Pair vectors\<close>

fun pairs_of :: "node_index list \<Rightarrow> (node_index \<times> node_index) list" where
  "pairs_of (a # b # cs) = (a, b) # pairs_of cs"
| "pairs_of cs = []"

definition size_u32 :: "string \<Rightarrow> u32" where "size_u32 s = of_nat (length s)"

text \<open>The pre-pass over one pair: the rendered value if it is a single line, and whether a comment
  follows it.\<close>

definition pair_shape :: "fmt_env \<Rightarrow> u32 \<Rightarrow> printer \<Rightarrow> node_index \<Rightarrow> (string option \<times> bool) option" where
  "pair_shape env value_col pr value =
     do { r \<leftarrow> fmt_measure_inline env value value_col pr;
          case r of
            None \<Rightarrow> Some (None, False)
          | Some s \<Rightarrow> do { line \<leftarrow> fmt_node_end_line (fe_ast env) value;
                           Some (Some s, fmt_has_comment_at_line pr line) } }"

text \<open>The target widths: each run of commented single-line values shares the widest.\<close>

function pad_widths :: "(string option \<times> bool) list \<Rightarrow> u32 list" where
  "pad_widths [] = []"
| "pad_widths ((s, False) # xs) = 0 # pad_widths xs"
| "pad_widths ((s, True) # xs) =
     (let run = (s, True) # takeWhile snd xs;
          w = fold max (map (\<lambda>x. case fst x of Some t \<Rightarrow> size_u32 t | None \<Rightarrow> 0) run) 0
      in replicate (length run) w @ pad_widths (dropWhile snd xs))"
  by pat_completeness auto
termination
  by (relation "measure length") (auto simp: length_dropWhile_le le_imp_less_Suc)

text \<open>The value of a pair: its rendering, padded to the width of its run, or the node itself.\<close>

definition print_value :: "node_printer \<Rightarrow> u32 \<Rightarrow> node_index \<Rightarrow> string option \<times> bool \<Rightarrow> u32 \<Rightarrow> printer \<Rightarrow> printer option" where
  "print_value node value_col value shape width pr =
     (case fst shape of
        Some s \<Rightarrow> (let pr = pr_str s pr
                   in Some (if snd shape \<and> unat width > length s then fmt_write_indent (width - size_u32 s) pr else pr))
      | None \<Rightarrow> node value value_col pr)"

definition print_pair :: "node_printer \<Rightarrow> fmt_env \<Rightarrow> u32 \<Rightarrow> u32 \<Rightarrow> node_index \<times> node_index
    \<Rightarrow> string option \<times> bool \<Rightarrow> u32 \<Rightarrow> printer \<Rightarrow> (bool \<times> printer) option" where
  "print_pair node env max_name value_col pair shape width pr =
     do { name \<leftarrow> node_text (fe_ast env) (fst pair);
          let pr = fmt_write_indent (max_name - size_u32 name + 1) (pr_str name pr);
          pr \<leftarrow> print_value node value_col (snd pair) shape width pr;
          line \<leftarrow> fmt_node_end_line (fe_ast env) (snd pair);
          Some (fmt_flush_trailing line pr) }"

fun print_pairs :: "node_printer \<Rightarrow> fmt_env \<Rightarrow> u32 \<Rightarrow> u32 \<Rightarrow> u32 \<Rightarrow> (node_index \<times> node_index) list
    \<Rightarrow> ((string option \<times> bool) \<times> u32) list \<Rightarrow> bool \<Rightarrow> bool \<Rightarrow> printer \<Rightarrow> (bool \<times> printer) option" where
  "print_pairs node env col max_name value_col (p # ps) (s # ss) first trailing pr =
     do { pr \<leftarrow> (if first then Some pr else fresh_line env (fst p) (col + 1) (pr_lit [newline] pr));
          (trailing, pr) \<leftarrow> print_pair node env max_name value_col p (fst s) (snd s) pr;
          print_pairs node env col max_name value_col ps ss False trailing pr }"
| "print_pairs node env col max_name value_col ps ss first trailing pr = Some (trailing, pr)"

definition fmt_pair_vector :: "node_printer \<Rightarrow> fmt_env \<Rightarrow> node_index \<Rightarrow> u32 \<Rightarrow> printer \<Rightarrow> (bool \<times> printer) option" where
  "fmt_pair_vector node env vec_idx col pr =
     do { children \<leftarrow> ast_seq_children (fe_ast env) vec_idx;
          let pairs = pairs_of children;
          names \<leftarrow> those (map (node_text (fe_ast env) \<circ> fst) pairs);
          let max_name = fold max (map size_u32 names) 0;
          let value_col = col + 1 + max_name + 1;
          shapes \<leftarrow> those (map (pair_shape env value_col pr \<circ> snd) pairs);
          print_pairs node env col max_name value_col pairs (zip shapes (pad_widths shapes)) True False
            (pr_lit ''['' pr) }"

section \<open>Calls and sequences\<close>

definition fmt_call :: "node_printer \<Rightarrow> fmt_env \<Rightarrow> node_index \<Rightarrow> node_index list \<Rightarrow> u32 \<Rightarrow> printer \<Rightarrow> printer option" where
  "fmt_call node env idx children indent pr =
     do { (fits, pr) \<leftarrow> fmt_try_inline env idx indent pr;
          if fits then Some pr
          else case children of
            [] \<Rightarrow> Some (pr_lit ''()'' pr)
          | head # args \<Rightarrow>
              do { head_s \<leftarrow> fmt_render_inline (fe_ast env) head;
                   let pr = pr_str head_s (pr_lit ''('' pr);
                   let align_col = indent + 1 + size_u32 head_s + 1;
                   (trailing, pr) \<leftarrow>
                     (case args of
                        [] \<Rightarrow> Some (False, pr)
                      | a # rest \<Rightarrow>
                          do { (trailing, pr) \<leftarrow> node_trailing node env a align_col (pr_lit '' '' pr);
                               lines_before node env align_col rest trailing pr });
                   Some (pr_lit '')'' (break_line trailing indent pr)) } }"

text \<open>The loop of \<^verbatim>\<open>fmt_seq_generic\<close> over single children, and over the pairs of a map.\<close>

fun seq_items :: "node_printer \<Rightarrow> fmt_env \<Rightarrow> u32 \<Rightarrow> bool \<Rightarrow> node_index list \<Rightarrow> bool \<Rightarrow> bool \<Rightarrow> printer
    \<Rightarrow> (bool \<times> printer) option" where
  "seq_items node env col paired [] first trailing pr = Some (trailing, pr)"
| "seq_items node env col paired (c # cs) first trailing pr =
     do { pr \<leftarrow> (if first then Some pr else fresh_line env c col (pr_lit [newline] pr));
          (trailing, pr) \<leftarrow> node_trailing node env c col pr;
          if paired
          then (case cs of
                  [] \<Rightarrow> Some (trailing, pr)
                | v # rest \<Rightarrow> do { (trailing, pr) \<leftarrow> node_trailing node env v col (pr_lit '' '' pr);
                                   seq_items node env col paired rest False trailing pr })
          else seq_items node env col paired cs False trailing pr }"

definition fmt_seq_generic :: "node_printer \<Rightarrow> fmt_env \<Rightarrow> node_index \<Rightarrow> u32 \<Rightarrow> printer \<Rightarrow> printer option" where
  "fmt_seq_generic node env idx indent pr =
     do { (fits, pr) \<leftarrow> fmt_try_inline env idx indent pr;
          if fits then Some pr
          else do { nd \<leftarrow> ast_get (fe_ast env) idx;
                    let is_map = (an_kind nd = AstNodeKind_Map);
                    let close = (if is_map then ''}'' else '']'');
                    children \<leftarrow> ast_seq_children (fe_ast env) idx;
                    let pr = pr_lit (if is_map then ''{'' else ''['') pr;
                    if children = [] then Some (pr_lit close pr)
                    else do { (trailing, pr) \<leftarrow> seq_items node env (indent + 1) (is_map \<and> even (length children))
                                                  children True False pr;
                              Some (pr_lit close (break_line trailing indent pr)) } } }"

section \<open>Declarations\<close>

definition fmt_fn :: "node_printer \<Rightarrow> fmt_env \<Rightarrow> node_index \<Rightarrow> node_index list \<Rightarrow> u32 \<Rightarrow> printer \<Rightarrow> printer option" where
  "fmt_fn node env idx children indent pr =
     (if length children < 4 then fmt_call node env idx children indent pr
      else if length children = 4 then map_option (\<lambda>s. pr_str s pr) (fmt_render_inline (fe_ast env) idx)
      else
        do { let params_idx = children ! 2;
             let ret_idx = children ! 3;
             name_line \<leftarrow> node_line (fe_ast env) (children ! 1);
             name \<leftarrow> node_text (fe_ast env) (children ! 1);
             flat \<leftarrow> ast_seq_children (fe_ast env) params_idx;
             ret_end \<leftarrow> fmt_node_end_line (fe_ast env) ret_idx;
             params_s \<leftarrow> fmt_render_inline (fe_ast env) params_idx;
             ret_s \<leftarrow> fmt_render_inline (fe_ast env) ret_idx;
             let header = ''(fn '' @ name @ '' '' @ params_s @ '' '' @ ret_s;
             let hang = indent + fe_hang env;
             pr \<leftarrow>
               (if length flat div 2 \<le> 1 \<and> \<not> fmt_has_pending_comment_in pr name_line ret_end
                   \<and> unat indent + length header \<le> FMT_WIDTH
                then Some (pr_str header pr)
                else do { let pr = fmt_write_indent hang (pr_lit [newline] (pr_str name (pr_lit ''(fn '' pr)));
                          (trailing, pr) \<leftarrow> fmt_pair_vector node env params_idx hang pr;
                          Some (pr_str ret_s (pr_lit ''] '' (break_line trailing hang pr))) });
             (trailing, pr) \<leftarrow> lines_between node env (indent + FMT_INDENT) (drop 4 children) False (pr_lit [newline] pr);
             Some (pr_lit '')'' (break_line trailing indent pr)) })"

text \<open>The opening line of a declaration that may carry a pinned C spelling.\<close>

definition decl_head :: "fmt_env \<Rightarrow> node_index list \<Rightarrow> printer \<Rightarrow> printer option" where
  "decl_head env children pr =
     do { head \<leftarrow> node_text (fe_ast env) (children ! 0);
          name \<leftarrow> node_text (fe_ast env) (children ! 1);
          let pr = pr_str name (pr_lit '' '' (pr_str head (pr_lit ''('' pr)));
          if length children = 4
          then map_option (\<lambda>c. pr_lit [quote] (pr_str c (pr_lit [space, quote] pr))) (node_text (fe_ast env) (children ! 2))
          else Some pr }"

definition fmt_struct :: "node_printer \<Rightarrow> fmt_env \<Rightarrow> node_index \<Rightarrow> node_index list \<Rightarrow> u32 \<Rightarrow> printer \<Rightarrow> printer option" where
  "fmt_struct node env idx children indent pr =
     (if length children \<noteq> 3 \<and> length children \<noteq> 4 then fmt_call node env idx children indent pr
      else
        do { flat \<leftarrow> ast_seq_children (fe_ast env) (last children);
             (fits, pr) \<leftarrow> (if length flat div 2 \<le> 1 then fmt_try_inline env idx indent pr else Some (False, pr));
             if fits then Some pr
             else do { pr \<leftarrow> decl_head env children pr;
                       let col = indent + fe_hang env;
                       (trailing, pr) \<leftarrow> fmt_pair_vector node env (last children) col
                                           (fmt_write_indent col (pr_lit [newline] pr));
                       Some (pr_lit ''])'' (break_line trailing col pr)) } })"

text \<open>The variants, each with the numeric value that may follow it.\<close>

fun enum_variants :: "fmt_env \<Rightarrow> u32 \<Rightarrow> node_index list \<Rightarrow> bool \<Rightarrow> bool \<Rightarrow> printer \<Rightarrow> (bool \<times> printer) option" where
  "enum_variants env col [] first trailing pr = Some (trailing, pr)"
| "enum_variants env col [v] first trailing pr =
     do { name \<leftarrow> node_text (fe_ast env) v;
          pr \<leftarrow> (if first then Some pr else fresh_line env v (col + 1) (pr_lit [newline] pr));
          line \<leftarrow> node_line (fe_ast env) v;
          Some (fmt_flush_trailing line (pr_str name pr)) }"
| "enum_variants env col (v # w # vs) first trailing pr =
     do { name \<leftarrow> node_text (fe_ast env) v;
          pr \<leftarrow> (if first then Some pr else fresh_line env v (col + 1) (pr_lit [newline] pr));
          let pr = pr_str name pr;
          maybe_val \<leftarrow> ast_get (fe_ast env) w;
          let val = tok_text (an_token maybe_val);
          if an_kind maybe_val = AstNodeKind_Atom \<and> atom_looks_numeric val
          then (let (trailing, pr) = fmt_flush_trailing (tok_line (an_token maybe_val)) (pr_str val (pr_lit '' '' pr))
                in enum_variants env col vs False trailing pr)
          else do { line \<leftarrow> node_line (fe_ast env) v;
                    let (trailing, pr) = fmt_flush_trailing line pr;
                    enum_variants env col (w # vs) False trailing pr } }"

definition fmt_enum :: "node_printer \<Rightarrow> fmt_env \<Rightarrow> node_index \<Rightarrow> node_index list \<Rightarrow> u32 \<Rightarrow> printer \<Rightarrow> printer option" where
  "fmt_enum node env idx children indent pr =
     (if length children \<noteq> 3 \<and> length children \<noteq> 4 then fmt_call node env idx children indent pr
      else
        do { (fits, pr) \<leftarrow> fmt_try_inline env idx indent pr;
             if fits then Some pr
             else do { variants \<leftarrow> ast_seq_children (fe_ast env) (last children);
                       pr \<leftarrow> decl_head env children pr;
                       let col = indent + fe_hang env;
                       (trailing, pr) \<leftarrow> enum_variants env col variants True False
                                           (pr_lit ''['' (fmt_write_indent col (pr_lit [newline] pr)));
                       Some (pr_lit ''])'' (break_line trailing col pr)) } })"

definition fmt_private_extern :: "node_printer \<Rightarrow> fmt_env \<Rightarrow> node_index \<Rightarrow> node_index list \<Rightarrow> u32 \<Rightarrow> printer \<Rightarrow> printer option" where
  "fmt_private_extern node env idx children indent pr =
     (if length children < 2 then fmt_call node env idx children indent pr
      else
        do { (fits, pr) \<leftarrow> (if length children = 2 then fmt_try_inline env idx indent pr else Some (False, pr));
             if fits then Some pr
             else do { head \<leftarrow> node_text (fe_ast env) (children ! 0);
                       let pr = pr_lit [newline] (pr_str head (pr_lit ''('' pr));
                       (trailing, pr) \<leftarrow> lines_between node env (indent + FMT_INDENT) (tl children) False pr;
                       Some (pr_lit '')'' (break_line trailing indent pr)) } })"

section \<open>Blocks\<close>

text \<open>The number of slots a \<^verbatim>\<open>let\<close> binding takes, and the grouping of the flat vector.\<close>

definition group_len :: "fmt_env \<Rightarrow> node_index list \<Rightarrow> nat option" where
  "group_len env flat =
     do { slot0 \<leftarrow> ast_get (fe_ast env) (hd flat);
          if an_kind slot0 = AstNodeKind_Map \<or> an_kind slot0 = AstNodeKind_Vector
          then Some (if 1 < length flat then 2 else 1)
          else if 1 < length flat
          then map_option (\<lambda>ty. if ty then (if 2 < length flat then 3 else 2) else 2)
                 (fmt_let_slot_looks_like_type env (flat ! 1))
          else Some 1 }"

function let_groups :: "fmt_env \<Rightarrow> node_index list \<Rightarrow> node_index list list option" where
  "let_groups env [] = Some []"
| "let_groups env (c # cs) =
     (case group_len env (c # cs) of
        None \<Rightarrow> None
      | Some n \<Rightarrow> map_option (\<lambda>gs. take n (c # cs) # gs) (let_groups env (drop (n - 1) cs)))"
  by pat_completeness auto
termination by (relation "measure (\<lambda>(env, flat). length flat)") auto

fun group_slots :: "node_printer \<Rightarrow> fmt_env \<Rightarrow> u32 \<Rightarrow> node_index list \<Rightarrow> printer \<Rightarrow> printer option" where
  "group_slots node env col [] pr = Some pr"
| "group_slots node env col [c] pr = node c col pr"
| "group_slots node env col (c # d # cs) pr =
     do { pr \<leftarrow> node c col pr; group_slots node env col (d # cs) (pr_lit '' '' pr) }"

fun print_groups :: "node_printer \<Rightarrow> fmt_env \<Rightarrow> u32 \<Rightarrow> node_index list list \<Rightarrow> bool \<Rightarrow> bool \<Rightarrow> printer
    \<Rightarrow> (bool \<times> printer) option" where
  "print_groups node env col [] first trailing pr = Some (trailing, pr)"
| "print_groups node env col (g # gs) first trailing pr =
     do { pr \<leftarrow> (if first then Some pr else fresh_line env (hd g) col (pr_lit [newline] pr));
          pr \<leftarrow> group_slots node env col g pr;
          line \<leftarrow> fmt_node_end_line (fe_ast env) (last g);
          let (trailing, pr) = fmt_flush_trailing line pr;
          print_groups node env col gs False trailing pr }"

definition fmt_let :: "node_printer \<Rightarrow> fmt_env \<Rightarrow> node_index \<Rightarrow> node_index list \<Rightarrow> u32 \<Rightarrow> printer \<Rightarrow> printer option" where
  "fmt_let node env idx children indent pr =
     (if length children < 3 then fmt_call node env idx children indent pr
      else
        do { flat \<leftarrow> ast_seq_children (fe_ast env) (children ! 1);
             groups \<leftarrow> let_groups env flat;
             let cont_col = indent + 6;
             (trailing, pr) \<leftarrow> print_groups node env cont_col groups True False (pr_lit ''(let ['' pr);
             let pr = pr_lit '']'' (break_line trailing cont_col pr);
             (trailing, pr) \<leftarrow> lines_before node env (indent + FMT_INDENT) (drop 2 children) False pr;
             Some (pr_lit '')'' (break_line trailing indent pr)) })"

fun header_children :: "fmt_env \<Rightarrow> node_index list \<Rightarrow> printer \<Rightarrow> printer option" where
  "header_children env [] pr = Some pr"
| "header_children env (c # cs) pr =
     do { s \<leftarrow> fmt_render_inline (fe_ast env) c; header_children env cs (pr_str s (pr_lit '' '' pr)) }"

definition fmt_block_form :: "node_printer \<Rightarrow> fmt_env \<Rightarrow> node_index \<Rightarrow> node_index list \<Rightarrow> u32 \<Rightarrow> nat \<Rightarrow> printer
    \<Rightarrow> printer option" where
  "fmt_block_form node env idx children indent header_arity pr =
     do { (fits, pr) \<leftarrow> fmt_try_inline env idx indent pr;
          if fits then Some pr
          else do { head \<leftarrow> node_text (fe_ast env) (children ! 0);
                    pr \<leftarrow> header_children env (take header_arity (tl children)) (pr_str head (pr_lit ''('' pr));
                    (trailing, pr) \<leftarrow> lines_between node env (indent + FMT_INDENT) (drop (1 + header_arity) children)
                                        False (pr_lit [newline] pr);
                    Some (pr_lit '')'' (break_line trailing indent pr)) } }"

section \<open>The dispatcher\<close>

definition fmt_list :: "node_printer \<Rightarrow> fmt_env \<Rightarrow> node_index \<Rightarrow> u32 \<Rightarrow> printer \<Rightarrow> printer option" where
  "fmt_list node env idx indent pr =
     do { children \<leftarrow> ast_seq_children (fe_ast env) idx;
          op \<leftarrow> (if children = [] then Some None
                 else map_option (\<lambda>head. if an_kind head = AstNodeKind_Atom then Some (tok_text (an_token head)) else None)
                        (ast_get (fe_ast env) (hd children)));
          if op = Some ''fn'' then fmt_fn node env idx children indent pr
          else if op \<in> {Some ''struct'', Some ''union''} then fmt_struct node env idx children indent pr
          else if op \<in> {Some ''enum'', Some ''flags''} then fmt_enum node env idx children indent pr
          else if op = Some ''let'' then fmt_let node env idx children indent pr
          else if op \<in> {Some ''private'', Some ''extern''} then fmt_private_extern node env idx children indent pr
          else if op \<in> {Some ''if'', Some ''when'', Some ''while'', Some ''for''}
          then fmt_block_form node env idx children indent 1 pr
          else if op = Some ''do'' then fmt_block_form node env idx children indent 0 pr
          else fmt_call node env idx children indent pr }"

fun fmt_node :: "nat \<Rightarrow> fmt_env \<Rightarrow> node_printer" where
  "fmt_node 0 env idx indent pr = None"
| "fmt_node (Suc n) env idx indent pr =
     do { nd \<leftarrow> ast_get (fe_ast env) idx;
          if an_kind nd = AstNodeKind_Atom \<or> an_kind nd = AstNodeKind_String
          then map_option (\<lambda>s. pr_str s pr) (fmt_render_inline (fe_ast env) idx)
          else if an_kind nd = AstNodeKind_List then fmt_list (fmt_node n env) env idx indent pr
          else fmt_seq_generic (fmt_node n env) env idx indent pr }"

section \<open>Programs\<close>

definition fmt_top_level_op :: "ast \<Rightarrow> node_index \<Rightarrow> string option" where
  "fmt_top_level_op ast idx =
     do { node \<leftarrow> ast_get ast idx;
          if an_kind node \<noteq> AstNodeKind_List then Some []
          else do { children \<leftarrow> ast_seq_children ast idx;
                    if children = [] then Some []
                    else map_option (\<lambda>head. if an_kind head = AstNodeKind_Atom then tok_text (an_token head) else [])
                           (ast_get ast (hd children)) } }"

definition fmt_is_no_gap_op :: "string \<Rightarrow> bool" where
  "fmt_is_no_gap_op op \<longleftrightarrow> op \<in> {''val'', ''var'', ''alias''}"

definition blank_between :: "string \<Rightarrow> string \<Rightarrow> bool" where
  "blank_between cur_op next_op \<longleftrightarrow>
     cur_op = ''fn'' \<or> next_op = ''fn'' \<or> \<not> (fmt_is_no_gap_op cur_op \<and> fmt_is_no_gap_op next_op)"

fun top_forms :: "node_printer \<Rightarrow> fmt_env \<Rightarrow> node_index list \<Rightarrow> printer \<Rightarrow> printer option" where
  "top_forms node env [] pr = Some pr"
| "top_forms node env (c # cs) pr =
     do { line \<leftarrow> node_line (fe_ast env) c;
          pr \<leftarrow> node c 0 (fmt_flush_comments_before 0 line pr);
          stop \<leftarrow> fmt_node_end_line (fe_ast env) c;
          let pr = pr_lit [newline] (snd (fmt_flush_trailing stop pr));
          gap \<leftarrow> (case cs of [] \<Rightarrow> Some False
                   | d # ds \<Rightarrow> do { a \<leftarrow> fmt_top_level_op (fe_ast env) c;
                                    b \<leftarrow> fmt_top_level_op (fe_ast env) d;
                                    Some (blank_between a b) });
          top_forms node env cs (if gap then pr_lit [newline] pr else pr) }"

definition fmt_program :: "ast \<Rightarrow> node_index \<Rightarrow> string \<Rightarrow> u32 \<Rightarrow> string option" where
  "fmt_program ast root src hang =
     do { types \<leftarrow> fmt_collect_type_names ast root;
          children \<leftarrow> ast_seq_children ast root;
          let env = \<lparr>fe_ast = ast, fe_types = types, fe_hang = (if 0 < hang then hang else FMT_HANG_DEFAULT)\<rparr>;
          pr \<leftarrow> top_forms (fmt_node (tree_fuel ast) env) env children \<lparr>pr_out = [], pr_pending = fmt_scan_comments src\<rparr>;
          Some (pr_out (fmt_flush_comments_before 0 (- 1) pr)) }"

end
