(* ===== verification/Format_Scan.thy ===== *)
theory Format_Scan
  imports Format_Forms
begin

text \<open>
  What a source text says: its tokens and its comments in order.  The lexer reads the first and the
  formatter's comment scan the second; a piece of output is described by the items it adds.
\<close>

section \<open>Items\<close>

datatype item = Lx lexeme | Rem string

fun lexs :: "item list \<Rightarrow> lexeme list" where
  "lexs [] = []"
| "lexs (Lx l # is) = l # lexs is"
| "lexs (Rem t # is) = lexs is"

fun rems :: "item list \<Rightarrow> string list" where
  "rems [] = []"
| "rems (Lx l # is) = rems is"
| "rems (Rem t # is) = t # rems is"

lemma lexs_append [simp]: "lexs (xs @ ys) = lexs xs @ lexs ys"
  by (induction xs rule: lexs.induct) auto

lemma rems_append [simp]: "rems (xs @ ys) = rems xs @ rems ys"
  by (induction xs rule: rems.induct) auto

abbreviation atom_char :: "char \<Rightarrow> bool" where "atom_char c \<equiv> \<not> char_is_delim c"

function items :: "string \<Rightarrow> item list" where
  "items [] = []"
| "items (c # s) =
     (if c = NUL then []
      else if char_is_space c then items s
      else if c = semicolon
      then Rem (str8_skip_chop_whitespace (c # takeWhile (\<lambda>d. d \<noteq> newline) s)) # items (dropWhile (\<lambda>d. d \<noteq> newline) s)
      else case bracket_kind c of
        Some k \<Rightarrow> Lx (k, [c]) # items s
      | None \<Rightarrow>
          if c = quote
          then (case fst (spec_string s []) of
                  None \<Rightarrow> [Lx (TokenKind_Error, ''unterminated string literal'')]
                | Some t \<Rightarrow> Lx (TokenKind_String, t) # items (snd (spec_string s [])))
          else Lx (TokenKind_Atom, takeWhile atom_char (c # s)) # items (dropWhile atom_char s))"
  by pat_completeness auto
termination
  by (relation "measure length")
    (use spec_string_length in \<open>auto simp: length_dropWhile_le le_imp_less_Suc\<close>)

declare items.simps(2) [simp del]

lemma delim_chars:
  "char_is_delim NUL" "char_is_delim newline" "char_is_delim space" "char_is_delim quote" "char_is_delim semicolon"
  "bracket_kind c = Some k \<Longrightarrow> char_is_delim c" "char_is_space c \<Longrightarrow> char_is_delim c"
  by (auto simp: bracket_or_delim char_is_space_def char_is_delim_def)

lemma items_space: "char_is_space c \<Longrightarrow> items (c # s) = items s"
  by (subst items.simps(2)) (auto simp: char_is_space_def)

lemma space_semicolon: "\<not> char_is_space semicolon" "\<not> char_is_space NUL" "\<not> char_is_space quote"
  by (simp_all add: char_is_space_def)

lemma items_bracket: "bracket_kind c = Some k \<Longrightarrow> items (c # s) = Lx (k, [c]) # items s"
  by (subst items.simps(2)) (auto simp: bracket_kind_def char_is_space_def split: if_splits)

lemma items_comment:
  "items (semicolon # s) = Rem (str8_skip_chop_whitespace (semicolon # takeWhile (\<lambda>d. d \<noteq> newline) s))
     # items (dropWhile (\<lambda>d. d \<noteq> newline) s)"
  by (subst items.simps(2)) (simp add: space_semicolon)

lemma items_string:
  "items (quote # s) = (case fst (spec_string s []) of
      None \<Rightarrow> [Lx (TokenKind_Error, ''unterminated string literal'')]
    | Some t \<Rightarrow> Lx (TokenKind_String, t) # items (snd (spec_string s [])))"
  by (subst items.simps(2)) (simp add: space_semicolon bracket_kind_def)

lemma items_atom:
  "atom_char c \<Longrightarrow> items (c # s) = Lx (TokenKind_Atom, c # takeWhile atom_char s) # items (dropWhile atom_char s)"
  by (subst items.simps(2)) (simp add: bracket_or_delim)

text \<open>The cases of a first character.\<close>

lemma char_cases:
  obtains (nul) "c = NUL" | (space) "char_is_space c" | (comment) "c = semicolon" | (bracket) k where "bracket_kind c = Some k"
    | (quote) "c = quote" | (atom) "atom_char c"
  unfolding bracket_or_delim by (cases "bracket_kind c") auto

section \<open>The lexer reads the lexemes\<close>

lemma lexs_skip: "NUL \<notin> set s \<Longrightarrow> lexs (items (spec_skip s)) = lexs (items s) \<and> NUL \<notin> set (spec_skip s)"
  "NUL \<notin> set t \<Longrightarrow> lexs (items (spec_skip_line t)) = lexs (items (dropWhile (\<lambda>d. d \<noteq> newline) t)) \<and> NUL \<notin> set (spec_skip_line t)"
proof (induction s and t rule: spec_skip_spec_skip_line.induct)
  case (2 c s)
  then show ?case
    by (cases "c = semicolon") (auto simp: items_space items_comment space_semicolon)
next
  case (4 c s)
  then show ?case by (auto simp: items_space char_is_space_def)
qed auto

lemma spec_string_nul: "NUL \<notin> set s \<Longrightarrow> NUL \<notin> set (snd (spec_string s buf)) \<and> (fst (spec_string s buf) = None \<longrightarrow> snd (spec_string s buf) = [])"
proof (induction s buf rule: spec_string.induct)
  case (2 c s buf)
  then show ?case by (cases s) auto
qed simp

lemma lexs_next:
  assumes "NUL \<notin> set s"
  shows "NUL \<notin> set (snd (spec_next s))
    \<and> lexs (items s) = (if fst (fst (spec_next s)) = TokenKind_EOF then [] else fst (spec_next s) # lexs (items (snd (spec_next s))))"
proof -
  let ?u = "spec_skip s"
  have u: "lexs (items s) = lexs (items ?u)" "NUL \<notin> set ?u" using lexs_skip(1) [OF assms] by auto
  show ?thesis
  proof (cases ?u)
    case Nil
    then show ?thesis using u by (simp add: spec_next_def)
  next
    case (Cons c t)
    then have nul: "c \<noteq> NUL" "NUL \<notin> set t" using u(2) by auto
    have sp: "\<not> char_is_space c" "c \<noteq> semicolon" using spec_skip_first(1) [OF refl, of s] Cons by auto
    have tl: "NUL \<notin> set (dropWhile P t)" for P using nul(2) set_dropWhileD by fastforce
    show ?thesis
    proof (cases c rule: char_cases)
      case (bracket k)
      then show ?thesis using Cons u nul bracket_kind_range [OF bracket] by (simp add: spec_next_def items_bracket)
    next
      case quote
      have "bracket_kind quote = None" by (simp add: bracket_kind_def)
      then show ?thesis using Cons u nul quote spec_string_nul [OF nul(2), of "[]"]
        by (auto simp: spec_next_def items_string split: option.splits prod.splits)
    next
      case atom
      then have "bracket_kind c = None" "c \<noteq> CHR 0x22" unfolding bracket_or_delim by auto
      then show ?thesis using Cons u nul atom tl by (simp add: spec_next_def items_atom)
    qed (use sp nul in auto)
  qed
qed

lemma tokens_from_lexs:
  "NUL \<notin> set (rest_of lx) \<Longrightarrow> map lexeme_of (butlast (tokens_from lx)) = lexs (items (rest_of lx))"
proof (induction lx rule: tokens_from.induct)
  case (1 lx)
  have n: "spec_next (rest_of lx) = (lexeme_of (fst (lexer_next lx)), rest_of (snd (lexer_next lx)))"
    using lexer_next_spec [of lx] by simp
  note ln = lexs_next [OF "1.prems", unfolded n fst_conv snd_conv lexeme_of_def]
  show ?case
  proof (cases "tok_kind (fst (lexer_next lx)) = TokenKind_EOF")
    case True
    then show ?thesis using ln by (subst tokens_from.simps) (simp add: Let_def)
  next
    case False
    then have eq: "tokens_from lx = fst (lexer_next lx) # tokens_from (snd (lexer_next lx))"
      by (subst tokens_from.simps) (simp add: Let_def)
    show ?thesis
      using "1.IH" [OF refl False] ln False tokens_from_ne unfolding eq by (auto simp: lexeme_of_def)
  qed
qed

lemma source_lexemes: "NUL \<notin> set src \<Longrightarrow> map lexeme_of (source_tokens src fid) = lexs (items src)"
  using tokens_from_lexs [of "lexer_init src fid"] by (simp add: source_tokens_def lexer_init_def rest_of_def)

section \<open>The comment scan reads the comments\<close>

definition no_error :: "item list \<Rightarrow> bool" where
  "no_error is \<longleftrightarrow> TokenKind_Error \<notin> fst ` set (lexs is)"

lemma no_error_simps [simp]:
  "no_error []" "no_error (Rem t # is) = no_error is" "no_error (Lx (k, t) # is) \<longleftrightarrow> k \<noteq> TokenKind_Error \<and> no_error is"
  by (auto simp: no_error_def)

lemma scan_plain:
  "c \<noteq> quote \<Longrightarrow> c \<noteq> semicolon \<Longrightarrow> c \<noteq> newline \<Longrightarrow> fmt_scan_from (c # s) line False = fmt_scan_from s line False"
  by simp

lemma scan_atom: "list_all atom_char w \<Longrightarrow> fmt_scan_from (w @ s) line False = fmt_scan_from s line False"
proof (induction w)
  case (Cons c w)
  then have "c \<noteq> quote" "c \<noteq> semicolon" "c \<noteq> newline" using delim_chars by auto
  then show ?case using Cons by simp
qed simp

text \<open>Inside a literal both scans agree on where it ends.\<close>

lemma scan_string:
  "NUL \<notin> set s \<Longrightarrow> fst (spec_string s buf) = Some t
    \<Longrightarrow> \<exists>line'. fmt_scan_from s line True = fmt_scan_from (snd (spec_string s buf)) line' False"
proof (induction s buf arbitrary: line rule: spec_string.induct)
  case (2 c s buf)
  show ?case
  proof (cases "c = backslash \<and> s \<noteq> []")
    case True
    then obtain e s' where s: "s = e # s'" "e \<noteq> NUL" using "2.prems"(1) by (cases s) auto
    then show ?thesis using "2.IH"(1) [OF _ _ _ s] "2.prems" True by auto
  next
    case False
    then show ?thesis using 2 by (cases "c = quote"; cases "c = backslash") auto
  qed
qed simp

lemma rems_scan:
  "NUL \<notin> set s \<Longrightarrow> no_error (items s) \<Longrightarrow> rems (items s) = map cm_text (fmt_scan_from s line False)"
proof (induction s arbitrary: line rule: length_induct)
  case (1 s)
  note IH = "1.IH" [rule_format]
  show ?case
  proof (cases s)
    case Nil
    then show ?thesis by simp
  next
    case (Cons c t)
    have nul: "c \<noteq> NUL" "NUL \<notin> set t" using "1.prems"(1) Cons by auto
    have dw: "NUL \<notin> set (dropWhile P t)" "length (dropWhile P t) \<le> length t" for P
      using nul(2) set_dropWhileD length_dropWhile_le by fastforce+
    show ?thesis
    proof (cases c rule: char_cases)
      case space
      then have "c \<noteq> quote" "c \<noteq> semicolon" by (auto simp: char_is_space_def)
      then show ?thesis using IH [of t] "1.prems" Cons nul space by (simp add: items_space)
    next
      case comment
      then show ?thesis
        using IH [of "dropWhile (\<lambda>d. d \<noteq> newline) t" line] "1.prems"(2) Cons dw by (simp add: items_comment le_imp_less_Suc)
    next
      case (bracket k)
      then have "c \<noteq> quote" "c \<noteq> semicolon" "c \<noteq> newline" by (auto simp: bracket_kind_def split: if_splits)
      then show ?thesis using IH [of t line] "1.prems" Cons nul bracket by (simp add: items_bracket)
    next
      case quote
      obtain u where t: "fst (spec_string t []) = Some u"
        using "1.prems"(2) Cons quote by (auto simp: items_string split: option.splits)
      obtain line' where "fmt_scan_from t line True = fmt_scan_from (snd (spec_string t [])) line' False"
        using scan_string [OF nul(2) t] by blast
      then show ?thesis
        using IH [of "snd (spec_string t [])" line'] "1.prems"(2) Cons quote t spec_string_nul [OF nul(2), of "[]"]
          spec_string_length [of t "[]"] by (simp add: items_string le_imp_less_Suc)
    next
      case atom
      have "list_all atom_char (c # takeWhile atom_char t)" using atom set_takeWhileD by (fastforce simp: list_all_iff)
      from scan_atom [OF this, of "dropWhile atom_char t" line]
      have "fmt_scan_from s line False = fmt_scan_from (dropWhile atom_char t) line False" using Cons by simp
      then show ?thesis using IH [of "dropWhile atom_char t" line] "1.prems"(2) Cons dw atom
        by (simp add: items_atom le_imp_less_Suc del: fmt_scan_from.simps)
    qed (use nul in simp)
  qed
qed

lemma rems_comments: "NUL \<notin> set s \<Longrightarrow> no_error (items s) \<Longrightarrow> rems (items s) = map cm_text (fmt_scan_comments s)"
  by (simp add: fmt_scan_comments_def rems_scan)

section \<open>Pieces of output\<close>

text \<open>What may follow a piece: anything, a delimiter, or a line break.\<close>

datatype mode = Anything | Delimiter | Line_Break

fun follows :: "mode \<Rightarrow> string \<Rightarrow> bool" where
  "follows Anything r \<longleftrightarrow> True"
| "follows Delimiter r \<longleftrightarrow> r = [] \<or> char_is_delim (hd r)"
| "follows Line_Break r \<longleftrightarrow> r = [] \<or> hd r = newline"

definition piece :: "mode \<Rightarrow> string \<Rightarrow> item list \<Rightarrow> mode \<Rightarrow> bool" where
  "piece m d is m' \<longleftrightarrow> NUL \<notin> set d \<and>
     (\<forall>r. follows m' r \<longrightarrow> follows m (d @ r) \<and> items (d @ r) = is @ items r)"

lemma piece_empty: "(\<And>r. follows m' r \<Longrightarrow> follows m r) \<Longrightarrow> piece m [] [] m'"
  by (simp add: piece_def)

lemma piece_append: "piece m d is m1 \<Longrightarrow> piece m1 d' is' m2 \<Longrightarrow> piece m (d @ d') (is @ is') m2"
  by (simp add: piece_def)

lemma piece_space: "char_is_space c \<Longrightarrow> m = Anything \<or> m = Delimiter \<Longrightarrow> piece m [c] [] Anything"
  by (auto simp: piece_def items_space delim_chars char_is_space_def)

lemma piece_newline: "piece m [newline] [] Anything"
  by (cases m) (auto simp: piece_def items_space delim_chars char_is_space_def)

lemma piece_spaces: "piece Anything (replicate n space) [] Anything"
  by (induction n) (auto simp: piece_def items_space char_is_space_def)

lemma piece_some_spaces: "0 < n \<Longrightarrow> piece Delimiter (replicate n space) [] Anything"
  using piece_append [OF piece_space [of space Delimiter] piece_spaces [of "n - 1"]]
  by (cases n) (auto simp: char_is_space_def)

lemma piece_bracket: "bracket_kind c = Some k \<Longrightarrow> m = Anything \<or> m = Delimiter \<Longrightarrow> piece m [c] [Lx (k, [c])] Anything"
  using delim_chars(6) [of c k] by (auto simp: piece_def items_bracket) (auto simp: bracket_kind_def)

definition atom_ok :: "string \<Rightarrow> bool" where
  "atom_ok s \<longleftrightarrow> s \<noteq> [] \<and> list_all atom_char s"

lemma takeWhile_follow:
  "list_all P s \<Longrightarrow> r = [] \<or> \<not> P (hd r) \<Longrightarrow> takeWhile P (s @ r) = s \<and> dropWhile P (s @ r) = r"
  by (induction s) (auto simp: hd_conv_nth neq_Nil_conv takeWhile_eq_Nil_iff dropWhile_eq_self_iff)

lemma piece_atom: "atom_ok s \<Longrightarrow> piece Anything s [Lx (TokenKind_Atom, s)] Delimiter"
proof -
  assume a: "atom_ok s"
  then obtain c t where s: "s = c # t" "atom_char c" "list_all atom_char t" by (cases s) (auto simp: atom_ok_def)
  have "NUL \<notin> set s" using a delim_chars(1) by (auto simp: atom_ok_def list_all_iff)
  then show ?thesis
    using s takeWhile_follow [OF s(3)] by (auto simp: piece_def items_atom)
qed

text \<open>A comment as the scan leaves it.\<close>

definition comment_ok :: "string \<Rightarrow> bool" where
  "comment_ok t \<longleftrightarrow> t \<noteq> [] \<and> hd t = semicolon \<and> newline \<notin> set t \<and> NUL \<notin> set t \<and> str8_skip_chop_whitespace t = t"

lemma piece_comment: "comment_ok t \<Longrightarrow> piece Anything t [Rem t] Line_Break"
proof -
  assume c: "comment_ok t"
  then obtain u where t: "t = semicolon # u" "newline \<notin> set u" by (cases t) (auto simp: comment_ok_def)
  then have "list_all (\<lambda>d. d \<noteq> newline) u" by (auto simp: list_all_iff)
  then show ?thesis
    using c t takeWhile_follow [of "\<lambda>d. d \<noteq> newline" u] by (auto simp: piece_def items_comment comment_ok_def)
qed

section \<open>Escaped literals\<close>

lemma spec_string_escape:
  "spec_string (escape_body t @ quote # r) buf = (Some (buf @ t), r)"
proof (induction t arbitrary: buf)
  case (Cons c t)
  have e: "escape_body (c # t) = (case escape_char c of Some e \<Rightarrow> [backslash, e] | None \<Rightarrow> [c]) @ escape_body t"
    by (simp add: escape_body_def)
  show ?case
  proof (cases "escape_char c")
    case None
    then have "c \<noteq> NUL" "c \<noteq> quote" "c \<noteq> backslash" by (auto simp: escape_char_def split: if_splits)
    then show ?thesis using Cons None by (simp add: e)
  next
    case (Some d)
    then have "d \<noteq> NUL" "decode_escape d = c" by (auto simp: escape_char_def decode_escape_def split: if_splits)
    then show ?thesis using Cons Some by (simp add: e)
  qed
qed (simp add: escape_body_def)

lemma escape_no_nul: "NUL \<notin> set (escape_body t)"
  by (auto simp: escape_body_def escape_char_def split: option.splits if_splits)

lemma piece_string: "piece m (fmt_escape_string t) [Lx (TokenKind_String, t)] Anything" if "m = Anything \<or> m = Delimiter"
  using that escape_no_nul delim_chars(4) by (auto simp: piece_def fmt_escape_string_def items_string spec_string_escape)

end
