(* ===== verification/Format_Tree.thy ===== *)
theory Format_Tree
  imports Format_Scan
begin

text \<open>
  The tree side of the formatter: the lexemes, last line and inline rendering of a tree, the shapes
  the forms' printers reproduce, and the effect of a printing step as a relation that composes.
\<close>

section \<open>Trees\<close>

fun tree_token :: "tree \<Rightarrow> token" where
  "tree_token (TAtom x) = x" | "tree_token (TString x) = x" | "tree_token (TSeq k x ts) = x"

fun tree_lexs :: "tree \<Rightarrow> lexeme list" where
  "tree_lexs (TAtom x) = [(TokenKind_Atom, tok_text x)]"
| "tree_lexs (TString x) = [(TokenKind_String, tok_text x)]"
| "tree_lexs (TSeq k x ts) =
     (case brackets k of
        Some (b, e) \<Rightarrow> (b, seq_open k) # concat (map tree_lexs ts) @ [(e, seq_close k)]
      | None \<Rightarrow> [])"

fun tree_end :: "tree \<Rightarrow> u32" where
  "tree_end (TAtom x) = tok_line x"
| "tree_end (TString x) = tok_line x"
| "tree_end (TSeq k x ts) = (if ts = [] then tok_line x else last (map tree_end ts))"

fun render_tree :: "tree \<Rightarrow> string" where
  "render_tree (TAtom x) = tok_text x"
| "render_tree (TString x) = fmt_escape_string (tok_text x)"
| "render_tree (TSeq k x ts) = seq_open k @ join_spaced (map render_tree ts) @ seq_close k"

fun is_atom :: "tree \<Rightarrow> bool" where
  "is_atom (TAtom x) \<longleftrightarrow> True" | "is_atom t \<longleftrightarrow> False"

fun is_vector :: "tree \<Rightarrow> bool" where
  "is_vector (TSeq AstNodeKind_Vector x ts) \<longleftrightarrow> True" | "is_vector t \<longleftrightarrow> False"

fun is_plain_string :: "tree \<Rightarrow> bool" where
  "is_plain_string (TString x) \<longleftrightarrow> list_all (\<lambda>c. escape_char c = None) (tok_text x)" | "is_plain_string t \<longleftrightarrow> False"

fun items_of :: "tree \<Rightarrow> tree list" where
  "items_of (TSeq k x ts) = ts" | "items_of t = []"

fun head_op :: "tree list \<Rightarrow> string option" where
  "head_op (TAtom x # ts) = Some (tok_text x)" | "head_op ts = None"

section \<open>Shapes\<close>

text \<open>Pairs of a name and a value.\<close>

fun name_pairs :: "tree list \<Rightarrow> bool" where
  "name_pairs [] \<longleftrightarrow> True"
| "name_pairs [a] \<longleftrightarrow> False"
| "name_pairs (a # b # ts) \<longleftrightarrow> is_atom a \<and> name_pairs ts"

definition pair_vector :: "tree \<Rightarrow> bool" where
  "pair_vector t \<longleftrightarrow> is_vector t \<and> name_pairs (items_of t)"

definition decl_shape :: "tree list \<Rightarrow> bool" where
  "decl_shape ts \<longleftrightarrow> is_atom (ts ! 1) \<and> (length ts = 4 \<longrightarrow> is_plain_string (ts ! 2))"

text \<open>The children of a list, by its head: what the printer of that form does not check.\<close>

definition form_shape :: "tree list \<Rightarrow> bool" where
  "form_shape ts \<longleftrightarrow>
     (head_op ts = Some ''fn'' \<and> 4 < length ts \<longrightarrow> is_atom (ts ! 1) \<and> pair_vector (ts ! 2))
     \<and> (head_op ts \<in> {Some ''struct'', Some ''union''} \<and> length ts \<in> {3, 4} \<longrightarrow> decl_shape ts \<and> pair_vector (last ts))
     \<and> (head_op ts \<in> {Some ''enum'', Some ''flags''} \<and> length ts \<in> {3, 4} \<longrightarrow>
          decl_shape ts \<and> is_vector (last ts) \<and> list_all is_atom (items_of (last ts)))
     \<and> (head_op ts = Some ''let'' \<and> 3 \<le> length ts \<longrightarrow> is_vector (ts ! 1))"

fun keys_of :: "tree list \<Rightarrow> tree list" where
  "keys_of (k # v # ts) = k # keys_of ts" | "keys_of ts = []"

text \<open>No comment on the line where the key of a map's pair ends, with the lines that have one.\<close>

definition map_shape :: "u32 set \<Rightarrow> tree list \<Rightarrow> bool" where
  "map_shape cl ts \<longleftrightarrow> (even (length ts) \<longrightarrow> list_all (\<lambda>k. tree_end k \<notin> cl) (keys_of ts))"

definition text_small :: "string \<Rightarrow> bool" where
  "text_small s \<longleftrightarrow> length s < 2 ^ 32 - 1"

fun tidy :: "u32 set \<Rightarrow> tree \<Rightarrow> bool" where
  "tidy cl (TAtom x) \<longleftrightarrow> atom_ok (tok_text x) \<and> text_small (tok_text x)"
| "tidy cl (TString x) \<longleftrightarrow> True"
| "tidy cl (TSeq k x ts) \<longleftrightarrow>
     list_all (tidy cl) ts \<and> is_seq_kind k \<and> (k = AstNodeKind_List \<longrightarrow> form_shape ts) \<and> (k = AstNodeKind_Map \<longrightarrow> map_shape cl ts)"

section \<open>Reading the arrays gives the tree\<close>

lemma represents_node:
  "represents a i t \<Longrightarrow> \<exists>nd. ast_get a i = Some nd \<and> an_token nd = tree_token t
     \<and> an_kind nd = (case t of TAtom x \<Rightarrow> AstNodeKind_Atom | TString x \<Rightarrow> AstNodeKind_String | TSeq k x ts \<Rightarrow> k)"
  by (auto elim!: represents.cases)

lemma represents_children:
  "represents a i (TSeq k x ts) \<Longrightarrow> is_seq_kind k \<and> (\<exists>cs. ast_seq_children a i = Some cs \<and> list_all2 (represents a) cs ts)"
  by (auto elim!: represents.cases)

lemma children_before:
  assumes "ast_wf a" "ast_seq_children a i = Some cs" "c \<in> set cs"
  shows "unat c < unat i"
proof -
  obtain nd where nd: "ast_get a i = Some nd" using assms(2) by (auto simp: ast_seq_children_def split: Option.bind_splits)
  then have i: "unat i < length (ast_nodes a)" "nd = ast_nodes a ! unat i" by (auto simp: ast_get_def split: if_splits)
  then have "node_wf a (unat i)" using assms(1) by (auto simp: ast_wf_def list_all_iff)
  then show ?thesis using assms(2,3) nd i
    by (auto simp: node_wf_def ast_seq_children_def Let_def list_all_iff split: if_splits)
qed

lemma is_seq_kind_not_leaf:
  "is_seq_kind k \<Longrightarrow> k \<noteq> AstNodeKind_Atom \<and> k \<noteq> AstNodeKind_String"
  by (auto simp: is_seq_kind_def)

lemma represents_in: "represents a i t \<Longrightarrow> unat i < tree_fuel a"
  using represents_node by (fastforce simp: ast_get_def tree_fuel_def split: if_splits)

lemma node_line_tree: "represents a i t \<Longrightarrow> node_line a i = Some (tok_line (tree_token t))"
  using represents_node by (fastforce simp: node_line_def)

lemma node_text_tree: "represents a i t \<Longrightarrow> node_text a i = Some (tok_text (tree_token t))"
  using represents_node by (fastforce simp: node_text_def)

lemma end_line_tree:
  assumes "ast_wf a"
  shows "represents a i t \<Longrightarrow> unat i < n \<Longrightarrow> end_line_fuel n a i = Some (tree_end t)"
proof (induction n arbitrary: i t)
  case (Suc n)
  obtain nd where nd: "ast_get a i = Some nd" "an_token nd = tree_token t"
    "an_kind nd = (case t of TAtom x \<Rightarrow> AstNodeKind_Atom | TString x \<Rightarrow> AstNodeKind_String | TSeq k x ts \<Rightarrow> k)"
    using represents_node [OF Suc.prems(1)] by blast
  show ?case
  proof (cases t)
    case (TSeq k x ts)
    obtain cs where cs: "is_seq_kind k" "ast_seq_children a i = Some cs" "list_all2 (represents a) cs ts"
      using represents_children Suc.prems(1) TSeq by blast
    show ?thesis
    proof (cases "cs = []")
      case False
      then have ne: "ts \<noteq> []" using cs(3) by auto
      with False have "represents a (last cs) (last ts)"
        using cs(3) by (simp add: list_all2_conv_all_nth last_conv_nth)
      moreover have "unat (last cs) < n"
        using children_before [OF assms cs(2), of "last cs"] False Suc.prems(2) by simp
      ultimately show ?thesis
        using Suc.IH nd cs False TSeq ne is_seq_kind_not_leaf [OF cs(1)] by (simp add: last_map)
    qed (use nd cs TSeq is_seq_kind_not_leaf [OF cs(1)] in auto)
  qed (use nd in auto)
qed simp

lemma fmt_node_end_line_tree: "ast_wf a \<Longrightarrow> represents a i t \<Longrightarrow> fmt_node_end_line a i = Some (tree_end t)"
  unfolding fmt_node_end_line_def by (rule end_line_tree) (auto intro: represents_in)

lemma those_list_all2:
  "list_all2 (\<lambda>c t. f c = Some (g t)) cs ts \<Longrightarrow> those (map f cs) = Some (map g ts)"
  by (induction cs ts rule: list_all2_induct) auto

lemma render_fuel_tree:
  assumes "ast_wf a"
  shows "represents a i t \<Longrightarrow> unat i < n \<Longrightarrow> render_fuel n a i = Some (render_tree t)"
proof (induction n arbitrary: i t)
  case (Suc n)
  obtain nd where nd: "ast_get a i = Some nd" "an_token nd = tree_token t"
    "an_kind nd = (case t of TAtom x \<Rightarrow> AstNodeKind_Atom | TString x \<Rightarrow> AstNodeKind_String | TSeq k x ts \<Rightarrow> k)"
    using represents_node [OF Suc.prems(1)] by blast
  show ?case
  proof (cases t)
    case (TSeq k x ts)
    obtain cs where cs: "is_seq_kind k" "ast_seq_children a i = Some cs" "list_all2 (represents a) cs ts"
      using represents_children Suc.prems(1) TSeq by blast
    have "unat c < n" if "c \<in> set cs" for c
      using children_before [OF assms cs(2) that] Suc.prems(2) by simp
    then have "list_all2 (\<lambda>c t. render_fuel n a c = Some (render_tree t)) cs ts"
      using cs(3) by (auto simp: list_all2_conv_all_nth intro!: Suc.IH)
    from those_list_all2 [OF this] show ?thesis
      using nd cs TSeq is_seq_kind_not_leaf [OF cs(1)] by simp
  qed (use nd in auto)
qed simp

lemma fmt_render_inline_tree: "ast_wf a \<Longrightarrow> represents a i t \<Longrightarrow> fmt_render_inline a i = Some (render_tree t)"
  unfolding fmt_render_inline_def by (rule render_fuel_tree) (auto intro: represents_in)

end
