(* ===== verification/Format_Contract.thy ===== *)
theory Format_Contract
  imports Format_Tree
begin

text \<open>
  The effect of the printing steps, and the contract between the dispatcher and the printers of the
  forms: a node's printer adds the tokens of its tree and some of the pending comments, in order.
\<close>

section \<open>Effects\<close>

definition good :: "u32 set \<Rightarrow> printer \<Rightarrow> bool" where
  "good cl pr \<longleftrightarrow> list_all (\<lambda>c. comment_ok (cm_text c) \<and> cm_line c \<in> cl) (pr_pending pr)"

definition wrote :: "mode \<Rightarrow> printer \<Rightarrow> lexeme list \<Rightarrow> mode \<Rightarrow> printer \<Rightarrow> bool" where
  "wrote m pr l m' pr' \<longleftrightarrow>
     (\<exists>d is cs. pr_out pr' = pr_out pr @ d \<and> piece m d is m' \<and> lexs is = l
        \<and> pr_pending pr = cs @ pr_pending pr' \<and> rems is = map cm_text cs)"

definition does :: "mode \<Rightarrow> printer \<Rightarrow> lexeme list \<Rightarrow> mode \<Rightarrow> printer option \<Rightarrow> bool" where
  "does m pr l m' r \<longleftrightarrow> (\<exists>pr'. r = Some pr' \<and> wrote m pr l m' pr')"

definition after :: "bool \<Rightarrow> mode" where
  "after trailing = (if trailing then Line_Break else Delimiter)"

definition does_trailing :: "mode \<Rightarrow> printer \<Rightarrow> lexeme list \<Rightarrow> (bool \<times> printer) option \<Rightarrow> bool" where
  "does_trailing m pr l r \<longleftrightarrow> (\<exists>t pr'. r = Some (t, pr') \<and> wrote m pr l (after t) pr')"

lemma wrote_good: "wrote m pr l m' pr' \<Longrightarrow> good cl pr \<Longrightarrow> good cl pr'"
  by (auto simp: wrote_def good_def)

lemma wrote_trans: "wrote m pr l m1 pr1 \<Longrightarrow> wrote m1 pr1 l' m2 pr2 \<Longrightarrow> wrote m pr (l @ l') m2 pr2"
proof -
  assume "wrote m pr l m1 pr1" "wrote m1 pr1 l' m2 pr2"
  then obtain d "is" cs d' is' cs' where
    "pr_out pr1 = pr_out pr @ d" "piece m d is m1" "lexs is = l" "pr_pending pr = cs @ pr_pending pr1" "rems is = map cm_text cs"
    "pr_out pr2 = pr_out pr1 @ d'" "piece m1 d' is' m2" "lexs is' = l'" "pr_pending pr1 = cs' @ pr_pending pr2" "rems is' = map cm_text cs'"
    unfolding wrote_def by blast
  then show ?thesis
    unfolding wrote_def by (intro exI [of _ "d @ d'"] exI [of _ "is @ is'"] exI [of _ "cs @ cs'"]) (simp add: piece_append)
qed

lemma wrote_lit: "piece m d is m' \<Longrightarrow> rems is = [] \<Longrightarrow> wrote m pr (lexs is) m' (pr_lit d pr)"
  unfolding wrote_def pr_lit_def by (intro exI [of _ d] exI [of _ "is"] exI [of _ "[]"]) simp

lemma printf_text_piece: "piece m d is m' \<Longrightarrow> printf_text d = d"
  by (auto simp: piece_def printf_text_def takeWhile_eq_all_conv)

lemma wrote_str: "piece m d is m' \<Longrightarrow> rems is = [] \<Longrightarrow> wrote m pr (lexs is) m' (pr_str d pr)"
  unfolding pr_str_def using wrote_lit printf_text_piece by metis

lemma wrote_refl: "(\<And>r. follows m' r \<Longrightarrow> follows m r) \<Longrightarrow> wrote m pr [] m' pr"
  unfolding wrote_def by (intro exI [of _ "[]"]) (simp add: piece_empty)

lemma wrote_same [simp]: "wrote m pr [] m pr"
  by (rule wrote_refl)

lemma follows_weaken: "follows Line_Break r \<Longrightarrow> follows Delimiter r" "follows m r \<Longrightarrow> follows Anything r"
  using delim_chars(2) by auto

lemma wrote_weaken: "wrote m pr l Anything pr' \<Longrightarrow> wrote m pr l m' pr'"
  using wrote_trans [OF _ wrote_refl [of m' Anything pr'], of m pr l] by simp

lemma wrote_delim: "wrote m pr l Delimiter pr' \<Longrightarrow> wrote m pr l (after t) pr'"
proof -
  assume w: "wrote m pr l Delimiter pr'"
  have "wrote Delimiter pr' [] (after t) pr'"
    by (rule wrote_refl) (use follows_weaken(1) in \<open>auto simp: after_def split: if_splits\<close>)
  from wrote_trans [OF w this] show ?thesis by simp
qed

lemma wrote_newline: "wrote m pr [] Anything (pr_lit [newline] pr)"
  using wrote_lit [OF piece_newline] by simp

lemma wrote_space: "wrote Delimiter pr [] Anything (pr_lit '' '' pr)"
  using wrote_lit [OF piece_space [of space Delimiter]] by (simp add: char_is_space_def)

lemma wrote_indent: "wrote Anything pr [] Anything (fmt_write_indent n pr)"
  unfolding fmt_write_indent_def using wrote_lit [OF piece_spaces] by simp

lemma wrote_gap: "0 < unat n \<Longrightarrow> wrote Delimiter pr [] Anything (fmt_write_indent n pr)"
  unfolding fmt_write_indent_def using wrote_lit [OF piece_some_spaces] by simp

lemma wrote_atom: "atom_ok s \<Longrightarrow> wrote Anything pr [(TokenKind_Atom, s)] Delimiter (pr_str s pr)"
  using wrote_str [OF piece_atom] by simp

lemma wrote_bracket:
  "bracket_kind c = Some k \<Longrightarrow> m = Anything \<or> m = Delimiter \<Longrightarrow> wrote m pr [(k, [c])] Anything (pr_lit [c] pr)"
  using wrote_lit [OF piece_bracket] by simp

lemma wrote_break: "wrote (after t) pr [] Delimiter (break_line t indent pr)"
proof (cases t)
  case True
  then show ?thesis
    using wrote_trans [OF wrote_newline wrote_indent] wrote_weaken by (simp add: break_line_def)
qed (simp add: break_line_def after_def)

lemma flush_before_extends:
  "good cl \<lparr>pr_out = out, pr_pending = cs\<rparr> \<Longrightarrow>
     wrote Anything \<lparr>pr_out = out, pr_pending = cs\<rparr> [] Anything (flush_before indent line prev cs out)"
proof (induction indent line prev cs out rule: flush_before.induct)
  case (2 indent line prev c cs out)
  show ?case
  proof (cases "cm_line c < line")
    case True
    let ?gap = "case prev of None \<Rightarrow> [] | Some p \<Rightarrow> if p + 1 < cm_line c then [newline] else []"
    let ?d = "?gap @ replicate (unat indent) space @ printf_text (cm_text c) @ [newline]"
    have c: "comment_ok (cm_text c)" and g: "good cl \<lparr>pr_out = out @ ?d, pr_pending = cs\<rparr>"
      using "2.prems" by (auto simp: good_def)
    have gap: "piece Anything ?gap [] Anything"
      using piece_newline piece_empty by (auto split: option.splits)
    have "piece Anything ?d ([] @ [] @ [Rem (cm_text c)] @ []) Anything"
      using piece_append [OF gap piece_append [OF piece_spaces piece_append [OF piece_comment [OF c] piece_newline]]]
        printf_text_piece [OF piece_comment [OF c]] by simp
    then have "wrote Anything \<lparr>pr_out = out, pr_pending = c # cs\<rparr> [] Anything \<lparr>pr_out = out @ ?d, pr_pending = cs\<rparr>"
      unfolding wrote_def by (intro exI [of _ ?d] exI [of _ "[Rem (cm_text c)]"] exI [of _ "[c]"]) simp
    from wrote_trans [OF this "2.IH" [OF True g]] show ?thesis using True by simp
  qed (simp add: wrote_refl)
qed (simp add: wrote_refl)

lemma wrote_flush: "good cl pr \<Longrightarrow> wrote Anything pr [] Anything (fmt_flush_comments_before indent line pr)"
  using flush_before_extends [of cl "pr_out pr" "pr_pending pr"] by (cases pr) (simp add: fmt_flush_comments_before_def)

lemma wrote_trailing:
  assumes "good cl pr" "fmt_flush_trailing line pr = (t, pr')"
  shows "wrote Delimiter pr [] (after t) pr' \<and> (t \<longrightarrow> line \<in> cl)"
proof (cases "pr_pending pr")
  case Nil
  then show ?thesis using assms by (auto simp: fmt_flush_trailing_def after_def)
next
  case (Cons c cs)
  show ?thesis
  proof (cases "cm_line c = line")
    case True
    have c: "comment_ok (cm_text c)" "cm_line c \<in> cl" using assms(1) Cons by (auto simp: good_def)
    have pc: "piece Delimiter ([space] @ cm_text c) ([] @ [Rem (cm_text c)]) Line_Break"
      by (rule piece_append [OF piece_space piece_comment [OF c(1)]]) (simp_all add: char_is_space_def)
    have "wrote Delimiter pr [] Line_Break ((pr_str (cm_text c) (pr_lit [space] pr))\<lparr>pr_pending := cs\<rparr>)"
      unfolding wrote_def
      by (intro exI [of _ "[space] @ cm_text c"] exI [of _ "[Rem (cm_text c)]"] exI [of _ "[c]"])
        (use pc Cons printf_text_piece [OF piece_comment [OF c(1)]] in \<open>simp add: pr_str_def pr_lit_def\<close>)
    then show ?thesis using assms(2) Cons True c by (auto simp: fmt_flush_trailing_def after_def)
  qed (use assms Cons in \<open>auto simp: fmt_flush_trailing_def after_def\<close>)
qed

section \<open>Composing effects\<close>

lemma does_bind:
  assumes "does m pr l m1 r" "good cl pr"
    and "\<And>pr1. good cl pr1 \<Longrightarrow> wrote m pr l m1 pr1 \<Longrightarrow> does m1 pr1 l' m2 (f pr1)"
  shows "does m pr (l @ l') m2 (r \<bind> f)"
proof -
  obtain pr1 where r: "r = Some pr1" "wrote m pr l m1 pr1" using assms(1) unfolding does_def by blast
  from assms(3) [OF wrote_good [OF r(2) assms(2)] r(2)] show ?thesis
    using wrote_trans [OF r(2)] unfolding does_def r(1) by auto
qed

lemma does_bind_trailing:
  assumes "does_trailing m pr l r" "good cl pr"
    and "\<And>t pr1. good cl pr1 \<Longrightarrow> wrote m pr l (after t) pr1 \<Longrightarrow> does (after t) pr1 l' m2 (f (t, pr1))"
  shows "does m pr (l @ l') m2 (r \<bind> f)"
proof -
  obtain t pr1 where r: "r = Some (t, pr1)" "wrote m pr l (after t) pr1" using assms(1) unfolding does_trailing_def by blast
  from assms(3) [OF wrote_good [OF r(2) assms(2)] r(2)] show ?thesis
    using wrote_trans [OF r(2)] unfolding does_def r(1) by auto
qed

lemma trailing_bind:
  assumes "does m pr l m1 r" "good cl pr"
    and "\<And>pr1. good cl pr1 \<Longrightarrow> wrote m pr l m1 pr1 \<Longrightarrow> does_trailing m1 pr1 l' (f pr1)"
  shows "does_trailing m pr (l @ l') (r \<bind> f)"
proof -
  obtain pr1 where r: "r = Some pr1" "wrote m pr l m1 pr1" using assms(1) unfolding does_def by blast
  from assms(3) [OF wrote_good [OF r(2) assms(2)] r(2)] show ?thesis
    using wrote_trans [OF r(2)] unfolding does_trailing_def r(1) by auto
qed

lemma trailing_bind_trailing:
  assumes "does_trailing m pr l r" "good cl pr"
    and "\<And>t pr1. good cl pr1 \<Longrightarrow> wrote m pr l (after t) pr1 \<Longrightarrow> does_trailing (after t) pr1 l' (f (t, pr1))"
  shows "does_trailing m pr (l @ l') (r \<bind> f)"
proof -
  obtain t pr1 where r: "r = Some (t, pr1)" "wrote m pr l (after t) pr1" using assms(1) unfolding does_trailing_def by blast
  from assms(3) [OF wrote_good [OF r(2) assms(2)] r(2)] show ?thesis
    using wrote_trans [OF r(2)] unfolding does_trailing_def r(1) by auto
qed

lemma does_Some: "wrote m pr l m' pr' \<Longrightarrow> does m pr l m' (Some pr')"
  by (simp add: does_def)

lemma does_step: "wrote m pr l m1 pr1 \<Longrightarrow> does m1 pr1 l' m2 r \<Longrightarrow> does m pr (l @ l') m2 r"
  unfolding does_def using wrote_trans by blast

lemma trailing_step: "wrote m pr l m1 pr1 \<Longrightarrow> does_trailing m1 pr1 l' r \<Longrightarrow> does_trailing m pr (l @ l') r"
proof -
  assume w: "wrote m pr l m1 pr1" and "does_trailing m1 pr1 l' r"
  then obtain t pr' where "r = Some (t, pr')" "wrote m1 pr1 l' (after t) pr'" unfolding does_trailing_def by blast
  then show ?thesis using wrote_trans [OF w] unfolding does_trailing_def by blast
qed

lemma trailing_Some: "wrote m pr l (after t) pr' \<Longrightarrow> does_trailing m pr l (Some (t, pr'))"
  by (simp add: does_trailing_def)

section \<open>Rendered trees\<close>

lemma bracket_pieces:
  "brackets k = Some (b, e) \<Longrightarrow> piece Anything (seq_open k) [Lx (b, seq_open k)] Anything"
  "brackets k = Some (b, e) \<Longrightarrow> piece Delimiter (seq_close k) [Lx (e, seq_close k)] Anything"
  by (cases k; auto simp: seq_open_def seq_close_def bracket_kind_def intro!: piece_bracket)+

lemma seq_brackets: "is_seq_kind k \<Longrightarrow> \<exists>b e. brackets k = Some (b, e)"
  by (auto simp: is_seq_kind_def)

lemma piece_weaken: "piece m d is Anything \<Longrightarrow> piece m d is m'"
  by (auto simp: piece_def)

lemma piece_join:
  "list_all (\<lambda>t. piece Anything (render_tree t) (map Lx (tree_lexs t)) Delimiter) ts
     \<Longrightarrow> piece Anything (join_spaced (map render_tree ts)) (map Lx (concat (map tree_lexs ts))) Delimiter"
proof (induction "map render_tree ts" arbitrary: ts rule: join_spaced.induct)
  case 1
  then show ?case by (auto intro: piece_empty)
next
  case (2 x)
  then show ?case by auto
next
  case (3 x y xs)
  then obtain t u us where ts: "ts = t # u # us" "x = render_tree t" "y = render_tree u" "xs = map render_tree us"
    by (auto simp: Cons_eq_map_conv)
  have sp: "piece Delimiter [space] [] Anything" by (rule piece_space) (simp_all add: char_is_space_def)
  have "piece Anything (join_spaced (map render_tree (u # us))) (map Lx (concat (map tree_lexs (u # us)))) Delimiter"
    using 3 ts by (intro 3(1)) auto
  from piece_append [OF _ piece_append [OF sp this]] show ?case using 3(3) ts by fastforce
qed

lemma lexs_map_Lx [simp]: "lexs (map Lx l) = l" "rems (map Lx l) = []"
  by (induction l) auto

lemma piece_render: "tidy cl t \<Longrightarrow> piece Anything (render_tree t) (map Lx (tree_lexs t)) Delimiter"
proof (induction t)
  case (TAtom x)
  then show ?case using piece_atom by simp
next
  case (TString x)
  then show ?case using piece_string [of Anything] piece_weaken by simp
next
  case (TSeq k x ts)
  obtain b e where be: "brackets k = Some (b, e)" using seq_brackets [of k] TSeq.prems by auto
  have "piece Anything (join_spaced (map render_tree ts)) (map Lx (concat (map tree_lexs ts))) Delimiter"
    using TSeq by (intro piece_join) (auto simp: list_all_iff)
  from piece_append [OF bracket_pieces(1) [OF be] piece_append [OF this bracket_pieces(2) [OF be]]]
  have "piece Anything (render_tree (TSeq k x ts)) (map Lx (tree_lexs (TSeq k x ts))) Anything"
    using be by simp
  then show ?case by (rule piece_weaken)
qed

lemma wrote_render: "tidy cl t \<Longrightarrow> wrote Anything pr (tree_lexs t) Delimiter (pr_str (render_tree t) pr)"
  using wrote_str [OF piece_render] by simp

end
