(* ===== verification/Format_Props.thy ===== *)
theory Format_Props
  imports Format_Contract
begin

text \<open>
  The contract a form's printer relies on, as a locale, and the generic printers under it: children
  on lines, pair vectors, calls, vectors and maps.
\<close>

section \<open>The contract\<close>

text \<open>Children in the arrays, their trees, and room for the recursion.\<close>

definition kids :: "fmt_env \<Rightarrow> u32 set \<Rightarrow> nat \<Rightarrow> node_index list \<Rightarrow> tree list \<Rightarrow> bool" where
  "kids env cl bound cs ts \<longleftrightarrow>
     ast_wf (fe_ast env) \<and> list_all2 (represents (fe_ast env)) cs ts \<and> list_all (tidy cl) ts
     \<and> list_all (\<lambda>c. unat c < bound) cs"

abbreviation all_lexs :: "tree list \<Rightarrow> lexeme list" where
  "all_lexs ts \<equiv> concat (map tree_lexs ts)"

lemma kids_Cons: "kids env cl b (c # cs) ts \<longleftrightarrow> (\<exists>t us. ts = t # us \<and> kids env cl b [c] [t] \<and> kids env cl b cs us)"
  by (auto simp: kids_def list_all2_Cons1)

lemma kids_Nil [simp]: "kids env cl b [] ts \<longleftrightarrow> ast_wf (fe_ast env) \<and> ts = []"
  by (auto simp: kids_def)

lemma kids_Nil2 [simp]: "kids env cl b cs [] \<longleftrightarrow> ast_wf (fe_ast env) \<and> cs = []"
  by (auto simp: kids_def)

lemma kids_Cons2E:
  assumes "kids env cl b cs (t # us)"
  obtains c ds where "cs = c # ds" "kids env cl b [c] [t]" "kids env cl b ds us"
  using assms by (auto simp: kids_def list_all2_Cons2)

lemma kids_two:
  assumes "kids env cl b cs (t # u # us)"
  obtains c d ds where "cs = c # d # ds" "kids env cl b [c] [t]" "kids env cl b [d] [u]" "kids env cl b ds us"
proof -
  obtain c es where 1: "cs = c # es" "kids env cl b [c] [t]" "kids env cl b es (u # us)"
    using kids_Cons2E [OF assms] .
  obtain d ds where "es = d # ds" "kids env cl b [d] [u]" "kids env cl b ds us"
    using kids_Cons2E [OF 1(3)] .
  then show thesis using that 1 by blast
qed

lemma kids_length: "kids env cl b cs ts \<Longrightarrow> length cs = length ts"
  by (auto simp: kids_def list_all2_lengthD)

lemma kids_drop: "kids env cl b cs ts \<Longrightarrow> kids env cl b (drop n cs) (drop n ts)"
  by (auto simp: kids_def list_all_iff dest: in_set_dropD)

lemma kids_take: "kids env cl b cs ts \<Longrightarrow> kids env cl b (take n cs) (take n ts)"
  by (auto simp: kids_def list_all_iff dest: in_set_takeD)

lemma kids_nth: "kids env cl b cs ts \<Longrightarrow> n < length ts \<Longrightarrow> kids env cl b [cs ! n] [ts ! n]"
  by (auto simp: kids_def list_all_iff list_all2_conv_all_nth)

lemma kids_tl: "kids env cl b cs ts \<Longrightarrow> kids env cl b (tl cs) (tl ts)"
  using kids_drop [of env cl b cs ts 1] by (simp add: drop_Suc)

lemma kids_last: "kids env cl b cs ts \<Longrightarrow> ts \<noteq> [] \<Longrightarrow> kids env cl b [last cs] [last ts]"
  using kids_nth [of env cl b cs ts "length ts - 1"] kids_length [of env cl b cs ts]
  by (cases "cs = []") (simp_all add: last_conv_nth)

lemma kid_facts:
  assumes "kids env cl b [c] [t]"
  shows "node_line (fe_ast env) c = Some (tok_line (tree_token t))"
    "node_text (fe_ast env) c = Some (tok_text (tree_token t))"
    "fmt_node_end_line (fe_ast env) c = Some (tree_end t)"
    "fmt_render_inline (fe_ast env) c = Some (render_tree t)" "tidy cl t"
  using assms node_line_tree node_text_tree fmt_node_end_line_tree fmt_render_inline_tree by (auto simp: kids_def)

lemma kid_children:
  assumes "kids env cl b [c] [TSeq k x ts]"
  shows "\<exists>cs. ast_seq_children (fe_ast env) c = Some cs \<and> kids env cl b cs ts"
proof -
  have wf: "ast_wf (fe_ast env)" and r: "represents (fe_ast env) c (TSeq k x ts)" and b: "unat c < b" and t: "list_all (tidy cl) ts"
    using assms by (auto simp: kids_def)
  obtain cs where cs: "ast_seq_children (fe_ast env) c = Some cs" "list_all2 (represents (fe_ast env)) cs ts"
    using represents_children [OF r] by blast
  have "list_all (\<lambda>d. unat d < b) cs"
    using children_before [OF wf cs(1)] b by (fastforce simp: list_all_iff)
  then show ?thesis using wf cs t by (auto simp: kids_def)
qed

section \<open>Widths and pairs\<close>

fun values_of :: "tree list \<Rightarrow> tree list" where
  "values_of (k # v # ts) = v # values_of ts" | "values_of ts = []"

text \<open>What the pre-pass found for a value: nothing, or its rendering.\<close>

definition shaped :: "tree \<Rightarrow> string option \<times> bool \<Rightarrow> bool" where
  "shaped t s \<longleftrightarrow> fst s = None \<or> fst s = Some (render_tree t)"

lemma fold_max_ge: "x \<in> set xs \<Longrightarrow> x \<le> fold max xs (a :: u32)" "a \<le> fold max xs a"
proof (induction xs arbitrary: a)
  case (Cons y xs)
  { case 1 then show ?case using Cons(1) [of "max y a"] Cons(2) [of "max y a"] by (auto intro: order_trans) }
  { case 2 then show ?case using Cons(2) [of "max y a"] by (auto intro: order_trans) }
qed simp_all

lemma length_pad_widths: "length (pad_widths xs) = length xs"
proof (induction xs rule: pad_widths.induct)
  case (3 s xs)
  have "length (takeWhile snd xs) + length (dropWhile snd xs) = length xs"
    by (metis length_append takeWhile_dropWhile_id)
  then show ?case using 3 by (simp add: Let_def)
qed simp_all

lemma zip_fst_list_all2: "list_all2 P ts ss \<Longrightarrow> length ws = length ss \<Longrightarrow> list_all2 (\<lambda>t z. P t (fst z)) ts (zip ss ws)"
  by (auto simp: list_all2_conv_all_nth)

lemma gap_positive:
  assumes "atom_ok n" "text_small n" "size_u32 n \<le> m"
  shows "0 < unat (m - size_u32 n + 1)"
proof -
  have u: "unat (size_u32 n) = length n" using assms(2) by (simp add: size_u32_def text_small_def unat_of_nat_u32)
  have p: "0 < length n" using assms(1) by (simp add: atom_ok_def)
  have "unat (m - size_u32 n) = unat m - length n" using assms(3) u by (simp add: unat_sub)
  moreover have "unat m < 2 ^ 32" using unsigned_less [of m] by simp
  moreover obtain k where "length n = Suc k" using p by (cases "length n") auto
  ultimately have "unat (m - size_u32 n) + 1 < 2 ^ 32" by (simp add: less_diff_conv2)
  then show ?thesis by (simp add: unat_add_lem [THEN iffD1])
qed

locale node_contract =
  fixes node :: node_printer and env :: fmt_env and cl :: "u32 set" and bound :: nat
  assumes node_prints: "kids env cl bound [i] [t] \<Longrightarrow> good cl pr \<Longrightarrow> does Anything pr (tree_lexs t) Delimiter (node i col pr)"
begin

section \<open>Steps the forms share\<close>

lemma try_inline_prints:
  assumes "kids env cl b [i] [t]"
  shows "\<exists>fits pr'. fmt_try_inline env i indent pr = Some (fits, pr')
    \<and> (if fits then wrote Anything pr (tree_lexs t) Delimiter pr' else pr' = pr)"
proof -
  note k = kid_facts [OF assms]
  have "fmt_measure_inline env i indent pr
      = Some (if fmt_has_pending_comment_in pr (tok_line (tree_token t)) (tree_end t)
              \<or> FMT_WIDTH < unat indent + length (render_tree t) then None else Some (render_tree t))"
    by (cases "fmt_has_pending_comment_in pr (tok_line (tree_token t)) (tree_end t)") (simp_all add: fmt_measure_inline_def k)
  then obtain r where r: "fmt_measure_inline env i indent pr = Some r" "r = None \<or> r = Some (render_tree t)"
    by (auto split: if_splits)
  then show ?thesis using wrote_render [OF k(5)] by (auto simp: fmt_try_inline_def)
qed

lemma node_trailing_prints:
  assumes "kids env cl bound [c] [t]" "good cl pr"
  shows "does_trailing Anything pr (tree_lexs t) (node_trailing node env c col pr)"
proof -
  note k = kid_facts [OF assms(1)]
  obtain pr1 where p: "node c col pr = Some pr1" "wrote Anything pr (tree_lexs t) Delimiter pr1"
    using node_prints [OF assms] unfolding does_def by blast
  obtain tr pr2 where f: "fmt_flush_trailing (tree_end t) pr1 = (tr, pr2)" by fastforce
  have "wrote Delimiter pr1 [] (after tr) pr2" using wrote_trailing [OF wrote_good [OF p(2) assms(2)] f] by blast
  from wrote_trans [OF p(2) this] show ?thesis by (simp add: node_trailing_def does_trailing_def p k f)
qed

lemma node_trailing_clear:
  assumes "kids env cl bound [c] [t]" "good cl pr" "tree_end t \<notin> cl"
  shows "\<exists>pr'. node_trailing node env c col pr = Some (False, pr') \<and> wrote Anything pr (tree_lexs t) Delimiter pr'"
proof -
  note k = kid_facts [OF assms(1)]
  obtain pr1 where p: "node c col pr = Some pr1" "wrote Anything pr (tree_lexs t) Delimiter pr1"
    using node_prints [OF assms(1,2)] unfolding does_def by blast
  obtain tr pr2 where f: "fmt_flush_trailing (tree_end t) pr1 = (tr, pr2)" by fastforce
  note w = wrote_trailing [OF wrote_good [OF p(2) assms(2)] f]
  then have "\<not> tr" using assms(3) by blast
  with w have "wrote Delimiter pr1 [] Delimiter pr2" by (simp add: after_def)
  from wrote_trans [OF p(2) this] \<open>\<not> tr\<close> show ?thesis by (simp add: node_trailing_def p k f)
qed

lemma fresh_prints:
  assumes "kids env cl b [c] [t]" "good cl pr"
  shows "does Anything pr [] Anything (fresh_line env c col pr)"
  using wrote_trans [OF wrote_flush [OF assms(2)] wrote_indent] kid_facts(1) [OF assms(1)]
  by (simp add: fresh_line_def does_def)

lemma new_line_prints:
  assumes "kids env cl b [c] [t]" "good cl pr"
  shows "does m pr [] Anything (fresh_line env c col (pr_lit [newline] pr))"
  using does_step [OF wrote_newline fresh_prints [OF assms(1) wrote_good [OF wrote_newline assms(2)]]] by simp

lemma lines_before_prints:
  "kids env cl bound cs ts \<Longrightarrow> good cl pr \<Longrightarrow> does_trailing (after tr) pr (all_lexs ts) (lines_before node env col cs tr pr)"
proof (induction cs arbitrary: ts tr pr)
  case Nil
  then show ?case using trailing_Some [OF wrote_same] by auto
next
  case (Cons c cs)
  then obtain t us where ts: "ts = t # us" "kids env cl bound [c] [t]" "kids env cl bound cs us"
    using kids_Cons by blast
  have "does_trailing (after tr) pr ([] @ tree_lexs t @ all_lexs us) (lines_before node env col (c # cs) tr pr)"
    unfolding lines_before.simps
    by (rule trailing_bind [OF new_line_prints [OF ts(2)]], use Cons in simp_all)
      (rule trailing_bind_trailing [OF node_trailing_prints [OF ts(2)]], use Cons.IH [OF ts(3)] in simp_all)
  then show ?case using ts by simp
qed

lemma lines_between_prints:
  "kids env cl bound cs ts \<Longrightarrow> good cl pr
     \<Longrightarrow> cs \<noteq> [] \<or> \<not> tr \<Longrightarrow> does_trailing Anything pr (all_lexs ts) (lines_between node env col cs tr pr)"
proof (induction cs arbitrary: ts tr pr)
  case Nil
  then show ?case using trailing_Some [OF wrote_weaken [OF wrote_same]] by auto
next
  case (Cons c cs)
  then obtain t us where ts: "ts = t # us" "kids env cl bound [c] [t]" "kids env cl bound cs us"
    using kids_Cons by blast
  have rest: "does_trailing (after tr) pr (all_lexs us) (lines_between node env col cs tr (if cs = [] then pr else pr_lit [newline] pr))"
    if "good cl pr" for tr pr
  proof (cases "cs = []")
    case True
    then show ?thesis using ts(3) trailing_Some [OF wrote_same] by simp
  next
    case False
    have "does_trailing Anything (pr_lit [newline] pr) (all_lexs us) (lines_between node env col cs tr (pr_lit [newline] pr))"
      using Cons.IH [OF ts(3) wrote_good [OF wrote_newline that]] False by simp
    from trailing_step [OF wrote_newline this] show ?thesis using False by simp
  qed
  have "does_trailing Anything pr ([] @ tree_lexs t @ all_lexs us) (lines_between node env col (c # cs) tr pr)"
    unfolding lines_between.simps
    by (rule trailing_bind [OF fresh_prints [OF ts(2)]], use Cons in simp_all)
      (rule trailing_bind_trailing [OF node_trailing_prints [OF ts(2)]], assumption, assumption, simp only: prod.case, rule rest)
  then show ?case using ts by simp
qed

text \<open>The end of a form: a line break after a comment, then the closer.\<close>

lemma close_prints:
  assumes "bracket_kind c = Some k"
  shows "wrote (after t) pr [(k, [c])] Delimiter (pr_lit [c] (break_line t indent pr))"
  using wrote_trans [OF wrote_break wrote_bracket [OF assms]] wrote_weaken by simp

section \<open>Pair vectors\<close>

lemma pair_shape_prints:
  assumes "kids env cl b [c] [t]"
  shows "\<exists>s. pair_shape env col pr c = Some s \<and> shaped t s"
proof -
  note k = kid_facts [OF assms]
  have m: "fmt_measure_inline env c col pr
      = Some (if fmt_has_pending_comment_in pr (tok_line (tree_token t)) (tree_end t)
              \<or> FMT_WIDTH < unat col + length (render_tree t) then None else Some (render_tree t))"
    by (cases "fmt_has_pending_comment_in pr (tok_line (tree_token t)) (tree_end t)") (simp_all add: fmt_measure_inline_def k)
  show ?thesis by (auto simp: pair_shape_def m k shaped_def)
qed

lemma value_prints:
  assumes "kids env cl bound [v] [t]" "good cl pr" "shaped t s"
  shows "does Anything pr (tree_lexs t) Delimiter (print_value node col v s w pr)"
proof (cases "fst s")
  case None
  then show ?thesis using node_prints [OF assms(1,2)] by (simp add: print_value_def)
next
  case (Some r)
  then have r: "r = render_tree t" using assms(3) by (simp add: shaped_def)
  have w: "wrote Anything pr (tree_lexs t) Delimiter (pr_str r pr)"
    using wrote_render kid_facts(5) [OF assms(1)] r by simp
  have "wrote Delimiter (pr_str r pr) [] Delimiter (fmt_write_indent n (pr_str r pr))" for n
    using wrote_weaken [OF wrote_gap] by (cases "0 < unat n") (simp_all add: fmt_write_indent_def pr_lit_def)
  then have "wrote Anything pr (tree_lexs t) Delimiter (fmt_write_indent n (pr_str r pr))" for n
    using wrote_trans [OF w] by fastforce
  then show ?thesis using Some w by (simp add: print_value_def Let_def does_def)
qed

lemma print_pair_prints:
  assumes n: "kids env cl bound [n] [TAtom x]" and v: "kids env cl bound [v] [t]" and g: "good cl pr"
    and m: "size_u32 (tok_text x) \<le> max_name" and s: "shaped t s"
  shows "does_trailing Anything pr (tree_lexs (TAtom x) @ tree_lexs t) (print_pair node env max_name vc (n, v) s w pr)"
proof -
  note kn = kid_facts [OF n] and kv = kid_facts [OF v]
  let ?p1 = "fmt_write_indent (max_name - size_u32 (tok_text x) + 1) (pr_str (tok_text x) pr)"
  have x: "atom_ok (tok_text x)" "text_small (tok_text x)" using kn(5) by auto
  have w1: "wrote Anything pr (tree_lexs (TAtom x)) Anything ?p1"
    using wrote_trans [OF wrote_atom [OF x(1)] wrote_gap [OF gap_positive [OF x m]]] by simp
  obtain pr2 where p2: "print_value node vc v s w ?p1 = Some pr2" "wrote Anything ?p1 (tree_lexs t) Delimiter pr2"
    using value_prints [OF v wrote_good [OF w1 g] s] unfolding does_def by blast
  obtain tr pr3 where f: "fmt_flush_trailing (tree_end t) pr2 = (tr, pr3)" by fastforce
  have "wrote Delimiter pr2 [] (after tr) pr3"
    using wrote_trailing [OF wrote_good [OF p2(2) wrote_good [OF w1 g]] f] by blast
  from wrote_trans [OF w1 wrote_trans [OF p2(2) this]]
  show ?thesis
    unfolding print_pair_def does_trailing_def fst_conv snd_conv kn(2) kv(3)
    by (simp add: Let_def p2(1) f)
qed

lemma print_pairs_prints:
  "kids env cl bound cs ts \<Longrightarrow> name_pairs ts \<Longrightarrow> list_all (\<lambda>k. size_u32 (tok_text (tree_token k)) \<le> mx) (keys_of ts)
    \<Longrightarrow> list_all2 (\<lambda>t z. shaped t (fst z)) (values_of ts) ss \<Longrightarrow> good cl pr
    \<Longrightarrow> does_trailing (if first then Anything else after tr) pr (all_lexs ts)
          (print_pairs node env col mx vc (pairs_of cs) ss first tr pr)"
proof (induction ts arbitrary: cs ss first tr pr rule: name_pairs.induct)
  case 1
  then show ?case using wrote_weaken [OF wrote_same] by (auto simp: does_trailing_def)
next
  case (3 a b ts)
  obtain n v cs' where cs: "cs = n # v # cs'" and k: "kids env cl bound [n] [a]" "kids env cl bound [v] [b]" "kids env cl bound cs' ts"
    using kids_two [OF "3.prems"(1)] .
  obtain x where a: "a = TAtom x" using "3.prems"(2) by (cases a) auto
  obtain z zs where ss: "ss = z # zs" "shaped b (fst z)" "list_all2 (\<lambda>t z. shaped t (fst z)) (values_of ts) zs"
    using "3.prems"(4) by (auto simp: list_all2_Cons1)
  let ?m = "if first then Anything else after tr"
  have start: "does ?m pr [] Anything (if first then Some pr else fresh_line env n (col + 1) (pr_lit [newline] pr))"
    using new_line_prints [OF k(1) "3.prems"(5)] does_Some [OF wrote_same] by (cases first) simp_all
  have "does_trailing ?m pr ([] @ (tree_lexs a @ tree_lexs b) @ all_lexs ts)
      (print_pairs node env col mx vc ((n, v) # pairs_of cs') (z # zs) first tr pr)"
    unfolding print_pairs.simps fst_conv
  proof (rule trailing_bind [OF start "3.prems"(5)])
    fix pr1 assume g: "good cl pr1"
    have p: "does_trailing Anything pr1 (tree_lexs a @ tree_lexs b) (print_pair node env mx vc (n, v) (fst z) (snd z) pr1)"
      using print_pair_prints [OF k(1) [unfolded a] k(2) g _ ss(2)] "3.prems"(3) a by simp
    show "does_trailing Anything pr1 ((tree_lexs a @ tree_lexs b) @ all_lexs ts)
        (print_pair node env mx vc (n, v) (fst z) (snd z) pr1
          \<bind> (\<lambda>(trailing, pr). print_pairs node env col mx vc (pairs_of cs') zs False trailing pr))"
      by (rule trailing_bind_trailing [OF p g]) (use "3.IH" [OF k(3) _ _ ss(3), where first = False] "3.prems" in simp)
  qed
  then show ?case using cs ss by simp
qed simp

lemma pair_vector_prints:
  assumes k: "kids env cl bound [c] [t]" and v: "pair_vector t" and g: "good cl pr"
  shows "does_trailing Anything pr ((TokenKind_LBracket, ''['') # all_lexs (items_of t)) (fmt_pair_vector node env c col pr)"
proof -
  obtain x ts where t: "t = TSeq AstNodeKind_Vector x ts" and np: "name_pairs ts"
    using v by (cases t rule: is_vector.cases) (auto simp: pair_vector_def)
  obtain cs where cs: "ast_seq_children (fe_ast env) c = Some cs" "kids env cl bound cs ts"
    using kid_children [OF k [unfolded t]] by blast
  have names: "those (map (node_text (fe_ast env) \<circ> fst) (pairs_of cs)) = Some (map (tok_text \<circ> tree_token) (keys_of ts))"
    using cs(2) np
  proof (induction ts arbitrary: cs rule: name_pairs.induct)
    case (3 a b ts)
    obtain n w cs' where c: "cs = n # w # cs'" "kids env cl bound [n] [a]" "kids env cl bound [w] [b]" "kids env cl bound cs' ts"
      using kids_two [OF "3.prems"(1)] .
    then show ?case using "3.IH" [OF c(4)] "3.prems"(2) kid_facts(2) [OF c(2)] by simp
  qed auto
  let ?mx = "fold max (map size_u32 (map (tok_text \<circ> tree_token) (keys_of ts))) 0"
  let ?vc = "col + 1 + ?mx + 1"
  have "\<exists>shapes. those (map (pair_shape env vc pr \<circ> snd) (pairs_of cs)) = Some shapes \<and> list_all2 shaped (values_of ts) shapes"
    for vc using cs(2) np
  proof (induction ts arbitrary: cs rule: name_pairs.induct)
    case (3 a b ts)
    obtain n w cs' where c: "cs = n # w # cs'" "kids env cl bound [n] [a]" "kids env cl bound [w] [b]" "kids env cl bound cs' ts"
      using kids_two [OF "3.prems"(1)] .
    obtain s where s: "pair_shape env vc pr w = Some s" "shaped b s" using pair_shape_prints [OF c(3)] by blast
    have "name_pairs ts" using "3.prems"(2) by simp
    then obtain shapes where "those (map (pair_shape env vc pr \<circ> snd) (pairs_of cs')) = Some shapes"
      "list_all2 shaped (values_of ts) shapes" using "3.IH" [OF c(4)] by blast
    then show ?case using c s by (intro exI [of _ "s # shapes"]) (simp add: o_def)
  qed auto
  then obtain shapes where sh: "those (map (pair_shape env ?vc pr \<circ> snd) (pairs_of cs)) = Some shapes"
    "list_all2 shaped (values_of ts) shapes" by blast
  have open_: "wrote Anything pr [(TokenKind_LBracket, ''['')] Anything (pr_lit ''['' pr)"
    by (rule wrote_bracket) (simp_all add: bracket_kind_def)
  have "list_all (\<lambda>k. size_u32 (tok_text (tree_token k)) \<le> ?mx) (keys_of ts)"
    using fold_max_ge(1) by (auto simp: list_all_iff)
  note pp = print_pairs_prints [OF cs(2) np this zip_fst_list_all2 [OF sh(2) length_pad_widths]
    wrote_good [OF open_ g], where first = True and tr = False and col = col and vc = ?vc, unfolded if_True]
  from trailing_step [OF open_ pp] show ?thesis
    by (simp only: fmt_pair_vector_def Let_def cs(1) names sh(1) Option.bind.simps t items_of.simps append_Cons append_Nil)
qed

section \<open>Calls and sequences\<close>

lemma try_inline_bind:
  assumes "kids env cl b [i] [t]" "does Anything pr (tree_lexs t) Delimiter (g pr)"
  shows "does Anything pr (tree_lexs t) Delimiter (fmt_try_inline env i indent pr \<bind> (\<lambda>(fits, pr). if fits then Some pr else g pr))"
proof -
  obtain fits pr' where "fmt_try_inline env i indent pr = Some (fits, pr')"
    "if fits then wrote Anything pr (tree_lexs t) Delimiter pr' else pr' = pr"
    using try_inline_prints [OF assms(1)] by blast
  then show ?thesis using assms(2) by (cases fits) (simp_all add: does_Some)
qed

lemma close_bind:
  assumes "does_trailing m pr l r" "good cl pr" "bracket_kind c = Some k"
  shows "does m pr (l @ [(k, [c])]) Delimiter (r \<bind> (\<lambda>(t, pr). Some (pr_lit [c] (break_line t indent pr))))"
  by (rule does_bind_trailing [OF assms(1,2)]) (simp add: does_Some [OF close_prints [OF assms(3)]])

lemma list_lexs: "tree_lexs (TSeq AstNodeKind_List x ts) = (TokenKind_LParen, ''('') # all_lexs ts @ [(TokenKind_RParen, '')'')]"
  by (simp add: seq_open_def seq_close_def)

lemma vector_lexs:
  "is_vector t \<Longrightarrow> tree_lexs t = (TokenKind_LBracket, ''['') # all_lexs (items_of t) @ [(TokenKind_RBracket, '']'')]"
  by (cases t rule: is_vector.cases) (simp_all add: seq_open_def seq_close_def)

lemma bracket_kinds:
  "bracket_kind (CHR ''('') = Some TokenKind_LParen" "bracket_kind (CHR '')'') = Some TokenKind_RParen"
  "bracket_kind (CHR ''['') = Some TokenKind_LBracket" "bracket_kind (CHR '']'') = Some TokenKind_RBracket"
  "bracket_kind (CHR ''{'') = Some TokenKind_LBrace" "bracket_kind (CHR ''}'') = Some TokenKind_RBrace"
  by (simp_all add: bracket_kind_def)

lemma open_prints: "bracket_kind c = Some k \<Longrightarrow> wrote Anything pr [(k, [c])] Anything (pr_lit [c] pr)"
  by (rule wrote_bracket) simp_all

lemma call_prints:
  assumes i: "kids env cl b [i] [TSeq AstNodeKind_List x ts]" and k: "kids env cl bound cs ts" and g: "good cl pr"
  shows "does Anything pr (tree_lexs (TSeq AstNodeKind_List x ts)) Delimiter (fmt_call node env i cs indent pr)"
  unfolding fmt_call_def
proof (rule try_inline_bind [OF i])
  let ?body = "case cs of [] \<Rightarrow> Some (pr_lit ''()'' pr) | head # args \<Rightarrow>
    do { head_s \<leftarrow> fmt_render_inline (fe_ast env) head;
         let pr = pr_str head_s (pr_lit ''('' pr);
         let align_col = indent + 1 + size_u32 head_s + 1;
         (trailing, pr) \<leftarrow> (case args of [] \<Rightarrow> Some (False, pr)
            | a # rest \<Rightarrow> do { (trailing, pr) \<leftarrow> node_trailing node env a align_col (pr_lit '' '' pr);
                               lines_before node env align_col rest trailing pr });
         Some (pr_lit '')'' (break_line trailing indent pr)) }"
  show "does Anything pr (tree_lexs (TSeq AstNodeKind_List x ts)) Delimiter ?body"
  proof (cases ts)
    case Nil
    have "pr_lit ''()'' pr = pr_lit '')'' (pr_lit ''('' pr)" by (simp add: pr_lit_def)
    moreover have "wrote Anything (pr_lit ''('' pr) [(TokenKind_RParen, '')'')] Anything (pr_lit '')'' (pr_lit ''('' pr))"
      by (rule open_prints [OF bracket_kinds(2)])
    ultimately show ?thesis
      using wrote_weaken [OF wrote_trans [OF open_prints [OF bracket_kinds(1)]]] Nil k
      by (simp add: does_def list_lexs del: tree_lexs.simps)
  next
    case (Cons h us)
    obtain c ds where cs: "cs = c # ds" "kids env cl bound [c] [h]" "kids env cl bound ds us"
      using kids_Cons2E k unfolding Cons by blast
    let ?p1 = "pr_str (render_tree h) (pr_lit ''('' pr)"
    have w1: "wrote Anything pr ([(TokenKind_LParen, ''('')] @ tree_lexs h) Delimiter ?p1"
      by (rule wrote_trans [OF open_prints [OF bracket_kinds(1)] wrote_render [OF kid_facts(5) [OF cs(2)]]])
    note g1 = wrote_good [OF w1 g]
    have args: "does_trailing Delimiter ?p1 (all_lexs us) (case ds of [] \<Rightarrow> Some (False, ?p1)
        | a # rest \<Rightarrow> do { (trailing, pr) \<leftarrow> node_trailing node env a col (pr_lit '' '' ?p1);
                           lines_before node env col rest trailing pr })" for col
    proof (cases ds)
      case Nil
      then show ?thesis using cs(3) trailing_Some [of Delimiter ?p1 "[]" False ?p1] by (simp add: after_def)
    next
      case (Cons a rest)
      obtain u vs where us: "us = u # vs" "kids env cl bound [a] [u]" "kids env cl bound rest vs"
        using cs(3) kids_Cons unfolding Cons by blast
      note g2 = wrote_good [OF wrote_space g1]
      have "does_trailing Anything (pr_lit '' '' ?p1) (tree_lexs u @ all_lexs vs)
          (node_trailing node env a col (pr_lit '' '' ?p1) \<bind> (\<lambda>(trailing, pr). lines_before node env col rest trailing pr))"
        by (rule trailing_bind_trailing [OF node_trailing_prints [OF us(2) g2] g2]) (simp add: lines_before_prints [OF us(3)])
      from trailing_step [OF wrote_space this] show ?thesis using Cons us by simp
    qed
    have "does Delimiter ?p1 (all_lexs us @ [(TokenKind_RParen, '')'')]) Delimiter
        ((case ds of [] \<Rightarrow> Some (False, ?p1)
          | a # rest \<Rightarrow> do { (trailing, pr) \<leftarrow> node_trailing node env a col (pr_lit '' '' ?p1);
                             lines_before node env col rest trailing pr })
         \<bind> (\<lambda>(trailing, pr). Some (pr_lit '')'' (break_line trailing indent pr))))" for col
      by (rule close_bind [OF args g1 bracket_kinds(2)])
    from does_step [OF w1 this] show ?thesis
      by (simp only: cs(1) Cons list.case kid_facts(4) [OF cs(2)] list_lexs Let_def Option.bind.simps list.map concat.simps
          append_Cons append_Nil append_assoc)
  qed
qed

lemma start_prints:
  assumes "kids env cl bound [c] [t]" "good cl pr"
  shows "does (if first then Anything else after tr) pr [] Anything (if first then Some pr else fresh_line env c col (pr_lit [newline] pr))"
  using new_line_prints [OF assms] does_Some [OF wrote_same] by (cases first) simp_all

lemma seq_items_prints:
  "kids env cl bound cs ts \<Longrightarrow> good cl pr
     \<Longrightarrow> does_trailing (if first then Anything else after tr) pr (all_lexs ts) (seq_items node env col False cs first tr pr)"
proof (induction cs arbitrary: ts first tr pr)
  case Nil
  then show ?case using wrote_weaken [OF wrote_same] by (auto simp: does_trailing_def)
next
  case (Cons c cs)
  obtain t us where ts: "ts = t # us" "kids env cl bound [c] [t]" "kids env cl bound cs us"
    using Cons.prems(1) kids_Cons by blast
  have "does_trailing (if first then Anything else after tr) pr ([] @ tree_lexs t @ all_lexs us)
      (seq_items node env col False (c # cs) first tr pr)"
    unfolding seq_items.simps if_False
    by (rule trailing_bind [OF start_prints [OF ts(2) Cons.prems(2)] Cons.prems(2)])
      (rule trailing_bind_trailing [OF node_trailing_prints [OF ts(2)]], assumption, assumption,
        use Cons.IH [OF ts(3), where first = False] in simp)
  then show ?case using ts by simp
qed

lemma map_items_prints:
  "kids env cl bound cs ts \<Longrightarrow> even (length ts) \<Longrightarrow> list_all (\<lambda>k. tree_end k \<notin> cl) (keys_of ts) \<Longrightarrow> good cl pr
     \<Longrightarrow> does_trailing (if first then Anything else after tr) pr (all_lexs ts) (seq_items node env col True cs first tr pr)"
proof (induction ts arbitrary: cs first tr pr rule: keys_of.induct)
  case (1 k v ts)
  obtain c d ds where cs: "cs = c # d # ds" "kids env cl bound [c] [k]" "kids env cl bound [d] [v]" "kids env cl bound ds ts"
    using kids_two [OF "1.prems"(1)] .
  have pair: "does_trailing Anything pr1 (tree_lexs k @ tree_lexs v @ all_lexs ts)
      (node_trailing node env c col pr1 \<bind> (\<lambda>(trailing, pr).
         node_trailing node env d col (pr_lit '' '' pr) \<bind> (\<lambda>(trailing, pr).
           seq_items node env col True ds False trailing pr)))" if g1: "good cl pr1" for pr1
  proof -
    obtain pr2 where p2: "node_trailing node env c col pr1 = Some (False, pr2)" "wrote Anything pr1 (tree_lexs k) Delimiter pr2"
      using node_trailing_clear [OF cs(2) g1] "1.prems"(3) by auto
    note w = wrote_trans [OF p2(2) wrote_space]
    have "does_trailing Anything (pr_lit '' '' pr2) (tree_lexs v @ all_lexs ts)
        (node_trailing node env d col (pr_lit '' '' pr2) \<bind> (\<lambda>(trailing, pr). seq_items node env col True ds False trailing pr))"
      by (rule trailing_bind_trailing [OF node_trailing_prints [OF cs(3) wrote_good [OF w g1]] wrote_good [OF w g1]])
        (use "1.IH" [OF cs(4), where first = False] "1.prems"(2,3) in simp)
    from trailing_step [OF w this] show ?thesis using p2 by simp
  qed
  have "does_trailing (if first then Anything else after tr) pr ([] @ tree_lexs k @ tree_lexs v @ all_lexs ts)
      (seq_items node env col True (c # d # ds) first tr pr)"
    unfolding seq_items.simps if_True list.case
    by (rule trailing_bind [OF start_prints [OF cs(2) "1.prems"(4)] "1.prems"(4)]) (rule pair)
  then show ?case using cs by simp
next
  case "2_1"
  then show ?case using wrote_weaken [OF wrote_same] by (auto simp: does_trailing_def)
qed simp

lemma seq_generic_prints:
  assumes i: "kids env cl b [i] [TSeq k x ts]" and kind: "k = AstNodeKind_Vector \<or> k = AstNodeKind_Map"
    and cs: "ast_seq_children (fe_ast env) i = Some cs" "kids env cl bound cs ts" and g: "good cl pr"
  shows "does Anything pr (tree_lexs (TSeq k x ts)) Delimiter (fmt_seq_generic node env i indent pr)"
  unfolding fmt_seq_generic_def
proof (rule try_inline_bind [OF i])
  have r: "represents (fe_ast env) i (TSeq k x ts)" and sh: "k = AstNodeKind_Map \<longrightarrow> map_shape cl ts" using i by (auto simp: kids_def)
  obtain nd where nd: "ast_get (fe_ast env) i = Some nd" "an_kind nd = k" using represents_node [OF r] by auto
  obtain b o1 e c where br: "brackets k = Some (b, e)" "bracket_kind o1 = Some b" "bracket_kind c = Some e"
    "seq_open k = [o1]" "seq_close k = [c]" "(if k = AstNodeKind_Map then ''{'' else ''['') = [o1]"
    "(if k = AstNodeKind_Map then ''}'' else '']'') = [c]"
    using kind that [of TokenKind_LBracket TokenKind_RBracket "CHR ''[''" "CHR '']''"]
      that [of TokenKind_LBrace TokenKind_RBrace "CHR ''{''" "CHR ''}''"] bracket_kinds
    by (elim disjE) (simp_all add: seq_open_def seq_close_def)
  let ?p = "k = AstNodeKind_Map \<and> even (length cs)" and ?p1 = "pr_lit [o1] pr"
  have lex: "tree_lexs (TSeq k x ts) = [(b, [o1])] @ all_lexs ts @ [(e, [c])]" using br by simp
  note w = open_prints [OF br(2), of pr]
  have items: "does_trailing Anything ?p1 (all_lexs ts) (seq_items node env (indent + 1) ?p cs True False ?p1)"
  proof (cases ?p)
    case True
    then have "even (length ts)" "list_all (\<lambda>k. tree_end k \<notin> cl) (keys_of ts)"
      using sh kids_length [OF cs(2)] by (auto simp: map_shape_def)
    from map_items_prints [OF cs(2) this wrote_good [OF w g], where first = True] True show ?thesis by simp
  next
    case False
    from seq_items_prints [OF cs(2) wrote_good [OF w g], where first = True] False show ?thesis by (simp only: if_True)
  qed
  have "does Anything ?p1 (all_lexs ts @ [(e, [c])]) Delimiter
     (if cs = [] then Some (pr_lit [c] ?p1)
      else do { (trailing, pr) \<leftarrow> seq_items node env (indent + 1) ?p cs True False ?p1;
                Some (pr_lit [c] (break_line trailing indent pr)) })"
  proof (cases "cs = []")
    case True
    then show ?thesis using cs(2) wrote_weaken [OF open_prints [OF br(3)]] by (simp add: does_def)
  next
    case False
    then show ?thesis using close_bind [OF items wrote_good [OF w g] br(3)] by simp
  qed
  from does_step [OF w this] show "does Anything pr (tree_lexs (TSeq k x ts)) Delimiter
     (do { nd \<leftarrow> ast_get (fe_ast env) i;
           let is_map = an_kind nd = AstNodeKind_Map;
           let close = (if is_map then ''}'' else '']'');
           children \<leftarrow> ast_seq_children (fe_ast env) i;
           let pr = pr_lit (if is_map then ''{'' else ''['') pr;
           if children = [] then Some (pr_lit close pr)
           else do { (trailing, pr) \<leftarrow> seq_items node env (indent + 1) (is_map \<and> even (length children)) children True False pr;
                     Some (pr_lit close (break_line trailing indent pr)) } })"
    by (simp only: nd cs(1) br(6,7) Let_def Option.bind.simps lex)
qed

end

end
