(* ===== verification/Format_Decls.thy ===== *)
theory Format_Decls
  imports Format_Props
begin

text \<open>
  The printers of declarations and blocks under the contract of the dispatcher.
\<close>

context node_contract
begin

lemma escape_plain: "list_all (\<lambda>c. escape_char c = None) s \<Longrightarrow> escape_body s = s"
  by (induction s) (auto simp: escape_body_def)

lemma literal_step: "pr_lit (c # d # s) pr = pr_lit (d # s) (pr_lit [c] pr)"
  by (simp add: pr_lit_def)

lemma atom_head:
  assumes "head_op ts = Some op"
  obtains x us where "ts = TAtom x # us" "tok_text x = op"
  using assms by (cases ts rule: head_op.cases) auto

lemma atom_text_ok: "kids env cl b [c] [t] \<Longrightarrow> is_atom t \<Longrightarrow> atom_ok (tok_text (tree_token t)) \<and> tree_lexs t = [(TokenKind_Atom, tok_text (tree_token t))]"
  by (cases t) (auto simp: kids_def)

text \<open>An opening parenthesis and the head atom; a further atom after a space.\<close>

lemma head_prints:
  assumes "kids env cl b [c] [t]" "is_atom t"
  shows "wrote Anything pr ((TokenKind_LParen, ''('') # tree_lexs t) Delimiter (pr_str (tok_text (tree_token t)) (pr_lit ''('' pr))"
  using wrote_trans [OF open_prints [OF bracket_kinds(1)] wrote_atom] atom_text_ok [OF assms] by fastforce

lemma atom_prints:
  assumes "kids env cl b [c] [t]" "is_atom t"
  shows "wrote Delimiter pr (tree_lexs t) Delimiter (pr_str (tok_text (tree_token t)) (pr_lit '' '' pr))"
  using wrote_trans [OF wrote_space wrote_atom] atom_text_ok [OF assms] by fastforce

lemma render_prints:
  assumes "kids env cl b [c] [t]"
  shows "wrote Delimiter pr (tree_lexs t) Delimiter (pr_str (render_tree t) (pr_lit '' '' pr))"
  using wrote_trans [OF wrote_space wrote_render [OF kid_facts(5) [OF assms]]] by simp

text \<open>The children of a list after its first ones, each on a line of its own, and the closer.\<close>

lemma body_prints:
  assumes "kids env cl bound cs ts" "good cl pr"
  shows "does Delimiter pr (all_lexs ts @ [(TokenKind_RParen, '')'')]) Delimiter
    (lines_between node env col cs False (pr_lit [newline] pr) \<bind> (\<lambda>(t, pr). Some (pr_lit '')'' (break_line t indent pr))))"
proof -
  have "does_trailing Anything (pr_lit [newline] pr) (all_lexs ts) (lines_between node env col cs False (pr_lit [newline] pr))"
    by (rule lines_between_prints [OF assms(1) wrote_good [OF wrote_newline assms(2)]]) simp
  from trailing_step [OF wrote_newline this]
  have "does_trailing Delimiter pr (all_lexs ts) (lines_between node env col cs False (pr_lit [newline] pr))" by simp
  from close_bind [OF this assms(2) bracket_kinds(2)] show ?thesis .
qed

section \<open>Functions\<close>

lemma fn_header_piece:
  assumes "tidy cl t" "is_atom t" "tidy cl ps" "tidy cl r"
  shows "wrote Anything pr ([(TokenKind_LParen, ''(''), (TokenKind_Atom, ''fn'')] @ tree_lexs t @ tree_lexs ps @ tree_lexs r)
    Delimiter (pr_str (''(fn '' @ tok_text (tree_token t) @ '' '' @ render_tree ps @ '' '' @ render_tree r) pr)"
proof -
  have sp: "piece Delimiter '' '' [] Anything" by (rule piece_space) (simp_all add: char_is_space_def)
  have fn: "piece Anything ''fn'' [Lx (TokenKind_Atom, ''fn'')] Delimiter"
    by (rule piece_atom) (simp add: atom_ok_def char_is_delim_def char_is_space_def)
  have nm: "piece Anything (tok_text (tree_token t)) (map Lx (tree_lexs t)) Delimiter"
    using piece_render [OF assms(1)] assms(2) by (cases t) simp_all
  have op: "piece Anything ''('' [Lx (TokenKind_LParen, ''('')] Anything" by (rule piece_bracket) (simp_all add: bracket_kinds)
  note all = piece_append [OF op piece_append [OF fn piece_append [OF sp piece_append [OF nm piece_append [OF sp
    piece_append [OF piece_render [OF assms(3)] piece_append [OF sp piece_render [OF assms(4)]]]]]]]]
  from wrote_str [OF all] show ?thesis by simp
qed

lemma fn_signature_prints:
  assumes n: "kids env cl bound [c1] [t1]" "is_atom t1" and p: "kids env cl bound [c2] [t2]" "pair_vector t2"
    and r: "kids env cl bound [c3] [t3]" and g: "good cl pr"
  shows "does Anything pr ([(TokenKind_LParen, ''(''), (TokenKind_Atom, ''fn'')] @ tree_lexs t1 @ tree_lexs t2 @ tree_lexs t3) Delimiter
    (do { let pr = fmt_write_indent hang (pr_lit [newline] (pr_str (tok_text (tree_token t1)) (pr_lit ''(fn '' pr)));
          (trailing, pr) \<leftarrow> fmt_pair_vector node env c2 hang pr;
          Some (pr_str (render_tree t3) (pr_lit ''] '' (break_line trailing hang pr))) })"
proof -
  have lit: "pr_lit ''(fn '' pr = pr_lit '' '' (pr_lit ''fn'' (pr_lit ''('' pr))" by (simp add: pr_lit_def)
  have fn: "wrote Anything (pr_lit ''('' pr) [(TokenKind_Atom, ''fn'')] Delimiter (pr_lit ''fn'' (pr_lit ''('' pr))"
    using wrote_lit [OF piece_atom, of "''fn''"] by (simp add: atom_ok_def char_is_delim_def char_is_space_def)
  let ?p1 = "fmt_write_indent hang (pr_lit [newline] (pr_str (tok_text (tree_token t1)) (pr_lit ''(fn '' pr)))"
  have w1: "wrote Anything pr ([(TokenKind_LParen, ''('')] @ [(TokenKind_Atom, ''fn'')] @ tree_lexs t1 @ [] @ []) Anything ?p1"
    unfolding lit
    by (rule wrote_trans [OF open_prints [OF bracket_kinds(1)] wrote_trans [OF fn wrote_trans [OF atom_prints [OF n]
        wrote_trans [OF wrote_newline wrote_indent]]]])
  note g1 = wrote_good [OF w1 g]
  note v = pair_vector_prints [OF p g1, of hang]
  have "is_vector t2" using p(2) by (simp add: pair_vector_def)
  note vl = vector_lexs [OF this]
  have close: "wrote (after t) pr2 ([(TokenKind_RBracket, '']'')] @ [] @ tree_lexs t3) Delimiter
      (pr_str (render_tree t3) (pr_lit ''] '' (break_line t hang pr2)))" for t pr2
  proof -
    have l: "pr_lit ''] '' q = pr_lit '' '' (pr_lit '']'' q)" for q by (simp add: pr_lit_def)
    show ?thesis unfolding l
      by (rule wrote_trans [OF close_prints [OF bracket_kinds(4)] wrote_trans [OF wrote_space wrote_render [OF kid_facts(5) [OF r]]]])
  qed
  have "does Anything ?p1 (((TokenKind_LBracket, ''['') # all_lexs (items_of t2)) @ ([(TokenKind_RBracket, '']'')] @ [] @ tree_lexs t3)) Delimiter
     (fmt_pair_vector node env c2 hang ?p1 \<bind> (\<lambda>(t, pr). Some (pr_str (render_tree t3) (pr_lit ''] '' (break_line t hang pr)))))"
    by (rule does_bind_trailing [OF v g1]) (simp add: does_Some [OF close] del: append_Cons append_Nil)
  from does_step [OF w1 this] show ?thesis by (simp add: vl Let_def)
qed

text \<open>What a list form may use of its children.\<close>

lemma list_shape: "kids env cl b [i] [TSeq AstNodeKind_List x ts] \<Longrightarrow> form_shape ts"
  by (simp add: kids_def)

lemma fn_prints:
  assumes i: "kids env cl b [i] [TSeq AstNodeKind_List x ts]" and k: "kids env cl bound cs ts"
    and h: "head_op ts = Some ''fn''" and g: "good cl pr"
  shows "does Anything pr (tree_lexs (TSeq AstNodeKind_List x ts)) Delimiter (fmt_fn node env i cs indent pr)"
proof -
  have len: "length cs = length ts" by (rule kids_length [OF k])
  consider "length ts < 4" | "length ts = 4" | "4 < length ts" by linarith
  then show ?thesis
  proof cases
    case 1
    then show ?thesis using call_prints [OF i k g] len by (simp add: fmt_fn_def)
  next
    case 2
    then show ?thesis
      using wrote_render [OF kid_facts(5) [OF i]] kid_facts(4) [OF i] len by (simp add: fmt_fn_def does_def del: tree_lexs.simps render_tree.simps)
  next
    case 3
    obtain x0 us where t0: "ts = TAtom x0 # us" "tok_text x0 = ''fn''" using atom_head [OF h] .
    obtain t1 t2 t3 vs where ts: "ts = TAtom x0 # t1 # t2 # t3 # vs"
      using 3 t0 by (cases us; cases "tl us"; cases "tl (tl us)") auto
    obtain c0 c1 ds where c1: "cs = c0 # c1 # ds" "kids env cl bound [c1] [t1]" "kids env cl bound ds (t2 # t3 # vs)"
      using kids_two k unfolding ts by metis
    obtain c2 c3 es where c2: "ds = c2 # c3 # es" "kids env cl bound [c2] [t2]" "kids env cl bound [c3] [t3]" "kids env cl bound es vs"
      using kids_two [OF c1(3)] .
    have cs: "cs = c0 # c1 # c2 # c3 # es" using c1(1) c2(1) by simp
    have sh: "is_atom t1" "pair_vector t2" using list_shape [OF i] h 3 ts by (auto simp: form_shape_def)
    obtain y ps where t2: "t2 = TSeq AstNodeKind_Vector y ps" using sh(2) by (cases t2 rule: is_vector.cases) (auto simp: pair_vector_def)
    obtain flat where flat: "ast_seq_children (fe_ast env) c2 = Some flat" using kid_children [OF c2(2) [unfolded t2]] by blast
    let ?hd = "''(fn '' @ tok_text (tree_token t1) @ '' '' @ render_tree t2 @ '' '' @ render_tree t3"
    let ?sig = "[(TokenKind_LParen, ''(''), (TokenKind_Atom, ''fn'')] @ tree_lexs t1 @ tree_lexs t2 @ tree_lexs t3"
    let ?hang = "indent + fe_hang env"
    have sig: "does Anything pr ?sig Delimiter
       (if P then Some (pr_str ?hd pr)
        else do { let pr = fmt_write_indent ?hang (pr_lit [newline] (pr_str (tok_text (tree_token t1)) (pr_lit ''(fn '' pr)));
                  (trailing, pr) \<leftarrow> fmt_pair_vector node env c2 ?hang pr;
                  Some (pr_str (render_tree t3) (pr_lit ''] '' (break_line trailing ?hang pr))) })" for P
      using does_Some [OF fn_header_piece [OF kid_facts(5) [OF c1(2)] sh(1) kid_facts(5) [OF c2(2)] kid_facts(5) [OF c2(3)]]]
        fn_signature_prints [OF c1(2) sh(1) c2(2) sh(2) c2(3) g] by (cases P) simp_all
    have lex: "tree_lexs (TSeq AstNodeKind_List x ts) = ?sig @ (all_lexs vs @ [(TokenKind_RParen, '')'')])"
      using t0(2) by (simp add: ts seq_open_def seq_close_def)
    have "does Anything pr (?sig @ (all_lexs vs @ [(TokenKind_RParen, '')'')])) Delimiter
       ((if P then Some (pr_str ?hd pr)
         else do { let pr = fmt_write_indent ?hang (pr_lit [newline] (pr_str (tok_text (tree_token t1)) (pr_lit ''(fn '' pr)));
                   (trailing, pr) \<leftarrow> fmt_pair_vector node env c2 ?hang pr;
                   Some (pr_str (render_tree t3) (pr_lit ''] '' (break_line trailing ?hang pr))) })
        \<bind> (\<lambda>pr. lines_between node env (indent + FMT_INDENT) es False (pr_lit [newline] pr)
               \<bind> (\<lambda>(t, pr). Some (pr_lit '')'' (break_line t indent pr)))))" for P
      by (rule does_bind [OF sig g]) (rule body_prints [OF c2(4)])
    note fin = this
    have d4: "drop 4 cs = es" "cs ! 1 = c1" "cs ! 2 = c2" "cs ! 3 = c3" "\<not> length cs < 4" "length cs \<noteq> 4"
      using cs 3 len by (simp_all add: numeral_eq_Suc)
    show ?thesis
      unfolding fmt_fn_def if_not_P [OF d4(5)] if_not_P [OF d4(6)] Let_def d4 kid_facts [OF c1(2)] kid_facts [OF c2(3)] kid_facts [OF c2(2)]
        flat Option.bind.simps lex
      by (rule fin [unfolded Let_def])
  qed
qed

section \<open>Structs and enums\<close>

lemma decl_head_prints:
  assumes k: "kids env cl bound cs ts" and h: "head_op ts = Some op" and len: "length ts = 3 \<or> length ts = 4" and s: "decl_shape ts"
  shows "does Anything pr ((TokenKind_LParen, ''('') # all_lexs (butlast ts)) Delimiter (decl_head env cs pr)"
proof -
  obtain x0 us where t0: "ts = TAtom x0 # us" using atom_head [OF h] by metis
  obtain t1 t2 vs where ts: "ts = TAtom x0 # t1 # t2 # vs" "vs = [] \<or> (\<exists>t3. vs = [t3])"
    using len t0 by (cases us; cases "tl us"; cases "tl (tl us)") auto
  have a: "is_atom t1" "is_atom (TAtom x0)" using s by (simp_all add: decl_shape_def ts)
  obtain c0 c1 ds where c: "cs = c0 # c1 # ds" "kids env cl bound [c0] [TAtom x0]" "kids env cl bound [c1] [t1]"
      "kids env cl bound ds (t2 # vs)"
    using kids_two k unfolding ts(1) by metis
  let ?p = "pr_str (tok_text (tree_token t1)) (pr_lit '' '' (pr_str (tok_text (tree_token (TAtom x0))) (pr_lit ''('' pr)))"
  have w: "wrote Anything pr (((TokenKind_LParen, ''('') # tree_lexs (TAtom x0)) @ tree_lexs t1) Delimiter ?p"
    by (rule wrote_trans [OF head_prints [OF c(2) a(2)] atom_prints [OF c(3) a(1)]])
  have n: "node_text (fe_ast env) (cs ! 0) = Some (tok_text (tree_token (TAtom x0)))" "node_text (fe_ast env) (cs ! 1) = Some (tok_text (tree_token t1))"
    using kid_facts(2) [OF c(2)] kid_facts(2) [OF c(3)] by (simp_all add: c(1))
  show ?thesis
  proof (cases "length ts = 3")
    case True
    then have "vs = []" "length cs \<noteq> 4" using ts kids_length [OF k] by auto
    then show ?thesis using w by (simp only: decl_head_def n Option.bind.simps Let_def if_False) (simp add: does_def ts)
  next
    case False
    then obtain t3 where vs: "vs = [t3]" using ts len by auto
    obtain c2 es where c2: "ds = c2 # es" "kids env cl bound [c2] [t2]" using c(4) kids_Cons2E by metis
    have "is_plain_string t2" using s by (simp add: decl_shape_def ts vs)
    then obtain y where y: "t2 = TString y" "list_all (\<lambda>c. escape_char c = None) (tok_text y)" by (cases t2) auto
    have esc: "escape_body (tok_text y) = tok_text y" by (rule escape_plain [OF y(2)])
    have nul: "printf_text (tok_text y) = tok_text y"
      using y(2) by (auto simp: printf_text_def takeWhile_eq_all_conv list_all_iff escape_char_def split: if_splits)
    have "pr_lit [quote] (pr_str (tok_text y) (pr_lit [space, quote] q)) = pr_lit (fmt_escape_string (tok_text y)) (pr_lit [space] q)" for q
      by (simp add: pr_str_def nul pr_lit_def fmt_escape_string_def esc)
    moreover have "wrote Delimiter ?p ([] @ lexs [Lx (TokenKind_String, tok_text y)]) Delimiter
        (pr_lit (fmt_escape_string (tok_text y)) (pr_lit [space] ?p))"
      by (rule wrote_trans [OF wrote_space wrote_weaken [OF wrote_lit [OF piece_string]]]) simp_all
    ultimately have w2: "wrote Delimiter ?p (tree_lexs t2) Delimiter (pr_lit [quote] (pr_str (tok_text y) (pr_lit [space, quote] ?p)))"
      using y(1) by simp
    have n2: "node_text (fe_ast env) (cs ! 2) = Some (tok_text y)" "length cs = 4"
      using kid_facts(2) [OF c2(2)] y(1) ts vs kids_length [OF k] by (simp_all add: c(1) c2(1))
    show ?thesis
      using wrote_trans [OF w w2] unfolding decl_head_def n n2(2) Option.bind.simps Let_def
      by (simp add: n2(1) does_def ts(1) vs del: tree_token.simps)
  qed
qed

lemma all_lexs_butlast: "ts \<noteq> [] \<Longrightarrow> all_lexs ts = all_lexs (butlast ts) @ tree_lexs (last ts)"
  by (cases ts rule: rev_cases) simp_all

text \<open>The closers \<^verbatim>\<open>])\<close> of a declaration.\<close>

lemma decl_close_bind:
  assumes "does_trailing m pr l r" "good cl pr"
  shows "does m pr (l @ [(TokenKind_RBracket, '']''), (TokenKind_RParen, '')'')]) Delimiter
    (r \<bind> (\<lambda>(t, pr). Some (pr_lit ''])'' (break_line t indent pr))))"
proof (rule does_bind_trailing [OF assms])
  fix t pr1
  have "pr_lit ''])'' q = pr_lit '')'' (pr_lit '']'' q)" for q by (simp add: pr_lit_def)
  moreover have "wrote (after t) pr1 ([(TokenKind_RBracket, '']'')] @ [(TokenKind_RParen, '')'')]) Delimiter
      (pr_lit '')'' (pr_lit '']'' (break_line t indent pr1)))"
    by (rule wrote_weaken [OF wrote_trans [OF close_prints [OF bracket_kinds(4)] wrote_bracket [OF bracket_kinds(2)]]]) simp
  ultimately show "does (after t) pr1 [(TokenKind_RBracket, '']''), (TokenKind_RParen, '')'')] Delimiter
      (case (t, pr1) of (t, pr) \<Rightarrow> Some (pr_lit ''])'' (break_line t indent pr)))"
    by (simp add: does_def)
qed

lemma decl_body:
  assumes k: "kids env cl bound cs ts" and h: "head_op ts = Some op" and len: "length ts = 3 \<or> length ts = 4"
    and s: "decl_shape ts" and v: "is_vector (last ts)" and g: "good cl pr"
    and b: "\<And>pr. good cl pr \<Longrightarrow> does_trailing Anything pr ((TokenKind_LBracket, ''['') # all_lexs (items_of (last ts))) (body pr)"
  shows "does Anything pr (tree_lexs (TSeq AstNodeKind_List x ts)) Delimiter
    (decl_head env cs pr \<bind> (\<lambda>pr. body (fmt_write_indent col (pr_lit [newline] pr))
       \<bind> (\<lambda>(t, pr). Some (pr_lit ''])'' (break_line t col pr)))))"
proof -
  have ne: "ts \<noteq> []" using len by auto
  have "does Anything pr (((TokenKind_LParen, ''('') # all_lexs (butlast ts)) @
      (((TokenKind_LBracket, ''['') # all_lexs (items_of (last ts))) @ [(TokenKind_RBracket, '']''), (TokenKind_RParen, '')'')])) Delimiter
    (decl_head env cs pr \<bind> (\<lambda>pr. body (fmt_write_indent col (pr_lit [newline] pr))
       \<bind> (\<lambda>(t, pr). Some (pr_lit ''])'' (break_line t col pr)))))"
  proof (rule does_bind [OF decl_head_prints [OF k h len s] g])
    fix pr1 assume g1: "good cl pr1"
    note w = wrote_trans [OF wrote_newline wrote_indent, of Delimiter pr1 col]
    have "does_trailing Delimiter pr1 ((TokenKind_LBracket, ''['') # all_lexs (items_of (last ts)))
        (body (fmt_write_indent col (pr_lit [newline] pr1)))"
      using trailing_step [OF w b [OF wrote_good [OF w g1]]] by simp
    from decl_close_bind [OF this g1]
    show "does Delimiter pr1 (((TokenKind_LBracket, ''['') # all_lexs (items_of (last ts))) @ [(TokenKind_RBracket, '']''), (TokenKind_RParen, '')'')]) Delimiter
       (body (fmt_write_indent col (pr_lit [newline] pr1)) \<bind> (\<lambda>(t, pr). Some (pr_lit ''])'' (break_line t col pr))))" .
  qed
  then show ?thesis using all_lexs_butlast [OF ne] vector_lexs [OF v] by (simp add: list_lexs del: tree_lexs.simps)
qed

lemma struct_prints:
  assumes i: "kids env cl b [i] [TSeq AstNodeKind_List x ts]" and k: "kids env cl bound cs ts"
    and h: "head_op ts \<in> {Some ''struct'', Some ''union''}" and g: "good cl pr"
  shows "does Anything pr (tree_lexs (TSeq AstNodeKind_List x ts)) Delimiter (fmt_struct node env i cs indent pr)"
proof (cases "length ts = 3 \<or> length ts = 4")
  case False
  then show ?thesis using call_prints [OF i k g] kids_length [OF k] by (simp add: fmt_struct_def)
next
  case True
  then have ne: "ts \<noteq> []" and sh: "decl_shape ts" "pair_vector (last ts)" using list_shape [OF i] h by (auto simp: form_shape_def)
  obtain op where op: "head_op ts = Some op" using h by auto
  note last = kids_last [OF k ne]
  obtain y ps where l: "last ts = TSeq AstNodeKind_Vector y ps" using sh(2) by (cases "last ts" rule: is_vector.cases) (auto simp: pair_vector_def)
  obtain flat where flat: "ast_seq_children (fe_ast env) (last cs) = Some flat" using kid_children [OF last [unfolded l]] by blast
  have v: "is_vector (last ts)" using sh(2) by (simp add: pair_vector_def)
  let ?col = "indent + fe_hang env"
  have body: "does Anything pr (tree_lexs (TSeq AstNodeKind_List x ts)) Delimiter
    (decl_head env cs pr \<bind> (\<lambda>pr. fmt_pair_vector node env (last cs) ?col (fmt_write_indent ?col (pr_lit [newline] pr))
       \<bind> (\<lambda>(t, pr). Some (pr_lit ''])'' (break_line t ?col pr)))))"
    by (rule decl_body [OF k op True sh(1) v g]) (rule pair_vector_prints [OF last sh(2)])
  have n: "\<not> (length cs \<noteq> 3 \<and> length cs \<noteq> 4)" using True kids_length [OF k] by simp
  show ?thesis
  proof (cases "length flat div 2 \<le> 1")
    case few: True
    show ?thesis unfolding fmt_struct_def if_not_P [OF n] flat Option.bind.simps if_P [OF few] Let_def
      by (rule try_inline_bind [OF i], rule body)
  next
    case False
    show ?thesis unfolding fmt_struct_def if_not_P [OF n] flat Option.bind.simps if_not_P [OF False] Let_def prod.case if_False
      by (rule body)
  qed
qed

text \<open>The step to a variant: nothing for the first, else a line of its own.\<close>

lemma variant_start:
  assumes "kids env cl bound [c] [t]" "is_atom t" "good cl pr"
  shows "\<exists>q. (if first then Some pr else fresh_line env c col (pr_lit [newline] pr)) = Some q
    \<and> wrote (if first then Anything else after tr) pr (tree_lexs t) Delimiter (pr_str (tok_text (tree_token t)) q)"
proof -
  obtain q where q: "(if first then Some pr else fresh_line env c col (pr_lit [newline] pr)) = Some q"
    "wrote (if first then Anything else after tr) pr [] Anything q"
    using start_prints [OF assms(1,3), of first tr col] unfolding does_def by blast
  have "wrote Anything q (tree_lexs t) Delimiter (pr_str (tok_text (tree_token t)) q)"
    using wrote_atom atom_text_ok [OF assms(1,2)] by fastforce
  from wrote_trans [OF q(2) this] q(1) show ?thesis by auto
qed

lemma flush_step:
  assumes "wrote m pr l Delimiter p" "good cl pr" "fmt_flush_trailing line p = (t, q)"
  shows "wrote m pr l (after t) q"
  using wrote_trans [OF assms(1)] wrote_trailing [OF wrote_good [OF assms(1,2)] assms(3)] by fastforce

lemma atom_node:
  "kids env cl b [c] [t] \<Longrightarrow> is_atom t \<Longrightarrow> \<exists>nd. ast_get (fe_ast env) c = Some nd \<and> an_kind nd = AstNodeKind_Atom \<and> an_token nd = tree_token t"
  using represents_node [of "fe_ast env" c t] by (cases t) (auto simp: kids_def)

lemma variants_prints:
  "kids env cl bound cs ts \<Longrightarrow> list_all is_atom ts \<Longrightarrow> good cl pr
     \<Longrightarrow> does_trailing (if first then Anything else after tr) pr (all_lexs ts) (enum_variants env col cs first tr pr)"
proof (induction "length cs" arbitrary: cs ts first tr pr rule: less_induct)
  case less
  note k = less.prems(1)
  show ?case
  proof (cases cs)
    case Nil
    then show ?thesis using k wrote_weaken [OF wrote_same] by (auto simp: does_trailing_def)
  next
    case (Cons v rest)
    obtain t us where ts: "ts = t # us" and kv: "kids env cl bound [v] [t]" and kr: "kids env cl bound rest us"
      using k kids_Cons unfolding Cons by blast
    have at: "is_atom t" "list_all is_atom us" using less.prems(2) ts by auto
    obtain q where q: "(if first then Some pr else fresh_line env v (col + 1) (pr_lit [newline] pr)) = Some q"
      and w: "wrote (if first then Anything else after tr) pr (tree_lexs t) Delimiter (pr_str (tok_text (tree_token t)) q)"
      using variant_start [OF kv at(1) less.prems(3)] by blast
    note f = kid_facts(1,2) [OF kv]
    show ?thesis
    proof (cases rest)
      case Nil
      obtain tr' q' where fl: "fmt_flush_trailing (tok_line (tree_token t)) (pr_str (tok_text (tree_token t)) q) = (tr', q')" by fastforce
      have "us = []" using kr Nil by simp
      then show ?thesis
        using flush_step [OF w less.prems(3) fl] Cons Nil ts by (simp add: f q fl trailing_Some)
    next
      case (Cons w' vs)
      obtain u ws where us: "us = u # ws" and kw: "kids env cl bound [w'] [u]" and kvs: "kids env cl bound vs ws"
        using kr kids_Cons unfolding Cons by blast
      have au: "is_atom u" "list_all is_atom ws" using at us by auto
      obtain nd where nd: "ast_get (fe_ast env) w' = Some nd" "an_kind nd = AstNodeKind_Atom" "an_token nd = tree_token u"
        using atom_node [OF kw au(1)] by blast
      let ?p = "pr_str (tok_text (tree_token t)) q" and ?val = "tok_text (tree_token u)"
      have cs: "cs = v # w' # vs" using \<open>cs = v # rest\<close> Cons by simp
      show ?thesis
      proof (cases "atom_looks_numeric ?val")
        case True
        obtain tr' q' where fl: "fmt_flush_trailing (tok_line (tree_token u)) (pr_str ?val (pr_lit '' '' ?p)) = (tr', q')" by fastforce
        note w2 = wrote_trans [OF w atom_prints [OF kw au(1)]]
        note w3 = flush_step [OF w2 less.prems(3) fl]
        from trailing_step [OF w3 less.hyps [OF _ kvs au(2) wrote_good [OF w3 less.prems(3)], where first = False, unfolded if_False]]
        show ?thesis using cs ts us by (simp add: f q nd True fl)
      next
        case False
        obtain tr' q' where fl: "fmt_flush_trailing (tok_line (tree_token t)) ?p = (tr', q')" by fastforce
        note w3 = flush_step [OF w less.prems(3) fl]
        from trailing_step [OF w3 less.hyps [OF _ kr at(2) wrote_good [OF w3 less.prems(3)], where first = False, unfolded if_False]]
        show ?thesis using cs ts Cons by (simp add: f q nd False fl)
      qed
    qed
  qed
qed

lemma enum_prints:
  assumes i: "kids env cl b [i] [TSeq AstNodeKind_List x ts]" and k: "kids env cl bound cs ts"
    and h: "head_op ts \<in> {Some ''enum'', Some ''flags''}" and g: "good cl pr"
  shows "does Anything pr (tree_lexs (TSeq AstNodeKind_List x ts)) Delimiter (fmt_enum node env i cs indent pr)"
proof (cases "length ts = 3 \<or> length ts = 4")
  case False
  then show ?thesis using call_prints [OF i k g] kids_length [OF k] by (simp add: fmt_enum_def)
next
  case True
  then have ne: "ts \<noteq> []" and sh: "decl_shape ts" "is_vector (last ts)" "list_all is_atom (items_of (last ts))"
    using list_shape [OF i] h by (auto simp: form_shape_def)
  obtain op where op: "head_op ts = Some op" using h by auto
  obtain y ps where l: "last ts = TSeq AstNodeKind_Vector y ps" using sh(2) by (cases "last ts" rule: is_vector.cases) auto
  obtain vs where vs: "ast_seq_children (fe_ast env) (last cs) = Some vs" "kids env cl bound vs ps"
    using kid_children [OF kids_last [OF k ne, unfolded l]] by blast
  let ?col = "indent + fe_hang env"
  have b: "does_trailing Anything pr ((TokenKind_LBracket, ''['') # all_lexs (items_of (last ts))) (enum_variants env ?col vs True False (pr_lit ''['' pr))"
    if "good cl pr" for pr
  proof -
    note w = open_prints [OF bracket_kinds(3), of pr]
    have "list_all is_atom ps" using sh(3) l by simp
    from trailing_step [OF w variants_prints [OF vs(2) this wrote_good [OF w that], where first = True, unfolded if_True]]
    show ?thesis by (simp add: l)
  qed
  have body: "does Anything pr (tree_lexs (TSeq AstNodeKind_List x ts)) Delimiter
    (decl_head env cs pr \<bind> (\<lambda>pr. enum_variants env ?col vs True False (pr_lit ''['' (fmt_write_indent ?col (pr_lit [newline] pr)))
       \<bind> (\<lambda>(t, pr). Some (pr_lit ''])'' (break_line t ?col pr)))))"
    by (rule decl_body [OF k op True sh(1,2) g, where body = "\<lambda>pr. enum_variants env ?col vs True False (pr_lit ''['' pr)"]) (rule b)
  have n: "\<not> (length cs \<noteq> 3 \<and> length cs \<noteq> 4)" using True kids_length [OF k] by simp
  show ?thesis unfolding fmt_enum_def if_not_P [OF n] vs(1) Option.bind.simps Let_def
    by (rule try_inline_bind [OF i], rule body)
qed

section \<open>Blocks\<close>

lemma list_of_head:
  assumes k: "kids env cl bound cs ts" and h: "head_op ts = Some op"
  obtains x0 us c0 ds where "ts = TAtom x0 # us" "tok_text x0 = op" "cs = c0 # ds" "kids env cl bound [c0] [TAtom x0]"
    "kids env cl bound ds us"
proof -
  obtain x0 us where t: "ts = TAtom x0 # us" "tok_text x0 = op" using atom_head [OF h] .
  obtain c0 ds where "cs = c0 # ds" "kids env cl bound [c0] [TAtom x0]" "kids env cl bound ds us"
    using kids_Cons2E k unfolding t(1) by metis
  then show thesis using that t by blast
qed

lemma private_extern_prints:
  assumes i: "kids env cl b [i] [TSeq AstNodeKind_List x ts]" and k: "kids env cl bound cs ts"
    and h: "head_op ts = Some op" and g: "good cl pr"
  shows "does Anything pr (tree_lexs (TSeq AstNodeKind_List x ts)) Delimiter (fmt_private_extern node env i cs indent pr)"
proof (cases "length ts < 2")
  case True
  then show ?thesis using call_prints [OF i k g] kids_length [OF k] by (simp add: fmt_private_extern_def)
next
  case False
  obtain x0 us c0 ds where t: "ts = TAtom x0 # us" "tok_text x0 = op" and c: "cs = c0 # ds" "kids env cl bound [c0] [TAtom x0]"
    "kids env cl bound ds us" using list_of_head [OF k h] .
  have n: "node_text (fe_ast env) (cs ! 0) = Some (tok_text (tree_token (TAtom x0)))" using kid_facts(2) [OF c(2)] c(1) by simp
  let ?p = "pr_str (tok_text (tree_token (TAtom x0))) (pr_lit ''('' pr)"
  have w: "wrote Anything pr ((TokenKind_LParen, ''('') # tree_lexs (TAtom x0)) Delimiter ?p" by (rule head_prints [OF c(2)]) simp
  have lex: "tree_lexs (TSeq AstNodeKind_List x ts) = ((TokenKind_LParen, ''('') # tree_lexs (TAtom x0)) @ (all_lexs us @ [(TokenKind_RParen, '')'')])"
    unfolding list_lexs t(1) by simp
  have tl: "tl cs = ds" using c(1) by simp
  have body: "does Anything pr (tree_lexs (TSeq AstNodeKind_List x ts)) Delimiter
     (lines_between node env (indent + FMT_INDENT) ds False (pr_lit [newline] ?p) \<bind> (\<lambda>(t, pr). Some (pr_lit '')'' (break_line t indent pr))))"
    unfolding lex by (rule does_step [OF w body_prints [OF c(3) wrote_good [OF w g]]])
  have n2: "\<not> length cs < 2" using False kids_length [OF k] by simp
  show ?thesis
  proof (cases "length cs = 2")
    case two: True
    show ?thesis unfolding fmt_private_extern_def if_not_P [OF n2] if_P [OF two] n Option.bind.simps Let_def tl
      by (rule try_inline_bind [OF i], rule body)
  next
    case False
    show ?thesis unfolding fmt_private_extern_def if_not_P [OF n2] if_not_P [OF False] n Option.bind.simps Let_def tl prod.case if_False
      by (rule body)
  qed
qed

lemma header_prints:
  "kids env cl bound cs ts \<Longrightarrow> does Delimiter pr (all_lexs ts) Delimiter (header_children env cs pr)"
proof (induction cs arbitrary: ts pr)
  case Nil
  then show ?case by (auto simp: does_def)
next
  case (Cons c cs)
  obtain t us where ts: "ts = t # us" "kids env cl bound [c] [t]" "kids env cl bound cs us"
    using Cons.prems kids_Cons by blast
  from does_step [OF render_prints [OF ts(2)] Cons.IH [OF ts(3)]] show ?case
    using ts(1) kid_facts(4) [OF ts(2)] by simp
qed

lemma block_prints:
  assumes i: "kids env cl b [i] [TSeq AstNodeKind_List x ts]" and k: "kids env cl bound cs ts"
    and h: "head_op ts = Some op" and g: "good cl pr"
  shows "does Anything pr (tree_lexs (TSeq AstNodeKind_List x ts)) Delimiter (fmt_block_form node env i cs indent n pr)"
proof -
  obtain x0 us c0 ds where t: "ts = TAtom x0 # us" "tok_text x0 = op" and c: "cs = c0 # ds" "kids env cl bound [c0] [TAtom x0]"
    "kids env cl bound ds us" using list_of_head [OF k h] .
  have head_text: "node_text (fe_ast env) (cs ! 0) = Some (tok_text (tree_token (TAtom x0)))" using kid_facts(2) [OF c(2)] c(1) by simp
  let ?p = "pr_str (tok_text (tree_token (TAtom x0))) (pr_lit ''('' pr)"
  have w: "wrote Anything pr ((TokenKind_LParen, ''('') # tree_lexs (TAtom x0)) Delimiter ?p" by (rule head_prints [OF c(2)]) simp
  have "all_lexs us = all_lexs (take n us) @ all_lexs (drop n us)"
    by (metis append_take_drop_id concat_append map_append)
  then have lex: "tree_lexs (TSeq AstNodeKind_List x ts) = ((TokenKind_LParen, ''('') # tree_lexs (TAtom x0))
      @ (all_lexs (take n us) @ (all_lexs (drop n us) @ [(TokenKind_RParen, '')'')]))"
    unfolding list_lexs t(1) by simp
  have tl: "tl cs = ds" "drop (1 + n) cs = drop n ds" using c(1) by simp_all
  have "does Delimiter ?p (all_lexs (take n us) @ (all_lexs (drop n us) @ [(TokenKind_RParen, '')'')])) Delimiter
     (header_children env (take n ds) ?p \<bind> (\<lambda>pr. lines_between node env (indent + FMT_INDENT) (drop n ds) False (pr_lit [newline] pr)
        \<bind> (\<lambda>(t, pr). Some (pr_lit '')'' (break_line t indent pr)))))"
    by (rule does_bind [OF header_prints [OF kids_take [OF c(3)]] wrote_good [OF w g]]) (rule body_prints [OF kids_drop [OF c(3)]])
  from does_step [OF w this] have body: "does Anything pr (tree_lexs (TSeq AstNodeKind_List x ts)) Delimiter
     (header_children env (take n ds) ?p \<bind> (\<lambda>pr. lines_between node env (indent + FMT_INDENT) (drop n ds) False (pr_lit [newline] pr)
        \<bind> (\<lambda>(t, pr). Some (pr_lit '')'' (break_line t indent pr)))))"
    unfolding lex .
  show ?thesis unfolding fmt_block_form_def head_text Option.bind.simps Let_def tl
    by (rule try_inline_bind [OF i], rule body)
qed

section \<open>Let\<close>

lemma slot_defined: "kids env cl b [c] [t] \<Longrightarrow> \<exists>ty. fmt_let_slot_looks_like_type env c = Some ty"
proof -
  assume k: "kids env cl b [c] [t]"
  then obtain nd where nd: "ast_get (fe_ast env) c = Some nd"
    "an_kind nd = (case t of TAtom x \<Rightarrow> AstNodeKind_Atom | TString x \<Rightarrow> AstNodeKind_String | TSeq k x ts \<Rightarrow> k)"
    using represents_node [of "fe_ast env" c t] by (auto simp: kids_def)
  show ?thesis
  proof (cases t)
    case (TSeq k' x ts)
    obtain cs where cs: "ast_seq_children (fe_ast env) c = Some cs" "kids env cl b cs ts"
      using kid_children k unfolding TSeq by blast
    have "\<exists>hd_nd. cs \<noteq> [] \<longrightarrow> ast_get (fe_ast env) (hd cs) = Some hd_nd"
      using cs(2) represents_node by (cases cs) (fastforce simp: kids_def list_all2_Cons1)+
    then show ?thesis using nd cs(1) TSeq by (auto simp: fmt_let_slot_looks_like_type_def)
  qed (use nd in \<open>auto simp: fmt_let_slot_looks_like_type_def\<close>)
qed

lemma group_len_defined:
  assumes "kids env cl b (c # cs) ts"
  shows "\<exists>n. group_len env (c # cs) = Some n \<and> 0 < n \<and> n \<le> length (c # cs)"
proof -
  obtain t us where k: "ts = t # us" "kids env cl b [c] [t]" "kids env cl b cs us"
    using assms kids_Cons by blast
  obtain nd where nd: "ast_get (fe_ast env) c = Some nd" using represents_node k(2) by (fastforce simp: kids_def)
  show ?thesis
  proof (cases cs)
    case Nil
    then show ?thesis by (simp add: group_len_def nd)
  next
    case (Cons d ds)
    obtain u where "kids env cl b [d] [u]" using k(3) kids_Cons unfolding Cons by blast
    then obtain ty where "fmt_let_slot_looks_like_type env d = Some ty" using slot_defined by blast
    then show ?thesis using Cons by (auto simp: group_len_def nd neq_Nil_conv)
  qed
qed

lemma let_groups_defined:
  "kids env cl b cs ts \<Longrightarrow> \<exists>gs. let_groups env cs = Some gs \<and> concat gs = cs \<and> [] \<notin> set gs"
proof (induction "length cs" arbitrary: cs ts rule: less_induct)
  case less
  show ?case
  proof (cases cs)
    case (Cons c ds)
    obtain n where n: "group_len env (c # ds) = Some n" "0 < n" "n \<le> length (c # ds)"
      using group_len_defined less.prems unfolding Cons by blast
    have d: "drop (n - 1) ds = drop n cs" using n(2) Cons by (cases n) simp_all
    obtain gs where gs: "let_groups env (drop n cs) = Some gs" "concat gs = drop n cs" "[] \<notin> set gs"
      using less.hyps [OF _ kids_drop [OF less.prems], of n] n(2) Cons by auto
    have "take n cs \<noteq> []" using n(2) Cons by simp
    then show ?thesis using n(1) gs d Cons append_take_drop_id [of n cs] by simp
  qed simp
qed

lemma group_slots_prints:
  "kids env cl bound g us \<Longrightarrow> g \<noteq> [] \<Longrightarrow> good cl pr \<Longrightarrow> does Anything pr (all_lexs us) Delimiter (group_slots node env col g pr)"
proof (induction g arbitrary: us pr)
  case (Cons c g)
  obtain t ts where us: "us = t # ts" "kids env cl bound [c] [t]" "kids env cl bound g ts"
    using Cons.prems(1) kids_Cons by blast
  show ?case
  proof (cases g)
    case Nil
    then show ?thesis using us node_prints [OF us(2) Cons.prems(3)] by simp
  next
    case (Cons d ds)
    have "does Anything pr (tree_lexs t @ all_lexs ts) Delimiter (node c col pr \<bind> (\<lambda>pr. group_slots node env col g (pr_lit '' '' pr)))"
    proof (rule does_bind [OF node_prints [OF us(2) Cons.prems(3)] Cons.prems(3)])
      fix pr1 assume g1: "good cl pr1"
      have "does Anything (pr_lit '' '' pr1) (all_lexs ts) Delimiter (group_slots node env col g (pr_lit '' '' pr1))"
        using Cons.IH [OF us(3) _ wrote_good [OF wrote_space g1]] Cons by simp
      from does_step [OF wrote_space this] show "does Delimiter pr1 (all_lexs ts) Delimiter (group_slots node env col g (pr_lit '' '' pr1))"
        by simp
    qed
    then show ?thesis using us(1) Cons by simp
  qed
qed simp

lemma print_groups_prints:
  "kids env cl bound (concat gs) ts \<Longrightarrow> [] \<notin> set gs \<Longrightarrow> good cl pr
     \<Longrightarrow> does_trailing (if first then Anything else after tr) pr (all_lexs ts) (print_groups node env col gs first tr pr)"
proof (induction gs arbitrary: ts first tr pr)
  case Nil
  then show ?case using wrote_weaken [OF wrote_same] by (auto simp: does_trailing_def)
next
  case (Cons g gs)
  let ?n = "length g"
  have ne: "g \<noteq> []" using Cons.prems(2) by auto
  have k: "kids env cl bound g (take ?n ts)" "kids env cl bound (concat gs) (drop ?n ts)"
    using kids_take [OF Cons.prems(1), of ?n] kids_drop [OF Cons.prems(1), of ?n] by simp_all
  have ne2: "take ?n ts \<noteq> []" using k(1) ne kids_length by fastforce
  have hd: "kids env cl bound [hd g] [hd (take ?n ts)]" using k(1) ne ne2 kids_nth [OF k(1), of 0] by (simp add: hd_conv_nth)
  obtain q where q: "(if first then Some pr else fresh_line env (hd g) col (pr_lit [newline] pr)) = Some q"
    "wrote (if first then Anything else after tr) pr [] Anything q"
    using start_prints [OF hd Cons.prems(3), of first tr col] unfolding does_def by blast
  obtain p where p: "group_slots node env col g q = Some p" "wrote Anything q (all_lexs (take ?n ts)) Delimiter p"
    using group_slots_prints [OF k(1) ne wrote_good [OF q(2) Cons.prems(3)]] unfolding does_def by blast
  note w = wrote_trans [OF q(2) p(2)]
  have e: "fmt_node_end_line (fe_ast env) (last g) = Some (tree_end (last (take ?n ts)))"
    by (rule kid_facts(3) [OF kids_last [OF k(1) ne2]])
  obtain t r where fl: "fmt_flush_trailing (tree_end (last (take ?n ts))) p = (t, r)" by fastforce
  note w3 = flush_step [OF w Cons.prems(3) fl]
  have "does_trailing (after t) r (all_lexs (drop ?n ts)) (print_groups node env col gs False t r)"
    using Cons.IH [OF k(2) _ wrote_good [OF w3 Cons.prems(3)], where first = False] Cons.prems(2) by simp
  from trailing_step [OF w3 this] have "does_trailing (if first then Anything else after tr) pr
      (all_lexs (take ?n ts) @ all_lexs (drop ?n ts)) (print_groups node env col (g # gs) first tr pr)"
    by (simp add: q(1) p(1) e fl)
  then show ?case by (metis append_take_drop_id concat_append map_append)
qed

lemma let_prints:
  assumes i: "kids env cl b [i] [TSeq AstNodeKind_List x ts]" and k: "kids env cl bound cs ts"
    and h: "head_op ts = Some ''let''" and g: "good cl pr"
  shows "does Anything pr (tree_lexs (TSeq AstNodeKind_List x ts)) Delimiter (fmt_let node env i cs indent pr)"
proof (cases "length ts < 3")
  case True
  then show ?thesis using call_prints [OF i k g] kids_length [OF k] by (simp add: fmt_let_def)
next
  case False
  obtain x0 us where t: "ts = TAtom x0 # us" "tok_text x0 = ''let''" using atom_head [OF h] .
  obtain v vs where us: "us = v # vs" using False t by (cases us) auto
  obtain c0 c1 ds where c: "cs = c0 # c1 # ds" "kids env cl bound [c0] [TAtom x0]" "kids env cl bound [c1] [v]" "kids env cl bound ds vs"
    using kids_two k unfolding t(1) us by metis
  have vec: "is_vector v" using list_shape [OF i] h False t us by (cases vs) (auto simp: form_shape_def)
  obtain y bs where v: "v = TSeq AstNodeKind_Vector y bs" using vec by (cases v rule: is_vector.cases) auto
  obtain flat where flat: "ast_seq_children (fe_ast env) c1 = Some flat" "kids env cl bound flat bs"
    using kid_children [OF c(3) [unfolded v]] by blast
  obtain gs where gs: "let_groups env flat = Some gs" "concat gs = flat" "[] \<notin> set gs"
    using let_groups_defined [OF flat(2)] by blast
  have sp: "piece Delimiter '' '' [] Anything" by (rule piece_space) (simp_all add: char_is_space_def)
  have "piece Anything ''let'' [Lx (TokenKind_Atom, ''let'')] Delimiter"
    by (rule piece_atom) (simp add: atom_ok_def char_is_delim_def char_is_space_def)
  moreover have "piece Anything ''('' [Lx (TokenKind_LParen, ''('')] Anything" "piece Anything ''['' [Lx (TokenKind_LBracket, ''['')] Anything"
    by (rule piece_bracket; simp add: bracket_kinds)+
  ultimately have pc: "piece Anything (''('' @ ''let'' @ '' '' @ ''['')
      ([Lx (TokenKind_LParen, ''('')] @ [Lx (TokenKind_Atom, ''let'')] @ [] @ [Lx (TokenKind_LBracket, ''['')]) Anything"
    by (intro piece_append [OF _ piece_append [OF _ piece_append [OF sp]]])
  have w: "wrote Anything pr [(TokenKind_LParen, ''(''), (TokenKind_Atom, ''let''), (TokenKind_LBracket, ''['')] Anything (pr_lit ''(let ['' pr)"
    using wrote_lit [OF pc, where pr = pr] by simp
  let ?p = "pr_lit ''(let ['' pr" and ?col = "indent + 6"
  note g1 = wrote_good [OF w g]
  have groups: "does_trailing Anything ?p (all_lexs bs) (print_groups node env ?col gs True False ?p)"
    using print_groups_prints [OF _ gs(3) g1, of bs True] flat(2) gs(2) by simp
  have close: "does (after t) pr1 ([(TokenKind_RBracket, '']'')] @ (all_lexs vs @ [(TokenKind_RParen, '')'')])) Delimiter
      (let pr = pr_lit '']'' (break_line t ?col pr1)
       in lines_before node env (indent + FMT_INDENT) ds False pr \<bind> (\<lambda>(t, pr). Some (pr_lit '')'' (break_line t indent pr))))"
    if "good cl pr1" for t pr1
  proof -
    note w1 = close_prints [OF bracket_kinds(4), of t pr1 ?col]
    note g2 = wrote_good [OF w1 that]
    have "does_trailing Delimiter (pr_lit '']'' (break_line t ?col pr1)) (all_lexs vs)
        (lines_before node env (indent + FMT_INDENT) ds False (pr_lit '']'' (break_line t ?col pr1)))"
      using lines_before_prints [OF c(4) g2, of False] by (simp add: after_def)
    from does_step [OF w1 close_bind [OF this g2 bracket_kinds(2)]] show ?thesis unfolding Let_def .
  qed
  have fin: "does Anything ?p (all_lexs bs @ ([(TokenKind_RBracket, '']'')] @ (all_lexs vs @ [(TokenKind_RParen, '')'')]))) Delimiter
      (print_groups node env ?col gs True False ?p \<bind> (\<lambda>(t, pr1). let pr = pr_lit '']'' (break_line t ?col pr1)
       in lines_before node env (indent + FMT_INDENT) ds False pr \<bind> (\<lambda>(t, pr). Some (pr_lit '')'' (break_line t indent pr)))))"
    by (rule does_bind_trailing [OF groups g1]) (simp only: prod.case close)
  have lex: "tree_lexs (TSeq AstNodeKind_List x ts) = [(TokenKind_LParen, ''(''), (TokenKind_Atom, ''let''), (TokenKind_LBracket, ''['')]
      @ (all_lexs bs @ ([(TokenKind_RBracket, '']'')] @ (all_lexs vs @ [(TokenKind_RParen, '')'')])))"
    by (simp add: t us v seq_open_def seq_close_def)
  have n: "\<not> length cs < 3" "cs ! 1 = c1" "drop 2 cs = ds" using False kids_length [OF k] c(1) by (simp_all add: numeral_eq_Suc)
  from does_step [OF w fin] show ?thesis
    unfolding fmt_let_def if_not_P [OF n(1)] n flat(1) gs(1) Option.bind.simps lex Let_def .
qed

end

end
