(* ===== verification/Reader_Results.thy ===== *)
theory Reader_Results
  imports Parser_Tree
begin

text \<open>
  The results on the reader: the lexer reaches the end of every text and says where each token is,
  and the parser accepts exactly the well-bracketed texts, with a well-formed tree for the others too.
\<close>

section \<open>Positions\<close>

definition line_after :: "string \<Rightarrow> u32" where
  "line_after s = of_nat (1 + count_list s newline)"

definition col_after :: "string \<Rightarrow> u32" where
  "col_after s = of_nat (1 + length (takeWhile (\<lambda>c. c \<noteq> newline) (rev s)))"

definition placed :: "lexer \<Rightarrow> bool" where
  "placed lx \<longleftrightarrow> lx_pos lx \<le> length (lx_src lx) \<and> lx_line lx = line_after (take (lx_pos lx) (lx_src lx))
     \<and> lx_col lx = col_after (take (lx_pos lx) (lx_src lx))"

lemma placed_init: "placed (lexer_init src fid)"
  by (simp add: placed_def lexer_init_def line_after_def col_after_def)

lemma placed_advance: "placed lx \<Longrightarrow> placed (lexer_advance lx)"
proof (cases "lexer_peek lx = NUL")
  case False
  assume a: "placed lx"
  have i: "lx_pos lx < length (lx_src lx)" "lexer_peek lx = lx_src lx ! lx_pos lx"
    using False by (auto simp: lexer_peek_def split: if_splits)
  then show ?thesis
    using a False
    by (simp add: placed_def lexer_advance_def Let_def line_after_def col_after_def take_Suc_conv_app_nth)
qed (simp add: lexer_advance_def)

lemma placed_skip_while: "placed lx \<Longrightarrow> placed (lexer_skip_while keep lx)"
proof (induction keep lx rule: lexer_skip_while.induct)
  case (1 keep lx)
  then show ?case using placed_advance [of lx] by (subst lexer_skip_while.simps) simp
qed

lemma placed_skip: "placed lx \<Longrightarrow> placed (lexer_skip_ignorable lx)"
proof (induction lx rule: lexer_skip_ignorable.induct)
  case (1 lx)
  then show ?case
    using placed_advance [of lx] placed_skip_while [of lx]
    by (subst lexer_skip_ignorable.simps) (simp add: Let_def lexer_skip_comment_def)
qed

lemma placed_string_loop: "placed lx \<Longrightarrow> placed (snd (lexer_string_loop lx buf))"
proof (induction lx buf rule: lexer_string_loop.induct)
  case (1 lx buf)
  then show ?case
    using placed_advance [of lx] placed_advance [of "lexer_advance lx"]
    by (subst lexer_string_loop.simps) (simp add: Let_def)
qed

lemma placed_next: "placed lx \<Longrightarrow> placed (snd (lexer_next lx))"
  using placed_skip [of lx] placed_advance [of "lexer_skip_ignorable lx"]
    placed_skip_while [of "lexer_skip_ignorable lx"] placed_string_loop [of "lexer_advance (lexer_skip_ignorable lx)" "[]"]
  by (auto simp: lexer_next_def Let_def lexer_read_string_def split: option.splits prod.splits)

lemma next_token_place:
  assumes "placed lx"
  shows "tok_line (fst (lexer_next lx)) = line_after (take (lx_pos (lexer_skip_ignorable lx)) (lx_src lx))
    \<and> tok_col (fst (lexer_next lx)) = col_after (take (lx_pos (lexer_skip_ignorable lx)) (lx_src lx))"
proof -
  let ?l = "lexer_skip_ignorable lx"
  have "tok_line (fst (lexer_next lx)) = lx_line ?l \<and> tok_col (fst (lexer_next lx)) = lx_col ?l"
    by (simp add: lexer_next_def Let_def lexer_read_string_def token_at_def split: option.split prod.split)
  moreover have "lx_src ?l = lx_src lx" using skip_ignorable_rest by blast
  ultimately show ?thesis using placed_skip [OF assms] by (simp add: placed_def)
qed

lemma spec_next_atom:
  assumes "fst (spec_next s) = (TokenKind_Atom, t)"
  shows "t = takeWhile (\<lambda>c. \<not> char_is_delim c) (spec_skip s)"
proof -
  let ?c = "first_char (spec_skip s)"
  consider "?c = NUL" | k where "?c \<noteq> NUL" "bracket_kind ?c = Some k"
    | "?c \<noteq> NUL" "bracket_kind ?c = None" "?c = quote" | "?c \<noteq> NUL" "bracket_kind ?c = None" "?c \<noteq> quote" by blast
  then show ?thesis
  proof cases
    case 2
    then show ?thesis using assms bracket_kind_range [of ?c] by (simp add: spec_next_def Let_def)
  next
    case 3
    then show ?thesis using assms
      by (cases "spec_string (tl (spec_skip s)) []") (simp add: spec_next_def Let_def split: option.splits)
  qed (use assms in \<open>simp_all add: spec_next_def Let_def\<close>)
qed

lemma next_atom_text:
  assumes "tok_kind (fst (lexer_next lx)) = TokenKind_Atom"
  shows "tok_text (fst (lexer_next lx))
    = takeWhile (\<lambda>c. \<not> char_is_delim c) (drop (lx_pos (lexer_skip_ignorable lx)) (lx_src lx))"
proof -
  have "fst (spec_next (rest_of lx)) = (TokenKind_Atom, tok_text (fst (lexer_next lx)))"
    using lexer_next_spec [of lx] assms by (metis fst_conv lexeme_of_def)
  moreover have "spec_skip (rest_of lx) = drop (lx_pos (lexer_skip_ignorable lx)) (lx_src lx)"
    using skip_ignorable_rest [of lx] unfolding rest_of_def by metis
  ultimately show ?thesis using spec_next_atom by metis
qed

definition lexers :: "nat \<Rightarrow> lexer \<Rightarrow> lexer" where
  "lexers k lx = ((\<lambda>l. snd (lexer_next l)) ^^ k) lx"

definition kth_token :: "string \<Rightarrow> u32 \<Rightarrow> nat \<Rightarrow> token" where
  "kth_token src fid k = fst (lexer_next (lexers k (lexer_init src fid)))"

lemma lexers_Suc: "lexers (Suc k) lx = snd (lexer_next (lexers k lx))" "lexers 0 lx = lx"
  by (simp_all add: lexers_def)

lemma lexers_placed: "placed (lexers k (lexer_init src fid)) \<and> lx_src (lexers k (lexer_init src fid)) = src"
proof (induction k)
  case 0
  then show ?case by (simp add: lexers_Suc placed_init) (simp add: lexer_init_def)
next
  case (Suc k)
  then show ?case using placed_next lexer_next_spec by (simp add: lexers_Suc)
qed

text \<open>Every token says where it starts: its line is one more than the line breaks before its
  first character, its column counts from the last of them, both at 32 bits, and an atom's text is
  the text from there to the next delimiter.\<close>

theorem token_position:
  "\<exists>i\<le>length src.
     tok_line (kth_token src fid k) = line_after (take i src)
     \<and> tok_col (kth_token src fid k) = col_after (take i src)
     \<and> (tok_kind (kth_token src fid k) = TokenKind_Atom \<longrightarrow>
          tok_text (kth_token src fid k) = takeWhile (\<lambda>c. \<not> char_is_delim c) (drop i src))"
proof -
  let ?lx = "lexers k (lexer_init src fid)"
  have p: "placed ?lx" "lx_src ?lx = src" using lexers_placed by blast+
  have "lx_pos (lexer_skip_ignorable ?lx) \<le> length src"
    using placed_skip [OF p(1)] skip_ignorable_rest [of ?lx] p(2) by (simp add: placed_def)
  then show ?thesis
    using next_token_place [OF p(1)] next_atom_text [of ?lx] unfolding kth_token_def p(2)
    by (intro exI [of _ "lx_pos (lexer_skip_ignorable ?lx)"]) auto
qed

lemma token_position_witness:
  "\<exists>i\<le>3. takeWhile (\<lambda>c. \<not> char_is_delim c) (drop i (newline # ''cd'')) = ''cd''
     \<and> line_after (take i (newline # ''cd'')) = 2"
proof -
  let ?src = "newline # ''cd''"
  have "kth_token ?src 1 0 = fst (lexer_next (lexer_init ?src 1))"
    by (simp add: kth_token_def lexers_Suc)
  moreover have "tok_kind (fst (lexer_next (lexer_init ?src 1))) = TokenKind_Atom
      \<and> tok_text (fst (lexer_next (lexer_init ?src 1))) = ''cd'' \<and> tok_line (fst (lexer_next (lexer_init ?src 1))) = 2"
    by code_simp
  ultimately have t: "tok_kind (kth_token ?src 1 0) = TokenKind_Atom" "tok_text (kth_token ?src 1 0) = ''cd''"
    "tok_line (kth_token ?src 1 0) = 2" by simp_all
  obtain i where i: "i \<le> length ?src" "tok_line (kth_token ?src 1 0) = line_after (take i ?src)"
    "tok_text (kth_token ?src 1 0) = takeWhile (\<lambda>c. \<not> char_is_delim c) (drop i ?src)"
    using token_position [of ?src 1 0] t(1) by blast
  have "length ?src = 3" by simp
  then show ?thesis using i unfolding t(2,3) by metis
qed

section \<open>The end of the text\<close>

lemma lexers_shift: "lexers (Suc k) lx = lexers k (snd (lexer_next lx))"
  by (induction k) (simp_all add: lexers_Suc)

lemma eof_within: "\<exists>k\<le>length (rest_of lx). tok_kind (fst (lexer_next (lexers k lx))) = TokenKind_EOF"
proof (induction "length (rest_of lx)" arbitrary: lx rule: less_induct)
  case less
  show ?case
  proof (cases "tok_kind (fst (lexer_next lx)) = TokenKind_EOF")
    case True
    then show ?thesis by (intro exI [of _ 0]) (simp add: lexers_Suc)
  next
    case False
    note lt = lexer_next_progress [OF False]
    obtain k where "k \<le> length (rest_of (snd (lexer_next lx)))"
      "tok_kind (fst (lexer_next (lexers k (snd (lexer_next lx))))) = TokenKind_EOF"
      using less [OF lt] by blast
    then show ?thesis using lt by (intro exI [of _ "Suc k"]) (simp add: lexers_shift)
  qed
qed

lemma eof_stays: "tok_kind (fst (lexer_next (lexers k lx))) = TokenKind_EOF
  \<Longrightarrow> tok_kind (fst (lexer_next (lexers (k + j) lx))) = TokenKind_EOF"
proof (induction j)
  case (Suc j)
  then show ?case using lexer_next_stays [of "lexers (k + j) lx"] by (simp add: lexers_Suc lexeme_of_def)
qed simp


section \<open>The parser\<close>

text \<open>C26: the parser returns on every text, and reports no error exactly when the tokens are the
  bracket notation of some trees whose sequences fit the child count; the tree it returns is then the
  list of those trees, cut after 65535 forms.\<close>

theorem parser_decides_bracketing:
  assumes "length src + 1 < 2 ^ 32" and "parse_fuel src \<le> n"
  shows "\<exists>root p. parse_program n (parser_init src ast_init fid) = Some (root, p)
    \<and> (ps_had_error p \<longleftrightarrow> (\<nexists>ts. spells_all (source_tokens src fid) ts \<and> list_all narrow ts))
    \<and> (\<forall>ts. spells_all (source_tokens src fid) ts \<longrightarrow> list_all narrow ts \<longrightarrow>
          represents (ps_ast p) root (TSeq AstNodeKind_List synth_open (take 65535 ts)))"
proof -
  obtain root p where p: "parse_program n (parser_init src ast_init fid) = Some (root, p)"
    using parse_program_defined [OF assms(2)] by blast
  note complete = parse_program_complete [OF _ _ assms p, unfolded MAX_U16_def]
  show ?thesis
    using p complete parse_program_sound [OF p] by blast
qed

definition sample_text :: string where
  "sample_text = ''(val x [1 {} ''@ [quote] @ ''a)'' @ [quote] @ '']) ; note''"

lemma parser_decides_bracketing_witness:
  "\<exists>root p. parse_program (parse_fuel sample_text) (parser_init sample_text ast_init 0) = Some (root, p)
    \<and> (ps_had_error p \<longleftrightarrow> (\<nexists>ts. spells_all (source_tokens sample_text 0) ts \<and> list_all narrow ts))"
  using parser_decides_bracketing [of sample_text "parse_fuel sample_text" 0] by (auto simp: sample_text_def)

lemma ast_print_defined:
  assumes "ast_wf a"
  shows "in_ast a i \<Longrightarrow> unat i < n \<Longrightarrow> \<exists>s. ast_print n a i depth = Some s"
proof (induction n arbitrary: i depth)
  case (Suc n)
  let ?nd = "ast_nodes a ! unat i"
  have g: "ast_get a i = Some ?nd" using Suc.prems by (simp add: ast_get_def in_ast_def)
  show ?case
  proof (cases "is_seq_kind (an_kind ?nd)")
    case True
    have wf: "node_wf a (unat i)" using assms Suc.prems by (auto simp: ast_wf_def list_all_iff in_ast_def)
    then obtain cs where cs: "ast_seq_children a i = Some cs" "list_all (\<lambda>k. unat k < unat i) cs"
      using True g by (auto simp: ast_seq_children_def node_wf_def Let_def)
    have "\<exists>s. ast_print n a c (depth + 1) = Some s" if "c \<in> set cs" for c
      using cs(2) that Suc.prems by (intro Suc.IH) (auto simp: list_all_iff in_ast_def)
    then have "None \<notin> set (map (\<lambda>c. ast_print n a c (depth + 1)) cs)" by force
    then show ?thesis using g cs(1) True by (auto simp: is_seq_kind_def Let_def)
  qed (auto simp: g Let_def)
qed simp

text \<open>C27: on every text, malformed ones included, the arrays the parser leaves are well formed: the
  children of a sequence are in range and come before it.  So the recursion of the printer over the
  result ends within the number of nodes.\<close>

theorem parser_tree_well_formed:
  assumes "length src + 1 < 2 ^ 32"
    and "parse_program n (parser_init src ast_init fid) = Some (root, p)"
  shows "ast_wf (ps_ast p) \<and> (\<exists>s. ast_print (length (ast_nodes (ps_ast p))) (ps_ast p) root depth = Some s)"
  using parse_program_wf [OF assms] ast_print_defined by (auto simp: in_ast_def)

lemma parser_tree_well_formed_witness:
  "\<exists>root p. parse_program 100 (parser_init '')(a'' ast_init 0) = Some (root, p) \<and> ast_wf (ps_ast p)"
proof -
  obtain root p where p: "parse_program 100 (parser_init '')(a'' ast_init 0) = Some (root, p)"
    using parse_program_defined [of "'')(a''" 100 ast_init 0] by (auto simp: parse_fuel_def)
  from parser_tree_well_formed [OF _ this] show ?thesis using p by auto
qed

end
