(* ===== verification/Format_Results.thy ===== *)
theory Format_Results
  imports Format_Decls Reader_Results
begin

text \<open>
  The dispatcher keeps its own contract, so a formatted program has the tokens and the comments of its
  source; and the forms where the formatter loses code.
\<close>

section \<open>The dispatcher\<close>

context node_contract
begin

lemma head_op_read:
  assumes "kids env cl b cs ts"
  shows "(if cs = [] then Some None
          else map_option (\<lambda>head. if an_kind head = AstNodeKind_Atom then Some (tok_text (an_token head)) else None)
                 (ast_get (fe_ast env) (hd cs))) = Some (head_op ts)"
proof (cases cs)
  case Nil
  then show ?thesis using assms by auto
next
  case (Cons c ds)
  obtain t us where t: "ts = t # us" "kids env cl b [c] [t]" using assms kids_Cons unfolding Cons by blast
  then obtain nd where nd: "ast_get (fe_ast env) c = Some nd" "an_token nd = tree_token t"
    "an_kind nd = (case t of TAtom x \<Rightarrow> AstNodeKind_Atom | TString x \<Rightarrow> AstNodeKind_String | TSeq k x ts \<Rightarrow> k)"
    using represents_node [of "fe_ast env" c t] by (auto simp: kids_def)
  have "\<And>k x vs. t = TSeq k x vs \<Longrightarrow> k \<noteq> AstNodeKind_Atom" using t(2) by (auto simp: kids_def is_seq_kind_def)
  then show ?thesis using nd t Cons by (cases t) auto
qed

lemma list_prints:
  assumes i: "kids env cl b [i] [TSeq AstNodeKind_List x ts]" and c: "ast_seq_children (fe_ast env) i = Some cs"
    and k: "kids env cl bound cs ts" and g: "good cl pr"
  shows "does Anything pr (tree_lexs (TSeq AstNodeKind_List x ts)) Delimiter (fmt_list node env i indent pr)"
proof -
  have eq: "fmt_list node env i indent pr =
     (if head_op ts = Some ''fn'' then fmt_fn node env i cs indent pr
      else if head_op ts \<in> {Some ''struct'', Some ''union''} then fmt_struct node env i cs indent pr
      else if head_op ts \<in> {Some ''enum'', Some ''flags''} then fmt_enum node env i cs indent pr
      else if head_op ts = Some ''let'' then fmt_let node env i cs indent pr
      else if head_op ts \<in> {Some ''private'', Some ''extern''} then fmt_private_extern node env i cs indent pr
      else if head_op ts \<in> {Some ''if'', Some ''when'', Some ''while'', Some ''for''}
      then fmt_block_form node env i cs indent 1 pr
      else if head_op ts = Some ''do'' then fmt_block_form node env i cs indent 0 pr
      else fmt_call node env i cs indent pr)"
    by (simp only: fmt_list_def c head_op_read [OF k] Option.bind.simps)
  note fn = fn_prints [OF i k _ g] and st = struct_prints [OF i k _ g] and en = enum_prints [OF i k _ g]
    and le = let_prints [OF i k _ g] and pe = private_extern_prints [OF i k _ g] and bl = block_prints [OF i k _ g]
  show ?thesis
    unfolding eq using fn st en le pe bl call_prints [OF i k g]
    by (cases "head_op ts") (simp_all del: tree_lexs.simps)
qed

end

text \<open>Children of a node keep the bound below their parent.\<close>

lemma kids_below:
  assumes "kids env cl (Suc n) [i] [TSeq k x ts]"
  shows "\<exists>cs. ast_seq_children (fe_ast env) i = Some cs \<and> kids env cl n cs ts"
proof -
  obtain cs where cs: "ast_seq_children (fe_ast env) i = Some cs" "kids env cl (Suc n) cs ts"
    using kid_children [OF assms] by blast
  have "\<forall>c\<in>set cs. unat c < n"
    using children_before [OF _ cs(1)] assms by (fastforce simp: kids_def)
  then show ?thesis using cs by (auto simp: kids_def list_all_iff)
qed

lemma fmt_node_contract: "node_contract (fmt_node n env) env cl n"
proof (induction n)
  case 0
  show ?case by unfold_locales (auto simp: kids_def)
next
  case (Suc n)
  note IH = Suc.IH
  show ?case
  proof
    fix i t pr col
    assume k: "kids env cl (Suc n) [i] [t]" and g: "good cl pr"
    then obtain nd where nd: "ast_get (fe_ast env) i = Some nd"
      "an_kind nd = (case t of TAtom x \<Rightarrow> AstNodeKind_Atom | TString x \<Rightarrow> AstNodeKind_String | TSeq k x ts \<Rightarrow> k)"
      using represents_node [of "fe_ast env" i t] by (auto simp: kids_def)
    note f = kid_facts [OF k]
    show "does Anything pr (tree_lexs t) Delimiter (fmt_node (Suc n) env i col pr)"
    proof (cases t)
      case (TSeq kd x ts)
      obtain cs where cs: "ast_seq_children (fe_ast env) i = Some cs" "kids env cl n cs ts"
        using kids_below k unfolding TSeq by blast
      have sk: "is_seq_kind kd" using f(5) TSeq by simp
      have eq: "fmt_node (Suc n) env i col pr = (if kd = AstNodeKind_List then fmt_list (fmt_node n env) env i col pr
          else fmt_seq_generic (fmt_node n env) env i col pr)"
        using nd TSeq is_seq_kind_not_leaf [OF sk] by simp
      show ?thesis
        using node_contract.list_prints [OF IH _ cs g] node_contract.seq_generic_prints [OF IH _ _ cs g] k sk TSeq
        unfolding eq by (auto simp: is_seq_kind_def simp del: tree_lexs.simps)
    qed (use wrote_render [OF f(5)] f(4) nd in \<open>simp_all add: does_def\<close>)
  qed
qed

interpretation formatter: node_contract "fmt_node n env" env cl n for n env cl
  by (rule fmt_node_contract)

section \<open>Whole programs\<close>

lemma top_op_defined: "kids env cl b [c] [t] \<Longrightarrow> \<exists>s. fmt_top_level_op (fe_ast env) c = Some s"
proof -
  assume k: "kids env cl b [c] [t]"
  then obtain nd where nd: "ast_get (fe_ast env) c = Some nd"
    "an_kind nd = (case t of TAtom x \<Rightarrow> AstNodeKind_Atom | TString x \<Rightarrow> AstNodeKind_String | TSeq k x ts \<Rightarrow> k)"
    using represents_node [of "fe_ast env" c t] by (auto simp: kids_def)
  show ?thesis
  proof (cases t)
    case (TSeq k' x ts)
    obtain cs where cs: "ast_seq_children (fe_ast env) c = Some cs" "kids env cl b cs ts"
      using kid_children k unfolding TSeq by blast
    have "\<exists>hd_nd. cs \<noteq> [] \<longrightarrow> ast_get (fe_ast env) (hd cs) = Some hd_nd"
      using cs(2) represents_node by (cases cs) (fastforce simp: kids_def list_all2_Cons1)+
    then show ?thesis using nd cs(1) by (auto simp: fmt_top_level_op_def)
  qed (use nd in \<open>auto simp: fmt_top_level_op_def\<close>)
qed

lemma top_forms_prints:
  "kids env cl n cs ts \<Longrightarrow> good cl pr \<Longrightarrow> does Anything pr (all_lexs ts) Anything (top_forms (fmt_node n env) env cs pr)"
proof (induction cs arbitrary: ts pr)
  case Nil
  then show ?case by (auto simp: does_def)
next
  case (Cons c cs)
  obtain t us where ts: "ts = t # us" "kids env cl n [c] [t]" "kids env cl n cs us"
    using Cons.prems(1) kids_Cons by blast
  note f = kid_facts [OF ts(2)]
  note w0 = wrote_flush [OF Cons.prems(2), of 0 "tok_line (tree_token t)"]
  obtain pr1 where p1: "fmt_node n env c 0 (fmt_flush_comments_before 0 (tok_line (tree_token t)) pr) = Some pr1"
    "wrote Anything (fmt_flush_comments_before 0 (tok_line (tree_token t)) pr) (tree_lexs t) Delimiter pr1"
    using formatter.node_prints [OF ts(2) wrote_good [OF w0 Cons.prems(2)]] unfolding does_def by blast
  note w1 = wrote_trans [OF w0 p1(2)]
  obtain tr pr2 where fl: "fmt_flush_trailing (tree_end t) pr1 = (tr, pr2)" by fastforce
  note w2 = formatter.flush_step [OF w1 Cons.prems(2) fl]
  have gap: "\<exists>gap. (case cs of [] \<Rightarrow> Some False
      | d # ds \<Rightarrow> do { a \<leftarrow> fmt_top_level_op (fe_ast env) c; b \<leftarrow> fmt_top_level_op (fe_ast env) d; Some (blank_between a b) }) = Some gap"
  proof (cases cs)
    case (Cons d ds)
    obtain u where u: "kids env cl n [d] [u]" using ts(3) kids_Cons unfolding Cons by blast
    obtain a b where "fmt_top_level_op (fe_ast env) c = Some a" "fmt_top_level_op (fe_ast env) d = Some b"
      using top_op_defined [OF ts(2)] top_op_defined [OF u] by blast
    then show ?thesis using Cons by simp
  qed auto
  then obtain gap where g: "(case cs of [] \<Rightarrow> Some False
      | d # ds \<Rightarrow> do { a \<leftarrow> fmt_top_level_op (fe_ast env) c; b \<leftarrow> fmt_top_level_op (fe_ast env) d; Some (blank_between a b) }) = Some gap"
    by blast
  let ?p = "if gap then pr_lit [newline] (pr_lit [newline] pr2) else pr_lit [newline] pr2"
  have "wrote (after tr) pr2 [] Anything ?p"
    using wrote_newline wrote_trans [OF wrote_newline wrote_newline] by (cases gap) fastforce+
  note w3 = wrote_trans [OF w2 this]
  from does_step [OF w3 Cons.IH [OF ts(3) wrote_good [OF w3 Cons.prems(2)]]]
  show ?case by (cases gap) (simp_all add: f(1,3) p1(1) fl g ts(1) Let_def)
qed

lemma those_defined: "\<forall>x\<in>set xs. \<exists>y. f x = Some y \<Longrightarrow> \<exists>ys. those (map f xs) = Some ys"
  by (induction xs) auto

lemma collect_form_defined: "kids env cl n [i] [t] \<Longrightarrow> \<exists>names. collect_form n (fe_ast env) i = Some names"
proof (induction n arbitrary: i t)
  case (Suc n)
  then obtain nd where nd: "ast_get (fe_ast env) i = Some nd"
    "an_kind nd = (case t of TAtom x \<Rightarrow> AstNodeKind_Atom | TString x \<Rightarrow> AstNodeKind_String | TSeq k x ts \<Rightarrow> k)"
    using represents_node [of "fe_ast env" i t] by (auto simp: kids_def)
  show ?case
  proof (cases t)
    case (TSeq k x ts)
    obtain cs where cs: "ast_seq_children (fe_ast env) i = Some cs" "kids env cl n cs ts"
      using kids_below Suc.prems unfolding TSeq by blast
    have node: "\<exists>nd. ast_get (fe_ast env) c = Some nd" and sub: "\<exists>names. collect_form n (fe_ast env) c = Some names" if "c \<in> set cs" for c
    proof -
      obtain j where j: "j < length cs" "c = cs ! j" using \<open>c \<in> set cs\<close> by (metis in_set_conv_nth)
      then have k: "kids env cl n [c] [ts ! j]" using kids_nth [OF cs(2)] kids_length [OF cs(2)] by simp
      then show "\<exists>nd. ast_get (fe_ast env) c = Some nd" using represents_node by (fastforce simp: kids_def)
      show "\<exists>names. collect_form n (fe_ast env) c = Some names" by (rule Suc.IH [OF k])
    qed
    show ?thesis
    proof (cases "cs = []")
      case False
      obtain h where h: "ast_get (fe_ast env) (hd cs) = Some h" using node [of "hd cs"] False by auto
      obtain all where all: "those (map (collect_form n (fe_ast env)) (tl cs)) = Some all"
        using those_defined [of "tl cs" "collect_form n (fe_ast env)"] sub False by (auto dest: list.set_sel(2))
      have "2 \<le> length cs \<Longrightarrow> \<exists>nm. ast_get (fe_ast env) (cs ! 1) = Some nm" using node by simp
      then show ?thesis using nd(1) cs(1) False h all by (auto simp: Let_def)
    qed (use nd cs in auto)
  qed (use nd in auto)
qed (simp add: kids_def)

section \<open>Sources\<close>

lemma dropWhile_snoc: "\<not> P c \<Longrightarrow> dropWhile P (xs @ [c]) = dropWhile P xs @ [c]"
  by (induction xs) auto

lemma skip_chop_head: "\<not> P c \<Longrightarrow> str8_skip_chop P (c # s) = c # rev (dropWhile P (rev s))"
  by (simp add: str8_skip_chop_def dropWhile_snoc)

lemma set_skip_chop: "set (str8_skip_chop P s) \<subseteq> set s"
  by (auto simp: str8_skip_chop_def dest!: set_dropWhileD)

lemma scanned_comment_ok:
  assumes "NUL \<notin> set s"
  shows "comment_ok (str8_skip_chop_whitespace (semicolon # takeWhile (\<lambda>d. d \<noteq> newline) s))"
proof -
  let ?t = "str8_skip_chop char_is_space (semicolon # takeWhile (\<lambda>d. d \<noteq> newline) s)"
  have "?t \<noteq> [] \<and> hd ?t = semicolon"
    by (simp add: skip_chop_head space_semicolon)
  moreover have "newline \<notin> set ?t" "NUL \<notin> set ?t"
    using set_skip_chop [of char_is_space "semicolon # takeWhile (\<lambda>d. d \<noteq> newline) s"] assms
    by (auto dest!: set_takeWhileD)
  moreover have "str8_skip_chop char_is_space ?t = ?t" by (simp add: skip_chop_head space_semicolon)
  ultimately show ?thesis by (simp add: comment_ok_def str8_skip_chop_whitespace_def)
qed

lemma scan_comments_ok: "NUL \<notin> set s \<Longrightarrow> list_all (\<lambda>c. comment_ok (cm_text c)) (fmt_scan_from s line in_str)"
proof (induction s line in_str rule: fmt_scan_from.induct)
  case (2 c s line)
  have "NUL \<notin> set (tl s)" using "2.prems" by (cases s) auto
  then show ?case using 2 by auto
next
  case (3 c s line)
  have "NUL \<notin> set (dropWhile P s)" for P using "3.prems" by (auto dest: set_dropWhileD)
  then show ?case using 3 scanned_comment_ok [of s] by auto
qed simp

lemma scan_lines: "unat line + length s < 2 ^ 32 - 1 \<Longrightarrow> list_all (\<lambda>c. unat (cm_line c) < 2 ^ 32 - 1) (fmt_scan_from s line in_str)"
proof (induction s line in_str rule: fmt_scan_from.induct)
  case (2 c s line)
  have inc: "unat line + Suc n < 2 ^ 32 - 1 \<Longrightarrow> unat (line + 1) = Suc (unat line)" for n
    by (simp add: unat_add_lem [THEN iffD1])
  show ?case
  proof (cases "c = backslash \<and> s \<noteq> []")
    case True
    then have "unat (if hd s = newline then line + 1 else line) + length (tl s) < 2 ^ 32 - 1"
      using "2.prems" inc [of "length s"] by (cases s) auto
    then show ?thesis using "2.IH"(1) True by simp
  next
    case False
    have "unat (if c = newline then line + 1 else line) + length s < 2 ^ 32 - 1" using "2.prems" inc [of "length s"] by auto
    then show ?thesis using "2.IH"(2) False by simp
  qed
next
  case (3 c s line)
  have inc: "unat (if c = newline then line + 1 else line) + length s < 2 ^ 32 - 1"
    using "3.prems" by (auto simp: unat_add_lem [THEN iffD1])
  have "unat line + length (dropWhile P s) < 2 ^ 32 - 1" for P
    using "3.prems" length_dropWhile_le [of P s] by simp
  then show ?case using "3.IH" "3.prems" inc by auto
qed simp

lemma flush_all:
  "list_all (\<lambda>c. cm_line c < line) cs \<Longrightarrow> pr_pending (flush_before indent line prev cs out) = []"
  by (induction indent line prev cs out rule: flush_before.induct) auto

section \<open>The trees of a source\<close>

text \<open>What the printers need of a tree beyond its being parsed from a source.\<close>

fun formattable :: "u32 set \<Rightarrow> tree \<Rightarrow> bool" where
  "formattable cl (TAtom x) \<longleftrightarrow> True"
| "formattable cl (TString x) \<longleftrightarrow> True"
| "formattable cl (TSeq k x ts) \<longleftrightarrow>
     list_all (formattable cl) ts \<and> (k = AstNodeKind_List \<longrightarrow> form_shape ts) \<and> (k = AstNodeKind_Map \<longrightarrow> map_shape cl ts)"

definition lexeme_ok :: "nat \<Rightarrow> lexeme \<Rightarrow> bool" where
  "lexeme_ok n l \<longleftrightarrow>
     (fst l = TokenKind_Atom \<longrightarrow> atom_ok (snd l) \<and> length (snd l) \<le> n)
     \<and> (fst l \<notin> {TokenKind_EOF, TokenKind_Atom, TokenKind_String, TokenKind_Error} \<longrightarrow>
          (\<exists>c. snd l = [c] \<and> bracket_kind c = Some (fst l)))"

lemma lexeme_ok_mono: "lexeme_ok m l \<Longrightarrow> m \<le> n \<Longrightarrow> lexeme_ok n l"
  by (auto simp: lexeme_ok_def)

lemma items_ok: "list_all (lexeme_ok (length s)) (lexs (items s))"
proof (induction s rule: length_induct)
  case (1 s)
  have ih: "list_all (lexeme_ok (length s)) (lexs (items t))" if "length t < length s" for t
    using 1 that lexeme_ok_mono by (fastforce simp: list_all_iff)
  show ?case
  proof (cases s)
    case (Cons c t)
    have dw: "length (dropWhile P t) < length s" for P using length_dropWhile_le [of P t] Cons by (simp add: le_imp_less_Suc)
    show ?thesis
    proof (cases c rule: char_cases)
      case nul
      then show ?thesis using Cons by (simp add: items.simps(2))
    next
      case space
      then show ?thesis using ih [of t] Cons by (simp add: items_space)
    next
      case comment
      then show ?thesis using ih [OF dw] Cons by (simp add: items_comment)
    next
      case (bracket k)
      have "lexeme_ok (length s) (k, [c])" using bracket_kind_range [OF bracket] bracket by (simp add: lexeme_ok_def)
      then show ?thesis using ih [of t] Cons bracket by (simp add: items_bracket)
    next
      case quote
      have "lexeme_ok (length s) (TokenKind_String, u)" "lexeme_ok (length s) (TokenKind_Error, u)" for u
        by (simp_all add: lexeme_ok_def)
      then show ?thesis using ih [of "snd (spec_string t [])"] spec_string_length [of t "[]"] Cons quote
        by (simp add: items_string le_imp_less_Suc split: option.split)
    next
      case atom
      have "list_all atom_char (takeWhile atom_char t)" "length (takeWhile atom_char t) \<le> length t"
        by (auto simp: list_all_iff length_takeWhile_le dest: set_takeWhileD)
      then have "lexeme_ok (length s) (TokenKind_Atom, c # takeWhile atom_char t)"
        using atom Cons by (simp add: lexeme_ok_def atom_ok_def)
      then show ?thesis using ih [OF dw] Cons atom by (simp add: items_atom)
    qed
  qed simp
qed

lemma bracket_char: "bracket_kind c = Some k \<Longrightarrow> brackets kd = Some (k, e) \<Longrightarrow> [c] = seq_open kd"
  "bracket_kind c = Some k \<Longrightarrow> brackets kd = Some (b, k) \<Longrightarrow> [c] = seq_close kd"
  by (cases kd; auto simp: bracket_kind_def seq_open_def seq_close_def split: if_splits)+

lemma bracket_kinds_range: "brackets k = Some (b, e) \<Longrightarrow> b \<notin> {TokenKind_EOF, TokenKind_Atom, TokenKind_String, TokenKind_Error}
    \<and> e \<notin> {TokenKind_EOF, TokenKind_Atom, TokenKind_String, TokenKind_Error}"
  by (cases k) auto

lemma spelled_tree:
  "spells xs t \<Longrightarrow> list_all (lexeme_ok n) (map lexeme_of xs) \<Longrightarrow> n < 2 ^ 32 - 1
     \<Longrightarrow> map lexeme_of xs = tree_lexs t \<and> (formattable cl t \<longrightarrow> tidy cl t)"
  "spells_all xs ts \<Longrightarrow> list_all (lexeme_ok n) (map lexeme_of xs) \<Longrightarrow> n < 2 ^ 32 - 1
     \<Longrightarrow> map lexeme_of xs = concat (map tree_lexs ts) \<and> (list_all (formattable cl) ts \<longrightarrow> list_all (tidy cl) ts)"
proof (induction xs t and xs ts rule: spells_spells_all.inducts)
  case (spells_atom x)
  then show ?case by (auto simp: lexeme_ok_def lexeme_of_def text_small_def)
next
  case (spells_string x)
  then show ?case by (auto simp: lexeme_of_def)
next
  case (spells_seq k x y xs ts)
  note r = bracket_kinds_range [OF spells_seq.hyps(1)]
  obtain c d where "tok_text x = [c]" "bracket_kind c = Some (tok_kind x)" "tok_text y = [d]" "bracket_kind d = Some (tok_kind y)"
    using spells_seq.prems(1) r by (auto simp: lexeme_ok_def lexeme_of_def)
  then have b: "tok_text x = seq_open k" "tok_text y = seq_close k"
    using bracket_char spells_seq.hyps(1) by metis+
  have ih: "map lexeme_of xs = concat (map tree_lexs ts)" "list_all (formattable cl) ts \<longrightarrow> list_all (tidy cl) ts"
    using spells_seq.IH spells_seq.prems by auto
  have "lexeme_of x = (tok_kind x, seq_open k)" "lexeme_of y = (tok_kind y, seq_close k)"
    using b by (simp_all add: lexeme_of_def)
  then show ?case using ih spells_seq.hyps(1) brackets_kinds [OF spells_seq.hyps(1)] by simp
qed auto

lemma no_error_lexs: "\<not> (TokenKind_Error \<in> fst ` set (tree_lexs t))"
proof (induction t)
  case (TSeq k x ts)
  then show ?case by (cases k) auto
qed auto

section \<open>Formatting a program\<close>

lemma unat_minus_one_u32: "unat (- 1 :: u32) = 2 ^ 32 - 1"
  by (simp add: unsigned_minus_1_eq_mask mask_eq_exp_minus_1)

lemma no_error_all: "TokenKind_Error \<notin> fst ` set (all_lexs ts)"
proof -
  have "\<forall>l\<in>set (all_lexs ts). fst l \<noteq> TokenKind_Error" using no_error_lexs by force
  then show ?thesis by (metis imageE)
qed

text \<open>The output, given the arrays of a tree and the comments of its source.\<close>

lemma fmt_program_prints:
  assumes k: "kids \<lparr>fe_ast = a, fe_types = [], fe_hang = 0\<rparr> cl (tree_fuel a) cs ts" and c: "ast_seq_children a root = Some cs"
    and g: "good cl \<lparr>pr_out = [], pr_pending = fmt_scan_comments src\<rparr>"
    and l: "list_all (\<lambda>c. cm_line c < - 1) (fmt_scan_comments src)"
  shows "\<exists>out is. fmt_program a root src hang = Some out \<and> NUL \<notin> set out \<and> items out = is \<and> lexs is = all_lexs ts
    \<and> rems is = map cm_text (fmt_scan_comments src)"
proof -
  have k': "kids \<lparr>fe_ast = a, fe_types = tys, fe_hang = h\<rparr> cl (tree_fuel a) cs ts" for tys h
    using k by (simp add: kids_def)
  have "\<forall>c\<in>set cs. \<exists>names. collect_form (tree_fuel a) a c = Some names"
  proof
    fix c assume "c \<in> set cs"
    then obtain j where j: "j < length cs" "c = cs ! j" by (metis in_set_conv_nth)
    have "kids \<lparr>fe_ast = a, fe_types = [], fe_hang = 0\<rparr> cl (tree_fuel a) [c] [ts ! j]"
      using kids_nth [OF k] kids_length [OF k] j by simp
    from collect_form_defined [OF this] show "\<exists>names. collect_form (tree_fuel a) a c = Some names" by simp
  qed
  from those_defined [OF this] obtain tys where tys: "fmt_collect_type_names a root = Some tys"
    by (auto simp: fmt_collect_type_names_def c)
  let ?env = "\<lparr>fe_ast = a, fe_types = tys, fe_hang = (if 0 < hang then hang else FMT_HANG_DEFAULT)\<rparr>"
    and ?pr = "\<lparr>pr_out = [], pr_pending = fmt_scan_comments src\<rparr>"
  obtain pr1 where p1: "top_forms (fmt_node (tree_fuel a) ?env) ?env cs ?pr = Some pr1" "wrote Anything ?pr (all_lexs ts) Anything pr1"
    using top_forms_prints [OF k' g, of tys "if 0 < hang then hang else FMT_HANG_DEFAULT"] unfolding does_def by blast
  let ?pr2 = "fmt_flush_comments_before 0 (- 1) pr1"
  have w: "wrote Anything ?pr (all_lexs ts) Anything ?pr2"
    using wrote_trans [OF p1(2) wrote_flush [OF wrote_good [OF p1(2) g]]] by simp
  have "list_all (\<lambda>c. cm_line c < - 1) (pr_pending pr1)" using p1(2) l by (auto simp: wrote_def)
  then have "pr_pending ?pr2 = []" unfolding fmt_flush_comments_before_def by (rule flush_all)
  then obtain d "is" where d: "pr_out ?pr2 = d" "piece Anything d is Anything" "lexs is = all_lexs ts"
    "rems is = map cm_text (fmt_scan_comments src)"
    using w by (auto simp: wrote_def)
  have "fmt_program a root src hang = Some d"
    using p1(1) d(1) by (simp add: fmt_program_def tys c Let_def)
  moreover have "NUL \<notin> set d" "items d = is" using d(2) by (auto simp: piece_def dest: spec [of _ "[]"])
  ultimately show ?thesis using d(3,4) by blast
qed

lemma format_keeps:
  assumes nul: "NUL \<notin> set src" and len: "length src + 2 < 2 ^ 32"
    and sp: "spells_all (source_tokens src fid) ts" "list_all narrow ts" "length ts \<le> 65535"
    and fm: "list_all (formattable (cm_line ` set (fmt_scan_comments src))) ts"
    and n: "parse_fuel src \<le> n" and p: "parse_program n (parser_init src ast_init fid) = Some (root, p)"
  shows "\<exists>out. fmt_program (ps_ast p) root src hang = Some out \<and> NUL \<notin> set out \<and> \<not> ps_had_error p
    \<and> map lexeme_of (source_tokens out fid) = map lexeme_of (source_tokens src fid)
    \<and> map cm_text (fmt_scan_comments out) = map cm_text (fmt_scan_comments src)"
proof -
  let ?a = "ps_ast p" and ?cl = "cm_line ` set (fmt_scan_comments src)"
  have len1: "length src + 1 < 2 ^ 32" using len by simp
  have "represents ?a root (TSeq AstNodeKind_List synth_open ts)"
    using parse_program_complete [OF sp(1,2) len1 n p] sp(3) by (simp add: MAX_U16_def)
  moreover have ok: "\<not> ps_had_error p" using parse_program_complete [OF sp(1,2) len1 n p] by blast
  ultimately obtain cs where cs: "ast_seq_children ?a root = Some cs" "list_all2 (represents ?a) cs ts"
    using represents_children by blast
  have wf: "ast_wf ?a" using parse_program_wf [OF len1 p] by blast
  have "list_all (lexeme_ok (length src)) (map lexeme_of (source_tokens src fid))"
    using source_lexemes [OF nul] items_ok by simp
  from spelled_tree(2) [OF sp(1) this] len
  have lex: "map lexeme_of (source_tokens src fid) = all_lexs ts" and tidy: "list_all (tidy ?cl) ts" using fm by auto
  have "list_all (\<lambda>c. unat c < tree_fuel ?a) cs"
    using cs(2) represents_in by (fastforce simp: list_all_iff list_all2_conv_all_nth in_set_conv_nth)
  then have k: "kids \<lparr>fe_ast = ?a, fe_types = [], fe_hang = 0\<rparr> ?cl (tree_fuel ?a) cs ts"
    using wf cs(2) tidy by (simp add: kids_def)
  have g: "good ?cl \<lparr>pr_out = [], pr_pending = fmt_scan_comments src\<rparr>"
    using scan_comments_ok [OF nul, of 1 False] by (auto simp: good_def list_all_iff fmt_scan_comments_def)
  have "list_all (\<lambda>c. unat (cm_line c) < 2 ^ 32 - 1) (fmt_scan_comments src)"
    unfolding fmt_scan_comments_def using scan_lines [of 1 src False] len by simp
  then have "list_all (\<lambda>c. cm_line c < - 1) (fmt_scan_comments src)"
    by (simp add: list_all_iff word_less_nat_alt unat_minus_one_u32)
  from fmt_program_prints [OF k cs(1) g this, of hang]
  obtain out where out: "fmt_program ?a root src hang = Some out" "NUL \<notin> set out" "lexs (items out) = all_lexs ts"
    "rems (items out) = map cm_text (fmt_scan_comments src)" by blast
  have "no_error (items out)" using out(3) no_error_all by (simp add: no_error_def)
  then show ?thesis
    using ok out source_lexemes [OF out(2)] rems_comments [OF out(2)] lex by (intro exI [of _ out]) simp
qed

text \<open>C29: formatting a program keeps it: when a source parses to trees of formattable shape, the
  formatter returns, its output has the same tokens in the same order, and the same comments in the
  same order, each exactly once.\<close>

theorem format_preserves_program:
  assumes nul: "NUL \<notin> set src" and len: "length src + 2 < 2 ^ 32"
    and sp: "spells_all (source_tokens src fid) ts" "list_all narrow ts" "length ts \<le> 65535"
    and fm: "list_all (formattable (cm_line ` set (fmt_scan_comments src))) ts"
    and n: "parse_fuel src \<le> n" and p: "parse_program n (parser_init src ast_init fid) = Some (root, p)"
  shows "\<exists>out. fmt_program (ps_ast p) root src hang = Some out
    \<and> map lexeme_of (source_tokens out fid) = map lexeme_of (source_tokens src fid)
    \<and> map cm_text (fmt_scan_comments out) = map cm_text (fmt_scan_comments src)"
  using format_keeps [OF assms] by blast

end
