(* ===== verification/Format_Examples.thy ===== *)
theory Format_Examples
  imports Format_Results
begin

text \<open>
  The \<^verbatim>\<open>3b format\<close> command on two sources: one it keeps, and one it destroys.
\<close>

section \<open>The command\<close>

text \<open>What \<^verbatim>\<open>format_file_cmd\<close> of \<^verbatim>\<open>main.c\<close> writes for a source registered under a file id, or nothing
  where the source does not parse.\<close>

definition format_file_cmd :: "string \<Rightarrow> u32 \<Rightarrow> u32 \<Rightarrow> string option" where
  "format_file_cmd src file_id hang =
     (case parse_program (parse_fuel src) (parser_init src ast_init file_id) of
        None \<Rightarrow> None
      | Some (root, p) \<Rightarrow> if ps_had_error p then None else fmt_program (ps_ast p) root src hang)"

definition tok_at :: "token_kind \<Rightarrow> string \<Rightarrow> u32 \<Rightarrow> u32 \<Rightarrow> token" where
  "tok_at k s l c = \<lparr>tok_kind = k, tok_text = s, tok_line = l, tok_col = c, tok_file_id = 1\<rparr>"

lemma tok_at_simps [simp]:
  "tok_kind (tok_at k s l c) = k" "tok_text (tok_at k s l c) = s" "tok_line (tok_at k s l c) = l"
  by (simp_all add: tok_at_def)

section \<open>A source that is kept\<close>

definition kept_source :: string where
  "kept_source = ''(f x) ; note''"

lemma kept_tokens:
  "source_tokens kept_source 1 = [tok_at TokenKind_LParen ''('' 1 1, tok_at TokenKind_Atom ''f'' 1 2,
     tok_at TokenKind_Atom ''x'' 1 4, tok_at TokenKind_RParen '')'' 1 5]"
  by code_simp

definition kept_tree :: tree where
  "kept_tree = TSeq AstNodeKind_List (tok_at TokenKind_LParen ''('' 1 1)
     [TAtom (tok_at TokenKind_Atom ''f'' 1 2), TAtom (tok_at TokenKind_Atom ''x'' 1 4)]"

lemma spells_two: "spells xs s \<Longrightarrow> spells ys t \<Longrightarrow> spells_all (xs @ ys) [s, t]"
  using spells_cons [OF _ spells_cons [OF _ spells_nil]] by fastforce

lemma spells_one: "spells xs s \<Longrightarrow> spells_all xs [s]"
  using spells_cons [OF _ spells_nil] by fastforce

lemma kept_spelled: "spells_all (source_tokens kept_source 1) [kept_tree]"
proof -
  have "spells (tok_at TokenKind_LParen ''('' 1 1 # ([tok_at TokenKind_Atom ''f'' 1 2] @ [tok_at TokenKind_Atom ''x'' 1 4])
      @ [tok_at TokenKind_RParen '')'' 1 5]) kept_tree"
    unfolding kept_tree_def by (intro spells_seq spells_two spells_atom) simp_all
  from spells_one [OF this] show ?thesis by (simp add: kept_tokens)
qed

lemma format_preserves_program_witness:
  "\<exists>out. format_file_cmd kept_source 1 0 = Some out
    \<and> map lexeme_of (source_tokens out 1) = map lexeme_of (source_tokens kept_source 1)
    \<and> map cm_text (fmt_scan_comments out) = [''; note'']"
proof -
  obtain root p where p: "parse_program (parse_fuel kept_source) (parser_init kept_source ast_init 1) = Some (root, p)"
    using parse_program_defined by blast
  have len: "length kept_source + 2 < 2 ^ 32" and nul: "NUL \<notin> set kept_source" by (simp_all add: kept_source_def)
  have narrow: "list_all narrow [kept_tree]" by (simp add: kept_tree_def MAX_U16_def)
  have fm: "list_all (formattable cl) [kept_tree]" for cl by (simp add: kept_tree_def form_shape_def)
  have err: "\<not> ps_had_error p"
    using parse_program_complete [OF kept_spelled narrow _ order_refl p] len by simp
  have c: "map cm_text (fmt_scan_comments kept_source) = [''; note'']" by code_simp
  show ?thesis
    using format_preserves_program [OF nul len kept_spelled narrow _ fm order_refl p, of 0] p err c
    by (simp add: format_file_cmd_def)
qed

section \<open>A source that is destroyed\<close>

text \<open>A map whose key is followed by a comment.\<close>

definition commented_key :: string where
  "commented_key = ''(f {a ; c'' @ [newline] @ ''b})''"

definition swallowed :: string where
  "swallowed = ''(f {a ; c b})'' @ [newline]"

definition key_tree :: tree where
  "key_tree = TSeq AstNodeKind_Map (tok_at TokenKind_LBrace ''{'' 1 4)
     [TAtom (tok_at TokenKind_Atom ''a'' 1 5), TAtom (tok_at TokenKind_Atom ''b'' 2 1)]"

definition commented_tree :: tree where
  "commented_tree = TSeq AstNodeKind_List (tok_at TokenKind_LParen ''('' 1 1) [TAtom (tok_at TokenKind_Atom ''f'' 1 2), key_tree]"

lemma commented_tokens:
  "source_tokens commented_key 1 = [tok_at TokenKind_LParen ''('' 1 1, tok_at TokenKind_Atom ''f'' 1 2,
     tok_at TokenKind_LBrace ''{'' 1 4, tok_at TokenKind_Atom ''a'' 1 5, tok_at TokenKind_Atom ''b'' 2 1,
     tok_at TokenKind_RBrace ''}'' 2 2, tok_at TokenKind_RParen '')'' 2 3]"
  by code_simp

lemma commented_comments: "fmt_scan_comments commented_key = [\<lparr>cm_text = ''; c'', cm_line = 1\<rparr>]"
  by code_simp

lemma commented_spelled: "spells_all (source_tokens commented_key 1) [commented_tree]"
proof -
  have "spells (tok_at TokenKind_LBrace ''{'' 1 4 # ([tok_at TokenKind_Atom ''a'' 1 5] @ [tok_at TokenKind_Atom ''b'' 2 1])
      @ [tok_at TokenKind_RBrace ''}'' 2 2]) key_tree"
    unfolding key_tree_def by (intro spells_seq spells_two spells_atom) simp_all
  from spells_two [OF spells_atom this, of "tok_at TokenKind_Atom ''f'' 1 2"]
  have "spells (tok_at TokenKind_LParen ''('' 1 1 # ([tok_at TokenKind_Atom ''f'' 1 2]
      @ tok_at TokenKind_LBrace ''{'' 1 4 # ([tok_at TokenKind_Atom ''a'' 1 5] @ [tok_at TokenKind_Atom ''b'' 2 1])
      @ [tok_at TokenKind_RBrace ''}'' 2 2]) @ [tok_at TokenKind_RParen '')'' 2 3]) commented_tree"
    unfolding commented_tree_def by (intro spells_seq) simp_all
  from spells_one [OF this] show ?thesis by (simp add: commented_tokens)
qed

lemma swallowed_tokens:
  "source_tokens swallowed 1 = [tok_at TokenKind_LParen ''('' 1 1, tok_at TokenKind_Atom ''f'' 1 2,
     tok_at TokenKind_LBrace ''{'' 1 4, tok_at TokenKind_Atom ''a'' 1 5]"
  by code_simp

lemma spells_balanced:
  "spells xs t \<Longrightarrow> length (filter (\<lambda>x. token_is_any_closer (tok_kind x)) xs)
     = length (filter (\<lambda>x. tok_kind x \<in> {TokenKind_LParen, TokenKind_LBracket, TokenKind_LBrace}) xs)"
  "spells_all xs ts \<Longrightarrow> length (filter (\<lambda>x. token_is_any_closer (tok_kind x)) xs)
     = length (filter (\<lambda>x. tok_kind x \<in> {TokenKind_LParen, TokenKind_LBracket, TokenKind_LBrace}) xs)"
proof (induction xs t and xs ts rule: spells_spells_all.inducts)
  case (spells_seq k x y xs ts)
  then show ?case by (cases k) (auto simp: token_is_any_closer_def)
qed (auto simp: token_is_any_closer_def)

lemma swallowed_refused: "format_file_cmd swallowed 1 hang = None"
proof -
  obtain root p where p: "parse_program (parse_fuel swallowed) (parser_init swallowed ast_init 1) = Some (root, p)"
    using parse_program_defined by blast
  have "ps_had_error p"
  proof (rule ccontr)
    assume "\<not> ps_had_error p"
    then obtain ts where "spells_all (source_tokens swallowed 1) ts" using parse_program_sound [OF p] by blast
    from spells_balanced(2) [OF this] show False by (simp add: swallowed_tokens token_is_any_closer_def)
  qed
  then show ?thesis using p by (simp add: format_file_cmd_def)
qed

lemma leaf_node: "represents a i (TAtom x) \<Longrightarrow> ast_get a i = Some nd \<Longrightarrow> an_kind nd = AstNodeKind_Atom \<and> an_token nd = x"
  using represents_node by fastforce

lemma two_children:
  assumes "represents a i (TSeq k x [s, t])"
  obtains c d where "ast_seq_children a i = Some [c, d]" "represents a c s" "represents a d t"
  using represents_children [OF assms] by (auto simp: list_all2_Cons2)

lemma one_child:
  assumes "represents a i (TSeq k x [s])"
  obtains c where "ast_seq_children a i = Some [c]" "represents a c s"
  using represents_children [OF assms] by (auto simp: list_all2_Cons2)

lemma commented_output:
  assumes wf: "ast_wf a" and r: "represents a root (TSeq AstNodeKind_List synth_open [commented_tree])"
  shows "fmt_program a root commented_key 0 = Some swallowed"
proof -
  obtain c1 where c1: "ast_seq_children a root = Some [c1]" "represents a c1 commented_tree" using one_child [OF r] .
  obtain c2 c3 where c2: "ast_seq_children a c1 = Some [c2, c3]" "represents a c2 (TAtom (tok_at TokenKind_Atom ''f'' 1 2))" "represents a c3 key_tree"
    using two_children c1(2) unfolding commented_tree_def by blast
  obtain c4 c5 where c4: "ast_seq_children a c3 = Some [c4, c5]" "represents a c4 (TAtom (tok_at TokenKind_Atom ''a'' 1 5))"
    "represents a c5 (TAtom (tok_at TokenKind_Atom ''b'' 2 1))"
    using two_children c2(3) unfolding key_tree_def by blast
  have lt: "unat c3 < unat c1" "unat c4 < unat c3" "unat c1 < tree_fuel a"
    using children_before [OF wf c2(1), of c3] children_before [OF wf c4(1), of c4] represents_in [OF c1(2)] by auto
  then obtain m where m: "tree_fuel a = Suc (Suc (Suc m))" by (cases "tree_fuel a"; cases "tree_fuel a - 1"; cases "tree_fuel a - 2") auto
  obtain n1 where n1: "ast_get a c1 = Some n1" "an_token n1 = tok_at TokenKind_LParen ''('' 1 1" "an_kind n1 = AstNodeKind_List"
    using represents_node [OF c1(2)] by (auto simp: commented_tree_def)
  obtain n2 where n2: "ast_get a c2 = Some n2" "an_token n2 = tok_at TokenKind_Atom ''f'' 1 2" "an_kind n2 = AstNodeKind_Atom"
    using represents_node [OF c2(2)] by auto
  obtain n3 where n3: "ast_get a c3 = Some n3" "an_token n3 = tok_at TokenKind_LBrace ''{'' 1 4" "an_kind n3 = AstNodeKind_Map"
    using represents_node [OF c2(3)] by (auto simp: key_tree_def)
  obtain n4 where n4: "ast_get a c4 = Some n4" "an_token n4 = tok_at TokenKind_Atom ''a'' 1 5" "an_kind n4 = AstNodeKind_Atom"
    using represents_node [OF c4(2)] by auto
  obtain n5 where n5: "ast_get a c5 = Some n5" "an_token n5 = tok_at TokenKind_Atom ''b'' 2 1" "an_kind n5 = AstNodeKind_Atom"
    using represents_node [OF c4(3)] by auto
  note nodes = n1 n2 n3 n4 n5 c1(1) c2(1) c4(1)
  note ends = fmt_node_end_line_tree [OF wf c1(2)] fmt_node_end_line_tree [OF wf c2(2)] fmt_node_end_line_tree [OF wf c2(3)]
    fmt_node_end_line_tree [OF wf c4(2)] fmt_node_end_line_tree [OF wf c4(3)]
  note rend = fmt_render_inline_tree [OF wf c2(2)] fmt_render_inline_tree [OF wf c4(2)] fmt_render_inline_tree [OF wf c4(3)]
  have types: "fmt_collect_type_names a root = Some []"
    by (simp add: fmt_collect_type_names_def nodes m is_type_decl_def)
  show ?thesis
    by (simp add: fmt_program_def types nodes m commented_comments fmt_flush_comments_before_def node_line_def
        fmt_list_def fmt_call_def fmt_try_inline_def fmt_measure_inline_def fmt_has_pending_comment_in_def
        ends commented_tree_def key_tree_def rend pr_str_def pr_lit_def printf_text_def node_trailing_def
        fmt_seq_generic_def fmt_flush_trailing_def break_line_def swallowed_def Let_def)
qed

text \<open>The formatter destroys a valid source whose map has a comment after a key: it writes the
  value behind the comment on the same line, and does not even parse its own output.\<close>

theorem format_swallows_map_value:
  "format_file_cmd commented_key 1 0 = Some swallowed \<and> format_file_cmd swallowed 1 0 = None"
proof -
  obtain root p where p: "parse_program (parse_fuel commented_key) (parser_init commented_key ast_init 1) = Some (root, p)"
    using parse_program_defined by blast
  have len: "length commented_key + 1 < 2 ^ 32" by (simp add: commented_key_def)
  have narrow: "list_all narrow [commented_tree]" by (simp add: commented_tree_def key_tree_def MAX_U16_def)
  have c: "\<not> ps_had_error p" "represents (ps_ast p) root (TSeq AstNodeKind_List synth_open [commented_tree])"
    using parse_program_complete [OF commented_spelled narrow len order_refl p] by (simp_all add: MAX_U16_def)
  have "ast_wf (ps_ast p)" using parse_program_wf [OF len p] by blast
  from commented_output [OF this c(2)] show ?thesis
    using p c(1) swallowed_refused by (simp add: format_file_cmd_def)
qed

end
