(* ===== verification/Struct_Table.thy ===== *)
theory Struct_Table
  imports Types Hash_Table_Props
begin

text \<open>
  The declaration tables of \<^verbatim>\<open>checker.c\<close>: how \<^verbatim>\<open>check_program\<close> indexes the structs and enums of a
  package by name, the checks it runs on them before any function body, and the two field walks
  other parts rely on.  \<open>None\<close> is a null box the code would dereference.
\<close>

section \<open>Declarations\<close>

record param =
  pa_name :: string
  pa_type :: type_ref
  pa_is_anon :: bool

record struct_decl =
  sd_name :: string
  sd_fields :: "param list"
  sd_is_packed :: bool
  sd_align_bytes :: u32
  sd_is_union :: bool

record enum_variant =
  ev_name :: string
  ev_has_explicit_value :: bool
  ev_value :: i64

record enum_decl =
  ed_name :: string
  ed_is_flags :: bool
  ed_variants :: "enum_variant list"

text \<open>An entry of a name table points into the array of declarations; here it is the index.\<close>

type_synonym name_table = "(string, nat) hash_table"

record checker =
  ck_structs :: "struct_decl list"
  ck_structs_by_name :: name_table
  ck_enums :: "enum_decl list"
  ck_enums_by_name :: name_table

definition struct_table_lookup :: "checker \<Rightarrow> string \<Rightarrow> struct_decl option" where
  "struct_table_lookup ck name =
     map_option (\<lambda>i. ck_structs ck ! i) (hashtable_lookup (ck_structs_by_name ck) name)"

definition enum_table_lookup :: "checker \<Rightarrow> string \<Rightarrow> enum_decl option" where
  "enum_table_lookup ck name =
     map_option (\<lambda>i. ck_enums ck ! i) (hashtable_lookup (ck_enums_by_name ck) name)"

section \<open>Indexing by name\<close>

text \<open>The loops that fill \<^verbatim>\<open>structs_by_name\<close> and \<^verbatim>\<open>enums_by_name\<close>: a name that is there already is
  reported and still inserted.  The first component lists the reported names.\<close>

fun index_names :: "string list \<Rightarrow> nat \<Rightarrow> name_table \<Rightarrow> (string list \<times> name_table) option" where
  "index_names [] i ht = Some ([], ht)"
| "index_names (name # names) i ht =
     do { (ok, ht') \<leftarrow> hashtable_insert ht name i True;
          (dups, ht'') \<leftarrow> index_names names (i + 1) ht';
          Some (if hashtable_lookup ht name \<noteq> None then name # dups else dups, ht'') }"

definition declare_types :: "struct_decl list \<Rightarrow> enum_decl list \<Rightarrow> (string list \<times> checker) option" where
  "declare_types structs enums =
     do { (dups, by_struct) \<leftarrow> index_names (map sd_name structs) 0 (hashtable_init 64);
          (dups', by_enum) \<leftarrow> index_names (map ed_name enums) 0 (hashtable_init 64);
          Some (dups @ dups', \<lparr>ck_structs = structs, ck_structs_by_name = by_struct,
                               ck_enums = enums, ck_enums_by_name = by_enum\<rparr>) }"

text \<open>The structs as \<^verbatim>\<open>3b.c\<close> sees them.\<close>

definition struct_entries :: "checker \<Rightarrow> struct_entry list" where
  "struct_entries ck =
     map (\<lambda>d. \<lparr>se_name = sd_name d, se_is_union = sd_is_union d,
               se_fields = map (\<lambda>f. \<lparr>sf_type = pa_type f, sf_is_anon = pa_is_anon f\<rparr>) (sd_fields d)\<rparr>)
       (ck_structs ck)"

section \<open>Names in annotations\<close>

text \<open>The first undeclared name in a type, if any.\<close>

fun type_ref_has_undeclared_name :: "checker \<Rightarrow> type_ref \<Rightarrow> string option"
and undeclared_box :: "checker \<Rightarrow> type_ref option \<Rightarrow> string option"
and undeclared_list :: "checker \<Rightarrow> type_ref list \<Rightarrow> string option" where
  "type_ref_has_undeclared_name ck (TypeRef k name pointee map_key count al cn params ret) =
     (if k = TypeKind_Named
      then (if struct_table_lookup ck name \<noteq> None \<or> enum_table_lookup ck name \<noteq> None then None else Some name)
      else if k = TypeKind_Pointer \<or> k = TypeKind_Array \<or> k = TypeKind_Vector \<or> k = TypeKind_Set
      then undeclared_box ck pointee
      else if k = TypeKind_Map
      then (case undeclared_box ck map_key of Some bad \<Rightarrow> Some bad | None \<Rightarrow> undeclared_box ck pointee)
      else if k = TypeKind_Fn
      then (case undeclared_list ck params of Some bad \<Rightarrow> Some bad | None \<Rightarrow> undeclared_box ck ret)
      else None)"
| "undeclared_box ck None = None"
| "undeclared_box ck (Some t) = type_ref_has_undeclared_name ck t"
| "undeclared_list ck [] = None"
| "undeclared_list ck (t # ts) =
     (case type_ref_has_undeclared_name ck t of Some bad \<Rightarrow> Some bad | None \<Rightarrow> undeclared_list ck ts)"

definition check_type_annotations :: "checker \<Rightarrow> type_ref list \<Rightarrow> string list" where
  "check_type_annotations ck anns = List.map_filter (type_ref_has_undeclared_name ck) anns"

section \<open>Fields\<close>

text \<open>\<open>n\<close> bounds the nesting of anonymous members.\<close>

fun find_field_recursive :: "nat \<Rightarrow> checker \<Rightarrow> struct_decl \<Rightarrow> string \<Rightarrow> param option"
and find_anon_field :: "nat \<Rightarrow> checker \<Rightarrow> param list \<Rightarrow> string \<Rightarrow> param option" where
  "find_field_recursive 0 ck decl field_name = None"
| "find_field_recursive (Suc n) ck decl field_name =
     (case find (\<lambda>f. \<not> pa_is_anon f \<and> str8_match (pa_name f) field_name 0) (sd_fields decl) of
        Some f \<Rightarrow> Some f
      | None \<Rightarrow> find_anon_field n ck (sd_fields decl) field_name)"
| "find_anon_field n ck [] field_name = None"
| "find_anon_field n ck (f # fs) field_name =
     (if \<not> pa_is_anon f \<or> tr_kind (pa_type f) \<noteq> TypeKind_Named then find_anon_field n ck fs field_name
      else case struct_table_lookup ck (tr_name (pa_type f)) of
             None \<Rightarrow> find_anon_field n ck fs field_name
           | Some nested \<Rightarrow>
               (case find_field_recursive n ck nested field_name of
                  Some found \<Rightarrow> Some found
                | None \<Rightarrow> find_anon_field n ck fs field_name))"

text \<open>The anonymous members that are no structs.\<close>

definition check_struct_decl :: "checker \<Rightarrow> struct_decl \<Rightarrow> param list" where
  "check_struct_decl ck decl =
     filter (\<lambda>f. pa_is_anon f
        \<and> (tr_kind (pa_type f) \<noteq> TypeKind_Named \<or> struct_table_lookup ck (tr_name (pa_type f)) = None))
       (sd_fields decl)"

text \<open>The variants an enum declares again, once per later copy.\<close>

fun check_enum_variants :: "enum_variant list \<Rightarrow> string list" where
  "check_enum_variants [] = []"
| "check_enum_variants (a # bs) =
     map (\<lambda>b. ev_name a) (filter (\<lambda>b. str8_match (ev_name a) (ev_name b) 0) bs) @ check_enum_variants bs"

definition check_enum_decl :: "enum_decl \<Rightarrow> string list" where
  "check_enum_decl ed = check_enum_variants (ed_variants ed)"

section \<open>Structs inside themselves\<close>

lemma size_pointee: "tr_pointee t = Some e \<Longrightarrow> size e < size t"
  by (cases t) auto

text \<open>The fields of a struct as their types; \<open>depth\<close> is that of the fields.\<close>

function struct_embeds_by_value :: "checker \<Rightarrow> string \<Rightarrow> type_ref \<Rightarrow> nat \<Rightarrow> bool option"
and fields_embed :: "checker \<Rightarrow> string \<Rightarrow> type_ref list \<Rightarrow> nat \<Rightarrow> bool option" where
  "struct_embeds_by_value ck target t depth =
     (if tr_kind t = TypeKind_Array
      then (case tr_pointee t of None \<Rightarrow> None | Some e \<Rightarrow> struct_embeds_by_value ck target e depth)
      else if tr_kind t \<noteq> TypeKind_Named then Some False
      else if str8_match (tr_name t) target 0 then Some True
      else if depth > length (ck_structs ck) then Some False
      else case struct_table_lookup ck (tr_name t) of
             None \<Rightarrow> Some False
           | Some decl \<Rightarrow> fields_embed ck target (map pa_type (sd_fields decl)) (depth + 1))"
| "fields_embed ck target [] depth = Some False"
| "fields_embed ck target (t # ts) depth =
     (case struct_embeds_by_value ck target t depth of
        None \<Rightarrow> None
      | Some True \<Rightarrow> Some True
      | Some False \<Rightarrow> fields_embed ck target ts depth)"
  by pat_completeness auto

termination
  by (relation "measures [\<lambda>x. case x of Inl (ck, a, t, d) \<Rightarrow> 2 * (length (ck_structs ck) + 1 - d)
        | Inr (ck, a, ts, d) \<Rightarrow> Suc (2 * (length (ck_structs ck) + 1 - d)),
      \<lambda>x. case x of Inl (ck, a, t, d) \<Rightarrow> size t | Inr (ck, a, ts, d) \<Rightarrow> size_list size ts]")
    (auto dest: size_pointee)

declare struct_embeds_by_value.simps [simp del]

text \<open>The first field of a struct that embeds it, for every struct that has one.\<close>

fun find_embedding :: "checker \<Rightarrow> string \<Rightarrow> param list \<Rightarrow> param option option" where
  "find_embedding ck name [] = Some None"
| "find_embedding ck name (f # fs) =
     (case struct_embeds_by_value ck name (pa_type f) 0 of
        None \<Rightarrow> None
      | Some True \<Rightarrow> Some (Some f)
      | Some False \<Rightarrow> find_embedding ck name fs)"

fun struct_cycles :: "checker \<Rightarrow> struct_decl list \<Rightarrow> (string \<times> string) list option" where
  "struct_cycles ck [] = Some []"
| "struct_cycles ck (decl # decls) =
     do { found \<leftarrow> find_embedding ck (sd_name decl) (sd_fields decl);
          rest \<leftarrow> struct_cycles ck decls;
          Some (case found of None \<Rightarrow> rest | Some f \<Rightarrow> (sd_name decl, pa_name f) # rest) }"

definition check_struct_cycles :: "checker \<Rightarrow> (string \<times> string) list option" where
  "check_struct_cycles ck = struct_cycles ck (ck_structs ck)"

end
