(* ===== verification/Layout.thy ===== *)
theory Layout
  imports Struct_Table Map_Memory
begin

text \<open>
  \<^verbatim>\<open>layout.c\<close>: sizes, alignments and field offsets of the types of a checked package, memoized per
  struct name, and the slot layout \<^verbatim>\<open>bcmap.c\<close> derives from it.  \<open>None\<close> is an abort (a failed
  assertion or a null box); \<open>n\<close> bounds the nesting of the calls.
\<close>

section \<open>Layouts\<close>

record layout =
  ly_size :: u64
  ly_align :: u64

definition layout_pair :: "u64 \<Rightarrow> u64 \<Rightarrow> layout" where
  "layout_pair s a = \<lparr>ly_size = s, ly_align = a\<rparr>"

definition round_up_to_multiple :: "u64 \<Rightarrow> u64 \<Rightarrow> u64" where
  "round_up_to_multiple v multiple =
     (if multiple \<le> 1 then v
      else let rem = v mod multiple in if rem = 0 then v else v + (multiple - rem))"

text \<open>The offset of a field and the running offset past it.\<close>

definition layout_next_field_offset :: "u64 \<Rightarrow> layout \<Rightarrow> bool \<Rightarrow> bool \<Rightarrow> u64 \<times> u64" where
  "layout_next_field_offset running fl is_union is_packed =
     (if is_union then (0, running)
      else let offset = round_up_to_multiple running (if is_packed then 1 else ly_align fl)
           in (offset, offset + ly_size fl))"

text \<open>The kinds \<^verbatim>\<open>layout_of\<close> answers without looking further.\<close>

definition scalar_layout :: "type_kind \<Rightarrow> layout option" where
  "scalar_layout k =
     (case k of
        TypeKind_I8 \<Rightarrow> Some (layout_pair 1 1) | TypeKind_U8 \<Rightarrow> Some (layout_pair 1 1)
      | TypeKind_Bool \<Rightarrow> Some (layout_pair 1 1) | TypeKind_Char \<Rightarrow> Some (layout_pair 1 1)
      | TypeKind_I16 \<Rightarrow> Some (layout_pair 2 2) | TypeKind_U16 \<Rightarrow> Some (layout_pair 2 2)
      | TypeKind_I32 \<Rightarrow> Some (layout_pair 4 4) | TypeKind_U32 \<Rightarrow> Some (layout_pair 4 4)
      | TypeKind_F32 \<Rightarrow> Some (layout_pair 4 4)
      | TypeKind_I64 \<Rightarrow> Some (layout_pair 8 8) | TypeKind_U64 \<Rightarrow> Some (layout_pair 8 8)
      | TypeKind_F64 \<Rightarrow> Some (layout_pair 8 8)
      | TypeKind_Pointer \<Rightarrow> Some (layout_pair 8 8) | TypeKind_Any \<Rightarrow> Some (layout_pair 8 8)
      | TypeKind_Fn \<Rightarrow> Some (layout_pair 8 8) | TypeKind_Vector \<Rightarrow> Some (layout_pair 8 8)
      | TypeKind_ArenaMark \<Rightarrow> Some (layout_pair 8 8) | TypeKind_Stream \<Rightarrow> Some (layout_pair 8 8)
      | TypeKind_Handle \<Rightarrow> Some (layout_pair 8 4)
      | TypeKind_String \<Rightarrow> Some (layout_pair 16 8) | TypeKind_Arena \<Rightarrow> Some (layout_pair 16 8)
      | TypeKind_Map \<Rightarrow> Some (layout_pair 32 8) | TypeKind_Set \<Rightarrow> Some (layout_pair 32 8)
      | _ \<Rightarrow> None)"

section \<open>Computing them\<close>

text \<open>The cache; \<open>None\<close> is the sentinel \<^verbatim>\<open>g_layout_in_progress\<close>.\<close>

type_synonym layout_cache = "(string, layout option) hash_table"

definition layout_cache_init :: layout_cache where
  "layout_cache_init = hashtable_init 64"

text \<open>The running state of \<^verbatim>\<open>layout_of_struct_body\<close>: offset, alignment, largest field.\<close>

definition body_step :: "struct_decl \<Rightarrow> layout \<Rightarrow> u64 \<times> u64 \<times> u64 \<Rightarrow> u64 \<times> u64 \<times> u64" where
  "body_step decl fl st =
     (let (running, max_align, max_size) = st;
          field_align = (if sd_is_packed decl then 1 else ly_align fl);
          max_align = (if field_align > max_align then field_align else max_align);
          (offset, running) = layout_next_field_offset running fl (sd_is_union decl) (sd_is_packed decl);
          max_size = (if sd_is_union decl \<and> ly_size fl > max_size then ly_size fl else max_size)
      in (running, max_align, max_size))"

definition body_finish :: "struct_decl \<Rightarrow> u64 \<times> u64 \<times> u64 \<Rightarrow> layout" where
  "body_finish decl st =
     (let (running, max_align, max_size) = st;
          struct_align = (if sd_is_packed decl then 1 else max_align);
          struct_align = (if ucast (sd_align_bytes decl) > struct_align then ucast (sd_align_bytes decl)
                          else struct_align);
          raw_size = (if sd_is_union decl then max_size else running)
      in layout_pair (round_up_to_multiple raw_size struct_align) struct_align)"

definition cache_put :: "layout_cache \<Rightarrow> string \<Rightarrow> layout option \<Rightarrow> layout_cache option" where
  "cache_put cache name l = map_option snd (hashtable_insert cache name l True)"

fun layout_of :: "nat \<Rightarrow> checker \<Rightarrow> type_ref \<Rightarrow> layout_cache \<Rightarrow> (layout \<times> layout_cache) option"
and layout_of_struct_body :: "nat \<Rightarrow> checker \<Rightarrow> struct_decl \<Rightarrow> param list \<Rightarrow> u64 \<times> u64 \<times> u64 \<Rightarrow> layout_cache
      \<Rightarrow> (layout \<times> layout_cache) option"
and layout_of_named :: "nat \<Rightarrow> checker \<Rightarrow> string \<Rightarrow> layout_cache \<Rightarrow> (layout \<times> layout_cache) option" where
  "layout_of 0 ck t cache = None"
| "layout_of (Suc n) ck t cache =
     (case scalar_layout (tr_kind t) of
        Some l \<Rightarrow> Some (l, cache)
      | None \<Rightarrow>
          if tr_kind t = TypeKind_Array
          then (case tr_pointee t of
                  None \<Rightarrow> None
                | Some e \<Rightarrow>
                    do { (elem, cache) \<leftarrow> layout_of n ck e cache;
                         let stride = round_up_to_multiple (ly_size elem) (ly_align elem);
                         Some (layout_pair (stride * tr_count t) (ly_align elem), cache) })
          else if tr_kind t = TypeKind_Named then layout_of_named n ck (tr_name t) cache
          else None)"
| "layout_of_struct_body 0 ck decl fs st cache = None"
| "layout_of_struct_body (Suc n) ck decl [] st cache = Some (body_finish decl st, cache)"
| "layout_of_struct_body (Suc n) ck decl (f # fs) st cache =
     do { (fl, cache) \<leftarrow> layout_of n ck (pa_type f) cache;
          layout_of_struct_body n ck decl fs (body_step decl fl st) cache }"
| "layout_of_named 0 ck name cache = None"
| "layout_of_named (Suc n) ck name cache =
     (case hashtable_lookup cache name of
        Some None \<Rightarrow> None
      | Some (Some l) \<Rightarrow> Some (l, cache)
      | None \<Rightarrow>
          do { cache \<leftarrow> cache_put cache name None;
               (result, cache) \<leftarrow>
                 (case struct_table_lookup ck name of
                    Some decl \<Rightarrow> layout_of_struct_body n ck decl (sd_fields decl) (0, 1, 0) cache
                  | None \<Rightarrow> if enum_table_lookup ck name = None then None
                            else Some (layout_pair 4 4, cache));
               cache \<leftarrow> cache_put cache name (Some result);
               Some (result, cache) })"

section \<open>Finding a field\<close>

record field_layout =
  fo_offset :: u64
  fo_type :: type_ref

text \<open>The two passes over the fields of a struct: the first for a direct field, the second into the
  anonymous members.  The answer is \<open>None\<close> where the code returns \<^verbatim>\<open>found\<close> false.\<close>

fun find_direct :: "nat \<Rightarrow> checker \<Rightarrow> struct_decl \<Rightarrow> param list \<Rightarrow> string \<Rightarrow> u64 \<Rightarrow> u64 \<Rightarrow> layout_cache
    \<Rightarrow> (field_layout option \<times> layout_cache) option" where
  "find_direct n ck decl [] field_name base running cache = Some (None, cache)"
| "find_direct n ck decl (f # fs) field_name base running cache =
     do { (fl, cache) \<leftarrow> layout_of n ck (pa_type f) cache;
          let (offset, running) = layout_next_field_offset running fl (sd_is_union decl) (sd_is_packed decl);
          if \<not> pa_is_anon f \<and> str8_match (pa_name f) field_name 0
          then Some (Some \<lparr>fo_offset = base + offset, fo_type = pa_type f\<rparr>, cache)
          else find_direct n ck decl fs field_name base running cache }"

fun layout_find_field :: "nat \<Rightarrow> checker \<Rightarrow> struct_decl \<Rightarrow> string \<Rightarrow> u64 \<Rightarrow> layout_cache
      \<Rightarrow> (field_layout option \<times> layout_cache) option"
and find_in_anon :: "nat \<Rightarrow> checker \<Rightarrow> struct_decl \<Rightarrow> param list \<Rightarrow> string \<Rightarrow> u64 \<Rightarrow> u64 \<Rightarrow> layout_cache
      \<Rightarrow> (field_layout option \<times> layout_cache) option" where
  "layout_find_field 0 ck decl field_name base cache = None"
| "layout_find_field (Suc n) ck decl field_name base cache =
     do { (found, cache) \<leftarrow> find_direct n ck decl (sd_fields decl) field_name base 0 cache;
          case found of
            Some fo \<Rightarrow> Some (Some fo, cache)
          | None \<Rightarrow> find_in_anon n ck decl (sd_fields decl) field_name base 0 cache }"
| "find_in_anon n ck decl [] field_name base running cache = Some (None, cache)"
| "find_in_anon n ck decl (f # fs) field_name base running cache =
     do { (fl, cache) \<leftarrow> layout_of n ck (pa_type f) cache;
          let (offset, running) = layout_next_field_offset running fl (sd_is_union decl) (sd_is_packed decl);
          if pa_is_anon f \<and> tr_kind (pa_type f) = TypeKind_Named
          then (case struct_table_lookup ck (tr_name (pa_type f)) of
                  None \<Rightarrow> find_in_anon n ck decl fs field_name base running cache
                | Some nested \<Rightarrow>
                    do { (found, cache) \<leftarrow> layout_find_field n ck nested field_name (base + offset) cache;
                         case found of
                           Some fo \<Rightarrow> Some (Some fo, cache)
                         | None \<Rightarrow> find_in_anon n ck decl fs field_name base running cache })
          else find_in_anon n ck decl fs field_name base running cache }"

definition layout_field_offset :: "nat \<Rightarrow> checker \<Rightarrow> struct_decl \<Rightarrow> string \<Rightarrow> layout_cache
    \<Rightarrow> (field_layout option \<times> layout_cache) option" where
  "layout_field_offset n ck se field_name cache = layout_find_field n ck se field_name 0 cache"

section \<open>Hash table slots\<close>

definition bc_round_up_to_multiple :: "u64 \<Rightarrow> u64 \<Rightarrow> u64" where
  "bc_round_up_to_multiple v multiple =
     (if multiple = 0 then v else let rem = v mod multiple in if rem = 0 then v else v + (multiple - rem))"

definition bc_map_key_kind_from_type :: "type_ref \<Rightarrow> u32 option" where
  "bc_map_key_kind_from_type t =
     (case tr_kind t of
        TypeKind_I8 \<Rightarrow> Some 0 | TypeKind_U8 \<Rightarrow> Some 1 | TypeKind_I16 \<Rightarrow> Some 2 | TypeKind_U16 \<Rightarrow> Some 3
      | TypeKind_I32 \<Rightarrow> Some 4 | TypeKind_U32 \<Rightarrow> Some 5 | TypeKind_I64 \<Rightarrow> Some 6 | TypeKind_U64 \<Rightarrow> Some 7
      | TypeKind_Bool \<Rightarrow> Some 8 | TypeKind_Char \<Rightarrow> Some 9 | TypeKind_String \<Rightarrow> Some 10 | _ \<Rightarrow> None)"

text \<open>A set has no value type.\<close>

definition slot_layout :: "u32 \<Rightarrow> layout \<Rightarrow> layout option \<Rightarrow> bc_hash_slot_layout" where
  "slot_layout kind key_l value =
     (let is_set = (value = None);
          value_l = (case value of Some l \<Rightarrow> l | None \<Rightarrow> layout_pair 0 0);
          value_offset = (if is_set then 0 else bc_round_up_to_multiple (ly_size key_l) (ly_align value_l));
          running = (if is_set then ly_size key_l else value_offset + ly_size value_l);
          max_align = (if \<not> is_set \<and> ly_align value_l > ly_align key_l then ly_align value_l else ly_align key_l);
          state_offset = bc_round_up_to_multiple running 4;
          max_align = (if 4 > max_align then 4 else max_align)
      in \<lparr>hl_key_kind = kind, hl_key_size = ly_size key_l, hl_value_size = ly_size value_l,
           hl_slot_size = bc_round_up_to_multiple (state_offset + 4) max_align, hl_slot_align = max_align,
           hl_key_offset = 0, hl_value_offset = value_offset, hl_state_offset = state_offset,
           hl_is_set = (if is_set then 1 else 0)\<rparr>)"

definition bc_hash_slot_layout_of :: "nat \<Rightarrow> checker \<Rightarrow> type_ref \<Rightarrow> type_ref option \<Rightarrow> layout_cache
    \<Rightarrow> (bc_hash_slot_layout \<times> layout_cache) option" where
  "bc_hash_slot_layout_of n ck key_ty value_ty cache =
     do { kind \<leftarrow> bc_map_key_kind_from_type key_ty;
          (key_l, cache) \<leftarrow> layout_of n ck key_ty cache;
          (value, cache) \<leftarrow> (case value_ty of
               None \<Rightarrow> Some (None, cache)
             | Some t \<Rightarrow> map_option (\<lambda>(l, cache). (Some l, cache)) (layout_of n ck t cache));
          Some (slot_layout kind key_l value, cache) }"

end
