(* ===== verification/Struct_Table_Props.thy ===== *)
theory Struct_Table_Props
  imports Struct_Table "HOL-Library.Transitive_Closure_Table"
begin

text \<open>
  The name tables find every declaration by its name, and \<^verbatim>\<open>check_struct_cycles\<close> reports nothing
  exactly when no struct contains itself by value, its depth bound notwithstanding.
\<close>

section \<open>Lookups\<close>

text \<open>The table that maps each name to its last index.\<close>

definition numbered :: "string list \<Rightarrow> nat \<Rightarrow> string \<rightharpoonup> nat" where
  "numbered names i = map_of (rev (zip names [i..<i + length names]))"

lemma numbered_Nil: "numbered [] i = Map.empty"
  by (simp add: numbered_def)

lemma numbered_Cons: "numbered (name # names) i = [name \<mapsto> i] ++ numbered names (i + 1)"
proof -
  have "zip (name # names) [i..<i + length (name # names)] = (name, i) # zip names [i + 1..<i + 1 + length names]"
    by (simp add: upt_rec)
  then show ?thesis by (simp add: numbered_def)
qed

lemma numbered_Some: "numbered names 0 x = Some j \<Longrightarrow> j < length names \<and> names ! j = x"
  by (auto simp: numbered_def dest!: map_of_SomeD simp: set_zip)

lemma numbered_None: "numbered names i x = None \<longleftrightarrow> x \<notin> set names"
  by (induction names arbitrary: i) (auto simp: numbered_Nil numbered_Cons map_add_None)

lemma index_names_ok:
  "ht_inv str8_hash key_match ht \<Longrightarrow> \<exists>dups ht'. index_names names i ht = Some (dups, ht')
     \<and> hashtable_lookup ht' = hashtable_lookup ht ++ numbered names i
     \<and> (dups = [] \<longleftrightarrow> distinct names \<and> set names \<inter> dom (hashtable_lookup ht) = {})"
proof (induction names arbitrary: i ht)
  case (Cons name names)
  obtain ht1 where h: "hashtable_insert ht name i True = Some (True, ht1)" "ht_inv str8_hash key_match ht1"
    "hashtable_lookup ht1 = (hashtable_lookup ht)(name \<mapsto> i)"
    using compiler_table.ins_ok [OF Cons.prems] by blast
  obtain dups ht2 where r: "index_names names (i + 1) ht1 = Some (dups, ht2)"
    "hashtable_lookup ht2 = hashtable_lookup ht1 ++ numbered names (i + 1)"
    "dups = [] \<longleftrightarrow> distinct names \<and> set names \<inter> dom (hashtable_lookup ht1) = {}"
    using Cons.IH [OF h(2), of "i + 1"] by (elim exE conjE) (rule that)
  have "hashtable_lookup ht2 = hashtable_lookup ht ++ numbered (name # names) i"
    unfolding r(2) h(3) numbered_Cons by (simp add: map_add_assoc)
  moreover have "index_names (name # names) i ht
      = Some (if hashtable_lookup ht name \<noteq> None then name # dups else dups, ht2)"
    unfolding index_names.simps h(1) by (simp add: r(1) [simplified])
  moreover have "(if hashtable_lookup ht name \<noteq> None then name # dups else dups) = []
      \<longleftrightarrow> distinct (name # names) \<and> set (name # names) \<inter> dom (hashtable_lookup ht) = {}"
    using r(3) unfolding h(3) by (cases "hashtable_lookup ht name") auto
  ultimately show ?case by blast
qed (simp add: numbered_Nil)

text \<open>A table built over a list of declarations finds each of them by its name.\<close>

definition indexed :: "'d list \<Rightarrow> ('d \<Rightarrow> string) \<Rightarrow> name_table \<Rightarrow> bool" where
  "indexed decls name table \<longleftrightarrow>
     hashtable_lookup table = numbered (map name decls) 0 \<and> distinct (map name decls)"

lemma indexed_lookup:
  assumes "indexed decls name table"
  shows "map_option (\<lambda>i. decls ! i) (hashtable_lookup table x) = Some d \<longleftrightarrow> d \<in> set decls \<and> name d = x"
proof
  have t: "hashtable_lookup table = numbered (map name decls) 0" "distinct (map name decls)"
    using assms by (auto simp: indexed_def)
  show "d \<in> set decls \<and> name d = x" if "map_option (\<lambda>i. decls ! i) (hashtable_lookup table x) = Some d"
    using that numbered_Some [of "map name decls" x] by (auto simp: t)
  show "map_option (\<lambda>i. decls ! i) (hashtable_lookup table x) = Some d" if d: "d \<in> set decls \<and> name d = x"
  proof -
    obtain i where i: "hashtable_lookup table x = Some i"
      using d numbered_None [of "map name decls" 0 x] by (cases "hashtable_lookup table x") (auto simp: t)
    then have "i < length decls" "name (decls ! i) = x"
      using numbered_Some [of "map name decls" x i] by (auto simp: t)
    then have "decls ! i = d" using t(2) d by (metis distinct_map inj_onD nth_mem)
    then show ?thesis using i by simp
  qed
qed

lemma index_init:
  "\<exists>d t. index_names names 0 (hashtable_init 64) = Some (d, t)
     \<and> hashtable_lookup t = numbered names 0 \<and> (d = [] \<longleftrightarrow> distinct names)"
proof -
  have e: "hashtable_lookup (hashtable_init 64) = (Map.empty :: string \<rightharpoonup> nat)"
    by (auto simp: hashtable_lookup_def str8_key.lookup_init)
  have i: "ht_inv str8_hash key_match (hashtable_init 64 :: name_table)" by (rule str8_key.init) simp
  show ?thesis
    using index_names_ok [OF i, of names 0] unfolding e
    by (simp only: empty_map_add dom_empty Int_empty_right simp_thms)
qed

lemma declare_types_distinct:
  assumes "distinct (map sd_name structs)" "distinct (map ed_name enums)"
  shows "\<exists>ck. declare_types structs enums = Some ([], ck) \<and> ck_structs ck = structs \<and> ck_enums ck = enums"
proof -
  obtain t1 where "index_names (map sd_name structs) 0 (hashtable_init 64) = Some ([], t1)"
    using index_init [of "map sd_name structs"] assms(1) by metis
  moreover obtain t2 where "index_names (map ed_name enums) 0 (hashtable_init 64) = Some ([], t2)"
    using index_init [of "map ed_name enums"] assms(2) by metis
  ultimately show ?thesis by (simp add: declare_types_def)
qed

text \<open>A checker whose name tables were built without a duplicate.\<close>

definition declared :: "checker \<Rightarrow> bool" where
  "declared ck \<longleftrightarrow> declare_types (ck_structs ck) (ck_enums ck) = Some ([], ck)"

lemma declared_indexed:
  assumes "declared ck"
  shows "indexed (ck_structs ck) sd_name (ck_structs_by_name ck)
    \<and> indexed (ck_enums ck) ed_name (ck_enums_by_name ck)"
proof -
  note built = index_init
  obtain d1 t1 where r1: "index_names (map sd_name (ck_structs ck)) 0 (hashtable_init 64) = Some (d1, t1)"
    and t1: "hashtable_lookup t1 = numbered (map sd_name (ck_structs ck)) 0"
    and u1: "d1 = [] \<longleftrightarrow> distinct (map sd_name (ck_structs ck))"
    using built [of "map sd_name (ck_structs ck)"] by (elim exE conjE) (rule that)
  obtain d2 t2 where r2: "index_names (map ed_name (ck_enums ck)) 0 (hashtable_init 64) = Some (d2, t2)"
    and t2: "hashtable_lookup t2 = numbered (map ed_name (ck_enums ck)) 0"
    and u2: "d2 = [] \<longleftrightarrow> distinct (map ed_name (ck_enums ck))"
    using built [of "map ed_name (ck_enums ck)"] by (elim exE conjE) (rule that)
  note r = r1 r2 and t = t1 t2 and u = u1 u2
  have c: "d1 @ d2 = []" "ck = \<lparr>ck_structs = ck_structs ck, ck_structs_by_name = t1,
      ck_enums = ck_enums ck, ck_enums_by_name = t2\<rparr>"
    using assms unfolding declared_def declare_types_def r by simp_all
  have "ck_structs_by_name ck = t1" "ck_enums_by_name ck = t2" by (subst c(2), simp)+
  then show ?thesis using t u c(1) by (simp add: indexed_def)
qed

lemma struct_lookup_iff:
  "declared ck \<Longrightarrow> struct_table_lookup ck x = Some d \<longleftrightarrow> d \<in> set (ck_structs ck) \<and> sd_name d = x"
  unfolding struct_table_lookup_def by (rule indexed_lookup) (rule declared_indexed [THEN conjunct1])

lemma struct_lookup_name: "declared ck \<Longrightarrow> struct_table_lookup ck x = Some d \<Longrightarrow> sd_name d = x"
  by (simp add: struct_lookup_iff)

section \<open>Structs inside themselves\<close>

text \<open>The name a type is made of once its arrays are taken off, and the arrays that have an element
  type, as the lowering builds them.\<close>

fun core_name :: "type_ref \<Rightarrow> string option" where
  "core_name (TypeRef k name pointee map_key count al cn params ret) =
     (if k = TypeKind_Array then (case pointee of None \<Rightarrow> None | Some e \<Rightarrow> core_name e)
      else if k = TypeKind_Named then Some name else None)"

fun arrays_ok :: "type_ref \<Rightarrow> bool" where
  "arrays_ok (TypeRef k name pointee map_key count al cn params ret) \<longleftrightarrow>
     k = TypeKind_Array \<longrightarrow> (case pointee of None \<Rightarrow> False | Some e \<Rightarrow> arrays_ok e)"

lemma core_name_array: "tr_kind t = TypeKind_Array \<Longrightarrow> tr_pointee t = Some e \<Longrightarrow> core_name t = core_name e"
  and core_name_named: "tr_kind t = TypeKind_Named \<Longrightarrow> core_name t = Some (tr_name t)"
  and core_name_other: "tr_kind t \<noteq> TypeKind_Array \<Longrightarrow> tr_kind t \<noteq> TypeKind_Named \<Longrightarrow> core_name t = None"
  by (cases t; simp)+

lemma arrays_ok_pointee:
  "arrays_ok t \<Longrightarrow> tr_kind t = TypeKind_Array \<Longrightarrow> \<exists>e. tr_pointee t = Some e \<and> arrays_ok e"
  by (cases t) (auto split: option.splits)

definition tables_ok :: "checker \<Rightarrow> bool" where
  "tables_ok ck \<longleftrightarrow> (\<forall>d\<in>set (ck_structs ck). \<forall>f\<in>set (sd_fields d). arrays_ok (pa_type f))"

text \<open>One struct has a field made of another.\<close>

definition embeds :: "checker \<Rightarrow> string \<Rightarrow> string \<Rightarrow> bool" where
  "embeds ck x y \<longleftrightarrow> (\<exists>d. struct_table_lookup ck x = Some d
     \<and> (\<exists>f\<in>set (sd_fields d). core_name (pa_type f) = Some y))"

lemma lookup_in: "declared ck \<Longrightarrow> struct_table_lookup ck x = Some d \<Longrightarrow> d \<in> set (ck_structs ck)"
  by (simp add: struct_lookup_iff)

lemma fields_embed_iff:
  assumes "\<And>t. t \<in> set ts \<Longrightarrow> \<exists>b. struct_embeds_by_value ck a t d = Some b"
  shows "fields_embed ck a ts d = Some (\<exists>t\<in>set ts. struct_embeds_by_value ck a t d = Some True)"
  using assms
proof (induction ts)
  case (Cons t ts)
  obtain b where "struct_embeds_by_value ck a t d = Some b" using Cons.prems by auto
  then show ?case using Cons by (cases b) auto
qed simp

lemma embeds_defined:
  assumes "declared ck" "tables_ok ck"
  shows "arrays_ok t \<Longrightarrow> \<exists>b. struct_embeds_by_value ck a t d = Some b"
    and "list_all arrays_ok ts \<Longrightarrow> \<exists>b. fields_embed ck a ts d = Some b"
  using assms
proof (induction ck a t d and ck a ts d rule: struct_embeds_by_value_fields_embed.induct)
  case (1 ck a t d)
  have fs: "list_all arrays_ok (map pa_type (sd_fields x))" if "struct_table_lookup ck (tr_name t) = Some x" for x
    using 1 lookup_in that by (auto simp: tables_ok_def list_all_iff)
  show ?case
    using 1 fs arrays_ok_pointee [of t] by (subst struct_embeds_by_value.simps) (auto split: option.split)
next
  case (3 ck a t ts d)
  then obtain b where "struct_embeds_by_value ck a t d = Some b" by auto
  then show ?case using 3 by (cases b) auto
qed (auto intro: exI [of _ False])

lemma embeds_sound:
  "struct_embeds_by_value ck a t d = Some True \<Longrightarrow> \<exists>x. core_name t = Some x \<and> (embeds ck)\<^sup>*\<^sup>* x a"
  "fields_embed ck a ts d = Some True \<Longrightarrow> \<exists>t\<in>set ts. \<exists>x. core_name t = Some x \<and> (embeds ck)\<^sup>*\<^sup>* x a"
proof (induction ck a t d and ck a ts d rule: struct_embeds_by_value_fields_embed.induct)
  case (1 ck a t d)
  show ?case
  proof (cases "tr_kind t = TypeKind_Array")
    case True
    then obtain e where e: "tr_pointee t = Some e" "struct_embeds_by_value ck a e d = Some True"
      using 1(3) by (subst (asm) struct_embeds_by_value.simps) (auto split: option.splits)
    then show ?thesis using 1(1) [OF True e(1)] core_name_array [OF True e(1)] by simp
  next
    case False
    then have k: "tr_kind t = TypeKind_Named" and c: "core_name t = Some (tr_name t)"
      using 1(3) core_name_named by (subst (asm) struct_embeds_by_value.simps; auto split: if_splits)+
    show ?thesis
    proof (cases "tr_name t = a")
      case False
      then obtain decl where decl: "struct_table_lookup ck (tr_name t) = Some decl" "\<not> length (ck_structs ck) < d"
        and em: "fields_embed ck a (map pa_type (sd_fields decl)) (d + 1) = Some True"
        using 1(3) k by (subst (asm) struct_embeds_by_value.simps) (auto split: if_splits option.splits)
      obtain f x where f: "f \<in> set (sd_fields decl)" "core_name (pa_type f) = Some x" "(embeds ck)\<^sup>*\<^sup>* x a"
        using 1(2) [OF \<open>tr_kind t \<noteq> TypeKind_Array\<close> _ _ decl(2,1) em] k False by auto
      then have "embeds ck (tr_name t) x" using decl by (auto simp: embeds_def)
      then show ?thesis using c f(3) by (auto intro: converse_rtranclp_into_rtranclp)
    qed (use c in auto)
  qed
qed (auto split: option.splits bool.splits)

lemma embeds_complete:
  assumes "declared ck" "tables_ok ck"
  shows "rtrancl_path (embeds ck) x xs a \<Longrightarrow> arrays_ok t \<Longrightarrow> core_name t = Some x
    \<Longrightarrow> d + length xs \<le> length (ck_structs ck) + 1 \<Longrightarrow> struct_embeds_by_value ck a t d = Some True"
proof (induction xs arbitrary: x t d)
  case Nil
  then have "x = a" by (auto elim: rtrancl_path.cases)
  with Nil.prems(2,3) show ?case
  proof (induction t)
    case (TypeRef k name pointee map_key count al cn params ret)
    then show ?case by (subst struct_embeds_by_value.simps) (auto split: if_splits option.splits)
  qed
next
  case (Cons y ys)
  have xy: "embeds ck x y" "rtrancl_path (embeds ck) y ys a" using Cons.prems(1) by (auto elim: rtrancl_path.cases)
  obtain decl f where decl: "struct_table_lookup ck x = Some decl" "f \<in> set (sd_fields decl)"
    "core_name (pa_type f) = Some y" using xy(1) by (auto simp: embeds_def)
  have ok: "g \<in> set (sd_fields decl) \<Longrightarrow> arrays_ok (pa_type g)" for g
    using lookup_in [OF assms(1) decl(1)] assms(2) by (auto simp: tables_ok_def)
  have "struct_embeds_by_value ck a (pa_type f) (d + 1) = Some True"
    using Cons.IH [OF xy(2) ok [OF decl(2)] decl(3), of "d + 1"] Cons.prems(4) by simp
  then have em: "fields_embed ck a (map pa_type (sd_fields decl)) (d + 1) = Some True"
    using fields_embed_iff [of "map pa_type (sd_fields decl)" ck a "d + 1"] embeds_defined(1) [OF assms] ok
      decl(2) by fastforce
  have d: "\<not> length (ck_structs ck) < d" using Cons.prems(4) by simp
  show ?case using Cons.prems(2,3)
  proof (induction t)
    case (TypeRef k name pointee map_key count al cn params ret)
    then show ?case using em decl(1) d by (subst struct_embeds_by_value.simps) (auto split: if_splits option.splits)
  qed
qed

lemma path_within_structs:
  assumes "declared ck" "rtrancl_path (embeds ck) x xs a" "embeds ck a z"
  shows "set (x # xs) \<subseteq> sd_name ` set (ck_structs ck)"
proof -
  have source: "y \<in> sd_name ` set (ck_structs ck)" if "embeds ck y w" for y w
    using that struct_lookup_iff [OF assms(1)] by (auto simp: embeds_def)
  show ?thesis using assms(2,3)
  proof (induction rule: rtrancl_path.induct)
    case (step x y ys w)
    then show ?case using source by auto
  qed (use source in auto)
qed

lemma cycle_found:
  assumes ck: "declared ck" "tables_ok ck" and cyc: "(embeds ck)\<^sup>+\<^sup>+ a a"
  shows "\<exists>d f. struct_table_lookup ck a = Some d \<and> f \<in> set (sd_fields d)
    \<and> struct_embeds_by_value ck a (pa_type f) 0 = Some True"
proof -
  obtain x where x: "embeds ck a x" "(embeds ck)\<^sup>*\<^sup>* x a" using cyc by (auto dest: tranclpD)
  obtain xs where "rtrancl_path (embeds ck) x xs a" using x(2) rtranclp_eq_rtrancl_path by metis
  then obtain ys where ys: "rtrancl_path (embeds ck) x ys a" "distinct (x # ys)"
    by (rule rtrancl_path_distinct)
  have "card (set (x # ys)) \<le> card (sd_name ` set (ck_structs ck))"
    using path_within_structs [OF ck(1) ys(1) x(1)] by (intro card_mono) auto
  also have "\<dots> \<le> length (ck_structs ck)" by (metis card_image_le card_length finite_set le_trans)
  finally have len: "0 + length ys \<le> length (ck_structs ck) + 1" using distinct_card [OF ys(2)] by simp
  obtain d f where df: "struct_table_lookup ck a = Some d" "f \<in> set (sd_fields d)" "core_name (pa_type f) = Some x"
    using x(1) by (auto simp: embeds_def)
  have "arrays_ok (pa_type f)" using lookup_in [OF ck(1) df(1)] df(2) ck(2) by (auto simp: tables_ok_def)
  from embeds_complete [OF ck ys(1) this df(3) len] df show ?thesis by auto
qed

lemma find_embedding_ok:
  assumes "declared ck" "tables_ok ck" "\<forall>f\<in>set fs. arrays_ok (pa_type f)"
  shows "\<exists>r. find_embedding ck name fs = Some r
    \<and> (r = None \<longleftrightarrow> (\<forall>f\<in>set fs. struct_embeds_by_value ck name (pa_type f) 0 \<noteq> Some True))"
  using assms(3)
proof (induction fs)
  case (Cons f fs)
  obtain b where "struct_embeds_by_value ck name (pa_type f) 0 = Some b"
    using embeds_defined(1) [OF assms(1,2), of "pa_type f" name 0] Cons.prems by auto
  then show ?case using Cons by (cases b) auto
qed simp

lemma struct_cycles_ok:
  assumes "declared ck" "tables_ok ck" "set ds \<subseteq> set (ck_structs ck)"
  shows "\<exists>r. struct_cycles ck ds = Some r \<and> (r = [] \<longleftrightarrow>
    (\<forall>d\<in>set ds. \<forall>f\<in>set (sd_fields d). struct_embeds_by_value ck (sd_name d) (pa_type f) 0 \<noteq> Some True))"
  using assms(3)
proof (induction ds)
  case (Cons d ds)
  have "\<forall>f\<in>set (sd_fields d). arrays_ok (pa_type f)" using Cons.prems assms(2) by (auto simp: tables_ok_def)
  from find_embedding_ok [OF assms(1,2) this, of "sd_name d"] Cons show ?case by (auto split: option.split)
qed simp

text \<open>C9: \<^verbatim>\<open>check_struct_cycles\<close> always returns, and it reports nothing exactly when no struct contains
  itself by value through any chain of fields and arrays.\<close>

theorem struct_cycles_exact:
  assumes "declare_types structs enums = Some ([], ck)"
    and "\<forall>d\<in>set structs. \<forall>f\<in>set (sd_fields d). arrays_ok (pa_type f)"
  shows "\<exists>reports. check_struct_cycles ck = Some reports
    \<and> (reports = [] \<longleftrightarrow> (\<nexists>x. (embeds ck)\<^sup>+\<^sup>+ x x))"
proof -
  have fields: "ck_structs ck = structs" "ck_enums ck = enums" using assms(1) by (auto simp: declare_types_def split: bind_splits)
  have ck: "declared ck" "tables_ok ck" using assms by (auto simp: declared_def tables_ok_def fields)
  have "(\<exists>d\<in>set (ck_structs ck). \<exists>f\<in>set (sd_fields d). struct_embeds_by_value ck (sd_name d) (pa_type f) 0 = Some True)
      \<longleftrightarrow> (\<exists>x. (embeds ck)\<^sup>+\<^sup>+ x x)" (is "?l \<longleftrightarrow> ?r")
  proof
    assume ?l
    then obtain d f y where d: "d \<in> set (ck_structs ck)" "f \<in> set (sd_fields d)" "core_name (pa_type f) = Some y"
      "(embeds ck)\<^sup>*\<^sup>* y (sd_name d)" using embeds_sound(1) by metis
    then have "embeds ck (sd_name d) y" using struct_lookup_iff [OF ck(1)] by (auto simp: embeds_def)
    then show ?r using d(4) by (blast intro: rtranclp_into_tranclp2)
  next
    assume ?r
    then show ?l using cycle_found [OF ck] struct_lookup_iff [OF ck(1)] by metis
  qed
  then show ?thesis
    using struct_cycles_ok [OF ck order_refl] unfolding check_struct_cycles_def by blast
qed

lemma struct_cycles_exact_witness:
  "\<exists>ck reports. declare_types
      [\<lparr>sd_name = ''A'', sd_fields = [\<lparr>pa_name = ''x'',
          pa_type = TypeRef TypeKind_Array [] (Some (TypeRef TypeKind_Named ''A'' None None 0 [] False [] None))
            None 2 [] False [] None, pa_is_anon = False\<rparr>],
        sd_is_packed = False, sd_align_bytes = 0, sd_is_union = False\<rparr>] [] = Some ([], ck)
     \<and> check_struct_cycles ck = Some reports \<and> reports \<noteq> []"
proof -
  let ?A = "TypeRef TypeKind_Named ''A'' None None 0 [] False [] None"
  let ?f = "\<lparr>pa_name = ''x'', pa_type = TypeRef TypeKind_Array [] (Some ?A) None 2 [] False [] None, pa_is_anon = False\<rparr>"
  let ?d = "\<lparr>sd_name = ''A'', sd_fields = [?f], sd_is_packed = False, sd_align_bytes = 0, sd_is_union = False\<rparr>"
  obtain ck where ck: "declare_types [?d] [] = Some ([], ck)" "ck_structs ck = [?d]" "ck_enums ck = []"
    using declare_types_distinct [of "[?d]" "[]"] by auto
  have "declared ck" using ck by (simp add: declared_def)
  then have "struct_table_lookup ck ''A'' = Some ?d" by (simp add: struct_lookup_iff ck)
  then have "embeds ck ''A'' ''A''" by (simp add: embeds_def)
  then have "(embeds ck)\<^sup>+\<^sup>+ ''A'' ''A''" by blast
  moreover have "\<forall>d\<in>set [?d]. \<forall>f\<in>set (sd_fields d). arrays_ok (pa_type f)" by simp
  ultimately show ?thesis using struct_cycles_exact [OF ck(1)] ck(1) by metis
qed

end
