(* ===== verification/Layout_Spec.thy ===== *)
theory Layout_Spec
  imports Layout Struct_Table_Props
begin

text \<open>
  The System V layout rules over unbounded integers, stated declaratively, and what they give:
  alignments divide sizes, fields are aligned, in order, apart from each other and inside the struct.
\<close>

section \<open>The rules\<close>

definition up :: "nat \<Rightarrow> nat \<Rightarrow> nat" where
  "up v m = (if m dvd v then v else (v div m + 1) * m)"

text \<open>The offsets of fields of these sizes and alignments, from a running offset on.\<close>

definition eff_align :: "bool \<Rightarrow> nat \<Rightarrow> nat" where
  "eff_align packed a = (if packed then 1 else a)"

fun offsets :: "bool \<Rightarrow> bool \<Rightarrow> nat \<Rightarrow> (nat \<times> nat) list \<Rightarrow> nat list" where
  "offsets is_union packed r [] = []"
| "offsets is_union packed r ((s, a) # ls) =
     (if is_union then 0 # offsets is_union packed r ls
      else up r (eff_align packed a) # offsets is_union packed (up r (eff_align packed a) + s) ls)"

fun raw_size :: "bool \<Rightarrow> bool \<Rightarrow> nat \<Rightarrow> (nat \<times> nat) list \<Rightarrow> nat" where
  "raw_size is_union packed r [] = r"
| "raw_size is_union packed r ((s, a) # ls) =
     (if is_union then raw_size is_union packed (max r s) ls
      else raw_size is_union packed (up r (eff_align packed a) + s) ls)"

definition struct_align :: "struct_decl \<Rightarrow> (nat \<times> nat) list \<Rightarrow> nat" where
  "struct_align decl ls =
     max (unat (sd_align_bytes decl)) (fold (\<lambda>l m. max m (eff_align (sd_is_packed decl) (snd l))) ls 1)"

definition struct_size :: "struct_decl \<Rightarrow> (nat \<times> nat) list \<Rightarrow> nat" where
  "struct_size decl ls = up (raw_size (sd_is_union decl) (sd_is_packed decl) 0 ls) (struct_align decl ls)"

inductive sysv :: "checker \<Rightarrow> type_ref \<Rightarrow> nat \<Rightarrow> nat \<Rightarrow> bool"
  and sysv_fields :: "checker \<Rightarrow> param list \<Rightarrow> (nat \<times> nat) list \<Rightarrow> bool" for ck where
  Scalar: "scalar_layout (tr_kind t) = Some l \<Longrightarrow> sysv ck t (unat (ly_size l)) (unat (ly_align l))"
| Array: "tr_kind t = TypeKind_Array \<Longrightarrow> tr_pointee t = Some e \<Longrightarrow> sysv ck e s a
    \<Longrightarrow> sysv ck t (up s a * unat (tr_count t)) a"
| Struct: "tr_kind t = TypeKind_Named \<Longrightarrow> struct_table_lookup ck (tr_name t) = Some decl
    \<Longrightarrow> sysv_fields ck (sd_fields decl) ls \<Longrightarrow> sysv ck t (struct_size decl ls) (struct_align decl ls)"
| Enum: "tr_kind t = TypeKind_Named \<Longrightarrow> struct_table_lookup ck (tr_name t) = None
    \<Longrightarrow> enum_table_lookup ck (tr_name t) \<noteq> None \<Longrightarrow> sysv ck t 4 4"
| No_Fields: "sysv_fields ck [] []"
| Field: "sysv ck (pa_type f) s a \<Longrightarrow> sysv_fields ck fs ls \<Longrightarrow> sysv_fields ck (f # fs) ((s, a) # ls)"

inductive_simps sysv_fields_simps [simp]: "sysv_fields ck [] ls" "sysv_fields ck (f # fs) ls"

section \<open>Rounding up\<close>

lemma up_one [simp]: "up v 1 = v" "up v (Suc 0) = v"
  by (simp_all add: up_def)

lemma up_dvd [simp]: "m dvd up v m"
  by (simp add: up_def)

lemma up_parts:
  assumes "0 < m"
  shows "(v mod m = 0 \<longrightarrow> up v m = v) \<and> (v mod m \<noteq> 0 \<longrightarrow> up v m = v + (m - v mod m)) \<and> v \<le> up v m \<and> up v m < v + m"
proof -
  obtain r q where r: "v mod m = r" "r < m" "v = q * m + r" "v div m = q"
    using assms by (metis div_mult_mod_eq mod_less_divisor)
  have d: "m dvd v \<longleftrightarrow> r = 0" using r(1) by auto
  show ?thesis using r(2,3) unfolding up_def d r(1,4) by (cases "r = 0") (simp_all add: r(3))
qed

lemma up_mod: "0 < m \<Longrightarrow> up v m = (if v mod m = 0 then v else v + (m - v mod m))"
  using up_parts [of m v] by presburger

lemma up_between: "0 < m \<Longrightarrow> v \<le> up v m \<and> up v m < v + m"
  using up_parts [of m v] by blast

lemmas up_ge = up_between [THEN conjunct1] and up_lt = up_between [THEN conjunct2]

text \<open>The declarative reading: the least multiple that is not smaller.\<close>

lemma up_least: "0 < m \<Longrightarrow> m dvd w \<Longrightarrow> v \<le> w \<Longrightarrow> up v m \<le> w"
proof -
  assume m: "0 < m" and w: "m dvd w" "v \<le> w"
  show ?thesis
  proof (rule ccontr)
    assume "\<not> up v m \<le> w"
    then have "0 < up v m - w" "up v m - w < m" using up_lt [OF m, of v] w(2) by simp_all
    moreover have "m dvd up v m - w" using w(1) up_dvd by (rule dvd_diff_nat [rotated])
    ultimately show False using dvd_imp_le by fastforce
  qed
qed

section \<open>Fields of a struct\<close>

lemma length_offsets [simp]: "length (offsets u p r ls) = length ls"
  by (induction u p r ls rule: offsets.induct) auto

lemma eff_align_pos: "0 < a \<Longrightarrow> 0 < eff_align p a"
  by (simp add: eff_align_def)

lemma raw_size_ge: "\<forall>l\<in>set ls. 0 < snd l \<Longrightarrow> r \<le> raw_size u p r ls"
proof (induction u p r ls rule: raw_size.induct)
  case (2 u p r s a ls)
  have "r \<le> up r (eff_align p a)" using 2(3) by (intro up_ge eff_align_pos) simp
  then show ?case using 2 by (cases u) auto
qed simp

lemma raw_size_union_mono: "r \<le> r' \<Longrightarrow> raw_size True p r ls \<le> raw_size True p r' ls"
proof (induction ls arbitrary: r r')
  case (Cons l ls)
  then show ?case using Cons.IH [of "max r (fst l)" "max r' (fst l)"] by (cases l) auto
qed simp

text \<open>Every field is aligned, not below the running offset, and ends within the raw size.\<close>

lemma field_place:
  "\<forall>l\<in>set ls. 0 < snd l \<Longrightarrow> i < length ls \<Longrightarrow>
     (u \<or> r \<le> offsets u p r ls ! i) \<and> eff_align p (snd (ls ! i)) dvd offsets u p r ls ! i
     \<and> offsets u p r ls ! i + fst (ls ! i) \<le> raw_size u p r ls"
proof (induction u p r ls arbitrary: i rule: offsets.induct)
  case (2 u p r s a ls)
  note ge = up_ge [OF eff_align_pos [of a p], of r]
  have pos: "0 < a" "\<forall>l\<in>set ls. 0 < snd l" using 2(3) by auto
  have raw: "x \<le> raw_size u p x ls" for x using pos(2) by (rule raw_size_ge)
  show ?case
  proof (cases i)
    case 0
    then show ?thesis using ge [OF pos(1)] raw [of "max r s"] raw [of "up r (eff_align p a) + s"]
      by (cases u) auto
  next
    case (Suc j)
    then show ?thesis
      using 2(1) [of j] 2(2) [of j] 2(4) pos ge [OF pos(1)] le_trans [OF _ raw_size_union_mono [of r "max r s" p ls]] by (cases u) auto
  qed
qed simp

lemma fields_apart:
  "\<forall>l\<in>set ls. 0 < snd l \<Longrightarrow> i < j \<Longrightarrow> j < length ls \<Longrightarrow>
     offsets False p r ls ! i + fst (ls ! i) \<le> offsets False p r ls ! j"
proof (induction ls arbitrary: i j r)
  case (Cons l ls)
  obtain s a where l: "l = (s, a)" by fastforce
  obtain k where k: "j = Suc k" using Cons.prems(2) by (cases j) auto
  show ?case
  proof (cases i)
    case 0
    then show ?thesis using field_place [of ls k False "up r (eff_align p a) + s" p] Cons.prems l k by auto
  next
    case (Suc i')
    then show ?thesis using Cons l k by auto
  qed
qed simp

section \<open>Alignments\<close>

lemma scalar_bounds:
  "scalar_layout k = Some l \<Longrightarrow> 0 < unat (ly_align l) \<and> unat (ly_align l) \<le> 8
     \<and> unat (ly_align l) dvd unat (ly_size l)"
  by (cases k) (auto simp: scalar_layout_def layout_pair_def)

lemma fold_align:
  "m \<le> fold (\<lambda>l m. max m (f l)) ls m \<and> (\<forall>l\<in>set ls. f l \<le> fold (\<lambda>l m. max m (f l)) ls m)
   \<and> (m < b \<and> (\<forall>l\<in>set ls. f l < b) \<longrightarrow> fold (\<lambda>l m. max m (f l)) ls m < (b :: nat))"
proof (induction ls arbitrary: m)
  case (Cons l ls)
  from Cons.IH [of "max m (f l)"] show ?case by auto
qed simp

lemma struct_align_bounds:
  assumes "\<forall>l\<in>set ls. 0 < snd l \<and> snd l < 2 ^ 32"
  shows "0 < struct_align decl ls \<and> struct_align decl ls < 2 ^ 32
    \<and> (\<forall>l\<in>set ls. eff_align (sd_is_packed decl) (snd l) \<le> struct_align decl ls)"
proof -
  let ?f = "\<lambda>l :: nat \<times> nat. eff_align (sd_is_packed decl) (snd l)"
  have b: "\<forall>l\<in>set ls. ?f l < 2 ^ 32" using assms by (auto simp: eff_align_def)
  have "unat (sd_align_bytes decl) < 2 ^ 32" using unsigned_less [of "sd_align_bytes decl"] by simp
  then show ?thesis
    using fold_align [of 1 ?f ls "2 ^ 32"] b by (auto simp: struct_align_def)
qed

lemma sysv_bounds:
  "sysv ck t s a \<Longrightarrow> 0 < a \<and> a < 2 ^ 32 \<and> a dvd s"
  "sysv_fields ck fs ls \<Longrightarrow> (\<forall>l\<in>set ls. 0 < snd l \<and> snd l < 2 ^ 32) \<and> length ls = length fs"
proof (induction rule: sysv_sysv_fields.inducts)
  case (Scalar t l)
  then show ?case using scalar_bounds [OF Scalar] by simp
next
  case (Struct t decl ls)
  then show ?case using struct_align_bounds [of ls decl] by (simp add: struct_size_def)
qed auto

section \<open>Determinism\<close>

lemma scalar_not_composite:
  "scalar_layout TypeKind_Array = None" "scalar_layout TypeKind_Named = None"
  by (simp_all add: scalar_layout_def)

lemma sysv_inv:
  "sysv ck t s a \<Longrightarrow> scalar_layout (tr_kind t) = Some l \<Longrightarrow> s = unat (ly_size l) \<and> a = unat (ly_align l)"
  "sysv ck t s a \<Longrightarrow> tr_kind t = TypeKind_Array \<Longrightarrow> tr_pointee t = Some e
     \<Longrightarrow> \<exists>s0. s = up s0 a * unat (tr_count t) \<and> sysv ck e s0 a"
  "sysv ck t s a \<Longrightarrow> tr_kind t = TypeKind_Named \<Longrightarrow> struct_table_lookup ck (tr_name t) = Some decl
     \<Longrightarrow> \<exists>ls. s = struct_size decl ls \<and> a = struct_align decl ls \<and> sysv_fields ck (sd_fields decl) ls"
  "sysv ck t s a \<Longrightarrow> tr_kind t = TypeKind_Named \<Longrightarrow> struct_table_lookup ck (tr_name t) = None \<Longrightarrow> s = 4 \<and> a = 4"
  by (erule sysv.cases, auto simp: scalar_not_composite)+

lemma sysv_det:
  "sysv ck t s a \<Longrightarrow> sysv ck t s' a' \<Longrightarrow> s' = s \<and> a' = a"
  "sysv_fields ck fs ls \<Longrightarrow> sysv_fields ck fs ls' \<Longrightarrow> ls' = ls"
proof (induction arbitrary: s' a' and ls' rule: sysv_sysv_fields.inducts)
  case (Scalar t l)
  from sysv_inv(1) [OF Scalar(2,1)] show ?case .
next
  case (Array t e s a)
  from sysv_inv(2) [OF Array(5,1,2)] Array(4) show ?case by blast
next
  case (Struct t decl ls)
  from sysv_inv(3) [OF Struct(5,1,2)] Struct(4) show ?case by blast
next
  case (Enum t)
  from sysv_inv(4) [OF Enum(4,1,2)] show ?case .
next
  case (Field f s a fs ls)
  obtain s2 a2 ls2 where n: "ls' = (s2, a2) # ls2" "sysv ck (pa_type f) s2 a2" "sysv_fields ck fs ls2"
    using Field.prems by (cases ls') (auto elim: sysv_fields.cases)
  from Field(2) [OF n(2)] Field(4) [OF n(3)] n(1) show ?case by simp
qed (auto elim: sysv_fields.cases)

lemma sysv_named:
  "sysv ck t s a \<Longrightarrow> tr_kind t = TypeKind_Named \<Longrightarrow> tr_kind t' = TypeKind_Named \<Longrightarrow> tr_name t' = tr_name t
     \<Longrightarrow> sysv ck t' s a"
  by (erule sysv.cases) (auto simp: scalar_not_composite intro: sysv_sysv_fields.intros)

section \<open>No cycle below a type that has a layout\<close>

abbreviation grounded :: "checker \<Rightarrow> string \<Rightarrow> bool" where
  "grounded ck \<equiv> Wellfounded.accp (\<lambda>y x. embeds ck x y)"

lemma sysv_grounded:
  "sysv ck t s a \<Longrightarrow> core_name t = Some x \<Longrightarrow> grounded ck x"
  "sysv_fields ck fs ls \<Longrightarrow> f \<in> set fs \<Longrightarrow> core_name (pa_type f) = Some x \<Longrightarrow> grounded ck x"
proof (induction arbitrary: x and f x rule: sysv_sysv_fields.inducts)
  case (Scalar t l)
  then have "tr_kind t \<noteq> TypeKind_Array" "tr_kind t \<noteq> TypeKind_Named" by (auto simp: scalar_not_composite)
  then show ?case using Scalar(2) by (simp add: core_name_other)
next
  case (Array t e s a)
  then show ?case by (simp add: core_name_array)
next
  case (Struct t decl ls)
  have "tr_name t = x" using Struct by (simp add: core_name_named)
  show ?case
  proof (rule accpI)
    fix y assume "embeds ck x y"
    then obtain f where "f \<in> set (sd_fields decl)" "core_name (pa_type f) = Some y"
      using Struct(2) \<open>tr_name t = x\<close> by (auto simp: embeds_def)
    from Struct(4) [OF this] show "grounded ck y" .
  qed
next
  case (Enum t)
  have "tr_name t = x" using Enum by (simp add: core_name_named)
  then have no: "\<not> embeds ck x y" for y using Enum(2) by (simp add: embeds_def)
  show ?case by (rule accpI) (simp add: no)
next
  case No_Fields
  then show ?case by simp
next
  case (Field g s a fs ls)
  from Field(5) consider "f = g" | "f \<in> set fs" by auto
  then show ?case using Field(2) [of x] Field(4) [of f x] Field(6) by cases blast+
qed

lemma grounded_no_cycle:
  assumes "grounded ck x"
  shows "\<not> (embeds ck)\<^sup>+\<^sup>+ x x"
  using assms
proof (induction x rule: accp_induct_rule)
  case (1 x)
  show ?case
  proof
    assume "(embeds ck)\<^sup>+\<^sup>+ x x"
    then obtain y where y: "embeds ck x y" "(embeds ck)\<^sup>*\<^sup>* y x" by (auto dest: tranclpD)
    then have "(embeds ck)\<^sup>+\<^sup>+ y y" by (blast intro: rtranclp_into_tranclp1)
    then show False using 1(2) [OF y(1)] by blast
  qed
qed

end
