(* ===== verification/Layout_Props.thy ===== *)
theory Layout_Props
  imports Layout_Spec
begin

text \<open>
  \<^verbatim>\<open>layout.c\<close> implements the rules of \<open>Layout_Spec\<close>: on the types of a package the checker accepts
  it returns, cache or no cache, with the layout the rules give, as long as that fits.
\<close>

section \<open>Words and numbers\<close>

text \<open>A computed layout against a prescribed one: sizes from \<^verbatim>\<open>2^63\<close> on have wrapped.\<close>

definition layout_matches :: "layout \<Rightarrow> nat \<Rightarrow> nat \<Rightarrow> bool" where
  "layout_matches l s a \<longleftrightarrow> ly_align l = of_nat a \<and> (s < 2 ^ 63 \<longrightarrow> ly_size l = of_nat s)"

lemma round_up_word:
  assumes "v < 2 ^ 63" "0 < a" "a < 2 ^ 32"
  shows "round_up_to_multiple (of_nat v) (of_nat a) = of_nat (up v a)"
proof -
  have u: "unat (of_nat v :: u64) = v" "unat (of_nat a :: u64) = a" using assms by (simp_all add: unat_of_nat_u64)
  have one: "(of_nat a :: u64) \<le> 1 \<longleftrightarrow> a = 1" using u(2) assms(2) by (auto simp: word_le_nat_alt)
  have "v mod a < 2 ^ 64" using mod_less_divisor [OF assms(2), of v] assms(3) by simp
  then have k: "unat (of_nat (v mod a) :: u64) = v mod a" by (rule unat_of_nat_u64)
  have m: "(of_nat v mod of_nat a :: u64) = of_nat (v mod a)"
    unfolding word_unat_eq_iff unat_mod u k by (rule refl)
  have z: "(of_nat (v mod a) :: u64) = 0 \<longleftrightarrow> v mod a = 0"
    unfolding word_unat_eq_iff k by simp
  have s: "(of_nat v + (of_nat a - of_nat (v mod a)) :: u64) = of_nat (v + (a - v mod a))"
    using mod_less_divisor [OF assms(2), of v] by (simp add: of_nat_diff)
  show ?thesis
    using s unfolding round_up_to_multiple_def one m Let_def z up_mod [OF assms(2)] by auto
qed

section \<open>One field, one struct\<close>

definition body_inv :: "struct_decl \<Rightarrow> u64 \<times> u64 \<times> u64 \<Rightarrow> nat \<Rightarrow> nat \<Rightarrow> bool" where
  "body_inv decl st r ma \<longleftrightarrow> fst (snd st) = of_nat ma \<and> 0 < ma \<and> ma < 2 ^ 32 \<and> (sd_is_packed decl \<longrightarrow> ma = 1)
     \<and> (r < 2 ^ 63 \<longrightarrow> (if sd_is_union decl then snd (snd st) else fst st) = of_nat r)"

lemma of_nat_less_u64: "m < 2 ^ 64 \<Longrightarrow> n < 2 ^ 64 \<Longrightarrow> (of_nat m :: u64) < of_nat n \<longleftrightarrow> m < n"
  by (simp add: word_less_nat_alt unat_of_nat_u64)

lemma of_nat_max_u64:
  "m < 2 ^ 64 \<Longrightarrow> n < 2 ^ 64 \<Longrightarrow> (if (of_nat m :: u64) < of_nat n then of_nat n else of_nat m) = (of_nat (max m n) :: u64)"
  by (auto simp: of_nat_less_u64 max_def)

lemma eff_align_word: "(if p then 1 else of_nat a) = (of_nat (eff_align p a) :: u64)"
  by (simp add: eff_align_def)

lemma body_inv_step:
  assumes inv: "body_inv decl st r ma" and fl: "layout_matches fl s a" and a: "0 < a" "a < 2 ^ 32"
  shows "body_inv decl (body_step decl fl st)
    (if sd_is_union decl then max r s else up r (eff_align (sd_is_packed decl) a) + s)
    (max ma (eff_align (sd_is_packed decl) a))"
proof -
  let ?e = "eff_align (sd_is_packed decl) a"
  have e: "0 < ?e" "?e < 2 ^ 32" using a by (simp_all add: eff_align_def)
  obtain run m mx where st: "st = (run, m, mx)" by (cases st)
  have m: "m = of_nat ma" "ma < 2 ^ 32" and fa: "ly_align fl = of_nat a"
    using inv fl by (auto simp: body_inv_def st layout_matches_def)
  have al: "(if (of_nat ma :: u64) < of_nat ?e then of_nat ?e else of_nat ma) = (of_nat (max ma ?e) :: u64)"
    using m(2) e(2) by (intro of_nat_max_u64) simp_all
  have off: "(if sd_is_packed decl then 1 else ly_align fl) = of_nat ?e" unfolding fa by (rule eff_align_word)
  show ?thesis
  proof (cases "sd_is_union decl")
    case True
    have "(if mx < ly_size fl then ly_size fl else mx) = of_nat (max r s)" if rs: "max r s < 2 ^ 63"
    proof -
      have *: "mx = of_nat r" "ly_size fl = of_nat s"
        using rs inv fl True by (auto simp: body_inv_def st layout_matches_def)
      show ?thesis unfolding * by (rule of_nat_max_u64) (use rs in simp_all)
    qed
    then show ?thesis
      using inv True al m e by (auto simp: body_inv_def body_step_def st Let_def off layout_next_field_offset_def
          eff_align_def)
  next
    case False
    have "round_up_to_multiple run (of_nat ?e) + ly_size fl = of_nat (up r ?e + s)" if "up r ?e + s < 2 ^ 63"
      using that inv fl False up_ge [OF e(1), of r] round_up_word [OF _ e, of r]
      by (simp add: body_inv_def st layout_matches_def)
    then show ?thesis
      using inv False al m e by (auto simp: body_inv_def body_step_def st Let_def off layout_next_field_offset_def
          eff_align_def)
  qed
qed

lemma ucast_align: "(ucast (n :: u32) :: u64) = of_nat (unat n)"
  by simp

lemma body_inv_finish:
  assumes "body_inv decl st r ma" and A: "A = max (unat (sd_align_bytes decl)) ma"
  shows "layout_matches (body_finish decl st) (up r A) A"
proof -
  obtain run m mx where st: "st = (run, m, mx)" by (cases st)
  have m: "m = of_nat ma" "0 < ma" "ma < 2 ^ 32" "sd_is_packed decl \<Longrightarrow> ma = 1"
    using assms by (auto simp: body_inv_def st)
  have b: "unat (sd_align_bytes decl) < 2 ^ 32" using unsigned_less [of "sd_align_bytes decl"] by simp
  have A0: "0 < A" "A < 2 ^ 32" using A m b by auto
  have pm: "(if sd_is_packed decl then 1 else m) = of_nat ma" using m by auto
  have al: "(let x = (if sd_is_packed decl then 1 else m) in
      if x < ucast (sd_align_bytes decl) then ucast (sd_align_bytes decl) else x) = of_nat A"
    using of_nat_max_u64 [of ma "unat (sd_align_bytes decl)", folded ucast_align] m(3) b
    unfolding A Let_def pm max.commute [of "unat (sd_align_bytes decl)"] by simp
  have "round_up_to_multiple (if sd_is_union decl then mx else run) (of_nat A) = of_nat (up r A)"
    if "up r A < 2 ^ 63"
    using that up_ge [OF A0(1), of r] round_up_word [OF _ A0, of r] assms(1) by (auto simp: body_inv_def st)
  then show ?thesis using al
    by (simp add: layout_matches_def body_finish_def st Let_def layout_pair_def split del: if_split)
qed

section \<open>The cache\<close>

text \<open>What it may hold while the structs of \<open>P\<close> are being computed.\<close>

definition cache_ok :: "checker \<Rightarrow> string set \<Rightarrow> layout_cache \<Rightarrow> bool" where
  "cache_ok ck P cache \<longleftrightarrow> ht_inv str8_hash key_match cache
     \<and> (\<forall>x l. hashtable_lookup cache x = Some (Some l) \<longrightarrow>
          (\<forall>t. tr_kind t = TypeKind_Named \<and> tr_name t = x \<longrightarrow> (\<exists>s a. sysv ck t s a \<and> layout_matches l s a)))
     \<and> (\<forall>x. hashtable_lookup cache x = Some None \<longrightarrow> x \<in> P)"

lemma cache_ok_init: "cache_ok ck P layout_cache_init"
proof -
  have "ht_inv str8_hash key_match (hashtable_init 64 :: layout_cache)" by (rule str8_key.init) simp
  moreover have "hashtable_lookup (hashtable_init 64 :: layout_cache) x = None" for x
    by (simp add: hashtable_lookup_def str8_key.lookup_init)
  ultimately show ?thesis by (simp add: cache_ok_def layout_cache_init_def)
qed

lemma cache_put_ok:
  assumes "ht_inv str8_hash key_match cache"
  shows "\<exists>c. cache_put cache x l = Some c \<and> ht_inv str8_hash key_match c
    \<and> hashtable_lookup c = (hashtable_lookup cache)(x \<mapsto> l)"
  using compiler_table.ins_ok [OF assms, of x l] by (auto simp: cache_put_def)

lemma cache_enter:
  assumes "cache_ok ck P cache"
  shows "\<exists>c. cache_put cache x None = Some c \<and> cache_ok ck (insert x P) c"
proof -
  obtain c where "cache_put cache x None = Some c" "ht_inv str8_hash key_match c"
    "hashtable_lookup c = (hashtable_lookup cache)(x \<mapsto> None)"
    using cache_put_ok [of cache x None] assms by (auto simp: cache_ok_def)
  then show ?thesis using assms by (auto simp: cache_ok_def)
qed

lemma cache_leave:
  assumes "cache_ok ck (insert x P) cache" and t: "sysv ck t s a" "tr_kind t = TypeKind_Named" "tr_name t = x"
    and "layout_matches l s a"
  shows "\<exists>c. cache_put cache x (Some l) = Some c \<and> cache_ok ck P c"
proof -
  obtain c where "cache_put cache x (Some l) = Some c" "ht_inv str8_hash key_match c"
    "hashtable_lookup c = (hashtable_lookup cache)(x \<mapsto> Some l)"
    using cache_put_ok [of cache x "Some l"] assms(1) by (auto simp: cache_ok_def)
  moreover have "sysv ck u s a" if "tr_kind u = TypeKind_Named" "tr_name u = x" for u
    using sysv_named [OF t(1,2)] that t(3) by simp
  ultimately show ?thesis using assms(1,5) by (auto simp: cache_ok_def)
qed

section \<open>The computation\<close>

text \<open>A computation that has settled: from some nesting bound on it gives this answer.\<close>

definition settles :: "(nat \<Rightarrow> 'a option) \<Rightarrow> 'a \<Rightarrow> bool" where
  "settles f r \<longleftrightarrow> (\<exists>N. \<forall>n\<ge>N. f n = Some r)"

lemma settlesI: "(\<And>n. f (Suc n) = Some r) \<Longrightarrow> settles f r"
  unfolding settles_def by (metis Suc_le_D)

lemma settles_Suc: "settles g r \<Longrightarrow> (\<And>n. g n = Some r \<Longrightarrow> f (Suc n) = Some r') \<Longrightarrow> settles f r'"
  unfolding settles_def by (metis Suc_le_D Suc_le_mono)

lemma settles_both:
  "settles g r \<Longrightarrow> settles h q \<Longrightarrow> (\<And>n. g n = Some r \<Longrightarrow> h n = Some q \<Longrightarrow> f (Suc n) = Some r') \<Longrightarrow> settles f r'"
  unfolding settles_def by (metis Suc_le_D Suc_le_mono max.bounded_iff nle_le)

lemma settles_det: "settles f r \<Longrightarrow> settles f q \<Longrightarrow> r = q"
  unfolding settles_def by (metis nle_le option.inject)

definition computes :: "checker \<Rightarrow> string set \<Rightarrow> (nat \<Rightarrow> (layout \<times> layout_cache) option) \<Rightarrow> nat \<Rightarrow> nat \<Rightarrow> bool" where
  "computes ck P f s a \<longleftrightarrow> (\<exists>l cache. settles f (l, cache) \<and> layout_matches l s a \<and> cache_ok ck P cache)"

lemma computesI: "settles f (l, c) \<Longrightarrow> layout_matches l s a \<Longrightarrow> cache_ok ck P c \<Longrightarrow> computes ck P f s a"
  by (auto simp: computes_def)

definition clear_of :: "checker \<Rightarrow> string set \<Rightarrow> type_ref \<Rightarrow> bool" where
  "clear_of ck P t \<longleftrightarrow> (\<forall>x y. core_name t = Some x \<and> y \<in> P \<longrightarrow> \<not> (embeds ck)\<^sup>*\<^sup>* x y)"

lemma clear_of_field:
  assumes t: "sysv ck t s a" "tr_kind t = TypeKind_Named" "struct_table_lookup ck (tr_name t) = Some decl"
    and P: "clear_of ck P t" and f: "f \<in> set (sd_fields decl)"
  shows "clear_of ck (insert (tr_name t) P) (pa_type f)"
  unfolding clear_of_def
proof (intro allI impI, elim conjE)
  fix y z assume y: "core_name (pa_type f) = Some y" and z: "z \<in> insert (tr_name t) P"
  let ?x = "tr_name t"
  have x: "core_name t = Some ?x" using t(2) by (rule core_name_named)
  have e: "embeds ck ?x y" using t(3) f y by (auto simp: embeds_def)
  have "\<not> (embeds ck)\<^sup>+\<^sup>+ ?x ?x" using grounded_no_cycle sysv_grounded(1) [OF t(1) x] by blast
  then show "\<not> (embeds ck)\<^sup>*\<^sup>* y z"
    using z e P x unfolding clear_of_def by (blast intro: rtranclp_into_tranclp2 converse_rtranclp_into_rtranclp)
qed

lemma array_matches:
  assumes "layout_matches l s a" "0 < a" "a < 2 ^ 32"
  shows "layout_matches (layout_pair (round_up_to_multiple (ly_size l) (ly_align l) * count) (ly_align l))
    (up s a * unat count) a"
proof -
  have "round_up_to_multiple (ly_size l) (ly_align l) * count = of_nat (up s a * unat count)"
    if b: "up s a * unat count < 2 ^ 63"
  proof (cases "count = 0")
    case False
    then have "1 \<le> unat count" by (simp add: Suc_leI unat_gt_0)
    then have "up s a \<le> up s a * unat count" by simp
    then have u: "up s a < 2 ^ 63" using b by (rule le_less_trans)
    then have "s < 2 ^ 63" using up_ge [OF assms(2), of s] by simp
    then have "ly_size l = of_nat s" "ly_align l = of_nat a" using assms(1) by (auto simp: layout_matches_def)
    then show ?thesis using round_up_word [OF \<open>s < 2 ^ 63\<close> assms(2,3)] by simp
  qed simp
  then show ?thesis using assms(1) by (simp add: layout_matches_def layout_pair_def)
qed

lemma computes_scalar:
  assumes "scalar_layout (tr_kind t) = Some l" "cache_ok ck P cache"
  shows "computes ck P (\<lambda>n. layout_of n ck t cache) (unat (ly_size l)) (unat (ly_align l))"
proof -
  have "settles (\<lambda>n. layout_of n ck t cache) (l, cache)" by (rule settlesI) (simp add: assms(1))
  then show ?thesis using assms(2) by (auto simp: computes_def layout_matches_def)
qed

lemma computes_array:
  assumes "tr_kind t = TypeKind_Array" "tr_pointee t = Some e" "0 < a" "a < 2 ^ 32"
    and "computes ck P (\<lambda>n. layout_of n ck e cache) s a"
  shows "computes ck P (\<lambda>n. layout_of n ck t cache) (up s a * unat (tr_count t)) a"
proof -
  obtain l c where l: "settles (\<lambda>n. layout_of n ck e cache) (l, c)" "layout_matches l s a" "cache_ok ck P c"
    using assms(5) by (auto simp: computes_def)
  have "settles (\<lambda>n. layout_of n ck t cache)
      (layout_pair (round_up_to_multiple (ly_size l) (ly_align l) * tr_count t) (ly_align l), c)"
    by (rule settles_Suc [OF l(1)]) (simp add: assms(1,2) scalar_not_composite)
  then show ?thesis using array_matches [OF l(2) assms(3,4)] l(3) by (auto simp: computes_def)
qed

text \<open>A named type: from the cache, or by computing the body with the name marked.\<close>

lemma computes_cached:
  assumes t: "sysv ck t s a" "tr_kind t = TypeKind_Named" and c: "cache_ok ck P cache" "clear_of ck P t"
    and l: "hashtable_lookup cache (tr_name t) = Some l"
  shows "computes ck P (\<lambda>n. layout_of n ck t cache) s a"
proof -
  have "tr_name t \<notin> P" using c(2) core_name_named [OF t(2)] by (auto simp: clear_of_def)
  then obtain l' where l': "l = Some l'" using c(1) l by (cases l) (auto simp: cache_ok_def)
  then have "layout_matches l' s a"
    using c(1) l t(2) sysv_det(1) [OF t(1)] unfolding cache_ok_def by blast
  moreover have named: "layout_of_named (Suc n) ck (tr_name t) cache = Some (l', cache)" for n using l l' by simp
  have "settles (\<lambda>n. layout_of_named n ck (tr_name t) cache) (l', cache)" by (rule settlesI) (rule named)
  then have "settles (\<lambda>n. layout_of n ck t cache) (l', cache)"
    by (rule settles_Suc) (simp add: t(2) scalar_not_composite)
  ultimately show ?thesis using c(1) by (auto simp: computes_def)
qed

lemma computes_named:
  assumes t: "sysv ck t s a" "tr_kind t = TypeKind_Named" and c: "cache_ok ck P cache"
    and l: "hashtable_lookup cache (tr_name t) = None"
    and body: "\<And>c. cache_ok ck (insert (tr_name t) P) c \<Longrightarrow>
      computes ck (insert (tr_name t) P) (\<lambda>n. case struct_table_lookup ck (tr_name t) of
          Some decl \<Rightarrow> layout_of_struct_body n ck decl (sd_fields decl) (0, 1, 0) c
        | None \<Rightarrow> if enum_table_lookup ck (tr_name t) = None then None else Some (layout_pair 4 4, c)) s a"
  shows "computes ck P (\<lambda>n. layout_of n ck t cache) s a"
proof -
  obtain c1 where c1: "cache_put cache (tr_name t) None = Some c1" "cache_ok ck (insert (tr_name t) P) c1"
    using cache_enter [OF c] by blast
  obtain r c2 where b: "settles (\<lambda>n. case struct_table_lookup ck (tr_name t) of
          Some decl \<Rightarrow> layout_of_struct_body n ck decl (sd_fields decl) (0, 1, 0) c1
        | None \<Rightarrow> if enum_table_lookup ck (tr_name t) = None then None else Some (layout_pair 4 4, c1)) (r, c2)"
    "layout_matches r s a" "cache_ok ck (insert (tr_name t) P) c2"
    using body [OF c1(2)] by (auto simp: computes_def)
  obtain c3 where c3: "cache_put c2 (tr_name t) (Some r) = Some c3" "cache_ok ck P c3"
    using cache_leave [OF b(3) t refl b(2)] by blast
  have "settles (\<lambda>n. layout_of_named n ck (tr_name t) cache) (r, c3)"
    by (rule settles_Suc [OF b(1)]) (simp add: l c1(1) c3(1))
  then have "settles (\<lambda>n. layout_of n ck t cache) (r, c3)"
    by (rule settles_Suc) (simp add: t(2) scalar_not_composite)
  then show ?thesis using b(2) c3(2) by (auto simp: computes_def)
qed

lemma computes_fields:
  assumes "computes ck P (\<lambda>n. layout_of n ck (pa_type f) cache) s a" "0 < a" "a < 2 ^ 32"
    and inv: "body_inv decl st r ma"
    and rest: "\<And>c st r ma. cache_ok ck P c \<Longrightarrow> body_inv decl st r ma \<Longrightarrow>
      computes ck P (\<lambda>n. layout_of_struct_body n ck decl fs st c)
        (up (raw_size (sd_is_union decl) (sd_is_packed decl) r ls) (A ma)) (A ma)"
  shows "computes ck P (\<lambda>n. layout_of_struct_body n ck decl (f # fs) st cache)
    (up (raw_size (sd_is_union decl) (sd_is_packed decl) r ((s, a) # ls)) (A (max ma (eff_align (sd_is_packed decl) a))))
    (A (max ma (eff_align (sd_is_packed decl) a)))"
proof -
  obtain fl c where fl: "settles (\<lambda>n. layout_of n ck (pa_type f) cache) (fl, c)" "layout_matches fl s a"
    "cache_ok ck P c" using assms(1) by (auto simp: computes_def)
  note st' = body_inv_step [OF inv fl(2) assms(2,3)]
  obtain l c' where l: "settles (\<lambda>n. layout_of_struct_body n ck decl fs (body_step decl fl st) c) (l, c')"
    "layout_matches l (up (raw_size (sd_is_union decl) (sd_is_packed decl) r ((s, a) # ls))
        (A (max ma (eff_align (sd_is_packed decl) a)))) (A (max ma (eff_align (sd_is_packed decl) a)))"
    "cache_ok ck P c'"
    using rest [OF fl(3) st'] by (auto simp: computes_def split: if_splits)
  have "settles (\<lambda>n. layout_of_struct_body n ck decl (f # fs) st cache) (l, c')"
    by (rule settles_both [OF fl(1) l(1)]) simp
  then show ?thesis using l(2,3) by (rule computesI)
qed

lemma layout_of_sysv:
  "sysv ck t s a \<Longrightarrow> cache_ok ck P cache \<Longrightarrow> clear_of ck P t \<Longrightarrow> computes ck P (\<lambda>n. layout_of n ck t cache) s a"
  "sysv_fields ck fs ls \<Longrightarrow> cache_ok ck P cache \<Longrightarrow> \<forall>f\<in>set fs. clear_of ck P (pa_type f) \<Longrightarrow> body_inv decl st r ma
    \<Longrightarrow> computes ck P (\<lambda>n. layout_of_struct_body n ck decl fs st cache)
      (up (raw_size (sd_is_union decl) (sd_is_packed decl) r ls)
          (max (unat (sd_align_bytes decl)) (fold (\<lambda>l m. max m (eff_align (sd_is_packed decl) (snd l))) ls ma)))
      (max (unat (sd_align_bytes decl)) (fold (\<lambda>l m. max m (eff_align (sd_is_packed decl) (snd l))) ls ma))"
proof (induction arbitrary: P cache and P cache decl st r ma rule: sysv_sysv_fields.inducts)
  case (Scalar t l)
  then show ?case by (intro computes_scalar)
next
  case (Array t e s a)
  have "computes ck P (\<lambda>n. layout_of n ck e cache) s a"
    using Array core_name_array [OF Array(1,2)] by (simp add: clear_of_def)
  then show ?case using computes_array [OF Array(1,2)] sysv_bounds(1) [OF Array(3)] by blast
next
  case (Struct t decl' ls)
  note t = sysv_sysv_fields.Struct [OF Struct(1-3)]
  have inv: "body_inv decl' (0, 1, 0) 0 1" by (simp add: body_inv_def)
  have body: "computes ck (insert (tr_name t) P) (\<lambda>n. case struct_table_lookup ck (tr_name t) of
          Some decl \<Rightarrow> layout_of_struct_body n ck decl (sd_fields decl) (0, 1, 0) c
        | None \<Rightarrow> if enum_table_lookup ck (tr_name t) = None then None else Some (layout_pair 4 4, c))
      (struct_size decl' ls) (struct_align decl' ls)" if "cache_ok ck (insert (tr_name t) P) c" for c
    using Struct(4) [OF that _ inv] clear_of_field [OF t Struct(1,2,6)]
    by (simp add: Struct(2) struct_size_def struct_align_def)
  show ?case
  proof (cases "hashtable_lookup cache (tr_name t)")
    case None
    from computes_named [OF t Struct(1,5) None body] show ?thesis .
  next
    case (Some l)
    from computes_cached [OF t Struct(1,5,6) Some] show ?thesis .
  qed
next
  case (Enum t)
  note t = sysv_sysv_fields.Enum [OF Enum(1-3)]
  have body: "computes ck (insert (tr_name t) P) (\<lambda>n. case struct_table_lookup ck (tr_name t) of
          Some decl \<Rightarrow> layout_of_struct_body n ck decl (sd_fields decl) (0, 1, 0) c
        | None \<Rightarrow> if enum_table_lookup ck (tr_name t) = None then None else Some (layout_pair 4 4, c)) 4 4"
    if "cache_ok ck (insert (tr_name t) P) c" for c
    using that Enum(2,3) settlesI [of "\<lambda>n. Some (layout_pair 4 4, c)" "(layout_pair 4 4, c)"]
    by (auto simp: computes_def layout_matches_def layout_pair_def intro!: exI)
  show ?case
  proof (cases "hashtable_lookup cache (tr_name t)")
    case None
    from computes_named [OF t Enum(1,4) None body] show ?thesis .
  next
    case (Some l)
    from computes_cached [OF t Enum(1,4,5) Some] show ?thesis .
  qed
next
  case No_Fields
  have "settles (\<lambda>n. layout_of_struct_body n ck decl [] st cache) (body_finish decl st, cache)"
    by (rule settlesI) simp
  then show ?case using body_inv_finish [OF No_Fields(3) refl] No_Fields(1) by (auto simp: computes_def)
next
  case (Field f s a fs ls)
  have b: "0 < a" "a < 2 ^ 32" using sysv_bounds(1) [OF Field(1)] by auto
  have h: "computes ck P (\<lambda>n. layout_of n ck (pa_type f) cache) s a" using Field(2) Field(5,6) by simp
  show ?case
    using computes_fields [OF h b Field(7), where A = "\<lambda>ma. max (unat (sd_align_bytes decl))
        (fold (\<lambda>l m. max m (eff_align (sd_is_packed decl) (snd l))) ls ma)"] Field(4) Field(6)
    by simp
qed

section \<open>Accepted packages\<close>

text \<open>Types that have a size: not \<^verbatim>\<open>void\<close>, every array with its element type, every name declared.\<close>

fun type_sized :: "checker \<Rightarrow> type_ref \<Rightarrow> bool" where
  "type_sized ck (TypeRef k name pointee map_key count al cn params ret) \<longleftrightarrow>
     (if k = TypeKind_Array then (case pointee of None \<Rightarrow> False | Some e \<Rightarrow> type_sized ck e)
      else if k = TypeKind_Named then struct_table_lookup ck name \<noteq> None \<or> enum_table_lookup ck name \<noteq> None
      else scalar_layout k \<noteq> None)"

lemma sized_arrays_ok: "type_sized ck t \<Longrightarrow> arrays_ok t"
  by (induction t) (auto split: option.splits)

text \<open>What \<^verbatim>\<open>check_program\<close> establishes before the bytecode compiler asks for layouts.\<close>

definition accepted :: "checker \<Rightarrow> bool" where
  "accepted ck \<longleftrightarrow> declared ck \<and> check_struct_cycles ck = Some []
     \<and> (\<forall>d\<in>set (ck_structs ck). \<forall>f\<in>set (sd_fields d). type_sized ck (pa_type f))"

lemma sysv_exists_fields:
  "\<forall>f\<in>set fs. \<exists>s a. sysv ck (pa_type f) s a \<Longrightarrow> \<exists>ls. sysv_fields ck fs ls"
  by (induction fs) (auto, metis sysv_sysv_fields.Field)

lemma sysv_exists_names:
  assumes "\<And>x. core_name t = Some x \<Longrightarrow> struct_table_lookup ck x \<noteq> None
      \<Longrightarrow> \<exists>ls. sysv_fields ck (sd_fields (the (struct_table_lookup ck x))) ls"
  shows "type_sized ck t \<Longrightarrow> \<exists>s a. sysv ck t s a"
  using assms
proof (induction t)
  case (TypeRef k name pointee map_key count al cn params ret)
  let ?t = "TypeRef k name pointee map_key count al cn params ret"
  consider (arr) e where "k = TypeKind_Array" "pointee = Some e" "type_sized ck e"
    | (struct) d where "k = TypeKind_Named" "struct_table_lookup ck name = Some d"
    | (enum) "k = TypeKind_Named" "struct_table_lookup ck name = None" "enum_table_lookup ck name \<noteq> None"
    | (scalar) l where "k \<noteq> TypeKind_Named" "scalar_layout k = Some l"
    using TypeRef.prems(1) by (auto split: if_splits option.splits)
  then show ?case
  proof cases
    case arr
    then obtain s a where "sysv ck e s a" using TypeRef by auto
    then show ?thesis using sysv_sysv_fields.Array [of ?t e ck s a] arr by auto
  next
    case struct
    then obtain ls where "sysv_fields ck (sd_fields d) ls" using TypeRef.prems(2) [of name] by auto
    then show ?thesis using sysv_sysv_fields.Struct [of ?t ck d ls] struct by auto
  next
    case enum
    then show ?thesis using sysv_sysv_fields.Enum [of ?t ck] by auto
  next
    case scalar
    then show ?thesis using sysv_sysv_fields.Scalar [of ?t l ck] by auto
  qed
qed

lemma accepted_grounded:
  assumes "accepted ck"
  shows "grounded ck x"
proof -
  have ck: "declared ck" "tables_ok ck"
    using assms sized_arrays_ok by (auto simp: accepted_def tables_ok_def)
  let ?R = "{(x, y). embeds ck x y}"
  have "?R \<subseteq> (\<lambda>(d, f). (sd_name d, the (core_name (pa_type f)))) `
      (SIGMA d : set (ck_structs ck). set (sd_fields d))"
    using struct_lookup_iff [OF ck(1)] by (force simp: embeds_def)
  then have fin: "finite ?R" by (rule finite_subset) auto
  have "\<not> (embeds ck)\<^sup>+\<^sup>+ z z" for z
  proof
    assume "(embeds ck)\<^sup>+\<^sup>+ z z"
    then obtain d f where d: "struct_table_lookup ck z = Some d" "f \<in> set (sd_fields d)"
      "struct_embeds_by_value ck z (pa_type f) 0 = Some True" using cycle_found [OF ck] by blast
    then have "d \<in> set (ck_structs ck)" "sd_name d = z" using struct_lookup_iff [OF ck(1)] by auto
    then show False
      using struct_cycles_ok [OF ck order_refl] assms d(2,3) by (auto simp: accepted_def check_struct_cycles_def)
  qed
  then have "acyclic ?R" by (simp add: acyclic_def trancl_def)
  then have "wfp (\<lambda>y x. embeds ck x y)"
    using finite_acyclic_wf_converse [OF fin] by (simp add: wfp_def converse_unfold)
  then show ?thesis by (rule accp_wfpD)
qed

lemma accepted_struct_layout:
  assumes "accepted ck"
  shows "struct_table_lookup ck x \<noteq> None \<Longrightarrow> \<exists>ls. sysv_fields ck (sd_fields (the (struct_table_lookup ck x))) ls"
  using accepted_grounded [OF assms, of x]
proof (induction x rule: accp_induct_rule)
  case (1 x)
  obtain d where d: "struct_table_lookup ck x = Some d" using 1(3) by auto
  have "\<exists>s a. sysv ck (pa_type f) s a" if f: "f \<in> set (sd_fields d)" for f
  proof (rule sysv_exists_names)
    show "type_sized ck (pa_type f)" using assms d f struct_lookup_iff by (auto simp: accepted_def)
    show "\<exists>ls. sysv_fields ck (sd_fields (the (struct_table_lookup ck y))) ls"
      if "core_name (pa_type f) = Some y" "struct_table_lookup ck y \<noteq> None" for y
      using 1(2) [of y] that d f by (auto simp: embeds_def)
  qed
  then show ?case using sysv_exists_fields d by auto
qed

lemma accepted_sysv:
  assumes "accepted ck" "type_sized ck t"
  shows "\<exists>s a. sysv ck t s a"
  using sysv_exists_names [of t ck] accepted_struct_layout [OF assms(1)] assms(2) by blast

text \<open>C10: on a package \<^verbatim>\<open>check_struct_cycles\<close> accepts, \<^verbatim>\<open>layout_of\<close> returns for every sized type, whatever
  the cache already holds, never meeting its in-progress marker, and the answer is the System V layout:
  the alignment always, the size when it is below \<^verbatim>\<open>2^63\<close>.\<close>

theorem layout_follows_sysv:
  assumes "accepted ck" and "type_sized ck t" and "cache_ok ck {} cache"
  shows "\<exists>s a. sysv ck t s a \<and> computes ck {} (\<lambda>n. layout_of n ck t cache) s a"
proof -
  obtain s a where "sysv ck t s a" using accepted_sysv [OF assms(1,2)] by blast
  moreover have "clear_of ck {} t" by (simp add: clear_of_def)
  ultimately show ?thesis using layout_of_sysv(1) assms(3) by blast
qed

text \<open>Past \<^verbatim>\<open>2^63\<close> the size wraps: an array type the lowering accepts that takes no bytes at all.\<close>

lemma array_layout_wraps:
  "layout_of (Suc (Suc n)) ck (TypeRef TypeKind_Array [] (Some (type_ref_of_kind TypeKind_I64)) None
      2305843009213693952 [] False [] None) cache = Some (layout_pair 0 8, cache)"
  by (simp add: scalar_layout_def round_up_to_multiple_def layout_pair_def)

end
