(* ===== verification/Layout_Fields.thy ===== *)
theory Layout_Fields
  imports Layout_Props
begin

text \<open>
  Field offsets: \<^verbatim>\<open>layout_find_field\<close> finds a field exactly when the checker's
  \<^verbatim>\<open>find_field_recursive\<close> does, and the same one, at an offset inside the struct.
\<close>

section \<open>One pass over the direct fields\<close>

lemma settles_at:
  "settles g r \<Longrightarrow> settles h q \<Longrightarrow> (\<And>n. g n = Some r \<Longrightarrow> h n = Some q \<Longrightarrow> f n = Some r') \<Longrightarrow> settles f r'"
  unfolding settles_def by (metis max.bounded_iff nle_le)

lemma settles_pair: "settles g r \<Longrightarrow> settles h q \<Longrightarrow> settles (\<lambda>n. case g n of None \<Rightarrow> None | Some a \<Rightarrow> map_option (Pair a) (h n)) (r, q)"
  by (rule settles_at [of g r h q]) simp_all

lemma settles_const: "settles (\<lambda>n. Some r) r"
  by (simp add: settles_def)

definition hits :: "string \<Rightarrow> param \<Rightarrow> bool" where
  "hits name f \<longleftrightarrow> \<not> pa_is_anon f \<and> str8_match (pa_name f) name 0"

text \<open>The running word against the running offset of the rules; a union never reads it.\<close>

definition running_ok :: "struct_decl \<Rightarrow> u64 \<Rightarrow> nat \<Rightarrow> bool" where
  "running_ok decl w r \<longleftrightarrow> (\<not> sd_is_union decl \<longrightarrow> r < 2 ^ 63 \<longrightarrow> w = of_nat r)"

abbreviation next_raw :: "struct_decl \<Rightarrow> nat \<Rightarrow> nat \<Rightarrow> nat \<Rightarrow> nat" where
  "next_raw decl r s a \<equiv> (if sd_is_union decl then max r s else up r (eff_align (sd_is_packed decl) a) + s)"

abbreviation place :: "struct_decl \<Rightarrow> nat \<Rightarrow> nat \<Rightarrow> nat" where
  "place decl r a \<equiv> (if sd_is_union decl then 0 else up r (eff_align (sd_is_packed decl) a))"

abbreviation raw_of :: "struct_decl \<Rightarrow> nat \<Rightarrow> (nat \<times> nat) list \<Rightarrow> nat" where
  "raw_of decl r ls \<equiv> raw_size (sd_is_union decl) (sd_is_packed decl) r ls"

lemma raw_of_Cons: "raw_of decl r ((s, a) # ls) = raw_of decl (next_raw decl r s a) ls"
  by simp

lemma next_offset_ok:
  assumes "running_ok decl w r" "layout_matches fl s a" "0 < a" "a < 2 ^ 32" "next_raw decl r s a < 2 ^ 63"
  shows "fst (layout_next_field_offset w fl (sd_is_union decl) (sd_is_packed decl)) = of_nat (place decl r a)"
    and "running_ok decl (snd (layout_next_field_offset w fl (sd_is_union decl) (sd_is_packed decl))) (next_raw decl r s a)"
proof -
  let ?e = "eff_align (sd_is_packed decl) a"
  have e: "0 < ?e" "?e < 2 ^ 32" using assms(3,4) by (simp_all add: eff_align_def)
  have fa: "ly_align fl = of_nat a" using assms(2) by (simp add: layout_matches_def)
  have off: "(if sd_is_packed decl then 1 else ly_align fl) = of_nat ?e" unfolding fa by (rule eff_align_word)
  have "w = of_nat r \<and> ly_size fl = of_nat s \<and> round_up_to_multiple w (of_nat ?e) = of_nat (up r ?e)"
    if "\<not> sd_is_union decl"
  proof -
    have "r < 2 ^ 63" "s < 2 ^ 63" using assms(5) up_ge [OF e(1), of r] that by simp_all
    then show ?thesis using assms(1,2) that round_up_word [OF _ e, of r] by (simp add: running_ok_def layout_matches_def)
  qed
  then show "fst (layout_next_field_offset w fl (sd_is_union decl) (sd_is_packed decl)) = of_nat (place decl r a)"
    and "running_ok decl (snd (layout_next_field_offset w fl (sd_is_union decl) (sd_is_packed decl))) (next_raw decl r s a)"
    by (auto simp: layout_next_field_offset_def Let_def off running_ok_def)
qed

lemma running_ok_big: "\<not> r < 2 ^ 63 \<Longrightarrow> running_ok decl w r"
  by (simp add: running_ok_def)

text \<open>What a search may answer: nothing, when the checker finds nothing, or the field the checker
  finds, below the limit.\<close>

definition answers :: "checker \<Rightarrow> u64 \<Rightarrow> nat \<Rightarrow> field_layout option \<Rightarrow> param option \<Rightarrow> bool" where
  "answers ck base lim r fo \<longleftrightarrow>
     (case r of None \<Rightarrow> fo = None
      | Some fl \<Rightarrow> (\<exists>f off s a. fo = Some f \<and> fo_type fl = pa_type f \<and> sysv ck (pa_type f) s a
           \<and> off + s \<le> lim \<and> (lim < 2 ^ 63 \<longrightarrow> fo_offset fl = base + of_nat off)))"

lemma answersI:
  "sysv ck (pa_type f) s a \<Longrightarrow> off + s \<le> lim \<Longrightarrow> (lim < 2 ^ 63 \<longrightarrow> w = base + of_nat off)
    \<Longrightarrow> answers ck base lim (Some \<lparr>fo_offset = w, fo_type = pa_type f\<rparr>) (Some f)"
  by (auto simp: answers_def)

definition finds :: "checker \<Rightarrow> u64 \<Rightarrow> nat \<Rightarrow> (nat \<Rightarrow> (field_layout option \<times> layout_cache) option) \<Rightarrow> param option \<Rightarrow> bool" where
  "finds ck base lim f fo \<longleftrightarrow>
     (\<exists>res c. settles f (res, c) \<and> cache_ok ck {} c \<and> answers ck base lim res fo)"

lemma findsI: "settles f (res, c) \<Longrightarrow> cache_ok ck {} c \<Longrightarrow> answers ck base lim res fo \<Longrightarrow> finds ck base lim f fo"
  by (auto simp: finds_def)

lemma findsE:
  assumes "finds ck base lim f fo"
  obtains res c where "settles f (res, c)" "cache_ok ck {} c" "answers ck base lim res fo"
  using assms by (auto simp: finds_def)

lemma clear_of_empty: "clear_of ck {} t"
  by (simp add: clear_of_def)

lemma field_layout_settles:
  assumes "sysv ck t s a" "cache_ok ck {} cache"
  shows "\<exists>fl c. settles (\<lambda>n. layout_of n ck t cache) (fl, c) \<and> layout_matches fl s a \<and> cache_ok ck {} c"
  using layout_of_sysv(1) [OF assms clear_of_empty] by (auto simp: computes_def)

lemma raw_of_ge: "sysv_fields ck fs ls \<Longrightarrow> r \<le> raw_of decl r ls"
  using sysv_bounds(2) [of ck fs ls] raw_size_ge [of ls r] by blast

lemma place_within:
  assumes "0 < a" "sysv_fields ck fs ls"
  shows "place decl r a + s \<le> raw_of decl r ((s, a) # ls)"
  using raw_of_ge [OF assms(2), of "next_raw decl r s a" decl] unfolding raw_of_Cons
  by (auto simp: max_def split: if_splits)

lemma find_direct_ok:
  assumes "sysv_fields ck fs ls" "cache_ok ck {} cache" "running_ok decl w r"
  shows "finds ck base (raw_of decl r ls) (\<lambda>n. find_direct n ck decl fs name base w cache) (find (hits name) fs)"
  using assms
proof (induction fs arbitrary: ls cache w r)
  case Nil
  have "settles (\<lambda>n. find_direct n ck decl [] name base w cache) (None, cache)" by (simp add: settles_def)
  then show ?case using Nil(2) by (rule findsI) (simp add: answers_def)
next
  case (Cons f fs)
  obtain s a ls' where ls: "ls = (s, a) # ls'" and f: "sysv ck (pa_type f) s a" and fs: "sysv_fields ck fs ls'"
    using Cons.prems(1) by (cases ls) auto
  note b = sysv_bounds(1) [OF f]
  obtain fl c1 where fl: "settles (\<lambda>n. layout_of n ck (pa_type f) cache) (fl, c1)" "layout_matches fl s a" "cache_ok ck {} c1"
    using field_layout_settles [OF f Cons.prems(2)] by blast
  define off run where "off = fst (layout_next_field_offset w fl (sd_is_union decl) (sd_is_packed decl))"
    and "run = snd (layout_next_field_offset w fl (sd_is_union decl) (sd_is_packed decl))"
  have lim: "next_raw decl r s a \<le> raw_of decl r ls" unfolding ls raw_of_Cons by (rule raw_of_ge [OF fs])
  have nxt: "next_raw decl r s a < 2 ^ 63 \<Longrightarrow> off = of_nat (place decl r a)" "running_ok decl run (next_raw decl r s a)"
    using next_offset_ok [OF Cons.prems(3) fl(2)] b running_ok_big unfolding off_def run_def by blast+
  show ?case
  proof (cases "hits name f")
    case True
    let ?fo = "\<lparr>fo_offset = base + off, fo_type = pa_type f\<rparr>"
    have "settles (\<lambda>n. find_direct n ck decl (f # fs) name base w cache) (Some ?fo, c1)"
      by (rule settles_at [OF fl(1) fl(1)]) (use True in \<open>simp add: hits_def off_def split_beta\<close>)
    moreover have "answers ck base (raw_of decl r ls) (Some ?fo) (Some f)"
      using f place_within [OF _ fs, of a decl r s] b nxt(1) lim unfolding ls by (intro answersI) auto
    ultimately have "finds ck base (raw_of decl r ls) (\<lambda>n. find_direct n ck decl (f # fs) name base w cache) (Some f)"
      by (intro findsI [OF _ fl(3)])
    then show ?thesis using True by (simp del: find_direct.simps)
  next
    case False
    obtain res c where h: "settles (\<lambda>n. find_direct n ck decl fs name base run c1) (res, c)" "cache_ok ck {} c"
      "answers ck base (raw_of decl (next_raw decl r s a) ls') res (find (hits name) fs)"
      using Cons.IH [OF fs fl(3) nxt(2)] by (rule findsE)
    have "settles (\<lambda>n. find_direct n ck decl (f # fs) name base w cache) (res, c)"
      by (rule settles_at [OF fl(1) h(1)]) (use False in \<open>auto simp: hits_def run_def split_beta\<close>)
    then have "finds ck base (raw_of decl r ls) (\<lambda>n. find_direct n ck decl (f # fs) name base w cache) (find (hits name) fs)"
      using h(2,3) unfolding ls raw_of_Cons by (rule findsI)
    then show ?thesis using False by (simp del: find_direct.simps)
  qed
qed

section \<open>Anonymous members\<close>

text \<open>A search that starts at offset \<open>off\<close> of the outer struct.\<close>

lemma answers_shift:
  assumes "answers ck (base + w) lim res fo" "lim + off \<le> lim'" "lim' < 2 ^ 63 \<longrightarrow> w = of_nat off"
  shows "answers ck base lim' res fo"
proof (cases res)
  case (Some fl)
  then obtain f o' s a where f: "fo = Some f" "fo_type fl = pa_type f" "sysv ck (pa_type f) s a" "o' + s \<le> lim"
    "lim < 2 ^ 63 \<longrightarrow> fo_offset fl = base + w + of_nat o'" using assms(1) by (auto simp: answers_def)
  have "lim' < 2 ^ 63 \<longrightarrow> fo_offset fl = base + of_nat (off + o')" using f(5) assms(2,3) by auto
  moreover have "off + o' + s \<le> lim'" using f(4) assms(2) by simp
  ultimately show ?thesis
    unfolding Some answers_def option.case using f(1-3)
    by (intro exI [of _ f] exI [of _ "off + o'"] exI [of _ s] exI [of _ a]) simp
qed (use assms(1) in \<open>simp add: answers_def\<close>)

lemma answers_mono: "answers ck base lim res fo \<Longrightarrow> lim \<le> lim' \<Longrightarrow> answers ck base lim' res fo"
  using answers_shift [of ck base 0 lim res fo 0 lim'] by simp

text \<open>The checker's search, once its bound is large enough.\<close>

abbreviation checker_finds :: "checker \<Rightarrow> struct_decl \<Rightarrow> string \<Rightarrow> param option \<Rightarrow> bool" where
  "checker_finds ck decl name fo \<equiv> settles (\<lambda>n. Some (find_field_recursive n ck decl name)) fo"

text \<open>What holds of a struct: both searches settle and agree.\<close>

definition agree :: "checker \<Rightarrow> struct_decl \<Rightarrow> string \<Rightarrow> bool" where
  "agree ck decl name \<longleftrightarrow>
     (\<forall>ls base cache. sysv_fields ck (sd_fields decl) ls \<longrightarrow> cache_ok ck {} cache \<longrightarrow>
        (\<exists>fo. checker_finds ck decl name fo
          \<and> finds ck base (raw_of decl 0 ls) (\<lambda>n. layout_find_field n ck decl name base cache) fo))"

text \<open>The second pass over a list of fields, and its steps over the first of them.\<close>

definition anon_result :: "checker \<Rightarrow> struct_decl \<Rightarrow> param list \<Rightarrow> string \<Rightarrow> u64 \<Rightarrow> nat \<Rightarrow> u64 \<Rightarrow> layout_cache \<Rightarrow> bool" where
  "anon_result ck decl fs name base lim w cache \<longleftrightarrow>
     (\<exists>fo. settles (\<lambda>n. Some (find_anon_field n ck fs name)) fo
        \<and> finds ck base lim (\<lambda>n. find_in_anon n ck decl fs name base w cache) fo)"

abbreviation next_run :: "struct_decl \<Rightarrow> u64 \<Rightarrow> layout \<Rightarrow> u64 \<times> u64" where
  "next_run decl w fl \<equiv> layout_next_field_offset w fl (sd_is_union decl) (sd_is_packed decl)"

lemma anon_skip:
  assumes fl: "settles (\<lambda>n. layout_of n ck (pa_type f) cache) (fl, c1)"
    and f: "\<not> (pa_is_anon f \<and> tr_kind (pa_type f) = TypeKind_Named \<and> struct_table_lookup ck (tr_name (pa_type f)) \<noteq> None)"
    and rest: "anon_result ck decl fs name base lim (snd (next_run decl w fl)) c1"
  shows "anon_result ck decl (f # fs) name base lim w cache"
proof -
  obtain fo where fo: "settles (\<lambda>n. Some (find_anon_field n ck fs name)) fo"
    "finds ck base lim (\<lambda>n. find_in_anon n ck decl fs name base (snd (next_run decl w fl)) c1) fo"
    using rest unfolding anon_result_def by blast
  obtain res c where h: "settles (\<lambda>n. find_in_anon n ck decl fs name base (snd (next_run decl w fl)) c1) (res, c)"
    "cache_ok ck {} c" "answers ck base lim res fo" using fo(2) by (rule findsE)
  have "settles (\<lambda>n. find_in_anon n ck decl (f # fs) name base w cache) (res, c)"
    by (rule settles_at [OF fl h(1)]) (use f in \<open>auto simp: split_beta split: option.split\<close>)
  moreover have "settles (\<lambda>n. Some (find_anon_field n ck (f # fs) name)) fo"
    by (rule settles_at [OF fo(1) fo(1)]) (use f in \<open>auto split: option.split\<close>)
  ultimately show ?thesis using findsI [OF _ h(2,3)] unfolding anon_result_def by blast
qed

lemma anon_found:
  assumes fl: "settles (\<lambda>n. layout_of n ck (pa_type f) cache) (fl, c1)"
    and f: "pa_is_anon f" "tr_kind (pa_type f) = TypeKind_Named" "struct_table_lookup ck (tr_name (pa_type f)) = Some d"
    and fo: "checker_finds ck d name (Some found)"
    and h: "settles (\<lambda>n. layout_find_field n ck d name (base + fst (next_run decl w fl)) c1) (Some fl', c)"
    and c: "cache_ok ck {} c" "answers ck base lim (Some fl') (Some found)"
  shows "anon_result ck decl (f # fs) name base lim w cache"
proof -
  have "settles (\<lambda>n. find_in_anon n ck decl (f # fs) name base w cache) (Some fl', c)"
    by (rule settles_at [OF fl h]) (use f in \<open>simp add: split_beta\<close>)
  moreover have "settles (\<lambda>n. Some (find_anon_field n ck (f # fs) name)) (Some found)"
    by (rule settles_at [OF fo fo]) (use f in simp)
  ultimately show ?thesis using findsI [OF _ c] unfolding anon_result_def by blast
qed

lemma anon_missed:
  assumes fl: "settles (\<lambda>n. layout_of n ck (pa_type f) cache) (fl, c1)"
    and f: "pa_is_anon f" "tr_kind (pa_type f) = TypeKind_Named" "struct_table_lookup ck (tr_name (pa_type f)) = Some d"
    and fo: "checker_finds ck d name None"
    and h: "settles (\<lambda>n. layout_find_field n ck d name (base + fst (next_run decl w fl)) c1) (None, c)"
    and rest: "anon_result ck decl fs name base lim (snd (next_run decl w fl)) c"
  shows "anon_result ck decl (f # fs) name base lim w cache"
proof -
  obtain fo' where fo': "settles (\<lambda>n. Some (find_anon_field n ck fs name)) fo'"
    "finds ck base lim (\<lambda>n. find_in_anon n ck decl fs name base (snd (next_run decl w fl)) c) fo'"
    using rest unfolding anon_result_def by blast
  obtain res c' where h': "settles (\<lambda>n. find_in_anon n ck decl fs name base (snd (next_run decl w fl)) c) (res, c')"
    "cache_ok ck {} c'" "answers ck base lim res fo'" using fo'(2) by (rule findsE)
  have "settles (\<lambda>n. find_in_anon n ck decl (f # fs) name base w cache) (res, c')"
    by (rule settles_at [OF settles_pair [OF fl h] h'(1)])
      (use f in \<open>auto simp: split_beta split: option.splits\<close>)
  moreover have "settles (\<lambda>n. Some (find_anon_field n ck (f # fs) name)) fo'"
    by (rule settles_at [OF fo fo'(1)]) (use f in simp)
  ultimately show ?thesis using findsI [OF _ h'(2,3)] unfolding anon_result_def by blast
qed

lemma anon_ok:
  assumes "sysv_fields ck fs ls" "cache_ok ck {} cache" "running_ok decl w r"
    and "\<forall>f\<in>set fs. \<forall>d. tr_kind (pa_type f) = TypeKind_Named \<and>
      struct_table_lookup ck (tr_name (pa_type f)) = Some d \<longrightarrow> agree ck d name"
  shows "anon_result ck decl fs name base (raw_of decl r ls) w cache"
  using assms
proof (induction fs arbitrary: ls cache w r)
  case Nil
  have "settles (\<lambda>n. find_in_anon n ck decl [] name base w cache) (None, cache)" by (simp add: settles_def)
  then have "finds ck base (raw_of decl r ls) (\<lambda>n. find_in_anon n ck decl [] name base w cache) None"
    using Nil(2) by (rule findsI) (simp add: answers_def)
  moreover have "settles (\<lambda>n. Some (find_anon_field n ck [] name)) None" by (simp add: settles_def)
  ultimately show ?case unfolding anon_result_def by blast
next
  case (Cons f fs)
  obtain s a ls' where ls: "ls = (s, a) # ls'" and f: "sysv ck (pa_type f) s a" and fs: "sysv_fields ck fs ls'"
    using Cons.prems(1) by (cases ls) auto
  note b = sysv_bounds(1) [OF f]
  obtain fl c1 where fl: "settles (\<lambda>n. layout_of n ck (pa_type f) cache) (fl, c1)" "layout_matches fl s a" "cache_ok ck {} c1"
    using field_layout_settles [OF f Cons.prems(2)] by blast
  have lim: "next_raw decl r s a \<le> raw_of decl r ls" unfolding ls raw_of_Cons by (rule raw_of_ge [OF fs])
  have nxt: "next_raw decl r s a < 2 ^ 63 \<Longrightarrow> fst (next_run decl w fl) = of_nat (place decl r a)"
    "running_ok decl (snd (next_run decl w fl)) (next_raw decl r s a)"
    using next_offset_ok [OF Cons.prems(3) fl(2)] b running_ok_big by blast+
  have rest: "anon_result ck decl fs name base (raw_of decl r ls) (snd (next_run decl w fl)) c" if "cache_ok ck {} c" for c
    using Cons.IH [OF fs that nxt(2)] Cons.prems(4) unfolding ls raw_of_Cons by simp
  show ?case
  proof (cases "pa_is_anon f \<and> tr_kind (pa_type f) = TypeKind_Named \<and> struct_table_lookup ck (tr_name (pa_type f)) \<noteq> None")
    case False
    show ?thesis by (rule anon_skip [OF fl(1) False rest [OF fl(3)]])
  next
    case True
    then obtain d where d: "struct_table_lookup ck (tr_name (pa_type f)) = Some d" by auto
    have k: "pa_is_anon f" "tr_kind (pa_type f) = TypeKind_Named" using True by simp_all
    obtain nls where nls: "s = struct_size d nls" "a = struct_align d nls" "sysv_fields ck (sd_fields d) nls"
      using sysv_inv(3) [OF f k(2) d] by blast
    have "agree ck d name" using Cons.prems(4) k(2) d by simp
    then obtain fo where fo: "checker_finds ck d name fo" "finds ck (base + fst (next_run decl w fl)) (raw_of d 0 nls)
        (\<lambda>n. layout_find_field n ck d name (base + fst (next_run decl w fl)) c1) fo"
      using nls(3) fl(3) unfolding agree_def by blast
    obtain res c where h: "settles (\<lambda>n. layout_find_field n ck d name (base + fst (next_run decl w fl)) c1) (res, c)" "cache_ok ck {} c"
      "answers ck (base + fst (next_run decl w fl)) (raw_of d 0 nls) res fo"
      using fo(2) by (rule findsE)
    have "raw_of d 0 nls \<le> s" using up_ge [of "struct_align d nls"] b nls(1,2) by (simp add: struct_size_def)
    then have ans: "answers ck base (raw_of decl r ls) res fo"
      using place_within [OF _ fs, of a decl r s] b nxt(1) lim
      by (intro answers_shift [OF h(3), where off = "place decl r a"]) (auto simp: ls)
    show ?thesis
    proof (cases fo)
      case (Some found)
      then obtain fl' where r: "res = Some fl'" using h(3) by (auto simp: answers_def split: option.splits)
      show ?thesis by (rule anon_found [OF fl(1) k d fo(1) [unfolded Some] h(1) [unfolded r] h(2) ans [unfolded r Some]])
    next
      case None
      then have r: "res = None" using h(3) by (auto simp: answers_def split: option.splits)
      show ?thesis by (rule anon_missed [OF fl(1) k d fo(1) [unfolded None] h(1) [unfolded r] rest [OF h(2)]])
    qed
  qed
qed

section \<open>The whole search\<close>

lemma hits_eq: "hits name = (\<lambda>f. \<not> pa_is_anon f \<and> pa_name f = name)"
  by (simp add: hits_def fun_eq_iff)

lemma checker_finds_direct:
  "find (hits name) (sd_fields decl) = Some f \<Longrightarrow> checker_finds ck decl name (Some f)"
  by (rule settlesI) (simp add: hits_eq)

lemma checker_finds_anon:
  assumes "find (hits name) (sd_fields decl) = None"
    and "settles (\<lambda>n. Some (find_anon_field n ck (sd_fields decl) name)) fo"
  shows "checker_finds ck decl name fo"
  by (rule settles_Suc [OF assms(2)]) (use assms(1) in \<open>simp add: hits_eq\<close>)

lemma struct_agrees:
  assumes "\<And>f d. f \<in> set (sd_fields decl) \<Longrightarrow> tr_kind (pa_type f) = TypeKind_Named \<Longrightarrow>
      struct_table_lookup ck (tr_name (pa_type f)) = Some d \<Longrightarrow> agree ck d name"
  shows "agree ck decl name"
  unfolding agree_def
proof (intro allI impI)
  fix ls base cache assume ls: "sysv_fields ck (sd_fields decl) ls" and c: "cache_ok ck {} cache"
  have run: "running_ok decl 0 0" by (simp add: running_ok_def)
  obtain res c1 where d: "settles (\<lambda>n. find_direct n ck decl (sd_fields decl) name base 0 cache) (res, c1)"
    "cache_ok ck {} c1" "answers ck base (raw_of decl 0 ls) res (find (hits name) (sd_fields decl))"
    using find_direct_ok [OF ls c run] by (rule findsE)
  show "\<exists>fo. checker_finds ck decl name fo
      \<and> finds ck base (raw_of decl 0 ls) (\<lambda>n. layout_find_field n ck decl name base cache) fo"
  proof (cases "find (hits name) (sd_fields decl)")
    case (Some f)
    then obtain fl where r: "res = Some fl" using d(3) by (auto simp: answers_def split: option.splits)
    have "settles (\<lambda>n. layout_find_field n ck decl name base cache) (res, c1)"
      by (rule settles_Suc [OF d(1)]) (simp add: r)
    then show ?thesis using findsI [OF _ d(2,3)] checker_finds_direct [OF Some] unfolding Some by blast
  next
    case None
    then have r: "res = None" using d(3) by (auto simp: answers_def split: option.splits)
    have "anon_result ck decl (sd_fields decl) name base (raw_of decl 0 ls) 0 c1"
      using assms by (intro anon_ok [OF ls d(2) run]) blast
    then obtain fo where fo: "settles (\<lambda>n. Some (find_anon_field n ck (sd_fields decl) name)) fo"
      "finds ck base (raw_of decl 0 ls) (\<lambda>n. find_in_anon n ck decl (sd_fields decl) name base 0 c1) fo"
      unfolding anon_result_def by blast
    obtain res' c' where h: "settles (\<lambda>n. find_in_anon n ck decl (sd_fields decl) name base 0 c1) (res', c')"
      "cache_ok ck {} c'" "answers ck base (raw_of decl 0 ls) res' fo" using fo(2) by (rule findsE)
    have "settles (\<lambda>n. layout_find_field n ck decl name base cache) (res', c')"
      by (rule settles_both [OF d(1) h(1)]) (simp add: r)
    then show ?thesis using findsI [OF _ h(2,3)] checker_finds_anon [OF None fo(1)] by blast
  qed
qed

lemma accepted_agrees:
  assumes "accepted ck"
  shows "struct_table_lookup ck x = Some d \<Longrightarrow> agree ck d name"
  using accepted_grounded [OF assms, of x]
proof (induction x arbitrary: d rule: accp_induct_rule)
  case (1 x)
  show ?case
  proof (rule struct_agrees)
    fix f e assume "f \<in> set (sd_fields d)" "tr_kind (pa_type f) = TypeKind_Named"
      "struct_table_lookup ck (tr_name (pa_type f)) = Some e"
    then show "agree ck e name"
      using 1(2) [of "tr_name (pa_type f)" e] 1(3) core_name_named by (auto simp: embeds_def)
  qed
qed

text \<open>C12: in an accepted package the layout code and the checker resolve a field name alike, direct
  fields before those of anonymous members, and the offset reported keeps the field inside the struct.\<close>

theorem field_offset_agrees:
  assumes "accepted ck" and "struct_table_lookup ck x = Some decl" and "cache_ok ck {} cache"
  shows "\<exists>ls fo res c. sysv_fields ck (sd_fields decl) ls
    \<and> settles (\<lambda>n. Some (find_field_recursive n ck decl name)) fo
    \<and> settles (\<lambda>n. layout_field_offset n ck decl name cache) (res, c)
    \<and> answers ck 0 (struct_size decl ls) res fo"
proof -
  obtain ls where ls: "sysv_fields ck (sd_fields decl) ls"
    using accepted_struct_layout [OF assms(1), of x] assms(2) by auto
  have "agree ck decl name" by (rule accepted_agrees [OF assms(1,2)])
  then obtain fo where fo: "checker_finds ck decl name fo"
    "finds ck 0 (raw_of decl 0 ls) (\<lambda>n. layout_find_field n ck decl name 0 cache) fo"
    using ls assms(3) unfolding agree_def by blast
  obtain res c where h: "settles (\<lambda>n. layout_find_field n ck decl name 0 cache) (res, c)"
    "answers ck 0 (raw_of decl 0 ls) res fo" using fo(2) by (rule findsE)
  have "0 < struct_align decl ls" using sysv_bounds(2) [OF ls] struct_align_bounds [of ls decl] by blast
  then have "raw_of decl 0 ls \<le> struct_size decl ls" by (simp add: struct_size_def up_ge)
  from answers_mono [OF h(2) this] show ?thesis
    using ls fo(1) h(1) by (auto simp: layout_field_offset_def)
qed

section \<open>Apart from each other\<close>

lemma offsets_union_start: "offsets True p r ls = offsets True p r' ls"
  by (induction ls) auto

lemma find_direct_at:
  assumes "sysv_fields ck fs ls" "cache_ok ck {} cache" "running_ok decl w r" "raw_of decl r ls < 2 ^ 63"
    and "i < length fs" "hits name (fs ! i)" "\<forall>k<i. \<not> hits name (fs ! k)"
  shows "\<exists>c. settles (\<lambda>n. find_direct n ck decl fs name base w cache)
      (Some \<lparr>fo_offset = base + of_nat (offsets (sd_is_union decl) (sd_is_packed decl) r ls ! i), fo_type = pa_type (fs ! i)\<rparr>, c)"
  using assms
proof (induction fs arbitrary: ls cache w r i)
  case (Cons f fs)
  obtain s a ls' where ls: "ls = (s, a) # ls'" and f: "sysv ck (pa_type f) s a" and fs: "sysv_fields ck fs ls'"
    using Cons.prems(1) by (cases ls) auto
  note b = sysv_bounds(1) [OF f]
  obtain fl c1 where fl: "settles (\<lambda>n. layout_of n ck (pa_type f) cache) (fl, c1)" "layout_matches fl s a" "cache_ok ck {} c1"
    using field_layout_settles [OF f Cons.prems(2)] by blast
  have small: "next_raw decl r s a < 2 ^ 63"
    using raw_of_ge [OF fs, of "next_raw decl r s a" decl] Cons.prems(4) unfolding ls raw_of_Cons by (rule le_less_trans)
  have nxt: "fst (next_run decl w fl) = of_nat (place decl r a)" "running_ok decl (snd (next_run decl w fl)) (next_raw decl r s a)"
    using next_offset_ok [OF Cons.prems(3) fl(2) _ _ small] b by blast+
  show ?case
  proof (cases i)
    case 0
    have "settles (\<lambda>n. find_direct n ck decl (f # fs) name base w cache)
        (Some \<lparr>fo_offset = base + of_nat (place decl r a), fo_type = pa_type f\<rparr>, c1)"
      by (rule settles_at [OF fl(1) fl(1)]) (use Cons.prems(6) 0 nxt(1) in \<open>simp add: hits_def split_beta\<close>)
    then show ?thesis using 0 ls by (auto simp del: find_direct.simps)
  next
    case (Suc j)
    have lim: "raw_of decl (next_raw decl r s a) ls' < 2 ^ 63" using Cons.prems(4) unfolding ls raw_of_Cons .
    have "j < length fs" "hits name (fs ! j)" "\<forall>k<j. \<not> hits name (fs ! k)" "\<not> hits name f"
      using Cons.prems(5-7) Suc by auto
    from Cons.IH [OF fs fl(3) nxt(2) lim this(1-3)] this(4) obtain c where
      h: "settles (\<lambda>n. find_direct n ck decl fs name base (snd (next_run decl w fl)) c1)
        (Some \<lparr>fo_offset = base + of_nat (offsets (sd_is_union decl) (sd_is_packed decl) (next_raw decl r s a) ls' ! j),
           fo_type = pa_type (fs ! j)\<rparr>, c)" and no: "\<not> hits name f" by blast
    have "offsets (sd_is_union decl) (sd_is_packed decl) r ls ! i
        = offsets (sd_is_union decl) (sd_is_packed decl) (next_raw decl r s a) ls' ! j"
      using Suc ls offsets_union_start [of "sd_is_packed decl" r ls' "max r s"] by simp
    moreover have "settles (\<lambda>n. find_direct n ck decl (f # fs) name base w cache)
        (Some \<lparr>fo_offset = base + of_nat (offsets (sd_is_union decl) (sd_is_packed decl) (next_raw decl r s a) ls' ! j),
           fo_type = pa_type (fs ! j)\<rparr>, c)"
      by (rule settles_at [OF fl(1) h]) (use no in \<open>auto simp: hits_def split_beta\<close>)
    ultimately show ?thesis using Suc by (auto simp del: find_direct.simps)
  qed
qed simp

lemma field_offset_direct:
  assumes ck: "accepted ck" "struct_table_lookup ck x = Some decl" "cache_ok ck {} cache"
    and ls: "sysv_fields ck (sd_fields decl) ls" "struct_size decl ls < 2 ^ 63"
    and i: "i < length ls" "\<not> pa_is_anon (sd_fields decl ! i)"
      "\<forall>k<i. pa_name (sd_fields decl ! k) \<noteq> pa_name (sd_fields decl ! i)"
  shows "\<exists>c. settles (\<lambda>n. layout_field_offset n ck decl (pa_name (sd_fields decl ! i)) cache)
    (Some \<lparr>fo_offset = of_nat (offsets (sd_is_union decl) (sd_is_packed decl) 0 ls ! i),
      fo_type = pa_type (sd_fields decl ! i)\<rparr>, c)"
proof -
  have "0 < struct_align decl ls" using sysv_bounds(2) [OF ls(1)] struct_align_bounds [of ls decl] by blast
  then have raw: "raw_of decl 0 ls < 2 ^ 63" using ls(2) up_ge le_less_trans unfolding struct_size_def by blast
  have len: "length ls = length (sd_fields decl)" using sysv_bounds(2) [OF ls(1)] by blast
  have run: "running_ok decl 0 0" by (simp add: running_ok_def)
  have h: "hits (pa_name (sd_fields decl ! i)) (sd_fields decl ! i)" "i < length (sd_fields decl)"
    "\<forall>k<i. \<not> hits (pa_name (sd_fields decl ! i)) (sd_fields decl ! k)"
    using i len by (auto simp: hits_eq)
  obtain c where c: "settles (\<lambda>n. find_direct n ck decl (sd_fields decl) (pa_name (sd_fields decl ! i)) 0 0 cache)
      (Some \<lparr>fo_offset = 0 + of_nat (offsets (sd_is_union decl) (sd_is_packed decl) 0 ls ! i),
        fo_type = pa_type (sd_fields decl ! i)\<rparr>, c)"
    using find_direct_at [OF ls(1) ck(3) run raw h(2,1,3)] by blast
  have "settles (\<lambda>n. layout_field_offset n ck decl (pa_name (sd_fields decl ! i)) cache)
      (Some \<lparr>fo_offset = 0 + of_nat (offsets (sd_is_union decl) (sd_is_packed decl) 0 ls ! i),
        fo_type = pa_type (sd_fields decl ! i)\<rparr>, c)"
    by (rule settles_Suc [OF c]) (simp add: layout_field_offset_def)
  then show ?thesis by auto
qed

text \<open>C11: in an accepted struct of less than \<^verbatim>\<open>2^63\<close> bytes that is no union, the offsets reported for two
  fields keep them apart in declaration order, aligned as the attributes of the struct ask, and inside it.\<close>

theorem fields_do_not_overlap:
  assumes "accepted ck" and "struct_table_lookup ck x = Some decl" and "\<not> sd_is_union decl" and "cache_ok ck {} cache"
    and "sysv_fields ck (sd_fields decl) ls" and "struct_size decl ls < 2 ^ 63" and "i < j" and "j < length ls"
    and "\<not> pa_is_anon (sd_fields decl ! i)" and "\<not> pa_is_anon (sd_fields decl ! j)"
    and "\<forall>k<i. pa_name (sd_fields decl ! k) \<noteq> pa_name (sd_fields decl ! i)"
    and "\<forall>k<j. pa_name (sd_fields decl ! k) \<noteq> pa_name (sd_fields decl ! j)"
  shows "\<exists>p q c c'. settles (\<lambda>n. layout_field_offset n ck decl (pa_name (sd_fields decl ! i)) cache) (Some p, c)
    \<and> settles (\<lambda>n. layout_field_offset n ck decl (pa_name (sd_fields decl ! j)) cache) (Some q, c')
    \<and> unat (fo_offset p) + fst (ls ! i) \<le> unat (fo_offset q)
    \<and> unat (fo_offset q) + fst (ls ! j) \<le> struct_size decl ls
    \<and> eff_align (sd_is_packed decl) (snd (ls ! j)) dvd unat (fo_offset q)"
proof -
  let ?o = "\<lambda>i. offsets False (sd_is_packed decl) 0 ls ! i"
  have u: "sd_is_union decl = False" using assms(3) by simp
  have pos: "\<forall>l\<in>set ls. 0 < snd l" using sysv_bounds(2) [OF assms(5)] by blast
  have "0 < struct_align decl ls" using sysv_bounds(2) [OF assms(5)] struct_align_bounds [of ls decl] by blast
  then have raw: "raw_size False (sd_is_packed decl) 0 ls \<le> struct_size decl ls"
    unfolding struct_size_def u by (rule up_ge)
  have at: "?o k + fst (ls ! k) \<le> struct_size decl ls \<and> eff_align (sd_is_packed decl) (snd (ls ! k)) dvd ?o k
      \<and> unat (of_nat (?o k) :: u64) = ?o k" if "k < length ls" for k
    using field_place [OF pos that, of False 0 "sd_is_packed decl"] raw assms(6) by (auto intro!: unat_of_nat_u64)
  have "?o i + fst (ls ! i) \<le> ?o j" using fields_apart [OF pos assms(7,8)] .
  then show ?thesis
    using field_offset_direct [OF assms(1,2,4,5,6) _ assms(9,11)] field_offset_direct [OF assms(1,2,4,5,6,8,10,12)]
      at [OF assms(8)] at [of i] assms(7,8) unfolding u by fastforce
qed

section \<open>Example\<close>

definition demo_pair :: struct_decl where
  "demo_pair = \<lparr>sd_name = ''P'',
     sd_fields = [\<lparr>pa_name = ''a'', pa_type = type_ref_of_kind TypeKind_I8, pa_is_anon = False\<rparr>,
                  \<lparr>pa_name = ''b'', pa_type = type_ref_of_kind TypeKind_I32, pa_is_anon = False\<rparr>],
     sd_is_packed = False, sd_align_bytes = 0, sd_is_union = False\<rparr>"

lemma demo_accepted: "\<exists>ck. accepted ck \<and> struct_table_lookup ck ''P'' = Some demo_pair \<and> ck_structs ck = [demo_pair]"
proof -
  obtain ck where ck: "declare_types [demo_pair] [] = Some ([], ck)" "ck_structs ck = [demo_pair]" "ck_enums ck = []"
    using declare_types_distinct [of "[demo_pair]" "[]"] by auto
  then have d: "declared ck" by (simp add: declared_def)
  have "check_struct_cycles ck = Some []"
    by (simp add: check_struct_cycles_def ck(2) demo_pair_def struct_embeds_by_value.simps)
  then have "accepted ck" using d by (simp add: accepted_def ck(2)) (simp add: demo_pair_def scalar_layout_def)
  moreover have "struct_table_lookup ck ''P'' = Some demo_pair"
    by (simp add: struct_lookup_iff [OF d] ck(2)) (simp add: demo_pair_def)
  ultimately show ?thesis using ck(2) by blast
qed

lemma demo_layouts: "sysv_fields ck (sd_fields demo_pair) [(1, 1), (4, 4)]"
  using sysv_sysv_fields.Scalar [of "type_ref_of_kind TypeKind_I8" "layout_pair 1 1" ck]
    sysv_sysv_fields.Scalar [of "type_ref_of_kind TypeKind_I32" "layout_pair 4 4" ck]
  by (simp add: demo_pair_def scalar_layout_def layout_pair_def)

lemma demo_size: "struct_size demo_pair [(1, 1), (4, 4)] = 8"
  by code_simp

lemma fields_do_not_overlap_witness:
  "\<exists>ck p q c c'. struct_table_lookup ck ''P'' = Some demo_pair
     \<and> settles (\<lambda>n. layout_field_offset n ck demo_pair ''a'' layout_cache_init) (Some p, c)
     \<and> settles (\<lambda>n. layout_field_offset n ck demo_pair ''b'' layout_cache_init) (Some q, c')
     \<and> unat (fo_offset p) + 1 \<le> unat (fo_offset q) \<and> unat (fo_offset q) + 4 \<le> 8 \<and> 4 dvd unat (fo_offset q)"
proof -
  obtain ck where ck: "accepted ck" "struct_table_lookup ck ''P'' = Some demo_pair" using demo_accepted by blast
  have "\<not> sd_is_union demo_pair" by (simp add: demo_pair_def)
  from fields_do_not_overlap [OF ck this cache_ok_init demo_layouts, of 0 1] show ?thesis
    using ck(2) unfolding demo_size by (auto simp: demo_pair_def eff_align_def)
qed

lemma field_offset_agrees_witness:
  "\<exists>ck ls fo res c. sysv_fields ck (sd_fields demo_pair) ls
    \<and> settles (\<lambda>n. Some (find_field_recursive n ck demo_pair ''b'')) fo
    \<and> settles (\<lambda>n. layout_field_offset n ck demo_pair ''b'' layout_cache_init) (res, c)
    \<and> answers ck 0 (struct_size demo_pair ls) res fo"
  using demo_accepted field_offset_agrees [OF _ _ cache_ok_init, where name = "''b''"] by blast

lemma layout_follows_sysv_witness:
  "\<exists>ck s a. sysv ck (TypeRef TypeKind_Named ''P'' None None 0 [] False [] None) s a
    \<and> computes ck {} (\<lambda>n. layout_of n ck (TypeRef TypeKind_Named ''P'' None None 0 [] False [] None) layout_cache_init) s a"
proof -
  obtain ck where ck: "accepted ck" "struct_table_lookup ck ''P'' = Some demo_pair" using demo_accepted by blast
  then have "type_sized ck (TypeRef TypeKind_Named ''P'' None None 0 [] False [] None)" by simp
  from layout_follows_sysv [OF ck(1) this cache_ok_init] show ?thesis by blast
qed

end
