(* ===== verification/Json.thy ===== *)
theory Json
  imports Prelude
begin

text \<open>
  \<^verbatim>\<open>lsp/json.c\<close>: the value trees of the language server, their parser and their writer.  Texts are
  byte strings as characters.  A string value is what C sees of it, the bytes before the first NUL.
  Numbers are doubles, written out as sign, mantissa and exponent; \<^verbatim>\<open>strtod\<close> and the two \<^verbatim>\<open>printf\<close>
  conversions are modelled as the C library computes them in the \<^verbatim>\<open>"C"\<close> locale with correct rounding.
\<close>

section \<open>Doubles\<close>

datatype double = Finite bool nat int | Infinite bool

text \<open>The finite ones are plus or minus \<open>m\<close> times two to the \<open>e\<close>.  \<open>ratio_pow2\<close> is the fraction
  \<open>n/d\<close> divided by two to the \<open>e\<close>, as a new fraction.\<close>

definition ratio_pow2 :: "nat \<Rightarrow> nat \<Rightarrow> int \<Rightarrow> nat \<times> nat" where
  "ratio_pow2 n d e = (if 0 \<le> e then (n, d * 2 ^ nat e) else (n * 2 ^ nat (- e), d))"

definition half_even :: "nat \<Rightarrow> nat \<Rightarrow> nat" where
  "half_even n d =
     (let q = n div d; r = n mod d
      in if 2 * r < d \<or> (2 * r = d \<and> even q) then q else q + 1)"

fun bit_length :: "nat \<Rightarrow> nat" where
  "bit_length n = (if n = 0 then 0 else Suc (bit_length (n div 2)))"

declare bit_length.simps [simp del]

text \<open>The exponent \<open>b\<close> with \<open>2^b\<close> at most \<open>n/d\<close> and \<open>2^(b+1)\<close> above it, for positive \<open>n\<close>.\<close>

definition binary_exponent :: "nat \<Rightarrow> nat \<Rightarrow> int" where
  "binary_exponent n d =
     (let b = int (bit_length n) - int (bit_length d); (n', d') = ratio_pow2 n d b
      in if d' \<le> n' then b else b - 1)"

text \<open>The double nearest to \<open>n/d\<close>, ties to even.\<close>

definition round_double :: "bool \<Rightarrow> nat \<Rightarrow> nat \<Rightarrow> double" where
  "round_double neg n d =
     (if n = 0 then Finite neg 0 0
      else let e = max (binary_exponent n d - 52) (- 1074);
               (n', d') = ratio_pow2 n d e;
               m = half_even n' d';
               (m, e) = (if m = 2 ^ 53 then (2 ^ 52, e + 1) else (m, e))
           in if 971 < e then Infinite neg else Finite neg m e)"

definition double_of_int :: "int \<Rightarrow> double" where
  "double_of_int i = round_double (i < 0) (nat \<bar>i\<bar>) 1"

section \<open>Reading a number\<close>

definition take_sign :: "string \<Rightarrow> bool \<times> string" where
  "take_sign s = (case s of c # cs \<Rightarrow> if c = CHR ''-'' then (True, cs) else if c = CHR ''+'' then (False, cs)
                    else (False, s) | [] \<Rightarrow> (False, []))"

text \<open>An exponent counts only when digits follow it.\<close>

definition take_exponent :: "string \<Rightarrow> int" where
  "take_exponent s =
     (case s of
        c # cs \<Rightarrow> if c = CHR ''e'' \<or> c = CHR ''E''
          then (let (neg, ds) = take_sign cs; ds = takeWhile is_digit_char ds
                in if ds = [] then 0 else if neg then - int (dec_value ds) else int (dec_value ds))
          else 0
      | [] \<Rightarrow> 0)"

text \<open>\<^verbatim>\<open>strtod\<close> on the characters \<^verbatim>\<open>parse_number\<close> collects; \<open>None\<close> where \<^verbatim>\<open>endptr\<close> stays at the start.\<close>

definition strtod :: "string \<Rightarrow> double option" where
  "strtod s0 =
     (let (neg, s) = take_sign s0;
          whole = takeWhile is_digit_char s; s = dropWhile is_digit_char s;
          dot = (s \<noteq> [] \<and> hd s = CHR ''.'');
          frac = (if dot then takeWhile is_digit_char (tl s) else []);
          s = (if dot then dropWhile is_digit_char (tl s) else s)
      in if whole = [] \<and> frac = [] then None
         else let e = take_exponent s - int (length frac); n = dec_value (whole @ frac)
              in Some (if 0 \<le> e then round_double neg (n * 10 ^ nat e) 1
                       else round_double neg n (10 ^ nat (- e))))"

section \<open>Writing a number\<close>

text \<open>The integer a double is, if it is one.\<close>

definition double_int :: "double \<Rightarrow> int option" where
  "double_int x =
     (case x of
        Infinite _ \<Rightarrow> None
      | Finite neg m e \<Rightarrow>
          (let (n, d) = ratio_pow2 m 1 (- e)
           in if n mod d = 0 then Some ((if neg then -1 else 1) * int (n div d)) else None))"

text \<open>\<^verbatim>\<open>%g\<close> of a positive fraction: six significant digits, without trailing zeros, with an exponent
  of at least two digits outside the range of the fixed notation.\<close>

definition ratio_pow10 :: "nat \<Rightarrow> nat \<Rightarrow> int \<Rightarrow> nat \<times> nat" where
  "ratio_pow10 n d e = (if 0 \<le> e then (n, d * 10 ^ nat e) else (n * 10 ^ nat (- e), d))"

definition strip_zeros :: "string \<Rightarrow> string" where
  "strip_zeros s = rev (dropWhile (\<lambda>c. c = CHR ''0'') (rev s))"

definition with_point :: "string \<Rightarrow> string \<Rightarrow> string" where
  "with_point whole frac = (if strip_zeros frac = [] then whole else whole @ ''.'' @ strip_zeros frac)"

definition percent_g :: "bool \<Rightarrow> nat \<Rightarrow> nat \<Rightarrow> string" where
  "percent_g neg n d =
     (let x = (case find (\<lambda>x. let (n', d') = ratio_pow10 n d x in d' \<le> n') (map (\<lambda>k. 309 - int k) [0..<634]) of
                 Some x \<Rightarrow> x | None \<Rightarrow> - 324);
          (n', d') = ratio_pow10 n d (x - 5);
          q = half_even n' d';
          (q, x) = (if q = 10 ^ 6 then (10 ^ 5, x + 1) else (q, x));
          ds = dec q;
          body = (if x < - 4 \<or> 6 \<le> x
                  then with_point (take 1 ds) (drop 1 ds) @ ''e'' @ (if x < 0 then ''-'' else ''+'')
                       @ (if nat \<bar>x\<bar> < 10 then ''0'' else []) @ dec (nat \<bar>x\<bar>)
                  else if 0 \<le> x then with_point (take (nat x + 1) ds) (drop (nat x + 1) ds)
                  else with_point ''0'' (replicate (nat (- x) - 1) (CHR ''0'') @ ds))
      in (if neg then ''-'' else []) @ body)"

text \<open>\<^verbatim>\<open>json_write\<close> on a number: the conversion to \<^verbatim>\<open>long long\<close> is undefined outside its range.\<close>

definition write_number :: "double \<Rightarrow> string option" where
  "write_number x =
     (case x of
        Infinite _ \<Rightarrow> None
      | Finite neg m e \<Rightarrow>
          (let (n, d) = ratio_pow2 m 1 (- e); trunc = (if neg then -1 else 1) * int (n div d)
           in if trunc < - (2 ^ 63) \<or> 2 ^ 63 \<le> trunc then None
              else if n mod d = 0 then Some (dec_int trunc)
              else Some (percent_g neg n d)))"

section \<open>Values\<close>

datatype json =
    Json_Null
  | Json_Bool bool
  | Json_Number double
  | Json_String string
  | Json_Array "json list"
  | Json_Object "(string \<times> json) list"

definition cut_nul :: "string \<Rightarrow> string" where
  "cut_nul s = takeWhile (\<lambda>c. c \<noteq> CHR 0x00) s"

definition json_array_push :: "json \<Rightarrow> json \<Rightarrow> json" where
  "json_array_push a v = (case a of Json_Array vs \<Rightarrow> Json_Array (vs @ [v]) | _ \<Rightarrow> a)"

definition json_obj_set :: "json \<Rightarrow> string \<Rightarrow> json \<Rightarrow> json" where
  "json_obj_set ob key v = (case ob of Json_Object ms \<Rightarrow> Json_Object (ms @ [(key, v)]) | _ \<Rightarrow> ob)"

definition json_obj_get :: "json option \<Rightarrow> string \<Rightarrow> json option" where
  "json_obj_get ob key =
     (case ob of Some (Json_Object ms) \<Rightarrow> map_option snd (find (\<lambda>m. fst m = key) ms) | _ \<Rightarrow> None)"

section \<open>Parsing\<close>

definition JSON_MAX_DEPTH :: nat where "JSON_MAX_DEPTH = 128"

definition is_ws :: "char \<Rightarrow> bool" where
  "is_ws c \<longleftrightarrow> c = CHR '' '' \<or> c = CHR 0x09 \<or> c = CHR 0x0A \<or> c = CHR 0x0D"

definition skip_ws :: "string \<Rightarrow> string" where
  "skip_ws s = dropWhile is_ws s"

definition json_peek :: "string \<Rightarrow> char" where
  "json_peek s = (case s of c # _ \<Rightarrow> c | [] \<Rightarrow> CHR 0x00)"

definition append_utf8 :: "nat \<Rightarrow> string" where
  "append_utf8 cp =
     (if cp \<le> 0x7F then [char_of cp]
      else if cp \<le> 0x7FF then [char_of (0xC0 OR drop_bit 6 cp), char_of (0x80 OR (cp AND 0x3F))]
      else if cp \<le> 0xFFFF
      then [char_of (0xE0 OR drop_bit 12 cp), char_of (0x80 OR (drop_bit 6 cp AND 0x3F)), char_of (0x80 OR (cp AND 0x3F))]
      else [char_of (0xF0 OR drop_bit 18 cp), char_of (0x80 OR (drop_bit 12 cp AND 0x3F)),
            char_of (0x80 OR (drop_bit 6 cp AND 0x3F)), char_of (0x80 OR (cp AND 0x3F))])"

definition hex_val :: "char \<Rightarrow> nat option" where
  "hex_val c =
     (let n = of_char c :: nat
      in if 48 \<le> n \<and> n \<le> 57 then Some (n - 48)
         else if 97 \<le> n \<and> n \<le> 102 then Some (n - 97 + 10)
         else if 65 \<le> n \<and> n \<le> 70 then Some (n - 65 + 10) else None)"

definition parse_hex4 :: "string \<Rightarrow> (nat \<times> string) option" where
  "parse_hex4 s =
     (if length s < 4 then None
      else map_option (\<lambda>vs. (foldl (\<lambda>v d. v * 16 + d) 0 vs, drop 4 s)) (those (map hex_val (take 4 s))))"

text \<open>The code point of a \<^verbatim>\<open>\u\<close> escape, after its \<^verbatim>\<open>u\<close>.\<close>

definition parse_unicode :: "string \<Rightarrow> (nat \<times> string) option" where
  "parse_unicode s =
     (case parse_hex4 s of
        None \<Rightarrow> None
      | Some (cp, s) \<Rightarrow>
          if 0xD800 \<le> cp \<and> cp \<le> 0xDBFF
          then (if length s < 6 \<or> s ! 0 \<noteq> CHR 0x5C \<or> s ! 1 \<noteq> CHR ''u'' then None
                else case parse_hex4 (drop 2 s) of
                       None \<Rightarrow> None
                     | Some (low, s) \<Rightarrow>
                         if low < 0xDC00 \<or> 0xDFFF < low then None
                         else Some (0x10000 + push_bit 10 (cp - 0xD800) + (low - 0xDC00), s))
          else Some (cp, s))"

definition simple_escape :: "char \<Rightarrow> nat option" where
  "simple_escape c =
     (if c = CHR 0x22 then Some 0x22 else if c = CHR 0x5C then Some 0x5C else if c = CHR ''/'' then Some 0x2F
      else if c = CHR ''b'' then Some 8 else if c = CHR ''f'' then Some 12 else if c = CHR ''n'' then Some 10
      else if c = CHR ''r'' then Some 13 else if c = CHR ''t'' then Some 9 else None)"

lemma parse_hex4_shorter: "parse_hex4 s = Some (v, r) \<Longrightarrow> length r < length s"
  by (auto simp: parse_hex4_def split: if_splits)

lemma parse_unicode_shorter: "parse_unicode s = Some (v, r) \<Longrightarrow> length r < length s"
  by (auto simp: parse_unicode_def split: if_splits option.splits dest!: parse_hex4_shorter)

function parse_string_loop :: "string \<Rightarrow> string \<Rightarrow> (string \<times> string) option" where
  "parse_string_loop buf s =
     (case s of
        [] \<Rightarrow> None
      | c # s \<Rightarrow>
          if c = CHR 0x22 then Some (buf, s)
          else if (of_char c :: nat) < 0x20 then None
          else if c \<noteq> CHR 0x5C then parse_string_loop (buf @ append_utf8 (of_char c)) s
          else case s of
                 [] \<Rightarrow> None
               | e # s \<Rightarrow>
                   if e = CHR ''u''
                   then (case parse_unicode s of
                           None \<Rightarrow> None
                         | Some (cp, s) \<Rightarrow> parse_string_loop (buf @ append_utf8 cp) s)
                   else case simple_escape e of
                          None \<Rightarrow> None
                        | Some cp \<Rightarrow> parse_string_loop (buf @ append_utf8 cp) s)"
  by pat_completeness auto
termination
  by (relation "measure (length \<circ> snd)") (auto dest: parse_unicode_shorter)

declare parse_string_loop.simps [simp del]

definition parse_string_body :: "string \<Rightarrow> (string \<times> string) option" where
  "parse_string_body s = map_option (\<lambda>(buf, s). (cut_nul buf, s)) (parse_string_loop [] s)"

definition number_char :: "char \<Rightarrow> bool" where
  "number_char c \<longleftrightarrow> c = CHR ''-'' \<or> c = CHR ''+'' \<or> c = CHR ''.'' \<or> c = CHR ''e'' \<or> c = CHR ''E'' \<or> is_digit_char c"

text \<open>At most 63 characters are collected; what \<^verbatim>\<open>strtod\<close> leaves over of them is dropped.\<close>

definition parse_number :: "string \<Rightarrow> (json \<times> string) option" where
  "parse_number s =
     (let tmp = take 63 (takeWhile number_char s)
      in if tmp = [] then None
         else case strtod tmp of None \<Rightarrow> None | Some x \<Rightarrow> Some (Json_Number x, drop (length tmp) s))"

definition eat_literal :: "string \<Rightarrow> string \<Rightarrow> string option" where
  "eat_literal lit s = (if take (length lit) s = lit then Some (drop (length lit) s) else None)"

text \<open>
  A cursor is what is left of the text with the number of enclosing containers; \<^verbatim>\<open>c->ok\<close> false is
  \<open>Some None\<close>.  The first argument bounds the nesting of calls, and \<open>None\<close> is its exhaustion.
\<close>

fun parse_value :: "nat \<Rightarrow> nat \<Rightarrow> string \<Rightarrow> (json \<times> string) option option"
and parse_array :: "nat \<Rightarrow> nat \<Rightarrow> json list \<Rightarrow> string \<Rightarrow> (json \<times> string) option option"
and parse_object :: "nat \<Rightarrow> nat \<Rightarrow> (string \<times> json) list \<Rightarrow> string \<Rightarrow> (json \<times> string) option option" where
  "parse_value 0 depth s = None"
| "parse_value (Suc n) depth s0 =
     (let s = skip_ws s0; ch = json_peek s
      in if ch = CHR 0x22
         then Some (map_option (\<lambda>(t, s). (Json_String t, s)) (parse_string_body (tl s)))
         else if ch = CHR ''{'' \<or> ch = CHR ''[''
         then (if depth \<ge> JSON_MAX_DEPTH then Some None
               else if ch = CHR ''{''
               then (let s = skip_ws (tl s)
                     in if json_peek s = CHR ''}'' then Some (Some (Json_Object [], tl s))
                        else parse_object n (depth + 1) [] s)
               else (let s = skip_ws (tl s)
                     in if json_peek s = CHR '']'' then Some (Some (Json_Array [], tl s))
                        else parse_array n (depth + 1) [] s))
         else if ch = CHR ''-'' \<or> is_digit_char ch then Some (parse_number s)
         else Some (case eat_literal ''true'' s of
                      Some s \<Rightarrow> Some (Json_Bool True, s)
                    | None \<Rightarrow> (case eat_literal ''false'' s of
                        Some s \<Rightarrow> Some (Json_Bool False, s)
                      | None \<Rightarrow> (case eat_literal ''null'' s of
                          Some s \<Rightarrow> Some (Json_Null, s)
                        | None \<Rightarrow> None))))"
| "parse_array 0 depth items s = None"
| "parse_array (Suc n) depth items s =
     (case parse_value n depth s of
        None \<Rightarrow> None
      | Some None \<Rightarrow> Some None
      | Some (Some (item, s)) \<Rightarrow>
          (let items = items @ [item]; s = skip_ws s
           in if json_peek s = CHR '','' then parse_array n depth items (skip_ws (tl s))
              else if json_peek s = CHR '']'' then Some (Some (Json_Array items, tl s))
              else Some None))"
| "parse_object 0 depth members s = None"
| "parse_object (Suc n) depth members s0 =
     (let s = skip_ws s0
      in if json_peek s \<noteq> CHR 0x22 then Some None
         else case parse_string_body (tl s) of
           None \<Rightarrow> Some None
         | Some (key, s) \<Rightarrow>
             (let s = skip_ws s
              in if json_peek s \<noteq> CHR '':'' then Some None
                 else case parse_value n depth (skip_ws (tl s)) of
                   None \<Rightarrow> None
                 | Some None \<Rightarrow> Some None
                 | Some (Some (v, s)) \<Rightarrow>
                     (let members = members @ [(key, v)]; s = skip_ws s
                      in if json_peek s = CHR '','' then parse_object n depth members (tl s)
                         else if json_peek s = CHR ''}'' then Some (Some (Json_Object members, tl s))
                         else Some None)))"

text \<open>Every nested call has consumed a character or enters a list, so the bound is enough
  (\<open>parse_value_defined\<close>).\<close>

definition json_fuel :: "string \<Rightarrow> nat" where
  "json_fuel s = 2 * length s + 2"

definition json_parse :: "string \<Rightarrow> json option" where
  "json_parse text =
     (case parse_value (json_fuel text) 0 text of
        Some (Some (v, s)) \<Rightarrow> if skip_ws s = [] then Some v else None
      | _ \<Rightarrow> None)"

section \<open>Writing\<close>

definition hex_digit :: "nat \<Rightarrow> char" where
  "hex_digit n = (if n < 10 then char_of (48 + n) else char_of (97 + (n - 10)))"

definition escape_json_char :: "char \<Rightarrow> string" where
  "escape_json_char c =
     (if c = CHR 0x22 then [CHR 0x5C, CHR 0x22] else if c = CHR 0x5C then [CHR 0x5C, CHR 0x5C]
      else if c = CHR 0x0A then [CHR 0x5C, CHR ''n''] else if c = CHR 0x0D then [CHR 0x5C, CHR ''r'']
      else if c = CHR 0x09 then [CHR 0x5C, CHR ''t'']
      else if (of_char c :: nat) < 0x20
      then [CHR 0x5C, CHR ''u'', CHR ''0'', CHR ''0'', hex_digit (of_char c div 16), hex_digit (of_char c mod 16)]
      else [c])"

definition write_escaped_string :: "string \<Rightarrow> string" where
  "write_escaped_string s = [CHR 0x22] @ concat (map escape_json_char (cut_nul s)) @ [CHR 0x22]"

fun join_comma :: "string list \<Rightarrow> string" where
  "join_comma [] = []"
| "join_comma [x] = x"
| "join_comma (x # y # xs) = x @ '','' @ join_comma (y # xs)"

fun json_write :: "json \<Rightarrow> string option"
and json_write_items :: "json list \<Rightarrow> string list option"
and json_write_members :: "(string \<times> json) list \<Rightarrow> string list option" where
  "json_write Json_Null = Some ''null''"
| "json_write (Json_Bool b) = Some (if b then ''true'' else ''false'')"
| "json_write (Json_Number x) = write_number x"
| "json_write (Json_String s) = Some (write_escaped_string s)"
| "json_write (Json_Array vs) = map_option (\<lambda>ts. ''['' @ join_comma ts @ '']'') (json_write_items vs)"
| "json_write (Json_Object ms) = map_option (\<lambda>ts. ''{'' @ join_comma ts @ ''}'') (json_write_members ms)"
| "json_write_items [] = Some []"
| "json_write_items (v # vs) =
     do { t \<leftarrow> json_write v; ts \<leftarrow> json_write_items vs; Some (t # ts) }"
| "json_write_members [] = Some []"
| "json_write_members ((k, v) # ms) =
     do { t \<leftarrow> json_write v; ts \<leftarrow> json_write_members ms; Some ((write_escaped_string k @ '':'' @ t) # ts) }"

end
