(* ===== verification/Json_Props.thy ===== *)
theory Json_Props
  imports Json
begin

text \<open>
  What the parser of \<^verbatim>\<open>lsp/json.c\<close> guarantees on every text: it returns, it consumes what it reads,
  and the values it delivers are nested at most \<^verbatim>\<open>JSON_MAX_DEPTH\<close> deep.
\<close>

section \<open>The parser is total\<close>

lemma skip_ws_shorter: "length (skip_ws s) \<le> length s"
  by (simp add: skip_ws_def length_dropWhile_le)

lemma parse_string_loop_shorter:
  "parse_string_loop buf s = Some (t, r) \<Longrightarrow> length r < length s"
proof (induction "length s" arbitrary: buf s rule: less_induct)
  case less
  then have step: "parse_string_loop b u = Some (t, r) \<Longrightarrow> length u < length s \<longrightarrow> length r < length u" for b u
    by blast
  show ?case
    using less.prems
    by (subst (asm) parse_string_loop.simps)
      (auto split: list.splits if_splits option.splits dest!: step parse_unicode_shorter)
qed

lemma parse_string_body_shorter: "parse_string_body s = Some (t, r) \<Longrightarrow> length r < length s"
  by (auto simp: parse_string_body_def dest: parse_string_loop_shorter)

lemma parse_number_shorter:
  assumes "parse_number s = Some (v, r)"
  shows "length r < length s"
  using assms by (cases s) (auto simp: parse_number_def Let_def split: if_splits option.splits)

lemma eat_literal_shorter: "eat_literal lit s = Some r \<Longrightarrow> lit \<noteq> [] \<Longrightarrow> length r < length s"
  by (cases s) (auto simp: eat_literal_def split: if_splits)

lemma json_peek_tl: "json_peek s = c \<Longrightarrow> c \<noteq> CHR 0x00 \<Longrightarrow> s = c # tl s"
  by (cases s) (auto simp: json_peek_def)

lemma json_peek_length: "json_peek s = c \<Longrightarrow> c \<noteq> CHR 0x00 \<Longrightarrow> Suc (length (tl s)) = length s"
  by (cases s) (auto simp: json_peek_def)

text \<open>How the three procedures can succeed.\<close>

lemma parse_value_SucE:
  assumes "parse_value (Suc n) d s = Some (Some (v, r))"
  obtains (string) t u where "v = Json_String t" "parse_string_body u = Some (t, r)" "length u < length s"
  | (none) "v = Json_Object [] \<or> v = Json_Array []" "d < JSON_MAX_DEPTH" "length r < length s"
  | (object) u where "parse_object n (d + 1) [] u = Some (Some (v, r))" "d < JSON_MAX_DEPTH" "length u < length s"
  | (array) u where "parse_array n (d + 1) [] u = Some (Some (v, r))" "d < JSON_MAX_DEPTH" "length u < length s"
  | (number) x where "v = Json_Number x" "length r < length s"
  | (bool) b where "v = Json_Bool b" "length r < length s"
  | (null) "v = Json_Null" "length r < length s"
proof -
  let ?u = "skip_ws s"
  have ws: "length ?u \<le> length s" "length (skip_ws (tl ?u)) \<le> length (tl ?u)"
    by (rule skip_ws_shorter)+
  have peek: "json_peek ?u = c \<Longrightarrow> c \<noteq> CHR 0x00 \<Longrightarrow> length (tl ?u) < length s
      \<and> length (skip_ws (tl ?u)) < length s \<and> length (tl (skip_ws (tl ?u))) < length s" for c
    using json_peek_length [of ?u] ws by fastforce
  consider "json_peek ?u = CHR 0x22" | "json_peek ?u = CHR ''{''" | "json_peek ?u = CHR ''[''"
    | "json_peek ?u = CHR ''-'' \<or> is_digit_char (json_peek ?u)"
      "json_peek ?u \<noteq> CHR 0x22" "json_peek ?u \<noteq> CHR ''{''" "json_peek ?u \<noteq> CHR ''[''"
    | "\<not> (json_peek ?u = CHR ''-'' \<or> is_digit_char (json_peek ?u))"
      "json_peek ?u \<noteq> CHR 0x22" "json_peek ?u \<noteq> CHR ''{''" "json_peek ?u \<noteq> CHR ''[''"
    by blast
  then show thesis
  proof cases
    case 1 then show ?thesis using assms peek [OF 1] by (auto simp: Let_def intro: string)
  next
    case 2
    then show ?thesis
      using assms peek [OF 2] object none by (auto simp: Let_def not_le split: if_splits)
  next
    case 3
    then show ?thesis
      using assms peek [OF 3] array none by (auto simp: Let_def not_le split: if_splits)
  next
    case 4
    then have "parse_number ?u = Some (v, r)" using assms by (simp add: Let_def)
    then show ?thesis
      using parse_number_shorter [of ?u] ws(1) number
      by (fastforce simp: parse_number_def Let_def split: if_splits option.splits)
  next
    case 5
    then show ?thesis
      using assms ws(1) eat_literal_shorter [of "''true''" ?u r] eat_literal_shorter [of "''false''" ?u r]
        eat_literal_shorter [of "''null''" ?u r]
      by (auto simp: Let_def split: option.splits intro: bool null)
  qed
qed

lemma parse_array_SucE:
  assumes "parse_array (Suc n) d vs s = Some (Some (v, r))"
  obtains (further) item u w where "parse_value n d s = Some (Some (item, u))"
      "parse_array n d (vs @ [item]) w = Some (Some (v, r))" "length w < length u"
  | (last) item u where "parse_value n d s = Some (Some (item, u))"
      "v = Json_Array (vs @ [item])" "length r < length u"
proof -
  obtain item u where u: "parse_value n d s = Some (Some (item, u))"
    using assms by (auto split: option.splits)
  have "length (skip_ws u) \<le> length u" "length (skip_ws (tl (skip_ws u))) \<le> length (tl (skip_ws u))"
    by (rule skip_ws_shorter)+
  then have "length (skip_ws (tl (skip_ws u))) < length u" "length (tl (skip_ws u)) < length u"
    if "json_peek (skip_ws u) = CHR '','' \<or> json_peek (skip_ws u) = CHR '']''"
    using that json_peek_length [of "skip_ws u"] by fastforce+
  then show thesis
    using assms u by (auto simp: Let_def split: if_splits intro: further last)
qed

lemma parse_object_SucE:
  assumes "parse_object (Suc n) d ms s = Some (Some (v, r))"
  obtains (further) key k t k' item u w where "parse_string_body t = Some (key, k)" "length t < length s"
      "length k' < length k" "parse_value n d k' = Some (Some (item, u))"
      "parse_object n d (ms @ [(key, item)]) w = Some (Some (v, r))" "length w < length u"
  | (last) key k t k' item u where "parse_string_body t = Some (key, k)" "length t < length s"
      "length k' < length k" "parse_value n d k' = Some (Some (item, u))"
      "v = Json_Object (ms @ [(key, item)])" "length r < length u"
proof -
  let ?t = "tl (skip_ws s)"
  have q: "json_peek (skip_ws s) = CHR 0x22" using assms by (auto simp: Let_def split: if_splits)
  then obtain key k where k: "parse_string_body ?t = Some (key, k)"
    using assms by (auto simp: Let_def split: option.splits)
  have t: "length ?t < length s"
    using json_peek_length [OF q] skip_ws_shorter [of s] by simp
  have colon: "json_peek (skip_ws k) = CHR '':''"
    using assms q k by (auto simp: Let_def split: if_splits)
  let ?k = "skip_ws (tl (skip_ws k))"
  have k': "length ?k < length k"
    using json_peek_length [OF colon] skip_ws_shorter [of k] skip_ws_shorter [of "tl (skip_ws k)"] by simp
  obtain item u where u: "parse_value n d ?k = Some (Some (item, u))"
    using assms q k colon by (auto simp: Let_def split: option.splits)
  have "length (tl (skip_ws u)) < length u"
    if "json_peek (skip_ws u) = CHR '','' \<or> json_peek (skip_ws u) = CHR ''}''"
    using that json_peek_length [of "skip_ws u"] skip_ws_shorter [of u] by fastforce
  then show thesis
    using assms q k colon u further [OF k t k' u] last [OF k t k' u]
    by (auto simp: Let_def split: if_splits)
qed

section \<open>Consumption\<close>

lemma parse_shorter:
  "(\<forall>d s v r. parse_value n d s = Some (Some (v, r)) \<longrightarrow> length r < length s)
   \<and> (\<forall>d vs s v r. parse_array n d vs s = Some (Some (v, r)) \<longrightarrow> length r < length s)
   \<and> (\<forall>d ms s v r. parse_object n d ms s = Some (Some (v, r)) \<longrightarrow> length r < length s)"
proof (induction n)
  case (Suc n)
  then have V: "parse_value n d s = Some (Some (v, r)) \<Longrightarrow> length r < length s"
    and A: "parse_array n d vs s = Some (Some (v, r)) \<Longrightarrow> length r < length s"
    and O: "parse_object n d ms s = Some (Some (v, r)) \<Longrightarrow> length r < length s" for d s v r vs ms
    by blast+
  have "length r < length s" if "parse_value (Suc n) d s = Some (Some (v, r))" for d s v r
    using that by (rule parse_value_SucE) (auto dest: A O parse_string_body_shorter)
  moreover have "length r < length s" if "parse_array (Suc n) d vs s = Some (Some (v, r))" for d s v r vs
    using that by (rule parse_array_SucE) (auto dest!: A V)
  moreover have "length r < length s" if "parse_object (Suc n) d ms s = Some (Some (v, r))" for d s v r ms
    using that by (rule parse_object_SucE) (auto dest!: O V parse_string_body_shorter)
  ultimately show ?case by blast
qed simp

lemma parse_value_shorter: "parse_value n d s = Some (Some (v, r)) \<Longrightarrow> length r < length s"
  using parse_shorter by blast

lemma json_calls_defined:
  "(\<forall>d s. 2 * length s + 1 \<le> n \<longrightarrow> parse_value n d s \<noteq> None)
   \<and> (\<forall>d vs s. 2 * length s + 2 \<le> n \<longrightarrow> parse_array n d vs s \<noteq> None)
   \<and> (\<forall>d ms s. 2 * length s + 2 \<le> n \<longrightarrow> parse_object n d ms s \<noteq> None)"
proof (induction n)
  case (Suc n)
  then have V: "2 * length s + 1 \<le> n \<Longrightarrow> parse_value n d s \<noteq> None"
    and A: "2 * length s + 2 \<le> n \<Longrightarrow> parse_array n d vs s \<noteq> None"
    and O: "2 * length s + 2 \<le> n \<Longrightarrow> parse_object n d ms s \<noteq> None" for d s vs ms
    by blast+
  have ws: "length (skip_ws s) \<le> length s" for s by (rule skip_ws_shorter)
  have V': "\<exists>y. parse_value n d s = Some y" if "2 * length s + 1 \<le> n" for d s
    using V [OF that] by auto
  have A': "\<exists>y. parse_array n d vs s = Some y" if "2 * length s + 2 \<le> n" for d s vs
    using A [OF that] by auto
  have O': "\<exists>y. parse_object n d vs s = Some y" if "2 * length s + 2 \<le> n" for d s vs
    using O [OF that] by auto
  have "parse_value (Suc n) d s \<noteq> None" if "2 * length s + 1 \<le> Suc n" for d s
  proof -
    have "2 * length (skip_ws (tl (skip_ws s))) + 2 \<le> n"
      if "json_peek (skip_ws s) = CHR ''{'' \<or> json_peek (skip_ws s) = CHR ''[''"
      using that \<open>2 * length s + 1 \<le> Suc n\<close> ws [of "tl (skip_ws s)"] ws [of s]
        json_peek_length [of "skip_ws s"] by fastforce
    then show ?thesis by (auto simp: Let_def A' O')
  qed
  moreover have "parse_array (Suc n) d vs s \<noteq> None" if le: "2 * length s + 2 \<le> Suc n" for d s vs
  proof -
    have "2 * length (skip_ws (tl (skip_ws u))) + 2 \<le> n"
      if "parse_value n d s = Some (Some (item, u))" "json_peek (skip_ws u) = CHR '',''" for item u
      using parse_value_shorter [OF that(1)] json_peek_length [OF that(2)] le ws [of u]
        ws [of "tl (skip_ws u)"] by simp
    moreover have "parse_value n d s \<noteq> None" using le by (intro V) simp
    ultimately show ?thesis by (auto simp: Let_def A' split: option.splits)
  qed
  moreover have "parse_object (Suc n) d ms s \<noteq> None" if le: "2 * length s + 2 \<le> Suc n" for d s ms
  proof (cases "json_peek (skip_ws s) = CHR 0x22")
    case q: True
    show ?thesis
    proof (cases "parse_string_body (tl (skip_ws s))")
      case (Some a)
      obtain key k where a: "a = (key, k)" by (cases a)
      let ?k = "skip_ws (tl (skip_ws k))"
      have k: "length ?k < length s"
        using json_peek_length [OF q] parse_string_body_shorter [OF Some [unfolded a]] ws [of s]
          ws [of k] ws [of "tl (skip_ws k)"] by simp
      have "2 * length (tl (skip_ws u)) + 2 \<le> n"
        if "parse_value n d ?k = Some (Some (item, u))" "json_peek (skip_ws u) = CHR '',''" for item u
        using parse_value_shorter [OF that(1)] json_peek_length [OF that(2)] le ws [of u] k by simp
      moreover have "parse_value n d ?k \<noteq> None" using le k by (intro V) simp
      ultimately show ?thesis using Some a by (auto simp: Let_def O' split: option.splits)
    qed (simp add: q Let_def)
  qed (simp add: Let_def)
  ultimately show ?case by blast
qed simp

lemma parse_value_defined: "parse_value (json_fuel s) d s \<noteq> None"
proof -
  have "2 * length s + 1 \<le> json_fuel s" by (simp add: json_fuel_def)
  then show ?thesis using json_calls_defined by blast
qed

section \<open>The shape of what is read\<close>

fun nest :: "json \<Rightarrow> nat" and nest_items :: "json list \<Rightarrow> nat"
  and nest_members :: "(string \<times> json) list \<Rightarrow> nat" where
  "nest (Json_Array vs) = Suc (nest_items vs)"
| "nest (Json_Object ms) = Suc (nest_members ms)"
| "nest v = 0"
| "nest_items [] = 0"
| "nest_items (v # vs) = max (nest v) (nest_items vs)"
| "nest_members [] = 0"
| "nest_members ((k, v) # ms) = max (nest v) (nest_members ms)"

fun nul_free :: "json \<Rightarrow> bool" and nul_free_items :: "json list \<Rightarrow> bool"
  and nul_free_members :: "(string \<times> json) list \<Rightarrow> bool" where
  "nul_free (Json_String s) \<longleftrightarrow> cut_nul s = s"
| "nul_free (Json_Array vs) \<longleftrightarrow> nul_free_items vs"
| "nul_free (Json_Object ms) \<longleftrightarrow> nul_free_members ms"
| "nul_free v \<longleftrightarrow> True"
| "nul_free_items [] \<longleftrightarrow> True"
| "nul_free_items (v # vs) \<longleftrightarrow> nul_free v \<and> nul_free_items vs"
| "nul_free_members [] \<longleftrightarrow> True"
| "nul_free_members ((k, v) # ms) \<longleftrightarrow> cut_nul k = k \<and> nul_free v \<and> nul_free_members ms"

lemma nest_items_append [simp]: "nest_items (vs @ ws) = max (nest_items vs) (nest_items ws)"
  by (induction vs) auto

lemma nest_members_append [simp]: "nest_members (vs @ ws) = max (nest_members vs) (nest_members ws)"
  by (induction vs rule: list.induct) auto

lemma nul_free_items_append [simp]: "nul_free_items (vs @ ws) \<longleftrightarrow> nul_free_items vs \<and> nul_free_items ws"
  by (induction vs) auto

lemma nul_free_members_append [simp]:
  "nul_free_members (vs @ ws) \<longleftrightarrow> nul_free_members vs \<and> nul_free_members ws"
  by (induction vs rule: list.induct) auto

lemma cut_nul_idem [simp]: "cut_nul (cut_nul s) = cut_nul s"
  by (simp add: cut_nul_def takeWhile_idem)

lemma parse_string_body_nul_free: "parse_string_body s = Some (t, r) \<Longrightarrow> cut_nul t = t"
  by (auto simp: parse_string_body_def)

text \<open>A value read under \<open>d\<close> containers is within the nesting that is left.\<close>

abbreviation within :: "nat \<Rightarrow> json \<Rightarrow> bool" where
  "within d v \<equiv> d + nest v \<le> JSON_MAX_DEPTH \<and> nul_free v"

lemma parse_within:
  "(\<forall>d s v r. parse_value n d s = Some (Some (v, r)) \<longrightarrow> d \<le> JSON_MAX_DEPTH \<longrightarrow> within d v)
   \<and> (\<forall>d vs s v r. parse_array n (Suc d) vs s = Some (Some (v, r)) \<longrightarrow> d < JSON_MAX_DEPTH \<longrightarrow>
        within d (Json_Array vs) \<longrightarrow> within d v)
   \<and> (\<forall>d ms s v r. parse_object n (Suc d) ms s = Some (Some (v, r)) \<longrightarrow> d < JSON_MAX_DEPTH \<longrightarrow>
        within d (Json_Object ms) \<longrightarrow> within d v)"
proof (induction n)
  case (Suc n)
  then have V: "parse_value n d s = Some (Some (v, r)) \<Longrightarrow> d \<le> JSON_MAX_DEPTH \<Longrightarrow> within d v"
    and A: "parse_array n (Suc d) vs s = Some (Some (v, r)) \<Longrightarrow> d < JSON_MAX_DEPTH \<Longrightarrow>
      within d (Json_Array vs) \<Longrightarrow> within d v"
    and O: "parse_object n (Suc d) ms s = Some (Some (v, r)) \<Longrightarrow> d < JSON_MAX_DEPTH \<Longrightarrow>
      within d (Json_Object ms) \<Longrightarrow> within d v" for d s v r vs ms
    by blast+
  have "within d v" if "parse_value (Suc n) d s = Some (Some (v, r))" "d \<le> JSON_MAX_DEPTH" for d s v r
    using that(1)
    by (rule parse_value_SucE) (use that(2) in \<open>auto dest: A O parse_string_body_nul_free\<close>)
  moreover have "within d v" if "parse_array (Suc n) (Suc d) vs s = Some (Some (v, r))"
    "d < JSON_MAX_DEPTH" "within d (Json_Array vs)" for d s v r vs
    using that(1)
  proof (rule parse_array_SucE)
    fix item u assume "parse_value n (Suc d) s = Some (Some (item, u))"
    then have item: "within (Suc d) item" using V [of "Suc d" s item u] that(2) by simp
    { fix w assume "parse_array n (Suc d) (vs @ [item]) w = Some (Some (v, r))"
      then show "within d v" by (rule A) (use that(2,3) item in auto) }
    { assume "v = Json_Array (vs @ [item])"
      then show "within d v" using that(3) item by auto }
  qed
  moreover have "within d v" if "parse_object (Suc n) (Suc d) ms s = Some (Some (v, r))"
    "d < JSON_MAX_DEPTH" "within d (Json_Object ms)" for d s v r ms
    using that(1)
  proof (rule parse_object_SucE)
    fix key k t k' item u
    assume "parse_string_body t = Some (key, k)" "parse_value n (Suc d) k' = Some (Some (item, u))"
    then have item: "within (Suc d) item" "cut_nul key = key"
      using V [of "Suc d" k' item u] that(2) parse_string_body_nul_free by auto
    { fix w assume "parse_object n (Suc d) (ms @ [(key, item)]) w = Some (Some (v, r))"
      then show "within d v" by (rule O) (use that(2,3) item in auto) }
    { assume "v = Json_Object (ms @ [(key, item)])"
      then show "within d v" using that(3) item by auto }
  qed
  ultimately show ?case by blast
qed simp

text \<open>
  C31: \<^verbatim>\<open>json_parse\<close> returns on every text, of whatever nesting, and its recursion is bounded: it
  never needs more nested calls than twice the length of the text, every value it delivers is nested
  at most 128 deep and every string of it is a C string.\<close>

theorem json_parse_total_and_bounded:
  "parse_value (json_fuel text) 0 text \<noteq> None \<and>
   (case json_parse text of Some v \<Rightarrow> nest v \<le> JSON_MAX_DEPTH \<and> nul_free v | None \<Rightarrow> True)"
proof (cases "json_parse text")
  case None
  then show ?thesis by (simp add: parse_value_defined)
next
  case (Some v)
  then obtain r where "parse_value (json_fuel text) 0 text = Some (Some (v, r))"
    by (auto simp: json_parse_def split: option.splits if_splits)
  then have "within 0 v" using parse_within by blast
  then show ?thesis using Some by (simp add: parse_value_defined)
qed

end
