(* ===== verification/Json_Round_Trip.thy ===== *)
theory Json_Round_Trip
  imports Json_Props
begin

text \<open>
  \<^verbatim>\<open>json_write\<close> against \<^verbatim>\<open>json_parse\<close>: numbers that a double holds exactly, escapes, and the text of
  a whole value read back by induction on the value.
\<close>

section \<open>Integers that a double holds exactly\<close>

lemma bit_length_bounds:
  "0 < n \<Longrightarrow> n < 2 ^ bit_length n \<and> 2 ^ bit_length n \<le> 2 * n \<and> 0 < bit_length n"
proof (induction n rule: bit_length.induct)
  case (1 n)
  show ?case
  proof (cases "n div 2 = 0")
    case True
    with 1(2) have "n = 1" by linarith
    then show ?thesis by (simp add: bit_length.simps)
  next
    case False
    then have "n div 2 < 2 ^ bit_length (n div 2) \<and> 2 ^ bit_length (n div 2) \<le> 2 * (n div 2)"
      using 1 by simp
    moreover have "bit_length n = Suc (bit_length (n div 2))"
      using 1(2) by (subst bit_length.simps) simp
    ultimately show ?thesis by (auto simp: zdiv_int) 
  qed
qed

lemma bit_length_le: 
  assumes "0 < n" "n < 2 ^ k"
  shows "bit_length n \<le> k"
proof (rule ccontr)
  assume "\<not> bit_length n \<le> k"
  then have "2 ^ Suc k \<le> (2::nat) ^ bit_length n" by (intro power_increasing) auto
  also have "\<dots> \<le> 2 * n" using bit_length_bounds [OF assms(1)] by simp
  finally show False using assms(2) by simp
qed

lemma half_even_exact [simp]: "half_even n (Suc 0) = n"
  by (simp add: half_even_def)

lemma round_double_exact:
  assumes "0 < n" "n < 2 ^ 53"
  shows "round_double neg n 1 = Finite neg (n * 2 ^ (53 - bit_length n)) (- int (53 - bit_length n))"
proof -
  let ?b = "bit_length n"
  have b: "n < 2 ^ ?b" "2 ^ ?b \<le> 2 * n" "0 < ?b" using bit_length_bounds [OF assms(1)] by auto
  have le: "?b \<le> 53" by (rule bit_length_le) (use assms in auto)
  have one: "bit_length (Suc 0) = Suc 0" by (simp add: bit_length.simps)
  have half: "(2::nat) ^ (?b - 1) \<le> n" using b(2,3) by (cases ?b) auto
  have nb: "nat (int ?b - 1) = ?b - 1" using b(3) by simp
  have e: "binary_exponent n (Suc 0) = int ?b - 1"
    using b(3) half by (simp add: binary_exponent_def ratio_pow2_def one nb Let_def)
  have m: "n * 2 ^ (53 - ?b) < 2 ^ 53"
  proof -
    have "n * 2 ^ (53 - ?b) < 2 ^ ?b * 2 ^ (53 - ?b)" using b(1) by simp
    also have "\<dots> = (2 :: nat) ^ 53" using le by (simp only: power_add [symmetric]) simp
    finally show ?thesis .
  qed
  have max: "max (int ?b - 1 - 52) (- 1074) = - int (53 - ?b)" using le by simp
  show ?thesis
  proof (cases "?b = 53")
    case True
    then show ?thesis using assms m by (simp add: round_double_def e ratio_pow2_def Let_def)
  next
    case False
    then have k: "nat (53 - int ?b) = 53 - ?b" "int (53 - ?b) = 53 - int ?b" "int ?b < 53"
      using le by auto
    then show ?thesis
      using assms m by (simp add: round_double_def e max ratio_pow2_def Let_def del: of_nat_diff)
  qed
qed

lemma write_exact_integer:
  assumes "\<bar>i\<bar> < 2 ^ 53"
  shows "write_number (double_of_int i) = Some (dec_int i)"
proof (cases "i = 0")
  case True
  then show ?thesis by (simp add: double_of_int_def round_double_def write_number_def ratio_pow2_def)
next
  case False
  let ?n = "nat \<bar>i\<bar>" and ?k = "53 - bit_length (nat \<bar>i\<bar>)"
  have n: "0 < ?n" "?n < 2 ^ 53" using False assms by (auto simp: nat_less_iff)
  have x: "double_of_int i = Finite (i < 0) (?n * 2 ^ ?k) (- int ?k)"
    using round_double_exact [OF n] by (simp only: double_of_int_def)
  have r: "ratio_pow2 (?n * 2 ^ ?k) (Suc 0) (int ?k) = (?n * 2 ^ ?k, 2 ^ ?k)"
    by (simp add: ratio_pow2_def)
  have lo: "\<not> i < - (2 ^ 63)" "\<not> 2 ^ 63 \<le> i" using assms by auto
  have "write_number (Finite (i < 0) (?n * 2 ^ ?k) (- int ?k))
      = (let trunc = (if i < 0 then -1 else 1) * int ?n
         in if trunc < - (2 ^ 63) \<or> 2 ^ 63 \<le> trunc then None else Some (dec_int trunc))"
    using r by (simp add: write_number_def Let_def del: nat_abs_int_diff)
  moreover have "(if i < 0 then -1 else 1) * int ?n = i" by simp
  ultimately show ?thesis using lo unfolding x Let_def by simp
qed

lemma length_dec: "n < 10 ^ Suc k \<Longrightarrow> length (dec n) \<le> Suc k"
proof (induction k arbitrary: n)
  case 0
  then show ?case by (subst dec.simps) simp
next
  case (Suc k)
  then have "n div 10 < 10 ^ Suc k" by auto
  then show ?case using Suc.IH by (subst dec.simps) auto
qed

lemma dec_not_signed:
  "takeWhile is_digit_char (dec n) = dec n" "dropWhile is_digit_char (dec n) = []"
  "take_sign (dec n) = (False, dec n)"
proof -
  show "takeWhile is_digit_char (dec n) = dec n" "dropWhile is_digit_char (dec n) = []"
    using dec_digits [of n] by (auto simp: list_all_iff takeWhile_eq_all_conv)
  obtain c cs where "dec n = c # cs" using dec_nonempty by (cases "dec n") auto
  moreover from this have "is_digit_char c" using dec_digits [of n] by simp
  then have "c \<noteq> CHR ''-''" "c \<noteq> CHR ''+''" by (auto simp: is_digit_char_def)
  ultimately show "take_sign (dec n) = (False, dec n)" by (simp add: take_sign_def)
qed

lemma take_sign_dec_int: "take_sign (dec_int i) = (i < 0, dec (nat \<bar>i\<bar>))"
proof (cases "i < 0")
  case True
  then show ?thesis by (simp add: dec_int_def take_sign_def)
next
  case False
  then show ?thesis by (simp add: dec_int_def dec_not_signed)
qed

lemma strtod_dec_int: "strtod (dec_int i) = Some (double_of_int i)"
  by (simp add: strtod_def take_sign_dec_int dec_not_signed take_exponent_def double_of_int_def Let_def)

lemma number_char_dec_int: "list_all number_char (dec_int i)"
  using dec_digits by (auto simp: dec_int_def number_char_def list_all_iff)

text \<open>What may follow a value in the text for a number to end there.\<close>

definition ends_number :: "string \<Rightarrow> bool" where
  "ends_number r \<longleftrightarrow> r = [] \<or> \<not> number_char (hd r)"

lemma parse_exact_integer:
  assumes "\<bar>i\<bar> < 2 ^ 53" "ends_number r"
  shows "parse_number (dec_int i @ r) = Some (Json_Number (double_of_int i), r)"
proof -
  have "takeWhile number_char r = []" using assms(2) by (cases r) (auto simp: ends_number_def)
  then have t: "takeWhile number_char (dec_int i @ r) = dec_int i"
    using number_char_dec_int [of i] by (simp add: list_all_iff takeWhile_append)
  have "nat \<bar>i\<bar> < 10 ^ Suc 15" using assms(1) by (simp add: nat_less_iff)
  then have "length (dec_int i) \<le> 17" using length_dec [of "nat \<bar>i\<bar>" 15] by (auto simp: dec_int_def)
  then have "take 63 (dec_int i) = dec_int i" by simp
  moreover have "dec_int i \<noteq> []" by (simp add: dec_int_def)
  ultimately show ?thesis using t by (simp add: parse_number_def strtod_dec_int Let_def)
qed

section \<open>Strings\<close>

definition as_utf8 :: "string \<Rightarrow> string" where
  "as_utf8 s = concat (map (append_utf8 \<circ> of_char) s)"

lemma hex_val_hex_digit [simp]: "n < 16 \<Longrightarrow> hex_val (hex_digit n) = Some n"
  by (auto simp: hex_val_def hex_digit_def Let_def of_char_of)

lemma parse_escaped_char:
  "parse_string_loop buf (escape_json_char c @ r) = parse_string_loop (buf @ append_utf8 (of_char c)) r"
proof -
  consider "c = CHR 0x22" | "c = CHR 0x5C" | "c = CHR 0x0A" | "c = CHR 0x0D" | "c = CHR 0x09"
    | (control) "(of_char c :: nat) < 32" "c \<noteq> CHR 0x0A" "c \<noteq> CHR 0x0D" "c \<noteq> CHR 0x09"
    | (plain) "\<not> (of_char c :: nat) < 32" "c \<noteq> CHR 0x22" "c \<noteq> CHR 0x5C"
    by blast
  then show ?thesis
  proof cases
    case control
    then have c: "c \<noteq> CHR 0x22" "c \<noteq> CHR 0x5C" by auto
    let ?n = "of_char c :: nat"
    have h: "hex_val (CHR ''0'') = Some 0" by (simp add: hex_val_def)
    have "?n div 16 < 16" using control(1) by simp
    then have "parse_hex4 ([CHR ''0'', CHR ''0'', hex_digit (?n div 16), hex_digit (?n mod 16)] @ r) = Some (?n, r)"
      by (simp add: parse_hex4_def h)
    then have "parse_unicode ([CHR ''0'', CHR ''0'', hex_digit (?n div 16), hex_digit (?n mod 16)] @ r) = Some (?n, r)"
      using control(1) by (simp add: parse_unicode_def)
    then show ?thesis using control c
      by (subst parse_string_loop.simps) (simp add: escape_json_char_def)
  next
    case plain
    then show ?thesis
      by (subst parse_string_loop.simps) (auto simp: escape_json_char_def)
  qed (subst parse_string_loop.simps, simp add: escape_json_char_def simple_escape_def)+
qed

lemma parse_escaped:
  "parse_string_loop buf (concat (map escape_json_char s) @ CHR 0x22 # r) = Some (buf @ as_utf8 s, r)"
proof (induction s arbitrary: buf)
  case Nil
  then show ?case by (subst parse_string_loop.simps) (simp add: as_utf8_def)
next
  case (Cons c s)
  then show ?case by (simp add: parse_escaped_char as_utf8_def)
qed

lemma append_utf8_ascii: "(of_char c :: nat) < 128 \<Longrightarrow> append_utf8 (of_char c) = [c]"
  by (simp add: append_utf8_def)

lemma char_of_high: "bit (n :: nat) 7 \<Longrightarrow> char_of n \<noteq> CHR 0x00"
proof
  assume b: "bit n 7" and "char_of n = CHR 0x00"
  then have "of_char (char_of n :: char) = (0 :: nat)" by simp
  then have "take_bit 8 n = 0" by (simp add: of_char_of take_bit_eq_mod)
  then have "\<not> bit (take_bit 8 n) 7" by simp
  with b show False by (simp add: bit_take_bit_iff)
qed

lemma append_utf8_no_nul:
  assumes "cp \<noteq> 0"
  shows "CHR 0x00 \<notin> set (append_utf8 cp)"
proof (cases "cp \<le> 0x7F")
  case True
  have "char_of cp \<noteq> CHR 0x00"
  proof
    assume "char_of cp = CHR 0x00"
    then have "of_char (char_of cp :: char) = (0 :: nat)" by simp
    then show False using True assms by (simp add: of_char_of)
  qed
  then show ?thesis using True by (simp add: append_utf8_def)
next
  case False
  have "bit (0xC0 OR x) 7" "bit (0x80 OR x) 7" "bit (0xE0 OR x) 7" "bit (0xF0 OR x) 7" for x :: nat
    by (simp_all add: bit_or_iff bit_0)
  note b = this [THEN char_of_high, THEN not_sym]
  show ?thesis using False by (simp only: append_utf8_def if_False list.set insert_iff empty_iff b simp_thms split: if_split)
qed

lemma as_utf8_no_nul: "CHR 0x00 \<notin> set s \<Longrightarrow> cut_nul (as_utf8 s) = as_utf8 s"
proof -
  assume "CHR 0x00 \<notin> set s"
  moreover have "c = CHR 0x00" if "of_char c = (0 :: nat)" for c
  proof -
    have "c = char_of (of_char c :: nat)" by (rule char_of_char [symmetric])
    then show ?thesis unfolding that by (simp add: char_of_def)
  qed
  ultimately have "of_char c \<noteq> (0 :: nat)" if "c \<in> set s" for c
    using that by blast
  then have "CHR 0x00 \<notin> set (as_utf8 s)"
    using append_utf8_no_nul by (auto simp: as_utf8_def)
  then show ?thesis by (auto simp: cut_nul_def takeWhile_eq_all_conv)
qed

lemma parse_written_string:
  assumes "cut_nul s = s"
  shows "parse_string_body (tl (write_escaped_string s) @ r) = Some (as_utf8 s, r)"
proof -
  have "CHR 0x00 \<notin> set s" using assms by (auto simp: cut_nul_def takeWhile_eq_all_conv)
  then show ?thesis
    using parse_escaped [of "[]" s r] assms
    by (simp add: parse_string_body_def write_escaped_string_def as_utf8_no_nul)
qed

lemma as_utf8_ascii: "list_all (\<lambda>c. (of_char c :: nat) < 128) s \<Longrightarrow> as_utf8 s = s"
  by (induction s) (auto simp: as_utf8_def append_utf8_ascii)

section \<open>The round trip\<close>

text \<open>What a value becomes on the way through the writer and the parser.\<close>

fun recode :: "json \<Rightarrow> json" and recode_items :: "json list \<Rightarrow> json list"
  and recode_members :: "(string \<times> json) list \<Rightarrow> (string \<times> json) list" where
  "recode (Json_String s) = Json_String (as_utf8 s)"
| "recode (Json_Array vs) = Json_Array (recode_items vs)"
| "recode (Json_Object ms) = Json_Object (recode_members ms)"
| "recode v = v"
| "recode_items [] = []"
| "recode_items (v # vs) = recode v # recode_items vs"
| "recode_members [] = []"
| "recode_members ((k, v) # ms) = (as_utf8 k, recode v) # recode_members ms"

text \<open>Values whose numbers are integers below \<open>2^53\<close> and whose strings are C strings.\<close>

definition exact_integer :: "double \<Rightarrow> bool" where
  "exact_integer x = (case double_int x of Some i \<Rightarrow> \<bar>i\<bar> < 2 ^ 53 \<and> x = double_of_int i | None \<Rightarrow> False)"

fun portable :: "json \<Rightarrow> bool" and portable_items :: "json list \<Rightarrow> bool"
  and portable_members :: "(string \<times> json) list \<Rightarrow> bool" where
  "portable (Json_Number x) \<longleftrightarrow> exact_integer x"
| "portable (Json_String s) \<longleftrightarrow> cut_nul s = s"
| "portable (Json_Array vs) \<longleftrightarrow> portable_items vs"
| "portable (Json_Object ms) \<longleftrightarrow> portable_members ms"
| "portable v \<longleftrightarrow> True"
| "portable_items [] \<longleftrightarrow> True"
| "portable_items (v # vs) \<longleftrightarrow> portable v \<and> portable_items vs"
| "portable_members [] \<longleftrightarrow> True"
| "portable_members ((k, v) # ms) \<longleftrightarrow> cut_nul k = k \<and> portable v \<and> portable_members ms"

definition starts_value :: "string \<Rightarrow> bool" where
  "starts_value t \<longleftrightarrow> (case t of [] \<Rightarrow> False | c # _ \<Rightarrow> \<not> is_ws c \<and> c \<noteq> CHR '']'' \<and> c \<noteq> CHR ''}'')"

lemma skip_ws_starts: "starts_value t \<Longrightarrow> skip_ws (t @ r) = t @ r"
  by (cases t) (auto simp: starts_value_def skip_ws_def)

lemma json_peek_starts:
  "starts_value t \<Longrightarrow> json_peek (t @ r) \<noteq> CHR '']'' \<and> json_peek (t @ r) \<noteq> CHR ''}''"
  by (cases t) (auto simp: starts_value_def json_peek_def)

lemma skip_ws_Cons [simp]: "\<not> is_ws c \<Longrightarrow> skip_ws (c # s) = c # s"
  by (simp add: skip_ws_def)

lemma json_peek_Cons [simp]: "json_peek (c # s) = c"
  by (simp add: json_peek_def)

lemma dec_int_head: "\<exists>c cs. dec_int i = c # cs \<and> (c = CHR ''-'' \<or> is_digit_char c)"
  using dec_digits [of "nat i"] dec_nonempty [of "nat i"]
  by (cases "dec (nat i)") (auto simp: dec_int_def)

lemma dec_int_starts: "starts_value (dec_int i)"
  using dec_int_head [of i] by (auto simp: starts_value_def is_ws_def is_digit_char_def)

lemma parse_value_integer:
  assumes "\<bar>i\<bar> < 2 ^ 53" "ends_number r"
  shows "parse_value (Suc n) d (dec_int i @ r) = Some (Some (Json_Number (double_of_int i), r))"
proof -
  obtain c cs where c: "dec_int i = c # cs" "c = CHR ''-'' \<or> is_digit_char c"
    using dec_int_head by blast
  then have "json_peek (dec_int i @ r) = c" by simp
  moreover have "c \<noteq> CHR 0x22" "c \<noteq> CHR ''{''" "c \<noteq> CHR ''[''"
    using c(2) by (auto simp: is_digit_char_def)
  ultimately show ?thesis
    using parse_exact_integer [OF assms] c(2) by (simp add: skip_ws_starts [OF dec_int_starts] Let_def)
qed

lemma parse_value_string:
  assumes "cut_nul s = s"
  shows "parse_value (Suc n) d (write_escaped_string s @ r) = Some (Some (Json_String (as_utf8 s), r))"
  using parse_written_string [OF assms, of r]
  by (simp add: write_escaped_string_def Let_def is_ws_def)

lemma write_escaped_string_starts: "starts_value (write_escaped_string s)"
  by (simp add: starts_value_def write_escaped_string_def is_ws_def)

text \<open>The three forms of what is to be shown, for a value and for the lists inside a container.\<close>

definition reads_back :: "json \<Rightarrow> string \<Rightarrow> bool" where
  "reads_back v t \<longleftrightarrow> starts_value t \<and>
     (\<forall>n d r. length t \<le> n \<longrightarrow> d + nest v \<le> JSON_MAX_DEPTH \<longrightarrow> ends_number r \<longrightarrow>
        parse_value n d (t @ r) = Some (Some (recode v, r)))"

definition items_read_back :: "json list \<Rightarrow> string list \<Rightarrow> bool" where
  "items_read_back vs ts \<longleftrightarrow> length ts = length vs \<and> (vs \<noteq> [] \<longrightarrow> starts_value (join_comma ts) \<and>
     (\<forall>n d acc r. length (join_comma ts) < n \<longrightarrow> d + nest_items vs \<le> JSON_MAX_DEPTH \<longrightarrow>
        parse_array n d acc (join_comma ts @ CHR '']'' # r) = Some (Some (Json_Array (acc @ recode_items vs), r))))"

definition members_read_back :: "(string \<times> json) list \<Rightarrow> string list \<Rightarrow> bool" where
  "members_read_back ms ts \<longleftrightarrow> length ts = length ms \<and> (ms \<noteq> [] \<longrightarrow> starts_value (join_comma ts) \<and>
     (\<forall>n d acc r. length (join_comma ts) < n \<longrightarrow> d + nest_members ms \<le> JSON_MAX_DEPTH \<longrightarrow>
        parse_object n d acc (join_comma ts @ CHR ''}'' # r) = Some (Some (Json_Object (acc @ recode_members ms), r))))"

lemma ends_number_Cons: "c = CHR '','' \<or> c = CHR '']'' \<or> c = CHR ''}'' \<Longrightarrow> ends_number (c # r)"
  by (auto simp: ends_number_def number_char_def is_digit_char_def)

lemma starts_value_append: "starts_value t \<Longrightarrow> starts_value (t @ r)"
  by (cases t) (auto simp: starts_value_def)

lemma punctuation_not_ws: "c = CHR '','' \<or> c = CHR '']'' \<or> c = CHR ''}'' \<or> c = CHR '':'' \<Longrightarrow> \<not> is_ws c"
  by (auto simp: is_ws_def)

lemma fuel_Suc: "m < n \<Longrightarrow> \<exists>k. n = Suc k \<and> m \<le> k"
  by (cases n) auto

lemma join_comma_Cons: "join_comma (t # ts) = t @ (if ts = [] then [] else '','' @ join_comma ts)"
  by (cases ts) auto

lemma items_read_back_Cons:
  assumes v: "reads_back v t" and vs: "items_read_back vs ts"
  shows "items_read_back (v # vs) (t # ts)"
proof -
  have sv: "starts_value t" using v by (simp add: reads_back_def)
  have len: "ts = [] \<longleftrightarrow> vs = []" "length ts = length vs" using vs by (auto simp: items_read_back_def)
  have "parse_array n d acc (join_comma (t # ts) @ CHR '']'' # r)
      = Some (Some (Json_Array (acc @ recode_items (v # vs)), r))"
    if n: "length (join_comma (t # ts)) < n" and d: "d + nest_items (v # vs) \<le> JSON_MAX_DEPTH" for n d acc r
  proof -
    obtain k where k: "n = Suc k" "length (join_comma (t # ts)) \<le> k" using fuel_Suc [OF n] by auto
    let ?r = "(if ts = [] then [] else '','' @ join_comma ts) @ CHR '']'' # r"
    have whole: "join_comma (t # ts) @ CHR '']'' # r = t @ ?r" by (simp add: join_comma_Cons)
    have "length t \<le> k" "ends_number ?r" "d + nest v \<le> JSON_MAX_DEPTH"
      using k(2) d by (auto simp: join_comma_Cons ends_number_Cons)
    then have pv: "parse_value k d (t @ ?r) = Some (Some (recode v, ?r))"
      using v unfolding reads_back_def by blast
    show ?thesis
    proof (cases "ts = []")
      case True
      then show ?thesis using pv len k(1) whole by (simp add: punctuation_not_ws Let_def)
    next
      case False
      then have "starts_value (join_comma ts)" using vs len by (simp add: items_read_back_def)
      then have "skip_ws (join_comma ts @ CHR '']'' # r) = join_comma ts @ CHR '']'' # r"
        by (rule skip_ws_starts)
      moreover have "length (join_comma ts) < k" using k(2) False by (simp add: join_comma_Cons)
      then have "parse_array k d (acc @ [recode v]) (join_comma ts @ CHR '']'' # r)
          = Some (Some (Json_Array ((acc @ [recode v]) @ recode_items vs), r))"
        using vs d len False by (simp add: items_read_back_def)
      ultimately show ?thesis using pv k(1) whole False
        by (simp add: punctuation_not_ws Let_def)
    qed
  qed
  then show ?thesis using sv len by (auto simp: items_read_back_def join_comma_Cons intro: starts_value_append)
qed

lemma members_read_back_Cons:
  assumes v: "reads_back v t" and vs: "members_read_back ms ts" and key: "cut_nul key = key"
  shows "members_read_back ((key, v) # ms) ((write_escaped_string key @ CHR '':'' # t) # ts)"
proof -
  let ?t = "write_escaped_string key @ CHR '':'' # t"
  have sv: "starts_value t" using v by (simp add: reads_back_def)
  have len: "ts = [] \<longleftrightarrow> ms = []" "length ts = length ms" using vs by (auto simp: members_read_back_def)
  have "parse_object n d acc (join_comma (?t # ts) @ CHR ''}'' # r)
      = Some (Some (Json_Object (acc @ recode_members ((key, v) # ms)), r))"
    if n: "length (join_comma (?t # ts)) < n" and d: "d + nest_members ((key, v) # ms) \<le> JSON_MAX_DEPTH" for n d acc r
  proof -
    obtain k where k: "n = Suc k" "length (join_comma (?t # ts)) \<le> k" using fuel_Suc [OF n] by auto
    let ?r = "(if ts = [] then [] else '','' @ join_comma ts) @ CHR ''}'' # r"
    have whole: "join_comma (?t # ts) @ CHR ''}'' # r = CHR 0x22 # tl (write_escaped_string key) @ CHR '':'' # t @ ?r"
      by (simp add: join_comma_Cons write_escaped_string_def)
    have key: "parse_string_body (tl (write_escaped_string key) @ CHR '':'' # t @ ?r)
        = Some (as_utf8 key, CHR '':'' # t @ ?r)"
      by (rule parse_written_string [OF key])
    have "length t \<le> k" "ends_number ?r" "d + nest v \<le> JSON_MAX_DEPTH"
      using k(2) d by (auto simp: join_comma_Cons ends_number_Cons)
    then have pv: "parse_value k d (t @ ?r) = Some (Some (recode v, ?r))"
      using v unfolding reads_back_def by blast
    have q: "\<not> is_ws (CHR 0x22)" by (simp add: is_ws_def)
    have first: "parse_object (Suc k) d acc (CHR 0x22 # tl (write_escaped_string key) @ CHR '':'' # t @ ?r)
        = (let s = skip_ws ?r
           in if json_peek s = CHR '','' then parse_object k d (acc @ [(as_utf8 key, recode v)]) (tl s)
              else if json_peek s = CHR ''}'' then Some (Some (Json_Object (acc @ [(as_utf8 key, recode v)]), tl s))
              else Some None)"
      using key pv by (simp add: q punctuation_not_ws skip_ws_starts [OF sv] Let_def del: append_assoc)
    show ?thesis
    proof (cases "ts = []")
      case True
      then show ?thesis unfolding whole k(1) first using len by (simp add: punctuation_not_ws Let_def)
    next
      case False
      have "length (join_comma ts) < k" using k(2) False by (simp add: join_comma_Cons)
      then have "parse_object k d (acc @ [(as_utf8 key, recode v)]) (join_comma ts @ CHR ''}'' # r)
          = Some (Some (Json_Object ((acc @ [(as_utf8 key, recode v)]) @ recode_members ms), r))"
        using vs d len False by (simp add: members_read_back_def)
      then show ?thesis unfolding whole k(1) first using False by (simp add: punctuation_not_ws Let_def)
    qed
  qed
  then show ?thesis
    using len by (auto simp: members_read_back_def join_comma_Cons write_escaped_string_starts intro: starts_value_append)
qed

lemma starts_bracket: "starts_value (CHR ''['' # s)" "starts_value (CHR ''{'' # s)"
  by (simp_all add: starts_value_def is_ws_def)

lemma reads_back_array:
  assumes "items_read_back vs ts"
  shows "reads_back (Json_Array vs) (''['' @ join_comma ts @ '']'')"
proof -
  have "parse_value n d (CHR ''['' # join_comma ts @ CHR '']'' # r) = Some (Some (Json_Array (recode_items vs), r))"
    if n: "length (join_comma ts) + 2 \<le> n" and d: "d + nest (Json_Array vs) \<le> JSON_MAX_DEPTH" for n d r
  proof -
    obtain k where k: "n = Suc k" "length (join_comma ts) < k" using n by (cases n) auto
    have ws: "\<not> is_ws (CHR ''['')" by (simp add: is_ws_def)
    show ?thesis
    proof (cases "vs = []")
      case True
      then show ?thesis using assms k(1) d ws by (simp add: items_read_back_def punctuation_not_ws Let_def)
    next
      case False
      then have "starts_value (join_comma ts)" using assms by (simp add: items_read_back_def)
      then have "skip_ws (join_comma ts @ CHR '']'' # r) = join_comma ts @ CHR '']'' # r"
        "json_peek (join_comma ts @ CHR '']'' # r) \<noteq> CHR '']''"
        by (simp_all add: skip_ws_starts json_peek_starts)
      moreover have "parse_array k (Suc d) [] (join_comma ts @ CHR '']'' # r) = Some (Some (Json_Array (recode_items vs), r))"
        using assms False k(2) d by (simp add: items_read_back_def)
      ultimately show ?thesis using k(1) d ws by (simp add: Let_def)
    qed
  qed
  then show ?thesis by (simp add: reads_back_def starts_bracket)
qed

lemma reads_back_object:
  assumes "members_read_back ms ts"
  shows "reads_back (Json_Object ms) (''{'' @ join_comma ts @ ''}'')"
proof -
  have "parse_value n d (CHR ''{'' # join_comma ts @ CHR ''}'' # r) = Some (Some (Json_Object (recode_members ms), r))"
    if n: "length (join_comma ts) + 2 \<le> n" and d: "d + nest (Json_Object ms) \<le> JSON_MAX_DEPTH" for n d r
  proof -
    obtain k where k: "n = Suc k" "length (join_comma ts) < k" using n by (cases n) auto
    have ws: "\<not> is_ws (CHR ''{'')" by (simp add: is_ws_def)
    show ?thesis
    proof (cases "ms = []")
      case True
      then show ?thesis using assms k(1) d ws by (simp add: members_read_back_def punctuation_not_ws Let_def)
    next
      case False
      then have "starts_value (join_comma ts)" using assms by (simp add: members_read_back_def)
      then have "skip_ws (join_comma ts @ CHR ''}'' # r) = join_comma ts @ CHR ''}'' # r"
        "json_peek (join_comma ts @ CHR ''}'' # r) \<noteq> CHR ''}''"
        by (simp_all add: skip_ws_starts json_peek_starts)
      moreover have "parse_object k (Suc d) [] (join_comma ts @ CHR ''}'' # r) = Some (Some (Json_Object (recode_members ms), r))"
        using assms False k(2) d by (simp add: members_read_back_def)
      ultimately show ?thesis using k(1) d ws by (simp add: Let_def)
    qed
  qed
  then show ?thesis by (simp add: reads_back_def starts_bracket)
qed

lemma reads_backI:
  assumes "starts_value t" "\<And>n d r. ends_number r \<Longrightarrow> parse_value (Suc n) d (t @ r) = Some (Some (recode v, r))"
  shows "reads_back v t"
  unfolding reads_back_def
proof (intro conjI allI impI)
  fix n d r assume "length t \<le> n" "ends_number r"
  moreover have "t \<noteq> []" using assms(1) by (auto simp: starts_value_def)
  ultimately show "parse_value n d (t @ r) = Some (Some (recode v, r))"
    using assms(2) by (cases n) auto
qed (rule assms(1))

lemma reads_back_literal:
  "reads_back Json_Null ''null''" "reads_back (Json_Bool True) ''true''" "reads_back (Json_Bool False) ''false''"
  by (rule reads_backI; simp add: starts_value_def is_ws_def is_digit_char_def eat_literal_def Let_def)+

lemma written_reads_back:
  "portable v \<Longrightarrow> \<exists>t. json_write v = Some t \<and> reads_back v t"
  "portable_items vs \<Longrightarrow> \<exists>ts. json_write_items vs = Some ts \<and> items_read_back vs ts"
  "portable_members ms \<Longrightarrow> \<exists>ts. json_write_members ms = Some ts \<and> members_read_back ms ts"
proof (induction v and vs and ms rule: json_write_json_write_items_json_write_members.induct)
  case (5 vs)
  then obtain ts where ts: "json_write_items vs = Some ts" "items_read_back vs ts" by auto
  have "reads_back (Json_Array vs) (''['' @ join_comma ts @ '']'')" by (rule reads_back_array [OF ts(2)])
  then show ?case using ts by simp
next
  case (6 ms)
  then obtain ts where ts: "json_write_members ms = Some ts" "members_read_back ms ts" by auto
  have "reads_back (Json_Object ms) (''{'' @ join_comma ts @ ''}'')" by (rule reads_back_object [OF ts(2)])
  then show ?case using ts by simp
next
  case (8 v vs)
  then show ?case by (auto simp: items_read_back_Cons)
next
  case (10 k v ms)
  then show ?case by (auto simp: members_read_back_Cons)
next
  case (3 x)
  then obtain i where i: "\<bar>i\<bar> < 2 ^ 53" "x = double_of_int i"
    by (auto simp: exact_integer_def split: option.splits)
  have "reads_back (Json_Number x) (dec_int i)"
    by (rule reads_backI) (use i parse_value_integer dec_int_starts in simp_all)
  then show ?case using i write_exact_integer by simp
next
  case (4 s)
  then have "reads_back (Json_String s) (write_escaped_string s)"
    by (intro reads_backI) (use parse_value_string write_escaped_string_starts in simp_all)
  then show ?case by simp
qed (auto simp: items_read_back_def members_read_back_def reads_back_literal)

text \<open>Text below 128 comes back as it was.\<close>

abbreviation ascii :: "string \<Rightarrow> bool" where
  "ascii s \<equiv> list_all (\<lambda>c. (of_char c :: nat) < 128) s"

fun ascii_json :: "json \<Rightarrow> bool" and ascii_items :: "json list \<Rightarrow> bool"
  and ascii_members :: "(string \<times> json) list \<Rightarrow> bool" where
  "ascii_json (Json_String s) \<longleftrightarrow> ascii s"
| "ascii_json (Json_Array vs) \<longleftrightarrow> ascii_items vs"
| "ascii_json (Json_Object ms) \<longleftrightarrow> ascii_members ms"
| "ascii_json v \<longleftrightarrow> True"
| "ascii_items [] \<longleftrightarrow> True"
| "ascii_items (v # vs) \<longleftrightarrow> ascii_json v \<and> ascii_items vs"
| "ascii_members [] \<longleftrightarrow> True"
| "ascii_members ((k, v) # ms) \<longleftrightarrow> ascii k \<and> ascii_json v \<and> ascii_members ms"

lemma length_as_utf8: "length (as_utf8 s) = length s + length (filter (\<lambda>c. \<not> (of_char c :: nat) < 128) s)"
proof (induction s)
  case (Cons c s)
  have "(of_char c :: nat) < 256" by (rule nat_of_char_less_256)
  then have "(of_char c :: nat) \<le> 0x7FF" by linarith
  then have "length (append_utf8 (of_char c)) = (if (of_char c :: nat) < 128 then 1 else 2)"
    by (simp add: append_utf8_def)
  then show ?case using Cons by (simp add: as_utf8_def)
qed (simp add: as_utf8_def)

lemma recode_ascii:
  "ascii_json v \<Longrightarrow> recode v = v"
  "ascii_items vs \<Longrightarrow> recode_items vs = vs"
  "ascii_members ms \<Longrightarrow> recode_members ms = ms"
  by (induction v and vs and ms rule: ascii_json_ascii_items_ascii_members.induct) (auto simp: as_utf8_ascii)

lemma json_parse_written:
  assumes "portable v" "nest v \<le> JSON_MAX_DEPTH" "json_write v = Some t"
  shows "json_parse t = Some (recode v)"
proof -
  have "reads_back v t" using written_reads_back(1) [OF assms(1)] assms(3) by auto
  moreover have "length t \<le> json_fuel t" "0 + nest v \<le> JSON_MAX_DEPTH" "ends_number []"
    using assms(2) by (simp_all add: json_fuel_def ends_number_def)
  ultimately have "parse_value (json_fuel t) 0 (t @ []) = Some (Some (recode v, []))"
    unfolding reads_back_def by blast
  then show ?thesis by (simp add: json_parse_def skip_ws_def)
qed

text \<open>
  C30: What \<^verbatim>\<open>json_write\<close> sends \<^verbatim>\<open>json_parse\<close> reads back: a value whose strings hold no byte above
  127 and no NUL, whose numbers are integers below \<open>2^53\<close> and which is nested at most 128 deep is
  written, and its text parses to the same value.  Control characters, quotes and backslashes are
  covered by the escapes.\<close>

theorem json_round_trip:
  assumes "portable v" "ascii_json v" "nest v \<le> JSON_MAX_DEPTH"
  shows "\<exists>t. json_write v = Some t \<and> json_parse t = Some v"
proof -
  obtain t where "json_write v = Some t" using written_reads_back(1) [OF assms(1)] by auto
  then show ?thesis using json_parse_written assms recode_ascii(1) by auto
qed

text \<open>
  The parser of the language server encodes every byte of a string again as UTF-8.  A document
  that is UTF-8 text already, so every byte above 127 in it, is stored as the two-byte encoding of
  that byte: the text kept for an open document is not the text the client sent.\<close>

theorem json_reencodes_utf8:
  assumes "cut_nul s = s"
  shows "json_parse (write_escaped_string s) = Some (Json_String (as_utf8 s)) \<and>
    (as_utf8 s = s \<longleftrightarrow> ascii s)"
proof -
  have "json_parse (write_escaped_string s) = Some (Json_String (as_utf8 s))"
    using json_parse_written [of "Json_String s"] assms by (simp add: JSON_MAX_DEPTH_def)
  moreover have "ascii s" if "as_utf8 s = s"
    using length_as_utf8 [of s] that by (simp add: filter_empty_conv list_all_iff)
  ultimately show ?thesis using as_utf8_ascii by auto
qed

text \<open>A request as an editor sends one, and the two bytes of an e with an acute accent.\<close>

definition demo_request :: json where
  "demo_request = Json_Object [(''id'', Json_Number (double_of_int 7)), (''method'', Json_String ''initialize''),
     (''params'', Json_Object [(''rootUri'', Json_String [CHR ''a'', CHR 0x0A]), (''flags'', Json_Array [Json_Bool True, Json_Null])])]"

lemma exact_integer_7: "exact_integer (double_of_int 7)"
  by (simp add: exact_integer_def double_of_int_def round_double_def binary_exponent_def bit_length.simps
      ratio_pow2_def half_even_def double_int_def Let_def)

theorem json_round_trip_witness:
  "\<exists>t. json_write demo_request = Some t \<and> json_parse t = Some demo_request"
  by (rule json_round_trip)
    (simp_all add: demo_request_def exact_integer_7 cut_nul_def JSON_MAX_DEPTH_def)

theorem json_reencodes_utf8_witness:
  "json_parse (write_escaped_string [CHR 0xC3, CHR 0xA9])
     = Some (Json_String [CHR 0xC3, CHR 0x83, CHR 0xC2, CHR 0xA9])"
proof -
  have "as_utf8 [CHR 0xC3, CHR 0xA9] = [CHR 0xC3, CHR 0x83, CHR 0xC2, CHR 0xA9]" by code_simp
  then show ?thesis using json_reencodes_utf8 [of "[CHR 0xC3, CHR 0xA9]"] by (simp add: cut_nul_def)
qed

end
