(* ===== verification/Diag.thy ===== *)
theory Diag
  imports Reader_Results
begin

text \<open>
  \<^verbatim>\<open>diag.c\<close>: the registry of source files, the capture of diagnostics as data and the printed form
  that quotes and underlines the offending line.  The formatted message is an argument; standard error
  is the text written so far.
\<close>

section \<open>Source files\<close>

record source_file =
  sf_path :: string
  sf_text :: string

text \<open>Index 0 is reserved for tokens of no file; an empty registry is one that is not initialized.\<close>

definition SOURCE_FILE_UNKNOWN :: u32 where "SOURCE_FILE_UNKNOWN = 0"

definition source_registry_ensure_init :: "source_file list \<Rightarrow> source_file list" where
  "source_registry_ensure_init files =
     (if files = [] then [\<lparr>sf_path = ''<unknown>'', sf_text = []\<rparr>] else files)"

definition source_file_register :: "string \<Rightarrow> string \<Rightarrow> source_file list \<Rightarrow> u32 \<times> source_file list" where
  "source_file_register path src files =
     (let files = source_registry_ensure_init files @ [\<lparr>sf_path = path, sf_text = src\<rparr>]
      in (of_nat (length files - 1), files))"

definition source_file_get :: "u32 \<Rightarrow> source_file list \<Rightarrow> source_file \<times> source_file list" where
  "source_file_get file_id files =
     (let files = source_registry_ensure_init files;
          i = (if length files \<le> unat file_id then SOURCE_FILE_UNKNOWN else file_id)
      in (files ! unat i, files))"

definition source_registry_reset :: "source_file list" where
  "source_registry_reset = []"

fun skip_lines :: "u32 \<Rightarrow> u32 \<Rightarrow> string \<Rightarrow> u32 \<times> string" where
  "skip_lines cur line [] = (cur, [])"
| "skip_lines cur line (c # s) =
     (if cur < line then skip_lines (if c = newline then cur + 1 else cur) line s else (cur, c # s))"

definition source_line_text :: "string \<Rightarrow> u32 \<Rightarrow> string" where
  "source_line_text src line =
     (let (cur, s) = skip_lines 1 line src
      in if cur \<noteq> line then [] else takeWhile (\<lambda>c. c \<noteq> newline) s)"

section \<open>Reporting\<close>

record diagnostic =
  dg_message :: string
  dg_file_path :: string
  dg_line :: u32
  dg_col :: u32

record diag_state =
  dst_files :: "source_file list"
  dst_captured :: "diagnostic list"
  dst_capturing :: bool
  dst_also_print :: bool
  dst_stderr :: string

definition diag_capture_begin :: "bool \<Rightarrow> diag_state \<Rightarrow> diag_state" where
  "diag_capture_begin also_print st =
     st\<lparr>dst_captured := [], dst_capturing := True, dst_also_print := also_print\<rparr>"

definition diag_capture_end :: "diag_state \<Rightarrow> diagnostic list \<times> diag_state" where
  "diag_capture_end st = (dst_captured st, st\<lparr>dst_capturing := False\<rparr>)"

text \<open>Column and length of the underline, clamped to the quoted line.\<close>

definition underline :: "token \<Rightarrow> string \<Rightarrow> nat \<times> nat" where
  "underline tok line =
     (let col = (if 1 \<le> tok_col tok then unat (tok_col tok - 1) else 0);
          len = unat (of_nat (length (tok_text tok)) :: u32);
          len = (if len = 0 then 1 else len);
          col = (if length line < col then length line else col);
          len = (if length line < unat (of_nat col + of_nat len :: u32)
                 then (if col < length line then length line - col else 1) else len)
      in (col, len))"

definition diag_text :: "bool \<Rightarrow> source_file \<Rightarrow> token \<Rightarrow> string \<Rightarrow> string" where
  "diag_text color sf tok msg =
     (let esc = (\<lambda>s. if color then CHR 0x1B # s else []);
          red = esc ''[1;31m''; bold = esc ''[1m''; blue = esc ''[1;34m''; reset = esc ''[0m'';
          line = source_line_text (sf_text sf) (tok_line tok);
          number = dec (unat (tok_line tok)); margin = replicate (length number) (CHR '' '');
          (col, len) = underline tok line
      in red @ ''error:'' @ reset @ bold @ '' '' @ printf_text msg @ reset @ [newline]
         @ blue @ ''  --> '' @ reset @ printf_text (sf_path sf) @ '':'' @ dec (unat (tok_line tok)) @ '':''
           @ dec (unat (tok_col tok)) @ [newline]
         @ blue @ margin @ '' |'' @ reset @ [newline]
         @ blue @ number @ '' |'' @ reset @ '' '' @ printf_text line @ [newline]
         @ blue @ margin @ '' |'' @ reset @ '' '' @ replicate col (CHR '' '') @ red @ replicate len (CHR ''^'')
           @ reset @ [newline])"

definition diag_errorv :: "bool \<Rightarrow> token \<Rightarrow> string \<Rightarrow> diag_state \<Rightarrow> diag_state" where
  "diag_errorv color tok msg st =
     (let (sf, files) = source_file_get (tok_file_id tok) (dst_files st); st = st\<lparr>dst_files := files\<rparr>;
          d = \<lparr>dg_message = msg, dg_file_path = sf_path sf, dg_line = tok_line tok, dg_col = tok_col tok\<rparr>;
          st = (if dst_capturing st then st\<lparr>dst_captured := dst_captured st @ [d]\<rparr> else st)
      in if dst_capturing st \<and> \<not> dst_also_print st then st
         else st\<lparr>dst_stderr := dst_stderr st @ diag_text color sf tok msg\<rparr>)"

section \<open>The quoted line\<close>

lemma last_line_Cons: "newline \<in> set a \<or> c = newline \<Longrightarrow>
  takeWhile (\<lambda>c. c \<noteq> newline) (rev (c # a)) = takeWhile (\<lambda>c. c \<noteq> newline) (rev a)"
proof (cases "newline \<in> set a")
  case True
  then show ?thesis by (simp add: takeWhile_append1 [of newline])
next
  case False
  assume "newline \<in> set a \<or> c = newline"
  then have "c = newline" using False by simp
  moreover have nl: "x \<in> set (rev a) \<Longrightarrow> x \<noteq> newline" for x using False by auto
  moreover have "takeWhile (\<lambda>c. c \<noteq> newline) (rev a) = rev a" using nl by (simp add: takeWhile_eq_all_conv)
  moreover have "takeWhile (\<lambda>c. c \<noteq> newline) (rev a @ [newline]) = rev a @ takeWhile (\<lambda>c. c \<noteq> newline) [newline]"
    by (rule takeWhile_append2) (rule nl)
  moreover have "takeWhile (\<lambda>c. c \<noteq> newline) [newline] = []" by simp
  ultimately show ?thesis by (simp only: rev.simps append_Nil2)
qed

lemma count_list_zero: "count_list a x = 0 \<longleftrightarrow> x \<notin> set a"
  by (induction a) auto

lemma unat_Suc_below: "(cur :: u32) < line \<Longrightarrow> unat (cur + 1) = Suc (unat cur)"
proof -
  assume "cur < line"
  then have "unat cur + 1 < 2 ^ 32" using unsigned_less [of line, where ?'a = nat] by (simp add: word_less_nat_alt)
  then show ?thesis by (simp add: unat_word_ariths)
qed

lemma skip_lines_to:
  assumes "unat line = unat cur + count_list a newline"
  shows "fst (skip_lines cur line (a @ b)) = line \<and>
    takeWhile (\<lambda>c. c \<noteq> newline) (snd (skip_lines cur line (a @ b)))
      = rev (takeWhile (\<lambda>c. c \<noteq> newline) (rev a)) @ takeWhile (\<lambda>c. c \<noteq> newline) b"
  using assms
proof (induction a arbitrary: cur)
  case Nil
  then have "line = cur" by (simp add: word_unat_eq_iff)
  then show ?case by (cases b) auto
next
  case (Cons c a)
  show ?case
  proof (cases "count_list (c # a) newline = 0")
    case True
    then have "line = cur" using Cons.prems by (simp only: True) (simp add: word_unat_eq_iff)
    moreover have "newline \<notin> set (c # a)" using True unfolding count_list_zero .
    moreover from this have "takeWhile (\<lambda>c. c \<noteq> newline) (rev a @ [c]) = rev a @ [c]" by auto
    ultimately show ?thesis by (auto simp: takeWhile_append)
  next
    case False
    then have lt: "cur < line" using Cons.prems by (simp add: word_less_nat_alt)
    have "unat (cur + 1) = unat cur + 1" using unat_Suc_below [OF lt] by simp
    then have "unat line = unat (if c = newline then cur + 1 else cur) + count_list a newline"
      using Cons.prems by simp
    moreover have "newline \<in> set a \<or> c = newline" using False unfolding count_list_zero by auto
    ultimately show ?thesis
      using lt Cons.IH [of "if c = newline then cur + 1 else cur"] last_line_Cons [of a c] by auto
  qed
qed

lemma source_line_at:
  assumes "i \<le> length src" "length src + 1 < 2 ^ 32"
  shows "source_line_text src (line_after (take i src))
    = rev (takeWhile (\<lambda>c. c \<noteq> newline) (rev (take i src))) @ takeWhile (\<lambda>c. c \<noteq> newline) (drop i src)"
proof -
  have "count_list (take i src) newline \<le> length (take i src)" by (rule count_le_length)
  then have "unat (line_after (take i src)) = 1 + count_list (take i src) newline"
    unfolding line_after_def by (intro unat_of_nat_u32) (use assms in simp)
  then have "unat (line_after (take i src)) = unat (1 :: u32) + count_list (take i src) newline" by simp
  from skip_lines_to [OF this, of "drop i src"] show ?thesis
    by (cases "skip_lines 1 (line_after (take i src)) src") (simp add: source_line_text_def)
qed

lemma column_at:
  assumes "i \<le> length src" "length src + 1 < 2 ^ 32"
  shows "unat (col_after (take i src) - 1) = length (takeWhile (\<lambda>c. c \<noteq> newline) (rev (take i src)))"
    "1 \<le> col_after (take i src)"
proof -
  let ?n = "length (takeWhile (\<lambda>c. c \<noteq> newline) (rev (take i src)))"
  have "?n \<le> length (rev (take i src))" by (rule length_takeWhile_le)
  then have n: "?n + 1 < 2 ^ 32" using assms by simp
  then have "unat (col_after (take i src)) = 1 + ?n" unfolding col_after_def by (intro unat_of_nat_u32) (use n in simp)
  then show "1 \<le> col_after (take i src)" by (simp add: word_le_nat_alt)
  have "col_after (take i src) - 1 = of_nat ?n" by (simp add: col_after_def)
  then show "unat (col_after (take i src) - 1) = ?n" using n by (simp add: unat_of_nat_u32)
qed

lemma spec_string_text: "spec_string s buf = (Some t, r) \<Longrightarrow> length t \<le> length buf + length s"
  by (induction s buf rule: spec_string.induct) (auto split: if_splits list.splits)

lemma spec_next_text: "spec_next s = ((k, t), r) \<Longrightarrow> length t \<le> max 27 (length s)"
proof -
  assume a: "spec_next s = ((k, t), r)"
  have l: "length (spec_skip s) \<le> length s" by (rule spec_skip_length)
  have w: "length (takeWhile P (spec_skip s)) \<le> length s" for P
    by (rule le_trans [OF length_takeWhile_le l])
  have q: "length u \<le> length s" if "spec_string (tl (spec_skip s)) [] = (Some u, v)" for u v
    using spec_string_text [OF that] l by simp
  show ?thesis
    using a w q by (auto simp: spec_next_def Let_def le_max_iff_disj split: if_splits option.splits prod.splits)
qed

lemma kth_token_text: "length (tok_text (kth_token src fid k)) \<le> max 27 (length src)"
proof -
  let ?lx = "lexers k (lexer_init src fid)"
  have "length (rest_of ?lx) \<le> length src" using lexers_placed [of k src fid] by (simp add: rest_of_def)
  moreover obtain kd t r where sp: "spec_next (rest_of ?lx) = ((kd, t), r)" by (metis surj_pair)
  moreover have "t = tok_text (kth_token src fid k)"
    using lexer_next_spec [of ?lx] sp by (simp add: lexeme_of_def kth_token_def)
  ultimately show ?thesis using spec_next_text [OF sp] by (simp add: max_def split: if_splits)
qed

lemma atom_not_empty:
  assumes "tok_kind (kth_token src fid k) = TokenKind_Atom"
  shows "tok_text (kth_token src fid k) \<noteq> []"
proof -
  let ?s = "rest_of (lexers k (lexer_init src fid))"
  have n: "fst (spec_next ?s) = (TokenKind_Atom, tok_text (kth_token src fid k))"
    using lexer_next_spec [of "lexers k (lexer_init src fid)"] assms
    by (metis fst_conv kth_token_def lexeme_of_def)
  let ?c = "first_char (spec_skip ?s)"
  have "?c \<noteq> NUL" "bracket_kind ?c = None" "?c \<noteq> quote"
    using n bracket_kind_range [of ?c]
    by (auto simp: spec_next_def Let_def split: if_splits option.splits prod.splits)
  moreover have "\<not> char_is_space ?c" "?c \<noteq> CHR 0x3B" using spec_skip_first(1) [OF refl, of ?s] by auto
  ultimately have "\<not> char_is_delim ?c" by (simp add: bracket_or_delim)
  then show ?thesis
    using spec_next_atom [OF n] first_char_Cons [OF \<open>?c \<noteq> NUL\<close>] by (metis list.distinct(1) takeWhile.simps(2))
qed

lemma takeWhile_weaker:
  "(\<And>x. P x \<Longrightarrow> Q x) \<Longrightarrow> takeWhile P u = take (length (takeWhile P u)) (takeWhile Q u)"
  by (induction u) auto

lemma underline_fits:
  assumes "1 \<le> tok_col tok" "unat (tok_col tok - 1) \<le> length line"
    "length line + length (tok_text tok) + 1 < 2 ^ 32" "underline tok line = (c, n)"
  shows "c = unat (tok_col tok - 1)" "0 < n" "c + n \<le> max (length line) (c + 1)"
    "tok_text tok \<noteq> [] \<Longrightarrow> c + length (tok_text tok) \<le> length line \<Longrightarrow> n = length (tok_text tok)"
proof -
  have c: "c = unat (tok_col tok - 1)" using assms by (auto simp: underline_def Let_def split: if_splits)
  let ?l = "if tok_text tok = [] then 1 else length (tok_text tok)"
  have t: "unat (of_nat (length (tok_text tok)) :: u32) = length (tok_text tok)"
    using assms(3) by (simp add: unsigned_of_nat take_bit_nat_eq_self)
  have l: "0 < ?l" by simp
  have "c + ?l < 2 ^ 32" using assms(2,3) c by simp
  then have s: "unat (of_nat c + of_nat ?l :: u32) = c + ?l"
    unfolding of_nat_add [symmetric] by (rule unat_of_nat_u32)
  have n: "n = (if length line < c + ?l then (if c < length line then length line - c else 1) else ?l)"
    using assms(1,2,4) c s t l by (auto simp: underline_def Let_def split: if_splits)
  show "c = unat (tok_col tok - 1)" by (rule c)
  show "0 < n" "c + n \<le> max (length line) (c + 1)"
    "tok_text tok \<noteq> [] \<Longrightarrow> c + length (tok_text tok) \<le> length line \<Longrightarrow> n = length (tok_text tok)"
    using n by (auto split: if_splits)
qed



section \<open>The registry\<close>

text \<open>A registered file is what its id gets, until the next reset, whatever else is registered later.\<close>

lemma registered_file:
  assumes "source_file_register path src files = (fid, files')" "length files + 1 < 2 ^ 32"
  shows "fst (source_file_get fid (files' @ later)) = \<lparr>sf_path = path, sf_text = src\<rparr>" "fid \<noteq> SOURCE_FILE_UNKNOWN"
proof -
  let ?f = "source_registry_ensure_init files"
  have f: "files' = ?f @ [\<lparr>sf_path = path, sf_text = src\<rparr>]" "fid = of_nat (length ?f)"
    using assms(1) by (auto simp: source_file_register_def Let_def)
  have "0 < length ?f" "length ?f < 2 ^ 32" using assms(2) by (auto simp: source_registry_ensure_init_def)
  then have "unat fid = length ?f" using f(2) by (simp add: unat_of_nat_u32)
  moreover from this \<open>0 < length ?f\<close> have "fid \<noteq> 0" by auto
  moreover have "source_registry_ensure_init (files' @ later) = files' @ later"
    using f(1) by (simp add: source_registry_ensure_init_def)
  ultimately show "fst (source_file_get fid (files' @ later)) = \<lparr>sf_path = path, sf_text = src\<rparr>"
    "fid \<noteq> SOURCE_FILE_UNKNOWN"
    using f(1) by (simp_all add: source_file_get_def SOURCE_FILE_UNKNOWN_def Let_def nth_append)
qed

text \<open>While only capturing, nothing is printed and every report is kept in order.\<close>

lemma captured_only:
  assumes "dst_capturing st" "\<not> dst_also_print st"
  shows "dst_stderr (diag_errorv color tok msg st) = dst_stderr st"
    "map dg_message (dst_captured (diag_errorv color tok msg st)) = map dg_message (dst_captured st) @ [msg]"
  using assms by (simp_all add: diag_errorv_def Let_def split: prod.split)

end
