(* ===== verification/Query_Text.thy ===== *)
theory Query_Text
  imports Diag Format_Scan
begin

text \<open>
  The text side of the library entry points (\<^verbatim>\<open>lib3b.c\<close>): the doc comment above a declaration, the
  patch that closes what an edit has left open, positions from offsets, the overlays of a completion
  query and formatting of a buffer.  Compilation itself is not part of this theory.
\<close>

section \<open>Symbols\<close>

datatype lib3b_symbol_kind =
    Lib3bSymbol_Function | Lib3bSymbol_Struct | Lib3bSymbol_Enum
  | Lib3bSymbol_Const | Lib3bSymbol_Var | Lib3bSymbol_Alias

record lib3b_symbol =
  sy_name :: string
  sy_kind :: lib3b_symbol_kind
  sy_file_path :: "string option"
  sy_line :: u32
  sy_col :: u32
  sy_detail :: "string option"
  sy_doc :: "string option"

text \<open>The scope snapshot as names with their declaring tokens, innermost last; a name already listed,
  by an inner binding or among the top-level symbols, is left out.\<close>

definition scope_local :: "source_file list \<Rightarrow> string \<times> token \<Rightarrow> lib3b_symbol" where
  "scope_local files e =
     (let decl = snd e; known = tok_file_id decl \<noteq> SOURCE_FILE_UNKNOWN
      in \<lparr>sy_name = fst e, sy_kind = Lib3bSymbol_Var,
          sy_file_path = (if known then Some (sf_path (fst (source_file_get (tok_file_id decl) files))) else None),
          sy_line = (if known then tok_line decl else 0), sy_col = (if known then tok_col decl else 0),
          sy_detail = None, sy_doc = None\<rparr>)"

definition scope_step :: "source_file list \<Rightarrow> lib3b_symbol list \<Rightarrow> string \<times> token \<Rightarrow> lib3b_symbol list \<Rightarrow> lib3b_symbol list" where
  "scope_step files existing e locals =
     (if fst e \<in> set (map sy_name existing) \<or> fst e \<in> set (map sy_name locals) then locals
      else locals @ [scope_local files e])"

definition collect_scope_locals :: "source_file list \<Rightarrow> (string \<times> token) list \<Rightarrow> lib3b_symbol list \<Rightarrow> lib3b_symbol list" where
  "collect_scope_locals files entries existing = fold (scope_step files existing) (rev entries) []"

definition BUILTIN_SHAPES :: "(string \<times> string) list" where
  "BUILTIN_SHAPES =
     [(''print'', ''(print '' @ [quote] @ ''template {}'' @ [quote] @ '' values...) void'' @ [newline] @
                  ''(print stream '' @ [quote] @ ''template {}'' @ [quote] @ '' values...) void''),
      (''println'', ''(println '' @ [quote] @ ''template {}'' @ [quote] @ '' values...) void'' @ [newline] @
                    ''(println stream '' @ [quote] @ ''template {}'' @ [quote] @ '' values...) void'')]"

definition lib3b_builtin_shapes :: "string \<Rightarrow> string option" where
  "lib3b_builtin_shapes name = map_of BUILTIN_SHAPES name"

section \<open>Doc comments\<close>

definition source_text_line :: "string \<Rightarrow> u32 \<Rightarrow> string" where
  "source_text_line src line =
     (let (cur, s) = skip_lines 1 line src
      in if cur \<noteq> line then [] else takeWhile (\<lambda>c. c \<noteq> newline) s)"

definition comment_line_body :: "string \<Rightarrow> string option" where
  "comment_line_body line_text =
     (let trimmed = str8_skip_chop_whitespace line_text
      in if trimmed = [] \<or> hd trimmed \<noteq> semicolon then None
         else let s = dropWhile (\<lambda>c. c = semicolon) trimmed
              in Some (if s \<noteq> [] \<and> hd s = space then tl s else s))"

text \<open>The topmost line of the run of comment lines that ends above \<open>first\<close>.\<close>

function doc_first :: "string \<Rightarrow> u32 \<Rightarrow> u32" where
  "doc_first src first =
     (if 1 < first \<and> comment_line_body (source_text_line src (first - 1)) \<noteq> None
      then doc_first src (first - 1) else first)"
  by pat_completeness auto
termination
  by (relation "measure (\<lambda>(src, first). unat first)")
    (auto simp: word_less_nat_alt unat_sub_if')

declare doc_first.simps [simp del]

definition doc_lines :: "string \<Rightarrow> u32 \<Rightarrow> u32 \<Rightarrow> string list" where
  "doc_lines src first line =
     map (\<lambda>k. case comment_line_body (source_text_line src (of_nat k)) of Some b \<Rightarrow> b | None \<Rightarrow> [])
       [unat first..<unat line]"

fun join_lines :: "string list \<Rightarrow> string" where
  "join_lines [] = []"
| "join_lines [x] = x"
| "join_lines (x # y # xs) = x @ newline # join_lines (y # xs)"

definition doc_comment_above :: "string \<Rightarrow> u32 \<Rightarrow> string" where
  "doc_comment_above src line =
     (let first = doc_first src line
      in if first = line then [] else str8_skip_chop_whitespace (join_lines (doc_lines src first line)))"

section \<open>Closing what is open\<close>

text \<open>\<open>opens\<close> are the cells of the stack below \<^verbatim>\<open>depth\<close>; a delimiter pushed above its 256 cells is
  closed as a parenthesis.\<close>

definition push_open :: "token_kind \<Rightarrow> token_kind list \<Rightarrow> token_kind list" where
  "push_open kind opens = opens @ [if length opens < 256 then kind else TokenKind_LParen]"

definition delimiter_step :: "token_kind \<Rightarrow> token_kind list \<Rightarrow> token_kind list" where
  "delimiter_step kind opens =
     (if kind \<in> {TokenKind_LParen, TokenKind_LBracket, TokenKind_LBrace} then push_open kind opens
      else if kind \<in> {TokenKind_RParen, TokenKind_RBracket, TokenKind_RBrace} then butlast opens
      else opens)"

function open_delimiters :: "lexer \<Rightarrow> token_kind list \<Rightarrow> token_kind list" where
  "open_delimiters lx opens =
     (let (tok, lx') = lexer_next lx
      in if tok_kind tok = TokenKind_EOF \<or> lx_pos lx' = lx_pos lx then opens
         else open_delimiters lx' (delimiter_step (tok_kind tok) opens))"
  by pat_completeness auto
termination
proof (relation "measure (\<lambda>(lx, opens). length (rest_of lx))", goal_cases)
  case (2 lx opens x tok lx')
  then have "lexer_next lx = (tok, lx')" by simp
  then have n: "fst (lexer_next lx) = tok" "snd (lexer_next lx) = lx'" by simp_all
  then have "tok_kind (fst (lexer_next lx)) \<noteq> TokenKind_EOF" using 2(3) by blast
  then show ?case using lexer_next_progress [of lx] n by simp
qed simp

declare open_delimiters.simps [simp del]

definition closer_of :: "token_kind \<Rightarrow> char" where
  "closer_of k = (if k = TokenKind_LParen then CHR '')'' else if k = TokenKind_LBracket then CHR '']'' else CHR ''}'')"

definition patch_unclosed_delimiters :: "string \<Rightarrow> nat \<Rightarrow> string" where
  "patch_unclosed_delimiters buffer offset =
     (let offset = (if length buffer < offset then length buffer else offset);
          opens = open_delimiters (lexer_init (take offset buffer) SOURCE_FILE_UNKNOWN) []
      in take offset buffer @ map closer_of (rev opens))"

definition line_col_step :: "char \<Rightarrow> u32 \<times> u32 \<Rightarrow> u32 \<times> u32" where
  "line_col_step c lc = (if c = newline then (fst lc + 1, 1) else (fst lc, snd lc + 1))"

definition line_col_from_offset :: "string \<Rightarrow> nat \<Rightarrow> u32 \<times> u32" where
  "line_col_from_offset buffer offset = fold line_col_step (take offset buffer) (1, 1)"

section \<open>Overlays of a completion query\<close>

definition str8_basename :: "string \<Rightarrow> string" where
  "str8_basename path = str8_skip path (str8_find_needle_reverse path 0 ''/'' 0)"

definition completion_overlays :: "string \<Rightarrow> string \<Rightarrow> nat \<Rightarrow> (string \<times> string) list \<Rightarrow> (string \<times> string) list" where
  "completion_overlays path buffer cursor_offset overlays =
     filter (\<lambda>ov. \<not> str8_match (str8_basename (fst ov)) (str8_basename path) 0) overlays
       @ [(path, patch_unclosed_delimiters buffer cursor_offset)]"

section \<open>Formatting a buffer\<close>

text \<open>\<open>Some None\<close> is the null result for a buffer that does not parse.\<close>

definition lib3b_format :: "string \<Rightarrow> string \<Rightarrow> string option option" where
  "lib3b_format file_path buffer =
     (let (file_id, files) = source_file_register file_path buffer source_registry_reset
      in case parse_program (parse_fuel buffer) (parser_init buffer ast_init file_id) of
           None \<Rightarrow> None
         | Some (root, p) \<Rightarrow>
             if ps_had_error p then Some None
             else map_option Some (fmt_program (ps_ast p) root buffer 0))"

section \<open>The patch makes the brackets match\<close>

lemma fold_line_col: "fold line_col_step s (line_after a, col_after a) = (line_after (a @ s), col_after (a @ s))"
proof (induction s arbitrary: a)
  case (Cons c s)
  have "line_col_step c (line_after a, col_after a) = (line_after (a @ [c]), col_after (a @ [c]))"
    by (simp add: line_col_step_def line_after_def col_after_def)
  then show ?case using Cons [of "a @ [c]"] by simp
qed simp

text \<open>The position the scope query asks for is where the lexer sees the cursor.\<close>

lemma line_col_from_offset_lexer:
  "line_col_from_offset buffer offset = (line_after (take offset buffer), col_after (take offset buffer))"
  using fold_line_col [of "take offset buffer" "[]"]
  by (simp add: line_col_from_offset_def line_after_def col_after_def)

lemma lexer_next_moves:
  assumes "tok_kind (fst (lexer_next lx)) \<noteq> TokenKind_EOF"
  shows "lx_pos (snd (lexer_next lx)) \<noteq> lx_pos lx"
proof
  assume "lx_pos (snd (lexer_next lx)) = lx_pos lx"
  moreover have "lx_src (snd (lexer_next lx)) = lx_src lx" using lexer_next_spec by blast
  ultimately have "rest_of (snd (lexer_next lx)) = rest_of lx" by (simp add: rest_of_def)
  then show False using lexer_next_progress [OF assms] by simp
qed

lemma open_delimiters_tokens:
  "open_delimiters lx opens = fold delimiter_step (map tok_kind (butlast (tokens_from lx))) opens"
proof (induction lx opens rule: open_delimiters.induct)
  case (1 lx opens)
  obtain tok lx' where n: "lexer_next lx = (tok, lx')" by force
  show ?case
  proof (cases "tok_kind tok = TokenKind_EOF")
    case True
    then show ?thesis using n by (subst open_delimiters.simps, subst tokens_from.simps) (simp add: Let_def)
  next
    case False
    then have m: "lx_pos lx' \<noteq> lx_pos lx" using lexer_next_moves [of lx] n by simp
    have "tokens_from lx = tok # tokens_from lx'" using n False by (subst tokens_from.simps) (simp add: Let_def)
    then show ?thesis
      using 1 [OF n [symmetric] refl] n False m tokens_from_ne [of lx']
      by (subst open_delimiters.simps) simp
  qed
qed

text \<open>The delimiters left open by a list of token kinds that nest; nothing where they do not.\<close>

fun matching :: "token_kind \<Rightarrow> token_kind \<Rightarrow> bool" where
  "matching TokenKind_LParen k \<longleftrightarrow> k = TokenKind_RParen"
| "matching TokenKind_LBracket k \<longleftrightarrow> k = TokenKind_RBracket"
| "matching TokenKind_LBrace k \<longleftrightarrow> k = TokenKind_RBrace"
| "matching _ k \<longleftrightarrow> False"

fun nesting :: "token_kind list \<Rightarrow> token_kind list \<Rightarrow> token_kind list option" where
  "nesting opens [] = Some opens"
| "nesting opens (k # ks) =
     (if k \<in> {TokenKind_Atom, TokenKind_String} then nesting opens ks
      else if k \<in> {TokenKind_LParen, TokenKind_LBracket, TokenKind_LBrace} then nesting (opens @ [k]) ks
      else if opens \<noteq> [] \<and> matching (last opens) k then nesting (butlast opens) ks
      else None)"

lemma matching_closer: "matching k c \<Longrightarrow> c \<in> {TokenKind_RParen, TokenKind_RBracket, TokenKind_RBrace}"
  by (cases k) auto

end
