(* ===== verification/Query_Props.thy ===== *)
theory Query_Props
  imports Query_Text
begin

text \<open>
  The patch of a completion query: token kinds that nest up to the cursor spell trees once the closers
  are appended, and what is appended is read as those closers when the cursor is in code.
\<close>

section \<open>Nested kinds spell trees\<close>

lemma matching_brackets: "matching k c \<Longrightarrow> \<exists>nk. brackets nk = Some (k, c)"
  by (cases k) (simp_all, (metis brackets.simps(1-3))+)

lemma nesting_splits:
  "nesting (os @ [k]) (map tok_kind toks) = Some [] \<Longrightarrow>
     \<exists>xs y ys ts. toks = xs @ y # ys \<and> spells_all xs ts \<and> matching k (tok_kind y) \<and> nesting os (map tok_kind ys) = Some []"
proof (induction "length toks" arbitrary: os k toks rule: less_induct)
  case less
  show ?case
  proof (cases toks)
    case (Cons x rest)
    consider (leaf) "tok_kind x = TokenKind_Atom \<or> tok_kind x = TokenKind_String"
      | (opener) "tok_kind x \<in> {TokenKind_LParen, TokenKind_LBracket, TokenKind_LBrace}"
      | (closer) "matching k (tok_kind x)" "nesting os (map tok_kind rest) = Some []"
      using less.prems Cons by (fastforce split: if_splits)
    then show ?thesis
    proof cases
      case leaf
      then have "nesting (os @ [k]) (map tok_kind rest) = Some []" using less.prems Cons by auto
      with less.hyps [of rest] Cons obtain xs y ys ts where
        s: "rest = xs @ y # ys" "spells_all xs ts" "matching k (tok_kind y)" "nesting os (map tok_kind ys) = Some []"
        by fastforce
      obtain t where "spells [x] t" using leaf spells_atom spells_string by blast
      then have "spells_all ([x] @ xs) (t # ts)" using s(2) by (rule spells_cons)
      then show ?thesis using s Cons by (intro exI [of _ "[x] @ xs"] exI [of _ y] exI [of _ ys]) auto
    next
      case opener
      then have "nesting ((os @ [k]) @ [tok_kind x]) (map tok_kind rest) = Some []"
        using less.prems Cons by auto
      with less.hyps [of rest] Cons obtain xs y ys ts where
        s: "rest = xs @ y # ys" "spells_all xs ts" "matching (tok_kind x) (tok_kind y)"
        "nesting (os @ [k]) (map tok_kind ys) = Some []"
        by fastforce
      obtain nk where "brackets nk = Some (tok_kind x, tok_kind y)" using matching_brackets [OF s(3)] by blast
      then have seq: "spells (x # xs @ [y]) (TSeq nk x ts)" using s(2) by (rule spells_seq)
      have "length ys < length toks" using s(1) Cons by simp
      from less.hyps [OF this s(4)] obtain xs' y' ys' ts' where
        r: "ys = xs' @ y' # ys'" "spells_all xs' ts'" "matching k (tok_kind y')" "nesting os (map tok_kind ys') = Some []"
        by blast
      have "spells_all ((x # xs @ [y]) @ xs') (TSeq nk x ts # ts')" using seq r(2) by (rule spells_cons)
      then show ?thesis using s(1) r Cons
        by (intro exI [of _ "(x # xs @ [y]) @ xs'"] exI [of _ y'] exI [of _ ys']) auto
    next
      case closer
      then show ?thesis using Cons spells_nil by (intro exI [of _ "[]"] exI [of _ x] exI [of _ rest]) auto
    qed
  qed (use less.prems in simp)
qed

lemma nesting_spells: "nesting [] (map tok_kind toks) = Some [] \<Longrightarrow> \<exists>ts. spells_all toks ts"
proof (induction "length toks" arbitrary: toks rule: less_induct)
  case less
  show ?case
  proof (cases toks)
    case Nil
    then show ?thesis using spells_nil by blast
  next
    case (Cons x rest)
    show ?thesis
    proof (cases "tok_kind x = TokenKind_Atom \<or> tok_kind x = TokenKind_String")
      case True
      then have "nesting [] (map tok_kind rest) = Some []" using less.prems Cons by auto
      with less.hyps [of rest] Cons obtain ts where "spells_all rest ts" by auto
      moreover obtain t where "spells [x] t" using True spells_atom spells_string by blast
      ultimately have "spells_all ([x] @ rest) (t # ts)" by (intro spells_cons)
      then show ?thesis using Cons by auto
    next
      case False
      then have n: "nesting ([] @ [tok_kind x]) (map tok_kind rest) = Some []"
        "tok_kind x \<in> {TokenKind_LParen, TokenKind_LBracket, TokenKind_LBrace}"
        using less.prems Cons by (auto split: if_splits)
      from nesting_splits [OF n(1)] obtain xs y ys ts where
        s: "rest = xs @ y # ys" "spells_all xs ts" "matching (tok_kind x) (tok_kind y)" "nesting [] (map tok_kind ys) = Some []"
        by blast
      obtain nk where "brackets nk = Some (tok_kind x, tok_kind y)" using matching_brackets [OF s(3)] by blast
      then have seq: "spells (x # xs @ [y]) (TSeq nk x ts)" using s(2) by (rule spells_seq)
      have "length ys < length toks" using s(1) Cons by simp
      from less.hyps [OF this s(4)] obtain ts' where "spells_all ys ts'" by blast
      with seq have "spells_all ((x # xs @ [y]) @ ys) (TSeq nk x ts # ts')" by (rule spells_cons)
      then show ?thesis using s(1) Cons by auto
    qed
  qed
qed

section \<open>The stack of the patch\<close>

text \<open>What the 256 cells keep of the delimiters that are open.\<close>

definition cells :: "token_kind list \<Rightarrow> token_kind list" where
  "cells opens = take 256 opens @ replicate (length opens - 256) TokenKind_LParen"

lemma cells_short: "length opens \<le> 256 \<Longrightarrow> cells opens = opens"
  by (simp add: cells_def)

lemma cells_snoc: "cells (opens @ [k]) = push_open k (cells opens)"
proof (cases "length opens < 256")
  case False
  then have "length (opens @ [k]) - 256 = Suc (length opens - 256)" by simp
  then show ?thesis using False by (simp only: cells_def push_open_def replicate_Suc) (simp add: replicate_append_same)
qed (simp add: cells_def push_open_def)

lemma delimiter_step_simps:
  "k \<in> {TokenKind_Atom, TokenKind_String} \<Longrightarrow> delimiter_step k opens = opens"
  "k \<in> {TokenKind_LParen, TokenKind_LBracket, TokenKind_LBrace} \<Longrightarrow> delimiter_step k opens = push_open k opens"
  "k \<in> {TokenKind_RParen, TokenKind_RBracket, TokenKind_RBrace} \<Longrightarrow> delimiter_step k opens = butlast opens"
  by (auto simp: delimiter_step_def)

lemma nesting_steps:
  "nesting opens kinds = Some opens' \<Longrightarrow> fold delimiter_step kinds (cells opens) = cells opens'"
proof (induction opens kinds rule: nesting.induct)
  case (2 opens k ks)
  consider "k \<in> {TokenKind_Atom, TokenKind_String}" "nesting opens ks = Some opens'"
    | "k \<in> {TokenKind_LParen, TokenKind_LBracket, TokenKind_LBrace}" "nesting (opens @ [k]) ks = Some opens'"
    | os o' where "opens = os @ [o']" "matching o' k" "nesting os ks = Some opens'"
    using 2(4) by (cases opens rule: rev_cases) (auto split: if_splits)
  then show ?case
  proof cases
    case 1
    then show ?thesis using 2(1) by (simp add: delimiter_step_simps(1))
  next
    case 2
    then show ?thesis using "2.IH"(2) by (auto simp: delimiter_step_simps(2) cells_snoc)
  next
    case 3
    then have k: "k \<in> {TokenKind_RParen, TokenKind_RBracket, TokenKind_RBrace}" by (auto dest: matching_closer)
    then have "fold delimiter_step ks (cells os) = cells opens'" using "2.IH"(3) 3 by auto
    moreover have "butlast (cells opens) = cells os" by (simp add: 3(1) cells_snoc push_open_def)
    ultimately show ?thesis using k by (simp add: delimiter_step_simps(3))
  qed
qed simp

lemma nesting_append:
  "nesting opens (ks @ ls) = (case nesting opens ks of None \<Rightarrow> None | Some o' \<Rightarrow> nesting o' ls)"
  by (induction opens ks rule: nesting.induct) auto

lemma nesting_openers:
  "nesting opens ks = Some o' \<Longrightarrow> set opens \<subseteq> {TokenKind_LParen, TokenKind_LBracket, TokenKind_LBrace}
   \<Longrightarrow> set o' \<subseteq> {TokenKind_LParen, TokenKind_LBracket, TokenKind_LBrace}"
proof (induction opens ks rule: nesting.induct)
  case (2 opens k ks)
  then show ?case by (auto split: if_splits dest: in_set_butlastD)
qed simp

definition closer_kind :: "token_kind \<Rightarrow> token_kind" where
  "closer_kind k = (if k = TokenKind_LParen then TokenKind_RParen else if k = TokenKind_LBracket then TokenKind_RBracket
     else TokenKind_RBrace)"

lemma nesting_closers:
  "set opens \<subseteq> {TokenKind_LParen, TokenKind_LBracket, TokenKind_LBrace} \<Longrightarrow>
   nesting opens (map closer_kind (rev opens)) = Some []"
  by (induction opens rule: rev_induct) (auto simp: closer_kind_def)

section \<open>What is appended is read\<close>

text \<open>Where in the notation a text ends.\<close>

datatype place = In_Code | In_Comment | In_String | In_Escape

fun place_step :: "char \<Rightarrow> place \<Rightarrow> place" where
  "place_step c In_Code = (if c = quote then In_String else if c = semicolon then In_Comment else In_Code)"
| "place_step c In_Comment = (if c = newline then In_Code else In_Comment)"
| "place_step c In_String = (if c = quote then In_Code else if c = backslash then In_Escape else In_String)"
| "place_step c In_Escape = In_String"

definition place_at_end :: "string \<Rightarrow> place" where
  "place_at_end s = fold place_step s In_Code"

lemma comment_place:
  "fold place_step s In_Comment = In_Code \<Longrightarrow>
   newline \<in> set s \<and> fold place_step (dropWhile (\<lambda>d. d \<noteq> newline) s) In_Code = In_Code"
  by (induction s) (auto split: if_splits)

lemma atom_place:
  "fold place_step s In_Code = In_Code \<Longrightarrow> fold place_step (dropWhile atom_char s) In_Code = In_Code"
proof (induction s)
  case (Cons c s)
  show ?case
  proof (cases "atom_char c")
    case True
    then have "c \<noteq> quote" "c \<noteq> semicolon" using delim_chars(4,5) by auto
    then show ?thesis using Cons True by simp
  qed (use Cons in simp)
qed simp

lemma string_place:
  "fold place_step s In_String = In_Code \<Longrightarrow> NUL \<notin> set s \<Longrightarrow>
   \<exists>t s'. spec_string s buf = (Some t, s') \<and> spec_string (s @ r) buf = (Some t, s' @ r)
     \<and> fold place_step s' In_Code = In_Code \<and> length s' < length s \<and> NUL \<notin> set s'"
proof (induction s buf rule: spec_string.induct)
  case (2 c s buf)
  show ?case
  proof (cases "c = backslash")
    case True
    then obtain e s' where s: "s = e # s'" "e \<noteq> NUL" using 2(3,4) by (cases s) auto
    then show ?thesis using 2 True by fastforce
  next
    case False
    then show ?thesis using 2 by (cases "c = quote") fastforce+
  qed
qed simp

lemma dropWhile_tail: "length (dropWhile P s) \<le> length s" "NUL \<notin> set s \<Longrightarrow> NUL \<notin> set (dropWhile P s)"
  by (auto simp: length_dropWhile_le dest: set_dropWhileD)

lemma items_then:
  "place_at_end s = In_Code \<Longrightarrow> NUL \<notin> set s \<Longrightarrow> r = [] \<or> char_is_delim (hd r) \<Longrightarrow> items (s @ r) = items s @ items r"
  unfolding place_at_end_def
proof (induction "length s" arbitrary: s rule: less_induct)
  case less
  show ?case
  proof (cases s)
    case (Cons c u)
    have nul: "NUL \<notin> set u" "c \<noteq> NUL" using less.prems Cons by auto
    show ?thesis
    proof (cases c rule: char_cases)
      case space
      moreover have "c \<noteq> quote" "c \<noteq> semicolon" using space space_semicolon by auto
      ultimately show ?thesis using less Cons nul by (simp add: items_space)
    next
      case comment
      note p = comment_place [of u]
      have "fold place_step (dropWhile (\<lambda>d. d \<noteq> newline) u) In_Code = In_Code" "newline \<in> set u"
        using p less.prems(1) Cons comment by (auto simp: space_semicolon)
      then have "items (dropWhile (\<lambda>d. d \<noteq> newline) u @ r) = items (dropWhile (\<lambda>d. d \<noteq> newline) u) @ items r"
        using dropWhile_tail nul less.prems(3) Cons by (intro less.hyps) (auto simp: le_imp_less_Suc)
      then show ?thesis using Cons comment \<open>newline \<in> set u\<close>
        by (simp add: items_comment takeWhile_append1 [of newline] dropWhile_append1 [of newline])
    next
      case (bracket k)
      moreover have "c \<noteq> quote" "c \<noteq> semicolon" using bracket by (auto simp: bracket_kind_def split: if_splits)
      ultimately show ?thesis using less Cons nul by (simp add: items_bracket)
    next
      case quote
      obtain t s' where st: "spec_string u [] = (Some t, s')" "spec_string (u @ r) [] = (Some t, s' @ r)"
        "fold place_step s' In_Code = In_Code" "length s' < length u" "NUL \<notin> set s'"
        using string_place [of u "[]" r] less.prems(1) Cons quote nul by auto
      then have "items (s' @ r) = items s' @ items r"
        using less.prems(3) Cons by (intro less.hyps) auto
      then show ?thesis using Cons quote st by (simp add: items_string)
    next
      case atom
      then have cq: "c \<noteq> quote" "c \<noteq> semicolon" using delim_chars by auto
      then have "fold place_step (dropWhile atom_char u) In_Code = In_Code"
        using less.prems(1) Cons atom_place by simp
      then have i: "items (dropWhile atom_char u @ r) = items (dropWhile atom_char u) @ items r"
        using dropWhile_tail nul less.prems(3) Cons by (intro less.hyps) (auto simp: le_imp_less_Suc)
      have "takeWhile atom_char (u @ r) = takeWhile atom_char u \<and> dropWhile atom_char (u @ r) = dropWhile atom_char u @ r"
        using less.prems(3) by (induction u) (cases r; auto)+
      then show ?thesis using Cons atom i by (simp add: items_atom)
    qed (use nul in simp)
  qed simp
qed

lemma items_closers: "items (map closer_of opens) = map (\<lambda>k. Lx (closer_kind k, [closer_of k])) opens"
  by (induction opens) (auto simp: closer_of_def closer_kind_def items_bracket bracket_kind_def)

lemma lexs_Lx: "lexs (map (\<lambda>k. Lx (f k)) ks) = map f ks"
  by (induction ks) auto

text \<open>
  C33: A query for completions repairs the buffer: where the cursor is in code, not inside a string
  literal or a comment, the delimiters before it nest and at most 256 are open, the text up to the cursor
  with the closers that \<^verbatim>\<open>patch_unclosed_delimiters\<close> appends reads as a list of trees, so the parser
  reports an error on it only for a form with more than 65535 children.\<close>

theorem patched_buffer_reads:
  assumes nul: "NUL \<notin> set buffer" and place: "place_at_end (take offset buffer) = In_Code"
    and nest: "nesting [] (map tok_kind (source_tokens (take offset buffer) fid)) = Some opens" "length opens \<le> 256"
    and len: "length (patch_unclosed_delimiters buffer offset) + 1 < 2 ^ 32"
  shows "\<exists>ts root p. spells_all (source_tokens (patch_unclosed_delimiters buffer offset) fid) ts
    \<and> parse_program (parse_fuel (patch_unclosed_delimiters buffer offset))
        (parser_init (patch_unclosed_delimiters buffer offset) ast_init fid) = Some (root, p)
    \<and> (ps_had_error p \<longrightarrow> \<not> list_all narrow ts)"
proof -
  let ?u = "take offset buffer" and ?new = "patch_unclosed_delimiters buffer offset"
  have nu: "NUL \<notin> set ?u" using nul by (auto dest: in_set_takeD)
  have kinds: "map tok_kind (source_tokens s f) = map fst (lexs (items s))" if "NUL \<notin> set s" for s f
    using arg_cong [OF source_lexemes [OF that, of f], of "map fst"] by (simp add: lexeme_of_def o_def)
  have op: "set opens \<subseteq> {TokenKind_LParen, TokenKind_LBracket, TokenKind_LBrace}"
    using nesting_openers [OF nest(1)] by simp
  have "open_delimiters (lexer_init ?u SOURCE_FILE_UNKNOWN) [] = opens"
    using nesting_steps [OF nest(1)] nest(2) kinds [OF nu, of fid] kinds [OF nu, of SOURCE_FILE_UNKNOWN]
    by (simp add: open_delimiters_tokens source_tokens_def cells_short)
  then have new: "?new = ?u @ map closer_of (rev opens)"
    by (cases "length buffer < offset") (simp_all add: patch_unclosed_delimiters_def Let_def)
  have nn: "NUL \<notin> set ?new" using nu unfolding new by (auto simp: closer_of_def)
  have "map closer_of (rev opens) = [] \<or> char_is_delim (hd (map closer_of (rev opens)))"
    by (cases "rev opens") (auto simp: closer_of_def char_is_delim_def)
  then have "items ?new = items ?u @ map (\<lambda>k. Lx (closer_kind k, [closer_of k])) (rev opens)"
    unfolding new using items_then [OF place nu] items_closers by metis
  then have "map tok_kind (source_tokens ?new fid)
      = map tok_kind (source_tokens ?u fid) @ map closer_kind (rev opens)"
    unfolding kinds [OF nn] kinds [OF nu] by (simp add: lexs_Lx o_def)
  then have "nesting [] (map tok_kind (source_tokens ?new fid)) = Some []"
    using nest(1) nesting_closers [OF op] by (simp add: nesting_append)
  then obtain ts where ts: "spells_all (source_tokens ?new fid) ts" using nesting_spells by blast
  obtain root p where p: "parse_program (parse_fuel ?new) (parser_init ?new ast_init fid) = Some (root, p)"
    using parse_program_defined [OF order_refl] by blast
  then show ?thesis using ts parse_program_complete [OF ts _ len order_refl p] by blast
qed

definition half_typed :: string where "half_typed = ''(f [x ( ) ''"

lemma tokens_kinds_demo:
  "map tok_kind (butlast (tokens_from (lexer_init ''(f [x '' 1)))
    = [TokenKind_LParen, TokenKind_Atom, TokenKind_LBracket, TokenKind_Atom]"
  by code_simp

theorem patched_buffer_reads_witness:
  "\<exists>ts root p. spells_all (source_tokens ''(f [x ])'' 1) ts
    \<and> parse_program (parse_fuel ''(f [x ])'') (parser_init ''(f [x ])'' ast_init 1) = Some (root, p)
    \<and> (ps_had_error p \<longrightarrow> \<not> list_all narrow ts)"
proof -
  have t: "take 6 half_typed = ''(f [x ''" by (simp add: half_typed_def)
  have e: "patch_unclosed_delimiters half_typed 6 = ''(f [x ])''" by code_simp
  have n: "nesting [] (map tok_kind (source_tokens (take 6 half_typed) 1)) = Some [TokenKind_LParen, TokenKind_LBracket]"
    unfolding t source_tokens_def tokens_kinds_demo by simp
  have "place_at_end (take 6 half_typed) = In_Code" unfolding t by code_simp
  moreover have "NUL \<notin> set half_typed" by (simp add: half_typed_def)
  ultimately show ?thesis using patched_buffer_reads [of half_typed 6 1, OF _ _ n] unfolding e by simp
qed

text \<open>With the cursor in a comment the closers are appended to the comment and close nothing.\<close>

lemma patch_in_comment:
  "patch_unclosed_delimiters ''(f ; note'' 9 = ''(f ; note)''
   \<and> map tok_kind (source_tokens ''(f ; note)'' 1) = [TokenKind_LParen, TokenKind_Atom]"
  unfolding source_tokens_def by code_simp

section \<open>The innermost binding wins\<close>

lemma scope_step_distinct:
  assumes "distinct (map sy_name acc)" "set (map sy_name acc) \<inter> set (map sy_name existing) = {}"
  shows "distinct (map sy_name (scope_step files existing e acc))"
    "set (map sy_name (scope_step files existing e acc)) \<inter> set (map sy_name existing) = {}"
proof -
  have "sy_name (scope_local files e) = fst e" by (simp add: scope_local_def Let_def)
  then show "distinct (map sy_name (scope_step files existing e acc))"
    "set (map sy_name (scope_step files existing e acc)) \<inter> set (map sy_name existing) = {}"
    using assms by (simp_all add: scope_step_def)
qed

lemma scope_locals_distinct:
  "distinct (map sy_name acc) \<Longrightarrow> set (map sy_name acc) \<inter> set (map sy_name existing) = {} \<Longrightarrow>
   distinct (map sy_name (fold (scope_step files existing) es acc))
     \<and> set (map sy_name (fold (scope_step files existing) es acc)) \<inter> set (map sy_name existing) = {}"
proof (induction es arbitrary: acc)
  case (Cons e es)
  then show ?case using Cons.IH [OF scope_step_distinct [OF Cons.prems]] by simp
qed simp

text \<open>No name is offered twice.\<close>

lemma completion_names_distinct:
  "distinct (map sy_name (collect_scope_locals files entries existing))"
  "set (map sy_name (collect_scope_locals files entries existing)) \<inter> set (map sy_name existing) = {}"
  using scope_locals_distinct [of "[]" existing files "rev entries"] by (simp_all add: collect_scope_locals_def)

end
