(* ===== verification/Lsp_Wire.thy ===== *)
theory Lsp_Wire
  imports Json_Round_Trip
begin

text \<open>
  The wire format of the language server (\<^verbatim>\<open>lsp/lsp_main.c\<close>): messages framed by a
  \<^verbatim>\<open>Content-Length\<close> header, \<^verbatim>\<open>file://\<close> URIs and the directory of a path.  A stream is the list of
  the bytes still to be read.  \<^verbatim>\<open>getline\<close>, \<^verbatim>\<open>strtol\<close>, \<^verbatim>\<open>isxdigit\<close> and \<^verbatim>\<open>dirname\<close> are modelled as the C
  library documents them.
\<close>

section \<open>Frames\<close>

definition MAX_CONTENT_LENGTH :: int where "MAX_CONTENT_LENGTH = 16 * 1024 * 1024"

abbreviation LF :: char where "LF \<equiv> CHR 0x0A"
abbreviation CR :: char where "CR \<equiv> CHR 0x0D"

text \<open>A line with its newline, if it has one; \<open>None\<close> at the end of the stream.\<close>

definition getline :: "string \<Rightarrow> (string \<times> string) option" where
  "getline s =
     (if s = [] then None
      else let l = takeWhile (\<lambda>c. c \<noteq> LF) s; r = dropWhile (\<lambda>c. c \<noteq> LF) s
           in Some (case r of [] \<Rightarrow> (l, []) | _ # r \<Rightarrow> (l @ [LF], r)))"

definition chop_newline :: "string \<Rightarrow> string" where
  "chop_newline l = rev (dropWhile (\<lambda>c. c = LF \<or> c = CR) (rev l))"

definition is_space :: "char \<Rightarrow> bool" where
  "is_space c \<longleftrightarrow> c = CHR '' '' \<or> (9 \<le> (of_char c :: nat) \<and> (of_char c :: nat) \<le> 13)"

text \<open>\<^verbatim>\<open>strtol\<close> in base ten: white space, a sign, digits; out of range values are clamped.\<close>

definition strtol10 :: "string \<Rightarrow> int" where
  "strtol10 s =
     (let (neg, t) = take_sign (dropWhile is_space s); v = int (dec_value (takeWhile is_digit_char t))
      in if neg then max (- (2 ^ 63)) (- v) else min (2 ^ 63 - 1) v)"

definition CONTENT_LENGTH :: string where "CONTENT_LENGTH = ''Content-Length:''"

lemma getline_shorter: "getline s = Some (l, r) \<Longrightarrow> length r < length s"
proof -
  assume a: "getline s = Some (l, r)"
  then have "s \<noteq> []" by (auto simp: getline_def)
  moreover have "length (dropWhile (\<lambda>c. c \<noteq> LF) s) \<le> length s" by (rule length_dropWhile_le)
  ultimately show ?thesis using a by (auto simp: getline_def Let_def split: list.splits)
qed

function read_headers :: "int \<Rightarrow> string \<Rightarrow> (int \<times> string) option" where
  "read_headers content_length s =
     (case getline s of
        None \<Rightarrow> None
      | Some (line, s) \<Rightarrow>
          (let line = chop_newline line
           in if line = [] then Some (content_length, s)
              else if take 15 line = CONTENT_LENGTH then read_headers (strtol10 (drop 15 line)) s
              else read_headers content_length s))"
  by pat_completeness auto
termination
  by (relation "measure (length \<circ> snd)") (auto dest!: getline_shorter)

declare read_headers.simps [simp del]

definition read_message :: "string \<Rightarrow> (string \<times> string) option" where
  "read_message s =
     (case read_headers (-1) s of
        None \<Rightarrow> None
      | Some (content_length, s) \<Rightarrow>
          if content_length < 0 \<or> MAX_CONTENT_LENGTH < content_length then None
          else if length s < nat content_length then None
          else Some (take (nat content_length) s, drop (nat content_length) s))"

definition send_message :: "json \<Rightarrow> string option" where
  "send_message msg =
     map_option (\<lambda>t. CONTENT_LENGTH @ '' '' @ dec (length t) @ [CR, LF, CR, LF] @ t) (json_write msg)"

section \<open>URIs\<close>

definition FILE_PREFIX :: string where "FILE_PREFIX = ''file://''"

fun percent_decode :: "string \<Rightarrow> string" where
  "percent_decode (c # h # l # s) =
     (if c = CHR ''%'' then
        (case (hex_val h, hex_val l) of
           (Some a, Some b) \<Rightarrow> char_of (16 * a + b) # percent_decode s
         | _ \<Rightarrow> c # percent_decode (h # l # s))
      else c # percent_decode (h # l # s))"
| "percent_decode (c # s) = c # percent_decode s"
| "percent_decode [] = []"

text \<open>A decoded NUL ends the path for every later reader of the string.\<close>

definition uri_to_path :: "string \<Rightarrow> string option" where
  "uri_to_path uri =
     (if take 7 uri = FILE_PREFIX then Some (cut_nul (percent_decode (drop 7 uri))) else None)"

definition hex_upper :: "nat \<Rightarrow> char" where
  "hex_upper n = (if n < 10 then char_of (48 + n) else char_of (65 + (n - 10)))"

definition uri_safe :: "char \<Rightarrow> bool" where
  "uri_safe c \<longleftrightarrow>
     (let n = of_char c :: nat
      in 65 \<le> n \<and> n \<le> 90 \<or> 97 \<le> n \<and> n \<le> 122 \<or> 48 \<le> n \<and> n \<le> 57
         \<or> c = CHR ''/'' \<or> c = CHR ''-'' \<or> c = CHR ''_'' \<or> c = CHR ''.'' \<or> c = CHR ''~'')"

definition percent_encode :: "char \<Rightarrow> string" where
  "percent_encode c = (if uri_safe c then [c] else [CHR ''%'', hex_upper (of_char c div 16), hex_upper (of_char c mod 16)])"

definition path_to_uri :: "string \<Rightarrow> string" where
  "path_to_uri path = FILE_PREFIX @ concat (map percent_encode path)"

text \<open>\<^verbatim>\<open>dirname\<close> of glibc: trailing slashes do not count, a path without a slash is in \<^verbatim>\<open>.\<close>, and
  exactly two leading slashes are kept.\<close>

definition rstrip_slashes :: "string \<Rightarrow> string" where
  "rstrip_slashes s = rev (dropWhile (\<lambda>c. c = CHR ''/'') (rev s))"

definition path_dirname :: "string \<Rightarrow> string" where
  "path_dirname path =
     (let p = (if rstrip_slashes path = [] then path else rstrip_slashes path);
          head = rev (dropWhile (\<lambda>c. c \<noteq> CHR ''/'') (rev p))
      in if head = [] then ''.''
         else if rstrip_slashes head = [] then (if length head = 2 then ''//'' else ''/'')
         else rstrip_slashes head)"

section \<open>What is framed is read back\<close>

lemma getline_line: "LF \<notin> set l \<Longrightarrow> getline (l @ LF # r) = Some (l @ [LF], r)"
  by (auto simp: getline_def Let_def takeWhile_append dropWhile_append)

lemma chop_newline_crlf [simp]: "l = [] \<or> (last l \<noteq> LF \<and> last l \<noteq> CR) \<Longrightarrow> chop_newline (l @ [CR, LF]) = l"
  by (cases l rule: rev_cases) (auto simp: chop_newline_def)

lemma not_in_dec: "\<not> is_digit_char c \<Longrightarrow> c \<notin> set (dec n)"
  using dec_digits [of n] by (auto simp: list_all_iff)

lemma read_headers_sent:
  "read_headers c (CONTENT_LENGTH @ '' '' @ dec n @ [CR, LF, CR, LF] @ r) = Some (min (2 ^ 63 - 1) (int n), r)"
proof -
  let ?l = "CONTENT_LENGTH @ '' '' @ dec n"
  have "last ?l = last (dec n)" "last (dec n) \<in> set (dec n)" by simp_all
  then have l: "last ?l \<noteq> LF" "last ?l \<noteq> CR"
    using not_in_dec [of LF n] not_in_dec [of CR n] by (auto simp: is_digit_char_def simp del: last_in_set)
  have "LF \<notin> set (?l @ [CR])"
    using not_in_dec [of LF n] by (simp add: CONTENT_LENGTH_def is_digit_char_def)
  from getline_line [OF this, of "[CR, LF] @ r"]
  have first: "getline (?l @ [CR, LF, CR, LF] @ r) = Some (?l @ [CR, LF], [CR, LF] @ r)" by simp
  have second: "getline ([CR, LF] @ r) = Some ([CR, LF], r)" using getline_line [of "[CR]" r] by simp
  have chop: "chop_newline (?l @ [CR, LF]) = ?l" by (rule chop_newline_crlf) (use l in blast)
  have "dropWhile is_space ('' '' @ dec n) = dec n"
    using dec_digits [of n] dec_nonempty [of n] 
    by (cases "dec n") (auto simp: is_space_def is_digit_char_def)
  then have len: "strtol10 ('' '' @ dec n) = min (2 ^ 63 - 1) (int n)"
    by (simp add: strtol10_def dec_not_signed)
  have take: "take 15 ?l = CONTENT_LENGTH" "drop 15 ?l = '' '' @ dec n" by (simp_all add: CONTENT_LENGTH_def)
  have "read_headers c (?l @ [CR, LF, CR, LF] @ r) = read_headers (strtol10 ('' '' @ dec n)) ([CR, LF] @ r)"
    using first chop take by (subst read_headers.simps) (simp add: Let_def CONTENT_LENGTH_def)
  also have "\<dots> = Some (min (2 ^ 63 - 1) (int n), r)"
    using second chop_newline_crlf [of "[]"] len by (subst read_headers.simps) (simp add: Let_def)
  finally show ?thesis by simp
qed

text \<open>A message the server sends is one frame that its own reader takes off the stream, whatever follows
  it; a body above 16 MiB is refused.\<close>

lemma read_sent:
  assumes "send_message msg = Some frame" "json_write msg = Some body"
  shows "read_message (frame @ rest) = (if int (length body) \<le> MAX_CONTENT_LENGTH then Some (body, rest) else None)"
proof -
  have "read_headers (- 1) (frame @ rest) = Some (min (2 ^ 63 - 1) (int (length body)), body @ rest)"
    using assms read_headers_sent [of "- 1" "length body" "body @ rest"] by (auto simp: send_message_def)
  then show ?thesis by (auto simp: read_message_def MAX_CONTENT_LENGTH_def min_def)
qed

section \<open>Paths and URIs\<close>

lemma hex_val_hex_upper [simp]: "n < 16 \<Longrightarrow> hex_val (hex_upper n) = Some n"
  by (auto simp: hex_val_def hex_upper_def Let_def of_char_of)

lemma percent_decode_plain: "c \<noteq> CHR ''%'' \<Longrightarrow> percent_decode (c # s) = c # percent_decode s"
  by (cases s rule: percent_decode.cases) (auto split: list.splits)

lemma percent_decode_encode: "percent_decode (percent_encode c @ s) = c # percent_decode s"
proof (cases "uri_safe c")
  case True
  then have "c \<noteq> CHR ''%''" by (auto simp: uri_safe_def Let_def)
  then show ?thesis using True by (simp add: percent_encode_def percent_decode_plain)
next
  case False
  have "(of_char c :: nat) < 16 * 16" using nat_of_char_less_256 [of c] by linarith
  then have "(of_char c :: nat) div 16 < 16" by (rule less_mult_imp_div_less)
  moreover have "16 * ((of_char c :: nat) div 16) + of_char c mod 16 = of_char c" by simp
  ultimately show ?thesis using False by (simp add: percent_encode_def)
qed

lemma percent_decode_path: "percent_decode (concat (map percent_encode p)) = p"
  by (induction p) (simp_all add: percent_decode_encode)

text \<open>
  C34: Every path, of whatever bytes, is recovered from the URI the server publishes for it, so two
  files never share a URI and a client that sends the URI back names the same file.\<close>

theorem uri_round_trip:
  "uri_to_path (path_to_uri p) = Some (cut_nul p) \<and> (path_to_uri p = path_to_uri q \<longleftrightarrow> p = q)"
proof -
  have "p = q" if "path_to_uri p = path_to_uri q"
  proof -
    have "concat (map percent_encode p) = concat (map percent_encode q)"
      using that by (simp add: path_to_uri_def)
    then have "percent_decode (concat (map percent_encode p)) = percent_decode (concat (map percent_encode q))"
      by (rule arg_cong)
    then show "p = q" unfolding percent_decode_path .
  qed
  then show ?thesis
    by (auto simp: uri_to_path_def path_to_uri_def FILE_PREFIX_def percent_decode_path)
qed

end
