(* ===== verification/Lsp.thy ===== *)
theory Lsp
  imports Lsp_Wire Query_Text
begin

text \<open>
  The language server (\<^verbatim>\<open>lsp/lsp_main.c\<close>): its state, every handler and the dispatch.  A handler
  returns the state with the messages it sends; \<open>None\<close> is an undefined conversion in C, of a number
  out of the range of its type or of a member that is not a number.  The compiler queries of
  \<^verbatim>\<open>lib3b.h\<close> and the directory walk are the fields of a record of services; formatting is the model
  of \<^verbatim>\<open>format.c\<close>.
\<close>

section \<open>Services\<close>

record imported_package =
  ip_name :: string
  ip_symbols :: "lib3b_symbol list"

record check_result =
  cr_ok :: bool
  cr_diagnostics :: "diagnostic list"
  cr_symbols :: "lib3b_symbol list"
  cr_imports :: "imported_package list"

datatype lib3b_hover_kind =
    Lib3bHover_Expression | Lib3bHover_Function | Lib3bHover_Struct | Lib3bHover_Enum
  | Lib3bHover_Builtin | Lib3bHover_Binding | Lib3bHover_Field

record hover_result =
  hr_type_text :: string
  hr_kind :: lib3b_hover_kind
  hr_name :: "string option"
  hr_doc :: "string option"
  hr_decl_file_path :: "string option"
  hr_decl_line :: u32

record lib3b_location =
  lo_file_path :: string
  lo_line :: u32
  lo_col :: u32

record completion_context =
  cc_symbols :: "lib3b_symbol list"
  cc_locals :: "lib3b_symbol list"

type_synonym overlays = "(string \<times> string) list"

text \<open>A query that finds nothing, or a completion context that is not ok, is \<open>None\<close>.\<close>

record services =
  sv_check :: "string \<Rightarrow> overlays \<Rightarrow> check_result"
  sv_hover :: "string \<Rightarrow> string \<Rightarrow> u32 \<Rightarrow> u32 \<Rightarrow> overlays \<Rightarrow> hover_result option"
  sv_definition :: "string \<Rightarrow> string \<Rightarrow> u32 \<Rightarrow> u32 \<Rightarrow> overlays \<Rightarrow> lib3b_location option"
  sv_completion :: "string \<Rightarrow> string \<Rightarrow> string \<Rightarrow> u64 \<Rightarrow> overlays \<Rightarrow> completion_context option"
  sv_packages :: "string \<Rightarrow> string list"

section \<open>State\<close>

record symbol_cache =
  sc_dir :: string
  sc_symbols :: "lib3b_symbol list"
  sc_imports :: "imported_package list"

record lsp =
  ls_docs :: overlays
  ls_published :: "(string \<times> string list) list"
  ls_cache :: "symbol_cache list"
  ls_root :: "string option"
  ls_scanned :: bool
  ls_shutdown :: bool
  ls_markdown :: bool

definition lsp_init :: lsp where
  "lsp_init = \<lparr>ls_docs = [], ls_published = [], ls_cache = [], ls_root = None, ls_scanned = False,
     ls_shutdown = False, ls_markdown = False\<rparr>"

section \<open>Open documents\<close>

fun open_doc_set :: "string \<Rightarrow> string \<Rightarrow> overlays \<Rightarrow> overlays option" where
  "open_doc_set path content [] = None"
| "open_doc_set path content (d # docs) =
     (if fst d = path then Some ((path, content) # docs) else map_option ((#) d) (open_doc_set path content docs))"

definition docs_set :: "string \<Rightarrow> string \<Rightarrow> overlays \<Rightarrow> overlays" where
  "docs_set path content docs =
     (case open_doc_set path content docs of Some docs \<Rightarrow> docs | None \<Rightarrow> (path, content) # docs)"

fun open_doc_remove :: "string \<Rightarrow> overlays \<Rightarrow> overlays" where
  "open_doc_remove path [] = []"
| "open_doc_remove path (d # docs) = (if fst d = path then docs else d # open_doc_remove path docs)"

definition doc_text :: "string \<Rightarrow> overlays \<Rightarrow> string option" where
  "doc_text path docs = map_option snd (find (\<lambda>d. fst d = path) docs)"

definition build_overlays_for_dir :: "string \<Rightarrow> overlays \<Rightarrow> overlays" where
  "build_overlays_for_dir dir docs = filter (\<lambda>d. path_dirname (fst d) = dir) docs"

section \<open>Messages\<close>

definition jstr :: "string \<Rightarrow> json" where "jstr s = Json_String (cut_nul s)"
definition jnum :: "int \<Rightarrow> json" where "jnum i = Json_Number (double_of_int i)"

definition clone_id :: "json option \<Rightarrow> json" where
  "clone_id ident = (case ident of Some (Json_Number x) \<Rightarrow> Json_Number x | Some (Json_String s) \<Rightarrow> jstr s | _ \<Rightarrow> Json_Null)"

definition response :: "json option \<Rightarrow> json \<Rightarrow> json" where
  "response ident v = Json_Object [(''jsonrpc'', jstr ''2.0''), (''id'', clone_id ident), (''result'', v)]"

definition error_response :: "json option \<Rightarrow> int \<Rightarrow> string \<Rightarrow> json" where
  "error_response ident c msg =
     Json_Object [(''jsonrpc'', jstr ''2.0''), (''id'', clone_id ident),
                  (''error'', Json_Object [(''code'', jnum c), (''message'', jstr msg)])]"

definition notification :: "string \<Rightarrow> json \<Rightarrow> json" where
  "notification meth params =
     Json_Object [(''jsonrpc'', jstr ''2.0''), (''method'', jstr meth), (''params'', params)]"

definition position :: "int \<Rightarrow> int \<Rightarrow> json" where
  "position line character = Json_Object [(''line'', jnum line), (''character'', jnum character)]"

definition lsp_range :: "json \<Rightarrow> json \<Rightarrow> json" where
  "lsp_range a b = Json_Object [(''start'', a), (''end'', b)]"

text \<open>Positions are one-based in the compiler and zero-based on the wire.\<close>

definition zero_based :: "u32 \<Rightarrow> int" where "zero_based w = sint w - 1"

definition make_lsp_diagnostic :: "diagnostic \<Rightarrow> json" where
  "make_lsp_diagnostic d =
     (let line = (if 1 \<le> dg_line d then zero_based (dg_line d) else 0);
          col = (if 1 \<le> dg_col d then zero_based (dg_col d) else 0)
      in Json_Object [(''range'', lsp_range (position line col) (position line (col + 1))), (''severity'', jnum 1),
                      (''source'', jstr ''3b''), (''message'', jstr (dg_message d))])"

section \<open>Diagnostics\<close>

fun group_add :: "string \<Rightarrow> diagnostic \<Rightarrow> (string \<times> diagnostic list) list \<Rightarrow> (string \<times> diagnostic list) list option" where
  "group_add path d [] = None"
| "group_add path d (g # gs) =
     (if fst g = path then Some ((path, snd g @ [d]) # gs) else map_option ((#) g) (group_add path d gs))"

definition group_step :: "diagnostic \<Rightarrow> (string \<times> diagnostic list) list \<Rightarrow> (string \<times> diagnostic list) list" where
  "group_step d gs =
     (let path = cut_nul (dg_file_path d)
      in case group_add path d gs of Some gs \<Rightarrow> gs | None \<Rightarrow> (path, [d]) # gs)"

definition group_by_file :: "diagnostic list \<Rightarrow> (string \<times> diagnostic list) list" where
  "group_by_file ds = fold group_step ds []"

definition publish :: "string \<Rightarrow> diagnostic list \<Rightarrow> json" where
  "publish uri ds =
     notification ''textDocument/publishDiagnostics''
       (Json_Object [(''uri'', jstr uri), (''diagnostics'', Json_Array (map make_lsp_diagnostic ds))])"

definition entry_paths :: "string \<Rightarrow> (string \<times> string list) list \<Rightarrow> string list" where
  "entry_paths dir published = (case map_of published dir of Some ps \<Rightarrow> ps | None \<Rightarrow> [])"

fun entry_replace :: "string \<Rightarrow> 'a \<Rightarrow> (string \<times> 'a) list \<Rightarrow> (string \<times> 'a) list option" where
  "entry_replace dir v [] = None"
| "entry_replace dir v (e # es) =
     (if fst e = dir then Some ((dir, v) # es) else map_option ((#) e) (entry_replace dir v es))"

definition set_entry_paths :: "string \<Rightarrow> string list \<Rightarrow> (string \<times> string list) list \<Rightarrow> (string \<times> string list) list" where
  "set_entry_paths dir ps published =
     (case entry_replace dir ps published of Some es \<Rightarrow> es | None \<Rightarrow> (dir, ps) # published)"

section \<open>The symbol cache\<close>

definition build_cached_symbol_list :: "lib3b_symbol list \<Rightarrow> lib3b_symbol list" where
  "build_cached_symbol_list symbols = fold (#) symbols []"

definition cached_imports :: "imported_package list \<Rightarrow> imported_package list" where
  "cached_imports ips =
     fold (\<lambda>ip acc. \<lparr>ip_name = ip_name ip, ip_symbols = build_cached_symbol_list (ip_symbols ip)\<rparr> # acc) ips []"

fun cache_replace :: "symbol_cache \<Rightarrow> symbol_cache list \<Rightarrow> symbol_cache list option" where
  "cache_replace e [] = None"
| "cache_replace e (c # cs) = (if sc_dir c = sc_dir e then Some (e # cs) else map_option ((#) c) (cache_replace e cs))"

definition symbol_cache_update ::
  "string \<Rightarrow> lib3b_symbol list \<Rightarrow> imported_package list \<Rightarrow> symbol_cache list \<Rightarrow> symbol_cache list" where
  "symbol_cache_update dir symbols ips cache =
     (let e = \<lparr>sc_dir = dir, sc_symbols = build_cached_symbol_list symbols, sc_imports = cached_imports ips\<rparr>
      in case cache_replace e cache of Some cs \<Rightarrow> cs | None \<Rightarrow> e # cache)"

definition symbol_cache_lookup :: "string \<Rightarrow> symbol_cache list \<Rightarrow> lib3b_symbol list" where
  "symbol_cache_lookup dir cache =
     (case find (\<lambda>e. sc_dir e = dir) cache of Some e \<Rightarrow> sc_symbols e | None \<Rightarrow> [])"

definition symbol_cache_lookup_imports :: "string \<Rightarrow> symbol_cache list \<Rightarrow> imported_package list" where
  "symbol_cache_lookup_imports dir cache =
     (case find (\<lambda>e. sc_dir e = dir) cache of Some e \<Rightarrow> sc_imports e | None \<Rightarrow> [])"

section \<open>Checking and publishing\<close>

type_synonym sent = "json list"

definition check_and_publish :: "services \<Rightarrow> string \<Rightarrow> string \<Rightarrow> lsp \<Rightarrow> lsp \<times> sent" where
  "check_and_publish sv dir opened st =
     (let r = sv_check sv dir (build_overlays_for_dir dir (ls_docs st));
          groups = group_by_file (cr_diagnostics r);
          paths = map fst groups @ (if opened \<in> set (map fst groups) then [] else [opened]);
          old = entry_paths dir (ls_published st);
          cleared = map (\<lambda>p. publish (path_to_uri p) []) (filter (\<lambda>p. p \<notin> set paths) old);
          current = map (\<lambda>p. publish (path_to_uri p) (case map_of groups p of Some ds \<Rightarrow> ds | None \<Rightarrow> [])) paths;
          st = st\<lparr>ls_published := set_entry_paths dir paths (ls_published st)\<rparr>;
          st = (if cr_ok r then st\<lparr>ls_cache := symbol_cache_update dir (cr_symbols r) (cr_imports r) (ls_cache st)\<rparr> else st)
      in (st, cleared @ current))"

text \<open>The path is swapped with the last one of its entry, in the first entry that has it.\<close>

definition swap_remove :: "string \<Rightarrow> string list \<Rightarrow> string list" where
  "swap_remove p ps =
     (let i = length (takeWhile (\<lambda>q. q \<noteq> p) ps) in butlast (ps[i := last ps]))"

fun forget_published :: "string \<Rightarrow> (string \<times> string list) list \<Rightarrow> (string \<times> string list) list option" where
  "forget_published p [] = None"
| "forget_published p (e # es) =
     (if p \<in> set (snd e) then Some ((fst e, swap_remove p (snd e)) # es) else map_option ((#) e) (forget_published p es))"

definition handle_close :: "string \<Rightarrow> lsp \<Rightarrow> lsp \<times> sent" where
  "handle_close uri st =
     (case uri_to_path uri of
        None \<Rightarrow> (st, [])
      | Some path \<Rightarrow>
          (let st = st\<lparr>ls_docs := open_doc_remove path (ls_docs st)\<rparr>
           in case forget_published path (ls_published st) of
                Some es \<Rightarrow> (st\<lparr>ls_published := es\<rparr>, [publish uri []])
              | None \<Rightarrow> (st, [])))"

section \<open>Notifications\<close>

definition string_of :: "json option \<Rightarrow> string option" where
  "string_of v = (case v of Some (Json_String s) \<Rightarrow> Some s | _ \<Rightarrow> None)"

definition first_of :: "json option \<Rightarrow> json option" where
  "first_of v = (case v of Some (Json_Array (x # _)) \<Rightarrow> Some x | _ \<Rightarrow> None)"

definition document_uri :: "json option \<Rightarrow> string option" where
  "document_uri params = string_of (json_obj_get (json_obj_get params ''textDocument'') ''uri'')"

definition handle_check_notification :: "services \<Rightarrow> json option \<Rightarrow> lsp \<Rightarrow> lsp \<times> sent" where
  "handle_check_notification sv params st =
     (case Option.bind (document_uri params) uri_to_path of
        None \<Rightarrow> (st, [])
      | Some path \<Rightarrow> check_and_publish sv (path_dirname path) path st)"

definition track_open_doc_text :: "string option \<Rightarrow> string \<Rightarrow> lsp \<Rightarrow> lsp" where
  "track_open_doc_text uri content st =
     (case Option.bind uri uri_to_path of
        None \<Rightarrow> st
      | Some path \<Rightarrow> st\<lparr>ls_docs := docs_set path content (ls_docs st)\<rparr>)"

definition handle_did_open :: "services \<Rightarrow> json option \<Rightarrow> lsp \<Rightarrow> lsp \<times> sent" where
  "handle_did_open sv params st =
     (let st = (case string_of (json_obj_get (json_obj_get params ''textDocument'') ''text'') of
                  Some t \<Rightarrow> track_open_doc_text (document_uri params) t st | None \<Rightarrow> st)
      in handle_check_notification sv params st)"

definition handle_did_change :: "services \<Rightarrow> json option \<Rightarrow> lsp \<Rightarrow> lsp \<times> sent" where
  "handle_did_change sv params st =
     (let st = (case string_of (json_obj_get (first_of (json_obj_get params ''contentChanges'')) ''text'') of
                  Some t \<Rightarrow> track_open_doc_text (document_uri params) t st | None \<Rightarrow> st)
      in handle_check_notification sv params st)"

section \<open>Initialization\<close>

definition client_supports_markdown_hover :: "json option \<Rightarrow> bool" where
  "client_supports_markdown_hover params =
     (case json_obj_get (json_obj_get (json_obj_get (json_obj_get params ''capabilities'') ''textDocument'') ''hover'')
        ''contentFormat'' of
        Some (Json_Array vs) \<Rightarrow> list_ex (\<lambda>v. v = Json_String ''markdown'') vs
      | _ \<Rightarrow> False)"

definition server_capabilities :: json where
  "server_capabilities = Json_Object
     [(''textDocumentSync'', Json_Object [(''openClose'', Json_Bool True), (''change'', jnum 1),
                                          (''save'', Json_Object [(''includeText'', Json_Bool False)])]),
      (''hoverProvider'', Json_Bool True), (''definitionProvider'', Json_Bool True),
      (''completionProvider'', Json_Object []), (''workspaceSymbolProvider'', Json_Bool True),
      (''documentSymbolProvider'', Json_Bool True), (''documentFormattingProvider'', Json_Bool True)]"

definition handle_initialize :: "json option \<Rightarrow> json option \<Rightarrow> lsp \<Rightarrow> lsp \<times> sent" where
  "handle_initialize ident params st =
     (let folder_uri = string_of (json_obj_get (first_of (json_obj_get params ''workspaceFolders'')) ''uri'');
          root_uri = string_of (json_obj_get params ''rootUri'');
          uri = (if folder_uri \<noteq> None then folder_uri else root_uri);
          st = st\<lparr>ls_markdown := client_supports_markdown_hover params\<rparr>;
          st = (case uri of Some u \<Rightarrow> st\<lparr>ls_root := uri_to_path u\<rparr> | None \<Rightarrow> st)
      in (st, [response ident (Json_Object
                 [(''capabilities'', server_capabilities),
                  (''serverInfo'', Json_Object [(''name'', jstr ''3b-lsp''), (''version'', jstr ''0.1.0'')])])]))"

section \<open>Hover and definition\<close>

text \<open>The conversions of a JSON number: truncated, undefined when the result does not fit.\<close>

definition double_trunc :: "double \<Rightarrow> int option" where
  "double_trunc x =
     (case x of
        Infinite _ \<Rightarrow> None
      | Finite neg m e \<Rightarrow> (let (n, d) = ratio_pow2 m 1 (- e) in Some ((if neg then -1 else 1) * int (n div d))))"

definition number_in :: "int \<Rightarrow> int \<Rightarrow> json \<Rightarrow> int option" where
  "number_in lo hi v =
     (case v of
        Json_Number x \<Rightarrow> (case double_trunc x of Some i \<Rightarrow> if lo \<le> i \<and> i < hi then Some i else None | None \<Rightarrow> None)
      | _ \<Rightarrow> None)"

definition to_u32 :: "json \<Rightarrow> u32 option" where
  "to_u32 v = map_option of_int (number_in 0 (2 ^ 32) v)"

definition to_int :: "json \<Rightarrow> int option" where
  "to_int v = number_in (- (2 ^ 31)) (2 ^ 31) v"

record query =
  qu_path :: string
  qu_dir :: string
  qu_overlays :: overlays
  qu_line :: u32
  qu_col :: u32

text \<open>\<open>Some None\<close> for malformed parameters.\<close>

definition resolve_query_request :: "json option \<Rightarrow> lsp \<Rightarrow> query option option" where
  "resolve_query_request params st =
     (let pos = json_obj_get params ''position''
      in case (document_uri params, json_obj_get pos ''line'', json_obj_get pos ''character'') of
           (Some uri, Some line, Some character) \<Rightarrow>
             (case uri_to_path uri of
                None \<Rightarrow> Some None
              | Some path \<Rightarrow>
                  do { l \<leftarrow> to_u32 line; c \<leftarrow> to_u32 character;
                       Some (Some \<lparr>qu_path = path, qu_dir = path_dirname path,
                                   qu_overlays = build_overlays_for_dir (path_dirname path) (ls_docs st),
                                   qu_line = l + 1, qu_col = c + 1\<rparr>) })
         | _ \<Rightarrow> Some None)"

fun hover_kind_label :: "lib3b_hover_kind \<Rightarrow> string option" where
  "hover_kind_label Lib3bHover_Function = Some ''function''"
| "hover_kind_label Lib3bHover_Struct = Some ''struct''"
| "hover_kind_label Lib3bHover_Enum = Some ''enum''"
| "hover_kind_label Lib3bHover_Builtin = Some ''builtin''"
| "hover_kind_label Lib3bHover_Binding = Some ''variable''"
| "hover_kind_label Lib3bHover_Field = Some ''field''"
| "hover_kind_label Lib3bHover_Expression = None"

definition path_basename :: "string \<Rightarrow> string" where
  "path_basename path = rev (takeWhile (\<lambda>c. c \<noteq> CHR ''/'') (rev path))"

abbreviation backquote :: char where "backquote \<equiv> CHR 0x60"

definition render_hover :: "hover_result \<Rightarrow> bool \<Rightarrow> string" where
  "render_hover hr markdown =
     (let rule = (if markdown then [newline, newline] @ ''---'' @ [newline] else [newline, newline]);
          heading = (case (hover_kind_label (hr_kind hr), hr_name hr) of
             (Some label, Some name) \<Rightarrow>
               (if markdown then ''### '' @ label @ '' '' @ [backquote] @ name @ [backquote] else label @ '' '' @ name) @ rule
           | _ \<Rightarrow> []);
          fence = [backquote, backquote, backquote];
          decl = (if markdown then fence @ ''3b'' @ [newline] else []) @ hr_type_text hr
                   @ (if markdown then newline # fence else []);
          doc = (case hr_doc hr of Some d \<Rightarrow> rule @ d | None \<Rightarrow> []);
          cite = (case hr_decl_file_path hr of
             Some p \<Rightarrow> rule @ take 511
               (if markdown then ''*Defined in '' @ [backquote] @ path_basename p @ '':'' @ dec (unat (hr_decl_line hr)) @ [backquote] @ ''*''
                else ''Defined in '' @ path_basename p @ '':'' @ dec (unat (hr_decl_line hr)))
           | None \<Rightarrow> [])
      in heading @ decl @ doc @ cite)"

definition handle_hover :: "services \<Rightarrow> json option \<Rightarrow> json option \<Rightarrow> lsp \<Rightarrow> (lsp \<times> sent) option" where
  "handle_hover sv ident params st =
     do { q \<leftarrow> resolve_query_request params st;
          Some (st, [case q of
            None \<Rightarrow> response ident Json_Null
          | Some q \<Rightarrow>
              (case sv_hover sv (qu_dir q) (qu_path q) (qu_line q) (qu_col q) (qu_overlays q) of
                 None \<Rightarrow> response ident Json_Null
               | Some hr \<Rightarrow> response ident (Json_Object [(''contents'', Json_Object
                   [(''kind'', jstr (if ls_markdown st then ''markdown'' else ''plaintext'')),
                    (''value'', jstr (render_hover hr (ls_markdown st)))])]))]) }"

text \<open>A location as a range of one character.\<close>

definition token_range :: "u32 \<Rightarrow> u32 \<Rightarrow> json" where
  "token_range line col = lsp_range (position (zero_based line) (zero_based col)) (position (zero_based line) (sint col))"

definition handle_definition :: "services \<Rightarrow> json option \<Rightarrow> json option \<Rightarrow> lsp \<Rightarrow> (lsp \<times> sent) option" where
  "handle_definition sv ident params st =
     do { q \<leftarrow> resolve_query_request params st;
          Some (st, [case q of
            None \<Rightarrow> response ident Json_Null
          | Some q \<Rightarrow>
              (case sv_definition sv (qu_dir q) (qu_path q) (qu_line q) (qu_col q) (qu_overlays q) of
                 None \<Rightarrow> response ident Json_Null
               | Some loc \<Rightarrow> response ident (Json_Object [(''uri'', jstr (path_to_uri (lo_file_path loc))),
                   (''range'', token_range (lo_line loc) (lo_col loc))]))]) }"

section \<open>Completion\<close>

definition KEYWORDS :: "string list" where
  "KEYWORDS =
     [''fn'', ''let'', ''var'', ''val'', ''if'', ''do'', ''else'', ''for'', ''while'', ''when'',
      ''continue'', ''break'', ''struct'', ''union'', ''enum'', ''flags'', ''alias'', ''extern'',
      ''private'', ''parallel'', ''parallel-for'', ''lane-fn'', ''match'', ''return'', ''break'',
      ''continue'', ''set'', ''cast'', ''reinterpret'', ''deref'', ''addr'', ''and'', ''or'', ''not'',
      ''true'', ''false'', ''nil'', ''void'', ''const'', ''import'', ''package'', ''push'', ''push0'',
      ''push-zero'', ''alloc'', ''scratch'', ''commit'', ''dyn-push'', ''handle'', ''handle-alloc'',
      ''handle-pool-init'', ''sizeof'', ''alignof'', ''type-name'', ''zero'', ''member-offset'',
      ''member-type'', ''cstring'', ''get'', ''get-in'', ''nth'', ''stream'', ''bit-and'', ''bit-or'',
      ''bit-xor'', ''bit-not'', ''bit-shl'', ''bit-shr'', ''Vector'', ''Map'', ''Set'', ''packed'',
      ''align'']"

definition BUILTINS :: "string list" where
  "BUILTINS =
     [''print'', ''println'', ''str'', ''create'', ''destroy'', ''mark'', ''pop'', ''free'', ''len'',
      ''dyn-count'', ''mem-copy'', ''mem-set'', ''mem-zero'', ''mem-compare'', ''cstring-copy'', ''min'',
      ''max'', ''clamp'', ''clamp-top'', ''clamp-bot'', ''align-pow2'', ''align-down-pow2'',
      ''align-pad-pow2'', ''abs'', ''sin'', ''cos'', ''tan'', ''asin'', ''acos'', ''atan'', ''sinh'',
      ''cosh'', ''tanh'', ''sqrt'', ''cbrt'', ''ceil'', ''floor'', ''round'', ''atan2'', ''pow'',
      ''mod'', ''lane-index'', ''lane-count'', ''lane-sync'', ''lane-arena'', ''handle-deref'',
      ''handle-free'', ''handle-valid?'', ''map-set'', ''map-get'', ''map-remove'', ''map-contains?'',
      ''set-add'', ''set-contains?'', ''set-remove'', ''vector-push'', ''vector-clear'',
      ''vector-contains?'', ''vector-remove-at'', ''vector-swap-remove'', ''vector-index-of'',
      ''string-to-i32'', ''string-to-i64'', ''string-to-u32'', ''string-to-u64'', ''string-to-f32'',
      ''string-to-f64'', ''string-match'', ''string-prefix'', ''string-skip'', ''string-postfix'',
      ''string-chop'', ''string-substr'', ''string-find'', ''string-find-reverse'',
      ''string-starts-with'', ''string-ends-with'', ''string-cat'', ''string-copy'', ''nth-checked'',
      ''sqrt-checked'', ''asin-checked'', ''acos-checked'', ''pow-checked'', ''pow2?'',
      ''pow2-or-zero?'', ''release'', ''reset'', ''swap'']"

definition NATIVE_PKG_OS_MEMBERS :: "string list" where
  "NATIVE_PKG_OS_MEMBERS =
     [''read-file'', ''write-file'', ''getenv'', ''get-time'', ''sleep'', ''list-dir'', ''file-mtime'',
      ''open'', ''close'', ''stdout'', ''stderr'', ''stdin'', ''write'', ''write-string'', ''read'',
      ''read-line'', ''flush'', ''seek'', ''tell'', ''at-end?'', ''error?'', ''mode-read'',
      ''mode-write'', ''mode-append'', ''mode-update'', ''seek-start'', ''seek-current'', ''seek-end'']"

definition NATIVE_PKG_VM_MEMBERS :: "string list" where
  "NATIVE_PKG_VM_MEMBERS =
     [''create'', ''destroy'', ''load'', ''call0'', ''call1'', ''call2'', ''call3'', ''call4'',
      ''poll-reload'', ''unload'', ''register-getter'', ''register-setter1'', ''register-setter3'']"

definition NATIVE_PKG_RNG_MEMBERS :: "string list" where
  "NATIVE_PKG_RNG_MEMBERS =
     [''create'', ''next-u32'', ''next-f32'', ''range-i32'', ''range-f32'', ''chance'']"

definition NATIVE_PKG_SORT_MEMBERS :: "string list" where
  "NATIVE_PKG_SORT_MEMBERS =
     [''bubble-sort-i8'', ''bubble-sort-i16'', ''bubble-sort-i32'', ''bubble-sort-i64'',
      ''bubble-sort-u8'', ''bubble-sort-u16'', ''bubble-sort-u32'', ''bubble-sort-u64'',
      ''quick-sort-i8'', ''quick-sort-i16'', ''quick-sort-i32'', ''quick-sort-i64'', ''quick-sort-u8'',
      ''quick-sort-u16'', ''quick-sort-u32'', ''quick-sort-u64'', ''merge-sort-i8'', ''merge-sort-i16'',
      ''merge-sort-i32'', ''merge-sort-i64'', ''merge-sort-u8'', ''merge-sort-u16'', ''merge-sort-u32'',
      ''merge-sort-u64'', ''heap-sort-i8'', ''heap-sort-i16'', ''heap-sort-i32'', ''heap-sort-i64'',
      ''heap-sort-u8'', ''heap-sort-u16'', ''heap-sort-u32'', ''heap-sort-u64'', ''insertion-sort-i8'',
      ''insertion-sort-i16'', ''insertion-sort-i32'', ''insertion-sort-i64'', ''insertion-sort-u8'',
      ''insertion-sort-u16'', ''insertion-sort-u32'', ''insertion-sort-u64'']"

definition NATIVE_PKGS :: "(string \<times> string list) list" where
  "NATIVE_PKGS =
     [(''os'', NATIVE_PKG_OS_MEMBERS), (''vm'', NATIVE_PKG_VM_MEMBERS),
      (''rng'', NATIVE_PKG_RNG_MEMBERS), (''sort'', NATIVE_PKG_SORT_MEMBERS)]"

definition is_delim_char :: "char \<Rightarrow> bool" where
  "is_delim_char c \<longleftrightarrow> c = CHR 0x00 \<or> c = CHR '' '' \<or> c = CHR 0x09 \<or> c = newline \<or> c = CHR 0x0D
     \<or> c \<in> set ''()[]{}'' \<or> c = quote \<or> c = semicolon"

text \<open>The text after a number of line breaks, and the index of the cursor in its row: past the end of
  the row it is the end, before its start nothing precedes it.\<close>

fun skip_rows :: "nat \<Rightarrow> string \<Rightarrow> string" where
  "skip_rows 0 s = s"
| "skip_rows (Suc n) s = (case dropWhile (\<lambda>c. c \<noteq> newline) s of [] \<Rightarrow> [] | _ # r \<Rightarrow> skip_rows n r)"

definition row_of :: "string \<Rightarrow> string" where
  "row_of s = takeWhile (\<lambda>c. c \<noteq> newline) s"

definition cursor_in_row :: "string \<Rightarrow> int \<Rightarrow> int" where
  "cursor_in_row s character = min character (int (length (row_of s)))"

definition extract_prefix :: "string \<Rightarrow> int \<Rightarrow> int \<Rightarrow> string" where
  "extract_prefix src line character =
     (let s = skip_rows (nat line) src
      in rev (takeWhile (\<lambda>c. \<not> is_delim_char c) (rev (take (nat (cursor_in_row s character)) (row_of s)))))"

definition line_character_to_offset :: "string \<Rightarrow> int \<Rightarrow> int \<Rightarrow> u64" where
  "line_character_to_offset src line character =
     (let s = skip_rows (nat line) src
      in of_int (int (length src - length s) + cursor_in_row s character))"

definition has_prefix :: "string \<Rightarrow> string \<Rightarrow> bool" where
  "has_prefix name pre \<longleftrightarrow> take (length pre) name = pre"

fun lib3b_symbol_kind_to_lsp :: "lib3b_symbol_kind \<Rightarrow> int" where
  "lib3b_symbol_kind_to_lsp Lib3bSymbol_Function = 3"
| "lib3b_symbol_kind_to_lsp Lib3bSymbol_Struct = 22"
| "lib3b_symbol_kind_to_lsp Lib3bSymbol_Enum = 13"
| "lib3b_symbol_kind_to_lsp Lib3bSymbol_Const = 21"
| "lib3b_symbol_kind_to_lsp Lib3bSymbol_Var = 6"
| "lib3b_symbol_kind_to_lsp Lib3bSymbol_Alias = 25"

definition completion_item :: "string \<Rightarrow> int \<Rightarrow> json" where
  "completion_item label kind = Json_Object [(''label'', jstr label), (''kind'', jnum kind)]"

definition symbol_completion_item :: "string \<Rightarrow> int \<Rightarrow> string option \<Rightarrow> string option \<Rightarrow> json" where
  "symbol_completion_item label kind detail doc =
     Json_Object ([(''label'', jstr label), (''kind'', jnum kind)]
       @ (case detail of Some d \<Rightarrow> [(''detail'', jstr d)] | None \<Rightarrow> [])
       @ (case doc of Some d \<Rightarrow> [(''documentation'', jstr d)] | None \<Rightarrow> []))"

definition builtin_completion_item :: "string \<Rightarrow> json" where
  "builtin_completion_item label =
     (case lib3b_builtin_shapes label of
        None \<Rightarrow> completion_item label 3
      | Some shapes \<Rightarrow>
          Json_Object [(''label'', jstr label), (''kind'', jnum 3),
            (''detail'', jstr (if newline \<in> set shapes then take 255 (row_of shapes) else shapes)),
            (''documentation'', jstr shapes)])"

definition symbol_items :: "string \<Rightarrow> lib3b_symbol list \<Rightarrow> json list" where
  "symbol_items pre syms =
     map (\<lambda>s. symbol_completion_item (sy_name s) (lib3b_symbol_kind_to_lsp (sy_kind s)) (sy_detail s) (sy_doc s))
       (filter (\<lambda>s. has_prefix (sy_name s) pre) syms)"

definition qualified_name :: "string \<Rightarrow> string \<Rightarrow> string" where
  "qualified_name pkg name = take 511 (pkg @ ''/'' @ name)"

text \<open>Candidates for a prefix with a slash: the members of the package before its last slash.\<close>

definition package_members :: "string \<Rightarrow> imported_package list \<Rightarrow> json list" where
  "package_members pre deps =
     (let pkg = take 255 (rev (tl (dropWhile (\<lambda>c. c \<noteq> CHR ''/'') (rev pre))))
      in case find (\<lambda>ip. ip_name ip = pkg) deps of
           Some ip \<Rightarrow>
             map (\<lambda>s. symbol_completion_item (qualified_name (ip_name ip) (sy_name s)) (lib3b_symbol_kind_to_lsp (sy_kind s))
                        (sy_detail s) (sy_doc s))
               (filter (\<lambda>s. has_prefix (qualified_name (ip_name ip) (sy_name s)) pre) (ip_symbols ip))
         | None \<Rightarrow>
             (case map_of NATIVE_PKGS pkg of
                None \<Rightarrow> []
              | Some members \<Rightarrow>
                  map (\<lambda>m. completion_item m 3) (filter (\<lambda>m. has_prefix m pre) (map (qualified_name pkg) members))))"

text \<open>Candidates for a plain prefix, after the symbols and locals of the package.\<close>

definition static_items :: "string \<Rightarrow> imported_package list \<Rightarrow> json list" where
  "static_items pre deps =
     map (\<lambda>n. completion_item n 9) (filter (\<lambda>n. has_prefix n pre) (map ip_name deps))
     @ map (\<lambda>n. completion_item n 9)
         (filter (\<lambda>n. n \<notin> set (map ip_name deps) \<and> has_prefix n pre) (map fst NATIVE_PKGS))
     @ map (\<lambda>n. completion_item n 14) (filter (\<lambda>n. has_prefix n pre) KEYWORDS)
     @ map builtin_completion_item (filter (\<lambda>n. has_prefix n pre) BUILTINS)"

definition package_items :: "services \<Rightarrow> string \<Rightarrow> string \<Rightarrow> string option \<Rightarrow> (int \<times> int) \<Rightarrow> string \<Rightarrow> lsp \<Rightarrow> json list" where
  "package_items sv dir path content pos pre st =
     (case Option.bind content (\<lambda>t. sv_completion sv dir path t (line_character_to_offset t (fst pos) (snd pos))
                                     (build_overlays_for_dir dir (ls_docs st))) of
        Some cc \<Rightarrow>
          symbol_items pre (cc_symbols cc)
          @ map (\<lambda>s. completion_item (sy_name s) (lib3b_symbol_kind_to_lsp (sy_kind s)))
              (filter (\<lambda>s. has_prefix (sy_name s) pre) (cc_locals cc))
      | None \<Rightarrow> symbol_items pre (symbol_cache_lookup dir (ls_cache st)))"

definition completion_items :: "services \<Rightarrow> string \<Rightarrow> string option \<Rightarrow> (int \<times> int) \<Rightarrow> lsp \<Rightarrow> json list" where
  "completion_items sv path content pos st =
     (let dir = path_dirname path; deps = symbol_cache_lookup_imports dir (ls_cache st);
          pre = (case content of Some t \<Rightarrow> extract_prefix t (fst pos) (snd pos) | None \<Rightarrow> [])
      in if CHR ''/'' \<in> set pre then package_members pre deps
         else package_items sv dir path content pos pre st @ static_items pre deps)"

definition handle_completion :: "services \<Rightarrow> json option \<Rightarrow> json option \<Rightarrow> lsp \<Rightarrow> (lsp \<times> sent) option" where
  "handle_completion sv ident params st =
     (let pos = json_obj_get params ''position''
      in case (document_uri params, json_obj_get pos ''line'', json_obj_get pos ''character'') of
           (Some uri, Some line, Some character) \<Rightarrow>
             (case uri_to_path uri of
                None \<Rightarrow> Some (st, [response ident Json_Null])
              | Some path \<Rightarrow>
                  do { lc \<leftarrow> (case doc_text path (ls_docs st) of
                               None \<Rightarrow> Some (0, 0)
                             | Some _ \<Rightarrow> do { l \<leftarrow> to_int line; c \<leftarrow> to_int character; Some (l, c) });
                       Some (st, [response ident (Json_Object [(''isIncomplete'', Json_Bool False),
                         (''items'', Json_Array (completion_items sv path (doc_text path (ls_docs st)) lc st))])]) })
         | _ \<Rightarrow> Some (st, [response ident Json_Null]))"

section \<open>Symbols\<close>

definition scan_package :: "services \<Rightarrow> string \<Rightarrow> lsp \<Rightarrow> lsp" where
  "scan_package sv dir st =
     (let r = sv_check sv dir []
      in if cr_ok r then st\<lparr>ls_cache := symbol_cache_update dir (cr_symbols r) (cr_imports r) (ls_cache st)\<rparr> else st)"

definition scan_workspace_symbols :: "services \<Rightarrow> lsp \<Rightarrow> lsp" where
  "scan_workspace_symbols sv st =
     (let st = st\<lparr>ls_scanned := True\<rparr>
      in case ls_root st of None \<Rightarrow> st | Some root \<Rightarrow> fold (scan_package sv) (sv_packages sv root) st)"

fun lib3b_symbol_kind_to_lsp_symbolkind :: "lib3b_symbol_kind \<Rightarrow> int" where
  "lib3b_symbol_kind_to_lsp_symbolkind Lib3bSymbol_Function = 12"
| "lib3b_symbol_kind_to_lsp_symbolkind Lib3bSymbol_Struct = 23"
| "lib3b_symbol_kind_to_lsp_symbolkind Lib3bSymbol_Enum = 10"
| "lib3b_symbol_kind_to_lsp_symbolkind Lib3bSymbol_Const = 14"
| "lib3b_symbol_kind_to_lsp_symbolkind Lib3bSymbol_Var = 13"
| "lib3b_symbol_kind_to_lsp_symbolkind Lib3bSymbol_Alias = 26"

text \<open>\<^verbatim>\<open>strcasestr\<close> in the C locale.\<close>

fun occurs_at :: "string \<Rightarrow> string \<Rightarrow> bool" where
  "occurs_at pat [] \<longleftrightarrow> pat = []"
| "occurs_at pat (c # s) \<longleftrightarrow> take (length pat) (c # s) = pat \<or> occurs_at pat s"

definition lower :: "char \<Rightarrow> char" where
  "lower c = (if 65 \<le> (of_char c :: nat) \<and> (of_char c :: nat) \<le> 90 then char_of (of_char c + 32 :: nat) else c)"

definition strcasestr :: "string \<Rightarrow> string \<Rightarrow> bool" where
  "strcasestr s pat \<longleftrightarrow> occurs_at (map lower pat) (map lower s)"

definition symbol_location :: "string \<Rightarrow> lib3b_symbol \<Rightarrow> json" where
  "symbol_location uri s = Json_Object [(''uri'', jstr uri), (''range'', token_range (sy_line s) (sy_col s))]"

definition workspace_item :: "string \<Rightarrow> lib3b_symbol \<Rightarrow> string \<Rightarrow> json" where
  "workspace_item dir s path =
     Json_Object [(''name'', jstr (sy_name s)), (''kind'', jnum (lib3b_symbol_kind_to_lsp_symbolkind (sy_kind s))),
                  (''location'', symbol_location (path_to_uri path) s), (''containerName'', jstr dir)]"

definition workspace_items :: "string \<Rightarrow> symbol_cache \<Rightarrow> json list" where
  "workspace_items pat e =
     concat (map (\<lambda>s. case sy_file_path s of
                        Some path \<Rightarrow> if pat \<noteq> [] \<and> \<not> strcasestr (sy_name s) pat then [] else [workspace_item (sc_dir e) s path]
                      | None \<Rightarrow> []) (sc_symbols e))"

definition handle_workspace_symbol :: "services \<Rightarrow> json option \<Rightarrow> json option \<Rightarrow> lsp \<Rightarrow> lsp \<times> sent" where
  "handle_workspace_symbol sv ident params st =
     (let st = (if ls_scanned st then st else scan_workspace_symbols sv st);
          pat = (case string_of (json_obj_get params ''query'') of Some q \<Rightarrow> q | None \<Rightarrow> [])
      in (st, [response ident (Json_Array (concat (map (workspace_items pat) (ls_cache st))))]))"

definition document_item :: "string \<Rightarrow> lib3b_symbol \<Rightarrow> json" where
  "document_item uri s =
     Json_Object [(''name'', jstr (sy_name s)), (''kind'', jnum (lib3b_symbol_kind_to_lsp_symbolkind (sy_kind s))),
                  (''location'', symbol_location uri s)]"

definition handle_document_symbol :: "json option \<Rightarrow> json option \<Rightarrow> lsp \<Rightarrow> lsp \<times> sent" where
  "handle_document_symbol ident params st =
     (st, [response ident
        (case document_uri params of
           None \<Rightarrow> Json_Null
         | Some uri \<Rightarrow>
             (case uri_to_path uri of
                None \<Rightarrow> Json_Null
              | Some path \<Rightarrow>
                  Json_Array (map (document_item uri)
                    (filter (\<lambda>s. sy_file_path s = Some path) (symbol_cache_lookup (path_dirname path) (ls_cache st))))))])"

section \<open>Formatting\<close>

definition end_position :: "string \<Rightarrow> int \<times> int" where
  "end_position src = (int (count_list src newline), int (length (takeWhile (\<lambda>c. c \<noteq> newline) (rev src))))"

definition format_edits :: "string \<Rightarrow> string \<Rightarrow> json" where
  "format_edits src formatted =
     Json_Array (if formatted = src then []
                 else [Json_Object [(''range'', lsp_range (position 0 0) (position (fst (end_position src)) (snd (end_position src)))),
                                    (''newText'', jstr formatted)]])"

definition handle_formatting :: "json option \<Rightarrow> json option \<Rightarrow> lsp \<Rightarrow> (lsp \<times> sent) option" where
  "handle_formatting ident params st =
     (case Option.bind (document_uri params) uri_to_path of
        None \<Rightarrow> Some (st, [response ident Json_Null])
      | Some path \<Rightarrow>
          (case doc_text path (ls_docs st) of
             None \<Rightarrow> Some (st, [response ident Json_Null])
           | Some src \<Rightarrow>
               (case lib3b_format path src of
                  None \<Rightarrow> None
                | Some None \<Rightarrow> Some (st, [response ident Json_Null])
                | Some (Some formatted) \<Rightarrow> Some (st, [response ident (format_edits src (cut_nul formatted))]))))"

section \<open>Dispatch\<close>

datatype outcome = Running lsp sent | Exit int

definition handle_message :: "services \<Rightarrow> lsp \<Rightarrow> json \<Rightarrow> outcome option" where
  "handle_message sv st msg =
     (let get = json_obj_get (Some msg); ident = get ''id''; params = get ''params'';
          total = (\<lambda>r. Some (Running (fst r) (snd r))); partial = map_option (\<lambda>r. Running (fst r) (snd r))
      in case string_of (get ''method'') of
           None \<Rightarrow> Some (Running st [])
         | Some meth \<Rightarrow>
             if meth = ''initialize'' then total (handle_initialize ident params st)
             else if meth = ''initialized'' then Some (Running st [])
             else if meth = ''textDocument/didOpen'' then total (handle_did_open sv params st)
             else if meth = ''textDocument/didChange'' then total (handle_did_change sv params st)
             else if meth = ''textDocument/didSave'' then total (handle_check_notification sv params st)
             else if meth = ''textDocument/didClose''
             then (case document_uri params of
                     Some uri \<Rightarrow> total (handle_close uri st) | None \<Rightarrow> Some (Running st []))
             else if meth = ''textDocument/hover'' then partial (handle_hover sv ident params st)
             else if meth = ''textDocument/definition'' then partial (handle_definition sv ident params st)
             else if meth = ''textDocument/completion'' then partial (handle_completion sv ident params st)
             else if meth = ''workspace/symbol'' then total (handle_workspace_symbol sv ident params st)
             else if meth = ''textDocument/documentSymbol'' then total (handle_document_symbol ident params st)
             else if meth = ''textDocument/formatting'' then partial (handle_formatting ident params st)
             else if meth = ''shutdown'' then Some (Running (st\<lparr>ls_shutdown := True\<rparr>) [response ident Json_Null])
             else if meth = ''exit'' then Some (Exit (if ls_shutdown st then 0 else 1))
             else if ident \<noteq> None then Some (Running st [error_response ident (- 32601) ''method not found''])
             else Some (Running st []))"

text \<open>The main loop over the input: the exit code and everything written.  A body that is not JSON is
  skipped; the loop ends with the stream.\<close>

fun write_all :: "sent \<Rightarrow> string option" where
  "write_all [] = Some []"
| "write_all (m # ms) = do { a \<leftarrow> send_message m; b \<leftarrow> write_all ms; Some (a @ b) }"

lemma read_headers_shorter: "read_headers c s = Some (n, r) \<Longrightarrow> length r < length s"
proof (induction c s rule: read_headers.induct)
  case (1 c s)
  obtain l t where g: "getline s = Some (l, t)" using 1(3) by (subst (asm) read_headers.simps) (auto split: option.splits)
  then have "length t < length s" by (rule getline_shorter)
  then show ?case
    using 1 g by (subst (asm) (3) read_headers.simps) (fastforce simp: Let_def split: if_splits intro: less_trans)
qed

lemma read_message_shorter: "read_message s = Some (b, r) \<Longrightarrow> length r < length s"
  by (auto simp: read_message_def split: option.splits if_splits dest!: read_headers_shorter)

function serve :: "services \<Rightarrow> lsp \<Rightarrow> string \<Rightarrow> (int \<times> string) option" where
  "serve sv st input =
     (case read_message input of
        None \<Rightarrow> Some (if ls_shutdown st then 0 else 1, [])
      | Some (body, input') \<Rightarrow>
          (case json_parse body of
             None \<Rightarrow> serve sv st input'
           | Some msg \<Rightarrow>
               (case handle_message sv st msg of
                  None \<Rightarrow> None
                | Some (Exit c) \<Rightarrow> Some (c, [])
                | Some (Running st' ms) \<Rightarrow>
                    (case write_all ms of
                       None \<Rightarrow> None
                     | Some out \<Rightarrow> map_option (\<lambda>(c, out'). (c, out @ out')) (serve sv st' input')))))"
  by pat_completeness auto
termination
  by (relation "measure (\<lambda>(sv, st, input). length input)") (auto dest: read_message_shorter)

declare serve.simps [simp del]

end
