(* ===== verification/Lsp_Props.thy ===== *)
theory Lsp_Props
  imports Lsp
begin

text \<open>
  What a client can rely on: the open documents are a map that only the document notifications change,
  no diagnostic is shown for a file the server has lost track of, every request is answered once.
\<close>

section \<open>Documents\<close>

lemma open_doc_set_None: "open_doc_set p t docs = None \<longleftrightarrow> p \<notin> fst ` set docs"
  by (induction docs) auto

lemma open_doc_set_Some:
  "open_doc_set p t docs = Some docs' \<Longrightarrow> map_of docs' = (map_of docs)(p \<mapsto> t) \<and> map fst docs' = map fst docs"
  by (induction docs arbitrary: docs') (auto split: if_splits)

lemma docs_set_map: "map_of (docs_set p t docs) = (map_of docs)(p \<mapsto> t)"
  by (auto simp: docs_set_def open_doc_set_Some split: option.splits)

lemma docs_set_distinct: "distinct (map fst docs) \<Longrightarrow> distinct (map fst (docs_set p t docs))"
  by (auto simp: docs_set_def open_doc_set_None open_doc_set_Some split: option.splits)

lemma open_doc_remove_set: "set (open_doc_remove p docs) \<subseteq> set docs"
  by (induction docs) auto

lemma open_doc_remove_distinct: "distinct (map fst docs) \<Longrightarrow> distinct (map fst (open_doc_remove p docs))"
proof (induction docs)
  case (Cons d docs)
  then show ?case using open_doc_remove_set [of p docs] by (auto simp: image_iff)
qed simp

lemma open_doc_remove_map:
  "distinct (map fst docs) \<Longrightarrow> map_of (open_doc_remove p docs) = (map_of docs)(p := None)"
proof (induction docs)
  case (Cons d docs)
  then show ?case by (auto simp: fun_eq_iff map_of_eq_None_iff)
qed simp

lemma doc_text_map: "doc_text p docs = map_of docs p"
  by (induction docs) (auto simp: doc_text_def)

text \<open>The change of the open documents a message asks for: a path with its new text, or without one.\<close>

definition document_change :: "json \<Rightarrow> (string \<times> string option) option" where
  "document_change msg =
     (let params = json_obj_get (Some msg) ''params'';
          path = Option.bind (document_uri params) uri_to_path;
          opened = string_of (json_obj_get (json_obj_get params ''textDocument'') ''text'');
          changed = string_of (json_obj_get (first_of (json_obj_get params ''contentChanges'')) ''text'')
      in case (string_of (json_obj_get (Some msg) ''method''), path) of
           (Some meth, Some p) \<Rightarrow>
             if meth = ''textDocument/didOpen'' then map_option (\<lambda>t. (p, Some t)) opened
             else if meth = ''textDocument/didChange'' then map_option (\<lambda>t. (p, Some t)) changed
             else if meth = ''textDocument/didClose'' then Some (p, None)
             else None
         | _ \<Rightarrow> None)"

definition documents_after :: "json \<Rightarrow> (string \<rightharpoonup> string) \<Rightarrow> (string \<rightharpoonup> string)" where
  "documents_after msg m = (case document_change msg of Some (p, t) \<Rightarrow> m(p := t) | None \<Rightarrow> m)"

lemma check_docs [simp]: "ls_docs (fst (check_and_publish sv dir p st)) = ls_docs st"
  by (simp add: check_and_publish_def Let_def)

lemma check_notification_docs [simp]: "ls_docs (fst (handle_check_notification sv params st)) = ls_docs st"
  by (simp add: handle_check_notification_def split: option.split)

lemma scan_package_keeps: "ls_docs (scan_package sv dir st) = ls_docs st" "ls_published (scan_package sv dir st) = ls_published st"
  by (simp_all add: scan_package_def Let_def)

lemma scan_keeps [simp]:
  "ls_docs (scan_workspace_symbols sv st) = ls_docs st" "ls_published (scan_workspace_symbols sv st) = ls_published st"
proof -
  have "ls_docs (fold (scan_package sv) dirs s) = ls_docs s \<and> ls_published (fold (scan_package sv) dirs s) = ls_published s"
    for dirs and s :: lsp
    by (induction dirs arbitrary: s) (auto simp: scan_package_keeps)
  then show "ls_docs (scan_workspace_symbols sv st) = ls_docs st" "ls_published (scan_workspace_symbols sv st) = ls_published st"
    by (auto simp: scan_workspace_symbols_def Let_def split: option.split)
qed

text \<open>The handlers that answer a query leave the documents and the published files alone.\<close>

definition answers :: "json option \<Rightarrow> lsp \<Rightarrow> lsp \<times> sent \<Rightarrow> bool" where
  "answers ident st r \<longleftrightarrow> ls_docs (fst r) = ls_docs st \<and> ls_published (fst r) = ls_published st
     \<and> (\<exists>v. snd r = [response ident v])"

lemma answers_hover: "handle_hover sv ident params st = Some r \<Longrightarrow> answers ident st r"
  by (auto simp: handle_hover_def answers_def split: Option.bind_splits option.splits)

lemma answers_definition: "handle_definition sv ident params st = Some r \<Longrightarrow> answers ident st r"
  by (auto simp: handle_definition_def answers_def split: Option.bind_splits option.splits)

lemma answers_completion: "handle_completion sv ident params st = Some r \<Longrightarrow> answers ident st r"
  by (auto simp: handle_completion_def answers_def Let_def split: Option.bind_splits option.splits)

lemma answers_formatting: "handle_formatting ident params st = Some r \<Longrightarrow> answers ident st r"
  by (auto simp: handle_formatting_def answers_def split: option.splits)

lemma answers_symbols:
  "answers ident st (handle_workspace_symbol sv ident params st)" "answers ident st (handle_document_symbol ident params st)"
  by (auto simp: handle_workspace_symbol_def handle_document_symbol_def answers_def Let_def)

lemmas answers_queries = answers_hover answers_definition answers_completion answers_formatting

text \<open>The ways a message leaves the server running.\<close>

lemma handle_message_running:
  assumes "handle_message sv st msg = Some (Running st' out)"
  obtains
    (no_method) "string_of (json_obj_get (Some msg) ''method'') = None" "st' = st" "out = []"
  | (initialize) "string_of (json_obj_get (Some msg) ''method'') = Some ''initialize''"
      "(st', out) = handle_initialize (json_obj_get (Some msg) ''id'') (json_obj_get (Some msg) ''params'') st"
  | (opened) "string_of (json_obj_get (Some msg) ''method'') = Some ''textDocument/didOpen''"
      "(st', out) = handle_did_open sv (json_obj_get (Some msg) ''params'') st"
  | (changed) "string_of (json_obj_get (Some msg) ''method'') = Some ''textDocument/didChange''"
      "(st', out) = handle_did_change sv (json_obj_get (Some msg) ''params'') st"
  | (saved) "string_of (json_obj_get (Some msg) ''method'') = Some ''textDocument/didSave''"
      "(st', out) = handle_check_notification sv (json_obj_get (Some msg) ''params'') st"
  | (closed) uri where "string_of (json_obj_get (Some msg) ''method'') = Some ''textDocument/didClose''"
      "document_uri (json_obj_get (Some msg) ''params'') = Some uri" "(st', out) = handle_close uri st"
  | (answered) meth v where "string_of (json_obj_get (Some msg) ''method'') = Some meth"
      "meth \<in> {''textDocument/hover'', ''textDocument/definition'', ''textDocument/completion'',
        ''textDocument/documentSymbol'', ''textDocument/formatting'', ''shutdown'', ''workspace/symbol''}"
      "ls_docs st' = ls_docs st" "ls_published st' = ls_published st"
      "out = [response (json_obj_get (Some msg) ''id'') v]"
  | (unknown) meth where "string_of (json_obj_get (Some msg) ''method'') = Some meth"
      "meth \<notin> {''initialize'', ''textDocument/didOpen'', ''textDocument/didChange'', ''textDocument/didSave'',
        ''textDocument/hover'', ''textDocument/definition'', ''textDocument/completion'',
        ''textDocument/documentSymbol'', ''textDocument/formatting'', ''shutdown'', ''workspace/symbol''}"
      "meth = ''textDocument/didClose'' \<longrightarrow> document_uri (json_obj_get (Some msg) ''params'') = None" "st' = st"
      "out = (if meth \<in> {''initialized'', ''textDocument/didClose''} \<or> json_obj_get (Some msg) ''id'' = None then []
        else [error_response (json_obj_get (Some msg) ''id'') (- 32601) ''method not found''])"
proof (cases "string_of (json_obj_get (Some msg) ''method'')")
  case None
  then show ?thesis using assms no_method by (simp add: handle_message_def)
next
  case (Some meth)
  let ?id = "json_obj_get (Some msg) ''id''" and ?params = "json_obj_get (Some msg) ''params''"
  have queried: thesis
    if "meth \<in> {''textDocument/hover'', ''textDocument/definition'', ''textDocument/completion'',
        ''textDocument/documentSymbol'', ''textDocument/formatting'', ''shutdown'', ''workspace/symbol''}"
      "answers ?id st (st', out)"
    using answered [OF Some that(1)] that(2) by (auto simp: answers_def)
  consider "meth = ''initialize''" | "meth = ''textDocument/didOpen''" | "meth = ''textDocument/didChange''"
    | "meth = ''textDocument/didSave''" | "meth = ''textDocument/didClose''" | "meth = ''textDocument/hover''"
    | "meth = ''textDocument/definition''" | "meth = ''textDocument/completion''" | "meth = ''workspace/symbol''"
    | "meth = ''textDocument/documentSymbol''" | "meth = ''textDocument/formatting''" | "meth = ''shutdown''"
    | "meth = ''exit''"
    | "meth \<notin> {''initialize'', ''textDocument/didOpen'', ''textDocument/didChange'', ''textDocument/didSave'',
        ''textDocument/didClose'', ''textDocument/hover'', ''textDocument/definition'', ''textDocument/completion'',
        ''textDocument/documentSymbol'', ''textDocument/formatting'', ''shutdown'', ''workspace/symbol'', ''exit''}"
    unfolding insert_iff empty_iff by argo
  then show ?thesis
  proof cases
    case 1
    then have "handle_initialize ?id ?params st = (st', out)"
      using assms Some by (cases "handle_initialize ?id ?params st") (simp add: handle_message_def)
    then show ?thesis using initialize [OF Some [unfolded 1]] by metis
  next
    case 2
    then have "handle_did_open sv ?params st = (st', out)"
      using assms Some by (cases "handle_did_open sv ?params st") (simp add: handle_message_def)
    then show ?thesis using opened [OF Some [unfolded 2]] by metis
  next
    case 3
    then have "handle_did_change sv ?params st = (st', out)"
      using assms Some by (cases "handle_did_change sv ?params st") (simp add: handle_message_def)
    then show ?thesis using changed [OF Some [unfolded 3]] by metis
  next
    case 4
    then have "handle_check_notification sv ?params st = (st', out)"
      using assms Some by (cases "handle_check_notification sv ?params st") (simp add: handle_message_def)
    then show ?thesis using saved [OF Some [unfolded 4]] by metis
  next
    case 5
    show ?thesis
    proof (cases "document_uri ?params")
      case None
      then have "st' = st \<and> out = []" using assms Some 5 by (simp add: handle_message_def)
      then show ?thesis using unknown [OF \<open>string_of (json_obj_get (Some msg) ''method'') = Some meth\<close>] 5 None by simp
    next
      case (Some uri)
      then have "handle_close uri st = (st', out)"
        using assms \<open>string_of (json_obj_get (Some msg) ''method'') = Some meth\<close> 5
        by (cases "handle_close uri st") (simp add: handle_message_def)
      then show ?thesis using closed [OF _ Some] \<open>string_of (json_obj_get (Some msg) ''method'') = Some meth\<close> 5 by metis
    qed
  next
    case 6
    then have "handle_hover sv ?id ?params st = Some (st', out)" using assms Some by (auto simp: handle_message_def Let_def)
    from queried [OF _ answers_queries(1) [OF this]] show ?thesis by (simp add: 6)
  next
    case 7
    then have "handle_definition sv ?id ?params st = Some (st', out)" using assms Some by (auto simp: handle_message_def Let_def)
    from queried [OF _ answers_queries(2) [OF this]] show ?thesis by (simp add: 7)
  next
    case 8
    then have "handle_completion sv ?id ?params st = Some (st', out)" using assms Some by (auto simp: handle_message_def Let_def)
    from queried [OF _ answers_queries(3) [OF this]] show ?thesis by (simp add: 8)
  next
    case 9
    then have "handle_workspace_symbol sv ?id ?params st = (st', out)"
      using assms Some by (cases "handle_workspace_symbol sv ?id ?params st") (simp add: handle_message_def)
    then have "answers ?id st (st', out)" using answers_symbols(1) by metis
    then show ?thesis by (rule queried [rotated]) (simp add: 9)
  next
    case 10
    then have "handle_document_symbol ?id ?params st = (st', out)"
      using assms Some by (cases "handle_document_symbol ?id ?params st") (simp add: handle_message_def)
    then have "answers ?id st (st', out)" using answers_symbols(2) by metis
    then show ?thesis by (rule queried [rotated]) (simp add: 10)
  next
    case 11
    then have "handle_formatting ?id ?params st = Some (st', out)" using assms Some by (auto simp: handle_message_def Let_def)
    from queried [OF _ answers_queries(4) [OF this]] show ?thesis by (simp add: 11)
  next
    case 12
    then have "st' = st\<lparr>ls_shutdown := True\<rparr>" "out = [response ?id Json_Null]"
      using assms Some by (simp_all add: handle_message_def)
    then have "answers ?id st (st', out)" unfolding answers_def by auto
    then show ?thesis by (rule queried [rotated]) (simp add: 12)
  next
    case 13 then show ?thesis using assms Some by (simp add: handle_message_def)
  next
    case 14
    have "st' = st \<and> out = (if meth = ''initialized'' \<or> ?id = None then []
        else [error_response ?id (- 32601) ''method not found''])"
    proof (cases "meth = ''initialized''")
      case True
      then show ?thesis using assms Some by (simp add: handle_message_def)
    next
      case False
      then show ?thesis using assms Some 14 by (simp add: handle_message_def Let_def split: if_splits)
    qed
    then show ?thesis using unknown [OF Some] 14 by simp
  qed
qed

lemma initialize_keeps:
  "(st', out) = handle_initialize ident params st \<Longrightarrow> ls_docs st' = ls_docs st \<and> ls_published st' = ls_published st"
  by (auto simp: handle_initialize_def Let_def split: option.splits)

lemma track_docs:
  "ls_docs (track_open_doc_text uri t st)
     = (case Option.bind uri uri_to_path of None \<Rightarrow> ls_docs st | Some p \<Rightarrow> docs_set p t (ls_docs st))"
  by (simp add: track_open_doc_text_def split: option.split)

lemma open_docs:
  "(st', out) = handle_did_open sv params st \<Longrightarrow> ls_docs st' =
     (case string_of (json_obj_get (json_obj_get params ''textDocument'') ''text'') of
        None \<Rightarrow> ls_docs st
      | Some t \<Rightarrow> ls_docs (track_open_doc_text (document_uri params) t st))"
proof -
  assume a: "(st', out) = handle_did_open sv params st"
  show ?thesis using arg_cong [OF a, of "\<lambda>r. ls_docs (fst r)"]
    by (simp add: handle_did_open_def Let_def split: option.split)
qed

lemma change_docs:
  "(st', out) = handle_did_change sv params st \<Longrightarrow> ls_docs st' =
     (case string_of (json_obj_get (first_of (json_obj_get params ''contentChanges'')) ''text'') of
        None \<Rightarrow> ls_docs st
      | Some t \<Rightarrow> ls_docs (track_open_doc_text (document_uri params) t st))"
proof -
  assume a: "(st', out) = handle_did_change sv params st"
  show ?thesis using arg_cong [OF a, of "\<lambda>r. ls_docs (fst r)"]
    by (simp add: handle_did_change_def Let_def split: option.split)
qed

lemma close_docs:
  "(st', out) = handle_close uri st \<Longrightarrow> ls_docs st' =
     (case uri_to_path uri of None \<Rightarrow> ls_docs st | Some p \<Rightarrow> open_doc_remove p (ls_docs st))"
  by (auto simp: handle_close_def Let_def split: option.splits)

text \<open>
  C35: The open documents are a map from paths to texts, and exactly the three document notifications
  change it: opening or changing a document with a text binds its path to that text, closing it unbinds
  it, and no other message, check or query touches it.  A path is never listed twice.\<close>

theorem documents_refine:
  assumes "distinct (map fst (ls_docs st))" and "handle_message sv st msg = Some (Running st' out)"
  shows "distinct (map fst (ls_docs st')) \<and> map_of (ls_docs st') = documents_after msg (map_of (ls_docs st))"
  using assms(2)
proof (cases rule: handle_message_running)
  case opened
  note d = open_docs [OF opened(2)]
  show ?thesis
    using assms(1) opened(1) d
    by (auto simp: track_docs documents_after_def document_change_def Let_def docs_set_map docs_set_distinct
        split: option.splits)
next
  case changed
  note d = change_docs [OF changed(2)]
  show ?thesis
    using assms(1) changed(1) d
    by (auto simp: track_docs documents_after_def document_change_def Let_def docs_set_map docs_set_distinct
        split: option.splits)
next
  case (closed uri)
  note d = close_docs [OF closed(3)]
  show ?thesis
    using assms(1) closed(1,2) d
    by (auto simp: documents_after_def document_change_def Let_def open_doc_remove_map open_doc_remove_distinct
        split: option.splits)
next
  case saved
  then have "ls_docs st' = ls_docs st" using check_notification_docs by (metis fst_conv)
  then show ?thesis using assms(1) saved(1) by (simp add: documents_after_def document_change_def Let_def split: option.split)
next
  case (unknown meth)
  then have "document_change msg = None"
    by (auto simp: document_change_def Let_def split: option.split)
  then show ?thesis using assms(1) unknown(4) by (simp add: documents_after_def)
qed (use assms(1) initialize_keeps in \<open>auto simp: documents_after_def document_change_def Let_def split: option.split\<close>)

end
