(* ===== verification/Lsp_Diagnostics.thy ===== *)
theory Lsp_Diagnostics
  imports Lsp_Props
begin

text \<open>
  What the client shows after the diagnostics the server publishes: the report of the last check, and
  nothing for a file the server does not track.
\<close>

section \<open>The client\<close>

text \<open>The diagnostics shown per URI; every published list replaces the one before.\<close>

type_synonym shown = "string \<Rightarrow> json list"

definition client_step :: "json \<Rightarrow> shown \<Rightarrow> shown" where
  "client_step m shown =
     (let params = json_obj_get (Some m) ''params''
      in case (string_of (json_obj_get (Some m) ''method''), string_of (json_obj_get params ''uri''),
               json_obj_get params ''diagnostics'') of
           (Some meth, Some uri, Some (Json_Array ds)) \<Rightarrow>
             if meth = ''textDocument/publishDiagnostics'' then shown(uri := ds) else shown
         | _ \<Rightarrow> shown)"

definition client_shows :: "sent \<Rightarrow> shown \<Rightarrow> shown" where
  "client_shows out shown = fold client_step out shown"

lemma string_of_jstr [simp]: "string_of (Some (jstr s)) = Some (cut_nul s)"
  by (simp add: string_of_def jstr_def)

lemma cut_nul_literal [simp]: "CHR 0x00 \<notin> set s \<Longrightarrow> cut_nul s = s"
  by (auto simp: cut_nul_def takeWhile_eq_all_conv)

lemma client_publish [simp]: "client_step (publish uri ds) shown = shown(cut_nul uri := map make_lsp_diagnostic ds)"
  by (simp add: client_step_def publish_def notification_def json_obj_get_def)

lemma client_response [simp]: "client_step (response ident v) shown = shown"
  by (simp add: client_step_def response_def json_obj_get_def string_of_def)

lemma client_error [simp]: "client_step (error_response ident c msg) shown = shown"
  by (simp add: client_step_def error_response_def json_obj_get_def string_of_def)

lemma hex_val_NUL: "hex_val (CHR 0x00) = None"
  by (simp add: hex_val_def)

lemma path_to_uri_plain [simp]: "cut_nul (path_to_uri p) = path_to_uri p"
proof -
  have "CHR 0x00 \<notin> set (percent_encode c)" for c
  proof (cases "uri_safe c")
    case True
    then show ?thesis by (auto simp: percent_encode_def uri_safe_def Let_def)
  next
    case False
    have "hex_upper n \<noteq> CHR 0x00" if "n < 16" for n
      using hex_val_hex_upper [OF that] by (metis hex_val_NUL option.distinct(1))
    moreover have "(of_char c :: nat) < 16 * 16" using nat_of_char_less_256 [of c] by linarith
    then have "(of_char c :: nat) div 16 < 16" by (rule less_mult_imp_div_less)
    ultimately have "hex_upper (of_char c div 16) \<noteq> CHR 0x00" "hex_upper (of_char c mod 16) \<noteq> CHR 0x00"
      by simp_all
    then show ?thesis using False by (simp add: percent_encode_def)
  qed
  then show ?thesis by (auto simp: path_to_uri_def FILE_PREFIX_def)
qed

section \<open>Groups\<close>

lemma group_add_map:
  "map_option map_of (group_add p d gs) =
     (case map_of gs p of None \<Rightarrow> None | Some ds \<Rightarrow> Some ((map_of gs)(p \<mapsto> ds @ [d])))"
  by (induction gs) (auto simp: fun_eq_iff map_option_case split: option.splits)

definition reported :: "diagnostic list \<Rightarrow> string \<Rightarrow> diagnostic list" where
  "reported ds p = filter (\<lambda>d. cut_nul (dg_file_path d) = p) ds"

lemma group_step_map:
  "map_of (group_step d gs) p =
     (if cut_nul (dg_file_path d) = p then Some ((case map_of gs p of Some ds \<Rightarrow> ds | None \<Rightarrow> []) @ [d]) else map_of gs p)"
  using group_add_map [of "cut_nul (dg_file_path d)" d gs]
  by (auto simp: group_step_def Let_def split: option.splits)

lemma groups_of:
  "map_of (group_by_file ds) p = (if reported ds p = [] then None else Some (reported ds p))"
proof -
  have "map_of (fold group_step ds gs) p
    = (if reported ds p = [] then map_of gs p else Some ((case map_of gs p of Some es \<Rightarrow> es | None \<Rightarrow> []) @ reported ds p))"
    for gs
  proof (induction ds arbitrary: gs)
    case (Cons d ds)
    then show ?case by (auto simp: reported_def group_step_map split: option.splits)
  qed (simp add: reported_def)
  then show ?thesis by (simp add: group_by_file_def)
qed

lemma groups_paths: "set (map fst (group_by_file ds)) = {p. reported ds p \<noteq> []}"
proof -
  have "p \<in> fst ` set (group_by_file ds) \<longleftrightarrow> reported ds p \<noteq> []" for p
    using map_of_eq_None_iff [of "group_by_file ds" p] groups_of [of ds p] by (simp split: if_splits)
  then show ?thesis by auto
qed

section \<open>A check is shown\<close>

lemma path_to_uri_inject: "path_to_uri p = path_to_uri q \<longleftrightarrow> p = q"
proof
  assume "path_to_uri p = path_to_uri q"
  then have "percent_decode (concat (map percent_encode p)) = percent_decode (concat (map percent_encode q))"
    by (simp add: path_to_uri_def)
  then show "p = q" unfolding percent_decode_path .
qed simp

lemma client_shows_paths:
  "client_shows (map (\<lambda>p. publish (path_to_uri p) (f p)) ps) shown (path_to_uri q)
     = (if q \<in> set ps then map make_lsp_diagnostic (f q) else shown (path_to_uri q))"
  by (induction ps arbitrary: shown) (auto simp: client_shows_def path_to_uri_inject)

lemma client_shows_other:
  "u \<notin> path_to_uri ` set ps \<Longrightarrow> client_shows (map (\<lambda>p. publish (path_to_uri p) (f p)) ps) shown u = shown u"
  by (induction ps arbitrary: shown) (auto simp: client_shows_def)

lemma client_shows_append: "client_shows (xs @ ys) shown = client_shows ys (client_shows xs shown)"
  by (simp add: client_shows_def)

text \<open>The files of a check: those of its report, the opened one, and those of the check before.\<close>

definition checked_paths :: "services \<Rightarrow> string \<Rightarrow> string \<Rightarrow> lsp \<Rightarrow> string set" where
  "checked_paths sv dir opened st =
     {p. reported (cr_diagnostics (sv_check sv dir (build_overlays_for_dir dir (ls_docs st)))) p \<noteq> []} \<union> {opened}"

lemma check_shows:
  "client_shows (snd (check_and_publish sv dir opened st)) shown (path_to_uri p) =
     (if p \<in> checked_paths sv dir opened st \<union> set (entry_paths dir (ls_published st))
      then map make_lsp_diagnostic (reported (cr_diagnostics (sv_check sv dir (build_overlays_for_dir dir (ls_docs st)))) p)
      else shown (path_to_uri p))"
  "u \<notin> range path_to_uri \<Longrightarrow> client_shows (snd (check_and_publish sv dir opened st)) shown u = shown u"
  "ls_published (fst (check_and_publish sv dir opened st)) =
     set_entry_paths dir (map fst (group_by_file (cr_diagnostics (sv_check sv dir (build_overlays_for_dir dir (ls_docs st)))))
       @ (if opened \<in> set (map fst (group_by_file (cr_diagnostics (sv_check sv dir (build_overlays_for_dir dir (ls_docs st))))))
          then [] else [opened])) (ls_published st)"
proof -
  let ?ds = "cr_diagnostics (sv_check sv dir (build_overlays_for_dir dir (ls_docs st)))"
  let ?g = "group_by_file ?ds"
  let ?paths = "map fst ?g @ (if opened \<in> set (map fst ?g) then [] else [opened])"
  let ?old = "filter (\<lambda>p. p \<notin> set ?paths) (entry_paths dir (ls_published st))"
  have out: "snd (check_and_publish sv dir opened st) = map (\<lambda>p. publish (path_to_uri p) []) ?old
      @ map (\<lambda>p. publish (path_to_uri p) (case map_of ?g p of Some ds \<Rightarrow> ds | None \<Rightarrow> [])) ?paths"
    by (simp only: check_and_publish_def Let_def snd_conv)
  have paths: "set ?paths = checked_paths sv dir opened st"
    using groups_paths [of ?ds] by (auto simp: checked_paths_def)
  show "client_shows (snd (check_and_publish sv dir opened st)) shown (path_to_uri p) =
     (if p \<in> checked_paths sv dir opened st \<union> set (entry_paths dir (ls_published st))
      then map make_lsp_diagnostic (reported ?ds p) else shown (path_to_uri p))"
    unfolding out client_shows_append client_shows_paths groups_of paths [symmetric]
    using groups_paths [of ?ds] by (auto simp: client_shows_paths)
  show "client_shows (snd (check_and_publish sv dir opened st)) shown u = shown u" if "u \<notin> range path_to_uri"
    unfolding out client_shows_append using that by (subst client_shows_other, blast)+ simp
  show "ls_published (fst (check_and_publish sv dir opened st)) = set_entry_paths dir ?paths (ls_published st)"
    by (simp add: check_and_publish_def Let_def)
qed

text \<open>
  C36: After a check the client shows, for every file of the report, for the file that triggered the
  check and for every file the previous check of the directory had published, exactly the diagnostics
  reported for that file now, in their order; what it shows for any other file is unchanged.  So a file
  that dropped out of the report is cleared.\<close>

theorem check_shows_report:
  "client_shows (snd (check_and_publish sv dir opened st)) shown (path_to_uri p) =
     (if p \<in> checked_paths sv dir opened st \<union> set (entry_paths dir (ls_published st))
      then map make_lsp_diagnostic (reported (cr_diagnostics (sv_check sv dir (build_overlays_for_dir dir (ls_docs st)))) p)
      else shown (path_to_uri p))"
  by (rule check_shows(1))

section \<open>Nothing stale is shown\<close>

definition tracked :: "lsp \<Rightarrow> string set" where
  "tracked st = (\<Union>e\<in>set (ls_published st). set (snd e))"

lemma entry_replace_keeps:
  "entry_replace dir ps es = Some es' \<Longrightarrow> q \<in> (\<Union>e\<in>set es. set (snd e)) \<Longrightarrow>
   q \<in> set (entry_paths dir es) \<or> q \<in> (\<Union>e\<in>set es'. set (snd e))"
proof (induction es arbitrary: es')
  case (Cons e es)
  show ?case
  proof (cases "fst e = dir")
    case False
    then obtain es2 where es2: "entry_replace dir ps es = Some es2" "es' = e # es2" using Cons.prems(1) by auto
    then show ?thesis using Cons.IH [OF es2(1)] Cons.prems(2) False by (auto simp: entry_paths_def)
  next
    case True
    then have "entry_paths dir (e # es) = snd e" by (cases e) (simp add: entry_paths_def)
    then show ?thesis using Cons.prems True by auto
  qed
qed simp

lemma entry_replace_has: "entry_replace dir ps es = Some es' \<Longrightarrow> (dir, ps) \<in> set es'"
  by (induction es arbitrary: es') (auto split: if_splits)

lemma set_entry_paths_tracks:
  "q \<in> (\<Union>e\<in>set es. set (snd e)) \<Longrightarrow>
     q \<in> set (entry_paths dir es) \<or> q \<in> (\<Union>e\<in>set (set_entry_paths dir ps es). set (snd e))"
  "set ps \<subseteq> (\<Union>e\<in>set (set_entry_paths dir ps es). set (snd e))"
  using entry_replace_keeps [of dir ps es] entry_replace_has [of dir ps es]
  by (auto simp: set_entry_paths_def split: option.split)

lemma first_occurrence:
  "p \<in> set ps \<Longrightarrow> length (takeWhile (\<lambda>x. x \<noteq> p) ps) < length ps \<and> ps ! length (takeWhile (\<lambda>x. x \<noteq> p) ps) = p"
  by (induction ps) auto

lemma swap_remove_keeps:
  assumes "q \<in> set ps" "q \<noteq> p" "p \<in> set ps"
  shows "q \<in> set (swap_remove p ps)"
proof -
  let ?j = "length (takeWhile (\<lambda>x. x \<noteq> p) ps)"
  have j: "?j < length ps" "ps ! ?j = p"
    using first_occurrence [OF assms(3)] by simp_all
  obtain i where i: "i < length ps" "ps ! i = q" using assms(1) by (auto simp: in_set_conv_nth)
  have ij: "i \<noteq> ?j" using i j assms(2) by auto
  let ?new = "butlast (ps[?j := last ps])"
  have len: "length ?new = length ps - 1" by simp
  show ?thesis
  proof (cases "i = length ps - 1")
    case True
    then have "?j < length ps - 1" using j(1) ij i(1) by simp
    moreover have "last ps = q" using True i by (metis last_conv_nth list.size(3) not_less_zero)
    ultimately have "?new ! ?j = q" using j(1) by (simp add: nth_butlast)
    then show ?thesis using \<open>?j < length ps - 1\<close> len unfolding swap_remove_def Let_def
      by (metis nth_mem)
  next
    case False
    then have lt: "i < length ps - 1" using i(1) by simp
    then have "?new ! i = q" using i ij by (simp add: nth_butlast)
    then show ?thesis using lt len unfolding swap_remove_def Let_def by (metis nth_mem)
  qed
qed

lemma forget_published_keeps:
  "forget_published p es = Some es' \<Longrightarrow> q \<noteq> p \<Longrightarrow> q \<in> (\<Union>e\<in>set es. set (snd e)) \<Longrightarrow> q \<in> (\<Union>e\<in>set es'. set (snd e))"
proof (induction es arbitrary: es')
  case (Cons e es)
  show ?case
  proof (cases "p \<in> set (snd e)")
    case True
    then show ?thesis using Cons.prems swap_remove_keeps [of q "snd e" p] by auto
  next
    case False
    then obtain es2 where "forget_published p es = Some es2" "es' = e # es2" using Cons.prems(1) by auto
    then show ?thesis using Cons.IH Cons.prems(2,3) by auto
  qed
qed simp

text \<open>A client that closes documents under the URIs the server publishes for them.\<close>

definition canonical_close :: "json \<Rightarrow> bool" where
  "canonical_close msg \<longleftrightarrow>
     (string_of (json_obj_get (Some msg) ''method'') = Some ''textDocument/didClose'' \<longrightarrow>
      (case document_uri (json_obj_get (Some msg) ''params'') of
         Some uri \<Rightarrow> (case uri_to_path uri of Some p \<Rightarrow> uri = path_to_uri p | None \<Rightarrow> True)
       | None \<Rightarrow> True))"

text \<open>The server with its client, from the start, one message after the other.\<close>

inductive lsp_session :: "services \<Rightarrow> lsp \<Rightarrow> shown \<Rightarrow> bool" for sv where
  lsp_start: "lsp_session sv lsp_init (\<lambda>u. [])"
| lsp_message: "lsp_session sv st shown \<Longrightarrow> canonical_close msg \<Longrightarrow>
    handle_message sv st msg = Some (Running st' out) \<Longrightarrow> lsp_session sv st' (client_shows out shown)"

definition nothing_stale :: "lsp \<Rightarrow> shown \<Rightarrow> bool" where
  "nothing_stale st shown \<longleftrightarrow> (\<forall>u. shown u \<noteq> [] \<longrightarrow> u \<in> path_to_uri ` tracked st)"

lemma check_nothing_stale:
  assumes "nothing_stale st shown" "check_and_publish sv dir opened st = (st', out)"
  shows "nothing_stale st' (client_shows out shown)"
  unfolding nothing_stale_def
proof (intro allI impI)
  fix u assume u: "client_shows out shown u \<noteq> []"
  have o: "out = snd (check_and_publish sv dir opened st)" and s: "st' = fst (check_and_publish sv dir opened st)"
    using assms(2) by simp_all
  let ?ds = "cr_diagnostics (sv_check sv dir (build_overlays_for_dir dir (ls_docs st)))"
  let ?paths = "map fst (group_by_file ?ds) @ (if opened \<in> set (map fst (group_by_file ?ds)) then [] else [opened])"
  have new: "ls_published st' = set_entry_paths dir ?paths (ls_published st)"
    unfolding s by (rule check_shows(3))
  have paths: "checked_paths sv dir opened st \<subseteq> set ?paths"
    using groups_paths [of ?ds] by (auto simp: checked_paths_def)
  have keep: "q \<in> tracked st'" if "q \<in> set ?paths \<or> (q \<in> tracked st \<and> q \<notin> set (entry_paths dir (ls_published st)))" for q
    using that set_entry_paths_tracks [where dir = dir and ps = ?paths and es = "ls_published st"]
    unfolding tracked_def new by blast
  show "u \<in> path_to_uri ` tracked st'"
  proof (cases "u \<in> range path_to_uri")
    case True
    then obtain p where p: "u = path_to_uri p" by blast
    have "p \<in> tracked st'"
    proof (cases "p \<in> checked_paths sv dir opened st \<union> set (entry_paths dir (ls_published st))")
      case True
      then have "reported ?ds p \<noteq> []" using u check_shows(1) [of sv dir opened st shown p] unfolding o p by auto
      then have "p \<in> checked_paths sv dir opened st" by (simp add: checked_paths_def)
      then show ?thesis using keep paths by blast
    next
      case False
      then have "shown u \<noteq> []" using u check_shows(1) [of sv dir opened st shown p] unfolding o p by simp
      then obtain q where q: "u = path_to_uri q" "q \<in> tracked st" using assms(1) unfolding nothing_stale_def by blast
      then have "p \<in> tracked st" using p path_to_uri_inject [of p q] by simp
      then show ?thesis using keep False by blast
    qed
    then show ?thesis using p by blast
  next
    case False
    then have "shown u \<noteq> []" using u check_shows(2) [of u sv dir opened st shown] unfolding o by simp
    then show ?thesis using assms(1) False unfolding nothing_stale_def by blast
  qed
qed

lemma close_nothing_stale:
  assumes "nothing_stale st shown" "handle_close uri st = (st', out)"
    and "\<And>p. uri_to_path uri = Some p \<Longrightarrow> uri = path_to_uri p"
  shows "nothing_stale st' (client_shows out shown)"
proof (cases "uri_to_path uri")
  case None
  then show ?thesis using assms by (simp add: handle_close_def client_shows_def)
next
  case (Some p)
  have uri: "uri = path_to_uri p" using assms(3) Some by simp
  show ?thesis
  proof (cases "forget_published p (ls_published st)")
    case None
    then show ?thesis using assms Some by (auto simp: handle_close_def client_shows_def nothing_stale_def tracked_def)
  next
    case f: (Some es)
    then have o: "client_shows out shown = shown(uri := [])" "ls_published st' = es"
      using assms(2) Some uri by (auto simp: handle_close_def client_shows_def)
    have "u \<in> path_to_uri ` tracked st'" if u: "u \<noteq> uri" "shown u \<noteq> []" for u
    proof -
      obtain q where q: "u = path_to_uri q" "q \<in> tracked st" using assms(1) u(2) unfolding nothing_stale_def by blast
      then have "q \<noteq> p" using u(1) uri by blast
      then have "q \<in> tracked st'" using forget_published_keeps [OF f] q(2) unfolding tracked_def o(2) by blast
      then show ?thesis using q(1) by blast
    qed
    then show ?thesis unfolding o(1) nothing_stale_def by simp
  qed
qed

lemma client_shows_nothing [simp]:
  "client_shows [] shown = shown" "client_shows [response ident v] shown = shown"
  "client_shows [error_response ident c msg] shown = shown"
  by (simp_all add: client_shows_def)

lemma message_nothing_stale:
  assumes "nothing_stale st shown" "canonical_close msg" "handle_message sv st msg = Some (Running st' out)"
  shows "nothing_stale st' (client_shows out shown)"
proof -
  have same: "nothing_stale s shown" if "ls_published s = ls_published st" for s
    using assms(1) that by (simp add: nothing_stale_def tracked_def)
  have checked: "nothing_stale st' (client_shows out shown)"
    if "handle_check_notification sv params s = (st', out)" "ls_published s = ls_published st" for params s
    using that same [OF that(2)] check_nothing_stale [of s shown sv _ _ st' out]
    by (auto simp: handle_check_notification_def split: option.splits)
  show ?thesis
    using assms(3)
  proof (cases rule: handle_message_running)
    case initialize
    then show ?thesis using same initialize_keeps [OF initialize(2)]
      by (auto simp: handle_initialize_def Let_def)
  next
    case opened
    then show ?thesis
      using checked [of "json_obj_get (Some msg) ''params''"]
      by (auto simp: handle_did_open_def track_open_doc_text_def Let_def split: option.splits)
  next
    case changed
    then show ?thesis
      using checked [of "json_obj_get (Some msg) ''params''"]
      by (auto simp: handle_did_change_def track_open_doc_text_def Let_def split: option.splits)
  next
    case saved
    then show ?thesis using checked [of "json_obj_get (Some msg) ''params''" st] by metis
  next
    case (closed uri)
    have "uri = path_to_uri p" if "uri_to_path uri = Some p" for p
      using assms(2) closed(1,2) that by (simp add: canonical_close_def)
    then show ?thesis using close_nothing_stale [OF assms(1)] closed(3) by metis
  next
    case (unknown meth)
    then show ?thesis using assms(1) by simp
  qed (use assms(1) same in auto)
qed

text \<open>
  C37: In every session, whatever the compiler reports and whatever messages arrive, the client shows
  diagnostics only for files that some directory's entry of the server still tracks, so the next check
  of that directory, or closing the file, replaces them: no diagnostic is left behind.  The client must
  close a document under the URI the server publishes for its path.\<close>

theorem no_stale_diagnostics:
  assumes "lsp_session sv st shown" and "shown u \<noteq> []"
  shows "\<exists>p\<in>tracked st. u = path_to_uri p"
proof -
  have "nothing_stale st shown" using assms(1)
  proof induction
    case lsp_start
    then show ?case by (simp add: nothing_stale_def)
  next
    case (lsp_message st shown msg st' out)
    then show ?case by (intro message_nothing_stale)
  qed
  then show ?thesis using assms(2) by (auto simp: nothing_stale_def)
qed

section \<open>Examples\<close>

text \<open>A compiler that reports one error in \<^verbatim>\<open>/p/a.3b\<close>.\<close>

definition demo_diagnostic :: diagnostic where
  "demo_diagnostic = \<lparr>dg_message = ''no'', dg_file_path = ''/p/a.3b'', dg_line = 2, dg_col = 1\<rparr>"

definition demo_check :: "string \<Rightarrow> overlays \<Rightarrow> check_result" where
  "demo_check dir ovs = \<lparr>cr_ok = False, cr_diagnostics = (if dir = ''/p'' then [demo_diagnostic] else []),
     cr_symbols = [], cr_imports = []\<rparr>"

definition demo_services :: services where
  "demo_services = \<lparr>sv_check = demo_check, sv_hover = \<lambda>_ _ _ _ _. None, sv_definition = \<lambda>_ _ _ _ _. None,
     sv_completion = \<lambda>_ _ _ _ _. None, sv_packages = \<lambda>_. []\<rparr>"

definition demo_open :: json where
  "demo_open = Json_Object [(''method'', Json_String ''textDocument/didOpen''),
     (''params'', Json_Object [(''textDocument'', Json_Object [(''uri'', Json_String ''file:///p/a.3b''),
        (''text'', Json_String ''(fn'')])])]"

lemma demo_uri: "uri_to_path ''file:///p/a.3b'' = Some ''/p/a.3b''" "path_dirname ''/p/a.3b'' = ''/p''"
  by code_simp+

lemma demo_handled:
  "handle_message demo_services lsp_init demo_open =
     (let r = check_and_publish demo_services ''/p'' ''/p/a.3b'' (lsp_init\<lparr>ls_docs := [(''/p/a.3b'', ''(fn'')]\<rparr>)
      in Some (Running (fst r) (snd r)))"
  by (simp add: handle_message_def demo_open_def json_obj_get_def string_of_def handle_did_open_def
      track_open_doc_text_def document_uri_def handle_check_notification_def demo_uri docs_set_def lsp_init_def Let_def)

theorem no_stale_diagnostics_witness:
  "\<exists>st shown. lsp_session demo_services st shown \<and> shown (path_to_uri ''/p/a.3b'') = [make_lsp_diagnostic demo_diagnostic]
     \<and> (\<exists>p\<in>tracked st. path_to_uri ''/p/a.3b'' = path_to_uri p)"
proof -
  let ?st = "lsp_init\<lparr>ls_docs := [(''/p/a.3b'', ''(fn'')]\<rparr>"
  let ?r = "check_and_publish demo_services ''/p'' ''/p/a.3b'' ?st"
  let ?shown = "client_shows (snd ?r) (\<lambda>u. [])"
  have h: "handle_message demo_services lsp_init demo_open = Some (Running (fst ?r) (snd ?r))"
    using demo_handled by (simp only: Let_def)
  have c: "canonical_close demo_open"
    by (simp add: canonical_close_def demo_open_def json_obj_get_def string_of_def)
  have s: "lsp_session demo_services (fst ?r) ?shown" by (rule lsp_message [OF lsp_start c h])
  have shown: "?shown (path_to_uri ''/p/a.3b'') = [make_lsp_diagnostic demo_diagnostic]"
    by (subst check_shows(1)) (simp add: checked_paths_def demo_services_def demo_check_def reported_def demo_diagnostic_def)
  have "\<exists>p\<in>tracked (fst ?r). path_to_uri ''/p/a.3b'' = path_to_uri p"
    by (rule no_stale_diagnostics [OF s]) (simp add: shown)
  then show ?thesis using s shown by blast
qed

text \<open>A client that escapes more than the server does closes the document under another URI, and the
  diagnostics published under the server's own stay.\<close>

lemma escaped_close_leaves_diagnostics:
  "let r = handle_close ''file:///p/a%2e3b'' (lsp_init\<lparr>ls_published := [(''/p'', [''/p/a.3b''])]\<rparr>);
       shown = (\<lambda>u. if u = path_to_uri ''/p/a.3b'' then [make_lsp_diagnostic demo_diagnostic] else [])
   in tracked (fst r) = {} \<and> client_shows (snd r) shown (path_to_uri ''/p/a.3b'') \<noteq> []"
proof -
  have "uri_to_path ''file:///p/a%2e3b'' = Some ''/p/a.3b''" "path_to_uri ''/p/a.3b'' \<noteq> ''file:///p/a%2e3b''"
    by code_simp+
  then show ?thesis
    by (simp add: handle_close_def lsp_init_def tracked_def swap_remove_def client_shows_def Let_def)
qed

text \<open>A check of one package clears a file that the check of another package still reports.\<close>

lemma clears_other_package:
  "let st = lsp_init\<lparr>ls_published := [(''/q'', [''/p/a.3b'', ''/q/b.3b'']), (''/p'', [''/p/a.3b''])]\<rparr>;
       shown = (\<lambda>u. if u = path_to_uri ''/p/a.3b'' then [make_lsp_diagnostic demo_diagnostic] else [])
   in cr_diagnostics (sv_check demo_services ''/p'' []) = [demo_diagnostic]
      \<and> client_shows (snd (check_and_publish demo_services ''/q'' ''/q/b.3b'' st)) shown (path_to_uri ''/p/a.3b'') = []"
  unfolding Let_def
  by (subst check_shows(1))
    (simp add: checked_paths_def demo_services_def demo_check_def reported_def entry_paths_def lsp_init_def)

end
