(* ===== verification/Lsp_Requests.thy ===== *)
theory Lsp_Requests
  imports Lsp_Diagnostics Format_Results
begin

text \<open>
  The protocol seen from the client: requests are answered once, a formatting edit applied to the
  document gives the formatted text, and what is framed on the wire reaches the dispatch.
\<close>

section \<open>Answers\<close>

definition NOTIFICATIONS :: "string set" where
  "NOTIFICATIONS = {''initialized'', ''textDocument/didOpen'', ''textDocument/didChange'', ''textDocument/didSave'',
     ''textDocument/didClose''}"

definition publishes :: "sent \<Rightarrow> bool" where
  "publishes out \<longleftrightarrow> (\<forall>m\<in>set out. \<exists>uri ds. m = publish uri ds)"

lemma check_publishes: "publishes (snd (check_and_publish sv dir opened st))"
  by (auto simp: check_and_publish_def publishes_def Let_def)

lemma notification_publishes: "publishes (snd (handle_check_notification sv params st))"
  using check_publishes by (simp add: handle_check_notification_def publishes_def split: option.split)

text \<open>
  C38: A request is answered exactly once, under its own id, with a result or an error, also when its
  method is unknown or its parameters are malformed; a message without an id and with an unknown method
  is ignored; the document notifications send nothing but published diagnostics.\<close>

theorem every_request_answered:
  assumes "handle_message sv st msg = Some (Running st' out)"
    and "string_of (json_obj_get (Some msg) ''method'') = Some meth"
  shows "if meth \<in> NOTIFICATIONS then publishes out
    else if json_obj_get (Some msg) ''id'' \<noteq> None
    then (\<exists>v. out = [response (json_obj_get (Some msg) ''id'') v])
         \<or> out = [error_response (json_obj_get (Some msg) ''id'') (- 32601) ''method not found'']
    else out = [] \<or> (\<exists>v. out = [response None v])"
  using assms(1)
proof (cases rule: handle_message_running)
  case initialize
  then show ?thesis using assms(2) by (auto simp: NOTIFICATIONS_def handle_initialize_def Let_def)
next
  case opened
  then have "publishes out" using notification_publishes by (metis handle_did_open_def snd_conv)
  then show ?thesis using opened(1) assms(2) by (simp add: NOTIFICATIONS_def)
next
  case changed
  then have "publishes out" using notification_publishes by (metis handle_did_change_def snd_conv)
  then show ?thesis using changed(1) assms(2) by (simp add: NOTIFICATIONS_def)
next
  case saved
  then have "publishes out" using notification_publishes by (metis snd_conv)
  then show ?thesis using saved(1) assms(2) by (simp add: NOTIFICATIONS_def)
next
  case (closed uri)
  then have "publishes out" by (auto simp: handle_close_def publishes_def Let_def split: option.splits)
  then show ?thesis using closed(1) assms(2) by (simp add: NOTIFICATIONS_def)
next
  case (answered m v)
  then have "meth \<notin> NOTIFICATIONS" using assms(2) by (auto simp: NOTIFICATIONS_def)
  then show ?thesis using answered(5) by auto
next
  case (unknown m)
  then have "meth = m" using assms(2) by simp
  then show ?thesis using unknown(2,5) by (auto simp: NOTIFICATIONS_def publishes_def)
qed (use assms(2) in simp)

section \<open>Formatting edits\<close>

text \<open>How a client applies the edits: the text between two positions is replaced.\<close>

definition position_offset :: "string \<Rightarrow> json option \<Rightarrow> nat option" where
  "position_offset src pos =
     do { l \<leftarrow> json_obj_get pos ''line''; c \<leftarrow> json_obj_get pos ''character'';
          l \<leftarrow> to_int l; c \<leftarrow> to_int c;
          Some (unat (line_character_to_offset src l c)) }"

definition apply_edit :: "json \<Rightarrow> string \<Rightarrow> string option" where
  "apply_edit e src =
     do { t \<leftarrow> string_of (json_obj_get (Some e) ''newText'');
          a \<leftarrow> position_offset src (json_obj_get (json_obj_get (Some e) ''range'') ''start'');
          b \<leftarrow> position_offset src (json_obj_get (json_obj_get (Some e) ''range'') ''end'');
          Some (take a src @ t @ drop b src) }"

definition apply_edits :: "json \<Rightarrow> string \<Rightarrow> string option" where
  "apply_edits edits src =
     (case edits of
        Json_Array [] \<Rightarrow> Some src
      | Json_Array [e] \<Rightarrow> apply_edit e src
      | _ \<Rightarrow> None)"

lemma double_trunc_exact: "\<bar>i\<bar> < 2 ^ 53 \<Longrightarrow> double_trunc (double_of_int i) = Some i"
proof (cases "i = 0")
  case True
  then show ?thesis by (simp add: double_of_int_def round_double_def double_trunc_def ratio_pow2_def)
next
  case False
  assume b: "\<bar>i\<bar> < 2 ^ 53"
  let ?n = "nat \<bar>i\<bar>" and ?k = "53 - bit_length (nat \<bar>i\<bar>)"
  have n: "0 < ?n" "?n < 2 ^ 53" using False b by (auto simp: nat_less_iff)
  have x: "double_of_int i = Finite (i < 0) (?n * 2 ^ ?k) (- int ?k)"
    using round_double_exact [OF n] by (simp only: double_of_int_def)
  have r: "ratio_pow2 (?n * 2 ^ ?k) (Suc 0) (int ?k) = (?n * 2 ^ ?k, 2 ^ ?k)"
    by (simp add: ratio_pow2_def)
  have "double_trunc (Finite (i < 0) (?n * 2 ^ ?k) (- int ?k)) = Some ((if i < 0 then -1 else 1) * int ?n)"
    using r by (simp add: double_trunc_def Let_def del: nat_abs_int_diff)
  then show ?thesis unfolding x by simp
qed

lemma to_int_jnum: "0 \<le> i \<Longrightarrow> i < 2 ^ 31 \<Longrightarrow> to_int (jnum i) = Some i"
  by (simp add: to_int_def number_in_def jnum_def double_trunc_exact)

lemma skip_rows_last: "skip_rows (count_list src newline) src = rev (takeWhile (\<lambda>c. c \<noteq> newline) (rev src))"
proof (induction "length src" arbitrary: src rule: less_induct)
  case less
  show ?case
  proof (cases "newline \<in> set src")
    case False
    then have w: "takeWhile (\<lambda>c. c \<noteq> newline) (rev src) = rev src" by (auto simp: takeWhile_eq_all_conv)
    have c: "count_list src newline = 0" using False by (simp add: count_list_zero)
    show ?thesis unfolding w c skip_rows.simps rev_rev_ident ..
  next
    case True
    then obtain a b where ab: "src = a @ newline # b" "newline \<notin> set a" by (meson split_list_first)
    have "count_list src newline = Suc (count_list b newline)"
      using ab count_list_zero [of a newline] by simp
    moreover have "dropWhile (\<lambda>c. c \<noteq> newline) src = newline # b" using ab by (auto simp: dropWhile_append)
    moreover have "takeWhile (\<lambda>c. c \<noteq> newline) (rev src) = takeWhile (\<lambda>c. c \<noteq> newline) (rev b)"
    proof -
      have "takeWhile (\<lambda>c. c \<noteq> newline) ((rev b @ [newline]) @ rev a) = takeWhile (\<lambda>c. c \<noteq> newline) (rev b @ [newline])"
        by (rule takeWhile_append1 [of newline]) simp_all
      also have "\<dots> = takeWhile (\<lambda>c. c \<noteq> newline) (rev b)"
        using last_line_Cons [OF disjI2 [OF refl], of b] by (simp only: rev.simps)
      finally show ?thesis unfolding ab(1) by (simp only: rev_append rev.simps append_assoc)
    qed
    ultimately show ?thesis using less.hyps [of b] ab(1) by simp
  qed
qed

lemma row_of_last: "row_of (rev (takeWhile (\<lambda>c. c \<noteq> newline) (rev src))) = rev (takeWhile (\<lambda>c. c \<noteq> newline) (rev src))"
  unfolding row_of_def by (subst takeWhile_eq_all_conv) (auto dest: set_takeWhileD)

lemma end_offset:
  assumes "length src < 2 ^ 31"
  shows "unat (line_character_to_offset src (fst (end_position src)) (snd (end_position src))) = length src"
proof -
  let ?r = "rev (takeWhile (\<lambda>c. c \<noteq> newline) (rev src))"
  have "length ?r \<le> length src" using length_takeWhile_le [of _ "rev src"] by simp
  then have "line_character_to_offset src (fst (end_position src)) (snd (end_position src)) = of_nat (length src)"
    by (simp add: line_character_to_offset_def end_position_def skip_rows_last row_of_last cursor_in_row_def Let_def)
  then show ?thesis using assms by (simp add: unsigned_of_nat take_bit_nat_eq_self)
qed

lemma start_offset: "unat (line_character_to_offset src 0 0) = 0"
  by (simp add: line_character_to_offset_def cursor_in_row_def)

lemma format_edits_apply:
  assumes "length src < 2 ^ 31" "cut_nul new = new"
  shows "apply_edits (format_edits src new) src = Some new"
proof (cases "new = src")
  case False
  have "count_list src newline \<le> length src" by (rule count_le_length)
  moreover have "length (takeWhile (\<lambda>c. c \<noteq> newline) (rev src)) \<le> length src"
    using length_takeWhile_le [of _ "rev src"] by simp
  ultimately have e: "to_int (jnum (fst (end_position src))) = Some (fst (end_position src))"
    "to_int (jnum (snd (end_position src))) = Some (snd (end_position src))"
    using assms(1) by (simp_all add: to_int_jnum end_position_def)
  have z: "to_int (jnum 0) = Some 0" by (simp add: to_int_jnum)
  show ?thesis
    using False assms(2) e z end_offset [OF assms(1)] start_offset [of src]
    by (simp add: apply_edits_def format_edits_def apply_edit_def position_offset_def position_def lsp_range_def
        json_obj_get_def)
qed (simp add: apply_edits_def format_edits_def)

text \<open>
  C39: Formatting through the server keeps the program: for an open document that parses to trees of
  formattable shape the answer to \<^verbatim>\<open>textDocument/formatting\<close> is an edit list that the client can apply,
  and the document it then has holds the same tokens and the same comments, in the same order.\<close>

theorem formatting_request_keeps_program:
  assumes uri: "Option.bind (document_uri params) uri_to_path = Some path" "doc_text path (ls_docs st) = Some src"
    and nul: "NUL \<notin> set src" and len: "length src < 2 ^ 31"
    and sp: "spells_all (source_tokens src 1) ts" "list_all narrow ts" "length ts \<le> 65535"
    and fm: "list_all (formattable (cm_line ` set (fmt_scan_comments src))) ts"
  shows "\<exists>edits new. handle_formatting ident params st = Some (st, [response ident edits])
    \<and> apply_edits edits src = Some new
    \<and> map lexeme_of (source_tokens new 1) = map lexeme_of (source_tokens src 1)
    \<and> map cm_text (fmt_scan_comments new) = map cm_text (fmt_scan_comments src)"
proof -
  obtain root p where p: "parse_program (parse_fuel src) (parser_init src ast_init 1) = Some (root, p)"
    using parse_program_defined [OF order_refl] by blast
  have "length src + 2 < 2 ^ 32" using len by simp
  from format_keeps [OF nul this sp fm order_refl p, of 0] obtain out where
    out: "fmt_program (ps_ast p) root src 0 = Some out" "NUL \<notin> set out" "\<not> ps_had_error p"
      "map lexeme_of (source_tokens out 1) = map lexeme_of (source_tokens src 1)"
      "map cm_text (fmt_scan_comments out) = map cm_text (fmt_scan_comments src)"
    by blast
  have cut: "cut_nul out = out" using out(2) by simp
  have "lib3b_format path src = Some (Some out)"
    using p out(1,3) by (simp add: lib3b_format_def source_file_register_def source_registry_reset_def
        source_registry_ensure_init_def Let_def)
  then have "handle_formatting ident params st = Some (st, [response ident (format_edits src out)])"
    using uri cut by (simp add: handle_formatting_def)
  then show ?thesis using format_edits_apply [OF len cut] out(4,5) by blast
qed

section \<open>From the wire to the dispatch\<close>


text \<open>An editor that sends \<^verbatim>\<open>textDocument/didOpen\<close> with a letter outside ASCII in the text.\<close>

definition accented_open :: json where
  "accented_open = Json_Object [(''method'', Json_String ''textDocument/didOpen''),
     (''params'', Json_Object [(''textDocument'', Json_Object [(''uri'', Json_String ''file:///p/a.3b''),
        (''text'', Json_String [CHR 0xC3, CHR 0xA9])])])]"

lemma accented_recoded:
  "recode accented_open = Json_Object [(''method'', Json_String ''textDocument/didOpen''),
     (''params'', Json_Object [(''textDocument'', Json_Object [(''uri'', Json_String ''file:///p/a.3b''),
        (''text'', Json_String [CHR 0xC3, CHR 0x83, CHR 0xC2, CHR 0xA9])])])]"
  unfolding accented_open_def by code_simp

text \<open>The stored document is not the one that was sent.\<close>

lemma stored_document_differs:
  "documents_after (recode accented_open) Map.empty = [''/p/a.3b'' \<mapsto> [CHR 0xC3, CHR 0x83, CHR 0xC2, CHR 0xA9]]"
  unfolding accented_recoded
  by (simp add: documents_after_def document_change_def json_obj_get_def string_of_def document_uri_def demo_uri Let_def)

end
