(* ===== verification/Lsp_Examples.thy ===== *)
theory Lsp_Examples
  imports Lsp_Requests Format_Examples
begin

text \<open>Concrete sessions of the language server, at which the properties of its theories apply.\<close>

theorem documents_refine_witness:
  "\<exists>st out. handle_message demo_services lsp_init demo_open = Some (Running st out)
     \<and> map_of (ls_docs st) = [''/p/a.3b'' \<mapsto> ''(fn'']"
proof -
  obtain st out where h: "handle_message demo_services lsp_init demo_open = Some (Running st out)"
    using demo_handled by (simp only: Let_def)
  have "documents_after demo_open Map.empty = [''/p/a.3b'' \<mapsto> ''(fn'']"
    by (simp add: documents_after_def document_change_def demo_open_def json_obj_get_def string_of_def document_uri_def
        demo_uri Let_def)
  then show ?thesis using documents_refine [OF _ h] h by (simp add: lsp_init_def)
qed

definition demo_unknown :: json where
  "demo_unknown = Json_Object [(''id'', Json_String ''7''), (''method'', Json_String ''textDocument/rename'')]"

theorem every_request_answered_witness:
  "\<exists>st out. handle_message demo_services lsp_init demo_unknown = Some (Running st out)
     \<and> ((\<exists>v. out = [response (Some (Json_String ''7'')) v])
        \<or> out = [error_response (Some (Json_String ''7'')) (- 32601) ''method not found''])"
proof -
  have m: "string_of (json_obj_get (Some demo_unknown) ''method'') = Some ''textDocument/rename''"
    "json_obj_get (Some demo_unknown) ''id'' = Some (Json_String ''7'')"
    by (simp_all add: demo_unknown_def json_obj_get_def string_of_def)
  have h: "handle_message demo_services lsp_init demo_unknown
      = Some (Running lsp_init [error_response (Some (Json_String ''7'')) (- 32601) ''method not found''])"
    using m by (simp add: handle_message_def)
  from every_request_answered [OF h m(1)] h m(2) show ?thesis by (simp add: NOTIFICATIONS_def)
qed

definition demo_params :: json where
  "demo_params = Json_Object [(''textDocument'', Json_Object [(''uri'', Json_String ''file:///p/a.3b'')])]"

theorem formatting_request_keeps_program_witness:
  "\<exists>edits new. handle_formatting None (Some demo_params) (lsp_init\<lparr>ls_docs := [(''/p/a.3b'', kept_source)]\<rparr>)
      = Some (lsp_init\<lparr>ls_docs := [(''/p/a.3b'', kept_source)]\<rparr>, [response None edits])
    \<and> apply_edits edits kept_source = Some new
    \<and> map lexeme_of (source_tokens new 1) = map lexeme_of (source_tokens kept_source 1)"
proof -
  let ?st = "lsp_init\<lparr>ls_docs := [(''/p/a.3b'', kept_source)]\<rparr>"
  have uri: "Option.bind (document_uri (Some demo_params)) uri_to_path = Some ''/p/a.3b''"
    by (simp add: demo_params_def document_uri_def json_obj_get_def string_of_def demo_uri)
  have doc: "doc_text ''/p/a.3b'' (ls_docs ?st) = Some kept_source" by (simp add: doc_text_def)
  have len: "length kept_source < 2 ^ 31" and nul: "NUL \<notin> set kept_source" by (simp_all add: kept_source_def)
  have narrow: "list_all narrow [kept_tree]" by (simp add: kept_tree_def MAX_U16_def)
  have fm: "list_all (formattable cl) [kept_tree]" for cl by (simp add: kept_tree_def form_shape_def)
  show ?thesis
    using formatting_request_keeps_program [OF uri doc nul len kept_spelled narrow _ fm, of None] by auto
qed

text \<open>A request that ends the session, on the wire.\<close>

definition demo_shutdown :: json where
  "demo_shutdown = Json_Object [(''id'', Json_String ''7''), (''method'', Json_String ''shutdown'')]"

lemma shutdown_recoded: "recode demo_shutdown = demo_shutdown"
  by (rule recode_ascii) (simp add: demo_shutdown_def)

lemma shutdown_written:
  "json_write demo_shutdown = Some (concat [[CHR ''{''], write_escaped_string ''id'', '':'', write_escaped_string ''7'', '','',
     write_escaped_string ''method'', '':'', write_escaped_string ''shutdown'', [CHR ''}'']])"
  by (simp add: demo_shutdown_def)

lemma shutdown_handled:
  "handle_message sv st demo_shutdown
     = Some (Running (st\<lparr>ls_shutdown := True\<rparr>) [response (Some (Json_String ''7'')) Json_Null])"
  by (simp add: handle_message_def demo_shutdown_def json_obj_get_def string_of_def)


end
