(* ===== verification/Typed_Tree.thy ===== *)
theory Typed_Tree
  imports Layout
begin

text \<open>
  The checked tree the two back ends read: \<^verbatim>\<open>TypedNode\<close> of \<^verbatim>\<open>3b.h\<close> for the node kinds the
  bytecode generator compiles.  An index into the arrays of a \<^verbatim>\<open>TypedAst\<close> is the subtree it
  names, a range of one of them the list of its elements, and \<^verbatim>\<open>TYPED_NIL\<close> is \<open>None\<close>.  The type
  the checker resolved for a node, kept by \<^verbatim>\<open>ck->resolved_types\<close> under the node's index, is part
  of the node's annotation; its token, which only diagnostics read, is left out.
\<close>

section \<open>Expressions\<close>

record ann =
  an_type :: type_ref

datatype leaf_kind =
    IntLiteral i64
  | FloatLiteral u64
  | BoolLiteral bool
  | NilLiteral
  | StringLiteral string
  | EnumAccess string string
  | Identifier string
  | SizeofExpr type_ref
  | AlignofExpr type_ref
  | MemberOffsetExpr type_ref string
  | ZeroExpr type_ref
  | HandleAlloc string
  | BreakExpr
  | ContinueExpr
  | OtherExpr

text \<open>\<open>OtherExpr\<close> stands for the kinds \<^verbatim>\<open>bc_compile_expr\<close> has no case for: \<^verbatim>\<open>TypeNameExpr\<close>, and the
  placeholders of the lowerer the checker had to leave after an error.\<close>

datatype unary_kind =
    UnaryPos | UnaryNeg | UnaryBitNot | LogicalNot | BinaryCast | BinaryReinterpret
  | StringLenExpr | CstrExpr | UnaryDeref | UnaryAddr
  | FieldAccess string
  | AllocExpr type_ref
  | ParseNumber type_kind string

datatype arith_kind =
    BinaryAdd | BinarySub | BinaryMul | BinaryDiv | BinaryMod
  | BinaryEq | BinaryNeq | BinaryLt | BinaryLe | BinaryGt | BinaryGe

datatype bitwise_kind = BinaryBitAnd | BinaryBitOr | BinaryBitXor | BinaryShl | BinaryShr

datatype binary_kind =
    Arith arith_kind
  | Bitwise bitwise_kind
  | LogicalAnd
  | LogicalOr
  | IndexAccess
  | SetExpr
  | PushAlloc type_ref bool
  | PushCopy
  | IndexOf string
  | DynPush "string option"
  | CommitExpr
  | HandlePoolInit type_ref

datatype decl_kind = VarDecl | ConstDecl

text \<open>As in the union of \<^verbatim>\<open>TypedNode\<close>, kinds with the same members share a constructor.  For
  \<open>SetExpr\<close> the first operand is the target, an identifier, a dereference, a field access or an
  index access; for \<open>DynPush\<close> the operands are the arena and the value, and no name means a field
  target, whose chain the generator does not read; for \<open>PushAlloc\<close> the arena and the count, for
  \<open>HandlePoolInit\<close> the arena and the capacity.  A loop, \<open>let\<close> or \<open>scratch\<close> body is the list of
  statements of its block.\<close>

datatype (plugins only: size code) texpr =
    Leaf (te_ann: ann) leaf_kind
  | Unary (te_ann: ann) unary_kind texpr
  | Binary (te_ann: ann) binary_kind texpr texpr
  | IfExpr (te_ann: ann) texpr texpr "texpr option"
  | WhileExpr (te_ann: ann) texpr "texpr list"
  | ForCExpr (te_ann: ann) string texpr texpr texpr "texpr list"
  | ForRangeExpr (te_ann: ann) string texpr texpr texpr "texpr list"
  | ForEachExpr (te_ann: ann) "string option" string texpr "texpr list"
  | LetExpr (te_ann: ann) "(string \<times> texpr) list" "texpr list"
  | ParallelExpr (te_ann: ann) "(string \<times> texpr) list" "texpr list"
  | ParallelForExpr (te_ann: ann) string texpr "texpr list"
  | ScratchExpr (te_ann: ann) string "texpr list"
  | CheckedMath (te_ann: ann) string texpr "texpr option" string string
  | ReturnExpr (te_ann: ann) "texpr option"
  | Decl (te_ann: ann) decl_kind string type_ref "texpr option"
  | Block (te_ann: ann) "texpr list"
  | StructLiteral (te_ann: ann) string "(string \<times> texpr) list"
  | ArrayLiteral (te_ann: ann) "texpr list"
  | Call (te_ann: ann) string "texpr list"

abbreviation te_type :: "texpr \<Rightarrow> type_ref" where
  "te_type e \<equiv> an_type (te_ann e)"

abbreviation te_kind :: "texpr \<Rightarrow> type_kind" where
  "te_kind e \<equiv> tr_kind (an_type (te_ann e))"

text \<open>The nodes of a tree, as a pass over the flat array \<^verbatim>\<open>tast->nodes\<close> sees them.\<close>

fun nodes_of :: "texpr \<Rightarrow> texpr list" where
  "nodes_of (Leaf a k) = [Leaf a k]"
| "nodes_of (Unary a k e) = Unary a k e # nodes_of e"
| "nodes_of (Binary a k l r) = Binary a k l r # nodes_of l @ nodes_of r"
| "nodes_of (IfExpr a c t e) =
     IfExpr a c t e # nodes_of c @ nodes_of t @ (case e of None \<Rightarrow> [] | Some x \<Rightarrow> nodes_of x)"
| "nodes_of (WhileExpr a c body) = WhileExpr a c body # nodes_of c @ concat (map nodes_of body)"
| "nodes_of (ForCExpr a var init c expr body) =
     ForCExpr a var init c expr body # nodes_of init @ nodes_of c @ nodes_of expr @ concat (map nodes_of body)"
| "nodes_of (ForRangeExpr a var b e s body) =
     ForRangeExpr a var b e s body # nodes_of b @ nodes_of e @ nodes_of s @ concat (map nodes_of body)"
| "nodes_of (ForEachExpr a i x coll body) =
     ForEachExpr a i x coll body # nodes_of coll @ concat (map nodes_of body)"
| "nodes_of (LetExpr a bs body) =
     LetExpr a bs body # concat (map (\<lambda>(n, x). nodes_of x) bs) @ concat (map nodes_of body)"
| "nodes_of (ParallelExpr a bs body) =
     ParallelExpr a bs body # concat (map (\<lambda>(n, x). nodes_of x) bs) @ concat (map nodes_of body)"
| "nodes_of (ParallelForExpr a var count body) =
     ParallelForExpr a var count body # nodes_of count @ concat (map nodes_of body)"
| "nodes_of (ScratchExpr a var body) = ScratchExpr a var body # concat (map nodes_of body)"
| "nodes_of (CheckedMath a m x y n n') =
     CheckedMath a m x y n n' # nodes_of x @ (case y of None \<Rightarrow> [] | Some z \<Rightarrow> nodes_of z)"
| "nodes_of (ReturnExpr a e) = ReturnExpr a e # (case e of None \<Rightarrow> [] | Some x \<Rightarrow> nodes_of x)"
| "nodes_of (Decl a k n t init) = Decl a k n t init # (case init of None \<Rightarrow> [] | Some x \<Rightarrow> nodes_of x)"
| "nodes_of (Block a ss) = Block a ss # concat (map nodes_of ss)"
| "nodes_of (StructLiteral a n fs) = StructLiteral a n fs # concat (map (\<lambda>(n, x). nodes_of x) fs)"
| "nodes_of (ArrayLiteral a es) = ArrayLiteral a es # concat (map nodes_of es)"
| "nodes_of (Call a callee es) = Call a callee es # concat (map nodes_of es)"

section \<open>Declarations\<close>

record function_decl =
  fd_name :: string
  fd_params :: "param list"
  fd_return_type :: type_ref
  fd_body :: "texpr list"

text \<open>A top-level statement of a package, as far as the bytecode generator looks at it.\<close>

datatype toplevel =
    FunctionDecl function_decl
  | ExternDecl string "param list" type_ref
  | GlobalDecl string type_ref "texpr option"
  | HandlePoolDecl string
  | OtherDecl

end
