(* ===== verification/Bcgen_Emit.thy ===== *)
theory Bcgen_Emit
  imports Typed_Tree Verifier "HOL-Library.State_Monad"
begin

text \<open>
  The bottom layer of \<^verbatim>\<open>bcgen.c\<close>: the context a chunk is compiled in, the helpers that emit
  instructions, and the sequences the cases of \<^verbatim>\<open>bc_compile_expr\<close> share (loads and stores,
  copies, literals, zero values, content comparison, the operator tables).

  An operation is an action of the state monad over \<open>bc_fn_ctx\<close>.  What stops a compilation, the
  \<^verbatim>\<open>longjmp\<close> of \<^verbatim>\<open>bc_unsupported\<close> or a failed \<^verbatim>\<open>xassert\<close>, is recorded in \<open>fc_stopped\<close>; the code
  compiled in the meantime belongs to an abandoned context, which nobody reads.
\<close>

section \<open>The context\<close>

record bc_local =
  bl_name :: string
  bl_reg :: u32
  bl_is_addr_taken :: bool

record bc_scratch_scope =
  ss_arena_reg :: u32
  ss_mark_reg :: u32

datatype bc_stop = Unsupported string | Assertion

text \<open>\<^verbatim>\<open>next_reg\<close> is kept as a number and read modulo \<open>2 ^ 32\<close>; \<open>fc_placed\<close> counts the blocks the
  compiler has placed in its arena for the constants to point at.\<close>

record bc_fn_ctx =
  fc_code :: "bc_instr list"
  fc_consts :: "i64 list"
  fc_next_reg :: nat
  fc_locals :: "bc_local list"
  fc_string_fixups :: "bc_string_fixup list"
  fc_layout_fixups :: "bc_layout_fixup list"
  fc_break_fixups :: "u32 list"
  fc_continue_fixups :: "u32 list"
  fc_scratch_scopes :: "bc_scratch_scope list"
  fc_loop_scratch_mark :: nat
  fc_layouts :: layout_cache
  fc_placed :: nat
  fc_stopped :: "bc_stop option"

type_synonym 'a emit = "(bc_fn_ctx, 'a) state"

record bc_fn_entry =
  fe_name :: string
  fe_index :: u32

text \<open>What all chunks of a program are compiled against.  Where a placed block lands is the
  allocator's choice, so it is a parameter, as is the conversion of a double to a float.\<close>

record bc_unit =
  un_ck :: checker
  un_fuel :: nat
  un_fn_table :: "bc_fn_entry list"
  un_global_table :: "bc_fn_entry list"
  un_handle_pool_table :: "bc_fn_entry list"
  un_host_imports :: "bc_host_import list"
  un_module_table :: "bc_module_import list"
  un_addr_taken_names :: "string list"
  un_place :: "nat \<Rightarrow> u64"
  un_f64_to_f32 :: "u64 \<Rightarrow> u32"

section \<open>Stopping\<close>

definition modify :: "(bc_fn_ctx \<Rightarrow> bc_fn_ctx) \<Rightarrow> unit emit" where
  "modify f = State (\<lambda>fc. ((), f fc))"

definition asks :: "(bc_fn_ctx \<Rightarrow> 'a) \<Rightarrow> 'a emit" where
  "asks f = State (\<lambda>fc. (f fc, fc))"

definition ret :: "'a \<Rightarrow> 'a emit" where
  "ret x = State_Monad.return x"

definition stop :: "bc_stop \<Rightarrow> unit emit" where
  "stop why = modify (\<lambda>fc. fc\<lparr>fc_stopped := (case fc_stopped fc of None \<Rightarrow> Some why | s \<Rightarrow> s)\<rparr>)"

definition bc_unsupported :: "string \<Rightarrow> unit emit" where
  "bc_unsupported what = stop (Unsupported what)"

definition xassert :: "bool \<Rightarrow> unit emit" where
  "xassert c = (if c then ret () else stop Assertion)"

definition need :: "'a option \<Rightarrow> 'a \<Rightarrow> 'a emit" where
  "need x y = (case x of Some v \<Rightarrow> ret v | None \<Rightarrow> do { stop Assertion; ret y })"

section \<open>Emitting\<close>

definition code_size :: "u32 emit" where
  "code_size = asks (\<lambda>fc. of_nat (length (fc_code fc)))"

definition bc_alloc_reg :: "u32 emit" where
  "bc_alloc_reg = State (\<lambda>fc. (of_nat (fc_next_reg fc), fc\<lparr>fc_next_reg := fc_next_reg fc + 1\<rparr>))"

definition bc_op_code :: "bc_op \<Rightarrow> u32" where
  "bc_op_code op = of_nat (length (takeWhile (\<lambda>x. x \<noteq> op) bc_op_table))"

definition bc_emit :: "bc_op \<Rightarrow> u32 \<Rightarrow> u32 \<Rightarrow> u32 \<Rightarrow> u32 emit" where
  "bc_emit kind a b c = State (\<lambda>fc. (of_nat (length (fc_code fc)),
     fc\<lparr>fc_code := fc_code fc @ [\<lparr>in_kind = bc_op_code kind, in_a = a, in_b = b, in_c = c\<rparr>]\<rparr>))"

definition bc_add_const :: "i64 \<Rightarrow> u32 emit" where
  "bc_add_const value = State (\<lambda>fc. (of_nat (length (fc_consts fc)), fc\<lparr>fc_consts := fc_consts fc @ [value]\<rparr>))"

definition bc_bind_local :: "string \<Rightarrow> u32 \<Rightarrow> unit emit" where
  "bc_bind_local name reg = modify (\<lambda>fc. fc\<lparr>fc_locals := fc_locals fc @
     [\<lparr>bl_name = name, bl_reg = reg, bl_is_addr_taken = False\<rparr>]\<rparr>)"

text \<open>The two ways a forward jump is patched: \<^verbatim>\<open>fc->code[i].a = target\<close> for a \<^verbatim>\<open>BcOp_Jump\<close>,
  \<^verbatim>\<open>fc->code[i].b = target\<close> for a \<^verbatim>\<open>BcOp_JumpIfFalse\<close>.\<close>

definition patch_a :: "u32 \<Rightarrow> u32 \<Rightarrow> unit emit" where
  "patch_a i target = modify (\<lambda>fc. fc\<lparr>fc_code :=
     (fc_code fc)[unat i := (fc_code fc ! unat i)\<lparr>in_a := target\<rparr>]\<rparr>)"

definition patch_b :: "u32 \<Rightarrow> u32 \<Rightarrow> unit emit" where
  "patch_b i target = modify (\<lambda>fc. fc\<lparr>fc_code :=
     (fc_code fc)[unat i := (fc_code fc ! unat i)\<lparr>in_b := target\<rparr>]\<rparr>)"

text \<open>A constant in a new register: \<^verbatim>\<open>bc_emit(fc, BcOp_LoadConst, dst, bc_add_const(fc, v), 0)\<close>.\<close>

definition emit_const :: "u32 \<Rightarrow> i64 \<Rightarrow> unit emit" where
  "emit_const dst v =
     do { c \<leftarrow> bc_add_const v; _ \<leftarrow> bc_emit (OpData BcOp_LoadConst) dst c 0; ret () }"

definition const_reg :: "i64 \<Rightarrow> u32 emit" where
  "const_reg v = do { dst \<leftarrow> bc_alloc_reg; emit_const dst v; ret dst }"

text \<open>An instruction whose result goes to a new register.\<close>

definition emit_new :: "bc_op \<Rightarrow> u32 \<Rightarrow> u32 \<Rightarrow> u32 emit" where
  "emit_new kind b c = do { dst \<leftarrow> bc_alloc_reg; _ \<leftarrow> bc_emit kind dst b c; ret dst }"

text \<open>A block of consecutive registers, filled by moves: the convention of calls and of the opcodes
  with more operands than an instruction holds.\<close>

definition reserve :: "nat \<Rightarrow> u32 emit" where
  "reserve n = State (\<lambda>fc. (of_nat (fc_next_reg fc), fc\<lparr>fc_next_reg := fc_next_reg fc + n\<rparr>))"

fun move_block :: "u32 \<Rightarrow> u32 list \<Rightarrow> unit emit" where
  "move_block first [] = ret ()"
| "move_block first (r # rs) =
     do { _ \<leftarrow> bc_emit (OpData BcOp_Move) first r 0; move_block (first + 1) rs }"

definition arg_block :: "u32 list \<Rightarrow> u32 emit" where
  "arg_block rs = do { first \<leftarrow> reserve (length rs); move_block first rs; ret first }"

section \<open>Loops\<close>

record bc_loop_ctx =
  lc_break_mark :: nat
  lc_continue_mark :: nat
  lc_scratch_mark :: nat
  lc_saved_loop_scratch_mark :: nat

definition bc_loop_begin :: "bc_loop_ctx emit" where
  "bc_loop_begin = State (\<lambda>fc.
     (\<lparr>lc_break_mark = length (fc_break_fixups fc), lc_continue_mark = length (fc_continue_fixups fc),
       lc_scratch_mark = length (fc_scratch_scopes fc),
       lc_saved_loop_scratch_mark = fc_loop_scratch_mark fc\<rparr>,
      fc\<lparr>fc_loop_scratch_mark := length (fc_scratch_scopes fc)\<rparr>))"

definition bc_loop_end :: "bc_loop_ctx \<Rightarrow> unit emit" where
  "bc_loop_end loop = modify (\<lambda>fc. fc\<lparr>fc_loop_scratch_mark := lc_saved_loop_scratch_mark loop\<rparr>)"

fun patch_all :: "u32 list \<Rightarrow> u32 \<Rightarrow> unit emit" where
  "patch_all [] target = ret ()"
| "patch_all (i # is) target = do { patch_a i target; patch_all is target }"

definition bc_loop_patch_continue :: "bc_loop_ctx \<Rightarrow> u32 \<Rightarrow> unit emit" where
  "bc_loop_patch_continue loop target =
     do { fixups \<leftarrow> asks fc_continue_fixups;
          patch_all (drop (lc_continue_mark loop) fixups) target;
          modify (\<lambda>fc. fc\<lparr>fc_continue_fixups := take (lc_continue_mark loop) fixups\<rparr>) }"

definition bc_loop_patch_break :: "bc_loop_ctx \<Rightarrow> u32 \<Rightarrow> unit emit" where
  "bc_loop_patch_break loop target =
     do { fixups \<leftarrow> asks fc_break_fixups;
          patch_all (drop (lc_break_mark loop) fixups) target;
          modify (\<lambda>fc. fc\<lparr>fc_break_fixups := take (lc_break_mark loop) fixups\<rparr>) }"

fun unwind :: "bc_scratch_scope list \<Rightarrow> unit emit" where
  "unwind [] = ret ()"
| "unwind (s # ss) = do { _ \<leftarrow> bc_emit (OpArena BcOp_ArenaPop) (ss_arena_reg s) (ss_mark_reg s) 0; unwind ss }"

definition bc_unwind_scratch_scopes :: "nat \<Rightarrow> unit emit" where
  "bc_unwind_scratch_scopes floor =
     do { scopes \<leftarrow> asks fc_scratch_scopes; unwind (rev (drop floor scopes)) }"

section \<open>Names\<close>

definition bc_local_try_lookup :: "string \<Rightarrow> bc_local option emit" where
  "bc_local_try_lookup name = asks (\<lambda>fc. find (\<lambda>l. str8_match (bl_name l) name 0) (rev (fc_locals fc)))"

definition bc_fn_table_try_lookup :: "bc_fn_entry list \<Rightarrow> string \<Rightarrow> u32 option" where
  "bc_fn_table_try_lookup entries name =
     map_option fe_index (find (\<lambda>e. str8_match (fe_name e) name 0) entries)"

text \<open>The position of the first entry that satisfies \<open>p\<close>.\<close>

definition find_pos :: "('a \<Rightarrow> bool) \<Rightarrow> 'a list \<Rightarrow> u32 option" where
  "find_pos p xs = (let i = length (takeWhile (\<lambda>x. \<not> p x) xs) in if i < length xs then Some (of_nat i) else None)"

definition bc_host_import_try_lookup :: "bc_host_import list \<Rightarrow> string \<Rightarrow> u32 option" where
  "bc_host_import_try_lookup entries name = find_pos (\<lambda>e. str8_match (hi_name e) name 0) entries"

definition bc_module_table_try_lookup :: "bc_module_import list \<Rightarrow> string \<Rightarrow> u32 option" where
  "bc_module_table_try_lookup entries name = find_pos (\<lambda>e. str8_match (mi_name e) name 0) entries"

section \<open>Types\<close>

definition bc_type_is_enum :: "checker \<Rightarrow> type_ref \<Rightarrow> bool" where
  "bc_type_is_enum ck t \<longleftrightarrow> tr_kind t = TypeKind_Named \<and> enum_table_lookup ck (tr_name t) \<noteq> None"

definition unreadable :: string where
  "unreadable = ''a field/element of this type (only i8/u8/i16/u16/i32/u32/i64/u64/f32/f64/bool/char/enum/handle/pointer/stream/ArenaMark/Vector are readable by this bytecode compiler slice)''"

definition unwritable :: string where
  "unwritable = ''a field/element of this type (only i8/u8/i16/u16/i32/u32/i64/u64/f32/f64/bool/char/enum/handle/pointer/stream/ArenaMark/Vector are writable by this bytecode compiler slice)''"

definition bc_load_op_for_type :: "type_ref \<Rightarrow> bc_op emit" where
  "bc_load_op_for_type t =
     (case tr_kind t of
        TypeKind_I32 \<Rightarrow> ret (OpLoad BcOp_LoadFieldI32)
      | TypeKind_U32 \<Rightarrow> ret (OpLoad BcOp_LoadFieldU32)
      | TypeKind_F32 \<Rightarrow> ret (OpLoad BcOp_LoadFieldF32)
      | TypeKind_I64 \<Rightarrow> ret (OpLoad BcOp_LoadFieldI64) | TypeKind_U64 \<Rightarrow> ret (OpLoad BcOp_LoadFieldI64)
      | TypeKind_F64 \<Rightarrow> ret (OpLoad BcOp_LoadFieldI64) | TypeKind_Handle \<Rightarrow> ret (OpLoad BcOp_LoadFieldI64)
      | TypeKind_Pointer \<Rightarrow> ret (OpLoad BcOp_LoadFieldI64)
      | TypeKind_Stream \<Rightarrow> ret (OpLoad BcOp_LoadFieldI64)
      | TypeKind_Vector \<Rightarrow> ret (OpLoad BcOp_LoadFieldI64)
      | TypeKind_ArenaMark \<Rightarrow> ret (OpLoad BcOp_LoadFieldI64)
      | TypeKind_Bool \<Rightarrow> ret (OpLoad BcOp_LoadFieldBool)
      | TypeKind_I8 \<Rightarrow> ret (OpLoad BcOp_LoadFieldI8) | TypeKind_Char \<Rightarrow> ret (OpLoad BcOp_LoadFieldI8)
      | TypeKind_U8 \<Rightarrow> ret (OpLoad BcOp_LoadFieldU8)
      | TypeKind_I16 \<Rightarrow> ret (OpLoad BcOp_LoadFieldI16)
      | TypeKind_U16 \<Rightarrow> ret (OpLoad BcOp_LoadFieldU16)
      | TypeKind_Named \<Rightarrow> ret (OpLoad BcOp_LoadFieldI32)
      | _ \<Rightarrow> do { bc_unsupported unreadable; ret (OpLoad BcOp_LoadFieldI64) })"

definition bc_store_op_for_type :: "type_ref \<Rightarrow> bc_op emit" where
  "bc_store_op_for_type t =
     (case tr_kind t of
        TypeKind_I32 \<Rightarrow> ret (OpStore BcOp_StoreFieldI32) | TypeKind_U32 \<Rightarrow> ret (OpStore BcOp_StoreFieldI32)
      | TypeKind_F32 \<Rightarrow> ret (OpStore BcOp_StoreFieldF32)
      | TypeKind_I64 \<Rightarrow> ret (OpStore BcOp_StoreFieldI64) | TypeKind_U64 \<Rightarrow> ret (OpStore BcOp_StoreFieldI64)
      | TypeKind_F64 \<Rightarrow> ret (OpStore BcOp_StoreFieldI64) | TypeKind_Handle \<Rightarrow> ret (OpStore BcOp_StoreFieldI64)
      | TypeKind_Pointer \<Rightarrow> ret (OpStore BcOp_StoreFieldI64)
      | TypeKind_Stream \<Rightarrow> ret (OpStore BcOp_StoreFieldI64)
      | TypeKind_Vector \<Rightarrow> ret (OpStore BcOp_StoreFieldI64)
      | TypeKind_ArenaMark \<Rightarrow> ret (OpStore BcOp_StoreFieldI64)
      | TypeKind_Bool \<Rightarrow> ret (OpStore BcOp_StoreFieldBool)
      | TypeKind_I8 \<Rightarrow> ret (OpStore BcOp_StoreFieldI8) | TypeKind_U8 \<Rightarrow> ret (OpStore BcOp_StoreFieldI8)
      | TypeKind_Char \<Rightarrow> ret (OpStore BcOp_StoreFieldI8)
      | TypeKind_I16 \<Rightarrow> ret (OpStore BcOp_StoreFieldI16) | TypeKind_U16 \<Rightarrow> ret (OpStore BcOp_StoreFieldI16)
      | TypeKind_Named \<Rightarrow> ret (OpStore BcOp_StoreFieldI32)
      | _ \<Rightarrow> do { bc_unsupported unwritable; ret (OpStore BcOp_StoreFieldI64) })"

definition bc_field_is_embedded :: "checker \<Rightarrow> type_ref \<Rightarrow> bool" where
  "bc_field_is_embedded ck t =
     (if tr_kind t = TypeKind_Named then \<not> bc_type_is_enum ck t
      else tr_kind t \<in> {TypeKind_String, TypeKind_Array, TypeKind_Arena, TypeKind_Map, TypeKind_Set})"

text \<open>An embedded value other than a map or set has no scalar load: a struct or a string in a
  register is its address.\<close>

definition bc_type_is_struct :: "checker \<Rightarrow> type_ref \<Rightarrow> bool" where
  "bc_type_is_struct ck t \<longleftrightarrow> tr_kind t = TypeKind_Named \<and> \<not> bc_type_is_enum ck t"

section \<open>Layouts\<close>

definition layout_for :: "bc_unit \<Rightarrow> type_ref \<Rightarrow> layout emit" where
  "layout_for U t =
     State (\<lambda>fc. case layout_of (un_fuel U) (un_ck U) t (fc_layouts fc) of
        Some (l, cache) \<Rightarrow> (l, fc\<lparr>fc_layouts := cache\<rparr>)
      | None \<Rightarrow> (layout_pair 0 0, snd (run_state (stop Assertion) fc)))"

definition field_of :: "bc_unit \<Rightarrow> struct_decl \<Rightarrow> string \<Rightarrow> field_layout emit" where
  "field_of U se name =
     State (\<lambda>fc. case layout_field_offset (un_fuel U) (un_ck U) se name (fc_layouts fc) of
        Some (Some fo, cache) \<Rightarrow> (fo, fc\<lparr>fc_layouts := cache\<rparr>)
      | _ \<Rightarrow> (\<lparr>fo_offset = 0, fo_type = type_ref_unresolved\<rparr>, snd (run_state (stop Assertion) fc)))"

definition struct_named :: "bc_unit \<Rightarrow> string \<Rightarrow> struct_decl emit" where
  "struct_named U name = need (struct_table_lookup (un_ck U) name)
     \<lparr>sd_name = [], sd_fields = [], sd_is_packed = False, sd_align_bytes = 0, sd_is_union = False\<rparr>"

definition slot_layout_for :: "bc_unit \<Rightarrow> type_ref \<Rightarrow> type_ref option \<Rightarrow> bc_hash_slot_layout emit" where
  "slot_layout_for U key_ty value_ty =
     State (\<lambda>fc. case bc_hash_slot_layout_of (un_fuel U) (un_ck U) key_ty value_ty (fc_layouts fc) of
        Some (l, cache) \<Rightarrow> (l, fc\<lparr>fc_layouts := cache\<rparr>)
      | None \<Rightarrow> (slot_layout 0 (layout_pair 0 0) None, snd (run_state (stop Assertion) fc)))"

definition named_type :: "string \<Rightarrow> type_ref" where
  "named_type name = TypeRef TypeKind_Named name None None 0 [] False [] None"

definition pointee_of :: "type_ref \<Rightarrow> type_ref emit" where
  "pointee_of t = need (tr_pointee t) type_ref_unresolved"

definition map_key_of :: "type_ref \<Rightarrow> type_ref emit" where
  "map_key_of t = need (tr_map_key t) type_ref_unresolved"

definition bc_element_stride :: "bc_unit \<Rightarrow> type_ref \<Rightarrow> u64 emit" where
  "bc_element_stride U element_ty =
     do { l \<leftarrow> layout_for U (TypeRef TypeKind_Array [] (Some element_ty) None 1 [] False [] None);
          ret (ly_size l) }"

end
