(* ===== verification/Bcgen_Values.thy ===== *)
theory Bcgen_Values
  imports Bcgen_Emit
begin

text \<open>
  The value helpers of \<^verbatim>\<open>bcgen.c\<close> that do not look at the tree: binding a local, zero values and
  copies, literals in the constant pool, content comparison of strings, structs and arrays, the
  operator tables and the width fixups.
\<close>

section \<open>Operators\<close>

definition bc_type_needs_unsigned_ops :: "type_ref \<Rightarrow> bool" where
  "bc_type_needs_unsigned_ops t \<longleftrightarrow> tr_kind t = TypeKind_U64 \<or> tr_kind t = TypeKind_Pointer"

definition bc_int_op_for_kind :: "arith_kind \<Rightarrow> bool \<Rightarrow> bc_op" where
  "bc_int_op_for_kind kind is_unsigned =
     (case kind of
        BinaryAdd \<Rightarrow> OpInt BcOp_Add | BinarySub \<Rightarrow> OpInt BcOp_Sub | BinaryMul \<Rightarrow> OpInt BcOp_Mul
      | BinaryDiv \<Rightarrow> OpInt (if is_unsigned then BcOp_DivU else BcOp_Div)
      | BinaryMod \<Rightarrow> OpInt (if is_unsigned then BcOp_ModU else BcOp_Mod)
      | BinaryEq \<Rightarrow> OpCmp BcOp_Eq | BinaryNeq \<Rightarrow> OpCmp BcOp_Neq
      | BinaryLt \<Rightarrow> OpCmp (if is_unsigned then BcOp_LtU else BcOp_Lt)
      | BinaryLe \<Rightarrow> OpCmp (if is_unsigned then BcOp_LeU else BcOp_Le)
      | BinaryGt \<Rightarrow> OpCmp (if is_unsigned then BcOp_GtU else BcOp_Gt)
      | BinaryGe \<Rightarrow> OpCmp (if is_unsigned then BcOp_GeU else BcOp_Ge))"

definition bc_f64_op_for_kind :: "arith_kind \<Rightarrow> bc_op" where
  "bc_f64_op_for_kind kind =
     (case kind of
        BinaryAdd \<Rightarrow> OpF64Arith BcOp_FAdd | BinarySub \<Rightarrow> OpF64Arith BcOp_FSub
      | BinaryMul \<Rightarrow> OpF64Arith BcOp_FMul | BinaryDiv \<Rightarrow> OpF64Arith BcOp_FDiv
      | BinaryEq \<Rightarrow> OpF64Cmp BcOp_FEq | BinaryNeq \<Rightarrow> OpF64Cmp BcOp_FNeq
      | BinaryLt \<Rightarrow> OpF64Cmp BcOp_FLt | BinaryLe \<Rightarrow> OpF64Cmp BcOp_FLe
      | BinaryGt \<Rightarrow> OpF64Cmp BcOp_FGt | _ \<Rightarrow> OpF64Cmp BcOp_FGe)"

definition bc_f32_op_for_kind :: "arith_kind \<Rightarrow> bc_op" where
  "bc_f32_op_for_kind kind =
     (case kind of
        BinaryAdd \<Rightarrow> OpF32Arith BcOp_F32Add | BinarySub \<Rightarrow> OpF32Arith BcOp_F32Sub
      | BinaryMul \<Rightarrow> OpF32Arith BcOp_F32Mul | BinaryDiv \<Rightarrow> OpF32Arith BcOp_F32Div
      | BinaryEq \<Rightarrow> OpF32Cmp BcOp_F32Eq | BinaryNeq \<Rightarrow> OpF32Cmp BcOp_F32Neq
      | BinaryLt \<Rightarrow> OpF32Cmp BcOp_F32Lt | BinaryLe \<Rightarrow> OpF32Cmp BcOp_F32Le
      | BinaryGt \<Rightarrow> OpF32Cmp BcOp_F32Gt | _ \<Rightarrow> OpF32Cmp BcOp_F32Ge)"

definition bc_typed_op_for_kind :: "type_ref \<Rightarrow> arith_kind \<Rightarrow> bc_op" where
  "bc_typed_op_for_kind t kind =
     (if tr_kind t = TypeKind_F64 then bc_f64_op_for_kind kind
      else if tr_kind t = TypeKind_F32 then bc_f32_op_for_kind kind
      else bc_int_op_for_kind kind (bc_type_needs_unsigned_ops t))"

definition bc_type_kind_is_unsigned_int :: "type_kind \<Rightarrow> bool" where
  "bc_type_kind_is_unsigned_int k \<longleftrightarrow> k \<in> {TypeKind_U8, TypeKind_U16, TypeKind_U32, TypeKind_U64}"

definition bc_bitwise_op_for_kind :: "bitwise_kind \<Rightarrow> type_kind \<Rightarrow> bc_op" where
  "bc_bitwise_op_for_kind kind operand_kind =
     (case kind of
        BinaryBitAnd \<Rightarrow> OpInt BcOp_BitAnd | BinaryBitOr \<Rightarrow> OpInt BcOp_BitOr | BinaryShl \<Rightarrow> OpInt BcOp_Shl
      | BinaryShr \<Rightarrow> OpInt (if bc_type_kind_is_unsigned_int operand_kind then BcOp_ShrU else BcOp_Shr)
      | BinaryBitXor \<Rightarrow> OpInt BcOp_BitXor)"

definition bc_narrow_code_for_kind :: "type_kind \<Rightarrow> u32" where
  "bc_narrow_code_for_kind kind =
     (case kind of
        TypeKind_I8 \<Rightarrow> 0x108 | TypeKind_I16 \<Rightarrow> 0x110 | TypeKind_I32 \<Rightarrow> 0x120
      | TypeKind_U8 \<Rightarrow> 8 | TypeKind_U16 \<Rightarrow> 16 | TypeKind_U32 \<Rightarrow> 32
      | TypeKind_Char \<Rightarrow> 0x108 | _ \<Rightarrow> 0)"

definition bc_compile_int_narrow :: "type_kind \<Rightarrow> u32 \<Rightarrow> u32 emit" where
  "bc_compile_int_narrow target_kind src_reg =
     (let c = bc_narrow_code_for_kind target_kind
      in if c = 0 then ret src_reg else emit_new (OpData BcOp_Narrow) src_reg c)"

definition bc_narrow_arith_result :: "type_ref \<Rightarrow> u32 \<Rightarrow> unit emit" where
  "bc_narrow_arith_result result_ty reg =
     (let c = bc_narrow_code_for_kind (tr_kind result_ty)
      in if c = 0 then ret () else do { _ \<leftarrow> bc_emit (OpData BcOp_Narrow) reg reg c; ret () })"

text \<open>The value of a variant, \<open>None\<close> when there is none of the name or a flag's bit is past 63.\<close>

fun bc_enum_variant_value :: "bool \<Rightarrow> enum_variant list \<Rightarrow> i64 \<Rightarrow> string \<Rightarrow> i64 option" where
  "bc_enum_variant_value is_flags [] next_auto variant_name = None"
| "bc_enum_variant_value is_flags (v # vs) next_auto variant_name =
     (if \<not> ev_has_explicit_value v \<and> is_flags \<and> next_auto \<ge> 64 then None
      else let value = (if ev_has_explicit_value v then ev_value v
                        else if is_flags then push_bit (unat next_auto) 1 else next_auto)
           in if str8_match (ev_name v) variant_name 0 then Some value
              else bc_enum_variant_value is_flags vs (if is_flags then next_auto + 1 else value + 1) variant_name)"

section \<open>Selecting\<close>

definition bc_compile_select :: "u32 \<Rightarrow> u32 \<Rightarrow> u32 \<Rightarrow> u32 emit" where
  "bc_compile_select cond_reg true_reg false_reg =
     do { dst \<leftarrow> bc_alloc_reg;
          jf \<leftarrow> bc_emit (OpCtl BcOp_JumpIfFalse) cond_reg 0 0;
          _ \<leftarrow> bc_emit (OpData BcOp_Move) dst true_reg 0;
          jend \<leftarrow> bc_emit (OpCtl BcOp_Jump) 0 0 0;
          here \<leftarrow> code_size;
          patch_b jf here;
          _ \<leftarrow> bc_emit (OpData BcOp_Move) dst false_reg 0;
          here \<leftarrow> code_size;
          patch_a jend here;
          ret dst }"

section \<open>Allocating and storing\<close>

definition alloc_for :: "layout \<Rightarrow> u32 emit" where
  "alloc_for l = emit_new (OpArena BcOp_Alloc) (ucast (ly_size l)) (ucast (ly_align l))"

definition store_scalar :: "type_ref \<Rightarrow> u32 \<Rightarrow> u64 \<Rightarrow> u32 \<Rightarrow> unit emit" where
  "store_scalar t base offset val_reg =
     do { op \<leftarrow> bc_store_op_for_type t; _ \<leftarrow> bc_emit op base (ucast offset) val_reg; ret () }"

definition load_scalar :: "type_ref \<Rightarrow> u32 \<Rightarrow> u64 \<Rightarrow> u32 emit" where
  "load_scalar t base offset =
     do { dst \<leftarrow> bc_alloc_reg; op \<leftarrow> bc_load_op_for_type t; _ \<leftarrow> bc_emit op dst base (ucast offset); ret dst }"

definition bc_bind_local_typed :: "bc_unit \<Rightarrow> string \<Rightarrow> type_ref \<Rightarrow> u32 \<Rightarrow> u32 emit" where
  "bc_bind_local_typed U name t value_reg =
     (if name \<in> set (un_addr_taken_names U) \<and> \<not> bc_field_is_embedded (un_ck U) t
      then do { l \<leftarrow> layout_for U t;
                slot_reg \<leftarrow> alloc_for l;
                store_scalar t slot_reg 0 value_reg;
                modify (\<lambda>fc. fc\<lparr>fc_locals := fc_locals fc @
                  [\<lparr>bl_name = name, bl_reg = slot_reg, bl_is_addr_taken = True\<rparr>]\<rparr>);
                ret slot_reg }
      else do { bc_bind_local name value_reg; ret value_reg })"

definition bc_compile_zero_value :: "bc_unit \<Rightarrow> type_ref \<Rightarrow> u32 emit" where
  "bc_compile_zero_value U t =
     (if bc_field_is_embedded (un_ck U) t then do { l \<leftarrow> layout_for U t; alloc_for l } else const_reg 0)"

definition bc_compile_bool_t_result :: "bc_unit \<Rightarrow> string \<Rightarrow> u32 \<Rightarrow> u32 \<Rightarrow> u32 emit" where
  "bc_compile_bool_t_result U result_struct_name ok_reg value_reg =
     do { se \<leftarrow> struct_named U result_struct_name;
          l \<leftarrow> layout_for U (named_type result_struct_name);
          dst \<leftarrow> alloc_for l;
          fl0 \<leftarrow> field_of U se ''_0'';
          store_scalar (fo_type fl0) dst (fo_offset fl0) ok_reg;
          fl1 \<leftarrow> field_of U se ''_1'';
          store_scalar (fo_type fl1) dst (fo_offset fl1) value_reg;
          ret dst }"

fun copy_words :: "u32 \<Rightarrow> u64 \<Rightarrow> u32 \<Rightarrow> nat list \<Rightarrow> unit emit" where
  "copy_words base base_offset src [] = ret ()"
| "copy_words base base_offset src (i # is) =
     do { tmp \<leftarrow> bc_alloc_reg;
          _ \<leftarrow> bc_emit (OpLoad BcOp_LoadFieldI64) tmp src (of_nat (i * 8));
          _ \<leftarrow> bc_emit (OpStore BcOp_StoreFieldI64) base (ucast (base_offset + of_nat (i * 8))) tmp;
          copy_words base base_offset src is }"

text \<open>The 1 to 7 bytes left over, in steps of 4, 2 and 1.\<close>

fun copy_tail :: "u32 \<Rightarrow> u64 \<Rightarrow> u32 \<Rightarrow> u64 \<Rightarrow> nat \<Rightarrow> unit emit" where
  "copy_tail base base_offset src at left =
     (if left = 0 then ret ()
      else let chunk = (if left \<ge> 4 then 4 else if left \<ge> 2 then 2 else 1);
               load = OpLoad (if chunk = 4 then BcOp_LoadFieldU32 else if chunk = 2 then BcOp_LoadFieldU16
                              else BcOp_LoadFieldU8);
               store = OpStore (if chunk = 4 then BcOp_StoreFieldI32 else if chunk = 2 then BcOp_StoreFieldI16
                                else BcOp_StoreFieldI8)
           in do { tmp \<leftarrow> bc_alloc_reg;
                   _ \<leftarrow> bc_emit load tmp src (ucast at);
                   _ \<leftarrow> bc_emit store base (ucast (base_offset + at)) tmp;
                   copy_tail base base_offset src (at + of_nat chunk) (left - chunk) })"

declare copy_tail.simps [simp del]

definition bc_copy_struct_bytes :: "u32 \<Rightarrow> u64 \<Rightarrow> u32 \<Rightarrow> u64 \<Rightarrow> unit emit" where
  "bc_copy_struct_bytes base_reg base_offset src_reg sz =
     do { copy_words base_reg base_offset src_reg [0..<unat (sz div 8)];
          copy_tail base_reg base_offset src_reg (sz div 8 * 8) (unat (sz mod 8)) }"

definition bc_copy_boxed_string :: "u32 \<Rightarrow> u64 \<Rightarrow> u32 \<Rightarrow> unit emit" where
  "bc_copy_boxed_string base_reg offset src_reg =
     do { word0 \<leftarrow> bc_alloc_reg;
          word1 \<leftarrow> bc_alloc_reg;
          _ \<leftarrow> bc_emit (OpLoad BcOp_LoadFieldI64) word0 src_reg 0;
          _ \<leftarrow> bc_emit (OpLoad BcOp_LoadFieldI64) word1 src_reg 8;
          _ \<leftarrow> bc_emit (OpStore BcOp_StoreFieldI64) base_reg (ucast offset) word0;
          _ \<leftarrow> bc_emit (OpStore BcOp_StoreFieldI64) base_reg (ucast (offset + 8)) word1;
          ret () }"

definition bc_compile_value_copy :: "bc_unit \<Rightarrow> type_ref \<Rightarrow> u32 \<Rightarrow> u32 emit" where
  "bc_compile_value_copy U t src_reg =
     do { l \<leftarrow> layout_for U t; dst \<leftarrow> alloc_for l; bc_copy_struct_bytes dst 0 src_reg (ly_size l); ret dst }"

definition bc_store_value :: "bc_unit \<Rightarrow> u32 \<Rightarrow> u64 \<Rightarrow> type_ref \<Rightarrow> u32 \<Rightarrow> unit emit" where
  "bc_store_value U base_reg offset target_ty val_reg =
     (if bc_type_is_struct (un_ck U) target_ty \<or> tr_kind target_ty = TypeKind_Array
      then do { l \<leftarrow> layout_for U target_ty; bc_copy_struct_bytes base_reg offset val_reg (ly_size l) }
      else if tr_kind target_ty = TypeKind_String then bc_copy_boxed_string base_reg offset val_reg
      else store_scalar target_ty base_reg offset val_reg)"

definition bc_compile_addr_of :: "bc_unit \<Rightarrow> type_ref \<Rightarrow> u32 \<Rightarrow> u32 emit" where
  "bc_compile_addr_of U t val_reg =
     (if bc_field_is_embedded (un_ck U) t then ret val_reg
      else do { l \<leftarrow> layout_for U t; buf_reg \<leftarrow> alloc_for l; store_scalar t buf_reg 0 val_reg; ret buf_reg })"

section \<open>Strings and layouts in the constant pool\<close>

definition place :: "bc_unit \<Rightarrow> i64 emit" where
  "place U = State (\<lambda>fc. (un_place U (fc_placed fc), fc\<lparr>fc_placed := fc_placed fc + 1\<rparr>))"

definition bc_add_string_fixup :: "u32 \<Rightarrow> bool \<Rightarrow> string \<Rightarrow> unit emit" where
  "bc_add_string_fixup const_slot is_header bs = modify (\<lambda>fc. fc\<lparr>fc_string_fixups := fc_string_fixups fc @
     [\<lparr>sf_const_slot = const_slot, sf_is_header = (if is_header then 1 else 0), sf_bytes = bs\<rparr>]\<rparr>)"

definition bc_add_layout_const :: "bc_unit \<Rightarrow> bc_hash_slot_layout \<Rightarrow> u32 emit" where
  "bc_add_layout_const U l =
     do { boxed \<leftarrow> place U;
          c \<leftarrow> bc_add_const boxed;
          modify (\<lambda>fc. fc\<lparr>fc_layout_fixups := fc_layout_fixups fc @ [\<lparr>lf_const_slot = c, lf_layout = l\<rparr>]\<rparr>);
          ret c }"

definition bc_compile_string_literal :: "bc_unit \<Rightarrow> string \<Rightarrow> u32 emit" where
  "bc_compile_string_literal U value =
     do { _ \<leftarrow> place U;
          header \<leftarrow> place U;
          dst \<leftarrow> bc_alloc_reg;
          c \<leftarrow> bc_add_const header;
          bc_add_string_fixup c True value;
          _ \<leftarrow> bc_emit (OpData BcOp_LoadConst) dst c 0;
          ret dst }"

definition bc_fill_string_field :: "bc_unit \<Rightarrow> u32 \<Rightarrow> u64 \<Rightarrow> string \<Rightarrow> unit emit" where
  "bc_fill_string_field U base_reg field_offset value =
     do { bs \<leftarrow> place U;
          ptr_const \<leftarrow> bc_add_const bs;
          bc_add_string_fixup ptr_const False value;
          len_const \<leftarrow> bc_add_const (of_nat (length value));
          ptr_reg \<leftarrow> bc_alloc_reg;
          len_reg \<leftarrow> bc_alloc_reg;
          _ \<leftarrow> bc_emit (OpData BcOp_LoadConst) ptr_reg ptr_const 0;
          _ \<leftarrow> bc_emit (OpData BcOp_LoadConst) len_reg len_const 0;
          _ \<leftarrow> bc_emit (OpStore BcOp_StoreFieldI64) base_reg (ucast field_offset) ptr_reg;
          _ \<leftarrow> bc_emit (OpStore BcOp_StoreFieldI64) base_reg (ucast (field_offset + 8)) len_reg;
          ret () }"

section \<open>Content comparison\<close>

definition bc_struct_cmp_chunk_name :: "string \<Rightarrow> string" where
  "bc_struct_cmp_chunk_name struct_name = struct_name @ ''#cmp''"

text \<open>\<open>elem_cmp\<close> compiles the comparison of two elements.\<close>

definition bc_compile_array_cmp ::
  "bc_unit \<Rightarrow> (u32 \<Rightarrow> u32 \<Rightarrow> u32 emit) \<Rightarrow> type_ref \<Rightarrow> u32 \<Rightarrow> u32 \<Rightarrow> u64 \<Rightarrow> u32 emit" where
  "bc_compile_array_cmp U elem_cmp elem_ty arr_a arr_b count =
     do { stride \<leftarrow> bc_element_stride U elem_ty;
          zero_reg \<leftarrow> const_reg 0;
          one_reg \<leftarrow> const_reg 1;
          count_reg \<leftarrow> const_reg count;
          stride_reg \<leftarrow> const_reg stride;
          result \<leftarrow> emit_new (OpData BcOp_Move) zero_reg 0;
          i_reg \<leftarrow> emit_new (OpData BcOp_Move) zero_reg 0;
          loop_start \<leftarrow> code_size;
          cond \<leftarrow> emit_new (OpCmp BcOp_Lt) i_reg count_reg;
          jf_done \<leftarrow> bc_emit (OpCtl BcOp_JumpIfFalse) cond 0 0;
          byte_off \<leftarrow> emit_new (OpInt BcOp_Mul) i_reg stride_reg;
          elem_a \<leftarrow> emit_new (OpInt BcOp_Add) arr_a byte_off;
          elem_b \<leftarrow> emit_new (OpInt BcOp_Add) arr_b byte_off;
          c \<leftarrow> elem_cmp elem_a elem_b;
          elems_equal \<leftarrow> emit_new (OpCmp BcOp_Eq) c zero_reg;
          jf_diff \<leftarrow> bc_emit (OpCtl BcOp_JumpIfFalse) elems_equal 0 0;
          _ \<leftarrow> bc_emit (OpInt BcOp_Add) i_reg i_reg one_reg;
          _ \<leftarrow> bc_emit (OpCtl BcOp_Jump) loop_start 0 0;
          here \<leftarrow> code_size;
          patch_b jf_diff here;
          _ \<leftarrow> bc_emit (OpData BcOp_Move) result c 0;
          here \<leftarrow> code_size;
          patch_b jf_done here;
          ret result }"

text \<open>A struct is compared by a call of its comparator chunk.\<close>

definition call_struct_cmp :: "bc_unit \<Rightarrow> string \<Rightarrow> u32 \<Rightarrow> u32 \<Rightarrow> u32 emit" where
  "call_struct_cmp U name addr_a addr_b =
     do { cmp_idx \<leftarrow> need (bc_fn_table_try_lookup (un_fn_table U) (bc_struct_cmp_chunk_name name)) 0;
          arg_first \<leftarrow> arg_block [addr_a, addr_b];
          emit_new (OpCtl BcOp_Call) cmp_idx arg_first }"

definition scalar_cmp :: "type_ref \<Rightarrow> u32 \<Rightarrow> u32 \<Rightarrow> u32 emit" where
  "scalar_cmp t addr_a addr_b =
     do { load_op \<leftarrow> bc_load_op_for_type t;
          val_a \<leftarrow> emit_new load_op addr_a 0;
          val_b \<leftarrow> emit_new load_op addr_b 0;
          let (lt_op, gt_op) =
            (if tr_kind t = TypeKind_F64 then (OpF64Cmp BcOp_FLt, OpF64Cmp BcOp_FGt)
             else if tr_kind t = TypeKind_F32 then (OpF32Cmp BcOp_F32Lt, OpF32Cmp BcOp_F32Gt)
             else (OpCmp BcOp_Lt, OpCmp BcOp_Gt));
          lt \<leftarrow> emit_new lt_op val_a val_b;
          gt \<leftarrow> emit_new gt_op val_a val_b;
          emit_new (OpInt BcOp_Sub) gt lt }"

declare size_pointee [termination_simp]

fun bc_compile_value_cmp :: "bc_unit \<Rightarrow> type_ref \<Rightarrow> u32 \<Rightarrow> u32 \<Rightarrow> u32 emit" where
  "bc_compile_value_cmp U t addr_a addr_b =
     (if tr_kind t = TypeKind_String then emit_new (OpText BcOp_StrCmp) addr_a addr_b
      else if bc_type_is_struct (un_ck U) t then call_struct_cmp U (tr_name t) addr_a addr_b
      else if tr_kind t = TypeKind_Array
      then (case tr_pointee t of
              None \<Rightarrow> do { xassert False; ret 0 }
            | Some e \<Rightarrow> bc_compile_array_cmp U (\<lambda>a b. bc_compile_value_cmp U e a b) e addr_a addr_b (tr_count t))
      else scalar_cmp t addr_a addr_b)"

declare bc_compile_value_cmp.simps [simp del]

text \<open>The body of a comparator chunk: the two addresses are its parameters.\<close>

fun compare_fields :: "bc_unit \<Rightarrow> struct_decl \<Rightarrow> u32 \<Rightarrow> u32 \<Rightarrow> param list \<Rightarrow> unit emit" where
  "compare_fields U se reg_a reg_b [] = ret ()"
| "compare_fields U se reg_a reg_b (f # fs) =
     do { fl \<leftarrow> field_of U se (pa_name f);
          addr_a \<leftarrow> emit_new (OpData BcOp_FieldAddr) reg_a (ucast (fo_offset fl));
          addr_b \<leftarrow> emit_new (OpData BcOp_FieldAddr) reg_b (ucast (fo_offset fl));
          field_cmp \<leftarrow> bc_compile_value_cmp U (fo_type fl) addr_a addr_b;
          zero_reg \<leftarrow> const_reg 0;
          is_different \<leftarrow> emit_new (OpCmp BcOp_Neq) field_cmp zero_reg;
          jf \<leftarrow> bc_emit (OpCtl BcOp_JumpIfFalse) is_different 0 0;
          _ \<leftarrow> bc_emit (OpCtl BcOp_Return) field_cmp 0 0;
          here \<leftarrow> code_size;
          patch_b jf here;
          compare_fields U se reg_a reg_b fs }"

definition struct_cmp_code :: "bc_unit \<Rightarrow> struct_decl \<Rightarrow> unit emit" where
  "struct_cmp_code U se =
     do { reg_a \<leftarrow> bc_alloc_reg;
          reg_b \<leftarrow> bc_alloc_reg;
          compare_fields U se reg_a reg_b (sd_fields se);
          zero_final \<leftarrow> const_reg 0;
          _ \<leftarrow> bc_emit (OpCtl BcOp_Return) zero_final 0 0;
          ret () }"

end
