(* ===== verification/Bcgen_Nodes.thy ===== *)
theory Bcgen_Nodes
  imports Bcgen_Values
begin

text \<open>
  The cases of \<^verbatim>\<open>bc_compile_expr\<close> other than calls, one definition per case of the switch.  A case
  is given its operands compiled, as actions, so the order in which an operand's code is emitted is
  the order in which its action is run.
\<close>

section \<open>Operands\<close>

text \<open>What an expression offers to the places that look at its node kind: an assignment, \<^verbatim>\<open>addr\<close> and
  \<^verbatim>\<open>swap\<close> at the four lvalue kinds, a literal that is filled in place at its members, \<^verbatim>\<open>print\<close> at
  the text of its template.\<close>

datatype target =
    NameTarget string
  | FieldTarget type_ref "u32 emit" string
  | IndexTarget type_ref "u32 emit" "u32 emit"
  | DerefTarget type_ref "u32 emit"
  | NoTarget

datatype node = Node
  (nd_type: type_ref)
  (nd_code: "u32 emit")
  (nd_target: target)
  (nd_text: "string option")
  (nd_fields: "(struct_decl \<Rightarrow> u32 \<Rightarrow> u64 \<Rightarrow> unit emit) option")
  (nd_elements: "(type_ref \<Rightarrow> u32 \<Rightarrow> u64 \<Rightarrow> unit emit) option")

abbreviation nd_kind :: "node \<Rightarrow> type_kind" where
  "nd_kind e \<equiv> tr_kind (nd_type e)"

section \<open>Scopes\<close>

definition locals_mark :: "nat emit" where
  "locals_mark = asks (\<lambda>fc. length (fc_locals fc))"

definition locals_pop :: "nat \<Rightarrow> unit emit" where
  "locals_pop mark = modify (\<lambda>fc. fc\<lparr>fc_locals := take mark (fc_locals fc)\<rparr>)"

fun compile_stmts :: "u32 \<Rightarrow> u32 emit list \<Rightarrow> u32 emit" where
  "compile_stmts last_reg [] = ret last_reg"
| "compile_stmts last_reg (s # ss) = do { r \<leftarrow> s; compile_stmts r ss }"

definition bc_compile_block :: "u32 emit list \<Rightarrow> u32 emit" where
  "bc_compile_block stmts =
     do { mark \<leftarrow> locals_mark; last_reg \<leftarrow> compile_stmts 0 stmts; locals_pop mark; ret last_reg }"

section \<open>Literals and constants\<close>

definition bc_float_literal :: "bc_unit \<Rightarrow> type_ref \<Rightarrow> u64 \<Rightarrow> u32 emit" where
  "bc_float_literal U t value =
     do { dst \<leftarrow> bc_alloc_reg;
          xassert (tr_kind t = TypeKind_F64 \<or> tr_kind t = TypeKind_F32);
          emit_const dst (if tr_kind t = TypeKind_F64 then value else ucast (un_f64_to_f32 U value));
          ret dst }"

definition bc_enum_access :: "bc_unit \<Rightarrow> string \<Rightarrow> string \<Rightarrow> u32 emit" where
  "bc_enum_access U enum_name variant_name =
     do { ed \<leftarrow> need (enum_table_lookup (un_ck U) enum_name) \<lparr>ed_name = [], ed_is_flags = False, ed_variants = []\<rparr>;
          value \<leftarrow> need (bc_enum_variant_value (ed_is_flags ed) (ed_variants ed) 0 variant_name) 0;
          const_reg value }"

definition bc_sizeof :: "bc_unit \<Rightarrow> type_ref \<Rightarrow> u32 emit" where
  "bc_sizeof U t = do { l \<leftarrow> layout_for U t; const_reg (ly_size l) }"

definition bc_alignof :: "bc_unit \<Rightarrow> type_ref \<Rightarrow> u32 emit" where
  "bc_alignof U t = do { l \<leftarrow> layout_for U t; const_reg (ly_align l) }"

definition bc_member_offset :: "bc_unit \<Rightarrow> type_ref \<Rightarrow> string \<Rightarrow> u32 emit" where
  "bc_member_offset U t field =
     do { se \<leftarrow> struct_named U (tr_name t); fl \<leftarrow> field_of U se field; const_reg (fo_offset fl) }"

section \<open>Names\<close>

definition bc_identifier :: "bc_unit \<Rightarrow> type_ref \<Rightarrow> string \<Rightarrow> u32 emit" where
  "bc_identifier U t name =
     do { loc \<leftarrow> bc_local_try_lookup name;
          case loc of
            Some l \<Rightarrow> if bl_is_addr_taken l then load_scalar t (bl_reg l) 0 else ret (bl_reg l)
          | None \<Rightarrow>
              (case bc_fn_table_try_lookup (un_global_table U) name of
                 Some slot \<Rightarrow> emit_new (OpData BcOp_LoadGlobal) slot 0
               | None \<Rightarrow>
                   do { (if tr_kind t = TypeKind_Fn
                        then bc_unsupported ''a function used as a VALUE rather than called -- this bytecode compiler slice has no function-value representation and no indirect-call opcode''
                        else ret ());
                        xassert False;
                        bc_alloc_reg }) }"

section \<open>Lvalues\<close>

text \<open>\<^verbatim>\<open>bc_resolve_field_access\<close>: the register of the base and the layout of the field.\<close>

definition bc_resolve_field_access :: "bc_unit \<Rightarrow> type_ref \<Rightarrow> u32 emit \<Rightarrow> string \<Rightarrow> (u32 \<times> field_layout) emit" where
  "bc_resolve_field_access U base_ty base field =
     do { base_reg \<leftarrow> base;
          struct_ty \<leftarrow> (if tr_kind base_ty = TypeKind_Pointer then pointee_of base_ty else ret base_ty);
          xassert (tr_kind struct_ty = TypeKind_Named);
          se \<leftarrow> struct_named U (tr_name struct_ty);
          fl \<leftarrow> field_of U se field;
          ret (base_reg, fl) }"

text \<open>\<^verbatim>\<open>bc_resolve_index_access\<close>: the register of the element's address and its type.\<close>

definition bc_resolve_index_access :: "bc_unit \<Rightarrow> type_ref \<Rightarrow> u32 emit \<Rightarrow> u32 emit \<Rightarrow> (u32 \<times> type_ref) emit" where
  "bc_resolve_index_access U base_ty base index =
     do { xassert (tr_kind base_ty \<in> {TypeKind_Array, TypeKind_Pointer, TypeKind_Vector});
          elem_ty \<leftarrow> pointee_of base_ty;
          base_reg \<leftarrow> base;
          index_reg \<leftarrow> index;
          stride \<leftarrow> bc_element_stride U elem_ty;
          stride_reg \<leftarrow> const_reg stride;
          byte_offset_reg \<leftarrow> emit_new (OpInt BcOp_Mul) index_reg stride_reg;
          elem_addr_reg \<leftarrow> emit_new (OpInt BcOp_Add) base_reg byte_offset_reg;
          ret (elem_addr_reg, elem_ty) }"

definition set_local :: "type_ref \<Rightarrow> bc_local \<Rightarrow> u32 \<Rightarrow> unit emit" where
  "set_local target_ty l val_reg =
     (if bl_is_addr_taken l then store_scalar target_ty (bl_reg l) 0 val_reg
      else do { _ \<leftarrow> bc_emit (OpData BcOp_Move) (bl_reg l) val_reg 0; ret () })"

definition set_name :: "bc_unit \<Rightarrow> type_ref \<Rightarrow> string \<Rightarrow> u32 \<Rightarrow> unit emit" where
  "set_name U target_ty name val_reg =
     do { loc \<leftarrow> bc_local_try_lookup name;
          case loc of
            Some l \<Rightarrow> set_local target_ty l val_reg
          | None \<Rightarrow>
              (case bc_fn_table_try_lookup (un_global_table U) name of
                 Some slot \<Rightarrow> do { _ \<leftarrow> bc_emit (OpData BcOp_StoreGlobal) slot val_reg 0; ret () }
               | None \<Rightarrow> xassert False) }"

definition bc_compile_lvalue_write :: "bc_unit \<Rightarrow> target \<Rightarrow> type_ref \<Rightarrow> u32 \<Rightarrow> unit emit" where
  "bc_compile_lvalue_write U target target_ty val_reg =
     (case target of
        NameTarget name \<Rightarrow> set_name U target_ty name val_reg
      | FieldTarget base_ty base field \<Rightarrow>
          do { (base_reg, fl) \<leftarrow> bc_resolve_field_access U base_ty base field;
               bc_store_value U base_reg (fo_offset fl) target_ty val_reg }
      | IndexTarget base_ty base index \<Rightarrow>
          do { (elem_addr_reg, elem_ty) \<leftarrow> bc_resolve_index_access U base_ty base index;
               bc_store_value U elem_addr_reg 0 target_ty val_reg }
      | DerefTarget ptr_ty ptr \<Rightarrow>
          do { addr_reg \<leftarrow> ptr; bc_store_value U addr_reg 0 target_ty val_reg }
      | NoTarget \<Rightarrow> xassert False)"

definition bc_set :: "bc_unit \<Rightarrow> type_ref \<Rightarrow> target \<Rightarrow> u32 emit \<Rightarrow> u32 emit" where
  "bc_set U target_ty target value =
     (case target of
        NameTarget name \<Rightarrow> do { val_reg \<leftarrow> value; set_name U target_ty name val_reg; ret val_reg }
      | DerefTarget ptr_ty ptr \<Rightarrow>
          do { xassert (tr_kind ptr_ty = TypeKind_Pointer);
               addr_reg \<leftarrow> ptr;
               val_reg \<leftarrow> value;
               bc_store_value U addr_reg 0 target_ty val_reg;
               ret val_reg }
      | FieldTarget base_ty base field \<Rightarrow>
          do { (base_reg, fl) \<leftarrow> bc_resolve_field_access U base_ty base field;
               val_reg \<leftarrow> value;
               bc_store_value U base_reg (fo_offset fl) target_ty val_reg;
               ret val_reg }
      | IndexTarget base_ty base index \<Rightarrow>
          do { (elem_addr_reg, elem_ty) \<leftarrow> bc_resolve_index_access U base_ty base index;
               val_reg \<leftarrow> value;
               bc_store_value U elem_addr_reg 0 target_ty val_reg;
               ret val_reg }
      | NoTarget \<Rightarrow> do { xassert False; bc_alloc_reg })"

definition bc_field_access :: "bc_unit \<Rightarrow> type_ref \<Rightarrow> u32 emit \<Rightarrow> string \<Rightarrow> u32 emit" where
  "bc_field_access U base_ty base field =
     do { (base_reg, fl) \<leftarrow> bc_resolve_field_access U base_ty base field;
          if bc_field_is_embedded (un_ck U) (fo_type fl)
          then emit_new (OpData BcOp_FieldAddr) base_reg (ucast (fo_offset fl))
          else load_scalar (fo_type fl) base_reg (fo_offset fl) }"

definition bc_index_access :: "bc_unit \<Rightarrow> type_ref \<Rightarrow> u32 emit \<Rightarrow> u32 emit \<Rightarrow> u32 emit" where
  "bc_index_access U base_ty base index =
     do { (elem_addr_reg, elem_ty) \<leftarrow> bc_resolve_index_access U base_ty base index;
          if bc_field_is_embedded (un_ck U) elem_ty then ret elem_addr_reg
          else load_scalar elem_ty elem_addr_reg 0 }"

definition bc_deref :: "bc_unit \<Rightarrow> type_ref \<Rightarrow> u32 emit \<Rightarrow> u32 emit" where
  "bc_deref U ptr_ty ptr =
     do { xassert (tr_kind ptr_ty = TypeKind_Pointer);
          pointee_ty \<leftarrow> pointee_of ptr_ty;
          addr_reg \<leftarrow> ptr;
          if bc_field_is_embedded (un_ck U) pointee_ty then ret addr_reg
          else load_scalar pointee_ty addr_reg 0 }"

definition bc_addr :: "bc_unit \<Rightarrow> node \<Rightarrow> u32 emit" where
  "bc_addr U operand =
     (case nd_target operand of
        FieldTarget base_ty base field \<Rightarrow>
          do { (base_reg, fl) \<leftarrow> bc_resolve_field_access U base_ty base field;
               emit_new (OpData BcOp_FieldAddr) base_reg (ucast (fo_offset fl)) }
      | IndexTarget base_ty base index \<Rightarrow>
          do { (elem_addr_reg, elem_ty) \<leftarrow> bc_resolve_index_access U base_ty base index; ret elem_addr_reg }
      | DerefTarget ptr_ty ptr \<Rightarrow> ptr
      | NameTarget name \<Rightarrow>
          if bc_field_is_embedded (un_ck U) (nd_type operand) then nd_code operand
          else do { loc \<leftarrow> bc_local_try_lookup name;
                    case loc of
                      Some l \<Rightarrow> do { xassert (bl_is_addr_taken l); ret (bl_reg l) }
                    | None \<Rightarrow>
                        do { bc_unsupported ''`addr`/`&` on a scalar-typed module-level global (this backend keeps a scalar LOCAL addressable now, but a global still has no backing mechanism -- take the address of a field/element/already-dereferenced pointer instead)'';
                             bc_alloc_reg } }
      | NoTarget \<Rightarrow> do { xassert False; bc_alloc_reg })"

section \<open>Operators\<close>

definition bc_arith :: "bc_unit \<Rightarrow> type_ref \<Rightarrow> arith_kind \<Rightarrow> type_ref \<Rightarrow> u32 emit \<Rightarrow> u32 emit \<Rightarrow> u32 emit" where
  "bc_arith U result_ty kind operand_ty lhs rhs =
     do { l \<leftarrow> lhs;
          r \<leftarrow> rhs;
          dst \<leftarrow> bc_alloc_reg;
          if tr_kind operand_ty = TypeKind_String \<or> bc_type_is_struct (un_ck U) operand_ty
          then do { c \<leftarrow> bc_compile_value_cmp U operand_ty l r;
                    zero_reg \<leftarrow> const_reg 0;
                    _ \<leftarrow> bc_emit (bc_int_op_for_kind kind False) dst c zero_reg;
                    ret dst }
          else do { _ \<leftarrow> bc_emit (bc_typed_op_for_kind operand_ty kind) dst l r;
                    bc_narrow_arith_result result_ty dst;
                    ret dst } }"

definition bc_bitwise :: "type_ref \<Rightarrow> bitwise_kind \<Rightarrow> type_ref \<Rightarrow> u32 emit \<Rightarrow> u32 emit \<Rightarrow> u32 emit" where
  "bc_bitwise result_ty kind shifted_ty lhs rhs =
     do { l \<leftarrow> lhs;
          r \<leftarrow> rhs;
          dst \<leftarrow> emit_new (bc_bitwise_op_for_kind kind (tr_kind shifted_ty)) l r;
          (if kind = BinaryShl then bc_narrow_arith_result result_ty dst else ret ());
          ret dst }"

text \<open>\<^verbatim>\<open>0 - x\<close>; an integer subtraction has no unsigned half.\<close>

definition bc_neg :: "type_ref \<Rightarrow> type_ref \<Rightarrow> u32 emit \<Rightarrow> u32 emit" where
  "bc_neg result_ty operand_ty e =
     do { x \<leftarrow> e;
          zero_reg \<leftarrow> const_reg 0;
          dst \<leftarrow> emit_new (if tr_kind operand_ty = TypeKind_F64 then bc_f64_op_for_kind BinarySub
                           else if tr_kind operand_ty = TypeKind_F32 then bc_f32_op_for_kind BinarySub
                           else bc_int_op_for_kind BinarySub False) zero_reg x;
          bc_narrow_arith_result result_ty dst;
          ret dst }"

definition bc_bit_not :: "type_ref \<Rightarrow> u32 emit \<Rightarrow> u32 emit" where
  "bc_bit_not result_ty e =
     do { x \<leftarrow> e; dst \<leftarrow> emit_new (OpData BcOp_BitNot) x 0; bc_narrow_arith_result result_ty dst; ret dst }"

text \<open>\<^verbatim>\<open>x != 0\<close> in a new register.\<close>

definition truth_of :: "u32 \<Rightarrow> u32 emit" where
  "truth_of x = do { zero_reg \<leftarrow> const_reg 0; emit_new (OpCmp BcOp_Neq) x zero_reg }"

definition bc_compile_truthy :: "u32 emit \<Rightarrow> u32 emit" where
  "bc_compile_truthy e = do { v \<leftarrow> e; truth_of v }"

definition is_float :: "type_ref \<Rightarrow> bool" where
  "is_float t \<longleftrightarrow> tr_kind t = TypeKind_F32 \<or> tr_kind t = TypeKind_F64"

definition bc_cast :: "type_ref \<Rightarrow> type_ref \<Rightarrow> u32 emit \<Rightarrow> u32 emit" where
  "bc_cast dst_ty src_ty e =
     do { val \<leftarrow> e;
          if tr_kind dst_ty = TypeKind_Void then ret val
          else do {
            same \<leftarrow> need (type_ref_equal src_ty dst_ty) True;
            if same then ret val
            else if \<not> is_float src_ty \<and> \<not> is_float dst_ty
            then (if tr_kind dst_ty = TypeKind_Bool then truth_of val
                  else bc_compile_int_narrow (tr_kind dst_ty) val)
            else if is_float src_ty \<and> is_float dst_ty
            then emit_new (OpConv (if tr_kind dst_ty = TypeKind_F64 then BcOp_F32ToF64 else BcOp_F64ToF32)) val 0
            else if is_float dst_ty
            then emit_new (OpConv (if tr_kind dst_ty = TypeKind_F64 then BcOp_IntToF64 else BcOp_IntToF32)) val 0
            else do { converted \<leftarrow>
                        emit_new (OpConv (if tr_kind src_ty = TypeKind_F64 then BcOp_F64ToInt else BcOp_F32ToInt)) val 0;
                      if tr_kind dst_ty = TypeKind_Bool then truth_of converted
                      else bc_compile_int_narrow (tr_kind dst_ty) converted } } }"

definition bc_reinterpret :: "type_ref \<Rightarrow> u32 emit \<Rightarrow> u32 emit" where
  "bc_reinterpret dst_ty e = do { val \<leftarrow> e; bc_compile_int_narrow (tr_kind dst_ty) val }"

definition bc_not :: "u32 emit \<Rightarrow> u32 emit" where
  "bc_not e = do { x \<leftarrow> e; zero_reg \<leftarrow> const_reg 0; emit_new (OpCmp BcOp_Eq) x zero_reg }"

definition bc_and :: "u32 emit \<Rightarrow> u32 emit \<Rightarrow> u32 emit" where
  "bc_and lhs rhs =
     do { dst \<leftarrow> bc_alloc_reg;
          l \<leftarrow> lhs;
          jf \<leftarrow> bc_emit (OpCtl BcOp_JumpIfFalse) l 0 0;
          rhs_truthy \<leftarrow> bc_compile_truthy rhs;
          _ \<leftarrow> bc_emit (OpData BcOp_Move) dst rhs_truthy 0;
          jend \<leftarrow> bc_emit (OpCtl BcOp_Jump) 0 0 0;
          here \<leftarrow> code_size;
          patch_b jf here;
          zero_reg \<leftarrow> const_reg 0;
          _ \<leftarrow> bc_emit (OpData BcOp_Move) dst zero_reg 0;
          here \<leftarrow> code_size;
          patch_a jend here;
          ret dst }"

definition bc_or :: "u32 emit \<Rightarrow> u32 emit \<Rightarrow> u32 emit" where
  "bc_or lhs rhs =
     do { dst \<leftarrow> bc_alloc_reg;
          l \<leftarrow> lhs;
          jf \<leftarrow> bc_emit (OpCtl BcOp_JumpIfFalse) l 0 0;
          one_reg \<leftarrow> const_reg 1;
          _ \<leftarrow> bc_emit (OpData BcOp_Move) dst one_reg 0;
          jend \<leftarrow> bc_emit (OpCtl BcOp_Jump) 0 0 0;
          here \<leftarrow> code_size;
          patch_b jf here;
          rhs_truthy \<leftarrow> bc_compile_truthy rhs;
          _ \<leftarrow> bc_emit (OpData BcOp_Move) dst rhs_truthy 0;
          here \<leftarrow> code_size;
          patch_a jend here;
          ret dst }"

text \<open>The size of a string at offset 8 of its header, its bytes at offset 0.\<close>

definition bc_string_len :: "u32 emit \<Rightarrow> u32 emit" where
  "bc_string_len e = do { s \<leftarrow> e; emit_new (OpLoad BcOp_LoadFieldI64) s 8 }"

definition bc_cstr :: "u32 emit \<Rightarrow> u32 emit" where
  "bc_cstr e = do { s \<leftarrow> e; emit_new (OpLoad BcOp_LoadFieldI64) s 0 }"

end
