(* ===== verification/Bcgen_Flow.thy ===== *)
theory Bcgen_Flow
  imports Bcgen_Nodes
begin

text \<open>
  The control flow of \<^verbatim>\<open>bc_compile_expr\<close> with its backpatched jumps, the bindings, the allocation
  forms, and the literals that are filled in place.
\<close>

section \<open>Branches\<close>

definition bc_if :: "u32 emit \<Rightarrow> u32 emit \<Rightarrow> u32 emit option \<Rightarrow> u32 emit" where
  "bc_if c then_branch else_branch =
     do { dst \<leftarrow> bc_alloc_reg;
          cond_reg \<leftarrow> c;
          jf \<leftarrow> bc_emit (OpCtl BcOp_JumpIfFalse) cond_reg 0 0;
          then_reg \<leftarrow> then_branch;
          _ \<leftarrow> bc_emit (OpData BcOp_Move) dst then_reg 0;
          jend \<leftarrow> bc_emit (OpCtl BcOp_Jump) 0 0 0;
          here \<leftarrow> code_size;
          patch_b jf here;
          (case else_branch of
             None \<Rightarrow> ret ()
           | Some e \<Rightarrow> do { else_reg \<leftarrow> e; _ \<leftarrow> bc_emit (OpData BcOp_Move) dst else_reg 0; ret () });
          here \<leftarrow> code_size;
          patch_a jend here;
          ret dst }"

definition bc_break :: "u32 emit" where
  "bc_break =
     do { floor \<leftarrow> asks fc_loop_scratch_mark;
          bc_unwind_scratch_scopes floor;
          jmp \<leftarrow> bc_emit (OpCtl BcOp_Jump) 0 0 0;
          modify (\<lambda>fc. fc\<lparr>fc_break_fixups := fc_break_fixups fc @ [jmp]\<rparr>);
          bc_alloc_reg }"

definition bc_continue :: "u32 emit" where
  "bc_continue =
     do { floor \<leftarrow> asks fc_loop_scratch_mark;
          bc_unwind_scratch_scopes floor;
          jmp \<leftarrow> bc_emit (OpCtl BcOp_Jump) 0 0 0;
          modify (\<lambda>fc. fc\<lparr>fc_continue_fixups := fc_continue_fixups fc @ [jmp]\<rparr>);
          bc_alloc_reg }"

definition bc_return_expr :: "u32 emit option \<Rightarrow> u32 emit" where
  "bc_return_expr e =
     do { (case e of
             None \<Rightarrow> do { bc_unwind_scratch_scopes 0; _ \<leftarrow> bc_emit (OpCtl BcOp_ReturnVoid) 0 0 0; ret () }
           | Some v \<Rightarrow>
               do { val \<leftarrow> v;
                    bc_unwind_scratch_scopes 0;
                    _ \<leftarrow> bc_emit (OpCtl BcOp_Return) val 0 0;
                    ret () });
          bc_alloc_reg }"

section \<open>Loops\<close>

text \<open>The end every loop shares: the jump back, then the exit, where the condition's jump and every
  \<^verbatim>\<open>break\<close> land.\<close>

definition close_loop :: "bc_loop_ctx \<Rightarrow> u32 \<Rightarrow> u32 \<Rightarrow> unit emit" where
  "close_loop loop loop_start jf =
     do { _ \<leftarrow> bc_emit (OpCtl BcOp_Jump) loop_start 0 0;
          here \<leftarrow> code_size;
          patch_b jf here;
          bc_loop_patch_break loop here;
          bc_loop_end loop }"

definition bc_while :: "u32 emit \<Rightarrow> u32 emit list \<Rightarrow> u32 emit" where
  "bc_while c body =
     do { loop \<leftarrow> bc_loop_begin;
          loop_start \<leftarrow> code_size;
          cond_reg \<leftarrow> c;
          jf \<leftarrow> bc_emit (OpCtl BcOp_JumpIfFalse) cond_reg 0 0;
          _ \<leftarrow> bc_compile_block body;
          bc_loop_patch_continue loop loop_start;
          close_loop loop loop_start jf;
          bc_alloc_reg }"

definition bc_for_c :: "string \<Rightarrow> u32 emit \<Rightarrow> u32 emit \<Rightarrow> u32 emit \<Rightarrow> u32 emit list \<Rightarrow> u32 emit" where
  "bc_for_c var_name init c expr body =
     do { mark \<leftarrow> locals_mark;
          var_reg \<leftarrow> init;
          bc_bind_local var_name var_reg;
          loop \<leftarrow> bc_loop_begin;
          loop_start \<leftarrow> code_size;
          cond_reg \<leftarrow> c;
          jf \<leftarrow> bc_emit (OpCtl BcOp_JumpIfFalse) cond_reg 0 0;
          _ \<leftarrow> bc_compile_block body;
          _ \<leftarrow> expr;
          bc_loop_patch_continue loop loop_start;
          close_loop loop loop_start jf;
          locals_pop mark;
          bc_alloc_reg }"

definition counter_lt :: "type_ref \<Rightarrow> bc_op" where
  "counter_lt t =
     (if tr_kind t = TypeKind_F64 then OpF64Cmp BcOp_FLt
      else if tr_kind t = TypeKind_F32 then OpF32Cmp BcOp_F32Lt
      else OpCmp (if bc_type_needs_unsigned_ops t then BcOp_LtU else BcOp_Lt))"

definition counter_add :: "type_ref \<Rightarrow> bc_op" where
  "counter_add t =
     (if tr_kind t = TypeKind_F64 then OpF64Arith BcOp_FAdd
      else if tr_kind t = TypeKind_F32 then OpF32Arith BcOp_F32Add
      else OpInt BcOp_Add)"

definition bc_for_range ::
  "string \<Rightarrow> type_ref \<Rightarrow> u32 emit \<Rightarrow> u32 emit \<Rightarrow> u32 emit \<Rightarrow> u32 emit list \<Rightarrow> u32 emit" where
  "bc_for_range var_name var_ty begin_expr end_expr step body =
     do { mark \<leftarrow> locals_mark;
          var_reg \<leftarrow> begin_expr;
          bc_bind_local var_name var_reg;
          loop \<leftarrow> bc_loop_begin;
          loop_start \<leftarrow> code_size;
          end_reg \<leftarrow> end_expr;
          cond_reg \<leftarrow> emit_new (counter_lt var_ty) var_reg end_reg;
          jf \<leftarrow> bc_emit (OpCtl BcOp_JumpIfFalse) cond_reg 0 0;
          _ \<leftarrow> bc_compile_block body;
          here \<leftarrow> code_size;
          bc_loop_patch_continue loop here;
          step_reg \<leftarrow> step;
          _ \<leftarrow> bc_emit (counter_add var_ty) var_reg var_reg step_reg;
          bc_narrow_arith_result var_ty var_reg;
          close_loop loop loop_start jf;
          locals_pop mark;
          bc_alloc_reg }"

definition bc_parallel_for :: "string \<Rightarrow> type_ref \<Rightarrow> u32 emit \<Rightarrow> u32 emit list \<Rightarrow> u32 emit" where
  "bc_parallel_for var_name var_ty count body =
     do { mark \<leftarrow> locals_mark;
          count_reg \<leftarrow> count;
          var_reg \<leftarrow> const_reg 0;
          bc_bind_local var_name var_reg;
          loop \<leftarrow> bc_loop_begin;
          loop_start \<leftarrow> code_size;
          cond_reg \<leftarrow> emit_new (OpCmp (if bc_type_needs_unsigned_ops var_ty then BcOp_LtU else BcOp_Lt)) var_reg count_reg;
          jf \<leftarrow> bc_emit (OpCtl BcOp_JumpIfFalse) cond_reg 0 0;
          _ \<leftarrow> bc_compile_block body;
          here \<leftarrow> code_size;
          bc_loop_patch_continue loop here;
          one_reg \<leftarrow> const_reg 1;
          _ \<leftarrow> bc_emit (OpInt BcOp_Add) var_reg var_reg one_reg;
          bc_narrow_arith_result var_ty var_reg;
          close_loop loop loop_start jf;
          locals_pop mark;
          bc_alloc_reg }"

text \<open>The value at an address: the address itself when the type is embedded.\<close>

definition value_at :: "bc_unit \<Rightarrow> type_ref \<Rightarrow> u32 \<Rightarrow> u32 emit" where
  "value_at U t addr = (if bc_field_is_embedded (un_ck U) t then ret addr else load_scalar t addr 0)"

definition bc_for_each ::
  "bc_unit \<Rightarrow> string option \<Rightarrow> string \<Rightarrow> type_ref \<Rightarrow> u32 emit \<Rightarrow> u32 emit list \<Rightarrow> u32 emit" where
  "bc_for_each U index_name elem_name coll_ty coll body =
     do { xassert (tr_kind coll_ty = TypeKind_Array \<or> tr_kind coll_ty = TypeKind_Vector);
          elem_ty \<leftarrow> pointee_of coll_ty;
          mark \<leftarrow> locals_mark;
          coll_reg \<leftarrow> coll;
          idx_reg \<leftarrow> const_reg 0;
          (case index_name of None \<Rightarrow> ret () | Some i \<Rightarrow> bc_bind_local i idx_reg);
          count_reg \<leftarrow> (if tr_kind coll_ty = TypeKind_Array then const_reg (tr_count coll_ty)
                        else emit_new (OpDyn BcOp_DynCount) coll_reg 0);
          loop \<leftarrow> bc_loop_begin;
          loop_start \<leftarrow> code_size;
          cond_reg \<leftarrow> emit_new (OpCmp BcOp_Lt) idx_reg count_reg;
          jf \<leftarrow> bc_emit (OpCtl BcOp_JumpIfFalse) cond_reg 0 0;
          stride \<leftarrow> bc_element_stride U elem_ty;
          stride_reg \<leftarrow> const_reg stride;
          byte_off_reg \<leftarrow> emit_new (OpInt BcOp_Mul) idx_reg stride_reg;
          elem_addr_reg \<leftarrow> emit_new (OpInt BcOp_Add) coll_reg byte_off_reg;
          elem_reg \<leftarrow> value_at U elem_ty elem_addr_reg;
          bc_bind_local elem_name elem_reg;
          _ \<leftarrow> bc_compile_block body;
          here \<leftarrow> code_size;
          bc_loop_patch_continue loop here;
          one_reg \<leftarrow> const_reg 1;
          _ \<leftarrow> bc_emit (OpInt BcOp_Add) idx_reg idx_reg one_reg;
          close_loop loop loop_start jf;
          locals_pop mark;
          bc_alloc_reg }"

text \<open>A map or a set: the slots are walked in place and the unoccupied ones skipped.  A map binds
  its key and value, a set the position and its element.\<close>

definition slot_value :: "bc_unit \<Rightarrow> type_ref \<Rightarrow> u32 \<Rightarrow> u64 \<Rightarrow> u32 emit" where
  "slot_value U t slot_addr_reg offset =
     do { elem_reg \<leftarrow> bc_alloc_reg;
          op \<leftarrow> (if bc_field_is_embedded (un_ck U) t then ret (OpData BcOp_FieldAddr) else bc_load_op_for_type t);
          _ \<leftarrow> bc_emit op elem_reg slot_addr_reg (ucast offset);
          ret elem_reg }"

definition bind_slot ::
  "bc_unit \<Rightarrow> bool \<Rightarrow> string option \<Rightarrow> string \<Rightarrow> type_ref \<Rightarrow> type_ref \<Rightarrow> bc_hash_slot_layout \<Rightarrow> u32 \<Rightarrow> u32 \<Rightarrow> unit emit" where
  "bind_slot U is_map index_name elem_name key_ty value_ty l idx_reg slot_addr_reg =
     do { (case index_name of
             None \<Rightarrow> ret ()
           | Some i \<Rightarrow>
               do { index_val_reg \<leftarrow> (if is_map then value_at U key_ty slot_addr_reg else ret idx_reg);
                    bc_bind_local i index_val_reg });
          elem_reg \<leftarrow> (if is_map then slot_value U value_ty slot_addr_reg (hl_value_offset l)
                       else value_at U key_ty slot_addr_reg);
          bc_bind_local elem_name elem_reg }"

definition bc_for_each_slot ::
  "bc_unit \<Rightarrow> string option \<Rightarrow> string \<Rightarrow> type_ref \<Rightarrow> u32 emit \<Rightarrow> u32 emit list \<Rightarrow> u32 emit" where
  "bc_for_each_slot U index_name elem_name coll_ty coll body =
     do { let is_map = (tr_kind coll_ty = TypeKind_Map);
          key_ty \<leftarrow> (if is_map then map_key_of coll_ty else pointee_of coll_ty);
          value_ty \<leftarrow> (if is_map then pointee_of coll_ty else ret type_ref_unresolved);
          l \<leftarrow> slot_layout_for U key_ty (if is_map then Some value_ty else None);
          mark \<leftarrow> locals_mark;
          coll_reg \<leftarrow> coll;
          slots_reg \<leftarrow> emit_new (OpLoad BcOp_LoadFieldI64) coll_reg 0;
          capacity_reg \<leftarrow> emit_new (OpLoad BcOp_LoadFieldI64) coll_reg 8;
          idx_reg \<leftarrow> const_reg 0;
          loop \<leftarrow> bc_loop_begin;
          loop_start \<leftarrow> code_size;
          cond_reg \<leftarrow> emit_new (OpCmp BcOp_Lt) idx_reg capacity_reg;
          jf_done \<leftarrow> bc_emit (OpCtl BcOp_JumpIfFalse) cond_reg 0 0;
          stride_reg \<leftarrow> const_reg (hl_slot_size l);
          byte_off_reg \<leftarrow> emit_new (OpInt BcOp_Mul) idx_reg stride_reg;
          slot_addr_reg \<leftarrow> emit_new (OpInt BcOp_Add) slots_reg byte_off_reg;
          state_reg \<leftarrow> emit_new (OpLoad BcOp_LoadFieldI32) slot_addr_reg (ucast (hl_state_offset l));
          occupied_reg \<leftarrow> const_reg 1;
          is_occupied_reg \<leftarrow> emit_new (OpCmp BcOp_Eq) state_reg occupied_reg;
          jf_skip \<leftarrow> bc_emit (OpCtl BcOp_JumpIfFalse) is_occupied_reg 0 0;
          bind_slot U is_map index_name elem_name key_ty value_ty l idx_reg slot_addr_reg;
          _ \<leftarrow> bc_compile_block body;
          here \<leftarrow> code_size;
          patch_b jf_skip here;
          bc_loop_patch_continue loop here;
          one_reg \<leftarrow> const_reg 1;
          _ \<leftarrow> bc_emit (OpInt BcOp_Add) idx_reg idx_reg one_reg;
          close_loop loop loop_start jf_done;
          locals_pop mark;
          bc_alloc_reg }"

section \<open>Bindings\<close>

text \<open>A binding of an embedded type gets a copy of its own.\<close>

definition bind_value :: "bc_unit \<Rightarrow> node \<Rightarrow> u32 emit" where
  "bind_value U init =
     do { reg \<leftarrow> nd_code init;
          if bc_field_is_embedded (un_ck U) (nd_type init) then bc_compile_value_copy U (nd_type init) reg
          else ret reg }"

fun bind_all :: "bc_unit \<Rightarrow> (string \<times> node) list \<Rightarrow> unit emit" where
  "bind_all U [] = ret ()"
| "bind_all U ((name, init) # bs) =
     do { reg \<leftarrow> bind_value U init;
          _ \<leftarrow> bc_bind_local_typed U name (nd_type init) reg;
          bind_all U bs }"

definition bc_let :: "bc_unit \<Rightarrow> (string \<times> node) list \<Rightarrow> u32 emit list \<Rightarrow> u32 emit" where
  "bc_let U bindings body =
     do { mark \<leftarrow> locals_mark; bind_all U bindings; result \<leftarrow> bc_compile_block body; locals_pop mark; ret result }"

definition bc_parallel :: "bc_unit \<Rightarrow> (string \<times> node) list \<Rightarrow> u32 emit list \<Rightarrow> u32 emit" where
  "bc_parallel U captures body =
     do { mark \<leftarrow> locals_mark; bind_all U captures; _ \<leftarrow> bc_compile_block body; locals_pop mark; bc_alloc_reg }"

definition bc_decl :: "bc_unit \<Rightarrow> string \<Rightarrow> type_ref \<Rightarrow> node option \<Rightarrow> u32 emit" where
  "bc_decl U name t init =
     do { reg \<leftarrow> (case init of None \<Rightarrow> bc_compile_zero_value U t | Some e \<Rightarrow> bind_value U e);
          _ \<leftarrow> bc_bind_local_typed U name t reg;
          ret reg }"

definition bc_scratch :: "string \<Rightarrow> u32 emit list \<Rightarrow> u32 emit" where
  "bc_scratch var_name body =
     do { mark \<leftarrow> locals_mark;
          arena_reg \<leftarrow> emit_new (OpArena BcOp_LoadScratchArena) 0 0;
          mark_reg \<leftarrow> emit_new (OpArena BcOp_ArenaMark) arena_reg 0;
          bc_bind_local var_name arena_reg;
          modify (\<lambda>fc. fc\<lparr>fc_scratch_scopes := fc_scratch_scopes fc @
            [\<lparr>ss_arena_reg = arena_reg, ss_mark_reg = mark_reg\<rparr>]\<rparr>);
          result \<leftarrow> bc_compile_block body;
          modify (\<lambda>fc. fc\<lparr>fc_scratch_scopes := butlast (fc_scratch_scopes fc)\<rparr>);
          _ \<leftarrow> bc_emit (OpArena BcOp_ArenaPop) arena_reg mark_reg 0;
          locals_pop mark;
          ret result }"

section \<open>Allocation\<close>

definition bc_push_alloc :: "bc_unit \<Rightarrow> type_ref \<Rightarrow> bool \<Rightarrow> u32 emit \<Rightarrow> u32 emit \<Rightarrow> u32 emit" where
  "bc_push_alloc U elem_type zeroed arena count =
     do { arena_reg \<leftarrow> arena;
          stride \<leftarrow> bc_element_stride U elem_type;
          count_reg \<leftarrow> count;
          stride_reg \<leftarrow> const_reg stride;
          size_reg \<leftarrow> emit_new (OpInt BcOp_Mul) stride_reg count_reg;
          emit_new (OpArena (if zeroed then BcOp_ArenaPushZero else BcOp_ArenaPush)) arena_reg size_reg }"

definition bc_push_copy :: "bc_unit \<Rightarrow> u32 emit \<Rightarrow> node \<Rightarrow> u32 emit" where
  "bc_push_copy U arena value =
     do { arena_reg \<leftarrow> arena;
          l \<leftarrow> layout_for U (nd_type value);
          size_reg \<leftarrow> const_reg (ly_size l);
          dst \<leftarrow> emit_new (OpArena BcOp_ArenaPush) arena_reg size_reg;
          val_reg \<leftarrow> nd_code value;
          bc_store_value U dst 0 (nd_type value) val_reg;
          ret dst }"

definition bc_alloc_expr :: "bc_unit \<Rightarrow> type_ref \<Rightarrow> u32 emit \<Rightarrow> u32 emit" where
  "bc_alloc_expr U elem_type count =
     do { stride \<leftarrow> bc_element_stride U elem_type;
          count_reg \<leftarrow> count;
          stride_reg \<leftarrow> const_reg stride;
          size_reg \<leftarrow> emit_new (OpInt BcOp_Mul) stride_reg count_reg;
          emit_new (OpArena BcOp_Malloc) size_reg 0 }"

definition widen_f32 :: "type_ref \<Rightarrow> u32 \<Rightarrow> u32 emit" where
  "widen_f32 t reg = (if tr_kind t = TypeKind_F32 then emit_new (OpConv BcOp_F32ToF64) reg 0 else ret reg)"

definition bc_checked_math :: "bc_unit \<Rightarrow> string \<Rightarrow> node \<Rightarrow> u32 emit option \<Rightarrow> string \<Rightarrow> string \<Rightarrow> u32 emit" where
  "bc_checked_math U libm_name arg arg2 f32_struct_name f64_struct_name =
     do { arg_reg \<leftarrow> nd_code arg;
          arg_f64 \<leftarrow> widen_f32 (nd_type arg) arg_reg;
          raw \<leftarrow> bc_alloc_reg;
          (if libm_name = ''pow''
           then do { arg2_reg \<leftarrow> (case arg2 of Some e \<Rightarrow> e | None \<Rightarrow> do { xassert False; ret 0 });
                     arg2_f64 \<leftarrow> widen_f32 (nd_type arg) arg2_reg;
                     _ \<leftarrow> bc_emit (OpMath BcOp_Pow) raw arg_f64 arg2_f64;
                     ret () }
           else do { _ \<leftarrow> bc_emit (OpMath (if libm_name = ''sqrt'' then BcOp_Sqrt
                                          else if libm_name = ''asin'' then BcOp_Asin else BcOp_Acos)) raw arg_f64 0;
                     ret () });
          ok_reg \<leftarrow> emit_new (OpMath BcOp_F64IsFinite) raw 0;
          value_reg \<leftarrow> (if nd_kind arg = TypeKind_F32 then emit_new (OpConv BcOp_F64ToF32) raw 0 else ret raw);
          bc_compile_bool_t_result U (if nd_kind arg = TypeKind_F32 then f32_struct_name else f64_struct_name)
            ok_reg value_reg }"

definition bc_parse_number :: "bc_unit \<Rightarrow> type_kind \<Rightarrow> string \<Rightarrow> u32 emit \<Rightarrow> u32 emit" where
  "bc_parse_number U target_kind result_struct_name arg =
     do { str_reg \<leftarrow> arg;
          value_reg \<leftarrow> emit_new (OpText BcOp_ParseNumberValue) str_reg (type_kind_code target_kind);
          ok_reg \<leftarrow> emit_new (OpText BcOp_ParseNumberOk) str_reg (type_kind_code target_kind);
          bc_compile_bool_t_result U result_struct_name ok_reg value_reg }"

section \<open>Dynamic arrays and handles\<close>

text \<open>Whether the element at an address equals the needle, in a new register.\<close>

definition element_equals :: "bc_unit \<Rightarrow> type_ref \<Rightarrow> u32 \<Rightarrow> u32 \<Rightarrow> u32 emit" where
  "element_equals U elem_ty elem_addr_reg needle_reg =
     (if bc_field_is_embedded (un_ck U) elem_ty
      then do { c \<leftarrow> bc_compile_value_cmp U elem_ty elem_addr_reg needle_reg;
                zero_reg \<leftarrow> const_reg 0;
                emit_new (OpCmp BcOp_Eq) c zero_reg }
      else do { elem_val \<leftarrow> load_scalar elem_ty elem_addr_reg 0;
                emit_new (if tr_kind elem_ty = TypeKind_F64 then OpF64Cmp BcOp_FEq
                          else if tr_kind elem_ty = TypeKind_F32 then OpF32Cmp BcOp_F32Eq
                          else OpCmp BcOp_Eq) elem_val needle_reg })"

text \<open>The search loop of \<^verbatim>\<open>vector-index-of\<close> and \<^verbatim>\<open>vector-contains?\<close>: \<open>found\<close> emits what a match
  records, and control ends behind the loop either way.\<close>

definition search_loop ::
  "bc_unit \<Rightarrow> type_ref \<Rightarrow> u32 \<Rightarrow> u32 \<Rightarrow> u32 \<Rightarrow> u32 \<Rightarrow> (u32 \<Rightarrow> unit emit) \<Rightarrow> unit emit" where
  "search_loop U elem_ty vec_reg needle_reg count_reg idx_reg found =
     do { loop_start \<leftarrow> code_size;
          cond_reg \<leftarrow> emit_new (OpCmp BcOp_Lt) idx_reg count_reg;
          jf_done \<leftarrow> bc_emit (OpCtl BcOp_JumpIfFalse) cond_reg 0 0;
          one_reg \<leftarrow> const_reg 1;
          stride \<leftarrow> bc_element_stride U elem_ty;
          stride_reg \<leftarrow> const_reg stride;
          byte_off_reg \<leftarrow> emit_new (OpInt BcOp_Mul) idx_reg stride_reg;
          elem_addr_reg \<leftarrow> emit_new (OpInt BcOp_Add) vec_reg byte_off_reg;
          eq_reg \<leftarrow> element_equals U elem_ty elem_addr_reg needle_reg;
          jf_no_match \<leftarrow> bc_emit (OpCtl BcOp_JumpIfFalse) eq_reg 0 0;
          found one_reg;
          jend \<leftarrow> bc_emit (OpCtl BcOp_Jump) 0 0 0;
          here \<leftarrow> code_size;
          patch_b jf_no_match here;
          next_idx_reg \<leftarrow> emit_new (OpInt BcOp_Add) idx_reg one_reg;
          _ \<leftarrow> bc_emit (OpData BcOp_Move) idx_reg next_idx_reg 0;
          _ \<leftarrow> bc_emit (OpCtl BcOp_Jump) loop_start 0 0;
          here \<leftarrow> code_size;
          patch_b jf_done here;
          patch_a jend here }"

definition bc_index_of :: "bc_unit \<Rightarrow> string \<Rightarrow> node \<Rightarrow> u32 emit \<Rightarrow> u32 emit" where
  "bc_index_of U result_struct_name vec needle =
     do { elem_ty \<leftarrow> pointee_of (nd_type vec);
          vec_reg \<leftarrow> nd_code vec;
          needle_reg \<leftarrow> needle;
          count_reg \<leftarrow> emit_new (OpDyn BcOp_DynCount) vec_reg 0;
          idx_reg \<leftarrow> const_reg 0;
          found_reg \<leftarrow> const_reg 0;
          result_idx_reg \<leftarrow> emit_new (OpData BcOp_Move) count_reg 0;
          search_loop U elem_ty vec_reg needle_reg count_reg idx_reg
            (\<lambda>one_reg. do { _ \<leftarrow> bc_emit (OpData BcOp_Move) found_reg one_reg 0;
                            _ \<leftarrow> bc_emit (OpData BcOp_Move) result_idx_reg idx_reg 0;
                            ret () });
          bc_compile_bool_t_result U result_struct_name found_reg result_idx_reg }"

text \<open>The array a push works on: the register of a local, or the slot of a global and a copy of it.\<close>

definition dyn_push_target :: "bc_unit \<Rightarrow> string \<Rightarrow> (bc_local option \<times> u32) emit" where
  "dyn_push_target U arr_name =
     do { loc \<leftarrow> bc_local_try_lookup arr_name;
          case loc of
            Some l \<Rightarrow> do { xassert (\<not> bl_is_addr_taken l); ret (Some l, 0) }
          | None \<Rightarrow> do { slot \<leftarrow> need (bc_fn_table_try_lookup (un_global_table U) arr_name) 0; ret (None, slot) } }"

definition bc_dyn_push :: "bc_unit \<Rightarrow> string \<Rightarrow> u32 emit \<Rightarrow> node \<Rightarrow> u32 emit" where
  "bc_dyn_push U arr_name arena value =
     do { arena_reg \<leftarrow> arena;
          (loc, global_slot) \<leftarrow> dyn_push_target U arr_name;
          ptr_reg \<leftarrow> (case loc of Some l \<Rightarrow> ret (bl_reg l) | None \<Rightarrow> emit_new (OpData BcOp_LoadGlobal) global_slot 0);
          let elem_ty = nd_type value;
          elem_stride \<leftarrow> bc_element_stride U elem_ty;
          count_reg \<leftarrow> emit_new (OpDyn BcOp_DynCount) ptr_reg 0;
          cap_reg \<leftarrow> emit_new (OpDyn BcOp_DynCapacity) ptr_reg 0;
          need_grow_reg \<leftarrow> emit_new (OpCmp BcOp_Ge) count_reg cap_reg;
          jf_skip_grow \<leftarrow> bc_emit (OpCtl BcOp_JumpIfFalse) need_grow_reg 0 0;
          _ \<leftarrow> bc_emit (OpDyn BcOp_DynGrow) ptr_reg arena_reg (ucast elem_stride);
          (case loc of
             Some l \<Rightarrow> ret ()
           | None \<Rightarrow> do { _ \<leftarrow> bc_emit (OpData BcOp_StoreGlobal) global_slot ptr_reg 0; ret () });
          here \<leftarrow> code_size;
          patch_b jf_skip_grow here;
          value_reg \<leftarrow> nd_code value;
          stride_reg \<leftarrow> const_reg elem_stride;
          byte_off_reg \<leftarrow> emit_new (OpInt BcOp_Mul) count_reg stride_reg;
          elem_addr_reg \<leftarrow> emit_new (OpInt BcOp_Add) ptr_reg byte_off_reg;
          bc_store_value U elem_addr_reg 0 elem_ty value_reg;
          one_reg \<leftarrow> const_reg 1;
          new_count_reg \<leftarrow> emit_new (OpInt BcOp_Add) count_reg one_reg;
          _ \<leftarrow> bc_emit (OpDyn BcOp_DynSetCount) ptr_reg 0 new_count_reg;
          bc_alloc_reg }"

definition bc_commit :: "bc_unit \<Rightarrow> u32 emit \<Rightarrow> node \<Rightarrow> u32 emit" where
  "bc_commit U dst_arena src =
     do { xassert (nd_kind src = TypeKind_Pointer);
          elem_ty \<leftarrow> pointee_of (nd_type src);
          elem_stride \<leftarrow> bc_element_stride U elem_ty;
          dst_arena_reg \<leftarrow> dst_arena;
          src_reg \<leftarrow> nd_code src;
          _ \<leftarrow> bc_emit (OpDyn BcOp_DynCommit) src_reg dst_arena_reg (ucast elem_stride);
          ret src_reg }"

definition pool_register :: "bc_unit \<Rightarrow> string \<Rightarrow> u32 emit" where
  "pool_register U struct_name =
     do { pool_slot \<leftarrow> need (bc_fn_table_try_lookup (un_handle_pool_table U) struct_name) 0;
          emit_new (OpData BcOp_LoadGlobal) pool_slot 0 }"

definition bc_handle_pool_init :: "bc_unit \<Rightarrow> type_ref \<Rightarrow> u32 emit \<Rightarrow> u32 emit \<Rightarrow> u32 emit" where
  "bc_handle_pool_init U t arena capacity =
     do { pool_reg \<leftarrow> pool_register U (tr_name t);
          elem_layout \<leftarrow> layout_for U t;
          stride_reg \<leftarrow> const_reg (ly_size elem_layout);
          _ \<leftarrow> bc_emit (OpHandle BcOp_HandlePoolSetStride) pool_reg stride_reg 0;
          arena_reg \<leftarrow> arena;
          capacity_reg \<leftarrow> capacity;
          _ \<leftarrow> bc_emit (OpHandle BcOp_HandlePoolInit) pool_reg arena_reg capacity_reg;
          bc_alloc_reg }"

definition bc_handle_alloc :: "bc_unit \<Rightarrow> string \<Rightarrow> u32 emit" where
  "bc_handle_alloc U type_name =
     do { pool_reg \<leftarrow> pool_register U type_name; emit_new (OpHandle BcOp_HandleAlloc) pool_reg 0 }"

section \<open>Literals filled in place\<close>

fun bc_compile_struct_fields_into ::
  "bc_unit \<Rightarrow> (string \<times> node) list \<Rightarrow> struct_decl \<Rightarrow> u32 \<Rightarrow> u64 \<Rightarrow> unit emit" where
  "bc_compile_struct_fields_into U [] se base_reg base_offset = ret ()"
| "bc_compile_struct_fields_into U ((name, value) # fis) se base_reg base_offset =
     do { fl \<leftarrow> field_of U se name;
          let field_offset = base_offset + fo_offset fl;
          (if bc_type_is_struct (un_ck U) (fo_type fl)
           then (case nd_fields value of
                   Some fill \<Rightarrow>
                     do { nested_se \<leftarrow> struct_named U (tr_name (fo_type fl)); fill nested_se base_reg field_offset }
                 | None \<Rightarrow>
                     do { l \<leftarrow> layout_for U (fo_type fl);
                          src_reg \<leftarrow> nd_code value;
                          bc_copy_struct_bytes base_reg field_offset src_reg (ly_size l) })
           else if tr_kind (fo_type fl) = TypeKind_String
           then (case nd_text value of
                   Some s \<Rightarrow> bc_fill_string_field U base_reg field_offset s
                 | None \<Rightarrow> do { src_reg \<leftarrow> nd_code value; bc_copy_boxed_string base_reg field_offset src_reg })
           else if tr_kind (fo_type fl) = TypeKind_Array
           then (case nd_elements value of
                   Some fill \<Rightarrow> do { elem_ty \<leftarrow> pointee_of (fo_type fl); fill elem_ty base_reg field_offset }
                 | None \<Rightarrow>
                     do { l \<leftarrow> layout_for U (fo_type fl);
                          src_reg \<leftarrow> nd_code value;
                          bc_copy_struct_bytes base_reg field_offset src_reg (ly_size l) })
           else do { val_reg \<leftarrow> nd_code value; store_scalar (fo_type fl) base_reg field_offset val_reg });
          bc_compile_struct_fields_into U fis se base_reg base_offset }"

fun fill_elements :: "bc_unit \<Rightarrow> node list \<Rightarrow> type_ref \<Rightarrow> u32 \<Rightarrow> u64 \<Rightarrow> u64 \<Rightarrow> unit emit" where
  "fill_elements U [] elem_ty base_reg elem_offset stride = ret ()"
| "fill_elements U (value # vs) elem_ty base_reg elem_offset stride =
     do { (if tr_kind elem_ty = TypeKind_Named \<and> nd_fields value \<noteq> None
           then do { nested_se \<leftarrow> struct_named U (tr_name elem_ty);
                     the (nd_fields value) nested_se base_reg elem_offset }
           else if tr_kind elem_ty = TypeKind_String \<and> nd_text value \<noteq> None
           then bc_fill_string_field U base_reg elem_offset (the (nd_text value))
           else if tr_kind elem_ty = TypeKind_Array \<and> nd_elements value \<noteq> None
           then do { inner_ty \<leftarrow> pointee_of elem_ty; the (nd_elements value) inner_ty base_reg elem_offset }
           else if bc_field_is_embedded (un_ck U) elem_ty
           then bc_unsupported ''an array element of an embedded type (struct/string/array/arena/Map/Set) initialized from anything other than an inline literal''
           else do { val_reg \<leftarrow> nd_code value; store_scalar elem_ty base_reg elem_offset val_reg });
          fill_elements U vs elem_ty base_reg (elem_offset + stride) stride }"

definition bc_compile_array_elements_into ::
  "bc_unit \<Rightarrow> node list \<Rightarrow> type_ref \<Rightarrow> u32 \<Rightarrow> u64 \<Rightarrow> unit emit" where
  "bc_compile_array_elements_into U elements elem_ty base_reg base_offset =
     do { stride \<leftarrow> bc_element_stride U elem_ty; fill_elements U elements elem_ty base_reg base_offset stride }"

definition bc_struct_literal :: "bc_unit \<Rightarrow> string \<Rightarrow> (string \<times> node) list \<Rightarrow> u32 emit" where
  "bc_struct_literal U type_name inits =
     do { se \<leftarrow> struct_named U type_name;
          l \<leftarrow> layout_for U (named_type type_name);
          dst \<leftarrow> alloc_for l;
          bc_compile_struct_fields_into U inits se dst 0;
          ret dst }"

definition bc_array_literal :: "bc_unit \<Rightarrow> type_ref \<Rightarrow> node list \<Rightarrow> u32 emit" where
  "bc_array_literal U arr_ty elements =
     do { xassert (tr_kind arr_ty = TypeKind_Array);
          l \<leftarrow> layout_for U arr_ty;
          dst \<leftarrow> alloc_for l;
          elem_ty \<leftarrow> pointee_of arr_ty;
          bc_compile_array_elements_into U elements elem_ty dst 0;
          ret dst }"

end
