(* ===== verification/Bcgen_Calls.thy ===== *)
theory Bcgen_Calls
  imports Bcgen_Flow
begin

text \<open>
  The \<^verbatim>\<open>Call\<close> case of \<^verbatim>\<open>bc_compile_expr\<close>: the builtins it knows by name, one definition per
  group, and the general call of a function, a module's function or a host import.
\<close>

section \<open>Arguments\<close>

definition arg :: "node list \<Rightarrow> nat \<Rightarrow> node" where
  "arg args i =
     (if i < length args then args ! i
      else Node type_ref_unresolved (do { xassert False; ret 0 }) NoTarget None None None)"

definition void_result :: "u32 emit" where
  "void_result = bc_alloc_reg"

definition bc_compile_size_arg :: "node \<Rightarrow> u32 emit" where
  "bc_compile_size_arg e =
     do { reg \<leftarrow> nd_code e;
          if nd_kind e \<noteq> TypeKind_F32 \<and> nd_kind e \<noteq> TypeKind_F64 then ret reg
          else do { as_f64 \<leftarrow> widen_f32 (nd_type e) reg; emit_new (OpConv BcOp_F64ToInt) as_f64 0 } }"

section \<open>Arenas, handles and lanes\<close>

definition call_create :: "node list \<Rightarrow> u32 emit" where
  "call_create args =
     do { size_reg \<leftarrow> (if length args = 1 then nd_code (arg args 0) else const_reg (64 * 1024 * 1024));
          emit_new (OpArena BcOp_ArenaCreate) size_reg 0 }"

definition call_arena_end :: "bc_arena_op \<Rightarrow> node list \<Rightarrow> u32 emit" where
  "call_arena_end op args =
     do { arena_reg \<leftarrow> nd_code (arg args 0); _ \<leftarrow> bc_emit (OpArena op) arena_reg 0 0; void_result }"

definition call_mark :: "node list \<Rightarrow> u32 emit" where
  "call_mark args = do { arena_reg \<leftarrow> nd_code (arg args 0); emit_new (OpArena BcOp_ArenaMark) arena_reg 0 }"

definition call_pop :: "node list \<Rightarrow> u32 emit" where
  "call_pop args =
     do { arena_reg \<leftarrow> nd_code (arg args 0);
          mark_reg \<leftarrow> nd_code (arg args 1);
          _ \<leftarrow> bc_emit (OpArena BcOp_ArenaPop) arena_reg mark_reg 0;
          void_result }"

definition call_free :: "node list \<Rightarrow> u32 emit" where
  "call_free args =
     do { ptr_reg \<leftarrow> nd_code (arg args 0); _ \<leftarrow> bc_emit (OpArena BcOp_Free) ptr_reg 0 0; void_result }"

definition call_handle :: "bc_unit \<Rightarrow> string \<Rightarrow> node list \<Rightarrow> u32 emit" where
  "call_handle U callee args =
     do { pool_reg \<leftarrow> pool_register U (tr_name (nd_type (arg args 0)));
          handle_reg \<leftarrow> nd_code (arg args 0);
          if callee = ''handle-free'' then emit_new (OpHandle BcOp_HandleFree) pool_reg handle_reg
          else do { ptr_reg \<leftarrow> emit_new (OpHandle BcOp_HandleGet) pool_reg handle_reg;
                    if callee = ''handle-deref'' then ret ptr_reg else truth_of ptr_reg } }"

definition call_dyn_count :: "node list \<Rightarrow> u32 emit" where
  "call_dyn_count args = do { ptr_reg \<leftarrow> nd_code (arg args 0); emit_new (OpDyn BcOp_DynCount) ptr_reg 0 }"

section \<open>Containers\<close>

definition call_swap :: "bc_unit \<Rightarrow> node list \<Rightarrow> u32 emit" where
  "call_swap U args =
     (let a = arg args 0; b = arg args 1; t = nd_type a
      in if bc_field_is_embedded (un_ck U) t
         then do { l \<leftarrow> layout_for U t;
                   a_addr \<leftarrow> nd_code a;
                   b_addr \<leftarrow> nd_code b;
                   tmp_addr \<leftarrow> bc_compile_value_copy U t a_addr;
                   bc_copy_struct_bytes a_addr 0 b_addr (ly_size l);
                   bc_copy_struct_bytes b_addr 0 tmp_addr (ly_size l);
                   void_result }
         else do { a_read \<leftarrow> nd_code a;
                   a_val \<leftarrow> emit_new (OpData BcOp_Move) a_read 0;
                   b_read \<leftarrow> nd_code b;
                   b_val \<leftarrow> emit_new (OpData BcOp_Move) b_read 0;
                   bc_compile_lvalue_write U (nd_target a) t b_val;
                   bc_compile_lvalue_write U (nd_target b) t a_val;
                   void_result })"

definition call_len :: "node list \<Rightarrow> u32 emit" where
  "call_len args =
     do { x_reg \<leftarrow> nd_code (arg args 0);
          if nd_kind (arg args 0) = TypeKind_Array then const_reg (tr_count (nd_type (arg args 0)))
          else if nd_kind (arg args 0) = TypeKind_Vector then emit_new (OpDyn BcOp_DynCount) x_reg 0
          else emit_new (OpLoad BcOp_LoadFieldI64) x_reg 8 }"

definition call_nth_checked :: "bc_unit \<Rightarrow> node list \<Rightarrow> u32 emit" where
  "call_nth_checked U args =
     do { elem_ty \<leftarrow> pointee_of (nd_type (arg args 0));
          stride \<leftarrow> bc_element_stride U elem_ty;
          base_reg \<leftarrow> nd_code (arg args 0);
          idx_reg \<leftarrow> nd_code (arg args 1);
          count_reg \<leftarrow> (if nd_kind (arg args 0) = TypeKind_Array
                        then const_reg (tr_count (nd_type (arg args 0)))
                        else emit_new (OpDyn BcOp_DynCount) base_reg 0);
          in_range_reg \<leftarrow> emit_new (OpCmp BcOp_Lt) idx_reg count_reg;
          jf \<leftarrow> bc_emit (OpCtl BcOp_JumpIfFalse) in_range_reg 0 0;
          result_reg \<leftarrow> bc_alloc_reg;
          stride_reg \<leftarrow> const_reg stride;
          byte_off_reg \<leftarrow> emit_new (OpInt BcOp_Mul) idx_reg stride_reg;
          _ \<leftarrow> bc_emit (OpInt BcOp_Add) result_reg base_reg byte_off_reg;
          jend \<leftarrow> bc_emit (OpCtl BcOp_Jump) 0 0 0;
          here \<leftarrow> code_size;
          patch_b jf here;
          emit_const result_reg 0;
          here \<leftarrow> code_size;
          patch_a jend here;
          ret result_reg }"

definition call_vector_clear :: "node list \<Rightarrow> u32 emit" where
  "call_vector_clear args =
     do { vec_reg \<leftarrow> nd_code (arg args 0);
          jf \<leftarrow> bc_emit (OpCtl BcOp_JumpIfFalse) vec_reg 0 0;
          zero_reg \<leftarrow> const_reg 0;
          _ \<leftarrow> bc_emit (OpDyn BcOp_DynSetCount) vec_reg 0 zero_reg;
          here \<leftarrow> code_size;
          patch_b jf here;
          void_result }"

text \<open>\<open>v[dst] = v[src]\<close> for two index registers.\<close>

definition move_element :: "bc_unit \<Rightarrow> type_ref \<Rightarrow> u32 \<Rightarrow> u32 \<Rightarrow> u32 \<Rightarrow> u32 \<Rightarrow> unit emit" where
  "move_element U elem_ty v stride_reg dst_idx src_idx =
     do { dst_off \<leftarrow> emit_new (OpInt BcOp_Mul) dst_idx stride_reg;
          dst_addr \<leftarrow> emit_new (OpInt BcOp_Add) v dst_off;
          src_off \<leftarrow> emit_new (OpInt BcOp_Mul) src_idx stride_reg;
          src_addr \<leftarrow> emit_new (OpInt BcOp_Add) v src_off;
          src_val \<leftarrow> value_at U elem_ty src_addr;
          bc_store_value U dst_addr 0 elem_ty src_val }"

definition shift_elements :: "bc_unit \<Rightarrow> type_ref \<Rightarrow> u32 \<Rightarrow> u32 \<Rightarrow> u32 \<Rightarrow> u32 \<Rightarrow> u32 \<Rightarrow> unit emit" where
  "shift_elements U elem_ty v stride_reg one_reg index_reg count_reg =
     do { j_reg \<leftarrow> emit_new (OpData BcOp_Move) index_reg 0;
          loop_start \<leftarrow> code_size;
          j_plus_1 \<leftarrow> emit_new (OpInt BcOp_Add) j_reg one_reg;
          loop_cond \<leftarrow> emit_new (OpCmp BcOp_Lt) j_plus_1 count_reg;
          loop_jf \<leftarrow> bc_emit (OpCtl BcOp_JumpIfFalse) loop_cond 0 0;
          move_element U elem_ty v stride_reg j_reg j_plus_1;
          _ \<leftarrow> bc_emit (OpData BcOp_Move) j_reg j_plus_1 0;
          _ \<leftarrow> bc_emit (OpCtl BcOp_Jump) loop_start 0 0;
          here \<leftarrow> code_size;
          patch_b loop_jf here }"

definition call_vector_remove :: "bc_unit \<Rightarrow> bool \<Rightarrow> node list \<Rightarrow> u32 emit" where
  "call_vector_remove U is_swap args =
     do { elem_ty \<leftarrow> pointee_of (nd_type (arg args 0));
          stride \<leftarrow> bc_element_stride U elem_ty;
          v \<leftarrow> nd_code (arg args 0);
          index_reg \<leftarrow> nd_code (arg args 1);
          count_reg \<leftarrow> emit_new (OpDyn BcOp_DynCount) v 0;
          ok_reg \<leftarrow> emit_new (OpCmp BcOp_Lt) index_reg count_reg;
          jf \<leftarrow> bc_emit (OpCtl BcOp_JumpIfFalse) ok_reg 0 0;
          stride_reg \<leftarrow> const_reg stride;
          one_reg \<leftarrow> const_reg 1;
          last_idx_reg \<leftarrow> emit_new (OpInt BcOp_Sub) count_reg one_reg;
          (if is_swap then move_element U elem_ty v stride_reg index_reg last_idx_reg
           else shift_elements U elem_ty v stride_reg one_reg index_reg count_reg);
          _ \<leftarrow> bc_emit (OpDyn BcOp_DynSetCount) v 0 last_idx_reg;
          here \<leftarrow> code_size;
          patch_b jf here;
          ret ok_reg }"

definition call_vector_contains :: "bc_unit \<Rightarrow> node list \<Rightarrow> u32 emit" where
  "call_vector_contains U args =
     do { elem_ty \<leftarrow> pointee_of (nd_type (arg args 0));
          vec_reg \<leftarrow> nd_code (arg args 0);
          needle_reg \<leftarrow> nd_code (arg args 1);
          count_reg \<leftarrow> emit_new (OpDyn BcOp_DynCount) vec_reg 0;
          idx_reg \<leftarrow> const_reg 0;
          found_reg \<leftarrow> const_reg 0;
          search_loop U elem_ty vec_reg needle_reg count_reg idx_reg
            (\<lambda>one_reg. do { _ \<leftarrow> bc_emit (OpData BcOp_Move) found_reg one_reg 0; ret () });
          ret found_reg }"

section \<open>Maps and sets\<close>

definition coll_slot_layout :: "bc_unit \<Rightarrow> bool \<Rightarrow> type_ref \<Rightarrow> (type_ref \<times> type_ref \<times> bc_hash_slot_layout) emit" where
  "coll_slot_layout U is_map coll_ty =
     do { key_ty \<leftarrow> (if is_map then map_key_of coll_ty else pointee_of coll_ty);
          value_ty \<leftarrow> (if is_map then pointee_of coll_ty else ret type_ref_unresolved);
          l \<leftarrow> slot_layout_for U key_ty (if is_map then Some value_ty else None);
          ret (key_ty, value_ty, l) }"

definition layout_register :: "bc_unit \<Rightarrow> bc_hash_slot_layout \<Rightarrow> u32 emit" where
  "layout_register U l =
     do { layout_reg \<leftarrow> bc_alloc_reg;
          c \<leftarrow> bc_add_layout_const U l;
          _ \<leftarrow> bc_emit (OpData BcOp_LoadConst) layout_reg c 0;
          ret layout_reg }"

definition bc_compile_map_key_args :: "bc_unit \<Rightarrow> node \<Rightarrow> node \<Rightarrow> u32 emit" where
  "bc_compile_map_key_args U coll key =
     do { (key_ty, value_ty, l) \<leftarrow> coll_slot_layout U (nd_kind coll = TypeKind_Map) (nd_type coll);
          coll_reg \<leftarrow> nd_code coll;
          key_val \<leftarrow> nd_code key;
          key_ptr \<leftarrow> bc_compile_addr_of U key_ty key_val;
          layout_reg \<leftarrow> layout_register U l;
          arg_block [coll_reg, key_ptr, layout_reg] }"

definition call_map_set :: "bc_unit \<Rightarrow> bool \<Rightarrow> node list \<Rightarrow> u32 emit" where
  "call_map_set U is_map args =
     do { (key_ty, value_ty, l) \<leftarrow> coll_slot_layout U is_map (nd_type (arg args 1));
          coll_reg \<leftarrow> nd_code (arg args 1);
          arena_reg \<leftarrow> nd_code (arg args 0);
          key_val \<leftarrow> nd_code (arg args 2);
          key_ptr \<leftarrow> bc_compile_addr_of U key_ty key_val;
          value_ptr \<leftarrow> (if is_map then do { value_val \<leftarrow> nd_code (arg args 3); bc_compile_addr_of U value_ty value_val }
                        else ret key_ptr);
          layout_reg \<leftarrow> layout_register U l;
          arg_first \<leftarrow> arg_block [coll_reg, arena_reg, key_ptr, value_ptr, layout_reg];
          emit_new (OpMap BcOp_MapSet) arg_first 0 }"

definition call_map_get :: "bc_unit \<Rightarrow> node list \<Rightarrow> u32 emit" where
  "call_map_get U args =
     do { arg_first \<leftarrow> bc_compile_map_key_args U (arg args 0) (arg args 1);
          emit_new (OpMap BcOp_MapGet) arg_first 0 }"

definition call_map_contains :: "bc_unit \<Rightarrow> node list \<Rightarrow> u32 emit" where
  "call_map_contains U args =
     do { arg_first \<leftarrow> bc_compile_map_key_args U (arg args 0) (arg args 1);
          ptr_reg \<leftarrow> emit_new (OpMap BcOp_MapGet) arg_first 0;
          truth_of ptr_reg }"

definition call_map_remove :: "bc_unit \<Rightarrow> node list \<Rightarrow> u32 emit" where
  "call_map_remove U args =
     do { arg_first \<leftarrow> bc_compile_map_key_args U (arg args 0) (arg args 1);
          emit_new (OpMap BcOp_MapRemove) arg_first 0 }"

section \<open>Strings, numbers and memory\<close>

definition call_string_match :: "node list \<Rightarrow> u32 emit" where
  "call_string_match args =
     do { a_reg \<leftarrow> nd_code (arg args 0);
          b_reg \<leftarrow> nd_code (arg args 1);
          flags_reg \<leftarrow> nd_code (arg args 2);
          arg_first \<leftarrow> arg_block [a_reg, b_reg, flags_reg];
          emit_new (OpText BcOp_StringMatch) arg_first 0 }"

definition call_abs :: "node list \<Rightarrow> u32 emit" where
  "call_abs args =
     (let t = nd_type (arg args 0)
      in do { x \<leftarrow> nd_code (arg args 0);
              zero_reg \<leftarrow> const_reg 0;
              lt_reg \<leftarrow> emit_new (bc_typed_op_for_kind t BinaryLt) x zero_reg;
              neg_reg \<leftarrow> emit_new (bc_typed_op_for_kind t BinarySub) zero_reg x;
              bc_compile_select lt_reg neg_reg x })"

definition call_clamp :: "node list \<Rightarrow> u32 emit" where
  "call_clamp args =
     (let t = nd_type (arg args 0)
      in do { x \<leftarrow> nd_code (arg args 0);
              lo \<leftarrow> nd_code (arg args 1);
              hi \<leftarrow> nd_code (arg args 2);
              gt_reg \<leftarrow> emit_new (bc_typed_op_for_kind t BinaryGt) x hi;
              inner \<leftarrow> bc_compile_select gt_reg hi x;
              lt_reg \<leftarrow> emit_new (bc_typed_op_for_kind t BinaryLt) x lo;
              bc_compile_select lt_reg lo inner })"

definition call_min_max :: "bool \<Rightarrow> node list \<Rightarrow> u32 emit" where
  "call_min_max want_lt args =
     (let t = nd_type (arg args 0)
      in do { x \<leftarrow> nd_code (arg args 0);
              b \<leftarrow> nd_code (arg args 1);
              cmp_reg \<leftarrow> emit_new (bc_typed_op_for_kind t (if want_lt then BinaryLt else BinaryGt)) x b;
              bc_compile_select cmp_reg x b })"

definition call_mem_compare :: "node list \<Rightarrow> u32 emit" where
  "call_mem_compare args =
     do { a_ptr \<leftarrow> nd_code (arg args 0);
          b_ptr \<leftarrow> nd_code (arg args 1);
          size_reg \<leftarrow> bc_compile_size_arg (arg args 2);
          arg_first \<leftarrow> arg_block [a_ptr, b_ptr, size_reg];
          emit_new (OpRaw BcOp_MemCompare) 0 arg_first }"

definition call_mem_zero :: "node list \<Rightarrow> u32 emit" where
  "call_mem_zero args =
     do { ptr \<leftarrow> nd_code (arg args 0);
          size_reg \<leftarrow> bc_compile_size_arg (arg args 1);
          _ \<leftarrow> bc_emit (OpRaw BcOp_MemZero) ptr size_reg 0;
          void_result }"

definition call_mem_write :: "bool \<Rightarrow> node list \<Rightarrow> u32 emit" where
  "call_mem_write is_set args =
     do { ptr \<leftarrow> nd_code (arg args 0);
          second \<leftarrow> (if is_set then bc_compile_size_arg (arg args 1) else nd_code (arg args 1));
          size_reg \<leftarrow> bc_compile_size_arg (arg args 2);
          _ \<leftarrow> bc_emit (OpRaw (if is_set then BcOp_MemSet else BcOp_MemCopy)) ptr second size_reg;
          void_result }"

definition call_trig :: "string \<Rightarrow> node list \<Rightarrow> u32 emit" where
  "call_trig callee args =
     (let t = nd_type (arg args 0)
      in do { arg1 \<leftarrow> nd_code (arg args 0);
              arg1_64 \<leftarrow> widen_f32 t arg1;
              raw \<leftarrow> bc_alloc_reg;
              (if callee = ''atan2''
               then do { arg2 \<leftarrow> nd_code (arg args 1);
                         arg2_64 \<leftarrow> widen_f32 t arg2;
                         _ \<leftarrow> bc_emit (OpMath BcOp_Atan2) raw arg1_64 arg2_64;
                         ret () }
               else do { _ \<leftarrow> bc_emit (OpMath (if callee = ''sin'' then BcOp_Sin else BcOp_Cos)) raw arg1_64 0;
                         ret () });
              if tr_kind t = TypeKind_F32 then emit_new (OpConv BcOp_F64ToF32) raw 0 else ret raw })"

definition call_align :: "string \<Rightarrow> node list \<Rightarrow> u32 emit" where
  "call_align callee args =
     do { x \<leftarrow> nd_code (arg args 0);
          b \<leftarrow> nd_code (arg args 1);
          one_reg \<leftarrow> const_reg 1;
          b_minus_1 \<leftarrow> emit_new (OpInt BcOp_Sub) b one_reg;
          if callee = ''align-pow2''
          then do { not_b_minus_1 \<leftarrow> emit_new (OpData BcOp_BitNot) b_minus_1 0;
                    x_plus \<leftarrow> emit_new (OpInt BcOp_Add) x b_minus_1;
                    emit_new (OpInt BcOp_BitAnd) x_plus not_b_minus_1 }
          else if callee = ''align-down-pow2''
          then do { not_b_minus_1 \<leftarrow> emit_new (OpData BcOp_BitNot) b_minus_1 0;
                    emit_new (OpInt BcOp_BitAnd) x not_b_minus_1 }
          else do { zero_reg \<leftarrow> const_reg 0;
                    neg_x \<leftarrow> emit_new (OpInt BcOp_Sub) zero_reg x;
                    emit_new (OpInt BcOp_BitAnd) neg_x b_minus_1 } }"

section \<open>Printing\<close>

text \<open>Pass 1: every value in source order, each in a register nothing else writes.\<close>

definition print_value :: "bc_unit \<Rightarrow> node \<Rightarrow> u32 emit" where
  "print_value U e =
     do { reg \<leftarrow> nd_code e;
          if nd_kind e = TypeKind_F32 then emit_new (OpConv BcOp_F32ToF64) reg 0
          else if nd_kind e = TypeKind_String then bc_compile_value_copy U (nd_type e) reg
          else emit_new (OpData BcOp_Move) reg 0 }"

fun print_values :: "bc_unit \<Rightarrow> node list \<Rightarrow> (type_kind \<times> u32) list emit" where
  "print_values U [] = ret []"
| "print_values U (e # es) =
     do { reg \<leftarrow> print_value U e; rest \<leftarrow> print_values U es; ret ((nd_kind e, reg) # rest) }"

definition print_op :: "type_kind \<Rightarrow> bc_print_op option" where
  "print_op k =
     (case k of
        TypeKind_Pointer \<Rightarrow> Some BcOp_PrintCString
      | TypeKind_I8 \<Rightarrow> Some BcOp_PrintI64 | TypeKind_I16 \<Rightarrow> Some BcOp_PrintI64
      | TypeKind_I32 \<Rightarrow> Some BcOp_PrintI64 | TypeKind_I64 \<Rightarrow> Some BcOp_PrintI64
      | TypeKind_U8 \<Rightarrow> Some BcOp_PrintU64 | TypeKind_U16 \<Rightarrow> Some BcOp_PrintU64
      | TypeKind_U32 \<Rightarrow> Some BcOp_PrintU64 | TypeKind_U64 \<Rightarrow> Some BcOp_PrintU64
      | TypeKind_F32 \<Rightarrow> Some BcOp_PrintF64 | TypeKind_F64 \<Rightarrow> Some BcOp_PrintF64
      | TypeKind_Bool \<Rightarrow> Some BcOp_PrintBool | TypeKind_Char \<Rightarrow> Some BcOp_PrintChar
      | TypeKind_String \<Rightarrow> Some BcOp_PrintString | _ \<Rightarrow> None)"

definition print_chunk :: "bc_unit \<Rightarrow> u32 \<Rightarrow> u32 \<Rightarrow> string \<Rightarrow> unit emit" where
  "print_chunk U stream_reg has_stream chunk =
     (if chunk = [] then ret ()
      else do { lit \<leftarrow> bc_compile_string_literal U chunk;
                _ \<leftarrow> bc_emit (OpPrint BcOp_PrintString) lit stream_reg has_stream;
                ret () })"

definition print_one :: "u32 \<Rightarrow> u32 \<Rightarrow> type_kind \<times> u32 \<Rightarrow> unit emit" where
  "print_one stream_reg has_stream v =
     do { op \<leftarrow> need (print_op (fst v)) BcOp_PrintI64; _ \<leftarrow> bc_emit (OpPrint op) (snd v) stream_reg has_stream; ret () }"

text \<open>Pass 2 over the template; \<open>chunk\<close> is the literal text since the last flush.\<close>

function print_template :: "bc_unit \<Rightarrow> u32 \<Rightarrow> u32 \<Rightarrow> string \<Rightarrow> string \<Rightarrow> (type_kind \<times> u32) list \<Rightarrow> unit emit" where
  "print_template U stream_reg has_stream [] chunk vs = print_chunk U stream_reg has_stream chunk"
| "print_template U stream_reg has_stream (c # cs) chunk vs =
     (if c = CHR ''{'' \<and> cs \<noteq> [] \<and> hd cs = CHR ''{''
      then print_template U stream_reg has_stream (tl cs) (chunk @ [CHR ''{'']) vs
      else if c = CHR ''}'' \<and> cs \<noteq> [] \<and> hd cs = CHR ''}''
      then print_template U stream_reg has_stream (tl cs) (chunk @ [CHR ''}'']) vs
      else if c = CHR ''{''
      then do { print_chunk U stream_reg has_stream chunk;
                v \<leftarrow> (case vs of [] \<Rightarrow> do { xassert False; ret (TypeKind_I64, 0) } | w # ws \<Rightarrow> ret w);
                print_one stream_reg has_stream v;
                print_template U stream_reg has_stream (tl cs) [] (tl vs) }
      else print_template U stream_reg has_stream cs (chunk @ [c]) vs)"
  by pat_completeness auto

termination
  by (relation "measure (\<lambda>(U, s, h, cs, chunk, vs). length cs)") auto

definition call_print :: "bc_unit \<Rightarrow> bool \<Rightarrow> node list \<Rightarrow> u32 emit" where
  "call_print U is_println args =
     (let has = (args \<noteq> [] \<and> nd_kind (arg args 0) = TypeKind_Stream);
          tmpl_arg = (if has then 1 else 0 :: nat);
          has_stream = (if has then 1 else 0 :: u32)
      in do { stream_reg \<leftarrow> (if has then nd_code (arg args 0) else ret 0);
              tmpl \<leftarrow> need (nd_text (arg args tmpl_arg)) [];
              vs \<leftarrow> print_values U (drop (tmpl_arg + 1) args);
              print_template U stream_reg has_stream tmpl [] vs;
              (if is_println then print_chunk U stream_reg has_stream [CHR 0x0A] else ret ());
              void_result })"

section \<open>The general call\<close>

definition pass_value :: "bc_unit \<Rightarrow> node \<Rightarrow> u32 emit" where
  "pass_value U e =
     do { arg_reg \<leftarrow> nd_code e;
          if bc_type_is_struct (un_ck U) (nd_type e) \<or> nd_kind e = TypeKind_String
          then bc_compile_value_copy U (nd_type e) arg_reg else ret arg_reg }"

fun pass_args :: "bc_unit \<Rightarrow> u32 \<Rightarrow> node list \<Rightarrow> unit emit" where
  "pass_args U slot [] = ret ()"
| "pass_args U slot (e # es) =
     do { arg_reg \<leftarrow> pass_value U e;
          _ \<leftarrow> bc_emit (OpData BcOp_Move) slot arg_reg 0;
          pass_args U (slot + 1) es }"

definition call_general :: "bc_unit \<Rightarrow> string \<Rightarrow> node list \<Rightarrow> u32 emit" where
  "call_general U callee args =
     do { arg_first \<leftarrow> reserve (length args);
          pass_args U arg_first args;
          dst \<leftarrow> bc_alloc_reg;
          loc \<leftarrow> bc_local_try_lookup callee;
          (case bc_fn_table_try_lookup (un_fn_table U) callee of
             Some i \<Rightarrow> do { _ \<leftarrow> bc_emit (OpCtl BcOp_Call) dst i arg_first; ret () }
           | None \<Rightarrow>
          (case bc_module_table_try_lookup (un_module_table U) callee of
             Some i \<Rightarrow> do { _ \<leftarrow> bc_emit (OpCtl BcOp_CallModule) dst i arg_first; ret () }
           | None \<Rightarrow>
          (case bc_host_import_try_lookup (un_host_imports U) callee of
             Some i \<Rightarrow> do { _ \<leftarrow> bc_emit (OpCtl BcOp_CallHost) dst i arg_first; ret () }
           | None \<Rightarrow>
               if loc \<noteq> None
               then bc_unsupported ''an indirect call through a function-valued local or parameter -- this bytecode compiler slice has no indirect-call opcode''
               else bc_unsupported (''call to `'' @ callee @ ''` -- this program has no compiled function or registered host import by that name''))));
          ret dst }"

section \<open>Dispatch\<close>

definition call_memory :: "bc_unit \<Rightarrow> string \<Rightarrow> node list \<Rightarrow> u32 emit option" where
  "call_memory U callee args =
     (if callee = ''create'' then Some (call_create args)
      else if callee = ''destroy'' then Some (call_arena_end BcOp_ArenaDestroy args)
      else if callee = ''reset'' then Some (call_arena_end BcOp_ArenaReset args)
      else if callee = ''release'' then Some (call_arena_end BcOp_ArenaRelease args)
      else if callee = ''mark'' then Some (call_mark args)
      else if callee = ''pop'' then Some (call_pop args)
      else if callee = ''free'' then Some (call_free args)
      else if callee \<in> {''handle-deref'', ''handle-free'', ''handle-valid?''} then Some (call_handle U callee args)
      else if callee = ''lane-index'' then Some (const_reg 0)
      else if callee = ''lane-count'' then Some (const_reg 1)
      else if callee = ''lane-sync'' then Some void_result
      else if callee = ''lane-arena'' then Some (emit_new (OpArena BcOp_LoadScratchArena) 0 0)
      else if callee = ''dyn-count'' then Some (call_dyn_count args)
      else None)"

definition call_container :: "bc_unit \<Rightarrow> string \<Rightarrow> node list \<Rightarrow> u32 emit option" where
  "call_container U callee args =
     (let n = length args
      in if callee = ''swap'' then Some (call_swap U args)
      else if callee = ''len'' then Some (call_len args)
      else if callee = ''nth-checked'' then Some (call_nth_checked U args)
      else if callee = ''vector-clear'' \<and> n = 1 then Some (call_vector_clear args)
      else if callee = ''vector-swap-remove'' \<and> n = 2 then Some (call_vector_remove U True args)
      else if callee = ''vector-remove-at'' \<and> n = 2 then Some (call_vector_remove U False args)
      else if callee = ''vector-contains?'' \<and> n = 2 then Some (call_vector_contains U args)
      else if callee = ''map-set'' \<and> n = 4 then Some (call_map_set U True args)
      else if callee = ''set-add'' \<and> n = 3 then Some (call_map_set U False args)
      else if callee = ''map-get'' \<and> n = 2 then Some (call_map_get U args)
      else if callee \<in> {''map-contains?'', ''set-contains?''} \<and> n = 2 then Some (call_map_contains U args)
      else if callee \<in> {''map-remove'', ''set-remove''} \<and> n = 2 then Some (call_map_remove U args)
      else None)"

definition call_value :: "bc_unit \<Rightarrow> string \<Rightarrow> node list \<Rightarrow> u32 emit option" where
  "call_value U callee args =
     (let n = length args
      in if callee = ''string-match'' \<and> n = 3 then Some (call_string_match args)
      else if callee = ''abs'' \<and> n = 1 then Some (call_abs args)
      else if callee = ''clamp'' \<and> n = 3 then Some (call_clamp args)
      else if callee \<in> {''min'', ''clamp-top''} \<and> n = 2 then Some (call_min_max True args)
      else if callee \<in> {''max'', ''clamp-bot''} \<and> n = 2 then Some (call_min_max False args)
      else if callee = ''mem-compare'' \<and> n = 3 then Some (call_mem_compare args)
      else if callee = ''mem-zero'' \<and> n = 2 then Some (call_mem_zero args)
      else if callee = ''mem-set'' \<and> n = 3 then Some (call_mem_write True args)
      else if callee = ''mem-copy'' \<and> n = 3 then Some (call_mem_write False args)
      else if callee \<in> {''sin'', ''cos''} \<and> n = 1 \<or> callee = ''atan2'' \<and> n = 2 then Some (call_trig callee args)
      else if callee \<in> {''align-pow2'', ''align-down-pow2'', ''align-pad-pow2''} \<and> n = 2 then Some (call_align callee args)
      else if callee = ''print'' then Some (call_print U False args)
      else if callee = ''println'' then Some (call_print U True args)
      else None)"

definition bc_call :: "bc_unit \<Rightarrow> string \<Rightarrow> node list \<Rightarrow> u32 emit" where
  "bc_call U callee args =
     (case call_memory U callee args of Some c \<Rightarrow> c | None \<Rightarrow>
      (case call_container U callee args of Some c \<Rightarrow> c | None \<Rightarrow>
       (case call_value U callee args of Some c \<Rightarrow> c | None \<Rightarrow> call_general U callee args)))"

end
