(* ===== verification/Bcgen.thy ===== *)
theory Bcgen
  imports Bcgen_Calls
begin

text \<open>
  \<^verbatim>\<open>bc_compile_expr\<close> as a whole, the chunks of \<^verbatim>\<open>bcgen.c\<close> (functions, struct comparators and
  \<^verbatim>\<open>#init_globals\<close>), and \<^verbatim>\<open>bc_compile_program\<close>, which reserves the index spaces and compiles them
  in order.
\<close>

section \<open>Expressions\<close>

definition bc_leaf :: "bc_unit \<Rightarrow> type_ref \<Rightarrow> leaf_kind \<Rightarrow> u32 emit" where
  "bc_leaf U t k =
     (case k of
        IntLiteral v \<Rightarrow> const_reg v
      | FloatLiteral v \<Rightarrow> bc_float_literal U t v
      | BoolLiteral b \<Rightarrow> const_reg (if b then 1 else 0)
      | NilLiteral \<Rightarrow> const_reg 0
      | StringLiteral s \<Rightarrow> bc_compile_string_literal U s
      | EnumAccess enum_name variant_name \<Rightarrow> bc_enum_access U enum_name variant_name
      | Identifier name \<Rightarrow> bc_identifier U t name
      | SizeofExpr q \<Rightarrow> bc_sizeof U q
      | AlignofExpr q \<Rightarrow> bc_alignof U q
      | MemberOffsetExpr q field \<Rightarrow> bc_member_offset U q field
      | ZeroExpr q \<Rightarrow> bc_compile_zero_value U q
      | HandleAlloc type_name \<Rightarrow> bc_handle_alloc U type_name
      | BreakExpr \<Rightarrow> bc_break
      | ContinueExpr \<Rightarrow> bc_continue
      | OtherExpr \<Rightarrow> do { bc_unsupported ''this construct''; bc_alloc_reg })"

definition bc_unary :: "bc_unit \<Rightarrow> type_ref \<Rightarrow> unary_kind \<Rightarrow> node \<Rightarrow> u32 emit" where
  "bc_unary U t k e =
     (case k of
        UnaryPos \<Rightarrow> nd_code e
      | UnaryNeg \<Rightarrow> bc_neg t (nd_type e) (nd_code e)
      | UnaryBitNot \<Rightarrow> bc_bit_not t (nd_code e)
      | LogicalNot \<Rightarrow> bc_not (nd_code e)
      | BinaryCast \<Rightarrow> bc_cast t (nd_type e) (nd_code e)
      | BinaryReinterpret \<Rightarrow> bc_reinterpret t (nd_code e)
      | StringLenExpr \<Rightarrow> bc_string_len (nd_code e)
      | CstrExpr \<Rightarrow> bc_cstr (nd_code e)
      | UnaryDeref \<Rightarrow> bc_deref U (nd_type e) (nd_code e)
      | UnaryAddr \<Rightarrow> bc_addr U e
      | FieldAccess field \<Rightarrow> bc_field_access U (nd_type e) (nd_code e) field
      | AllocExpr elem_type \<Rightarrow> bc_alloc_expr U elem_type (nd_code e)
      | ParseNumber target_kind result_struct_name \<Rightarrow> bc_parse_number U target_kind result_struct_name (nd_code e))"

definition bc_binary :: "bc_unit \<Rightarrow> type_ref \<Rightarrow> binary_kind \<Rightarrow> node \<Rightarrow> node \<Rightarrow> u32 emit" where
  "bc_binary U t k l r =
     (case k of
        Arith kind \<Rightarrow> bc_arith U t kind (nd_type l) (nd_code l) (nd_code r)
      | Bitwise kind \<Rightarrow> bc_bitwise t kind (nd_type l) (nd_code l) (nd_code r)
      | LogicalAnd \<Rightarrow> bc_and (nd_code l) (nd_code r)
      | LogicalOr \<Rightarrow> bc_or (nd_code l) (nd_code r)
      | IndexAccess \<Rightarrow> bc_index_access U (nd_type l) (nd_code l) (nd_code r)
      | SetExpr \<Rightarrow> bc_set U t (nd_target l) (nd_code r)
      | PushAlloc elem_type zeroed \<Rightarrow> bc_push_alloc U elem_type zeroed (nd_code l) (nd_code r)
      | PushCopy \<Rightarrow> bc_push_copy U (nd_code l) r
      | IndexOf result_struct_name \<Rightarrow> bc_index_of U result_struct_name l (nd_code r)
      | DynPush arr_name \<Rightarrow> bc_dyn_push U (case arr_name of Some n \<Rightarrow> n | None \<Rightarrow> []) (nd_code l) r
      | CommitExpr \<Rightarrow> bc_commit U (nd_code l) r
      | HandlePoolInit q \<Rightarrow> bc_handle_pool_init U q (nd_code l) (nd_code r))"

definition plain :: "ann \<Rightarrow> u32 emit \<Rightarrow> node" where
  "plain a c = Node (an_type a) c NoTarget None None None"

definition unary_target :: "unary_kind \<Rightarrow> node \<Rightarrow> target" where
  "unary_target k e =
     (case k of
        UnaryDeref \<Rightarrow> DerefTarget (nd_type e) (nd_code e)
      | FieldAccess field \<Rightarrow> FieldTarget (nd_type e) (nd_code e) field
      | _ \<Rightarrow> NoTarget)"

fun compile_node :: "bc_unit \<Rightarrow> texpr \<Rightarrow> node" where
  "compile_node U (Leaf a k) =
     Node (an_type a) (bc_leaf U (an_type a) k)
       (case k of Identifier name \<Rightarrow> NameTarget name | _ \<Rightarrow> NoTarget)
       (case k of StringLiteral s \<Rightarrow> Some s | _ \<Rightarrow> None) None None"
| "compile_node U (Unary a k e) =
     Node (an_type a) (bc_unary U (an_type a) k (compile_node U e)) (unary_target k (compile_node U e)) None None None"
| "compile_node U (Binary a k l r) =
     Node (an_type a) (bc_binary U (an_type a) k (compile_node U l) (compile_node U r))
       (if k = IndexAccess
        then IndexTarget (nd_type (compile_node U l)) (nd_code (compile_node U l)) (nd_code (compile_node U r))
        else NoTarget) None None None"
| "compile_node U (IfExpr a c t e) =
     plain a (bc_if (nd_code (compile_node U c)) (nd_code (compile_node U t))
       (map_option (\<lambda>x. nd_code (compile_node U x)) e))"
| "compile_node U (WhileExpr a c body) =
     plain a (bc_while (nd_code (compile_node U c)) (map (\<lambda>x. nd_code (compile_node U x)) body))"
| "compile_node U (ForCExpr a var init c expr body) =
     plain a (bc_for_c var (nd_code (compile_node U init)) (nd_code (compile_node U c))
       (nd_code (compile_node U expr)) (map (\<lambda>x. nd_code (compile_node U x)) body))"
| "compile_node U (ForRangeExpr a var b e s body) =
     plain a (bc_for_range var (nd_type (compile_node U b)) (nd_code (compile_node U b))
       (nd_code (compile_node U e)) (nd_code (compile_node U s)) (map (\<lambda>x. nd_code (compile_node U x)) body))"
| "compile_node U (ForEachExpr a index_name elem_name coll body) =
     plain a ((if nd_kind (compile_node U coll) = TypeKind_Map \<or> nd_kind (compile_node U coll) = TypeKind_Set
               then bc_for_each_slot else bc_for_each) U index_name elem_name
       (nd_type (compile_node U coll)) (nd_code (compile_node U coll)) (map (\<lambda>x. nd_code (compile_node U x)) body))"
| "compile_node U (LetExpr a bindings body) =
     plain a (bc_let U (map (\<lambda>(n, x). (n, compile_node U x)) bindings) (map (\<lambda>x. nd_code (compile_node U x)) body))"
| "compile_node U (ParallelExpr a captures body) =
     plain a (bc_parallel U (map (\<lambda>(n, x). (n, compile_node U x)) captures) (map (\<lambda>x. nd_code (compile_node U x)) body))"
| "compile_node U (ParallelForExpr a var count body) =
     plain a (bc_parallel_for var (nd_type (compile_node U count)) (nd_code (compile_node U count))
       (map (\<lambda>x. nd_code (compile_node U x)) body))"
| "compile_node U (ScratchExpr a var body) =
     plain a (bc_scratch var (map (\<lambda>x. nd_code (compile_node U x)) body))"
| "compile_node U (CheckedMath a libm_name x y f32_name f64_name) =
     plain a (bc_checked_math U libm_name (compile_node U x) (map_option (\<lambda>z. nd_code (compile_node U z)) y)
       f32_name f64_name)"
| "compile_node U (ReturnExpr a e) =
     plain a (bc_return_expr (map_option (\<lambda>x. nd_code (compile_node U x)) e))"
| "compile_node U (Decl a kind name t init) =
     plain a (bc_decl U name t (map_option (compile_node U) init))"
| "compile_node U (Block a stmts) =
     plain a (bc_compile_block (map (\<lambda>x. nd_code (compile_node U x)) stmts))"
| "compile_node U (StructLiteral a type_name inits) =
     (let fis = map (\<lambda>(n, x). (n, compile_node U x)) inits
      in Node (an_type a) (bc_struct_literal U type_name fis) NoTarget None
           (Some (bc_compile_struct_fields_into U fis)) None)"
| "compile_node U (ArrayLiteral a elements) =
     (let es = map (compile_node U) elements
      in Node (an_type a) (bc_array_literal U (an_type a) es) NoTarget None None
           (Some (bc_compile_array_elements_into U es)))"
| "compile_node U (Call a callee args) =
     plain a (bc_call U callee (map (compile_node U) args))"

definition bc_compile_expr :: "bc_unit \<Rightarrow> texpr \<Rightarrow> u32 emit" where
  "bc_compile_expr U e = nd_code (compile_node U e)"

section \<open>Chunks\<close>

text \<open>The layout cache and the arena the constants point into are shared by all chunks.\<close>

definition bc_fn_ctx_init :: "layout_cache \<times> nat \<Rightarrow> bc_fn_ctx" where
  "bc_fn_ctx_init shared =
     \<lparr>fc_code = [], fc_consts = [], fc_next_reg = 0, fc_locals = [], fc_string_fixups = [],
      fc_layout_fixups = [], fc_break_fixups = [], fc_continue_fixups = [], fc_scratch_scopes = [],
      fc_loop_scratch_mark = 0, fc_layouts = fst shared, fc_placed = snd shared, fc_stopped = None\<rparr>"

text \<open>A compiled chunk is its name, the number of its parameters and the context it was compiled in.\<close>

record compiled =
  co_name :: string
  co_param_count :: nat
  co_context :: bc_fn_ctx

definition chunk_of :: "compiled \<Rightarrow> bc_chunk" where
  "chunk_of c =
     (let fc = co_context c
      in \<lparr>ch_code = fc_code fc, ch_consts = fc_consts fc, ch_num_registers = of_nat (fc_next_reg fc),
          ch_param_count = of_nat (co_param_count c), ch_name = co_name c,
          ch_string_fixups = fc_string_fixups fc, ch_layout_fixups = fc_layout_fixups fc\<rparr>)"

fun bind_params :: "bc_unit \<Rightarrow> u32 \<Rightarrow> param list \<Rightarrow> unit emit" where
  "bind_params U i [] = ret ()"
| "bind_params U i (p # ps) =
     do { _ \<leftarrow> bc_bind_local_typed U (pa_name p) (pa_type p) i; bind_params U (i + 1) ps }"

text \<open>The statements of a function body: the last one's value is returned unless the function is
  void or the statement diverges.\<close>

fun function_stmts :: "bc_unit \<Rightarrow> bool \<Rightarrow> texpr list \<Rightarrow> unit emit" where
  "function_stmts U is_void [] = ret ()"
| "function_stmts U is_void (s # ss) =
     do { reg \<leftarrow> bc_compile_expr U s;
          (if ss = [] \<and> \<not> is_void \<and> te_kind s \<noteq> TypeKind_Unresolved
           then do { _ \<leftarrow> bc_emit (OpCtl BcOp_Return) reg 0 0; ret () } else ret ());
          function_stmts U is_void ss }"

definition function_code :: "bc_unit \<Rightarrow> function_decl \<Rightarrow> unit emit" where
  "function_code U fd =
     do { _ \<leftarrow> reserve (length (fd_params fd));
          bind_params U 0 (fd_params fd);
          let is_void = (tr_kind (fd_return_type fd) = TypeKind_Void);
          function_stmts U is_void (fd_body fd);
          if is_void then do { _ \<leftarrow> bc_emit (OpCtl BcOp_ReturnVoid) 0 0 0; ret () } else ret () }"

text \<open>Running a chunk's action from an empty context, with what stopped the compilation, if anything.\<close>

definition compile_chunk :: "string \<Rightarrow> nat \<Rightarrow> unit emit \<Rightarrow> layout_cache \<times> nat \<Rightarrow> bc_stop + compiled" where
  "compile_chunk name param_count body shared =
     (let fc = snd (run_state body (bc_fn_ctx_init shared))
      in case fc_stopped fc of
           Some why \<Rightarrow> Inl why
         | None \<Rightarrow> Inr \<lparr>co_name = name, co_param_count = param_count, co_context = fc\<rparr>)"

definition bc_compile_function :: "bc_unit \<Rightarrow> function_decl \<Rightarrow> layout_cache \<times> nat \<Rightarrow> bc_stop + compiled" where
  "bc_compile_function U fd = compile_chunk (fd_name fd) (length (fd_params fd)) (function_code U fd)"

definition bc_compile_struct_cmp_chunk :: "bc_unit \<Rightarrow> struct_decl \<Rightarrow> layout_cache \<times> nat \<Rightarrow> bc_stop + compiled" where
  "bc_compile_struct_cmp_chunk U se =
     compile_chunk (bc_struct_cmp_chunk_name (sd_name se)) 2 (struct_cmp_code U se)"

text \<open>A declared global: its slot, type and initializer.\<close>

type_synonym global_decl = "u32 \<times> type_ref \<times> texpr option"

fun init_globals :: "bc_unit \<Rightarrow> global_decl list \<Rightarrow> unit emit" where
  "init_globals U [] = ret ()"
| "init_globals U ((slot, t, init) # gs) =
     do { val \<leftarrow> (case init of None \<Rightarrow> bc_compile_zero_value U t | Some e \<Rightarrow> bc_compile_expr U e);
          _ \<leftarrow> bc_emit (OpData BcOp_StoreGlobal) slot val 0;
          init_globals U gs }"

text \<open>\<^verbatim>\<open>sizeof(HandlePool)\<close> is 40 with alignment 8 on the code's only target.\<close>

fun init_pools :: "bc_fn_entry list \<Rightarrow> unit emit" where
  "init_pools [] = ret ()"
| "init_pools (e # es) =
     do { dst \<leftarrow> emit_new (OpArena BcOp_Alloc) 40 8;
          _ \<leftarrow> bc_emit (OpData BcOp_StoreGlobal) (fe_index e) dst 0;
          init_pools es }"

definition global_init_code :: "bc_unit \<Rightarrow> global_decl list \<Rightarrow> unit emit" where
  "global_init_code U globals =
     do { init_globals U globals;
          init_pools (un_handle_pool_table U);
          _ \<leftarrow> bc_emit (OpCtl BcOp_ReturnVoid) 0 0 0;
          ret () }"

definition bc_compile_global_init_chunk :: "bc_unit \<Rightarrow> global_decl list \<Rightarrow> layout_cache \<times> nat \<Rightarrow> bc_stop + compiled" where
  "bc_compile_global_init_chunk U globals = compile_chunk ''#init_globals'' 0 (global_init_code U globals)"

end
