(* ===== verification/Bcgen_Program.thy ===== *)
theory Bcgen_Program
  imports Bcgen Cache_Load
begin

text \<open>
  \<^verbatim>\<open>bc_compile_program\<close>: the scan for address-taken names, the check of the host imports against
  the \<^verbatim>\<open>extern\<close> declarations, the passes that give every global, handle pool, comparator and function
  its index, and the compilation of all chunks in the order of those indices.
\<close>

section \<open>Address-taken names\<close>

definition address_taken_by :: "texpr \<Rightarrow> string list" where
  "address_taken_by n = (case n of Unary a UnaryAddr (Leaf b (Identifier name)) \<Rightarrow> [name] | _ \<Rightarrow> [])"

definition bc_scan_address_taken_names :: "texpr list \<Rightarrow> string list" where
  "bc_scan_address_taken_names nodes = concat (map address_taken_by nodes)"

fun toplevel_exprs :: "toplevel \<Rightarrow> texpr list" where
  "toplevel_exprs (FunctionDecl fd) = fd_body fd"
| "toplevel_exprs (GlobalDecl name t (Some init)) = [init]"
| "toplevel_exprs _ = []"

section \<open>Host imports\<close>

definition extern_signature :: "string \<Rightarrow> param list \<Rightarrow> type_ref \<Rightarrow> cached_sig" where
  "extern_signature name params return_type =
     \<lparr>cs_name = name, cs_kind = 0, cs_param_types = map (\<lambda>p. raw_of (pa_type p)) params,
      cs_return_type = raw_of return_type\<rparr>"

fun bc_verify_host_imports :: "bc_host_import list \<Rightarrow> toplevel list \<Rightarrow> bool option" where
  "bc_verify_host_imports imports [] = Some True"
| "bc_verify_host_imports imports (ExternDecl name params return_type # tops) =
     (case bc_host_import_try_lookup imports name of
        None \<Rightarrow> bc_verify_host_imports imports tops
      | Some host_index \<Rightarrow>
          do { (ok, ms) \<leftarrow> bc_verify_host_import_signature (extern_signature name params return_type)
                             (imports ! unat host_index);
               rest \<leftarrow> bc_verify_host_imports imports tops;
               Some (ok \<and> rest) })"
| "bc_verify_host_imports imports (_ # tops) = bc_verify_host_imports imports tops"

section \<open>The index spaces\<close>

fun global_decls :: "nat \<Rightarrow> toplevel list \<Rightarrow> (string \<times> global_decl) list" where
  "global_decls n [] = []"
| "global_decls n (GlobalDecl name t init # tops) = (name, of_nat n, t, init) # global_decls (n + 1) tops"
| "global_decls n (_ # tops) = global_decls n tops"

fun handle_pools :: "nat \<Rightarrow> toplevel list \<Rightarrow> bc_fn_entry list" where
  "handle_pools n [] = []"
| "handle_pools n (HandlePoolDecl type_name # tops) =
     \<lparr>fe_name = type_name, fe_index = of_nat n\<rparr> # handle_pools (n + 1) tops"
| "handle_pools n (_ # tops) = handle_pools n tops"

fun cmp_structs :: "struct_entry list \<Rightarrow> struct_decl list \<Rightarrow> struct_decl list option" where
  "cmp_structs entries [] = Some []"
| "cmp_structs entries (d # ds) =
     do { comparable \<leftarrow> type_ref_is_deep_comparable entries (named_type (sd_name d));
          rest \<leftarrow> cmp_structs entries ds;
          Some (if comparable then d # rest else rest) }"

definition fn_decls :: "toplevel list \<Rightarrow> function_decl list" where
  "fn_decls tops = concat (map (\<lambda>d. case d of FunctionDecl fd \<Rightarrow> [fd] | _ \<Rightarrow> []) tops)"

text \<open>Comparators first, then functions, in one index space.\<close>

definition fn_table_of :: "struct_decl list \<Rightarrow> function_decl list \<Rightarrow> bc_fn_entry list" where
  "fn_table_of cmps fns =
     map (\<lambda>(i, name). \<lparr>fe_name = name, fe_index = of_nat i\<rparr>)
       (enumerate 0 (map (\<lambda>d. bc_struct_cmp_chunk_name (sd_name d)) cmps @ map fd_name fns))"

section \<open>Compiling the chunks\<close>

fun compile_chunks ::
  "(layout_cache \<times> nat \<Rightarrow> bc_stop + compiled) list \<Rightarrow> layout_cache \<times> nat \<Rightarrow> bc_stop + compiled list" where
  "compile_chunks [] shared = Inr []"
| "compile_chunks (c # cs) shared =
     (case c shared of
        Inl why \<Rightarrow> Inl why
      | Inr chunk \<Rightarrow>
          (case compile_chunks cs (fc_layouts (co_context chunk), fc_placed (co_context chunk)) of
             Inl why \<Rightarrow> Inl why
           | Inr chunks \<Rightarrow> Inr (chunk # chunks)))"

definition program_unit ::
  "checker \<Rightarrow> nat \<Rightarrow> (nat \<Rightarrow> u64) \<Rightarrow> (u64 \<Rightarrow> u32) \<Rightarrow> bc_host_import list \<Rightarrow> bc_module_import list \<Rightarrow>
   struct_decl list \<Rightarrow> toplevel list \<Rightarrow> bc_unit" where
  "program_unit ck fuel plc conv imports modules cmps tops =
     (let globals = global_decls 0 tops
      in \<lparr>un_ck = ck, un_fuel = fuel, un_fn_table = fn_table_of cmps (fn_decls tops),
          un_global_table = map (\<lambda>(name, slot, t, init). \<lparr>fe_name = name, fe_index = slot\<rparr>) globals,
          un_handle_pool_table = handle_pools (length globals) tops,
          un_host_imports = imports, un_module_table = modules,
          un_addr_taken_names = bc_scan_address_taken_names (concat (map nodes_of (concat (map toplevel_exprs tops)))),
          un_place = plc, un_f64_to_f32 = conv\<rparr>)"

text \<open>The synthesized chunks are compiled without the address-taken names: the comparators and
  \<^verbatim>\<open>#init_globals\<close> are handed none.\<close>

definition without_addr_taken :: "bc_unit \<Rightarrow> bc_unit" where
  "without_addr_taken U = U\<lparr>un_addr_taken_names := []\<rparr>"

text \<open>The compiled chunks in index order, and the program made of them, before \<^verbatim>\<open>#init_globals\<close> is
  run on it.\<close>

definition compile_all ::
  "checker \<Rightarrow> nat \<Rightarrow> (nat \<Rightarrow> u64) \<Rightarrow> (u64 \<Rightarrow> u32) \<Rightarrow> bc_host_import list \<Rightarrow> bc_module_import list \<Rightarrow>
   toplevel list \<Rightarrow> bc_stop + compiled list" where
  "compile_all ck fuel plc conv imports modules tops =
     (case (bc_verify_host_imports imports tops, cmp_structs (struct_entries ck) (ck_structs ck)) of
        (Some True, Some cmps) \<Rightarrow>
          (let U = program_unit ck fuel plc conv imports modules cmps tops
           in compile_chunks
                (map (bc_compile_struct_cmp_chunk (without_addr_taken U)) cmps
                 @ map (bc_compile_function U) (fn_decls tops)
                 @ [bc_compile_global_init_chunk (without_addr_taken U) (map snd (global_decls 0 tops))])
                (layout_cache_init, 0))
      | _ \<Rightarrow> Inl Assertion)"

definition bc_compile_program ::
  "checker \<Rightarrow> nat \<Rightarrow> (nat \<Rightarrow> u64) \<Rightarrow> (u64 \<Rightarrow> u32) \<Rightarrow> bc_host_import list \<Rightarrow> bc_module_import list \<Rightarrow>
   toplevel list \<Rightarrow> bc_stop + bc_program" where
  "bc_compile_program ck fuel plc conv imports modules tops =
     (case compile_all ck fuel plc conv imports modules tops of
        Inl why \<Rightarrow> Inl why
      | Inr chunks \<Rightarrow>
          Inr \<lparr>pr_chunks = map chunk_of chunks,
               pr_global_count = length (global_decls 0 tops)
                 + length (handle_pools (length (global_decls 0 tops)) tops),
               pr_module_table = Some modules\<rparr>)"

end
