(* ===== verification/Bcgen_Safe.thy ===== *)
theory Bcgen_Safe
  imports Bcgen_Program VM_Props
begin

text \<open>
  What every action of the bytecode generator keeps: instructions decode, jump targets lie in the
  code emitted so far, constant and callee operands name existing slots and chunks, and the register
  operands of the instructions of \<^const>\<open>operands_in_window\<close> are registers handed out before.

  An action is described by a triple: under facts about the context it may rely on, it keeps the
  context well formed and its result has certain facts.  The facts are of a kind that later emission
  and patching cannot invalidate, so one set of facts is threaded through a \<^theory_text>\<open>do\<close> block.
\<close>

section \<open>Opcodes and their numbers\<close>

lemma in_bc_op_table: "op \<in> set bc_op_table"
proof (cases op)
  case (OpData x) then show ?thesis by (cases x) (simp_all add: bc_op_table_def)
next
  case (OpInt x) then show ?thesis by (cases x) (simp_all add: bc_op_table_def)
next
  case (OpCmp x) then show ?thesis by (cases x) (simp_all add: bc_op_table_def)
next
  case (OpF64Arith x) then show ?thesis by (cases x) (simp_all add: bc_op_table_def)
next
  case (OpF64Cmp x) then show ?thesis by (cases x) (simp_all add: bc_op_table_def)
next
  case (OpF32Arith x) then show ?thesis by (cases x) (simp_all add: bc_op_table_def)
next
  case (OpF32Cmp x) then show ?thesis by (cases x) (simp_all add: bc_op_table_def)
next
  case (OpCtl x) then show ?thesis by (cases x) (simp_all add: bc_op_table_def)
next
  case (OpLoad x) then show ?thesis by (cases x) (simp_all add: bc_op_table_def)
next
  case (OpStore x) then show ?thesis by (cases x) (simp_all add: bc_op_table_def)
next
  case (OpText x) then show ?thesis by (cases x) (simp_all add: bc_op_table_def)
next
  case (OpMap x) then show ?thesis by (cases x) (simp_all add: bc_op_table_def)
next
  case (OpConv x) then show ?thesis by (cases x) (simp_all add: bc_op_table_def)
next
  case (OpArena x) then show ?thesis by (cases x) (simp_all add: bc_op_table_def)
next
  case (OpRaw x) then show ?thesis by (cases x) (simp_all add: bc_op_table_def)
next
  case (OpMath x) then show ?thesis by (cases x) (simp_all add: bc_op_table_def)
next
  case (OpHandle x) then show ?thesis by (cases x) (simp_all add: bc_op_table_def)
next
  case (OpDyn x) then show ?thesis by (cases x) (simp_all add: bc_op_table_def)
next
  case (OpPrint x) then show ?thesis by (cases x) (simp_all add: bc_op_table_def)
qed

lemma position_in: "x \<in> set xs \<Longrightarrow> length (takeWhile (\<lambda>y. y \<noteq> x) xs) < length xs
    \<and> xs ! length (takeWhile (\<lambda>y. y \<noteq> x) xs) = x"
  by (induction xs) auto

lemma bc_op_of_code [simp]: "bc_op_of (bc_op_code op) = Some op"
proof -
  let ?i = "length (takeWhile (\<lambda>x. x \<noteq> op) bc_op_table)"
  have i: "?i < length bc_op_table" "bc_op_table ! ?i = op" using position_in [OF in_bc_op_table] by auto
  then have "?i < 126" using BcOp_Count_eq BcOp_Count_def by simp
  then have "unat (bc_op_code op) = ?i" by (simp add: bc_op_code_def unat_of_nat_u32)
  then show ?thesis using i by (simp add: bc_op_of_def BcOp_Count_def)
qed

lemma bc_op_code_inject [simp]: "bc_op_code op = bc_op_code op' \<longleftrightarrow> op = op'"
  using bc_op_of_code by (metis option.inject)

section \<open>Facts and triples\<close>

datatype fact = Reg u32 | Regs u32 nat | At u32 bc_op | Con u32 | Tgt u32 | Known bool

fun holds :: "bc_fn_ctx \<Rightarrow> fact \<Rightarrow> bool" where
  "holds fc (Reg r) \<longleftrightarrow> unat r < fc_next_reg fc"
| "holds fc (Regs r k) \<longleftrightarrow> unat r + k \<le> fc_next_reg fc"
| "holds fc (At i op) \<longleftrightarrow> unat i < length (fc_code fc) \<and> in_kind (fc_code fc ! unat i) = bc_op_code op"
| "holds fc (Con c) \<longleftrightarrow> unat c < length (fc_consts fc)"
| "holds fc (Tgt t) \<longleftrightarrow> unat t \<le> length (fc_code fc)"
| "holds fc (Known p) \<longleftrightarrow> p"

text \<open>\<open>pcs\<close> lists the parameter counts of the chunks of the program being compiled.\<close>

definition ins_ok :: "nat list \<Rightarrow> bc_fn_ctx \<Rightarrow> bc_instr \<Rightarrow> bool" where
  "ins_ok pcs fc ins =
     (let reg = (\<lambda>r. unat r < fc_next_reg fc)
      in case bc_op_of (in_kind ins) of
           None \<Rightarrow> False
         | Some (OpInt i) \<Rightarrow> reg (in_a ins) \<and> reg (in_b ins) \<and> reg (in_c ins)
         | Some (OpCmp i) \<Rightarrow> reg (in_a ins) \<and> reg (in_b ins) \<and> reg (in_c ins)
         | Some (OpData BcOp_LoadConst) \<Rightarrow> reg (in_a ins) \<and> unat (in_b ins) < length (fc_consts fc)
         | Some (OpData BcOp_Move) \<Rightarrow> reg (in_a ins) \<and> reg (in_b ins)
         | Some (OpCtl BcOp_Jump) \<Rightarrow> unat (in_a ins) \<le> length (fc_code fc)
         | Some (OpCtl BcOp_JumpIfFalse) \<Rightarrow> reg (in_a ins) \<and> unat (in_b ins) \<le> length (fc_code fc)
         | Some (OpCtl BcOp_Return) \<Rightarrow> reg (in_a ins)
         | Some (OpCtl BcOp_Call) \<Rightarrow> reg (in_a ins) \<and> unat (in_b ins) < length pcs
             \<and> unat (in_c ins) + pcs ! unat (in_b ins) \<le> fc_next_reg fc
         | _ \<Rightarrow> True)"

definition ctx_ok :: "nat list \<Rightarrow> bc_fn_ctx \<Rightarrow> bool" where
  "ctx_ok pcs fc \<longleftrightarrow>
     (\<forall>ins \<in> set (fc_code fc). ins_ok pcs fc ins)
     \<and> (\<forall>l \<in> set (fc_locals fc). holds fc (Reg (bl_reg l)))
     \<and> (\<forall>i \<in> set (fc_break_fixups fc) \<union> set (fc_continue_fixups fc). holds fc (At i (OpCtl BcOp_Jump)))"

definition grows :: "bc_fn_ctx \<Rightarrow> bc_fn_ctx \<Rightarrow> bool" where
  "grows fc fc' \<longleftrightarrow>
     fc_next_reg fc \<le> fc_next_reg fc' \<and> length (fc_consts fc) \<le> length (fc_consts fc')
     \<and> length (fc_code fc) \<le> length (fc_code fc')
     \<and> (\<forall>i < length (fc_code fc). in_kind (fc_code fc' ! i) = in_kind (fc_code fc ! i))"

lemma grows_refl [simp]: "grows fc fc"
  by (simp add: grows_def)

lemma grows_trans: "grows a b \<Longrightarrow> grows b c \<Longrightarrow> grows a c"
  by (auto simp: grows_def)

lemma holds_grows: "grows fc fc' \<Longrightarrow> holds fc f \<Longrightarrow> holds fc' f"
  by (cases f) (auto simp: grows_def)

lemma ins_ok_grows: "grows fc fc' \<Longrightarrow> ins_ok pcs fc ins \<Longrightarrow> ins_ok pcs fc' ins"
  by (auto simp: ins_ok_def grows_def Let_def split: option.splits bc_op.splits bc_data_op.splits bc_ctl_op.splits)

text \<open>Code is never taken back, and a compilation that stopped stays stopped.\<close>

definition later :: "bc_fn_ctx \<Rightarrow> bc_fn_ctx \<Rightarrow> bool" where
  "later fc fc' \<longleftrightarrow> length (fc_code fc) \<le> length (fc_code fc') \<and> (fc_stopped fc' = None \<longrightarrow> fc_stopped fc = None)"

definition fits :: "bc_fn_ctx \<Rightarrow> bool" where
  "fits fc \<longleftrightarrow> length (fc_code fc) < 2 ^ 32 \<and> fc_stopped fc = None"

lemma fits_later: "later fc fc' \<Longrightarrow> fits fc' \<Longrightarrow> fits fc"
  by (auto simp: later_def fits_def)

definition safe :: "nat list \<Rightarrow> fact set \<Rightarrow> 'a emit \<Rightarrow> ('a \<Rightarrow> fact set) \<Rightarrow> bool" where
  "safe pcs F m G \<longleftrightarrow>
     (\<forall>fc. later fc (snd (run_state m fc)))
     \<and> (\<forall>fc r fc'. run_state m fc = (r, fc') \<longrightarrow> fits fc' \<longrightarrow>
          ctx_ok pcs fc \<longrightarrow> (\<forall>f \<in> F. holds fc f) \<longrightarrow>
          ctx_ok pcs fc' \<and> grows fc fc' \<and> (\<forall>f \<in> G r. holds fc' f))"

lemma safeI:
  assumes "\<And>fc. later fc (snd (run_state m fc))"
    and "\<And>fc r fc'. \<lbrakk>run_state m fc = (r, fc'); fits fc'; ctx_ok pcs fc; \<forall>f \<in> F. holds fc f\<rbrakk>
      \<Longrightarrow> ctx_ok pcs fc' \<and> grows fc fc' \<and> (\<forall>f \<in> G r. holds fc' f)"
  shows "safe pcs F m G"
  using assms unfolding safe_def by blast

lemma safeD:
  assumes "safe pcs F m G" "run_state m fc = (r, fc')" "fits fc'" "ctx_ok pcs fc" "\<And>f. f \<in> F \<Longrightarrow> holds fc f"
  shows "ctx_ok pcs fc'" "grows fc fc'" "\<And>f. f \<in> G r \<Longrightarrow> holds fc' f"
  using assms unfolding safe_def by blast+

lemma safe_later: "safe pcs F m G \<Longrightarrow> run_state m fc = (r, fc') \<Longrightarrow> later fc fc'"
  unfolding safe_def by (metis snd_conv)

lemma later_trans: "later a b \<Longrightarrow> later b c \<Longrightarrow> later a c"
  by (auto simp: later_def)

lemma run_bind: "run_state (m \<bind> f) fc = (case run_state m fc of (x, fc') \<Rightarrow> run_state (f x) fc')"
  by (simp add: State_Monad.bind_def)

lemma safe_bind:
  assumes m: "safe pcs F m G" and f: "\<And>x. safe pcs (G x \<union> F) (f x) H"
  shows "safe pcs F (m \<bind> f) H"
proof (rule safeI)
  fix fc
  obtain x fc1 where 1: "run_state m fc = (x, fc1)" by fastforce
  obtain y fc2 where 2: "run_state (f x) fc1 = (y, fc2)" by fastforce
  show "later fc (snd (run_state (m \<bind> f) fc))"
    using later_trans [OF safe_later [OF m 1] safe_later [OF f 2]] 1 2 by (simp add: run_bind)
next
  fix fc r fc'
  assume run: "run_state (m \<bind> f) fc = (r, fc')" and fit: "fits fc'"
    and ok: "ctx_ok pcs fc" and F: "\<forall>f \<in> F. holds fc f"
  obtain x fc1 where 1: "run_state m fc = (x, fc1)" by fastforce
  with run have 2: "run_state (f x) fc1 = (r, fc')" by (simp add: run_bind)
  have fit1: "fits fc1" by (rule fits_later [OF safe_later [OF f 2] fit])
  note m1 = safeD [OF m 1 fit1 ok]
  have ok1: "ctx_ok pcs fc1" and g1: "grows fc fc1" using m1 F by blast+
  have F1: "holds fc1 g" if "g \<in> G x \<union> F" for g
    using that m1(3) F holds_grows [OF g1] by blast
  note m2 = safeD [OF f 2 fit ok1 F1]
  show "ctx_ok pcs fc' \<and> grows fc fc' \<and> (\<forall>f \<in> H r. holds fc' f)"
    using m2 grows_trans [OF g1] by blast
qed

lemma safe_weaken: "safe pcs F m G \<Longrightarrow> F \<subseteq> F' \<Longrightarrow> (\<And>r. G' r \<subseteq> G r) \<Longrightarrow> safe pcs F' m G'"
  unfolding safe_def by (meson subsetD)

lemma safe_ret: "(\<And>f. f \<in> G x \<Longrightarrow> f \<in> F) \<Longrightarrow> safe pcs F (ret x) G"
  by (auto simp: safe_def ret_def State_Monad.return_def later_def)

lemma safe_ret_none [simp]: "safe pcs F (ret x) (\<lambda>_. {})"
  by (rule safe_ret) simp

text \<open>An action that changes neither code, constants, registers, locals nor fixups.\<close>

definition same_code :: "bc_fn_ctx \<Rightarrow> bc_fn_ctx \<Rightarrow> bool" where
  "same_code fc fc' \<longleftrightarrow>
     fc_code fc' = fc_code fc \<and> fc_consts fc' = fc_consts fc \<and> fc_next_reg fc' = fc_next_reg fc
     \<and> set (fc_locals fc') \<subseteq> set (fc_locals fc) \<and> set (fc_break_fixups fc') \<subseteq> set (fc_break_fixups fc)
     \<and> set (fc_continue_fixups fc') \<subseteq> set (fc_continue_fixups fc)
     \<and> (fc_stopped fc' = None \<longrightarrow> fc_stopped fc = None)"

lemma holds_same: "same_code fc fc' \<Longrightarrow> holds fc' f \<longleftrightarrow> holds fc f"
  by (cases f) (auto simp: same_code_def)

lemma grows_same: "same_code fc fc' \<Longrightarrow> grows fc fc' \<and> grows fc' fc"
  by (simp add: same_code_def grows_def)

lemma later_same: "same_code fc fc' \<Longrightarrow> later fc fc'"
  by (simp add: same_code_def later_def)

lemma ins_ok_same: "same_code fc fc' \<Longrightarrow> ins_ok pcs fc' ins \<longleftrightarrow> ins_ok pcs fc ins"
  using grows_same ins_ok_grows by blast

lemma ctx_ok_same:
  assumes same: "same_code fc fc'" and ok: "ctx_ok pcs fc"
  shows "ctx_ok pcs fc'"
proof -
  have "ins_ok pcs fc' ins" if "ins \<in> set (fc_code fc')" for ins
    using that ok same ins_ok_same [OF same] by (auto simp: ctx_ok_def same_code_def)
  moreover have "holds fc' (Reg (bl_reg l))" if "l \<in> set (fc_locals fc')" for l
    using that ok same holds_same [OF same] by (auto simp: ctx_ok_def same_code_def)
  moreover have "holds fc' (At i (OpCtl BcOp_Jump))"
    if "i \<in> set (fc_break_fixups fc') \<union> set (fc_continue_fixups fc')" for i
    using that ok same holds_same [OF same] unfolding ctx_ok_def same_code_def by blast
  ultimately show ?thesis by (simp add: ctx_ok_def)
qed

lemma safe_same:
  assumes "\<And>fc. same_code fc (snd (run_state m fc))"
    and "\<And>fc r fc'. run_state m fc = (r, fc') \<Longrightarrow> fits fc' \<Longrightarrow> ctx_ok pcs fc \<Longrightarrow> (\<forall>f \<in> F. holds fc f) \<Longrightarrow>
      \<forall>f \<in> G r. holds fc f"
  shows "safe pcs F m G"
proof (rule safeI)
  fix fc show "later fc (snd (run_state m fc))" using assms(1) [of fc] by (rule later_same)
next
  fix fc r fc'
  assume run: "run_state m fc = (r, fc')" and fit: "fits fc'" and ok: "ctx_ok pcs fc" and F: "\<forall>f \<in> F. holds fc f"
  then have same: "same_code fc fc'" using assms(1) [of fc] by simp
  have "\<forall>f \<in> G r. holds fc f" using assms(2) [of fc r] run fit ok F by simp
  then show "ctx_ok pcs fc' \<and> grows fc fc' \<and> (\<forall>f \<in> G r. holds fc' f)"
    using ctx_ok_same [OF same ok] grows_same [OF same] holds_same [OF same] by blast
qed

section \<open>The primitives\<close>

lemma safe_modify:
  assumes "\<And>fc. same_code fc (f fc)"
  shows "safe pcs F (modify f) (\<lambda>_. {})"
  by (rule safe_same) (use assms in \<open>simp_all add: modify_def\<close>)

lemma safe_asks:
  assumes "\<And>fc. ctx_ok pcs fc \<Longrightarrow> (\<And>g. g \<in> F \<Longrightarrow> holds fc g) \<Longrightarrow> (\<And>g. g \<in> G (f fc) \<Longrightarrow> holds fc g)"
  shows "safe pcs F (asks f) G"
  by (rule safe_same) (use assms in \<open>auto simp: asks_def same_code_def\<close>)

lemma run_stop: "run_state (stop why) fc = ((), fc') \<Longrightarrow> \<not> fits fc'"
  by (auto simp: stop_def modify_def fits_def split: option.splits)

text \<open>After a stop anything goes, so an assertion may be relied on.\<close>

lemma safe_stop: "safe pcs F (stop why) G"
  by (rule safe_same) (auto dest: run_stop simp: stop_def modify_def same_code_def fits_def split: option.splits)

lemma safe_unsupported: "safe pcs F (bc_unsupported what) G"
  by (simp add: bc_unsupported_def safe_stop)

lemma safe_xassert: "safe pcs F (xassert c) (\<lambda>_. {})"
  unfolding xassert_def by (simp add: safe_stop)

text \<open>What follows a stop only has to be an action that goes on: it may assume every fact.\<close>

lemma bind_stop:
  assumes f: "safe pcs UNIV (f ()) H" shows "safe pcs F (stop why \<bind> f) G"
proof (rule safeI)
  fix fc
  obtain fc1 where 1: "run_state (stop why) fc = ((), fc1)" by (metis surj_pair unit.exhaust)
  obtain r fc2 where 2: "run_state (f ()) fc1 = (r, fc2)" by fastforce
  have "safe pcs {} (stop why) (\<lambda>_. {})" by (rule safe_stop)
  then show "later fc (snd (run_state (stop why \<bind> f) fc))"
    using later_trans [OF safe_later safe_later [OF f 2]] 1 2 by (simp add: run_bind)
next
  fix fc r fc'
  assume run: "run_state (stop why \<bind> f) fc = (r, fc')" and fit: "fits fc'"
  obtain fc1 where 1: "run_state (stop why) fc = ((), fc1)" by (metis surj_pair unit.exhaust)
  then have "run_state (f ()) fc1 = (r, fc')" using run by (simp add: run_bind)
  then have False using fits_later [OF safe_later [OF f]] fit run_stop [OF 1] by blast
  then show "ctx_ok pcs fc' \<and> grows fc fc' \<and> (\<forall>f \<in> G r. holds fc' f)" ..
qed

lemma bind_unsupported: "safe pcs F' (f ()) H \<Longrightarrow> safe pcs F (bc_unsupported what \<bind> f) G"
  unfolding bc_unsupported_def by (rule bind_stop [OF safe_weaken]) auto

lemma ret_bind [simp]: "ret x \<bind> f = f x"
  by (simp add: ret_def)

lemma bind_bind [simp]: "((m :: 'a emit) \<bind> f) \<bind> g = m \<bind> (\<lambda>x. f x \<bind> g)"
  by (simp add: State_Monad.bind_assoc)

lemma bind_xassert:
  "(c \<Longrightarrow> safe pcs F (f ()) H) \<Longrightarrow> (\<not> c \<Longrightarrow> safe pcs UNIV (f ()) H) \<Longrightarrow> safe pcs F (xassert c \<bind> f) H"
  by (cases c) (simp_all add: xassert_def, rule bind_stop)

lemma bind_need:
  "(\<And>v. x = Some v \<Longrightarrow> safe pcs F (f v) H) \<Longrightarrow> (x = None \<Longrightarrow> safe pcs UNIV (f y) H) \<Longrightarrow>
   safe pcs F (need x y \<bind> f) H"
  by (cases x) (simp_all add: need_def, rule bind_stop)

lemma safe_need: "(\<And>v. x = Some v \<Longrightarrow> G v \<subseteq> F) \<Longrightarrow> safe pcs F (need x y) G"
  by (cases x) (auto simp: need_def intro!: safe_ret bind_stop)

lemma safe_code_size: "safe pcs F code_size (\<lambda>t. {Tgt t})"
  unfolding code_size_def by (rule safe_asks) (auto simp: unat_of_nat)

text \<open>Appending to the code, the constants or the registers grows the context.\<close>

lemma ctx_ok_grows:
  assumes ok: "ctx_ok pcs fc" and g: "grows fc fc'"
    and new: "\<And>ins. ins \<in> set (fc_code fc') - set (fc_code fc) \<Longrightarrow> ins_ok pcs fc' ins"
    and loc: "\<And>l. l \<in> set (fc_locals fc') - set (fc_locals fc) \<Longrightarrow> holds fc' (Reg (bl_reg l))"
    and fix1: "\<And>i. i \<in> set (fc_break_fixups fc') - set (fc_break_fixups fc) \<Longrightarrow> holds fc' (At i (OpCtl BcOp_Jump))"
    and fix2: "\<And>i. i \<in> set (fc_continue_fixups fc') - set (fc_continue_fixups fc) \<Longrightarrow> holds fc' (At i (OpCtl BcOp_Jump))"
  shows "ctx_ok pcs fc'"
proof -
  have "ins_ok pcs fc' ins" if "ins \<in> set (fc_code fc')" for ins
    using that ok new ins_ok_grows [OF g] unfolding ctx_ok_def by blast
  moreover have "holds fc' (Reg (bl_reg l))" if "l \<in> set (fc_locals fc')" for l
    using that ok loc holds_grows [OF g] unfolding ctx_ok_def by blast
  moreover have "holds fc' (At i (OpCtl BcOp_Jump))"
    if "i \<in> set (fc_break_fixups fc') \<union> set (fc_continue_fixups fc')" for i
    using that ok fix1 fix2 holds_grows [OF g] unfolding ctx_ok_def by blast
  ultimately show ?thesis unfolding ctx_ok_def by blast
qed

lemma safe_grow:
  assumes grow: "\<And>fc. grows fc (snd (run_state m fc)) \<and> fc_stopped (snd (run_state m fc)) = fc_stopped fc"
    and ok: "\<And>fc r fc'. \<lbrakk>run_state m fc = (r, fc'); ctx_ok pcs fc; \<And>f. f \<in> F \<Longrightarrow> holds fc f; length (fc_code fc') < 2 ^ 32\<rbrakk>
      \<Longrightarrow> ctx_ok pcs fc' \<and> (\<forall>f \<in> G r. holds fc' f)"
  shows "safe pcs F m G"
proof (rule safeI)
  fix fc show "later fc (snd (run_state m fc))"
    using grow [of fc] by (simp add: grows_def later_def)
next
  fix fc r fc'
  assume "run_state m fc = (r, fc')" "fits fc'" "ctx_ok pcs fc" "\<forall>f \<in> F. holds fc f"
  then show "ctx_ok pcs fc' \<and> grows fc fc' \<and> (\<forall>f \<in> G r. holds fc' f)"
    using ok [of fc r fc'] grow [of fc] by (simp add: fits_def)
qed

lemma unat_of_nat_le: "unat (of_nat n :: u32) \<le> n"
  by (simp add: unat_of_nat)

lemma safe_alloc_reg: "safe pcs F bc_alloc_reg (\<lambda>r. {Reg r})"
proof (rule safe_grow)
  fix fc show "grows fc (snd (run_state bc_alloc_reg fc)) \<and> fc_stopped (snd (run_state bc_alloc_reg fc)) = fc_stopped fc"
    by (simp add: bc_alloc_reg_def grows_def)
next
  fix fc r fc'
  assume run: "run_state bc_alloc_reg fc = (r, fc')" and ok: "ctx_ok pcs fc"
  then have fc': "fc' = fc\<lparr>fc_next_reg := fc_next_reg fc + 1\<rparr>" and r: "r = of_nat (fc_next_reg fc)"
    by (auto simp: bc_alloc_reg_def)
  have "ctx_ok pcs fc'"
    by (rule ctx_ok_grows [OF ok]) (auto simp: fc' grows_def)
  moreover have "holds fc' (Reg r)" using unat_of_nat_le [of "fc_next_reg fc"] by (simp add: fc' r)
  ultimately show "ctx_ok pcs fc' \<and> (\<forall>f \<in> {Reg r}. holds fc' f)" by simp
qed

lemma safe_reserve: "safe pcs F (reserve n) (\<lambda>r. {Regs r n})"
proof (rule safe_grow)
  fix fc show "grows fc (snd (run_state (reserve n) fc)) \<and> fc_stopped (snd (run_state (reserve n) fc)) = fc_stopped fc"
    by (simp add: reserve_def grows_def)
next
  fix fc r fc'
  assume run: "run_state (reserve n) fc = (r, fc')" and ok: "ctx_ok pcs fc"
  then have fc': "fc' = fc\<lparr>fc_next_reg := fc_next_reg fc + n\<rparr>" and r: "r = of_nat (fc_next_reg fc)"
    by (auto simp: reserve_def)
  have "ctx_ok pcs fc'"
    by (rule ctx_ok_grows [OF ok]) (auto simp: fc' grows_def)
  moreover have "holds fc' (Regs r n)" using unat_of_nat_le [of "fc_next_reg fc"] by (simp add: fc' r)
  ultimately show "ctx_ok pcs fc' \<and> (\<forall>f \<in> {Regs r n}. holds fc' f)" by simp
qed

lemma safe_add_const: "safe pcs F (bc_add_const v) (\<lambda>c. {Con c})"
proof (rule safe_grow)
  fix fc show "grows fc (snd (run_state (bc_add_const v) fc)) \<and> fc_stopped (snd (run_state (bc_add_const v) fc)) = fc_stopped fc"
    by (simp add: bc_add_const_def grows_def)
next
  fix fc r fc'
  assume run: "run_state (bc_add_const v) fc = (r, fc')" and ok: "ctx_ok pcs fc"
  then have fc': "fc' = fc\<lparr>fc_consts := fc_consts fc @ [v]\<rparr>" and r: "r = of_nat (length (fc_consts fc))"
    by (auto simp: bc_add_const_def)
  have "ctx_ok pcs fc'"
    by (rule ctx_ok_grows [OF ok]) (auto simp: fc' grows_def)
  moreover have "holds fc' (Con r)" using unat_of_nat_le [of "length (fc_consts fc)"] by (simp add: fc' r)
  ultimately show "ctx_ok pcs fc' \<and> (\<forall>f \<in> {Con r}. holds fc' f)" by simp
qed

text \<open>What an instruction needs of the facts at hand; a forward jump is emitted with target 0.\<close>

definition fine :: "nat list \<Rightarrow> fact set \<Rightarrow> bc_op \<Rightarrow> u32 \<Rightarrow> u32 \<Rightarrow> u32 \<Rightarrow> bool" where
  "fine pcs F op a b c =
     (case op of
        OpInt i \<Rightarrow> Reg a \<in> F \<and> Reg b \<in> F \<and> Reg c \<in> F
      | OpCmp i \<Rightarrow> Reg a \<in> F \<and> Reg b \<in> F \<and> Reg c \<in> F
      | OpData BcOp_LoadConst \<Rightarrow> Reg a \<in> F \<and> Con b \<in> F
      | OpData BcOp_Move \<Rightarrow> Reg a \<in> F \<and> Reg b \<in> F
      | OpCtl BcOp_Jump \<Rightarrow> a = 0 \<or> Tgt a \<in> F
      | OpCtl BcOp_JumpIfFalse \<Rightarrow> Reg a \<in> F \<and> b = 0
      | OpCtl BcOp_Return \<Rightarrow> Reg a \<in> F
      | OpCtl BcOp_Call \<Rightarrow> Reg a \<in> F \<and> (\<exists>k. Regs c k \<in> F \<and> Known (unat b < length pcs \<and> pcs ! unat b \<le> k) \<in> F)
      | _ \<Rightarrow> True)"

lemma ins_ok_fine:
  assumes "fine pcs F op a b c" and F: "\<And>f. f \<in> F \<Longrightarrow> holds fc f"
  shows "ins_ok pcs fc \<lparr>in_kind = bc_op_code op, in_a = a, in_b = b, in_c = c\<rparr>"
proof -
  note h = F [of "Reg a"] F [of "Reg b"] F [of "Reg c"] F [of "Con b"] F [of "Tgt a"] F [of "Regs c _"] F [of "Known _"]
  show ?thesis
  proof (cases op)
    case (OpData d)
    then show ?thesis using assms(1) h by (cases d) (auto simp: fine_def ins_ok_def)
  next
    case (OpCtl d)
    then show ?thesis using assms(1) h by (cases d) (fastforce simp: fine_def ins_ok_def)+
  qed (use assms(1) h in \<open>auto simp: fine_def ins_ok_def\<close>)
qed

lemma grows_emit: "grows fc (snd (run_state (bc_emit op a b c) fc))
    \<and> fc_stopped (snd (run_state (bc_emit op a b c) fc)) = fc_stopped fc"
  by (simp add: bc_emit_def grows_def nth_append)

lemma safe_emit:
  assumes fine: "fine pcs F op a b c"
  shows "safe pcs F (bc_emit op a b c) (\<lambda>i. {At i op})"
proof (rule safe_grow)
  fix fc show "grows fc (snd (run_state (bc_emit op a b c) fc)) \<and> fc_stopped (snd (run_state (bc_emit op a b c) fc)) = fc_stopped fc"
    by (rule grows_emit)
next
  fix fc r fc'
  let ?ins = "\<lparr>in_kind = bc_op_code op, in_a = a, in_b = b, in_c = c\<rparr>"
  assume run: "run_state (bc_emit op a b c) fc = (r, fc')" and ok: "ctx_ok pcs fc"
    and F: "\<And>f. f \<in> F \<Longrightarrow> holds fc f" and len: "length (fc_code fc') < 2 ^ 32"
  then have fc': "fc' = fc\<lparr>fc_code := fc_code fc @ [?ins]\<rparr>" and r: "r = of_nat (length (fc_code fc))"
    by (auto simp: bc_emit_def)
  have g: "grows fc fc'" using grows_emit [of fc op a b c] run by simp
  have "ins_ok pcs fc' ?ins" by (rule ins_ok_fine [OF fine holds_grows [OF g F]])
  then have "ctx_ok pcs fc'" using ctx_ok_grows [OF ok g] by (auto simp: fc')
  moreover have "unat r = length (fc_code fc)" using len by (simp add: r fc' unat_of_nat_u32)
  ultimately show "ctx_ok pcs fc' \<and> (\<forall>f \<in> {At r op}. holds fc' f)" by (simp add: fc')
qed

text \<open>Patching the field a jump's target is in, for a target inside the code.\<close>

lemma ctx_ok_patch:
  assumes ok: "ctx_ok pcs fc" and i: "i < length (fc_code fc)"
    and kind: "in_kind ins = in_kind (fc_code fc ! i)" and fc': "fc' = fc\<lparr>fc_code := (fc_code fc)[i := ins]\<rparr>"
    and ins: "ins_ok pcs fc ins"
  shows "ctx_ok pcs fc' \<and> grows fc fc'"
proof -
  have g: "grows fc fc'" using kind i by (auto simp: grows_def fc' nth_list_update)
  have "ins_ok pcs fc' x" if "x \<in> set (fc_code fc') - set (fc_code fc)" for x
  proof -
    have "x = ins" using that set_update_subset_insert [of "fc_code fc" i ins] by (auto simp: fc')
    then show ?thesis using ins ins_ok_grows [OF g] by simp
  qed
  then have "ctx_ok pcs fc'" by (rule ctx_ok_grows [OF ok g]) (simp_all add: fc')
  then show ?thesis using g by blast
qed

lemma safe_patch:
  assumes m: "m = modify (\<lambda>fc. fc\<lparr>fc_code := (fc_code fc)[unat i := upd (fc_code fc ! unat i)]\<rparr>)"
    and upd: "\<And>ins. in_kind (upd ins) = in_kind ins"
    and ok: "\<And>fc ins. ins_ok pcs fc ins \<Longrightarrow> in_kind ins = bc_op_code op \<Longrightarrow> holds fc (Tgt t) \<Longrightarrow> ins_ok pcs fc (upd ins)"
    and facts: "At i op \<in> F" "Tgt t \<in> F"
  shows "safe pcs F m (\<lambda>_. {})"
proof (rule safeI)
  fix fc show "later fc (snd (run_state m fc))" by (simp add: m modify_def later_def)
next
  fix fc r fc'
  assume run: "run_state m fc = (r, fc')" and c: "ctx_ok pcs fc" and F: "\<forall>f \<in> F. holds fc f"
  let ?ins = "fc_code fc ! unat i"
  have i: "unat i < length (fc_code fc)" and k: "in_kind ?ins = bc_op_code op" and t: "holds fc (Tgt t)"
    using F facts by (metis holds.simps(3), metis holds.simps(3), blast)
  have "ins_ok pcs fc (upd ?ins)" using ok k t c i by (auto simp: ctx_ok_def)
  then show "ctx_ok pcs fc' \<and> grows fc fc' \<and> (\<forall>f \<in> {}. holds fc' f)"
    using ctx_ok_patch [OF c i upd, of fc'] run by (auto simp: m modify_def)
qed

lemma safe_patch_a:
  assumes "At i (OpCtl BcOp_Jump) \<in> F" "Tgt t \<in> F"
  shows "safe pcs F (patch_a i t) (\<lambda>_. {})"
  by (rule safe_patch [OF _ _ _ assms, where upd = "\<lambda>ins. ins\<lparr>in_a := t\<rparr>"]) (auto simp: patch_a_def ins_ok_def)

lemma safe_patch_b:
  assumes "At i (OpCtl BcOp_JumpIfFalse) \<in> F" "Tgt t \<in> F"
  shows "safe pcs F (patch_b i t) (\<lambda>_. {})"
  by (rule safe_patch [OF _ _ _ assms, where upd = "\<lambda>ins. ins\<lparr>in_b := t\<rparr>"]) (auto simp: patch_b_def ins_ok_def)

lemma safe_more: "(\<And>fc. (\<And>f. f \<in> F \<Longrightarrow> holds fc f) \<Longrightarrow> holds fc g) \<Longrightarrow> safe pcs (insert g F) m G \<Longrightarrow> safe pcs F m G"
  unfolding safe_def by blast

end
