(* ===== verification/Bcgen_Safe_Values.thy ===== *)
theory Bcgen_Safe_Values
  imports Bcgen_Safe
begin

text \<open>The triples of the emitting helpers and of the value helpers of \<^verbatim>\<open>bcgen.c\<close>.\<close>

section \<open>Rules for blocks\<close>

text \<open>The first applicable rule for the action a block starts with; an action that hands out a
  register is expected to establish it, any other action nothing.\<close>

lemma bind_emit:
  assumes "fine pcs F op a b c" "\<And>i. safe pcs (insert (At i op) F) (f i) H"
  shows "safe pcs F (bc_emit op a b c \<bind> f) H"
  by (rule safe_bind [OF safe_emit [OF assms(1)]]) (use assms(2) in simp)

lemma bind_code_size:
  "(\<And>t. safe pcs (insert (Tgt t) F) (f t) H) \<Longrightarrow> safe pcs F (code_size \<bind> f) H"
  by (rule safe_bind [OF safe_code_size]) simp

lemma bind_add_const:
  "(\<And>c. safe pcs (insert (Con c) F) (f c) H) \<Longrightarrow> safe pcs F (bc_add_const v \<bind> f) H"
  by (rule safe_bind [OF safe_add_const]) simp

lemma bind_reserve:
  "(\<And>r. safe pcs (insert (Regs r n) F) (f r) H) \<Longrightarrow> safe pcs F (reserve n \<bind> f) H"
  by (rule safe_bind [OF safe_reserve]) simp

lemma bind_reg:
  assumes "safe pcs F m (\<lambda>r. {Reg r})" "\<And>r. safe pcs (insert (Reg r) F) (f r) H"
  shows "safe pcs F (m \<bind> f) H"
  by (rule safe_bind [OF assms(1)]) (use assms(2) in simp)

lemma bind_none:
  assumes "safe pcs F m (\<lambda>_. {})" "\<And>x. safe pcs F (f x) H"
  shows "safe pcs F (m \<bind> f) H"
  by (rule safe_bind [OF assms(1)]) (use assms(2) in simp)

lemma safe_if: "(c \<Longrightarrow> safe pcs F m G) \<Longrightarrow> (\<not> c \<Longrightarrow> safe pcs F m' G) \<Longrightarrow> safe pcs F (if c then m else m') G"
  by simp

lemma safe_option:
  "(x = None \<Longrightarrow> safe pcs F m G) \<Longrightarrow> (\<And>v. x = Some v \<Longrightarrow> safe pcs F (f v) G) \<Longrightarrow>
   safe pcs F (case x of None \<Rightarrow> m | Some v \<Rightarrow> f v) G"
  by (cases x) auto

lemma safe_let: "safe pcs F (f x) G \<Longrightarrow> safe pcs F (let y = x in f y) G"
  by simp

lemma safe_pair: "(\<And>x y. p = (x, y) \<Longrightarrow> safe pcs F (f x y) G) \<Longrightarrow> safe pcs F (case p of (x, y) \<Rightarrow> f x y) G"
  by (cases p) auto

lemma safe_forget: "safe pcs F m G \<Longrightarrow> safe pcs F m (\<lambda>_. {})"
  by (rule safe_weaken) auto

lemmas safe_flow = bind_emit bind_code_size bind_add_const bind_reserve safe_if safe_option safe_let safe_pair

lemmas safe_prims = safe_xassert safe_unsupported safe_stop safe_alloc_reg

text \<open>Conditions on operands.\<close>

text \<open>The opcodes that take no register the window check looks at, and the three-register ones.\<close>

definition free_op :: "bc_op \<Rightarrow> bool" where
  "free_op op \<longleftrightarrow>
     (case op of OpInt i \<Rightarrow> False | OpCmp i \<Rightarrow> False
      | OpData d \<Rightarrow> d \<notin> {BcOp_LoadConst, BcOp_Move} | OpCtl c \<Rightarrow> c \<in> {BcOp_CallHost, BcOp_CallModule, BcOp_ReturnVoid}
      | _ \<Rightarrow> True)"

definition value_op :: "bc_op \<Rightarrow> bool" where
  "value_op op \<longleftrightarrow> free_op op \<or> (\<exists>i. op = OpInt i) \<or> (\<exists>i. op = OpCmp i)"

lemma fine_free: "free_op op \<Longrightarrow> fine pcs F op a b c"
  by (auto simp: free_op_def fine_def split: bc_op.splits bc_data_op.splits bc_ctl_op.splits)

lemma fine_value: "value_op op \<Longrightarrow> Reg a \<in> F \<Longrightarrow> Reg b \<in> F \<Longrightarrow> Reg c \<in> F \<Longrightarrow> fine pcs F op a b c"
  by (auto simp: value_op_def fine_free) (auto simp: fine_def)

lemma fine_simps [simp]:
  "fine pcs F (OpInt i) a b c \<longleftrightarrow> Reg a \<in> F \<and> Reg b \<in> F \<and> Reg c \<in> F"
  "fine pcs F (OpCmp j) a b c \<longleftrightarrow> Reg a \<in> F \<and> Reg b \<in> F \<and> Reg c \<in> F"
  "fine pcs F (OpData BcOp_LoadConst) a b c \<longleftrightarrow> Reg a \<in> F \<and> Con b \<in> F"
  "fine pcs F (OpData BcOp_Move) a b c \<longleftrightarrow> Reg a \<in> F \<and> Reg b \<in> F"
  "fine pcs F (OpData BcOp_BitNot) a b c" "fine pcs F (OpData BcOp_Narrow) a b c"
  "fine pcs F (OpData BcOp_FieldAddr) a b c" "fine pcs F (OpData BcOp_LoadGlobal) a b c"
  "fine pcs F (OpData BcOp_StoreGlobal) a b c"
  "fine pcs F (OpCtl BcOp_Jump) a b c \<longleftrightarrow> a = 0 \<or> Tgt a \<in> F"
  "fine pcs F (OpCtl BcOp_JumpIfFalse) a b c \<longleftrightarrow> Reg a \<in> F \<and> b = 0"
  "fine pcs F (OpCtl BcOp_Return) a b c \<longleftrightarrow> Reg a \<in> F"
  "fine pcs F (OpCtl BcOp_ReturnVoid) a b c" "fine pcs F (OpCtl BcOp_CallHost) a b c"
  "fine pcs F (OpCtl BcOp_CallModule) a b c"
  "fine pcs F (OpF64Arith o1) a b c" "fine pcs F (OpF64Cmp o2) a b c" "fine pcs F (OpF32Arith o3) a b c"
  "fine pcs F (OpF32Cmp o4) a b c" "fine pcs F (OpLoad o5) a b c" "fine pcs F (OpStore o6) a b c"
  "fine pcs F (OpText o7) a b c" "fine pcs F (OpMap o8) a b c" "fine pcs F (OpConv o9) a b c"
  "fine pcs F (OpArena o10) a b c" "fine pcs F (OpRaw o11) a b c" "fine pcs F (OpMath o12) a b c"
  "fine pcs F (OpHandle o13) a b c" "fine pcs F (OpDyn o14) a b c" "fine pcs F (OpPrint o15) a b c"
  by (simp_all add: fine_def)

section \<open>Emitting helpers\<close>

lemma safe_emit_const: "Reg dst \<in> F \<Longrightarrow> safe pcs F (emit_const dst v) (\<lambda>_. {})"
  unfolding emit_const_def by (rule safe_flow safe_ret | simp)+

lemma safe_const_reg: "safe pcs F (const_reg v) (\<lambda>r. {Reg r})"
  unfolding const_reg_def by (rule bind_reg [OF safe_alloc_reg] bind_none safe_emit_const safe_ret | simp)+

lemma safe_emit_new: "(\<And>a. fine pcs (insert (Reg a) F) op a b c) \<Longrightarrow> safe pcs F (emit_new op b c) (\<lambda>r. {Reg r})"
  unfolding emit_new_def by (rule bind_reg [OF safe_alloc_reg] safe_flow safe_ret | simp)+

lemma safe_emit_none: "fine pcs F op a b c \<Longrightarrow> safe pcs F (do { _ \<leftarrow> bc_emit op a b c; ret () }) (\<lambda>_. {})"
  by (rule safe_flow safe_ret | simp)+

lemma safe_layout_for: "safe pcs F (layout_for U t) (\<lambda>_. {})"
  unfolding layout_for_def
  by (rule safe_same) (simp_all add: same_code_def stop_def modify_def split: option.splits prod.splits)

lemma safe_field_of: "safe pcs F (field_of U se name) (\<lambda>_. {})"
  unfolding field_of_def
  by (rule safe_same) (simp_all add: same_code_def stop_def modify_def split: option.splits prod.splits)

lemma safe_slot_layout_for: "safe pcs F (slot_layout_for U k v) (\<lambda>_. {})"
  unfolding slot_layout_for_def
  by (rule safe_same) (simp_all add: same_code_def stop_def modify_def split: option.splits prod.splits)

lemma safe_need_none: "safe pcs F (need x y) (\<lambda>_. {})"
  by (rule safe_need) simp_all

lemma safe_struct_named: "safe pcs F (struct_named U name) (\<lambda>_. {})"
  unfolding struct_named_def by (rule safe_need_none)

lemma safe_pointee_of: "safe pcs F (pointee_of t) (\<lambda>_. {})"
  unfolding pointee_of_def by (rule safe_need_none)

lemma safe_map_key_of: "safe pcs F (map_key_of t) (\<lambda>_. {})"
  unfolding map_key_of_def by (rule safe_need_none)

lemma safe_element_stride: "safe pcs F (bc_element_stride U t) (\<lambda>_. {})"
  unfolding bc_element_stride_def by (rule bind_none safe_layout_for safe_ret | simp)+

lemma safe_place: "safe pcs F (place U) (\<lambda>_. {})"
  unfolding place_def by (rule safe_same) (simp_all add: same_code_def)

lemma safe_string_fixup: "safe pcs F (bc_add_string_fixup c h bs) (\<lambda>_. {})"
  unfolding bc_add_string_fixup_def by (rule safe_modify) (simp add: same_code_def)

lemmas safe_quiet = safe_prims safe_layout_for safe_field_of safe_slot_layout_for safe_struct_named
  safe_pointee_of safe_map_key_of safe_element_stride safe_place safe_string_fixup safe_emit_const
  safe_const_reg safe_emit_new safe_emit_none safe_patch_a safe_patch_b

section \<open>Loads, stores and copies\<close>

lemma bind_load_op:
  "(\<And>i. safe pcs F (f (OpLoad i)) H) \<Longrightarrow> safe pcs F (bc_load_op_for_type t \<bind> f) H"
  by (cases "tr_kind t") (simp_all add: bc_load_op_for_type_def, (rule bind_unsupported, blast)+)

lemma bind_store_op:
  "(\<And>i. safe pcs F (f (OpStore i)) H) \<Longrightarrow> safe pcs F (bc_store_op_for_type t \<bind> f) H"
  by (cases "tr_kind t") (simp_all add: bc_store_op_for_type_def, (rule bind_unsupported, blast)+)

lemmas safe_steps = safe_flow bind_load_op bind_store_op bind_reg bind_none

lemma safe_alloc_for: "safe pcs F (alloc_for l) (\<lambda>r. {Reg r})"
  unfolding alloc_for_def by (rule safe_emit_new) simp

lemma safe_store_scalar: "safe pcs F (store_scalar t b off v) (\<lambda>_. {})"
  unfolding store_scalar_def by (rule safe_steps safe_quiet safe_ret | simp)+

lemma safe_load_scalar: "safe pcs F (load_scalar t b off) (\<lambda>r. {Reg r})"
  unfolding load_scalar_def by (rule safe_steps safe_quiet safe_ret | simp)+

lemma safe_copy_words: "safe pcs F (copy_words b off src is) (\<lambda>_. {})"
proof (induction "is" arbitrary: F)
  case Nil
  show ?case by simp
next
  case (Cons i "is")
  show ?case by (simp only: copy_words.simps) (rule safe_steps safe_quiet Cons.IH | simp)+
qed

lemma safe_copy_tail: "safe pcs F (copy_tail b off src pos left) (\<lambda>_. {})"
proof (induction left arbitrary: F pos rule: less_induct)
  case (less left)
  then show ?case
    by (subst copy_tail.simps, unfold Let_def) (rule safe_steps safe_quiet safe_ret less.IH | simp)+
qed

lemma safe_copy_bytes: "safe pcs F (bc_copy_struct_bytes b off src n) (\<lambda>_. {})"
  unfolding bc_copy_struct_bytes_def by (rule bind_none safe_copy_words safe_copy_tail)+

lemma safe_copy_boxed_string: "safe pcs F (bc_copy_boxed_string b off src) (\<lambda>_. {})"
  unfolding bc_copy_boxed_string_def by (rule safe_steps safe_quiet safe_ret | simp)+

lemma safe_value_copy: "safe pcs F (bc_compile_value_copy U t src) (\<lambda>r. {Reg r})"
  unfolding bc_compile_value_copy_def
  by (rule bind_reg [OF safe_alloc_for] bind_none safe_quiet safe_copy_bytes safe_ret | simp)+

lemma safe_store_value: "safe pcs F (bc_store_value U b off t v) (\<lambda>_. {})"
  unfolding bc_store_value_def
  by (rule safe_steps safe_quiet safe_copy_bytes safe_copy_boxed_string safe_store_scalar)+

lemma safe_addr_of: "Reg v \<in> F \<Longrightarrow> safe pcs F (bc_compile_addr_of U t v) (\<lambda>r. {Reg r})"
  unfolding bc_compile_addr_of_def
  by (rule safe_if bind_reg [OF safe_alloc_for] bind_none safe_quiet safe_store_scalar safe_ret | simp)+

section \<open>Literals and names\<close>

lemma safe_add_layout_const: "safe pcs F (bc_add_layout_const U l) (\<lambda>c. {Con c})"
proof -
  have "safe pcs F (modify (\<lambda>fc. fc\<lparr>fc_layout_fixups := fc_layout_fixups fc @ [x]\<rparr>)) (\<lambda>_. {})" for F x
    by (rule safe_modify) (simp add: same_code_def)
  then show ?thesis unfolding bc_add_layout_const_def
    by (intro bind_none [OF safe_place] bind_add_const) (auto intro!: bind_none safe_ret)
qed

lemma safe_string_literal: "safe pcs F (bc_compile_string_literal U s) (\<lambda>r. {Reg r})"
  unfolding bc_compile_string_literal_def
  by (rule bind_none [OF safe_place] bind_reg [OF safe_alloc_reg] bind_add_const bind_emit safe_quiet bind_none safe_ret | simp)+

lemma safe_fill_string_field: "safe pcs F (bc_fill_string_field U b off s) (\<lambda>_. {})"
  unfolding bc_fill_string_field_def
  by (rule bind_none [OF safe_place] bind_reg [OF safe_alloc_reg] bind_add_const bind_emit safe_quiet bind_none safe_ret | simp)+

lemma find_member: "find P xs = Some x \<Longrightarrow> x \<in> set xs"
  by (induction xs) (auto split: if_splits)

lemma bind_lookup:
  assumes "safe pcs F (f None) H" "\<And>l. safe pcs (insert (Reg (bl_reg l)) F) (f (Some l)) H"
  shows "safe pcs F (bc_local_try_lookup name \<bind> f) H"
proof (rule safe_bind)
  show "safe pcs F (bc_local_try_lookup name) (\<lambda>x. case x of None \<Rightarrow> {} | Some l \<Rightarrow> {Reg (bl_reg l)})"
    unfolding bc_local_try_lookup_def
    by (rule safe_asks) (auto simp: ctx_ok_def dest!: find_member split: option.splits)
next
  fix x show "safe pcs ((case x of None \<Rightarrow> {} | Some l \<Rightarrow> {Reg (bl_reg l)}) \<union> F) (f x) H"
    using assms by (cases x) auto
qed

lemma safe_push_local:
  assumes "Reg (bl_reg l) \<in> F"
  shows "safe pcs F (modify (\<lambda>fc. fc\<lparr>fc_locals := fc_locals fc @ [l]\<rparr>)) (\<lambda>_. {})"
proof (rule safe_grow)
  fix fc let ?fc' = "snd (run_state (modify (\<lambda>fc. fc\<lparr>fc_locals := fc_locals fc @ [l]\<rparr>)) fc)"
  show "grows fc ?fc' \<and> fc_stopped ?fc' = fc_stopped fc" by (simp add: modify_def grows_def)
next
  fix fc r fc'
  assume run: "run_state (modify (\<lambda>fc. fc\<lparr>fc_locals := fc_locals fc @ [l]\<rparr>)) fc = (r, fc')"
    and ok: "ctx_ok pcs fc" and F: "\<And>f. f \<in> F \<Longrightarrow> holds fc f"
  have fc': "fc' = fc\<lparr>fc_locals := fc_locals fc @ [l]\<rparr>" using run by (simp add: modify_def)
  have "ctx_ok pcs fc'" by (rule ctx_ok_grows [OF ok]) (use F [OF assms] in \<open>auto simp: fc' grows_def\<close>)
  then show "ctx_ok pcs fc' \<and> (\<forall>f \<in> {}. holds fc' f)" by simp
qed

lemma safe_bind_local: "Reg r \<in> F \<Longrightarrow> safe pcs F (bc_bind_local name r) (\<lambda>_. {})"
  unfolding bc_bind_local_def by (rule safe_push_local) simp

lemma safe_bind_local_typed: "Reg r \<in> F \<Longrightarrow> safe pcs F (bc_bind_local_typed U name t r) (\<lambda>r. {Reg r})"
  unfolding bc_bind_local_typed_def
  by (rule safe_if bind_reg [OF safe_alloc_for] bind_none safe_quiet safe_store_scalar safe_push_local
      safe_bind_local safe_ret | simp)+

lemma safe_zero_value: "safe pcs F (bc_compile_zero_value U t) (\<lambda>r. {Reg r})"
  unfolding bc_compile_zero_value_def by (rule safe_if safe_alloc_for safe_const_reg bind_none safe_quiet)+

lemma safe_bool_t_result: "safe pcs F (bc_compile_bool_t_result U name a b) (\<lambda>r. {Reg r})"
  unfolding bc_compile_bool_t_result_def
  by (rule bind_reg [OF safe_alloc_for] bind_none safe_quiet safe_store_scalar safe_ret | simp)+

section \<open>Operators\<close>

lemma value_op_int [simp]: "value_op (bc_int_op_for_kind k u)"
  by (cases k) (simp_all add: bc_int_op_for_kind_def value_op_def)

lemma value_op_typed [simp]: "value_op (bc_typed_op_for_kind t k)"
  by (cases k) (simp_all add: bc_typed_op_for_kind_def bc_int_op_for_kind_def bc_f64_op_for_kind_def
      bc_f32_op_for_kind_def value_op_def free_op_def)

lemma value_op_f64 [simp]: "value_op (bc_f64_op_for_kind k)"
  by (cases k) (simp_all add: bc_f64_op_for_kind_def value_op_def free_op_def)

lemma value_op_f32 [simp]: "value_op (bc_f32_op_for_kind k)"
  by (cases k) (simp_all add: bc_f32_op_for_kind_def value_op_def free_op_def)

lemma value_op_bitwise [simp]: "value_op (bc_bitwise_op_for_kind k t)"
  by (cases k) (simp_all add: bc_bitwise_op_for_kind_def value_op_def)

lemma safe_int_narrow: "Reg r \<in> F \<Longrightarrow> safe pcs F (bc_compile_int_narrow k r) (\<lambda>r. {Reg r})"
  unfolding bc_compile_int_narrow_def by (rule safe_let safe_if safe_emit_new safe_ret | simp)+

lemma safe_narrow_arith: "safe pcs F (bc_narrow_arith_result t r) (\<lambda>_. {})"
  unfolding bc_narrow_arith_result_def by (rule safe_let safe_if safe_emit_none | simp)+

lemma safe_select: "Reg c \<in> F \<Longrightarrow> Reg t \<in> F \<Longrightarrow> Reg e \<in> F \<Longrightarrow> safe pcs F (bc_compile_select c t e) (\<lambda>r. {Reg r})"
  unfolding bc_compile_select_def
  by (rule bind_reg [OF safe_alloc_reg] safe_flow bind_none safe_quiet safe_ret | simp)+

end
