(* ===== verification/Bcgen_Safe_Flow.thy ===== *)
theory Bcgen_Safe_Flow
  imports Bcgen_Safe_Values
begin

text \<open>The triples of content comparison, of the operator and lvalue cases, and of the control flow.\<close>

section \<open>Blocks of registers and calls\<close>

lemma unat_plus_one_le: "unat (r + 1 :: u32) \<le> unat r + 1"
  by (rule unat_Suc_le)

lemma safe_move_block:
  "Regs first (length rs) \<in> F \<Longrightarrow> (\<And>r. r \<in> set rs \<Longrightarrow> Reg r \<in> F) \<Longrightarrow> safe pcs F (move_block first rs) (\<lambda>_. {})"
proof (induction rs arbitrary: first F)
  case Nil
  show ?case by simp
next
  case (Cons r rs)
  have "holds fc (Reg first)" "holds fc (Regs (first + 1) (length rs))" if "\<And>f. f \<in> F \<Longrightarrow> holds fc f" for fc
    using that [OF Cons.prems(1)] unat_plus_one_le [of first] by auto
  then show ?case unfolding move_block.simps
    by (intro safe_more [of F "Reg first"] safe_more [of "insert (Reg first) F" "Regs (first + 1) (length rs)"]
        bind_emit Cons.IH) (use Cons.prems in \<open>auto\<close>)
qed

lemma safe_arg_block: "(\<And>r. r \<in> set rs \<Longrightarrow> Reg r \<in> F) \<Longrightarrow> safe pcs F (arg_block rs) (\<lambda>r. {Regs r (length rs)})"
  unfolding arg_block_def by (rule bind_reserve bind_none safe_move_block safe_ret | simp)+

lemma bind_arg_block:
  assumes "\<And>r. r \<in> set rs \<Longrightarrow> Reg r \<in> F" "\<And>r. safe pcs (insert (Regs r (length rs)) F) (f r) H"
  shows "safe pcs F (arg_block rs \<bind> f) H"
  by (rule safe_bind [OF safe_arg_block [OF assms(1)]]) (use assms(2) in simp_all)

lemma safe_emit_call:
  assumes "Reg a \<in> F" "Regs c k \<in> F" "unat i < length pcs" "pcs ! unat i \<le> k"
  shows "safe pcs F (bc_emit (OpCtl BcOp_Call) a i c) (\<lambda>j. {At j (OpCtl BcOp_Call)})"
proof (rule safe_more)
  show "holds fc (Known (unat i < length pcs \<and> pcs ! unat i \<le> k))" for fc using assms by simp
  show "safe pcs (insert (Known (unat i < length pcs \<and> pcs ! unat i \<le> k)) F)
      (bc_emit (OpCtl BcOp_Call) a i c) (\<lambda>j. {At j (OpCtl BcOp_Call)})"
    by (rule safe_emit) (use assms(1,2) in \<open>auto simp: fine_def\<close>)
qed

section \<open>Content comparison\<close>

text \<open>What a call may name: a chunk of the program that takes at most \<open>n\<close> arguments.\<close>

definition arity_ok :: "nat list \<Rightarrow> bc_unit \<Rightarrow> string \<Rightarrow> nat \<Rightarrow> bool" where
  "arity_ok pcs U callee n \<longleftrightarrow>
     (\<forall>i. bc_fn_table_try_lookup (un_fn_table U) callee = Some i \<longrightarrow> unat i < length pcs \<and> pcs ! unat i \<le> n)"

definition comparators_ok :: "nat list \<Rightarrow> bc_unit \<Rightarrow> bool" where
  "comparators_ok pcs U \<longleftrightarrow> (\<forall>name. arity_ok pcs U (bc_struct_cmp_chunk_name name) 2)"

lemma safe_struct_cmp:
  assumes "comparators_ok pcs U" "Reg a \<in> F" "Reg b \<in> F"
  shows "safe pcs F (call_struct_cmp U name a b) (\<lambda>r. {Reg r})"
  unfolding call_struct_cmp_def
proof (rule bind_need)
  fix i assume i: "bc_fn_table_try_lookup (un_fn_table U) (bc_struct_cmp_chunk_name name) = Some i"
  have ar: "unat i < length pcs" "pcs ! unat i \<le> 2" using assms(1) i by (auto simp: comparators_ok_def arity_ok_def)
  show "safe pcs F (arg_block [a, b] \<bind> (\<lambda>first. emit_new (OpCtl BcOp_Call) i first)) (\<lambda>r. {Reg r})"
  proof (rule bind_arg_block)
    fix first
    show "safe pcs (insert (Regs first (length [a, b])) F) (emit_new (OpCtl BcOp_Call) i first) (\<lambda>r. {Reg r})"
      unfolding emit_new_def
    proof (rule bind_reg [OF safe_alloc_reg])
      fix dst
      have "safe pcs (insert (Reg dst) (insert (Regs first (length [a, b])) F))
          (bc_emit (OpCtl BcOp_Call) dst i first) (\<lambda>_. {})"
        by (rule safe_forget [OF safe_emit_call [where k = 2]]) (use ar in auto)
      then show "safe pcs (insert (Reg dst) (insert (Regs first (length [a, b])) F))
          (do { _ \<leftarrow> bc_emit (OpCtl BcOp_Call) dst i first; ret dst }) (\<lambda>r. {Reg r})"
        by (rule bind_none) (rule safe_ret, simp)
    qed
  qed (use assms in auto)
next
  show "safe pcs UNIV (arg_block [a, b] \<bind> (\<lambda>first. emit_new (OpCtl BcOp_Call) 0 first)) (\<lambda>r. {Reg r})"
    by (rule bind_arg_block safe_emit_new | simp add: fine_def)+
qed

lemma safe_scalar_cmp: "safe pcs F (scalar_cmp t a b) (\<lambda>r. {Reg r})"
  unfolding scalar_cmp_def
  by (cases "tr_kind t = TypeKind_F64"; cases "tr_kind t = TypeKind_F32"; simp;
      (rule bind_load_op bind_reg safe_emit_new | simp)+)

lemma safe_array_cmp:
  assumes "\<And>x y G. Reg x \<in> G \<Longrightarrow> Reg y \<in> G \<Longrightarrow> safe pcs G (elem_cmp x y) (\<lambda>r. {Reg r})"
    and "Reg a \<in> F" "Reg b \<in> F"
  shows "safe pcs F (bc_compile_array_cmp U elem_cmp t a b n) (\<lambda>r. {Reg r})"
  unfolding bc_compile_array_cmp_def
  by (rule bind_none [OF safe_element_stride] bind_emit bind_code_size bind_reg safe_const_reg safe_emit_new assms
      bind_none safe_patch_b safe_ret | (use assms in simp; fail) | simp)+

lemma safe_value_cmp:
  assumes "comparators_ok pcs U"
  shows "Reg a \<in> F \<Longrightarrow> Reg b \<in> F \<Longrightarrow> safe pcs F (bc_compile_value_cmp U t a b) (\<lambda>r. {Reg r})"
proof (induction "size t" arbitrary: t a b F rule: less_induct)
  case less
  have IH: "safe pcs G (bc_compile_value_cmp U e x y) (\<lambda>r. {Reg r})"
    if "tr_pointee t = Some e" "Reg x \<in> G" "Reg y \<in> G" for e x y G
    using less.hyps that size_pointee by blast
  show ?case
    by (subst bc_compile_value_cmp.simps)
      (rule safe_if safe_emit_new safe_struct_cmp [OF assms] safe_option safe_scalar_cmp bind_xassert safe_array_cmp IH
        safe_ret | (use less.prems in simp; fail) | simp)+
qed

lemma safe_compare_fields:
  assumes "comparators_ok pcs U" "Reg a \<in> F" "Reg b \<in> F"
  shows "safe pcs F (compare_fields U se a b fs) (\<lambda>_. {})"
  using assms(2,3)
proof (induction fs arbitrary: F)
  case Nil
  show ?case by simp
next
  case (Cons f fs)
  show ?case unfolding compare_fields.simps
    by (rule bind_none [OF safe_field_of] bind_emit bind_code_size bind_reg safe_const_reg safe_emit_new
        safe_value_cmp [OF assms(1)] bind_none safe_patch_b Cons.IH safe_ret
        | (use Cons.prems in simp; fail) | simp)+
qed

lemma safe_struct_cmp_code: "comparators_ok pcs U \<Longrightarrow> safe pcs F (struct_cmp_code U se) (\<lambda>_. {})"
  unfolding struct_cmp_code_def
  by (rule bind_reg [OF safe_alloc_reg] bind_none [OF safe_compare_fields] bind_reg [OF safe_const_reg] bind_emit
      safe_ret_none | assumption | simp)+

section \<open>Operands and lvalues\<close>

definition gives_reg :: "nat list \<Rightarrow> u32 emit \<Rightarrow> bool" where
  "gives_reg pcs e \<longleftrightarrow> safe pcs {} e (\<lambda>r. {Reg r})"

lemma gives_regD: "gives_reg pcs e \<Longrightarrow> safe pcs F e (\<lambda>r. {Reg r})"
  unfolding gives_reg_def by (rule safe_weaken) auto

lemma gives_regI: "(\<And>F. safe pcs F e (\<lambda>r. {Reg r})) \<Longrightarrow> gives_reg pcs e"
  by (simp add: gives_reg_def)

fun target_ok :: "nat list \<Rightarrow> target \<Rightarrow> bool" where
  "target_ok pcs (NameTarget name) \<longleftrightarrow> True"
| "target_ok pcs (FieldTarget t b f) \<longleftrightarrow> gives_reg pcs b"
| "target_ok pcs (IndexTarget t b i) \<longleftrightarrow> gives_reg pcs b \<and> gives_reg pcs i"
| "target_ok pcs (DerefTarget t p) \<longleftrightarrow> gives_reg pcs p"
| "target_ok pcs NoTarget \<longleftrightarrow> True"

lemma bind_pair_reg:
  assumes "safe pcs F m (\<lambda>p. {Reg (fst p)})" "\<And>r y. safe pcs (insert (Reg r) F) (f r y) H"
  shows "safe pcs F (m \<bind> (\<lambda>(r, y). f r y)) H"
  by (rule safe_bind [OF assms(1)]) (use assms(2) in auto)

lemma safe_field_target: "gives_reg pcs b \<Longrightarrow> safe pcs F (bc_resolve_field_access U t b f) (\<lambda>p. {Reg (fst p)})"
  unfolding bc_resolve_field_access_def
  by (rule bind_reg [OF gives_regD] bind_xassert bind_none [OF safe_if] bind_none [OF safe_struct_named]
      bind_none [OF safe_field_of] safe_pointee_of safe_ret | assumption | simp)+

lemma safe_index_target:
  "gives_reg pcs b \<Longrightarrow> gives_reg pcs i \<Longrightarrow> safe pcs F (bc_resolve_index_access U t b i) (\<lambda>p. {Reg (fst p)})"
  unfolding bc_resolve_index_access_def
  by (rule bind_xassert bind_none [OF safe_pointee_of] bind_reg [OF gives_regD] bind_none [OF safe_element_stride]
      bind_reg [OF safe_const_reg] bind_reg [OF safe_emit_new] safe_ret | assumption | simp)+

lemma safe_set_local: "Reg (bl_reg l) \<in> F \<Longrightarrow> Reg v \<in> F \<Longrightarrow> safe pcs F (set_local t l v) (\<lambda>_. {})"
  unfolding set_local_def by (rule safe_if safe_store_scalar safe_emit_none | simp)+

lemma safe_set_name: "Reg v \<in> F \<Longrightarrow> safe pcs F (set_name U t name v) (\<lambda>_. {})"
  unfolding set_name_def
  by (rule bind_lookup safe_option safe_emit_none safe_set_local safe_xassert | simp)+

lemma safe_lvalue_write:
  assumes "target_ok pcs tg" "Reg v \<in> F"
  shows "safe pcs F (bc_compile_lvalue_write U tg t v) (\<lambda>_. {})"
  using assms
  by (cases tg) (simp_all add: bc_compile_lvalue_write_def,
      (rule safe_set_name bind_pair_reg safe_field_target safe_index_target bind_reg [OF gives_regD] safe_store_value
        safe_xassert | simp)+)

lemmas safe_values = safe_const_reg safe_emit_new safe_load_scalar safe_alloc_reg safe_value_copy safe_addr_of
  safe_string_literal safe_zero_value safe_bool_t_result safe_int_narrow safe_select safe_alloc_for gives_regD

lemmas safe_effects = safe_emit_const safe_emit_none safe_patch_a safe_patch_b safe_copy_bytes safe_copy_boxed_string
  safe_store_value safe_store_scalar safe_fill_string_field safe_narrow_arith safe_bind_local safe_set_name
  safe_xassert safe_lvalue_write

lemmas safe_queries = safe_layout_for safe_field_of safe_slot_layout_for safe_struct_named safe_pointee_of
  safe_map_key_of safe_element_stride

lemmas safe_binds = bind_emit bind_code_size bind_add_const bind_reserve bind_arg_block bind_lookup bind_xassert
  bind_unsupported bind_pair_reg bind_reg bind_none

lemma safe_set:
  assumes "target_ok pcs tg" "gives_reg pcs v"
  shows "safe pcs F (bc_set U t tg v) (\<lambda>r. {Reg r})"
  using assms
  by (cases tg) (simp_all add: bc_set_def,
      (rule safe_binds safe_values safe_effects safe_field_target safe_index_target safe_ret | assumption | simp)+)

lemma safe_field_access: "gives_reg pcs b \<Longrightarrow> safe pcs F (bc_field_access U t b f) (\<lambda>r. {Reg r})"
  unfolding bc_field_access_def
  by (rule bind_pair_reg [OF safe_field_target] safe_if safe_values | assumption | simp)+

lemma safe_index_access:
  "gives_reg pcs b \<Longrightarrow> gives_reg pcs i \<Longrightarrow> safe pcs F (bc_index_access U t b i) (\<lambda>r. {Reg r})"
  unfolding bc_index_access_def
  by (rule bind_pair_reg [OF safe_index_target] safe_if safe_values safe_ret | assumption | simp)+

lemma safe_deref: "gives_reg pcs p \<Longrightarrow> safe pcs F (bc_deref U t p) (\<lambda>r. {Reg r})"
  unfolding bc_deref_def
  by (rule bind_xassert bind_none [OF safe_pointee_of] bind_reg safe_if safe_values safe_ret | assumption | simp)+

lemma safe_addr:
  assumes "target_ok pcs (nd_target e)" "gives_reg pcs (nd_code e)"
  shows "safe pcs F (bc_addr U e) (\<lambda>r. {Reg r})"
proof (cases "nd_target e")
  case (NameTarget name)
  show ?thesis unfolding bc_addr_def NameTarget target.case
    by (rule safe_if bind_lookup safe_option gives_regD [OF assms(2)] bind_xassert bind_unsupported [where F' = UNIV]
        safe_alloc_reg safe_ret | simp)+
next
  case (FieldTarget t b f)
  then have b: "gives_reg pcs b" using assms by simp
  show ?thesis unfolding bc_addr_def FieldTarget target.case
    by (rule bind_pair_reg [OF safe_field_target [OF b]] safe_emit_new | simp)+
next
  case (IndexTarget t b i)
  then have b: "gives_reg pcs b" "gives_reg pcs i" using assms by simp_all
  show ?thesis unfolding bc_addr_def IndexTarget target.case
    by (rule bind_pair_reg [OF safe_index_target [OF b]] safe_ret | simp)+
next
  case (DerefTarget t p)
  then show ?thesis using assms by (simp add: bc_addr_def gives_regD)
next
  case NoTarget
  show ?thesis unfolding bc_addr_def NoTarget target.case by (rule bind_xassert safe_alloc_reg | simp)+
qed

lemma safe_identifier: "safe pcs F (bc_identifier U t name) (\<lambda>r. {Reg r})"
  unfolding bc_identifier_def
  by (rule bind_lookup safe_option safe_if safe_values bind_xassert bind_none safe_unsupported safe_ret | simp)+

section \<open>Operators\<close>

lemma safe_arith:
  assumes "comparators_ok pcs U" "gives_reg pcs l" "gives_reg pcs r"
  shows "safe pcs F (bc_arith U t k t' l r) (\<lambda>r. {Reg r})"
  unfolding bc_arith_def
  by (rule safe_if bind_emit bind_reg [OF gives_regD] bind_reg [OF safe_alloc_reg] bind_reg [OF safe_value_cmp]
      bind_reg [OF safe_const_reg] bind_none [OF safe_narrow_arith] safe_ret fine_value assms | simp)+

lemma safe_bitwise: "gives_reg pcs l \<Longrightarrow> gives_reg pcs r \<Longrightarrow> safe pcs F (bc_bitwise t k t' l r) (\<lambda>r. {Reg r})"
  unfolding bc_bitwise_def
  by (rule bind_reg [OF gives_regD] bind_reg [OF safe_emit_new] bind_none safe_if safe_narrow_arith safe_ret fine_value
      | assumption | simp)+

lemma safe_neg: "gives_reg pcs e \<Longrightarrow> safe pcs F (bc_neg t t' e) (\<lambda>r. {Reg r})"
  unfolding bc_neg_def
  by (rule bind_reg [OF gives_regD] bind_reg [OF safe_const_reg] bind_reg [OF safe_emit_new] bind_none
      safe_narrow_arith safe_ret fine_value | assumption | simp)+

lemma safe_bit_not: "gives_reg pcs e \<Longrightarrow> safe pcs F (bc_bit_not t e) (\<lambda>r. {Reg r})"
  unfolding bc_bit_not_def
  by (rule bind_reg [OF gives_regD] bind_reg [OF safe_emit_new] bind_none safe_narrow_arith safe_ret
      | assumption | simp)+

lemma safe_truth_of: "Reg x \<in> F \<Longrightarrow> safe pcs F (truth_of x) (\<lambda>r. {Reg r})"
  unfolding truth_of_def by (rule bind_reg [OF safe_const_reg] safe_emit_new | simp)+

lemma safe_truthy: "gives_reg pcs e \<Longrightarrow> safe pcs F (bc_compile_truthy e) (\<lambda>r. {Reg r})"
  unfolding bc_compile_truthy_def by (rule bind_reg [OF gives_regD] safe_truth_of | assumption | simp)+

lemma safe_cast: "gives_reg pcs e \<Longrightarrow> safe pcs F (bc_cast t t' e) (\<lambda>r. {Reg r})"
  unfolding bc_cast_def
  by (rule bind_reg [OF gives_regD] bind_need bind_reg [OF safe_emit_new] safe_if safe_truth_of safe_emit_new
      safe_int_narrow safe_ret | assumption | simp)+

lemma safe_reinterpret: "gives_reg pcs e \<Longrightarrow> safe pcs F (bc_reinterpret t e) (\<lambda>r. {Reg r})"
  unfolding bc_reinterpret_def by (rule bind_reg [OF gives_regD] safe_int_narrow | assumption | simp)+

lemma safe_not: "gives_reg pcs e \<Longrightarrow> safe pcs F (bc_not e) (\<lambda>r. {Reg r})"
  unfolding bc_not_def by (rule bind_reg [OF gives_regD] bind_reg [OF safe_const_reg] safe_emit_new | assumption | simp)+

lemma safe_and: "gives_reg pcs l \<Longrightarrow> gives_reg pcs r \<Longrightarrow> safe pcs F (bc_and l r) (\<lambda>r. {Reg r})"
  unfolding bc_and_def
  by (rule bind_emit bind_code_size bind_reg safe_alloc_reg gives_regD safe_truthy safe_const_reg bind_none
      safe_patch_a safe_patch_b safe_ret | assumption | simp)+

lemma safe_or: "gives_reg pcs l \<Longrightarrow> gives_reg pcs r \<Longrightarrow> safe pcs F (bc_or l r) (\<lambda>r. {Reg r})"
  unfolding bc_or_def
  by (rule bind_emit bind_code_size bind_reg safe_alloc_reg gives_regD safe_truthy safe_const_reg bind_none
      safe_patch_a safe_patch_b safe_ret | assumption | simp)+

lemma safe_string_len: "gives_reg pcs e \<Longrightarrow> safe pcs F (bc_string_len e) (\<lambda>r. {Reg r})"
  unfolding bc_string_len_def by (rule bind_reg [OF gives_regD] safe_emit_new | assumption | simp)+

lemma safe_cstr: "gives_reg pcs e \<Longrightarrow> safe pcs F (bc_cstr e) (\<lambda>r. {Reg r})"
  unfolding bc_cstr_def by (rule bind_reg [OF gives_regD] safe_emit_new | assumption | simp)+

end
