(* ===== verification/Bcgen_Safe_Cases.thy ===== *)
theory Bcgen_Safe_Cases
  imports Bcgen_Safe_Flow
begin

text \<open>The triples of blocks, jumps, loops, bindings, allocation forms, literals and calls.\<close>

section \<open>Scopes and blocks\<close>

lemma safe_locals_mark: "safe pcs F locals_mark (\<lambda>_. {})"
  unfolding locals_mark_def by (rule safe_asks) simp

lemma safe_locals_pop: "safe pcs F (locals_pop n) (\<lambda>_. {})"
  unfolding locals_pop_def by (rule safe_modify) (auto simp: same_code_def dest: in_set_takeD)

definition all_reg :: "nat list \<Rightarrow> u32 emit list \<Rightarrow> bool" where
  "all_reg pcs es \<longleftrightarrow> (\<forall>e \<in> set es. gives_reg pcs e)"

lemma safe_stmts: "all_reg pcs ss \<Longrightarrow> ss \<noteq> [] \<or> Reg r \<in> F \<Longrightarrow> safe pcs F (compile_stmts r ss) (\<lambda>r. {Reg r})"
proof (induction ss arbitrary: r F)
  case Nil
  then show ?case by (auto intro: safe_ret)
next
  case (Cons s ss)
  have "gives_reg pcs s" "all_reg pcs ss" using Cons.prems by (simp_all add: all_reg_def)
  then show ?case unfolding compile_stmts.simps by (intro bind_reg [OF gives_regD] Cons.IH) auto
qed

lemma safe_block:
  assumes "all_reg pcs ss" "ss \<noteq> []"
  shows "safe pcs F (bc_compile_block ss) (\<lambda>r. {Reg r})"
  unfolding bc_compile_block_def
  by (rule bind_none [OF safe_locals_mark] bind_reg [OF safe_stmts] bind_none [OF safe_locals_pop] safe_ret
      | (use assms in simp; fail) | simp)+

text \<open>A block for effect may be empty.\<close>

lemma safe_block_effect: "all_reg pcs ss \<Longrightarrow> safe pcs F (bc_compile_block ss) (\<lambda>_. {})"
proof (cases "ss = []")
  case True
  show ?thesis unfolding True bc_compile_block_def compile_stmts.simps
    by (rule bind_none safe_locals_mark safe_locals_pop safe_ret | simp)+
qed (rule safe_forget [OF safe_block])

section \<open>Jumps\<close>

text \<open>A change of the two fixup lists only.\<close>

lemma safe_fixups:
  assumes upd: "\<And>fc. upd fc = fc\<lparr>fc_break_fixups := b fc, fc_continue_fixups := c fc\<rparr>"
    and new: "\<And>fc i. i \<in> set (b fc) \<union> set (c fc) \<Longrightarrow>
      i \<in> set (fc_break_fixups fc) \<union> set (fc_continue_fixups fc) \<or> At i (OpCtl BcOp_Jump) \<in> F"
  shows "safe pcs F (modify upd) (\<lambda>_. {})"
proof (rule safe_grow)
  fix fc show "grows fc (snd (run_state (modify upd) fc)) \<and> fc_stopped (snd (run_state (modify upd) fc)) = fc_stopped fc"
    by (simp add: modify_def grows_def upd)
next
  fix fc r fc'
  assume run: "run_state (modify upd) fc = (r, fc')" and ok: "ctx_ok pcs fc" and F: "\<And>f. f \<in> F \<Longrightarrow> holds fc f"
  then have fc': "fc' = fc\<lparr>fc_break_fixups := b fc, fc_continue_fixups := c fc\<rparr>" by (simp add: modify_def upd)
  have at: "holds fc (At i (OpCtl BcOp_Jump))" if "i \<in> set (b fc) \<union> set (c fc)" for i
    using new [OF that] ok F unfolding ctx_ok_def by blast
  have "holds fc' f \<longleftrightarrow> holds fc f" for f by (cases f) (simp_all add: fc')
  then have "ctx_ok pcs fc'"
    by (intro ctx_ok_grows [OF ok]) (use at in \<open>auto simp: fc' grows_def\<close>)
  then show "ctx_ok pcs fc' \<and> (\<forall>f \<in> {}. holds fc' f)" by simp
qed

lemma safe_push_break: "At i (OpCtl BcOp_Jump) \<in> F \<Longrightarrow>
    safe pcs F (modify (\<lambda>fc. fc\<lparr>fc_break_fixups := fc_break_fixups fc @ [i]\<rparr>)) (\<lambda>_. {})"
  by (rule safe_fixups [where b = "\<lambda>fc. fc_break_fixups fc @ [i]" and c = fc_continue_fixups]) auto

lemma safe_push_continue: "At i (OpCtl BcOp_Jump) \<in> F \<Longrightarrow>
    safe pcs F (modify (\<lambda>fc. fc\<lparr>fc_continue_fixups := fc_continue_fixups fc @ [i]\<rparr>)) (\<lambda>_. {})"
  by (rule safe_fixups [where c = "\<lambda>fc. fc_continue_fixups fc @ [i]" and b = fc_break_fixups]) auto

lemma safe_unwind: "safe pcs F (unwind ss) (\<lambda>_. {})"
  by (induction ss arbitrary: F) (auto intro!: bind_emit)

lemma safe_unwind_scopes: "safe pcs F (bc_unwind_scratch_scopes n) (\<lambda>_. {})"
  unfolding bc_unwind_scratch_scopes_def by (rule bind_none safe_asks safe_unwind | simp)+

lemma safe_break: "safe pcs F bc_break (\<lambda>r. {Reg r})"
  unfolding bc_break_def
  by (rule bind_none [OF safe_asks] bind_none [OF safe_unwind_scopes] bind_emit bind_none [OF safe_push_break]
      safe_alloc_reg | simp)+

lemma safe_continue: "safe pcs F bc_continue (\<lambda>r. {Reg r})"
  unfolding bc_continue_def
  by (rule bind_none [OF safe_asks] bind_none [OF safe_unwind_scopes] bind_emit bind_none [OF safe_push_continue]
      safe_alloc_reg | simp)+

lemma safe_patch_all:
  "Tgt t \<in> F \<Longrightarrow> (\<And>i. i \<in> set is \<Longrightarrow> At i (OpCtl BcOp_Jump) \<in> F) \<Longrightarrow> safe pcs F (patch_all is t) (\<lambda>_. {})"
  by (induction "is") (auto intro!: bind_none safe_patch_a)

lemma safe_patch_fixups:
  assumes get: "\<And>fc. set (get fc) \<subseteq> set (fc_break_fixups fc) \<union> set (fc_continue_fixups fc)"
    and put: "\<And>xs F. (\<And>i. i \<in> set xs \<Longrightarrow> At i (OpCtl BcOp_Jump) \<in> F) \<Longrightarrow> safe pcs F (modify (put xs)) (\<lambda>_. {})"
    and t: "Tgt t \<in> F"
  shows "safe pcs F (do { fixups \<leftarrow> asks get; patch_all (drop n fixups) t; modify (put fixups) }) (\<lambda>_. {})"
proof (rule safe_bind)
  show "safe pcs F (asks get) (\<lambda>xs. (\<lambda>i. At i (OpCtl BcOp_Jump)) ` set xs)"
  proof (rule safe_asks)
    fix fc g
    assume ok: "ctx_ok pcs fc" and "g \<in> (\<lambda>i. At i (OpCtl BcOp_Jump)) ` set (get fc)"
    then obtain i where "g = At i (OpCtl BcOp_Jump)" "i \<in> set (get fc)" by blast
    then show "holds fc g" using ok get unfolding ctx_ok_def by blast
  qed
next
  fix xs
  show "safe pcs ((\<lambda>i. At i (OpCtl BcOp_Jump)) ` set xs \<union> F) (do { patch_all (drop n xs) t; modify (put xs) }) (\<lambda>_. {})"
    by (intro bind_none [OF safe_patch_all] put) (use t in \<open>auto dest: in_set_dropD\<close>)
qed

lemma safe_loop_patch_break: "Tgt t \<in> F \<Longrightarrow> safe pcs F (bc_loop_patch_break loop t) (\<lambda>_. {})"
  unfolding bc_loop_patch_break_def
  by (rule safe_patch_fixups [where put = "\<lambda>xs fc. fc\<lparr>fc_break_fixups := take (lc_break_mark loop) xs\<rparr>"],
      simp, rule safe_fixups [where c = fc_continue_fixups]) (auto dest: in_set_takeD)

lemma safe_loop_patch_continue: "Tgt t \<in> F \<Longrightarrow> safe pcs F (bc_loop_patch_continue loop t) (\<lambda>_. {})"
  unfolding bc_loop_patch_continue_def
  by (rule safe_patch_fixups [where put = "\<lambda>xs fc. fc\<lparr>fc_continue_fixups := take (lc_continue_mark loop) xs\<rparr>"],
      simp, rule safe_fixups [where b = fc_break_fixups]) (auto dest: in_set_takeD)

lemma safe_loop_begin: "safe pcs F bc_loop_begin (\<lambda>_. {})"
  unfolding bc_loop_begin_def by (rule safe_same) (simp_all add: same_code_def)

lemma safe_loop_end: "safe pcs F (bc_loop_end loop) (\<lambda>_. {})"
  unfolding bc_loop_end_def by (rule safe_modify) (simp add: same_code_def)

lemma safe_close_loop:
  "Tgt start \<in> F \<Longrightarrow> At jf (OpCtl BcOp_JumpIfFalse) \<in> F \<Longrightarrow> safe pcs F (close_loop loop start jf) (\<lambda>_. {})"
  unfolding close_loop_def
  by (rule bind_emit bind_code_size bind_none safe_patch_b safe_loop_patch_break safe_loop_end | simp)+

section \<open>Branches and loops\<close>

lemma safe_if_expr:
  assumes "gives_reg pcs c" "gives_reg pcs t" "\<And>x. e = Some x \<Longrightarrow> gives_reg pcs x"
  shows "safe pcs F (bc_if c t e) (\<lambda>r. {Reg r})"
  unfolding bc_if_def
  by (rule bind_emit bind_code_size bind_reg [OF safe_alloc_reg] bind_reg [OF gives_regD] bind_none [OF safe_option]
      bind_none [OF safe_patch_a] bind_none [OF safe_patch_b] safe_ret assms | assumption | simp)+

lemma safe_return_expr:
  assumes "\<And>x. e = Some x \<Longrightarrow> gives_reg pcs x"
  shows "safe pcs F (bc_return_expr e) (\<lambda>r. {Reg r})"
  unfolding bc_return_expr_def
  by (rule bind_none [OF safe_option] bind_none [OF safe_unwind_scopes] bind_emit bind_reg [OF gives_regD]
      safe_alloc_reg assms | assumption | simp)+

lemmas safe_loops = bind_none [OF safe_locals_mark] bind_none [OF safe_locals_pop] bind_none [OF safe_loop_begin]
  bind_none [OF safe_block_effect] bind_none [OF safe_loop_patch_continue] bind_none [OF safe_close_loop]
  bind_none [OF safe_bind_local] bind_none [OF safe_narrow_arith] bind_none [OF safe_patch_b]
  bind_emit bind_code_size bind_reg [OF gives_regD] bind_reg [OF safe_emit_new] bind_reg [OF safe_const_reg]
  safe_alloc_reg

lemma safe_while: "gives_reg pcs c \<Longrightarrow> all_reg pcs body \<Longrightarrow> safe pcs F (bc_while c body) (\<lambda>r. {Reg r})"
  unfolding bc_while_def by (rule safe_loops | assumption | simp)+

lemma safe_for_c:
  assumes "gives_reg pcs i" "gives_reg pcs c" "gives_reg pcs s" "all_reg pcs body"
  shows "safe pcs F (bc_for_c v i c s body) (\<lambda>r. {Reg r})"
  unfolding bc_for_c_def by (rule safe_loops assms | simp)+

lemma fine_counter:
  "Reg a \<in> F \<Longrightarrow> Reg b \<in> F \<Longrightarrow> Reg c \<in> F \<Longrightarrow> fine pcs F (counter_lt t) a b c"
  "Reg a \<in> F \<Longrightarrow> Reg b \<in> F \<Longrightarrow> Reg c \<in> F \<Longrightarrow> fine pcs F (counter_add t) a b c"
  by (simp_all add: counter_lt_def counter_add_def)

lemma safe_for_range:
  assumes "gives_reg pcs b" "gives_reg pcs e" "gives_reg pcs s" "all_reg pcs body"
  shows "safe pcs F (bc_for_range v t b e s body) (\<lambda>r. {Reg r})"
  unfolding bc_for_range_def by (rule safe_loops fine_counter assms | simp)+

lemma safe_parallel_for: "gives_reg pcs c \<Longrightarrow> all_reg pcs body \<Longrightarrow> safe pcs F (bc_parallel_for v t c body) (\<lambda>r. {Reg r})"
  unfolding bc_parallel_for_def by (rule safe_loops | assumption | simp)+

lemma safe_value_at: "Reg a \<in> F \<Longrightarrow> safe pcs F (value_at U t a) (\<lambda>r. {Reg r})"
  unfolding value_at_def by (rule safe_if safe_load_scalar safe_ret | simp)+

lemma safe_for_each:
  "gives_reg pcs coll \<Longrightarrow> all_reg pcs body \<Longrightarrow> safe pcs F (bc_for_each U i x t coll body) (\<lambda>r. {Reg r})"
  unfolding bc_for_each_def
  by (rule bind_xassert bind_none [OF safe_pointee_of] bind_none [OF safe_element_stride] bind_none [OF safe_option]
      safe_bind_local bind_reg [OF safe_if] bind_reg [OF safe_value_at] safe_loops safe_const_reg safe_emit_new
      | assumption | simp)+

lemma safe_slot_value: "safe pcs F (slot_value U t a off) (\<lambda>r. {Reg r})"
  unfolding slot_value_def
  by (cases "bc_field_is_embedded (un_ck U) t"; simp;
      (rule bind_reg [OF safe_alloc_reg] bind_load_op bind_emit safe_ret | simp)+)

lemma safe_bind_slot: "Reg idx \<in> F \<Longrightarrow> Reg a \<in> F \<Longrightarrow> safe pcs F (bind_slot U m i x kt vt l idx a) (\<lambda>_. {})"
  unfolding bind_slot_def
  by (rule bind_none [OF safe_option] bind_reg [OF safe_if] safe_value_at safe_slot_value safe_bind_local safe_ret
      | simp)+

lemma safe_for_each_slot:
  "gives_reg pcs coll \<Longrightarrow> all_reg pcs body \<Longrightarrow> safe pcs F (bc_for_each_slot U i x t coll body) (\<lambda>r. {Reg r})"
  unfolding bc_for_each_slot_def Let_def
  by (rule bind_none [OF safe_if] safe_map_key_of safe_pointee_of safe_ret_none bind_none [OF safe_slot_layout_for]
      bind_none [OF safe_bind_slot] safe_loops | assumption | simp)+

section \<open>Nodes\<close>

definition node_safe :: "nat list \<Rightarrow> node \<Rightarrow> bool" where
  "node_safe pcs e \<longleftrightarrow>
     gives_reg pcs (nd_code e) \<and> target_ok pcs (nd_target e)
     \<and> (\<forall>fill se b off F. nd_fields e = Some fill \<longrightarrow> safe pcs F (fill se b off) (\<lambda>_. {}))
     \<and> (\<forall>fill t b off F. nd_elements e = Some fill \<longrightarrow> safe pcs F (fill t b off) (\<lambda>_. {}))"

lemma node_safeD:
  "node_safe pcs e \<Longrightarrow> gives_reg pcs (nd_code e)"
  "node_safe pcs e \<Longrightarrow> target_ok pcs (nd_target e)"
  "node_safe pcs e \<Longrightarrow> nd_fields e = Some fill \<Longrightarrow> safe pcs F (fill se b off) (\<lambda>_. {})"
  "node_safe pcs e \<Longrightarrow> nd_elements e = Some fill' \<Longrightarrow> safe pcs F (fill' t b off) (\<lambda>_. {})"
  by (simp_all add: node_safe_def)

lemma safe_fill:
  "node_safe pcs e \<Longrightarrow> nd_fields e \<noteq> None \<Longrightarrow> safe pcs F (the (nd_fields e) se b off) (\<lambda>_. {})"
  "node_safe pcs e \<Longrightarrow> nd_elements e \<noteq> None \<Longrightarrow> safe pcs F (the (nd_elements e) t b off) (\<lambda>_. {})"
  by (auto simp: node_safe_def)

lemmas node_regD = gives_regD [OF node_safeD(1)]

section \<open>Bindings and allocation\<close>

lemma safe_bind_value: "node_safe pcs e \<Longrightarrow> safe pcs F (bind_value U e) (\<lambda>r. {Reg r})"
  unfolding bind_value_def by (rule bind_reg [OF node_regD] safe_if safe_value_copy safe_ret | assumption | simp)+

lemma safe_bind_all: "(\<And>n e. (n, e) \<in> set bs \<Longrightarrow> node_safe pcs e) \<Longrightarrow> safe pcs F (bind_all U bs) (\<lambda>_. {})"
proof (induction bs arbitrary: F)
  case (Cons b bs)
  obtain n e where b: "b = (n, e)" by (cases b)
  show ?case unfolding b bind_all.simps
    by (rule bind_reg [OF safe_bind_value] bind_reg [OF safe_bind_local_typed] Cons.IH | (use Cons.prems b in auto)[1])+
qed simp

lemma safe_let_expr:
  assumes "\<And>n e. (n, e) \<in> set bs \<Longrightarrow> node_safe pcs e" "all_reg pcs body" "body \<noteq> []"
  shows "safe pcs F (bc_let U bs body) (\<lambda>r. {Reg r})"
  unfolding bc_let_def
  by (rule bind_none [OF safe_locals_mark] bind_none [OF safe_bind_all] bind_reg [OF safe_block]
      bind_none [OF safe_locals_pop] safe_ret assms | assumption | simp)+

lemma safe_parallel:
  assumes "\<And>n e. (n, e) \<in> set bs \<Longrightarrow> node_safe pcs e" "all_reg pcs body"
  shows "safe pcs F (bc_parallel U bs body) (\<lambda>r. {Reg r})"
  unfolding bc_parallel_def
  by (rule bind_none [OF safe_locals_mark] bind_none [OF safe_bind_all] bind_none [OF safe_block_effect]
      bind_none [OF safe_locals_pop] safe_alloc_reg assms | assumption | simp)+

lemma safe_decl:
  assumes "\<And>e. init = Some e \<Longrightarrow> node_safe pcs e"
  shows "safe pcs F (bc_decl U name t init) (\<lambda>r. {Reg r})"
  unfolding bc_decl_def
  by (rule bind_reg [OF safe_option] bind_reg [OF safe_bind_local_typed] safe_zero_value safe_bind_value safe_ret assms
      | assumption | simp)+

lemma safe_push_scope: "safe pcs F (modify (\<lambda>fc. fc\<lparr>fc_scratch_scopes := f (fc_scratch_scopes fc)\<rparr>)) (\<lambda>_. {})"
  by (rule safe_modify) (simp add: same_code_def)

lemma safe_scratch:
  assumes "all_reg pcs body" "body \<noteq> []"
  shows "safe pcs F (bc_scratch v body) (\<lambda>r. {Reg r})"
  unfolding bc_scratch_def
  by (rule bind_none [OF safe_locals_mark] bind_reg [OF safe_emit_new] bind_none [OF safe_bind_local]
      bind_none [OF safe_push_scope] bind_reg [OF safe_block] bind_emit bind_none [OF safe_locals_pop] safe_ret assms
      | simp)+

lemma safe_push_alloc: "gives_reg pcs a \<Longrightarrow> gives_reg pcs c \<Longrightarrow> safe pcs F (bc_push_alloc U t z a c) (\<lambda>r. {Reg r})"
  unfolding bc_push_alloc_def
  by (rule bind_reg [OF gives_regD] bind_none [OF safe_element_stride] bind_reg [OF safe_const_reg]
      bind_reg [OF safe_emit_new] safe_emit_new | assumption | simp)+

lemma safe_push_copy: "gives_reg pcs a \<Longrightarrow> node_safe pcs v \<Longrightarrow> safe pcs F (bc_push_copy U a v) (\<lambda>r. {Reg r})"
  unfolding bc_push_copy_def
  by (rule bind_reg [OF gives_regD] bind_none [OF safe_layout_for] bind_reg [OF safe_const_reg]
      bind_reg [OF safe_emit_new] bind_none [OF safe_store_value] node_safeD(1) safe_ret | assumption | simp)+

lemma safe_alloc_expr: "gives_reg pcs c \<Longrightarrow> safe pcs F (bc_alloc_expr U t c) (\<lambda>r. {Reg r})"
  unfolding bc_alloc_expr_def
  by (rule bind_none [OF safe_element_stride] bind_reg [OF gives_regD] bind_reg [OF safe_const_reg]
      bind_reg [OF safe_emit_new] safe_emit_new | assumption | simp)+

lemma safe_widen: "Reg r \<in> F \<Longrightarrow> safe pcs F (widen_f32 t r) (\<lambda>r. {Reg r})"
  unfolding widen_f32_def by (rule safe_if safe_emit_new safe_ret | simp)+

lemma safe_checked_math:
  assumes "node_safe pcs x" "\<And>z. y = Some z \<Longrightarrow> gives_reg pcs z"
  shows "safe pcs F (bc_checked_math U m x y n n') (\<lambda>r. {Reg r})"
  unfolding bc_checked_math_def
  by (rule bind_reg [OF node_regD] bind_reg [OF safe_widen] bind_reg [OF safe_alloc_reg] bind_none [OF safe_if]
      bind_reg [OF safe_option] bind_xassert bind_emit bind_reg [OF safe_emit_new] bind_reg [OF safe_if] safe_emit_new
      safe_bool_t_result gives_regD assms safe_ret | assumption | simp)+

lemma safe_parse_number: "gives_reg pcs e \<Longrightarrow> safe pcs F (bc_parse_number U k n e) (\<lambda>r. {Reg r})"
  unfolding bc_parse_number_def
  by (rule bind_reg [OF gives_regD] bind_reg [OF safe_emit_new] safe_bool_t_result | assumption | simp)+

section \<open>Dynamic arrays and handles\<close>

lemma safe_element_equals:
  "comparators_ok pcs U \<Longrightarrow> Reg a \<in> F \<Longrightarrow> Reg b \<in> F \<Longrightarrow> safe pcs F (element_equals U t a b) (\<lambda>r. {Reg r})"
  unfolding element_equals_def
  by (rule safe_if bind_reg [OF safe_value_cmp] bind_reg [OF safe_const_reg] bind_reg [OF safe_load_scalar]
      safe_emit_new | assumption | simp)+

lemma safe_search_loop:
  assumes "comparators_ok pcs U" "Reg v \<in> F" "Reg x \<in> F" "Reg n \<in> F" "Reg i \<in> F"
    and "\<And>G one. F \<subseteq> G \<Longrightarrow> Reg one \<in> G \<Longrightarrow> safe pcs G (found one) (\<lambda>_. {})"
  shows "safe pcs F (search_loop U t v x n i found) (\<lambda>_. {})"
  unfolding search_loop_def
  by (rule bind_emit bind_code_size bind_reg [OF safe_emit_new] bind_reg [OF safe_const_reg]
      bind_none [OF safe_element_stride] bind_reg [OF safe_element_equals] bind_none [OF assms(6)]
      bind_none [OF safe_patch_b] safe_patch_a subset_refl subset_insertI2
      | (use assms(1-5) in simp; fail))+

lemma safe_index_of:
  assumes "comparators_ok pcs U" "node_safe pcs v" "gives_reg pcs x"
  shows "safe pcs F (bc_index_of U n v x) (\<lambda>r. {Reg r})"
  unfolding bc_index_of_def
  by (rule bind_none [OF safe_pointee_of] bind_reg [OF node_regD] bind_reg [OF gives_regD] bind_reg [OF safe_emit_new]
      bind_reg [OF safe_const_reg] bind_none [OF safe_search_loop] bind_emit safe_ret_none safe_bool_t_result assms
      | assumption | simp)+

lemma safe_dyn_push_target:
  "safe pcs F (dyn_push_target U name) (\<lambda>p. case fst p of None \<Rightarrow> {} | Some l \<Rightarrow> {Reg (bl_reg l)})"
  unfolding dyn_push_target_def
  by (rule bind_lookup safe_option bind_xassert bind_need safe_ret | simp)+

lemma safe_dyn_push:
  assumes "gives_reg pcs a" "node_safe pcs v"
  shows "safe pcs F (bc_dyn_push U name a v) (\<lambda>r. {Reg r})"
proof -
  have rest: "safe pcs ((case fst p of None \<Rightarrow> {} | Some l \<Rightarrow> {Reg (bl_reg l)}) \<union> insert (Reg ar) G)
      (case p of (loc, global_slot) \<Rightarrow>
         do { ptr_reg \<leftarrow> (case loc of Some l \<Rightarrow> ret (bl_reg l) | None \<Rightarrow> emit_new (OpData BcOp_LoadGlobal) global_slot 0);
              f loc global_slot ptr_reg }) H"
    if "\<And>loc slot ptr. safe pcs (insert (Reg ptr) (insert (Reg ar) G)) (f loc slot ptr) H"
    for p ar G f H
  proof -
    obtain loc slot where p: "p = (loc, slot)" by (cases p)
    have "safe pcs ((case loc of None \<Rightarrow> {} | Some l \<Rightarrow> {Reg (bl_reg l)}) \<union> insert (Reg ar) G)
        (case loc of Some l \<Rightarrow> ret (bl_reg l) | None \<Rightarrow> emit_new (OpData BcOp_LoadGlobal) slot 0) (\<lambda>r. {Reg r})"
      by (cases loc) (auto intro: safe_ret safe_emit_new)
    then show ?thesis unfolding p by (simp, intro bind_reg safe_weaken [OF that]) auto
  qed
  show ?thesis unfolding bc_dyn_push_def Let_def
    by (rule bind_reg [OF gives_regD [OF assms(1)]] safe_bind [OF safe_dyn_push_target] rest
        bind_none [OF safe_element_stride] bind_reg [OF safe_emit_new] bind_emit bind_code_size
        bind_none [OF safe_option] safe_ret_none bind_none [OF safe_patch_b] bind_reg [OF node_regD [OF assms(2)]]
        bind_reg [OF safe_const_reg] bind_none [OF safe_store_value] safe_alloc_reg | simp)+
qed

lemma safe_commit: "gives_reg pcs a \<Longrightarrow> node_safe pcs s \<Longrightarrow> safe pcs F (bc_commit U a s) (\<lambda>r. {Reg r})"
  unfolding bc_commit_def
  by (rule bind_xassert bind_none [OF safe_pointee_of] bind_none [OF safe_element_stride] bind_reg [OF gives_regD]
      node_safeD(1) bind_emit safe_ret | assumption | simp)+

lemma safe_pool_register: "safe pcs F (pool_register U n) (\<lambda>r. {Reg r})"
  unfolding pool_register_def by (rule bind_need safe_emit_new | simp)+

lemma safe_handle_pool_init:
  "gives_reg pcs a \<Longrightarrow> gives_reg pcs c \<Longrightarrow> safe pcs F (bc_handle_pool_init U t a c) (\<lambda>r. {Reg r})"
  unfolding bc_handle_pool_init_def
  by (rule bind_reg [OF safe_pool_register] bind_none [OF safe_layout_for] bind_reg [OF safe_const_reg] bind_emit
      bind_reg [OF gives_regD] safe_alloc_reg | assumption | simp)+

lemma safe_handle_alloc: "safe pcs F (bc_handle_alloc U n) (\<lambda>r. {Reg r})"
  unfolding bc_handle_alloc_def by (rule bind_reg [OF safe_pool_register] safe_emit_new | simp)+

section \<open>Literals filled in place\<close>

lemma safe_struct_fields_into:
  "(\<And>n e. (n, e) \<in> set fis \<Longrightarrow> node_safe pcs e) \<Longrightarrow>
   safe pcs F (bc_compile_struct_fields_into U fis se b off) (\<lambda>_. {})"
proof (induction fis arbitrary: F)
  case (Cons fi fis)
  obtain n e where fi: "fi = (n, e)" by (cases fi)
  have e: "node_safe pcs e" using Cons.prems fi by auto
  have IH: "safe pcs G (bc_compile_struct_fields_into U fis se b off) (\<lambda>_. {})" for G
    by (rule Cons.IH) (use Cons.prems in auto)
  show ?case unfolding fi bc_compile_struct_fields_into.simps Let_def
    by (rule bind_none [OF safe_field_of] bind_none [OF safe_if] safe_if safe_option bind_none [OF safe_struct_named]
        node_safeD(3) [OF e] node_safeD(4) [OF e] bind_none [OF safe_layout_for] bind_reg [OF node_regD [OF e]]
        safe_copy_bytes safe_copy_boxed_string safe_fill_string_field bind_none [OF safe_pointee_of] safe_store_scalar
        IH | assumption)+
qed simp

lemma safe_fill_elements:
  "(\<And>e. e \<in> set es \<Longrightarrow> node_safe pcs e) \<Longrightarrow> safe pcs F (fill_elements U es t b off st) (\<lambda>_. {})"
proof (induction es arbitrary: F off)
  case (Cons e es)
  have e: "node_safe pcs e" using Cons.prems by auto
  have IH: "safe pcs G (fill_elements U es t b off' st) (\<lambda>_. {})" for G off'
    by (rule Cons.IH) (use Cons.prems in simp)
  show ?case unfolding fill_elements.simps
    by (rule bind_none [OF safe_if] safe_if bind_none [OF safe_struct_named] safe_fill [OF e]
        bind_reg [OF node_regD [OF e]] safe_fill_string_field bind_none [OF safe_pointee_of] safe_store_scalar
        safe_unsupported IH | (erule conjunct2; fail))+
qed simp

lemma safe_array_elements_into:
  "(\<And>e. e \<in> set es \<Longrightarrow> node_safe pcs e) \<Longrightarrow> safe pcs F (bc_compile_array_elements_into U es t b off) (\<lambda>_. {})"
  unfolding bc_compile_array_elements_into_def
  by (rule bind_none [OF safe_element_stride] safe_fill_elements | assumption)+

lemma safe_struct_literal:
  assumes "\<And>n e. (n, e) \<in> set fis \<Longrightarrow> node_safe pcs e"
  shows "safe pcs F (bc_struct_literal U n fis) (\<lambda>r. {Reg r})"
  unfolding bc_struct_literal_def
  by (rule bind_none [OF safe_struct_named] bind_none [OF safe_layout_for] bind_reg [OF safe_alloc_for]
      bind_none [OF safe_struct_fields_into] safe_ret assms | assumption | simp)+

lemma safe_array_literal:
  assumes "\<And>e. e \<in> set es \<Longrightarrow> node_safe pcs e"
  shows "safe pcs F (bc_array_literal U t es) (\<lambda>r. {Reg r})"
  unfolding bc_array_literal_def
  by (rule bind_xassert bind_none [OF safe_layout_for] bind_reg [OF safe_alloc_for] bind_none [OF safe_pointee_of]
      bind_none [OF safe_array_elements_into] safe_ret assms | assumption | simp)+

end
