(* ===== verification/Bcgen_Safe_Calls.thy ===== *)
theory Bcgen_Safe_Calls
  imports Bcgen_Safe_Cases
begin

text \<open>The triples of the calls: the builtins and the general call.\<close>

section \<open>Arguments\<close>

definition all_nodes :: "nat list \<Rightarrow> node list \<Rightarrow> bool" where
  "all_nodes pcs es \<longleftrightarrow> (\<forall>e \<in> set es. node_safe pcs e)"

lemma all_nodes_simps [simp]:
  "all_nodes pcs []" "all_nodes pcs (e # es) \<longleftrightarrow> node_safe pcs e \<and> all_nodes pcs es"
  by (simp_all add: all_nodes_def)

lemma all_nodes_drop: "all_nodes pcs es \<Longrightarrow> all_nodes pcs (drop n es)"
  by (auto simp: all_nodes_def dest: in_set_dropD)

lemma node_safe_arg: "all_nodes pcs args \<Longrightarrow> node_safe pcs (arg args i)"
proof (cases "i < length args")
  case True
  moreover assume "all_nodes pcs args"
  ultimately show ?thesis by (simp add: arg_def all_nodes_def)
next
  case False
  have "safe pcs F (do { xassert False; ret 0 }) (\<lambda>r. {Reg r})" for F
    by (rule bind_xassert safe_ret | simp)+
  then show ?thesis using False by (simp add: arg_def node_safe_def gives_regI)
qed

lemma safe_arg: "all_nodes pcs args \<Longrightarrow> safe pcs F (nd_code (arg args i)) (\<lambda>r. {Reg r})"
  by (rule node_regD [OF node_safe_arg])

lemma safe_void_result: "safe pcs F void_result (\<lambda>r. {Reg r})"
  unfolding void_result_def by (rule safe_alloc_reg)

lemma safe_size_arg: "all_nodes pcs args \<Longrightarrow> safe pcs F (bc_compile_size_arg (arg args i)) (\<lambda>r. {Reg r})"
  unfolding bc_compile_size_arg_def
  by (rule bind_reg [OF safe_arg] bind_reg [OF safe_widen] safe_if safe_emit_new safe_ret | assumption | simp)+

lemmas safe_call = bind_reg [OF safe_arg] bind_reg [OF safe_size_arg] bind_reg [OF safe_emit_new]
  bind_reg [OF safe_const_reg] bind_emit safe_const_reg safe_emit_new safe_void_result safe_ret

section \<open>Arenas, handles and lanes\<close>

lemma safe_create: "all_nodes pcs args \<Longrightarrow> safe pcs F (call_create args) (\<lambda>r. {Reg r})"
  unfolding call_create_def by (rule bind_reg [OF safe_if] safe_arg safe_call | assumption | simp)+

lemma safe_arena_end: "all_nodes pcs args \<Longrightarrow> safe pcs F (call_arena_end op args) (\<lambda>r. {Reg r})"
  unfolding call_arena_end_def by (rule safe_call | assumption | simp)+

lemma safe_mark: "all_nodes pcs args \<Longrightarrow> safe pcs F (call_mark args) (\<lambda>r. {Reg r})"
  unfolding call_mark_def by (rule safe_call | assumption | simp)+

lemma safe_pop: "all_nodes pcs args \<Longrightarrow> safe pcs F (call_pop args) (\<lambda>r. {Reg r})"
  unfolding call_pop_def by (rule safe_call | assumption | simp)+

lemma safe_free: "all_nodes pcs args \<Longrightarrow> safe pcs F (call_free args) (\<lambda>r. {Reg r})"
  unfolding call_free_def by (rule safe_call | assumption | simp)+

lemma safe_handle: "all_nodes pcs args \<Longrightarrow> safe pcs F (call_handle U callee args) (\<lambda>r. {Reg r})"
  unfolding call_handle_def
  by (rule bind_reg [OF safe_pool_register] safe_if safe_truth_of safe_call | assumption | simp)+

lemma safe_dyn_count: "all_nodes pcs args \<Longrightarrow> safe pcs F (call_dyn_count args) (\<lambda>r. {Reg r})"
  unfolding call_dyn_count_def by (rule safe_call | assumption | simp)+

text \<open>A chain of builtins is safe when each of them is.\<close>

definition some_safe :: "nat list \<Rightarrow> fact set \<Rightarrow> u32 emit option \<Rightarrow> bool" where
  "some_safe pcs F b \<longleftrightarrow> (\<forall>c. b = Some c \<longrightarrow> safe pcs F c (\<lambda>r. {Reg r}))"

lemma some_safe_if:
  "safe pcs F c (\<lambda>r. {Reg r}) \<Longrightarrow> some_safe pcs F b \<Longrightarrow> some_safe pcs F (if p then Some c else b)"
  by (simp add: some_safe_def)

lemma some_safe_none: "some_safe pcs F None"
  by (simp add: some_safe_def)

lemma safe_call_memory: "all_nodes pcs args \<Longrightarrow> some_safe pcs F (call_memory U callee args)"
  unfolding call_memory_def
  by (rule some_safe_if some_safe_none safe_create safe_arena_end safe_mark safe_pop safe_free safe_handle
      safe_const_reg safe_void_result safe_dyn_count safe_emit_new | assumption | (simp; fail))+

section \<open>Containers\<close>

lemma safe_swap: "all_nodes pcs args \<Longrightarrow> safe pcs F (call_swap U args) (\<lambda>r. {Reg r})"
  unfolding call_swap_def Let_def
  by (rule safe_if bind_none [OF safe_layout_for] bind_reg [OF safe_value_copy] bind_none [OF safe_copy_bytes]
      bind_none [OF safe_lvalue_write] node_safeD(2) [OF node_safe_arg] safe_call | assumption | simp)+

lemma safe_len: "all_nodes pcs args \<Longrightarrow> safe pcs F (call_len args) (\<lambda>r. {Reg r})"
  unfolding call_len_def by (rule safe_if safe_call | assumption | simp)+

lemma safe_nth_checked: "all_nodes pcs args \<Longrightarrow> safe pcs F (call_nth_checked U args) (\<lambda>r. {Reg r})"
  unfolding call_nth_checked_def
  by (rule bind_none [OF safe_pointee_of] bind_none [OF safe_element_stride] bind_reg [OF safe_if]
      bind_reg [OF safe_alloc_reg] bind_code_size bind_none [OF safe_patch_a] bind_none [OF safe_patch_b]
      bind_none [OF safe_emit_const] safe_call | assumption | simp)+

lemma safe_vector_clear: "all_nodes pcs args \<Longrightarrow> safe pcs F (call_vector_clear args) (\<lambda>r. {Reg r})"
  unfolding call_vector_clear_def
  by (rule bind_code_size bind_none [OF safe_patch_b] safe_call | assumption | simp)+

lemma safe_move_element:
  "Reg v \<in> F \<Longrightarrow> Reg st \<in> F \<Longrightarrow> Reg d \<in> F \<Longrightarrow> Reg s \<in> F \<Longrightarrow> safe pcs F (move_element U t v st d s) (\<lambda>_. {})"
  unfolding move_element_def
  by (rule bind_reg [OF safe_value_at] safe_store_value safe_call | simp)+

lemma safe_shift_elements:
  assumes "Reg v \<in> F" "Reg st \<in> F" "Reg one \<in> F" "Reg i \<in> F" "Reg n \<in> F"
  shows "safe pcs F (shift_elements U t v st one i n) (\<lambda>_. {})"
  unfolding shift_elements_def
  by (rule bind_code_size bind_none [OF safe_move_element] safe_patch_b safe_call | (use assms in simp; fail) | simp)+

lemma safe_vector_remove: "all_nodes pcs args \<Longrightarrow> safe pcs F (call_vector_remove U is_swap args) (\<lambda>r. {Reg r})"
  unfolding call_vector_remove_def
  by (rule bind_none [OF safe_pointee_of] bind_none [OF safe_element_stride] bind_none [OF safe_if] safe_move_element
      safe_shift_elements bind_code_size bind_none [OF safe_patch_b] safe_call | assumption | simp)+

lemma safe_vector_contains:
  "comparators_ok pcs U \<Longrightarrow> all_nodes pcs args \<Longrightarrow> safe pcs F (call_vector_contains U args) (\<lambda>r. {Reg r})"
  unfolding call_vector_contains_def
  by (rule bind_none [OF safe_pointee_of] bind_none [OF safe_search_loop] safe_ret_none safe_call | assumption | simp)+

section \<open>Maps and sets\<close>

lemma safe_coll_slot_layout: "safe pcs F (coll_slot_layout U is_map t) (\<lambda>_. {})"
  unfolding coll_slot_layout_def
  by (rule bind_none [OF safe_if] safe_map_key_of safe_pointee_of safe_ret_none bind_none [OF safe_slot_layout_for])+

lemma bind_coll_slot_layout:
  "(\<And>k v l. safe pcs F (f k v l) H) \<Longrightarrow> safe pcs F (coll_slot_layout U is_map t \<bind> (\<lambda>(k, v, l). f k v l)) H"
  by (rule bind_none [OF safe_coll_slot_layout]) (simp split: prod.splits)

lemma safe_layout_register: "safe pcs F (layout_register U l) (\<lambda>r. {Reg r})"
proof -
  have c: "safe pcs G (bc_add_layout_const U l \<bind> f) H" if "\<And>c. safe pcs (insert (Con c) G) (f c) H"
    for G f and H :: "u32 \<Rightarrow> fact set"
    by (rule safe_bind [OF safe_add_layout_const]) (use that in simp)
  show ?thesis unfolding layout_register_def
    by (rule bind_reg [OF safe_alloc_reg] c bind_emit safe_ret | simp)+
qed

lemma safe_map_key_args:
  assumes "node_safe pcs c" "node_safe pcs k"
  shows "safe pcs F (bc_compile_map_key_args U c k) (\<lambda>_. {})"
proof -
  have block: "safe pcs G (arg_block [x, y, z]) (\<lambda>_. {})" if "Reg x \<in> G" "Reg y \<in> G" "Reg z \<in> G" for x y z G
    by (rule safe_forget [OF safe_arg_block]) (use that in auto)
  show ?thesis unfolding bc_compile_map_key_args_def
    by (rule bind_coll_slot_layout bind_reg [OF node_regD] bind_reg [OF safe_addr_of] bind_reg [OF safe_layout_register]
        block assms | simp)+
qed

lemma safe_map_set: "all_nodes pcs args \<Longrightarrow> safe pcs F (call_map_set U is_map args) (\<lambda>r. {Reg r})"
  unfolding call_map_set_def
  by (rule bind_coll_slot_layout bind_reg [OF safe_addr_of] bind_reg [OF safe_if] safe_addr_of
      bind_reg [OF safe_layout_register] bind_arg_block safe_call | assumption | (auto; fail) | simp)+

lemma safe_map_get: "all_nodes pcs args \<Longrightarrow> safe pcs F (call_map_get U args) (\<lambda>r. {Reg r})"
  unfolding call_map_get_def
  by (rule bind_none [OF safe_map_key_args] node_safe_arg safe_emit_new | assumption | simp)+

lemma safe_map_contains: "all_nodes pcs args \<Longrightarrow> safe pcs F (call_map_contains U args) (\<lambda>r. {Reg r})"
  unfolding call_map_contains_def
  by (rule bind_none [OF safe_map_key_args] bind_reg [OF safe_emit_new] safe_truth_of node_safe_arg | assumption | simp)+

lemma safe_map_remove: "all_nodes pcs args \<Longrightarrow> safe pcs F (call_map_remove U args) (\<lambda>r. {Reg r})"
  unfolding call_map_remove_def
  by (rule bind_none [OF safe_map_key_args] node_safe_arg safe_emit_new | assumption | simp)+

lemma safe_call_container:
  "comparators_ok pcs U \<Longrightarrow> all_nodes pcs args \<Longrightarrow> some_safe pcs F (call_container U callee args)"
  unfolding call_container_def Let_def
  by (rule some_safe_if some_safe_none safe_swap safe_len safe_nth_checked safe_vector_clear safe_vector_remove
      safe_vector_contains safe_map_set safe_map_get safe_map_contains safe_map_remove | assumption)+

section \<open>Strings, numbers and memory\<close>

lemma safe_string_match: "all_nodes pcs args \<Longrightarrow> safe pcs F (call_string_match args) (\<lambda>r. {Reg r})"
  unfolding call_string_match_def
  by (rule bind_arg_block safe_call | assumption | (auto; fail) | simp)+

lemma safe_abs: "all_nodes pcs args \<Longrightarrow> safe pcs F (call_abs args) (\<lambda>r. {Reg r})"
  unfolding call_abs_def Let_def
  by (rule safe_select fine_value safe_call | assumption | simp)+

lemma safe_clamp: "all_nodes pcs args \<Longrightarrow> safe pcs F (call_clamp args) (\<lambda>r. {Reg r})"
  unfolding call_clamp_def Let_def
  by (rule bind_reg [OF safe_select] safe_select fine_value safe_call | assumption | simp)+

lemma safe_min_max: "all_nodes pcs args \<Longrightarrow> safe pcs F (call_min_max want_lt args) (\<lambda>r. {Reg r})"
  unfolding call_min_max_def Let_def
  by (rule safe_select fine_value safe_call | assumption | simp)+

lemma safe_mem_compare: "all_nodes pcs args \<Longrightarrow> safe pcs F (call_mem_compare args) (\<lambda>r. {Reg r})"
  unfolding call_mem_compare_def
  by (rule bind_arg_block safe_call | assumption | (auto; fail) | simp)+

lemma safe_mem_zero: "all_nodes pcs args \<Longrightarrow> safe pcs F (call_mem_zero args) (\<lambda>r. {Reg r})"
  unfolding call_mem_zero_def by (rule safe_call | assumption | simp)+

lemma safe_mem_write: "all_nodes pcs args \<Longrightarrow> safe pcs F (call_mem_write is_set args) (\<lambda>r. {Reg r})"
  unfolding call_mem_write_def
  by (rule bind_reg [OF safe_if] safe_arg safe_size_arg safe_call | assumption | simp)+

lemma safe_trig: "all_nodes pcs args \<Longrightarrow> safe pcs F (call_trig callee args) (\<lambda>r. {Reg r})"
  unfolding call_trig_def Let_def
  by (rule bind_reg [OF safe_widen] bind_reg [OF safe_alloc_reg] bind_none [OF safe_if] safe_if safe_ret_none safe_call
      | assumption | simp)+

lemma safe_align: "all_nodes pcs args \<Longrightarrow> safe pcs F (call_align callee args) (\<lambda>r. {Reg r})"
  unfolding call_align_def by (rule safe_if safe_call | assumption | simp)+

section \<open>Printing\<close>

lemma safe_print_value: "node_safe pcs e \<Longrightarrow> safe pcs F (print_value U e) (\<lambda>r. {Reg r})"
  unfolding print_value_def
  by (rule bind_reg [OF node_regD] safe_if safe_value_copy safe_emit_new | assumption | simp)+

lemma safe_print_values: "all_nodes pcs es \<Longrightarrow> safe pcs F (print_values U es) (\<lambda>_. {})"
proof (induction es arbitrary: F)
  case (Cons e es)
  then show ?case by simp (rule bind_reg [OF safe_print_value] bind_none [OF Cons.IH] | simp)+
qed simp

lemma safe_print_chunk: "safe pcs F (print_chunk U s h chunk) (\<lambda>_. {})"
  unfolding print_chunk_def by (rule safe_if bind_reg [OF safe_string_literal] bind_emit safe_ret_none | simp)+

lemma safe_print_one: "safe pcs F (print_one s h v) (\<lambda>_. {})"
  unfolding print_one_def by (rule bind_need bind_emit safe_ret_none | simp)+

lemma safe_print_template: "safe pcs F (print_template U s h cs chunk vs) (\<lambda>_. {})"
proof (induction U s h cs chunk vs arbitrary: F rule: print_template.induct)
  case (1 U s h chunk vs)
  show ?case by (simp add: safe_print_chunk)
next
  case (2 U s h c cs chunk vs)
  have next_value: "safe pcs G (case vs of [] \<Rightarrow> do { xassert False; ret (TypeKind_I64, 0) } | w # ws \<Rightarrow> ret w) (\<lambda>_. {})" for G
    by (cases vs) (simp_all, rule bind_none [OF safe_xassert], simp)
  show ?case unfolding print_template.simps
    by (rule safe_if bind_none [OF safe_print_chunk] bind_none [OF next_value] bind_none [OF safe_print_one] 2 | assumption)+
qed

lemma safe_print: "all_nodes pcs args \<Longrightarrow> safe pcs F (call_print U is_println args) (\<lambda>r. {Reg r})"
  unfolding call_print_def Let_def
  by (rule bind_none [OF safe_if] bind_none [OF safe_need_none] bind_none [OF safe_print_values]
      bind_none [OF safe_print_template] safe_print_chunk safe_forget [OF safe_arg] safe_ret_none safe_void_result
      all_nodes_drop | assumption)+

lemma safe_call_value: "all_nodes pcs args \<Longrightarrow> some_safe pcs F (call_value U callee args)"
  unfolding call_value_def Let_def
  by (rule some_safe_if some_safe_none safe_string_match safe_abs safe_clamp safe_min_max safe_mem_compare safe_mem_zero
      safe_mem_write safe_trig safe_align safe_print | assumption)+

section \<open>The general call\<close>

lemma safe_pass_value: "node_safe pcs e \<Longrightarrow> safe pcs F (pass_value U e) (\<lambda>r. {Reg r})"
  unfolding pass_value_def by (rule bind_reg [OF node_regD] safe_if safe_value_copy safe_ret | assumption | simp)+

lemma safe_pass_args: "all_nodes pcs es \<Longrightarrow> Regs slot (length es) \<in> F \<Longrightarrow> safe pcs F (pass_args U slot es) (\<lambda>_. {})"
proof (induction es arbitrary: slot F)
  case (Cons e es)
  have "holds fc (Reg slot)" "holds fc (Regs (slot + 1) (length es))" if "\<And>f. f \<in> F \<Longrightarrow> holds fc f" for fc
    using that [OF Cons.prems(2)] unat_plus_one_le [of slot] by auto
  then show ?case unfolding pass_args.simps
    by (intro safe_more [of F "Reg slot"] safe_more [of "insert (Reg slot) F" "Regs (slot + 1) (length es)"]
        bind_reg [OF safe_pass_value] bind_emit Cons.IH) (use Cons.prems in \<open>auto\<close>)
qed simp

lemma safe_general:
  assumes "arity_ok pcs U callee (length args)" "all_nodes pcs args"
  shows "safe pcs F (call_general U callee args) (\<lambda>r. {Reg r})"
proof -
  have call: "safe pcs G (do { _ \<leftarrow> bc_emit (OpCtl BcOp_Call) dst i first; ret () }) (\<lambda>_. {})"
    if "bc_fn_table_try_lookup (un_fn_table U) callee = Some i" "Regs first (length args) \<in> G" "Reg dst \<in> G" for i first dst G
  proof (rule bind_none [OF safe_forget [OF safe_emit_call]])
    show "unat i < length pcs" "pcs ! unat i \<le> length args" using assms(1) that(1) by (auto simp: arity_ok_def)
  qed (use that in simp_all)
  show ?thesis unfolding call_general_def
    by (rule bind_reserve bind_none [OF safe_pass_args [OF assms(2)]] bind_reg [OF safe_alloc_reg] bind_lookup
        bind_none [OF safe_option] safe_option call bind_emit safe_ret_none safe_if safe_unsupported safe_ret
        | assumption | (simp; fail))+
qed

lemma safe_bc_call:
  assumes "comparators_ok pcs U" "arity_ok pcs U callee (length args)" "all_nodes pcs args"
  shows "safe pcs F (bc_call U callee args) (\<lambda>r. {Reg r})"
  using safe_call_memory [OF assms(3)] safe_call_container [OF assms(1,3)] safe_call_value [OF assms(3)]
    safe_general [OF assms(2,3)]
  by (simp add: bc_call_def some_safe_def split: option.splits)

end
