(* ===== verification/Bcgen_Safe_Program.thy ===== *)
theory Bcgen_Safe_Program
  imports Bcgen_Safe_Calls
begin

text \<open>
  The triple of \<^verbatim>\<open>bc_compile_expr\<close>, the chunks, and what it amounts to for a whole program: the
  generator's output passes the verifier of \<^verbatim>\<open>bcio.c\<close>, and its register operands are inside their
  windows, which the verifier does not check.
\<close>

section \<open>Expressions\<close>

text \<open>What is relied on of a node: a call of a compiled function passes at least its parameters, and a
  block whose value is used is not empty.\<close>

fun node_ok :: "nat list \<Rightarrow> bc_unit \<Rightarrow> texpr \<Rightarrow> bool" where
  "node_ok pcs U (Call a callee args) = arity_ok pcs U callee (length args)"
| "node_ok pcs U (LetExpr a bs body) = (body \<noteq> [])"
| "node_ok pcs U (ScratchExpr a var body) = (body \<noteq> [])"
| "node_ok pcs U (Block a body) = (body \<noteq> [])"
| "node_ok pcs U e = True"

definition tree_ok :: "nat list \<Rightarrow> bc_unit \<Rightarrow> texpr \<Rightarrow> bool" where
  "tree_ok pcs U e \<longleftrightarrow> list_all (node_ok pcs U) (nodes_of e)"

lemma tree_ok_simps [simp]:
  "tree_ok pcs U (Unary a k e) = tree_ok pcs U e"
  "tree_ok pcs U (Binary a k' l r) = (tree_ok pcs U l \<and> tree_ok pcs U r)"
  "tree_ok pcs U (IfExpr a c t ex) = (tree_ok pcs U c \<and> tree_ok pcs U t \<and> (\<forall>x. ex = Some x \<longrightarrow> tree_ok pcs U x))"
  "tree_ok pcs U (WhileExpr a c body) = (tree_ok pcs U c \<and> (\<forall>s \<in> set body. tree_ok pcs U s))"
  "tree_ok pcs U (ForCExpr a v l c r body) =
     (tree_ok pcs U l \<and> tree_ok pcs U c \<and> tree_ok pcs U r \<and> (\<forall>s \<in> set body. tree_ok pcs U s))"
  "tree_ok pcs U (ForRangeExpr a v l c r body) =
     (tree_ok pcs U l \<and> tree_ok pcs U c \<and> tree_ok pcs U r \<and> (\<forall>s \<in> set body. tree_ok pcs U s))"
  "tree_ok pcs U (ForEachExpr a i v c body) = (tree_ok pcs U c \<and> (\<forall>s \<in> set body. tree_ok pcs U s))"
  "tree_ok pcs U (LetExpr a bs body) =
     (body \<noteq> [] \<and> (\<forall>(n, x) \<in> set bs. tree_ok pcs U x) \<and> (\<forall>s \<in> set body. tree_ok pcs U s))"
  "tree_ok pcs U (ParallelExpr a bs body) =
     ((\<forall>(n, x) \<in> set bs. tree_ok pcs U x) \<and> (\<forall>s \<in> set body. tree_ok pcs U s))"
  "tree_ok pcs U (ParallelForExpr a v c body) = (tree_ok pcs U c \<and> (\<forall>s \<in> set body. tree_ok pcs U s))"
  "tree_ok pcs U (ScratchExpr a v body) = (body \<noteq> [] \<and> (\<forall>s \<in> set body. tree_ok pcs U s))"
  "tree_ok pcs U (CheckedMath a m l ex n1 n2) = (tree_ok pcs U l \<and> (\<forall>x. ex = Some x \<longrightarrow> tree_ok pcs U x))"
  "tree_ok pcs U (ReturnExpr a ex) = (\<forall>x. ex = Some x \<longrightarrow> tree_ok pcs U x)"
  "tree_ok pcs U (Decl a dk n ty ex) = (\<forall>x. ex = Some x \<longrightarrow> tree_ok pcs U x)"
  "tree_ok pcs U (Block a body) = (body \<noteq> [] \<and> (\<forall>s \<in> set body. tree_ok pcs U s))"
  "tree_ok pcs U (StructLiteral a n bs) = (\<forall>(n, x) \<in> set bs. tree_ok pcs U x)"
  "tree_ok pcs U (ArrayLiteral a body) = (\<forall>s \<in> set body. tree_ok pcs U s)"
  "tree_ok pcs U (Call a callee args) =
     (arity_ok pcs U callee (length args) \<and> (\<forall>s \<in> set args. tree_ok pcs U s))"
  by (auto simp: tree_ok_def list_all_iff split: option.splits)

lemma node_safe_plain: "(\<And>F. safe pcs F c (\<lambda>r. {Reg r})) \<Longrightarrow> node_safe pcs (plain a c)"
  by (simp add: node_safe_def plain_def gives_regI)

lemma node_safe_node:
  "(\<And>F. safe pcs F c (\<lambda>r. {Reg r})) \<Longrightarrow> target_ok pcs tg \<Longrightarrow> node_safe pcs (Node t c tg s None None)"
  by (simp add: node_safe_def gives_regI)

lemma safe_float_literal: "safe pcs F (bc_float_literal U t v) (\<lambda>r. {Reg r})"
  unfolding bc_float_literal_def
  by (rule bind_reg [OF safe_alloc_reg] bind_xassert bind_none [OF safe_emit_const] safe_ret | simp)+

lemma safe_enum_access: "safe pcs F (bc_enum_access U e v) (\<lambda>r. {Reg r})"
  unfolding bc_enum_access_def by (rule bind_need safe_const_reg bind_none [OF safe_need_none] | simp)+

lemma safe_sizeof: "safe pcs F (bc_sizeof U t) (\<lambda>r. {Reg r})"
  and safe_alignof: "safe pcs F (bc_alignof U t) (\<lambda>r. {Reg r})"
  and safe_member_offset: "safe pcs F (bc_member_offset U t f) (\<lambda>r. {Reg r})"
  unfolding bc_sizeof_def bc_alignof_def bc_member_offset_def
  by (rule bind_none [OF safe_layout_for] bind_none [OF safe_struct_named] bind_none [OF safe_field_of] safe_const_reg)+

lemma safe_other: "safe pcs F (do { bc_unsupported what; bc_alloc_reg }) (\<lambda>r. {Reg r})"
  by (rule bind_unsupported [OF safe_alloc_reg])

lemma safe_leaf: "safe pcs F (bc_leaf U t k) (\<lambda>r. {Reg r})"
  by (cases k) (simp_all add: bc_leaf_def safe_const_reg safe_float_literal safe_string_literal safe_enum_access
      safe_identifier safe_sizeof safe_alignof safe_member_offset safe_zero_value safe_handle_alloc safe_break safe_continue safe_other)

lemma safe_unary: "node_safe pcs e \<Longrightarrow> safe pcs F (bc_unary U t k e) (\<lambda>r. {Reg r})"
  by (cases k) (simp_all add: bc_unary_def node_regD safe_neg safe_bit_not safe_not safe_cast safe_reinterpret
      safe_string_len safe_cstr safe_deref safe_addr safe_field_access safe_alloc_expr safe_parse_number node_safeD)

lemma safe_binary:
  assumes "comparators_ok pcs U" "node_safe pcs l" "node_safe pcs r"
  shows "safe pcs F (bc_binary U t k l r) (\<lambda>r. {Reg r})"
  using assms
  by (cases k) (simp_all add: bc_binary_def safe_arith safe_bitwise safe_and safe_or safe_index_access safe_set
      safe_push_alloc safe_push_copy safe_index_of safe_dyn_push safe_commit safe_handle_pool_init node_safeD)

lemma all_reg_map: "(\<And>x. x \<in> set xs \<Longrightarrow> node_safe pcs (g x)) \<Longrightarrow> all_reg pcs (map (\<lambda>x. nd_code (g x)) xs)"
  by (auto simp: all_reg_def node_safeD)

lemma unary_target_ok: "node_safe pcs e \<Longrightarrow> target_ok pcs (unary_target k e)"
  by (cases k) (simp_all add: unary_target_def node_safeD)

lemma in_pairs: "(n, y) \<in> set (map (\<lambda>(n, x). (n, g x)) xs) \<Longrightarrow> (\<And>m x. (m, x) \<in> set xs \<Longrightarrow> node_safe pcs (g x)) \<Longrightarrow>
    node_safe pcs y"
  by auto

lemma safe_node: "comparators_ok pcs U \<Longrightarrow> tree_ok pcs U e \<Longrightarrow> node_safe pcs (compile_node U e)"
proof (induction U e rule: compile_node.induct)
  case (1 U a k)
  show ?case by (cases k) (simp_all add: node_safe_node safe_leaf)
next
  case (2 U a k e)
  then show ?case by (simp add: node_safe_node safe_unary unary_target_ok)
next
  case (3 U a k l r)
  then show ?case by (simp add: node_safe_node safe_binary node_safeD)
next
  case (4 U a c t e)
  then show ?case by (simp, intro node_safe_plain safe_if_expr) (auto simp: node_safeD)
next
  case (5 U a c body)
  then show ?case by (simp, intro node_safe_plain safe_while all_reg_map) (auto simp: node_safeD)
next
  case (6 U a var init c expr body)
  then show ?case by (simp, intro node_safe_plain safe_for_c all_reg_map) (auto simp: node_safeD)
next
  case (7 U a var b e s body)
  then show ?case by (simp, intro node_safe_plain safe_for_range all_reg_map) (auto simp: node_safeD)
next
  case (8 U a i x coll body)
  have body: "all_reg pcs (map (\<lambda>x. nd_code (compile_node U x)) body)" by (rule all_reg_map) (use 8 in auto)
  have coll: "node_safe pcs (compile_node U coll)" using 8 by simp
  show ?case unfolding compile_node.simps
    by (rule node_safe_plain) (simp add: safe_for_each_slot safe_for_each body node_safeD [OF coll])
next
  case (9 U a bs body)
  have body: "all_reg pcs (map (\<lambda>x. nd_code (compile_node U x)) body)" by (rule all_reg_map) (use 9 in auto)
  have bs: "node_safe pcs (compile_node U x)" if "(m, x) \<in> set bs" for m x using 9 that by fastforce
  show ?case unfolding compile_node.simps
    by (rule node_safe_plain, rule safe_let_expr) (use body bs in_pairs 9 in \<open>auto\<close>)
next
  case (10 U a bs body)
  have body: "all_reg pcs (map (\<lambda>x. nd_code (compile_node U x)) body)" by (rule all_reg_map) (use 10 in auto)
  have bs: "node_safe pcs (compile_node U x)" if "(m, x) \<in> set bs" for m x using 10 that by fastforce
  show ?case unfolding compile_node.simps
    by (rule node_safe_plain, rule safe_parallel) (use body bs in \<open>auto\<close>)
next
  case (11 U a var count body)
  then show ?case by (simp, intro node_safe_plain safe_parallel_for all_reg_map) (auto simp: node_safeD)
next
  case (12 U a var body)
  then show ?case by (simp, intro node_safe_plain safe_scratch all_reg_map) auto
next
  case (13 U a m x y n n')
  then show ?case by (simp, intro node_safe_plain safe_checked_math) (auto simp: node_safeD)
next
  case (14 U a e)
  then show ?case by (simp, intro node_safe_plain safe_return_expr) (auto simp: node_safeD)
next
  case (15 U a kind name t init)
  then show ?case by (simp, intro node_safe_plain safe_decl) auto
next
  case (16 U a stmts)
  then show ?case by (simp, intro node_safe_plain safe_block all_reg_map) auto
next
  case (17 U a n fs)
  let ?fs = "map (\<lambda>(n, x). (n, compile_node U x)) fs"
  have fs: "node_safe pcs x" if "(m, x) \<in> set ?fs" for m x
    by (rule in_pairs [OF that]) (use 17 in fastforce)
  show ?case unfolding compile_node.simps Let_def
    unfolding node_safe_def
    by (simp, intro conjI allI gives_regI safe_struct_literal safe_struct_fields_into) (blast intro: fs)+
next
  case (18 U a es)
  have es: "node_safe pcs x" if "x \<in> set (map (compile_node U) es)" for x using that 18 by auto
  show ?case unfolding compile_node.simps Let_def
    unfolding node_safe_def
    by (simp, intro conjI allI gives_regI safe_array_literal safe_array_elements_into) (blast intro: es)+
next
  case (19 U a callee args)
  have "all_nodes pcs (map (compile_node U) args)" using 19 by (auto simp: all_nodes_def)
  then show ?case using 19 by (simp, intro node_safe_plain safe_bc_call) auto
qed

lemma safe_expr: "comparators_ok pcs U \<Longrightarrow> tree_ok pcs U e \<Longrightarrow> safe pcs F (bc_compile_expr U e) (\<lambda>r. {Reg r})"
  unfolding bc_compile_expr_def by (rule node_regD [OF safe_node])

section \<open>Chunks\<close>

text \<open>A closing action leaves a chunk that ends in a return every jump target lies before.\<close>

definition closed :: "bc_fn_ctx \<Rightarrow> bool" where
  "closed fc \<longleftrightarrow>
     fc_code fc \<noteq> []
     \<and> bc_decode (last (fc_code fc)) \<in> {Some (OpCtl BcOp_Return), Some (OpCtl BcOp_ReturnVoid)}
     \<and> (\<forall>ins \<in> set (fc_code fc).
          (bc_decode ins = Some (OpCtl BcOp_Jump) \<longrightarrow> unat (in_a ins) < length (fc_code fc))
          \<and> (bc_decode ins = Some (OpCtl BcOp_JumpIfFalse) \<longrightarrow> unat (in_b ins) < length (fc_code fc)))"

definition closes :: "nat list \<Rightarrow> fact set \<Rightarrow> 'a emit \<Rightarrow> bool" where
  "closes pcs F m \<longleftrightarrow>
     safe pcs F m (\<lambda>_. {})
     \<and> (\<forall>fc r fc'. run_state m fc = (r, fc') \<longrightarrow> fits fc' \<longrightarrow> ctx_ok pcs fc \<longrightarrow> (\<forall>f \<in> F. holds fc f) \<longrightarrow> closed fc')"

lemma closes_bind:
  assumes m: "safe pcs F m G" and f: "\<And>x. closes pcs (G x \<union> F) (f x)"
  shows "closes pcs F (m \<bind> f)"
proof -
  have s: "safe pcs (G x \<union> F) (f x) (\<lambda>_. {})" for x using f unfolding closes_def by blast
  have "closed fc'"
    if run: "run_state (m \<bind> f) fc = (r, fc')" and fit: "fits fc'" and ok: "ctx_ok pcs fc" and F: "\<forall>f \<in> F. holds fc f"
    for fc r fc'
  proof -
    obtain x fc1 where 1: "run_state m fc = (x, fc1)" by fastforce
    with run have 2: "run_state (f x) fc1 = (r, fc')" by (simp add: run_bind)
    have fit1: "fits fc1" by (rule fits_later [OF safe_later [OF s 2] fit])
    note m1 = safeD [OF m 1 fit1 ok]
    have ok1: "ctx_ok pcs fc1" and g1: "grows fc fc1" using m1 F by blast+
    have F1: "\<forall>g \<in> G x \<union> F. holds fc1 g" using m1(3) F holds_grows [OF g1] by blast
    show "closed fc'" using f [of x] 2 fit ok1 F1 unfolding closes_def by blast
  qed
  then show ?thesis using safe_bind [OF m s] unfolding closes_def by blast
qed

lemma closes_none: "safe pcs F m (\<lambda>_. {}) \<Longrightarrow> (\<And>x. closes pcs F (f x)) \<Longrightarrow> closes pcs F (m \<bind> f)"
  by (rule closes_bind) auto

lemma closes_reg: "safe pcs F m (\<lambda>r. {Reg r}) \<Longrightarrow> (\<And>x. closes pcs (insert (Reg x) F) (f x)) \<Longrightarrow> closes pcs F (m \<bind> f)"
  by (rule closes_bind) auto

lemma ins_ok_targets:
  assumes "ins_ok pcs fc ins"
  shows "bc_decode ins = Some (OpCtl BcOp_Jump) \<Longrightarrow> unat (in_a ins) \<le> length (fc_code fc)"
    and "bc_decode ins = Some (OpCtl BcOp_JumpIfFalse) \<Longrightarrow> unat (in_b ins) \<le> length (fc_code fc)"
  using assms by (simp_all add: ins_ok_def bc_decode_def)

lemma closes_return:
  assumes "op = OpCtl BcOp_Return \<and> Reg a \<in> F \<or> op = OpCtl BcOp_ReturnVoid"
  shows "closes pcs F (do { _ \<leftarrow> bc_emit op a 0 0; ret () })"
proof -
  have "safe pcs F (do { _ \<leftarrow> bc_emit op a 0 0; ret () }) (\<lambda>_. {})"
    by (rule safe_emit_none) (use assms in auto)
  moreover have "closed fc'"
    if run: "run_state (do { _ \<leftarrow> bc_emit op a 0 0; ret () }) fc = (r, fc')" and ok: "ctx_ok pcs fc" for fc r fc'
  proof -
    have fc': "fc' = fc\<lparr>fc_code := fc_code fc @ [\<lparr>in_kind = bc_op_code op, in_a = a, in_b = 0, in_c = 0\<rparr>]\<rparr>"
      using run by (simp add: run_bind bc_emit_def ret_def State_Monad.return_def)
    have "ins_ok pcs fc ins" if "ins \<in> set (fc_code fc)" for ins using ok that by (simp add: ctx_ok_def)
    then show ?thesis using assms ins_ok_targets [of pcs fc]
      by (auto simp: closed_def fc' less_Suc_eq_le bc_decode_def)
  qed
  ultimately show ?thesis unfolding closes_def by blast
qed

lemma safe_function_stmts:
  "comparators_ok pcs U \<Longrightarrow> (\<And>s. s \<in> set ss \<Longrightarrow> tree_ok pcs U s) \<Longrightarrow> safe pcs F (function_stmts U v ss) (\<lambda>_. {})"
proof (induction ss arbitrary: F)
  case (Cons s ss)
  have IH: "safe pcs G (function_stmts U v ss) (\<lambda>_. {})" for G by (rule Cons.IH) (use Cons.prems in auto)
  have s: "tree_ok pcs U s" using Cons.prems by simp
  show ?case unfolding function_stmts.simps
    by (rule bind_reg [OF safe_expr [OF Cons.prems(1) s]] bind_none [OF safe_if] safe_emit_none safe_ret_none IH | simp)+
qed simp

lemma closes_function_stmts:
  assumes "comparators_ok pcs U"
  shows "(\<And>s. s \<in> set ss \<Longrightarrow> tree_ok pcs U s) \<Longrightarrow> ss \<noteq> [] \<Longrightarrow> te_kind (last ss) \<noteq> TypeKind_Unresolved \<Longrightarrow>
    closes pcs F (function_stmts U False ss)"
proof (induction ss arbitrary: F)
  case (Cons s ss)
  have s: "tree_ok pcs U s" using Cons.prems by simp
  show ?case
  proof (cases "ss = []")
    case True
    then show ?thesis using Cons.prems
      by simp (rule closes_reg [OF safe_expr [OF assms s]] closes_return | simp)+
  next
    case False
    then have IH: "closes pcs G (function_stmts U False ss)" for G by (intro Cons.IH) (use Cons.prems in auto)
    show ?thesis using False by simp (rule closes_reg [OF safe_expr [OF assms s]] IH)+
  qed
qed simp

lemma safe_bind_params: "Regs i (length ps) \<in> F \<Longrightarrow> safe pcs F (bind_params U i ps) (\<lambda>_. {})"
proof (induction ps arbitrary: i F)
  case (Cons p ps)
  have "holds fc (Reg i)" "holds fc (Regs (i + 1) (length ps))" if "\<And>f. f \<in> F \<Longrightarrow> holds fc f" for fc
    using that [OF Cons.prems] unat_plus_one_le [of i] by auto
  then show ?case unfolding bind_params.simps
    by (intro safe_more [of F "Reg i"] safe_more [of "insert (Reg i) F" "Regs (i + 1) (length ps)"]
        bind_reg [OF safe_bind_local_typed] Cons.IH) auto
qed simp

text \<open>What is relied on of a function: its statements are well formed, and unless it is void its body ends
  in a statement with a value.\<close>

definition function_ok :: "nat list \<Rightarrow> bc_unit \<Rightarrow> function_decl \<Rightarrow> bool" where
  "function_ok pcs U fd \<longleftrightarrow>
     list_all (tree_ok pcs U) (fd_body fd)
     \<and> (tr_kind (fd_return_type fd) = TypeKind_Void
        \<or> fd_body fd \<noteq> [] \<and> te_kind (last (fd_body fd)) \<noteq> TypeKind_Unresolved)"

lemma bind_ret: "(m :: 'a emit) \<bind> ret = m"
proof -
  have "(ret :: 'a \<Rightarrow> 'a emit) = State_Monad.return" by (simp add: fun_eq_iff ret_def)
  then show ?thesis by simp
qed

lemma closes_function_body:
  assumes c: "comparators_ok pcs U" and fd: "function_ok pcs U fd" and r: "Regs 0 (length (fd_params fd)) \<in> F"
    and void: "is_void = (tr_kind (fd_return_type fd) = TypeKind_Void)"
  shows "closes pcs F (do { bind_params U 0 (fd_params fd);
            function_stmts U is_void (fd_body fd);
            (if is_void then do { _ \<leftarrow> bc_emit (OpCtl BcOp_ReturnVoid) 0 0 0; ret () } else ret ()) })"
proof -
  have stmts: "tree_ok pcs U s" if "s \<in> set (fd_body fd)" for s
    using fd that by (simp add: function_ok_def list_all_iff)
  show ?thesis
  proof (cases is_void)
    case True
    show ?thesis using True
      by simp (rule closes_none [OF safe_bind_params [OF r]] closes_none [OF safe_function_stmts [OF c stmts]]
          closes_return | simp)+
  next
    case False
    have "closes pcs F (function_stmts U False (fd_body fd))" for F
      by (rule closes_function_stmts [OF c stmts]) (use fd False void in \<open>auto simp: function_ok_def\<close>)
    then show ?thesis using False by (simp add: bind_ret closes_none [OF safe_bind_params [OF r]])
  qed
qed

lemma safe_init_globals:
  "comparators_ok pcs U \<Longrightarrow> (\<And>slot t e. (slot, t, Some e) \<in> set gs \<Longrightarrow> tree_ok pcs U e) \<Longrightarrow>
   safe pcs F (init_globals U gs) (\<lambda>_. {})"
proof (induction gs arbitrary: F)
  case (Cons g gs)
  obtain slot t init where g: "g = (slot, t, init)" by (cases g)
  have IH: "safe pcs G (init_globals U gs) (\<lambda>_. {})" for G by (rule Cons.IH) (use Cons.prems in auto)
  have e: "safe pcs G (bc_compile_expr U e) (\<lambda>r. {Reg r})" if "init = Some e" for e G
    by (rule safe_expr) (use Cons.prems that g in auto)
  show ?case unfolding g init_globals.simps
    by (rule bind_reg [OF safe_option] safe_zero_value bind_emit IH e | assumption | (simp; fail))+
qed simp

lemma safe_init_pools: "safe pcs F (init_pools es) (\<lambda>_. {})"
proof (induction es arbitrary: F)
  case (Cons e es)
  show ?case unfolding init_pools.simps by (rule bind_reg [OF safe_emit_new] bind_emit Cons.IH | simp)+
qed simp

lemma closes_global_init:
  assumes "comparators_ok pcs U" "\<And>slot t e. (slot, t, Some e) \<in> set gs \<Longrightarrow> tree_ok pcs U e"
  shows "closes pcs F (global_init_code U gs)"
  unfolding global_init_code_def
  by (rule closes_none [OF safe_init_globals [OF assms]] closes_none [OF safe_init_pools] closes_return | simp)+

section \<open>A chunk the verifier accepts\<close>

text \<open>The capacities nothing in the generator checks: instruction indices are 32 bits wide, and a window
  has to fit the register file.\<close>

definition chunk_fits :: "compiled \<Rightarrow> bool" where
  "chunk_fits c \<longleftrightarrow> length (fc_code (co_context c)) < 2 ^ 32 \<and> fc_next_reg (co_context c) \<le> BC_MAX_TOTAL_REGISTERS"

definition chunk_ok :: "nat list \<Rightarrow> nat \<Rightarrow> compiled \<Rightarrow> bool" where
  "chunk_ok pcs n c \<longleftrightarrow>
     ctx_ok pcs (co_context c) \<and> closed (co_context c) \<and> co_param_count c = n \<and> n \<le> fc_next_reg (co_context c)"

lemma ctx_ok_init: "ctx_ok pcs (bc_fn_ctx_init shared\<lparr>fc_next_reg := n\<rparr>)"
  by (simp add: ctx_ok_def bc_fn_ctx_init_def)

lemma compile_chunk_ok:
  assumes run: "compile_chunk name n m shared = Inr c" and fits: "chunk_fits c"
    and eq: "run_state m (bc_fn_ctx_init shared) = run_state m' (bc_fn_ctx_init shared\<lparr>fc_next_reg := n\<rparr>)"
    and m': "closes pcs F m'" and F: "\<And>f. f \<in> F \<Longrightarrow> holds (bc_fn_ctx_init shared\<lparr>fc_next_reg := n\<rparr>) f"
  shows "chunk_ok pcs n c \<and> co_name c = name"
proof -
  let ?fc = "bc_fn_ctx_init shared\<lparr>fc_next_reg := n\<rparr>"
  obtain r fc' where r: "run_state m' ?fc = (r, fc')" by (cases "run_state m' ?fc") auto
  have c: "co_context c = fc'" "co_param_count c = n" "co_name c = name" "fc_stopped fc' = None"
    using run r eq by (auto simp: compile_chunk_def Let_def split: option.splits)
  have fit: "fits fc'" using fits c by (simp add: fits_def chunk_fits_def)
  have s: "safe pcs F m' (\<lambda>_. {})" using m' by (simp add: closes_def)
  have ok: "ctx_ok pcs fc'" "grows ?fc fc'" using safeD(1,2) [OF s r fit ctx_ok_init] F by blast+
  moreover have "closed fc'" using m' r fit ctx_ok_init F unfolding closes_def by blast
  ultimately show ?thesis using c by (auto simp: chunk_ok_def grows_def)
qed

lemma function_chunk_ok:
  assumes "comparators_ok pcs U" "function_ok pcs U fd"
    and "bc_compile_function U fd shared = Inr c" "chunk_fits c"
  shows "chunk_ok pcs (length (fd_params fd)) c \<and> co_name c = fd_name fd"
proof (rule compile_chunk_ok [OF assms(3) [unfolded bc_compile_function_def] assms(4)])
  show "run_state (function_code U fd) (bc_fn_ctx_init shared) =
      run_state (do { bind_params U 0 (fd_params fd);
            let is_void = (tr_kind (fd_return_type fd) = TypeKind_Void);
            function_stmts U is_void (fd_body fd);
            if is_void then do { _ \<leftarrow> bc_emit (OpCtl BcOp_ReturnVoid) 0 0 0; ret () } else ret () })
        (bc_fn_ctx_init shared\<lparr>fc_next_reg := length (fd_params fd)\<rparr>)"
    by (simp add: function_code_def run_bind reserve_def bc_fn_ctx_init_def)
  show "closes pcs {Regs 0 (length (fd_params fd))}
      (do { bind_params U 0 (fd_params fd);
            let is_void = (tr_kind (fd_return_type fd) = TypeKind_Void);
            function_stmts U is_void (fd_body fd);
            if is_void then do { _ \<leftarrow> bc_emit (OpCtl BcOp_ReturnVoid) 0 0 0; ret () } else ret () })"
    unfolding Let_def by (rule closes_function_body [OF assms(1,2)]) simp_all
qed simp

lemma struct_cmp_chunk_ok:
  assumes "comparators_ok pcs U" "bc_compile_struct_cmp_chunk U se shared = Inr c" "chunk_fits c"
  shows "chunk_ok pcs 2 c \<and> co_name c = bc_struct_cmp_chunk_name (sd_name se)"
proof (rule compile_chunk_ok [OF assms(2) [unfolded bc_compile_struct_cmp_chunk_def] assms(3)])
  let ?m = "do { compare_fields U se 0 1 (sd_fields se); zero_final \<leftarrow> const_reg 0;
                 _ \<leftarrow> bc_emit (OpCtl BcOp_Return) zero_final 0 0; ret () }"
  show "run_state (struct_cmp_code U se) (bc_fn_ctx_init shared) =
      run_state ?m (bc_fn_ctx_init shared\<lparr>fc_next_reg := 2\<rparr>)"
    by (simp add: struct_cmp_code_def run_bind bc_alloc_reg_def bc_fn_ctx_init_def numeral_2_eq_2)
  show "closes pcs {Reg 0, Reg 1} ?m"
    by (rule closes_none [OF safe_compare_fields [OF assms(1)]] closes_reg [OF safe_const_reg] closes_return | simp)+
qed auto

lemma global_init_chunk_ok:
  assumes "comparators_ok pcs U" "\<And>slot t e. (slot, t, Some e) \<in> set gs \<Longrightarrow> tree_ok pcs U e"
    and "bc_compile_global_init_chunk U gs shared = Inr c" "chunk_fits c"
  shows "chunk_ok pcs 0 c \<and> co_name c = ''#init_globals''"
  by (rule compile_chunk_ok [OF assms(3) [unfolded bc_compile_global_init_chunk_def] assms(4) _
        closes_global_init [OF assms(1,2), where F = "{}"]])
    (simp_all add: bc_fn_ctx_init_def)

lemma ins_ok_verified:
  assumes ok: "ins_ok pcs fc ins" and c: "closed fc" "ins \<in> set (fc_code fc)"
    and code: "ch_code chunk = fc_code fc" "ch_consts chunk = fc_consts fc"
  shows "bcio_verify_instr (length pcs) chunk ins"
  using assms
  by (auto simp: ins_ok_def bcio_verify_instr_def bc_decode_def closed_def
      split: option.splits bc_op.splits bc_data_op.splits bc_ctl_op.splits)

lemma ins_ok_windowed:
  assumes ok: "ins_ok pcs fc ins" and n: "fc_next_reg fc < 2 ^ 32" "ch_num_registers chunk = of_nat (fc_next_reg fc)"
    and callee: "\<And>i. i < length pcs \<Longrightarrow> unat (ch_param_count (chunks ! i)) \<le> pcs ! i"
  shows "operands_in_window chunks chunk ins"
proof -
  have r: "i < ch_num_registers chunk \<longleftrightarrow> unat i < fc_next_reg fc" for i
    using n by (simp add: word_less_nat_alt unat_of_nat_u32)
  have "unat (ch_num_registers chunk) = fc_next_reg fc" using n by (simp add: unat_of_nat_u32)
  then show ?thesis using ok callee
    by (fastforce simp: ins_ok_def operands_in_window_def bc_decode_def Let_def r
      split: option.splits bc_op.splits bc_data_op.splits bc_ctl_op.splits)
qed

lemma chunk_verified:
  assumes "chunk_ok pcs n c" "chunk_fits c"
  shows "bcio_verify_chunk (length pcs) (chunk_of c)"
proof -
  let ?fc = "co_context c"
  have ok: "ctx_ok pcs ?fc" "closed ?fc" "co_param_count c \<le> fc_next_reg ?fc" "fc_next_reg ?fc \<le> 65536"
    using assms by (auto simp: chunk_ok_def chunk_fits_def BC_MAX_TOTAL_REGISTERS_def)
  have "bcio_verify_instr (length pcs) (chunk_of c) ins" if "ins \<in> set (fc_code ?fc)" for ins
    by (rule ins_ok_verified [of _ ?fc]) (use ok that in \<open>auto simp: ctx_ok_def chunk_of_def Let_def\<close>)
  then show ?thesis using ok
    by (auto simp: bcio_verify_chunk_def chunk_of_def Let_def closed_def ends_chunk_def list_all_iff
        BC_MAX_TOTAL_REGISTERS_def word_le_nat_alt word_less_nat_alt unat_of_nat_u32)
qed

section \<open>A program the verifier accepts\<close>

definition param_counts :: "struct_decl list \<Rightarrow> toplevel list \<Rightarrow> nat list" where
  "param_counts cmps tops = map (\<lambda>_. 2) cmps @ map (\<lambda>fd. length (fd_params fd)) (fn_decls tops) @ [0]"

definition program_ok :: "bc_unit \<Rightarrow> struct_decl list \<Rightarrow> toplevel list \<Rightarrow> bool" where
  "program_ok U cmps tops \<longleftrightarrow>
     (let pcs = param_counts cmps tops
      in length pcs \<le> 2 ^ 32
         \<and> list_all (\<lambda>fd. function_ok pcs U fd \<and> CHR ''#'' \<notin> set (fd_name fd)) (fn_decls tops)
         \<and> list_all (\<lambda>(name, slot, t, init). case init of None \<Rightarrow> True | Some e \<Rightarrow> tree_ok pcs U e) (global_decls 0 tops))"

text \<open>A name the function table knows is a comparator's or a function's, by position.\<close>

lemma fn_table_lookup:
  assumes "bc_fn_table_try_lookup (fn_table_of cmps fns) callee = Some i"
  shows "\<exists>k < length cmps + length fns. i = of_nat k
    \<and> (map (\<lambda>d. bc_struct_cmp_chunk_name (sd_name d)) cmps @ map fd_name fns) ! k = callee"
proof -
  let ?names = "map (\<lambda>d. bc_struct_cmp_chunk_name (sd_name d)) cmps @ map fd_name fns"
  obtain e where e: "find (\<lambda>e. str8_match (fe_name e) callee 0) (fn_table_of cmps fns) = Some e" "i = fe_index e"
    using assms by (auto simp: bc_fn_table_try_lookup_def)
  have "e \<in> set (fn_table_of cmps fns)" "str8_match (fe_name e) callee 0"
    using e(1) by (auto simp: find_Some_iff)
  then obtain k where "(k, fe_name e) \<in> set (enumerate 0 ?names)" "fe_index e = of_nat k" "fe_name e = callee"
    by (auto simp: fn_table_of_def)
  then show ?thesis using e(2) by (auto simp: in_set_enumerate_eq)
qed

lemma comparators_ok_program:
  assumes U: "un_fn_table U = fn_table_of cmps (fn_decls tops)" and ok: "program_ok U' cmps tops"
  shows "comparators_ok (param_counts cmps tops) U"
proof -
  have "unat i < length (param_counts cmps tops) \<and> param_counts cmps tops ! unat i \<le> 2"
    if i: "bc_fn_table_try_lookup (un_fn_table U) (bc_struct_cmp_chunk_name name) = Some i" for name i
  proof -
    obtain k where k: "k < length cmps + length (fn_decls tops)" "i = of_nat k"
        "(map (\<lambda>d. bc_struct_cmp_chunk_name (sd_name d)) cmps @ map fd_name (fn_decls tops)) ! k
           = bc_struct_cmp_chunk_name name"
      using fn_table_lookup i U by metis
    have "k < length cmps"
    proof (rule ccontr)
      assume n: "\<not> k < length cmps"
      then have "fn_decls tops ! (k - length cmps) \<in> set (fn_decls tops)" using k(1) by simp
      then have "CHR ''#'' \<notin> set (fd_name (fn_decls tops ! (k - length cmps)))"
        using ok by (auto simp: program_ok_def Let_def list_all_iff)
      then show False using k n by (auto simp: nth_append bc_struct_cmp_chunk_name_def)
    qed
    moreover have "unat i = k"
      using k ok by (simp add: program_ok_def Let_def param_counts_def unat_of_nat_u32)
    ultimately show ?thesis by (simp add: param_counts_def nth_append)
  qed
  then show ?thesis by (simp add: comparators_ok_def arity_ok_def)
qed

definition yields :: "(layout_cache \<times> nat \<Rightarrow> bc_stop + compiled) \<Rightarrow> compiled \<Rightarrow> bool" where
  "yields c chunk \<longleftrightarrow> (\<exists>shared. c shared = Inr chunk)"

lemma compile_chunks_cases: "compile_chunks cs shared = Inr chunks \<Longrightarrow> list_all2 yields cs chunks"
proof (induction cs arbitrary: shared chunks)
  case (Cons c cs)
  obtain chunk where c: "c shared = Inr chunk" using Cons.prems by (auto split: sum.splits)
  then have "yields c chunk" unfolding yields_def by (rule exI)
  then show ?case using Cons c by (auto split: sum.splits)
qed simp

lemma tree_ok_without [simp]: "tree_ok pcs (without_addr_taken U) e = tree_ok pcs U e"
proof -
  have "node_ok pcs (without_addr_taken U) n = node_ok pcs U n" for n
    by (cases n) (simp_all add: arity_ok_def without_addr_taken_def)
  then show ?thesis by (simp add: tree_ok_def list_all_iff)
qed

lemma list_all2_cover:
  assumes "list_all2 P xs ys" "\<And>x y. x \<in> set xs \<Longrightarrow> y \<in> set ys \<Longrightarrow> P x y \<Longrightarrow> Q (f x) y"
  shows "list_all2 Q (map f xs) ys"
  using assms by (auto simp: list_all2_conv_all_nth)

text \<open>Every chunk of a compiled program is well formed, has the parameters and the name of its place.\<close>

lemma compiled_chunks_ok:
  assumes run: "compile_all ck fuel plc conv imports modules tops = Inr chunks"
    and cmps: "cmp_structs (struct_entries ck) (ck_structs ck) = Some cmps"
    and ok: "program_ok (program_unit ck fuel plc conv imports modules cmps tops) cmps tops"
    and fits: "list_all chunk_fits chunks"
  shows "list_all2 (\<lambda>(n, name) c. chunk_ok (param_counts cmps tops) n c \<and> co_name c = name)
    (map (\<lambda>d. (2, bc_struct_cmp_chunk_name (sd_name d))) cmps
     @ map (\<lambda>fd. (length (fd_params fd), fd_name fd)) (fn_decls tops) @ [(0, ''#init_globals'')]) chunks"
proof -
  let ?U = "program_unit ck fuel plc conv imports modules cmps tops" and ?pcs = "param_counts cmps tops"
  have table: "un_fn_table ?U = fn_table_of cmps (fn_decls tops)" by (simp add: program_unit_def Let_def)
  have c: "comparators_ok ?pcs ?U" "comparators_ok ?pcs (without_addr_taken ?U)"
    using comparators_ok_program [OF _ ok] table by (simp_all add: without_addr_taken_def)
  have fd: "function_ok ?pcs ?U fd" if "fd \<in> set (fn_decls tops)" for fd
    using ok that by (simp add: program_ok_def Let_def list_all_iff)
  have globals: "tree_ok ?pcs (without_addr_taken ?U) e" if "(slot, t, Some e) \<in> set (map snd (global_decls 0 tops))" for slot t e
    using ok that by (force simp: program_ok_def Let_def list_all_iff)
  have f: "chunk_fits c" if "c \<in> set chunks" for c using fits that by (simp add: list_all_iff)
  have all: "list_all2 yields
      (map (bc_compile_struct_cmp_chunk (without_addr_taken ?U)) cmps
       @ map (bc_compile_function ?U) (fn_decls tops)
       @ [bc_compile_global_init_chunk (without_addr_taken ?U) (map snd (global_decls 0 tops))]) chunks"
    by (rule compile_chunks_cases) (use run cmps in \<open>auto simp: compile_all_def Let_def split: option.splits bool.splits\<close>)
  then obtain xs ys z where parts: "chunks = xs @ ys @ [z]"
      "list_all2 (\<lambda>d. yields (bc_compile_struct_cmp_chunk (without_addr_taken ?U) d)) cmps xs"
      "list_all2 (\<lambda>fd. yields (bc_compile_function ?U fd)) (fn_decls tops) ys"
      "yields (bc_compile_global_init_chunk (without_addr_taken ?U) (map snd (global_decls 0 tops))) z"
    by (auto simp: list_all2_append1 list_all2_Cons1 list.rel_map)
  obtain s where z: "bc_compile_global_init_chunk (without_addr_taken ?U) (map snd (global_decls 0 tops)) s = Inr z"
    using parts(4) unfolding yields_def by blast
  have "list_all2 (\<lambda>(n, name) c. chunk_ok ?pcs n c \<and> co_name c = name)
      (map (\<lambda>d. (2, bc_struct_cmp_chunk_name (sd_name d))) cmps) xs"
    by (rule list_all2_cover [OF parts(2)]) (use struct_cmp_chunk_ok [OF c(2)] f parts(1) in \<open>auto simp: yields_def\<close>)
  moreover have "list_all2 (\<lambda>(n, name) c. chunk_ok ?pcs n c \<and> co_name c = name)
      (map (\<lambda>fd. (length (fd_params fd), fd_name fd)) (fn_decls tops)) ys"
    by (rule list_all2_cover [OF parts(3)]) (use function_chunk_ok [OF c(1) fd] f parts(1) in \<open>auto simp: yields_def\<close>)
  moreover have "chunk_ok ?pcs 0 z \<and> co_name z = ''#init_globals''"
    by (rule global_init_chunk_ok [OF c(2) globals z f]) (simp_all add: parts(1))
  ultimately show ?thesis unfolding parts(1) by (simp add: list_all2_appendI)
qed

end
