(* ===== verification/Bcgen_Verified.thy ===== *)
theory Bcgen_Verified
  imports Bcgen_Safe_Program
begin

text \<open>
  A compiled program passes the load-time verifier and keeps its register operands inside their
  windows, so the steps the verifier alone cannot vouch for are defined.
\<close>

section \<open>Verified output\<close>

lemma descr_nth:
  assumes "list_all2 (\<lambda>(n, name) c. P n c \<and> co_name c = name) descrs chunks" "i < length chunks"
  shows "P (fst (descrs ! i)) (chunks ! i)" "co_name (chunks ! i) = snd (descrs ! i)" "descrs ! i \<in> set descrs"
  using list_all2_nthD2 [OF assms] list_all2_lengthD [OF assms(1)] assms(2) by (simp_all add: case_prod_beta)

lemma comparator_not_init: "bc_struct_cmp_chunk_name name \<noteq> ''#init_globals''"
proof
  assume "bc_struct_cmp_chunk_name name = ''#init_globals''"
  then have "last (name @ ''#cmp'') = last ''#init_globals''" by (simp only: bc_struct_cmp_chunk_name_def)
  then show False by simp
qed

lemma compiled_chunk:
  assumes all: "list_all2 (\<lambda>(n, name) c. chunk_ok pcs n c \<and> co_name c = name) descrs chunks"
    and pcs: "map fst descrs = pcs" and fits: "list_all chunk_fits chunks" and c: "c \<in> set chunks"
  shows "bcio_verify_chunk (length chunks) (chunk_of c)"
    and "ins \<in> set (ch_code (chunk_of c)) \<Longrightarrow> operands_in_window (map chunk_of chunks) (chunk_of c) ins"
proof -
  have lens: "length chunks = length descrs" "length pcs = length descrs"
    using list_all2_lengthD [OF all] pcs by auto
  then have len: "length chunks = length pcs" by simp
  have at: "chunk_ok pcs (pcs ! k) (chunks ! k)" if "k < length chunks" for k
  proof -
    have "k < length descrs" using that lens by simp
    then have "pcs ! k = fst (descrs ! k)" by (simp add: pcs [symmetric])
    then show ?thesis using descr_nth(1) [OF all that] by simp
  qed
  obtain i where i: "i < length chunks" "c = chunks ! i" using c by (auto simp: in_set_conv_nth)
  have ok: "chunk_ok pcs (pcs ! i) c" using at i by simp
  have f: "chunk_fits c" using fits c by (simp add: list_all_iff)
  show "bcio_verify_chunk (length chunks) (chunk_of c)" unfolding len by (rule chunk_verified [OF ok f])
  have counts: "unat (ch_param_count (map chunk_of chunks ! k)) \<le> pcs ! k" if "k < length pcs" for k
  proof -
    have "chunk_ok pcs (pcs ! k) (chunks ! k)" "k < length chunks" using at len that by simp_all
    then show ?thesis using unat_of_nat_le [of "pcs ! k"] by (simp add: chunk_ok_def chunk_of_def Let_def)
  qed
  assume "ins \<in> set (ch_code (chunk_of c))"
  then have "ins_ok pcs (co_context c) ins" using ok by (simp add: chunk_ok_def ctx_ok_def chunk_of_def Let_def)
  then show "operands_in_window (map chunk_of chunks) (chunk_of c) ins"
    by (rule ins_ok_windowed) (use f counts in \<open>simp_all add: chunk_fits_def BC_MAX_TOTAL_REGISTERS_def chunk_of_def Let_def\<close>)
qed

lemma find_last:
  assumes "\<And>x. x \<in> set xs \<Longrightarrow> \<not> p x" "p z"
  shows "find p (xs @ [z]) = Some z"
  using assms by (induction xs) auto

lemma compiled_init:
  assumes all: "list_all2 (\<lambda>(n, name) c. chunk_ok pcs n c \<and> co_name c = name) (descrs @ [(0, ''#init_globals'')]) chunks"
    and names: "\<forall>d \<in> set descrs. snd d \<noteq> ''#init_globals''"
  shows "\<exists>c. find (\<lambda>c. str8_match (ch_name c) ''#init_globals'' 0) (map chunk_of chunks) = Some c \<and> ch_param_count c = 0"
proof -
  obtain xs z where parts: "chunks = xs @ [z]" "chunk_ok pcs 0 z" "co_name z = ''#init_globals''"
      "list_all2 (\<lambda>(n, name) c. chunk_ok pcs n c \<and> co_name c = name) descrs xs"
    using all by (auto simp: list_all2_append1 list_all2_Cons1)
  have "co_name c \<noteq> ''#init_globals''" if c: "c \<in> set xs" for c
  proof -
    obtain i where i: "i < length xs" "c = xs ! i" using c by (auto simp: in_set_conv_nth)
    then show ?thesis using descr_nth(2,3) [OF parts(4) i(1)] names by simp
  qed
  then have "find (\<lambda>c. str8_match (ch_name c) ''#init_globals'' 0) (map chunk_of xs @ [chunk_of z]) = Some (chunk_of z)"
    by (intro find_last) (use parts(3) in \<open>auto simp: chunk_of_def Let_def\<close>)
  then show ?thesis using parts by (simp add: chunk_ok_def chunk_of_def Let_def)
qed

lemma compiled_program:
  assumes run: "compile_all ck fuel plc conv imports modules tops = Inr chunks"
    and cmps: "cmp_structs (struct_entries ck) (ck_structs ck) = Some cmps"
    and ok: "program_ok (program_unit ck fuel plc conv imports modules cmps tops) cmps tops"
    and fits: "list_all chunk_fits chunks"
  shows "bcio_verify_loaded_code (map chunk_of chunks)"
    and "\<forall>c \<in> set (map chunk_of chunks). \<forall>ins \<in> set (ch_code c). operands_in_window (map chunk_of chunks) c ins"
proof -
  let ?descrs = "map (\<lambda>d. (2, bc_struct_cmp_chunk_name (sd_name d))) cmps
     @ map (\<lambda>fd. (length (fd_params fd), fd_name fd)) (fn_decls tops)"
  have all: "list_all2 (\<lambda>(n, name) c. chunk_ok (param_counts cmps tops) n c \<and> co_name c = name)
      (?descrs @ [(0, ''#init_globals'')]) chunks"
    using compiled_chunks_ok [OF run cmps ok fits] by simp
  have pcs: "map fst (?descrs @ [(0, ''#init_globals'')]) = param_counts cmps tops"
    by (simp add: param_counts_def comp_def)
  note chunk = compiled_chunk [OF all pcs fits]
  have names: "\<forall>d \<in> set ?descrs. snd d \<noteq> ''#init_globals''"
  proof -
    have "CHR ''#'' \<notin> set (fd_name fd)" if "fd \<in> set (fn_decls tops)" for fd
      using that ok by (simp add: program_ok_def Let_def list_all_iff)
    then have "fd_name fd \<noteq> ''#init_globals''" if "fd \<in> set (fn_decls tops)" for fd using that by fastforce
    then show ?thesis using comparator_not_init by auto
  qed
  obtain c where c: "find (\<lambda>c. str8_match (ch_name c) ''#init_globals'' 0) (map chunk_of chunks) = Some c"
      "ch_param_count c = 0"
    using compiled_init [OF all names] by blast
  show "bcio_verify_loaded_code (map chunk_of chunks)"
    using chunk(1) c by (simp add: bcio_verify_loaded_code_def list_all_iff)
  show "\<forall>c \<in> set (map chunk_of chunks). \<forall>ins \<in> set (ch_code c). operands_in_window (map chunk_of chunks) c ins"
    using chunk(2) by simp
qed


text \<open>
  C14: Running such a compiled program, no integer, comparison, constant, move, jump, call or return
  instruction the interpreter reaches, through any sequence of calls and from any machine and
  arguments, touches a register outside the register file: every such step goes on, returns, traps or
  fails one of the two checked capacity assertions.
\<close>

theorem compiled_program_step_defined:
  assumes "compile_all ck fuel plc conv imports modules tops = Inr chunks"
    and "cmp_structs (struct_entries ck) (ck_structs ck) = Some cmps"
    and "program_ok (program_unit ck fuel plc conv imports modules cmps tops) cmps tops"
    and "list_all chunk_fits chunks"
    and prog: "pr_chunks prog = map chunk_of chunks" and re: "bc_reachable run ev pid prog vm"
    and op: "bc_decode (ch_code (vm_chunk vm) ! unat (vm_pc vm)) = Some op" "register_only op"
  shows "bc_step run ev pid prog vm \<noteq> Ended Undefined"
proof (rule windowed_reachable_defined [OF _ _ re op])
  show "bcio_verify_loaded_code (pr_chunks prog)" using compiled_program(1) [OF assms(1-4)] prog by simp
  show "\<forall>c \<in> set (pr_chunks prog). \<forall>ins \<in> set (ch_code c). operands_in_window (pr_chunks prog) c ins"
    using compiled_program(2) [OF assms(1-4)] prog by simp
qed

end
