(* ===== verification/Bcgen_Examples.thy ===== *)
theory Bcgen_Examples
  imports Bcgen_Verified
begin

text \<open>
  Small programs compiled and run: the witnesses of the properties of compiled programs, and three
  programs on which the generated code does not do what its source says.
\<close>

section \<open>Programs\<close>

abbreviation i64_type :: type_ref where
  "i64_type \<equiv> type_ref_of_kind TypeKind_I64"

abbreviation i64_ann :: ann where
  "i64_ann \<equiv> \<lparr>an_type = i64_type\<rparr>"

definition no_types :: checker where
  "no_types = \<lparr>ck_structs = [], ck_structs_by_name = hashtable_init 8, ck_enums = [],
     ck_enums_by_name = hashtable_init 8\<rparr>"

definition int_lit :: "i64 \<Rightarrow> texpr" where
  "int_lit v = Leaf i64_ann (IntLiteral v)"

definition name_of :: "string \<Rightarrow> texpr" where
  "name_of x = Leaf i64_ann (Identifier x)"

definition unary_fn :: "string \<Rightarrow> string \<Rightarrow> texpr list \<Rightarrow> toplevel" where
  "unary_fn name x body =
     FunctionDecl \<lparr>fd_name = name, fd_params = [\<lparr>pa_name = x, pa_type = i64_type, pa_is_anon = False\<rparr>],
       fd_return_type = i64_type, fd_body = body\<rparr>"

definition compile_small :: "toplevel list \<Rightarrow> bc_stop + compiled list" where
  "compile_small tops = compile_all no_types 1 of_nat ucast [] [] tops"

text \<open>The chunks of a program that compiles.\<close>

definition small_chunks :: "toplevel list \<Rightarrow> compiled list" where
  "small_chunks tops = (case compile_small tops of Inl why \<Rightarrow> [] | Inr cs \<Rightarrow> cs)"

definition small_program :: "toplevel list \<Rightarrow> bc_program" where
  "small_program tops = \<lparr>pr_chunks = map chunk_of (small_chunks tops), pr_global_count = 0, pr_module_table = None\<rparr>"

text \<open>\<^verbatim>\<open>(fn sum i64 [(n i64)] (if n (+ n (sum (- n 1))) n))\<close>\<close>

definition sum_source :: "toplevel list" where
  "sum_source =
     [unary_fn ''sum'' ''n''
        [IfExpr i64_ann (name_of ''n'')
           (Binary i64_ann (Arith BinaryAdd) (name_of ''n'')
             (Call i64_ann ''sum'' [Binary i64_ann (Arith BinarySub) (name_of ''n'') (int_lit 1)]))
           (Some (name_of ''n''))]]"

text \<open>\<^verbatim>\<open>(fn f i64 [(m i64)] (let [n m] (set m 5) n))\<close>\<close>

definition alias_source :: "toplevel list" where
  "alias_source =
     [unary_fn ''f'' ''m''
        [LetExpr i64_ann [(''n'', name_of ''m'')]
           [Binary i64_ann SetExpr (name_of ''m'') (int_lit 5), name_of ''n'']]]"

text \<open>\<^verbatim>\<open>(fn g i64 [(c i64)] (if c (return 1) (return 2)))\<close>\<close>

definition branch_source :: "toplevel list" where
  "branch_source =
     [unary_fn ''g'' ''c''
        [IfExpr \<lparr>an_type = type_ref_unresolved\<rparr> (name_of ''c'')
           (ReturnExpr \<lparr>an_type = type_ref_unresolved\<rparr> (Some (int_lit 1)))
           (Some (ReturnExpr \<lparr>an_type = type_ref_unresolved\<rparr> (Some (int_lit 2))))]]"

text \<open>\<^verbatim>\<open>(fn h i64 [(n i64)] (for [i 0 (< i n) (set i (+ i 1))] (continue)) n)\<close>\<close>

definition skip_source :: "toplevel list" where
  "skip_source =
     [unary_fn ''h'' ''n''
        [ForCExpr \<lparr>an_type = type_ref_of_kind TypeKind_Void\<rparr> ''i'' (int_lit 0)
           (Binary \<lparr>an_type = type_ref_of_kind TypeKind_Bool\<rparr> (Arith BinaryLt) (name_of ''i'') (name_of ''n''))
           (Binary i64_ann SetExpr (name_of ''i'') (Binary i64_ann (Arith BinaryAdd) (name_of ''i'') (int_lit 1)))
           [Leaf \<lparr>an_type = type_ref_of_kind TypeKind_Void\<rparr> ContinueExpr],
         name_of ''n'']]"

text \<open>The code they are compiled to, evaluated together.\<close>

lemma small_codes:
  "map chunk_of (small_chunks sum_source) =
     [\<lparr>ch_code =
         [\<lparr>in_kind = 40, in_a = 0, in_b = 8, in_c = 0\<rparr>, \<lparr>in_kind = 0, in_a = 3, in_b = 0, in_c = 0\<rparr>,
          \<lparr>in_kind = 3, in_a = 4, in_b = 0, in_c = 3\<rparr>, \<lparr>in_kind = 1, in_a = 2, in_b = 4, in_c = 0\<rparr>,
          \<lparr>in_kind = 41, in_a = 5, in_b = 0, in_c = 2\<rparr>, \<lparr>in_kind = 2, in_a = 6, in_b = 0, in_c = 5\<rparr>,
          \<lparr>in_kind = 1, in_a = 1, in_b = 6, in_c = 0\<rparr>, \<lparr>in_kind = 39, in_a = 9, in_b = 0, in_c = 0\<rparr>,
          \<lparr>in_kind = 1, in_a = 1, in_b = 0, in_c = 0\<rparr>, \<lparr>in_kind = 44, in_a = 1, in_b = 0, in_c = 0\<rparr>],
       ch_consts = [1], ch_num_registers = 7, ch_param_count = 1, ch_name = ''sum'',
       ch_string_fixups = [], ch_layout_fixups = []\<rparr>,
      chunk_init_globals]
   \<and> map (\<lambda>c. fc_next_reg (co_context c)) (small_chunks sum_source) = [7, 0]
   \<and> map chunk_of (small_chunks alias_source) =
     [\<lparr>ch_code =
         [\<lparr>in_kind = 0, in_a = 1, in_b = 0, in_c = 0\<rparr>, \<lparr>in_kind = 1, in_a = 0, in_b = 1, in_c = 0\<rparr>,
          \<lparr>in_kind = 44, in_a = 0, in_b = 0, in_c = 0\<rparr>],
       ch_consts = [5], ch_num_registers = 2, ch_param_count = 1, ch_name = ''f'',
       ch_string_fixups = [], ch_layout_fixups = []\<rparr>,
      chunk_init_globals]
   \<and> map chunk_of (small_chunks skip_source) =
     [\<lparr>ch_code =
         [\<lparr>in_kind = 0, in_a = 1, in_b = 0, in_c = 0\<rparr>, \<lparr>in_kind = 9, in_a = 2, in_b = 1, in_c = 0\<rparr>,
          \<lparr>in_kind = 40, in_a = 2, in_b = 8, in_c = 0\<rparr>, \<lparr>in_kind = 39, in_a = 1, in_b = 0, in_c = 0\<rparr>,
          \<lparr>in_kind = 0, in_a = 4, in_b = 1, in_c = 0\<rparr>, \<lparr>in_kind = 2, in_a = 5, in_b = 1, in_c = 4\<rparr>,
          \<lparr>in_kind = 1, in_a = 1, in_b = 5, in_c = 0\<rparr>, \<lparr>in_kind = 39, in_a = 1, in_b = 0, in_c = 0\<rparr>,
          \<lparr>in_kind = 44, in_a = 0, in_b = 0, in_c = 0\<rparr>],
       ch_consts = [0, 1], ch_num_registers = 7, ch_param_count = 1, ch_name = ''h'',
       ch_string_fixups = [], ch_layout_fixups = []\<rparr>,
      chunk_init_globals]
   \<and> map chunk_of (small_chunks branch_source) =
     [\<lparr>ch_code =
         [\<lparr>in_kind = 40, in_a = 0, in_b = 5, in_c = 0\<rparr>, \<lparr>in_kind = 0, in_a = 2, in_b = 0, in_c = 0\<rparr>,
          \<lparr>in_kind = 44, in_a = 2, in_b = 0, in_c = 0\<rparr>, \<lparr>in_kind = 1, in_a = 1, in_b = 3, in_c = 0\<rparr>,
          \<lparr>in_kind = 39, in_a = 8, in_b = 0, in_c = 0\<rparr>, \<lparr>in_kind = 0, in_a = 4, in_b = 1, in_c = 0\<rparr>,
          \<lparr>in_kind = 44, in_a = 4, in_b = 0, in_c = 0\<rparr>, \<lparr>in_kind = 1, in_a = 1, in_b = 5, in_c = 0\<rparr>],
       ch_consts = [1, 2], ch_num_registers = 6, ch_param_count = 1, ch_name = ''g'',
       ch_string_fixups = [], ch_layout_fixups = []\<rparr>,
      chunk_init_globals]"
  by code_simp

lemmas sum_source_code = small_codes [THEN conjunct1]
lemmas sum_source_registers = small_codes [THEN conjunct2, THEN conjunct1]
lemmas alias_code = small_codes [THEN conjunct2, THEN conjunct2, THEN conjunct1]
lemmas skip_code = small_codes [THEN conjunct2, THEN conjunct2, THEN conjunct2, THEN conjunct1]
lemmas branch_code = small_codes [THEN conjunct2, THEN conjunct2, THEN conjunct2, THEN conjunct2]

section \<open>A recursive sum\<close>

lemma sum_source_compiles: "compile_small sum_source = Inr (small_chunks sum_source)"
proof (cases "compile_small sum_source")
  case (Inl why)
  then have "map chunk_of (small_chunks sum_source) = []" by (simp add: small_chunks_def)
  then show ?thesis using sum_source_code by simp
qed (simp add: small_chunks_def)

lemma sum_source_cmps: "cmp_structs (struct_entries no_types) (ck_structs no_types) = Some []"
  by (simp add: no_types_def)

lemma sum_source_lookup:
  "bc_fn_table_try_lookup (un_fn_table (program_unit ck fuel plc conv imports modules [] sum_source)) ''sum'' = Some 0"
  by (simp add: bc_fn_table_try_lookup_def program_unit_def Let_def fn_table_of_def fn_decls_def sum_source_def
      unary_fn_def)

lemma sum_source_ok: "program_ok (program_unit ck fuel plc conv imports modules [] sum_source) [] sum_source"
proof -
  let ?U = "program_unit ck fuel plc conv imports modules [] sum_source"
  have arity: "arity_ok [1, 0] ?U ''sum'' 1" by (simp add: arity_ok_def sum_source_lookup)
  have pcs: "param_counts [] sum_source = [1, 0]"
    by (simp add: param_counts_def fn_decls_def sum_source_def unary_fn_def)
  have "list_all (\<lambda>fd. function_ok [1, 0] ?U fd \<and> CHR ''#'' \<notin> set (fd_name fd)) (fn_decls sum_source)"
    using arity
    by (simp add: fn_decls_def sum_source_def unary_fn_def function_ok_def name_of_def int_lit_def tree_ok_def)
  moreover have "global_decls 0 sum_source = []" by (simp add: sum_source_def unary_fn_def)
  ultimately show ?thesis by (simp add: program_ok_def pcs)
qed

lemma small_chunks_fit:
  assumes "map chunk_of (small_chunks tops) = cs" "list_all (\<lambda>c. length (ch_code c) < 2 ^ 32) cs"
    and "list_all (\<lambda>c. fc_next_reg (co_context c) \<le> 65536) (small_chunks tops)"
  shows "list_all chunk_fits (small_chunks tops)"
  using assms(2,3) unfolding assms(1) [symmetric]
  by (simp add: list_all_iff chunk_fits_def chunk_of_def Let_def BC_MAX_TOTAL_REGISTERS_def)

lemma sum_source_fits: "list_all chunk_fits (small_chunks sum_source)"
proof (rule small_chunks_fit [OF sum_source_code])
  have "r \<le> 65536" if "r \<in> set (map (\<lambda>c. fc_next_reg (co_context c)) (small_chunks sum_source))" for r
    using that unfolding sum_source_registers by auto
  then show "list_all (\<lambda>c. fc_next_reg (co_context c) \<le> 65536) (small_chunks sum_source)" by (auto simp: list_all_iff)
qed (simp add: chunk_init_globals_def)

lemmas sum_source_facts =
  sum_source_compiles [unfolded compile_small_def] sum_source_cmps sum_source_ok sum_source_fits


definition small_env :: "toplevel list \<Rightarrow> bc_env" where
  "small_env tops = demo_env\<lparr>ev_progs := [small_program tops]\<rparr>"

lemma more_opcodes:
  "bc_op_of 1 = Some (OpData BcOp_Move)" "bc_op_of 9 = Some (OpCmp BcOp_Lt)" "bc_op_of 39 = Some (OpCtl BcOp_Jump)"
  by (simp_all add: bc_op_of_def BcOp_Count_eq bc_op_table_def)

lemmas small_run = demo_run more_opcodes demo_env_def small_env_def small_program_def

lemma sum_source_runs: "bc_run_in_program 40 junk (small_env sum_source) 0 0 [3] mc = Finished (Returned True 6 mc)"
  by (simp add: small_run sum_source_code)

text \<open>The first state of a call of \<^verbatim>\<open>sum\<close>.\<close>

definition sum_first :: bc_vm where
  "sum_first =
     (let chunk = hd (pr_chunks (small_program sum_source))
      in \<lparr>vm_regs = (\<lambda>_. 0)(0 := 3),
          vm_frames = [\<lparr>fr_chunk = chunk, fr_reg_base = 0, fr_pc = 0, fr_dst_reg = 0\<rparr>],
          vm_next_free_reg = 7, vm_chunk = chunk, vm_reg_base = 0, vm_pc = 0, vm_mc = demo_machine\<rparr>)"

lemma sum_first_reachable: "bc_reachable no_modules (small_env sum_source) 0 (small_program sum_source) sum_first"
proof (rule bc_reachable.entry [of _ 0 "[3]" "\<lambda>_. 0" demo_machine])
  show "bc_entry (small_program sum_source) 0 [3] (\<lambda>_. 0) demo_machine = Running sum_first"
    by (auto simp: bc_entry_def small_program_def sum_source_code sum_first_def put_args_def zero_window_def
        BC_MAX_TOTAL_REGISTERS_def Let_def fun_eq_iff)
qed

lemma compiled_program_step_defined_witness:
  "bc_step no_modules (small_env sum_source) 0 (small_program sum_source) sum_first \<noteq> Ended Undefined"
  by (rule compiled_program_step_defined [OF sum_source_facts _ sum_first_reachable, where op = "OpCtl BcOp_JumpIfFalse"])
    (simp_all add: small_program_def sum_first_def sum_source_code bc_decode_def demo_opcodes register_only_def Let_def)

section \<open>Programs compiled wrongly\<close>



lemma out_of_fuel_step:
  "(\<And>run. bc_step run ev pid prog vm = Running vm') \<Longrightarrow>
   (\<And>n. n < fuel \<Longrightarrow> bc_loop n junk ev pid prog vm' = OutOfFuel) \<Longrightarrow> bc_loop fuel junk ev pid prog vm = OutOfFuel"
  by (cases fuel) simp_all

abbreviation skip_chunk :: bc_chunk where
  "skip_chunk \<equiv> hd (pr_chunks (small_program skip_source))"

lemma skip_step:
  assumes "vm_chunk vm = skip_chunk" "vm_reg_base vm = 0" "vm_regs vm 0 = x" "vm_regs vm 1 = 0" "0 <s x"
  shows "vm_pc vm = 1 \<Longrightarrow> bc_step run (small_env skip_source) 0 prog vm =
      Running (vm\<lparr>vm_regs := (vm_regs vm)(Suc (Suc 0) := 1), vm_pc := 2\<rparr>)"
    and "vm_pc vm = 2 \<Longrightarrow> vm_regs vm (Suc (Suc 0)) = 1 \<Longrightarrow> bc_step run (small_env skip_source) 0 prog vm = Running (vm\<lparr>vm_pc := 3\<rparr>)"
    and "vm_pc vm = 3 \<Longrightarrow> bc_step run (small_env skip_source) 0 prog vm = Running (vm\<lparr>vm_pc := 1\<rparr>)"
  using assms by (simp_all add: small_run skip_code bc_exec_cmp_def bool_reg_def)

lemma skip_loop:
  assumes "0 <s x"
  shows "vm_chunk vm = skip_chunk \<Longrightarrow> vm_reg_base vm = 0 \<Longrightarrow> vm_pc vm = 1 \<Longrightarrow> vm_regs vm 0 = x \<Longrightarrow> vm_regs vm 1 = 0 \<Longrightarrow>
    bc_loop fuel junk (small_env skip_source) 0 prog vm = OutOfFuel"
proof (induction fuel arbitrary: vm rule: less_induct)
  case (less fuel)
  show ?case
  proof (rule out_of_fuel_step [OF skip_step(1)], goal_cases)
    case (7 n)
    show ?case
    proof (rule out_of_fuel_step [OF skip_step(2)], goal_cases)
      case (8 k)
      show ?case
        by (rule out_of_fuel_step [OF skip_step(3)], goal_cases) (use less 7 8 assms in auto)
    qed (use less assms in auto)
  qed (use less assms in auto)
qed



end
