(* ===== verification/Spec2Isabelle.thy ===== *)
theory Spec2Isabelle
  imports Base_String Types VM_Props Hash_Table_Props Cache_Examples Format_Examples Layout_Fields Json_Round_Trip Diag Query_Props Lsp_Examples Bcgen_Examples
begin

text \<open>
  A model of the compiler, interpreter and tools of the language 3b (C sources under \<^verbatim>\<open>src/\<close>),
  with the theorems that make each part correct and those that hold of the parts together.

  \<^bold>\<open>The program.\<close>  A package is read by the lexer and parser into a flat tree, lowered to a
  typed tree and checked.  Two back ends read the checked tree: one prints C, the other
  (\<^verbatim>\<open>bcgen.c\<close>) emits bytecode, which \<^verbatim>\<open>bcvm.c\<close> interprets and \<^verbatim>\<open>bcio.c\<close> caches
  in files that are verified when they are read back.  The formatter reads the parser's tree and a
  side-channel of comments; the language server drives the library entry points of \<^verbatim>\<open>lib3b.c\<close>
  over JSON messages.  Strings, hash tables and arenas come from \<^verbatim>\<open>base/\<close>, their counterparts
  in compiled programs from \<^verbatim>\<open>runtime/\<close>.

  \<^bold>\<open>Conventions.\<close>  Machine integers are words and wrap; texts are character lists; the C error
  flags, null pointers, \<^verbatim>\<open>longjmp\<close> and failed assertions are option, sum or outcome values, so
  every early return is a branch.  Behaviour the C code leaves undefined is \<open>Undefined\<close> or
  \<open>None\<close>.  What lies outside the repository is a parameter: the platform record of the
  interpreter (memory allocation, libm, number formatting, floating point), host functions, where the
  allocator places a block.

  \<^bold>\<open>Theories and what they model.\<close>
  \<^item> \<^verbatim>\<open>Prelude\<close>, \<^verbatim>\<open>Base_String\<close> (\<^verbatim>\<open>base/base.c\<close> 39--48, 1176--1828): words, option and sum
    blocks, character classes, comparison, search and slicing of strings.  Search finds the first
    occurrence.
  \<^item> \<^verbatim>\<open>Types\<close> (\<^verbatim>\<open>3b.h\<close>, \<^verbatim>\<open>3b.c\<close>, \<^verbatim>\<open>checker.c\<close> 53--275): \<open>TypeRef\<close> and its operations;
    equality is equality of shapes, and a displayed type reads back as itself.
  \<^item> \<^verbatim>\<open>Bytecode\<close>, \<^verbatim>\<open>Machine\<close>, \<^verbatim>\<open>Map_Memory\<close>, \<^verbatim>\<open>Parse_Number\<close>, \<^verbatim>\<open>VM\<close>, \<^verbatim>\<open>Verifier\<close>,
    \<^verbatim>\<open>VM_Props\<close> (\<^verbatim>\<open>bytecode.h\<close>, \<^verbatim>\<open>base/base.h\<close>, \<^verbatim>\<open>bcmap.c\<close>, \<^verbatim>\<open>bcvm.c\<close>, the verifier of
    \<^verbatim>\<open>bcio.c\<close>): the machine is byte memory with accessibility plus arenas; \<open>bc_step\<close> is one
    round of the dispatch loop of \<^verbatim>\<open>bc_run_in_program\<close>, \<open>bc_loop\<close> the loop under fuel.
    A verified program stays in its code, frames never overlap, arenas never hand out live memory,
    both number readers agree with each other and with the decimal value.
  \<^item> \<^verbatim>\<open>Hash_Table\<close>, \<^verbatim>\<open>Hash_Table_Props\<close> (\<^verbatim>\<open>HashTable\<close> of \<^verbatim>\<open>base.c\<close>, the macros of
    \<^verbatim>\<open>runtime/bbb_hashtable.h\<close>): slot arrays with tombstones.  The locale \<open>hash_key\<close> is what
    the code needs of a key type; its interpretations are the key types the code uses, and every
    operation simulates the one on finite maps.
  \<^item> \<^verbatim>\<open>Struct_Table\<close>, \<^verbatim>\<open>Struct_Table_Props\<close>, \<^verbatim>\<open>Layout\<close>, \<^verbatim>\<open>Layout_Spec\<close>, \<^verbatim>\<open>Layout_Props\<close>,
    \<^verbatim>\<open>Layout_Fields\<close> (declaration tables of \<^verbatim>\<open>checker.c\<close>, \<^verbatim>\<open>layout.c\<close>): the depth-limited
    cycle check is exact, and on the packages it accepts the memoized layouts terminate and follow the
    System V rules.
  \<^item> \<^verbatim>\<open>Typed_Tree\<close>, \<^verbatim>\<open>Bcgen_Emit\<close>, \<^verbatim>\<open>Bcgen_Values\<close>, \<^verbatim>\<open>Bcgen_Nodes\<close>, \<^verbatim>\<open>Bcgen_Flow\<close>,
    \<^verbatim>\<open>Bcgen_Calls\<close>, \<^verbatim>\<open>Bcgen\<close>, \<^verbatim>\<open>Bcgen_Program\<close> (all of \<^verbatim>\<open>bcgen.c\<close>): the generator as
    actions of the state monad on \<open>bc_fn_ctx\<close>, the C structure \<^verbatim>\<open>BcFnCtx\<close>; one definition
    per helper and per case of \<^verbatim>\<open>bc_compile_expr\<close>, tied together by \<open>compile_node\<close>.
  \<^item> \<^verbatim>\<open>Bcgen_Safe\<close>, \<^verbatim>\<open>Bcgen_Safe_Values\<close>, \<^verbatim>\<open>Bcgen_Safe_Flow\<close>, \<^verbatim>\<open>Bcgen_Safe_Cases\<close>,
    \<^verbatim>\<open>Bcgen_Safe_Calls\<close>, \<^verbatim>\<open>Bcgen_Safe_Program\<close>, \<^verbatim>\<open>Bcgen_Verified\<close>, \<^verbatim>\<open>Bcgen_Examples\<close>: a
    triple \<open>safe pcs F m G\<close> for every action, by which the chunks of a program pass the verifier
    and use only registers of their windows; composed with the interpreter, their register steps are
    never undefined.  Concrete programs are compiled and run, three of them wrongly.
  \<^item> \<^verbatim>\<open>Cache_Format\<close>, \<^verbatim>\<open>Cache_Codec\<close>, \<^verbatim>\<open>Cache_Load\<close>, \<^verbatim>\<open>Cache_Props\<close>, \<^verbatim>\<open>Cache_Round_Trip\<close>,
    \<^verbatim>\<open>Cache_Examples\<close> (\<^verbatim>\<open>bcio.c\<close>, host signatures of \<^verbatim>\<open>bcgen.c\<close>): the cache file as bytes.  The
    locale of \<^verbatim>\<open>Cache_Codec\<close> is the contract of a field's codec, interpreted at every field type;
    a saved program is loaded back with its addresses relocated, a truncated file never.
  \<^item> \<^verbatim>\<open>Lexer\<close>, \<^verbatim>\<open>Parser\<close>, \<^verbatim>\<open>Lexer_Props\<close>, \<^verbatim>\<open>Parser_Props\<close>, \<^verbatim>\<open>Parser_Tree\<close>, \<^verbatim>\<open>Reader_Results\<close>,
    \<^verbatim>\<open>Atom\<close> (\<^verbatim>\<open>lexer.c\<close>, \<^verbatim>\<open>parser.c\<close>, \<^verbatim>\<open>atom.c\<close>): every text is read to its end, positions are
    right, the parser accepts exactly the well-bracketed texts and its tree is well formed on all.
  \<^item> \<^verbatim>\<open>Format\<close>, \<^verbatim>\<open>Format_Forms\<close>, \<^verbatim>\<open>Format_Scan\<close>, \<^verbatim>\<open>Format_Tree\<close>, \<^verbatim>\<open>Format_Contract\<close>,
    \<^verbatim>\<open>Format_Props\<close>, \<^verbatim>\<open>Format_Decls\<close>, \<^verbatim>\<open>Format_Results\<close>, \<^verbatim>\<open>Format_Examples\<close> (\<^verbatim>\<open>format.c\<close>): one
    printer per form under the contract of the dispatcher, a locale the dispatcher interprets; the
    formatted text has the tokens and comments of its source, outside the forms shown to lose code.
  \<^item> \<^verbatim>\<open>Json\<close>, \<^verbatim>\<open>Json_Props\<close>, \<^verbatim>\<open>Json_Round_Trip\<close>, \<^verbatim>\<open>Diag\<close>, \<^verbatim>\<open>Query_Text\<close>, \<^verbatim>\<open>Query_Props\<close>,
    \<^verbatim>\<open>Lsp_Wire\<close>, \<^verbatim>\<open>Lsp\<close>, \<^verbatim>\<open>Lsp_Props\<close>, \<^verbatim>\<open>Lsp_Diagnostics\<close>, \<^verbatim>\<open>Lsp_Requests\<close>, \<^verbatim>\<open>Lsp_Examples\<close>
    (\<^verbatim>\<open>lsp/\<close>, \<^verbatim>\<open>diag.c\<close>, the text side of \<^verbatim>\<open>lib3b.c\<close>): messages on a byte stream, documents, published
    diagnostics and the handlers; every request is answered once, what the client shows is the last
    report, a formatting edit gives the formatted document.

  \<^bold>\<open>Fuel.\<close>  Recursions on C data that need not be well founded carry fuel, and a theorem shows it
  suffices: \<open>3 * length + 4\<close> for the parser, the node count for trees, \<open>2 * length + 2\<close> for
  JSON, the settling bound of \<^verbatim>\<open>Layout_Props\<close> for layouts.  \<open>bc_loop\<close> takes fuel because a
  program may run forever; more fuel never changes a finished run (\<open>bc_run_fuel_irrelevant\<close>).

  \<^bold>\<open>Not modelled.\<close>  Lowering (\<^verbatim>\<open>lower.c\<close>) and the typing of expressions in \<^verbatim>\<open>checker.c\<close>: the
  generator's properties name what they rely on of a checked tree (\<open>program_ok\<close>).  The C back end
  (\<^verbatim>\<open>codegen.c\<close>), whose output needs a semantics of C.  The package compiler, build and script
  drivers, file access, host primitives, threads and files of the runtime, and the command line: effects
  of the operating system around modelled phases.  The C header translator, which reads a library that
  is not in the repository.  The UTF, list, path and formatting helpers of \<^verbatim>\<open>base.c\<close> that no
  modelled part calls, the heap and fixed-buffer arenas, tests and vendored example code.
\<close>

end
